(* ===== verification/Prelude.thy ===== *)
theory Prelude
  imports Complex_Main "HOL-Library.Word" "HOL-Library.Sublist" "HOL-Library.Char_ord"
    "HOL-Library.List_Lexorder"
begin

text \<open>
  Shared vocabulary of the development: the types that model Go's own types (byte strings,
  \<open>uint64\<close>, Ethereum addresses, unix milliseconds), results that carry an error, decimal printing
  and parsing as \<open>strconv\<close>, \<open>fmt\<close> and \<open>math/big\<close> do it, and the order facts about byte strings
  that the key scans of the storage layer rest on.
\<close>

section \<open>Types\<close>

text \<open>
  A Go \<open>[]byte\<close> or \<open>string\<close> is a list of 8-bit characters; \<open>common.Address\<close> is a 20-byte value and
  \<open>uint64\<close> a 64-bit word. \<open>big.Int\<close> is an \<open>int\<close>; a nil pointer is \<open>None\<close>.
\<close>

type_synonym bytes = string
type_synonym address = "160 word"
type_synonym uint64 = "64 word"

definition zero_address :: address where
  "zero_address = 0"

text \<open>Collections that the component theories fill and their proofs use.\<close>

named_theorems storage_laws \<open>what a storage operation does to the stored rows\<close>
named_theorems key_simps \<open>equations between storage keys\<close>
named_theorems budget_simps \<open>unfolding of the budget amount arithmetic\<close>

section \<open>Results with an error\<close>

text \<open>\<open>Inl\<close> is the early return with an error, \<open>Inr\<close> the value with a nil error.\<close>

fun bindE :: "'e + 'a \<Rightarrow> ('a \<Rightarrow> 'e + 'b) \<Rightarrow> 'e + 'b" where
  "bindE (Inl e) f = Inl e"
| "bindE (Inr x) f = f x"

lemma bindE_Inr_conv [simp]: "bindE m f = Inr y \<longleftrightarrow> (\<exists>x. m = Inr x \<and> f x = Inr y)"
  by (cases m) auto

lemma bindE_Inl_conv: "bindE m f = Inl e \<longleftrightarrow> m = Inl e \<or> (\<exists>x. m = Inr x \<and> f x = Inl e)"
  by (cases m) auto

lemma bindE_Inr_elim:
  assumes "bindE m f = Inr y"
  obtains x where "m = Inr x" and "f x = Inr y"
  using assms by (auto simp: bindE_Inr_conv)

definition guardE :: "bool \<Rightarrow> 'e \<Rightarrow> 'e + unit" where
  "guardE bad e = (if bad then Inl e else Inr ())"

lemma guardE_Inr [simp]: "guardE bad e = Inr u \<longleftrightarrow> \<not> bad"
  by (simp add: guardE_def)

lemma guardE_Inl [simp]: "guardE bad e = Inl e' \<longleftrightarrow> bad \<and> e' = e"
  by (auto simp: guardE_def)

lemma guardE_False [simp]: "guardE False e = Inr ()"
  by (simp add: guardE_def)

lemma guardE_True [simp]: "guardE True e = Inl e"
  by (simp add: guardE_def)

text \<open>The loop \<open>for _, x := range xs { ...; if err != nil { return err } }\<close> with an accumulator.\<close>

fun foldE :: "('a \<Rightarrow> 's \<Rightarrow> 'e + 's) \<Rightarrow> 'a list \<Rightarrow> 's \<Rightarrow> 'e + 's" where
  "foldE f [] s = Inr s"
| "foldE f (x # xs) s = bindE (f x s) (foldE f xs)"

lemma foldE_invariant:
  assumes "foldE f xs s = Inr t" and "P s"
    and "\<And>x s t. x \<in> set xs \<Longrightarrow> P s \<Longrightarrow> f x s = Inr t \<Longrightarrow> P t"
  shows "P t"
  using assms
proof (induction xs arbitrary: s)
  case Nil
  then show ?case by simp
next
  case (Cons x xs)
  from Cons.prems(1) obtain u where u: "f x s = Inr u" and rest: "foldE f xs u = Inr t"
    by (auto simp: bindE_Inr_conv)
  from Cons.prems(2,3) u have "P u" by auto
  from Cons.IH [OF rest this] Cons.prems(3) show ?case by auto
qed

lemma foldE_append: "foldE f (xs @ ys) s = bindE (foldE f xs s) (foldE f ys)"
proof (induction xs arbitrary: s)
  case Nil
  then show ?case by simp
next
  case (Cons x xs)
  then show ?case by (cases "f x s") auto
qed

section \<open>Decimal numerals\<close>

text \<open>
  \<open>strconv.FormatUint(n, 10)\<close>, \<open>fmt.Sprintf("%d", n)\<close> and \<open>big.Int.String()\<close> on a non-negative
  number: no sign, no leading zero, \<open>0\<close> for zero.
\<close>

definition digit :: "nat \<Rightarrow> char" where
  "digit d = char_of (48 + d)"

definition digit_val :: "char \<Rightarrow> nat" where
  "digit_val c = of_char c - 48"

definition is_digit :: "char \<Rightarrow> bool" where
  "is_digit c \<longleftrightarrow> 48 \<le> (of_char c :: nat) \<and> (of_char c :: nat) \<le> 57"

fun decimal :: "nat \<Rightarrow> string" where
  "decimal n = (if n < 10 then [digit n] else decimal (n div 10) @ [digit (n mod 10)])"

declare decimal.simps [simp del]

fun horner :: "nat \<Rightarrow> string \<Rightarrow> nat" where
  "horner acc [] = acc"
| "horner acc (c # cs) = horner (10 * acc + digit_val c) cs"

definition parse_decimal :: "string \<Rightarrow> nat option" where
  "parse_decimal s = (if s = [] \<or> \<not> list_all is_digit s then None else Some (horner 0 s))"

lemma of_char_digit: "d < 10 \<Longrightarrow> (of_char (digit d) :: nat) = 48 + d"
  by (simp add: digit_def)

lemma digit_val_digit [simp]: "d < 10 \<Longrightarrow> digit_val (digit d) = d"
  by (simp add: digit_val_def of_char_digit)

lemma is_digit_digit [simp]: "d < 10 \<Longrightarrow> is_digit (digit d)"
  by (simp add: is_digit_def of_char_digit)

lemma horner_append: "horner acc (s @ t) = horner (horner acc s) t"
  by (induction s arbitrary: acc) auto

lemma decimal_nonempty [simp]: "decimal n \<noteq> []"
  by (subst decimal.simps) simp

lemma decimal_digits [simp]: "list_all is_digit (decimal n)"
proof (induction n rule: decimal.induct)
  case (1 n)
  then show ?case by (subst decimal.simps) auto
qed

lemma horner_decimal: "horner 0 (decimal n) = n"
proof (induction n rule: decimal.induct)
  case (1 n)
  show ?case
  proof (cases "n < 10")
    case True
    then show ?thesis by (subst decimal.simps) simp
  next
    case False
    with 1 have "horner 0 (decimal (n div 10)) = n div 10" by simp
    with False show ?thesis by (subst decimal.simps) (simp add: horner_append)
  qed
qed

lemma parse_decimal_decimal [simp]: "parse_decimal (decimal n) = Some n"
  by (simp add: parse_decimal_def horner_decimal)

lemma decimal_inject [simp]: "decimal m = decimal n \<longleftrightarrow> m = n"
  by (metis horner_decimal)

lemma is_digit_not_colon [simp]: "\<not> is_digit (CHR '':'')"
  by (simp add: is_digit_def)

lemma decimal_no_colon: "CHR '':'' \<notin> set (decimal n)"
  using decimal_digits [of n] by (auto simp: list_all_iff)

text \<open>Strings cut at the first separator: the part before it and the part after are determined.\<close>

lemma append_sep_inject:
  assumes "c \<notin> set xs" and "c \<notin> set ys" and "xs @ c # as = ys @ c # bs"
  shows "xs = ys \<and> as = bs"
  using assms
proof (induction xs arbitrary: ys)
  case Nil
  then show ?case by (cases ys) auto
next
  case (Cons x xs)
  then show ?case by (cases ys) auto
qed

section \<open>Integer division\<close>

lemma int_div_mult_le: "0 < k \<Longrightarrow> (n div k) * k \<le> (n :: int)"
  using pos_mod_sign [of k n] by (simp add: minus_mod_eq_div_mult [symmetric])

lemma int_le_div_iff: "0 < k \<Longrightarrow> s \<le> n div k \<longleftrightarrow> s * k \<le> (n :: int)"
proof
  assume k: "0 < k" and "s \<le> n div k"
  then have "s * k \<le> (n div k) * k" by simp
  with int_div_mult_le [OF k, of n] show "s * k \<le> n" by linarith
next
  assume k: "0 < k" and "s * k \<le> n"
  then have "(s * k) div k \<le> n div k" by (intro zdiv_mono1)
  with k show "s \<le> n div k" by simp
qed

section \<open>Byte order and prefixes\<close>

lemma prefix_imp_le: "prefix p k \<Longrightarrow> p \<le> (k :: 'a :: linorder list)"
proof (induction p arbitrary: k)
  case (Cons a p)
  then show ?case by (cases k) auto
qed simp

lemma prefix_between:
  fixes p :: "'a :: linorder list"
  assumes "p \<le> k" and "k \<le> k'" and "prefix p k'"
  shows "prefix p k"
  using assms
proof (induction p arbitrary: k k')
  case Nil
  then show ?case by simp
next
  case (Cons a p)
  from Cons.prems(3) obtain r where "k' = a # r" and "prefix p r" by (cases k') auto
  moreover from Cons.prems(1) obtain b s where "k = b # s" by (cases k) auto
  ultimately show ?case using Cons by auto
qed

text \<open>
  A scan that seeks to the first key not below the prefix and stops at the first key without it
  visits exactly the keys that have the prefix, in order.
\<close>

definition seek :: "bytes \<Rightarrow> bytes list \<Rightarrow> bytes list" where
  "seek p ks = dropWhile (\<lambda>k. k < p) ks"

definition valid_for_prefix :: "bytes \<Rightarrow> bytes list \<Rightarrow> bytes list" where
  "valid_for_prefix p ks = takeWhile (prefix p) ks"

lemma valid_for_prefix_sorted:
  fixes p :: "'a :: linorder list"
  assumes "sorted_wrt (<) ks" and "\<forall>k\<in>set ks. p \<le> k"
  shows "takeWhile (prefix p) ks = filter (prefix p) ks"
  using assms
proof (induction ks)
  case Nil
  then show ?case by simp
next
  case (Cons k ks)
  show ?case
  proof (cases "prefix p k")
    case True
    with Cons show ?thesis by simp
  next
    case False
    have "\<not> prefix p k'" if "k' \<in> set ks" for k'
      using Cons.prems that False prefix_between [of p k k'] by fastforce
    with False show ?thesis by simp
  qed
qed

lemma scan_prefix:
  assumes "sorted_wrt (<) ks"
  shows "valid_for_prefix p (seek p ks) = filter (prefix p) ks"
  using assms
proof (induction ks)
  case Nil
  then show ?case by (simp add: seek_def valid_for_prefix_def)
next
  case (Cons k ks)
  show ?case
  proof (cases "k < p")
    case True
    then have "\<not> prefix p k" using prefix_imp_le [of p k] by (auto simp: not_less)
    with True Cons show ?thesis by (simp add: seek_def)
  next
    case False
    with Cons.prems have "\<forall>x\<in>set (k # ks). p \<le> x" by fastforce
    from valid_for_prefix_sorted [OF Cons.prems this] False show ?thesis
      by (simp add: seek_def valid_for_prefix_def)
  qed
qed

section \<open>Text helpers of the Go standard library\<close>

text \<open>\<open>strings.ToLower\<close> on ASCII text; the texts it is applied to are hexadecimal addresses.\<close>

definition lower_char :: "char \<Rightarrow> char" where
  "lower_char c = (let n = (of_char c :: nat) in if 65 \<le> n \<and> n \<le> 90 then char_of (n + 32) else c)"

definition to_lower :: "string \<Rightarrow> string" where
  "to_lower s = map lower_char s"

text \<open>\<open>strings.Contains\<close>\<close>

definition contains :: "string \<Rightarrow> string \<Rightarrow> bool" where
  "contains s sub \<longleftrightarrow> list_ex (\<lambda>n. prefix sub (drop n s)) [0..<Suc (length s)]"

text \<open>\<open>strings.ToLower(addr.Hex())\<close>: \<open>0x\<close> and forty hexadecimal digits, most significant first.\<close>

definition hex_digit :: "nat \<Rightarrow> char" where
  "hex_digit d = (if d < 10 then char_of (48 + d) else char_of (87 + d))"

fun hex_digits :: "nat \<Rightarrow> nat \<Rightarrow> string" where
  "hex_digits 0 n = []"
| "hex_digits (Suc k) n = hex_digits k (n div 16) @ [hex_digit (n mod 16)]"

definition lower_hex :: "address \<Rightarrow> string" where
  "lower_hex a = ''0x'' @ hex_digits 40 (unat a)"

lemma of_char_hex_digit: "d < 16 \<Longrightarrow> (of_char (hex_digit d) :: nat) = (if d < 10 then 48 + d else 87 + d)"
  by (simp add: hex_digit_def)

lemma hex_digit_inject: "d < 16 \<Longrightarrow> e < 16 \<Longrightarrow> hex_digit d = hex_digit e \<longleftrightarrow> d = e"
  by (auto simp: of_char_hex_digit dest!: arg_cong [where f = "of_char :: char \<Rightarrow> nat"]
      split: if_splits)

lemma hex_digits_inject:
  "m < 16 ^ k \<Longrightarrow> n < 16 ^ k \<Longrightarrow> hex_digits k m = hex_digits k n \<longleftrightarrow> m = n"
proof (induction k arbitrary: m n)
  case 0
  then show ?case by simp
next
  case (Suc k)
  then have "m div 16 < 16 ^ k" "n div 16 < 16 ^ k" by auto
  with Suc.IH have "hex_digits (Suc k) m = hex_digits (Suc k) n \<longleftrightarrow>
      m div 16 = n div 16 \<and> m mod 16 = n mod 16"
    by (simp add: hex_digit_inject)
  then show ?case by (metis div_mult_mod_eq)
qed

lemma length_hex_digits [simp]: "length (hex_digits k n) = k"
  by (induction k arbitrary: n) auto

lemma lower_hex_inject [simp]: "lower_hex a = lower_hex b \<longleftrightarrow> a = b"
proof -
  have "unat a < 16 ^ 40" "unat b < 16 ^ 40"
    using unsigned_less [of a] unsigned_less [of b] by auto
  then show ?thesis by (simp add: lower_hex_def hex_digits_inject word_unat_eq_iff)
qed

lemma hex_digits_no_colon: "CHR '':'' \<notin> set (hex_digits k n)"
proof (induction k arbitrary: n)
  case (Suc k)
  have "(of_char (hex_digit (n mod 16)) :: nat) \<noteq> of_char CHR '':''"
    by (simp add: of_char_hex_digit)
  then have "CHR '':'' \<noteq> hex_digit (n mod 16)" by metis
  with Suc show ?case by simp
qed simp

lemma lower_hex_no_colon [simp]: "CHR '':'' \<notin> set (lower_hex a)"
  by (simp add: lower_hex_def hex_digits_no_colon)

lemma length_lower_hex [simp]: "length (lower_hex a) = 42"
  by (simp add: lower_hex_def)

section \<open>Splitting at a separator\<close>

text \<open>\<open>strings.Split(s, ":")\<close> and \<open>strings.SplitN(s, ":", n)\<close> for \<open>n > 0\<close>.\<close>

fun split_at :: "char \<Rightarrow> string \<Rightarrow> string list" where
  "split_at c [] = [[]]"
| "split_at c (x # xs) = (if x = c then [] # split_at c xs
     else (case split_at c xs of [] \<Rightarrow> [[x]] | p # ps \<Rightarrow> (x # p) # ps))"

fun splitN_at :: "nat \<Rightarrow> char \<Rightarrow> string \<Rightarrow> string list" where
  "splitN_at 0 c s = []"
| "splitN_at (Suc 0) c s = [s]"
| "splitN_at (Suc (Suc n)) c s =
     (if c \<in> set s
      then takeWhile (\<lambda>x. x \<noteq> c) s # splitN_at (Suc n) c (tl (dropWhile (\<lambda>x. x \<noteq> c) s))
      else [s])"

declare splitN_at.simps(3) [simp del]

lemma split_at_none [simp]: "c \<notin> set s \<Longrightarrow> split_at c s = [s]"
  by (induction s) auto

lemma split_at_sep [simp]: "c \<notin> set s \<Longrightarrow> split_at c (s @ c # r) = s # split_at c r"
  by (induction s) auto

lemma splitN_at_none [simp]: "c \<notin> set s \<Longrightarrow> splitN_at (Suc n) c s = [s]"
  by (cases n) (auto simp: splitN_at.simps)

lemma takeWhile_sep: "c \<notin> set s \<Longrightarrow> takeWhile (\<lambda>x. x \<noteq> c) (s @ c # r) = s"
  by (induction s) auto

lemma dropWhile_sep: "c \<notin> set s \<Longrightarrow> dropWhile (\<lambda>x. x \<noteq> c) (s @ c # r) = c # r"
  by (induction s) auto

lemma splitN_at_sep [simp]:
  "c \<notin> set s \<Longrightarrow> splitN_at (Suc (Suc n)) c (s @ c # r) = s # splitN_at (Suc n) c r"
  by (simp add: splitN_at.simps takeWhile_sep dropWhile_sep)

section \<open>Signed decimals\<close>

text \<open>\<open>fmt.Sprintf("%d", n)\<close> on an \<open>int64\<close> and \<open>strconv.ParseInt(s, 10, 64)\<close>.\<close>

definition sdecimal :: "int \<Rightarrow> string" where
  "sdecimal n = (if n < 0 then CHR ''-'' # decimal (nat (- n)) else decimal (nat n))"

definition in_int64 :: "int \<Rightarrow> bool" where
  "in_int64 n \<longleftrightarrow> - (2 ^ 63) \<le> n \<and> n < 2 ^ 63"

definition parse_int64 :: "string \<Rightarrow> int option" where
  "parse_int64 s = (case (case s of
       c # cs \<Rightarrow> if c = CHR ''-'' then map_option (\<lambda>n. - int n) (parse_decimal cs)
                else if c = CHR ''+'' then map_option int (parse_decimal cs)
                else map_option int (parse_decimal s)
     | [] \<Rightarrow> None) of
       None \<Rightarrow> None
     | Some n \<Rightarrow> if in_int64 n then Some n else None)"

lemma decimal_Cons: "\<exists>c cs. decimal n = c # cs \<and> c \<noteq> CHR ''-'' \<and> c \<noteq> CHR ''+''"
proof -
  obtain c cs where d: "decimal n = c # cs" using decimal_nonempty [of n] by (cases "decimal n") auto
  then have "is_digit c" using decimal_digits [of n] by simp
  then have "c \<noteq> CHR ''-''" "c \<noteq> CHR ''+''" by (auto simp: is_digit_def)
  with d show ?thesis by blast
qed

lemma parse_int64_sdecimal [simp]: "in_int64 n \<Longrightarrow> parse_int64 (sdecimal n) = Some n"
proof (cases "n < 0")
  case True
  moreover assume "in_int64 n"
  ultimately show ?thesis by (simp add: parse_int64_def sdecimal_def)
next
  case False
  moreover assume "in_int64 n"
  moreover obtain c cs where "decimal (nat n) = c # cs" "c \<noteq> CHR ''-''" "c \<noteq> CHR ''+''"
    using decimal_Cons by blast
  moreover have "parse_decimal (decimal (nat n)) = Some (nat n)" by simp
  ultimately show ?thesis by (simp add: parse_int64_def sdecimal_def)
qed

lemma sdecimal_no_colon [simp]: "CHR '':'' \<notin> set (sdecimal n)"
  by (simp add: sdecimal_def decimal_no_colon)

lemma sdecimal_inject [simp]: "sdecimal m = sdecimal n \<longleftrightarrow> m = n"
proof
  assume eq: "sdecimal m = sdecimal n"
  obtain c cs where "decimal (nat m) = c # cs" "c \<noteq> CHR ''-''" using decimal_Cons by blast
  moreover obtain e es where "decimal (nat n) = e # es" "e \<noteq> CHR ''-''" using decimal_Cons by blast
  ultimately have "m < 0 \<longleftrightarrow> n < 0"
    using eq by (auto simp: sdecimal_def split: if_splits)
  then show "m = n" using eq by (auto simp: sdecimal_def split: if_splits)
qed simp

section \<open>Arbitrary precision decimals\<close>

text \<open>
  \<open>new(big.Int).SetString(s, 10)\<close>: an optional sign and at least one digit, nothing else (no
  underscores in an explicit base); \<open>None\<close> is \<open>ok == false\<close>. \<open>big.Int.String()\<close> is \<open>sdecimal\<close>.
\<close>

definition parse_bigint :: "string \<Rightarrow> int option" where
  "parse_bigint s = (case s of
       c # cs \<Rightarrow> if c = CHR ''-'' then map_option (\<lambda>n. - int n) (parse_decimal cs)
                else if c = CHR ''+'' then map_option int (parse_decimal cs)
                else map_option int (parse_decimal s)
     | [] \<Rightarrow> None)"

lemma parse_bigint_sdecimal [simp]: "parse_bigint (sdecimal n) = Some n"
proof (cases "n < 0")
  case True
  then show ?thesis by (simp add: parse_bigint_def sdecimal_def)
next
  case False
  moreover obtain c cs where "decimal (nat n) = c # cs" "c \<noteq> CHR ''-''" "c \<noteq> CHR ''+''"
    using decimal_Cons by blast
  moreover have "parse_decimal (decimal (nat n)) = Some (nat n)" by simp
  ultimately show ?thesis by (simp add: parse_bigint_def sdecimal_def)
qed

text \<open>Go's wrap-around of a 64-bit signed result.\<close>

definition wrap_int64 :: "int \<Rightarrow> int" where
  "wrap_int64 n = (n + 2 ^ 63) mod 2 ^ 64 - 2 ^ 63"

lemma wrap_int64_id: "in_int64 n \<Longrightarrow> wrap_int64 n = n"
  by (simp add: wrap_int64_def in_int64_def)

lemma wrap_int64_range: "in_int64 (wrap_int64 n)"
  using pos_mod_bound [of "2 ^ 64" "n + 2 ^ 63"] pos_mod_sign [of "2 ^ 64" "n + 2 ^ 63"]
  by (auto simp: wrap_int64_def in_int64_def)

definition ascii :: "string \<Rightarrow> bool" where
  "ascii s \<longleftrightarrow> list_all (\<lambda>c. of_char c < (128 :: nat)) s"

lemma ascii_sdecimal [simp]: "ascii (sdecimal n)"
proof -
  have "ascii (decimal m)" for m
    using decimal_digits [of m] by (auto simp: ascii_def list_all_iff is_digit_def)
  then show ?thesis by (simp add: sdecimal_def ascii_def)
qed

section \<open>Big-endian bytes\<close>

text \<open>The \<open>k\<close> low bytes of a number, most significant first: \<open>FillBytes\<close> and \<open>binary.BigEndian\<close>.\<close>

fun be_bytes :: "nat \<Rightarrow> nat \<Rightarrow> bytes" where
  "be_bytes 0 n = []"
| "be_bytes (Suc k) n = be_bytes k (n div 256) @ [char_of (n mod 256)]"

lemma length_be_bytes [simp]: "length (be_bytes k n) = k"
  by (induction k arbitrary: n) auto

lemma char_of_byte: "m < 256 \<Longrightarrow> n < 256 \<Longrightarrow> char_of (m :: nat) = char_of n \<longleftrightarrow> m = n"
  by (metis of_char_of mod_less)

lemma be_bytes_inject: "m < 256 ^ k \<Longrightarrow> n < 256 ^ k \<Longrightarrow> be_bytes k m = be_bytes k n \<longleftrightarrow> m = n"
proof (induction k arbitrary: m n)
  case (Suc k)
  then have "m div 256 < 256 ^ k" "n div 256 < 256 ^ k" by (auto simp: less_mult_imp_div_less mult.commute)
  with Suc.IH have "be_bytes (Suc k) m = be_bytes (Suc k) n \<longleftrightarrow> m div 256 = n div 256 \<and> m mod 256 = n mod 256"
    by (simp add: char_of_byte del: char_of_mod_256)
  then show ?case by (metis div_mult_mod_eq)
qed simp

fun be_nat :: "bytes \<Rightarrow> nat" where
  "be_nat bs = foldl (\<lambda>acc c. acc * 256 + of_char c) 0 bs"

declare be_nat.simps [simp del]

lemma foldl_be: "foldl (\<lambda>acc c. acc * 256 + of_char c) a bs = a * 256 ^ length bs + (be_nat bs)"
proof (induction bs rule: rev_induct)
  case (snoc c bs)
  then show ?case by (simp add: be_nat.simps algebra_simps)
qed (simp add: be_nat.simps)

lemma be_nat_append: "be_nat (as @ bs) = be_nat as * 256 ^ length bs + be_nat bs"
  using foldl_be [of "be_nat as" bs] by (simp add: be_nat.simps)

lemma be_nat_be_bytes: "be_nat (be_bytes k n) = n mod 256 ^ k"
proof (induction k arbitrary: n)
  case (Suc k)
  have "be_nat (be_bytes (Suc k) n) = (n div 256) mod 256 ^ k * 256 + n mod 256"
    using Suc.IH [of "n div 256"] by (simp add: be_nat_append) (simp add: be_nat.simps)
  then show ?case by (simp add: mod_mult2_eq mult.commute)
qed (simp add: be_nat.simps)

end
