(* ===== verification/Storage.thy ===== *)
theory Storage
  imports Prelude
begin

text \<open>
  The storage layer, \<open>storage/db.go\<close> and \<open>storage/schema\<close>. \<open>BadgerStorage\<close> is a thin layer over the
  third-party BadgerDB; BadgerDB itself is a parameter of the model, the record \<open>badger\<close>, and what
  the code relies on of it is the predicate \<open>badger_ok\<close>. Each method of \<open>BadgerStorage\<close> is one
  definition over that parameter. The locale \<open>storage\<close> states what a client may assume of the
  methods in terms of the stored rows; \<open>badger_storage\<close> proves it of the model for every lawful
  BadgerDB, and the interpretation \<open>mem\<close> instantiates it with an in-memory store.
\<close>

section \<open>BadgerDB, the parameter\<close>

datatype serr = ErrKeyNotFound | ErrTxnTooBig | BadgerErr string
  | ErrInvalidCounter | ErrEmptyPrefix | ErrVisit string

text \<open>
  \<open>'d\<close> is the contents of the database as a transaction sees it. \<open>txn_begin\<close> is the error of
  \<open>db.View\<close> and \<open>db.Update\<close> before the closure runs (a closed database), \<open>txn_commit d t\<close> the
  outcome of committing the transaction state \<open>t\<close> on the database \<open>d\<close>, and \<open>iter_keys\<close> the keys in
  the order the default iterator visits them.
\<close>

record 'd badger =
  txn_begin :: "'d \<Rightarrow> serr option"
  txn_get :: "'d \<Rightarrow> bytes \<Rightarrow> serr + bytes"
  txn_set :: "'d \<Rightarrow> bytes \<Rightarrow> bytes \<Rightarrow> serr + 'd"
  txn_delete :: "'d \<Rightarrow> bytes \<Rightarrow> serr + 'd"
  txn_commit :: "'d \<Rightarrow> 'd \<Rightarrow> serr + 'd"
  iter_keys :: "'d \<Rightarrow> bytes list"

definition badger_ok :: "'d badger \<Rightarrow> bool" where
  "badger_ok B \<longleftrightarrow>
     (\<forall>d k v t k'. txn_set B d k v = Inr t \<longrightarrow>
        txn_get B t k' = (if k' = k then Inr v else txn_get B d k')) \<and>
     (\<forall>d k t k'. txn_delete B d k = Inr t \<longrightarrow>
        txn_get B t k' = (if k' = k then Inl ErrKeyNotFound else txn_get B d k')) \<and>
     (\<forall>d t d' k. txn_commit B d t = Inr d' \<longrightarrow> txn_get B d' k = txn_get B t k) \<and>
     (\<forall>d. txn_begin B d \<noteq> Some ErrKeyNotFound) \<and>
     (\<forall>d k v. txn_set B d k v \<noteq> Inl ErrKeyNotFound) \<and>
     (\<forall>d k. txn_delete B d k \<noteq> Inl ErrKeyNotFound) \<and>
     (\<forall>d t. txn_commit B d t \<noteq> Inl ErrKeyNotFound) \<and>
     (\<forall>d. sorted_wrt (<) (iter_keys B d)) \<and>
     (\<forall>d k. k \<in> set (iter_keys B d) \<longleftrightarrow> txn_get B d k \<noteq> Inl ErrKeyNotFound)"

definition View :: "'d badger \<Rightarrow> 'd \<Rightarrow> ('d \<Rightarrow> serr + 'a) \<Rightarrow> serr + 'a" where
  "View B d f = (case txn_begin B d of Some e \<Rightarrow> Inl e | None \<Rightarrow> f d)"

text \<open>A closure that fails discards the transaction: the error is all that is returned.\<close>

definition Update :: "'d badger \<Rightarrow> 'd \<Rightarrow> ('d \<Rightarrow> serr + 'd) \<Rightarrow> serr + 'd" where
  "Update B d f = (case txn_begin B d of Some e \<Rightarrow> Inl e
     | None \<Rightarrow> bindE (f d) (txn_commit B d))"

definition iter_prefix :: "'d badger \<Rightarrow> 'd \<Rightarrow> bytes \<Rightarrow> bytes list" where
  "iter_prefix B d p = valid_for_prefix p (seek p (iter_keys B d))"

section \<open>The methods of BadgerStorage\<close>

definition StorageSet :: "'d badger \<Rightarrow> 'd \<Rightarrow> bytes \<Rightarrow> bytes \<Rightarrow> serr + 'd" where
  "StorageSet B d key value = Update B d (\<lambda>txn. txn_set B txn key value)"

definition StorageDelete :: "'d badger \<Rightarrow> 'd \<Rightarrow> bytes \<Rightarrow> serr + 'd" where
  "StorageDelete B d key = Update B d (\<lambda>txn. txn_delete B txn key)"

text \<open>
  \<open>BatchWrite\<close> ranges over a Go map, so \<open>updates\<close> is listed in whatever order the runtime visits it.
  The loop carries the committed database and the open transaction. Only \<open>ErrTxnTooBig\<close> is acted on;
  every other \<open>Set\<close> error and every commit error is dropped.
\<close>

definition commit_ignore :: "'d badger \<Rightarrow> 'd \<Rightarrow> 'd \<Rightarrow> 'd" where
  "commit_ignore B d txn = (case txn_commit B d txn of Inl _ \<Rightarrow> d | Inr d' \<Rightarrow> d')"

fun batch_loop :: "'d badger \<Rightarrow> (bytes \<times> bytes) list \<Rightarrow> 'd \<Rightarrow> 'd \<Rightarrow> 'd \<times> 'd" where
  "batch_loop B [] d txn = (d, txn)"
| "batch_loop B ((k, v) # us) d txn =
     (case txn_set B txn k v of
        Inr txn' \<Rightarrow> batch_loop B us d txn'
      | Inl e \<Rightarrow>
          if e = ErrTxnTooBig
          then (let d' = commit_ignore B d txn
                in batch_loop B us d' (case txn_set B d' k v of Inl _ \<Rightarrow> d' | Inr t \<Rightarrow> t))
          else batch_loop B us d txn)"

definition BatchWrite :: "'d badger \<Rightarrow> 'd \<Rightarrow> (bytes \<times> bytes) list \<Rightarrow> serr + 'd" where
  "BatchWrite B d updates =
     (let (d', txn) = batch_loop B updates d d in Inr (commit_ignore B d' txn))"

definition AtomicWrite :: "'d badger \<Rightarrow> 'd \<Rightarrow> (bytes \<times> bytes) list \<Rightarrow> bytes list \<Rightarrow> serr + 'd" where
  "AtomicWrite B d updates deletes =
     Update B d (\<lambda>txn. bindE (foldE (\<lambda>(k, v) t. txn_set B t k v) updates txn)
       (foldE (\<lambda>k t. txn_delete B t k) deletes))"

fun copy_values :: "'d badger \<Rightarrow> 'd \<Rightarrow> bytes list \<Rightarrow> serr + (bytes \<times> bytes) list" where
  "copy_values B d [] = Inr []"
| "copy_values B d (k # ks) =
     bindE (txn_get B d k) (\<lambda>v. bindE (copy_values B d ks) (\<lambda>rows. Inr ((k, v) # rows)))"

definition GetByPrefix :: "'d badger \<Rightarrow> 'd \<Rightarrow> bytes \<Rightarrow> serr + (bytes \<times> bytes) list" where
  "GetByPrefix B d p = View B d (\<lambda>txn. copy_values B txn (iter_prefix B txn p))"

fun visit_keys :: "(bytes \<Rightarrow> 's \<Rightarrow> serr + 's) \<Rightarrow> bytes list \<Rightarrow> 's \<Rightarrow> serr + 's" where
  "visit_keys visit [] s = Inr s"
| "visit_keys visit (k # ks) s = bindE (visit k s) (visit_keys visit ks)"

definition IterateKeysOnly ::
  "'d badger \<Rightarrow> 'd \<Rightarrow> bytes \<Rightarrow> (bytes \<Rightarrow> 's \<Rightarrow> serr + 's) \<Rightarrow> 's \<Rightarrow> serr + 's" where
  "IterateKeysOnly B d p visit s = View B d (\<lambda>txn. visit_keys visit (iter_prefix B txn p) s)"

definition GetKeyHasPrefix :: "'d badger \<Rightarrow> 'd \<Rightarrow> bytes \<Rightarrow> serr + bytes list" where
  "GetKeyHasPrefix B d p = View B d (\<lambda>txn. Inr (iter_prefix B txn p))"

definition CountKeysByPrefix :: "'d badger \<Rightarrow> 'd \<Rightarrow> bytes \<Rightarrow> serr + int" where
  "CountKeysByPrefix B d p =
     (if p = [] then Inl ErrEmptyPrefix
      else View B d (\<lambda>txn. Inr (int (length (iter_prefix B txn p)))))"

definition CountKeysByPrefixes :: "'d badger \<Rightarrow> 'd \<Rightarrow> bytes list \<Rightarrow> serr + int" where
  "CountKeysByPrefixes B d ps =
     foldE (\<lambda>p total. bindE (CountKeysByPrefix B d p) (\<lambda>c. Inr (total + c))) ps 0"

definition Exist :: "'d badger \<Rightarrow> 'd \<Rightarrow> bytes \<Rightarrow> serr + bool" where
  "Exist B d key = View B d (\<lambda>txn. case txn_get B txn key of
       Inl e \<Rightarrow> if e = ErrKeyNotFound then Inr False else Inl e
     | Inr _ \<Rightarrow> Inr True)"

definition GetKey :: "'d badger \<Rightarrow> 'd \<Rightarrow> bytes \<Rightarrow> serr + bytes" where
  "GetKey B d key = View B d (\<lambda>txn. txn_get B txn key)"

text \<open>\<open>Inr None\<close> is the triple \<open>nil, nil, nil\<close>: no key has the prefix.\<close>

definition FirstKVHasPrefix :: "'d badger \<Rightarrow> 'd \<Rightarrow> bytes \<Rightarrow> serr + (bytes \<times> bytes) option" where
  "FirstKVHasPrefix B d p = View B d (\<lambda>txn. case seek p (iter_keys B txn) of
       [] \<Rightarrow> Inr None
     | k # _ \<Rightarrow> if \<not> prefix p k then Inr None
         else bindE (txn_get B txn k) (\<lambda>v. Inr (Some (k, v))))"

definition Move :: "'d badger \<Rightarrow> 'd \<Rightarrow> bytes \<Rightarrow> bytes \<Rightarrow> serr + 'd" where
  "Move B d src dest = Update B d (\<lambda>txn.
     bindE (txn_get B txn src) (\<lambda>b.
     bindE (txn_delete B txn src) (\<lambda>txn'. txn_set B txn' dest b)))"

definition ListKeys :: "'d badger \<Rightarrow> 'd \<Rightarrow> string \<Rightarrow> serr + string list" where
  "ListKeys B d p =
     (let q = (if p = ''*'' then [] else if suffix ''*'' p then butlast p else p)
      in View B d (\<lambda>txn. Inr (iter_prefix B txn q)))"

fun ListKeysMulti :: "'d badger \<Rightarrow> 'd \<Rightarrow> string list \<Rightarrow> string list" where
  "ListKeysMulti B d [] = []"
| "ListKeysMulti B d (p # ps) =
     (if p = [] then ListKeysMulti B d ps
      else case ListKeys B d p of
             Inl _ \<Rightarrow> ListKeysMulti B d ps
           | Inr ks \<Rightarrow> ks @ ListKeysMulti B d ps)"

text \<open>\<open>strconv.ParseUint(s, 10, 64)\<close> and \<open>strconv.FormatUint(n, 10)\<close>.\<close>

definition parse_uint64 :: "string \<Rightarrow> uint64 option" where
  "parse_uint64 s = (case parse_decimal s of None \<Rightarrow> None
     | Some n \<Rightarrow> if n < 2 ^ 64 then Some (word_of_nat n) else None)"

definition format_uint64 :: "uint64 \<Rightarrow> string" where
  "format_uint64 w = decimal (unat w)"

definition read_counter :: "bytes \<Rightarrow> serr + uint64" where
  "read_counter val = (case parse_uint64 val of None \<Rightarrow> Inl ErrInvalidCounter | Some c \<Rightarrow> Inr c)"

definition GetCounter :: "'d badger \<Rightarrow> 'd \<Rightarrow> bytes \<Rightarrow> uint64 option \<Rightarrow> serr + uint64" where
  "GetCounter B d key defaultValue = View B d (\<lambda>txn. case txn_get B txn key of
       Inl e \<Rightarrow> (if e = ErrKeyNotFound
          then (case defaultValue of Some dv \<Rightarrow> Inr dv | None \<Rightarrow> Inl e) else Inl e)
     | Inr val \<Rightarrow> read_counter val)"

definition inc_value :: "'d badger \<Rightarrow> 'd \<Rightarrow> bytes \<Rightarrow> uint64 option \<Rightarrow> serr + uint64" where
  "inc_value B txn key defaultValue = (case txn_get B txn key of
       Inl e \<Rightarrow> (if e = ErrKeyNotFound
          then Inr ((case defaultValue of Some dv \<Rightarrow> dv | None \<Rightarrow> 0) + 1) else Inl e)
     | Inr val \<Rightarrow> bindE (read_counter val) (\<lambda>c. Inr (c + 1)))"

definition IncCounter :: "'d badger \<Rightarrow> 'd \<Rightarrow> bytes \<Rightarrow> uint64 option \<Rightarrow> serr + uint64 \<times> 'd" where
  "IncCounter B d key defaultValue = (case txn_begin B d of Some e \<Rightarrow> Inl e
     | None \<Rightarrow> bindE (inc_value B d key defaultValue) (\<lambda>newValue.
         bindE (bindE (txn_set B d key (format_uint64 newValue)) (txn_commit B d))
           (\<lambda>d'. Inr (newValue, d'))))"

definition SetCounter :: "'d badger \<Rightarrow> 'd \<Rightarrow> bytes \<Rightarrow> uint64 \<Rightarrow> serr + 'd" where
  "SetCounter B d key value = Update B d (\<lambda>txn. txn_set B txn key (format_uint64 value))"

section \<open>What the methods promise\<close>

text \<open>The stored rows, as the abstract state of the storage component.\<close>

definition rows_of :: "'d badger \<Rightarrow> 'd \<Rightarrow> bytes \<rightharpoonup> bytes" where
  "rows_of B d k = (case txn_get B d k of Inr v \<Rightarrow> Some v | Inl _ \<Rightarrow> None)"

text \<open>
  The contract of the methods the clients call, over any abstract state. \<open>Move\<close> is one transaction:
  it either fails and changes nothing, or takes the row from its source to its destination.
\<close>

locale storage =
  fixes abs :: "'d \<Rightarrow> bytes \<rightharpoonup> bytes"
    and getKey :: "'d \<Rightarrow> bytes \<Rightarrow> serr + bytes"
    and setKey :: "'d \<Rightarrow> bytes \<Rightarrow> bytes \<Rightarrow> serr + 'd"
    and deleteKey :: "'d \<Rightarrow> bytes \<Rightarrow> serr + 'd"
    and moveKey :: "'d \<Rightarrow> bytes \<Rightarrow> bytes \<Rightarrow> serr + 'd"
    and byPrefix :: "'d \<Rightarrow> bytes \<Rightarrow> serr + (bytes \<times> bytes) list"
    and firstKV :: "'d \<Rightarrow> bytes \<Rightarrow> serr + (bytes \<times> bytes) option"
  assumes get_hit: "getKey d k = Inr v \<Longrightarrow> abs d k = Some v"
    and get_miss: "getKey d k = Inl ErrKeyNotFound \<Longrightarrow> abs d k = None"
    and set_abs: "setKey d k v = Inr d' \<Longrightarrow> abs d' = (abs d)(k \<mapsto> v)"
    and delete_abs: "deleteKey d k = Inr d' \<Longrightarrow> abs d' = (abs d)(k := None)"
    and move_abs: "moveKey d s t = Inr d' \<Longrightarrow>
          \<exists>v. abs d s = Some v \<and> abs d' = (abs d)(s := None, t \<mapsto> v)"
    and move_miss: "moveKey d s t = Inl ErrKeyNotFound \<Longrightarrow> abs d s = None"
    and byPrefix_sorted: "byPrefix d p = Inr rows \<Longrightarrow> sorted_wrt (<) (map fst rows)"
    and byPrefix_set: "byPrefix d p = Inr rows \<Longrightarrow>
          set rows = {(k, v). prefix p k \<and> abs d k = Some v}"
    and firstKV_Some: "firstKV d p = Inr (Some (k, v)) \<Longrightarrow>
          prefix p k \<and> abs d k = Some v \<and>
          (\<forall>k' v'. prefix p k' \<longrightarrow> abs d k' = Some v' \<longrightarrow> k \<le> k')"
    and firstKV_None: "firstKV d p = Inr None \<Longrightarrow> prefix p k \<Longrightarrow> abs d k = None"
begin

lemma get_after_set: "setKey d k v = Inr d' \<Longrightarrow> getKey d' k = Inr w \<Longrightarrow> w = v"
  using set_abs get_hit by fastforce

lemma get_after_delete: "deleteKey d k = Inr d' \<Longrightarrow> getKey d' k \<noteq> Inr w"
  using delete_abs get_hit by fastforce

lemma move_frame: "moveKey d s t = Inr d' \<Longrightarrow> k \<noteq> s \<Longrightarrow> k \<noteq> t \<Longrightarrow> abs d' k = abs d k"
  using move_abs by fastforce

lemma move_target: "moveKey d s t = Inr d' \<Longrightarrow> abs d' t = abs d s \<and> abs d s \<noteq> None"
  using move_abs by fastforce

lemma move_source: "moveKey d s t = Inr d' \<Longrightarrow> s \<noteq> t \<Longrightarrow> abs d' s = None"
  using move_abs by fastforce

lemma firstKV_least_row:
  assumes "byPrefix d p = Inr rows" and "firstKV d p = Inr (Some (k, v))"
  shows "(k, v) \<in> set rows \<and> (\<forall>(k', v') \<in> set rows. k \<le> k')"
  using byPrefix_set [OF assms(1)] firstKV_Some [OF assms(2)] by auto

end

subsection \<open>BadgerStorage keeps the contract\<close>

lemma badger_setD: "badger_ok B \<Longrightarrow> txn_set B d k v = Inr t \<Longrightarrow>
    txn_get B t k' = (if k' = k then Inr v else txn_get B d k')"
  and badger_deleteD: "badger_ok B \<Longrightarrow> txn_delete B d k = Inr t \<Longrightarrow>
    txn_get B t k' = (if k' = k then Inl ErrKeyNotFound else txn_get B d k')"
  and badger_commitD: "badger_ok B \<Longrightarrow> txn_commit B d t = Inr d' \<Longrightarrow> txn_get B d' k = txn_get B t k"
  and badger_sorted: "badger_ok B \<Longrightarrow> sorted_wrt (<) (iter_keys B d)"
  and badger_keys: "badger_ok B \<Longrightarrow>
    k \<in> set (iter_keys B d) \<longleftrightarrow> txn_get B d k \<noteq> Inl ErrKeyNotFound"
  by (simp_all add: badger_ok_def)

lemma badger_not_found:
  assumes "badger_ok B"
  shows "txn_begin B d \<noteq> Some ErrKeyNotFound" "txn_set B d k v \<noteq> Inl ErrKeyNotFound"
    "txn_delete B d k \<noteq> Inl ErrKeyNotFound" "txn_commit B d t \<noteq> Inl ErrKeyNotFound"
  using assms by (simp_all add: badger_ok_def)

lemma rows_of_set [storage_laws]:
  "badger_ok B \<Longrightarrow> txn_set B d k v = Inr t \<Longrightarrow> rows_of B t = (rows_of B d)(k \<mapsto> v)"
  by (auto simp: rows_of_def fun_eq_iff badger_setD)

lemma rows_of_delete [storage_laws]:
  "badger_ok B \<Longrightarrow> txn_delete B d k = Inr t \<Longrightarrow> rows_of B t = (rows_of B d)(k := None)"
  by (auto simp: rows_of_def fun_eq_iff badger_deleteD)

lemma rows_of_commit [storage_laws]:
  "badger_ok B \<Longrightarrow> txn_commit B d t = Inr d' \<Longrightarrow> rows_of B d' = rows_of B t"
  by (auto simp: rows_of_def fun_eq_iff badger_commitD)

lemma Update_rows:
  assumes "badger_ok B" and "Update B d f = Inr d'"
  obtains t where "f d = Inr t" and "rows_of B d' = rows_of B t"
  using assms by (auto simp: Update_def bindE_Inr_conv split: option.splits intro: rows_of_commit)

lemma iter_prefix_filter:
  "badger_ok B \<Longrightarrow> iter_prefix B d p = filter (prefix p) (iter_keys B d)"
  by (simp add: iter_prefix_def scan_prefix badger_sorted)

lemma iter_prefix_sorted: "badger_ok B \<Longrightarrow> sorted_wrt (<) (iter_prefix B d p)"
  by (simp add: iter_prefix_filter sorted_wrt_filter badger_sorted)

lemma copy_values_Inr:
  "copy_values B d ks = Inr rows \<longleftrightarrow>
     map fst rows = ks \<and> (\<forall>(k, v) \<in> set rows. txn_get B d k = Inr v)"
proof (induction ks arbitrary: rows)
  case Nil
  then show ?case by auto
next
  case (Cons k ks)
  show ?case
    by (cases rows) (auto simp: bindE_Inr_conv Cons.IH)
qed

lemma GetByPrefix_Inr:
  assumes "badger_ok B" and "GetByPrefix B d p = Inr rows"
  shows "map fst rows = iter_prefix B d p" and "\<forall>(k, v) \<in> set rows. txn_get B d k = Inr v"
  using assms(2) by (auto simp: GetByPrefix_def View_def copy_values_Inr split: option.splits)

lemma rows_of_Some: "rows_of B d k = Some v \<longleftrightarrow> txn_get B d k = Inr v"
  by (auto simp: rows_of_def split: sum.splits)

lemma GetByPrefix_rows:
  assumes "badger_ok B" and "GetByPrefix B d p = Inr rows"
  shows "set rows = {(k, v). prefix p k \<and> rows_of B d k = Some v}"
proof -
  note g = GetByPrefix_Inr [OF assms]
  have keys: "fst ` set rows = {k. prefix p k \<and> txn_get B d k \<noteq> Inl ErrKeyNotFound}"
    using arg_cong [OF g(1), of set] by (auto simp: iter_prefix_filter assms(1) badger_keys)
  show ?thesis
  proof (intro set_eqI iffI)
    fix kv assume "kv \<in> set rows"
    then have "fst kv \<in> fst ` set rows" and "txn_get B d (fst kv) = Inr (snd kv)"
      using g(2) by auto
    then show "kv \<in> {(k, v). prefix p k \<and> rows_of B d k = Some v}"
      unfolding keys by (auto simp: rows_of_Some split: prod.splits)
  next
    fix kv assume "kv \<in> {(k, v). prefix p k \<and> rows_of B d k = Some v}"
    then obtain k v where kv: "kv = (k, v)" "prefix p k" "txn_get B d k = Inr v"
      by (auto simp: rows_of_Some)
    then have "k \<in> fst ` set rows" using keys by auto
    then obtain w where "(k, w) \<in> set rows" by auto
    with g(2) kv show "kv \<in> set rows" by fastforce
  qed
qed

lemma seek_hd_least:
  assumes "sorted_wrt (<) ks" and "seek p ks = k # r" and "k' \<in> set ks" and "prefix p k'"
  shows "k \<le> k'"
proof -
  have "ks = takeWhile (\<lambda>k. k < p) ks @ k # r"
    using assms(2) by (metis seek_def takeWhile_dropWhile_id)
  moreover have "k' \<notin> set (takeWhile (\<lambda>k. k < p) ks)"
    using prefix_imp_le [OF assms(4)] set_takeWhileD [of k' "\<lambda>k. k < p" ks] by (auto simp: not_less)
  ultimately have "k' = k \<or> k' \<in> set r" and "sorted_wrt (<) (k # r)"
    using assms(1,3) by (metis Un_iff set_append set_ConsD, metis sorted_wrt_append)
  then show ?thesis by auto
qed

lemma seek_subset: "k \<in> set (seek p ks) \<Longrightarrow> k \<in> set ks"
  by (auto simp: seek_def dest: set_dropWhileD)

lemma FirstKVHasPrefix_Some:
  assumes "badger_ok B" and "FirstKVHasPrefix B d p = Inr (Some (k, v))"
  shows "prefix p k \<and> rows_of B d k = Some v \<and>
    (\<forall>k' v'. prefix p k' \<longrightarrow> rows_of B d k' = Some v' \<longrightarrow> k \<le> k')"
proof -
  from assms(2) obtain r where r: "seek p (iter_keys B d) = k # r" "prefix p k" "txn_get B d k = Inr v"
    by (auto simp: FirstKVHasPrefix_def View_def split: option.splits list.splits if_splits)
  have "k \<le> k'" if "prefix p k'" "rows_of B d k' = Some v'" for k' v'
    using seek_hd_least [OF badger_sorted [OF assms(1)] r(1) _ that(1)] that(2)
    by (simp add: badger_keys [OF assms(1)] rows_of_Some)
  with r show ?thesis by (auto simp: rows_of_Some)
qed

lemma FirstKVHasPrefix_None:
  assumes "badger_ok B" and "FirstKVHasPrefix B d p = Inr None" and "prefix p k"
  shows "rows_of B d k = None"
proof -
  from assms(2) have "iter_prefix B d p = []"
    by (auto simp: FirstKVHasPrefix_def View_def iter_prefix_def valid_for_prefix_def
        split: option.splits list.splits if_splits)
  then have "k \<notin> set (iter_keys B d)"
    using assms(3) by (auto simp: iter_prefix_filter [OF assms(1)] filter_empty_conv)
  then show ?thesis by (simp add: badger_keys [OF assms(1)] rows_of_def)
qed

lemma Move_rows:
  assumes "badger_ok B" and "Move B d s t = Inr d'"
  shows "\<exists>v. rows_of B d s = Some v \<and> rows_of B d' = (rows_of B d)(s := None, t \<mapsto> v)"
proof -
  obtain u where
    "bindE (txn_get B d s) (\<lambda>b. bindE (txn_delete B d s) (\<lambda>txn'. txn_set B txn' t b)) = Inr u"
    and u: "rows_of B d' = rows_of B u"
    by (rule Update_rows [OF assms(1) assms(2) [unfolded Move_def]])
  then obtain b w where g: "txn_get B d s = Inr b" and w: "txn_delete B d s = Inr w"
    and t: "txn_set B w t b = Inr u"
    by (auto simp: bindE_Inr_conv)
  have "rows_of B d' = (rows_of B d)(s := None, t \<mapsto> b)"
    by (simp only: u rows_of_set [OF assms(1) t] rows_of_delete [OF assms(1) w])
  with g show ?thesis by (auto simp: rows_of_Some)
qed

lemma Move_not_found:
  assumes "badger_ok B" and "Move B d s t = Inl ErrKeyNotFound"
  shows "rows_of B d s = None"
  using assms badger_not_found [OF assms(1)]
  by (auto simp: Move_def Update_def bindE_Inl_conv rows_of_def split: option.splits)

text \<open>The contract, for every BadgerDB that behaves as documented.\<close>

lemma badger_storage:
  assumes "badger_ok B"
  shows "storage (rows_of B) (GetKey B) (StorageSet B) (StorageDelete B) (Move B)
    (GetByPrefix B) (FirstKVHasPrefix B)"
proof
  fix d k v d' s t p rows
  show "GetKey B d k = Inr v \<Longrightarrow> rows_of B d k = Some v"
    by (auto simp: GetKey_def View_def rows_of_Some split: option.splits)
  show "GetKey B d k = Inl ErrKeyNotFound \<Longrightarrow> rows_of B d k = None"
    using badger_not_found [OF assms]
    by (auto simp: GetKey_def View_def rows_of_def split: option.splits)
  show "StorageSet B d k v = Inr d' \<Longrightarrow> rows_of B d' = (rows_of B d)(k \<mapsto> v)"
    unfolding StorageSet_def by (metis Update_rows [OF assms] rows_of_set [OF assms])
  show "StorageDelete B d k = Inr d' \<Longrightarrow> rows_of B d' = (rows_of B d)(k := None)"
    unfolding StorageDelete_def by (metis Update_rows [OF assms] rows_of_delete [OF assms])
  show "Move B d s t = Inr d' \<Longrightarrow>
      \<exists>v. rows_of B d s = Some v \<and> rows_of B d' = (rows_of B d)(s := None, t \<mapsto> v)"
    by (rule Move_rows [OF assms])
  show "Move B d s t = Inl ErrKeyNotFound \<Longrightarrow> rows_of B d s = None"
    by (rule Move_not_found [OF assms])
  show "GetByPrefix B d p = Inr rows \<Longrightarrow> sorted_wrt (<) (map fst rows)"
    using assms by (simp add: GetByPrefix_Inr(1) iter_prefix_sorted)
  show "GetByPrefix B d p = Inr rows \<Longrightarrow> set rows = {(k, v). prefix p k \<and> rows_of B d k = Some v}"
    by (rule GetByPrefix_rows [OF assms])
  show "FirstKVHasPrefix B d p = Inr (Some (k, v)) \<Longrightarrow> prefix p k \<and> rows_of B d k = Some v \<and>
      (\<forall>k' v'. prefix p k' \<longrightarrow> rows_of B d k' = Some v' \<longrightarrow> k \<le> k')"
    by (rule FirstKVHasPrefix_Some [OF assms])
  show "FirstKVHasPrefix B d p = Inr None \<Longrightarrow> prefix p k \<Longrightarrow> rows_of B d k = None"
    by (rule FirstKVHasPrefix_None [OF assms])
qed

subsection \<open>An in-memory store\<close>

text \<open>A lawful instance of the parameter, an association list, on which the methods compute.\<close>

definition mem_badger :: "(bytes \<times> bytes) list badger" where
  "mem_badger = \<lparr>txn_begin = (\<lambda>_. None),
     txn_get = (\<lambda>d k. case map_of d k of None \<Rightarrow> Inl ErrKeyNotFound | Some v \<Rightarrow> Inr v),
     txn_set = (\<lambda>d k v. Inr ((k, v) # filter (\<lambda>(k', _). k' \<noteq> k) d)),
     txn_delete = (\<lambda>d k. Inr (filter (\<lambda>(k', _). k' \<noteq> k) d)),
     txn_commit = (\<lambda>_ t. Inr t),
     iter_keys = (\<lambda>d. sort (remdups (map fst d)))\<rparr>"

lemma map_of_filter_key:
  "map_of (filter (\<lambda>(k', _). k' \<noteq> k) d) k' = (if k' = k then None else map_of d k')"
  by (induction d) auto

lemma map_of_key: "k \<in> fst ` set d \<longleftrightarrow> (\<exists>v. map_of d k = Some v)"
  by (metis map_of_eq_None_iff not_None_eq)

lemma mem_badger_ok: "badger_ok mem_badger"
  by (auto simp: badger_ok_def mem_badger_def map_of_filter_key map_of_key
      strict_sorted_iff split: option.splits)

interpretation mem: storage "rows_of mem_badger" "GetKey mem_badger" "StorageSet mem_badger"
  "StorageDelete mem_badger" "Move mem_badger" "GetByPrefix mem_badger" "FirstKVHasPrefix mem_badger"
  by (rule badger_storage [OF mem_badger_ok])

text \<open>A lawful store on which reading some rows fails, as when a value log block is corrupted.\<close>

definition faulty_badger :: "((bytes \<times> bytes) list \<times> bytes list) badger" where
  "faulty_badger = \<lparr>txn_begin = (\<lambda>_. None),
     txn_get = (\<lambda>(d, bad) k. if k \<in> set bad then Inl (BadgerErr ''checksum'')
        else case map_of d k of None \<Rightarrow> Inl ErrKeyNotFound | Some v \<Rightarrow> Inr v),
     txn_set = (\<lambda>(d, bad) k v. Inr ((k, v) # filter (\<lambda>(k', _). k' \<noteq> k) d, filter (\<lambda>b. b \<noteq> k) bad)),
     txn_delete = (\<lambda>(d, bad) k. Inr (filter (\<lambda>(k', _). k' \<noteq> k) d, filter (\<lambda>b. b \<noteq> k) bad)),
     txn_commit = (\<lambda>_ t. Inr t),
     iter_keys = (\<lambda>(d, bad). sort (remdups (map fst d @ bad)))\<rparr>"

lemma faulty_badger_ok: "badger_ok faulty_badger"
  by (auto simp: badger_ok_def faulty_badger_def map_of_filter_key map_of_key
      strict_sorted_iff split: option.splits)

text \<open>A store on which nothing fails: reads miss or hit, writes and commits succeed.\<close>

definition badger_reliable :: "'d badger \<Rightarrow> bool" where
  "badger_reliable B \<longleftrightarrow> badger_ok B \<and> (\<forall>d. txn_begin B d = None) \<and>
     (\<forall>d k e. txn_get B d k = Inl e \<longrightarrow> e = ErrKeyNotFound) \<and>
     (\<forall>d k v. \<exists>t. txn_set B d k v = Inr t) \<and> (\<forall>d t. \<exists>d'. txn_commit B d t = Inr d')"

lemma mem_badger_reliable: "badger_reliable mem_badger"
  using mem_badger_ok by (auto simp: badger_reliable_def mem_badger_def split: option.splits)

lemma reliable_GetKey:
  assumes "badger_reliable B"
  shows "GetKey B d k = (case rows_of B d k of None \<Rightarrow> Inl ErrKeyNotFound | Some v \<Rightarrow> Inr v)"
  using assms by (auto simp: badger_reliable_def GetKey_def View_def rows_of_def split: sum.splits)

lemma batch_loop_rows:
  assumes "badger_reliable B"
  shows "\<exists>t. batch_loop B us d t0 = (d, t) \<and> rows_of B t = rows_of B t0 ++ map_of (rev us)"
proof (induction us arbitrary: t0)
  case Nil
  then show ?case by simp
next
  case (Cons kv us)
  obtain k v where kv: "kv = (k, v)" by (cases kv)
  from assms obtain u where u: "txn_set B t0 k v = Inr u" unfolding badger_reliable_def by blast
  from assms have "badger_ok B" by (simp add: badger_reliable_def)
  note step = rows_of_set [OF this u]
  obtain t where "batch_loop B us d u = (d, t)" and r: "rows_of B t = rows_of B u ++ map_of (rev us)"
    using Cons.IH by blast
  moreover have "rows_of B u ++ map_of (rev us) = rows_of B t0 ++ map_of (rev (kv # us))"
    unfolding step kv by (simp add: map_add_assoc [symmetric])
  ultimately show ?case using u kv by simp
qed

lemma reliable_BatchWrite:
  assumes "badger_reliable B"
  obtains d' where "BatchWrite B d us = Inr d'" and "rows_of B d' = rows_of B d ++ map_of (rev us)"
proof -
  obtain t where t: "batch_loop B us d d = (d, t)" and r: "rows_of B t = rows_of B d ++ map_of (rev us)"
    using batch_loop_rows [OF assms] by blast
  from assms obtain d' where c: "txn_commit B d t = Inr d'" unfolding badger_reliable_def by blast
  from assms have "badger_ok B" by (simp add: badger_reliable_def)
  from rows_of_commit [OF this c] r t c show thesis
    by (intro that [of d']) (simp_all add: BatchWrite_def commit_ignore_def)
qed

section \<open>Properties\<close>

text \<open>
A prefix read that succeeds returns the stored rows whose key starts with the prefix, each exactly
once, in ascending byte order of their keys.
\<close>

lemma GetByPrefix_exact:
  assumes "badger_ok B" and "GetByPrefix B d p = Inr rows"
  shows "sorted_wrt (<) (map fst rows) \<and>
    (\<forall>k v. (k, v) \<in> set rows \<longleftrightarrow> prefix p k \<and> rows_of B d k = Some v)"
  using storage.byPrefix_sorted [OF badger_storage [OF assms(1)] assms(2)]
    storage.byPrefix_set [OF badger_storage [OF assms(1)] assms(2)]
  by auto

lemma GetByPrefix_exact_witness:
  "\<exists>rows. GetByPrefix mem_badger [(''q:b'', ''2''), (''q:a'', ''1''), (''r'', ''3'')] ''q:'' = Inr rows \<and>
     (''q:a'', ''1'') \<in> set rows \<and> sorted_wrt (<) (map fst rows)"
proof -
  let ?d = "[(''q:b'', ''2''), (''q:a'', ''1''), (''r'', ''3'')] :: (bytes \<times> bytes) list"
  obtain rows where r: "GetByPrefix mem_badger ?d ''q:'' = Inr rows"
    by (simp add: GetByPrefix_def View_def mem_badger_def iter_prefix_def seek_def valid_for_prefix_def
        less_char_def)
  have "rows_of mem_badger ?d ''q:a'' = Some ''1''" by (simp add: rows_of_def mem_badger_def)
  with GetByPrefix_exact [OF mem_badger_ok r] r show ?thesis by auto
qed

text \<open>
Moving a row is atomic: on success the destination holds the row that was at the source, the
source is empty when it differs from the destination, and every other row is unchanged; a
key-not-found error means there was no row at the source.
\<close>

lemma Move_atomic:
  assumes "badger_ok B"
  shows "case Move B d src dest of
      Inr d' \<Rightarrow> rows_of B d src \<noteq> None \<and> rows_of B d' dest = rows_of B d src \<and>
        (src \<noteq> dest \<longrightarrow> rows_of B d' src = None) \<and>
        (\<forall>k. k \<noteq> src \<longrightarrow> k \<noteq> dest \<longrightarrow> rows_of B d' k = rows_of B d k)
    | Inl e \<Rightarrow> e = ErrKeyNotFound \<longrightarrow> rows_of B d src = None"
proof (cases "Move B d src dest")
  case (Inl e)
  with storage.move_miss [OF badger_storage [OF assms]] show ?thesis by auto
next
  case (Inr d')
  note laws = badger_storage [OF assms]
  from storage.move_target [OF laws Inr] storage.move_source [OF laws Inr]
    storage.move_frame [OF laws Inr] Inr
  show ?thesis by auto
qed

lemma Move_atomic_witness:
  "\<exists>d'. Move mem_badger [(''a'', ''1''), (''b'', ''2'')] ''a'' ''c'' = Inr d' \<and>
     rows_of mem_badger d' ''c'' = Some ''1'' \<and> rows_of mem_badger d' ''a'' = None"
proof -
  let ?d = "[(''a'', ''1''), (''b'', ''2'')] :: (bytes \<times> bytes) list"
  obtain d' where d': "Move mem_badger ?d ''a'' ''c'' = Inr d'"
    by (simp add: Move_def Update_def mem_badger_def)
  have "rows_of mem_badger ?d ''a'' = Some ''1''" by (simp add: rows_of_def mem_badger_def)
  with Move_atomic [OF mem_badger_ok, of ?d "''a''" "''c''"] d' show ?thesis by simp
qed

lemma parse_format_uint64 [simp]: "parse_uint64 (format_uint64 w) = Some w"
  using unsigned_less [of w] by (simp add: parse_uint64_def format_uint64_def)

text \<open>
After a counter is incremented, reading it returns the value the increment returned, which is the
old value plus one modulo \<open>2 ^ 64\<close>; an absent counter starts from its default.
\<close>

lemma IncCounter_roundtrip:
  assumes "badger_ok B" and "IncCounter B d key dv = Inr (n, d')" and "txn_begin B d' = None"
  shows "GetCounter B d' key dv' = Inr n \<and>
    (case rows_of B d key of
       Some val \<Rightarrow> \<exists>c. parse_uint64 val = Some c \<and> unat n = (unat c + 1) mod 2 ^ 64
     | None \<Rightarrow> n = (case dv of Some v \<Rightarrow> v | None \<Rightarrow> 0) + 1)"
proof -
  from assms(2) obtain t where n: "inc_value B d key dv = Inr n"
    and t: "txn_set B d key (format_uint64 n) = Inr t" and c: "txn_commit B d t = Inr d'"
    by (auto simp: IncCounter_def split: option.splits)
  have "txn_get B d' key = Inr (format_uint64 n)"
    using badger_commitD [OF assms(1) c] badger_setD [OF assms(1) t] by simp
  moreover have "unat (x + 1) = (unat x + 1) mod 2 ^ 64" for x :: uint64
    by (simp add: unat_word_ariths)
  ultimately show ?thesis using n assms(3)
    by (auto simp: GetCounter_def View_def read_counter_def inc_value_def rows_of_def
        split: sum.splits option.splits if_splits)
qed

lemma IncCounter_roundtrip_witness:
  "\<exists>n d'. IncCounter mem_badger [(''k'', ''41'')] ''k'' None = Inr (n, d') \<and>
     GetCounter mem_badger d' ''k'' None = Inr n"
proof -
  have p: "parse_uint64 ''41'' = Some 41"
    by (simp add: parse_uint64_def parse_decimal_def is_digit_def digit_val_def)
  obtain n d' where i: "IncCounter mem_badger [(''k'', ''41'')] ''k'' None = Inr (n, d')"
    by (simp add: IncCounter_def mem_badger_def inc_value_def read_counter_def p)
  have "txn_begin mem_badger d' = None" by (simp add: mem_badger_def)
  from IncCounter_roundtrip [OF mem_badger_ok i this, of None] i show ?thesis by blast
qed

lemma foldE_set_rows:
  "badger_ok B \<Longrightarrow> foldE (\<lambda>(k, v) t. txn_set B t k v) us d = Inr t \<Longrightarrow>
     rows_of B t = rows_of B d ++ map_of (rev us)"
proof (induction us arbitrary: d)
  case Nil
  then show ?case by simp
next
  case (Cons kv us)
  obtain k v where kv: "kv = (k, v)" by (cases kv)
  with Cons.prems obtain u where u: "txn_set B d k v = Inr u"
    and r: "foldE (\<lambda>(k, v) t. txn_set B t k v) us u = Inr t" by auto
  from Cons.IH [OF Cons.prems(1) r] rows_of_set [OF Cons.prems(1) u] kv show ?case
    by (auto simp: fun_eq_iff map_add_def split: option.splits)
qed

lemma foldE_delete_rows:
  "badger_ok B \<Longrightarrow> foldE (\<lambda>k t. txn_delete B t k) ks d = Inr t \<Longrightarrow>
     rows_of B t k = (if k \<in> set ks then None else rows_of B d k)"
proof (induction ks arbitrary: d)
  case Nil
  then show ?case by simp
next
  case (Cons x ks)
  then obtain u where u: "txn_delete B d x = Inr u" and r: "foldE (\<lambda>k t. txn_delete B t k) ks u = Inr t"
    by auto
  from Cons.IH [OF Cons.prems(1) r] rows_of_delete [OF Cons.prems(1) u] show ?case by auto
qed

lemma AtomicWrite_rows:
  assumes ok: "badger_ok B" and dist: "distinct (map fst us)" and w: "AtomicWrite B d us ds = Inr d'"
  shows "rows_of B d' k = (if k \<in> set ds then None
      else case map_of us k of Some v \<Rightarrow> Some v | None \<Rightarrow> rows_of B d k)"
proof -
  obtain t where t: "bindE (foldE (\<lambda>(k, v) t. txn_set B t k v) us d)
      (foldE (\<lambda>k t. txn_delete B t k) ds) = Inr t" and rows: "rows_of B d' = rows_of B t"
    by (rule Update_rows [OF ok w [unfolded AtomicWrite_def]])
  then obtain u where u: "foldE (\<lambda>(k, v) t. txn_set B t k v) us d = Inr u"
    and s: "foldE (\<lambda>k t. txn_delete B t k) ds u = Inr t" by auto
  have "map_of (rev us) = map_of us" using dist by (subst map_of_inject_set) (simp_all flip: rev_map)
  with rows foldE_set_rows [OF ok u] foldE_delete_rows [OF ok s, of k]
  show ?thesis
    by (auto simp: map_add_def)
qed

text \<open>
An atomic write that reports success has applied all of its updates and all of its deletions and
touched no other row, whatever order the updates are visited in; one that reports an error is a value
without a new database. A batch write reports success even when the commit fails and no row is stored.
\<close>

lemma AtomicWrite_all_or_nothing:
  "(badger_ok B \<longrightarrow> distinct (map fst us) \<longrightarrow> AtomicWrite B d us ds = Inr d' \<longrightarrow>
      rows_of B d' k = (if k \<in> set ds then None
        else case map_of us k of Some v \<Rightarrow> Some v | None \<Rightarrow> rows_of B d k)) \<and>
   (\<exists>(C :: (bytes \<times> bytes) list badger) e. badger_ok C \<and> AtomicWrite C [] [(''k'', ''v'')] [] = Inl e \<and>
      (\<exists>e'. BatchWrite C [] [(''k'', ''v'')] = Inr e' \<and> rows_of C e' ''k'' = None))"
proof (intro conjI impI)
  assume "badger_ok B" and "distinct (map fst us)" and "AtomicWrite B d us ds = Inr d'"
  then show "rows_of B d' k = (if k \<in> set ds then None
      else case map_of us k of Some v \<Rightarrow> Some v | None \<Rightarrow> rows_of B d k)" by (rule AtomicWrite_rows)
next
  let ?C = "mem_badger\<lparr>txn_commit := (\<lambda>_ _. Inl (BadgerErr ''conflict''))\<rparr>"
  have "badger_ok ?C" using mem_badger_ok by (simp add: badger_ok_def)
  moreover have "AtomicWrite ?C [] [(''k'', ''v'')] [] = Inl (BadgerErr ''conflict'')"
    by (simp add: AtomicWrite_def Update_def mem_badger_def)
  moreover have "BatchWrite ?C [] [(''k'', ''v'')] = Inr []"
    by (simp add: BatchWrite_def commit_ignore_def mem_badger_def)
  moreover have "rows_of ?C [] ''k'' = None" by (simp add: rows_of_def mem_badger_def)
  ultimately show "\<exists>(C :: (bytes \<times> bytes) list badger) e. badger_ok C \<and>
      AtomicWrite C [] [(''k'', ''v'')] [] = Inl e \<and>
      (\<exists>e'. BatchWrite C [] [(''k'', ''v'')] = Inr e' \<and> rows_of C e' ''k'' = None)"
    by blast
qed

lemma AtomicWrite_all_or_nothing_witness:
  "\<exists>d'. AtomicWrite mem_badger [(''a'', ''1'')] [(''b'', ''2'')] [''a''] = Inr d' \<and>
     rows_of mem_badger d' ''b'' = Some ''2'' \<and> rows_of mem_badger d' ''a'' = None"
proof -
  obtain d' where w: "AtomicWrite mem_badger [(''a'', ''1'')] [(''b'', ''2'')] [''a''] = Inr d'"
    by (simp add: AtomicWrite_def Update_def mem_badger_def)
  from w AtomicWrite_all_or_nothing [of mem_badger "[(''b'', ''2'')]" "[(''a'', ''1'')]" "[''a'']" d' "''b''"]
    AtomicWrite_all_or_nothing [of mem_badger "[(''b'', ''2'')]" "[(''a'', ''1'')]" "[''a'']" d' "''a''"]
    mem_badger_ok
  show ?thesis by simp
qed

end
