(* ===== verification/Workflow.thy ===== *)
theory Workflow
  imports Prelude
begin

text \<open>
  The workflow record, \<open>model/workflow.go\<close> over the protobuf message \<open>Task\<close>: construction from a
  create request, validation, status changes and the runnable test. Protobuf fields keep their
  source names; a oneof is a datatype, an absent message \<open>None\<close>. The wall clock is an argument, in
  nanoseconds. go-ethereum's address functions and the ULID generator are arguments too.
\<close>

section \<open>The protobuf data\<close>

datatype task_status = Enabled | Completed | Failed | Running | Disabled | OtherStatus int

datatype completion_reason = ReasonUnspecified | MaxExecutionReached | ExpiredReason

record fixed_time_config = fixed_epochs :: "int list"
record cron_config = cron_schedules :: "string list"
record block_config =
  block_interval :: int
  block_chain_id :: int
record event_config =
  event_queries :: "string list"
  event_chain_id :: int

datatype trigger_type = NoTrigger | Manual
  | FixedTime "fixed_time_config option"
  | Cron "cron_config option"
  | Block "block_config option"
  | Event "event_config option"

record trigger =
  trigger_name :: string
  trigger_kind :: trigger_type

text \<open>A \<open>double\<close> of the protobuf: a rational, or one of the three values that are not.\<close>

datatype float64 = NaN | PosInf | NegInf | Fin rat

record retry_policy =
  max_attempts :: "32 word"
  backoff_ms :: "32 word"
  backoff_multiplier :: float64
  max_backoff_ms :: "32 word"
  retry_on :: "string list"

datatype loop_runner = LoopEthTransfer | LoopContractWrite | LoopContractRead
  | LoopGraphql | LoopRestApi | LoopCustomCode | LoopNone

datatype node_type = EthTransfer | ContractWrite | ContractRead | GraphqlQuery | RestApi
  | Branch | Filter | Loop loop_runner | CustomCode | Balance | Await | NoType

record node =
  node_id :: string
  node_name :: string
  node_type :: node_type
  node_retry_policy :: "retry_policy option"

text \<open>\<open>structpb.Value\<close> as \<open>AsInterface\<close> shows it; an object is an association list.\<close>

datatype jvalue = JNull | JBool bool | JNum int | JStr string
  | JList "jvalue list" | JObj "(string \<times> jvalue) list"

type_synonym jobject = "(string \<times> jvalue) list"

record task =
  task_id :: string
  task_owner :: string
  smart_wallet_address :: string
  task_name :: string
  start_at :: int
  expired_at :: int
  max_execution :: int
  execution_count :: int
  completed_at :: int
  completion_reason :: completion_reason
  task_status :: task_status
  task_trigger :: "trigger option"
  task_nodes :: "node list"
  task_edges :: "(string \<times> string) list"
  input_variables :: jobject
  last_ran_at :: int
  last_validation_error :: string
  consecutive_validation_failures :: "32 word"

record create_task_req =
  req_trigger :: "trigger option"
  req_nodes :: "node list"
  req_edges :: "(string \<times> string) list"
  req_start_at :: int
  req_expired_at :: int
  req_max_execution :: int
  req_input_variables :: "jobject option"

section \<open>Node names\<close>

datatype workflow_error = NodeNameEmpty | NodeNameNotIdentifier string | NodeNameReserved string
  | TriggerNameInvalid workflow_error | NodeInvalid string workflow_error
  | TriggerConfigMissing | BlockIntervalInvalid int | CronNoSchedule | FixedTimeNoEpoch | EventNoQuery
  | InputVariablesRequired | SettingsRequired | SettingsNotObject | RunnerRequired | RunnerNotHex
  | EmptyEdges | EmptyNodes | InvalidArgument workflow_error
  | TaskIdEmpty | SliceOutOfRange

definition is_alpha :: "char \<Rightarrow> bool" where
  "is_alpha c \<longleftrightarrow> (let n = (of_char c :: nat) in 65 \<le> n \<and> n \<le> 90 \<or> 97 \<le> n \<and> n \<le> 122)"

definition js_start :: "char \<Rightarrow> bool" where
  "js_start c \<longleftrightarrow> is_alpha c \<or> c = CHR ''_'' \<or> c = CHR ''$''"

definition js_part :: "char \<Rightarrow> bool" where
  "js_part c \<longleftrightarrow> js_start c \<or> is_digit c"

definition jsIdentifierRegex :: "string \<Rightarrow> bool" where
  "jsIdentifierRegex s = (case s of [] \<Rightarrow> False | c # cs \<Rightarrow> js_start c \<and> list_all js_part cs)"

definition jsReservedWords :: "string list" where
  "jsReservedWords =
    [''break'', ''case'', ''catch'', ''class'', ''const'', ''continue'', ''debugger'',
     ''default'', ''delete'', ''do'', ''else'', ''enum'', ''export'', ''extends'', ''false'',
     ''finally'', ''for'', ''function'', ''if'', ''import'', ''in'', ''instanceof'', ''let'',
     ''new'', ''null'', ''return'', ''super'', ''switch'', ''this'', ''throw'', ''true'',
     ''try'', ''typeof'', ''var'', ''void'', ''while'', ''with'', ''yield'', ''Break'',
     ''Case'', ''Catch'', ''Class'', ''Const'', ''Continue'', ''Debugger'', ''Default'',
     ''Delete'', ''Do'', ''Else'', ''Enum'', ''Export'', ''Extends'', ''False'', ''Finally'',
     ''For'', ''Function'', ''If'', ''Import'', ''In'', ''Instanceof'', ''Let'', ''New'',
     ''Null'', ''Return'', ''Super'', ''Switch'', ''This'', ''Throw'', ''True'', ''Try'',
     ''Typeof'', ''Var'', ''Void'', ''While'', ''With'', ''Yield'', ''BREAK'', ''CASE'',
     ''CATCH'', ''CLASS'', ''CONST'', ''CONTINUE'', ''DEBUGGER'', ''DEFAULT'', ''DELETE'',
     ''DO'', ''ELSE'', ''ENUM'', ''EXPORT'', ''EXTENDS'', ''FALSE'', ''FINALLY'', ''FOR'',
     ''FUNCTION'', ''IF'', ''IMPORT'', ''IN'', ''INSTANCEOF'', ''LET'', ''NEW'', ''NULL'',
     ''RETURN'', ''SUPER'', ''SWITCH'', ''THIS'', ''THROW'', ''TRUE'', ''TRY'', ''TYPEOF'',
     ''VAR'', ''VOID'', ''WHILE'', ''WITH'', ''YIELD'']"

definition ValidateNodeNameForJavaScript :: "string \<Rightarrow> workflow_error option" where
  "ValidateNodeNameForJavaScript nodeName =
     (if nodeName = [] then Some NodeNameEmpty
      else if \<not> jsIdentifierRegex nodeName then Some (NodeNameNotIdentifier nodeName)
      else if nodeName \<in> set jsReservedWords then Some (NodeNameReserved nodeName)
      else None)"

section \<open>Validation of a workflow\<close>

definition validate_trigger_name :: "trigger option \<Rightarrow> workflow_error option" where
  "validate_trigger_name tr = (case tr of None \<Rightarrow> None
     | Some t \<Rightarrow> if trigger_name t = [] then None
         else map_option TriggerNameInvalid (ValidateNodeNameForJavaScript (trigger_name t)))"

fun validate_node_names :: "node list \<Rightarrow> workflow_error option" where
  "validate_node_names [] = None"
| "validate_node_names (n # ns) =
     (case ValidateNodeNameForJavaScript (node_name n) of
        Some e \<Rightarrow> Some (NodeInvalid (node_id n) e)
      | None \<Rightarrow> validate_node_names ns)"

fun validate_trigger_kind :: "trigger_type \<Rightarrow> workflow_error option" where
  "validate_trigger_kind (Block None) = Some TriggerConfigMissing"
| "validate_trigger_kind (Block (Some c)) =
     (if block_interval c \<le> 0 then Some (BlockIntervalInvalid (block_interval c)) else None)"
| "validate_trigger_kind (Cron None) = Some TriggerConfigMissing"
| "validate_trigger_kind (Cron (Some c)) = (if cron_schedules c = [] then Some CronNoSchedule else None)"
| "validate_trigger_kind (FixedTime None) = Some TriggerConfigMissing"
| "validate_trigger_kind (FixedTime (Some c)) = (if fixed_epochs c = [] then Some FixedTimeNoEpoch else None)"
| "validate_trigger_kind (Event None) = Some TriggerConfigMissing"
| "validate_trigger_kind (Event (Some c)) = (if event_queries c = [] then Some EventNoQuery else None)"
| "validate_trigger_kind _ = None"

definition ValidateWithError :: "task \<Rightarrow> workflow_error option" where
  "ValidateWithError t =
     (case validate_trigger_name (task_trigger t) of Some e \<Rightarrow> Some e
      | None \<Rightarrow> (case validate_node_names (task_nodes t) of Some e \<Rightarrow> Some e
      | None \<Rightarrow> (case task_trigger t of None \<Rightarrow> None
      | Some tr \<Rightarrow> validate_trigger_kind (trigger_kind tr))))"

definition Validate :: "task \<Rightarrow> bool" where
  "Validate t \<longleftrightarrow> ValidateWithError t = None"

section \<open>Settings\<close>

definition extractSettings :: "jobject option \<Rightarrow> workflow_error + jobject" where
  "extractSettings inputVariables = (case inputVariables of None \<Rightarrow> Inl InputVariablesRequired
     | Some vars \<Rightarrow> (case map_of vars ''settings'' of
          None \<Rightarrow> Inl SettingsRequired
        | Some (JObj settings) \<Rightarrow> Inr settings
        | Some _ \<Rightarrow> Inl SettingsNotObject))"

definition string_field :: "jobject \<Rightarrow> string \<Rightarrow> string" where
  "string_field obj k = (case map_of obj k of Some (JStr s) \<Rightarrow> s | _ \<Rightarrow> [])"

text \<open>\<open>strings.TrimSpace(s) == ""\<close> on ASCII text.\<close>

definition is_blank :: "string \<Rightarrow> bool" where
  "is_blank s \<longleftrightarrow> list_all (\<lambda>c. (of_char c :: nat) \<in> {9, 10, 11, 12, 13, 32}) s"

definition ValidateInputVariablesSettings ::
  "(string \<Rightarrow> bool) \<Rightarrow> jobject option \<Rightarrow> workflow_error + unit" where
  "ValidateInputVariablesSettings isHexAddress inputVariables =
     bindE (extractSettings inputVariables) (\<lambda>settings.
       let runner = string_field settings ''runner''
       in bindE (guardE (is_blank runner) RunnerRequired) (\<lambda>_.
          guardE (\<not> isHexAddress runner) RunnerNotHex))"

definition put :: "string \<Rightarrow> jvalue \<Rightarrow> jobject \<Rightarrow> jobject" where
  "put k v obj = (k, v) # filter (\<lambda>(k', _). k' \<noteq> k) obj"

definition enrichSettings ::
  "jobject \<Rightarrow> jobject \<Rightarrow> string \<Rightarrow> string \<Rightarrow> create_task_req \<Rightarrow> jobject" where
  "enrichSettings inputVariables settings taskID ownerHex body =
     put ''settings'' (JObj
       (put ''maxExecution'' (JNum (req_max_execution body))
       (put ''expiredAt'' (JNum (req_expired_at body))
       (put ''startAt'' (JNum (req_start_at body))
       (put ''owner'' (JStr ownerHex)
       (put ''id'' (JStr taskID) settings)))))) inputVariables"

text \<open>
  \<open>ownerHex\<close> is \<open>user.Address.Hex()\<close>, \<open>canonHex\<close> is \<open>common.HexToAddress(s).Hex()\<close> and \<open>taskID\<close>
  the fresh ULID.
\<close>

definition NewWorkflowFromProtobuf ::
  "(string \<Rightarrow> bool) \<Rightarrow> (string \<Rightarrow> string) \<Rightarrow> string \<Rightarrow> string \<Rightarrow> create_task_req \<Rightarrow> workflow_error + task"
where
  "NewWorkflowFromProtobuf isHexAddress canonHex ownerHex taskID body =
     bindE (guardE (req_edges body = []) EmptyEdges) (\<lambda>_.
     bindE (guardE (req_nodes body = []) EmptyNodes) (\<lambda>_.
     bindE (case ValidateInputVariablesSettings isHexAddress (req_input_variables body) of
              Inl e \<Rightarrow> Inl (InvalidArgument e) | Inr _ \<Rightarrow> Inr ()) (\<lambda>_.
     bindE (extractSettings (req_input_variables body)) (\<lambda>settings.
       let vars = (case req_input_variables body of None \<Rightarrow> [] | Some vs \<Rightarrow> vs);
           t = \<lparr>task_id = taskID, task_owner = ownerHex,
                smart_wallet_address = canonHex (string_field settings ''runner''),
                task_name = string_field settings ''name'',
                start_at = req_start_at body, expired_at = req_expired_at body,
                max_execution = req_max_execution body, execution_count = 0,
                completed_at = 0, completion_reason = ReasonUnspecified,
                task_status = Enabled, task_trigger = req_trigger body,
                task_nodes = req_nodes body, task_edges = req_edges body,
                input_variables = enrichSettings vars settings taskID ownerHex body,
                last_ran_at = 0, last_validation_error = [], consecutive_validation_failures = 0\<rparr>
       in (case ValidateWithError t of Some e \<Rightarrow> Inl (InvalidArgument e) | None \<Rightarrow> Inr t)))))"

section \<open>Operations on a stored workflow\<close>

definition EnsureInitialized :: "task \<Rightarrow> workflow_error + unit" where
  "EnsureInitialized t = guardE (task_id t = []) TaskIdEmpty"

definition unix_milli :: "int \<Rightarrow> int" where
  "unix_milli now = now div 1000000"

definition SetCompleted :: "int \<Rightarrow> completion_reason \<Rightarrow> task \<Rightarrow> task" where
  "SetCompleted now reason t =
     t\<lparr>task_status := Completed, completed_at := unix_milli now, completion_reason := reason\<rparr>"

definition SetEnabled :: "task \<Rightarrow> task" where
  "SetEnabled t = t\<lparr>task_status := Enabled\<rparr>"

definition SetFailed :: "int \<Rightarrow> task \<Rightarrow> task" where
  "SetFailed now t = t\<lparr>task_status := Failed, completed_at := unix_milli now\<rparr>"

definition SetDisabled :: "task \<Rightarrow> task" where
  "SetDisabled t = t\<lparr>task_status := Disabled\<rparr>"

definition Key :: "task \<Rightarrow> bytes" where
  "Key t = task_id t"

definition OwnedBy :: "task \<Rightarrow> address \<Rightarrow> bool" where
  "OwnedBy t a \<longleftrightarrow> to_lower (task_owner t) = lower_hex a"

text \<open>
  \<open>time.Unix(ExpiredAt/1000, 0).Before(now)\<close> compares at nanosecond resolution after dropping the
  milliseconds of the expiry.
\<close>

definition IsRunable :: "int \<Rightarrow> task \<Rightarrow> bool" where
  "IsRunable now t =
     (let reachedMaxRun = (0 < max_execution t \<and> max_execution t \<le> execution_count t);
          reachedExpiredTime = (0 < expired_at t \<and> (expired_at t div 1000) * 1000000000 < now);
          beforeStartTime = (0 < start_at t \<and> unix_milli now < start_at t)
      in \<not> reachedMaxRun \<and> \<not> reachedExpiredTime \<and> \<not> beforeStartTime)"

text \<open>Slicing past the end of a slice panics; \<open>key[86:]\<close> is in range up to length 86.\<close>

definition WorkflowKeyToId :: "bytes \<Rightarrow> workflow_error + bytes" where
  "WorkflowKeyToId key = (if length key < 86 then Inl SliceOutOfRange else Inr (drop 86 key))"

section \<open>Properties\<close>

lemma map_of_put [simp]: "map_of (put k v obj) k' = (if k' = k then Some v else map_of obj k')"
proof (induction obj)
  case Nil
  then show ?case by (simp add: put_def)
next
  case (Cons kv obj)
  then show ?case by (cases kv) (auto simp: put_def)
qed

lemma validate_node_names_None:
  "validate_node_names ns = None \<longleftrightarrow> (\<forall>n\<in>set ns. ValidateNodeNameForJavaScript (node_name n) = None)"
  by (induction ns) (auto split: option.splits)

lemma ValidateNodeName_None:
  "ValidateNodeNameForJavaScript s = None \<longleftrightarrow>
     jsIdentifierRegex s \<and> s \<notin> set jsReservedWords"
  by (auto simp: ValidateNodeNameForJavaScript_def jsIdentifierRegex_def)

lemma NewWorkflow_Inr:
  assumes "NewWorkflowFromProtobuf isHex canon ownerHex taskID body = Inr t"
  obtains settings where "extractSettings (req_input_variables body) = Inr settings"
    and "isHex (string_field settings ''runner'')" and "ValidateWithError t = None"
    and "task_status t = Enabled" and "execution_count t = 0" and "task_id t = taskID"
    and "task_owner t = ownerHex"
    and "smart_wallet_address t = canon (string_field settings ''runner'')"
    and "task_nodes t = req_nodes body" and "req_nodes body \<noteq> []"
    and "map_of (input_variables t) ''settings'' = Some (JObj
       (put ''maxExecution'' (JNum (req_max_execution body))
       (put ''expiredAt'' (JNum (req_expired_at body))
       (put ''startAt'' (JNum (req_start_at body))
       (put ''owner'' (JStr ownerHex) (put ''id'' (JStr taskID) settings))))))"
  using assms
  by (auto simp: NewWorkflowFromProtobuf_def ValidateInputVariablesSettings_def enrichSettings_def Let_def
      split: option.splits sum.splits)

text \<open>
A workflow built from a create request validates, starts enabled with no executions, belongs to
the caller, and carries the server's id and owner in its settings whatever the request put there.
\<close>

lemma NewWorkflow_server_fields:
  assumes "NewWorkflowFromProtobuf isHex canon ownerHex taskID body = Inr t"
  shows "Validate t \<and> task_status t = Enabled \<and> execution_count t = 0 \<and> task_nodes t \<noteq> []
    \<and> (\<forall>n\<in>set (task_nodes t). jsIdentifierRegex (node_name n) \<and> node_name n \<notin> set jsReservedWords)
    \<and> (\<exists>settings. map_of (input_variables t) ''settings'' = Some (JObj settings)
         \<and> map_of settings ''id'' = Some (JStr taskID) \<and> map_of settings ''owner'' = Some (JStr ownerHex)
         \<and> isHex (string_field settings ''runner'')
         \<and> smart_wallet_address t = canon (string_field settings ''runner''))"
proof -
  from assms obtain settings where s: "extractSettings (req_input_variables body) = Inr settings"
    "isHex (string_field settings ''runner'')" "ValidateWithError t = None"
    "task_status t = Enabled" "execution_count t = 0"
    "smart_wallet_address t = canon (string_field settings ''runner'')"
    "task_nodes t = req_nodes body" "req_nodes body \<noteq> []"
    "map_of (input_variables t) ''settings'' = Some (JObj
       (put ''maxExecution'' (JNum (req_max_execution body))
       (put ''expiredAt'' (JNum (req_expired_at body))
       (put ''startAt'' (JNum (req_start_at body))
       (put ''owner'' (JStr ownerHex) (put ''id'' (JStr taskID) settings))))))"
    by (rule NewWorkflow_Inr)
  from s(3) have "validate_node_names (task_nodes t) = None"
    by (auto simp: ValidateWithError_def split: option.splits)
  then have "\<forall>n\<in>set (task_nodes t). jsIdentifierRegex (node_name n) \<and> node_name n \<notin> set jsReservedWords"
    by (simp add: validate_node_names_None ValidateNodeName_None)
  with s show ?thesis by (auto simp: Validate_def string_field_def)
qed

definition example_req :: create_task_req where
  "example_req = \<lparr>req_trigger = Some \<lparr>trigger_name = ''tick'', trigger_kind = Manual\<rparr>,
     req_nodes = [\<lparr>node_id = ''n1'', node_name = ''read'', node_type = ContractRead, node_retry_policy = None\<rparr>],
     req_edges = [(''tick'', ''n1'')], req_start_at = 0, req_expired_at = 0, req_max_execution = 3,
     req_input_variables = Some [(''settings'',
       JObj [(''runner'', JStr ''0xab''), (''owner'', JStr ''forged''), (''name'', JStr ''w'')])]\<rparr>"

lemma NewWorkflow_server_fields_witness:
  "\<exists>t settings. NewWorkflowFromProtobuf (\<lambda>s. take 2 s = ''0x'') (\<lambda>s. s) ''0x01'' ''id1'' example_req = Inr t
     \<and> map_of (input_variables t) ''settings'' = Some (JObj settings)
     \<and> map_of settings ''owner'' = Some (JStr ''0x01'')"
proof -
  obtain t where t:
    "NewWorkflowFromProtobuf (\<lambda>s. take 2 s = ''0x'') (\<lambda>s. s) ''0x01'' ''id1'' example_req = Inr t"
    by (simp add: NewWorkflowFromProtobuf_def example_req_def ValidateInputVariablesSettings_def
        extractSettings_def string_field_def is_blank_def Let_def ValidateWithError_def
        validate_trigger_name_def ValidateNodeNameForJavaScript_def jsIdentifierRegex_def js_start_def
        js_part_def is_alpha_def jsReservedWords_def)
  from NewWorkflow_server_fields [OF t] t show ?thesis by blast
qed

text \<open>
A workflow is runnable exactly while its execution budget is not used up, its start has passed and
the current time is not past its expiry rounded down to the second; a workflow that stopped being
runnable because it expired never becomes runnable again.
\<close>

lemma IsRunable_window:
  "(IsRunable now t \<longleftrightarrow>
     (max_execution t \<le> 0 \<or> execution_count t < max_execution t) \<and>
     (expired_at t \<le> 0 \<or> now \<le> (expired_at t div 1000) * 1000000000) \<and>
     (start_at t \<le> 0 \<or> start_at t * 1000000 \<le> now)) \<and>
   (now \<le> later \<longrightarrow> \<not> (expired_at t \<le> 0 \<or> now \<le> (expired_at t div 1000) * 1000000000) \<longrightarrow>
     \<not> IsRunable later t)"
proof -
  have "s \<le> now div 1000000 \<longleftrightarrow> s * 1000000 \<le> now" for s :: int
    by (simp add: int_le_div_iff)
  then show ?thesis
    by (auto simp: IsRunable_def unix_milli_def Let_def not_less not_le)
qed

definition example_task :: task where
  "example_task = \<lparr>task_id = ''01'', task_owner = ''0x01'', smart_wallet_address = ''0x02'', task_name = ''w'',
     start_at = 0, expired_at = 5999, max_execution = 0, execution_count = 0, completed_at = 0,
     completion_reason = ReasonUnspecified, task_status = Enabled, task_trigger = None,
     task_nodes = [], task_edges = [], input_variables = [], last_ran_at = 0, last_validation_error = [],
     consecutive_validation_failures = 0\<rparr>"

lemma IsRunable_window_witness:
  "IsRunable 5000000000 example_task \<and> \<not> IsRunable 6000000000 example_task"
  using IsRunable_window [of 5000000000 example_task 6000000000]
    IsRunable_window [of 5500000000 example_task 6000000000]
  by (simp add: example_task_def)

text \<open>
The expiry test drops the milliseconds of the expiry time, so a workflow can stop being runnable
before its expiry is reached, and never later than its expiry.
\<close>

lemma IsRunable_expires_early:
  "(\<exists>t now. now < expired_at t * 1000000 \<and> max_execution t = 0 \<and> start_at t = 0 \<and> \<not> IsRunable now t) \<and>
   (\<forall>t now. 0 < expired_at t \<longrightarrow> expired_at t * 1000000 < now \<longrightarrow> \<not> IsRunable now t)"
proof (intro conjI exI allI impI)
  show "5500000000 < expired_at example_task * 1000000"
    "max_execution example_task = 0" "start_at example_task = 0" "\<not> IsRunable 5500000000 example_task"
    by (simp_all add: example_task_def IsRunable_def)
next
  fix t :: task and now assume "0 < expired_at t" "expired_at t * 1000000 < now"
  moreover have "(expired_at t div 1000) * 1000000000 \<le> expired_at t * 1000000"
    using int_div_mult_le [of 1000 "expired_at t"] by simp
  ultimately show "\<not> IsRunable now t" by (simp add: IsRunable_def Let_def)
qed

lemma IsRunable_expires_early_witness:
  "0 < expired_at example_task \<and> \<not> IsRunable 6000000000 example_task"
  using conjunct2 [OF IsRunable_expires_early, rule_format, of example_task 6000000000]
  by (simp add: example_task_def)

text \<open>
\<open>WorkflowKeyToId\<close>, documented to read back a key made by \<open>Workflow.Key\<close>, panics on every key that
\<open>Key\<close> makes of an id shorter than 86 bytes, which every generated id is.
\<close>

lemma WorkflowKeyToId_panics:
  "length (task_id t) < 86 \<Longrightarrow> WorkflowKeyToId (Key t) = Inl SliceOutOfRange"
  by (simp add: WorkflowKeyToId_def Key_def)

lemma WorkflowKeyToId_panics_witness: "WorkflowKeyToId (Key example_task) = Inl SliceOutOfRange"
  by (rule WorkflowKeyToId_panics) (simp add: example_task_def)

end
