(* ===== verification/Keys.thy ===== *)
theory Keys
  imports Storage Workflow
begin

text \<open>
  The on-disk key layout: \<open>storage/schema/schema.go\<close>, \<open>core/taskengine/schema.go\<close> and the parsers of
  \<open>core/taskengine/chain_scoped_keys.go\<close>, together with the smart-wallet rows that \<open>schema.go\<close>
  reads and writes. Each key function is the text its \<open>fmt.Sprintf\<close> builds. The lemmas show that
  the parsers invert the printers and that a prefix scan sees the rows of one owner on one chain only.
\<close>

section \<open>Printing\<close>

definition join :: "string \<Rightarrow> string \<Rightarrow> string" where
  "join a b = a @ CHR '':'' # b"

definition WorkflowStatusToStorageKey :: "task_status \<Rightarrow> string" where
  "WorkflowStatusToStorageKey v = (case v of
     Completed \<Rightarrow> ''c'' | Failed \<Rightarrow> ''f'' | Disabled \<Rightarrow> ''i'' | Running \<Rightarrow> ''x'' | Enabled \<Rightarrow> ''a''
   | OtherStatus _ \<Rightarrow> ''a'')"

definition WorkflowStorageKey :: "string \<Rightarrow> task_status \<Rightarrow> bytes" where
  "WorkflowStorageKey wid status = join ''t'' (join (WorkflowStatusToStorageKey status) wid)"

definition WorkflowByStatusStoragePrefix :: "task_status \<Rightarrow> bytes" where
  "WorkflowByStatusStoragePrefix status = join ''t'' (join (WorkflowStatusToStorageKey status) [])"

definition ChainWorkflowStorageKey :: "int \<Rightarrow> string \<Rightarrow> task_status \<Rightarrow> bytes" where
  "ChainWorkflowStorageKey chainID wid status =
     join ''t'' (join (sdecimal chainID) (join (WorkflowStatusToStorageKey status) wid))"

definition ChainWorkflowByStatusStoragePrefix :: "int \<Rightarrow> task_status \<Rightarrow> bytes" where
  "ChainWorkflowByStatusStoragePrefix chainID status =
     join ''t'' (join (sdecimal chainID) (join (WorkflowStatusToStorageKey status) []))"

definition UserTaskStoragePrefix :: "address \<Rightarrow> bytes" where
  "UserTaskStoragePrefix a = join ''u'' (lower_hex a)"

definition SmartWalletTaskStoragePrefix :: "address \<Rightarrow> address \<Rightarrow> bytes" where
  "SmartWalletTaskStoragePrefix owner wallet = join ''u'' (join (lower_hex owner) (lower_hex wallet))"

definition WalletByOwnerPrefix :: "int \<Rightarrow> address \<Rightarrow> bytes" where
  "WalletByOwnerPrefix chainID owner = join ''w'' (join (sdecimal chainID) (lower_hex owner))"

definition WalletStorageKey :: "int \<Rightarrow> address \<Rightarrow> string \<Rightarrow> string" where
  "WalletStorageKey chainID owner wallet =
     join ''w'' (join (sdecimal chainID) (join (lower_hex owner) (to_lower wallet)))"

definition WorkflowStateKey :: "string \<Rightarrow> string \<Rightarrow> bytes" where
  "WorkflowStateKey taskID stateKey = join ''wfstate'' (join taskID stateKey)"

definition WorkflowStatePrefix :: "string \<Rightarrow> bytes" where
  "WorkflowStatePrefix taskID = join ''wfstate'' (join taskID [])"

definition WalletBySaltKey :: "int \<Rightarrow> address \<Rightarrow> address \<Rightarrow> int option \<Rightarrow> bytes" where
  "WalletBySaltKey chainID owner factory salt =
     join ''wsalt'' (join (sdecimal chainID) (join (lower_hex owner) (join (lower_hex factory)
       (case salt of None \<Rightarrow> ''0'' | Some s \<Rightarrow> sdecimal s))))"

definition TaskUserKey :: "task \<Rightarrow> bytes" where
  "TaskUserKey t = join ''u'' (join (to_lower (task_owner t))
     (join (to_lower (smart_wallet_address t)) (Key t)))"

definition ChainTaskUserKey :: "int \<Rightarrow> task \<Rightarrow> bytes" where
  "ChainTaskUserKey chainID t = join ''u'' (join (sdecimal chainID) (join (to_lower (task_owner t))
     (join (to_lower (smart_wallet_address t)) (Key t))))"

definition TaskExecutionPrefix :: "string \<Rightarrow> bytes" where
  "TaskExecutionPrefix taskID = join ''history'' taskID"

definition TaskExecutionKey :: "task \<Rightarrow> string \<Rightarrow> bytes" where
  "TaskExecutionKey t executionID = join ''history'' (join (task_id t) executionID)"

definition ChainTaskExecutionPrefix :: "int \<Rightarrow> string \<Rightarrow> bytes" where
  "ChainTaskExecutionPrefix chainID taskID = join ''history'' (join (sdecimal chainID) taskID)"

definition ChainTaskExecutionKey :: "int \<Rightarrow> task \<Rightarrow> string \<Rightarrow> bytes" where
  "ChainTaskExecutionKey chainID t executionID =
     join ''history'' (join (sdecimal chainID) (join (task_id t) executionID))"

definition TaskTriggerKey :: "task \<Rightarrow> string \<Rightarrow> bytes" where
  "TaskTriggerKey t executionID = join ''trigger'' (join (task_id t) executionID)"

definition PendingExecutionPrefix :: "string \<Rightarrow> bytes" where
  "PendingExecutionPrefix taskID = join ''pending'' (join taskID [])"

definition PendingExecutionKey :: "task \<Rightarrow> string \<Rightarrow> bytes" where
  "PendingExecutionKey t executionID = join ''pending'' (join (task_id t) executionID)"

definition SecretStorageKeyForUser :: "address \<Rightarrow> string \<Rightarrow> string" where
  "SecretStorageKeyForUser u name = join ''secret'' (join ''_'' (join (lower_hex u) (join ''_'' name)))"

definition SecretStorageKeyForOrg :: "address \<Rightarrow> string \<Rightarrow> string \<Rightarrow> string" where
  "SecretStorageKeyForOrg u org name = join ''secret'' (join org (join (lower_hex u) (join ''_'' name)))"

definition SecretStorageKeyForWorkflow :: "address \<Rightarrow> string \<Rightarrow> string \<Rightarrow> string" where
  "SecretStorageKeyForWorkflow u name workflow =
     join ''secret'' (join ''_'' (join (lower_hex u) (join workflow name)))"

definition SecretStoragePrefix :: "address \<Rightarrow> string" where
  "SecretStoragePrefix u = join ''secret'' (join ''_'' (lower_hex u))"

record secret =
  secret_name :: string
  secret_user :: "address option"
  secret_org_id :: string
  secret_workflow_id :: string

definition SecretStorageKey :: "secret \<Rightarrow> string option" where
  "SecretStorageKey secret = (case secret_user secret of None \<Rightarrow> None
     | Some user \<Rightarrow> Some
        (if secret_workflow_id secret \<noteq> []
           then SecretStorageKeyForWorkflow user (secret_name secret) (secret_workflow_id secret)
         else if secret_org_id secret \<noteq> []
           then SecretStorageKeyForOrg user (secret_org_id secret) (secret_name secret)
         else SecretStorageKeyForUser user (secret_name secret)))"

definition ContractWriteCounterKey :: "address \<Rightarrow> bytes" where
  "ContractWriteCounterKey eoa = join ''ct'' (join ''cw'' (lower_hex eoa))"

definition FeeLedgerKey :: "int \<Rightarrow> address \<Rightarrow> bytes" where
  "FeeLedgerKey chainID owner = join ''fl'' (join (sdecimal chainID) (lower_hex owner))"

definition FeeRecordKey :: "int \<Rightarrow> address \<Rightarrow> string \<Rightarrow> bytes" where
  "FeeRecordKey chainID owner executionID =
     join ''fr'' (join (sdecimal chainID) (join (lower_hex owner) executionID))"

definition FeeRecordPrefix :: "int \<Rightarrow> address \<Rightarrow> bytes" where
  "FeeRecordPrefix chainID owner = join ''fr'' (join (sdecimal chainID) (join (lower_hex owner) []))"

definition SessionPolicyChainPrefix :: "int \<Rightarrow> bytes" where
  "SessionPolicyChainPrefix chainID = join ''sp'' (join (sdecimal chainID) [])"

definition SessionPolicyPrefix :: "int \<Rightarrow> address \<Rightarrow> bytes" where
  "SessionPolicyPrefix chainID owner = join ''sp'' (join (sdecimal chainID) (join (lower_hex owner) []))"

definition SessionPolicyKey :: "int \<Rightarrow> address \<Rightarrow> string \<Rightarrow> bytes" where
  "SessionPolicyKey chainID owner policyID =
     join ''sp'' (join (sdecimal chainID) (join (lower_hex owner) policyID))"

section \<open>Parsing\<close>

text \<open>
  A parser returns the value with a nil error, the value with \<open>ErrLegacyKey\<close>, or another error.
\<close>

datatype 'a parsed = Parsed 'a | LegacyKey 'a | NotThisKind | BadChainID | Malformed

definition storageKeyToTaskStatus :: "string \<Rightarrow> task_status" where
  "storageKeyToTaskStatus s =
     (if s = ''c'' then Completed else if s = ''f'' then Failed else if s = ''i'' then Disabled
      else if s = ''x'' then Running else if s = ''a'' then Enabled else Enabled)"

definition ParseTaskStatusKey :: "bytes \<Rightarrow> (int \<times> task_status \<times> string) parsed" where
  "ParseTaskStatusKey key =
     (if \<not> prefix ''t:'' key then NotThisKind
      else case splitN_at 4 CHR '':'' key of
        [_, st, tid] \<Rightarrow> LegacyKey (0, storageKeyToTaskStatus st, tid)
      | [_, chain, st, tid] \<Rightarrow> (case parse_int64 chain of None \<Rightarrow> BadChainID
          | Some chainID \<Rightarrow> Parsed (chainID, storageKeyToTaskStatus st, tid))
      | _ \<Rightarrow> Malformed)"

definition ParseExecutionKey :: "bytes \<Rightarrow> (int \<times> string \<times> string) parsed" where
  "ParseExecutionKey key =
     (if \<not> prefix ''history:'' key then NotThisKind
      else case splitN_at 4 CHR '':'' key of
        [_, tid, eid] \<Rightarrow> LegacyKey (0, tid, eid)
      | [_, chain, tid, eid] \<Rightarrow> (case parse_int64 chain of None \<Rightarrow> BadChainID
          | Some chainID \<Rightarrow> Parsed (chainID, tid, eid))
      | _ \<Rightarrow> Malformed)"

definition ParseUserTaskKey :: "bytes \<Rightarrow> (int \<times> string \<times> string \<times> string) parsed" where
  "ParseUserTaskKey key =
     (if \<not> prefix ''u:'' key then NotThisKind
      else case split_at CHR '':'' key of
        [_, owner, wallet, tid] \<Rightarrow> LegacyKey (0, owner, wallet, tid)
      | [_, chain, owner, wallet, tid] \<Rightarrow> (case parse_int64 chain of None \<Rightarrow> BadChainID
          | Some chainID \<Rightarrow> Parsed (chainID, owner, wallet, tid))
      | _ \<Rightarrow> Malformed)"

definition IsChainScopedKey :: "bytes \<Rightarrow> bool" where
  "IsChainScopedKey key =
     (if prefix ''t:'' key then 3 \<le> count_list key CHR '':''
      else if prefix ''u:'' key then 4 \<le> count_list key CHR '':''
      else if prefix ''history:'' key then 3 \<le> count_list key CHR '':''
      else False)"

definition ExecutionIdFromStorageKey :: "bytes \<Rightarrow> string" where
  "ExecutionIdFromStorageKey key = (case ParseExecutionKey key of
     Parsed (_, _, eid) \<Rightarrow> eid | LegacyKey (_, _, eid) \<Rightarrow> eid | _ \<Rightarrow> [])"

definition TaskIdFromExecutionStorageKey :: "bytes \<Rightarrow> string" where
  "TaskIdFromExecutionStorageKey key = (case ParseExecutionKey key of
     Parsed (_, tid, _) \<Rightarrow> tid | LegacyKey (_, tid, _) \<Rightarrow> tid | _ \<Rightarrow> [])"

definition TaskIdFromTaskStatusStorageKey :: "bytes \<Rightarrow> bytes option" where
  "TaskIdFromTaskStatusStorageKey key = (case ParseUserTaskKey key of
     Parsed (_, _, _, tid) \<Rightarrow> Some tid | LegacyKey (_, _, _, tid) \<Rightarrow> Some tid | _ \<Rightarrow> None)"

text \<open>Slicing and indexing out of range panic; \<open>None\<close> is the panic.\<close>

definition ExecutionIdFromPendingKey :: "bytes \<Rightarrow> string option" where
  "ExecutionIdFromPendingKey key = (if length key < 35 then None else Some (drop 35 key))"

definition SecretNameFromKey :: "string \<Rightarrow> secret option" where
  "SecretNameFromKey key =
     (let parts = split_at CHR '':'' key
      in if length parts < 5 then None
         else Some \<lparr>secret_name = parts ! 4, secret_user = None,
           secret_org_id = (if parts ! 1 \<noteq> ''_'' then parts ! 1 else []),
           secret_workflow_id = (if parts ! 3 \<noteq> ''_'' then parts ! 3 else [])\<rparr>)"

section \<open>Smart wallet rows\<close>

text \<open>
  \<open>model.SmartWallet\<close> and its JSON codec, a parameter: \<open>marshal\<close> is \<open>ToJSON\<close>, \<open>unmarshal\<close> is
  \<open>FromStorageData\<close>. \<open>addr_string\<close> is \<open>Address.String()\<close>.
\<close>

record smart_wallet =
  wallet_owner :: "address option"
  wallet_address :: "address option"
  wallet_factory :: "address option"
  wallet_salt :: "int option"
  is_hidden :: bool
  stale_derivation :: bool
  retired :: bool

datatype wallet_error = StorageErr serr | UnmarshalErr | MarshalErr | NilWalletAddress

record wallet_codec =
  marshal :: "smart_wallet \<Rightarrow> bytes option"
  unmarshal :: "bytes \<Rightarrow> smart_wallet option"

definition lift_err :: "(serr \<Rightarrow> 'e) \<Rightarrow> serr + 'a \<Rightarrow> 'e + 'a" where
  "lift_err f r = (case r of Inl e \<Rightarrow> Inl (f e) | Inr x \<Rightarrow> Inr x)"

definition GetWallet ::
  "'d badger \<Rightarrow> wallet_codec \<Rightarrow> 'd \<Rightarrow> int \<Rightarrow> address \<Rightarrow> string \<Rightarrow> wallet_error + smart_wallet" where
  "GetWallet B C d chainID owner wallet =
     (case GetKey B d (WalletStorageKey chainID owner wallet) of
        Inl e \<Rightarrow> Inl (StorageErr e)
      | Inr data \<Rightarrow> (case unmarshal C data of None \<Rightarrow> Inl UnmarshalErr | Some w \<Rightarrow> Inr w))"

text \<open>The two rows of the batch are written in either order; the order of the map is \<open>[row, index]\<close> here.\<close>

definition StoreWallet ::
  "'d badger \<Rightarrow> wallet_codec \<Rightarrow> 'd \<Rightarrow> int \<Rightarrow> address \<Rightarrow> smart_wallet \<Rightarrow> wallet_error + 'd" where
  "StoreWallet B C d chainID owner wallet = (case wallet_address wallet of None \<Rightarrow> Inl NilWalletAddress
     | Some a \<Rightarrow> (let walletKey = WalletStorageKey chainID owner (lower_hex a)
        in case marshal C wallet of None \<Rightarrow> Inl MarshalErr
         | Some data \<Rightarrow>
            (case (wallet_factory wallet, wallet_salt wallet) of
               (Some factory, Some salt) \<Rightarrow>
                 if stale_derivation wallet then lift_err StorageErr (StorageSet B d walletKey data)
                 else lift_err StorageErr (BatchWrite B d [(walletKey, data),
                   (WalletBySaltKey chainID owner factory (Some salt), lower_hex a)])
             | _ \<Rightarrow> lift_err StorageErr (StorageSet B d walletKey data))))"

definition MarkWalletStale ::
  "'d badger \<Rightarrow> wallet_codec \<Rightarrow> 'd \<Rightarrow> int \<Rightarrow> address \<Rightarrow> string \<Rightarrow> wallet_error + 'd" where
  "MarkWalletStale B C d chainID owner wallet =
     bindE (GetWallet B C d chainID owner wallet) (\<lambda>w.
       StoreWallet B C d chainID owner (w\<lparr>stale_derivation := True, is_hidden := True\<rparr>))"

definition IsWalletHidden ::
  "'d badger \<Rightarrow> wallet_codec \<Rightarrow> 'd \<Rightarrow> int \<Rightarrow> address \<Rightarrow> string \<Rightarrow> wallet_error + bool" where
  "IsWalletHidden B C d chainID owner wallet = (case GetWallet B C d chainID owner wallet of
     Inl e \<Rightarrow> if e = StorageErr ErrKeyNotFound then Inr False else Inl e
   | Inr w \<Rightarrow> Inr (is_hidden w))"

definition SetWalletHiddenStatus ::
  "'d badger \<Rightarrow> wallet_codec \<Rightarrow> 'd \<Rightarrow> int \<Rightarrow> address \<Rightarrow> string \<Rightarrow> bool \<Rightarrow> wallet_error + 'd" where
  "SetWalletHiddenStatus B C d chainID owner wallet hidden =
     bindE (GetWallet B C d chainID owner wallet) (\<lambda>w.
       if is_hidden w = hidden then Inr d
       else StoreWallet B C d chainID owner (w\<lparr>is_hidden := hidden\<rparr>))"

section \<open>Properties\<close>

lemma join_inject [key_simps]: "CHR '':'' \<notin> set a \<Longrightarrow> CHR '':'' \<notin> set a' \<Longrightarrow>
    join a b = join a' b' \<longleftrightarrow> a = a' \<and> b = b'"
  by (auto simp: join_def dest: append_sep_inject)

lemma split_at_join [simp]: "CHR '':'' \<notin> set a \<Longrightarrow> split_at CHR '':'' (join a b) = a # split_at CHR '':'' b"
  by (simp add: join_def)

lemma splitN_at_join [simp]:
  "CHR '':'' \<notin> set a \<Longrightarrow> splitN_at (Suc (Suc n)) CHR '':'' (join a b) = a # splitN_at (Suc n) CHR '':'' b"
  by (simp add: join_def)

lemma prefix_join_same [simp]: "prefix (join a b) (join a c) \<longleftrightarrow> prefix b c"
  by (simp add: join_def)

lemma prefix_join [key_simps]:
  assumes "CHR '':'' \<notin> set a" and "CHR '':'' \<notin> set a'"
  shows "prefix (join a b) (join a' b') \<longleftrightarrow> a = a' \<and> prefix b b'"
proof
  assume "prefix (join a b) (join a' b')"
  then obtain r where "a' @ CHR '':'' # b' = a @ CHR '':'' # b @ r"
    by (auto simp: prefix_def join_def)
  from append_sep_inject [OF assms(2,1) this] show "a = a' \<and> prefix b b'" by auto
qed auto

lemma status_key_no_colon [simp]: "CHR '':'' \<notin> set (WorkflowStatusToStorageKey st)"
  by (simp add: WorkflowStatusToStorageKey_def split: task_status.splits)

lemma status_key_roundtrip:
  "storageKeyToTaskStatus (WorkflowStatusToStorageKey st) = (case st of OtherStatus _ \<Rightarrow> Enabled | _ \<Rightarrow> st)"
  by (simp add: storageKeyToTaskStatus_def WorkflowStatusToStorageKey_def split: task_status.splits)

lemma join_prefix_head [simp]: "prefix (a @ '':'') (join a b)"
  by (simp add: join_def)

lemma join_head [simp]: "prefix ''t:'' (join ''t'' b)" "prefix ''u:'' (join ''u'' b)"
  "prefix ''history:'' (join ''history'' b)"
  by (simp_all add: join_def)

lemma numeral_4_splits: "splitN_at 4 c s = splitN_at (Suc (Suc (Suc (Suc 0)))) c s"
  by (simp add: numeral_eq_Suc)

text \<open>
Every workflow row key reads back: for a chain id in range and any workflow id, even one with
colons, the parser returns the chain, the status and the id the key was built from; a key of the
single-chain layout whose id has no colon is reported as legacy with the same contents.
\<close>

lemma ParseTaskStatusKey_roundtrip:
  assumes "in_int64 chainID" and "\<forall>n. st \<noteq> OtherStatus n"
  shows "ParseTaskStatusKey (ChainWorkflowStorageKey chainID wid st) = Parsed (chainID, st, wid) \<and>
    (CHR '':'' \<notin> set wid \<longrightarrow> ParseTaskStatusKey (WorkflowStorageKey wid st) = LegacyKey (0, st, wid))"
proof -
  have st: "storageKeyToTaskStatus (WorkflowStatusToStorageKey st) = st"
    using assms(2) by (simp add: status_key_roundtrip split: task_status.splits)
  show ?thesis using assms(1)
    by (simp add: ParseTaskStatusKey_def ChainWorkflowStorageKey_def WorkflowStorageKey_def
        numeral_4_splits st)
qed

lemma ParseTaskStatusKey_roundtrip_witness:
  "ParseTaskStatusKey (ChainWorkflowStorageKey 8453 ''01j'' Failed) = Parsed (8453, Failed, ''01j'')"
  using ParseTaskStatusKey_roundtrip [of 8453 Failed "''01j''"] by (simp add: in_int64_def)

text \<open>
Execution-history and user-task keys read back: with ids, owner and wallet free of colons, the
chain-scoped key returns its chain and parts, the single-chain key is reported as legacy, and the
extraction helpers return the execution id and the task id for both layouts.
\<close>

lemma history_and_user_keys_roundtrip:
  assumes "in_int64 chainID" and "CHR '':'' \<notin> set (task_id t)" and "CHR '':'' \<notin> set eid"
    and "CHR '':'' \<notin> set (to_lower (task_owner t))"
    and "CHR '':'' \<notin> set (to_lower (smart_wallet_address t))"
  shows "ParseExecutionKey (ChainTaskExecutionKey chainID t eid) = Parsed (chainID, task_id t, eid) \<and>
    ParseExecutionKey (TaskExecutionKey t eid) = LegacyKey (0, task_id t, eid) \<and>
    ParseUserTaskKey (ChainTaskUserKey chainID t) =
      Parsed (chainID, to_lower (task_owner t), to_lower (smart_wallet_address t), task_id t) \<and>
    TaskIdFromTaskStatusStorageKey (TaskUserKey t) = Some (task_id t) \<and>
    ExecutionIdFromStorageKey (TaskExecutionKey t eid) = eid \<and>
    ExecutionIdFromStorageKey (ChainTaskExecutionKey chainID t eid) = eid"
  using assms
  by (simp add: ParseExecutionKey_def ChainTaskExecutionKey_def TaskExecutionKey_def
      ParseUserTaskKey_def ChainTaskUserKey_def TaskUserKey_def Key_def numeral_4_splits
      TaskIdFromTaskStatusStorageKey_def ExecutionIdFromStorageKey_def)

lemma history_and_user_keys_roundtrip_witness:
  "ExecutionIdFromStorageKey (ChainTaskExecutionKey 1 example_task ''e1'') = ''e1''"
  using history_and_user_keys_roundtrip [of 1 example_task "''e1''"]
  by (simp add: in_int64_def example_task_def to_lower_def lower_char_def)

text \<open>
A scan of one owner's session policies, or of one owner's fee records, on one chain returns no row
of another owner or of another chain, and a scan of a chain's workflows of one status returns only
rows of that chain and status.
\<close>

lemma prefix_scans_are_exact:
  "(prefix (SessionPolicyPrefix c a) (SessionPolicyKey c' a' pid) \<longleftrightarrow> c = c' \<and> a = a') \<and>
   (prefix (FeeRecordPrefix c a) (FeeRecordKey c' a' eid) \<longleftrightarrow> c = c' \<and> a = a') \<and>
   (prefix (SessionPolicyChainPrefix c) (SessionPolicyKey c' a' pid) \<longleftrightarrow> c = c') \<and>
   (prefix (ChainWorkflowByStatusStoragePrefix c st) (ChainWorkflowStorageKey c' wid st') \<longleftrightarrow>
      c = c' \<and> WorkflowStatusToStorageKey st = WorkflowStatusToStorageKey st')"
  by (simp add: SessionPolicyPrefix_def SessionPolicyKey_def FeeRecordPrefix_def FeeRecordKey_def
      SessionPolicyChainPrefix_def ChainWorkflowByStatusStoragePrefix_def ChainWorkflowStorageKey_def
      key_simps)

text \<open>
A stored secret's name and scope read back from its key when the name and the scope ids have no
colon and no scope id is the placeholder; the workflow scope takes precedence over the organisation.
\<close>

lemma SecretNameFromKey_roundtrip:
  assumes "SecretStorageKey s = Some key" and "CHR '':'' \<notin> set (secret_name s)"
    and "CHR '':'' \<notin> set (secret_org_id s)" and "CHR '':'' \<notin> set (secret_workflow_id s)"
    and "secret_org_id s \<noteq> ''_''" and "secret_workflow_id s \<noteq> ''_''"
  shows "\<exists>r. SecretNameFromKey key = Some r \<and> secret_name r = secret_name s \<and>
    secret_workflow_id r = secret_workflow_id s \<and>
    secret_org_id r = (if secret_workflow_id s = [] then secret_org_id s else [])"
proof -
  have "length (split_at CHR '':'' key) = 5" if "split_at CHR '':'' key = [a, b, c, d, e]" for a b c d e
    using that by simp
  with assms show ?thesis
    by (auto simp: SecretStorageKey_def SecretStorageKeyForUser_def SecretStorageKeyForOrg_def
        SecretStorageKeyForWorkflow_def SecretNameFromKey_def Let_def split: option.splits if_splits)
qed

lemma SecretNameFromKey_roundtrip_witness:
  "\<exists>r key. SecretStorageKey \<lparr>secret_name = ''bot'', secret_user = Some 5, secret_org_id = ''acme'',
       secret_workflow_id = []\<rparr> = Some key \<and>
     SecretNameFromKey key = Some r \<and> secret_name r = ''bot'' \<and> secret_org_id r = ''acme''"
proof -
  let ?s = "\<lparr>secret_name = ''bot'', secret_user = Some 5, secret_org_id = ''acme'', secret_workflow_id = []\<rparr>"
  obtain key where k: "SecretStorageKey ?s = Some key" by (simp add: SecretStorageKey_def)
  from SecretNameFromKey_roundtrip [OF k] k show ?thesis by auto
qed

end
