(* ===== verification/Queue.thy ===== *)
theory Queue
  imports Keys
begin

text \<open>
  The persistent job queue, \<open>core/apqueue\<close>: the queue over the storage layer, the worker that processes
  a wakeup, the deferral of paused jobs and the cleanup of orphaned ones. Channels and goroutines are
  fields of the queue record: \<open>eventCh\<close> is the buffered wakeup channel, \<open>senders\<close> the enqueuers blocked
  on it, \<open>restoring\<close> the wakeups the start-up goroutine still has to deliver, \<open>waiting\<close> the
  \<open>resumeDeferred\<close> goroutines and \<open>running\<close> the jobs a worker holds. \<open>queue_step\<close> interleaves them, and
  the invariants are proved by rule induction over it.
\<close>

section \<open>Jobs\<close>

datatype job_status = JobPending | JobDeferred | JobInProgress | JobComplete | JobFailed

text \<open>\<open>jobStatus.String\<close>, which \<open>fmt\<close> uses for the \<open>%v\<close> of a key as well.\<close>

definition status_String :: "job_status \<Rightarrow> string" where
  "status_String s = (case s of JobPending \<Rightarrow> ''pending'' | JobDeferred \<Rightarrow> ''deferred''
     | JobInProgress \<Rightarrow> ''in_progress'' | JobComplete \<Rightarrow> ''complete'' | JobFailed \<Rightarrow> ''failed'')"

record job =
  jtype :: string
  jname :: string
  jdata :: bytes
  jenqueue_at :: uint64
  jattempt :: uint64
  jid :: uint64

text \<open>
  The environment: the BadgerDB parameter and the JSON codec of a job (\<open>encoding/json\<close> over the struct
  tags). The queue relies on the codec to keep the job's id.
\<close>

record 'd qenv =
  qbadger :: "'d badger"
  jsonMarshal :: "job \<Rightarrow> bytes option"
  jsonUnmarshal :: "bytes \<Rightarrow> job option"

definition qenv_ok :: "'d qenv \<Rightarrow> bool" where
  "qenv_ok E \<longleftrightarrow> badger_ok (qbadger E) \<and>
     (\<forall>j b. jsonMarshal E j = Some b \<longrightarrow> (\<exists>j'. jsonUnmarshal E b = Some j' \<and> jid j' = jid j))"

datatype qerr = QStorage serr | QSequence | QEncode | QDecode | QBadStatus | QPanic

definition encodeJob :: "'d qenv \<Rightarrow> job \<Rightarrow> qerr + bytes" where
  "encodeJob E j = (case jsonMarshal E j of None \<Rightarrow> Inl QEncode | Some b \<Rightarrow> Inr b)"

definition decodeJob :: "'d qenv \<Rightarrow> bytes \<Rightarrow> qerr + job" where
  "decodeJob E b = (case jsonUnmarshal E b of None \<Rightarrow> Inl QDecode | Some j \<Rightarrow> Inr j)"

section \<open>The queue\<close>

record 'd queue =
  qdb :: 'd
  qprefix :: string
  qchains :: "int list"
  eventCh :: "uint64 list"
  senders :: "uint64 list"
  restoring :: "uint64 list"
  waiting :: "(bytes \<times> uint64) list"
  running :: "job list"
  qclosed :: bool

record queue_option =
  opt_prefix :: string
  opt_chain_ids :: "int list"

definition NewQueue :: "'d \<Rightarrow> queue_option option \<Rightarrow> 'd queue" where
  "NewQueue db opts =
     \<lparr>qdb = db,
      qprefix = (case opts of None \<Rightarrow> [] | Some p \<Rightarrow> if opt_prefix p = [] then ''d'' else opt_prefix p),
      qchains = (case opts of None \<Rightarrow> [] | Some p \<Rightarrow> opt_chain_ids p),
      eventCh = [], senders = [], restoring = [], waiting = [], running = [], qclosed = False\<rparr>"

definition event_capacity :: nat where
  "event_capacity = 1000"

definition getQueueKeyPrefix :: "string \<Rightarrow> job_status \<Rightarrow> bytes" where
  "getQueueKeyPrefix pre status = join ''q'' (join pre (join (status_String status) []))"

definition getJobKey :: "string \<Rightarrow> job_status \<Rightarrow> uint64 \<Rightarrow> bytes" where
  "getJobKey pre status jID = getQueueKeyPrefix pre status @ format_uint64 jID"

text \<open>\<open>q.eventCh <- id\<close>: delivered when the buffer has room, otherwise the sender blocks.\<close>

definition send_event :: "uint64 \<Rightarrow> 'd queue \<Rightarrow> 'd queue" where
  "send_event i q = (if length (eventCh q) < event_capacity
     then q\<lparr>eventCh := eventCh q @ [i]\<rparr> else q\<lparr>senders := senders q @ [i]\<rparr>)"

subsection \<open>Start\<close>

fun restore_deferred :: "'d qenv \<Rightarrow> string \<Rightarrow> (bytes \<times> bytes) list \<Rightarrow> 'd \<Rightarrow> 'd \<times> qerr option" where
  "restore_deferred E pre [] d = (d, None)"
| "restore_deferred E pre ((k, v) # rows) d =
     (case decodeJob E v of Inl e \<Rightarrow> (d, Some e)
      | Inr j \<Rightarrow> (case Move (qbadger E) d k (getJobKey pre JobPending (jid j)) of
          Inl e \<Rightarrow> (d, Some (QStorage e))
        | Inr d' \<Rightarrow> restore_deferred E pre rows d'))"

fun decode_ids :: "'d qenv \<Rightarrow> (bytes \<times> bytes) list \<Rightarrow> qerr + uint64 list" where
  "decode_ids E [] = Inr []"
| "decode_ids E ((k, v) # rows) =
     bindE (decodeJob E v) (\<lambda>j. bindE (decode_ids E rows) (\<lambda>ids. Inr (jid j # ids)))"

text \<open>\<open>seq_err\<close> is the error of \<open>GetSequence\<close>, on which \<open>MustStart\<close> panics.\<close>

definition MustStart :: "'d qenv \<Rightarrow> serr option \<Rightarrow> 'd queue \<Rightarrow> 'd queue \<times> qerr option" where
  "MustStart E seq_err q =
     (if seq_err \<noteq> None then (q, Some QPanic)
      else case GetByPrefix (qbadger E) (qdb q) (getQueueKeyPrefix (qprefix q) JobDeferred) of
        Inl e \<Rightarrow> (q, Some (QStorage e))
      | Inr rows \<Rightarrow>
         (let (d, err) = restore_deferred E (qprefix q) rows (qdb q); q1 = q\<lparr>qdb := d\<rparr>
          in case err of Some e \<Rightarrow> (q1, Some e)
           | None \<Rightarrow> (case GetByPrefix (qbadger E) d (getQueueKeyPrefix (qprefix q) JobPending) of
               Inl e \<Rightarrow> (q1, Some (QStorage e))
             | Inr prows \<Rightarrow> (case decode_ids E prows of
                 Inl e \<Rightarrow> (q1, Some e)
               | Inr ids \<Rightarrow> (q1\<lparr>restoring := ids\<rparr>, None)))))"

text \<open>\<open>Stop\<close> closes the channel; waiting goroutines then return.\<close>

definition Stop :: "'d queue \<Rightarrow> 'd queue" where
  "Stop q = q\<lparr>qclosed := True\<rparr>"

subsection \<open>Enqueue and dequeue\<close>

text \<open>\<open>seq\<close> is the outcome of \<open>getNextSeq\<close>: BadgerDB's next number, or an error (a panic included).\<close>

definition Enqueue ::
  "'d qenv \<Rightarrow> 'd queue \<Rightarrow> qerr + uint64 \<Rightarrow> string \<Rightarrow> string \<Rightarrow> bytes \<Rightarrow> 'd queue \<times> (qerr + uint64)" where
  "Enqueue E q seq jobType name data = (case seq of Inl e \<Rightarrow> (q, Inl e)
     | Inr num \<Rightarrow>
        (let j = \<lparr>jtype = jobType, jname = name, jdata = data, jenqueue_at = 0, jattempt = 0,
                  jid = num + 1\<rparr>
         in case encodeJob E j of Inl e \<Rightarrow> (q, Inl e)
          | Inr b \<Rightarrow> (case StorageSet (qbadger E) (qdb q) (getJobKey (qprefix q) JobPending (jid j)) b of
              Inl e \<Rightarrow> (q, Inl (QStorage e))
            | Inr d \<Rightarrow> (send_event (jid j) (q\<lparr>qdb := d\<rparr>), Inr (jid j)))))"

definition Dequeue :: "'d qenv \<Rightarrow> 'd queue \<Rightarrow> qerr + job option \<times> 'd queue" where
  "Dequeue E q =
     (case FirstKVHasPrefix (qbadger E) (qdb q) (getQueueKeyPrefix (qprefix q) JobPending) of
        Inl e \<Rightarrow> Inl (QStorage e)
      | Inr None \<Rightarrow> Inr (None, q)
      | Inr (Some (k, v)) \<Rightarrow> (case decodeJob E v of Inl e \<Rightarrow> Inl e
          | Inr j \<Rightarrow> (case Move (qbadger E) (qdb q) k (getJobKey (qprefix q) JobInProgress (jid j)) of
              Inl e \<Rightarrow> Inl (QStorage e)
            | Inr d \<Rightarrow> Inr (Some j, q\<lparr>qdb := d\<rparr>))))"

definition markJobDone :: "'d qenv \<Rightarrow> 'd queue \<Rightarrow> job \<Rightarrow> job_status \<Rightarrow> 'd queue \<times> qerr option" where
  "markJobDone E q job status =
     (if status \<noteq> JobComplete \<and> status \<noteq> JobFailed then (q, Some QBadStatus)
      else case Move (qbadger E) (qdb q) (getJobKey (qprefix q) JobInProgress (jid job))
                  (getJobKey (qprefix q) status (jid job)) of
             Inl e \<Rightarrow> (q, if e = ErrKeyNotFound then None else Some (QStorage e))
           | Inr d \<Rightarrow> (q\<lparr>qdb := d\<rparr>, None))"

subsection \<open>Deferral\<close>

definition deferJob :: "'d qenv \<Rightarrow> 'd queue \<Rightarrow> job \<Rightarrow> 'd queue \<times> qerr option" where
  "deferJob E q job =
     (let key = getJobKey (qprefix q) JobDeferred (jid job)
      in case Move (qbadger E) (qdb q) (getJobKey (qprefix q) JobInProgress (jid job)) key of
           Inl e \<Rightarrow> (q, Some (QStorage e))
         | Inr d \<Rightarrow> (if qclosed q then (q\<lparr>qdb := d\<rparr>, None)
             else (q\<lparr>qdb := d, waiting := waiting q @ [(key, jid job)]\<rparr>, None)))"

text \<open>
  One turn of the \<open>resumeDeferred\<close> loop of the \<open>n\<close>-th waiting goroutine: on a closed queue it returns;
  on a tick it moves its row to pending, returns when the row is gone, stays for the next tick on any
  other error, and otherwise sends the wakeup and returns.
\<close>

definition drop_nth :: "nat \<Rightarrow> 'a list \<Rightarrow> 'a list" where
  "drop_nth n xs = take n xs @ drop (Suc n) xs"

definition resumeDeferred :: "'d qenv \<Rightarrow> 'd queue \<Rightarrow> nat \<Rightarrow> 'd queue" where
  "resumeDeferred E q n =
     (if length (waiting q) \<le> n then q
      else let (key, i) = waiting q ! n; gone = q\<lparr>waiting := drop_nth n (waiting q)\<rparr>
        in if qclosed q then gone
           else case Move (qbadger E) (qdb q) key (getJobKey (qprefix q) JobPending i) of
                  Inl e \<Rightarrow> if e = ErrKeyNotFound then gone else q
                | Inr d \<Rightarrow> send_event i (gone\<lparr>qdb := d\<rparr>))"

subsection \<open>The worker\<close>

text \<open>
  What a processor returned: nil, an error that carries a retry delay, or a plain error. The delay is
  a duration; only a positive one defers.
\<close>

datatype perform_result = PerfOk | PerfRetry int string | PerfErr string

definition isOrphanedJob :: "string \<Rightarrow> bool" where
  "isOrphanedJob msg \<longleftrightarrow> contains msg ''task not found in storage'' \<or>
     contains msg ''task may have been deleted'' \<or> contains msg ''storage key is incorrect''"

fun finishJob :: "'d qenv \<Rightarrow> 'd queue \<Rightarrow> job \<Rightarrow> perform_result \<Rightarrow> 'd queue \<times> qerr option" where
  "finishJob E q job PerfOk = markJobDone E q job JobComplete"
| "finishJob E q job (PerfRetry delay msg) =
     (if 0 < delay then deferJob E q job else markJobDone E q job JobFailed)"
| "finishJob E q job (PerfErr msg) =
     (if isOrphanedJob msg then markJobDone E q job JobFailed else markJobDone E q job JobFailed)"

text \<open>
  \<open>ProcessSignal\<close> runs the two halves around the processor. A registry maps a job type to its
  processor; an unregistered type is an error. Errors of the queue operations are only logged.
\<close>

definition unsupported_message :: "string \<Rightarrow> string" where
  "unsupported_message t = ''unsupported job type: '' @ t"

definition ProcessSignal ::
  "'d qenv \<Rightarrow> (string \<rightharpoonup> (job \<Rightarrow> perform_result)) \<Rightarrow> 'd queue \<Rightarrow> 'd queue" where
  "ProcessSignal E registry q = (case Dequeue E q of
       Inl e \<Rightarrow> q
     | Inr (None, q') \<Rightarrow> q'
     | Inr (Some job, q') \<Rightarrow>
        (let result = (case registry (jtype job) of Some perform \<Rightarrow> perform job
            | None \<Rightarrow> PerfErr (unsupported_message (jtype job)))
         in fst (finishJob E q' job result)))"

section \<open>Cleanup of orphaned jobs\<close>

record cleanup_stats =
  total_jobs :: nat
  orphaned_jobs :: nat
  removed_jobs :: nat
  failed_cleanup :: nat

definition task_statuses :: "task_status list" where
  "task_statuses = [Enabled, Completed, Failed, Disabled, Running]"

definition task_keys :: "int list \<Rightarrow> string \<Rightarrow> bytes list" where
  "task_keys chs name =
     (let cs = (if chs = [] then [0] else chs)
      in concat (map (\<lambda>st. map (\<lambda>c. if c = 0 then WorkflowStorageKey name st
           else ChainWorkflowStorageKey c name st) cs) task_statuses))"

fun task_exists :: "'d badger \<Rightarrow> 'd \<Rightarrow> bytes list \<Rightarrow> bool" where
  "task_exists B d [] = False"
| "task_exists B d (k # ks) = (case GetKey B d k of Inr _ \<Rightarrow> True | Inl _ \<Rightarrow> task_exists B d ks)"

fun cleanup_rows ::
  "'d qenv \<Rightarrow> int list \<Rightarrow> (bytes \<times> bytes) list \<Rightarrow> 'd \<times> cleanup_stats \<Rightarrow> 'd \<times> cleanup_stats" where
  "cleanup_rows E chs [] acc = acc"
| "cleanup_rows E chs ((k, v) # rows) (d, st) =
     (let st1 = st\<lparr>total_jobs := total_jobs st + 1\<rparr>
      in case decodeJob E v of
           Inl e \<Rightarrow> cleanup_rows E chs rows (d, st1\<lparr>failed_cleanup := failed_cleanup st1 + 1\<rparr>)
         | Inr job \<Rightarrow>
             if task_exists (qbadger E) d (task_keys chs (jname job))
             then cleanup_rows E chs rows (d, st1)
             else (let st2 = st1\<lparr>orphaned_jobs := orphaned_jobs st1 + 1\<rparr>
                   in case StorageDelete (qbadger E) d k of
                        Inl e \<Rightarrow> cleanup_rows E chs rows (d, st2\<lparr>failed_cleanup := failed_cleanup st2 + 1\<rparr>)
                      | Inr d' \<Rightarrow> cleanup_rows E chs rows (d', st2\<lparr>removed_jobs := removed_jobs st2 + 1\<rparr>)))"

definition cleanup_status ::
  "'d qenv \<Rightarrow> string \<Rightarrow> int list \<Rightarrow> job_status \<Rightarrow> 'd \<times> cleanup_stats \<Rightarrow> 'd \<times> cleanup_stats" where
  "cleanup_status E pre chs status acc = (case acc of (d, st) \<Rightarrow>
     (case GetByPrefix (qbadger E) d (getQueueKeyPrefix pre status) of
        Inl e \<Rightarrow> (d, st\<lparr>failed_cleanup := failed_cleanup st + 1\<rparr>)
      | Inr kvs \<Rightarrow> cleanup_rows E chs kvs (d, st)))"

definition CleanupOrphanedJobs :: "'d qenv \<Rightarrow> 'd queue \<Rightarrow> 'd queue \<times> cleanup_stats" where
  "CleanupOrphanedJobs E q =
     (let (d, st) = fold (cleanup_status E (qprefix q) (qchains q))
            [JobPending, JobDeferred, JobInProgress, JobFailed]
            (qdb q, \<lparr>total_jobs = 0, orphaned_jobs = 0, removed_jobs = 0, failed_cleanup = 0\<rparr>)
      in (q\<lparr>qdb := d\<rparr>, st))"

section \<open>Interleaving\<close>

text \<open>
  One step of the running system. A fresh sequence number is one whose job id is stored nowhere in the
  queue, which is what BadgerDB's sequence promises. A worker takes a wakeup and dequeues
  (\<open>work_begin\<close>), and later finishes the job it holds (\<open>work_finish\<close>) with any result. \<open>CleanupOrphanedJobs\<close> takes no
  lock: besides the whole sweep (\<open>cleanup\<close>) there is a step for a single row of it (\<open>cleanup_row\<close>), read by a scan at any
  earlier moment, so that workers may act between two rows of a sweep and the row may have moved or gone meanwhile.
\<close>

definition ids_in :: "'d qenv \<Rightarrow> string \<Rightarrow> 'd \<Rightarrow> job_status \<Rightarrow> uint64 set" where
  "ids_in E pre d s = {i. rows_of (qbadger E) d (getJobKey pre s i) \<noteq> None}"

abbreviation ids_at :: "'d qenv \<Rightarrow> 'd queue \<Rightarrow> job_status \<Rightarrow> uint64 set" where
  "ids_at E q s \<equiv> ids_in E (qprefix q) (qdb q) s"

inductive queue_step :: "'d qenv \<Rightarrow> 'd queue \<Rightarrow> 'd queue \<Rightarrow> bool" for E :: "'d qenv" where
  enqueue: "\<forall>s. num + 1 \<notin> ids_at E q s \<Longrightarrow> queue_step E q (fst (Enqueue E q (Inr num) t n data))"
| unblock: "senders q = i # is \<Longrightarrow> length (eventCh q) < event_capacity \<Longrightarrow>
    queue_step E q (q\<lparr>senders := is, eventCh := eventCh q @ [i]\<rparr>)"
| deliver: "restoring q = i # is \<Longrightarrow> length (eventCh q) < event_capacity \<Longrightarrow>
    queue_step E q (q\<lparr>restoring := is, eventCh := eventCh q @ [i]\<rparr>)"
| work_begin: "eventCh q = i # es \<Longrightarrow> Dequeue E q = Inr (r, q') \<Longrightarrow>
    queue_step E q (q'\<lparr>eventCh := es, running := (case r of None \<Rightarrow> running q | Some j \<Rightarrow> j # running q)\<rparr>)"
| work_error: "eventCh q = i # es \<Longrightarrow> Dequeue E q = Inl err \<Longrightarrow> queue_step E q (q\<lparr>eventCh := es\<rparr>)"
| work_finish: "j \<in> set (running q) \<Longrightarrow>
    queue_step E q ((fst (finishJob E q j res))\<lparr>running := remove1 j (running q)\<rparr>)"
| tick: "n < length (waiting q) \<Longrightarrow> queue_step E q (resumeDeferred E q n)"
| stop: "queue_step E q (Stop q)"
| cleanup: "queue_step E q (fst (CleanupOrphanedJobs E q))"
| cleanup_row: "s \<noteq> JobComplete \<Longrightarrow>
    queue_step E q (q\<lparr>qdb := fst (cleanup_rows E (qchains q) [(getJobKey (qprefix q) s i, v)] (qdb q, st))\<rparr>)"

inductive_cases queue_stepE: "queue_step E q q'"

section \<open>Keys of the queue\<close>

lemma status_String_inject [simp]: "status_String s = status_String t \<longleftrightarrow> s = t"
  by (cases s; cases t) (simp_all add: status_String_def)

lemma status_String_no_colon [simp]: "CHR '':'' \<notin> set (status_String s)"
  by (simp add: status_String_def split: job_status.splits)

lemma format_uint64_inject [simp]: "format_uint64 i = format_uint64 j \<longleftrightarrow> i = j"
  by (simp add: format_uint64_def word_unat_eq_iff)

lemma getJobKey_join: "getJobKey pre s i = join ''q'' (join pre (join (status_String s) (format_uint64 i)))"
  by (simp add: getJobKey_def getQueueKeyPrefix_def join_def)

lemma join_same_inject [simp]: "join a b = join a c \<longleftrightarrow> b = c"
  by (simp add: join_def)

lemma getJobKey_inject [simp]: "getJobKey pre s i = getJobKey pre t j \<longleftrightarrow> s = t \<and> i = j"
  by (simp add: getJobKey_join join_inject)

lemma prefix_getJobKey [simp]: "prefix (getQueueKeyPrefix pre s) (getJobKey pre t i) \<longleftrightarrow> s = t"
  by (simp add: getJobKey_join getQueueKeyPrefix_def prefix_join)

section \<open>The invariant\<close>

text \<open>
  Each id is stored under at most one status, and every row below a queue prefix decodes to the job
  whose id its key carries. \<open>status_in\<close> is the abstract state: where each job is.
\<close>

definition one_status :: "'d qenv \<Rightarrow> string \<Rightarrow> 'd \<Rightarrow> bool" where
  "one_status E pre d \<longleftrightarrow> (\<forall>i s t. i \<in> ids_in E pre d s \<longrightarrow> i \<in> ids_in E pre d t \<longrightarrow> s = t)"

definition typed_rows :: "'d qenv \<Rightarrow> string \<Rightarrow> 'd \<Rightarrow> bool" where
  "typed_rows E pre d \<longleftrightarrow> (\<forall>s k v. prefix (getQueueKeyPrefix pre s) k \<longrightarrow>
     rows_of (qbadger E) d k = Some v \<longrightarrow> (\<exists>j. jsonUnmarshal E v = Some j \<and> k = getJobKey pre s (jid j)))"

definition db_inv :: "'d qenv \<Rightarrow> string \<Rightarrow> 'd \<Rightarrow> bool" where
  "db_inv E pre d \<longleftrightarrow> one_status E pre d \<and> typed_rows E pre d"

definition queue_inv :: "'d qenv \<Rightarrow> 'd queue \<Rightarrow> bool" where
  "queue_inv E q \<longleftrightarrow> db_inv E (qprefix q) (qdb q) \<and>
     (\<forall>(k, i) \<in> set (waiting q). k = getJobKey (qprefix q) JobDeferred i)"

definition status_in :: "'d qenv \<Rightarrow> string \<Rightarrow> 'd \<Rightarrow> uint64 \<rightharpoonup> job_status" where
  "status_in E pre d i = (let here = (\<lambda>s. i \<in> ids_in E pre d s)
     in if here JobPending then Some JobPending else if here JobDeferred then Some JobDeferred
        else if here JobInProgress then Some JobInProgress else if here JobComplete then Some JobComplete
        else if here JobFailed then Some JobFailed else None)"

lemma status_in_Some:
  assumes "one_status E pre d"
  shows "status_in E pre d i = Some s \<longleftrightarrow> i \<in> ids_in E pre d s"
  using assms by (cases s) (auto simp: status_in_def Let_def one_status_def)

lemma status_in_None: "status_in E pre d i = None \<longleftrightarrow> (\<forall>s. i \<notin> ids_in E pre d s)"
proof -
  have "(\<forall>s. P s) \<longleftrightarrow> P JobPending \<and> P JobDeferred \<and> P JobInProgress \<and> P JobComplete \<and> P JobFailed" for P
    by (metis job_status.exhaust)
  then show ?thesis by (auto simp: status_in_def Let_def)
qed

lemma status_in_eqI:
  assumes "one_status E pre d" and "\<And>i s. i \<in> ids_in E pre d s \<longleftrightarrow> m i = Some s"
  shows "status_in E pre d = m"
proof
  fix i
  show "status_in E pre d i = m i"
  proof (cases "m i")
    case None
    with assms(2) show ?thesis by (simp add: status_in_None)
  next
    case (Some s)
    with assms show ?thesis by (simp add: status_in_Some)
  qed
qed

lemma qenv_badger: "qenv_ok E \<Longrightarrow> badger_ok (qbadger E)"
  by (simp add: qenv_ok_def)

text \<open>A move between two statuses of one job.\<close>

lemma move_job:
  assumes E: "qenv_ok E" and inv: "db_inv E pre d" and ne: "s \<noteq> t"
    and mv: "Move (qbadger E) d (getJobKey pre s i) (getJobKey pre t i) = Inr d'"
  shows "db_inv E pre d'" and "status_in E pre d i = Some s"
    and "status_in E pre d' = (status_in E pre d)(i \<mapsto> t)"
proof -
  obtain v where v: "rows_of (qbadger E) d (getJobKey pre s i) = Some v"
    and r: "rows_of (qbadger E) d' =
      (rows_of (qbadger E) d)(getJobKey pre s i := None, getJobKey pre t i \<mapsto> v)"
    using storage.move_abs [OF badger_storage [OF qenv_badger [OF E]] mv] by blast
  have one: "one_status E pre d" and typed: "typed_rows E pre d" using inv by (auto simp: db_inv_def)
  have i: "i \<in> ids_in E pre d s" using v by (simp add: ids_in_def)
  have only: "i \<in> ids_in E pre d u \<longleftrightarrow> u = s" for u
    using i one by (auto simp: one_status_def)
  have ids: "j \<in> ids_in E pre d' u \<longleftrightarrow> (if j = i then u = t else j \<in> ids_in E pre d u)" for j u
    using only [of u] ne by (auto simp: ids_in_def r split: if_splits)
  have one': "one_status E pre d'" using one by (auto simp: one_status_def ids)
  obtain j where "jsonUnmarshal E v = Some j" "jid j = i"
    using typed [unfolded typed_rows_def, rule_format, of s "getJobKey pre s i" v] v by auto
  then have "typed_rows E pre d'" using typed ne by (auto simp: typed_rows_def r split: if_splits)
  with one' show "db_inv E pre d'" by (simp add: db_inv_def)
  show st: "status_in E pre d i = Some s" using i one by (simp add: status_in_Some)
  show "status_in E pre d' = (status_in E pre d)(i \<mapsto> t)"
    using one by (intro status_in_eqI [OF one']) (auto simp: ids status_in_Some)
qed

lemma set_job:
  assumes E: "qenv_ok E" and inv: "db_inv E pre d" and fresh: "status_in E pre d (jid j) = None"
    and enc: "jsonMarshal E j = Some b"
    and st: "StorageSet (qbadger E) d (getJobKey pre JobPending (jid j)) b = Inr d'"
  shows "db_inv E pre d'" and "status_in E pre d' = (status_in E pre d)(jid j \<mapsto> JobPending)"
proof -
  have r: "rows_of (qbadger E) d' = (rows_of (qbadger E) d)(getJobKey pre JobPending (jid j) \<mapsto> b)"
    using storage.set_abs [OF badger_storage [OF qenv_badger [OF E]] st] .
  have one: "one_status E pre d" and typed: "typed_rows E pre d" using inv by (auto simp: db_inv_def)
  have none: "jid j \<notin> ids_in E pre d u" for u using fresh by (simp add: status_in_None)
  have ids: "i \<in> ids_in E pre d' u \<longleftrightarrow> (if i = jid j then u = JobPending else i \<in> ids_in E pre d u)" for i u
    using none [of u] by (auto simp: ids_in_def r split: if_splits)
  have one': "one_status E pre d'" using one by (auto simp: one_status_def ids)
  obtain j' where "jsonUnmarshal E b = Some j'" "jid j' = jid j"
    using E enc by (auto simp: qenv_ok_def)
  then have "typed_rows E pre d'" using typed by (auto simp: typed_rows_def r split: if_splits)
  with one' show "db_inv E pre d'" by (simp add: db_inv_def)
  show "status_in E pre d' = (status_in E pre d)(jid j \<mapsto> JobPending)"
    using one by (intro status_in_eqI [OF one']) (auto simp: ids status_in_Some)
qed

lemma delete_job:
  assumes E: "qenv_ok E" and inv: "db_inv E pre d"
    and del: "StorageDelete (qbadger E) d (getJobKey pre s i) = Inr d'"
  shows "db_inv E pre d'"
    and "status_in E pre d' = (if status_in E pre d i = Some s then (status_in E pre d)(i := None)
           else status_in E pre d)"
proof -
  have r: "rows_of (qbadger E) d' = (rows_of (qbadger E) d)(getJobKey pre s i := None)"
    using storage.delete_abs [OF badger_storage [OF qenv_badger [OF E]] del] .
  have one: "one_status E pre d" and typed: "typed_rows E pre d" using inv by (auto simp: db_inv_def)
  have ids: "j \<in> ids_in E pre d' u \<longleftrightarrow> j \<in> ids_in E pre d u \<and> \<not> (j = i \<and> u = s)" for j u
    by (auto simp: ids_in_def r)
  have one': "one_status E pre d'" using one by (auto simp: one_status_def ids)
  have "typed_rows E pre d'" using typed by (auto simp: typed_rows_def r split: if_splits)
  with one' show "db_inv E pre d'" by (simp add: db_inv_def)
  have "status_in E pre d' j = (if j = i \<and> status_in E pre d i = Some s then None else status_in E pre d j)" for j
  proof (cases "status_in E pre d j")
    case None
    then have "status_in E pre d' j = None" by (auto simp: status_in_None ids)
    with None show ?thesis by simp
  next
    case (Some u)
    then have "j \<in> ids_in E pre d v \<longleftrightarrow> v = u" for v using one by (auto simp: status_in_Some one_status_def)
    then show ?thesis using Some one' by (auto simp: status_in_None status_in_Some ids)
  qed
  then show "status_in E pre d' = (if status_in E pre d i = Some s then (status_in E pre d)(i := None)
      else status_in E pre d)" by (auto simp: fun_eq_iff)
qed

section \<open>The lifecycle of a job\<close>

text \<open>
  The abstract specification: a map from ids to statuses, and the transitions a job may make. A job is
  submitted once, taken, and then completed, failed or deferred; a deferred job resumes as pending;
  cleanup removes any job but a completed one.
\<close>

inductive life_step :: "(uint64 \<rightharpoonup> job_status) \<Rightarrow> (uint64 \<rightharpoonup> job_status) \<Rightarrow> bool" where
  submit: "m i = None \<Longrightarrow> life_step m (m(i \<mapsto> JobPending))"
| take: "m i = Some JobPending \<Longrightarrow> life_step m (m(i \<mapsto> JobInProgress))"
| finish: "m i = Some JobInProgress \<Longrightarrow> s \<in> {JobComplete, JobFailed, JobDeferred} \<Longrightarrow>
    life_step m (m(i \<mapsto> s))"
| resume: "m i = Some JobDeferred \<Longrightarrow> life_step m (m(i \<mapsto> JobPending))"
| remove: "m i = Some s \<Longrightarrow> s \<noteq> JobComplete \<Longrightarrow> life_step m (m(i := None))"

abbreviation queue_status :: "'d qenv \<Rightarrow> 'd queue \<Rightarrow> uint64 \<rightharpoonup> job_status" where
  "queue_status E q \<equiv> status_in E (qprefix q) (qdb q)"

lemma send_event_frame [simp]: "qdb (send_event i q) = qdb q" "qprefix (send_event i q) = qprefix q"
  "waiting (send_event i q) = waiting q" "running (send_event i q) = running q"
  "qchains (send_event i q) = qchains q" "qclosed (send_event i q) = qclosed q"
  "restoring (send_event i q) = restoring q"
  by (simp_all add: send_event_def)

lemma life_stepI: "life_step m m' \<Longrightarrow> life_step\<^sup>*\<^sup>* m m'"
  by auto

lemma Enqueue_refines:
  assumes "qenv_ok E" and "queue_inv E q" and "\<forall>s. num + 1 \<notin> ids_at E q s"
    and q': "q' = fst (Enqueue E q (Inr num) t n data)"
  shows "queue_inv E q' \<and> life_step\<^sup>*\<^sup>* (queue_status E q) (queue_status E q')"
proof -
  let ?j = "\<lparr>jtype = t, jname = n, jdata = data, jenqueue_at = 0, jattempt = 0, jid = num + 1\<rparr>"
  have inv: "db_inv E (qprefix q) (qdb q)" using assms(2) by (simp add: queue_inv_def)
  have fresh: "queue_status E q (jid ?j) = None" using assms(3) by (simp add: status_in_None)
  show ?thesis
  proof (cases "\<exists>b d. jsonMarshal E ?j = Some b \<and>
      StorageSet (qbadger E) (qdb q) (getJobKey (qprefix q) JobPending (jid ?j)) b = Inr d")
    case True
    then obtain b d where bd: "jsonMarshal E ?j = Some b"
      "StorageSet (qbadger E) (qdb q) (getJobKey (qprefix q) JobPending (jid ?j)) b = Inr d" by blast
    then have "q' = send_event (num + 1) (q\<lparr>qdb := d\<rparr>)"
      by (simp add: q' Enqueue_def encodeJob_def Let_def)
    with set_job [OF assms(1) inv fresh bd] assms(2) fresh show ?thesis
      by (auto simp: queue_inv_def intro!: life_stepI life_step.submit)
  next
    case False
    then have "q' = q"
      by (auto simp: q' Enqueue_def encodeJob_def Let_def split: option.splits sum.splits)
    with assms(2) show ?thesis by simp
  qed
qed

lemma Dequeue_Some:
  assumes "qenv_ok E" and "queue_inv E q" and "Dequeue E q = Inr (Some j, q')"
  obtains d where "q' = q\<lparr>qdb := d\<rparr>"
    and "Move (qbadger E) (qdb q) (getJobKey (qprefix q) JobPending (jid j))
           (getJobKey (qprefix q) JobInProgress (jid j)) = Inr d"
proof -
  from assms(3) obtain k v d where f: "FirstKVHasPrefix (qbadger E) (qdb q)
      (getQueueKeyPrefix (qprefix q) JobPending) = Inr (Some (k, v))"
    and u: "jsonUnmarshal E v = Some j" and q': "q' = q\<lparr>qdb := d\<rparr>"
    and mv: "Move (qbadger E) (qdb q) k (getJobKey (qprefix q) JobInProgress (jid j)) = Inr d"
    by (auto simp: Dequeue_def decodeJob_def split: sum.splits option.splits prod.splits)
  from storage.firstKV_Some [OF badger_storage [OF qenv_badger [OF assms(1)]] f]
  have "prefix (getQueueKeyPrefix (qprefix q) JobPending) k" "rows_of (qbadger E) (qdb q) k = Some v"
    by auto
  then have "k = getJobKey (qprefix q) JobPending (jid j)"
    using assms(2) u by (fastforce simp: queue_inv_def db_inv_def typed_rows_def)
  with mv q' that show thesis by blast
qed

lemma Dequeue_refines:
  assumes "qenv_ok E" and "queue_inv E q" and "Dequeue E q = Inr (r, q')"
  shows "queue_inv E q' \<and> life_step\<^sup>*\<^sup>* (queue_status E q) (queue_status E q') \<and>
    qprefix q' = qprefix q \<and> waiting q' = waiting q"
proof (cases r)
  case None
  with assms(3) have "q' = q"
    by (auto simp: Dequeue_def split: sum.splits option.splits prod.splits)
  with assms(2) show ?thesis by simp
next
  case (Some j)
  then obtain d where d: "q' = q\<lparr>qdb := d\<rparr>"
    "Move (qbadger E) (qdb q) (getJobKey (qprefix q) JobPending (jid j))
       (getJobKey (qprefix q) JobInProgress (jid j)) = Inr d"
    using Dequeue_Some assms by metis
  have inv: "db_inv E (qprefix q) (qdb q)" using assms(2) by (simp add: queue_inv_def)
  from move_job [OF assms(1) inv _ d(2)] assms(2) d(1) show ?thesis
    by (auto simp: queue_inv_def intro!: life_stepI life_step.take)
qed

lemma markJobDone_refines:
  assumes "qenv_ok E" and "queue_inv E q" and q': "q' = fst (markJobDone E q j s)"
  shows "queue_inv E q' \<and> life_step\<^sup>*\<^sup>* (queue_status E q) (queue_status E q')"
proof (cases "\<exists>d. s \<in> {JobComplete, JobFailed} \<and> Move (qbadger E) (qdb q)
    (getJobKey (qprefix q) JobInProgress (jid j)) (getJobKey (qprefix q) s (jid j)) = Inr d")
  case True
  then obtain d where s: "s \<in> {JobComplete, JobFailed}" and d: "Move (qbadger E) (qdb q)
    (getJobKey (qprefix q) JobInProgress (jid j)) (getJobKey (qprefix q) s (jid j)) = Inr d" by blast
  then have q'd: "q' = q\<lparr>qdb := d\<rparr>" by (auto simp: q' markJobDone_def)
  have inv: "db_inv E (qprefix q) (qdb q)" using assms(2) by (simp add: queue_inv_def)
  from move_job [OF assms(1) inv _ d] s assms(2) show ?thesis unfolding q'd
    by (auto simp: queue_inv_def intro!: life_stepI life_step.finish)
next
  case False
  then have "q' = q" by (auto simp: q' markJobDone_def split: sum.splits)
  with assms(2) show ?thesis by simp
qed

lemma deferJob_refines:
  assumes "qenv_ok E" and "queue_inv E q" and q': "q' = fst (deferJob E q j)"
  shows "queue_inv E q' \<and> life_step\<^sup>*\<^sup>* (queue_status E q) (queue_status E q')"
proof (cases "Move (qbadger E) (qdb q) (getJobKey (qprefix q) JobInProgress (jid j))
    (getJobKey (qprefix q) JobDeferred (jid j))")
  case (Inl e)
  then have "q' = q" by (simp add: q' deferJob_def Let_def)
  with assms(2) show ?thesis by simp
next
  case (Inr d)
  have inv: "db_inv E (qprefix q) (qdb q)" using assms(2) by (simp add: queue_inv_def)
  have "qdb q' = d" "qprefix q' = qprefix q"
    "set (waiting q') \<subseteq> insert (getJobKey (qprefix q) JobDeferred (jid j), jid j) (set (waiting q))"
    using Inr by (auto simp: q' deferJob_def Let_def)
  with move_job [OF assms(1) inv _ Inr] assms(2) show ?thesis
    by (auto simp: queue_inv_def intro!: life_stepI life_step.finish)
qed

lemma finishJob_refines:
  assumes "qenv_ok E" and "queue_inv E q"
  shows "queue_inv E (fst (finishJob E q j res)) \<and>
    life_step\<^sup>*\<^sup>* (queue_status E q) (queue_status E (fst (finishJob E q j res)))"
  using markJobDone_refines [OF assms refl] deferJob_refines [OF assms refl] by (cases res) simp_all

lemma set_drop_nth: "set (drop_nth n xs) \<subseteq> set xs"
  by (auto simp: drop_nth_def dest: in_set_takeD in_set_dropD)

lemma resumeDeferred_refines:
  assumes "qenv_ok E" and "queue_inv E q" and q': "q' = resumeDeferred E q n"
  shows "queue_inv E q' \<and> life_step\<^sup>*\<^sup>* (queue_status E q) (queue_status E q')"
proof (cases "n < length (waiting q) \<and> \<not> qclosed q \<and> (\<exists>d. Move (qbadger E) (qdb q) (fst (waiting q ! n))
    (getJobKey (qprefix q) JobPending (snd (waiting q ! n))) = Inr d)")
  case True
  obtain key i where ki: "waiting q ! n = (key, i)" by (cases "waiting q ! n")
  with True have "(key, i) \<in> set (waiting q)" by (metis nth_mem)
  with assms(2) have key: "key = getJobKey (qprefix q) JobDeferred i" by (auto simp: queue_inv_def)
  from True ki obtain d where d: "Move (qbadger E) (qdb q) key (getJobKey (qprefix q) JobPending i) = Inr d"
    by auto
  have inv: "db_inv E (qprefix q) (qdb q)" using assms(2) by (simp add: queue_inv_def)
  have "q' = send_event i (q\<lparr>waiting := drop_nth n (waiting q), qdb := d\<rparr>)"
    using True ki d by (simp add: q' resumeDeferred_def)
  with move_job [OF assms(1) inv _ d [unfolded key]] assms(2) set_drop_nth [of n "waiting q"]
  show ?thesis by (auto simp: queue_inv_def intro!: life_stepI life_step.resume)
next
  case False
  then have "q' = q \<or> q' = q\<lparr>waiting := drop_nth n (waiting q)\<rparr>"
    by (auto simp: q' resumeDeferred_def Let_def split: prod.splits sum.splits)
  with assms(2) set_drop_nth [of n "waiting q"] show ?thesis by (fastforce simp: queue_inv_def)
qed

lemma cleanup_rows_refines:
  assumes "qenv_ok E" and "s \<noteq> JobComplete" and "db_inv E pre d"
    and "\<forall>(k, v) \<in> set rows. \<exists>i. k = getJobKey pre s i" and "cleanup_rows E chs rows (d, st) = (d', st')"
  shows "db_inv E pre d' \<and> life_step\<^sup>*\<^sup>* (status_in E pre d) (status_in E pre d')"
  using assms(3-5)
proof (induction rows arbitrary: d st)
  case Nil
  then show ?case by simp
next
  case (Cons kv rows)
  obtain k v where kv: "kv = (k, v)" by (cases kv)
  with Cons.prems(2) obtain i where k: "k = getJobKey pre s i" by auto
  have rest: "\<forall>(k, v) \<in> set rows. \<exists>i. k = getJobKey pre s i" using Cons.prems(2) by simp
  show ?case
  proof (cases "\<exists>d1 st1. StorageDelete (qbadger E) d k = Inr d1 \<and>
      cleanup_rows E chs rows (d1, st1) = (d', st')")
    case True
    then obtain d1 st1 where d1: "StorageDelete (qbadger E) d k = Inr d1"
      "cleanup_rows E chs rows (d1, st1) = (d', st')" by blast
    note del = delete_job [OF assms(1) Cons.prems(1) d1(1) [unfolded k]]
    have "life_step\<^sup>*\<^sup>* (status_in E pre d) (status_in E pre d1)"
      using del(2) assms(2) by (auto intro: life_stepI life_step.remove)
    with Cons.IH [OF del(1) rest d1(2)] show ?thesis by (auto intro: rtranclp_trans)
  next
    case False
    then obtain st2 where "cleanup_rows E chs rows (d, st2) = (d', st')"
      using Cons.prems(3) by (auto simp: kv Let_def split: sum.splits if_splits)
    from Cons.IH [OF Cons.prems(1) rest this] show ?thesis .
  qed
qed

lemma byPrefix_job_keys:
  assumes "qenv_ok E" and "db_inv E pre d"
    and "GetByPrefix (qbadger E) d (getQueueKeyPrefix pre s) = Inr rows"
  shows "\<forall>(k, v) \<in> set rows. \<exists>j. jsonUnmarshal E v = Some j \<and> k = getJobKey pre s (jid j)"
  using storage.byPrefix_set [OF badger_storage [OF qenv_badger [OF assms(1)]] assms(3)] assms(2)
  by (fastforce simp: db_inv_def typed_rows_def)

lemma cleanup_status_refines:
  assumes "qenv_ok E" and "s \<noteq> JobComplete" and "db_inv E pre (fst acc)"
  shows "db_inv E pre (fst (cleanup_status E pre chs s acc)) \<and>
    life_step\<^sup>*\<^sup>* (status_in E pre (fst acc)) (status_in E pre (fst (cleanup_status E pre chs s acc)))"
proof (cases "GetByPrefix (qbadger E) (fst acc) (getQueueKeyPrefix pre s)")
  case (Inl e)
  with assms(3) show ?thesis by (cases acc) (simp add: cleanup_status_def)
next
  case (Inr rows)
  obtain d' st' where c: "cleanup_rows E chs rows (fst acc, snd acc) = (d', st')" by fastforce
  have "\<forall>(k, v) \<in> set rows. \<exists>i. k = getJobKey pre s i"
    using byPrefix_job_keys [OF assms(1,3) Inr] by fastforce
  from cleanup_rows_refines [OF assms(1,2,3) this c] Inr c show ?thesis
    by (cases acc) (simp add: cleanup_status_def)
qed

lemma cleanup_fold_refines:
  assumes "qenv_ok E" and "JobComplete \<notin> set ss" and "db_inv E pre (fst acc)"
  shows "db_inv E pre (fst (fold (cleanup_status E pre chs) ss acc)) \<and>
    life_step\<^sup>*\<^sup>* (status_in E pre (fst acc)) (status_in E pre (fst (fold (cleanup_status E pre chs) ss acc)))"
  using assms(2,3)
proof (induction ss arbitrary: acc)
  case Nil
  then show ?case by simp
next
  case (Cons s ss)
  from Cons.prems have "s \<noteq> JobComplete" "JobComplete \<notin> set ss" by auto
  with cleanup_status_refines [OF assms(1) _ Cons.prems(2)]
    Cons.IH [of "cleanup_status E pre chs s acc"] show ?case
    by (auto intro: rtranclp_trans)
qed

lemma Cleanup_db:
  "fst (CleanupOrphanedJobs E q) = q\<lparr>qdb := fst (fold (cleanup_status E (qprefix q) (qchains q))
     [JobPending, JobDeferred, JobInProgress, JobFailed]
     (qdb q, \<lparr>total_jobs = 0, orphaned_jobs = 0, removed_jobs = 0, failed_cleanup = 0\<rparr>))\<rparr>"
  by (simp add: CleanupOrphanedJobs_def Let_def split: prod.split)

lemma Cleanup_refines:
  assumes "qenv_ok E" and "queue_inv E q"
  shows "queue_inv E (fst (CleanupOrphanedJobs E q)) \<and>
    life_step\<^sup>*\<^sup>* (queue_status E q) (queue_status E (fst (CleanupOrphanedJobs E q)))"
  using cleanup_fold_refines [OF assms(1), of "[JobPending, JobDeferred, JobInProgress, JobFailed]"
      "qprefix q" "(qdb q, \<lparr>total_jobs = 0, orphaned_jobs = 0, removed_jobs = 0, failed_cleanup = 0\<rparr>)"
      "qchains q"] assms(2)
  by (simp add: Cleanup_db queue_inv_def)

lemma step_refines:
  assumes "queue_step E q q'" and "qenv_ok E" and "queue_inv E q"
  shows "queue_inv E q' \<and> life_step\<^sup>*\<^sup>* (queue_status E q) (queue_status E q')"
  using assms
proof (induction rule: queue_step.induct)
  case (enqueue num q t n data)
  then show ?case using Enqueue_refines [OF _ _ _ refl] by blast
next
  case (unblock q i rest)
  then show ?case by (simp add: queue_inv_def)
next
  case (deliver q i rest)
  then show ?case by (simp add: queue_inv_def)
next
  case (work_begin q i es r q')
  then show ?case using Dequeue_refines [of E q r q'] by (auto simp: queue_inv_def)
next
  case (work_error q i es err)
  then show ?case by (simp add: queue_inv_def)
next
  case (work_finish j q res)
  then show ?case using finishJob_refines [of E q j res] by (auto simp: queue_inv_def)
next
  case (tick n q)
  then show ?case using resumeDeferred_refines [OF _ _ refl] by blast
next
  case (stop q)
  then show ?case by (simp add: queue_inv_def Stop_def)
next
  case (cleanup q)
  then show ?case using Cleanup_refines by blast
next
  case (cleanup_row s q i v st)
  let ?rows = "[(getJobKey (qprefix q) s i, v)]"
  have "db_inv E (qprefix q) (qdb q)" and keys: "\<forall>(k, v) \<in> set ?rows. \<exists>i. k = getJobKey (qprefix q) s i"
    using cleanup_row.prems(2) by (auto simp: queue_inv_def)
  from cleanup_rows_refines [OF cleanup_row.prems(1) cleanup_row.hyps this prod.collapse [symmetric], of "qchains q" st]
  show ?case using cleanup_row.prems(2) by (simp add: queue_inv_def del: cleanup_rows.simps)
qed

section \<open>No wakeup is lost\<close>

text \<open>A store whose operations do not fail: the database is open, reads and commits succeed.\<close>

definition reliable :: "'d qenv \<Rightarrow> bool" where
  "reliable E \<longleftrightarrow> (\<forall>d. txn_begin (qbadger E) d = None) \<and>
     (\<forall>d k e. txn_get (qbadger E) d k = Inl e \<longrightarrow> e = ErrKeyNotFound) \<and>
     (\<forall>d k v. \<exists>t. txn_set (qbadger E) d k v = Inr t) \<and> (\<forall>d k. \<exists>t. txn_delete (qbadger E) d k = Inr t) \<and>
     (\<forall>d t. \<exists>d'. txn_commit (qbadger E) d t = Inr d')"

definition pending_ids :: "(uint64 \<rightharpoonup> job_status) \<Rightarrow> uint64 set" where
  "pending_ids m = {i. m i = Some JobPending}"

definition wakeups :: "'d queue \<Rightarrow> nat" where
  "wakeups q = length (eventCh q) + length (senders q) + length (restoring q)"

definition wake_inv :: "'d qenv \<Rightarrow> 'd queue \<Rightarrow> bool" where
  "wake_inv E q \<longleftrightarrow> qclosed q \<or> card (pending_ids (queue_status E q)) \<le> wakeups q"

lemma finite_ids [simp]: "finite (A :: uint64 set)"
  by (rule finite)

lemma pending_upd:
  "pending_ids (m(i \<mapsto> s)) = (if s = JobPending then insert i (pending_ids m) else pending_ids m - {i})"
  by (auto simp: pending_ids_def)

lemma card_pending_insert: "card (pending_ids (m(i \<mapsto> s))) \<le> Suc (card (pending_ids m))"
  by (simp add: pending_upd card_insert_if card_mono le_SucI)

lemma card_pending_other: "s \<noteq> JobPending \<Longrightarrow> card (pending_ids (m(i \<mapsto> s))) \<le> card (pending_ids m)"
  by (simp add: pending_upd card_mono)

lemma card_pending_take:
  "m i = Some JobPending \<Longrightarrow> card (pending_ids (m(i \<mapsto> JobInProgress))) = card (pending_ids m) - 1"
  by (simp add: pending_upd) (simp add: pending_ids_def)

lemma wakeups_send [simp]: "wakeups (send_event i q) = Suc (wakeups q)"
  by (simp add: wakeups_def send_event_def)

lemma reliable_Move:
  assumes "reliable E" and "rows_of (qbadger E) d s = Some v"
  shows "\<exists>d'. Move (qbadger E) d s t = Inr d'"
proof -
  obtain w where w: "txn_delete (qbadger E) d s = Inr w" using assms(1) unfolding reliable_def by blast
  obtain u where u: "txn_set (qbadger E) w t v = Inr u" using assms(1) unfolding reliable_def by blast
  show ?thesis using assms w u by (auto simp: Move_def Update_def rows_of_Some reliable_def)
qed

lemma reliable_Dequeue:
  assumes "qenv_ok E" and "reliable E" and "queue_inv E q"
  shows "\<exists>r. Dequeue E q = Inr r"
proof -
  let ?p = "getQueueKeyPrefix (qprefix q) JobPending"
  have B: "badger_ok (qbadger E)" by (rule qenv_badger [OF assms(1)])
  have "\<exists>r. FirstKVHasPrefix (qbadger E) (qdb q) ?p = Inr r"
  proof (cases "seek ?p (iter_keys (qbadger E) (qdb q))")
    case Nil
    with assms(2) show ?thesis by (simp add: FirstKVHasPrefix_def View_def reliable_def)
  next
    case (Cons k ks)
    then have "k \<in> set (iter_keys (qbadger E) (qdb q))" using seek_subset [of k ?p] by simp
    then have "\<exists>v. txn_get (qbadger E) (qdb q) k = Inr v"
      using assms(2) by (cases "txn_get (qbadger E) (qdb q) k") (auto simp: badger_keys [OF B] reliable_def)
    with Cons assms(2) show ?thesis by (auto simp: FirstKVHasPrefix_def View_def reliable_def)
  qed
  then obtain r where r: "FirstKVHasPrefix (qbadger E) (qdb q) ?p = Inr r" by blast
  show ?thesis
  proof (cases r)
    case None
    with r show ?thesis by (simp add: Dequeue_def)
  next
    case (Some kv)
    obtain k v where kv: "kv = (k, v)" by (cases kv)
    with r Some storage.firstKV_Some [OF badger_storage [OF B], of "qdb q" ?p k v]
    have k: "prefix ?p k" "rows_of (qbadger E) (qdb q) k = Some v" by auto
    then obtain j where "jsonUnmarshal E v = Some j"
      using assms(3) by (fastforce simp: queue_inv_def db_inv_def typed_rows_def)
    moreover obtain d where "Move (qbadger E) (qdb q) k (getJobKey (qprefix q) JobInProgress (jid j)) = Inr d"
      using reliable_Move [OF assms(2) k(2)] by blast
    ultimately show ?thesis using Some kv r by (simp add: Dequeue_def decodeJob_def)
  qed
qed

lemma Dequeue_None_pending:
  assumes "qenv_ok E" and "queue_inv E q" and "Dequeue E q = Inr (None, q')"
  shows "pending_ids (queue_status E q) = {}"
proof -
  from assms(3) have "FirstKVHasPrefix (qbadger E) (qdb q) (getQueueKeyPrefix (qprefix q) JobPending) = Inr None"
    by (auto simp: Dequeue_def decodeJob_def split: sum.splits option.splits prod.splits)
  then have "rows_of (qbadger E) (qdb q) (getJobKey (qprefix q) JobPending i) = None" for i
    using storage.firstKV_None [OF badger_storage [OF qenv_badger [OF assms(1)]]] by simp
  then have "i \<notin> ids_at E q JobPending" for i by (simp add: ids_in_def)
  moreover have "one_status E (qprefix q) (qdb q)" using assms(2) by (simp add: queue_inv_def db_inv_def)
  ultimately show ?thesis by (simp add: pending_ids_def status_in_Some)
qed

lemma card_pending_shrink:
  assumes "\<And>i. m' i = m i \<or> m' i = None"
  shows "card (pending_ids m') \<le> card (pending_ids m)"
proof (rule card_mono)
  show "pending_ids m' \<subseteq> pending_ids m"
    unfolding pending_ids_def using assms by (metis (mono_tags, lifting) Collect_mono option.distinct(1))
qed simp

lemma cleanup_only_removes:
  assumes "qenv_ok E" and "db_inv E pre d"
    and "\<forall>(k, v) \<in> set rows. \<exists>i. k = getJobKey pre s i"
    and "cleanup_rows E chs rows (d, st) = (d', st')"
  shows "db_inv E pre d' \<and> (\<forall>i. status_in E pre d' i = status_in E pre d i \<or> status_in E pre d' i = None)"
  using assms(2-4)
proof (induction rows arbitrary: d st)
  case Nil
  then show ?case by simp
next
  case (Cons kv rows)
  obtain k v where kv: "kv = (k, v)" by (cases kv)
  with Cons.prems(2) obtain i where k: "k = getJobKey pre s i" by auto
  have rest: "\<forall>(k, v) \<in> set rows. \<exists>i. k = getJobKey pre s i" using Cons.prems(2) by simp
  from Cons.prems(3) obtain d1 st1 where d1: "d1 = d \<or> StorageDelete (qbadger E) d k = Inr d1"
    "cleanup_rows E chs rows (d1, st1) = (d', st')"
    by (auto simp: kv Let_def split: sum.splits if_splits)
  have "db_inv E pre d1 \<and> (\<forall>i. status_in E pre d1 i = status_in E pre d i \<or> status_in E pre d1 i = None)"
    using d1(1) delete_job [OF assms(1) Cons.prems(1), of s i d1] Cons.prems(1) k
    by (auto split: if_splits)
  with Cons.IH [OF _ rest d1(2)] show ?case by (metis (no_types))
qed

lemma cleanup_fold_only_removes:
  assumes "qenv_ok E" and "db_inv E pre (fst acc)"
  shows "db_inv E pre (fst (fold (cleanup_status E pre chs) ss acc)) \<and>
    (\<forall>i. status_in E pre (fst (fold (cleanup_status E pre chs) ss acc)) i = status_in E pre (fst acc) i \<or>
         status_in E pre (fst (fold (cleanup_status E pre chs) ss acc)) i = None)"
  using assms(2)
proof (induction ss arbitrary: acc)
  case Nil
  then show ?case by simp
next
  case (Cons s ss)
  let ?acc = "cleanup_status E pre chs s acc"
  have "db_inv E pre (fst ?acc) \<and> (\<forall>i. status_in E pre (fst ?acc) i = status_in E pre (fst acc) i \<or>
      status_in E pre (fst ?acc) i = None)"
  proof (cases "GetByPrefix (qbadger E) (fst acc) (getQueueKeyPrefix pre s)")
    case (Inl e)
    with Cons.prems show ?thesis by (cases acc) (simp add: cleanup_status_def)
  next
    case (Inr rows)
    obtain d' st' where c: "cleanup_rows E chs rows (fst acc, snd acc) = (d', st')" by fastforce
    have "\<forall>(k, v) \<in> set rows. \<exists>i. k = getJobKey pre s i"
      using byPrefix_job_keys [OF assms(1) Cons.prems Inr] by fastforce
    from cleanup_only_removes [OF assms(1) Cons.prems this c] Inr c show ?thesis
      by (cases acc) (simp add: cleanup_status_def)
  qed
  with Cons.IH [of ?acc] show ?case by (simp, metis (no_types))
qed

lemma Cleanup_only_removes:
  assumes "qenv_ok E" and "queue_inv E q"
  shows "queue_status E (fst (CleanupOrphanedJobs E q)) i = queue_status E q i \<or>
    queue_status E (fst (CleanupOrphanedJobs E q)) i = None"
  using cleanup_fold_only_removes [OF assms(1), of "qprefix q"
      "(qdb q, \<lparr>total_jobs = 0, orphaned_jobs = 0, removed_jobs = 0, failed_cleanup = 0\<rparr>)" "qchains q"
      "[JobPending, JobDeferred, JobInProgress, JobFailed]"] assms(2)
  by (simp only: Cleanup_db queue_inv_def) simp

text \<open>What each step does to the pending set and to the wakeups.\<close>

lemma finishJob_pending:
  assumes "qenv_ok E" and "queue_inv E q"
  shows "card (pending_ids (queue_status E (fst (finishJob E q j res)))) \<le> card (pending_ids (queue_status E q))
    \<and> wakeups (fst (finishJob E q j res)) = wakeups q \<and> qclosed (fst (finishJob E q j res)) = qclosed q"
proof -
  have inv: "db_inv E (qprefix q) (qdb q)" using assms(2) by (simp add: queue_inv_def)
  have mark: "card (pending_ids (queue_status E (fst (markJobDone E q j s)))) \<le> card (pending_ids (queue_status E q))
      \<and> wakeups (fst (markJobDone E q j s)) = wakeups q \<and> qclosed (fst (markJobDone E q j s)) = qclosed q" for s
    using move_job(3) [OF assms(1) inv, of JobInProgress s "jid j"] card_pending_other [of s]
    by (auto simp: markJobDone_def wakeups_def split: sum.splits)
  have "card (pending_ids (queue_status E (fst (deferJob E q j)))) \<le> card (pending_ids (queue_status E q))
      \<and> wakeups (fst (deferJob E q j)) = wakeups q \<and> qclosed (fst (deferJob E q j)) = qclosed q"
    using move_job(3) [OF assms(1) inv, of JobInProgress JobDeferred "jid j"] card_pending_other [of JobDeferred]
    by (auto simp: deferJob_def wakeups_def Let_def split: sum.splits)
  with mark show ?thesis by (cases res) simp_all
qed

lemma Enqueue_pending:
  assumes "qenv_ok E" and "queue_inv E q" and "\<forall>s. num + 1 \<notin> ids_at E q s" and "wake_inv E q"
  shows "wake_inv E (fst (Enqueue E q (Inr num) t n data))"
proof -
  let ?j = "\<lparr>jtype = t, jname = n, jdata = data, jenqueue_at = 0, jattempt = 0, jid = num + 1\<rparr>"
  have inv: "db_inv E (qprefix q) (qdb q)" using assms(2) by (simp add: queue_inv_def)
  have fresh: "queue_status E q (jid ?j) = None" using assms(3) by (simp add: status_in_None)
  have "card (pending_ids (queue_status E (q\<lparr>qdb := d\<rparr>))) \<le> Suc (card (pending_ids (queue_status E q)))"
    if "jsonMarshal E ?j = Some b"
      "StorageSet (qbadger E) (qdb q) (getJobKey (qprefix q) JobPending (num + 1)) b = Inr d" for b d
    using set_job(2) [OF assms(1) inv fresh that(1)] that(2) card_pending_insert by simp
  then show ?thesis using assms(4)
    by (fastforce simp: wake_inv_def Enqueue_def encodeJob_def Let_def wakeups_def send_event_def
        split: option.splits sum.splits)
qed

lemma resume_pending:
  assumes "qenv_ok E" and "queue_inv E q" and "wake_inv E q"
  shows "wake_inv E (resumeDeferred E q n)"
proof (cases "n < length (waiting q) \<and> \<not> qclosed q")
  case False
  then show ?thesis using assms(3)
    by (auto simp: resumeDeferred_def wake_inv_def wakeups_def Let_def split: prod.splits)
next
  case True
  obtain key i where ki: "waiting q ! n = (key, i)" by (cases "waiting q ! n")
  with True have "(key, i) \<in> set (waiting q)" by (metis nth_mem)
  with assms(2) have key: "key = getJobKey (qprefix q) JobDeferred i" by (auto simp: queue_inv_def)
  have inv: "db_inv E (qprefix q) (qdb q)" using assms(2) by (simp add: queue_inv_def)
  show ?thesis
  proof (cases "Move (qbadger E) (qdb q) key (getJobKey (qprefix q) JobPending i)")
    case (Inl e)
    with True ki assms(3) show ?thesis by (simp add: resumeDeferred_def wake_inv_def wakeups_def)
  next
    case (Inr d)
    have "card (pending_ids (status_in E (qprefix q) d)) \<le> Suc (card (pending_ids (queue_status E q)))"
      using move_job(3) [OF assms(1) inv _ Inr [unfolded key]] card_pending_insert by simp
    with True ki Inr assms(3) show ?thesis
      by (simp add: resumeDeferred_def wake_inv_def) (simp add: wakeups_def)
  qed
qed

lemma work_pending:
  assumes "qenv_ok E" and "queue_inv E q" and "wake_inv E q" and "eventCh q = i # es"
    and "Dequeue E q = Inr (r, q')"
  shows "wake_inv E (q'\<lparr>eventCh := es, running := rs\<rparr>)"
proof (cases r)
  case None
  have "pending_ids (queue_status E q) = {}" using Dequeue_None_pending assms None by blast
  moreover have "q' = q" using assms(5) None
    by (auto simp: Dequeue_def split: sum.splits option.splits prod.splits)
  ultimately show ?thesis by (simp add: wake_inv_def)
next
  case (Some j)
  then obtain d where d: "q' = q\<lparr>qdb := d\<rparr>"
    "Move (qbadger E) (qdb q) (getJobKey (qprefix q) JobPending (jid j))
       (getJobKey (qprefix q) JobInProgress (jid j)) = Inr d"
    using Dequeue_Some assms by metis
  have inv: "db_inv E (qprefix q) (qdb q)" using assms(2) by (simp add: queue_inv_def)
  have "card (pending_ids (status_in E (qprefix q) d)) = card (pending_ids (queue_status E q)) - 1"
    using move_job(2,3) [OF assms(1) inv _ d(2)] card_pending_take by simp
  with assms(3,4) d(1) show ?thesis by (auto simp: wake_inv_def wakeups_def)
qed

lemma step_wakes:
  assumes "queue_step E q q'" and "qenv_ok E" and "reliable E" and "queue_inv E q" and "wake_inv E q"
  shows "wake_inv E q'"
  using assms
proof (induction rule: queue_step.induct)
  case (enqueue num q t n data)
  then show ?case using Enqueue_pending by blast
next
  case (unblock q i rest)
  then show ?case by (simp add: wake_inv_def wakeups_def)
next
  case (deliver q i rest)
  then show ?case by (simp add: wake_inv_def wakeups_def)
next
  case (work_begin q i es r q')
  then show ?case using work_pending by blast
next
  case (work_error q i es err)
  then show ?case using reliable_Dequeue [of E q] by auto
next
  case (work_finish j q res)
  then show ?case using finishJob_pending [of E q j res] by (auto simp: wake_inv_def wakeups_def)
next
  case (tick n q)
  then show ?case using resume_pending by blast
next
  case (stop q)
  then show ?case by (simp add: wake_inv_def Stop_def)
next
  case (cleanup q)
  from Cleanup_only_removes [OF cleanup.prems(1,3)]
  have "card (pending_ids (queue_status E (fst (CleanupOrphanedJobs E q)))) \<le>
      card (pending_ids (queue_status E q))"
    by (rule card_pending_shrink)
  with cleanup.prems(4) show ?case by (auto simp: wake_inv_def wakeups_def Cleanup_db)
next
  case (cleanup_row s q i v st)
  let ?c = "cleanup_rows E (qchains q) [(getJobKey (qprefix q) s i, v)] (qdb q, st)"
  have "db_inv E (qprefix q) (qdb q)" using cleanup_row.prems(3) by (simp add: queue_inv_def)
  from cleanup_only_removes [OF cleanup_row.prems(1) this _ prod.collapse [symmetric], of "[(getJobKey (qprefix q) s i, v)]" s]
  have "card (pending_ids (status_in E (qprefix q) (fst ?c))) \<le> card (pending_ids (queue_status E q))"
    by (intro card_pending_shrink) (simp del: cleanup_rows.simps)
  with cleanup_row.prems(4) show ?case by (auto simp: wake_inv_def wakeups_def simp del: cleanup_rows.simps)
qed

subsection \<open>Start-up\<close>

lemma restore_deferred_inv:
  assumes "qenv_ok E" and "db_inv E pre d"
    and "\<forall>(k, v) \<in> set rows. \<exists>j. jsonUnmarshal E v = Some j \<and> k = getJobKey pre JobDeferred (jid j)"
    and "restore_deferred E pre rows d = (d', None)"
  shows "db_inv E pre d' \<and> life_step\<^sup>*\<^sup>* (status_in E pre d) (status_in E pre d')"
  using assms(2-4)
proof (induction rows arbitrary: d)
  case Nil
  then show ?case by simp
next
  case (Cons kv rows)
  from Cons.prems(2) obtain j where j: "jsonUnmarshal E (snd kv) = Some j"
    "fst kv = getJobKey pre JobDeferred (jid j)" by auto
  with Cons.prems(3) obtain d1 where mv: "Move (qbadger E) d (getJobKey pre JobDeferred (jid j))
      (getJobKey pre JobPending (jid j)) = Inr d1" and r: "restore_deferred E pre rows d1 = (d', None)"
    by (cases kv) (auto simp: decodeJob_def split: sum.splits)
  note m = move_job [OF assms(1) Cons.prems(1) _ mv]
  have "life_step (status_in E pre d) (status_in E pre d1)"
    using m(2,3) life_step.resume by simp
  moreover have "db_inv E pre d' \<and> life_step\<^sup>*\<^sup>* (status_in E pre d1) (status_in E pre d')"
    using Cons.IH [OF m(1) _ r] Cons.prems(2) by simp
  ultimately show ?case by (metis converse_rtranclp_into_rtranclp)
qed

lemma decode_ids_set:
  "decode_ids E rows = Inr ids \<Longrightarrow> (k, v) \<in> set rows \<Longrightarrow> jsonUnmarshal E v = Some j \<Longrightarrow> jid j \<in> set ids"
  by (induction rows arbitrary: ids) (auto simp: decodeJob_def split: option.splits)

lemma MustStart_inv:
  assumes "qenv_ok E" and "queue_inv E q" and "waiting q = []" and "MustStart E None q = (q', None)"
  shows "queue_inv E q' \<and> wake_inv E q' \<and> life_step\<^sup>*\<^sup>* (queue_status E q) (queue_status E q')"
proof -
  let ?pre = "qprefix q"
  from assms(4) obtain rows d prows ids where
    rows: "GetByPrefix (qbadger E) (qdb q) (getQueueKeyPrefix ?pre JobDeferred) = Inr rows"
    and d: "restore_deferred E ?pre rows (qdb q) = (d, None)"
    and prows: "GetByPrefix (qbadger E) d (getQueueKeyPrefix ?pre JobPending) = Inr prows"
    and ids: "decode_ids E prows = Inr ids" and q': "q' = q\<lparr>qdb := d, restoring := ids\<rparr>"
    by (auto simp: MustStart_def Let_def split: sum.splits option.splits prod.splits)
  have inv: "db_inv E ?pre (qdb q)" using assms(2) by (simp add: queue_inv_def)
  note r = restore_deferred_inv [OF assms(1) inv byPrefix_job_keys [OF assms(1) inv rows] d]
  have one: "one_status E ?pre d" using r by (simp add: db_inv_def)
  have "pending_ids (status_in E ?pre d) \<subseteq> set ids"
  proof
    fix i assume "i \<in> pending_ids (status_in E ?pre d)"
    then obtain v where v: "rows_of (qbadger E) d (getJobKey ?pre JobPending i) = Some v"
      using one by (auto simp: pending_ids_def status_in_Some ids_in_def)
    then have "(getJobKey ?pre JobPending i, v) \<in> set prows"
      using storage.byPrefix_set [OF badger_storage [OF qenv_badger [OF assms(1)]] prows] by simp
    moreover from this obtain j where "jsonUnmarshal E v = Some j" "jid j = i"
      using byPrefix_job_keys [OF assms(1) conjunct1 [OF r] prows] by auto
    ultimately show "i \<in> set ids" using decode_ids_set [OF ids] by blast
  qed
  then have "card (pending_ids (status_in E ?pre d)) \<le> length ids"
    by (meson List.finite_set card_length card_mono le_trans)
  then show ?thesis using r assms(3) by (simp add: q' queue_inv_def wake_inv_def wakeups_def)
qed

section \<open>A concrete environment\<close>

text \<open>An instance of the parameters on which the queue computes: the in-memory store and a codec.\<close>

definition mem_env :: "(bytes \<times> bytes) list qenv" where
  "mem_env = \<lparr>qbadger = mem_badger,
     jsonMarshal = (\<lambda>j. Some (join (format_uint64 (jid j)) (join (jtype j) (jname j)))),
     jsonUnmarshal = (\<lambda>b. case splitN_at 3 CHR '':'' b of
        [n, t, nm] \<Rightarrow> map_option (\<lambda>i. \<lparr>jtype = t, jname = nm, jdata = [], jenqueue_at = 0, jattempt = 0, jid = i\<rparr>)
          (parse_uint64 n)
      | _ \<Rightarrow> None)\<rparr>"

lemma split_job: "CHR '':'' \<notin> set t \<Longrightarrow>
  splitN_at 3 CHR '':'' (join (format_uint64 i) (join t n)) = [format_uint64 i, t, n]"
  by (simp add: numeral_3_eq_3 format_uint64_def decimal_no_colon)

lemma mem_env_sel [simp]: "qbadger mem_env = mem_badger"
  by (simp add: mem_env_def)

text \<open>Type names with a colon are cut by this codec, but the id is kept.\<close>

lemma splitN_3_sep: "CHR '':'' \<notin> set a \<Longrightarrow> \<exists>x y. splitN_at 3 CHR '':'' (join a (join b c)) = [a, x, y]"
proof -
  assume a: "CHR '':'' \<notin> set a"
  have "CHR '':'' \<in> set (join b c)" by (simp add: join_def)
  with a show ?thesis by (simp add: numeral_3_eq_3 splitN_at.simps(3) [of 0])
qed

lemma mem_env_ok: "qenv_ok mem_env"
proof -
  have "\<exists>j'. jsonUnmarshal mem_env b = Some j' \<and> jid j' = jid j" if "jsonMarshal mem_env j = Some b" for j b
  proof -
    have "CHR '':'' \<notin> set (format_uint64 (jid j))" by (simp add: format_uint64_def decimal_no_colon)
    with that splitN_3_sep [of "format_uint64 (jid j)" "jtype j" "jname j"] show ?thesis
      by (auto simp: mem_env_def)
  qed
  then show ?thesis by (simp add: qenv_ok_def mem_badger_ok)
qed

lemma mem_env_reliable: "reliable mem_env"
  by (simp add: reliable_def mem_badger_def split: option.splits)

definition empty_queue :: "(bytes \<times> bytes) list queue" where
  "empty_queue = NewQueue [] (Some \<lparr>opt_prefix = ''d'', opt_chain_ids = []\<rparr>)"

lemma empty_queue_inv: "queue_inv mem_env empty_queue" and empty_queue_waiting: "waiting empty_queue = []"
  by (simp_all add: queue_inv_def db_inv_def one_status_def typed_rows_def ids_in_def empty_queue_def
      NewQueue_def rows_of_def mem_badger_def)

lemma GetByPrefix_mem_Nil [simp]: "GetByPrefix mem_badger [] p = Inr []"
  by (simp add: GetByPrefix_def View_def mem_badger_def iter_prefix_def seek_def valid_for_prefix_def)

lemma empty_queue_start: "MustStart mem_env None empty_queue = (empty_queue, None)"
  by (simp add: MustStart_def empty_queue_def NewQueue_def)

lemma empty_queue_fresh: "i \<notin> ids_at mem_env empty_queue s"
  by (simp add: ids_in_def empty_queue_def NewQueue_def rows_of_def mem_badger_def)

definition one_job_queue :: "(bytes \<times> bytes) list queue" where
  "one_job_queue = fst (Enqueue mem_env empty_queue (Inr 4) ''exec'' ''wf1'' [])"

lemma one_job_step: "queue_step mem_env empty_queue one_job_queue"
  unfolding one_job_queue_def by (rule queue_step.enqueue) (simp add: empty_queue_fresh)

lemma one_job_status: "queue_status mem_env one_job_queue 5 = Some JobPending"
proof -
  have "5 \<in> ids_at mem_env one_job_queue JobPending"
    by (simp add: one_job_queue_def Enqueue_def encodeJob_def mem_env_def Let_def empty_queue_def
        NewQueue_def StorageSet_def Update_def mem_badger_def ids_in_def rows_of_def)
  moreover have "queue_inv mem_env one_job_queue"
    using step_refines [OF one_job_step mem_env_ok empty_queue_inv] by simp
  ultimately show ?thesis by (simp add: queue_inv_def db_inv_def status_in_Some)
qed

section \<open>Properties\<close>

lemma run_refines:
  assumes "(queue_step E)\<^sup>*\<^sup>* q q'" and "qenv_ok E" and "queue_inv E q"
  shows "queue_inv E q' \<and> life_step\<^sup>*\<^sup>* (queue_status E q) (queue_status E q')"
  using assms
proof (induction rule: rtranclp_induct)
  case base
  then show ?case by simp
next
  case (step y z)
  then show ?case using step_refines [of E y z] by (auto intro: rtranclp_trans)
qed

lemma run_wakes:
  assumes "(queue_step E)\<^sup>*\<^sup>* q q'" and "qenv_ok E" and "reliable E" and "queue_inv E q" and "wake_inv E q"
  shows "wake_inv E q'"
  using assms
proof (induction rule: rtranclp_induct)
  case base
  then show ?case by simp
next
  case (step y z)
  then show ?case using step_wakes [of E y z] run_refines [of E q y] by blast
qed

text \<open>
C20: From a start that reports no error, every interleaving of enqueuers, workers, deferrals, cleanup and
stop keeps each job under at most one status, and moves jobs only along the lifecycle: submitted once,
taken, then completed, failed or deferred, a deferred job back to pending, and never out of completed.
\<close>

theorem queue_refines_lifecycle:
  assumes "qenv_ok E" and "queue_inv E q0" and "waiting q0 = []" and "MustStart E None q0 = (q1, None)"
    and "(queue_step E)\<^sup>*\<^sup>* q1 q"
  shows "life_step\<^sup>*\<^sup>* (status_in E (qprefix q0) (qdb q0)) (status_in E (qprefix q) (qdb q)) \<and>
    (\<forall>i s t. i \<in> ids_in E (qprefix q) (qdb q) s \<longrightarrow> i \<in> ids_in E (qprefix q) (qdb q) t \<longrightarrow> s = t)"
proof -
  note start = MustStart_inv [OF assms(1-4)]
  with run_refines [OF assms(5,1)] show ?thesis
    by (auto simp: queue_inv_def db_inv_def one_status_def intro: rtranclp_trans)
qed

theorem queue_refines_lifecycle_witness:
  "\<exists>q. (queue_step mem_env)\<^sup>*\<^sup>* empty_queue q \<and> queue_status mem_env q 5 = Some JobPending \<and>
     life_step\<^sup>*\<^sup>* (queue_status mem_env empty_queue) (queue_status mem_env q)"
proof -
  have run: "(queue_step mem_env)\<^sup>*\<^sup>* empty_queue one_job_queue" using one_job_step by simp
  from queue_refines_lifecycle [OF mem_env_ok empty_queue_inv empty_queue_waiting empty_queue_start run]
    run one_job_status show ?thesis by blast
qed

text \<open>
C21: No wakeup is lost. While the queue is open and the storage does not fail, in every state reachable
from a start there are at least as many wakeups under way (in the channel, held by blocked senders or
by the start-up goroutine) as there are pending jobs.
\<close>

theorem no_lost_wakeup:
  assumes "qenv_ok E" and "reliable E" and "queue_inv E q0" and "waiting q0 = []"
    and "MustStart E None q0 = (q1, None)" and "(queue_step E)\<^sup>*\<^sup>* q1 q" and "\<not> qclosed q"
  shows "card {i. status_in E (qprefix q) (qdb q) i = Some JobPending} \<le>
    length (eventCh q) + length (senders q) + length (restoring q)"
proof -
  note start = MustStart_inv [OF assms(1,3,4,5)]
  with run_wakes [OF assms(6,1,2)] assms(7) show ?thesis
    by (auto simp: wake_inv_def pending_ids_def wakeups_def)
qed

theorem no_lost_wakeup_witness:
  "card {i. queue_status mem_env one_job_queue i = Some JobPending} \<le>
     length (eventCh one_job_queue) + length (senders one_job_queue) + length (restoring one_job_queue)"
proof -
  have run: "(queue_step mem_env)\<^sup>*\<^sup>* empty_queue one_job_queue" using one_job_step by simp
  have "\<not> qclosed one_job_queue"
    by (simp add: one_job_queue_def Enqueue_def encodeJob_def mem_env_def Let_def empty_queue_def
        NewQueue_def StorageSet_def Update_def mem_badger_def)
  from no_lost_wakeup [OF mem_env_ok mem_env_reliable empty_queue_inv empty_queue_waiting
      empty_queue_start run this]
  show ?thesis .
qed

lemma life_steps_complete:
  "life_step\<^sup>*\<^sup>* m m' \<Longrightarrow> m i = Some JobComplete \<Longrightarrow> m' i = Some JobComplete"
proof (induction rule: rtranclp_induct)
  case base
  then show ?case by simp
next
  case (step y z)
  then show ?case by (auto elim!: life_step.cases)
qed

text \<open>
A completed job stays completed: no step of any component, cleanup included, moves it, reruns it
or removes it.
\<close>

lemma completed_is_final:
  assumes "qenv_ok E" and "queue_inv E q" and "(queue_step E)\<^sup>*\<^sup>* q q'"
    and "i \<in> ids_in E (qprefix q) (qdb q) JobComplete"
  shows "i \<in> ids_in E (qprefix q') (qdb q') JobComplete"
proof -
  from run_refines [OF assms(3,1,2)] have r: "queue_inv E q'"
    "life_step\<^sup>*\<^sup>* (queue_status E q) (queue_status E q')" by auto
  have "one_status E (qprefix q) (qdb q)" "one_status E (qprefix q') (qdb q')"
    using assms(2) r(1) by (auto simp: queue_inv_def db_inv_def)
  with assms(4) life_steps_complete [OF r(2), of i] show ?thesis by (simp add: status_in_Some)
qed

definition done_queue :: "(bytes \<times> bytes) list queue" where
  "done_queue = empty_queue\<lparr>qdb := [(getJobKey ''d'' JobComplete 5, ''5:t:n'')]\<rparr>"

lemma done_queue_rows:
  "rows_of mem_badger (qdb done_queue) k = (if k = getJobKey ''d'' JobComplete 5 then Some ''5:t:n'' else None)"
  by (simp add: done_queue_def rows_of_def mem_badger_def)

lemma done_queue_prefix [simp]: "qprefix done_queue = ''d''" "waiting done_queue = []"
  by (simp_all add: done_queue_def empty_queue_def NewQueue_def)

lemma done_queue_decodes: "\<exists>j. jsonUnmarshal mem_env ''5:t:n'' = Some j \<and> jid j = 5"
proof -
  have "format_uint64 5 = ''5''" by code_simp
  then have "join (format_uint64 5) (join ''t'' ''n'') = ''5:t:n''" by (simp add: join_def)
  with split_job [of "''t''" 5 "''n''"] show ?thesis by (auto simp: mem_env_def)
qed

lemma done_queue_inv: "queue_inv mem_env done_queue"
  using done_queue_decodes
  by (auto simp: queue_inv_def db_inv_def one_status_def typed_rows_def ids_in_def done_queue_rows
      split: if_splits)

lemma completed_is_final_witness:
  "5 \<in> ids_in mem_env ''d'' (qdb (Stop done_queue)) JobComplete"
proof -
  have "(queue_step mem_env)\<^sup>*\<^sup>* done_queue (Stop done_queue)" using queue_step.stop by blast
  moreover have "5 \<in> ids_in mem_env (qprefix done_queue) (qdb done_queue) JobComplete"
    by (simp add: ids_in_def done_queue_rows)
  ultimately have "5 \<in> ids_in mem_env (qprefix (Stop done_queue)) (qdb (Stop done_queue)) JobComplete"
    using completed_is_final [OF mem_env_ok done_queue_inv] by blast
  then show ?thesis by (simp add: Stop_def)
qed

subsection \<open>Order of dequeueing\<close>

lemma append_le_same: "xs @ a \<le> xs @ b \<longleftrightarrow> a \<le> (b :: 'a :: linorder list)"
  by (induction xs) auto

lemma Dequeue_least:
  assumes "qenv_ok E" and "queue_inv E q" and "Dequeue E q = Inr (Some j, q')" and "i \<in> ids_at E q JobPending"
  shows "format_uint64 (jid j) \<le> format_uint64 i"
proof -
  from assms(3) obtain k v where f: "FirstKVHasPrefix (qbadger E) (qdb q)
      (getQueueKeyPrefix (qprefix q) JobPending) = Inr (Some (k, v))" and u: "jsonUnmarshal E v = Some j"
    by (auto simp: Dequeue_def decodeJob_def split: sum.splits option.splits prod.splits)
  note l = storage.firstKV_Some [OF badger_storage [OF qenv_badger [OF assms(1)]] f]
  then have "k = getJobKey (qprefix q) JobPending (jid j)"
    using assms(2) u by (fastforce simp: queue_inv_def db_inv_def typed_rows_def)
  moreover have "k \<le> getJobKey (qprefix q) JobPending i"
    using l assms(4) by (auto simp: ids_in_def)
  ultimately show ?thesis by (simp add: getJobKey_def append_le_same)
qed

lemma Dequeue_progress:
  assumes "qenv_ok E" and "reliable E" and "queue_inv E q" and "i \<in> ids_at E q JobPending"
  obtains j q' where "Dequeue E q = Inr (Some j, q')" and "jid j \<in> ids_at E q JobPending"
    and "format_uint64 (jid j) \<le> format_uint64 i"
proof -
  have one: "one_status E (qprefix q) (qdb q)" using assms(3) by (simp add: queue_inv_def db_inv_def)
  obtain r q' where r: "Dequeue E q = Inr (r, q')" using reliable_Dequeue [OF assms(1-3)] by auto
  have "r \<noteq> None"
    using Dequeue_None_pending [OF assms(1,3)] r assms(4) one by (auto simp: pending_ids_def status_in_Some)
  then obtain j where j: "Dequeue E q = Inr (Some j, q')" using r by auto
  obtain d where "Move (qbadger E) (qdb q) (getJobKey (qprefix q) JobPending (jid j))
      (getJobKey (qprefix q) JobInProgress (jid j)) = Inr d"
    using Dequeue_Some [OF assms(1,3) j] by blast
  then have "jid j \<in> ids_at E q JobPending"
    using storage.move_target [OF badger_storage [OF qenv_badger [OF assms(1)]]] by (auto simp: ids_in_def)
  with j Dequeue_least [OF assms(1,3) j assms(4)] that show thesis by blast
qed

lemma one_job_pending: "ids_at mem_env one_job_queue JobPending = {5}"
  by (auto simp: one_job_queue_def Enqueue_def encodeJob_def mem_env_def Let_def empty_queue_def
      NewQueue_def StorageSet_def Update_def mem_badger_def ids_in_def rows_of_def split: if_splits)

lemma one_job_inv: "queue_inv mem_env one_job_queue"
  using step_refines [OF one_job_step mem_env_ok empty_queue_inv] by simp

definition two_job_queue :: "(bytes \<times> bytes) list queue" where
  "two_job_queue = empty_queue\<lparr>qdb := [(getJobKey ''d'' JobPending 2, ''2:t:a''), (getJobKey ''d'' JobPending 10, ''10:t:b'')]\<rparr>"

lemma two_job_rows:
  "rows_of mem_badger (qdb two_job_queue) k = (if k = getJobKey ''d'' JobPending 2 then Some ''2:t:a''
     else if k = getJobKey ''d'' JobPending 10 then Some ''10:t:b'' else None)"
  by (simp add: two_job_queue_def rows_of_def mem_badger_def)

lemma two_job_frame [simp]: "qprefix two_job_queue = ''d''" "waiting two_job_queue = []"
  by (simp_all add: two_job_queue_def empty_queue_def NewQueue_def)

lemma mem_decodes: "\<exists>j. jsonUnmarshal mem_env (join (format_uint64 i) (join ''t'' n)) = Some j \<and> jid j = i"
  using split_job [of "''t''" i n] by (auto simp: mem_env_def)

lemma format_2: "format_uint64 2 = ''2''" and format_10: "format_uint64 10 = ''10''"
  by code_simp+

lemma two_job_inv: "queue_inv mem_env two_job_queue"
  using mem_decodes [of 2 "''a''"] mem_decodes [of 10 "''b''"]
  by (auto simp: queue_inv_def db_inv_def one_status_def typed_rows_def ids_in_def two_job_rows
      format_2 format_10 join_def split: if_splits)

lemma two_job_first: "\<exists>j q'. Dequeue mem_env two_job_queue = Inr (Some j, q') \<and> jid j = 10"
proof -
  have ids: "ids_at mem_env two_job_queue JobPending = {2, 10}"
    by (auto simp: ids_in_def two_job_rows)
  then obtain j q' where j: "Dequeue mem_env two_job_queue = Inr (Some j, q')"
    "jid j \<in> {2, 10}" "format_uint64 (jid j) \<le> format_uint64 10"
    using Dequeue_progress [OF mem_env_ok mem_env_reliable two_job_inv, of 10] by blast
  have "\<not> format_uint64 2 \<le> format_uint64 10"
    by (simp add: format_2 format_10 less_eq_char_def less_char_def)
  with j show ?thesis by auto
qed

text \<open>
Dequeue takes the pending job whose id is least in byte order of its decimal text, because the key
is not padded; that is not the order of submission, so job 10 is taken before job 2.
\<close>

lemma Dequeue_order:
  "(qenv_ok E \<longrightarrow> queue_inv E q \<longrightarrow> Dequeue E q = Inr (Some j, q') \<longrightarrow>
      (\<forall>i \<in> ids_in E (qprefix q) (qdb q) JobPending. format_uint64 (jid j) \<le> format_uint64 i)) \<and>
   ({2, 10} \<subseteq> ids_in mem_env ''d'' (qdb two_job_queue) JobPending \<and>
      (\<exists>first q'. Dequeue mem_env two_job_queue = Inr (Some first, q') \<and> jid first = 10))"
proof
  show "qenv_ok E \<longrightarrow> queue_inv E q \<longrightarrow> Dequeue E q = Inr (Some j, q') \<longrightarrow>
      (\<forall>i \<in> ids_in E (qprefix q) (qdb q) JobPending. format_uint64 (jid j) \<le> format_uint64 i)"
    using Dequeue_least by blast
  show "{2, 10} \<subseteq> ids_in mem_env ''d'' (qdb two_job_queue) JobPending \<and>
      (\<exists>first q'. Dequeue mem_env two_job_queue = Inr (Some first, q') \<and> jid first = 10)"
    using two_job_first by (simp add: ids_in_def two_job_rows)
qed

lemma Dequeue_order_witness:
  "\<exists>j q'. Dequeue mem_env one_job_queue = Inr (Some j, q') \<and> format_uint64 (jid j) \<le> format_uint64 5"
proof -
  obtain j q' where j: "Dequeue mem_env one_job_queue = Inr (Some j, q')"
    using Dequeue_progress [OF mem_env_ok mem_env_reliable one_job_inv, of 5] one_job_pending by blast
  with one_job_inv mem_env_ok one_job_pending
    conjunct1 [OF Dequeue_order [of mem_env one_job_queue j q']]
  show ?thesis by blast
qed

subsection \<open>Processing one wakeup\<close>

fun result_status :: "perform_result \<Rightarrow> job_status" where
  "result_status PerfOk = JobComplete"
| "result_status (PerfRetry delay msg) = (if 0 < delay then JobDeferred else JobFailed)"
| "result_status (PerfErr msg) = JobFailed"

lemma finishJob_status:
  assumes "qenv_ok E" and "reliable E" and "queue_inv E q" and "jid j \<in> ids_at E q JobInProgress"
  shows "queue_status E (fst (finishJob E q j res)) = (queue_status E q)(jid j \<mapsto> result_status res)"
proof -
  have inv: "db_inv E (qprefix q) (qdb q)" using assms(3) by (simp add: queue_inv_def)
  obtain v where "rows_of (qbadger E) (qdb q) (getJobKey (qprefix q) JobInProgress (jid j)) = Some v"
    using assms(4) by (auto simp: ids_in_def)
  from reliable_Move [OF assms(2) this]
  have mv: "\<exists>d. Move (qbadger E) (qdb q) (getJobKey (qprefix q) JobInProgress (jid j))
      (getJobKey (qprefix q) s (jid j)) = Inr d" for s .
  have mark: "queue_status E (fst (markJobDone E q j s)) = (queue_status E q)(jid j \<mapsto> s)"
    if "s = JobComplete \<or> s = JobFailed" for s
    using mv [of s] move_job(3) [OF assms(1) inv, of JobInProgress s "jid j"] that
    by (auto simp: markJobDone_def)
  have "queue_status E (fst (deferJob E q j)) = (queue_status E q)(jid j \<mapsto> JobDeferred)"
    using mv [of JobDeferred] move_job(3) [OF assms(1) inv, of JobInProgress JobDeferred "jid j"]
    by (auto simp: deferJob_def Let_def)
  with mark show ?thesis by (cases res) simp_all
qed

text \<open>
Processing a wakeup takes one pending job and leaves it completed when its processor returned nil,
deferred when it returned an error with a positive delay, and failed on every other error, an
unregistered job type included; every other job keeps its status. With nothing pending it does nothing.
\<close>

lemma ProcessSignal_outcome:
  assumes "qenv_ok E" and "reliable E" and "queue_inv E q"
  shows "case Dequeue E q of
      Inr (Some j, q1) \<Rightarrow> status_in E (qprefix q) (qdb q) (jid j) = Some JobPending \<and>
        status_in E (qprefix q) (qdb (ProcessSignal E registry q)) =
          (status_in E (qprefix q) (qdb q))(jid j \<mapsto>
            (case registry (jtype j) of
               None \<Rightarrow> JobFailed
             | Some perform \<Rightarrow> (case perform j of PerfOk \<Rightarrow> JobComplete
                 | PerfRetry delay _ \<Rightarrow> if 0 < delay then JobDeferred else JobFailed
                 | PerfErr _ \<Rightarrow> JobFailed)))
    | Inr (None, q1) \<Rightarrow> ProcessSignal E registry q = q \<and> ids_in E (qprefix q) (qdb q) JobPending = {}
    | Inl _ \<Rightarrow> False"
proof -
  have one: "one_status E (qprefix q) (qdb q)" using assms(3) by (simp add: queue_inv_def db_inv_def)
  obtain r q1 where d: "Dequeue E q = Inr (r, q1)" using reliable_Dequeue [OF assms] by auto
  show ?thesis
  proof (cases r)
    case None
    then have "q1 = q" using d by (auto simp: Dequeue_def split: sum.splits option.splits prod.splits)
    moreover have "ids_in E (qprefix q) (qdb q) JobPending = {}"
      using Dequeue_None_pending [OF assms(1,3)] d None one by (auto simp: pending_ids_def status_in_Some)
    ultimately show ?thesis using d None by (simp add: ProcessSignal_def)
  next
    case (Some j)
    then obtain d' where d': "q1 = q\<lparr>qdb := d'\<rparr>"
      "Move (qbadger E) (qdb q) (getJobKey (qprefix q) JobPending (jid j))
         (getJobKey (qprefix q) JobInProgress (jid j)) = Inr d'"
      using Dequeue_Some assms(1,3) d by metis
    have inv: "db_inv E (qprefix q) (qdb q)" using assms(3) by (simp add: queue_inv_def)
    note m = move_job [OF assms(1) inv _ d'(2)]
    have inv1: "queue_inv E q1" using Dequeue_refines [OF assms(1,3) d] by simp
    then have "jid j \<in> ids_at E q1 JobInProgress"
      using m d'(1) by (simp add: queue_inv_def db_inv_def flip: status_in_Some)
    note f = finishJob_status [OF assms(1,2) inv1 this]
    have pre: "qprefix (fst (finishJob E q1 j res)) = qprefix q" for res
      using d'(1) by (cases res) (auto simp: markJobDone_def deferJob_def Let_def split: sum.splits)
    show ?thesis using d Some m d'(1) f pre
      by (auto simp: ProcessSignal_def Let_def split: option.splits perform_result.splits)
  qed
qed

lemma ProcessSignal_outcome_witness:
  "status_in mem_env ''d'' (qdb (ProcessSignal mem_env (\<lambda>_. None) one_job_queue)) 5 = Some JobFailed"
proof -
  have pre: "qprefix one_job_queue = ''d''"
    by (simp add: one_job_queue_def Enqueue_def encodeJob_def mem_env_def Let_def empty_queue_def
        NewQueue_def StorageSet_def Update_def mem_badger_def)
  obtain j q' where "Dequeue mem_env one_job_queue = Inr (Some j, q')" "jid j = 5"
    using Dequeue_progress [OF mem_env_ok mem_env_reliable one_job_inv, of 5] one_job_pending by blast
  with ProcessSignal_outcome [OF mem_env_ok mem_env_reliable one_job_inv, of "\<lambda>_. None"] pre
  show ?thesis by simp
qed

subsection \<open>Cleanup\<close>

lemma task_exists_iff: "task_exists B d ks \<longleftrightarrow> (\<exists>k\<in>set ks. \<exists>v. GetKey B d k = Inr v)"
  by (induction ks) (auto split: sum.splits)

lemma task_key_not_job_key: "k \<in> set (task_keys chs n) \<Longrightarrow> k \<noteq> getJobKey pre s i"
  by (auto simp: task_keys_def Let_def WorkflowStorageKey_def ChainWorkflowStorageKey_def getJobKey_join
      join_inject split: if_splits)

lemma GetKey_present: "txn_begin B d = None \<Longrightarrow> rows_of B d k = Some v \<Longrightarrow> GetKey B d k = Inr v"
  by (simp add: GetKey_def View_def rows_of_Some)

lemma cleanup_rows_keeps:
  assumes "qenv_ok E" and "\<forall>d. txn_begin (qbadger E) d = None"
    and "tk \<in> set (task_keys chs (jname job))" and "jsonUnmarshal E v = Some job"
    and "rows_of (qbadger E) d kk = Some v" and "rows_of (qbadger E) d tk \<noteq> None"
    and "\<forall>(k, w) \<in> set rows. k \<noteq> tk \<and> (k = kk \<longrightarrow> w = v)"
    and "cleanup_rows E chs rows (d, st) = (d', st')"
  shows "rows_of (qbadger E) d' kk = Some v \<and> rows_of (qbadger E) d' tk \<noteq> None"
  using assms(5-8)
proof (induction rows arbitrary: d st)
  case Nil
  then show ?case by simp
next
  case (Cons kw rows)
  obtain k w where kw: "kw = (k, w)" by (cases kw)
  have k: "k \<noteq> tk" "k = kk \<longrightarrow> w = v" using Cons.prems(3) kw by auto
  have live: "task_exists (qbadger E) d (task_keys chs (jname job))"
    using assms(2,3) Cons.prems(2) by (auto simp: task_exists_iff intro: GetKey_present)
  from Cons.prems(4) obtain d1 st1 where
    d1: "d1 = d \<or> (StorageDelete (qbadger E) d k = Inr d1 \<and> k \<noteq> kk)"
    and r: "cleanup_rows E chs rows (d1, st1) = (d', st')"
    using k(2) live assms(4) by (auto simp: kw Let_def decodeJob_def split: sum.splits if_splits option.splits)
  have "rows_of (qbadger E) d1 kk = Some v \<and> rows_of (qbadger E) d1 tk \<noteq> None"
    using d1 storage.delete_abs [OF badger_storage [OF qenv_badger [OF assms(1)]], of d k d1] Cons.prems(1,2) k(1)
    by auto
  with Cons.IH [OF _ _ _ r] Cons.prems(3) show ?case by simp
qed

lemma cleanup_fold_keeps:
  assumes "qenv_ok E" and "\<forall>d. txn_begin (qbadger E) d = None"
    and "tk \<in> set (task_keys chs (jname job))" and "jsonUnmarshal E v = Some job"
    and "db_inv E pre (fst acc)" and "rows_of (qbadger E) (fst acc) kk = Some v"
    and "rows_of (qbadger E) (fst acc) tk \<noteq> None"
  shows "rows_of (qbadger E) (fst (fold (cleanup_status E pre chs) ss acc)) kk = Some v"
  using assms(5-7)
proof (induction ss arbitrary: acc)
  case Nil
  then show ?case by simp
next
  case (Cons s ss)
  let ?acc = "cleanup_status E pre chs s acc"
  have "rows_of (qbadger E) (fst ?acc) kk = Some v \<and> rows_of (qbadger E) (fst ?acc) tk \<noteq> None"
  proof (cases "GetByPrefix (qbadger E) (fst acc) (getQueueKeyPrefix pre s)")
    case (Inl e)
    with Cons.prems show ?thesis by (cases acc) (simp add: cleanup_status_def)
  next
    case (Inr rows)
    obtain d' st' where c: "cleanup_rows E chs rows (fst acc, snd acc) = (d', st')" by fastforce
    have "\<forall>(k, w) \<in> set rows. k \<noteq> tk \<and> (k = kk \<longrightarrow> w = v)"
      using byPrefix_job_keys [OF assms(1) Cons.prems(1) Inr] task_key_not_job_key [OF assms(3)] Cons.prems(2)
        storage.byPrefix_set [OF badger_storage [OF qenv_badger [OF assms(1)]] Inr]
      by fastforce
    from cleanup_rows_keeps [OF assms(1-4) Cons.prems(2,3) this c] Inr c show ?thesis
      by (cases acc) (simp add: cleanup_status_def)
  qed
  moreover have "db_inv E pre (fst ?acc)"
    using cleanup_fold_only_removes [OF assms(1) Cons.prems(1), of chs "[s]"] by simp
  ultimately show ?case using Cons.IH [of ?acc] by simp
qed

text \<open>
Cleanup never removes the job of a workflow that has a readable row under any status on any chain
of the queue: while the database is open, such a job keeps its row.
\<close>

lemma cleanup_keeps_live_jobs:
  assumes "qenv_ok E" and "\<forall>d. txn_begin (qbadger E) d = None" and "queue_inv E q"
    and "rows_of (qbadger E) (qdb q) (getJobKey (qprefix q) s i) = Some v" and "jsonUnmarshal E v = Some job"
    and "tk \<in> set (task_keys (qchains q) (jname job))" and "rows_of (qbadger E) (qdb q) tk \<noteq> None"
  shows "rows_of (qbadger E) (qdb (fst (CleanupOrphanedJobs E q))) (getJobKey (qprefix q) s i) = Some v"
  using cleanup_fold_keeps [OF assms(1,2,6,5), of "qprefix q"
      "(qdb q, \<lparr>total_jobs = 0, orphaned_jobs = 0, removed_jobs = 0, failed_cleanup = 0\<rparr>)"
      "getJobKey (qprefix q) s i" "[JobPending, JobDeferred, JobInProgress, JobFailed]"] assms(3,4,7)
  by (simp add: Cleanup_db queue_inv_def)

definition live_queue :: "(bytes \<times> bytes) list queue" where
  "live_queue = empty_queue\<lparr>qdb := [(getJobKey ''d'' JobComplete 5, ''5:t:n''), (WorkflowStorageKey ''n'' Running, ''w'')]\<rparr>"

lemma live_queue_rows: "rows_of mem_badger (qdb live_queue) k =
    (if k = getJobKey ''d'' JobComplete 5 then Some ''5:t:n''
     else if k = WorkflowStorageKey ''n'' Running then Some ''w'' else None)"
  by (simp add: live_queue_def rows_of_def mem_badger_def)

lemma live_queue_frame [simp]: "qprefix live_queue = ''d''" "waiting live_queue = []" "qchains live_queue = []"
  by (simp_all add: live_queue_def empty_queue_def NewQueue_def)

lemma running_key_not_job: "WorkflowStorageKey ''n'' Running \<noteq> getJobKey pre s i"
  by (rule task_key_not_job_key [of _ "[]" "''n''"]) (simp add: task_keys_def task_statuses_def)

lemma job_prefix_not_workflow: "\<not> prefix (getQueueKeyPrefix pre s) (WorkflowStorageKey n st)"
  by (simp add: getQueueKeyPrefix_def WorkflowStorageKey_def prefix_join)

lemma live_queue_inv: "queue_inv mem_env live_queue"
  using done_queue_decodes
  by (auto simp: queue_inv_def db_inv_def one_status_def typed_rows_def ids_in_def live_queue_rows
      running_key_not_job running_key_not_job [symmetric] job_prefix_not_workflow split: if_splits)

lemma cleanup_keeps_live_jobs_witness:
  "rows_of mem_badger (qdb (fst (CleanupOrphanedJobs mem_env live_queue))) (getJobKey ''d'' JobComplete 5)
     = Some ''5:t:n''"
proof -
  have n: "jsonUnmarshal mem_env ''5:t:n'' =
      Some \<lparr>jtype = ''t'', jname = ''n'', jdata = [], jenqueue_at = 0, jattempt = 0, jid = 5\<rparr>"
  proof -
    have "format_uint64 5 = ''5''" by code_simp
    then have "join (format_uint64 5) (join ''t'' ''n'') = ''5:t:n''" by (simp add: join_def)
    with split_job [of "''t''" 5 "''n''"] show ?thesis by (auto simp: mem_env_def)
  qed
  have "\<forall>d. txn_begin (qbadger mem_env) d = None" by (simp add: mem_badger_def)
  from cleanup_keeps_live_jobs [OF mem_env_ok this live_queue_inv, of JobComplete 5, OF _ n,
      of "WorkflowStorageKey ''n'' Running"]
  show ?thesis by (simp add: live_queue_rows running_key_not_job [symmetric] task_keys_def task_statuses_def)
qed

end
