(* ===== verification/FeeLedger.thy ===== *)
theory FeeLedger
  imports Keys
begin

text \<open>
  The ledger of post-paid value fees, \<open>core/taskengine/fee_ledger.go\<close>: one running balance per owner
  and chain, one audit row per execution. BadgerDB, the JSON codecs and \<open>common.HexToAddress\<close> are
  parameters. The mutex of \<open>RecordValueFee\<close> makes calls sequential, so a history of the ledger is a
  list of calls. The ledger refines a plain list of charges: the balance of an owner is the sum of the
  fees of the distinct executions charged to it.
\<close>

section \<open>Data\<close>

record fee_ledger_entry =
  outstanding_wei :: string
  last_updated :: int
  total_accrued_wei :: string
  record_count :: int

record fee_record =
  fr_execution_id :: string
  fr_task_id :: string
  fr_owner :: string
  fr_tier :: string
  fr_tier_percentage :: string
  fr_tx_value_wei :: string
  fr_fee_amount_wei :: string
  fr_timestamp :: int
  fr_chain_id :: int

datatype fee_error = FeeMissingChain string string | FeeInvalidAmount string | FeeUnparsableBalance string
  | FeeReadFailed serr | FeeUnmarshal int address | FeeMarshal | FeeWriteFailed serr

text \<open>
  \<open>ledgerMarshal\<close>, \<open>ledgerUnmarshal\<close> and \<open>recordMarshal\<close> are \<open>encoding/json\<close> on the two structs
  (\<open>None\<close> is the error), \<open>hexToAddress\<close> is go-ethereum's.
\<close>

record 'd fee_env =
  fbadger :: "'d badger"
  ledgerMarshal :: "fee_ledger_entry \<Rightarrow> bytes option"
  ledgerUnmarshal :: "bytes \<Rightarrow> fee_ledger_entry option"
  recordMarshal :: "fee_record \<Rightarrow> bytes option"
  hexToAddress :: "string \<Rightarrow> address"

section \<open>Operations\<close>

definition getLedgerEntry ::
  "'d fee_env \<Rightarrow> 'd \<Rightarrow> int \<Rightarrow> address \<Rightarrow> fee_error + fee_ledger_entry option" where
  "getLedgerEntry E d chainID owner = (case GetKey (fbadger E) d (FeeLedgerKey chainID owner) of
       Inl e \<Rightarrow> if e = ErrKeyNotFound then Inr None else Inl (FeeReadFailed e)
     | Inr v \<Rightarrow> (case ledgerUnmarshal E v of
           None \<Rightarrow> Inl (FeeUnmarshal chainID owner)
         | Some entry \<Rightarrow> Inr (Some entry)))"

definition GetOutstandingBalance :: "'d fee_env \<Rightarrow> 'd \<Rightarrow> int \<Rightarrow> address \<Rightarrow> fee_error + int" where
  "GetOutstandingBalance E d chainID owner = bindE (getLedgerEntry E d chainID owner) (\<lambda>entry.
     case entry of
       None \<Rightarrow> Inr 0
     | Some en \<Rightarrow> (case parse_bigint (outstanding_wei en) of
           None \<Rightarrow> Inl (FeeUnparsableBalance (outstanding_wei en))
         | Some n \<Rightarrow> Inr n))"

text \<open>The limit is a nil pointer when none is configured.\<close>

definition CheckCreditLimit ::
  "'d fee_env \<Rightarrow> 'd \<Rightarrow> int \<Rightarrow> address \<Rightarrow> int option \<Rightarrow> fee_error + bool \<times> int" where
  "CheckCreditLimit E d chainID owner creditLimitWei = (case creditLimitWei of
       None \<Rightarrow> Inr (True, 0)
     | Some limit \<Rightarrow> bindE (GetOutstandingBalance E d chainID owner)
         (\<lambda>outstanding. Inr (outstanding \<le> limit, outstanding)))"

text \<open>\<open>n, _ := new(big.Int).SetString(s, 10); if n == nil { n = 0 }; n.Add(n, fee); n.String()\<close>\<close>

definition add_fee :: "string \<Rightarrow> int \<Rightarrow> string" where
  "add_fee s fee = sdecimal ((case parse_bigint s of None \<Rightarrow> 0 | Some n \<Rightarrow> n) + fee)"

definition empty_entry :: fee_ledger_entry where
  "empty_entry = \<lparr>outstanding_wei = ''0'', last_updated = 0, total_accrued_wei = ''0'', record_count = 0\<rparr>"

definition charge_entry :: "int \<Rightarrow> int \<Rightarrow> fee_ledger_entry \<Rightarrow> fee_ledger_entry" where
  "charge_entry now fee en =
     \<lparr>outstanding_wei = add_fee (outstanding_wei en) fee, last_updated = now,
      total_accrued_wei = add_fee (total_accrued_wei en) fee,
      record_count = wrap_int64 (record_count en + 1)\<rparr>"

definition RecordValueFee :: "'d fee_env \<Rightarrow> int \<Rightarrow> fee_record \<Rightarrow> 'd \<Rightarrow> fee_error + 'd" where
  "RecordValueFee E now rec d =
     (if fr_chain_id rec = 0 then Inl (FeeMissingChain (fr_owner rec) (fr_execution_id rec))
      else let owner = hexToAddress E (fr_owner rec);
               recordKey = FeeRecordKey (fr_chain_id rec) owner (fr_execution_id rec);
               ledgerKey = FeeLedgerKey (fr_chain_id rec) owner
       in case GetKey (fbadger E) d recordKey of
            Inr _ \<Rightarrow> Inr d
          | Inl _ \<Rightarrow> (case parse_bigint (fr_fee_amount_wei rec) of
                None \<Rightarrow> Inl (FeeInvalidAmount (fr_fee_amount_wei rec))
              | Some feeAmount \<Rightarrow> bindE (getLedgerEntry E d (fr_chain_id rec) owner) (\<lambda>found.
                  let entry = charge_entry now feeAmount
                        (case found of None \<Rightarrow> empty_entry | Some en \<Rightarrow> en)
                  in case ledgerMarshal E entry of None \<Rightarrow> Inl FeeMarshal
                     | Some ledgerData \<Rightarrow> (case recordMarshal E rec of None \<Rightarrow> Inl FeeMarshal
                         | Some recordData \<Rightarrow>
                             (case BatchWrite (fbadger E) d [(ledgerKey, ledgerData), (recordKey, recordData)] of
                                Inl e \<Rightarrow> Inl (FeeWriteFailed e)
                              | Inr d' \<Rightarrow> Inr d')))))"

text \<open>A caller that keeps going after an error, as the executor does: the call changes nothing then.\<close>

definition record_fee :: "'d fee_env \<Rightarrow> int \<times> fee_record \<Rightarrow> 'd \<Rightarrow> 'd" where
  "record_fee E call d = (case RecordValueFee E (fst call) (snd call) d of Inl _ \<Rightarrow> d | Inr d' \<Rightarrow> d')"

section \<open>The ledger as a list of charges\<close>

text \<open>
  The specification: a charge is a chain, an owner, an execution and a fee; a call adds one unless it
  has no chain, no readable amount, or its execution was charged before.
\<close>

type_synonym charge = "(int \<times> address \<times> string) \<times> int"

definition charge_id :: "'d fee_env \<Rightarrow> fee_record \<Rightarrow> int \<times> address \<times> string" where
  "charge_id E rec = (fr_chain_id rec, hexToAddress E (fr_owner rec), fr_execution_id rec)"

definition add_charge :: "'d fee_env \<Rightarrow> fee_record \<Rightarrow> charge list \<Rightarrow> charge list" where
  "add_charge E rec L =
     (if fr_chain_id rec = 0 \<or> charge_id E rec \<in> fst ` set L then L
      else case parse_bigint (fr_fee_amount_wei rec) of None \<Rightarrow> L
        | Some fee \<Rightarrow> (charge_id E rec, fee) # L)"

definition charges_of :: "int \<Rightarrow> address \<Rightarrow> charge list \<Rightarrow> charge list" where
  "charges_of c a L = filter (\<lambda>((c', a', _), _). c' = c \<and> a' = a) L"

definition owed :: "charge list \<Rightarrow> int \<Rightarrow> address \<Rightarrow> int" where
  "owed L c a = sum_list (map snd (charges_of c a L))"

text \<open>What the ledger relies on: a reliable database and a codec that keeps ASCII entries.\<close>

definition fee_env_ok :: "'d fee_env \<Rightarrow> bool" where
  "fee_env_ok E \<longleftrightarrow> badger_reliable (fbadger E) \<and>
     (\<forall>en. ascii (outstanding_wei en) \<longrightarrow> ascii (total_accrued_wei en) \<longrightarrow>
        (\<exists>v. ledgerMarshal E en = Some v \<and> ledgerUnmarshal E v = Some en)) \<and>
     (\<forall>rec. recordMarshal E rec \<noteq> None)"

text \<open>The row of an owner agrees with the charges of that owner; audit rows are exactly the charges.\<close>

definition entry_agrees :: "'d fee_env \<Rightarrow> 'd \<Rightarrow> charge list \<Rightarrow> int \<Rightarrow> address \<Rightarrow> bool" where
  "entry_agrees E d L c a \<longleftrightarrow> (case rows_of (fbadger E) d (FeeLedgerKey c a) of
       None \<Rightarrow> charges_of c a L = []
     | Some v \<Rightarrow> (\<exists>en. ledgerUnmarshal E v = Some en \<and>
         parse_bigint (outstanding_wei en) = Some (owed L c a) \<and>
         parse_bigint (total_accrued_wei en) = Some (owed L c a) \<and>
         record_count en = wrap_int64 (int (length (charges_of c a L)))))"

definition ledger_rel :: "'d fee_env \<Rightarrow> 'd \<Rightarrow> charge list \<Rightarrow> bool" where
  "ledger_rel E d L \<longleftrightarrow> (\<forall>c a. entry_agrees E d L c a) \<and>
     (\<forall>c a x. rows_of (fbadger E) d (FeeRecordKey c a x) \<noteq> None \<longleftrightarrow> (c, a, x) \<in> fst ` set L)"

lemma fee_keys [key_simps]:
  "FeeLedgerKey c a = FeeLedgerKey c' a' \<longleftrightarrow> c = c' \<and> a = a'"
  "FeeRecordKey c a x = FeeRecordKey c' a' x' \<longleftrightarrow> c = c' \<and> a = a' \<and> x = x'"
  "FeeLedgerKey c a \<noteq> FeeRecordKey c' a' x'"
  "FeeRecordKey c' a' x' \<noteq> FeeLedgerKey c a"
proof -
  show "FeeLedgerKey c a = FeeLedgerKey c' a' \<longleftrightarrow> c = c' \<and> a = a'"
    by (auto simp: FeeLedgerKey_def join_def dest: append_sep_inject [rotated 2])
  show "FeeRecordKey c a x = FeeRecordKey c' a' x' \<longleftrightarrow> c = c' \<and> a = a' \<and> x = x'"
    by (auto simp: FeeRecordKey_def join_def dest!: append_sep_inject [rotated 2])
qed (simp_all add: FeeLedgerKey_def FeeRecordKey_def join_def)

lemma charges_of_Cons:
  "charges_of c a (((c', a', x), fee) # L) =
     (if c' = c \<and> a' = a then [((c', a', x), fee)] else []) @ charges_of c a L"
  by (simp add: charges_of_def)

lemma add_fee_parse: "parse_bigint s = Some n \<Longrightarrow> parse_bigint (add_fee s fee) = Some (n + fee)"
  by (simp add: add_fee_def)

lemma wrap_int64_Suc: "wrap_int64 (wrap_int64 n + 1) = wrap_int64 (n + 1)"
proof -
  have "((n + 2 ^ 63) mod 2 ^ 64 + 1) mod 2 ^ 64 = (n + 2 ^ 63 + 1) mod (2 ^ 64 :: int)"
    by (rule mod_add_left_eq)
  then show ?thesis by (simp add: wrap_int64_def algebra_simps)
qed

lemma empty_entry_parse [simp]:
  "parse_bigint (outstanding_wei empty_entry) = Some 0" "parse_bigint (total_accrued_wei empty_entry) = Some 0"
  "record_count empty_entry = 0"
  by (simp_all add: empty_entry_def parse_bigint_def parse_decimal_def is_digit_def digit_val_def)

lemma ascii_charge_entry [simp]:
  "ascii (outstanding_wei (charge_entry now fee en))" "ascii (total_accrued_wei (charge_entry now fee en))"
  by (simp_all add: charge_entry_def add_fee_def)

lemma owed_Cons:
  "owed (((c', a', x), fee) # L) c a = (if c' = c \<and> a' = a then fee else 0) + owed L c a"
  by (simp add: owed_def charges_of_Cons)

lemma getLedgerEntry_agrees:
  assumes "fee_env_ok E" and "entry_agrees E d L c a"
  obtains found where "getLedgerEntry E d c a = Inr found"
    and "let en = (case found of None \<Rightarrow> empty_entry | Some en \<Rightarrow> en)
         in parse_bigint (outstanding_wei en) = Some (owed L c a) \<and>
            parse_bigint (total_accrued_wei en) = Some (owed L c a) \<and>
            record_count en = wrap_int64 (int (length (charges_of c a L)))"
    and "found = None \<longrightarrow> owed L c a = 0"
proof -
  have rel: "badger_reliable (fbadger E)" using assms(1) by (simp add: fee_env_ok_def)
  show thesis
  proof (cases "rows_of (fbadger E) d (FeeLedgerKey c a)")
    case None
    with assms(2) have "charges_of c a L = []" by (simp add: entry_agrees_def)
    moreover have "getLedgerEntry E d c a = Inr None"
      using None by (simp add: getLedgerEntry_def reliable_GetKey [OF rel])
    ultimately show ?thesis using that [of None] by (simp add: owed_def wrap_int64_def)
  next
    case (Some v)
    with assms(2) obtain en where "ledgerUnmarshal E v = Some en"
      "parse_bigint (outstanding_wei en) = Some (owed L c a)"
      "parse_bigint (total_accrued_wei en) = Some (owed L c a)"
      "record_count en = wrap_int64 (int (length (charges_of c a L)))"
      by (auto simp: entry_agrees_def)
    with Some show ?thesis using that [of "Some en"] by (simp add: getLedgerEntry_def reliable_GetKey [OF rel])
  qed
qed

lemma record_fee_skips:
  assumes "fee_env_ok E" and "ledger_rel E d L"
    and "fr_chain_id rec = 0 \<or> charge_id E rec \<in> fst ` set L \<or> parse_bigint (fr_fee_amount_wei rec) = None"
  shows "record_fee E (now, rec) d = d" and "add_charge E rec L = L"
proof -
  have rel: "badger_reliable (fbadger E)" using assms(1) by (simp add: fee_env_ok_def)
  have "charge_id E rec \<in> fst ` set L \<longleftrightarrow> rows_of (fbadger E) d
      (FeeRecordKey (fr_chain_id rec) (hexToAddress E (fr_owner rec)) (fr_execution_id rec)) \<noteq> None"
    using assms(2) by (simp add: ledger_rel_def charge_id_def)
  with assms(3) show "record_fee E (now, rec) d = d"
    by (auto simp: record_fee_def RecordValueFee_def Let_def reliable_GetKey [OF rel] split: option.splits)
  show "add_charge E rec L = L" using assms(3) by (auto simp: add_charge_def split: option.splits)
qed

text \<open>The rows a fresh charge writes: the owner's entry and the audit row of the execution.\<close>

lemma record_fee_writes:
  assumes "fee_env_ok E" and "ledger_rel E d L" and "fr_chain_id rec \<noteq> 0"
    and "charge_id E rec \<notin> fst ` set L" and "parse_bigint (fr_fee_amount_wei rec) = Some fee"
    and id: "charge_id E rec = (c, a, x)"
  obtains en v w where "ledgerUnmarshal E v = Some en"
    and "parse_bigint (outstanding_wei en) = Some (owed L c a + fee)"
    and "parse_bigint (total_accrued_wei en) = Some (owed L c a + fee)"
    and "record_count en = wrap_int64 (int (length (charges_of c a L)) + 1)"
    and "rows_of (fbadger E) (record_fee E (now, rec) d) =
      (rows_of (fbadger E) d)(FeeLedgerKey c a \<mapsto> v, FeeRecordKey c a x \<mapsto> w)"
proof -
  from id have ids: "c = fr_chain_id rec" "a = hexToAddress E (fr_owner rec)" "x = fr_execution_id rec"
    by (simp_all add: charge_id_def)
  have rel: "badger_reliable (fbadger E)" using assms(1) by (simp add: fee_env_ok_def)
  have "rows_of (fbadger E) d (FeeRecordKey c a x) = None"
    using assms(2,4) unfolding ledger_rel_def charge_id_def ids by blast
  then have miss: "GetKey (fbadger E) d (FeeRecordKey c a x) = Inl ErrKeyNotFound"
    by (simp add: reliable_GetKey [OF rel])
  have "entry_agrees E d L c a" using assms(2) by (simp add: ledger_rel_def)
  then obtain found where g: "getLedgerEntry E d c a = Inr found"
    and f: "let en = (case found of None \<Rightarrow> empty_entry | Some en \<Rightarrow> en)
         in parse_bigint (outstanding_wei en) = Some (owed L c a) \<and>
            parse_bigint (total_accrued_wei en) = Some (owed L c a) \<and>
            record_count en = wrap_int64 (int (length (charges_of c a L)))"
    by (rule getLedgerEntry_agrees [OF assms(1)])
  define en where "en = charge_entry now fee (case found of None \<Rightarrow> empty_entry | Some en \<Rightarrow> en)"
  obtain v where v: "ledgerMarshal E en = Some v" "ledgerUnmarshal E v = Some en"
    using assms(1) unfolding fee_env_ok_def en_def by (metis ascii_charge_entry)
  obtain w where w: "recordMarshal E rec = Some w" using assms(1) by (auto simp: fee_env_ok_def)
  obtain d' where b: "BatchWrite (fbadger E) d [(FeeLedgerKey c a, v), (FeeRecordKey c a x, w)] = Inr d'"
    and r: "rows_of (fbadger E) d' = rows_of (fbadger E) d ++
      map_of (rev [(FeeLedgerKey c a, v), (FeeRecordKey c a x, w)])"
    by (rule reliable_BatchWrite [OF rel])
  have "record_fee E (now, rec) d = d'"
    using assms(3,5) miss g v w b
    by (simp add: record_fee_def RecordValueFee_def Let_def ids [symmetric] en_def [symmetric])
  with r have rows: "rows_of (fbadger E) (record_fee E (now, rec) d) =
      (rows_of (fbadger E) d)(FeeLedgerKey c a \<mapsto> v, FeeRecordKey c a x \<mapsto> w)"
    by (auto simp: fun_eq_iff map_add_def key_simps)
  have "parse_bigint (outstanding_wei en) = Some (owed L c a + fee) \<and>
      parse_bigint (total_accrued_wei en) = Some (owed L c a + fee) \<and>
      record_count en = wrap_int64 (int (length (charges_of c a L)) + 1)"
    using f by (simp add: en_def charge_entry_def add_fee_parse Let_def wrap_int64_Suc)
  with v rows show thesis by (intro that [of v en w]) auto
qed

lemma record_fee_refines:
  assumes "fee_env_ok E" and "ledger_rel E d L"
  shows "ledger_rel E (record_fee E (now, rec) d) (add_charge E rec L)"
proof (cases "fr_chain_id rec = 0 \<or> charge_id E rec \<in> fst ` set L \<or> parse_bigint (fr_fee_amount_wei rec) = None")
  case True
  with record_fee_skips [OF assms] assms(2) show ?thesis by simp
next
  case False
  then obtain fee where fee: "parse_bigint (fr_fee_amount_wei rec) = Some fee" by auto
  obtain c a x where id: "charge_id E rec = (c, a, x)" by (cases "charge_id E rec") auto
  obtain en v w where e: "ledgerUnmarshal E v = Some en"
    "parse_bigint (outstanding_wei en) = Some (owed L c a + fee)"
    "parse_bigint (total_accrued_wei en) = Some (owed L c a + fee)"
    "record_count en = wrap_int64 (int (length (charges_of c a L)) + 1)"
    and rows: "rows_of (fbadger E) (record_fee E (now, rec) d) =
      (rows_of (fbadger E) d)(FeeLedgerKey c a \<mapsto> v, FeeRecordKey c a x \<mapsto> w)"
    by (rule record_fee_writes [OF assms _ _ fee id, of now]) (use False in auto)
  have L': "add_charge E rec L = ((c, a, x), fee) # L"
    using False fee id by (simp add: add_charge_def)
  have "entry_agrees E (record_fee E (now, rec) d) (((c, a, x), fee) # L) c' a'" for c' a'
  proof -
    from assms(2) have "entry_agrees E d L c' a'" by (simp add: ledger_rel_def)
    with e show ?thesis
      by (cases "c' = c \<and> a' = a") (auto simp: entry_agrees_def rows key_simps owed_Cons charges_of_Cons
          add.commute split: option.splits)
  qed
  moreover have "rows_of (fbadger E) (record_fee E (now, rec) d) (FeeRecordKey c' a' x') \<noteq> None \<longleftrightarrow>
      (c', a', x') \<in> fst ` set (((c, a, x), fee) # L)" for c' a' x'
    using assms(2) by (auto simp: ledger_rel_def rows key_simps)
  ultimately show ?thesis unfolding L' ledger_rel_def by blast
qed

lemma ledger_rel_empty:
  "(\<And>k. rows_of (fbadger E) d k = None) \<Longrightarrow> ledger_rel E d []"
  by (simp add: ledger_rel_def entry_agrees_def charges_of_def)

lemma fold_record_fee_refines:
  assumes "fee_env_ok E" and "ledger_rel E d L"
  shows "ledger_rel E (fold (record_fee E) calls d) (fold (add_charge E) (map snd calls) L)"
  using assms(2)
proof (induction calls arbitrary: d L)
  case (Cons call calls)
  then show ?case using record_fee_refines [OF assms(1) Cons.prems, of "fst call" "snd call"] by simp
qed simp

lemma balance_is_owed:
  assumes "fee_env_ok E" and "ledger_rel E d L"
  shows "GetOutstandingBalance E d c a = Inr (owed L c a)"
proof -
  from assms(2) have "entry_agrees E d L c a" by (simp add: ledger_rel_def)
  then obtain found where "getLedgerEntry E d c a = Inr found"
    and "let en = (case found of None \<Rightarrow> empty_entry | Some en \<Rightarrow> en)
         in parse_bigint (outstanding_wei en) = Some (owed L c a) \<and>
            parse_bigint (total_accrued_wei en) = Some (owed L c a) \<and>
            record_count en = wrap_int64 (int (length (charges_of c a L)))"
    and "found = None \<longrightarrow> owed L c a = 0"
    by (rule getLedgerEntry_agrees [OF assms(1)])
  then show ?thesis by (cases found) (simp_all add: GetOutstandingBalance_def Let_def)
qed

section \<open>A concrete ledger\<close>

text \<open>A codec that keeps every entry: the four fields in decimal, lengths first.\<close>

definition mem_ledger_marshal :: "fee_ledger_entry \<Rightarrow> bytes option" where
  "mem_ledger_marshal en = Some (join (decimal (length (outstanding_wei en))) (join (sdecimal (last_updated en))
     (join (sdecimal (record_count en)) (outstanding_wei en @ total_accrued_wei en))))"

definition parse_sdecimal :: "string \<Rightarrow> int" where
  "parse_sdecimal s = (case parse_bigint s of None \<Rightarrow> 0 | Some n \<Rightarrow> n)"

definition mem_ledger_unmarshal :: "bytes \<Rightarrow> fee_ledger_entry option" where
  "mem_ledger_unmarshal b = (case splitN_at 4 CHR '':'' b of
       [n, u, k, r] \<Rightarrow> (case parse_decimal n of None \<Rightarrow> None
         | Some l \<Rightarrow> Some \<lparr>outstanding_wei = take l r, last_updated = parse_sdecimal u,
             total_accrued_wei = drop l r, record_count = parse_sdecimal k\<rparr>)
     | _ \<Rightarrow> None)"

definition mem_fee_env :: "(bytes \<times> bytes) list fee_env" where
  "mem_fee_env = \<lparr>fbadger = mem_badger, ledgerMarshal = mem_ledger_marshal,
     ledgerUnmarshal = mem_ledger_unmarshal, recordMarshal = (\<lambda>rec. Some (fr_fee_amount_wei rec)),
     hexToAddress = (\<lambda>s. of_nat (length s))\<rparr>"

lemma mem_fee_env_ok: "fee_env_ok mem_fee_env"
  by (simp add: fee_env_ok_def mem_fee_env_def mem_badger_reliable mem_ledger_marshal_def
      mem_ledger_unmarshal_def parse_sdecimal_def numeral_eq_Suc decimal_no_colon)

definition example_fee :: "string \<Rightarrow> fee_record" where
  "example_fee x = \<lparr>fr_execution_id = x, fr_task_id = ''t'', fr_owner = ''0x1'', fr_tier = [],
     fr_tier_percentage = [], fr_tx_value_wei = [], fr_fee_amount_wei = ''7'', fr_timestamp = 0, fr_chain_id = 1\<rparr>"

section \<open>Properties\<close>

text \<open>
C22: From an empty database, and as long as the storage does not fail (\<open>fee_env_ok\<close>: every read and write succeeds and a
ledger entry is read back as it was written), after any sequence of value fee calls, with whatever refused calls and repeats
it contains, the outstanding balance of every owner on every chain is the sum of the fees of the distinct executions charged
to that owner there, and a repeated call for an execution changes nothing. The condition on the storage is needed: a repeat
whose lookup of the execution fails is charged a second time (\<open>RecordValueFee_silent_failures\<close>).
\<close>

theorem balance_is_sum_of_distinct_fees:
  assumes "fee_env_ok E" and "\<And>k. rows_of (fbadger E) d k = None"
  shows "GetOutstandingBalance E (fold (record_fee E) calls d) c a =
      Inr (owed (fold (add_charge E) (map snd calls) []) c a) \<and>
    record_fee E call (fold (record_fee E) (calls @ [call]) d) = fold (record_fee E) (calls @ [call]) d"
proof -
  obtain now rec where call: "call = (now, rec)" by (cases call)
  let ?L = "fold (add_charge E) (map snd (calls @ [call])) []"
  note rel = fold_record_fee_refines [OF assms(1) ledger_rel_empty [of E d, OF assms(2)]]
  have "fr_chain_id rec = 0 \<or> charge_id E rec \<in> fst ` set ?L \<or> parse_bigint (fr_fee_amount_wei rec) = None"
    using call by (auto simp: add_charge_def split: option.splits)
  from record_fee_skips(1) [OF assms(1) rel this] balance_is_owed [OF assms(1) rel] call
  show ?thesis by simp
qed

theorem balance_is_sum_of_distinct_fees_witness:
  "GetOutstandingBalance mem_fee_env
     (fold (record_fee mem_fee_env) [(5, example_fee ''x''), (6, example_fee ''x''), (7, example_fee ''y'')] []) 1 3 = Inr 14"
proof -
  have "parse_bigint ''7'' = Some 7"
    by (simp add: parse_bigint_def parse_decimal_def is_digit_def digit_val_def)
  then have "owed (fold (add_charge mem_fee_env)
      (map snd [(5 :: int, example_fee ''x''), (6, example_fee ''x''), (7, example_fee ''y'')]) []) 1 3 = 14"
    by (simp add: add_charge_def charge_id_def example_fee_def mem_fee_env_def owed_def charges_of_def)
  with balance_is_sum_of_distinct_fees [OF mem_fee_env_ok, of "[]"
      "[(5, example_fee ''x''), (6, example_fee ''x''), (7, example_fee ''y'')]" 1 3]
  show ?thesis by (simp add: mem_fee_env_def rows_of_def mem_badger_def)
qed

text \<open>
The credit check: with no limit configured it always passes; otherwise it passes exactly when the
outstanding balance is at most the limit, and a balance that cannot be read is an error, never a pass.
\<close>

lemma CheckCreditLimit_spec:
  "CheckCreditLimit E d c a None = Inr (True, 0) \<and>
   (CheckCreditLimit E d c a (Some limit) = Inr (ok, b) \<longleftrightarrow>
      GetOutstandingBalance E d c a = Inr b \<and> (ok \<longleftrightarrow> b \<le> limit)) \<and>
   (CheckCreditLimit E d c a (Some limit) = Inl e \<longleftrightarrow> GetOutstandingBalance E d c a = Inl e)"
  by (auto simp: CheckCreditLimit_def bindE_Inl_conv)

text \<open>
Two ways a charge goes wrong while the call reports success. When the commit of the batch fails,
the call still succeeds and nothing is owed. When the audit row of an execution exists but cannot be
read, the execution is charged a second time.
\<close>

lemma RecordValueFee_silent_failures:
  "(\<exists>E :: (bytes \<times> bytes) list fee_env. badger_ok (fbadger E) \<and>
      RecordValueFee E 1 (example_fee ''x'') [] = Inr [] \<and> GetOutstandingBalance E [] 1 3 = Inr 0) \<and>
   (\<exists>(E :: ((bytes \<times> bytes) list \<times> bytes list) fee_env) d d'. badger_ok (fbadger E) \<and>
      RecordValueFee E 1 (example_fee ''x'') d = Inr d' \<and> GetOutstandingBalance E d' 1 3 = Inr 7 \<and>
      (\<exists>d''. RecordValueFee E 2 (example_fee ''x'') (fst d', [FeeRecordKey 1 3 ''x'']) = Inr d'' \<and>
         GetOutstandingBalance E d'' 1 3 = Inr 14))"
proof -
  have 7: "parse_bigint ''7'' = Some 7" and 0: "parse_bigint ''0'' = Some 0"
    by (simp_all add: parse_bigint_def parse_decimal_def is_digit_def digit_val_def)
  have codec: "mem_ledger_marshal en = Some v \<Longrightarrow> mem_ledger_unmarshal v = Some en" for en v
    by (auto simp: mem_ledger_marshal_def mem_ledger_unmarshal_def parse_sdecimal_def numeral_eq_Suc
        decimal_no_colon)
  have total: "\<exists>v. mem_ledger_marshal en = Some v" for en by (simp add: mem_ledger_marshal_def)
  note defs = RecordValueFee_def Let_def GetOutstandingBalance_def getLedgerEntry_def GetKey_def View_def
    example_fee_def BatchWrite_def commit_ignore_def 7 0 charge_entry_def empty_entry_def add_fee_def
  let ?C = "mem_badger\<lparr>txn_commit := (\<lambda>_ _. Inl (BadgerErr ''conflict''))\<rparr>"
  let ?E = "mem_fee_env\<lparr>fbadger := ?C\<rparr>"
  have "badger_ok (fbadger ?E)" using mem_badger_ok by (simp add: badger_ok_def)
  moreover have "RecordValueFee ?E 1 (example_fee ''x'') [] = Inr [] \<and> GetOutstandingBalance ?E [] 1 3 = Inr 0"
    by (simp add: defs mem_fee_env_def mem_badger_def mem_ledger_marshal_def)
  ultimately have one: "\<exists>E :: (bytes \<times> bytes) list fee_env. badger_ok (fbadger E) \<and>
      RecordValueFee E 1 (example_fee ''x'') [] = Inr [] \<and> GetOutstandingBalance E [] 1 3 = Inr 0"
    by blast
  define F :: "((bytes \<times> bytes) list \<times> bytes list) fee_env" where
    "F = \<lparr>fbadger = faulty_badger, ledgerMarshal = mem_ledger_marshal, ledgerUnmarshal = mem_ledger_unmarshal,
       recordMarshal = (\<lambda>rec. Some (fr_fee_amount_wei rec)), hexToAddress = (\<lambda>s. of_nat (length s))\<rparr>"
  obtain v where v: "mem_ledger_marshal (charge_entry 1 7 empty_entry) = Some v" using total by blast
  obtain w where w: "mem_ledger_marshal (charge_entry 2 7 (charge_entry 1 7 empty_entry)) = Some w"
    using total by blast
  let ?d1 = "([(FeeRecordKey 1 3 ''x'', ''7''), (FeeLedgerKey 1 3, v)], [])"
  let ?d2 = "([(FeeRecordKey 1 3 ''x'', ''7''), (FeeLedgerKey 1 3, w)], [])"
  note sim = RecordValueFee_def GetOutstandingBalance_def getLedgerEntry_def GetKey_def View_def
    example_fee_def BatchWrite_def commit_ignore_def 7 key_simps F_def faulty_badger_def
  have "RecordValueFee F 1 (example_fee ''x'') ([], []) = Inr ?d1"
    using v by (simp add: sim)
  moreover have "GetOutstandingBalance F ?d1 1 3 = Inr 7"
    by (simp add: sim codec [OF v]) (simp add: charge_entry_def add_fee_def)
  moreover have "RecordValueFee F 2 (example_fee ''x'') (fst ?d1, [FeeRecordKey 1 3 ''x'']) = Inr ?d2"
    using w by (simp add: sim codec [OF v])
  moreover have "GetOutstandingBalance F ?d2 1 3 = Inr 14"
    by (simp add: sim codec [OF w]) (simp add: charge_entry_def add_fee_def)
  moreover have "badger_ok (fbadger F)" by (simp add: F_def faulty_badger_ok)
  ultimately show ?thesis using one by blast
qed

end
