(* ===== verification/SessionPolicy.thy ===== *)
theory SessionPolicy
  imports Prelude
begin

text \<open>
  Session grants, \<open>model/session_policy.go\<close>: the stored record of one grant of execution authority on
  a smart wallet and the predicates the send path, the budget code and revocation ask of it. A Go
  pointer field is an \<open>option\<close>; a status and a sizing are the strings the record stores. Fields of
  \<open>int64\<close> milliseconds are integers.
\<close>

section \<open>Data\<close>

record allowed_action =
  aa_target :: "address option"
  aa_selectors :: "string list"

record erc20_cap =
  cap_token :: "address option"
  cap_amount :: string
  cap_granted :: string

record native_cap =
  nat_amount :: string
  nat_granted :: string

record delegated_recipient =
  dr_recipient :: "address option"
  dr_delegate :: "address option"

record gas_shape =
  native_rows :: int
  shape_targets :: int

record grant_auth =
  install_call :: bytes
  carrier_nonce :: "int option"
  grant_deadline :: uint64
  owner_signature :: bytes
  applied_at :: int
  applied_userop_hash :: string
  torn_down_at :: int
  requires_execute_user_op :: bool
  chain_window_checked :: bool
  priced_teardowns :: "gas_shape list"

record session_policy =
  awaiting_budget_activation :: bool
  sp_id :: string
  sp_owner :: "address option"
  sp_runner :: "address option"
  sp_chain_id :: int
  sp_entity_id :: "32 word"
  session_signer :: "address option"
  agent_label :: string
  justification :: string
  sizing :: string
  budget_started_at :: int
  budget_start_amounts :: "erc20_cap list"
  budget_start_native :: "native_cap option"
  sp_allowed_actions :: "allowed_action list"
  sp_erc20_spend_cap :: "erc20_cap option"
  sp_erc20_spend_caps :: "erc20_cap list"
  sp_native_recipients :: "address option list"
  sp_native_spend_cap :: "native_cap option"
  sp_allow_contract_recipient :: bool
  sp_delegated_native_recipients :: "delegated_recipient list"
  sp_grant :: "grant_auth option"
  sp_valid_until :: int
  sp_status :: string
  sp_created_at :: int

definition BudgetSizingWorkflow :: string where "BudgetSizingWorkflow = ''workflow''"
definition BudgetSizingBudget :: string where "BudgetSizingBudget = ''budget''"
definition SessionPolicyPending :: string where "SessionPolicyPending = ''pending''"
definition SessionPolicyActive :: string where "SessionPolicyActive = ''active''"
definition SessionPolicyRevoked :: string where "SessionPolicyRevoked = ''revoked''"

lemmas policy_constants =
  BudgetSizingWorkflow_def BudgetSizingBudget_def SessionPolicyPending_def SessionPolicyActive_def
  SessionPolicyRevoked_def

section \<open>Methods\<close>

definition EffectiveSizing :: "session_policy \<Rightarrow> string" where
  "EffectiveSizing p = (if sizing p = [] then BudgetSizingWorkflow else sizing p)"

text \<open>The grant methods are called on a possibly nil pointer.\<close>

definition Applied :: "grant_auth option \<Rightarrow> bool" where
  "Applied g = (case g of None \<Rightarrow> False | Some a \<Rightarrow> applied_at a > 0)"

definition TornDown :: "grant_auth option \<Rightarrow> bool" where
  "TornDown g = (case g of None \<Rightarrow> False | Some a \<Rightarrow> torn_down_at a > 0)"

definition NeedsOnChainCleanup :: "grant_auth option \<Rightarrow> bool" where
  "NeedsOnChainCleanup g \<longleftrightarrow> Applied g \<and> \<not> TornDown g"

definition Usable :: "session_policy option \<Rightarrow> bool" where
  "Usable p = (case p of None \<Rightarrow> False
     | Some q \<Rightarrow> if sp_grant q = None \<or> awaiting_budget_activation q then False
         else sp_status q = SessionPolicyPending \<or> sp_status q = SessionPolicyActive)"

definition Expired :: "session_policy option \<Rightarrow> int \<Rightarrow> bool" where
  "Expired p now_ms = (case p of None \<Rightarrow> False
     | Some q \<Rightarrow> if sp_valid_until q \<le> 0 then False else now_ms \<ge> sp_valid_until q)"

datatype policy_error = NoId | NoOwner string | NoRunner string | EntityZero string
  | NoSessionSigner string | NoGrant string | NoInstallCall string | NoOwnerSignature string | NoCarrierNonce string

definition no_address :: "address option \<Rightarrow> bool" where
  "no_address a \<longleftrightarrow> a = None \<or> a = Some zero_address"

text \<open>
  \<open>common.FromHex\<close> is a parameter; \<open>common.HexToHash(s)\<close> of 32 decoded bytes is those bytes, and the
  zero hash is 32 zero bytes.
\<close>

definition owner_installed_budget :: "(string \<Rightarrow> bytes) \<Rightarrow> session_policy \<Rightarrow> grant_auth \<Rightarrow> bool" where
  "owner_installed_budget fromHex p g \<longleftrightarrow>
     EffectiveSizing p = BudgetSizingBudget \<and> sp_status p = SessionPolicyActive \<and>
     \<not> awaiting_budget_activation p \<and> Applied (Some g) \<and>
     length (fromHex (applied_userop_hash g)) = 32 \<and>
     fromHex (applied_userop_hash g) \<noteq> replicate 32 (char_of (0 :: nat))"

definition PolicyValidate :: "(string \<Rightarrow> bytes) \<Rightarrow> session_policy \<Rightarrow> policy_error + unit" where
  "PolicyValidate fromHex p =
     (if sp_id p = [] then Inl NoId
      else if no_address (sp_owner p) then Inl (NoOwner (sp_id p))
      else if no_address (sp_runner p) then Inl (NoRunner (sp_id p))
      else if sp_entity_id p = 0 then Inl (EntityZero (sp_id p))
      else if sp_status p = SessionPolicyRevoked then Inr ()
      else if no_address (session_signer p) then Inl (NoSessionSigner (sp_id p))
      else case sp_grant p of
             None \<Rightarrow> Inl (NoGrant (sp_id p))
           | Some g \<Rightarrow>
               if install_call g = [] then Inl (NoInstallCall (sp_id p))
               else if owner_signature g = [] \<and> \<not> owner_installed_budget fromHex p g
                 then Inl (NoOwnerSignature (sp_id p))
               else if carrier_nonce g = None then Inl (NoCarrierNonce (sp_id p))
               else Inr ())"

section \<open>The per-token caps of a grant\<close>

text \<open>\<open>policyCaps\<close> of \<open>session_skill.go\<close>: the list, or the single cap of an older record.\<close>

definition policyCaps :: "session_policy option \<Rightarrow> erc20_cap list" where
  "policyCaps p = (case p of None \<Rightarrow> []
     | Some q \<Rightarrow> if sp_erc20_spend_caps q \<noteq> [] then sp_erc20_spend_caps q
         else (case sp_erc20_spend_cap q of Some c \<Rightarrow> [c] | None \<Rightarrow> []))"

definition isWalletBudget :: "session_policy option \<Rightarrow> bool" where
  "isWalletBudget p = (case p of None \<Rightarrow> False | Some q \<Rightarrow> EffectiveSizing q = BudgetSizingBudget)"

definition example_grant :: grant_auth where
  "example_grant = \<lparr>install_call = ''i'', carrier_nonce = Some 1, grant_deadline = 9, owner_signature = ''s'',
     applied_at = 0, applied_userop_hash = [], torn_down_at = 0, requires_execute_user_op = False,
     chain_window_checked = False, priced_teardowns = []\<rparr>"

definition example_policy :: session_policy where
  "example_policy = \<lparr>awaiting_budget_activation = False, sp_id = ''p'', sp_owner = Some 1, sp_runner = Some 2,
     sp_chain_id = 1, sp_entity_id = 3, session_signer = Some 4, agent_label = [], justification = [],
     sizing = [], budget_started_at = 0, budget_start_amounts = [], budget_start_native = None,
     sp_allowed_actions = [], sp_erc20_spend_cap = None, sp_erc20_spend_caps = [], sp_native_recipients = [],
     sp_native_spend_cap = None, sp_allow_contract_recipient = False, sp_delegated_native_recipients = [],
     sp_grant = Some example_grant, sp_valid_until = 1000, sp_status = SessionPolicyPending, sp_created_at = 1\<rparr>"

section \<open>Properties\<close>

text \<open>
A policy that validates and is usable can authorize an operation: it occupies an entity other than
the owner's, has a session signer, install calldata and a carrier nonce, and it carries the owner's
signature unless it is an active wallet budget whose owner-signed install is recorded with a non-zero
32-byte operation hash. In particular every usable pending policy that validates is signed by its owner.
\<close>

lemma usable_policy_is_authorized:
  assumes "PolicyValidate fromHex p = Inr ()" and "Usable (Some p)"
  shows "sp_entity_id p \<noteq> 0 \<and> \<not> no_address (session_signer p) \<and>
    (\<exists>g. sp_grant p = Some g \<and> install_call g \<noteq> [] \<and> carrier_nonce g \<noteq> None \<and>
       (owner_signature g \<noteq> [] \<or>
        sp_status p = SessionPolicyActive \<and> isWalletBudget (Some p) \<and> Applied (sp_grant p) \<and>
        length (fromHex (applied_userop_hash g)) = 32) \<and>
       (sp_status p = SessionPolicyPending \<longrightarrow> owner_signature g \<noteq> []))"
proof -
  have "sp_status p \<noteq> SessionPolicyRevoked"
    using assms(2) by (auto simp: Usable_def policy_constants split: if_splits)
  with assms(1) show ?thesis
    by (auto simp: PolicyValidate_def owner_installed_budget_def isWalletBudget_def policy_constants
        split: if_splits option.splits)
qed

lemma usable_policy_is_authorized_witness:
  "PolicyValidate id example_policy = Inr () \<and> Usable (Some example_policy) \<and>
   (\<exists>g. sp_grant example_policy = Some g \<and> owner_signature g \<noteq> [])"
proof -
  have v: "PolicyValidate id example_policy = Inr ()"
    by (simp add: PolicyValidate_def example_policy_def example_grant_def no_address_def zero_address_def
        policy_constants)
  moreover have u: "Usable (Some example_policy)"
    by (simp add: Usable_def example_policy_def policy_constants)
  moreover have "sp_status example_policy = SessionPolicyPending" by (simp add: example_policy_def)
  ultimately show ?thesis using usable_policy_is_authorized [OF v u] by blast
qed

end
