(* ===== verification/Selectors.thy ===== *)
theory Selectors
  imports SessionPolicy
begin

text \<open>
  Function selectors and amounts as the permission code reads them: \<open>parseSelector\<close>,
  \<open>normalizeSelector\<close>, \<open>MissingGrantCalls\<close>, \<open>parseCapAmount\<close>, \<open>parseBudgetAmount\<close> and the helpers of
  \<open>session_skill.go\<close> over action lists. A selector is written by clients as text; the code compares
  either the four bytes it denotes or its normalized text, and the lemmas relate the two.
\<close>

section \<open>Trimming and hexadecimal text\<close>

text \<open>
  \<open>strings.TrimSpace\<close> removes Unicode white space; these are its characters in UTF-8. \<open>to_lower\<close>
  lowers ASCII letters only: no other letter lowers to a hexadecimal digit or to \<open>x\<close>, so comparisons
  with selector constants are unaffected.
\<close>

definition chars :: "nat list \<Rightarrow> string" where
  "chars ns = map char_of ns"

definition space_seqs :: "string list" where
  "space_seqs = map (\<lambda>n. chars [n]) [9, 10, 11, 12, 13, 32] @ [chars [0xC2, 0x85], chars [0xC2, 0xA0],
     chars [0xE1, 0x9A, 0x80]] @ map (\<lambda>n. chars [0xE2, 0x80, n]) ([0x80..<0x8B] @ [0xA8, 0xA9, 0xAF]) @
     [chars [0xE2, 0x81, 0x9F], chars [0xE3, 0x80, 0x80]]"

lemma space_seqs_nonempty: "p \<in> set space_seqs \<Longrightarrow> p \<noteq> []"
  by (auto simp: space_seqs_def chars_def)

function trim_left :: "string \<Rightarrow> string" where
  "trim_left s = (case find (\<lambda>p. prefix p s) space_seqs of
     None \<Rightarrow> s | Some p \<Rightarrow> trim_left (drop (length p) s))"
  by auto

termination
proof (relation "measure length")
  fix s p assume "find (\<lambda>p. prefix p s) space_seqs = Some p"
  then have "p \<in> set space_seqs" "prefix p s" by (auto simp: find_Some_iff)
  with space_seqs_nonempty show "(drop (length p) s, s) \<in> measure length"
    by (cases s) (auto simp: prefix_def)
qed simp

function trim_right :: "string \<Rightarrow> string" where
  "trim_right s = (case find (\<lambda>p. suffix p s) space_seqs of
     None \<Rightarrow> s | Some p \<Rightarrow> trim_right (take (length s - length p) s))"
  by auto

termination
proof (relation "measure length")
  fix s p assume "find (\<lambda>p. suffix p s) space_seqs = Some p"
  then have "p \<in> set space_seqs" "suffix p s" by (auto simp: find_Some_iff)
  with space_seqs_nonempty show "(take (length s - length p) s, s) \<in> measure length"
    by (cases s) (auto simp: suffix_def)
qed simp

declare trim_left.simps [simp del] trim_right.simps [simp del]

definition trim_space :: "string \<Rightarrow> string" where
  "trim_space s = trim_right (trim_left s)"

definition trim_prefix :: "string \<Rightarrow> string \<Rightarrow> string" where
  "trim_prefix p s = (if prefix p s then drop (length p) s else s)"

text \<open>\<open>hex.DecodeString\<close> and \<open>common.Bytes2Hex\<close>.\<close>

definition hex_val :: "char \<Rightarrow> nat option" where
  "hex_val c = (let n = of_char c :: nat in
     if 48 \<le> n \<and> n \<le> 57 then Some (n - 48)
     else if 97 \<le> n \<and> n \<le> 102 then Some (n - 87)
     else if 65 \<le> n \<and> n \<le> 70 then Some (n - 55) else None)"

fun hex_decode :: "string \<Rightarrow> bytes option" where
  "hex_decode [] = Some []"
| "hex_decode [c] = None"
| "hex_decode (a # b # r) = (case (hex_val a, hex_val b) of
     (Some x, Some y) \<Rightarrow> map_option (\<lambda>bs. char_of (16 * x + y) # bs) (hex_decode r)
   | _ \<Rightarrow> None)"

fun hex_encode :: "bytes \<Rightarrow> string" where
  "hex_encode [] = []"
| "hex_encode (b # bs) = hex_digit (of_char b div 16) # hex_digit (of_char b mod 16) # hex_encode bs"

section \<open>Selectors\<close>

datatype text_error = SelectorNot4Bytes string | SelectorNotHex string
  | AmountNotDecimal string | AmountExceedsUint256 string
  | BudgetAmountMissing | BudgetAmountNotDecimal | BudgetAmountInvalid

definition parseSelector :: "string \<Rightarrow> text_error + bytes" where
  "parseSelector s = (let raw = trim_prefix ''0x'' (trim_space s) in
     if length raw \<noteq> 8 then Inl (SelectorNot4Bytes s)
     else case hex_decode raw of None \<Rightarrow> Inl (SelectorNotHex s) | Some b \<Rightarrow> Inr b)"

definition normalizeSelector :: "string \<Rightarrow> string" where
  "normalizeSelector s0 = (let s = to_lower (trim_space s0) in
     if s = [] then ''0x00000000'' else if \<not> prefix ''0x'' s then ''0x'' @ s else s)"

definition erc20TransferSelector :: bytes where
  "erc20TransferSelector = chars [0xa9, 0x05, 0x9c, 0xbb]"

definition erc20ApproveSelector :: bytes where
  "erc20ApproveSelector = chars [0x09, 0x5e, 0xa7, 0xb3]"

definition selectorTransfer :: string where "selectorTransfer = ''0xa9059cbb''"
definition selectorApprove :: string where "selectorApprove = ''0x095ea7b3''"

definition SelectorFromCalldata :: "bytes \<Rightarrow> string" where
  "SelectorFromCalldata data = (if length data < 4 then ''0x00000000'' else ''0x'' @ hex_encode (take 4 data))"

section \<open>Coverage of planned calls\<close>

record planned_call =
  pc_target :: address
  pc_selector :: string
  pc_label :: string
  pc_value :: "int option"
  pc_calldata :: bytes

text \<open>
  The map from targets to selector sets is the set of pairs the two loops insert. The planned side gets
  a \<open>0x\<close> prefix when it has none, the allowed side does not.
\<close>

definition allowed_pairs :: "allowed_action list \<Rightarrow> (address \<times> string) list" where
  "allowed_pairs allowed = concat (map (\<lambda>a. case aa_target a of None \<Rightarrow> []
     | Some t \<Rightarrow> map (\<lambda>s. (t, to_lower (trim_space s))) (aa_selectors a)) allowed)"

definition MissingGrantCalls :: "allowed_action list \<Rightarrow> planned_call list \<Rightarrow> planned_call list" where
  "MissingGrantCalls allowed planned = (if allowed = [] \<or> planned = [] then []
     else filter (\<lambda>c. (pc_target c, normalizeSelector (pc_selector c)) \<notin> set (allowed_pairs allowed)) planned)"

section \<open>Action lists\<close>

definition actionHasTarget :: "allowed_action list \<Rightarrow> address \<Rightarrow> bool" where
  "actionHasTarget actions token = list_ex (\<lambda>a. aa_target a = Some token) actions"

definition transferApproveOnly :: "address \<Rightarrow> allowed_action list \<Rightarrow> bool" where
  "transferApproveOnly token actions = list_all (\<lambda>a. aa_target a \<noteq> Some token \<or>
     aa_selectors a \<noteq> [] \<and>
     list_all (\<lambda>s. normalizeSelector s = selectorTransfer \<or> normalizeSelector s = selectorApprove) (aa_selectors a))
     actions"

text \<open>
  Addresses are sorted by their lower-case hexadecimal text. \<open>sort.Slice\<close> is not stable, but no two
  entries of the lists it sorts here have the same address.
\<close>

definition dedupeRecipients :: "address option list \<Rightarrow> address option list" where
  "dedupeRecipients rs = map Some (sort_key lower_hex
     (rev (fold (\<lambda>r out. case r of None \<Rightarrow> out
        | Some a \<Rightarrow> if a = zero_address \<or> a \<in> set out then out else a # out) rs [])))"

section \<open>Amounts\<close>

text \<open>\<open>v.BitLen() > 256\<close> is \<open>\<not> fits_uint256 v\<close>.\<close>

definition fits_uint256 :: "int \<Rightarrow> bool" where
  "fits_uint256 n \<longleftrightarrow> \<bar>n\<bar> < 2 ^ 256"

definition maxUint256 :: int where
  "maxUint256 = 2 ^ 256 - 1"

definition parseCapAmount :: "string \<Rightarrow> text_error + int" where
  "parseCapAmount s = (if s = [] then Inl (AmountNotDecimal s)
     else if \<not> list_all is_digit s then Inl (AmountNotDecimal s)
     else case parse_bigint s of None \<Rightarrow> Inl (AmountNotDecimal s)
       | Some n \<Rightarrow> if n \<le> 0 then Inl (AmountNotDecimal s)
           else if n > maxUint256 then Inl (AmountExceedsUint256 s) else Inr n)"

definition parseBudgetAmount :: "string \<Rightarrow> text_error + int" where
  "parseBudgetAmount raw = (if raw = [] then Inl BudgetAmountMissing
     else if \<not> list_all is_digit raw then Inl BudgetAmountNotDecimal
     else case parse_bigint raw of None \<Rightarrow> Inl BudgetAmountInvalid
       | Some n \<Rightarrow> if n < 0 \<or> \<not> fits_uint256 n then Inl BudgetAmountInvalid else Inr n)"

lemma parseCapAmount_range: "parseCapAmount s = Inr n \<Longrightarrow> 0 < n \<and> n < 2 ^ 256"
  by (auto simp: parseCapAmount_def maxUint256_def split: if_splits option.splits)

lemma parseBudgetAmount_range: "parseBudgetAmount s = Inr n \<Longrightarrow> 0 \<le> n \<and> n < 2 ^ 256"
  by (auto simp: parseBudgetAmount_def fits_uint256_def split: if_splits option.splits)

lemma sdecimal_digits: "0 \<le> n \<Longrightarrow> list_all is_digit (sdecimal n) \<and> sdecimal n \<noteq> []"
  by (simp add: sdecimal_def)

lemma parseBudgetAmount_sdecimal [simp]:
  "0 \<le> n \<Longrightarrow> n < 2 ^ 256 \<Longrightarrow> parseBudgetAmount (sdecimal n) = Inr n"
  using sdecimal_digits [of n] by (auto simp: parseBudgetAmount_def fits_uint256_def)

lemma parseCapAmount_sdecimal [simp]: "0 < n \<Longrightarrow> n < 2 ^ 256 \<Longrightarrow> parseCapAmount (sdecimal n) = Inr n"
  using sdecimal_digits [of n] by (auto simp: parseCapAmount_def maxUint256_def)

section \<open>Selector text and selector bytes\<close>

lemma hex_val_range: "hex_val c = Some n \<Longrightarrow> n < 16"
  by (auto simp: hex_val_def Let_def split: if_splits)

lemma hex_val_lower: "hex_val c = Some n \<Longrightarrow> lower_char c = hex_digit n"
proof -
  assume h: "hex_val c = Some n"
  have c: "c = char_of (of_char c :: nat)" by simp
  show "lower_char c = hex_digit n"
  proof (cases "97 \<le> (of_char c :: nat)")
    case True
    with h have "n = of_char c - 87" "(of_char c :: nat) \<le> 102"
      by (auto simp: hex_val_def Let_def split: if_splits)
    with True show ?thesis by (auto simp: lower_char_def hex_digit_def Let_def)
  next
    case False
    with h c show ?thesis
      by (auto simp: hex_val_def lower_char_def hex_digit_def Let_def split: if_splits)
  qed
qed

lemma hex_val_digit [simp]: "d < 16 \<Longrightarrow> hex_val (hex_digit d) = Some d"
  by (auto simp: hex_val_def Let_def of_char_hex_digit)

lemma of_char_16: "x < 16 \<Longrightarrow> y < 16 \<Longrightarrow> (of_char (char_of (16 * x + y)) :: nat) = 16 * x + y"
  by simp

lemma hex_decode_lower: "hex_decode s = Some b \<Longrightarrow> to_lower s = hex_encode b"
proof (induction s arbitrary: b rule: hex_decode.induct)
  case (3 a c r)
  then obtain x y bs where h: "hex_val a = Some x" "hex_val c = Some y" "hex_decode r = Some bs"
    by (auto split: option.splits)
  with 3 show ?case
    using hex_val_lower [OF h(1)] hex_val_lower [OF h(2)] hex_val_range [OF h(1)] hex_val_range [OF h(2)]
    by (auto simp: to_lower_def)
qed (auto simp: to_lower_def)

lemma hex_decode_encode [simp]: "hex_decode (hex_encode b) = Some b"
proof (induction b)
  case (Cons c b)
  have "of_char c < (256 :: nat)" using nat_of_char_less_256 [of c] by simp
  then have "of_char c div 16 < (16 :: nat)" by (simp add: less_mult_imp_div_less)
  with Cons show ?case by simp
qed simp

lemma length_hex_encode [simp]: "length (hex_encode b) = 2 * length b"
  by (induction b) auto

lemma hex_encode_inject [simp]: "hex_encode a = hex_encode b \<longleftrightarrow> a = b"
  by (metis hex_decode_encode option.inject)

lemma hex_encode_empty [simp]: "hex_encode b = [] \<longleftrightarrow> b = []"
  by (cases b) auto

lemma hex_decode_length: "hex_decode s = Some b \<Longrightarrow> 2 * length b = length s"
  by (metis hex_decode_lower length_hex_encode length_map to_lower_def)

lemma hex_digit_not_x: "d < 16 \<Longrightarrow> hex_digit d \<noteq> CHR ''x''"
  using of_char_hex_digit [of d] by (auto split: if_splits)

lemma nibbles [simp]: "of_char (c :: char) div 16 < (16 :: nat)"
  using nat_of_char_less_256 [of c] by (simp add: less_mult_imp_div_less)

lemma hex_encode_no_0x: "\<not> prefix ''0x'' (hex_encode b)"
proof (cases b)
  case (Cons c cs)
  then show ?thesis using hex_digit_not_x [of "of_char c mod 16"] by auto
qed simp

lemma lower_0x: "to_lower (''0x'' @ s) = ''0x'' @ to_lower s"
  by (simp add: to_lower_def lower_char_def Let_def)

lemma normalize_of_parse:
  assumes "parseSelector s = Inr b"
  shows "length b = 4" and "normalizeSelector s = ''0x'' @ hex_encode b"
proof -
  let ?t = "trim_space s"
  from assms have len: "length (trim_prefix ''0x'' ?t) = 8" and dec: "hex_decode (trim_prefix ''0x'' ?t) = Some b"
    by (auto simp: parseSelector_def Let_def split: if_splits option.splits)
  show "length b = 4" using hex_decode_length [OF dec] len by simp
  show "normalizeSelector s = ''0x'' @ hex_encode b"
  proof (cases "prefix ''0x'' ?t")
    case True
    then obtain r where r: "?t = ''0x'' @ r" by (auto simp: prefix_def)
    with dec have "to_lower ?t = ''0x'' @ hex_encode b"
      using hex_decode_lower by (simp only: lower_0x) (simp add: trim_prefix_def)
    then show ?thesis by (simp add: normalizeSelector_def Let_def)
  next
    case False
    with dec have "to_lower ?t = hex_encode b" using hex_decode_lower by (simp add: trim_prefix_def)
    moreover have "hex_encode b \<noteq> []" using hex_decode_length [OF dec] len by auto
    ultimately show ?thesis using hex_encode_no_0x [of b] by (simp add: normalizeSelector_def Let_def)
  qed
qed

text \<open>Canonical selector text has no white space to trim.\<close>

definition space_starts :: "nat list" where
  "space_starts = [9, 10, 11, 12, 13, 32, 0xC2, 0xE1, 0xE2, 0xE3]"

definition space_ends :: "nat list" where
  "space_ends = [9, 10, 11, 12, 13, 32, 0x85, 0xA0, 0xA8, 0xA9, 0xAF, 0x9F] @ [0x80..<0x8B]"

lemma space_seqs_ends: "p \<in> set space_seqs \<Longrightarrow>
    of_char (hd p) \<in> set space_starts \<and> of_char (last p) \<in> set space_ends"
proof -
  have "\<forall>p \<in> set space_seqs. of_char (hd p) \<in> set space_starts \<and> of_char (last p) \<in> set space_ends"
    unfolding space_seqs_def chars_def space_starts_def space_ends_def by simp
  then show "p \<in> set space_seqs \<Longrightarrow> ?thesis" by blast
qed

lemma trim_left_id: "of_char (hd s) \<notin> set space_starts \<Longrightarrow> s \<noteq> [] \<Longrightarrow> trim_left s = s"
proof -
  assume h: "of_char (hd s) \<notin> set space_starts" "s \<noteq> []"
  have "find (\<lambda>p. prefix p s) space_seqs = None"
  proof (subst find_None_iff, rule notI, elim exE conjE)
    fix p assume "p \<in> set space_seqs" "prefix p s"
    then have "of_char (hd p) \<in> set space_starts" "p \<noteq> []" "hd p = hd s"
      using space_seqs_ends [of p] space_seqs_nonempty [of p] by (auto simp: prefix_def)
    with h show False by simp
  qed
  then show ?thesis by (simp add: trim_left.simps)
qed

lemma trim_right_id: "of_char (last s) \<notin> set space_ends \<Longrightarrow> s \<noteq> [] \<Longrightarrow> trim_right s = s"
proof -
  assume h: "of_char (last s) \<notin> set space_ends" "s \<noteq> []"
  have "find (\<lambda>p. suffix p s) space_seqs = None"
  proof (subst find_None_iff, rule notI, elim exE conjE)
    fix p assume p: "p \<in> set space_seqs" "suffix p s"
    then have "last s = last p" using space_seqs_nonempty by (auto simp: suffix_def)
    with p h show False using space_seqs_ends by auto
  qed
  then show ?thesis by (simp add: trim_right.simps)
qed

lemma hex_digit_no_space: "d < 16 \<Longrightarrow> of_char (hex_digit d) \<notin> set space_ends"
  using of_char_hex_digit [of d] by (auto simp: space_ends_def split: if_splits)

lemma hex_encode_last: "b \<noteq> [] \<Longrightarrow> last (hex_encode b) = hex_digit (of_char (last b) mod 16)"
  by (induction b) auto

lemma trim_canonical: "b \<noteq> [] \<Longrightarrow> trim_space (''0x'' @ hex_encode b) = ''0x'' @ hex_encode b"
proof -
  assume b: "b \<noteq> []"
  then have "of_char (last (''0x'' @ hex_encode b)) \<notin> set space_ends"
    using hex_digit_no_space [of "of_char (last b) mod 16"] by (simp add: hex_encode_last)
  moreover have "of_char (hd (''0x'' @ hex_encode b)) \<notin> set space_starts"
    by (simp add: space_starts_def)
  ultimately show ?thesis unfolding trim_space_def
    by (subst trim_left_id) (auto intro: trim_right_id)
qed

lemma parse_canonical: "length b = 4 \<Longrightarrow> parseSelector (''0x'' @ hex_encode b) = Inr b"
proof -
  assume b: "length b = 4"
  then have "b \<noteq> []" by auto
  from trim_canonical [OF this] b show ?thesis
    by (simp add: parseSelector_def trim_prefix_def)
qed

section \<open>Properties\<close>

text \<open>
Selector text and selector bytes agree: for selectors that parse, the normalized text is \<open>0x\<close> and
the lower-case hexadecimal of the four bytes, it parses back to the same bytes, and two selectors
have the same normalized text exactly when they denote the same four bytes.
\<close>

lemma normalizeSelector_canonical:
  assumes "parseSelector s = Inr b" and "parseSelector t = Inr c"
  shows "length b = 4 \<and> normalizeSelector s = ''0x'' @ hex_encode b \<and>
    parseSelector (normalizeSelector s) = Inr b \<and> (normalizeSelector s = normalizeSelector t \<longleftrightarrow> b = c)"
  using normalize_of_parse [OF assms(1)] normalize_of_parse [OF assms(2)] parse_canonical [of b] by simp

lemma chars_eq: "map of_char s = (map of_char t :: nat list) \<Longrightarrow> s = t"
  by (rule map_injective [where f = "of_char :: char \<Rightarrow> nat"]) (auto intro: injI)

lemma transfer_parses: "parseSelector ''0xa9059cbb'' = Inr erc20TransferSelector"
proof -
  have "''0x'' @ hex_encode erc20TransferSelector = ''0xa9059cbb''"
    by (rule chars_eq) (simp add: erc20TransferSelector_def chars_def hex_digit_def)
  moreover have "length erc20TransferSelector = 4" by (simp add: erc20TransferSelector_def chars_def)
  ultimately show ?thesis using parse_canonical [of erc20TransferSelector] by simp
qed

lemma normalizeSelector_canonical_witness:
  "normalizeSelector ''0xa9059cbb'' = ''0x'' @ hex_encode erc20TransferSelector \<and>
   length erc20TransferSelector = 4"
  using normalizeSelector_canonical [OF transfer_parses transfer_parses] by simp

lemma MissingGrantCalls_covered:
  assumes "c \<in> set planned" and "c \<notin> set (MissingGrantCalls allowed planned)" and "allowed \<noteq> []"
  obtains a sel where "a \<in> set allowed" and "aa_target a = Some (pc_target c)" and "sel \<in> set (aa_selectors a)"
    and "to_lower (trim_space sel) = normalizeSelector (pc_selector c)"
proof -
  from assms have "(pc_target c, normalizeSelector (pc_selector c)) \<in> set (allowed_pairs allowed)"
    by (auto simp: MissingGrantCalls_def split: if_splits)
  then show thesis using that by (auto simp: allowed_pairs_def split: option.splits)
qed

lemma to_lower_canonical:
  assumes "parseSelector s = Inr b" and "to_lower (trim_space s) = ''0x'' @ r"
  shows "normalizeSelector s = to_lower (trim_space s)"
  using assms(2) by (simp add: normalizeSelector_def Let_def)

lemma normalized_prefix: "prefix ''0x'' (normalizeSelector s)"
  by (simp add: normalizeSelector_def Let_def)

text \<open>
C23: What the coverage preflight reports. For a grant with at least one allowed action, whose selectors all parse, and a
planned call whose selector parses, the call is not reported exactly when an action on the same target allows a selector
that denotes the same four bytes and is written with \<open>0x\<close> (in whatever case). So the preflight is sound: what it does not
report is allowed; and it is complete for selectors written with \<open>0x\<close> and for no others: one written without it, such as
\<open>a9059cbb\<close>, parses to the same bytes but is never matched by any planned call. A grant without allowed actions reports
nothing at all, covered or not.
\<close>

theorem MissingGrantCalls_sound_incomplete:
  "(c \<in> set planned \<and> allowed \<noteq> [] \<and> parseSelector (pc_selector c) = Inr b \<and>
      (\<forall>a \<in> set allowed. \<forall>sel \<in> set (aa_selectors a). \<exists>b'. parseSelector sel = Inr b') \<longrightarrow>
    (c \<notin> set (MissingGrantCalls allowed planned) \<longleftrightarrow>
      (\<exists>a \<in> set allowed. \<exists>sel \<in> set (aa_selectors a). aa_target a = Some (pc_target c) \<and> parseSelector sel = Inr b \<and>
        prefix ''0x'' (to_lower (trim_space sel))))) \<and>
   parseSelector ''a9059cbb'' = parseSelector ''0xa9059cbb'' \<and> parseSelector ''a9059cbb'' = Inr erc20TransferSelector \<and>
   MissingGrantCalls [] planned = []"
proof (intro conjI impI)
  assume h: "c \<in> set planned \<and> allowed \<noteq> [] \<and> parseSelector (pc_selector c) = Inr b \<and>
      (\<forall>a \<in> set allowed. \<forall>sel \<in> set (aa_selectors a). \<exists>b'. parseSelector sel = Inr b')"
  then have n: "normalizeSelector (pc_selector c) = ''0x'' @ hex_encode b" using normalize_of_parse(2) by blast
  show "c \<notin> set (MissingGrantCalls allowed planned) \<longleftrightarrow>
      (\<exists>a \<in> set allowed. \<exists>sel \<in> set (aa_selectors a). aa_target a = Some (pc_target c) \<and> parseSelector sel = Inr b \<and>
        prefix ''0x'' (to_lower (trim_space sel)))" (is "?L \<longleftrightarrow> ?R")
  proof
    assume ?L
    then obtain a sel where a: "a \<in> set allowed" "aa_target a = Some (pc_target c)" "sel \<in> set (aa_selectors a)"
      and eq: "to_lower (trim_space sel) = normalizeSelector (pc_selector c)"
      using h MissingGrantCalls_covered [of c planned allowed] by blast
    from h a obtain b' where b': "parseSelector sel = Inr b'" by blast
    from to_lower_canonical [OF b'] eq n have "normalizeSelector sel = ''0x'' @ hex_encode b" by simp
    with normalize_of_parse(2) [OF b'] have "b' = b" by simp
    moreover have "prefix ''0x'' (to_lower (trim_space sel))" unfolding eq by (rule normalized_prefix)
    ultimately show ?R using a b' by blast
  next
    assume ?R
    then obtain a sel where a: "a \<in> set allowed" "aa_target a = Some (pc_target c)" "sel \<in> set (aa_selectors a)"
      "parseSelector sel = Inr b" "prefix ''0x'' (to_lower (trim_space sel))" by blast
    then have "to_lower (trim_space sel) = normalizeSelector sel" by (auto simp: normalizeSelector_def Let_def)
    with n normalize_of_parse(2) [OF a(4)] have "to_lower (trim_space sel) = normalizeSelector (pc_selector c)" by simp
    with a(1-3) have "(pc_target c, normalizeSelector (pc_selector c)) \<in> set (allowed_pairs allowed)"
      unfolding allowed_pairs_def by (auto intro!: bexI [of _ a] image_eqI [of _ _ sel])
    then show ?L by (simp add: MissingGrantCalls_def)
  qed
next
  have "trim_space ''a9059cbb'' = ''a9059cbb''" "trim_space ''0xa9059cbb'' = ''0xa9059cbb''"
    unfolding trim_space_def
    by (simp_all add: trim_left_id trim_right_id space_starts_def space_ends_def)
  then have p: "parseSelector ''a9059cbb'' = Inr erc20TransferSelector"
    using transfer_parses by (auto simp: parseSelector_def trim_prefix_def Let_def split: option.splits)
  with transfer_parses show "parseSelector ''a9059cbb'' = parseSelector ''0xa9059cbb''"
    "parseSelector ''a9059cbb'' = Inr erc20TransferSelector" by simp_all
qed (simp add: MissingGrantCalls_def)

theorem MissingGrantCalls_sound_incomplete_witness:
  "\<lparr>pc_target = 7, pc_selector = ''0xa9059cbb'', pc_label = [], pc_value = None, pc_calldata = []\<rparr> \<in>
     set (MissingGrantCalls [\<lparr>aa_target = Some 7, aa_selectors = [''a9059cbb'']\<rparr>]
       [\<lparr>pc_target = 7, pc_selector = ''0xa9059cbb'', pc_label = [], pc_value = None, pc_calldata = []\<rparr>])"
proof -
  let ?a = "\<lparr>aa_target = Some 7, aa_selectors = [''a9059cbb'']\<rparr>"
  let ?c = "\<lparr>pc_target = 7, pc_selector = ''0xa9059cbb'', pc_label = [], pc_value = None, pc_calldata = []\<rparr>"
  note C = MissingGrantCalls_sound_incomplete [of ?c "[?c]" "[?a]" erc20TransferSelector]
  have "trim_space ''a9059cbb'' = ''a9059cbb''" unfolding trim_space_def
    by (simp add: trim_left_id trim_right_id space_starts_def space_ends_def)
  then have "\<not> prefix ''0x'' (to_lower (trim_space ''a9059cbb''))" by (simp add: to_lower_def lower_char_def)
  then show ?thesis using C transfer_parses by auto
qed

end
