(* ===== verification/Budget.thy ===== *)
theory Budget
  imports Selectors
begin

text \<open>
  Reading a wallet budget, \<open>core/taskengine/wallet_budget.go\<close>, and the owner's budget input,
  \<open>budget_policy.go\<close>. The chain reads of package \<open>aa\<close> are the parameter \<open>chain_reader\<close>, keccak is a
  parameter of \<open>functionSelector\<close>, and the deadline of the retirement window is a predicate on the
  position in the list of retired policies. The read never changes state, so each function returns its
  result or an error.
\<close>

section \<open>Errors\<close>

datatype budget_error = BudgetInput string | BudgetNarrowing string | BudgetReplaceRefused
  | BudgetUnavailable string | PolicyNotFound | TargetUnresolved string
  | ForToken address budget_error | ForNative budget_error

section \<open>The owner's input\<close>

record wallet_budget_input =
  wb_erc20 :: "erc20_cap list"
  wb_native :: "native_cap option"
  wb_valid_until :: int
  wb_start_new_totals :: bool
  wb_remove_actions :: "allowed_action list"

definition remove_only :: "wallet_budget_input \<Rightarrow> bool" where
  "remove_only b \<longleftrightarrow> wb_remove_actions b \<noteq> [] \<and> \<not> wb_start_new_totals b \<and> wb_erc20 b = [] \<and> wb_native b = None"

fun check_budget_tokens :: "address list \<Rightarrow> erc20_cap list \<Rightarrow> budget_error + unit" where
  "check_budget_tokens seen [] = Inr ()"
| "check_budget_tokens seen (c # rest) = (case cap_token c of
       None \<Rightarrow> Inl (BudgetInput ''token'')
     | Some t \<Rightarrow>
         if t = zero_address then Inl (BudgetInput ''token'')
         else if t \<in> set seen then Inl (BudgetInput ''twice'')
         else (case parseBudgetAmount (cap_amount c) of
             Inl _ \<Rightarrow> Inl (BudgetInput ''total'')
           | Inr _ \<Rightarrow> check_budget_tokens (t # seen) rest))"

definition budget_validate :: "wallet_budget_input \<Rightarrow> int \<Rightarrow> budget_error + unit" where
  "budget_validate b now_ms =
     (if wb_valid_until b \<le> 0 \<or> \<not> remove_only b \<and> wb_valid_until b \<le> now_ms \<or> wb_valid_until b div 1000 \<ge> 2 ^ 48
      then Inl (BudgetInput ''validUntil'')
      else bindE (check_budget_tokens [] (wb_erc20 b)) (\<lambda>_.
        case wb_native b of None \<Rightarrow> Inr ()
        | Some c \<Rightarrow> (case parseBudgetAmount (nat_amount c) of
              Inl _ \<Rightarrow> Inl (BudgetInput ''native total'') | Inr _ \<Rightarrow> Inr ())))"

section \<open>Amounts\<close>

definition originalCap :: "string \<Rightarrow> string \<Rightarrow> string" where
  "originalCap amount granted = (if granted \<noteq> [] then granted else amount)"

text \<open>From this amount on a total is shown as unlimited.\<close>

definition unlimited_threshold :: int where
  "unlimited_threshold = 2 ^ 128 - 1"

definition budgetAmounts :: "string \<Rightarrow> int \<Rightarrow> budget_error + string \<times> string \<times> bool" where
  "budgetAmounts tot remaining = (case parseBudgetAmount tot of
       Inl _ \<Rightarrow> Inl (BudgetUnavailable ''amount'')
     | Inr amount \<Rightarrow>
         (let used = amount - remaining
          in Inr (sdecimal amount, sdecimal (if used < 0 then 0 else used), amount \<ge> unlimited_threshold)))"

section \<open>Permissions that no cap meters\<close>

datatype unmetered_kind = AaveWithdraw | AaveBorrow | WrappedNative | UnmeteredOther

record unmetered_permission =
  um_kind :: unmetered_kind
  um_target :: address
  um_selectors :: "string list"
  um_token :: "address option"

text \<open>\<open>budget_contracts.json\<close>; a missing entry of a Go map is the zero address.\<close>

definition aavePool :: "(int \<times> address) list" where
  "aavePool = [(1, 0x87870Bca3F3fD6335C3F4ce8392D69350B4fA4E2), (10, 0x794a61358D6845594F94dc1DB02A252b5b4814aD),
     (56, 0x6807dc923806fE8Fd134338EABCA509979a7e0cB), (8453, 0xA238Dd80C259a72e81d7e4664a9801593F98d1c5),
     (42161, 0x794a61358D6845594F94dc1DB02A252b5b4814aD), (84532, 0x8bAB6d1b75f19e9eD9fCe8b9BD338844fF79aE27),
     (11155111, 0x6Ae43d3271ff6888e7Fc43Fd7321a503ff738951)]"

definition swapRouter :: "(int \<times> address) list" where
  "swapRouter = [(1, 0x68b3465833fb72A70ecDF485E0e4C7bD8665Fc45), (10, 0x68b3465833fb72A70ecDF485E0e4C7bD8665Fc45),
     (56, 0xB971eF87ede563556b2ED4b1C0b0019111Dd85d2), (130, 0x73855d06DE49d0fe4A9c42636Ba96c62da12FF9C),
     (4663, 0xCaf681a66D020601342297493863E78C959E5cb2), (8453, 0x2626664c2603336E57B271c5C0b26F421741e481),
     (42161, 0x68b3465833fb72A70ecDF485E0e4C7bD8665Fc45), (84532, 0x94cC0AaC535CCDB3C01d6787D6413C739ae12bc4),
     (11155111, 0x3bFA4769FB09eefC5a80d6E87c3B9C650f7Ae48E)]"

definition wrappedNative :: "(int \<times> address) list" where
  "wrappedNative = [(1, 0xC02aaA39b223FE8D0A0e5C4F27eAD9083C756Cc2), (10, 0x4200000000000000000000000000000000000006),
     (56, 0xbb4CdB9CBd36B01bD1cBaEBF2De08d9173bc095c), (130, 0x4200000000000000000000000000000000000006),
     (137, 0x0d500B1d8E8eF31E21C99d1Db9A6444d3ADf1270), (999, 0x5555555555555555555555555555555555555555),
     (4663, 0x0Bd7D308f8E1639FAb988df18A8011f41EAcAD73), (8453, 0x4200000000000000000000000000000000000006),
     (42161, 0x82aF49447D8a07e3bd95BD0d56f35241523fBab1), (84532, 0x4200000000000000000000000000000000000006),
     (11155111, 0xfFf9976782d46CC05630D1f6eBAb18b2324d6B14)]"

definition lidoStake :: "(int \<times> address) list" where
  "lidoStake = [(1, 0xae7ab96520DE3A18E5e111B5EaAb095312D7fE84)]"

definition contract_on :: "(int \<times> address) list \<Rightarrow> int \<Rightarrow> address" where
  "contract_on table chainID = (case map_of table chainID of None \<Rightarrow> zero_address | Some a \<Rightarrow> a)"

definition functionSelector :: "(bytes \<Rightarrow> bytes) \<Rightarrow> string \<Rightarrow> string" where
  "functionSelector keccak signature = ''0x'' @ hex_encode (take 4 (keccak signature))"

definition aave_kind :: "(bytes \<Rightarrow> bytes) \<Rightarrow> string \<Rightarrow> unmetered_kind option option" where
  "aave_kind keccak selector =
     (if selector = functionSelector keccak ''withdraw(address,uint256,address)'' then Some (Some AaveWithdraw)
      else if selector = functionSelector keccak ''borrow(address,uint256,uint256,uint16,address)''
        then Some (Some AaveBorrow)
      else if selector = functionSelector keccak ''supply(address,uint256,address,uint16)'' \<or>
              selector = functionSelector keccak ''repay(address,uint256,uint256,address)'' then Some None
      else None)"

definition router_signatures :: "string list" where
  "router_signatures = [''exactInputSingle((address,address,uint24,address,uint256,uint256,uint160))'',
     ''exactInput((bytes,address,uint256,uint256))'',
     ''exactOutputSingle((address,address,uint24,address,uint256,uint256,uint160))'',
     ''exactOutput((bytes,address,uint256,uint256))'', ''multicall(bytes[])'', ''multicall(uint256,bytes[])'',
     ''refundETH()'', ''unwrapWETH9(uint256,address)'']"

text \<open>\<open>None\<close> is the empty kind: the selector needs no disclosure.\<close>

definition unmeteredKind :: "(bytes \<Rightarrow> bytes) \<Rightarrow> session_policy \<Rightarrow> address \<Rightarrow> string \<Rightarrow> unmetered_kind option" where
  "unmeteredKind keccak policy target selector0 =
     (let selector = to_lower selector0; sel = functionSelector keccak; chain = sp_chain_id policy in
      if list_ex (\<lambda>c. cap_token c = Some target \<and> (selector = selectorTransfer \<or> selector = selectorApprove))
           (policyCaps (Some policy)) then None
      else case (if target = contract_on aavePool chain then aave_kind keccak selector else None) of
        Some k \<Rightarrow> k
      | None \<Rightarrow>
          if target = contract_on wrappedNative chain \<and>
             (selector = sel ''deposit()'' \<or> selector = sel ''withdraw(uint256)'') then Some WrappedNative
          else if target = contract_on swapRouter chain \<and> selector \<in> set (map sel router_signatures) then None
          else if target = contract_on lidoStake chain \<and> sp_native_spend_cap policy \<noteq> None \<and>
             selector = sel ''submit(address)'' then None
          else Some UnmeteredOther)"

text \<open>
  The row of a target and kind is extended in place, or appended; \<open>rows[i].Selectors\<close> keeps the order of
  the actions. The field \<open>Added\<close> of the row stays false here.
\<close>

fun disclose :: "unmetered_kind \<Rightarrow> address \<Rightarrow> string \<Rightarrow> unmetered_permission list \<Rightarrow> unmetered_permission list" where
  "disclose kind target selector [] = [\<lparr>um_kind = kind, um_target = target, um_selectors = [selector],
     um_token = (if kind = WrappedNative then Some target else None)\<rparr>]"
| "disclose kind target selector (r # rows) =
     (if um_target r = target \<and> um_kind r = kind then r\<lparr>um_selectors := um_selectors r @ [selector]\<rparr> # rows
      else r # disclose kind target selector rows)"

definition action_selectors :: "allowed_action list \<Rightarrow> (address \<times> string) list" where
  "action_selectors actions = concat (map (\<lambda>a. case aa_target a of None \<Rightarrow> []
     | Some t \<Rightarrow> map (Pair t) (aa_selectors a)) actions)"

definition classifyUnmeteredPermissions :: "(bytes \<Rightarrow> bytes) \<Rightarrow> session_policy \<Rightarrow> unmetered_permission list" where
  "classifyUnmeteredPermissions keccak policy =
     fold (\<lambda>(target, selector) rows. case unmeteredKind keccak policy target selector of
         None \<Rightarrow> rows | Some kind \<Rightarrow> disclose kind target selector rows)
       (action_selectors (sp_allowed_actions policy)) []"

section \<open>The read\<close>

record budget_token_row =
  tr_token :: address
  tr_amount :: string
  tr_remaining :: string
  tr_used :: string
  tr_unlimited :: bool

record budget_native_row =
  nr_amount :: string
  nr_remaining :: string
  nr_used :: string
  nr_unlimited :: bool

datatype retirement_state = RetirementRegistered | RetirementResidual | RetirementUnverified

record budget_retirement =
  ret_entity_id :: "32 word"
  ret_policy_id :: string
  ret_state :: retirement_state
  ret_erc20 :: "erc20_cap list"
  ret_native :: "native_cap option"

record wallet_budget =
  wbd_chain_id :: int
  wbd_policy_id :: string
  wbd_status :: string
  wbd_sizing :: string
  wbd_valid_until :: int
  wbd_started_at :: int
  wbd_erc20 :: "budget_token_row list"
  wbd_native :: "budget_native_row option"
  wbd_unmetered :: "unmetered_permission list"
  wbd_retirements :: "budget_retirement list"
  wbd_read_at :: int

text \<open>The reads of package \<open>aa\<close>: spend limits by entity, token and account, and the state of an entity.\<close>

record chain_reader =
  readERC20SpendLimit :: "32 word \<Rightarrow> address \<Rightarrow> address \<Rightarrow> string + int"
  readNativeSpendLimit :: "32 word \<Rightarrow> address \<Rightarrow> string + int"
  entityRegistered :: "address \<Rightarrow> 32 word \<Rightarrow> string + bool"
  entityCleared :: "address \<Rightarrow> 32 word \<Rightarrow> bytes \<Rightarrow> string + bool"

definition inspectRetirement :: "chain_reader \<Rightarrow> session_policy option \<Rightarrow> retirement_state option" where
  "inspectRetirement R policy = (case policy of None \<Rightarrow> Some RetirementUnverified
     | Some p \<Rightarrow> (case (sp_runner p, sp_grant p) of
         (Some runner, Some g) \<Rightarrow>
           (case entityRegistered R runner (sp_entity_id p) of
              Inl _ \<Rightarrow> Some RetirementUnverified
            | Inr registered \<Rightarrow>
                if registered then Some RetirementRegistered
                else (case entityCleared R runner (sp_entity_id p) (install_call g) of
                    Inl _ \<Rightarrow> Some RetirementUnverified
                  | Inr clear \<Rightarrow> if \<not> clear then Some RetirementResidual else None))
       | _ \<Rightarrow> Some RetirementUnverified))"

definition token_total :: "session_policy \<Rightarrow> erc20_cap \<Rightarrow> string" where
  "token_total policy c =
     (if EffectiveSizing policy = BudgetSizingBudget
      then (case find (\<lambda>s. cap_token s \<noteq> None \<and> cap_token s = cap_token c) (budget_start_amounts policy) of
              None \<Rightarrow> [] | Some s \<Rightarrow> cap_amount s)
      else originalCap (cap_amount c) (cap_granted c))"

text \<open>The remainder of a pending grant is its total; any other grant is read from the chain.\<close>

definition remainder_of :: "session_policy \<Rightarrow> string \<Rightarrow> string + int \<Rightarrow> budget_error + int" where
  "remainder_of policy tot chain =
     (if sp_status policy = SessionPolicyPending
      then (case parseBudgetAmount tot of Inl _ \<Rightarrow> Inl (BudgetUnavailable ''amount'') | Inr n \<Rightarrow> Inr n)
      else (case chain of Inl e \<Rightarrow> Inl (BudgetUnavailable e) | Inr n \<Rightarrow> Inr n))"

definition read_token_row :: "chain_reader \<Rightarrow> session_policy \<Rightarrow> address \<Rightarrow> erc20_cap \<Rightarrow> budget_error + budget_token_row" where
  "read_token_row R policy runner c = (case cap_token c of
       None \<Rightarrow> Inl (BudgetUnavailable ''cap without token'')
     | Some token \<Rightarrow>
         (let tot = token_total policy c in
          bindE (remainder_of policy tot (readERC20SpendLimit R (sp_entity_id policy) token runner)) (\<lambda>remaining.
          bindE (budgetAmounts tot remaining) (\<lambda>(amount, used, unlimited).
            Inr \<lparr>tr_token = token, tr_amount = amount, tr_remaining = sdecimal remaining, tr_used = used,
              tr_unlimited = unlimited\<rparr>))))"

fun read_token_rows :: "chain_reader \<Rightarrow> session_policy \<Rightarrow> address \<Rightarrow> erc20_cap list \<Rightarrow> budget_error + budget_token_row list" where
  "read_token_rows R policy runner [] = Inr []"
| "read_token_rows R policy runner (c # cs) = bindE (read_token_row R policy runner c) (\<lambda>r.
     bindE (read_token_rows R policy runner cs) (\<lambda>rs. Inr (r # rs)))"

definition native_total :: "session_policy \<Rightarrow> native_cap \<Rightarrow> string" where
  "native_total policy c =
     (if EffectiveSizing policy = BudgetSizingBudget
      then (case budget_start_native policy of None \<Rightarrow> [] | Some s \<Rightarrow> nat_amount s)
      else originalCap (nat_amount c) (nat_granted c))"

definition read_native_row :: "chain_reader \<Rightarrow> session_policy \<Rightarrow> address \<Rightarrow> budget_error + budget_native_row option" where
  "read_native_row R policy runner = (case sp_native_spend_cap policy of
       None \<Rightarrow> Inr None
     | Some c \<Rightarrow>
         (let tot = native_total policy c in
          bindE (remainder_of policy tot (readNativeSpendLimit R (sp_entity_id policy) runner)) (\<lambda>remaining.
          bindE (budgetAmounts tot remaining) (\<lambda>(amount, used, unlimited).
            Inr (Some \<lparr>nr_amount = amount, nr_remaining = sdecimal remaining, nr_used = used, nr_unlimited = unlimited\<rparr>)))))"

definition retirement_row :: "chain_reader \<Rightarrow> bool \<Rightarrow> session_policy \<Rightarrow> budget_retirement option" where
  "retirement_row R expired p =
     map_option (\<lambda>state. \<lparr>ret_entity_id = sp_entity_id p, ret_policy_id = sp_id p, ret_state = state,
        ret_erc20 = (if state = RetirementRegistered then policyCaps (Some p) else []),
        ret_native = (if state = RetirementRegistered then sp_native_spend_cap p else None)\<rparr>)
       (if expired then Some RetirementUnverified else inspectRetirement R (Some p))"

fun retirement_rows :: "chain_reader \<Rightarrow> (nat \<Rightarrow> bool) \<Rightarrow> nat \<Rightarrow> session_policy list \<Rightarrow> budget_retirement list" where
  "retirement_rows R timed_out i [] = []"
| "retirement_rows R timed_out i (p # ps) =
     (case retirement_row R (timed_out i) p of None \<Rightarrow> [] | Some r \<Rightarrow> [r]) @ retirement_rows R timed_out (Suc i) ps"

definition ReadWalletBudget :: "(bytes \<Rightarrow> bytes) \<Rightarrow> chain_reader \<Rightarrow> (nat \<Rightarrow> bool) \<Rightarrow> int \<Rightarrow>
    session_policy option \<Rightarrow> session_policy list \<Rightarrow> budget_error + wallet_budget" where
  "ReadWalletBudget keccak R timed_out now_ms policy retired = (case policy of None \<Rightarrow> Inl PolicyNotFound
     | Some p \<Rightarrow> (case sp_runner p of None \<Rightarrow> Inl PolicyNotFound
       | Some runner \<Rightarrow>
           if EffectiveSizing p \<noteq> BudgetSizingWorkflow \<and> EffectiveSizing p \<noteq> BudgetSizingBudget
           then Inl (BudgetUnavailable ''unknown sizing'')
           else bindE (read_token_rows R p runner (policyCaps (Some p))) (\<lambda>rows.
             bindE (read_native_row R p runner) (\<lambda>native.
               Inr \<lparr>wbd_chain_id = sp_chain_id p, wbd_policy_id = sp_id p, wbd_status = sp_status p,
                 wbd_sizing = EffectiveSizing p, wbd_valid_until = sp_valid_until p,
                 wbd_started_at = (if EffectiveSizing p = BudgetSizingBudget then budget_started_at p else 0),
                 wbd_erc20 = rows, wbd_native = native,
                 wbd_unmetered = classifyUnmeteredPermissions keccak p,
                 wbd_retirements = retirement_rows R timed_out 0 retired, wbd_read_at = now_ms\<rparr>))))"

section \<open>Lemmas\<close>

lemma budgetAmounts_spec:
  assumes "budgetAmounts tot rem = Inr (amount, used, unlimited)"
  obtains n where "parseBudgetAmount tot = Inr n" and "amount = sdecimal n" and "used = sdecimal (max 0 (n - rem))"
    and "unlimited \<longleftrightarrow> n \<ge> unlimited_threshold" and "0 \<le> n" and "n < 2 ^ 256"
  using assms parseBudgetAmount_range [of tot]
  by (auto simp: budgetAmounts_def Let_def max_def split: sum.splits if_splits)

definition row_adds_up :: "session_policy \<Rightarrow> string \<Rightarrow> string \<Rightarrow> string \<Rightarrow> bool \<Rightarrow> bool" where
  "row_adds_up p amount remaining used unlimited \<longleftrightarrow> (\<exists>n rem.
     amount = sdecimal n \<and> remaining = sdecimal rem \<and> used = sdecimal (max 0 (n - rem)) \<and>
     0 \<le> n \<and> n < 2 ^ 256 \<and> (unlimited \<longleftrightarrow> n \<ge> 2 ^ 128 - 1) \<and>
     (sp_status p = SessionPolicyPending \<longrightarrow> rem = n))"

lemma remainder_pending:
  "remainder_of p tot chain = Inr rem \<Longrightarrow> sp_status p = SessionPolicyPending \<Longrightarrow> parseBudgetAmount tot = Inr rem"
  by (auto simp: remainder_of_def split: sum.splits if_splits)

lemma amounts_add_up:
  assumes "remainder_of p tot chain = Inr rem" and "budgetAmounts tot rem = Inr (amount, used, unlimited)"
  shows "row_adds_up p amount (sdecimal rem) used unlimited"
proof -
  obtain n where n: "parseBudgetAmount tot = Inr n" "amount = sdecimal n" "used = sdecimal (max 0 (n - rem))"
    "unlimited \<longleftrightarrow> n \<ge> unlimited_threshold" "0 \<le> n" "n < 2 ^ 256"
    by (rule budgetAmounts_spec [OF assms(2)])
  moreover have "sp_status p = SessionPolicyPending \<longrightarrow> rem = n"
    using remainder_pending [OF assms(1)] n(1) by auto
  ultimately show ?thesis unfolding row_adds_up_def unlimited_threshold_def by blast
qed

lemma read_token_row_spec:
  assumes "read_token_row R p runner c = Inr r"
  shows "cap_token c = Some (tr_token r) \<and> row_adds_up p (tr_amount r) (tr_remaining r) (tr_used r) (tr_unlimited r)"
proof -
  from assms obtain rem where t: "cap_token c = Some (tr_token r)"
    and rem: "remainder_of p (token_total p c) (readERC20SpendLimit R (sp_entity_id p) (tr_token r) runner) = Inr rem"
    and b: "budgetAmounts (token_total p c) rem = Inr (tr_amount r, tr_used r, tr_unlimited r)"
    and "tr_remaining r = sdecimal rem"
    by (auto simp: read_token_row_def Let_def split: option.splits prod.splits)
  with amounts_add_up [OF rem b] show ?thesis by simp
qed

lemma read_token_rows_spec:
  "read_token_rows R p runner cs = Inr rs \<Longrightarrow> map (\<lambda>r. Some (tr_token r)) rs = map cap_token cs \<and>
     (\<forall>r \<in> set rs. row_adds_up p (tr_amount r) (tr_remaining r) (tr_used r) (tr_unlimited r))"
proof (induction cs arbitrary: rs)
  case (Cons c cs)
  then obtain r rs' where r: "read_token_row R p runner c = Inr r" and rs': "read_token_rows R p runner cs = Inr rs'"
    and "rs = r # rs'" by auto
  with Cons.IH [OF rs'] read_token_row_spec [OF r] show ?case by auto
qed simp

lemma read_native_row_spec:
  assumes "read_native_row R p runner = Inr (Some r)"
  shows "row_adds_up p (nr_amount r) (nr_remaining r) (nr_used r) (nr_unlimited r)"
proof -
  from assms obtain c rem where "sp_native_spend_cap p = Some c"
    and rem: "remainder_of p (native_total p c) (readNativeSpendLimit R (sp_entity_id p) runner) = Inr rem"
    and b: "budgetAmounts (native_total p c) rem = Inr (nr_amount r, nr_used r, nr_unlimited r)"
    and "nr_remaining r = sdecimal rem"
    by (auto simp: read_native_row_def Let_def split: option.splits prod.splits)
  with amounts_add_up [OF rem b] show ?thesis by simp
qed

text \<open>Disclosed selectors, as a set of target, kind and selector.\<close>

definition disclosed :: "unmetered_permission list \<Rightarrow> (address \<times> unmetered_kind \<times> string) set" where
  "disclosed rows = {(um_target r, um_kind r, s) | r s. r \<in> set rows \<and> s \<in> set (um_selectors r)}"

lemma disclosed_Cons: "disclosed (r # rows) = {(um_target r, um_kind r, s) | s. s \<in> set (um_selectors r)} \<union> disclosed rows"
  by (auto simp: disclosed_def)

lemma disclosed_Nil [simp]: "disclosed [] = {}"
  by (simp add: disclosed_def)

lemma disclosed_disclose: "disclosed (disclose k t s rows) = insert (t, k, s) (disclosed rows)"
  by (induction rows) (auto simp: disclosed_Cons disclosed_Nil)

lemma disclose_keys: "map (\<lambda>r. (um_target r, um_kind r)) (disclose k t s rows) =
    map (\<lambda>r. (um_target r, um_kind r)) rows @
      (if (t, k) \<in> set (map (\<lambda>r. (um_target r, um_kind r)) rows) then [] else [(t, k)])"
  by (induction rows) auto

definition classify_step :: "(bytes \<Rightarrow> bytes) \<Rightarrow> session_policy \<Rightarrow> address \<times> string \<Rightarrow>
    unmetered_permission list \<Rightarrow> unmetered_permission list" where
  "classify_step keccak p ts rows = (case unmeteredKind keccak p (fst ts) (snd ts) of
     None \<Rightarrow> rows | Some kind \<Rightarrow> disclose kind (fst ts) (snd ts) rows)"

lemma classify_fold: "classifyUnmeteredPermissions keccak p =
    fold (classify_step keccak p) (action_selectors (sp_allowed_actions p)) []"
  by (simp add: classifyUnmeteredPermissions_def classify_step_def [abs_def] case_prod_unfold)

lemma classify_fold_disclosed: "disclosed (fold (classify_step keccak p) xs rows) =
    disclosed rows \<union> {(t, k, s) | t k s. (t, s) \<in> set xs \<and> unmeteredKind keccak p t s = Some k}"
proof (induction xs arbitrary: rows)
  case (Cons x xs)
  then show ?case by (cases x) (auto simp: classify_step_def disclosed_disclose split: option.splits)
qed simp

lemma classify_fold_distinct: "distinct (map (\<lambda>r. (um_target r, um_kind r)) rows) \<Longrightarrow>
    distinct (map (\<lambda>r. (um_target r, um_kind r)) (fold (classify_step keccak p) xs rows))"
proof (induction xs arbitrary: rows)
  case (Cons x xs)
  have "distinct (map (\<lambda>r. (um_target r, um_kind r)) (classify_step keccak p x rows))"
    using Cons.prems by (simp add: classify_step_def disclose_keys split: option.splits)
  with Cons.IH show ?case by simp
qed simp

lemma action_selectors_mem: "(t, s) \<in> set (action_selectors acts) \<longleftrightarrow>
    (\<exists>a \<in> set acts. aa_target a = Some t \<and> s \<in> set (aa_selectors a))"
  by (force simp: action_selectors_def split: option.splits)

definition demo_budget_policy :: session_policy where
  "demo_budget_policy = example_policy\<lparr>sp_erc20_spend_caps := [\<lparr>cap_token = Some 7, cap_amount = ''5'', cap_granted = []\<rparr>],
     sp_allowed_actions := [\<lparr>aa_target = Some 8, aa_selectors = [''0x12345678'']\<rparr>]\<rparr>"

definition silent_reader :: chain_reader where
  "silent_reader = \<lparr>readERC20SpendLimit = (\<lambda>_ _ _. Inl ''rpc''), readNativeSpendLimit = (\<lambda>_ _. Inl ''rpc''),
     entityRegistered = (\<lambda>_ _. Inr False), entityCleared = (\<lambda>_ _ _. Inr True)\<rparr>"

lemma parse_five_budget: "parseBudgetAmount ''5'' = Inr 5"
  by (simp add: parseBudgetAmount_def is_digit_def parse_bigint_def parse_decimal_def digit_val_def fits_uint256_def)

lemma demo_budget_read: "\<exists>b. ReadWalletBudget id silent_reader (\<lambda>_. False) 1 (Some demo_budget_policy) [example_policy] = Inr b"
  by (simp add: ReadWalletBudget_def demo_budget_policy_def example_policy_def EffectiveSizing_def policy_constants
      policyCaps_def read_token_row_def token_total_def originalCap_def remainder_of_def parse_five_budget
      budgetAmounts_def read_native_row_def Let_def)

section \<open>Properties\<close>

text \<open>
A budget that is read adds up: there is one row per capped token, in the order of the caps; in every
row, and in the native row, the used amount is the total less the remainder and never negative, the
total fits 256 bits and is shown as unlimited exactly from \<open>2 ^ 128 - 1\<close> on, and a pending grant
shows its whole total as remaining.
\<close>

lemma ReadWalletBudget_adds_up:
  assumes "ReadWalletBudget keccak R timed_out now (Some p) retired = Inr b"
  shows "map (\<lambda>r. Some (tr_token r)) (wbd_erc20 b) = map cap_token (policyCaps (Some p)) \<and>
    (\<forall>r \<in> set (wbd_erc20 b). row_adds_up p (tr_amount r) (tr_remaining r) (tr_used r) (tr_unlimited r)) \<and>
    (wbd_native b = None \<longleftrightarrow> sp_native_spend_cap p = None) \<and>
    (\<forall>r. wbd_native b = Some r \<longrightarrow> row_adds_up p (nr_amount r) (nr_remaining r) (nr_used r) (nr_unlimited r))"
proof -
  from assms obtain runner where rows: "read_token_rows R p runner (policyCaps (Some p)) = Inr (wbd_erc20 b)"
    and native: "read_native_row R p runner = Inr (wbd_native b)"
    by (auto simp: ReadWalletBudget_def split: option.splits if_splits)
  have "wbd_native b = None \<longleftrightarrow> sp_native_spend_cap p = None"
    using native by (cases "wbd_native b") (auto simp: read_native_row_def Let_def split: option.splits prod.splits)
  with read_token_rows_spec [OF rows] native read_native_row_spec show ?thesis by auto
qed

lemma ReadWalletBudget_adds_up_witness:
  "\<exists>b. ReadWalletBudget id silent_reader (\<lambda>_. False) 1 (Some demo_budget_policy) [example_policy] = Inr b \<and>
     map (\<lambda>r. Some (tr_token r)) (wbd_erc20 b) = [Some 7]"
proof -
  obtain b where b: "ReadWalletBudget id silent_reader (\<lambda>_. False) 1 (Some demo_budget_policy) [example_policy] = Inr b"
    using demo_budget_read by blast
  with ReadWalletBudget_adds_up [OF b] show ?thesis by (simp add: demo_budget_policy_def policyCaps_def)
qed

text \<open>
The disclosure of unmetered permissions is exact: a selector of an action is listed under a target
and kind exactly when the classification gives it that kind, each target and kind has one row, and a
selector on a target that is neither a capped token nor one of the catalogued contracts is always
listed.
\<close>

lemma unmetered_disclosure_exact:
  "((t, k, s) \<in> disclosed (classifyUnmeteredPermissions keccak p) \<longleftrightarrow>
      (\<exists>a \<in> set (sp_allowed_actions p). aa_target a = Some t \<and> s \<in> set (aa_selectors a)) \<and>
      unmeteredKind keccak p t s = Some k) \<and>
   distinct (map (\<lambda>r. (um_target r, um_kind r)) (classifyUnmeteredPermissions keccak p)) \<and>
   (Some t \<notin> set (map cap_token (policyCaps (Some p))) \<and>
    t \<notin> (\<lambda>table. contract_on table (sp_chain_id p)) ` {aavePool, swapRouter, wrappedNative, lidoStake} \<longrightarrow>
    unmeteredKind keccak p t s = Some UnmeteredOther)"
proof (intro conjI impI)
  show "(t, k, s) \<in> disclosed (classifyUnmeteredPermissions keccak p) \<longleftrightarrow>
      (\<exists>a \<in> set (sp_allowed_actions p). aa_target a = Some t \<and> s \<in> set (aa_selectors a)) \<and>
      unmeteredKind keccak p t s = Some k"
    by (auto simp: classify_fold classify_fold_disclosed action_selectors_mem)
  show "distinct (map (\<lambda>r. (um_target r, um_kind r)) (classifyUnmeteredPermissions keccak p))"
    by (simp add: classify_fold classify_fold_distinct)
next
  assume "Some t \<notin> set (map cap_token (policyCaps (Some p))) \<and>
    t \<notin> (\<lambda>table. contract_on table (sp_chain_id p)) ` {aavePool, swapRouter, wrappedNative, lidoStake}"
  then show "unmeteredKind keccak p t s = Some UnmeteredOther"
    by (auto simp: unmeteredKind_def Let_def list_ex_iff image_iff)
qed

lemma unmetered_disclosure_exact_witness:
  "(8, UnmeteredOther, ''0x12345678'') \<in> disclosed (classifyUnmeteredPermissions id demo_budget_policy)"
proof -
  have "Some 8 \<notin> set (map cap_token (policyCaps (Some demo_budget_policy)))"
    by (simp add: demo_budget_policy_def policyCaps_def)
  moreover have "8 \<notin> (\<lambda>table. contract_on table (sp_chain_id demo_budget_policy)) ` {aavePool, swapRouter, wrappedNative, lidoStake}"
    by (simp add: demo_budget_policy_def example_policy_def contract_on_def aavePool_def swapRouter_def
        wrappedNative_def lidoStake_def)
  ultimately show ?thesis
    using unmetered_disclosure_exact [of 8 UnmeteredOther "''0x12345678''" id demo_budget_policy]
    by (simp add: demo_budget_policy_def)
qed

text \<open>
A retired permission is left out of the report only when the chain proved it clean: the window was
still open, its runner and grant are known, its entity is not registered and its module storage is
cleared. Every failed read reports it as unverified.
\<close>

lemma retirement_omitted_only_if_clean:
  "retirement_row R expired p = None \<longleftrightarrow> \<not> expired \<and>
     (\<exists>runner g. sp_runner p = Some runner \<and> sp_grant p = Some g \<and>
        entityRegistered R runner (sp_entity_id p) = Inr False \<and>
        entityCleared R runner (sp_entity_id p) (install_call g) = Inr True)"
  by (auto simp: retirement_row_def inspectRetirement_def split: option.splits sum.splits if_splits)

end
