(* ===== verification/Permissions.thy ===== *)
theory Permissions
  imports Selectors
begin

text \<open>
  The declared permission set of a grant and its translation into hooks:
  \<open>core/taskengine/session_permissions.go\<close>, the native-recipient code check of
  \<open>session_grant_native.go\<close>, \<open>EIP7702DesignationDelegate\<close> of \<open>core/config/sma7702.go\<close> and the hook
  builders of \<open>core/chainio/aa/ma_v2_hooks.go\<close>. go-ethereum's ABI encoder is the parameter
  \<open>abi_env\<close>, the code lookup is the \<open>CodeAt\<close> function of the permission set, and \<open>now_ms\<close> is
  \<open>time.Now().UnixMilli()\<close>. A nil dereference is the error \<open>NilPointerPanic\<close>.
\<close>

section \<open>Data\<close>

definition MaxNativeRecipients :: nat where "MaxNativeRecipients = 20"

record session_permissions =
  budgetMode :: bool
  pm_allowed_actions :: "allowed_action list"
  pm_spend_cap :: "erc20_cap option"
  pm_spend_caps :: "erc20_cap list"
  pm_valid_until_ms :: int
  pm_native_recipients :: "address option list"
  pm_delegated_native_recipients :: "delegated_recipient list"
  pm_native_spend_cap :: "native_cap option"
  pm_allow_contract_recipient :: bool
  pm_session_signer :: "address option"
  pm_code_at :: "(address \<Rightarrow> string + bytes) option"

datatype erc20_error = ActionNoTarget nat | ActionNoSelectors nat | ActionError nat text_error
  | NeedsSpendCap | CapNoToken nat | CapError nat text_error | CapTwice address | CapNotTarget address
  | CapSelectorError address text_error | CannotCap address string | CapMismatch address string
  | CapRequiresActions

datatype recipient_error = NativeCapError text_error | RecipientsNeedCap | TooManyRecipients
  | RecipientZero nat | RecipientTwice address | RecipientIsBudgetToken | RecipientReserved address
  | RecipientIsSigner address | RecipientIsTarget
  | DelegatedZero nat | DelegatedZeroDelegate address | DelegatedTwice address | DelegatedNotListed address

datatype code_error = NoCodeReader address | CodeLookupFailed address string | RecipientNotEOA address
  | RecipientNotAcknowledged address address | RecipientDelegateChanged address address address

datatype hook_error = CodeAtUnset | EmptyAllowlist | FlaggedLimitMissing nat | LimitOutsideUint256 nat
  | ZeroLimit nat | NoExpiry | TimeRangeOverflow | TimeRangeOrder | NativeLimitInvalid | AbiError

datatype perm_error = TextErr text_error | Erc20Err erc20_error | RecipientErr recipient_error
  | CodeErr code_error | HookErr hook_error | NeedsActionsOrRecipients | ValidUntilPast | NilPointerPanic

definition liftE :: "('e \<Rightarrow> 'f) \<Rightarrow> 'e + 'a \<Rightarrow> 'f + 'a" where
  "liftE f m = (case m of Inl e \<Rightarrow> Inl (f e) | Inr x \<Rightarrow> Inr x)"

lemma liftE_Inr [simp]: "liftE f m = Inr x \<longleftrightarrow> m = Inr x"
  by (cases m) (auto simp: liftE_def)

section \<open>Spend caps\<close>

definition parseSpendCap :: "session_permissions \<Rightarrow> string \<Rightarrow> text_error + int" where
  "parseSpendCap p s = (if budgetMode p then parseBudgetAmount s else parseCapAmount s)"

definition spendAmountsEqual :: "string \<Rightarrow> string \<Rightarrow> bool" where
  "spendAmountsEqual a b = (case (parseCapAmount a, parseCapAmount b) of
     (Inr x, Inr y) \<Rightarrow> x = y | _ \<Rightarrow> False)"

definition resolvedSpendCaps :: "session_permissions \<Rightarrow> erc20_error + erc20_cap list" where
  "resolvedSpendCaps p =
     (if pm_spend_caps p \<noteq> []
      then (case pm_spend_cap p of
              Some c \<Rightarrow> (case cap_token c of
                  Some t \<Rightarrow> if list_ex (\<lambda>d. cap_token d = Some t \<and> spendAmountsEqual (cap_amount d) (cap_amount c))
                        (pm_spend_caps p)
                      then Inr (pm_spend_caps p) else Inl (CapMismatch t (cap_amount c))
                | None \<Rightarrow> Inr (pm_spend_caps p))
            | None \<Rightarrow> Inr (pm_spend_caps p))
      else case pm_spend_cap p of Some c \<Rightarrow> Inr [c] | None \<Rightarrow> Inr [])"

definition actionsHaveSpendSelector :: "allowed_action list \<Rightarrow> bool" where
  "actionsHaveSpendSelector actions = list_ex (\<lambda>a. list_ex (\<lambda>raw. case parseSelector raw of
       Inl _ \<Rightarrow> True | Inr sel \<Rightarrow> sel = erc20TransferSelector \<or> sel = erc20ApproveSelector)
     (aa_selectors a)) actions"

fun selectors_metered :: "address \<Rightarrow> string list \<Rightarrow> erc20_error + unit" where
  "selectors_metered token [] = Inr ()"
| "selectors_metered token (raw # rest) = (case parseSelector raw of
       Inl e \<Rightarrow> Inl (CapSelectorError token e)
     | Inr sel \<Rightarrow> if sel \<noteq> erc20TransferSelector \<and> sel \<noteq> erc20ApproveSelector
         then Inl (CannotCap token raw) else selectors_metered token rest)"

fun spendLimitSelectorsOK :: "address \<Rightarrow> allowed_action list \<Rightarrow> erc20_error + unit" where
  "spendLimitSelectorsOK token [] = Inr ()"
| "spendLimitSelectorsOK token (a # rest) =
     (if aa_target a \<noteq> Some token then spendLimitSelectorsOK token rest
      else bindE (selectors_metered token (aa_selectors a)) (\<lambda>_. spendLimitSelectorsOK token rest))"

section \<open>Code of native recipients\<close>

text \<open>\<open>common.BytesToAddress\<close> of 20 bytes is their big-endian value.\<close>

fun be_value :: "nat \<Rightarrow> bytes \<Rightarrow> nat" where
  "be_value acc [] = acc"
| "be_value acc (b # bs) = be_value (256 * acc + of_char b) bs"

definition EIP7702DesignationDelegate :: "bytes \<Rightarrow> address option" where
  "EIP7702DesignationDelegate code =
     (if length code \<noteq> 23 \<or> code ! 0 \<noteq> char_of (0xef :: nat) \<or> code ! 1 \<noteq> char_of (0x01 :: nat) \<or>
         code ! 2 \<noteq> char_of (0 :: nat) then None
      else Some (of_nat (be_value 0 (drop 3 code))))"

datatype native_verdict = NativeCodeOK | NativeCodePlainContract | NativeCodeDelegatedUnacked | NativeCodeDelegateChanged

definition classifyNativeRecipientCode :: "bytes \<Rightarrow> address option \<Rightarrow> native_verdict \<times> address" where
  "classifyNativeRecipientCode code ack =
     (if code = [] then (NativeCodeOK, zero_address)
      else case EIP7702DesignationDelegate code of
             None \<Rightarrow> (NativeCodePlainContract, zero_address)
           | Some delegate \<Rightarrow> (case ack of
                 None \<Rightarrow> (NativeCodeDelegatedUnacked, delegate)
               | Some a \<Rightarrow> if a = zero_address then (NativeCodeDelegatedUnacked, delegate)
                   else if a \<noteq> delegate then (NativeCodeDelegateChanged, delegate)
                   else (NativeCodeOK, delegate)))"

fun acknowledgedDelegate :: "delegated_recipient list \<Rightarrow> address \<Rightarrow> address option" where
  "acknowledgedDelegate [] recipient = None"
| "acknowledgedDelegate (ack # acks) recipient =
     (if dr_recipient ack \<noteq> Some recipient \<or> dr_delegate ack = None
      then acknowledgedDelegate acks recipient else dr_delegate ack)"

definition formatGrantTimeNativeCodeRefusal ::
  "address \<Rightarrow> address option \<Rightarrow> address \<Rightarrow> native_verdict \<Rightarrow> code_error option" where
  "formatGrantTimeNativeCodeRefusal recipient ack onChain verdict = (case verdict of
       NativeCodeOK \<Rightarrow> None
     | NativeCodeDelegatedUnacked \<Rightarrow> Some (RecipientNotAcknowledged recipient onChain)
     | NativeCodeDelegateChanged \<Rightarrow> Some (RecipientDelegateChanged recipient onChain
         (case ack of None \<Rightarrow> zero_address | Some a \<Rightarrow> a))
     | NativeCodePlainContract \<Rightarrow> Some (RecipientNotEOA recipient))"

section \<open>Validation\<close>

definition AllowlistModuleAddress :: address where
  "AllowlistModuleAddress = 0x00000000003e826473a313e600b5b9b791f5a59a"
definition TimeRangeModuleAddress :: address where
  "TimeRangeModuleAddress = 0x00000000000082B8e2012be914dFA4f62A0573eA"
definition NativeTokenLimitModuleAddress :: address where
  "NativeTokenLimitModuleAddress = 0x00000000000001e541f0D090868FBe24b59Fbe06"
definition SingleSignerValidationModuleAddress :: address where
  "SingleSignerValidationModuleAddress = 0x00000000000099DE0BF6fA90dEB851E2A2df7d83"
definition MAv2FactoryAddress :: address where
  "MAv2FactoryAddress = 0x00000000000017c61b5bEe81050EC8eFc9c6fecd"
definition EntryPointV07Address :: address where
  "EntryPointV07Address = 0x0000000071727De22E5E9d8BAf0edAc6f37da032"

definition reservedNativeRecipient :: "address \<Rightarrow> bool" where
  "reservedNativeRecipient a \<longleftrightarrow> a \<in> set [AllowlistModuleAddress, NativeTokenLimitModuleAddress,
     TimeRangeModuleAddress, SingleSignerValidationModuleAddress, MAv2FactoryAddress, EntryPointV07Address]"

fun check_selectors :: "nat \<Rightarrow> string list \<Rightarrow> erc20_error + unit" where
  "check_selectors i [] = Inr ()"
| "check_selectors i (s # rest) = (case parseSelector s of
     Inl e \<Rightarrow> Inl (ActionError i e) | Inr _ \<Rightarrow> check_selectors i rest)"

fun check_actions :: "nat \<Rightarrow> allowed_action list \<Rightarrow> erc20_error + unit" where
  "check_actions i [] = Inr ()"
| "check_actions i (a # rest) =
     (if no_address (aa_target a) then Inl (ActionNoTarget i)
      else if aa_selectors a = [] then Inl (ActionNoSelectors i)
      else bindE (check_selectors i (aa_selectors a)) (\<lambda>_. check_actions (Suc i) rest))"

text \<open>The loop over the caps; \<open>seen\<close> holds the tokens before \<open>i\<close>.\<close>

fun check_caps :: "session_permissions \<Rightarrow> nat \<Rightarrow> address list \<Rightarrow> erc20_cap list \<Rightarrow> erc20_error + unit" where
  "check_caps p i seen [] = Inr ()"
| "check_caps p i seen (c # rest) = (case cap_token c of
       None \<Rightarrow> Inl (CapNoToken i)
     | Some t \<Rightarrow>
         if t = zero_address then Inl (CapNoToken i)
         else (case parseSpendCap p (cap_amount c) of
             Inl e \<Rightarrow> Inl (CapError i e)
           | Inr _ \<Rightarrow>
               if t \<in> set seen then Inl (CapTwice t)
               else if \<not> actionHasTarget (pm_allowed_actions p) t \<and> \<not> budgetMode p then Inl (CapNotTarget t)
               else bindE (spendLimitSelectorsOK t (pm_allowed_actions p))
                 (\<lambda>_. check_caps p (Suc i) (t # seen) rest)))"

definition erc20_class :: "session_permissions \<Rightarrow> bool" where
  "erc20_class p \<longleftrightarrow> pm_allowed_actions p \<noteq> [] \<or> budgetMode p \<and> pm_spend_caps p \<noteq> []"

definition validate_erc20 :: "session_permissions \<Rightarrow> erc20_error + unit" where
  "validate_erc20 p =
     (if erc20_class p
      then bindE (check_actions 0 (pm_allowed_actions p)) (\<lambda>_.
        bindE (resolvedSpendCaps p) (\<lambda>caps.
          if caps = [] \<and> actionsHaveSpendSelector (pm_allowed_actions p) then Inl NeedsSpendCap
          else check_caps p 0 [] caps))
      else if pm_spend_cap p \<noteq> None \<or> pm_spend_caps p \<noteq> [] then Inl CapRequiresActions
      else Inr ())"

definition budget_token_clash :: "session_permissions \<Rightarrow> address \<Rightarrow> perm_error + unit" where
  "budget_token_clash p a =
     (if budgetMode p
      then bindE (liftE Erc20Err (resolvedSpendCaps p)) (\<lambda>caps.
        guardE (list_ex (\<lambda>c. cap_token c = Some a) caps) (RecipientErr RecipientIsBudgetToken))
      else Inr ())"

fun check_recipients :: "session_permissions \<Rightarrow> nat \<Rightarrow> address list \<Rightarrow> address option list \<Rightarrow> perm_error + unit" where
  "check_recipients p i seen [] = Inr ()"
| "check_recipients p i seen (r # rest) = (case r of
       None \<Rightarrow> Inl (RecipientErr (RecipientZero i))
     | Some a \<Rightarrow>
         if a = zero_address then Inl (RecipientErr (RecipientZero i))
         else if a \<in> set seen then Inl (RecipientErr (RecipientTwice a))
         else bindE (budget_token_clash p a) (\<lambda>_.
           if reservedNativeRecipient a then Inl (RecipientErr (RecipientReserved a))
           else if pm_session_signer p = Some a then Inl (RecipientErr (RecipientIsSigner a))
           else if actionHasTarget (pm_allowed_actions p) a then Inl (RecipientErr RecipientIsTarget)
           else check_recipients p (Suc i) (a # seen) rest))"

fun check_delegated :: "address option list \<Rightarrow> nat \<Rightarrow> address list \<Rightarrow> delegated_recipient list \<Rightarrow> recipient_error + unit" where
  "check_delegated listed i seen [] = Inr ()"
| "check_delegated listed i seen (ack # rest) = (case dr_recipient ack of
       None \<Rightarrow> Inl (DelegatedZero i)
     | Some r \<Rightarrow>
         if r = zero_address then Inl (DelegatedZero i)
         else if no_address (dr_delegate ack) then Inl (DelegatedZeroDelegate r)
         else if r \<in> set seen then Inl (DelegatedTwice r)
         else if Some r \<notin> set listed then Inl (DelegatedNotListed r)
         else check_delegated listed (Suc i) (r # seen) rest)"

definition validateDelegatedNativeRecipients :: "session_permissions \<Rightarrow> recipient_error + unit" where
  "validateDelegatedNativeRecipients p =
     check_delegated (pm_native_recipients p) 0 [] (pm_delegated_native_recipients p)"

fun check_recipient_code :: "session_permissions \<Rightarrow> address option list \<Rightarrow> code_error + unit" where
  "check_recipient_code p [] = Inr ()"
| "check_recipient_code p (None # rest) = check_recipient_code p rest"
| "check_recipient_code p (Some a # rest) = (case pm_code_at p of
       None \<Rightarrow> Inl (NoCodeReader a)
     | Some codeAt \<Rightarrow> (case codeAt a of
           Inl e \<Rightarrow> Inl (CodeLookupFailed a e)
         | Inr code \<Rightarrow>
             (let ack = acknowledgedDelegate (pm_delegated_native_recipients p) a;
                  (verdict, onChain) = classifyNativeRecipientCode code ack
              in case formatGrantTimeNativeCodeRefusal a ack onChain verdict of
                   Some e \<Rightarrow> Inl e
                 | None \<Rightarrow> check_recipient_code p rest)))"

definition validate_native :: "bool \<Rightarrow> session_permissions \<Rightarrow> perm_error + unit" where
  "validate_native withChain p =
     (if pm_native_recipients p \<noteq> []
      then if pm_native_spend_cap p = None then Inl (RecipientErr RecipientsNeedCap)
        else if length (pm_native_recipients p) > MaxNativeRecipients then Inl (RecipientErr TooManyRecipients)
        else bindE (check_recipients p 0 [] (pm_native_recipients p)) (\<lambda>_.
          bindE (liftE RecipientErr (validateDelegatedNativeRecipients p)) (\<lambda>_.
            if withChain \<and> \<not> pm_allow_contract_recipient p
            then liftE CodeErr (check_recipient_code p (pm_native_recipients p)) else Inr ()))
      else liftE RecipientErr (validateDelegatedNativeRecipients p))"

definition perm_validate :: "bool \<Rightarrow> int \<Rightarrow> session_permissions \<Rightarrow> perm_error + unit" where
  "perm_validate withChain now_ms p =
     (if \<not> erc20_class p \<and> pm_native_recipients p = [] \<and> \<not> budgetMode p then Inl NeedsActionsOrRecipients
      else bindE (liftE Erc20Err (validate_erc20 p)) (\<lambda>_.
        bindE (case pm_native_spend_cap p of None \<Rightarrow> Inr ()
               | Some c \<Rightarrow> bindE (liftE (\<lambda>e. RecipientErr (NativeCapError e)) (parseSpendCap p (nat_amount c))) (\<lambda>_. Inr ()))
          (\<lambda>_. bindE (validate_native withChain p) (\<lambda>_.
            guardE (pm_valid_until_ms p \<le> now_ms) ValidUntilPast))))"

section \<open>Allowlist rows\<close>

record allowlist_input =
  ai_target :: address
  has_selector_allowlist :: bool
  has_erc20_spend_limit :: bool
  erc20_spend_limit :: "int option"
  ai_selectors :: "bytes list"

definition limits_by_token :: "session_permissions \<Rightarrow> erc20_cap list \<Rightarrow> text_error + (address \<rightharpoonup> int)" where
  "limits_by_token p caps = foldE (\<lambda>c m. case cap_token c of None \<Rightarrow> Inr m
     | Some t \<Rightarrow> bindE (parseSpendCap p (cap_amount c)) (\<lambda>amount. Inr (m(t \<mapsto> amount)))) caps (\<lambda>_. None)"

fun parse_all :: "string list \<Rightarrow> text_error + bytes list" where
  "parse_all [] = Inr []"
| "parse_all (s # rest) = bindE (parseSelector s) (\<lambda>b. bindE (parse_all rest) (\<lambda>bs. Inr (b # bs)))"

definition action_row :: "(address \<rightharpoonup> int) \<Rightarrow> allowed_action \<Rightarrow> perm_error + allowlist_input" where
  "action_row limits a = bindE (liftE TextErr (parse_all (aa_selectors a))) (\<lambda>sels.
     case aa_target a of None \<Rightarrow> Inl NilPointerPanic
     | Some t \<Rightarrow> Inr \<lparr>ai_target = t, has_selector_allowlist = True,
         has_erc20_spend_limit = (limits t \<noteq> None), erc20_spend_limit = limits t, ai_selectors = sels\<rparr>)"

definition uncovered_cap_row :: "session_permissions \<Rightarrow> (address \<rightharpoonup> int) \<Rightarrow> erc20_cap \<Rightarrow> perm_error + allowlist_input list" where
  "uncovered_cap_row p limits c = (case cap_token c of None \<Rightarrow> Inl NilPointerPanic
     | Some t \<Rightarrow> Inr (if actionHasTarget (pm_allowed_actions p) t then []
         else [\<lparr>ai_target = t, has_selector_allowlist = True, has_erc20_spend_limit = True,
           erc20_spend_limit = limits t, ai_selectors = []\<rparr>]))"

fun mapE :: "('a \<Rightarrow> 'e + 'b) \<Rightarrow> 'a list \<Rightarrow> 'e + 'b list" where
  "mapE f [] = Inr []"
| "mapE f (x # xs) = bindE (f x) (\<lambda>y. bindE (mapE f xs) (\<lambda>ys. Inr (y # ys)))"

definition native_row :: "address \<Rightarrow> allowlist_input" where
  "native_row a = \<lparr>ai_target = a, has_selector_allowlist = False, has_erc20_spend_limit = False,
     erc20_spend_limit = None, ai_selectors = []\<rparr>"

definition allowlistInputs :: "session_permissions \<Rightarrow> perm_error + allowlist_input list" where
  "allowlistInputs p = bindE (liftE Erc20Err (resolvedSpendCaps p)) (\<lambda>caps.
     bindE (liftE TextErr (limits_by_token p caps)) (\<lambda>limits.
     bindE (mapE (action_row limits) (pm_allowed_actions p)) (\<lambda>rows.
     bindE (if budgetMode p then mapE (uncovered_cap_row p limits) caps else Inr []) (\<lambda>inert.
     Inr (rows @ concat inert @ map native_row (concat (map (case_option [] (\<lambda>a. [a])) (pm_native_recipients p))))))))"

section \<open>Hooks\<close>

text \<open>
  The ABI encoder: \<open>None\<close> is an error of \<open>abi.NewType\<close> or \<open>Pack\<close>. It gets the encoded tuple fields.
\<close>

record abi_env =
  packAllowlist :: "32 word \<Rightarrow> (address \<times> bool \<times> bool \<times> int \<times> bytes list) list \<Rightarrow> bytes option"
  packTimeRange :: "32 word \<Rightarrow> uint64 \<Rightarrow> uint64 \<Rightarrow> bytes option"
  packNativeLimit :: "32 word \<Rightarrow> int \<Rightarrow> bytes option"

definition HookFlagValidation :: nat where "HookFlagValidation = 1"
definition HookFlagExecHasPre :: nat where "HookFlagExecHasPre = 4"

definition PackValidationConfig :: "address \<Rightarrow> 32 word \<Rightarrow> nat \<Rightarrow> bytes" where
  "PackValidationConfig modl entityID flags =
     be_bytes 20 (unat modl) @ be_bytes 4 (unat entityID) @ [char_of flags]"

definition PackHookConfig :: "address \<Rightarrow> 32 word \<Rightarrow> nat \<Rightarrow> bytes" where
  "PackHookConfig modl entityID flags = PackValidationConfig modl entityID flags"

definition encode_input :: "bool \<Rightarrow> nat \<Rightarrow> allowlist_input \<Rightarrow> hook_error + (address \<times> bool \<times> bool \<times> int \<times> bytes list)" where
  "encode_input allowZero i row =
     bindE (case erc20_spend_limit row of
              None \<Rightarrow> if has_erc20_spend_limit row then Inl (FlaggedLimitMissing i) else Inr 0
            | Some l \<Rightarrow> Inr l) (\<lambda>limit.
       if limit < 0 \<or> \<not> fits_uint256 limit then Inl (LimitOutsideUint256 i)
       else if has_erc20_spend_limit row \<and> limit = 0 \<and> \<not> allowZero then Inl (ZeroLimit i)
       else Inr (ai_target row, has_selector_allowlist row, has_erc20_spend_limit row, limit, ai_selectors row))"

fun encode_inputs :: "bool \<Rightarrow> nat \<Rightarrow> allowlist_input list \<Rightarrow>
    hook_error + (address \<times> bool \<times> bool \<times> int \<times> bytes list) list" where
  "encode_inputs allowZero i [] = Inr []"
| "encode_inputs allowZero i (r # rs) = bindE (encode_input allowZero i r) (\<lambda>x.
     bindE (encode_inputs allowZero (Suc i) rs) (\<lambda>xs. Inr (x # xs)))"

definition of_pack :: "bytes option \<Rightarrow> hook_error + bytes" where
  "of_pack b = (case b of None \<Rightarrow> Inl AbiError | Some x \<Rightarrow> Inr x)"

definition packAllowlistInstallData :: "abi_env \<Rightarrow> 32 word \<Rightarrow> allowlist_input list \<Rightarrow> bool \<Rightarrow> hook_error + bytes" where
  "packAllowlistInstallData A entityID inputs allowZero =
     (if inputs = [] \<and> \<not> allowZero then Inl EmptyAllowlist
      else bindE (encode_inputs allowZero 0 inputs) (\<lambda>encoded. of_pack (packAllowlist A entityID encoded)))"

definition PackTimeRangeInstallData :: "abi_env \<Rightarrow> 32 word \<Rightarrow> uint64 \<Rightarrow> uint64 \<Rightarrow> hook_error + bytes" where
  "PackTimeRangeInstallData A entityID validUntil validAfter =
     (if validUntil = 0 then Inl NoExpiry
      else if validUntil > 2 ^ 48 - 1 \<or> validAfter > 2 ^ 48 - 1 then Inl TimeRangeOverflow
      else if validUntil \<le> validAfter then Inl TimeRangeOrder
      else of_pack (packTimeRange A entityID validUntil validAfter))"

definition packNativeTokenLimitInstallData :: "abi_env \<Rightarrow> 32 word \<Rightarrow> int \<Rightarrow> bool \<Rightarrow> hook_error + bytes" where
  "packNativeTokenLimitInstallData A entityID limit allowZero =
     (if limit < 0 \<or> \<not> fits_uint256 limit \<or> limit = 0 \<and> \<not> allowZero then Inl NativeLimitInvalid
      else of_pack (packNativeLimit A entityID limit))"

text \<open>\<open>AllowlistValidationHook\<close> and its budget variant differ in \<open>allowZero\<close>, as do the native hooks.\<close>

definition AllowlistValidationHook :: "abi_env \<Rightarrow> bool \<Rightarrow> 32 word \<Rightarrow> allowlist_input list \<Rightarrow> hook_error + bytes" where
  "AllowlistValidationHook A allowZero entityID inputs =
     bindE (packAllowlistInstallData A entityID inputs allowZero) (\<lambda>data.
       Inr (PackHookConfig AllowlistModuleAddress entityID HookFlagValidation @ data))"

definition AllowlistExecHook :: "32 word \<Rightarrow> bytes" where
  "AllowlistExecHook entityID = PackHookConfig AllowlistModuleAddress entityID HookFlagExecHasPre"

definition TimeRangeValidationHook :: "abi_env \<Rightarrow> 32 word \<Rightarrow> uint64 \<Rightarrow> uint64 \<Rightarrow> hook_error + bytes" where
  "TimeRangeValidationHook A entityID validUntil validAfter =
     bindE (PackTimeRangeInstallData A entityID validUntil validAfter) (\<lambda>data.
       Inr (PackHookConfig TimeRangeModuleAddress entityID HookFlagValidation @ data))"

definition NativeTokenLimitValidationHook :: "abi_env \<Rightarrow> bool \<Rightarrow> 32 word \<Rightarrow> int \<Rightarrow> hook_error + bytes" where
  "NativeTokenLimitValidationHook A allowZero entityID limit =
     bindE (packNativeTokenLimitInstallData A entityID limit allowZero) (\<lambda>data.
       Inr (PackHookConfig NativeTokenLimitModuleAddress entityID HookFlagValidation @ data))"

definition NativeTokenLimitExecHook :: "32 word \<Rightarrow> bytes" where
  "NativeTokenLimitExecHook entityID = PackHookConfig NativeTokenLimitModuleAddress entityID HookFlagExecHasPre"

text \<open>\<open>uint64(p.ValidUntilMs / 1000)\<close>: Go's division truncates, and validation has made it positive.\<close>

definition seconds_of_ms :: "int \<Rightarrow> uint64" where
  "seconds_of_ms ms = of_int (if 0 \<le> ms then ms div 1000 else - ((- ms) div 1000))"

definition HooksFor :: "abi_env \<Rightarrow> int \<Rightarrow> session_permissions \<Rightarrow> 32 word \<Rightarrow> perm_error + bytes list" where
  "HooksFor A now_ms p entityID = bindE (perm_validate False now_ms p) (\<lambda>_.
     if pm_native_recipients p \<noteq> [] \<and> \<not> pm_allow_contract_recipient p \<and> pm_code_at p = None
     then Inl (HookErr CodeAtUnset)
     else bindE (allowlistInputs p) (\<lambda>inputs.
       bindE (liftE HookErr (AllowlistValidationHook A (budgetMode p) entityID inputs)) (\<lambda>allowlistHook.
       bindE (liftE HookErr (TimeRangeValidationHook A entityID (seconds_of_ms (pm_valid_until_ms p)) 0)) (\<lambda>timeRangeHook.
       bindE (case pm_native_spend_cap p of None \<Rightarrow> Inr []
              | Some c \<Rightarrow> bindE (liftE TextErr (parseSpendCap p (nat_amount c))) (\<lambda>limit.
                  bindE (liftE HookErr (NativeTokenLimitValidationHook A (budgetMode p) entityID limit)) (\<lambda>ntVal.
                    Inr [ntVal, NativeTokenLimitExecHook entityID])))
         (\<lambda>native. Inr ([allowlistHook, AllowlistExecHook entityID] @ native @ [timeRangeHook]))))))"

section \<open>User operation wrapping\<close>

definition selectorExecuteUserOp :: bytes where
  "selectorExecuteUserOp = chars [0x8d, 0xd7, 0x71, 0x2f]"

definition WrapExecuteUserOp :: "bytes \<Rightarrow> nat + bytes" where
  "WrapExecuteUserOp execCallData = (if length execCallData < 4 then Inl (length execCallData)
     else Inr (selectorExecuteUserOp @ execCallData))"

definition UnwrapExecuteUserOp :: "bytes \<Rightarrow> bytes" where
  "UnwrapExecuteUserOp callData = (if length callData \<ge> 4 \<and> take 4 callData = selectorExecuteUserOp
     then drop 4 callData else callData)"

section \<open>What validation establishes\<close>

lemma check_selectors_ok: "check_selectors i ss = Inr () \<longleftrightarrow> (\<forall>s \<in> set ss. \<exists>b. parseSelector s = Inr b)"
  by (induction ss) (auto split: sum.splits)

lemma check_actions_ok: "check_actions i acts = Inr () \<longleftrightarrow>
    (\<forall>a \<in> set acts. \<not> no_address (aa_target a) \<and> aa_selectors a \<noteq> [] \<and>
       (\<forall>s \<in> set (aa_selectors a). \<exists>b. parseSelector s = Inr b))"
  by (induction acts arbitrary: i) (auto simp: check_selectors_ok)

lemma selectors_metered_ok: "selectors_metered t ss = Inr () \<longleftrightarrow>
    (\<forall>s \<in> set ss. \<exists>b \<in> {erc20TransferSelector, erc20ApproveSelector}. parseSelector s = Inr b)"
  by (induction ss) (auto split: sum.splits)

lemma spendLimitSelectorsOK_ok: "spendLimitSelectorsOK t acts = Inr () \<longleftrightarrow>
    (\<forall>a \<in> set acts. aa_target a = Some t \<longrightarrow>
      (\<forall>s \<in> set (aa_selectors a). \<exists>b \<in> {erc20TransferSelector, erc20ApproveSelector}. parseSelector s = Inr b))"
  by (induction acts) (auto simp: selectors_metered_ok)

definition cap_ok :: "session_permissions \<Rightarrow> erc20_cap \<Rightarrow> bool" where
  "cap_ok p c \<longleftrightarrow> (\<exists>t n. cap_token c = Some t \<and> t \<noteq> zero_address \<and> parseSpendCap p (cap_amount c) = Inr n \<and>
     (actionHasTarget (pm_allowed_actions p) t \<or> budgetMode p) \<and>
     spendLimitSelectorsOK t (pm_allowed_actions p) = Inr ())"

lemma check_caps_ok: "check_caps p i seen caps = Inr () \<longleftrightarrow>
    (\<forall>c \<in> set caps. cap_ok p c) \<and> distinct (map cap_token caps) \<and>
    (\<forall>t \<in> set seen. Some t \<notin> set (map cap_token caps))"
proof (induction caps arbitrary: i seen)
  case (Cons c caps)
  show ?case
    by (auto simp: Cons.IH cap_ok_def split: option.splits sum.splits if_splits)
qed simp

lemma check_recipients_ok: "check_recipients p i seen rs = Inr () \<Longrightarrow>
    (\<forall>r \<in> set rs. \<exists>a. r = Some a \<and> a \<noteq> zero_address \<and> a \<notin> set seen \<and> \<not> reservedNativeRecipient a \<and>
       pm_session_signer p \<noteq> Some a \<and> \<not> actionHasTarget (pm_allowed_actions p) a \<and>
       budget_token_clash p a = Inr ()) \<and> distinct rs"
proof (induction rs arbitrary: i seen)
  case (Cons r rs)
  from Cons.prems obtain a where a: "r = Some a" "a \<noteq> zero_address" "a \<notin> set seen"
    "budget_token_clash p a = Inr ()" "\<not> reservedNativeRecipient a" "pm_session_signer p \<noteq> Some a"
    "\<not> actionHasTarget (pm_allowed_actions p) a" "check_recipients p (Suc i) (a # seen) rs = Inr ()"
    by (auto split: option.splits if_splits)
  from Cons.IH [OF a(8)] a show ?case by fastforce
qed simp

lemma parseSpendCap_range: "parseSpendCap p s = Inr n \<Longrightarrow> 0 \<le> n \<and> n < 2 ^ 256 \<and> (budgetMode p \<or> 0 < n)"
  by (auto simp: parseSpendCap_def dest: parseCapAmount_range parseBudgetAmount_range split: if_splits)

text \<open>The facts of an accepted permission set that the translation uses.\<close>

lemma perm_validate_erc20:
  assumes "perm_validate wc now p = Inr ()" and "resolvedSpendCaps p = Inr caps"
  shows "\<forall>a \<in> set (pm_allowed_actions p). \<not> no_address (aa_target a) \<and> aa_selectors a \<noteq> [] \<and>
       (\<forall>s \<in> set (aa_selectors a). \<exists>b. parseSelector s = Inr b)"
    and "\<forall>c \<in> set caps. cap_ok p c" and "distinct (map cap_token caps)"
proof -
  from assms(1) have v: "validate_erc20 p = Inr ()"
    by (auto simp: perm_validate_def split: if_splits)
  have "(\<forall>a \<in> set (pm_allowed_actions p). \<not> no_address (aa_target a) \<and> aa_selectors a \<noteq> [] \<and>
       (\<forall>s \<in> set (aa_selectors a). \<exists>b. parseSelector s = Inr b)) \<and>
    (\<forall>c \<in> set caps. cap_ok p c) \<and> distinct (map cap_token caps)"
  proof (cases "erc20_class p")
    case True
    with v assms(2) show ?thesis
      by (auto simp: validate_erc20_def check_actions_ok check_caps_ok split: if_splits)
  next
    case False
    with v have "pm_spend_cap p = None" "pm_spend_caps p = []"
      by (auto simp: validate_erc20_def split: if_splits)
    with assms(2) False show ?thesis by (simp add: resolvedSpendCaps_def erc20_class_def)
  qed
  then show "\<forall>a \<in> set (pm_allowed_actions p). \<not> no_address (aa_target a) \<and> aa_selectors a \<noteq> [] \<and>
       (\<forall>s \<in> set (aa_selectors a). \<exists>b. parseSelector s = Inr b)"
    and "\<forall>c \<in> set caps. cap_ok p c" and "distinct (map cap_token caps)" by auto
qed

lemma perm_validate_recipients:
  assumes "perm_validate wc now p = Inr ()" and "r \<in> set (pm_native_recipients p)"
  shows "\<exists>a. r = Some a \<and> a \<noteq> zero_address \<and> \<not> reservedNativeRecipient a \<and> pm_session_signer p \<noteq> Some a \<and>
       \<not> actionHasTarget (pm_allowed_actions p) a \<and> budget_token_clash p a = Inr ()"
    and "length (pm_native_recipients p) \<le> MaxNativeRecipients" and "distinct (pm_native_recipients p)"
proof -
  from assms have "check_recipients p 0 [] (pm_native_recipients p) = Inr ()"
    and len: "length (pm_native_recipients p) \<le> MaxNativeRecipients"
    by (auto simp: perm_validate_def validate_native_def split: if_splits)
  from check_recipients_ok [OF this(1)] assms(2)
  show "\<exists>a. r = Some a \<and> a \<noteq> zero_address \<and> \<not> reservedNativeRecipient a \<and> pm_session_signer p \<noteq> Some a \<and>
       \<not> actionHasTarget (pm_allowed_actions p) a \<and> budget_token_clash p a = Inr ()"
    and "distinct (pm_native_recipients p)" by auto
  show "length (pm_native_recipients p) \<le> MaxNativeRecipients" by (rule len)
qed

lemma perm_validate_resolves:
  assumes "perm_validate wc now p = Inr ()"
  obtains caps where "resolvedSpendCaps p = Inr caps"
proof (cases "erc20_class p")
  case True
  with assms that show thesis by (auto simp: perm_validate_def validate_erc20_def split: if_splits)
next
  case False
  with assms that show thesis
    by (auto simp: perm_validate_def validate_erc20_def resolvedSpendCaps_def split: if_splits)
qed

section \<open>The rows of an accepted permission set\<close>

lemma mapE_Inr: "mapE f xs = Inr ys \<longleftrightarrow> list_all2 (\<lambda>x y. f x = Inr y) xs ys"
  by (induction xs arbitrary: ys) (auto simp: list_all2_Cons1)

lemma mapE_total: "(\<forall>x \<in> set xs. \<exists>y. f x = Inr y) \<Longrightarrow> \<exists>ys. mapE f xs = Inr ys"
  by (induction xs) auto

lemma mapE_mem: "mapE f xs = Inr ys \<Longrightarrow> y \<in> set ys \<Longrightarrow> \<exists>x \<in> set xs. f x = Inr y"
  by (induction xs arbitrary: ys) auto

lemma parse_all_total: "(\<forall>s \<in> set ss. \<exists>b. parseSelector s = Inr b) \<Longrightarrow> \<exists>bs. parse_all ss = Inr bs"
  by (induction ss) auto

lemma parse_all_set: "parse_all ss = Inr bs \<Longrightarrow> b \<in> set bs \<Longrightarrow> \<exists>s \<in> set ss. parseSelector s = Inr b"
  by (induction ss arbitrary: bs) auto

definition limit_step :: "session_permissions \<Rightarrow> erc20_cap \<Rightarrow> (address \<rightharpoonup> int) \<Rightarrow> text_error + (address \<rightharpoonup> int)" where
  "limit_step p c m = (case cap_token c of None \<Rightarrow> Inr m
     | Some t \<Rightarrow> bindE (parseSpendCap p (cap_amount c)) (\<lambda>amount. Inr (m(t \<mapsto> amount))))"

lemma limits_by_token_step: "limits_by_token p caps = foldE (limit_step p) caps (\<lambda>_. None)"
  by (simp add: limits_by_token_def limit_step_def [abs_def])

lemma fold_limits:
  assumes "\<forall>c \<in> set caps. cap_ok p c" and "distinct (map cap_token caps)"
  shows "\<exists>m'. foldE (limit_step p) caps m = Inr m' \<and>
    (\<forall>t. m' t = (if Some t \<in> set (map cap_token caps) then m' t else m t)) \<and>
    (\<forall>c \<in> set caps. \<forall>t. cap_token c = Some t \<longrightarrow> parseSpendCap p (cap_amount c) = Inr (the (m' t)) \<and> m' t \<noteq> None)"
  using assms
proof (induction caps arbitrary: m)
  case (Cons c caps)
  from Cons.prems obtain t n where t: "cap_token c = Some t" and n: "parseSpendCap p (cap_amount c) = Inr n"
    by (auto simp: cap_ok_def)
  from Cons.prems have prem: "\<forall>c \<in> set caps. cap_ok p c" "distinct (map cap_token caps)" by auto
  obtain m' where m': "foldE (limit_step p) caps (m(t \<mapsto> n)) = Inr m'"
    and frame: "\<forall>u. m' u = (if Some u \<in> set (map cap_token caps) then m' u else (m(t \<mapsto> n)) u)"
    and rest: "\<forall>c \<in> set caps. \<forall>u. cap_token c = Some u \<longrightarrow> parseSpendCap p (cap_amount c) = Inr (the (m' u)) \<and> m' u \<noteq> None"
    using Cons.IH [OF prem, of "m(t \<mapsto> n)"] by blast
  from Cons.prems t have "Some t \<notin> set (map cap_token caps)" by simp
  with frame have mt: "m' t = Some n" by (metis fun_upd_same)
  have "m' u = (if Some u \<in> set (map cap_token (c # caps)) then m' u else m u)" for u
    using frame [rule_format, of u] t by (cases "u = t") auto
  moreover have "foldE (limit_step p) (c # caps) m = Inr m'" using m' t n by (simp add: limit_step_def)
  ultimately show ?case using rest t n mt by (intro exI [of _ m']) auto
qed simp

lemma limits_of_accepted:
  assumes "perm_validate wc now p = Inr ()" and "resolvedSpendCaps p = Inr caps"
  obtains m where "limits_by_token p caps = Inr m"
    and "\<And>t. Some t \<notin> set (map cap_token caps) \<Longrightarrow> m t = None"
    and "\<And>c t. c \<in> set caps \<Longrightarrow> cap_token c = Some t \<Longrightarrow> \<exists>n. parseSpendCap p (cap_amount c) = Inr n \<and> m t = Some n"
proof -
  obtain m where m: "foldE (limit_step p) caps (\<lambda>_. None) = Inr m"
    and f: "\<forall>t. m t = (if Some t \<in> set (map cap_token caps) then m t else None)"
    and r: "\<forall>c \<in> set caps. \<forall>t. cap_token c = Some t \<longrightarrow> parseSpendCap p (cap_amount c) = Inr (the (m t)) \<and> m t \<noteq> None"
    using fold_limits [OF perm_validate_erc20(2,3) [OF assms], of "\<lambda>_. None"] by blast
  show thesis
  proof (rule that [of m])
    show "limits_by_token p caps = Inr m" using m by (simp add: limits_by_token_step)
    show "m t = None" if "Some t \<notin> set (map cap_token caps)" for t using f that by metis
    show "\<exists>n. parseSpendCap p (cap_amount c) = Inr n \<and> m t = Some n"
      if "c \<in> set caps" "cap_token c = Some t" for c t
      using r [rule_format, OF that] by auto
  qed
qed

lemma allowlistInputs_rows:
  assumes "perm_validate wc now p = Inr ()"
  obtains caps m rows inert where "resolvedSpendCaps p = Inr caps" and "limits_by_token p caps = Inr m"
    and "mapE (action_row m) (pm_allowed_actions p) = Inr rows"
    and "(if budgetMode p then mapE (uncovered_cap_row p m) caps else Inr []) = Inr inert"
    and "allowlistInputs p = Inr (rows @ concat inert @
      map native_row (concat (map (case_option [] (\<lambda>a. [a])) (pm_native_recipients p))))"
proof -
  obtain caps where caps: "resolvedSpendCaps p = Inr caps" by (rule perm_validate_resolves [OF assms])
  note ok = perm_validate_erc20 [OF assms caps]
  obtain m where m: "limits_by_token p caps = Inr m" by (rule limits_of_accepted [OF assms caps])
  have "\<exists>y. action_row m a = Inr y" if "a \<in> set (pm_allowed_actions p)" for a
  proof -
    from ok(1) that obtain bs t where "parse_all (aa_selectors a) = Inr bs" "aa_target a = Some t"
      using parse_all_total [of "aa_selectors a"] by (auto simp: no_address_def)
    then show ?thesis by (simp add: action_row_def)
  qed
  then obtain rows where rows: "mapE (action_row m) (pm_allowed_actions p) = Inr rows"
    using mapE_total [of "pm_allowed_actions p" "action_row m"] by blast
  have "\<exists>y. uncovered_cap_row p m c = Inr y" if "c \<in> set caps" for c
    using ok(2) that by (auto simp: cap_ok_def uncovered_cap_row_def)
  then obtain inert where inert: "(if budgetMode p then mapE (uncovered_cap_row p m) caps else Inr []) = Inr inert"
    using mapE_total [of caps "uncovered_cap_row p m"] by (cases "budgetMode p") auto
  show thesis
    by (rule that [OF caps m rows inert]) (use caps m rows inert in \<open>simp add: allowlistInputs_def\<close>)
qed

text \<open>Where a row comes from: an action, the inert row of an uncovered budget cap, or a recipient.\<close>

lemma row_cases:
  assumes "perm_validate wc now p = Inr ()" and "allowlistInputs p = Inr rows" and "row \<in> set rows"
    and "resolvedSpendCaps p = Inr caps" and "limits_by_token p caps = Inr m"
  obtains (action) a where "a \<in> set (pm_allowed_actions p)" and "action_row m a = Inr row"
  | (inert) c t where "budgetMode p" and "c \<in> set caps" and "cap_token c = Some t" and "ai_target row = t"
      and "has_selector_allowlist row" and "has_erc20_spend_limit row" and "erc20_spend_limit row = m t"
      and "ai_selectors row = []"
  | (native) a where "Some a \<in> set (pm_native_recipients p)" and "row = native_row a"
proof -
  obtain arows inert where a: "mapE (action_row m) (pm_allowed_actions p) = Inr arows"
    and i: "(if budgetMode p then mapE (uncovered_cap_row p m) caps else Inr []) = Inr inert"
    and r: "rows = arows @ concat inert @
      map native_row (concat (map (case_option [] (\<lambda>a. [a])) (pm_native_recipients p)))"
    by (rule allowlistInputs_rows [OF assms(1)]) (use assms in auto)
  from assms(3) r consider "row \<in> set arows" | "row \<in> set (concat inert)"
    | "row \<in> set (map native_row (concat (map (case_option [] (\<lambda>a. [a])) (pm_native_recipients p))))" by auto
  then show thesis
  proof cases
    case 1
    with mapE_mem [OF a] action show thesis by blast
  next
    case 2
    then obtain ys where ys: "ys \<in> set inert" "row \<in> set ys" by auto
    with i have b: "budgetMode p" "mapE (uncovered_cap_row p m) caps = Inr inert" by (auto split: if_splits)
    from mapE_mem [OF b(2) ys(1)] obtain c where "c \<in> set caps" "uncovered_cap_row p m c = Inr ys" by blast
    with ys(2) b(1) that(2) show thesis by (auto simp: uncovered_cap_row_def split: option.splits if_splits)
  next
    case 3
    with native show thesis by (auto split: option.splits)
  qed
qed

lemma cap_not_recipient:
  assumes "perm_validate wc now p = Inr ()" and "resolvedSpendCaps p = Inr caps" and "c \<in> set caps"
    and "cap_token c = Some t"
  shows "Some t \<notin> set (pm_native_recipients p)"
proof
  assume r: "Some t \<in> set (pm_native_recipients p)"
  from perm_validate_recipients(1) [OF assms(1) r]
  have n: "\<not> actionHasTarget (pm_allowed_actions p) t" "budget_token_clash p t = Inr ()" by auto
  from perm_validate_erc20(2) [OF assms(1,2)] assms(3,4) n(1) have "budgetMode p" by (auto simp: cap_ok_def)
  with n(2) assms(2-4) show False by (auto simp: budget_token_clash_def list_ex_iff)
qed

definition demo_perms :: session_permissions where
  "demo_perms = \<lparr>budgetMode = False,
     pm_allowed_actions = [\<lparr>aa_target = Some 7, aa_selectors = [''0xa9059cbb'']\<rparr>],
     pm_spend_cap = None, pm_spend_caps = [\<lparr>cap_token = Some 7, cap_amount = ''5'', cap_granted = []\<rparr>],
     pm_valid_until_ms = 2000, pm_native_recipients = [Some 9], pm_delegated_native_recipients = [],
     pm_native_spend_cap = Some \<lparr>nat_amount = ''5'', nat_granted = []\<rparr>, pm_allow_contract_recipient = False,
     pm_session_signer = None, pm_code_at = Some (\<lambda>_. Inr [])\<rparr>"

lemma parse_five: "parseCapAmount ''5'' = Inr 5"
  by (simp add: parseCapAmount_def is_digit_def parse_bigint_def parse_decimal_def digit_val_def maxUint256_def)

lemma demo_perms_valid: "perm_validate True 1000 demo_perms = Inr ()"
  by (simp add: perm_validate_def demo_perms_def erc20_class_def validate_erc20_def resolvedSpendCaps_def
      no_address_def zero_address_def transfer_parses parseSpendCap_def parse_five actionHasTarget_def liftE_def
      validate_native_def MaxNativeRecipients_def budget_token_clash_def reservedNativeRecipient_def
      AllowlistModuleAddress_def NativeTokenLimitModuleAddress_def TimeRangeModuleAddress_def
      SingleSignerValidationModuleAddress_def MAv2FactoryAddress_def EntryPointV07Address_def
      validateDelegatedNativeRecipients_def classifyNativeRecipientCode_def formatGrantTimeNativeCodeRefusal_def)

lemma metered_row:
  assumes "perm_validate wc now p = Inr ()" and "allowlistInputs p = Inr rows" and "row \<in> set rows"
    and "resolvedSpendCaps p = Inr caps" and "c \<in> set caps" and "cap_token c = Some (ai_target row)"
  shows "has_selector_allowlist row \<and> has_erc20_spend_limit row \<and>
    (\<exists>n. parseSpendCap p (cap_amount c) = Inr n \<and> erc20_spend_limit row = Some n) \<and>
    set (ai_selectors row) \<subseteq> {erc20TransferSelector, erc20ApproveSelector}"
proof -
  obtain m where m: "limits_by_token p caps = Inr m"
    and lim: "\<And>c t. c \<in> set caps \<Longrightarrow> cap_token c = Some t \<Longrightarrow> \<exists>n. parseSpendCap p (cap_amount c) = Inr n \<and> m t = Some n"
    by (rule limits_of_accepted [OF assms(1,4)]) blast
  from assms(1-4) m show ?thesis
  proof (cases rule: row_cases)
    case (action a)
    then obtain bs where t: "aa_target a = Some (ai_target row)" and bs: "parse_all (aa_selectors a) = Inr bs"
      and row: "has_selector_allowlist row" "erc20_spend_limit row = m (ai_target row)"
        "has_erc20_spend_limit row \<longleftrightarrow> m (ai_target row) \<noteq> None" "ai_selectors row = bs"
      by (auto simp: action_row_def split: option.splits)
    from perm_validate_erc20(2) [OF assms(1,4)] assms(5,6)
    have "spendLimitSelectorsOK (ai_target row) (pm_allowed_actions p) = Inr ()" by (auto simp: cap_ok_def)
    with action(1) t have "\<forall>s \<in> set (aa_selectors a).
        \<exists>b \<in> {erc20TransferSelector, erc20ApproveSelector}. parseSelector s = Inr b"
      by (simp add: spendLimitSelectorsOK_ok)
    then have "set bs \<subseteq> {erc20TransferSelector, erc20ApproveSelector}"
      using parse_all_set [OF bs] by fastforce
    with lim [OF assms(5,6)] row show ?thesis by auto
  next
    case (inert c' t)
    with lim [OF assms(5,6)] show ?thesis by auto
  next
    case (native a)
    with cap_not_recipient [OF assms(1,4,5,6)] show ?thesis by (simp add: native_row_def)
  qed
qed

section \<open>Properties\<close>

text \<open>
C24: A capped token is metered: when a permission set is accepted, every allowlist row built for a token
that has a spend cap is scoped to selectors, carries that cap as its spend limit, and lists no
selector other than \<open>transfer\<close> and \<open>approve\<close>, the two the module meters.
\<close>

theorem capped_tokens_are_metered:
  assumes "perm_validate wc now p = Inr ()" and "allowlistInputs p = Inr rows" and "row \<in> set rows"
    and "resolvedSpendCaps p = Inr caps" and "c \<in> set caps" and "cap_token c = Some (ai_target row)"
  shows "has_selector_allowlist row \<and> has_erc20_spend_limit row \<and>
    (\<exists>n. parseSpendCap p (cap_amount c) = Inr n \<and> erc20_spend_limit row = Some n) \<and>
    set (ai_selectors row) \<subseteq> {erc20TransferSelector, erc20ApproveSelector}"
  using assms by (rule metered_row)

theorem capped_tokens_are_metered_witness:
  "\<exists>rows row. allowlistInputs demo_perms = Inr rows \<and> row \<in> set rows \<and> ai_target row = 7 \<and>
     erc20_spend_limit row = Some 5"
proof -
  let ?row = "\<lparr>ai_target = 7, has_selector_allowlist = True, has_erc20_spend_limit = True,
     erc20_spend_limit = Some 5, ai_selectors = [erc20TransferSelector]\<rparr>"
  let ?c = "\<lparr>cap_token = Some 7, cap_amount = ''5'', cap_granted = []\<rparr>"
  have i: "allowlistInputs demo_perms = Inr [?row, native_row 9]"
    by (simp add: allowlistInputs_def demo_perms_def resolvedSpendCaps_def limits_by_token_def parseSpendCap_def
        parse_five action_row_def transfer_parses liftE_def)
  have r: "resolvedSpendCaps demo_perms = Inr [?c]" by (simp add: resolvedSpendCaps_def demo_perms_def)
  from capped_tokens_are_metered [OF demo_perms_valid i _ r, of ?row ?c] i show ?thesis
    by (intro exI [of _ "[?row, native_row 9]"] exI [of _ ?row]) (simp add: parseSpendCap_def demo_perms_def parse_five)
qed

text \<open>
The only rows that allow any function on a target are those of native recipients, and for an
accepted permission set such a target is not an allowed-action target, not a module, factory or entry
point, not the session signer and not zero; there are at most twenty.
\<close>

lemma unscoped_rows_are_recipients:
  assumes "perm_validate wc now p = Inr ()" and "allowlistInputs p = Inr rows" and "row \<in> set rows"
    and "\<not> has_selector_allowlist row"
  shows "Some (ai_target row) \<in> set (pm_native_recipients p) \<and> length (pm_native_recipients p) \<le> 20 \<and>
    ai_target row \<noteq> zero_address \<and> \<not> reservedNativeRecipient (ai_target row) \<and>
    pm_session_signer p \<noteq> Some (ai_target row) \<and> \<not> actionHasTarget (pm_allowed_actions p) (ai_target row)"
proof -
  obtain caps where caps: "resolvedSpendCaps p = Inr caps" by (rule perm_validate_resolves [OF assms(1)])
  obtain m where m: "limits_by_token p caps = Inr m" by (rule limits_of_accepted [OF assms(1) caps])
  from assms(1-3) caps m have r: "Some (ai_target row) \<in> set (pm_native_recipients p)"
  proof (cases rule: row_cases)
    case (action a)
    with assms(4) show ?thesis by (auto simp: action_row_def split: option.splits)
  next
    case (inert c t)
    with assms(4) show ?thesis by simp
  next
    case (native a)
    then show ?thesis by (simp add: native_row_def)
  qed
  from perm_validate_recipients [OF assms(1) r] r show ?thesis by (auto simp: MaxNativeRecipients_def)
qed

lemma unscoped_rows_are_recipients_witness:
  "\<exists>rows. allowlistInputs demo_perms = Inr rows \<and> native_row 9 \<in> set rows \<and> \<not> reservedNativeRecipient 9"
proof -
  obtain rows where i: "allowlistInputs demo_perms = Inr rows" and r: "native_row 9 \<in> set rows"
    by (simp add: allowlistInputs_def demo_perms_def resolvedSpendCaps_def limits_by_token_def parseSpendCap_def
        parse_five action_row_def transfer_parses liftE_def)
  from unscoped_rows_are_recipients [OF demo_perms_valid i r] i r show ?thesis by (simp add: native_row_def)
qed

lemma PackHookConfig_length [simp]: "length (PackHookConfig modl entityID flags) = 25"
  by (simp add: PackHookConfig_def PackValidationConfig_def)

lemma PackHookConfig_inject:
  assumes "flags < 256" and "flags' < 256"
  shows "PackHookConfig modl e flags = PackHookConfig modl' e' flags' \<longleftrightarrow> modl = modl' \<and> e = e' \<and> flags = flags'"
proof -
  have "unat modl < 256 ^ 20" "unat modl' < 256 ^ 20" "unat e < 256 ^ 4" "unat e' < 256 ^ 4"
    using unsigned_less [of modl] unsigned_less [of modl'] unsigned_less [of e] unsigned_less [of e'] by auto
  with assms show ?thesis
    by (auto simp: PackHookConfig_def PackValidationConfig_def be_bytes_inject word_unat_eq_iff char_of_byte)
qed

definition abi_total :: "abi_env \<Rightarrow> bool" where
  "abi_total A \<longleftrightarrow> (\<forall>e xs. packAllowlist A e xs \<noteq> None) \<and> (\<forall>e u v. packTimeRange A e u v \<noteq> None) \<and>
     (\<forall>e n. packNativeLimit A e n \<noteq> None)"

lemma encode_inputs_total:
  assumes "\<forall>r \<in> set rows. \<forall>i. \<exists>x. encode_input z i r = Inr x"
  shows "\<exists>xs. encode_inputs z i rows = Inr xs"
  using assms
proof (induction rows arbitrary: i)
  case (Cons r rows)
  then obtain x xs where "encode_input z i r = Inr x" "encode_inputs z (Suc i) rows = Inr xs" by fastforce
  then show ?case by simp
qed simp

lemma encode_input_ok:
  assumes "erc20_spend_limit row = None \<Longrightarrow> \<not> has_erc20_spend_limit row"
    and "\<And>l. erc20_spend_limit row = Some l \<Longrightarrow> 0 \<le> l \<and> l < 2 ^ 256 \<and> (z \<or> 0 < l)"
  shows "\<exists>x. encode_input z i row = Inr x"
proof (cases "erc20_spend_limit row")
  case None
  with assms(1) have "encode_input z i row =
      Inr (ai_target row, has_selector_allowlist row, has_erc20_spend_limit row, 0, ai_selectors row)"
    by (simp add: encode_input_def fits_uint256_def)
  then show ?thesis ..
next
  case (Some l)
  with assms(2) [OF Some] have "encode_input z i row =
      Inr (ai_target row, has_selector_allowlist row, has_erc20_spend_limit row, l, ai_selectors row)"
    by (auto simp: encode_input_def fits_uint256_def)
  then show ?thesis ..
qed

lemma accepted_rows_encode:
  assumes "perm_validate wc now p = Inr ()" and "allowlistInputs p = Inr rows" and "row \<in> set rows"
  shows "\<exists>x. encode_input (budgetMode p) i row = Inr x"
proof -
  obtain caps where caps: "resolvedSpendCaps p = Inr caps" by (rule perm_validate_resolves [OF assms(1)])
  obtain m where m: "limits_by_token p caps = Inr m" and none: "\<And>t. Some t \<notin> set (map cap_token caps) \<Longrightarrow> m t = None"
    and lim: "\<And>c t. c \<in> set caps \<Longrightarrow> cap_token c = Some t \<Longrightarrow> \<exists>n. parseSpendCap p (cap_amount c) = Inr n \<and> m t = Some n"
    by (rule limits_of_accepted [OF assms(1) caps]) blast
  have range: "0 \<le> n \<and> n < 2 ^ 256 \<and> (budgetMode p \<or> 0 < n)" if "m t = Some n" for t n
  proof -
    from that none [of t] obtain c where "c \<in> set caps" "cap_token c = Some t" by fastforce
    with lim that show ?thesis using parseSpendCap_range by fastforce
  qed
  from assms caps m show ?thesis
  proof (cases rule: row_cases)
    case (action a)
    then have "erc20_spend_limit row = m (ai_target row)" "has_erc20_spend_limit row \<longleftrightarrow> m (ai_target row) \<noteq> None"
      by (auto simp: action_row_def split: option.splits)
    then show ?thesis using range by (intro encode_input_ok) auto
  next
    case (inert c t)
    with lim [OF inert(2,3)] range show ?thesis by (intro encode_input_ok) auto
  next
    case (native a)
    then show ?thesis by (intro encode_input_ok) (simp_all add: native_row_def)
  qed
qed

lemma accepted_rows_nonempty:
  assumes "perm_validate wc now p = Inr ()" and "allowlistInputs p = Inr rows" and "\<not> budgetMode p"
  shows "rows \<noteq> []"
proof -
  obtain arows m where a: "mapE (action_row m) (pm_allowed_actions p) = Inr arows"
    and r: "rows = arows @ map native_row (concat (map (case_option [] (\<lambda>a. [a])) (pm_native_recipients p)))"
    by (rule allowlistInputs_rows [OF assms(1)]) (use assms in auto)
  from assms(1,3) have "pm_allowed_actions p \<noteq> [] \<or> pm_native_recipients p \<noteq> []"
    by (auto simp: perm_validate_def erc20_class_def split: if_splits)
  then show ?thesis
  proof
    assume "pm_allowed_actions p \<noteq> []"
    with a show ?thesis using r by (auto simp: mapE_Inr)
  next
    assume "pm_native_recipients p \<noteq> []"
    then obtain x xs where x: "pm_native_recipients p = x # xs" by (cases "pm_native_recipients p") auto
    with perm_validate_recipients(1) [OF assms(1), of x] obtain b where "x = Some b" by auto
    with x r show ?thesis by simp
  qed
qed

lemma seconds_range:
  assumes "1000 \<le> ms" and "ms div 1000 < 2 ^ 48"
  shows "seconds_of_ms ms \<noteq> 0" and "seconds_of_ms ms \<le> 2 ^ 48 - 1"
proof -
  from assms have d: "1 \<le> ms div 1000" by linarith
  have u: "uint (seconds_of_ms ms) = ms div 1000"
    using assms d by (simp add: seconds_of_ms_def uint_word_of_int_eq take_bit_int_eq_self)
  with d show "seconds_of_ms ms \<noteq> 0" by auto
  show "seconds_of_ms ms \<le> 2 ^ 48 - 1" using u assms(2) by (simp add: word_le_def)
qed

lemma validate_without_chain: "perm_validate True now p = Inr () \<Longrightarrow> perm_validate False now p = Inr ()"
  by (auto simp: perm_validate_def validate_native_def split: if_splits)

lemma validate_binds_code_reader:
  assumes "perm_validate True now p = Inr ()" and "pm_native_recipients p \<noteq> []" and "\<not> pm_allow_contract_recipient p"
  shows "pm_code_at p \<noteq> None"
proof -
  obtain r rs where r: "pm_native_recipients p = r # rs" using assms(2) by (cases "pm_native_recipients p") auto
  with perm_validate_recipients(1) [OF assms(1), of r] obtain a where "r = Some a" by auto
  with assms r show ?thesis
    by (auto simp: perm_validate_def validate_native_def split: if_splits option.splits)
qed

lemma allowlist_hook_accepted:
  assumes "perm_validate wc now p = Inr ()" and "abi_total A"
  obtains rows data where "allowlistInputs p = Inr rows"
    and "AllowlistValidationHook A (budgetMode p) e rows =
      Inr (PackHookConfig AllowlistModuleAddress e HookFlagValidation @ data)"
proof -
  obtain rows where rows: "allowlistInputs p = Inr rows" by (rule allowlistInputs_rows [OF assms(1)])
  obtain xs where xs: "encode_inputs (budgetMode p) 0 rows = Inr xs"
    using encode_inputs_total [of rows "budgetMode p" 0] accepted_rows_encode [OF assms(1) rows] by blast
  obtain data where "packAllowlist A e xs = Some data" using assms(2) unfolding abi_total_def by blast
  with xs accepted_rows_nonempty [OF assms(1) rows] rows show thesis
    by (intro that [of rows data]) (auto simp: AllowlistValidationHook_def packAllowlistInstallData_def of_pack_def)
qed

lemma time_hook_accepted:
  assumes "abi_total A" and "1000 \<le> ms" and "ms div 1000 < 2 ^ 48"
  obtains data where "TimeRangeValidationHook A e (seconds_of_ms ms) 0 =
    Inr (PackHookConfig TimeRangeModuleAddress e HookFlagValidation @ data)"
proof -
  note s = seconds_range [OF assms(2,3)]
  obtain data where "packTimeRange A e (seconds_of_ms ms) 0 = Some data" using assms(1) unfolding abi_total_def by blast
  with s show thesis
    by (intro that [of data]) (auto simp: TimeRangeValidationHook_def PackTimeRangeInstallData_def of_pack_def
        not_less word_neq_0_conv)
qed

lemma native_hook_accepted:
  assumes "parseSpendCap p s = Inr n" and "abi_total A"
  obtains data where "NativeTokenLimitValidationHook A (budgetMode p) e n =
    Inr (PackHookConfig NativeTokenLimitModuleAddress e HookFlagValidation @ data)"
proof -
  obtain data where "packNativeLimit A e n = Some data" using assms(2) unfolding abi_total_def by blast
  with parseSpendCap_range [OF assms(1)] show thesis
    by (intro that [of data]) (auto simp: NativeTokenLimitValidationHook_def packNativeTokenLimitInstallData_def
        of_pack_def fits_uint256_def)
qed

text \<open>
A permission set that \<open>Validate\<close> accepts always packs: none of the guards of the hook builders
refuses it, given a working ABI encoder and an expiry within the module's 48 bits. The result is the
allowlist validation hook and its execution hook, the two native-limit hooks when there is a native
cap, and the time-range hook last; every hook starts with the 25-byte configuration of the granted
entity.
\<close>

lemma accepted_permissions_pack:
  assumes "perm_validate True now p = Inr ()" and "abi_total A" and "999 \<le> now"
    and "pm_valid_until_ms p div 1000 < 2 ^ 48"
  shows "\<exists>hooks. HooksFor A now p e = Inr hooks \<and>
    map (take 25) hooks =
      [PackHookConfig AllowlistModuleAddress e HookFlagValidation, AllowlistExecHook e] @
      (if pm_native_spend_cap p = None then []
       else [PackHookConfig NativeTokenLimitModuleAddress e HookFlagValidation, NativeTokenLimitExecHook e]) @
      [PackHookConfig TimeRangeModuleAddress e HookFlagValidation]"
proof -
  note v = validate_without_chain [OF assms(1)]
  obtain rows d1 where rows: "allowlistInputs p = Inr rows"
    and h1: "AllowlistValidationHook A (budgetMode p) e rows =
      Inr (PackHookConfig AllowlistModuleAddress e HookFlagValidation @ d1)"
    by (rule allowlist_hook_accepted [OF v assms(2)])
  have "1000 \<le> pm_valid_until_ms p" using v assms(3) by (auto simp: perm_validate_def split: if_splits)
  then obtain d2 where h2: "TimeRangeValidationHook A e (seconds_of_ms (pm_valid_until_ms p)) 0 =
      Inr (PackHookConfig TimeRangeModuleAddress e HookFlagValidation @ d2)"
    by (rule time_hook_accepted [OF assms(2) _ assms(4)])
  have code: "\<not> (pm_native_recipients p \<noteq> [] \<and> \<not> pm_allow_contract_recipient p \<and> pm_code_at p = None)"
    using validate_binds_code_reader [OF assms(1)] by blast
  have head: "take 25 (PackHookConfig m e f @ d) = PackHookConfig m e f" for m f d by simp
  show ?thesis
  proof (cases "pm_native_spend_cap p")
    case None
    then show ?thesis using v code rows h1 h2
      by (auto simp: HooksFor_def liftE_def AllowlistExecHook_def)
  next
    case (Some c)
    with v obtain n where n: "parseSpendCap p (nat_amount c) = Inr n"
      by (auto simp: perm_validate_def split: if_splits)
    obtain d3 where "NativeTokenLimitValidationHook A (budgetMode p) e n =
        Inr (PackHookConfig NativeTokenLimitModuleAddress e HookFlagValidation @ d3)"
      by (rule native_hook_accepted [OF n assms(2)])
    with Some n show ?thesis using v code rows h1 h2
      by (auto simp: HooksFor_def liftE_def AllowlistExecHook_def NativeTokenLimitExecHook_def)
  qed
qed

lemma accepted_permissions_pack_witness:
  "\<exists>hooks. HooksFor \<lparr>packAllowlist = (\<lambda>_ _. Some []), packTimeRange = (\<lambda>_ _ _. Some []),
      packNativeLimit = (\<lambda>_ _. Some [])\<rparr> 1000 demo_perms 3 = Inr hooks \<and> length hooks = 5"
proof -
  let ?A = "\<lparr>packAllowlist = (\<lambda>_ _. Some []), packTimeRange = (\<lambda>_ _ _. Some []), packNativeLimit = (\<lambda>_ _. Some [])\<rparr>"
  have "abi_total ?A" by (simp add: abi_total_def)
  moreover have "pm_valid_until_ms demo_perms div 1000 < 2 ^ 48" "pm_native_spend_cap demo_perms \<noteq> None"
    by (simp_all add: demo_perms_def)
  ultimately obtain hooks where h: "HooksFor ?A 1000 demo_perms 3 = Inr hooks"
    and m: "length (map (take 25) hooks) = 5"
    using accepted_permissions_pack [OF demo_perms_valid, of ?A 3] by (auto simp: numeral_eq_Suc)
  then show ?thesis by auto
qed

text \<open>
A hook configuration is 25 bytes and determines its module, entity and flags; and unwrapping a
wrapped user operation gives back the execution calldata.
\<close>

lemma hook_config_and_wrap_roundtrip:
  assumes "flags < 256" and "flags' < 256"
  shows "length (PackHookConfig modl e flags) = 25 \<and>
    (PackHookConfig modl e flags = PackHookConfig modl' e' flags' \<longleftrightarrow> modl = modl' \<and> e = e' \<and> flags = flags') \<and>
    (WrapExecuteUserOp c = Inr w \<longrightarrow> UnwrapExecuteUserOp w = c)"
proof -
  have "length selectorExecuteUserOp = 4" by (simp add: selectorExecuteUserOp_def chars_def)
  then show ?thesis using PackHookConfig_inject [OF assms]
    by (auto simp: WrapExecuteUserOp_def UnwrapExecuteUserOp_def split: if_splits)
qed

lemma hook_config_and_wrap_roundtrip_witness:
  "PackHookConfig 1 2 1 \<noteq> PackHookConfig 1 2 4 \<and>
   UnwrapExecuteUserOp (selectorExecuteUserOp @ ''abcd'') = ''abcd''"
  using hook_config_and_wrap_roundtrip [of 1 4 1 2 1 2 "''abcd''" "selectorExecuteUserOp @ ''abcd''"]
  by (simp add: WrapExecuteUserOp_def)

end
