(* ===== verification/BudgetMerge.thy ===== *)
theory BudgetMerge
  imports Budget Permissions "HOL-Library.AList" "HOL-Library.Multiset"
begin

text \<open>
  Composing a wallet budget, \<open>core/taskengine/budget_merge.go\<close>, with the helpers it calls in
  \<open>session_skill.go\<close> and \<open>session_skill_carry.go\<close>. \<open>MergeBudgetPolicy\<close> is a pure function from the
  trusted remainder, the owner's input and an automation's addition to an unsigned draft. Go maps are
  association lists with distinct keys; where the code ranges over a map and the order can matter, the
  order the runtime picks is the parameter \<open>ord\<close>. The needs derived from the enabled workflows by
  \<open>DeriveWorkflowNeeds\<close> are an argument, one entry per task.
\<close>

section \<open>Data\<close>

record grant_remainder =
  gr_erc20 :: "(address \<times> int) list"
  gr_native :: "int option"

text \<open>The remainder snapshot as read: a missing or nil entry is \<open>None\<close>.\<close>

record remainder_read =
  rr_erc20 :: "address \<rightharpoonup> int"
  rr_native :: "int option"

record policy_addition =
  pa_allowed_actions :: "allowed_action list"
  pa_spend_caps :: "erc20_cap list"
  pa_native_recipients :: "address option list"
  pa_delegated_native_recipients :: "delegated_recipient list"
  pa_native_spend_cap :: "native_cap option"
  pa_allow_contract_recipient :: bool
  pa_native_gas_wei :: string
  pa_valid_until_ms :: int

record workflow_need =
  wn_has_fund_move :: bool
  wn_unresolved :: bool
  wn_actions :: "allowed_action list"
  wn_native_recipients :: "address option list"

record task_need =
  tn_task_id :: string
  tn_expired_at :: int
  tn_need :: "workflow_need option"

record budget_merge_input =
  bm_current :: "session_policy option"
  bm_remainder :: "remainder_read option"
  bm_budget :: "wallet_budget_input option"
  bm_addition :: "policy_addition option"
  bm_tasks :: "task_need list"
  bm_chain_id :: int
  bm_now :: int
  bm_gas_headroom :: "int option"

record cap_change =
  cc_token :: address
  cc_amount :: string
  cc_previous :: string
  cc_removed :: bool

record policy_changes =
  ch_base_policy_id :: string
  ch_kept :: "allowed_action list"
  ch_added :: "allowed_action list"
  ch_removed :: "allowed_action list"
  ch_cap_changes :: "cap_change list"

record budget_draft =
  bd_permissions :: session_permissions
  bd_start_amounts :: "erc20_cap list"
  bd_start_native :: "native_cap option"
  bd_started_at :: int
  bd_starts_new_totals :: bool
  bd_changes :: policy_changes

section \<open>One amount\<close>

text \<open>\<open>mergeBudgetAmount\<close>; the result is the recorded total and the limit to install.\<close>

definition merge_stage ::
  "int \<Rightarrow> int \<Rightarrow> int option \<Rightarrow> int option \<Rightarrow> bool \<Rightarrow> bool \<Rightarrow> budget_error + int \<times> int" where
  "merge_stage tot left requested addition alreadyBudget reset =
     (if reset
      then (let amount = (case requested of Some r \<Rightarrow> r | None \<Rightarrow> (case addition of Some a \<Rightarrow> a | None \<Rightarrow> left))
            in Inr (amount, amount))
      else case requested of
        Some r \<Rightarrow>
          if alreadyBudget
          then if r < tot then Inl (BudgetNarrowing ''lowering a total'') else Inr (r, left + (r - tot))
          else if r < left \<or> tot \<ge> unlimited_threshold \<and> r < unlimited_threshold
            then Inl (BudgetNarrowing ''migration'') else Inr (r, r)
      | None \<Rightarrow> (case addition of
            Some a \<Rightarrow> Inr (tot + a, left + a)
          | None \<Rightarrow> Inr (tot, left)))"

definition mergeBudgetAmount :: "int option \<Rightarrow> int option \<Rightarrow> int option \<Rightarrow> int option \<Rightarrow> bool \<Rightarrow> bool \<Rightarrow>
    budget_error + int \<times> int" where
  "mergeBudgetAmount total0 left0 requested addition alreadyBudget reset =
     (let left = (case left0 of None \<Rightarrow> 0 | Some l \<Rightarrow> l); tot = (case total0 of None \<Rightarrow> 0 | Some t \<Rightarrow> t) in
      bindE (merge_stage tot left requested addition alreadyBudget reset) (\<lambda>(amount0, installed0).
        let (amount, installed) =
          (if \<not> alreadyBudget \<and> \<not> reset
           then (let i = (if tot \<ge> unlimited_threshold \<and> installed0 < tot then tot else installed0) in (i, i))
           else (amount0, installed0))
        in if \<not> fits_uint256 amount \<or> \<not> fits_uint256 installed
           then Inl (BudgetInput ''exceeds uint256'') else Inr (amount, installed)))"

section \<open>Remainder and totals of the current permission\<close>

definition valid_amount :: "int option \<Rightarrow> bool" where
  "valid_amount v = (case v of None \<Rightarrow> False | Some n \<Rightarrow> 0 \<le> n \<and> fits_uint256 n)"

definition parsed :: "string \<Rightarrow> int option" where
  "parsed s = (case parseBudgetAmount s of Inl _ \<Rightarrow> None | Inr n \<Rightarrow> Some n)"

fun remainder_tokens :: "remainder_read option \<Rightarrow> erc20_cap list \<Rightarrow> (address \<times> int) list \<Rightarrow>
    budget_error + (address \<times> int) list" where
  "remainder_tokens read [] out = Inr out"
| "remainder_tokens read (c # cs) out = (case cap_token c of
       None \<Rightarrow> Inl (BudgetUnavailable ''invalid or repeated token'')
     | Some t \<Rightarrow>
         if t = zero_address \<or> map_of out t \<noteq> None then Inl (BudgetUnavailable ''invalid or repeated token'')
         else (let v = (case read of Some r \<Rightarrow> rr_erc20 r t | None \<Rightarrow> parsed (cap_amount c)) in
           if \<not> valid_amount v then Inl (BudgetUnavailable ''token remainder'')
           else remainder_tokens read cs (AList.update t (the v) out)))"

definition budgetMergeRemainder :: "session_policy option \<Rightarrow> remainder_read option \<Rightarrow> budget_error + grant_remainder" where
  "budgetMergeRemainder current read = (case current of
       None \<Rightarrow> Inr \<lparr>gr_erc20 = [], gr_native = None\<rparr>
     | Some cur \<Rightarrow>
         if Applied (sp_grant cur) \<and> read = None then Inl (BudgetUnavailable ''fresh remainder'')
         else bindE (remainder_tokens read (policyCaps current) []) (\<lambda>erc20.
           case sp_native_spend_cap cur of
             None \<Rightarrow> Inr \<lparr>gr_erc20 = erc20, gr_native = None\<rparr>
           | Some c \<Rightarrow>
               (let v = (case read of Some r \<Rightarrow> rr_native r | None \<Rightarrow> parsed (nat_amount c)) in
                if \<not> valid_amount v then Inl (BudgetUnavailable ''native remainder'')
                else Inr \<lparr>gr_erc20 = erc20, gr_native = v\<rparr>)))"

definition workflow_total :: "erc20_cap \<Rightarrow> (address \<times> int) list \<Rightarrow> budget_error + (address \<times> int) list" where
  "workflow_total c totals = (case cap_token c of None \<Rightarrow> Inr totals
     | Some t \<Rightarrow> (case parseBudgetAmount (originalCap (cap_amount c) (cap_granted c)) of
           Inl _ \<Rightarrow> Inl (BudgetUnavailable ''stored token amount'')
         | Inr original \<Rightarrow> Inr (if original \<ge> unlimited_threshold then AList.update t original totals else totals)))"

definition workflow_totals :: "session_policy option \<Rightarrow> grant_remainder \<Rightarrow>
    budget_error + (address \<times> int) list \<times> int option" where
  "workflow_totals current rem =
     bindE (foldE workflow_total (policyCaps current) (gr_erc20 rem)) (\<lambda>totals.
       case current of None \<Rightarrow> Inr (totals, gr_native rem)
       | Some cur \<Rightarrow> (case sp_native_spend_cap cur of None \<Rightarrow> Inr (totals, gr_native rem)
           | Some c \<Rightarrow> (case parseBudgetAmount (originalCap (nat_amount c) (nat_granted c)) of
                 Inl _ \<Rightarrow> Inl (BudgetUnavailable ''stored native amount'')
               | Inr original \<Rightarrow> Inr (totals, if original \<ge> unlimited_threshold then Some original else gr_native rem))))"

fun start_totals :: "erc20_cap list \<Rightarrow> (address \<times> int) list \<Rightarrow> budget_error + (address \<times> int) list" where
  "start_totals [] totals = Inr totals"
| "start_totals (c # cs) totals = (case cap_token c of
       None \<Rightarrow> Inl (BudgetUnavailable ''start tokens'')
     | Some t \<Rightarrow> if map_of totals t \<noteq> None then Inl (BudgetUnavailable ''start tokens'')
         else (case parseBudgetAmount (cap_amount c) of
             Inl _ \<Rightarrow> Inl (BudgetUnavailable ''start amount'')
           | Inr n \<Rightarrow> start_totals cs (AList.update t n totals)))"

definition start_native :: "session_policy \<Rightarrow> grant_remainder \<Rightarrow> budget_error + int option" where
  "start_native cur rem = (case (gr_native rem, budget_start_native cur) of
       (None, Some _) \<Rightarrow> Inl (BudgetUnavailable ''native start without cap'')
     | (None, None) \<Rightarrow> Inr None
     | (Some _, None) \<Rightarrow> Inl (BudgetUnavailable ''no native start'')
     | (Some left, Some s) \<Rightarrow> (case parseBudgetAmount (nat_amount s) of
           Inl _ \<Rightarrow> Inl (BudgetUnavailable ''native start amount'')
         | Inr n \<Rightarrow> if n < left then Inl (BudgetUnavailable ''native remainder exceeds'') else Inr (Some n)))"

definition budgetMergeTotals :: "session_policy option \<Rightarrow> grant_remainder \<Rightarrow>
    budget_error + (address \<times> int) list \<times> int option" where
  "budgetMergeTotals current rem =
     (if \<not> isWalletBudget current then workflow_totals current rem
      else case current of None \<Rightarrow> workflow_totals current rem
      | Some cur \<Rightarrow>
          if budget_started_at cur \<le> 0 then Inl (BudgetUnavailable ''no start time'')
          else bindE (start_totals (budget_start_amounts cur) []) (\<lambda>totals.
            if length totals \<noteq> length (gr_erc20 rem) then Inl (BudgetUnavailable ''starts do not match'')
            else if list_ex (\<lambda>(t, left). case map_of totals t of None \<Rightarrow> True | Some n \<Rightarrow> n < left) (gr_erc20 rem)
            then Inl (BudgetUnavailable ''token remainder exceeds'')
            else bindE (start_native cur rem) (\<lambda>native. Inr (totals, native))))"

section \<open>Actions, recipients and caps\<close>

definition actions_from_pairs :: "(address \<times> string) list \<Rightarrow> allowed_action list" where
  "actions_from_pairs ps = map (\<lambda>t. \<lparr>aa_target = Some t, aa_selectors = sort (remdups (map snd (filter (\<lambda>p. fst p = t) ps)))\<rparr>)
     (sort_key lower_hex (remdups (map fst ps)))"

fun action_pairs :: "string \<Rightarrow> allowed_action list \<Rightarrow> budget_error + (address \<times> string) list" where
  "action_pairs what [] = Inr []"
| "action_pairs what (a # as) = (case aa_target a of
       None \<Rightarrow> Inl (BudgetInput what)
     | Some t \<Rightarrow>
         if t = zero_address \<or> aa_selectors a = [] then Inl (BudgetInput what)
         else if list_ex (\<lambda>s. case parseSelector s of Inl _ \<Rightarrow> True | Inr _ \<Rightarrow> False) (aa_selectors a)
         then Inl (BudgetInput ''selector'')
         else bindE (action_pairs what as) (\<lambda>ps. Inr (map (\<lambda>s. (t, normalizeSelector s)) (aa_selectors a) @ ps)))"

definition budgetActionUnion :: "allowed_action list list \<Rightarrow> allowed_action list \<Rightarrow> budget_error + allowed_action list" where
  "budgetActionUnion groups remove =
     bindE (action_pairs ''action'' (concat groups)) (\<lambda>rows.
     bindE (action_pairs ''removeActions'' remove) (\<lambda>gone.
       Inr (actions_from_pairs (filter (\<lambda>p. p \<notin> set gone) rows))))"

definition budgetHasUnmeteredSpend :: "session_policy option \<Rightarrow> address \<Rightarrow> bool" where
  "budgetHasUnmeteredSpend current token = (case current of None \<Rightarrow> False
     | Some cur \<Rightarrow>
         if list_ex (\<lambda>c. cap_token c = Some token) (policyCaps current) then False
         else list_ex (\<lambda>a. aa_target a = Some token \<and>
           list_ex (\<lambda>s. normalizeSelector s = selectorTransfer \<or> normalizeSelector s = selectorApprove) (aa_selectors a))
           (sp_allowed_actions cur))"

text \<open>
  \<open>sortSpendCaps\<close> moves each cap left while the cap before it has a later token; the sorted part is kept
  reversed here. A cap without a token stops the move.
\<close>

fun move_left :: "erc20_cap \<Rightarrow> erc20_cap list \<Rightarrow> erc20_cap list" where
  "move_left c [] = [c]"
| "move_left c (d # ds) = (case (cap_token d, cap_token c) of
     (Some l, Some r) \<Rightarrow> if lower_hex l \<le> lower_hex r then c # d # ds else d # move_left c ds
   | _ \<Rightarrow> c # d # ds)"

definition sortSpendCaps :: "erc20_cap list \<Rightarrow> erc20_cap list" where
  "sortSpendCaps caps = rev (fold move_left caps [])"

definition put_ack :: "address option list \<Rightarrow> bool \<Rightarrow> delegated_recipient \<Rightarrow>
    (address \<times> delegated_recipient) list \<Rightarrow> (address \<times> delegated_recipient) list" where
  "put_ack recipients fromAddition ack0 out =
     (let ack = (if dr_recipient ack0 = None then ack0\<lparr>dr_recipient := Some zero_address\<rparr> else ack0);
          key = (case dr_recipient ack of None \<Rightarrow> zero_address | Some a \<Rightarrow> a);
          onGrant = (key \<noteq> zero_address \<and> Some key \<in> set recipients) in
      if \<not> onGrant \<and> \<not> fromAddition then out
      else if map_of out key = None then out @ [(key, ack)]
      else if fromAddition then AList.update key ack out else out)"

definition carriedDelegatedRecipients :: "delegated_recipient list \<Rightarrow> delegated_recipient list \<Rightarrow>
    address option list \<Rightarrow> delegated_recipient list" where
  "carriedDelegatedRecipients current addition recipients =
     map snd (fold (put_ack recipients True) addition (fold (put_ack recipients False) current []))"

section \<open>The diff shown for approval\<close>

text \<open>
  \<open>diffGrant\<close> as the merge calls it: with a remainder and no task needs, so the expiry rows stay
  empty. \<open>Summary\<close> is display text built from these fields and is left out. A token without a
  previous cap has the empty string as its previous amount.
\<close>

definition action_set :: "allowed_action list \<Rightarrow> (address \<times> string) list" where
  "action_set actions = concat (map (\<lambda>a. case aa_target a of None \<Rightarrow> []
     | Some t \<Rightarrow> map (\<lambda>s. (t, normalizeSelector s)) (aa_selectors a)) actions)"

definition prev_caps :: "session_policy option \<Rightarrow> grant_remainder \<Rightarrow> (address \<times> string) list" where
  "prev_caps current rem = (case current of None \<Rightarrow> [] | Some _ \<Rightarrow> map (\<lambda>(t, n). (t, sdecimal n)) (gr_erc20 rem))"

definition cap_changes :: "(address \<times> string) list \<Rightarrow> erc20_cap list \<Rightarrow> cap_change list" where
  "cap_changes prev caps =
     (let step = (\<lambda>c (prevCaps, out). case cap_token c of None \<Rightarrow> (prevCaps, out)
        | Some t \<Rightarrow>
            (let prevAmt = (case map_of prevCaps t of None \<Rightarrow> [] | Some a \<Rightarrow> a) in
             (AList.delete t prevCaps,
              if prevAmt = cap_amount c then out
              else out @ [\<lparr>cc_token = t, cc_amount = cap_amount c, cc_previous = prevAmt, cc_removed = False\<rparr>])));
          (rest, out) = fold step caps (prev, [])
      in sort_key (\<lambda>c. lower_hex (cc_token c))
           (out @ map (\<lambda>(t, a). \<lparr>cc_token = t, cc_amount = ''0'', cc_previous = a, cc_removed = True\<rparr>) rest))"

definition diffGrant :: "session_policy option \<Rightarrow> grant_remainder \<Rightarrow> session_permissions \<Rightarrow> policy_changes" where
  "diffGrant current rem perms =
     (let prev = action_set (case current of None \<Rightarrow> [] | Some cur \<Rightarrow> sp_allowed_actions cur);
          new = action_set (pm_allowed_actions perms)
      in \<lparr>ch_base_policy_id = (case current of None \<Rightarrow> [] | Some cur \<Rightarrow> sp_id cur),
          ch_kept = actions_from_pairs (filter (\<lambda>p. p \<in> set new) prev),
          ch_added = actions_from_pairs (filter (\<lambda>p. p \<notin> set prev) new),
          ch_removed = actions_from_pairs (filter (\<lambda>p. p \<notin> set new) prev),
          ch_cap_changes = cap_changes (prev_caps current rem) (pm_spend_caps perms)\<rparr>)"

section \<open>MergeBudgetPolicy\<close>

definition no_addition :: policy_addition where
  "no_addition = \<lparr>pa_allowed_actions = [], pa_spend_caps = [], pa_native_recipients = [],
     pa_delegated_native_recipients = [], pa_native_spend_cap = None, pa_allow_contract_recipient = False,
     pa_native_gas_wei = [], pa_valid_until_ms = 0\<rparr>"

definition merge_reset :: "budget_merge_input \<Rightarrow> bool" where
  "merge_reset inp = (case bm_budget inp of None \<Rightarrow> False | Some b \<Rightarrow> wb_start_new_totals b)"

definition merge_remove_only :: "budget_merge_input \<Rightarrow> bool" where
  "merge_remove_only inp = (case bm_budget inp of None \<Rightarrow> False | Some b \<Rightarrow> remove_only b)"

definition merge_addition :: "budget_merge_input \<Rightarrow> policy_addition" where
  "merge_addition inp = (case bm_addition inp of None \<Rightarrow> no_addition | Some a \<Rightarrow> a)"

definition merge_guards :: "budget_merge_input \<Rightarrow> budget_error + unit" where
  "merge_guards inp =
     bindE (guardE (bm_chain_id inp \<le> 0) (BudgetInput ''chainId'')) (\<lambda>_.
     bindE (guardE (case bm_current inp of None \<Rightarrow> False | Some cur \<Rightarrow> sp_chain_id cur \<noteq> bm_chain_id inp)
       (BudgetInput ''another chain'')) (\<lambda>_.
     bindE (guardE (bm_budget inp = None \<and> \<not> isWalletBudget (bm_current inp)) (BudgetInput ''owner totals'')) (\<lambda>_.
     bindE (guardE (bm_budget inp = None \<and> bm_addition inp = None) BudgetReplaceRefused) (\<lambda>_.
     bindE (case bm_budget inp of None \<Rightarrow> Inr () | Some b \<Rightarrow> budget_validate b (bm_now inp)) (\<lambda>_.
     guardE (merge_remove_only inp \<and>
        (bm_current inp = None \<or> \<not> isWalletBudget (bm_current inp) \<or> bm_addition inp \<noteq> None \<or>
         (case (bm_budget inp, bm_current inp) of (Some b, Some cur) \<Rightarrow> wb_valid_until b \<noteq> sp_valid_until cur | _ \<Rightarrow> False) \<or>
         (case bm_gas_headroom inp of None \<Rightarrow> False | Some g \<Rightarrow> g \<noteq> 0)))
       (BudgetInput ''removeActions''))))))"

definition merge_requested :: "budget_merge_input \<Rightarrow> (address \<times> int) list" where
  "merge_requested inp = (case bm_budget inp of None \<Rightarrow> []
     | Some b \<Rightarrow> concat (map (\<lambda>c. case (cap_token c, parsed (cap_amount c)) of
         (Some t, Some n) \<Rightarrow> [(t, n)] | _ \<Rightarrow> []) (wb_erc20 b)))"

definition merge_reset_guard :: "budget_merge_input \<Rightarrow> grant_remainder \<Rightarrow> budget_error + unit" where
  "merge_reset_guard inp rem = (case (bm_current inp, bm_budget inp) of
       (Some cur, Some b) \<Rightarrow>
         if merge_reset inp
         then bindE (guardE (list_ex (\<lambda>(t, _). map_of (merge_requested inp) t = None) (gr_erc20 rem))
                (BudgetInput ''startNewTotals needs every token'')) (\<lambda>_.
              guardE (sp_native_spend_cap cur \<noteq> None \<and> wb_native b = None)
                (BudgetInput ''startNewTotals needs the native total''))
         else Inr ()
     | _ \<Rightarrow> Inr ())"

definition add_cap :: "erc20_cap \<Rightarrow> (address \<times> int) list \<Rightarrow> budget_error + (address \<times> int) list" where
  "add_cap c out = (case cap_token c of
       None \<Rightarrow> Inl (BudgetInput ''addition cap token'')
     | Some t \<Rightarrow>
         if t = zero_address then Inl (BudgetInput ''addition cap token'')
         else (case parseCapAmount (cap_amount c) of
             Inl _ \<Rightarrow> Inl (BudgetInput ''addition cap'')
           | Inr amount \<Rightarrow>
               (let sum = (case map_of out t of None \<Rightarrow> 0 | Some n \<Rightarrow> n) + amount in
                if \<not> fits_uint256 sum then Inl (BudgetInput ''addition cap exceeds'')
                else Inr (AList.update t sum out))))"

definition merge_tokens :: "(address list \<Rightarrow> address list) \<Rightarrow> budget_merge_input \<Rightarrow> grant_remainder \<Rightarrow>
    (address \<times> int) list \<Rightarrow> (address \<times> int) list \<Rightarrow> budget_error + (address \<times> int \<times> int) list" where
  "merge_tokens ord inp rem totals addCaps =
     mapE (\<lambda>t. case mergeBudgetAmount (map_of totals t) (map_of (gr_erc20 rem) t) (map_of (merge_requested inp) t)
         (map_of addCaps t) (isWalletBudget (bm_current inp)) (merge_reset inp) of
         Inl e \<Rightarrow> Inl (ForToken t e) | Inr (amount, left) \<Rightarrow> Inr (t, amount, left))
       (ord (remdups (map fst totals @ map fst (merge_requested inp) @ map fst addCaps)))"

definition token_cap :: "address \<Rightarrow> int \<Rightarrow> erc20_cap" where
  "token_cap t n = \<lparr>cap_token = Some t, cap_amount = sdecimal n, cap_granted = []\<rparr>"

definition native_inputs :: "budget_merge_input \<Rightarrow> budget_error + int option \<times> int option" where
  "native_inputs inp =
     (let requested = (case bm_budget inp of None \<Rightarrow> None | Some b \<Rightarrow>
            (case wb_native b of None \<Rightarrow> None | Some c \<Rightarrow> parsed (nat_amount c))) in
      bindE (case pa_native_spend_cap (merge_addition inp) of None \<Rightarrow> Inr None
        | Some c \<Rightarrow> (case parseCapAmount (nat_amount c) of
              Inl _ \<Rightarrow> Inl (BudgetInput ''native addition'') | Inr n \<Rightarrow> Inr (Some n))) (\<lambda>add.
      bindE (guardE (case bm_gas_headroom inp of None \<Rightarrow> False | Some g \<Rightarrow> g < 0 \<or> \<not> fits_uint256 g)
        (BudgetInput ''gas headroom'')) (\<lambda>_. Inr (requested, add))))"

definition merge_native :: "budget_merge_input \<Rightarrow> grant_remainder \<Rightarrow> int option \<Rightarrow> budget_error + (int \<times> int) option" where
  "merge_native inp rem nativeTotal = bindE (native_inputs inp) (\<lambda>(requested, add).
     let gas = (case bm_gas_headroom inp of None \<Rightarrow> 0 | Some g \<Rightarrow> g) in
     if nativeTotal \<noteq> None \<or> requested \<noteq> None \<or> add \<noteq> None \<or> gas > 0
     then (case mergeBudgetAmount nativeTotal (gr_native rem) requested add (isWalletBudget (bm_current inp)) (merge_reset inp) of
         Inl e \<Rightarrow> Inl (ForNative e)
       | Inr (amount, left) \<Rightarrow>
           if \<not> fits_uint256 (amount + gas) \<or> \<not> fits_uint256 (left + gas)
           then Inl (BudgetInput ''native total plus gas'') else Inr (Some (amount + gas, left + gas)))
     else Inr None)"

text \<open>The loop over the tasks collects action groups, recipients and the latest end.\<close>

definition task_scope :: "budget_merge_input \<Rightarrow> task_need \<Rightarrow>
    allowed_action list list \<times> address option list \<times> int \<Rightarrow>
    budget_error + allowed_action list list \<times> address option list \<times> int" where
  "task_scope inp task acc = (case acc of (groups, recipients, until) \<Rightarrow>
     if merge_remove_only inp then Inr acc
     else case tn_need task of None \<Rightarrow> Inr acc
       | Some need \<Rightarrow>
           if \<not> wn_has_fund_move need then Inr acc
           else if wn_unresolved need
           then (if bm_current inp = None then Inl (TargetUnresolved (tn_task_id task)) else Inr acc)
           else Inr (groups @ [wn_actions need], recipients @ wn_native_recipients need,
             max until (tn_expired_at task)))"

definition merge_scope :: "budget_merge_input \<Rightarrow> budget_error + allowed_action list list \<times> address option list \<times> int" where
  "merge_scope inp =
     (let add = merge_addition inp;
          (groups, recipients, until) = (case bm_current inp of None \<Rightarrow> ([], [], 0)
            | Some cur \<Rightarrow> ([sp_allowed_actions cur], sp_native_recipients cur, sp_valid_until cur))
      in foldE (task_scope inp) (bm_tasks inp)
        (groups @ [pa_allowed_actions add], recipients @ pa_native_recipients add, max until (pa_valid_until_ms add)))"

definition merge_until :: "budget_merge_input \<Rightarrow> int \<Rightarrow> budget_error + int" where
  "merge_until inp until = (case bm_budget inp of None \<Rightarrow> Inr until
     | Some b \<Rightarrow>
         bindE (guardE (wb_remove_actions b \<noteq> [] \<and> bm_current inp = None) (BudgetInput ''removeActions'')) (\<lambda>_.
         bindE (guardE (wb_remove_actions b \<noteq> [] \<and> \<not> merge_remove_only inp \<and> \<not> merge_reset inp)
           (BudgetInput ''removeActions'')) (\<lambda>_.
         if merge_remove_only inp then Inr (case bm_current inp of None \<Rightarrow> until | Some cur \<Rightarrow> sp_valid_until cur)
         else if merge_reset inp then Inr (wb_valid_until b)
         else bindE (guardE (case bm_current inp of None \<Rightarrow> False | Some cur \<Rightarrow> wb_valid_until b < sp_valid_until cur)
             (BudgetNarrowing ''shortening the budget'')) (\<lambda>_. Inr (max until (wb_valid_until b))))))"

definition action_cap_guard :: "budget_merge_input \<Rightarrow> grant_remainder \<Rightarrow> address list \<Rightarrow> allowed_action list \<Rightarrow>
    allowed_action \<Rightarrow> budget_error + unit" where
  "action_cap_guard inp rem keys actions a = (case aa_target a of None \<Rightarrow> Inr ()
     | Some token \<Rightarrow>
         if \<not> transferApproveOnly token actions then Inr ()
         else (let hasCap = (token \<in> set keys);
                   wasUncapped = (map_of (gr_erc20 rem) token = None \<and> budgetHasUnmeteredSpend (bm_current inp) token) in
           if \<not> hasCap \<and> \<not> wasUncapped then Inl (BudgetInput ''new spending token'')
           else if hasCap \<and> wasUncapped \<and> \<not> merge_reset inp then Inl (BudgetNarrowing ''capping an unmetered token'')
           else Inr ()))"

definition merged_permissions :: "budget_merge_input \<Rightarrow> (address \<times> int \<times> int) list \<Rightarrow> (int \<times> int) option \<Rightarrow>
    allowed_action list \<Rightarrow> address option list \<Rightarrow> int \<Rightarrow> session_permissions" where
  "merged_permissions inp rows native actions recipients until =
     (let recips = dedupeRecipients recipients; add = merge_addition inp in
      \<lparr>budgetMode = True, pm_allowed_actions = actions, pm_spend_cap = None,
       pm_spend_caps = sortSpendCaps (map (\<lambda>(t, _, left). token_cap t left) rows), pm_valid_until_ms = until,
       pm_native_recipients = recips,
       pm_delegated_native_recipients = carriedDelegatedRecipients
         (case bm_current inp of None \<Rightarrow> [] | Some cur \<Rightarrow> sp_delegated_native_recipients cur)
         (pa_delegated_native_recipients add) recips,
       pm_native_spend_cap = map_option (\<lambda>(_, left). \<lparr>nat_amount = sdecimal left, nat_granted = []\<rparr>) native,
       pm_allow_contract_recipient = ((case bm_current inp of None \<Rightarrow> False | Some cur \<Rightarrow> sp_allow_contract_recipient cur) \<or>
         pa_allow_contract_recipient add),
       pm_session_signer = None, pm_code_at = None\<rparr>)"

definition starts_new_totals :: "budget_merge_input \<Rightarrow> bool" where
  "starts_new_totals inp \<longleftrightarrow> bm_current inp = None \<or> \<not> isWalletBudget (bm_current inp) \<or> merge_reset inp"

text \<open>\<open>clock_ms\<close> is the \<open>time.Now()\<close> of the final validation, which does not use \<open>in.Now\<close>.\<close>

definition MergeBudgetPolicy :: "(address list \<Rightarrow> address list) \<Rightarrow> int \<Rightarrow> budget_merge_input \<Rightarrow> budget_error + budget_draft" where
  "MergeBudgetPolicy ord clock_ms inp =
     bindE (merge_guards inp) (\<lambda>_.
     bindE (budgetMergeRemainder (bm_current inp) (bm_remainder inp)) (\<lambda>rem.
     bindE (budgetMergeTotals (bm_current inp) rem) (\<lambda>(totals, nativeTotal).
     bindE (merge_reset_guard inp rem) (\<lambda>_.
     bindE (foldE add_cap (pa_spend_caps (merge_addition inp)) []) (\<lambda>addCaps.
     bindE (merge_tokens ord inp rem totals addCaps) (\<lambda>rows.
     bindE (merge_native inp rem nativeTotal) (\<lambda>native.
     bindE (merge_scope inp) (\<lambda>(groups, recipients, until0).
     bindE (merge_until inp until0) (\<lambda>until.
     bindE (budgetActionUnion groups (case bm_budget inp of None \<Rightarrow> [] | Some b \<Rightarrow> wb_remove_actions b)) (\<lambda>actions.
     bindE (foldE (\<lambda>a _. action_cap_guard inp rem (map fst rows) actions a) actions ()) (\<lambda>_.
       let perms = merged_permissions inp rows native actions recipients until in
       bindE (case perm_validate False clock_ms perms of
                Inl _ \<Rightarrow> Inl (BudgetInput ''invalid resulting budget'') | Inr _ \<Rightarrow> Inr ()) (\<lambda>_.
         Inr \<lparr>bd_permissions = perms,
            bd_start_amounts = sortSpendCaps (map (\<lambda>(t, amount, _). token_cap t amount) rows),
            bd_start_native = map_option (\<lambda>(amount, _). \<lparr>nat_amount = sdecimal amount, nat_granted = []\<rparr>) native,
            bd_started_at = (if starts_new_totals inp then 0
               else case bm_current inp of None \<Rightarrow> 0 | Some cur \<Rightarrow> budget_started_at cur),
            bd_starts_new_totals = starts_new_totals inp,
            bd_changes = diffGrant (bm_current inp) rem perms\<rparr>))))))))))))"

section \<open>Amounts\<close>

lemma merge_amount_budget:
  assumes "mergeBudgetAmount (Some tot) (Some left) requested addition True False = Inr (amount, installed)"
    and "\<And>x. addition = Some x \<Longrightarrow> 0 \<le> x"
  shows "amount - installed = tot - left" and "tot \<le> amount" and "left \<le> installed"
    and "\<And>r. requested = Some r \<Longrightarrow> amount = r"
    and "requested = None \<Longrightarrow> addition = None \<Longrightarrow> amount = tot \<and> installed = left"
  using assms
  by (auto simp: mergeBudgetAmount_def merge_stage_def Let_def split: option.splits if_splits)

lemma merge_amount_fits:
  assumes "mergeBudgetAmount tot left requested addition already reset = Inr (amount, installed)"
  shows "fits_uint256 amount" and "fits_uint256 installed"
  using assms by (auto simp: mergeBudgetAmount_def Let_def split: prod.splits if_splits)

lemma merge_amount_migrate:
  assumes "mergeBudgetAmount (Some tot) (Some left) requested addition False False = Inr (amount, installed)"
    and "\<And>x. addition = Some x \<Longrightarrow> 0 \<le> x"
  shows "installed = amount" and "left \<le> installed"
    and "tot \<ge> unlimited_threshold \<Longrightarrow> installed \<ge> unlimited_threshold"
  using assms
  by (auto simp: mergeBudgetAmount_def merge_stage_def Let_def split: option.splits if_splits)

lemma merge_amount_reset:
  assumes "mergeBudgetAmount tot left requested addition already True = Inr (amount, installed)"
  shows "installed = amount" and "\<And>r. requested = Some r \<Longrightarrow> amount = r"
  using assms by (auto simp: mergeBudgetAmount_def merge_stage_def Let_def split: option.splits if_splits)

section \<open>Sorting of caps\<close>

lemma mset_move_left [simp]: "mset (move_left c ds) = add_mset c (mset ds)"
  by (induction ds) (auto split: option.splits)

lemma mset_sortSpendCaps [simp]: "mset (sortSpendCaps caps) = mset caps"
proof -
  have "mset (fold move_left caps acc) = mset caps + mset acc" for acc
    by (induction caps arbitrary: acc) auto
  from this [of "[]"] show ?thesis by (simp add: sortSpendCaps_def)
qed

lemma set_sortSpendCaps [simp]: "set (sortSpendCaps caps) = set caps"
  by (rule mset_eq_setD) simp

definition cap_le :: "erc20_cap \<Rightarrow> erc20_cap \<Rightarrow> bool" where
  "cap_le c d \<longleftrightarrow> (case (cap_token c, cap_token d) of (Some l, Some r) \<Rightarrow> lower_hex l \<le> lower_hex r | _ \<Rightarrow> False)"

lemma set_move_left [simp]: "set (move_left c ds) = insert c (set ds)"
  by (induction ds) (auto split: option.splits)

lemma move_left_sorted:
  assumes "\<forall>d \<in> set ds. cap_token d \<noteq> None" and "cap_token c \<noteq> None" and "sorted_wrt (\<lambda>x y. cap_le y x) ds"
  shows "sorted_wrt (\<lambda>x y. cap_le y x) (move_left c ds)"
  using assms
proof (induction ds)
  case (Cons d ds)
  obtain l r where t: "cap_token d = Some l" "cap_token c = Some r" using Cons.prems by auto
  show ?case
  proof (cases "lower_hex l \<le> lower_hex r")
    case True
    have "cap_le x c" if "x \<in> set ds" for x
    proof -
      from Cons.prems that have "cap_le x d" by simp
      with t True show ?thesis by (auto simp: cap_le_def split: option.splits)
    qed
    moreover have "cap_le d c" using True t by (simp add: cap_le_def)
    ultimately show ?thesis using True t Cons.prems by simp
  next
    case False
    with t have "cap_le c d" by (simp add: cap_le_def)
    with False t Cons show ?thesis by simp
  qed
qed simp

lemma sortSpendCaps_sorted:
  assumes "\<forall>c \<in> set caps. cap_token c \<noteq> None"
  shows "sorted_wrt cap_le (sortSpendCaps caps)"
proof -
  have "sorted_wrt (\<lambda>x y. cap_le y x) (fold move_left caps acc)"
    if "sorted_wrt (\<lambda>x y. cap_le y x) acc" "\<forall>c \<in> set acc. cap_token c \<noteq> None" for acc
    using assms that
  proof (induction caps arbitrary: acc)
    case (Cons c caps)
    then show ?case using move_left_sorted [of acc c] by auto
  qed simp
  then show ?thesis by (simp add: sortSpendCaps_def sorted_wrt_rev)
qed

text \<open>Sorted caps with distinct tokens are determined by their multiset.\<close>

lemma sorted_caps_unique:
  assumes "mset xs = mset ys" and "sorted_wrt cap_le xs" and "sorted_wrt cap_le ys"
    and "distinct (map cap_token xs)" and "\<forall>c \<in> set xs. cap_token c \<noteq> None"
  shows "xs = ys"
proof -
  let ?k = "\<lambda>c. lower_hex (case cap_token c of None \<Rightarrow> 0 | Some t \<Rightarrow> t)"
  have some: "\<forall>c \<in> set ys. cap_token c \<noteq> None" using assms(1,5) by (metis mset_eq_setD)
  have key: "sorted (map ?k zs)" if "sorted_wrt cap_le zs" for zs
    using that unfolding sorted_map
    by (rule sorted_wrt_mono_rel [rotated]) (auto simp: cap_le_def split: option.splits)
  have inj: "inj_on ?k (set xs)"
  proof (rule inj_onI)
    fix c d assume cd: "c \<in> set xs" "d \<in> set xs" "?k c = ?k d"
    with assms(5) obtain t u where "cap_token c = Some t" "cap_token d = Some u" by blast
    with cd have "cap_token c = cap_token d" by simp
    with cd assms(4) show "c = d" by (metis distinct_map inj_onD)
  qed
  have "mset (map ?k ys) = mset (map ?k xs)" using assms(1) by simp
  from properties_for_sort [OF this key [OF assms(3)]] sorted_sort_id [OF key [OF assms(2)]]
  have "map ?k xs = map ?k ys" by simp
  moreover have "set xs = set ys" using assms(1) by (rule mset_eq_setD)
  with inj have "inj_on ?k (set xs \<union> set ys)" by simp
  ultimately show ?thesis by (simp add: inj_on_map_eq_map)
qed

section \<open>The stages of a successful merge\<close>

definition merge_draft :: "budget_merge_input \<Rightarrow> grant_remainder \<Rightarrow> (address \<times> int \<times> int) list \<Rightarrow> (int \<times> int) option \<Rightarrow>
    session_permissions \<Rightarrow> budget_draft" where
  "merge_draft inp rem rows native perms =
     \<lparr>bd_permissions = perms,
      bd_start_amounts = sortSpendCaps (map (\<lambda>(t, amount, _). token_cap t amount) rows),
      bd_start_native = map_option (\<lambda>(amount, _). \<lparr>nat_amount = sdecimal amount, nat_granted = []\<rparr>) native,
      bd_started_at = (if starts_new_totals inp then 0
         else case bm_current inp of None \<Rightarrow> 0 | Some cur \<Rightarrow> budget_started_at cur),
      bd_starts_new_totals = starts_new_totals inp,
      bd_changes = diffGrant (bm_current inp) rem perms\<rparr>"

lemma merge_success:
  assumes "MergeBudgetPolicy ord clock inp = Inr draft"
  obtains rem totals nativeTotal addCaps rows native groups recipients until0 until actions
  where "merge_guards inp = Inr ()"
    and "budgetMergeRemainder (bm_current inp) (bm_remainder inp) = Inr rem"
    and "budgetMergeTotals (bm_current inp) rem = Inr (totals, nativeTotal)"
    and "merge_reset_guard inp rem = Inr ()"
    and "foldE add_cap (pa_spend_caps (merge_addition inp)) [] = Inr addCaps"
    and "merge_tokens ord inp rem totals addCaps = Inr rows"
    and "merge_native inp rem nativeTotal = Inr native"
    and "merge_scope inp = Inr (groups, recipients, until0)"
    and "merge_until inp until0 = Inr until"
    and "budgetActionUnion groups (case bm_budget inp of None \<Rightarrow> [] | Some b \<Rightarrow> wb_remove_actions b) = Inr actions"
    and "foldE (\<lambda>a _. action_cap_guard inp rem (map fst rows) actions a) actions () = Inr ()"
    and "perm_validate False clock (merged_permissions inp rows native actions recipients until) = Inr ()"
    and "draft = merge_draft inp rem rows native (merged_permissions inp rows native actions recipients until)"
proof -
  let ?check = "\<lambda>perms. case perm_validate False clock perms of
    Inl _ \<Rightarrow> Inl (BudgetInput ''invalid resulting budget'') | Inr _ \<Rightarrow> Inr ()"
  have v: "perm_validate False clock perms = Inr ()" if "?check perms = Inr u" for perms and u :: unit
    using that by (cases "perm_validate False clock perms") auto
  from assms show thesis
    unfolding MergeBudgetPolicy_def Let_def bindE_Inr_conv case_prod_unfold
    by (elim exE conjE) (rule that; (assumption | rule v | simp add: prod_eq_iff; fail | auto simp: merge_draft_def case_prod_unfold))
qed

lemma merge_intro:
  assumes "merge_guards inp = Inr ()"
    and "budgetMergeRemainder (bm_current inp) (bm_remainder inp) = Inr rem"
    and "budgetMergeTotals (bm_current inp) rem = Inr (totals, nativeTotal)"
    and "merge_reset_guard inp rem = Inr ()"
    and "foldE add_cap (pa_spend_caps (merge_addition inp)) [] = Inr addCaps"
    and "merge_tokens ord inp rem totals addCaps = Inr rows"
    and "merge_native inp rem nativeTotal = Inr native"
    and "merge_scope inp = Inr (groups, recipients, until0)"
    and "merge_until inp until0 = Inr until"
    and "budgetActionUnion groups (case bm_budget inp of None \<Rightarrow> [] | Some b \<Rightarrow> wb_remove_actions b) = Inr actions"
    and "foldE (\<lambda>a _. action_cap_guard inp rem (map fst rows) actions a) actions () = Inr ()"
    and "perm_validate False clock (merged_permissions inp rows native actions recipients until) = Inr ()"
  shows "MergeBudgetPolicy ord clock inp =
    Inr (merge_draft inp rem rows native (merged_permissions inp rows native actions recipients until))"
  using assms unfolding MergeBudgetPolicy_def merge_draft_def by (simp add: Let_def)

lemma merge_tokens_row:
  assumes "merge_tokens ord inp rem totals addCaps = Inr rows" and "\<forall>xs. mset (ord xs) = mset xs"
  shows "set (map fst rows) = set (map fst totals) \<union> set (map fst (merge_requested inp)) \<union> set (map fst addCaps)"
    and "distinct (map fst rows)"
    and "(t, amount, left) \<in> set rows \<Longrightarrow> mergeBudgetAmount (map_of totals t) (map_of (gr_erc20 rem) t)
      (map_of (merge_requested inp) t) (map_of addCaps t) (isWalletBudget (bm_current inp)) (merge_reset inp)
      = Inr (amount, left)"
proof -
  let ?keys = "remdups (map fst totals @ map fst (merge_requested inp) @ map fst addCaps)"
  let ?f = "\<lambda>t. case mergeBudgetAmount (map_of totals t) (map_of (gr_erc20 rem) t) (map_of (merge_requested inp) t)
      (map_of addCaps t) (isWalletBudget (bm_current inp)) (merge_reset inp) of
      Inl e \<Rightarrow> Inl (ForToken t e) | Inr (amount, left) \<Rightarrow> Inr (t, amount, left)"
  from assms(1) have all: "list_all2 (\<lambda>t row. ?f t = Inr row) (ord ?keys) rows"
    by (simp add: merge_tokens_def mapE_Inr)
  have "map fst rows = ord ?keys"
    using all by (induction rule: list_all2_induct) (auto split: sum.splits prod.splits)
  moreover have "set (ord ?keys) = set ?keys" using assms(2) mset_eq_setD by blast
  moreover have "distinct (ord ?keys)" using assms(2) mset_eq_imp_distinct_iff [of "ord ?keys" ?keys] by simp
  ultimately show "set (map fst rows) = set (map fst totals) \<union> set (map fst (merge_requested inp)) \<union> set (map fst addCaps)"
    and "distinct (map fst rows)" by auto
  assume "(t, amount, left) \<in> set rows"
  with all obtain u where "?f u = Inr (t, amount, left)" by (auto simp: list_all2_conv_all_nth in_set_conv_nth)
  then show "mergeBudgetAmount (map_of totals t) (map_of (gr_erc20 rem) t)
      (map_of (merge_requested inp) t) (map_of addCaps t) (isWalletBudget (bm_current inp)) (merge_reset inp)
      = Inr (amount, left)"
    by (auto split: sum.splits)
qed

lemma add_caps_nonneg:
  assumes "foldE add_cap cs [] = Inr out" and "map_of out t = Some n"
  shows "0 \<le> n"
proof -
  have "\<forall>t n. map_of out t = Some n \<longrightarrow> 0 \<le> n"
    using assms(1)
  proof (rule foldE_invariant)
    fix c s u assume "\<forall>t n. map_of s t = Some n \<longrightarrow> 0 \<le> n" and "add_cap c s = Inr u"
    then show "\<forall>t n. map_of u t = Some n \<longrightarrow> 0 \<le> n"
      by (auto simp: add_cap_def Let_def AList.update_conv split: option.splits sum.splits if_splits
          dest!: parseCapAmount_range)
  qed simp
  with assms(2) show ?thesis by blast
qed

lemma remainder_of_current:
  assumes "budgetMergeRemainder (Some cur) read = Inr rem"
  shows "remainder_tokens read (policyCaps (Some cur)) [] = Inr (gr_erc20 rem)"
  using assms by (cases "sp_native_spend_cap cur") (auto simp: budgetMergeRemainder_def Let_def split: if_splits)

lemma remainder_tokens_distinct:
  "remainder_tokens read cs out = Inr out' \<Longrightarrow> distinct (map fst out) \<Longrightarrow> distinct (map fst out')"
  by (induction cs arbitrary: out) (auto simp: Let_def distinct_update split: option.splits if_splits)

lemma remainder_keys_distinct:
  assumes "budgetMergeRemainder current read = Inr rem"
  shows "distinct (map fst (gr_erc20 rem))"
  using assms remainder_tokens_distinct [of read "policyCaps current" "[]"] remainder_of_current
  by (cases current) (auto simp: budgetMergeRemainder_def)

lemma budget_totals_cover:
  assumes "budgetMergeTotals (Some cur) rem = Inr (totals, nt)" and "isWalletBudget (Some cur)"
  shows "(t, left) \<in> set (gr_erc20 rem) \<Longrightarrow> \<exists>n. map_of totals t = Some n \<and> left \<le> n"
    and "gr_native rem = Some left \<Longrightarrow> \<exists>n. nt = Some n \<and> left \<le> n"
proof -
  from assms have cover: "\<forall>(t, left) \<in> set (gr_erc20 rem). \<not> (case map_of totals t of None \<Rightarrow> True | Some n \<Rightarrow> n < left)"
    and native: "start_native cur rem = Inr nt"
    by (auto simp: budgetMergeTotals_def list_ex_iff split: if_splits)
  show "(t, left) \<in> set (gr_erc20 rem) \<Longrightarrow> \<exists>n. map_of totals t = Some n \<and> left \<le> n"
    using cover by (cases "map_of totals t") fastforce+
  show "gr_native rem = Some left \<Longrightarrow> \<exists>n. nt = Some n \<and> left \<le> n"
    using native by (auto simp: start_native_def split: option.splits sum.splits if_splits)
qed

lemma merge_native_usage:
  assumes "merge_native inp rem (Some tot) = Inr native" and "gr_native rem = Some left"
    and "isWalletBudget (bm_current inp)" and "\<not> merge_reset inp"
  obtains n l where "native = Some (n, l)" and "n - l = tot - left" and "tot \<le> n" and "left \<le> l"
proof -
  from assms(1) obtain requested add where ni: "native_inputs inp = Inr (requested, add)"
    by (auto simp: merge_native_def)
  have gas: "0 \<le> g" if "bm_gas_headroom inp = Some g" for g
    using ni that by (auto simp: native_inputs_def Let_def not_less)
  have add: "0 \<le> a" if "add = Some a" for a
    using ni that parseCapAmount_range
    by (fastforce simp: native_inputs_def Let_def split: option.splits sum.splits)
  from assms ni obtain amount l where m: "mergeBudgetAmount (Some tot) (Some left) requested add True False = Inr (amount, l)"
    and n: "native = Some (amount + (case bm_gas_headroom inp of None \<Rightarrow> 0 | Some g \<Rightarrow> g),
      l + (case bm_gas_headroom inp of None \<Rightarrow> 0 | Some g \<Rightarrow> g))"
    by (auto simp: merge_native_def Let_def split: sum.splits if_splits)
  from merge_amount_budget(1-3) [OF m add] n gas show thesis
    by (cases "bm_gas_headroom inp") (auto intro!: that)
qed

lemma foldE_until_mono:
  assumes "foldE (task_scope inp) tasks (groups, recipients, until) = Inr (groups', recipients', until')"
  shows "until \<le> until'" and "\<exists>more. groups' = groups @ more" and "\<exists>more. recipients' = recipients @ more"
proof -
  have "until \<le> snd (snd acc') \<and> (\<exists>more. fst acc' = groups @ more) \<and> (\<exists>more. fst (snd acc') = recipients @ more)"
    if "foldE (task_scope inp) tasks (groups, recipients, until) = Inr acc'" for acc'
    using that
    by (rule foldE_invariant)
      (auto simp: task_scope_def split: if_splits option.splits prod.splits)
  from this [OF assms] show "until \<le> until'" "\<exists>more. groups' = groups @ more"
    "\<exists>more. recipients' = recipients @ more" by auto
qed

lemma merge_scope_carries:
  assumes "merge_scope inp = Inr (groups, recipients, until)" and "bm_current inp = Some cur"
  shows "sp_valid_until cur \<le> until" and "\<exists>more. groups = sp_allowed_actions cur # more"
    and "set (sp_native_recipients cur) \<subseteq> set recipients"
  using assms foldE_until_mono [of inp "bm_tasks inp"]
  by (fastforce simp: merge_scope_def Let_def)+

lemma merge_until_extends:
  assumes "merge_until inp until0 = Inr until" and "bm_current inp = Some cur" and "sp_valid_until cur \<le> until0"
    and "\<not> merge_reset inp"
  shows "sp_valid_until cur \<le> until"
  using assms by (auto simp: merge_until_def split: option.splits if_splits)

section \<open>Actions and recipients\<close>

lemma set_actions_from_pairs: "set (action_selectors (actions_from_pairs ps)) = set ps"
  by (force simp: action_selectors_def actions_from_pairs_def)

lemma action_pairs_set: "action_pairs what as = Inr ps \<Longrightarrow> set ps = set (action_set as)"
proof (induction as arbitrary: ps)
  case (Cons a as)
  from Cons.prems obtain t ps' where "aa_target a = Some t" "action_pairs what as = Inr ps'"
    "ps = map (\<lambda>s. (t, normalizeSelector s)) (aa_selectors a) @ ps'"
    by (auto split: option.splits if_splits)
  with Cons.IH show ?case by (simp add: action_set_def)
qed (simp add: action_set_def)

lemma budgetActionUnion_set:
  assumes "budgetActionUnion groups remove = Inr actions"
  shows "set (action_selectors actions) = set (action_set (concat groups)) - set (action_set remove)"
proof -
  from assms obtain rows gone where r: "action_pairs ''action'' (concat groups) = Inr rows"
    and g: "action_pairs ''removeActions'' remove = Inr gone"
    and "actions = actions_from_pairs (filter (\<lambda>p. p \<notin> set gone) rows)"
    by (auto simp: budgetActionUnion_def)
  with action_pairs_set [OF r] action_pairs_set [OF g] show ?thesis by (auto simp: set_actions_from_pairs)
qed

lemma action_set_Cons_concat: "set (action_set (concat (as # rest))) = set (action_set as) \<union> set (action_set (concat rest))"
  by (simp add: action_set_def)

lemma set_dedupeRecipients: "set (dedupeRecipients rs) = {Some a | a. Some a \<in> set rs \<and> a \<noteq> zero_address}"
proof -
  let ?f = "\<lambda>r out. case r of None \<Rightarrow> out | Some a \<Rightarrow> if a = zero_address \<or> a \<in> set out then out else a # out"
  have "set (fold ?f rs out) = set out \<union> {a. Some a \<in> set rs \<and> a \<noteq> zero_address}" for out
    by (induction rs arbitrary: out) (auto split: option.splits)
  from this [of "[]"] show ?thesis by (auto simp: dedupeRecipients_def)
qed

lemma remove_only_scope:
  assumes "merge_remove_only inp" and "merge_guards inp = Inr ()" and "bm_current inp = Some cur"
  shows "merge_addition inp = no_addition" and "merge_requested inp = []" and "\<not> merge_reset inp"
    and "merge_scope inp = Inr ([sp_allowed_actions cur, []], sp_native_recipients cur, max (sp_valid_until cur) 0)"
proof -
  from assms obtain b where b: "bm_budget inp = Some b" "remove_only b" "bm_addition inp = None"
    by (auto simp: merge_remove_only_def merge_guards_def split: option.splits)
  then show add: "merge_addition inp = no_addition" and "merge_requested inp = []" and "\<not> merge_reset inp"
    by (simp_all add: merge_addition_def merge_requested_def merge_reset_def remove_only_def)
  have "foldE (task_scope inp) tasks acc = Inr acc" for tasks acc
    by (induction tasks) (simp_all add: task_scope_def assms(1) split: prod.splits)
  with add assms(3) show "merge_scope inp = Inr ([sp_allowed_actions cur, []], sp_native_recipients cur, max (sp_valid_until cur) 0)"
    by (simp add: merge_scope_def no_addition_def Let_def)
qed

lemma remove_only_until:
  assumes "merge_remove_only inp" and "merge_until inp until0 = Inr until" and "bm_current inp = Some cur"
  shows "until = sp_valid_until cur"
  using assms by (auto simp: merge_until_def merge_remove_only_def split: option.splits if_splits)

definition removed_actions :: "budget_merge_input \<Rightarrow> allowed_action list" where
  "removed_actions inp = (case bm_budget inp of None \<Rightarrow> [] | Some b \<Rightarrow> wb_remove_actions b)"

section \<open>A concrete budget\<close>

definition demo_budget :: session_policy where
  "demo_budget = example_policy\<lparr>sizing := ''budget'', budget_started_at := 1,
     budget_start_amounts := [\<lparr>cap_token = Some 7, cap_amount = ''9'', cap_granted = []\<rparr>],
     sp_erc20_spend_caps := [\<lparr>cap_token = Some 7, cap_amount = ''9'', cap_granted = []\<rparr>],
     sp_allowed_actions := [\<lparr>aa_target = Some 7, aa_selectors = [''0xa9059cbb'']\<rparr>],
     budget_start_native := Some \<lparr>nat_amount = ''9'', nat_granted = []\<rparr>,
     sp_native_spend_cap := Some \<lparr>nat_amount = ''9'', nat_granted = []\<rparr>,
     sp_valid_until := 5000\<rparr>"

definition demo_remainder :: remainder_read where
  "demo_remainder = \<lparr>rr_erc20 = [7 \<mapsto> 4], rr_native = Some 4\<rparr>"

text \<open>The owner extends the end and keeps every total.\<close>

definition demo_extend :: wallet_budget_input where
  "demo_extend = \<lparr>wb_erc20 = [], wb_native = None, wb_valid_until = 6000, wb_start_new_totals = False, wb_remove_actions = []\<rparr>"

definition demo_input :: budget_merge_input where
  "demo_input = \<lparr>bm_current = Some demo_budget, bm_remainder = Some demo_remainder, bm_budget = Some demo_extend,
     bm_addition = None, bm_tasks = [], bm_chain_id = 1, bm_now = 1000, bm_gas_headroom = None\<rparr>"

definition demo_rem :: grant_remainder where
  "demo_rem = \<lparr>gr_erc20 = [(7, 4)], gr_native = Some 4\<rparr>"

lemma digits_parse: "parseBudgetAmount ''9'' = Inr 9" "parseBudgetAmount ''4'' = Inr 4"
  by (simp_all add: parseBudgetAmount_def is_digit_def parse_bigint_def parse_decimal_def digit_val_def fits_uint256_def)

lemma demo_is_budget: "isWalletBudget (Some demo_budget)"
  by (simp add: demo_budget_def isWalletBudget_def EffectiveSizing_def policy_constants)

lemma demo_remainder_ok: "budgetMergeRemainder (Some demo_budget) (Some demo_remainder) = Inr demo_rem"
  by (simp add: budgetMergeRemainder_def demo_budget_def example_policy_def demo_remainder_def policyCaps_def
      zero_address_def valid_amount_def fits_uint256_def demo_rem_def)

lemma demo_totals_ok: "budgetMergeTotals (Some demo_budget) demo_rem = Inr ([(7, 9)], Some 9)"
  using demo_is_budget
  by (simp add: budgetMergeTotals_def demo_budget_def example_policy_def demo_rem_def digits_parse start_native_def)

lemma transfer_normal: "normalizeSelector ''0xa9059cbb'' = ''0xa9059cbb''"
proof -
  have "''0x'' @ hex_encode erc20TransferSelector = ''0xa9059cbb''"
    by (rule chars_eq) (simp add: erc20TransferSelector_def chars_def hex_digit_def)
  with normalize_of_parse(2) [OF transfer_parses] show ?thesis by simp
qed

definition demo_merged :: session_permissions where
  "demo_merged = merged_permissions demo_input [(7, 9, 4)] (Some (9, 4)) [\<lparr>aa_target = Some 7, aa_selectors = [''0xa9059cbb'']\<rparr>] [] 6000"

lemma demo_merged_valid: "perm_validate False 1000 demo_merged = Inr ()"
proof -
  have "sdecimal 4 = ''4''" by (rule chars_eq) (simp add: sdecimal_def decimal.simps digit_def)
  then show ?thesis
    by (simp add: demo_merged_def merged_permissions_def perm_validate_def erc20_class_def validate_erc20_def
        resolvedSpendCaps_def sortSpendCaps_def token_cap_def parseSpendCap_def digits_parse no_address_def
        zero_address_def transfer_parses actionHasTarget_def liftE_def validate_native_def dedupeRecipients_def
        validateDelegatedNativeRecipients_def carriedDelegatedRecipients_def demo_input_def demo_budget_def
        example_policy_def merge_addition_def no_addition_def)
qed

lemma demo_merge: "MergeBudgetPolicy id 1000 demo_input = Inr (merge_draft demo_input demo_rem [(7, 9, 4)] (Some (9, 4)) demo_merged)"
  unfolding demo_merged_def
proof (rule merge_intro [of demo_input demo_rem "[(7, 9)]" "Some 9" "[]" id "[(7, 9, 4)]" "Some (9, 4)"
      "[sp_allowed_actions demo_budget, []]" "[]" 5000 6000 "[\<lparr>aa_target = Some 7, aa_selectors = [''0xa9059cbb'']\<rparr>]" 1000])
  have c: "bm_current demo_input = Some demo_budget" "bm_remainder demo_input = Some demo_remainder"
    "bm_budget demo_input = Some demo_extend" by (simp_all add: demo_input_def)
  show "merge_guards demo_input = Inr ()"
    using demo_is_budget by (simp add: merge_guards_def c) (simp add: demo_input_def demo_budget_def example_policy_def
      demo_extend_def budget_validate_def merge_remove_only_def remove_only_def)
  show "budgetMergeRemainder (bm_current demo_input) (bm_remainder demo_input) = Inr demo_rem"
    by (simp add: c demo_remainder_ok)
  show "budgetMergeTotals (bm_current demo_input) demo_rem = Inr ([(7, 9)], Some 9)" by (simp add: c demo_totals_ok)
  show "merge_reset_guard demo_input demo_rem = Inr ()"
    by (simp add: merge_reset_guard_def c merge_reset_def demo_extend_def)
  show "foldE add_cap (pa_spend_caps (merge_addition demo_input)) [] = Inr []"
    by (simp add: merge_addition_def demo_input_def no_addition_def)
  show "merge_tokens id demo_input demo_rem [(7, 9)] [] = Inr [(7, 9, 4)]"
    using demo_is_budget
    by (simp add: merge_tokens_def merge_requested_def c demo_extend_def demo_rem_def merge_reset_def
        mergeBudgetAmount_def merge_stage_def fits_uint256_def)
  show "merge_native demo_input demo_rem (Some 9) = Inr (Some (9, 4))"
    using demo_is_budget
    by (simp add: merge_native_def native_inputs_def demo_input_def demo_extend_def merge_addition_def no_addition_def
        demo_rem_def merge_reset_def mergeBudgetAmount_def merge_stage_def fits_uint256_def)
  show "merge_scope demo_input = Inr ([sp_allowed_actions demo_budget, []], [], 5000)"
    by (simp add: merge_scope_def demo_input_def merge_addition_def no_addition_def)
      (simp add: demo_budget_def example_policy_def)
  show "merge_until demo_input 5000 = Inr 6000"
    by (simp add: merge_until_def c merge_remove_only_def remove_only_def merge_reset_def demo_extend_def)
      (simp add: demo_budget_def)
  show "budgetActionUnion [sp_allowed_actions demo_budget, []]
      (case bm_budget demo_input of None \<Rightarrow> [] | Some b \<Rightarrow> wb_remove_actions b) =
      Inr [\<lparr>aa_target = Some 7, aa_selectors = [''0xa9059cbb'']\<rparr>]"
    by (simp add: budgetActionUnion_def demo_budget_def c demo_extend_def zero_address_def transfer_parses
        transfer_normal actions_from_pairs_def)
  show "foldE (\<lambda>a _. action_cap_guard demo_input demo_rem (map fst [(7, 9, 4)]) [\<lparr>aa_target = Some 7,
      aa_selectors = [''0xa9059cbb'']\<rparr>] a) [\<lparr>aa_target = Some 7, aa_selectors = [''0xa9059cbb'']\<rparr>] () = Inr ()"
    by (simp add: action_cap_guard_def demo_rem_def)
  show "perm_validate False 1000 (merged_permissions demo_input [(7, 9, 4)] (Some (9, 4))
      [\<lparr>aa_target = Some 7, aa_selectors = [''0xa9059cbb'']\<rparr>] [] 6000) = Inr ()"
    using demo_merged_valid by (simp add: demo_merged_def)
qed

section \<open>Properties\<close>

text \<open>
C25: What has been used of a budget is never forgotten. When a merge onto a wallet budget succeeds and the
owner did not start new totals, every token that has a total \<open>A\<close> and a remainder \<open>R\<close> gets a recorded
total \<open>N\<close> and an installed limit \<open>L\<close> with \<open>N - L = A - R\<close>, \<open>N\<close> at least \<open>A\<close> and \<open>L\<close> at least \<open>R\<close>; a
total the owner asked for is the one recorded, a removal keeps both, and the start time carries over.
\<close>

theorem merge_preserves_used:
  assumes "MergeBudgetPolicy ord clock inp = Inr draft" and "\<forall>xs. mset (ord xs) = mset xs"
    and "bm_current inp = Some cur" and "isWalletBudget (Some cur)" and "\<not> merge_reset inp"
    and "budgetMergeRemainder (Some cur) (bm_remainder inp) = Inr rem"
    and "budgetMergeTotals (Some cur) rem = Inr (totals, nt)" and "map_of (gr_erc20 rem) t = Some left"
  shows "\<exists>tot n l. map_of totals t = Some tot \<and> token_cap t n \<in> set (bd_start_amounts draft) \<and>
    token_cap t l \<in> set (pm_spend_caps (bd_permissions draft)) \<and>
    n - l = tot - left \<and> tot \<le> n \<and> left \<le> l \<and> n < 2 ^ 256 \<and>
    (\<forall>r. map_of (merge_requested inp) t = Some r \<longrightarrow> n = r) \<and>
    (merge_remove_only inp \<longrightarrow> n = tot \<and> l = left) \<and> bd_started_at draft = budget_started_at cur"
proof -
  obtain addCaps rows native perms where g: "merge_guards inp = Inr ()"
    and ac: "foldE add_cap (pa_spend_caps (merge_addition inp)) [] = Inr addCaps"
    and mt: "merge_tokens ord inp rem totals addCaps = Inr rows"
    and d: "draft = merge_draft inp rem rows native perms"
    and caps: "pm_spend_caps perms = sortSpendCaps (map (\<lambda>(t, _, left). token_cap t left) rows)"
    by (rule merge_success [OF assms(1)]) (use assms in \<open>simp add: merged_permissions_def Let_def\<close>)
  obtain tot where tot: "map_of totals t = Some tot"
    using budget_totals_cover(1) [OF assms(7,4)] map_of_SomeD [OF assms(8)] by blast
  then have "t \<in> set (map fst rows)"
    using merge_tokens_row(1) [OF mt assms(2)] by (force dest: map_of_SomeD)
  then obtain n l where row: "(t, n, l) \<in> set rows" by auto
  from merge_tokens_row(3) [OF mt assms(2) row] tot assms(3-5,8)
  have m: "mergeBudgetAmount (Some tot) (Some left) (map_of (merge_requested inp) t) (map_of addCaps t) True False = Inr (n, l)"
    by simp
  have "\<And>x. map_of addCaps t = Some x \<Longrightarrow> 0 \<le> x" by (rule add_caps_nonneg [OF ac])
  note used = merge_amount_budget [OF m this]
  have "merge_remove_only inp \<longrightarrow> n = tot \<and> l = left"
    using used(5) ac remove_only_scope(1,2) [OF _ g assms(3)] by (auto simp: no_addition_def)
  moreover have "n < 2 ^ 256" using merge_amount_fits(1) [OF m] by (auto simp: fits_uint256_def)
  moreover have "token_cap t n \<in> set (bd_start_amounts draft)" "token_cap t l \<in> set (pm_spend_caps (bd_permissions draft))"
    "bd_started_at draft = budget_started_at cur"
    using row caps assms(3-5) by (force simp: d merge_draft_def starts_new_totals_def)+
  ultimately show ?thesis using used(1-4) tot by blast
qed

theorem merge_preserves_used_witness:
  "\<exists>draft. MergeBudgetPolicy id 1000 demo_input = Inr draft \<and>
     (\<exists>n l. token_cap 7 n \<in> set (bd_start_amounts draft) \<and>
        token_cap 7 l \<in> set (pm_spend_caps (bd_permissions draft)) \<and> n - l = 5)"
proof -
  have c: "bm_current demo_input = Some demo_budget" "bm_remainder demo_input = Some demo_remainder"
    "\<not> merge_reset demo_input"
    by (simp_all add: demo_input_def merge_reset_def demo_extend_def)
  have "map_of (gr_erc20 demo_rem) 7 = Some 4" by (simp add: demo_rem_def)
  from merge_preserves_used [OF demo_merge _ c(1) demo_is_budget c(3) _ demo_totals_ok this] demo_remainder_ok c(2)
    demo_merge show ?thesis by auto
qed

text \<open>
The native part of a budget keeps what was used in the same way, and newly priced gas grows the
total and the limit by the same amount.
\<close>

lemma merge_preserves_used_native:
  assumes "MergeBudgetPolicy ord clock inp = Inr draft" and "bm_current inp = Some cur"
    and "isWalletBudget (Some cur)" and "\<not> merge_reset inp"
    and "budgetMergeRemainder (Some cur) (bm_remainder inp) = Inr rem" and "gr_native rem = Some left"
  shows "\<exists>totals tot n l. budgetMergeTotals (Some cur) rem = Inr (totals, Some tot) \<and>
    bd_start_native draft = Some \<lparr>nat_amount = sdecimal n, nat_granted = []\<rparr> \<and>
    pm_native_spend_cap (bd_permissions draft) = Some \<lparr>nat_amount = sdecimal l, nat_granted = []\<rparr> \<and>
    n - l = tot - left \<and> tot \<le> n \<and> left \<le> l"
proof -
  obtain totals nt rows native perms where mt: "budgetMergeTotals (Some cur) rem = Inr (totals, nt)"
    and mn: "merge_native inp rem nt = Inr native"
    and d: "draft = merge_draft inp rem rows native perms"
    and p: "pm_native_spend_cap perms = map_option (\<lambda>(_, left). \<lparr>nat_amount = sdecimal left, nat_granted = []\<rparr>) native"
    by (rule merge_success [OF assms(1)]) (use assms in \<open>simp add: merged_permissions_def Let_def\<close>)
  obtain tot where "nt = Some tot" using budget_totals_cover(2) [OF mt assms(3) assms(6)] by blast
  moreover obtain n l where "native = Some (n, l)" "n - l = tot - left" "tot \<le> n" "left \<le> l"
    by (rule merge_native_usage [OF mn [unfolded calculation] assms(6)]) (use assms in auto)
  ultimately show ?thesis using mt p by (auto simp: d merge_draft_def)
qed

lemma merge_preserves_used_native_witness:
  "\<exists>n l. pm_native_spend_cap demo_merged = Some \<lparr>nat_amount = sdecimal l, nat_granted = []\<rparr> \<and> n - l = 5 \<and> 9 \<le> n"
proof -
  have c: "bm_current demo_input = Some demo_budget" "bm_remainder demo_input = Some demo_remainder"
    "\<not> merge_reset demo_input"
    by (simp_all add: demo_input_def merge_reset_def demo_extend_def)
  have "gr_native demo_rem = Some 4" by (simp add: demo_rem_def)
  from merge_preserves_used_native [OF demo_merge c(1) demo_is_budget c(3) _ this] demo_remainder_ok c(2) demo_totals_ok
  show ?thesis by (auto simp: merge_draft_def)
qed

lemma set_update_subset: "set (AList.update k v xs) \<subseteq> insert (k, v) (set xs)"
  by (induction xs) auto

text \<open>The acknowledged delegations under construction are under the key of their recipient.\<close>

definition acks_keyed :: "(address \<times> delegated_recipient) list \<Rightarrow> bool" where
  "acks_keyed out \<longleftrightarrow> (\<forall>(k, ack) \<in> set out. dr_recipient ack = Some k)"

lemma put_ack_cases:
  obtains k ack' where "dr_recipient ack' = Some k" "set (put_ack rs add ack out) \<subseteq> insert (k, ack') (set out)"
proof -
  let ?ack = "if dr_recipient ack = None then ack\<lparr>dr_recipient := Some zero_address\<rparr> else ack"
  have "dr_recipient ?ack = Some (case dr_recipient ?ack of None \<Rightarrow> zero_address | Some a \<Rightarrow> a)" by auto
  moreover have "set (put_ack rs add ack out) \<subseteq> insert (case dr_recipient ?ack of None \<Rightarrow> zero_address | Some a \<Rightarrow> a, ?ack) (set out)"
    unfolding put_ack_def Let_def
    using set_update_subset [of "case dr_recipient ?ack of None \<Rightarrow> zero_address | Some a \<Rightarrow> a" ?ack out] by auto
  ultimately show thesis by (rule that)
qed

lemma put_ack_keyed:
  assumes "acks_keyed out" shows "acks_keyed (put_ack rs add ack out)"
proof -
  obtain k ack' where c: "dr_recipient ack' = Some k" "set (put_ack rs add ack out) \<subseteq> insert (k, ack') (set out)"
    by (rule put_ack_cases)
  have "dr_recipient a = Some j" if "(j, a) \<in> set (put_ack rs add ack out)" for j a
    using subsetD [OF c(2) that] c(1) assms by (auto simp: acks_keyed_def)
  then show ?thesis by (auto simp: acks_keyed_def)
qed

lemma put_ack_keys: "fst ` set out \<subseteq> fst ` set (put_ack rs add ack out)"
  unfolding put_ack_def Let_def by (simp add: dom_update) auto

lemma fold_put_ack:
  "acks_keyed out \<Longrightarrow> acks_keyed (fold (put_ack rs add) acks out) \<and> fst ` set out \<subseteq> fst ` set (fold (put_ack rs add) acks out)"
proof (induction acks arbitrary: out)
  case (Cons ack acks)
  from Cons.IH [OF put_ack_keyed [OF Cons.prems], of rs add ack] put_ack_keys [of out rs add ack] show ?case by auto
qed simp

lemma delegated_kept:
  assumes "ack \<in> set current" "dr_recipient ack = Some r" "r \<noteq> zero_address" "Some r \<in> set rs"
  shows "\<exists>ack' \<in> set (carriedDelegatedRecipients current addition rs). dr_recipient ack' = Some r"
proof -
  let ?o = "fold (put_ack rs False) current []"
  have nil: "acks_keyed []" by (simp add: acks_keyed_def)
  obtain xs ys where c: "current = xs @ ack # ys" using split_list [OF assms(1)] by blast
  let ?p = "put_ack rs False ack (fold (put_ack rs False) xs [])"
  have "r \<in> fst ` set ?p"
    using assms(2-4) by (auto simp: put_ack_def Let_def map_of_eq_None_iff intro: weak_map_of_SomeI)
  moreover have "fst ` set ?p \<subseteq> fst ` set ?o"
    unfolding c using fold_put_ack [OF put_ack_keyed [OF conjunct1 [OF fold_put_ack [OF nil]]]] by simp
  moreover have "acks_keyed ?o" using fold_put_ack [OF nil] by blast
  ultimately have "r \<in> fst ` set (fold (put_ack rs True) addition ?o)" "acks_keyed (fold (put_ack rs True) addition ?o)"
    using fold_put_ack [of ?o rs True addition] by blast+
  then show ?thesis by (force simp: carriedDelegatedRecipients_def acks_keyed_def)
qed

lemma delegated_removed: "set (carriedDelegatedRecipients current [] rs) \<subseteq> set current"
proof -
  have p: "snd ` set (put_ack rs False ack out) \<subseteq> insert ack (snd ` set out)" for ack out
    by (auto simp: put_ack_def Let_def split: option.splits if_splits)
  have "snd ` set (fold (put_ack rs False) acks out) \<subseteq> set acks \<union> snd ` set out" for acks out
  proof (induction acks arbitrary: out)
    case (Cons ack acks)
    from Cons [of "put_ack rs False ack out"] p [of ack out] show ?case by auto
  qed simp
  from this [of current "[]"] show ?thesis by (simp add: carriedDelegatedRecipients_def)
qed

text \<open>
C26: A merge onto a current permission keeps the scope of it unless the owner removes it: every target and selector stays
allowed except the removed ones, none of which remains; every non-zero native recipient stays, and every one of them with
an acknowledged delegation keeps an acknowledgement; transfers to contracts stay allowed when they were; without new
totals the end is not shortened, and a wallet budget with a native cap keeps one of at least the remainder. (The limits of
the tokens are the subject of the statement on what has been used.) A pure removal leaves exactly the current selectors
less the removed ones, with the same end, the same permission of transfers to contracts, no new recipient and no new
acknowledgement.
\<close>

theorem merge_keeps_rights:
  assumes "MergeBudgetPolicy ord clock inp = Inr draft" and "bm_current inp = Some cur"
  shows "let perms = bd_permissions draft; new = set (action_selectors (pm_allowed_actions perms));
      old = set (action_set (sp_allowed_actions cur)); gone = set (action_set (removed_actions inp));
      recips = set (pm_native_recipients perms); until = pm_valid_until_ms perms;
      acks = pm_delegated_native_recipients perms in
    old - gone \<subseteq> new \<and> new \<inter> gone = {} \<and>
    {Some a | a. Some a \<in> set (sp_native_recipients cur) \<and> a \<noteq> zero_address} \<subseteq> recips \<and>
    (\<forall>a. Some a \<in> set (sp_native_recipients cur) \<and> a \<noteq> zero_address \<and>
        Some a \<in> dr_recipient ` set (sp_delegated_native_recipients cur) \<longrightarrow> Some a \<in> dr_recipient ` set acks) \<and>
    (sp_allow_contract_recipient cur \<longrightarrow> pm_allow_contract_recipient perms) \<and>
    (\<not> merge_reset inp \<longrightarrow> sp_valid_until cur \<le> until) \<and>
    (\<not> merge_reset inp \<and> isWalletBudget (Some cur) \<longrightarrow>
       (\<forall>rem left. budgetMergeRemainder (Some cur) (bm_remainder inp) = Inr rem \<and> gr_native rem = Some left \<longrightarrow>
          (\<exists>l\<ge>left. pm_native_spend_cap perms = Some \<lparr>nat_amount = sdecimal l, nat_granted = []\<rparr>))) \<and>
    (merge_remove_only inp \<longrightarrow> new = old - gone \<and> until = sp_valid_until cur \<and>
       recips \<subseteq> set (sp_native_recipients cur) \<and> set acks \<subseteq> set (sp_delegated_native_recipients cur) \<and>
       pm_allow_contract_recipient perms = sp_allow_contract_recipient cur)"
proof -
  obtain rem rows native groups recipients until0 until actions where g: "merge_guards inp = Inr ()"
    and sc: "merge_scope inp = Inr (groups, recipients, until0)" and mu: "merge_until inp until0 = Inr until"
    and un: "budgetActionUnion groups (removed_actions inp) = Inr actions"
    and d: "draft = merge_draft inp rem rows native (merged_permissions inp rows native actions recipients until)"
    by (rule merge_success [OF assms(1)]) (simp add: removed_actions_def)
  have p: "pm_allowed_actions (bd_permissions draft) = actions" "pm_valid_until_ms (bd_permissions draft) = until"
    "pm_native_recipients (bd_permissions draft) = dedupeRecipients recipients"
    "pm_delegated_native_recipients (bd_permissions draft) = carriedDelegatedRecipients (sp_delegated_native_recipients cur)
      (pa_delegated_native_recipients (merge_addition inp)) (dedupeRecipients recipients)"
    "pm_allow_contract_recipient (bd_permissions draft) \<longleftrightarrow>
      sp_allow_contract_recipient cur \<or> pa_allow_contract_recipient (merge_addition inp)"
    by (simp_all add: d merge_draft_def merged_permissions_def Let_def assms(2))
  note carried = merge_scope_carries [OF sc assms(2)]
  have "set (action_selectors actions) =
      set (action_set (concat groups)) - set (action_set (removed_actions inp))"
    by (rule budgetActionUnion_set [OF un])
  moreover from carried(2) have "set (action_set (sp_allowed_actions cur)) \<subseteq> set (action_set (concat groups))"
    using action_set_Cons_concat by blast
  moreover have "merge_remove_only inp \<longrightarrow> set (action_set (concat groups)) = set (action_set (sp_allowed_actions cur))
      \<and> recipients = sp_native_recipients cur"
    using remove_only_scope(4) [OF _ g assms(2)] sc by (auto simp: action_set_Cons_concat)
  moreover have "merge_remove_only inp \<longrightarrow> until = sp_valid_until cur"
    using remove_only_until [OF _ mu assms(2)] by blast
  moreover have "Some a \<in> dr_recipient ` set (pm_delegated_native_recipients (bd_permissions draft))"
    if "Some a \<in> set (sp_native_recipients cur)" "a \<noteq> zero_address" "Some a \<in> dr_recipient ` set (sp_delegated_native_recipients cur)" for a
  proof -
    have "Some a \<in> set (dedupeRecipients recipients)" using that(1,2) carried(3) by (auto simp: set_dedupeRecipients)
    with that(2,3) show ?thesis unfolding p(4) using delegated_kept by (smt (verit) image_iff)
  qed
  moreover have "merge_remove_only inp \<longrightarrow> set (pm_delegated_native_recipients (bd_permissions draft)) \<subseteq> set (sp_delegated_native_recipients cur)
      \<and> pm_allow_contract_recipient (bd_permissions draft) = sp_allow_contract_recipient cur"
    unfolding p(4,5) using remove_only_scope(1) [OF _ g assms(2)] delegated_removed by (simp add: no_addition_def)
  moreover have "\<exists>l\<ge>left. pm_native_spend_cap (bd_permissions draft) = Some \<lparr>nat_amount = sdecimal l, nat_granted = []\<rparr>"
    if "\<not> merge_reset inp" "isWalletBudget (Some cur)" "budgetMergeRemainder (Some cur) (bm_remainder inp) = Inr rm" "gr_native rm = Some left" for rm left
    using merge_preserves_used_native [OF assms that(2,1,3,4)] by blast
  ultimately show ?thesis
    using merge_until_extends [OF mu assms(2) carried(1)] carried(3) p(5)
    unfolding Let_def p(1-3) by (intro conjI allI impI; auto simp: set_dedupeRecipients)
qed

theorem merge_keeps_rights_witness:
  "(7, ''0xa9059cbb'') \<in> set (action_selectors (pm_allowed_actions demo_merged)) \<and> 5000 \<le> pm_valid_until_ms demo_merged"
proof -
  have c: "bm_current demo_input = Some demo_budget" "\<not> merge_reset demo_input" "removed_actions demo_input = []"
    by (simp_all add: demo_input_def merge_reset_def demo_extend_def removed_actions_def)
  have "(7, ''0xa9059cbb'') \<in> set (action_set (sp_allowed_actions demo_budget))" "sp_valid_until demo_budget = 5000"
    by (simp_all add: demo_budget_def action_set_def transfer_normal)
  moreover have "action_set [] = []" by (simp add: action_set_def)
  ultimately show ?thesis using merge_keeps_rights [OF demo_merge c(1)] c
    by (auto simp: Let_def merge_draft_def)
qed

lemma mapE_map: "mapE f xs = Inr ys \<longleftrightarrow> (\<forall>x \<in> set xs. \<exists>y. f x = Inr y) \<and> ys = map (\<lambda>x. projr (f x)) xs"
  by (induction xs arbitrary: ys) auto

lemma mapE_perm:
  assumes "mapE f xs = Inr ys" and "mset xs' = mset xs"
  obtains ys' where "mapE f xs' = Inr ys'" and "mset ys' = mset ys"
proof -
  from assms have "mapE f xs' = Inr (map (\<lambda>x. projr (f x)) xs')" by (auto simp: mapE_map dest: mset_eq_setD)
  with assms that show thesis by (auto simp: mapE_map)
qed

lemma sort_token_caps_perm:
  assumes "mset rows' = mset rows" and "distinct (map fst rows)"
  shows "sortSpendCaps (map (\<lambda>(t, r). token_cap t (f r)) rows') = sortSpendCaps (map (\<lambda>(t, r). token_cap t (f r)) rows)"
    (is "sortSpendCaps ?xs' = sortSpendCaps ?xs")
proof (rule sorted_caps_unique)
  have t: "map cap_token ?xs = map Some (map fst rows)" by (auto simp: token_cap_def)
  have m: "mset ?xs' = mset ?xs" using assms(1) by simp
  then show "mset (sortSpendCaps ?xs') = mset (sortSpendCaps ?xs)" by simp
  have some: "\<forall>c \<in> set ?xs. cap_token c \<noteq> None" by (auto simp: token_cap_def)
  have "set ?xs' = set ?xs" using m by (rule mset_eq_setD)
  with some show "sorted_wrt cap_le (sortSpendCaps ?xs')" "sorted_wrt cap_le (sortSpendCaps ?xs)"
    "\<forall>c \<in> set (sortSpendCaps ?xs'). cap_token c \<noteq> None" by (auto intro!: sortSpendCaps_sorted)
  have "distinct (map cap_token ?xs)" unfolding t using assms(2) distinct_map [of Some "map fst rows"]
    by (simp del: map_map)
  moreover have "mset (map cap_token (sortSpendCaps ?xs')) = mset (map cap_token ?xs)"
    using m by (simp only: mset_map mset_sortSpendCaps)
  ultimately show "distinct (map cap_token (sortSpendCaps ?xs'))" using mset_eq_imp_distinct_iff by blast
qed

lemma action_cap_guard_keys:
  "set keys = set keys' \<Longrightarrow> action_cap_guard inp rem keys actions a = action_cap_guard inp rem keys' actions a"
  by (cases "aa_target a") (simp_all add: action_cap_guard_def)

text \<open>
C27: The draft does not depend on the order in which the runtime visits the token map: if the merge
succeeds for one order it gives the same draft for every other.
\<close>

theorem merge_order_independent:
  assumes "MergeBudgetPolicy ord clock inp = Inr draft" and "\<forall>xs. mset (ord xs) = mset xs"
    and "\<forall>xs. mset (ord' xs) = mset xs"
  shows "MergeBudgetPolicy ord' clock inp = Inr draft"
proof (rule merge_success [OF assms(1)])
  fix rem totals nativeTotal addCaps rows native groups recipients until0 until actions
  assume h: "merge_guards inp = Inr ()"
    "budgetMergeRemainder (bm_current inp) (bm_remainder inp) = Inr rem"
    "budgetMergeTotals (bm_current inp) rem = Inr (totals, nativeTotal)"
    "merge_reset_guard inp rem = Inr ()"
    "foldE add_cap (pa_spend_caps (merge_addition inp)) [] = Inr addCaps"
    and mt: "merge_tokens ord inp rem totals addCaps = Inr rows"
    and h': "merge_native inp rem nativeTotal = Inr native"
    "merge_scope inp = Inr (groups, recipients, until0)"
    "merge_until inp until0 = Inr until"
    "budgetActionUnion groups (case bm_budget inp of None \<Rightarrow> [] | Some b \<Rightarrow> wb_remove_actions b) = Inr actions"
    and guard: "foldE (\<lambda>a _. action_cap_guard inp rem (map fst rows) actions a) actions () = Inr ()"
    and v: "perm_validate False clock (merged_permissions inp rows native actions recipients until) = Inr ()"
    and d: "draft = merge_draft inp rem rows native (merged_permissions inp rows native actions recipients until)"
  let ?keys = "remdups (map fst totals @ map fst (merge_requested inp) @ map fst addCaps)"
  have "mset (ord' ?keys) = mset (ord ?keys)" using assms(2,3) by simp
  from mapE_perm [OF mt [unfolded merge_tokens_def] this] obtain rows'
    where mt': "merge_tokens ord' inp rem totals addCaps = Inr rows'" and m: "mset rows' = mset rows"
    unfolding merge_tokens_def by blast
  note sorts = sort_token_caps_perm [OF m merge_tokens_row(2) [OF mt assms(2)]]
  have perms: "merged_permissions inp rows' native actions recipients until =
      merged_permissions inp rows native actions recipients until"
    using sorts [of snd] by (simp add: merged_permissions_def case_prod_unfold)
  have "merge_draft inp rem rows' native p = merge_draft inp rem rows native p" for p
    using sorts [of fst] by (simp add: merge_draft_def case_prod_unfold)
  moreover have "set (map fst rows') = set (map fst rows)" using mset_eq_setD [OF m] by simp
  then have "foldE (\<lambda>a _. action_cap_guard inp rem (map fst rows') actions a) actions () = Inr ()"
    using guard by (simp add: action_cap_guard_keys [of "map fst rows'" "map fst rows"])
  ultimately show ?thesis
    using merge_intro [OF h mt' h'] perms v d by simp
qed

theorem merge_order_independent_witness:
  "MergeBudgetPolicy rev 1000 demo_input = Inr (merge_draft demo_input demo_rem [(7, 9, 4)] (Some (9, 4)) demo_merged)"
  by (rule merge_order_independent [OF demo_merge]) simp_all

text \<open>
A pure removal is exempt from the rule that a budget's end lies in the future, but the merge still
refuses it on an ended budget: the end has to equal the current one, and the final validation rejects
an end that has passed.
\<close>

lemma remove_only_refused_after_end:
  assumes "merge_remove_only inp" and "bm_current inp = Some cur" and "sp_valid_until cur \<le> clock"
  shows "MergeBudgetPolicy ord clock inp \<noteq> Inr draft \<and>
    budget_validate (demo_extend\<lparr>wb_remove_actions := [a], wb_valid_until := 5000\<rparr>) 9000 = Inr ()"
proof
  show "MergeBudgetPolicy ord clock inp \<noteq> Inr draft"
  proof
    assume "MergeBudgetPolicy ord clock inp = Inr draft"
    then obtain rows native actions recipients until0 until where mu: "merge_until inp until0 = Inr until"
      and v: "perm_validate False clock (merged_permissions inp rows native actions recipients until) = Inr ()"
      by (rule merge_success)
    from v have "clock < until"
      by (auto simp: perm_validate_def merged_permissions_def Let_def split: if_splits)
    with remove_only_until [OF assms(1) mu assms(2)] assms(3) show False by simp
  qed
  show "budget_validate (demo_extend\<lparr>wb_remove_actions := [a], wb_valid_until := 5000\<rparr>) 9000 = Inr ()"
    by (simp add: budget_validate_def remove_only_def demo_extend_def)
qed

lemma remove_only_refused_after_end_witness:
  "\<not> (\<exists>draft. MergeBudgetPolicy id 9000 (demo_input\<lparr>bm_budget := Some (demo_extend\<lparr>wb_valid_until := 5000,
      wb_remove_actions := [\<lparr>aa_target = Some 7, aa_selectors = [''0xa9059cbb'']\<rparr>]\<rparr>)\<rparr>) = Inr draft)"
proof -
  let ?inp = "demo_input\<lparr>bm_budget := Some (demo_extend\<lparr>wb_valid_until := 5000,
      wb_remove_actions := [\<lparr>aa_target = Some 7, aa_selectors = [''0xa9059cbb'']\<rparr>]\<rparr>)\<rparr>"
  have "merge_remove_only ?inp" "bm_current ?inp = Some demo_budget" "sp_valid_until demo_budget \<le> 9000"
    by (simp_all add: merge_remove_only_def remove_only_def demo_extend_def demo_input_def demo_budget_def)
  from remove_only_refused_after_end [OF this] show ?thesis by blast
qed

end
