(* ===== verification/Retry.thy ===== *)
theory Retry
  imports Workflow Selectors
begin

text \<open>
  The per-execution ceilings, \<open>core/taskengine/limits.go\<close>, and node retries,
  \<open>core/taskengine/retry.go\<close>, with the dispatch of nodes and of loop iterations in \<open>vm.go\<close>. Durations are nanoseconds. What the outside does during a retried node is
  an argument: the outcome of each attempt, whether the context was cancelled, whether a sleep ran to its
  end. The rounded product of the backoff and the multiplier in \<open>float64\<close> is the parameter \<open>fmul\<close>;
  every bound holds for any such function. The cron library is the parameter \<open>schedule\<close>.
\<close>

section \<open>Ceilings\<close>

definition second :: int where "second = 1000000000"
definition millisecond :: int where "millisecond = 1000000"

definition MinCronInterval :: int where "MinCronInterval = 5 * 60 * second"
definition MinBlockTriggerInterval :: int where "MinBlockTriggerInterval = 60 * second"
definition DefaultMaxExecution :: int where "DefaultMaxExecution = (24 * 60 div 5) * 180"
definition MaxActiveWorkflowsPerOwner :: nat where "MaxActiveWorkflowsPerOwner = 1000"
definition MaxRetryAttempts :: nat where "MaxRetryAttempts = 5"
definition DefaultRetryBackoff :: int where "DefaultRetryBackoff = second"
definition MaxRetryBackoff :: int where "MaxRetryBackoff = 30 * second"
definition MaxTotalRetryDelay :: int where "MaxTotalRetryDelay = 60 * second"
definition MaxExecutionRetryDelay :: int where "MaxExecutionRetryDelay = 5 * 60 * second"
definition cronSamples :: nat where "cronSamples = 64"

lemmas ceilings = second_def millisecond_def MinCronInterval_def MinBlockTriggerInterval_def
  MaxActiveWorkflowsPerOwner_def MaxRetryAttempts_def DefaultRetryBackoff_def MaxRetryBackoff_def
  MaxTotalRetryDelay_def MaxExecutionRetryDelay_def cronSamples_def

definition chainBlockTime :: "(int \<times> int) list" where
  "chainBlockTime = [(1, 12 * second), (11155111, 12 * second), (8453, 2 * second), (84532, 2 * second),
     (56, 750 * millisecond), (42161, 250 * millisecond), (10, 2 * second), (130, 200 * millisecond),
     (4663, 100 * millisecond), (137, 2 * second), (999, second)]"

definition blockTimeForChain :: "int \<Rightarrow> int" where
  "blockTimeForChain chainID = (case map_of chainBlockTime chainID of Some t \<Rightarrow> t | None \<Rightarrow> second)"

section \<open>Trigger frequency\<close>

datatype limit_error = CronInvalid string | CronNeverFires string | CronFiresOnce string | CronMissingConfig
  | CronNoSchedules | CronTooFast string int | BlockMissingConfig | BlockInterval int | BlockTooFast int int
  | QuotaExceeded nat

text \<open>
  \<open>schedule expr now\<close> is the parsed schedule applied to a time: \<open>None\<close> when the expression does not parse,
  otherwise the \<open>Next\<close> function, whose \<open>None\<close> is the zero time. Times are nanoseconds. The sampling loop
  carries the shortest gap so far, 0 for none.
\<close>

fun sample_gaps :: "(int \<Rightarrow> int option) \<Rightarrow> nat \<Rightarrow> int \<Rightarrow> int \<Rightarrow> int" where
  "sample_gaps next 0 prev shortest = shortest"
| "sample_gaps next (Suc n) prev shortest = (case next prev of
       None \<Rightarrow> shortest
     | Some t \<Rightarrow> if t \<le> prev then shortest
         else sample_gaps next n t (let gap = t - prev in if shortest = 0 \<or> gap < shortest then gap else shortest))"

definition minCronInterval :: "(string \<Rightarrow> (int \<Rightarrow> int option) option) \<Rightarrow> int \<Rightarrow> string \<Rightarrow> limit_error + int" where
  "minCronInterval schedule now expr = (case schedule (trim_space expr) of
       None \<Rightarrow> Inl (CronInvalid expr)
     | Some next \<Rightarrow> (case next now of
           None \<Rightarrow> Inl (CronNeverFires expr)
         | Some prev \<Rightarrow> (let shortest = sample_gaps next cronSamples prev 0 in
             if shortest = 0 then Inl (CronFiresOnce expr) else Inr shortest)))"

definition triggerMonitoringChainID :: "trigger \<Rightarrow> int \<Rightarrow> int" where
  "triggerMonitoringChainID trigger fallback =
     (let event_chain = (case trigger_kind trigger of Event (Some c) \<Rightarrow> event_chain_id c | _ \<Rightarrow> 0);
          block_chain = (case trigger_kind trigger of Block (Some c) \<Rightarrow> block_chain_id c | _ \<Rightarrow> 0)
      in if event_chain \<noteq> 0 then event_chain else if block_chain \<noteq> 0 then block_chain else fallback)"

fun check_schedules :: "(string \<Rightarrow> (int \<Rightarrow> int option) option) \<Rightarrow> int \<Rightarrow> string list \<Rightarrow> limit_error + unit" where
  "check_schedules schedule now [] = Inr ()"
| "check_schedules schedule now (expr # rest) = bindE (minCronInterval schedule now expr) (\<lambda>interval.
     if interval < MinCronInterval then Inl (CronTooFast expr interval) else check_schedules schedule now rest)"

text \<open>\<open>time.Duration(config.GetInterval()) * blockTime\<close> wraps around at 64 bits.\<close>

definition validateTriggerFrequency :: "(string \<Rightarrow> (int \<Rightarrow> int option) option) \<Rightarrow> int \<Rightarrow> trigger option \<Rightarrow> int \<Rightarrow>
    limit_error + unit" where
  "validateTriggerFrequency schedule now trigger fallback = (case trigger of None \<Rightarrow> Inr ()
     | Some tr \<Rightarrow> (case trigger_kind tr of
         Cron None \<Rightarrow> Inl CronMissingConfig
       | Cron (Some c) \<Rightarrow> if cron_schedules c = [] then Inl CronNoSchedules
           else check_schedules schedule now (cron_schedules c)
       | Block None \<Rightarrow> Inl BlockMissingConfig
       | Block (Some c) \<Rightarrow>
           if block_interval c \<le> 0 then Inl (BlockInterval (block_interval c))
           else (let chainID = triggerMonitoringChainID tr fallback;
                     interval = wrap_int64 (block_interval c * blockTimeForChain chainID)
                 in if interval < MinBlockTriggerInterval then Inl (BlockTooFast (block_interval c) chainID) else Inr ())
       | _ \<Rightarrow> Inr ()))"

text \<open>\<open>n.tasks\<close> is the map of enabled tasks; only the owners matter here.\<close>

definition checkActiveWorkflowQuota :: "string list \<Rightarrow> string \<Rightarrow> limit_error + unit" where
  "checkActiveWorkflowQuota task_owners owner =
     (let active = length (filter (\<lambda>o'. to_lower o' = to_lower owner) task_owners)
      in if active \<ge> MaxActiveWorkflowsPerOwner then Inl (QuotaExceeded active) else Inr ())"

section \<open>Classes of failure\<close>

definition retryClassTimeout :: string where "retryClassTimeout = ''timeout''"
definition retryClassHTTP429 :: string where "retryClassHTTP429 = ''http_429''"
definition retryClassHTTP5xx :: string where "retryClassHTTP5xx = ''http_5xx''"
definition retryClassRPC :: string where "retryClassRPC = ''rpc_error''"

definition defaultRetryClasses :: "string list" where
  "defaultRetryClasses = [retryClassTimeout, retryClassHTTP429, retryClassHTTP5xx, retryClassRPC]"

lemmas retry_classes = retryClassTimeout_def retryClassHTTP429_def retryClassHTTP5xx_def retryClassRPC_def

text \<open>
  An error as the classification sees it: what \<open>errors.As\<close> with \<open>net.Error\<close>, \<open>errors.Is\<close> with the deadline
  error and \<open>status.FromError\<close> find in it, and its text.
\<close>

datatype grpc_code = Unavailable | DeadlineExceeded | ResourceExhausted | OtherCode nat

record go_error =
  net_timeout :: bool
  is_deadline :: bool
  grpc_status :: "grpc_code option"
  err_text :: string

definition is_space :: "char \<Rightarrow> bool" where
  "is_space c \<longleftrightarrow> (of_char c :: nat) \<in> {9, 10, 12, 13, 32}"

definition is_word :: "char \<Rightarrow> bool" where
  "is_word c \<longleftrightarrow> is_alpha c \<or> is_digit c \<or> c = CHR ''_''"

text \<open>\<open>https?://\S+\<close> at the front of a text: its length, 0 when it does not match.\<close>

definition url_length :: "string \<Rightarrow> nat" where
  "url_length s =
     (let tail = (\<lambda>n. length (takeWhile (\<lambda>c. \<not> is_space c) (drop n s))) in
      if prefix ''http://'' s \<and> tail 7 > 0 then 7 + tail 7
      else if prefix ''https://'' s \<and> tail 8 > 0 then 8 + tail 8 else 0)"

function strip_urls :: "string \<Rightarrow> string" where
  "strip_urls [] = []"
| "strip_urls (c # cs) = (let n = url_length (c # cs) in
     if n = 0 then c # strip_urls cs else CHR '' '' # strip_urls (drop n (c # cs)))"
  by pat_completeness auto

termination
  by (relation "measure length") auto

declare strip_urls.simps(2) [simp del]

text \<open>
  \<open>(?:status code|statuscode|status|http)[^0-9]{0,12}(\d{3})\b\<close> at the front of a text: the three digits. The
  run of non-digits must end where the digits start, so its length is determined.
\<close>

definition status_keywords :: "string list" where
  "status_keywords = [''status code'', ''statuscode'', ''status'', ''http'']"

definition status_after :: "string \<Rightarrow> string option" where
  "status_after s =
     (let gap = takeWhile (\<lambda>c. \<not> is_digit c) s; ds = drop (length gap) s in
      if length gap \<le> 12 \<and> length ds \<ge> 3 \<and> list_all is_digit (take 3 ds) \<and> (length ds = 3 \<or> \<not> is_word (ds ! 3))
      then Some (take 3 ds) else None)"

fun first_status :: "string list \<Rightarrow> string \<Rightarrow> string option" where
  "first_status [] s = None"
| "first_status (kw # kws) s = (case (if prefix kw s then status_after (drop (length kw) s) else None) of
     Some d \<Rightarrow> Some d | None \<Rightarrow> first_status kws s)"

fun find_status :: "string \<Rightarrow> string option" where
  "find_status [] = None"
| "find_status (c # cs) = (case first_status status_keywords (c # cs) of Some d \<Rightarrow> Some d | None \<Rightarrow> find_status cs)"

definition statusCodeFromMessage :: "string \<Rightarrow> nat" where
  "statusCodeFromMessage msg = (case find_status msg of None \<Rightarrow> 0 | Some ds \<Rightarrow> horner 0 ds)"

text \<open>\<open>\beof\b\<close>; \<open>w\<close> tells whether the character before is a word character.\<close>

fun has_eof :: "bool \<Rightarrow> string \<Rightarrow> bool" where
  "has_eof w [] = False"
| "has_eof w (c # cs) \<longleftrightarrow> \<not> w \<and> prefix ''eof'' (c # cs) \<and> (length cs = 2 \<or> \<not> is_word (cs ! 2)) \<or> has_eof (is_word c) cs"

text \<open>Classes are strings; the empty one is not retryable.\<close>

definition classifyHTTPStatus :: "int \<Rightarrow> string" where
  "classifyHTTPStatus code = (if code = 429 then retryClassHTTP429
     else if 500 \<le> code \<and> code \<le> 599 then retryClassHTTP5xx else [])"

definition classify_text :: "string \<Rightarrow> string" where
  "classify_text text =
     (let msg = strip_urls (to_lower text); code = statusCodeFromMessage msg in
      if contains msg ''timeout'' \<or> contains msg ''deadline exceeded'' then retryClassTimeout
      else if contains msg ''rpc error: code = unavailable'' \<or> contains msg ''rpc error: code = deadlineexceeded'' \<or>
              contains msg ''rpc error: code = resourceexhausted'' then retryClassRPC
      else if code > 0 \<and> classifyHTTPStatus (int code) \<noteq> [] then classifyHTTPStatus (int code)
      else if contains msg ''too many requests'' \<or> contains msg ''rate limit'' then retryClassHTTP429
      else if contains msg ''internal server error'' \<or> contains msg ''bad gateway'' \<or>
              contains msg ''service unavailable'' \<or> contains msg ''gateway timeout'' then retryClassHTTP5xx
      else if contains msg ''connection refused'' \<or> contains msg ''connection reset'' \<or> contains msg ''broken pipe'' \<or>
              contains msg ''no such host'' \<or> has_eof False msg then retryClassRPC
      else [])"

definition classifyRetryableError :: "go_error option \<Rightarrow> string" where
  "classifyRetryableError err = (case err of None \<Rightarrow> []
     | Some e \<Rightarrow>
         if net_timeout e then retryClassTimeout
         else if is_deadline e then retryClassTimeout
         else (case grpc_status e of
             Some Unavailable \<Rightarrow> retryClassRPC
           | Some DeadlineExceeded \<Rightarrow> retryClassTimeout
           | Some ResourceExhausted \<Rightarrow> retryClassHTTP429
           | Some (OtherCode _) \<Rightarrow> []
           | None \<Rightarrow> classify_text (err_text e)))"

text \<open>
  The parts of \<open>Execution_Step\<close> that retrying reads and writes. \<open>rest_status\<close> is the number in the
  standard response envelope of a REST step, if it has one.
\<close>

record exec_step =
  st_success :: bool
  st_error :: string
  rest_status :: "rat option"
  st_start_at :: int
  st_end_at :: int
  st_log :: string

definition httpStatusFromStep :: "exec_step \<Rightarrow> int" where
  "httpStatusFromStep step = (case rest_status step of None \<Rightarrow> 0
     | Some q \<Rightarrow> if 0 \<le> q then \<lfloor>q\<rfloor> else \<lceil>q\<rceil>)"

definition retryClassFor :: "exec_step option \<Rightarrow> go_error option \<Rightarrow> string" where
  "retryClassFor step err =
     (if err \<noteq> None then classifyRetryableError err
      else case step of None \<Rightarrow> []
        | Some s \<Rightarrow>
            if st_success s then []
            else if httpStatusFromStep s > 0 then classifyHTTPStatus (httpStatusFromStep s)
            else if st_error s \<noteq> []
            then classifyRetryableError (Some \<lparr>net_timeout = False, is_deadline = False, grpc_status = None, err_text = st_error s\<rparr>)
            else [])"

definition retryClassEnabled :: "string \<Rightarrow> retry_policy option \<Rightarrow> bool" where
  "retryClassEnabled cls policy \<longleftrightarrow> cls \<noteq> [] \<and>
     (let enabled = (case policy of None \<Rightarrow> [] | Some p \<Rightarrow> retry_on p)
      in cls \<in> set (if enabled = [] then defaultRetryClasses else enabled))"

section \<open>The schedule of backoffs\<close>

text \<open>The getters of a nil policy return zero values.\<close>

definition zero_policy :: retry_policy where
  "zero_policy = \<lparr>max_attempts = 0, backoff_ms = 0, backoff_multiplier = Fin 0, max_backoff_ms = 0, retry_on = []\<rparr>"

definition policy_or_zero :: "retry_policy option \<Rightarrow> retry_policy" where
  "policy_or_zero p = (case p of None \<Rightarrow> zero_policy | Some q \<Rightarrow> q)"

definition ms_duration :: "32 word \<Rightarrow> int" where
  "ms_duration w = uint w * millisecond"

definition effectiveMaxBackoff :: "retry_policy \<Rightarrow> int" where
  "effectiveMaxBackoff p = (let m = ms_duration (max_backoff_ms p) in
     if m \<le> 0 \<or> m > MaxRetryBackoff then MaxRetryBackoff else m)"

definition effectiveInitialBackoff :: "retry_policy \<Rightarrow> int" where
  "effectiveInitialBackoff p =
     (let b = ms_duration (backoff_ms p); b' = (if b \<le> 0 then DefaultRetryBackoff else b)
      in if b' > effectiveMaxBackoff p then effectiveMaxBackoff p else b')"

fun float_le_zero :: "float64 \<Rightarrow> bool" where
  "float_le_zero NaN = False"
| "float_le_zero PosInf = False"
| "float_le_zero NegInf = True"
| "float_le_zero (Fin q) = (q \<le> 0)"

fun float_negative :: "float64 \<Rightarrow> bool" where
  "float_negative NegInf = True"
| "float_negative (Fin q) = (q < 0)"
| "float_negative _ = False"

definition effectiveMultiplier :: "retry_policy \<Rightarrow> float64" where
  "effectiveMultiplier p = (if float_le_zero (backoff_multiplier p) then Fin 2 else backoff_multiplier p)"

text \<open>The comparison with \<open>float64(max)\<close> is exact: \<open>max\<close> is at most thirty seconds in nanoseconds.\<close>

definition nextBackoff :: "(int \<Rightarrow> float64 \<Rightarrow> float64) \<Rightarrow> int \<Rightarrow> float64 \<Rightarrow> int \<Rightarrow> int" where
  "nextBackoff fmul cur multiplier mx = (case fmul cur multiplier of
       NaN \<Rightarrow> mx
     | PosInf \<Rightarrow> mx
     | NegInf \<Rightarrow> mx
     | Fin q \<Rightarrow> if q \<ge> of_int mx then mx else if q < 1 then 1 else \<lfloor>q\<rfloor>)"

fun sum_backoffs :: "(int \<Rightarrow> float64 \<Rightarrow> float64) \<Rightarrow> float64 \<Rightarrow> int \<Rightarrow> nat \<Rightarrow> int \<Rightarrow> int" where
  "sum_backoffs fmul m mx 0 backoff = 0"
| "sum_backoffs fmul m mx (Suc n) backoff = backoff + sum_backoffs fmul m mx n (nextBackoff fmul backoff m mx)"

definition worstCaseRetryDelay :: "(int \<Rightarrow> float64 \<Rightarrow> float64) \<Rightarrow> retry_policy \<Rightarrow> int" where
  "worstCaseRetryDelay fmul p =
     (let attempts = min (unat (max_attempts p)) MaxRetryAttempts
      in sum_backoffs fmul (effectiveMultiplier p) (effectiveMaxBackoff p) (attempts - 1) (effectiveInitialBackoff p))"

section \<open>Accepting a policy\<close>

fun nodeSupportsRetry_type :: "node_type \<Rightarrow> bool" where
  "nodeSupportsRetry_type RestApi = True"
| "nodeSupportsRetry_type GraphqlQuery = True"
| "nodeSupportsRetry_type ContractRead = True"
| "nodeSupportsRetry_type Balance = True"
| "nodeSupportsRetry_type (Loop r) \<longleftrightarrow> r \<in> {LoopRestApi, LoopGraphql, LoopContractRead}"
| "nodeSupportsRetry_type _ = False"

definition nodeSupportsRetry :: "node option \<Rightarrow> bool" where
  "nodeSupportsRetry n = (case n of None \<Rightarrow> False | Some x \<Rightarrow> nodeSupportsRetry_type (node_type x))"

datatype retry_error = RetryUnsupported string | RetryAttempts string | RetryBackoff string | RetryMaxBackoff string
  | RetryMultiplier string | RetryUnknownClass string string | RetryTotalDelay string int

definition validateRetryPolicy :: "(int \<Rightarrow> float64 \<Rightarrow> float64) \<Rightarrow> string \<Rightarrow> retry_policy option \<Rightarrow> bool \<Rightarrow> retry_error + unit" where
  "validateRetryPolicy fmul label policy supported = (case policy of None \<Rightarrow> Inr ()
     | Some p \<Rightarrow>
         if \<not> supported then Inl (RetryUnsupported label)
         else if unat (max_attempts p) \<le> 1 then Inr ()
         else if unat (max_attempts p) > MaxRetryAttempts then Inl (RetryAttempts label)
         else if ms_duration (backoff_ms p) > MaxRetryBackoff then Inl (RetryBackoff label)
         else if ms_duration (max_backoff_ms p) > MaxRetryBackoff then Inl (RetryMaxBackoff label)
         else if float_negative (backoff_multiplier p) then Inl (RetryMultiplier label)
         else (case find (\<lambda>c. c \<notin> set defaultRetryClasses) (retry_on p) of
             Some c \<Rightarrow> Inl (RetryUnknownClass label c)
           | None \<Rightarrow>
               if worstCaseRetryDelay fmul p > MaxTotalRetryDelay
               then Inl (RetryTotalDelay label (worstCaseRetryDelay fmul p)) else Inr ()))"

fun validateRetryPolicies :: "(int \<Rightarrow> float64 \<Rightarrow> float64) \<Rightarrow> node list \<Rightarrow> retry_error + unit" where
  "validateRetryPolicies fmul [] = Inr ()"
| "validateRetryPolicies fmul (n # ns) =
     bindE (validateRetryPolicy fmul (if node_name n = [] then node_id n else node_name n)
       (node_retry_policy n) (nodeSupportsRetry (Some n))) (\<lambda>_. validateRetryPolicies fmul ns)"

definition propagateRetryPolicyToIteration :: "node option \<Rightarrow> node option \<Rightarrow> node option" where
  "propagateRetryPolicyToIteration parent nested = (case (parent, nested) of
       (Some p, Some n) \<Rightarrow> if node_retry_policy p = None \<or> \<not> nodeSupportsRetry nested then nested
         else Some (n\<lparr>node_retry_policy := node_retry_policy p\<rparr>)
     | _ \<Rightarrow> nested)"

section \<open>Running with retries\<close>

text \<open>
  The execution-wide budget; a nil budget is \<open>None\<close> and never refuses. \<open>reserve\<close> runs under the budget's
  mutex, so concurrent nodes reserve one after the other.
\<close>

definition reserve :: "int \<Rightarrow> int option \<Rightarrow> bool \<times> int option" where
  "reserve d b = (case b of None \<Rightarrow> (True, None)
     | Some left \<Rightarrow> if d > left then (False, b) else (True, Some (left - d)))"

text \<open>
  What happens around one retried node: the outcome of attempt \<open>i\<close>, whether the context was done after it,
  whether the sleep after it completed, and the times that the annotation of the step uses.
\<close>

record retry_run =
  attempt_result :: "nat \<Rightarrow> exec_step option \<times> go_error option"
  ctx_done :: "nat \<Rightarrow> bool"
  sleep_completes :: "nat \<Rightarrow> bool"
  elapsed_ms :: int
  clock_ms :: int
  retry_note :: "nat \<Rightarrow> string"

record retry_result =
  attempts_made :: nat
  last_result :: "exec_step option \<times> go_error option"
  budget_left :: "int option"
  reserved_delay :: int

text \<open>\<open>n\<close> attempts remain, attempt \<open>i\<close> is next; \<open>slept\<close> is what has been reserved for sleeping.\<close>

fun retry_loop :: "(int \<Rightarrow> float64 \<Rightarrow> float64) \<Rightarrow> retry_policy option \<Rightarrow> float64 \<Rightarrow> int \<Rightarrow> retry_run \<Rightarrow>
    nat \<Rightarrow> nat \<Rightarrow> int \<Rightarrow> int option \<Rightarrow> int \<Rightarrow> retry_result" where
  "retry_loop fmul policy m mx run 0 i backoff budget slept =
     \<lparr>attempts_made = i, last_result = (None, None), budget_left = budget, reserved_delay = slept\<rparr>"
| "retry_loop fmul policy m mx run (Suc n) i backoff budget slept =
     (let out = attempt_result run i;
          stop = (\<lambda>b s. \<lparr>attempts_made = Suc i, last_result = out, budget_left = b, reserved_delay = s\<rparr>) in
      if n = 0 then stop budget slept
      else if \<not> retryClassEnabled (retryClassFor (fst out) (snd out)) policy then stop budget slept
      else if ctx_done run i then stop budget slept
      else (case reserve backoff budget of (ok, budget') \<Rightarrow>
        if \<not> ok then stop budget' slept
        else if \<not> sleep_completes run i then stop budget' (slept + backoff)
        else retry_loop fmul policy m mx run n (Suc i) (nextBackoff fmul backoff m mx) budget' (slept + backoff)))"

definition annotateRetriedStep :: "retry_run \<Rightarrow> nat \<Rightarrow> exec_step option \<Rightarrow> exec_step option" where
  "annotateRetriedStep run attempts step = map_option (\<lambda>s.
     let endAt = (if st_end_at s = 0 then clock_ms run else st_end_at s); note = retry_note run attempts in
     s\<lparr>st_end_at := endAt, st_start_at := endAt - elapsed_ms run,
       st_log := (if st_log s = [] then note else st_log s @ char_of (10 :: nat) # note)\<rparr>) step"

definition max_attempts_of :: "retry_policy option \<Rightarrow> nat" where
  "max_attempts_of policy = (case policy of None \<Rightarrow> 1
     | Some p \<Rightarrow> if unat (max_attempts p) > 1 then min (unat (max_attempts p)) MaxRetryAttempts else 1)"

definition executeWithRetry :: "(int \<Rightarrow> float64 \<Rightarrow> float64) \<Rightarrow> retry_policy option \<Rightarrow> int option \<Rightarrow> retry_run \<Rightarrow> retry_result" where
  "executeWithRetry fmul policy budget run =
     (let p = policy_or_zero policy;
          r = retry_loop fmul policy (effectiveMultiplier p) (effectiveMaxBackoff p) run (max_attempts_of policy) 0
            (effectiveInitialBackoff p) budget 0
      in if attempts_made r > 1
         then r\<lparr>last_result := (annotateRetriedStep run (attempts_made r) (fst (last_result r)), snd (last_result r))\<rparr>
         else r)"

text \<open>\<open>executeNodeWithRetry\<close> of \<open>vm.go\<close>: a node without retries is run once, outside the budget.\<close>

definition executeNodeWithRetry :: "(int \<Rightarrow> float64 \<Rightarrow> float64) \<Rightarrow> node \<Rightarrow> int option \<Rightarrow> retry_run \<Rightarrow> retry_result" where
  "executeNodeWithRetry fmul n budget run =
     (if unat (max_attempts (policy_or_zero (node_retry_policy n))) \<le> 1
      then \<lparr>attempts_made = 1, last_result = attempt_result run 0, budget_left = budget, reserved_delay = 0\<rparr>
      else executeWithRetry fmul (node_retry_policy n) budget run)"

text \<open>
  Which runner the dispatchers give a node: \<open>executeNode\<close>, and \<open>executeNodeDirectWithVars\<close> for the iterations of a loop. Only
  four kinds run under their retry policy; \<open>None\<close> is a kind the dispatcher does not know.
\<close>

definition run_once :: "int option \<Rightarrow> retry_run \<Rightarrow> retry_result" where
  "run_once budget run = \<lparr>attempts_made = 1, last_result = attempt_result run 0, budget_left = budget, reserved_delay = 0\<rparr>"

definition dispatch_node :: "(int \<Rightarrow> float64 \<Rightarrow> float64) \<Rightarrow> bool \<Rightarrow> node \<Rightarrow> int option \<Rightarrow> retry_run \<Rightarrow> retry_result option" where
  "dispatch_node fmul iteration n budget run = (case node_type n of
       RestApi \<Rightarrow> Some (executeNodeWithRetry fmul n budget run)
     | GraphqlQuery \<Rightarrow> Some (executeNodeWithRetry fmul n budget run)
     | ContractRead \<Rightarrow> Some (executeNodeWithRetry fmul n budget run)
     | Balance \<Rightarrow> if iteration then None else Some (executeNodeWithRetry fmul n budget run)
     | Await \<Rightarrow> if iteration then None else Some (run_once budget run)
     | Loop _ \<Rightarrow> None | NoType \<Rightarrow> None
     | _ \<Rightarrow> Some (run_once budget run))"

definition createNestedNodeFromLoop :: "loop_runner \<Rightarrow> string \<Rightarrow> node option" where
  "createNestedNodeFromLoop runner stepID =
     map_option (\<lambda>kind. \<lparr>node_id = stepID, node_name = ''loop_iteration_'' @ stepID, node_type = kind, node_retry_policy = None\<rparr>)
       (case runner of LoopEthTransfer \<Rightarrow> Some EthTransfer | LoopContractWrite \<Rightarrow> Some ContractWrite
        | LoopContractRead \<Rightarrow> Some ContractRead | LoopGraphql \<Rightarrow> Some GraphqlQuery | LoopRestApi \<Rightarrow> Some RestApi
        | LoopCustomCode \<Rightarrow> Some CustomCode | LoopNone \<Rightarrow> None)"

definition iteration_node :: "node \<Rightarrow> loop_runner \<Rightarrow> nat \<Rightarrow> node option" where
  "iteration_node n runner k = propagateRetryPolicyToIteration (Some n)
     (createNestedNodeFromLoop runner (node_id n @ ''_iter_'' @ sdecimal (int k)))"

text \<open>
  The iterations of a loop, one after the other as in the sequential mode, each on what the earlier ones left of the budget;
  an iteration that has no node or a node of an unknown kind fails without running anything. (Iterations of reads may run in
  parallel and then mix their reservations; what is shown of a single run holds for any budget it finds.)
\<close>

fun run_iterations :: "(int \<Rightarrow> float64 \<Rightarrow> float64) \<Rightarrow> node \<Rightarrow> loop_runner \<Rightarrow> nat \<Rightarrow> int option \<Rightarrow> retry_run list \<Rightarrow>
    int option \<times> retry_result list" where
  "run_iterations fmul n runner k budget [] = (budget, [])"
| "run_iterations fmul n runner k budget (run # runs) =
     (case Option.bind (iteration_node n runner k) (\<lambda>m. dispatch_node fmul True m budget run) of
        None \<Rightarrow> run_iterations fmul n runner (Suc k) budget runs
      | Some r \<Rightarrow> (case run_iterations fmul n runner (Suc k) (budget_left r) runs of (b, rs) \<Rightarrow> (b, r # rs)))"

definition writes_chain :: "node_type \<Rightarrow> bool" where
  "writes_chain t \<longleftrightarrow> t \<in> {EthTransfer, ContractWrite, Loop LoopEthTransfer, Loop LoopContractWrite}"

text \<open>
  \<open>executeNode\<close>: a write after a failed or unresolved write it depends on is skipped (\<open>blocked\<close>); a loop runs its
  iterations; every other node is dispatched once. The result is what is left of the budget and each run that took place.
\<close>

definition executeNode :: "(int \<Rightarrow> float64 \<Rightarrow> float64) \<Rightarrow> bool \<Rightarrow> node \<Rightarrow> int option \<Rightarrow> retry_run \<Rightarrow> retry_run list \<Rightarrow>
    int option \<times> retry_result list" where
  "executeNode fmul blocked n budget run iterations =
     (if writes_chain (node_type n) \<and> blocked then (budget, [])
      else case node_type n of Loop runner \<Rightarrow> run_iterations fmul n runner 0 budget iterations
       | _ \<Rightarrow> (case dispatch_node fmul False n budget run of None \<Rightarrow> (budget, []) | Some r \<Rightarrow> (budget_left r, [r])))"

text \<open>An execution runs its nodes, loop iterations included, on one budget.\<close>

fun run_nodes :: "(int \<Rightarrow> float64 \<Rightarrow> float64) \<Rightarrow> (bool \<times> node \<times> retry_run \<times> retry_run list) list \<Rightarrow> int option \<Rightarrow> int option \<times> int" where
  "run_nodes fmul [] budget = (budget, 0)"
| "run_nodes fmul ((blocked, n, run, iterations) # rest) budget =
     (case executeNode fmul blocked n budget run iterations of (b, rs) \<Rightarrow>
       (case run_nodes fmul rest b of (b', later) \<Rightarrow> (b', sum_list (map reserved_delay rs) + later)))"

section \<open>Lemmas\<close>

lemma effectiveMaxBackoff_range: "0 < effectiveMaxBackoff p \<and> effectiveMaxBackoff p \<le> MaxRetryBackoff"
  by (auto simp: effectiveMaxBackoff_def Let_def ceilings)

lemma effectiveInitialBackoff_range: "0 < effectiveInitialBackoff p \<and> effectiveInitialBackoff p \<le> effectiveMaxBackoff p"
  using effectiveMaxBackoff_range [of p]
  by (auto simp: effectiveInitialBackoff_def Let_def ceilings)

lemma nextBackoff_range:
  assumes "0 < mx"
  shows "0 < nextBackoff fmul cur m mx \<and> nextBackoff fmul cur m mx \<le> mx"
proof (cases "fmul cur m")
  case (Fin q)
  have "\<lfloor>q\<rfloor> \<le> mx" if "\<not> of_int mx \<le> q" using that by (meson floor_less_iff le_less not_le)
  moreover have "0 < \<lfloor>q\<rfloor>" if "\<not> q < 1" using that by simp
  ultimately show ?thesis using Fin assms by (auto simp: nextBackoff_def)
qed (use assms in \<open>auto simp: nextBackoff_def\<close>)

lemma sum_backoffs_nonneg: "0 < mx \<Longrightarrow> 0 < b \<Longrightarrow> 0 \<le> sum_backoffs fmul m mx n b"
proof (induction n arbitrary: b)
  case (Suc n)
  then show ?case using nextBackoff_range [of mx fmul b m] by fastforce
qed simp

text \<open>What the loop can reserve: at most the remaining schedule, and at most the budget.\<close>

lemma retry_loop_bounds:
  assumes "0 < n" and "0 < b" and "0 < mx" and "retry_loop fmul policy m mx run n i b budget slept = r"
  shows "i < attempts_made r \<and> attempts_made r \<le> i + n"
    and "slept \<le> reserved_delay r \<and> reserved_delay r \<le> slept + sum_backoffs fmul m mx (n - 1) b"
    and "last_result r = attempt_result run (attempts_made r - 1)"
    and "\<And>left. budget = Some left \<Longrightarrow> 0 \<le> left \<Longrightarrow>
      \<exists>left'. budget_left r = Some left' \<and> 0 \<le> left' \<and> left - left' = reserved_delay r - slept"
    and "\<forall>j. i \<le> j \<and> Suc j < attempts_made r \<longrightarrow>
      retryClassEnabled (retryClassFor (fst (attempt_result run j)) (snd (attempt_result run j))) policy"
proof -
  have "i < attempts_made r \<and> attempts_made r \<le> i + n \<and>
    (slept \<le> reserved_delay r \<and> reserved_delay r \<le> slept + sum_backoffs fmul m mx (n - 1) b) \<and>
    last_result r = attempt_result run (attempts_made r - 1) \<and>
    (\<forall>left. budget = Some left \<longrightarrow> 0 \<le> left \<longrightarrow>
      (\<exists>left'. budget_left r = Some left' \<and> 0 \<le> left' \<and> left - left' = reserved_delay r - slept)) \<and>
    (\<forall>j. i \<le> j \<and> Suc j < attempts_made r \<longrightarrow>
      retryClassEnabled (retryClassFor (fst (attempt_result run j)) (snd (attempt_result run j))) policy)"
    using assms
  proof (induction n arbitrary: i b budget slept r)
    case (Suc n)
    let ?out = "attempt_result run i" and ?b' = "nextBackoff fmul b m mx"
    have nn: "0 \<le> sum_backoffs fmul m mx k c" if "0 < c" for k c using sum_backoffs_nonneg Suc.prems(3) that by blast
    have b': "0 < ?b'" using nextBackoff_range [OF Suc.prems(3)] by blast
    obtain ok budget' where res: "reserve b budget = (ok, budget')" by (cases "reserve b budget") auto
    have keeps: "\<not> ok \<Longrightarrow> budget' = budget"
      "\<And>left. ok \<Longrightarrow> budget = Some left \<Longrightarrow> budget' = Some (left - b) \<and> b \<le> left"
      using res by (auto simp: reserve_def split: option.splits if_splits)
    show ?case
    proof (cases "n > 0 \<and> retryClassEnabled (retryClassFor (fst ?out) (snd ?out)) policy \<and> \<not> ctx_done run i \<and> ok")
      case False
      then have "r = \<lparr>attempts_made = Suc i, last_result = ?out, budget_left = budget, reserved_delay = slept\<rparr>"
        using Suc.prems(4) res keeps(1) by (auto simp: Let_def split: if_splits)
      then show ?thesis using nn [OF Suc.prems(2), of n] by auto
    next
      case True
      then obtain k where k: "n = Suc k" by (cases n) auto
      show ?thesis
      proof (cases "sleep_completes run i")
        case False
        with True have "r = \<lparr>attempts_made = Suc i, last_result = ?out, budget_left = budget', reserved_delay = slept + b\<rparr>"
          using Suc.prems(4) res by (simp add: Let_def)
        then show ?thesis using nn [OF b', of k] k Suc.prems(2) keeps(2) True by fastforce
      next
        case sl: True
        with True have rec: "retry_loop fmul policy m mx run n (Suc i) ?b' budget' (slept + b) = r"
          using Suc.prems(4) res by (simp add: Let_def)
        note IH = Suc.IH [OF _ b' Suc.prems(3) rec]
        from True IH have IHs: "Suc i < attempts_made r \<and> attempts_made r \<le> Suc i + n"
          "slept + b \<le> reserved_delay r \<and> reserved_delay r \<le> slept + b + sum_backoffs fmul m mx (n - 1) ?b'"
          "last_result r = attempt_result run (attempts_made r - 1)"
          "\<And>left. budget' = Some left \<Longrightarrow> 0 \<le> left \<Longrightarrow>
            \<exists>left'. budget_left r = Some left' \<and> 0 \<le> left' \<and> left - left' = reserved_delay r - (slept + b)"
          "\<And>j. Suc i \<le> j \<and> Suc j < attempts_made r \<Longrightarrow>
            retryClassEnabled (retryClassFor (fst (attempt_result run j)) (snd (attempt_result run j))) policy"
          by auto
        have "\<exists>left'. budget_left r = Some left' \<and> 0 \<le> left' \<and> left - left' = reserved_delay r - slept"
          if "budget = Some left" for left
          using IHs(4) [of "left - b"] keeps(2) [OF _ that] True by auto
        moreover have "retryClassEnabled (retryClassFor (fst (attempt_result run j)) (snd (attempt_result run j))) policy"
          if "i \<le> j \<and> Suc j < attempts_made r" for j
          using IHs(5) [of j] that True by (cases "j = i") auto
        moreover have "slept \<le> reserved_delay r \<and> reserved_delay r \<le> slept + sum_backoffs fmul m mx (Suc n - 1) b"
          using IHs(2) k Suc.prems(2) by simp
        ultimately show ?thesis using IHs(1,3) by simp
      qed
    qed
  qed simp
  then show "i < attempts_made r \<and> attempts_made r \<le> i + n"
    and "slept \<le> reserved_delay r \<and> reserved_delay r \<le> slept + sum_backoffs fmul m mx (n - 1) b"
    and "last_result r = attempt_result run (attempts_made r - 1)"
    and "\<And>left. budget = Some left \<Longrightarrow> 0 \<le> left \<Longrightarrow>
      \<exists>left'. budget_left r = Some left' \<and> 0 \<le> left' \<and> left - left' = reserved_delay r - slept"
    and "\<forall>j. i \<le> j \<and> Suc j < attempts_made r \<longrightarrow>
      retryClassEnabled (retryClassFor (fst (attempt_result run j)) (snd (attempt_result run j))) policy"
    by blast+
qed


lemma executeWithRetry_facts:
  assumes "executeWithRetry fmul policy budget run = r"
  shows "1 \<le> attempts_made r \<and> attempts_made r \<le> max_attempts_of policy"
    and "0 \<le> reserved_delay r \<and> reserved_delay r \<le> worstCaseRetryDelay fmul (policy_or_zero policy)"
    and "snd (last_result r) = snd (attempt_result run (attempts_made r - 1))"
    and "fst (last_result r) = (if attempts_made r > 1 then annotateRetriedStep run (attempts_made r) else (\<lambda>s. s))
           (fst (attempt_result run (attempts_made r - 1)))"
    and "\<And>left. budget = Some left \<Longrightarrow> 0 \<le> left \<Longrightarrow>
      \<exists>left'. budget_left r = Some left' \<and> 0 \<le> left' \<and> left - left' = reserved_delay r"
    and "\<forall>j. Suc j < attempts_made r \<longrightarrow>
      retryClassEnabled (retryClassFor (fst (attempt_result run j)) (snd (attempt_result run j))) policy"
proof -
  let ?p = "policy_or_zero policy"
  define q where "q = retry_loop fmul policy (effectiveMultiplier ?p) (effectiveMaxBackoff ?p) run
    (max_attempts_of policy) 0 (effectiveInitialBackoff ?p) budget 0"
  have pos: "0 < max_attempts_of policy" "0 < effectiveInitialBackoff ?p" "0 < effectiveMaxBackoff ?p"
    using effectiveInitialBackoff_range effectiveMaxBackoff_range
    by (auto simp: max_attempts_of_def MaxRetryAttempts_def split: option.splits)
  note B = retry_loop_bounds [OF pos q_def [symmetric]]
  have r: "attempts_made r = attempts_made q" "reserved_delay r = reserved_delay q" "budget_left r = budget_left q"
    "snd (last_result r) = snd (last_result q)"
    "fst (last_result r) = (if attempts_made q > 1 then annotateRetriedStep run (attempts_made q) else (\<lambda>s. s)) (fst (last_result q))"
    using assms by (auto simp: executeWithRetry_def q_def [symmetric] Let_def)
  have "max_attempts_of policy - 1 = min (unat (max_attempts ?p)) MaxRetryAttempts - 1"
    by (auto simp: max_attempts_of_def policy_or_zero_def zero_policy_def MaxRetryAttempts_def split: option.splits)
  then have "sum_backoffs fmul (effectiveMultiplier ?p) (effectiveMaxBackoff ?p) (max_attempts_of policy - 1)
      (effectiveInitialBackoff ?p) = worstCaseRetryDelay fmul ?p"
    by (simp add: worstCaseRetryDelay_def)
  then show "0 \<le> reserved_delay r \<and> reserved_delay r \<le> worstCaseRetryDelay fmul ?p" using B(2) r by simp
  show "1 \<le> attempts_made r \<and> attempts_made r \<le> max_attempts_of policy" using B(1) r by simp
  show "snd (last_result r) = snd (attempt_result run (attempts_made r - 1))" using B(3) r by simp
  show "fst (last_result r) = (if attempts_made r > 1 then annotateRetriedStep run (attempts_made r) else (\<lambda>s. s))
           (fst (attempt_result run (attempts_made r - 1)))" using B(3) r by simp
  show "\<exists>left'. budget_left r = Some left' \<and> 0 \<le> left' \<and> left - left' = reserved_delay r"
    if "budget = Some left" "0 \<le> left" for left using B(4) [OF that] r by simp
  show "\<forall>j. Suc j < attempts_made r \<longrightarrow>
      retryClassEnabled (retryClassFor (fst (attempt_result run j)) (snd (attempt_result run j))) policy"
    using B(5) r by simp
qed

lemma executeNodeWithRetry_bounds:
  assumes "executeNodeWithRetry fmul n budget run = r"
  shows "1 \<le> attempts_made r \<and> attempts_made r \<le> MaxRetryAttempts \<and> 0 \<le> reserved_delay r"
    and "\<And>left. budget = Some left \<Longrightarrow> 0 \<le> left \<Longrightarrow>
      \<exists>left'. budget_left r = Some left' \<and> 0 \<le> left' \<and> left - left' = reserved_delay r"
proof -
  have le: "max_attempts_of p \<le> MaxRetryAttempts" for p
    by (auto simp: max_attempts_of_def MaxRetryAttempts_def split: option.splits)
  show "1 \<le> attempts_made r \<and> attempts_made r \<le> MaxRetryAttempts \<and> 0 \<le> reserved_delay r"
    using assms executeWithRetry_facts(1,2) [OF refl, of fmul "node_retry_policy n" budget run] le [of "node_retry_policy n"]
    by (auto simp: executeNodeWithRetry_def MaxRetryAttempts_def split: if_splits)
  show "\<exists>left'. budget_left r = Some left' \<and> 0 \<le> left' \<and> left - left' = reserved_delay r"
    if "budget = Some left" "0 \<le> left" for left
    using assms executeWithRetry_facts(5) [OF refl that, of fmul "node_retry_policy n" run] that
    by (auto simp: executeNodeWithRetry_def split: if_splits)
qed

lemma dispatch_bounds:
  assumes "dispatch_node fmul iteration n budget run = Some r"
  shows "1 \<le> attempts_made r \<and> attempts_made r \<le> MaxRetryAttempts \<and> 0 \<le> reserved_delay r"
    and "\<And>left. budget = Some left \<Longrightarrow> 0 \<le> left \<Longrightarrow>
      \<exists>left'. budget_left r = Some left' \<and> 0 \<le> left' \<and> left - left' = reserved_delay r"
proof -
  from assms have r: "r = executeNodeWithRetry fmul n budget run \<or> r = run_once budget run"
    by (auto simp: dispatch_node_def split: node_type.splits if_splits)
  show "1 \<le> attempts_made r \<and> attempts_made r \<le> MaxRetryAttempts \<and> 0 \<le> reserved_delay r"
    using r executeNodeWithRetry_bounds(1) [OF refl, of fmul n budget run] by (auto simp: run_once_def MaxRetryAttempts_def)
  show "\<exists>left'. budget_left r = Some left' \<and> 0 \<le> left' \<and> left - left' = reserved_delay r"
    if "budget = Some left" "0 \<le> left" for left using r executeNodeWithRetry_bounds(2) [OF refl that, of fmul n run] that by (auto simp: run_once_def)
qed

text \<open>A run of a node, by itself or as an iteration, is one dispatch of it or of a node of its loop.\<close>

lemma iterations_dispatched:
  "run_iterations fmul n runner k budget runs = (b, rs) \<Longrightarrow> length rs \<le> length runs \<and> (\<forall>r \<in> set rs. \<exists>j m budget' run.
     iteration_node n runner j = Some m \<and> run \<in> set runs \<and> dispatch_node fmul True m budget' run = Some r)"
proof (induction runs arbitrary: k budget b rs)
  case (Cons run runs)
  show ?case
  proof (cases "Option.bind (iteration_node n runner k) (\<lambda>m. dispatch_node fmul True m budget run)")
    case None
    with Cons.prems Cons.IH [of "Suc k" budget b rs] show ?thesis by force
  next
    case (Some r)
    obtain b' rs' where rest: "run_iterations fmul n runner (Suc k) (budget_left r) runs = (b', rs')" by fastforce
    from Some obtain m where "iteration_node n runner k = Some m" "dispatch_node fmul True m budget run = Some r"
      by (auto simp: bind_eq_Some_conv)
    moreover have "rs = r # rs'" using Cons.prems Some rest by simp
    ultimately show ?thesis using Cons.IH [OF rest] by (fastforce simp: Let_def)
  qed
qed simp

lemma iteration_node_kind:
  assumes "iteration_node n runner k = Some m"
  shows "runner \<in> {LoopEthTransfer, LoopContractWrite} \<Longrightarrow> writes_chain (node_type m)"
    and "node_retry_policy m = None \<or> node_retry_policy m = node_retry_policy n"
  using assms
  by (auto simp: iteration_node_def createNestedNodeFromLoop_def propagateRetryPolicyToIteration_def writes_chain_def
      split: loop_runner.splits if_splits)

lemma dispatch_write:
  assumes "dispatch_node fmul iteration m budget run = Some r" "writes_chain (node_type m)" shows "r = run_once budget run"
  using assms by (auto simp: dispatch_node_def writes_chain_def)

lemma iterations_conserve:
  assumes "run_iterations fmul n runner k (Some left) runs = (b, rs)" and "0 \<le> left"
  shows "0 \<le> sum_list (map reserved_delay rs) \<and> (\<exists>left'. b = Some left' \<and> 0 \<le> left' \<and> sum_list (map reserved_delay rs) + left' = left)"
  using assms
proof (induction runs arbitrary: k left b rs)
  case (Cons run runs)
  show ?case
  proof (cases "Option.bind (iteration_node n runner k) (\<lambda>m. dispatch_node fmul True m (Some left) run)")
    case None
    with Cons.prems Cons.IH [of "Suc k" left b rs] show ?thesis by simp
  next
    case (Some r)
    then obtain m where d: "dispatch_node fmul True m (Some left) run = Some r" by (auto simp: bind_eq_Some_conv)
    obtain left1 where L: "budget_left r = Some left1" "0 \<le> left1" "left - left1 = reserved_delay r"
      using dispatch_bounds(2) [OF d refl Cons.prems(2)] by blast
    obtain b' rs' where rest: "run_iterations fmul n runner (Suc k) (Some left1) runs = (b', rs')" by fastforce
    have "rs = r # rs'" "b = b'" using Cons.prems(1) Some rest L(1) by simp_all
    with Cons.IH [OF rest L(2)] L dispatch_bounds(1) [OF d] show ?thesis by auto
  qed
qed simp

lemma executeNode_runs:
  assumes "executeNode fmul blocked n budget run iterations = (b, rs)"
  obtains (loop) runner where "node_type n = Loop runner" "run_iterations fmul n runner 0 budget iterations = (b, rs)"
  | (one) r where "\<forall>runner. node_type n \<noteq> Loop runner" "dispatch_node fmul False n budget run = Some r" "b = budget_left r" "rs = [r]"
  | (none) "rs = []" "b = budget"
proof (cases "writes_chain (node_type n) \<and> blocked")
  case True
  then show ?thesis using assms none by (simp add: executeNode_def)
next
  case False
  show ?thesis
  proof (cases "\<exists>runner. node_type n = Loop runner")
    case True
    with False assms loop show ?thesis by (auto simp: executeNode_def)
  next
    case other: False
    then have "(case dispatch_node fmul False n budget run of None \<Rightarrow> (budget, []) | Some r \<Rightarrow> (budget_left r, [r])) = (b, rs)"
      using False assms by (cases "node_type n") (auto simp: executeNode_def)
    with other one none show ?thesis by (cases "dispatch_node fmul False n budget run") auto
  qed
qed

lemma executeNode_conserves:
  assumes "executeNode fmul blocked n (Some left) run iterations = (b, rs)" and "0 \<le> left"
  shows "0 \<le> sum_list (map reserved_delay rs) \<and> (\<exists>left'. b = Some left' \<and> 0 \<le> left' \<and> sum_list (map reserved_delay rs) + left' = left)"
  using assms(1)
proof (cases rule: executeNode_runs)
  case (loop runner)
  then show ?thesis using iterations_conserve [OF _ assms(2)] by blast
next
  case (one r)
  obtain left' where "budget_left r = Some left'" "0 \<le> left'" "left - left' = reserved_delay r"
    using dispatch_bounds(2) [OF one(2) refl assms(2)] by blast
  with one(3,4) dispatch_bounds(1) [OF one(2)] show ?thesis by simp
qed (use assms(2) in simp)

lemma run_nodes_conserves:
  assumes "run_nodes fmul jobs (Some left) = (b, slept)" and "0 \<le> left"
  shows "0 \<le> slept \<and> (\<exists>left'. b = Some left' \<and> 0 \<le> left' \<and> slept + left' = left)"
  using assms
proof (induction jobs arbitrary: left b slept)
  case (Cons job jobs)
  obtain blocked n run its where job: "job = (blocked, n, run, its)" by (cases job)
  obtain b1 rs where e: "executeNode fmul blocked n (Some left) run its = (b1, rs)" by fastforce
  obtain left1 where L: "0 \<le> sum_list (map reserved_delay rs)" "b1 = Some left1" "0 \<le> left1" "sum_list (map reserved_delay rs) + left1 = left"
    using executeNode_conserves [OF e Cons.prems(2)] by blast
  obtain b' t where rest: "run_nodes fmul jobs (Some left1) = (b', t)" by fastforce
  have "b = b'" "slept = sum_list (map reserved_delay rs) + t" using Cons.prems(1) rest e L(2) by (simp_all add: job)
  then show ?case using Cons.IH [OF rest L(3)] L by auto
qed auto

lemma validateRetryPolicy_accepts:
  assumes "validateRetryPolicy fmul label policy supported = Inr ()"
  shows "policy = None \<or> (\<exists>p. policy = Some p \<and> supported \<and> (unat (max_attempts p) \<le> 1 \<or>
    unat (max_attempts p) \<le> MaxRetryAttempts \<and> worstCaseRetryDelay fmul p \<le> MaxTotalRetryDelay \<and>
    set (retry_on p) \<subseteq> set defaultRetryClasses))"
  using assms
  by (auto simp: validateRetryPolicy_def find_None_iff split: option.splits if_splits)

lemma validateRetryPolicies_each:
  "validateRetryPolicies fmul ns = Inr () \<Longrightarrow> n \<in> set ns \<Longrightarrow>
     \<exists>label. validateRetryPolicy fmul label (node_retry_policy n) (nodeSupportsRetry (Some n)) = Inr ()"
  by (induction fmul ns rule: validateRetryPolicies.induct) auto

lemma writes_not_retryable: "writes_chain (node_type n) \<Longrightarrow> \<not> nodeSupportsRetry (Some n)"
  by (auto simp: writes_chain_def nodeSupportsRetry_def)

text \<open>The fire times after \<open>t\<close>, as the sampling loop visits them.\<close>

fun fires :: "(int \<Rightarrow> int option) \<Rightarrow> nat \<Rightarrow> int \<Rightarrow> int option" where
  "fires next 0 t = Some t"
| "fires next (Suc k) t = Option.bind (next t) (fires next k)"

lemma sample_gaps_le:
  assumes "\<And>t t'. next t = Some t' \<Longrightarrow> t < t'" and "0 \<le> s"
  shows "0 \<le> sample_gaps next n t s"
    and "s \<noteq> 0 \<Longrightarrow> 0 < sample_gaps next n t s \<and> sample_gaps next n t s \<le> s"
    and "k < n \<Longrightarrow> fires next k t = Some a \<Longrightarrow> next a = Some b \<Longrightarrow>
      0 < sample_gaps next n t s \<and> sample_gaps next n t s \<le> b - a"
proof -
  have "0 \<le> sample_gaps next n t s \<and> (s \<noteq> 0 \<longrightarrow> 0 < sample_gaps next n t s \<and> sample_gaps next n t s \<le> s) \<and>
    (\<forall>k a b. k < n \<longrightarrow> fires next k t = Some a \<longrightarrow> next a = Some b \<longrightarrow>
      0 < sample_gaps next n t s \<and> sample_gaps next n t s \<le> b - a)"
    using assms(2)
  proof (induction n arbitrary: t s)
    case (Suc n)
    show ?case
    proof (cases "next t")
      case None
      have "fires next k t = Some a \<Longrightarrow> next a \<noteq> Some b" for k a b
        using None by (cases k) auto
      then show ?thesis using None Suc.prems by auto
    next
      case (Some u)
      then have "t < u" using assms(1) by blast
      let ?s = "if s = 0 \<or> u - t < s then u - t else s"
      have s: "0 < ?s" "?s \<le> u - t" "s \<noteq> 0 \<Longrightarrow> ?s \<le> s" using \<open>t < u\<close> Suc.prems by auto
      have eq: "sample_gaps next (Suc n) t s = sample_gaps next n u ?s"
        using Some \<open>t < u\<close> by (simp add: Let_def)
      have IH: "0 < sample_gaps next n u ?s" "sample_gaps next n u ?s \<le> ?s"
        "\<And>k a b. k < n \<Longrightarrow> fires next k u = Some a \<Longrightarrow> next a = Some b \<Longrightarrow> sample_gaps next n u ?s \<le> b - a"
        using Suc.IH [of ?s u] s(1) by auto
      have "sample_gaps next n u ?s \<le> b - a"
        if "k < Suc n" "fires next k t = Some a" "next a = Some b" for k a b
      proof (cases k)
        case 0 then show ?thesis using that Some IH(2) s(2) by simp
      next
        case (Suc j) then show ?thesis using that Some IH(3) [of j a b] by simp
      qed
      moreover have "s \<noteq> 0 \<longrightarrow> sample_gaps next n u ?s \<le> s" using IH(2) s(3) by linarith
      ultimately show ?thesis unfolding eq using IH(1) by (intro conjI allI impI) (simp_all del: sample_gaps.simps)
    qed
  qed simp
  then show "0 \<le> sample_gaps next n t s"
    and "s \<noteq> 0 \<Longrightarrow> 0 < sample_gaps next n t s \<and> sample_gaps next n t s \<le> s"
    and "k < n \<Longrightarrow> fires next k t = Some a \<Longrightarrow> next a = Some b \<Longrightarrow>
      0 < sample_gaps next n t s \<and> sample_gaps next n t s \<le> b - a"
    by blast+
qed

lemma check_schedules_each:
  "check_schedules schedule now es = Inr () \<Longrightarrow> e \<in> set es \<Longrightarrow>
     \<exists>i. minCronInterval schedule now e = Inr i \<and> MinCronInterval \<le> i"
  by (induction schedule now es rule: check_schedules.induct) (auto split: if_splits)

lemma blockTimeForChain_pos: "0 < blockTimeForChain c"
  by (auto simp: blockTimeForChain_def chainBlockTime_def ceilings split: option.splits if_splits)

lemma wrap_int64_accepts: "1 \<le> x \<Longrightarrow> c \<le> wrap_int64 x \<Longrightarrow> in_int64 c \<Longrightarrow> c \<le> x"
  using wrap_int64_id [of x] by (fastforce simp: in_int64_def)


lemma executeWithRetry_bounded_parts:
  assumes "executeWithRetry fmul policy (Some left) run = r" and "0 \<le> left"
  shows "1 \<le> attempts_made r \<and> attempts_made r \<le> MaxRetryAttempts \<and>
    attempts_made r \<le> max 1 (unat (max_attempts (policy_or_zero policy)))"
    and "snd (last_result r) = snd (attempt_result run (attempts_made r - 1))"
    and "fst (last_result r) = (if attempts_made r > 1 then annotateRetriedStep run (attempts_made r) else (\<lambda>s. s))
           (fst (attempt_result run (attempts_made r - 1)))"
    and "Suc j < attempts_made r \<Longrightarrow>
      retryClassEnabled (retryClassFor (fst (attempt_result run j)) (snd (attempt_result run j))) policy"
    and "0 \<le> reserved_delay r \<and> reserved_delay r \<le> worstCaseRetryDelay fmul (policy_or_zero policy)"
    and "\<exists>left'. budget_left r = Some left' \<and> 0 \<le> left' \<and> left' = left - reserved_delay r"
proof -
  note F = executeWithRetry_facts [OF assms(1)]
  have "max_attempts_of policy \<le> MaxRetryAttempts"
    "max_attempts_of policy \<le> max 1 (unat (max_attempts (policy_or_zero policy)))"
    by (auto simp: max_attempts_of_def policy_or_zero_def MaxRetryAttempts_def split: option.splits)
  then show "1 \<le> attempts_made r \<and> attempts_made r \<le> MaxRetryAttempts \<and>
    attempts_made r \<le> max 1 (unat (max_attempts (policy_or_zero policy)))" using F(1) by linarith
  show "\<exists>left'. budget_left r = Some left' \<and> 0 \<le> left' \<and> left' = left - reserved_delay r"
    using F(5) [OF refl assms(2)] by force
qed (use executeWithRetry_facts [OF assms(1)] in blast)+

lemma validated_delay:
  assumes "validateRetryPolicies fmul nodes = Inr ()" and "n \<in> set nodes"
    and "node_retry_policy m = None \<or> node_retry_policy m = node_retry_policy n" and "dispatch_node fmul iteration m budget run = Some r"
  shows "reserved_delay r \<le> MaxTotalRetryDelay"
proof -
  obtain label where v: "validateRetryPolicy fmul label (node_retry_policy n) (nodeSupportsRetry (Some n)) = Inr ()"
    using validateRetryPolicies_each [OF assms(1,2)] by blast
  note ok = validateRetryPolicy_accepts [OF v]
  have "worstCaseRetryDelay fmul p \<le> MaxTotalRetryDelay"
    if "node_retry_policy m = Some p" "\<not> unat (max_attempts p) \<le> 1" for p
    using ok that assms(3) by auto
  then have "reserved_delay (executeNodeWithRetry fmul m budget run) \<le> MaxTotalRetryDelay"
    using executeWithRetry_facts(2) [OF refl, of fmul "node_retry_policy m" budget run]
    by (cases "node_retry_policy m")
      (force simp: executeNodeWithRetry_def policy_or_zero_def zero_policy_def ceilings split: if_splits)+
  then show ?thesis
    using assms(4) by (auto simp: dispatch_node_def run_once_def ceilings split: node_type.splits if_splits)
qed

lemma iterations_write:
  assumes "run_iterations fmul n runner k budget runs = (b, rs)" "runner \<in> {LoopEthTransfer, LoopContractWrite}"
  shows "b = budget \<and> (\<forall>r \<in> set rs. \<exists>q \<in> set runs. r = run_once budget q)"
  using assms(1)
proof (induction runs arbitrary: k b rs)
  case (Cons q runs)
  show ?case
  proof (cases "Option.bind (iteration_node n runner k) (\<lambda>m. dispatch_node fmul True m budget q)")
    case None
    with Cons.prems Cons.IH [of "Suc k" b rs] show ?thesis by auto
  next
    case (Some r)
    then obtain m where m: "iteration_node n runner k = Some m" "dispatch_node fmul True m budget q = Some r"
      by (auto simp: bind_eq_Some_conv)
    have r: "r = run_once budget q" by (rule dispatch_write [OF m(2) iteration_node_kind(1) [OF m(1) assms(2)]])
    obtain b' rs' where rest: "run_iterations fmul n runner (Suc k) budget runs = (b', rs')" by fastforce
    have "rs = r # rs'" "b = b'" using Cons.prems Some rest r by (simp_all add: run_once_def)
    with Cons.IH [OF rest] r show ?thesis by auto
  qed
qed simp

lemma accepted_trigger_respects_floor_parts:
  assumes later: "\<And>expr next t t'. schedule expr = Some next \<Longrightarrow> next t = Some t' \<Longrightarrow> t < t'"
    and ok: "validateTriggerFrequency schedule now (Some tr) fallback = Inr ()"
  shows "trigger_kind tr = Block c \<Longrightarrow> \<exists>cfg. c = Some cfg \<and>
      MinBlockTriggerInterval \<le> block_interval cfg * blockTimeForChain (triggerMonitoringChainID tr fallback)"
    and "trigger_kind tr = Cron d \<Longrightarrow> \<exists>cfg. d = Some cfg \<and> cron_schedules cfg \<noteq> [] \<and>
      (\<forall>expr \<in> set (cron_schedules cfg). \<exists>next t. schedule (trim_space expr) = Some next \<and> next now = Some t \<and>
        (\<forall>k < cronSamples. \<forall>a b. fires next k t = Some a \<longrightarrow> next a = Some b \<longrightarrow> MinCronInterval \<le> b - a))"
proof -
  assume k: "trigger_kind tr = Block c"
  with ok obtain cfg where c: "c = Some cfg" "0 < block_interval cfg"
    "MinBlockTriggerInterval \<le> wrap_int64 (block_interval cfg * blockTimeForChain (triggerMonitoringChainID tr fallback))"
    by (cases c) (auto simp: validateTriggerFrequency_def Let_def split: if_splits)
  have "0 < block_interval cfg * blockTimeForChain (triggerMonitoringChainID tr fallback)"
    using c(2) blockTimeForChain_pos by simp
  then show "\<exists>cfg. c = Some cfg \<and>
      MinBlockTriggerInterval \<le> block_interval cfg * blockTimeForChain (triggerMonitoringChainID tr fallback)"
    using c wrap_int64_accepts [OF _ c(3)] by (simp add: ceilings in_int64_def)
next
  assume k: "trigger_kind tr = Cron d"
  with ok obtain cfg where d: "d = Some cfg" "cron_schedules cfg \<noteq> []"
    "check_schedules schedule now (cron_schedules cfg) = Inr ()"
    by (cases d) (auto simp: validateTriggerFrequency_def split: if_splits)
  have "\<exists>next t. schedule (trim_space expr) = Some next \<and> next now = Some t \<and>
      (\<forall>k < cronSamples. \<forall>a b. fires next k t = Some a \<longrightarrow> next a = Some b \<longrightarrow> MinCronInterval \<le> b - a)"
    if mem: "expr \<in> set (cron_schedules cfg)" for expr
  proof -
    obtain i where i: "minCronInterval schedule now expr = Inr i" "MinCronInterval \<le> i"
      using check_schedules_each [OF d(3) mem] by blast
    then obtain "next" t where n: "schedule (trim_space expr) = Some next" "next now = Some t"
      "i = sample_gaps next cronSamples t 0"
      by (auto simp: minCronInterval_def Let_def split: option.splits if_splits)
    have "i \<le> b - a" if "k < cronSamples" "fires next k t = Some a" "next a = Some b" for k a b
      using sample_gaps_le(3) [OF later [OF n(1)] order_refl that] n(3) by simp
    then show ?thesis using n i(2) by (meson order_trans)
  qed
  then show "\<exists>cfg. d = Some cfg \<and> cron_schedules cfg \<noteq> [] \<and>
      (\<forall>expr \<in> set (cron_schedules cfg). \<exists>next t. schedule (trim_space expr) = Some next \<and> next now = Some t \<and>
        (\<forall>k < cronSamples. \<forall>a b. fires next k t = Some a \<longrightarrow> next a = Some b \<longrightarrow> MinCronInterval \<le> b - a))"
    using d by blast
qed

section \<open>Properties\<close>

text \<open>
C28: Whatever the attempts return, whenever the context is cancelled and however the float product rounds,
  \<open>executeWithRetry\<close> makes at least one and at most \<open>max_attempts\<close> attempts, never more than five; it goes
  on only after an attempt whose failure class the policy enables; it returns the error of the last attempt
  and the step of the last attempt (annotated when there were several); the time it reserves for sleeping
  is at most \<open>worstCaseRetryDelay\<close> and is exactly what it takes from the execution budget, which never
  becomes negative.
\<close>

theorem executeWithRetry_bounded:
  assumes "executeWithRetry fmul policy (Some left) run = r" and "0 \<le> left"
  shows "1 \<le> attempts_made r \<and> attempts_made r \<le> MaxRetryAttempts \<and>
    attempts_made r \<le> max 1 (unat (max_attempts (policy_or_zero policy))) \<and>
    snd (last_result r) = snd (attempt_result run (attempts_made r - 1)) \<and>
    fst (last_result r) = (if attempts_made r > 1 then annotateRetriedStep run (attempts_made r) else (\<lambda>s. s))
      (fst (attempt_result run (attempts_made r - 1))) \<and>
    (\<forall>j. Suc j < attempts_made r \<longrightarrow>
      retryClassEnabled (retryClassFor (fst (attempt_result run j)) (snd (attempt_result run j))) policy) \<and>
    0 \<le> reserved_delay r \<and> reserved_delay r \<le> worstCaseRetryDelay fmul (policy_or_zero policy) \<and>
    (\<exists>left'. budget_left r = Some left' \<and> 0 \<le> left' \<and> left' = left - reserved_delay r)"
  using executeWithRetry_bounded_parts [OF assms] by blast

text \<open>
C29: Retries are bounded and never repeat a write. Executing a node runs it at most once, or, for a loop, once for each
iteration; such a run makes at most five attempts; and in a workflow whose policies pass \<open>validateRetryPolicies\<close> it sleeps at
most one minute in total. Whatever policy it carries, validated or not, a node that writes to the chain, and every iteration
of a loop over such a node, is attempted exactly once when it is run, and touches no budget. (A loop as a whole may
therefore make five attempts and sleep a minute in each of its iterations.)
\<close>

theorem validated_nodes_retry_safely:
  assumes "executeNode fmul blocked n budget run iterations = (b, rs)"
  shows "length rs \<le> (case node_type n of Loop _ \<Rightarrow> length iterations | _ \<Rightarrow> 1) \<and>
    (\<forall>r \<in> set rs. 1 \<le> attempts_made r \<and> attempts_made r \<le> MaxRetryAttempts \<and> 0 \<le> reserved_delay r) \<and>
    (\<forall>nodes. validateRetryPolicies fmul nodes = Inr () \<and> n \<in> set nodes \<longrightarrow> (\<forall>r \<in> set rs. reserved_delay r \<le> MaxTotalRetryDelay)) \<and>
    (writes_chain (node_type n) \<longrightarrow> b = budget \<and> (\<forall>r \<in> set rs. \<exists>q \<in> set (run # iterations).
       r = \<lparr>attempts_made = 1, last_result = attempt_result q 0, budget_left = budget, reserved_delay = 0\<rparr>))"
  using assms
proof (cases rule: executeNode_runs)
  case (loop runner)
  note it = iterations_dispatched [OF loop(2)]
  have "reserved_delay r \<le> MaxTotalRetryDelay" if "validateRetryPolicies fmul nodes = Inr ()" "n \<in> set nodes" "r \<in> set rs" for nodes r
    using it that(3) validated_delay [OF that(1,2)] iteration_node_kind(2) by blast
  moreover have "1 \<le> attempts_made r \<and> attempts_made r \<le> MaxRetryAttempts \<and> 0 \<le> reserved_delay r" if "r \<in> set rs" for r
    using it that dispatch_bounds(1) by blast
  moreover have "b = budget \<and> (\<forall>r \<in> set rs. \<exists>q \<in> set (run # iterations). r = run_once budget q)" if "writes_chain (node_type n)"
    using iterations_write [OF loop(2)] that loop(1) by (force simp: writes_chain_def)
  ultimately show ?thesis using loop(1) it unfolding run_once_def by simp blast
next
  case (one r)
  have "length rs \<le> (case node_type n of Loop _ \<Rightarrow> length iterations | _ \<Rightarrow> 1)" using one(1,4) by (simp split: node_type.split)
  moreover have "r = run_once budget run" if "writes_chain (node_type n)" by (rule dispatch_write [OF one(2) that])
  ultimately show ?thesis
    using one(3,4) dispatch_bounds(1) [OF one(2)] validated_delay [OF _ _ _ one(2)] unfolding run_once_def by auto
qed simp

text \<open>
However many nodes and loop iterations an execution runs, and whether or not their policies were
  validated, the sleeping they reserve together is at most five minutes, and the budget accounts for it to
  the nanosecond.
\<close>

lemma execution_retry_delay_bounded:
  "case run_nodes fmul jobs (Some MaxExecutionRetryDelay) of (b, slept) \<Rightarrow>
     0 \<le> slept \<and> slept \<le> MaxExecutionRetryDelay \<and> b = Some (MaxExecutionRetryDelay - slept)"
proof (cases "run_nodes fmul jobs (Some MaxExecutionRetryDelay)")
  case (Pair b slept)
  then show ?thesis using run_nodes_conserves [OF Pair] by (auto simp: ceilings)
qed

text \<open>
A trigger that \<open>validateTriggerFrequency\<close> accepts respects the floor of its kind. A block trigger
  spans at least a minute of blocks, computed without wrap-around: an interval whose product overflows 64
  bits can be refused by mistake but never accepted by mistake. Every schedule of a cron trigger parses and
  its first 64 gaps are at least five minutes. The hypothesis on the cron library is its documentation:
  \<open>Next\<close> returns a time later than the given one.
\<close>

lemma accepted_trigger_respects_floor:
  assumes later: "\<And>expr next t t'. schedule expr = Some next \<Longrightarrow> next t = Some t' \<Longrightarrow> t < t'"
    and ok: "validateTriggerFrequency schedule now (Some tr) fallback = Inr ()"
  shows "case trigger_kind tr of
      Block c \<Rightarrow> (\<exists>cfg. c = Some cfg \<and>
        MinBlockTriggerInterval \<le> block_interval cfg * blockTimeForChain (triggerMonitoringChainID tr fallback))
    | Cron d \<Rightarrow> (\<exists>cfg. d = Some cfg \<and> cron_schedules cfg \<noteq> [] \<and>
        (\<forall>expr \<in> set (cron_schedules cfg). \<exists>next t. schedule (trim_space expr) = Some next \<and> next now = Some t \<and>
          (\<forall>k < cronSamples. \<forall>a b. fires next k t = Some a \<longrightarrow> next a = Some b \<longrightarrow> MinCronInterval \<le> b - a)))
    | _ \<Rightarrow> True"
  using accepted_trigger_respects_floor_parts [OF assms] by (auto split: trigger_type.splits)

section \<open>Witnesses\<close>

text \<open>
  A policy of three attempts; the first attempt fails with a timeout, the second succeeds. The float product
  is taken exact.
\<close>

definition exact_fmul :: "int \<Rightarrow> float64 \<Rightarrow> float64" where
  "exact_fmul n m = (case m of Fin q \<Rightarrow> Fin (of_int n * q) | x \<Rightarrow> x)"

definition sample_policy :: retry_policy where
  "sample_policy = \<lparr>max_attempts = 3, backoff_ms = 500, backoff_multiplier = Fin 2, max_backoff_ms = 0, retry_on = []\<rparr>"

definition sample_failure :: go_error where
  "sample_failure = \<lparr>net_timeout = True, is_deadline = False, grpc_status = None, err_text = []\<rparr>"

definition sample_run :: retry_run where
  "sample_run = \<lparr>attempt_result = (\<lambda>i. if i = 0 then (None, Some sample_failure) else (None, None)),
     ctx_done = (\<lambda>_. False), sleep_completes = (\<lambda>_. True), elapsed_ms = 500, clock_ms = 1000, retry_note = (\<lambda>_. [])\<rparr>"

definition sample_node :: node where
  "sample_node = \<lparr>node_id = ''a'', node_name = ''read'', node_type = RestApi, node_retry_policy = Some sample_policy\<rparr>"

lemmas sample_simps = sample_policy_def sample_run_def sample_failure_def exact_fmul_def executeWithRetry_def
  max_attempts_of_def policy_or_zero_def effectiveMultiplier_def effectiveMaxBackoff_def effectiveInitialBackoff_def
  ms_duration_def ceilings nextBackoff_def reserve_def retryClassEnabled_def retryClassFor_def
  classifyRetryableError_def defaultRetryClasses_def retry_classes worstCaseRetryDelay_def annotateRetriedStep_def

lemma sample_attempts: "max_attempts_of (Some sample_policy) = Suc (Suc (Suc 0))"
  by (simp add: max_attempts_of_def sample_policy_def MaxRetryAttempts_def)

lemma sample_run_result:
  "executeWithRetry exact_fmul (Some sample_policy) (Some MaxExecutionRetryDelay) sample_run =
     \<lparr>attempts_made = 2, last_result = (None, None), budget_left = Some 299500000000, reserved_delay = 500000000\<rparr>"
  unfolding executeWithRetry_def sample_attempts by (simp add: sample_simps Let_def)

lemma sample_worst_case: "worstCaseRetryDelay exact_fmul sample_policy = 1500000000"
proof -
  have "min (unat (max_attempts sample_policy)) MaxRetryAttempts - 1 = Suc (Suc 0)"
    by (simp add: sample_policy_def MaxRetryAttempts_def)
  then show ?thesis unfolding worstCaseRetryDelay_def Let_def by (simp only: sum_backoffs.simps) (simp add: sample_simps)
qed

theorem executeWithRetry_bounded_witness:
  "\<exists>r. executeWithRetry exact_fmul (Some sample_policy) (Some MaxExecutionRetryDelay) sample_run = r \<and>
     attempts_made r = 2 \<and> reserved_delay r \<le> worstCaseRetryDelay exact_fmul (policy_or_zero (Some sample_policy))"
  using executeWithRetry_bounded [OF sample_run_result]
  unfolding sample_run_result by (simp add: MaxExecutionRetryDelay_def second_def)

definition sample_write :: node where
  "sample_write = \<lparr>node_id = ''b'', node_name = ''send'', node_type = EthTransfer, node_retry_policy = None\<rparr>"

lemma sample_nodes_valid: "validateRetryPolicies exact_fmul [sample_node, sample_write] = Inr ()"
  by (simp add: sample_node_def sample_write_def validateRetryPolicy_def nodeSupportsRetry_def sample_worst_case)
    (simp add: sample_policy_def ceilings ms_duration_def)

theorem validated_nodes_retry_safely_witness:
  "validateRetryPolicies exact_fmul [sample_node, sample_write] = Inr () \<and>
   (\<exists>b rs. executeNode exact_fmul False sample_write None sample_run [] = (b, rs) \<and> length rs = 1 \<and> (\<forall>r \<in> set rs. attempts_made r = 1)) \<and>
   (\<exists>b rs. executeNode exact_fmul False sample_node None sample_run [] = (b, rs) \<and> (\<forall>r \<in> set rs. reserved_delay r \<le> MaxTotalRetryDelay))"
proof (intro conjI)
  obtain b rs where w: "executeNode exact_fmul False sample_write None sample_run [] = (b, rs)" by fastforce
  have "length rs = 1" using w by (auto simp: executeNode_def sample_write_def dispatch_node_def)
  with w validated_nodes_retry_safely [OF w] show "\<exists>b rs. executeNode exact_fmul False sample_write None sample_run [] = (b, rs) \<and>
      length rs = 1 \<and> (\<forall>r \<in> set rs. attempts_made r = 1)"
    by (fastforce simp: sample_write_def writes_chain_def)
  obtain b' rs' where n: "executeNode exact_fmul False sample_node None sample_run [] = (b', rs')" by fastforce
  with validated_nodes_retry_safely [OF n] sample_nodes_valid
  show "\<exists>b rs. executeNode exact_fmul False sample_node None sample_run [] = (b, rs) \<and> (\<forall>r \<in> set rs. reserved_delay r \<le> MaxTotalRetryDelay)"
    by (metis list.set_intros(1))
qed (rule sample_nodes_valid)

text \<open>A schedule that fires every ten minutes, and a trigger that uses it.\<close>

definition ten_minutes :: "string \<Rightarrow> (int \<Rightarrow> int option) option" where
  "ten_minutes expr = (if expr = ''*/10 * * * *'' then Some (\<lambda>t. Some (t + 600 * second)) else None)"

definition sample_cron :: trigger where
  "sample_cron = \<lparr>trigger_name = ''t'', trigger_kind = Cron (Some \<lparr>cron_schedules = [''*/10 * * * *'']\<rparr>)\<rparr>"

lemma ten_minutes_gaps: "0 < g \<Longrightarrow> sample_gaps (\<lambda>t. Some (t + g)) n t g = g"
  by (induction n arbitrary: t) auto

lemma trim_cron: "trim_space ''*/10 * * * *'' = ''*/10 * * * *''"
  by (simp add: trim_space_def trim_left_id trim_right_id space_starts_def space_ends_def)

lemma sample_cron_accepted: "validateTriggerFrequency ten_minutes 0 (Some sample_cron) 1 = Inr ()"
proof -
  have "minCronInterval ten_minutes 0 ''*/10 * * * *'' = Inr (600 * second)"
    using ten_minutes_gaps [of "600 * second" 63 "2 * (600 * second)"] sample_gaps.simps(2) [of "\<lambda>t. Some (t + 600 * second)" 63 "600 * second" 0]
    by (simp add: minCronInterval_def trim_cron ten_minutes_def cronSamples_def second_def)
  then show ?thesis by (simp add: validateTriggerFrequency_def sample_cron_def ceilings)
qed

lemma accepted_trigger_respects_floor_witness:
  "validateTriggerFrequency ten_minutes 0 (Some sample_cron) 1 = Inr () \<and>
   (\<exists>cfg. trigger_kind sample_cron = Cron (Some cfg) \<and> cron_schedules cfg \<noteq> [])"
proof -
  have "next t = Some t' \<Longrightarrow> t < t'" if "ten_minutes expr = Some next" for expr "next" t t'
    using that by (auto simp: ten_minutes_def second_def split: if_splits)
  from accepted_trigger_respects_floor [OF this sample_cron_accepted] sample_cron_accepted
  show ?thesis by (auto simp: sample_cron_def)
qed

end
