(* ===== verification/UserOp.thy ===== *)
theory UserOp
  imports Prelude
begin

text \<open>
  The EntryPoint v0.7 operation and the Modular Account v2 encodings, \<open>pkg/erc4337/userop\<close>:
  \<open>v07.go\<close> (packing and hashing an operation), \<open>v07_nonce.go\<close> (the nonce selects the validation entity)
  and \<open>deferred_action.go\<close> (what an owner signs to authorize an install). \<open>crypto.Keccak256\<close> is the
  parameter \<open>keccak\<close>; the properties that need it assume that no two of the byte strings at hand collide.
\<close>

section \<open>The nonce\<close>

definition ValidationOptionGlobal :: nat where "ValidationOptionGlobal = 1"
definition ValidationOptionDeferredAction :: nat where "ValidationOptionDeferredAction = 2"
definition ValidationOptionDirectCall :: nat where "ValidationOptionDirectCall = 4"
definition FallbackSignerEntityID :: "32 word" where "FallbackSignerEntityID = 0"

definition direct_call :: "8 word \<Rightarrow> bool" where
  "direct_call options \<longleftrightarrow> bit options 2"

datatype op_error = DirectCallLocator | FieldNil string | FieldNegative string | FieldWide string
  | NonceNil | NonceNegative | NonceWide | DeadlineWide | CallShort nat | ChainBad | NonceBad
  | DataShort nat | OwnerSigLength nat | OwnerSigV nat | Unframed | SigLength nat
  | FactoryMissing | FactoryDataEmpty | PaymasterMissing string

text \<open>\<open>key.Lsh(key, 8).Or(options).Lsh(64).Or(sequence)\<close>: the parts do not overlap, so the \<open>Or\<close> adds.\<close>

definition EncodeNonceMAv2 :: "32 word \<Rightarrow> 8 word \<Rightarrow> uint64 \<Rightarrow> op_error + int" where
  "EncodeNonceMAv2 entityID options sequence =
     (if direct_call options then Inl DirectCallLocator
      else Inr ((uint entityID * 2 ^ 8 + uint options) * 2 ^ 64 + uint sequence))"

definition NonceKeyMAv2 :: "32 word \<Rightarrow> 8 word \<Rightarrow> op_error + int" where
  "NonceKeyMAv2 entityID options = bindE (EncodeNonceMAv2 entityID options 0) (\<lambda>full. Inr (full div 2 ^ 64))"

definition DecodeNonceMAv2 :: "int option \<Rightarrow> op_error + (32 word \<times> 8 word \<times> uint64)" where
  "DecodeNonceMAv2 nonce = (case nonce of None \<Rightarrow> Inl NonceNil
     | Some n \<Rightarrow>
         if n < 0 then Inl NonceNegative
         else if n \<ge> 2 ^ 256 then Inl NonceWide
         else (let rest = n div 2 ^ 64 in
           Inr (of_int (rest div 2 ^ 8), of_int rest, of_int n)))"

definition SigSegmentValidationData :: nat where "SigSegmentValidationData = 255"
definition SigTypeEOA :: nat where "SigTypeEOA = 0"

definition WrapSignatureMAv2 :: "bytes \<Rightarrow> op_error + bytes" where
  "WrapSignatureMAv2 ecdsaSig =
     (if length ecdsaSig \<noteq> 65 then Inl (SigLength (length ecdsaSig))
      else Inr ([char_of SigSegmentValidationData, char_of SigTypeEOA] @ ecdsaSig))"

section \<open>Deferred actions\<close>

definition maxDeadline :: uint64 where "maxDeadline = 2 ^ 48 - 1"

definition PackValidationLocator :: "32 word \<Rightarrow> 8 word \<Rightarrow> op_error + bytes" where
  "PackValidationLocator entityID options =
     (if direct_call options then Inl DirectCallLocator
      else Inr (be_bytes 16 0 @ be_bytes 4 (unat entityID) @ [char_of (unat options)]))"

definition FallbackSignerLocator :: bytes where
  "FallbackSignerLocator = (case PackValidationLocator FallbackSignerEntityID (of_nat ValidationOptionGlobal) of
     Inr loc \<Rightarrow> loc | Inl _ \<Rightarrow> be_bytes 21 0)"

definition EncodeDeferredActionData :: "bytes \<Rightarrow> uint64 \<Rightarrow> bytes \<Rightarrow> op_error + bytes" where
  "EncodeDeferredActionData locator deadline call =
     (if deadline > maxDeadline then Inl DeadlineWide
      else if length call < 4 then Inl (CallShort (length call))
      else Inr (locator @ be_bytes 6 (unat deadline) @ call))"

definition deferredActionTypeHash :: "(bytes \<Rightarrow> bytes) \<Rightarrow> bytes" where
  "deferredActionTypeHash keccak = keccak ''DeferredAction(uint256 nonce,uint48 deadline,bytes call)''"

definition deferredDomainTypeHash :: "(bytes \<Rightarrow> bytes) \<Rightarrow> bytes" where
  "deferredDomainTypeHash keccak = keccak ''EIP712Domain(uint256 chainId,address verifyingContract)''"

text \<open>\<open>chainID.FillBytes\<close> panics on a number wider than the 32 bytes; the chain ids are \<open>int64\<close>.\<close>

definition deferred_domain :: "(bytes \<Rightarrow> bytes) \<Rightarrow> int \<Rightarrow> address \<Rightarrow> bytes" where
  "deferred_domain keccak chainID account =
     deferredDomainTypeHash keccak @ be_bytes 32 (nat chainID) @ be_bytes 12 0 @ be_bytes 20 (unat account)"

definition deferred_struct :: "(bytes \<Rightarrow> bytes) \<Rightarrow> int \<Rightarrow> uint64 \<Rightarrow> bytes \<Rightarrow> bytes" where
  "deferred_struct keccak nonce deadline call =
     deferredActionTypeHash keccak @ be_bytes 32 (nat nonce) @ be_bytes 32 (unat deadline) @ keccak call"

definition DeferredActionDigest :: "(bytes \<Rightarrow> bytes) \<Rightarrow> int option \<Rightarrow> address \<Rightarrow> int option \<Rightarrow> uint64 \<Rightarrow> bytes \<Rightarrow>
    op_error + bytes" where
  "DeferredActionDigest keccak chainID account nonce deadline call = (case chainID of None \<Rightarrow> Inl ChainBad
     | Some c \<Rightarrow>
         if c \<le> 0 then Inl ChainBad
         else (case nonce of None \<Rightarrow> Inl NonceBad
           | Some n \<Rightarrow>
               if n < 0 \<or> n \<ge> 2 ^ 256 then Inl NonceBad
               else if deadline > maxDeadline then Inl DeadlineWide
               else Inr (keccak ([char_of (0x19 :: nat), char_of (0x01 :: nat)] @
                 keccak (deferred_domain keccak c account) @ keccak (deferred_struct keccak n deadline call)))))"

definition WrapSignatureMAv2Deferred :: "bytes \<Rightarrow> bytes \<Rightarrow> bytes \<Rightarrow> op_error + bytes" where
  "WrapSignatureMAv2Deferred encodedData ownerSig framedUserOpSig =
     (if length encodedData < 21 + 6 + 4 then Inl (DataShort (length encodedData))
      else if length ownerSig \<noteq> 65 then Inl (OwnerSigLength (length ownerSig))
      else if of_char (ownerSig ! 64) \<notin> {27, 28 :: nat} then Inl (OwnerSigV (of_char (ownerSig ! 64)))
      else if length framedUserOpSig < 2 \<or> of_char (framedUserOpSig ! 0) \<noteq> SigSegmentValidationData then Inl Unframed
      else (let deferredSig = char_of (0 :: nat) # ownerSig in
        Inr (be_bytes 4 (length encodedData) @ encodedData @ be_bytes 4 (length deferredSig) @ deferredSig @
          framedUserOpSig)))"

section \<open>The operation\<close>

record user_op =
  uo_sender :: address
  uo_nonce :: "int option"
  uo_call_data :: bytes
  uo_factory :: "address option"
  uo_factory_data :: bytes
  call_gas_limit :: "int option"
  verification_gas_limit :: "int option"
  pre_verification_gas :: "int option"
  max_fee_per_gas :: "int option"
  max_priority_fee_per_gas :: "int option"
  uo_paymaster :: "address option"
  paymaster_verification_gas :: "int option"
  paymaster_post_op_gas :: "int option"
  paymaster_data :: bytes
  uo_signature :: bytes

definition check_uint128 :: "int option \<Rightarrow> string \<Rightarrow> op_error + int" where
  "check_uint128 v name = (case v of None \<Rightarrow> Inl (FieldNil name)
     | Some n \<Rightarrow> if n < 0 then Inl (FieldNegative name) else if n \<ge> 2 ^ 128 then Inl (FieldWide name) else Inr n)"

definition packUint128Pair :: "int option \<Rightarrow> int option \<Rightarrow> string \<Rightarrow> string \<Rightarrow> op_error + bytes" where
  "packUint128Pair high low highName lowName =
     bindE (check_uint128 high highName) (\<lambda>h. bindE (check_uint128 low lowName) (\<lambda>l.
       Inr (be_bytes 16 (nat h) @ be_bytes 16 (nat l))))"

definition AccountGasLimits :: "user_op \<Rightarrow> op_error + bytes" where
  "AccountGasLimits u = packUint128Pair (verification_gas_limit u) (call_gas_limit u)
     ''verificationGasLimit'' ''callGasLimit''"

definition GasFees :: "user_op \<Rightarrow> op_error + bytes" where
  "GasFees u = packUint128Pair (max_priority_fee_per_gas u) (max_fee_per_gas u)
     ''maxPriorityFeePerGas'' ''maxFeePerGas''"

definition InitCode :: "user_op \<Rightarrow> bytes" where
  "InitCode u = (case uo_factory u of None \<Rightarrow> [] | Some f \<Rightarrow> be_bytes 20 (unat f) @ uo_factory_data u)"

definition PaymasterAndData :: "user_op \<Rightarrow> op_error + bytes" where
  "PaymasterAndData u = (case uo_paymaster u of None \<Rightarrow> Inr []
     | Some p \<Rightarrow> bindE (packUint128Pair (paymaster_verification_gas u) (paymaster_post_op_gas u)
         ''paymasterVerificationGasLimit'' ''paymasterPostOpGasLimit'')
         (\<lambda>limits. Inr (be_bytes 20 (unat p) @ limits @ paymaster_data u)))"

text \<open>\<open>abi.Arguments.Pack\<close> writes a \<open>uint256\<close> modulo \<open>2 ^ 256\<close> and an address left-padded to 32 bytes.\<close>

definition abi_uint256 :: "int \<Rightarrow> bytes" where
  "abi_uint256 n = be_bytes 32 (nat (n mod 2 ^ 256))"

definition abi_address :: "address \<Rightarrow> bytes" where
  "abi_address a = be_bytes 12 0 @ be_bytes 20 (unat a)"

definition toBytes32 :: "bytes \<Rightarrow> bytes" where
  "toBytes32 b = take 32 b @ replicate (32 - length b) (char_of (0 :: nat))"

definition check_unsigned :: "int option \<Rightarrow> string \<Rightarrow> op_error + int" where
  "check_unsigned v name = (case v of None \<Rightarrow> Inl (FieldNil name)
     | Some n \<Rightarrow> if n < 0 then Inl (FieldNegative name) else Inr n)"

definition PackForSignature :: "(bytes \<Rightarrow> bytes) \<Rightarrow> user_op \<Rightarrow> op_error + bytes" where
  "PackForSignature keccak u =
     bindE (AccountGasLimits u) (\<lambda>limits.
     bindE (GasFees u) (\<lambda>fees.
     bindE (PaymasterAndData u) (\<lambda>pm.
     bindE (check_unsigned (uo_nonce u) ''nonce'') (\<lambda>nonce.
     bindE (check_unsigned (pre_verification_gas u) ''preVerificationGas'') (\<lambda>pre.
       Inr (abi_address (uo_sender u) @ abi_uint256 nonce @ toBytes32 (keccak (InitCode u)) @
         toBytes32 (keccak (uo_call_data u)) @ limits @ abi_uint256 pre @ fees @ toBytes32 (keccak pm)))))))"

definition user_op_outer :: "(bytes \<Rightarrow> bytes) \<Rightarrow> bytes \<Rightarrow> address \<Rightarrow> int \<Rightarrow> bytes" where
  "user_op_outer keccak inner entryPoint chainID =
     toBytes32 (keccak inner) @ abi_address entryPoint @ abi_uint256 chainID"

definition GetUserOpHash :: "(bytes \<Rightarrow> bytes) \<Rightarrow> user_op \<Rightarrow> address \<Rightarrow> int option \<Rightarrow> op_error + bytes" where
  "GetUserOpHash keccak u entryPoint chainID = (case chainID of None \<Rightarrow> Inl ChainBad
     | Some c \<Rightarrow> bindE (PackForSignature keccak u) (\<lambda>inner. Inr (keccak (user_op_outer keccak inner entryPoint c))))"

text \<open>
  \<open>MarshalJSON\<close> builds a map of fields, printed with its keys in order. \<open>addr.Hex()\<close> is the parameter
  \<open>hexAddr\<close> and \<open>hexutil.Encode\<close> the parameter \<open>hexBytes\<close>.
\<close>

fun hex_text :: "nat \<Rightarrow> string" where
  "hex_text n = (if n < 16 then [hex_digit n] else hex_text (n div 16) @ [hex_digit (n mod 16)])"

declare hex_text.simps [simp del]

definition hexBig :: "int option \<Rightarrow> string \<Rightarrow> op_error + string" where
  "hexBig v name = bindE (check_unsigned v name) (\<lambda>n. Inr (''0x'' @ hex_text (nat n)))"

fun hex_fields :: "(string \<times> int option) list \<Rightarrow> op_error + (string \<times> string) list" where
  "hex_fields [] = Inr []"
| "hex_fields ((key, v) # fs) = bindE (hexBig v key) (\<lambda>s. bindE (hex_fields fs) (\<lambda>r. Inr ((key, s) # r)))"

definition factory_fields :: "(address \<Rightarrow> string) \<Rightarrow> (bytes \<Rightarrow> string) \<Rightarrow> user_op \<Rightarrow> op_error + (string \<times> string) list" where
  "factory_fields hexAddr hexBytes u = (case uo_factory u of
       None \<Rightarrow> if uo_factory_data u \<noteq> [] then Inl FactoryMissing else Inr []
     | Some f \<Rightarrow> if uo_factory_data u = [] then Inl FactoryDataEmpty
         else Inr [(''factory'', hexAddr f), (''factoryData'', hexBytes (uo_factory_data u))])"

definition paymaster_fields :: "(address \<Rightarrow> string) \<Rightarrow> (bytes \<Rightarrow> string) \<Rightarrow> user_op \<Rightarrow> op_error + (string \<times> string) list" where
  "paymaster_fields hexAddr hexBytes u = (case uo_paymaster u of
       None \<Rightarrow>
         if paymaster_verification_gas u \<noteq> None then Inl (PaymasterMissing ''paymasterVerificationGasLimit'')
         else if paymaster_post_op_gas u \<noteq> None then Inl (PaymasterMissing ''paymasterPostOpGasLimit'')
         else if paymaster_data u \<noteq> [] then Inl (PaymasterMissing ''paymasterData'')
         else Inr []
     | Some p \<Rightarrow> bindE (hex_fields [(''paymasterVerificationGasLimit'', paymaster_verification_gas u),
           (''paymasterPostOpGasLimit'', paymaster_post_op_gas u)])
         (\<lambda>limits. Inr ([(''paymaster'', hexAddr p)] @ limits @ [(''paymasterData'', hexBytes (paymaster_data u))])))"

definition MarshalJSON :: "(address \<Rightarrow> string) \<Rightarrow> (bytes \<Rightarrow> string) \<Rightarrow> user_op \<Rightarrow> op_error + (string \<times> string) list" where
  "MarshalJSON hexAddr hexBytes u =
     bindE (hex_fields [(''nonce'', uo_nonce u), (''callGasLimit'', call_gas_limit u),
       (''verificationGasLimit'', verification_gas_limit u), (''preVerificationGas'', pre_verification_gas u),
       (''maxFeePerGas'', max_fee_per_gas u), (''maxPriorityFeePerGas'', max_priority_fee_per_gas u)]) (\<lambda>nums.
     bindE (factory_fields hexAddr hexBytes u) (\<lambda>fac.
     bindE (paymaster_fields hexAddr hexBytes u) (\<lambda>pay.
       Inr (sort_key fst ([(''sender'', hexAddr (uo_sender u)), (''callData'', hexBytes (uo_call_data u)),
         (''signature'', hexBytes (uo_signature u))] @ nums @ fac @ pay)))))"

section \<open>Lemmas\<close>

lemma uint_bound: "uint (w :: 'a :: len word) < 2 ^ LENGTH('a)" "0 \<le> uint w"
  by (simp_all add: unsigned_less)

lemma nonce_parts:
  fixes e :: "32 word" and opt :: "8 word" and s :: uint64
  defines "n \<equiv> (uint e * 2 ^ 8 + uint opt) * 2 ^ 64 + uint s"
  shows "0 \<le> n" and "n < 2 ^ 104" and "n div 2 ^ 64 = uint e * 2 ^ 8 + uint opt" and "n mod 2 ^ 64 = uint s"
    and "n div 2 ^ 64 div 2 ^ 8 = uint e" and "n div 2 ^ 64 mod 2 ^ 8 = uint opt"
proof -
  have b: "uint e < 2 ^ 32" "0 \<le> uint e" "uint opt < 2 ^ 8" "0 \<le> uint opt" "uint s < 2 ^ 64" "0 \<le> uint s"
    using uint_bound [of e] uint_bound [of opt] uint_bound [of s] by simp_all
  show "0 \<le> n" "n < 2 ^ 104" using b unfolding n_def by simp_all
  show d: "n div 2 ^ 64 = uint e * 2 ^ 8 + uint opt" "n mod 2 ^ 64 = uint s"
    using b(5,6) unfolding n_def by (simp_all add: div_mult_self3 del: power_numeral)
  show "n div 2 ^ 64 div 2 ^ 8 = uint e" "n div 2 ^ 64 mod 2 ^ 8 = uint opt" using b unfolding d by simp_all
qed

lemma of_int_uint_mod: "(of_int n :: 'a :: len word) = of_int (n mod 2 ^ LENGTH('a))"
  by (simp add: word_of_int_eq_iff take_bit_eq_mod)

lemma toBytes32_id: "length b = 32 \<Longrightarrow> toBytes32 b = b"
  by (simp add: toBytes32_def)

lemma length_abi [simp]: "length (abi_uint256 n) = 32" "length (abi_address a) = 32"
  by (simp_all add: abi_uint256_def abi_address_def)

lemma unat_bytes: "unat (a :: address) < 256 ^ 20" "unat (e :: 32 word) < 256 ^ 4" "unat (q :: uint64) < 256 ^ 32"
proof -
  have "(256 :: nat) ^ 20 = 2 ^ 160" "(256 :: nat) ^ 4 = 2 ^ 32" "(2 :: nat) ^ 64 < 256 ^ 32" by simp_all
  moreover have "unat a < 2 ^ LENGTH(160)" "unat e < 2 ^ LENGTH(32)" "unat q < 2 ^ LENGTH(64)"
    by (rule unsigned_less)+
  ultimately show "unat a < 256 ^ 20" "unat e < 256 ^ 4" "unat q < 256 ^ 32" by simp_all
qed

lemma abi_address_inject: "abi_address a = abi_address b \<longleftrightarrow> a = b"
  using be_bytes_inject [OF unat_bytes(1) unat_bytes(1), of a b] by (simp add: abi_address_def word_unat_eq_iff)

lemma be_bytes_address_inject: "be_bytes 20 (unat (a :: address)) = be_bytes 20 (unat b) \<longleftrightarrow> a = b"
  using be_bytes_inject [OF unat_bytes(1) unat_bytes(1), of a b] by (simp add: word_unat_eq_iff)

lemma be_bytes_int_inject:
  assumes "0 \<le> m" "m < 256 ^ k" "0 \<le> n" "n < 256 ^ k"
  shows "be_bytes k (nat m) = be_bytes k (nat n) \<longleftrightarrow> m = n"
proof -
  have "nat m < 256 ^ k" "nat n < 256 ^ k" using assms by (auto simp: nat_less_iff)
  then show ?thesis using assms by (simp add: be_bytes_inject eq_nat_nat_iff)
qed

lemma abi_uint256_inject: "abi_uint256 m = abi_uint256 n \<longleftrightarrow> m mod 2 ^ 256 = n mod 2 ^ 256"
  unfolding abi_uint256_def by (rule be_bytes_int_inject) simp_all

lemma packUint128Pair_Inr:
  assumes "packUint128Pair a b x y = Inr w"
  obtains m n where "a = Some m" "b = Some n" "0 \<le> m" "m < 2 ^ 128" "0 \<le> n" "n < 2 ^ 128"
    "w = be_bytes 16 (nat m) @ be_bytes 16 (nat n)"
  using assms by (auto simp: packUint128Pair_def check_uint128_def split: option.splits if_splits)

lemma packUint128Pair_inject:
  assumes "packUint128Pair a b x y = Inr w" and "packUint128Pair c d x' y' = Inr w"
  shows "a = c \<and> b = d" and "length w = 32"
  using assms by (auto elim!: packUint128Pair_Inr simp: be_bytes_int_inject)


text \<open>The keccak of no two byte strings of a set is the same, and it has 32 bytes.\<close>

definition keccak_ok :: "(bytes \<Rightarrow> bytes) \<Rightarrow> bytes set \<Rightarrow> bool" where
  "keccak_ok keccak S \<longleftrightarrow> (\<forall>b. length (keccak b) = 32) \<and> inj_on keccak S"

lemma keccak_ok_eq: "keccak_ok keccak S \<Longrightarrow> a \<in> S \<Longrightarrow> b \<in> S \<Longrightarrow> keccak a = keccak b \<Longrightarrow> a = b"
  by (auto simp: keccak_ok_def dest: inj_onD)

lemma keccak_ok_length: "keccak_ok keccak S \<Longrightarrow> length (keccak b) = 32"
  by (simp add: keccak_ok_def)

lemma InitCode_inject: "InitCode u = InitCode v \<Longrightarrow>
  uo_factory u = uo_factory v \<and> (uo_factory u \<noteq> None \<longrightarrow> uo_factory_data u = uo_factory_data v)"
  by (auto simp: InitCode_def be_bytes_address_inject split: option.splits dest!: arg_cong [where f = length])

lemma PaymasterAndData_inject:
  assumes "PaymasterAndData u = Inr w" and "PaymasterAndData v = Inr w"
  shows "uo_paymaster u = uo_paymaster v \<and> (uo_paymaster u \<noteq> None \<longrightarrow>
    paymaster_verification_gas u = paymaster_verification_gas v \<and>
    paymaster_post_op_gas u = paymaster_post_op_gas v \<and> paymaster_data u = paymaster_data v)"
proof (cases "uo_paymaster u")
  case None
  with assms show ?thesis by (auto simp: PaymasterAndData_def split: option.splits dest!: arg_cong [where f = length])
next
  case (Some p)
  with assms(1) obtain l where l: "packUint128Pair (paymaster_verification_gas u) (paymaster_post_op_gas u)
      ''paymasterVerificationGasLimit'' ''paymasterPostOpGasLimit'' = Inr l" "w = be_bytes 20 (unat p) @ l @ paymaster_data u"
    by (auto simp: PaymasterAndData_def)
  have "w \<noteq> []" using arg_cong [OF l(2), of length] by auto
  with assms(2) obtain q k where k: "uo_paymaster v = Some q" "packUint128Pair (paymaster_verification_gas v)
      (paymaster_post_op_gas v) ''paymasterVerificationGasLimit'' ''paymasterPostOpGasLimit'' = Inr k"
      "w = be_bytes 20 (unat q) @ k @ paymaster_data v"
    by (auto simp: PaymasterAndData_def split: option.splits)
  have "length l = 32" "length k = 32" using packUint128Pair_inject(2) l(1) k(2) by blast+
  with l(2) k(3) have "be_bytes 20 (unat p) = be_bytes 20 (unat q)" "l = k" "paymaster_data u = paymaster_data v"
    by auto
  with packUint128Pair_inject(1) l(1) k(1,2) Some show ?thesis by (auto simp: be_bytes_address_inject)
qed

lemma PackForSignature_Inr:
  assumes "PackForSignature keccak u = Inr w"
  obtains limits fees pm n pre where "AccountGasLimits u = Inr limits" "GasFees u = Inr fees"
    "PaymasterAndData u = Inr pm" "uo_nonce u = Some n" "0 \<le> n" "pre_verification_gas u = Some pre" "0 \<le> pre"
    "w = abi_address (uo_sender u) @ abi_uint256 n @ toBytes32 (keccak (InitCode u)) @
       toBytes32 (keccak (uo_call_data u)) @ limits @ abi_uint256 pre @ fees @ toBytes32 (keccak pm)"
  using assms by (auto simp: PackForSignature_def check_unsigned_def split: option.splits if_splits)

text \<open>The byte strings whose keccak the hash of an operation takes.\<close>

definition hashed_parts :: "(bytes \<Rightarrow> bytes) \<Rightarrow> user_op \<Rightarrow> address \<Rightarrow> int \<Rightarrow> bytes set" where
  "hashed_parts keccak u ep c = {InitCode u, uo_call_data u} \<union> {pm. PaymasterAndData u = Inr pm} \<union>
     {inner. PackForSignature keccak u = Inr inner} \<union>
     {outer. \<exists>inner. PackForSignature keccak u = Inr inner \<and> outer = user_op_outer keccak inner ep c}"

definition same_operation :: "user_op \<Rightarrow> user_op \<Rightarrow> bool" where
  "same_operation u v \<longleftrightarrow> uo_sender u = uo_sender v \<and> uo_call_data u = uo_call_data v \<and>
     uo_factory u = uo_factory v \<and> (uo_factory u \<noteq> None \<longrightarrow> uo_factory_data u = uo_factory_data v) \<and>
     call_gas_limit u = call_gas_limit v \<and> verification_gas_limit u = verification_gas_limit v \<and>
     max_fee_per_gas u = max_fee_per_gas v \<and> max_priority_fee_per_gas u = max_priority_fee_per_gas v \<and>
     uo_paymaster u = uo_paymaster v \<and> (uo_paymaster u \<noteq> None \<longrightarrow>
       paymaster_verification_gas u = paymaster_verification_gas v \<and>
       paymaster_post_op_gas u = paymaster_post_op_gas v \<and> paymaster_data u = paymaster_data v)"

lemma PackForSignature_inject:
  assumes ok: "keccak_ok keccak (hashed_parts keccak u ep c \<union> hashed_parts keccak v ep' c')"
    and u: "PackForSignature keccak u = Inr w" and v: "PackForSignature keccak v = Inr w"
  shows "same_operation u v \<and> (\<exists>m n. uo_nonce u = Some m \<and> uo_nonce v = Some n \<and> m mod 2 ^ 256 = n mod 2 ^ 256) \<and>
    (\<exists>m n. pre_verification_gas u = Some m \<and> pre_verification_gas v = Some n \<and> m mod 2 ^ 256 = n mod 2 ^ 256)"
proof -
  obtain l f pm n pre where U: "AccountGasLimits u = Inr l" "GasFees u = Inr f" "PaymasterAndData u = Inr pm"
    "uo_nonce u = Some n" "pre_verification_gas u = Some pre"
    "w = abi_address (uo_sender u) @ abi_uint256 n @ toBytes32 (keccak (InitCode u)) @
       toBytes32 (keccak (uo_call_data u)) @ l @ abi_uint256 pre @ f @ toBytes32 (keccak pm)"
    by (rule PackForSignature_Inr [OF u])
  obtain l' f' pm' n' pre' where V: "AccountGasLimits v = Inr l'" "GasFees v = Inr f'" "PaymasterAndData v = Inr pm'"
    "uo_nonce v = Some n'" "pre_verification_gas v = Some pre'"
    "w = abi_address (uo_sender v) @ abi_uint256 n' @ toBytes32 (keccak (InitCode v)) @
       toBytes32 (keccak (uo_call_data v)) @ l' @ abi_uint256 pre' @ f' @ toBytes32 (keccak pm')"
    by (rule PackForSignature_Inr [OF v])
  note k = keccak_ok_length [OF ok]
  have len: "length l = 32" "length l' = 32" "length f = 32" "length f' = 32"
    using U(1,2) V(1,2) packUint128Pair_inject(2) by (auto simp: AccountGasLimits_def GasFees_def)
  have "abi_address (uo_sender u) = abi_address (uo_sender v)" "abi_uint256 n = abi_uint256 n'"
    "keccak (InitCode u) = keccak (InitCode v)" "keccak (uo_call_data u) = keccak (uo_call_data v)"
    "l = l'" "abi_uint256 pre = abi_uint256 pre'" "f = f'" "keccak pm = keccak pm'"
    using U(6) V(6) len by (auto simp: toBytes32_id k)
  note eq = this
  have "InitCode u = InitCode v" "uo_call_data u = uo_call_data v" "pm = pm'"
    using keccak_ok_eq [OF ok _ _ eq(3)] keccak_ok_eq [OF ok _ _ eq(4)] keccak_ok_eq [OF ok _ _ eq(8)] U(3) V(3)
    by (auto simp: hashed_parts_def)
  moreover have "verification_gas_limit u = verification_gas_limit v \<and> call_gas_limit u = call_gas_limit v"
    using packUint128Pair_inject(1) U(1) V(1) eq(5) by (auto simp: AccountGasLimits_def)
  moreover have "max_priority_fee_per_gas u = max_priority_fee_per_gas v \<and> max_fee_per_gas u = max_fee_per_gas v"
    using packUint128Pair_inject(1) U(2) V(2) eq(7) by (auto simp: GasFees_def)
  ultimately show ?thesis
    using InitCode_inject [of u v] PaymasterAndData_inject [of u pm v] U V eq
    by (simp add: same_operation_def abi_address_inject abi_uint256_inject)
qed

text \<open>What a digest of a deferred action hashes.\<close>

definition digest_parts :: "(bytes \<Rightarrow> bytes) \<Rightarrow> int \<Rightarrow> address \<Rightarrow> int \<Rightarrow> uint64 \<Rightarrow> bytes \<Rightarrow> bytes set" where
  "digest_parts keccak c a n dl call = {call, deferred_domain keccak c a, deferred_struct keccak n dl call,
     [char_of (0x19 :: nat), char_of (0x01 :: nat)] @ keccak (deferred_domain keccak c a) @
       keccak (deferred_struct keccak n dl call)}"

lemma DeferredActionDigest_Inr:
  assumes "DeferredActionDigest keccak (Some c) a (Some n) dl call = Inr d"
  shows "0 < c" and "0 \<le> n" and "n < 2 ^ 256" and "dl \<le> maxDeadline"
    and "d = keccak ([char_of (0x19 :: nat), char_of (0x01 :: nat)] @ keccak (deferred_domain keccak c a) @
       keccak (deferred_struct keccak n dl call))"
  using assms by (auto simp: DeferredActionDigest_def split: if_splits)

lemma digest_inject:
  assumes ok: "keccak_ok keccak (digest_parts keccak c a n dl call \<union> digest_parts keccak c' a' n' dl' call')"
    and u: "DeferredActionDigest keccak (Some c) a (Some n) dl call = Inr d"
    and v: "DeferredActionDigest keccak (Some c') a' (Some n') dl' call' = Inr d"
    and "c < 2 ^ 256" and "c' < 2 ^ 256"
  shows "c = c' \<and> a = a' \<and> n = n' \<and> dl = dl' \<and> call = call'"
proof -
  note U = DeferredActionDigest_Inr [OF u] and V = DeferredActionDigest_Inr [OF v] and k = keccak_ok_length [OF ok]
  have h: "keccak (deferred_domain keccak c a) = keccak (deferred_domain keccak c' a')"
    "keccak (deferred_struct keccak n dl call) = keccak (deferred_struct keccak n' dl' call')"
    using keccak_ok_eq [OF ok _ _ U(5) [symmetric, unfolded V(5), symmetric]] by (auto simp: digest_parts_def k)
  have dom: "deferred_domain keccak c a = deferred_domain keccak c' a'"
    and str: "deferred_struct keccak n dl call = deferred_struct keccak n' dl' call'"
    using keccak_ok_eq [OF ok _ _ h(1)] keccak_ok_eq [OF ok _ _ h(2)] by (simp_all add: digest_parts_def)
  from str have parts: "be_bytes 32 (nat n) = be_bytes 32 (nat n')" "be_bytes 32 (unat dl) = be_bytes 32 (unat dl')"
    "keccak call = keccak call'"
    by (auto simp: deferred_struct_def k)
  have "call = call'" using keccak_ok_eq [OF ok _ _ parts(3)] by (auto simp: digest_parts_def)
  moreover have "(256 :: int) ^ 32 = 2 ^ 256" by simp
  then have w: "m < 2 ^ 256 \<Longrightarrow> m' < 2 ^ 256 \<Longrightarrow> 0 \<le> m \<Longrightarrow> 0 \<le> m' \<Longrightarrow>
      be_bytes 32 (nat m) = be_bytes 32 (nat m') \<Longrightarrow> m = m'" for m m' :: int
    using be_bytes_int_inject [of m 32 m'] by simp
  have "be_bytes 32 (nat c) = be_bytes 32 (nat c')"
    using dom by (simp add: deferred_domain_def k deferredDomainTypeHash_def del: be_bytes.simps)
  then have "n = n'" "c = c'" using w [OF _ _ _ _ parts(1)] w [of c c'] U(1-3) V(1-3) assms(4,5) by simp_all
  moreover have "dl = dl'" using parts(2) be_bytes_inject [OF unat_bytes(3) unat_bytes(3)] by (simp add: word_unat_eq_iff)
  moreover have "a = a'" using dom by (auto simp: deferred_domain_def k deferredDomainTypeHash_def be_bytes_address_inject)
  ultimately show ?thesis by simp
qed

text \<open>How the account reads a deferred signature: a length, the data, a length, the owner's signature, the rest.\<close>

definition split_deferred :: "bytes \<Rightarrow> bytes \<times> bytes \<times> bytes" where
  "split_deferred s =
     (let n = be_nat (take 4 s); r = drop 4 s; m = be_nat (take 4 (drop n r)); q = drop (n + 4) r
      in (take n r, take m q, drop m q))"

lemma be_nat_4: "n < 2 ^ 32 \<Longrightarrow> be_nat (be_bytes 4 n) = n"
  by (simp add: be_nat_be_bytes)

section \<open>Properties\<close>

text \<open>
C39: The hash an operation is signed by determines the operation, the entry point and the chain: if two
  operations have the same hash and keccak has no collision among the byte strings hashed, they agree on
  sender, call data, factory, gas limits, fees and paymaster, on nonce and pre-verification gas modulo
  \<open>2 ^ 256\<close> (the only fields the code does not range-check), and on entry point and chain modulo \<open>2 ^ 256\<close>.
  No signature can be moved to another chain, entry point, account or call.
\<close>

theorem user_op_hash_binds:
  assumes ok: "keccak_ok keccak (hashed_parts keccak u ep c \<union> hashed_parts keccak v ep' c')"
    and u: "GetUserOpHash keccak u ep (Some c) = Inr h" and v: "GetUserOpHash keccak v ep' (Some c') = Inr h"
  shows "same_operation u v \<and> ep = ep' \<and> c mod 2 ^ 256 = c' mod 2 ^ 256 \<and>
    (\<exists>m n. uo_nonce u = Some m \<and> uo_nonce v = Some n \<and> m mod 2 ^ 256 = n mod 2 ^ 256) \<and>
    (\<exists>m n. pre_verification_gas u = Some m \<and> pre_verification_gas v = Some n \<and> m mod 2 ^ 256 = n mod 2 ^ 256)"
proof -
  obtain i j where I: "PackForSignature keccak u = Inr i" "h = keccak (user_op_outer keccak i ep c)"
    and J: "PackForSignature keccak v = Inr j" "h = keccak (user_op_outer keccak j ep' c')"
    using u v by (auto simp: GetUserOpHash_def)
  have "user_op_outer keccak i ep c = user_op_outer keccak j ep' c'"
    using keccak_ok_eq [OF ok _ _ I(2) [symmetric, unfolded J(2), symmetric]] I J by (auto simp: hashed_parts_def)
  then have o: "keccak i = keccak j" "abi_address ep = abi_address ep'" "abi_uint256 c = abi_uint256 c'"
    using keccak_ok_length [OF ok] by (auto simp: user_op_outer_def toBytes32_id)
  have "i = j" using keccak_ok_eq [OF ok _ _ o(1)] I J by (auto simp: hashed_parts_def)
  with PackForSignature_inject [OF ok I(1)] J(1) o show ?thesis
    by (simp add: abi_address_inject abi_uint256_inject)
qed

text \<open>
A nonce built for an entity reads back to the same entity, options and sequence, fits in 104 bits and
  shares its key half with \<open>NonceKeyMAv2\<close>; distinct entities have distinct keys, so each grant has its own
  sequence of nonces. A direct-call option is refused by both.
\<close>

lemma nonce_roundtrip:
  "(direct_call opt \<longrightarrow> EncodeNonceMAv2 e opt s = Inl DirectCallLocator \<and> NonceKeyMAv2 e opt = Inl DirectCallLocator) \<and>
   (\<not> direct_call opt \<longrightarrow> (\<exists>n. EncodeNonceMAv2 e opt s = Inr n \<and> 0 \<le> n \<and> n < 2 ^ 104 \<and>
      DecodeNonceMAv2 (Some n) = Inr (e, opt, s) \<and> NonceKeyMAv2 e opt = Inr (n div 2 ^ 64) \<and>
      (\<forall>e' opt'. NonceKeyMAv2 e' opt' = Inr (n div 2 ^ 64) \<longrightarrow> e' = e \<and> opt' = opt)))"
proof (cases "direct_call opt")
  case True
  then show ?thesis by (simp add: EncodeNonceMAv2_def NonceKeyMAv2_def)
next
  case False
  define n where "n = (uint e * 2 ^ 8 + uint opt) * 2 ^ 64 + uint s"
  note P = nonce_parts [of e opt s, folded n_def]
  have key: "NonceKeyMAv2 e' opt' = Inr (uint e' * 2 ^ 8 + uint opt')" if "\<not> direct_call opt'" for e' opt'
    using that nonce_parts(3) [of e' opt' 0] by (simp add: NonceKeyMAv2_def EncodeNonceMAv2_def)
  have inj: "e' = e \<and> opt' = opt" if "NonceKeyMAv2 e' opt' = Inr (n div 2 ^ 64)" for e' opt'
  proof -
    have "\<not> direct_call opt'" using that by (auto simp: NonceKeyMAv2_def EncodeNonceMAv2_def split: if_splits)
    then have "uint e' * 2 ^ 8 + uint opt' = uint e * 2 ^ 8 + uint opt" using that key P(3) by simp
    then have "uint e' = uint e" "uint opt' = uint opt"
      using nonce_parts(3,5,6) [of e' opt' 0] P(3,5,6) by metis+
    then show ?thesis by (simp add: word_uint_eq_iff)
  qed
  have "(of_int (n div 2 ^ 64 div 2 ^ 8) :: 32 word) = e" using P(5) by simp
  moreover have "(of_int (n div 2 ^ 64) :: 8 word) = opt"
    using of_int_uint_mod [of "n div 2 ^ 64", where ?'a = 8] P(6) by simp
  moreover have "(of_int n :: 64 word) = s"
    using of_int_uint_mod [of n, where ?'a = 64] P(4) by simp
  ultimately have "DecodeNonceMAv2 (Some n) = Inr (e, opt, s)" using P(1,2) by (simp add: DecodeNonceMAv2_def Let_def)
  moreover have "EncodeNonceMAv2 e opt s = Inr n" using False by (simp add: EncodeNonceMAv2_def n_def)
  moreover have "NonceKeyMAv2 e opt = Inr (n div 2 ^ 64)" using key [OF False] P(3) by simp
  ultimately have "EncodeNonceMAv2 e opt s = Inr n \<and> 0 \<le> n \<and> n < 2 ^ 104 \<and>
      DecodeNonceMAv2 (Some n) = Inr (e, opt, s) \<and> NonceKeyMAv2 e opt = Inr (n div 2 ^ 64) \<and>
      (\<forall>e' opt'. NonceKeyMAv2 e' opt' = Inr (n div 2 ^ 64) \<longrightarrow> e' = e \<and> opt' = opt)"
    using P(1,2) inj by blast
  with False show ?thesis by blast
qed

lemma nonce_roundtrip_witness:
  "EncodeNonceMAv2 7 3 5 = Inr 33111905612308645150725 \<and> DecodeNonceMAv2 (Some 33111905612308645150725) = Inr (7, 3, 5)"
proof -
  have n: "\<not> direct_call 3" "EncodeNonceMAv2 7 3 5 = Inr 33111905612308645150725"
    by (simp_all add: direct_call_def EncodeNonceMAv2_def)
  from nonce_roundtrip [of 3 7 5] n show ?thesis by simp
qed

text \<open>
A deferred signature frames unambiguously: when \<open>WrapSignatureMAv2Deferred\<close> succeeds on data shorter
  than \<open>2 ^ 32\<close> bytes, splitting the result at its length prefixes gives back the encoded action, the
  owner's signature behind its type byte, and the framed operation signature; and the encoded action ends
  with exactly the deadline and the call.
\<close>

lemma deferred_signature_roundtrip:
  assumes "EncodeDeferredActionData FallbackSignerLocator deadline call = Inr dat"
    and "WrapSignatureMAv2Deferred dat ownerSig framed = Inr s" and "length dat < 2 ^ 32"
  shows "split_deferred s = (dat, char_of (0 :: nat) # ownerSig, framed) \<and> length dat = 27 + length call \<and>
    be_nat (take 6 (drop 21 dat)) = unat deadline \<and> drop 27 dat = call \<and> of_char (ownerSig ! 64) \<in> {27, 28 :: nat}"
proof -
  have loc: "length FallbackSignerLocator = 21"
    by (simp add: FallbackSignerLocator_def PackValidationLocator_def split: if_splits)
  from assms(1) have d: "dat = FallbackSignerLocator @ be_bytes 6 (unat deadline) @ call" "deadline \<le> maxDeadline"
    by (auto simp: EncodeDeferredActionData_def split: if_splits)
  from assms(2) have w: "s = be_bytes 4 (length dat) @ dat @ be_bytes 4 66 @ (char_of (0 :: nat) # ownerSig) @ framed"
    "length ownerSig = 65" "of_char (ownerSig ! 64) \<in> {27, 28 :: nat}"
    by (auto simp: WrapSignatureMAv2Deferred_def Let_def split: if_splits)
  have "unat deadline < 256 ^ 6"
    using d(2) by (simp add: maxDeadline_def word_le_nat_alt)
  then have "be_nat (take 6 (drop 21 dat)) = unat deadline" using loc by (simp add: d(1) be_nat_be_bytes)
  moreover have "split_deferred s = (dat, char_of (0 :: nat) # ownerSig, framed)"
    using be_nat_4 [OF assms(3)] w(2) by (simp add: split_deferred_def w(1) be_nat_be_bytes)
  ultimately show ?thesis using loc w(3) by (simp add: d(1))
qed

text \<open>A function that is 32 bytes long and separates byte strings of different length.\<close>

definition length_hash :: "bytes \<Rightarrow> bytes" where
  "length_hash b = be_bytes 32 (length b)"

definition sample_op :: user_op where
  "sample_op = \<lparr>uo_sender = 7, uo_nonce = Some 1, uo_call_data = ''c'', uo_factory = None, uo_factory_data = [],
     call_gas_limit = Some 2, verification_gas_limit = Some 3, pre_verification_gas = Some 4, max_fee_per_gas = Some 5,
     max_priority_fee_per_gas = Some 6, uo_paymaster = None, paymaster_verification_gas = None,
     paymaster_post_op_gas = None, paymaster_data = [], uo_signature = []\<rparr>"

lemma length_hash_inj:
  assumes "\<forall>b \<in> S. length b < 2 ^ 32" and "\<forall>a \<in> S. \<forall>b \<in> S. length a = length b \<longrightarrow> a = b"
  shows "keccak_ok length_hash S"
proof -
  have "length a = length b" if "a \<in> S" "b \<in> S" "be_bytes 32 (length a) = be_bytes 32 (length b)" for a b
    using that assms(1) be_bytes_inject [of "length a" 32 "length b"] by fastforce
  with assms(2) show ?thesis by (auto simp: keccak_ok_def length_hash_def intro!: inj_onI)
qed

lemma sample_op_packs: "\<exists>w. PackForSignature length_hash sample_op = Inr w \<and> length w = 256"
  by (simp add: PackForSignature_def sample_op_def AccountGasLimits_def GasFees_def packUint128Pair_def
      check_uint128_def PaymasterAndData_def check_unsigned_def toBytes32_def length_hash_def)

theorem user_op_hash_binds_witness:
  "keccak_ok length_hash (hashed_parts length_hash sample_op 9 1) \<and>
   (\<exists>h. GetUserOpHash length_hash sample_op 9 (Some 1) = Inr h) \<and> same_operation sample_op sample_op"
proof -
  obtain w where w: "PackForSignature length_hash sample_op = Inr w" "length w = 256" using sample_op_packs by blast
  have parts: "hashed_parts length_hash sample_op 9 1 = {[], ''c'', w, user_op_outer length_hash w 9 1}"
    using w by (auto simp: hashed_parts_def InitCode_def PaymasterAndData_def sample_op_def)
  have ok: "keccak_ok length_hash (hashed_parts length_hash sample_op 9 1 \<union> hashed_parts length_hash sample_op 9 1)"
    unfolding parts using w(2)
    by (intro length_hash_inj) (auto simp: user_op_outer_def toBytes32_def length_hash_def)
  obtain h where h: "GetUserOpHash length_hash sample_op 9 (Some 1) = Inr h" using w by (simp add: GetUserOpHash_def)
  from user_op_hash_binds [OF ok h h] ok h show ?thesis by simp
qed

definition sample_owner_sig :: bytes where "sample_owner_sig = replicate 64 (char_of (1 :: nat)) @ [char_of (27 :: nat)]"

lemma deferred_signature_roundtrip_witness:
  "\<exists>dat s. EncodeDeferredActionData FallbackSignerLocator 100 ''call'' = Inr dat \<and>
     WrapSignatureMAv2Deferred dat sample_owner_sig [char_of (255 :: nat), char_of (0 :: nat)] = Inr s \<and>
     split_deferred s = (dat, char_of (0 :: nat) # sample_owner_sig, [char_of (255 :: nat), char_of (0 :: nat)])"
proof -
  have loc: "length FallbackSignerLocator = 21"
    by (simp add: FallbackSignerLocator_def PackValidationLocator_def split: if_splits)
  obtain dat where d: "EncodeDeferredActionData FallbackSignerLocator 100 ''call'' = Inr dat" "length dat = 31"
    using loc by (simp add: EncodeDeferredActionData_def maxDeadline_def)
  obtain s where s: "WrapSignatureMAv2Deferred dat sample_owner_sig [char_of (255 :: nat), char_of (0 :: nat)] = Inr s"
    using d(2) by (simp add: WrapSignatureMAv2Deferred_def sample_owner_sig_def SigSegmentValidationData_def nth_append Let_def)
  from deferred_signature_roundtrip [OF d(1) s] d s show ?thesis by auto
qed

end
