(* ===== verification/Calldata.thy ===== *)
theory Calldata
  imports Permissions UserOp
begin

text \<open>
  Installing and removing a session signer on a Modular Account v2, \<open>core/chainio/aa\<close>: \<open>ma_v2_install.go\<close>,
  \<open>ma_v2_uninstall.go\<close>, \<open>ma_v2_uninstall_from_install.go\<close>, \<open>ma_v2_historical_install.go\<close>,
  \<open>ma_v2_residue.go\<close>, \<open>ma_v2.go\<close> and \<open>aa.go\<close>. The dynamic ABI codec of go-ethereum is the parameter
  \<open>abi_codec\<close>; its law is that unpacking returns what was packed. A teardown is derived from the stored
  install, and the lemmas show that it names the same entity and hands each hook its payload in the order in
  which the account consumes them.
\<close>

section \<open>The ABI codec\<close>

type_synonym call = "address \<times> int \<times> bytes"

record abi_codec =
  installID :: bytes
  uninstallID :: bytes
  executeID :: bytes
  executeBatchID :: bytes
  packInstallArgs :: "bytes \<times> bytes list \<times> bytes \<times> bytes list \<Rightarrow> bytes"
  unpackInstallArgs :: "bytes \<Rightarrow> string + bytes \<times> bytes list \<times> bytes \<times> bytes list"
  packUninstallArgs :: "bytes \<times> bytes \<times> bytes list \<Rightarrow> bytes"
  unpackUninstallArgs :: "bytes \<Rightarrow> string + bytes \<times> bytes \<times> bytes list"
  packExecuteArgs :: "call \<Rightarrow> bytes"
  unpackExecuteArgs :: "bytes \<Rightarrow> string + call"
  packBatchArgs :: "call list \<Rightarrow> bytes"
  unpackBatchArgs :: "bytes \<Rightarrow> string + call list"

definition codec_ok :: "abi_codec \<Rightarrow> bool" where
  "codec_ok A \<longleftrightarrow>
     list_all (\<lambda>s. length s = 4) [installID A, uninstallID A, executeID A, executeBatchID A] \<and>
     distinct [installID A, uninstallID A, executeID A, executeBatchID A, selectorExecuteUserOp] \<and>
     (\<forall>c ss dat hs. length c = 25 \<longrightarrow> list_all (\<lambda>s. length s = 4) ss \<longrightarrow>
        unpackInstallArgs A (packInstallArgs A (c, ss, dat, hs)) = Inr (c, ss, dat, hs)) \<and>
     (\<forall>me dat hs. length me = 24 \<longrightarrow> unpackUninstallArgs A (packUninstallArgs A (me, dat, hs)) = Inr (me, dat, hs)) \<and>
     (\<forall>t v dat. 0 \<le> v \<and> v < 2 ^ 256 \<longrightarrow> unpackExecuteArgs A (packExecuteArgs A (t, v, dat)) = Inr (t, v, dat)) \<and>
     (\<forall>cs. (\<forall>(t, v, dat) \<in> set cs. 0 \<le> v \<and> v < 2 ^ 256) \<longrightarrow> unpackBatchArgs A (packBatchArgs A cs) = Inr cs)"

datatype call_error = EntityReserved | SignerZero | GlobalAndSelectors nat | NoScope | SelfAdministration
  | EmptyBatch | CalldataShort nat | UnknownSelector bytes | AbiError string | NotInstall bytes | NoInstall nat
  | HookShort nat | TooDeep | ManyInstalls | HistoricalArgs | HookModule | HookEntity | HookData

definition liftS :: "string + 'a \<Rightarrow> call_error + 'a" where
  "liftS r = (case r of Inl e \<Rightarrow> Inl (AbiError e) | Inr x \<Rightarrow> Inr x)"

section \<open>Installing\<close>

definition MinSessionEntityID :: "32 word" where "MinSessionEntityID = 1"
definition ValidationFlagUserOp :: nat where "ValidationFlagUserOp = 1"
definition ValidationFlagSignature :: nat where "ValidationFlagSignature = 2"
definition ValidationFlagGlobal :: nat where "ValidationFlagGlobal = 4"

record session_grant =
  sg_entity :: "32 word"
  sg_signer :: address
  sg_selectors :: "bytes list"
  sg_global :: bool
  sg_hooks :: "bytes list"
  allow_signature_validation :: bool
  allow_self_administration :: bool

definition is_validation_hook :: "bytes \<Rightarrow> bool" where
  "is_validation_hook h \<longleftrightarrow> odd (of_char (h ! 24) :: nat)"

definition HasExecutionHook :: "session_grant \<Rightarrow> bool" where
  "HasExecutionHook g \<longleftrightarrow> list_ex (\<lambda>h. length h \<ge> 25 \<and> \<not> is_validation_hook h) (sg_hooks g)"

definition GrantValidate :: "session_grant \<Rightarrow> call_error + unit" where
  "GrantValidate g =
     (if sg_entity g < MinSessionEntityID then Inl EntityReserved
      else if sg_signer g = zero_address then Inl SignerZero
      else if sg_global g \<and> sg_selectors g \<noteq> [] then Inl (GlobalAndSelectors (length (sg_selectors g)))
      else if \<not> sg_global g \<and> sg_selectors g = [] then Inl NoScope
      else if sg_global g \<and> \<not> HasExecutionHook g \<and> \<not> allow_self_administration g then Inl SelfAdministration
      else Inr ())"

definition Flags :: "session_grant \<Rightarrow> nat" where
  "Flags g = ValidationFlagUserOp + (if sg_global g then ValidationFlagGlobal else 0) +
     (if allow_signature_validation g then ValidationFlagSignature else 0)"

text \<open>\<open>abi.encode\<close> of static words.\<close>

definition abi_uint32 :: "32 word \<Rightarrow> bytes" where
  "abi_uint32 e = be_bytes 32 (unat e)"

definition PackSingleSignerInstallData :: "32 word \<Rightarrow> address \<Rightarrow> bytes" where
  "PackSingleSignerInstallData entityID signer = abi_uint32 entityID @ abi_address signer"

definition PackInstallValidation :: "abi_codec \<Rightarrow> bytes \<Rightarrow> bytes list \<Rightarrow> bytes \<Rightarrow> bytes list \<Rightarrow> bytes" where
  "PackInstallValidation A config selectors installData hooks =
     installID A @ packInstallArgs A (config, selectors, installData, hooks)"

definition PackSessionSignerInstall :: "abi_codec \<Rightarrow> session_grant \<Rightarrow> call_error + bytes" where
  "PackSessionSignerInstall A g = bindE (GrantValidate g) (\<lambda>_.
     Inr (PackInstallValidation A (PackValidationConfig SingleSignerValidationModuleAddress (sg_entity g) (Flags g))
       (sg_selectors g) (PackSingleSignerInstallData (sg_entity g) (sg_signer g)) (sg_hooks g)))"

section \<open>Calls of the account\<close>

definition PackExecuteMAv2 :: "abi_codec \<Rightarrow> address \<Rightarrow> int option \<Rightarrow> bytes \<Rightarrow> bytes" where
  "PackExecuteMAv2 A target v dat =
     executeID A @ packExecuteArgs A (target, case v of None \<Rightarrow> 0 | Some n \<Rightarrow> n, dat)"

definition PackExecuteBatchMAv2 :: "abi_codec \<Rightarrow> (address \<times> int option \<times> bytes) list \<Rightarrow> call_error + bytes" where
  "PackExecuteBatchMAv2 A calls = (if calls = [] then Inl EmptyBatch
     else Inr (executeBatchID A @ packBatchArgs A (map (\<lambda>(t, v, dat). (t, case v of None \<Rightarrow> 0 | Some n \<Rightarrow> n, dat)) calls)))"

definition UnwrapExecuteUserOp :: "bytes \<Rightarrow> bytes" where
  "UnwrapExecuteUserOp callData =
     (if length callData \<ge> 4 \<and> take 4 callData = selectorExecuteUserOp then drop 4 callData else callData)"

definition UnpackExecuteCalldata :: "abi_codec \<Rightarrow> bytes \<Rightarrow> call_error + call list" where
  "UnpackExecuteCalldata A calldata0 = (let calldata = UnwrapExecuteUserOp calldata0 in
     if length calldata < 4 then Inl (CalldataShort (length calldata))
     else if take 4 calldata = executeID A
       then bindE (liftS (unpackExecuteArgs A (drop 4 calldata))) (\<lambda>c. Inr [c])
     else if take 4 calldata = executeBatchID A then liftS (unpackBatchArgs A (drop 4 calldata))
     else Inl (UnknownSelector (take 4 calldata)))"

section \<open>Removing\<close>

definition PackModuleEntity :: "address \<Rightarrow> 32 word \<Rightarrow> bytes" where
  "PackModuleEntity modl entityID = be_bytes 20 (unat modl) @ be_bytes 4 (unat entityID)"

definition PackUninstallValidation :: "abi_codec \<Rightarrow> address \<Rightarrow> 32 word \<Rightarrow> bytes \<Rightarrow> bytes list \<Rightarrow> bytes" where
  "PackUninstallValidation A modl entityID uninstallData hookUninstallData =
     uninstallID A @ packUninstallArgs A (PackModuleEntity modl entityID, uninstallData, hookUninstallData)"

definition PackSingleSignerUninstallData :: "32 word \<Rightarrow> bytes" where
  "PackSingleSignerUninstallData entityID = abi_uint32 entityID"

definition PackNativeTokenLimitUninstallData :: "32 word \<Rightarrow> bytes" where
  "PackNativeTokenLimitUninstallData entityID = abi_uint32 entityID"

definition PackSessionSignerUninstall :: "abi_codec \<Rightarrow> 32 word \<Rightarrow> bytes list \<Rightarrow> call_error + bytes" where
  "PackSessionSignerUninstall A entityID hookUninstallData =
     (if entityID < MinSessionEntityID then Inl EntityReserved
      else Inr (PackUninstallValidation A SingleSignerValidationModuleAddress entityID
        (PackSingleSignerUninstallData entityID) hookUninstallData))"

definition hookConfigLen :: nat where "hookConfigLen = 25"

text \<open>The module of a hook is its first twenty bytes.\<close>

definition hook_module :: "bytes \<Rightarrow> address" where
  "hook_module h = of_nat (be_nat (take 20 h))"

definition hookUninstallPayload :: "32 word \<Rightarrow> bytes \<Rightarrow> bytes" where
  "hookUninstallPayload entityID entry =
     (if hook_module entry = NativeTokenLimitModuleAddress \<and> is_validation_hook entry
      then PackNativeTokenLimitUninstallData entityID else drop hookConfigLen entry)"

definition DecodeInstallValidationHooks :: "abi_codec \<Rightarrow> bytes \<Rightarrow> call_error + bytes list" where
  "DecodeInstallValidationHooks A installCall =
     (if length installCall < 4 then Inl (CalldataShort (length installCall))
      else if take 4 installCall \<noteq> installID A then Inl (NotInstall (take 4 installCall))
      else bindE (liftS (unpackInstallArgs A (drop 4 installCall))) (\<lambda>(c, ss, dat, hooks). Inr hooks))"

definition is_call :: "bytes \<Rightarrow> bytes \<Rightarrow> bool" where
  "is_call ident dat \<longleftrightarrow> length dat \<ge> 4 \<and> take 4 dat = ident"

definition InstallValidationWithin :: "abi_codec \<Rightarrow> bytes \<Rightarrow> call_error + bytes" where
  "InstallValidationWithin A deferredCall =
     (if length deferredCall < 4 then Inl (CalldataShort (length deferredCall))
      else if take 4 deferredCall = installID A then Inr deferredCall
      else bindE (UnpackExecuteCalldata A deferredCall) (\<lambda>calls.
        case find (is_call (installID A)) (map (snd \<circ> snd) calls) of
          None \<Rightarrow> Inl (NoInstall (length calls)) | Some dat \<Rightarrow> Inr dat))"

text \<open>The payloads of the validation hooks and of the execution hooks, in install order.\<close>

fun teardown_payloads :: "32 word \<Rightarrow> bytes list \<Rightarrow> bytes list \<Rightarrow> bytes list \<Rightarrow> call_error + bytes list" where
  "teardown_payloads entityID [] vals execs = Inr (rev vals @ rev execs)"
| "teardown_payloads entityID (entry # hooks) vals execs =
     (if length entry < hookConfigLen then Inl (HookShort (length entry))
      else let payload = hookUninstallPayload entityID entry in
        if is_validation_hook entry then teardown_payloads entityID hooks (vals @ [payload]) execs
        else teardown_payloads entityID hooks vals (execs @ [payload]))"

definition SessionSignerUninstallFromInstall :: "abi_codec \<Rightarrow> 32 word \<Rightarrow> bytes \<Rightarrow> call_error + bytes" where
  "SessionSignerUninstallFromInstall A entityID deferredCall =
     bindE (InstallValidationWithin A deferredCall) (\<lambda>installCall.
     bindE (DecodeInstallValidationHooks A installCall) (\<lambda>hooks.
     bindE (teardown_payloads entityID hooks [] []) (\<lambda>teardown.
       PackSessionSignerUninstall A entityID teardown)))"

definition entity_of_module_entity :: "bytes \<Rightarrow> 32 word" where
  "entity_of_module_entity me = of_nat (be_nat (take 4 (drop 20 me)))"

fun uninstalled_entities :: "abi_codec \<Rightarrow> bytes list \<Rightarrow> call_error + 32 word list" where
  "uninstalled_entities A [] = Inr []"
| "uninstalled_entities A (dat # ds) =
     (if \<not> is_call (uninstallID A) dat then uninstalled_entities A ds
      else bindE (liftS (unpackUninstallArgs A (drop 4 dat))) (\<lambda>(me, d, hs).
        bindE (uninstalled_entities A ds) (\<lambda>es. Inr (entity_of_module_entity me # es))))"

definition UninstalledEntitiesWithin :: "abi_codec \<Rightarrow> bytes \<Rightarrow> call_error + 32 word list" where
  "UninstalledEntitiesWithin A deferredCall =
     (if length deferredCall < 4 then Inr []
      else if take 4 deferredCall = uninstallID A then uninstalled_entities A [deferredCall]
      else (case UnpackExecuteCalldata A deferredCall of
          Inl _ \<Rightarrow> Inr []
        | Inr calls \<Rightarrow> uninstalled_entities A (map (snd \<circ> snd) calls)))"

definition UninstalledEntityWithin :: "abi_codec \<Rightarrow> bytes \<Rightarrow> call_error + 32 word option" where
  "UninstalledEntityWithin A deferredCall = bindE (UninstalledEntitiesWithin A deferredCall) (\<lambda>es.
     Inr (case es of [] \<Rightarrow> None | e # _ \<Rightarrow> Some e))"

section \<open>Recovering an install from history\<close>

fun check_hooks :: "32 word \<Rightarrow> bytes list \<Rightarrow> call_error + unit" where
  "check_hooks entity [] = Inr ()"
| "check_hooks entity (hook # hooks) =
     (if length hook < hookConfigLen then Inl (HookShort (length hook))
      else if hook_module hook \<notin> {AllowlistModuleAddress, NativeTokenLimitModuleAddress, TimeRangeModuleAddress}
        then Inl HookModule
      else if take 24 hook \<noteq> PackModuleEntity (hook_module hook) entity then Inl HookEntity
      else (let dat = drop hookConfigLen hook in
        if dat \<noteq> [] \<and> (length dat < 32 \<or> be_nat (take 32 dat) \<noteq> unat entity) then Inl HookData
        else check_hooks entity hooks))"

definition checkHistoricalSessionHooks :: "abi_codec \<Rightarrow> 32 word \<Rightarrow> bytes \<Rightarrow> call_error + unit" where
  "checkHistoricalSessionHooks A entity install =
     bindE (DecodeInstallValidationHooks A install) (check_hooks entity)"

text \<open>\<open>n\<close> levels of nesting are left: a call below the fifth level is refused.\<close>

primrec visit :: "abi_codec \<Rightarrow> address \<Rightarrow> bytes \<Rightarrow> bytes \<Rightarrow> nat \<Rightarrow> bytes \<Rightarrow> bytes option \<Rightarrow> call_error + bytes option" where
  "visit A account ee ed 0 dat found = (if length dat < 4 then Inr found else Inl TooDeep)"
| "visit A account ee ed (Suc n) dat found =
     (if length dat < 4 then Inr found
      else if take 4 dat = installID A then
        bindE (liftS (unpackInstallArgs A (drop 4 dat))) (\<lambda>(config, ss, idata, hs).
          if take 24 config \<noteq> ee \<or> idata \<noteq> ed then Inr found
          else if found \<noteq> None then Inl ManyInstalls else Inr (Some dat))
      else (case UnpackExecuteCalldata A dat of
          Inl _ \<Rightarrow> Inr found
        | Inr calls \<Rightarrow> foldE (\<lambda>(t, v, nested) f. if t = account \<and> v = 0 then visit A account ee ed n nested f else Inr f)
            calls found))"

definition HistoricalSessionSignerInstall :: "abi_codec \<Rightarrow> address \<Rightarrow> 32 word \<Rightarrow> address \<Rightarrow> bytes \<Rightarrow>
    call_error + bytes option" where
  "HistoricalSessionSignerInstall A account entity signer call =
     (if entity < MinSessionEntityID \<or> signer = zero_address then Inl HistoricalArgs
      else bindE (visit A account (PackModuleEntity SingleSignerValidationModuleAddress entity)
          (PackSingleSignerInstallData entity signer) 5 call None) (\<lambda>found.
        case found of None \<Rightarrow> Inr None
        | Some install \<Rightarrow> bindE (checkHistoricalSessionHooks A entity install) (\<lambda>_. Inr (Some install))))"

section \<open>Cleaning module storage\<close>

text \<open>\<open>onUninstall\<close> is the packed \<open>onUninstall(bytes)\<close> call of go-ethereum.\<close>

fun cleanup_calls :: "(bytes \<Rightarrow> bytes) \<Rightarrow> 32 word \<Rightarrow> bytes list \<Rightarrow> (address \<times> bytes) list \<Rightarrow> call_error + call list" where
  "cleanup_calls onUninstall entity [] seen = Inr []"
| "cleanup_calls onUninstall entity (hook # hooks) seen =
     (if length hook < hookConfigLen then Inl (HookShort (length hook))
      else let payload = hookUninstallPayload entity hook; modl = hook_module hook in
        if payload = [] then cleanup_calls onUninstall entity hooks seen
        else if (modl, payload) \<in> set seen then cleanup_calls onUninstall entity hooks seen
        else bindE (cleanup_calls onUninstall entity hooks ((modl, payload) # seen)) (\<lambda>cs.
          Inr ((modl, 0, onUninstall payload) # cs)))"

definition ModuleCleanupFromInstall :: "abi_codec \<Rightarrow> (bytes \<Rightarrow> bytes) \<Rightarrow> 32 word \<Rightarrow> bytes \<Rightarrow> call_error + call list" where
  "ModuleCleanupFromInstall A onUninstall entity installCall =
     bindE (InstallValidationWithin A installCall) (\<lambda>install.
     bindE (DecodeInstallValidationHooks A install) (\<lambda>hooks.
     bindE (cleanup_calls onUninstall entity hooks []) (\<lambda>calls.
       Inr (calls @ [(SingleSignerValidationModuleAddress, 0, onUninstall (abi_uint32 entity))]))))"

section \<open>Lemmas\<close>

lemma codec_ids:
  assumes "codec_ok A"
  shows "list_all (\<lambda>s. length s = 4) [installID A, uninstallID A, executeID A, executeBatchID A]"
    and "distinct [installID A, uninstallID A, executeID A, executeBatchID A, selectorExecuteUserOp]"
  using assms unfolding codec_ok_def by blast+

lemma codec_lengths [simp]:
  assumes "codec_ok A"
  shows "length (installID A) = 4" "length (uninstallID A) = 4" "length (executeID A) = 4" "length (executeBatchID A) = 4"
  using codec_ids(1) [OF assms] by simp_all

lemma length_selectorExecuteUserOp [simp]: "length selectorExecuteUserOp = 4"
  by (simp add: selectorExecuteUserOp_def chars_def)

lemma codec_distinct:
  assumes "codec_ok A"
  shows "installID A \<noteq> uninstallID A" "installID A \<noteq> executeID A" "installID A \<noteq> executeBatchID A"
    "uninstallID A \<noteq> executeID A" "uninstallID A \<noteq> executeBatchID A" "executeID A \<noteq> executeBatchID A"
    "installID A \<noteq> selectorExecuteUserOp" "uninstallID A \<noteq> selectorExecuteUserOp"
    "executeID A \<noteq> selectorExecuteUserOp" "executeBatchID A \<noteq> selectorExecuteUserOp"
  using codec_ids(2) [OF assms] by auto

lemma codec_unpack:
  assumes "codec_ok A"
  shows "length c = 25 \<Longrightarrow> list_all (\<lambda>s. length s = 4) ss \<Longrightarrow>
      unpackInstallArgs A (packInstallArgs A (c, ss, dat, hs)) = Inr (c, ss, dat, hs)"
    and "length me = 24 \<Longrightarrow> unpackUninstallArgs A (packUninstallArgs A (me, dat, hs)) = Inr (me, dat, hs)"
    and "\<forall>(t, v, dat) \<in> set cs. 0 \<le> v \<and> v < 2 ^ 256 \<Longrightarrow> unpackBatchArgs A (packBatchArgs A cs) = Inr cs"
  using assms unfolding codec_ok_def by blast+

lemma liftS_simps [simp]: "liftS (Inr x) = Inr x" "liftS (Inl e) = Inl (AbiError e)"
  by (simp_all add: liftS_def)

lemma PackModuleEntity_length [simp]: "length (PackModuleEntity m e) = 24"
  by (simp add: PackModuleEntity_def)

lemma entity_roundtrip: "entity_of_module_entity (PackModuleEntity m e) = e"
proof -
  have "take 4 (drop 20 (PackModuleEntity m e)) = be_bytes 4 (unat e)"
    unfolding PackModuleEntity_def by (simp del: be_bytes.simps)
  moreover have "be_nat (be_bytes 4 (unat e)) = unat e"
    using be_nat_be_bytes [of 4 "unat e"] unat_bytes(2) [of e] by (simp only: mod_less)
  ultimately show ?thesis by (simp add: entity_of_module_entity_def)
qed

lemma PackValidationConfig_length [simp]: "length (PackValidationConfig m e f) = 25"
  unfolding PackValidationConfig_def by (simp only: length_append length_be_bytes list.size)

text \<open>The batch of a replacement: the install, then the uninstalls, all calls of the wallet on itself.\<close>

definition replace_batch :: "abi_codec \<Rightarrow> address \<Rightarrow> bytes \<Rightarrow> bytes list \<Rightarrow> call_error + bytes" where
  "replace_batch A w install us = PackExecuteBatchMAv2 A (map (\<lambda>dat. (w, Some 0, dat)) (install # us))"

lemma replace_batch_unpacks:
  assumes ok: "codec_ok A" and b: "replace_batch A w install us = Inr batch"
  shows "UnpackExecuteCalldata A batch = Inr (map (\<lambda>dat. (w, 0, dat)) (install # us))"
    and "take 4 batch = executeBatchID A" and "length batch \<ge> 4"
proof -
  let ?cs = "map (\<lambda>dat. (w, 0 :: int, dat)) (install # us)"
  have e: "batch = executeBatchID A @ packBatchArgs A ?cs"
    using b by (simp add: replace_batch_def PackExecuteBatchMAv2_def comp_def)
  have "unpackBatchArgs A (packBatchArgs A ?cs) = Inr ?cs" by (rule codec_unpack(3) [OF ok]) auto
  then show "UnpackExecuteCalldata A batch = Inr ?cs"
    using codec_lengths [OF ok] codec_distinct [OF ok]
    by (simp add: UnpackExecuteCalldata_def UnwrapExecuteUserOp_def e Let_def)
  show "take 4 batch = executeBatchID A" "length batch \<ge> 4" using codec_lengths [OF ok] by (simp_all add: e)
qed

lemma teardown_payloads_order:
  "\<forall>h \<in> set hooks. length h \<ge> hookConfigLen \<Longrightarrow>
   teardown_payloads e hooks vals execs = Inr (rev (vals @ map (hookUninstallPayload e) (filter is_validation_hook hooks)) @
     rev (execs @ map (hookUninstallPayload e) (filter (\<lambda>h. \<not> is_validation_hook h) hooks)))"
  by (induction e hooks vals execs rule: teardown_payloads.induct) (auto simp: Let_def)

lemma install_shape:
  assumes "codec_ok A" and "PackSessionSignerInstall A g = Inr install" and "list_all (\<lambda>s. length s = 4) (sg_selectors g)"
  shows "take 4 install = installID A" and "length install \<ge> 4"
    and "unpackInstallArgs A (drop 4 install) = Inr (PackValidationConfig SingleSignerValidationModuleAddress (sg_entity g) (Flags g),
      sg_selectors g, PackSingleSignerInstallData (sg_entity g) (sg_signer g), sg_hooks g)"
    and "DecodeInstallValidationHooks A install = Inr (sg_hooks g)"
  using assms codec_unpack(1) [OF assms(1), of "PackValidationConfig SingleSignerValidationModuleAddress (sg_entity g) (Flags g)"
      "sg_selectors g"]
  by (auto simp: PackSessionSignerInstall_def PackInstallValidation_def DecodeInstallValidationHooks_def)

lemma uninstall_shape:
  assumes "codec_ok A" and "PackSessionSignerUninstall A e hs = Inr u"
  shows "is_call (uninstallID A) u" and "\<not> is_call (installID A) u"
    and "unpackUninstallArgs A (drop 4 u) =
      Inr (PackModuleEntity SingleSignerValidationModuleAddress e, PackSingleSignerUninstallData e, hs)"
  using assms codec_distinct [OF assms(1)]
  by (auto simp: PackSessionSignerUninstall_def PackUninstallValidation_def is_call_def codec_unpack(2) split: if_splits)

lemma uninstalled_entities_calls:
  assumes "codec_ok A" and "list_all2 (\<lambda>e u. \<exists>hs. PackSessionSignerUninstall A e hs = Inr u) es us"
  shows "uninstalled_entities A us = Inr es"
  using assms(2)
proof (induction es us rule: list_all2_induct)
  case (Cons e es u us)
  then obtain hs where "PackSessionSignerUninstall A e hs = Inr u" by blast
  with uninstall_shape [OF assms(1) this] Cons show ?case by (simp add: entity_roundtrip)
qed simp

lemma foldE_visit_invariant:
  assumes "foldE (\<lambda>(t, v, nested) f. if t = account \<and> v = 0 then V nested f else Inr f) calls found = Inr r" and "P found"
    and "\<And>dat f f'. V dat f = Inr f' \<Longrightarrow> P f \<Longrightarrow> P f'"
  shows "P r"
  using assms(1,2)
proof (induction calls arbitrary: found)
  case (Cons c calls)
  obtain t v n where c: "c = (t, v, n)" by (cases c)
  show ?case
  proof (cases "t = account \<and> v = 0")
    case True
    with Cons.prems(1) c obtain f where "V n found = Inr f"
      "foldE (\<lambda>(t, v, nested) f. if t = account \<and> v = 0 then V nested f else Inr f) calls f = Inr r" by auto
    then show ?thesis using Cons.IH [of f] assms(3) Cons.prems(2) by blast
  next
    case False
    then show ?thesis using Cons c by auto
  qed
qed simp

lemma visit_finds_install:
  "visit A account ee ed n dat found = Inr (Some install) \<Longrightarrow> found \<noteq> Some install \<Longrightarrow>
     is_call (installID A) install \<and>
     (\<exists>config ss hs. unpackInstallArgs A (drop 4 install) = Inr (config, ss, ed, hs) \<and> take 24 config = ee)"
proof (induction n arbitrary: dat found install)
  case 0
  then show ?case by (auto split: if_splits)
next
  case (Suc n)
  let ?P = "\<lambda>f. \<forall>i. f = Some i \<longrightarrow> found = Some i \<or> is_call (installID A) i \<and>
     (\<exists>config ss hs. unpackInstallArgs A (drop 4 i) = Inr (config, ss, ed, hs) \<and> take 24 config = ee)"
  have "?P (Some install)"
  proof (cases "length dat < 4 \<or> take 4 dat = installID A")
    case True
    then show ?thesis using Suc.prems
      by (auto simp: is_call_def liftS_def split: if_splits sum.splits prod.splits)
  next
    case False
    show ?thesis
    proof (cases "UnpackExecuteCalldata A dat")
      case (Inl e)
      then show ?thesis using Suc.prems False by auto
    next
      case (Inr calls)
      with Suc.prems(1) False have f: "foldE (\<lambda>(t, v, nested) f. if t = account \<and> v = 0
          then visit A account ee ed n nested f else Inr f) calls found = Inr (Some install)" by simp
      have "?P f'" if "visit A account ee ed n d f = Inr f'" and "?P f" for d f f'
        using Suc.IH [of d f] that by (cases f') (simp_all, blast)
      then show ?thesis using foldE_visit_invariant [OF f, of ?P] by blast
    qed
  qed
  with Suc.prems(2) show ?case by blast
qed

lemma check_hooks_each: "check_hooks entity hooks = Inr () \<Longrightarrow> h \<in> set hooks \<Longrightarrow>
   length h \<ge> hookConfigLen \<and> hook_module h \<in> {AllowlistModuleAddress, NativeTokenLimitModuleAddress, TimeRangeModuleAddress} \<and>
   take 24 h = PackModuleEntity (hook_module h) entity \<and>
   (drop hookConfigLen h = [] \<or> be_nat (take 32 (drop hookConfigLen h)) = unat entity)"
  by (induction entity hooks rule: check_hooks.induct) (auto simp: Let_def split: if_splits)

section \<open>Properties\<close>

text \<open>
C40: The teardown of a grant matches its install, also when the stored call is the batch of a replacement.
  The install is found inside the batch, and the derived \<open>uninstallValidation\<close> names the same entity of the
  signer module and carries exactly one payload per installed hook, validation hooks in reverse install
  order and then execution hooks in reverse install order, which is the order the account consumes. The
  entities a replacement batch removes read back from its calldata in order, and a plain install removes none.
\<close>

theorem teardown_matches_install:
  assumes ok: "codec_ok A" and g: "PackSessionSignerInstall A g = Inr install"
    and sel: "list_all (\<lambda>s. length s = 4) (sg_selectors g)" and hooks: "\<forall>h \<in> set (sg_hooks g). length h \<ge> hookConfigLen"
    and us: "list_all2 (\<lambda>e u. \<exists>hs. PackSessionSignerUninstall A e hs = Inr u) es us"
    and b: "replace_batch A w install us = Inr batch"
  shows "SessionSignerUninstallFromInstall A (sg_entity g) batch = PackSessionSignerUninstall A (sg_entity g)
      (map (hookUninstallPayload (sg_entity g))
        (rev (filter is_validation_hook (sg_hooks g)) @ rev (filter (\<lambda>h. \<not> is_validation_hook h) (sg_hooks g)))) \<and>
    SessionSignerUninstallFromInstall A (sg_entity g) install = SessionSignerUninstallFromInstall A (sg_entity g) batch \<and>
    UninstalledEntitiesWithin A batch = Inr es \<and> UninstalledEntitiesWithin A install = Inr []"
proof -
  note I = install_shape [OF ok g sel] and B = replace_batch_unpacks [OF ok b] and D = codec_distinct [OF ok]
  have within: "InstallValidationWithin A batch = Inr install"
    using B D I(1,2) by (simp add: InstallValidationWithin_def is_call_def)
  have self: "InstallValidationWithin A install = Inr install" using I(1,2) by (simp add: InstallValidationWithin_def)
  have "\<not> is_call (uninstallID A) install" using I(1) D(1) by (simp add: is_call_def)
  then have "UninstalledEntitiesWithin A batch = Inr es"
    using B D uninstalled_entities_calls [OF ok us] by (simp add: UninstalledEntitiesWithin_def comp_def)
  moreover have "UnpackExecuteCalldata A install = Inl (UnknownSelector (installID A))"
    using I(1,2) D by (auto simp: UnpackExecuteCalldata_def UnwrapExecuteUserOp_def Let_def)
  then have "UninstalledEntitiesWithin A install = Inr []" using I(1) D(1) by (simp add: UninstalledEntitiesWithin_def)
  ultimately show ?thesis using within self I(4) teardown_payloads_order [OF hooks, of "sg_entity g" "[]" "[]"]
    by (simp add: SessionSignerUninstallFromInstall_def rev_map)
qed

text \<open>
An install recovered from history belongs to this entity and this signer: it is an
  \<open>installValidation\<close> call whose configuration starts with the signer module and the entity and whose data
  is exactly (entity, signer), and every hook it installed is of a known module, is bound to this entity and
  carries data of this entity only. So the teardown built from it cannot reach another grant's hooks.
\<close>

lemma historical_install_sound:
  assumes "HistoricalSessionSignerInstall A account entity signer call = Inr (Some install)"
  shows "entity \<noteq> 0 \<and> signer \<noteq> zero_address \<and> is_call (installID A) install \<and>
    (\<exists>config ss hs. unpackInstallArgs A (drop 4 install) = Inr (config, ss, PackSingleSignerInstallData entity signer, hs) \<and>
       take 24 config = PackModuleEntity SingleSignerValidationModuleAddress entity \<and>
       (\<forall>h \<in> set hs. length h \<ge> hookConfigLen \<and>
          hook_module h \<in> {AllowlistModuleAddress, NativeTokenLimitModuleAddress, TimeRangeModuleAddress} \<and>
          take 24 h = PackModuleEntity (hook_module h) entity \<and>
          (drop hookConfigLen h = [] \<or> be_nat (take 32 (drop hookConfigLen h)) = unat entity)))"
proof -
  let ?ee = "PackModuleEntity SingleSignerValidationModuleAddress entity" and ?ed = "PackSingleSignerInstallData entity signer"
  from assms have g: "\<not> entity < MinSessionEntityID" "signer \<noteq> zero_address"
    and v: "visit A account ?ee ?ed 5 call None = Inr (Some install)"
    and c: "checkHistoricalSessionHooks A entity install = Inr ()"
    by (auto simp: HistoricalSessionSignerInstall_def split: if_splits option.splits)
  obtain config ss hs where i: "is_call (installID A) install"
    "unpackInstallArgs A (drop 4 install) = Inr (config, ss, ?ed, hs)" "take 24 config = ?ee"
    using visit_finds_install [OF v] by auto
  have "check_hooks entity hs = Inr ()"
    using c i(1,2) by (auto simp: checkHistoricalSessionHooks_def DecodeInstallValidationHooks_def is_call_def split: if_splits)
  with g i check_hooks_each show ?thesis by (auto simp: MinSessionEntityID_def not_less)
qed

section \<open>Witnesses\<close>

text \<open>A codec that writes a list of byte strings with their lengths in unary, so that unpacking is exact.\<close>

fun put_list :: "bytes list \<Rightarrow> bytes" where
  "put_list [] = []"
| "put_list (b # bs) = replicate (length b) (CHR ''1'') @ CHR ''0'' # b @ put_list bs"

fun get_list :: "nat \<Rightarrow> bytes \<Rightarrow> bytes list" where
  "get_list 0 s = []"
| "get_list (Suc n) s = (if s = [] then [] else
     let k = length (takeWhile (\<lambda>c. c = CHR ''1'') s); r = drop (Suc k) s in take k r # get_list n (drop k r))"

lemma takeWhile_unary: "takeWhile (\<lambda>c. c = CHR ''1'') (replicate k (CHR ''1'') @ CHR ''0'' # r) =
    replicate k (CHR ''1'')"
  by (induction k) auto

lemma get_put: "n \<ge> length bs \<Longrightarrow> get_list n (put_list bs) = bs"
proof (induction bs arbitrary: n)
  case Nil then show ?case by (cases n) auto
next
  case (Cons b bs)
  then obtain m where m: "n = Suc m" "m \<ge> length bs" by (cases n) auto
  then show ?case using Cons.IH [of m] by (simp add: takeWhile_unary Let_def)
qed

lemma put_list_length: "length bs \<le> length (put_list bs)"
  by (induction bs) auto

lemma get_put_self: "get_list (length (put_list bs)) (put_list bs) = bs"
  using get_put put_list_length by blast

definition call_bytes :: "call \<Rightarrow> bytes list" where
  "call_bytes c = (case c of (t, v, dat) \<Rightarrow> [be_bytes 20 (unat t), be_bytes 32 (nat v), dat])"

fun bytes_calls :: "bytes list \<Rightarrow> call list" where
  "bytes_calls (t # v # dat # r) = (of_nat (be_nat t), int (be_nat v), dat) # bytes_calls r"
| "bytes_calls _ = []"

definition unary_codec :: abi_codec where
  "unary_codec = \<lparr>installID = ''inst'', uninstallID = ''unin'', executeID = ''exec'', executeBatchID = ''batc'',
     packInstallArgs = (\<lambda>(c, ss, dat, hs). put_list (c # dat # put_list ss # hs)),
     unpackInstallArgs = (\<lambda>b. case get_list (length b) b of
        c # dat # s # hs \<Rightarrow> Inr (c, get_list (length s) s, dat, hs) | _ \<Rightarrow> Inl ''short''),
     packUninstallArgs = (\<lambda>(me, dat, hs). put_list (me # dat # hs)),
     unpackUninstallArgs = (\<lambda>b. case get_list (length b) b of me # dat # hs \<Rightarrow> Inr (me, dat, hs) | _ \<Rightarrow> Inl ''short''),
     packExecuteArgs = (\<lambda>c. put_list (call_bytes c)),
     unpackExecuteArgs = (\<lambda>b. case bytes_calls (get_list (length b) b) of [c] \<Rightarrow> Inr c | _ \<Rightarrow> Inl ''short''),
     packBatchArgs = (\<lambda>cs. put_list (concat (map call_bytes cs))),
     unpackBatchArgs = (\<lambda>b. Inr (bytes_calls (get_list (length b) b)))\<rparr>"

lemma bytes_calls_id: "\<forall>(t, v, dat) \<in> set cs. 0 \<le> v \<and> v < 2 ^ 256 \<Longrightarrow> bytes_calls (concat (map call_bytes cs)) = cs"
proof (induction cs)
  case (Cons c cs)
  obtain t v dat where c: "c = (t, v, dat)" by (cases c)
  with Cons.prems have v: "0 \<le> v" "v < 2 ^ 256" by auto
  have "be_nat (be_bytes 32 (nat v)) = nat v"
    using be_nat_be_bytes [of 32 "nat v"] v by (simp add: nat_less_iff)
  moreover have "be_nat (be_bytes 20 (unat t)) = unat t"
    using be_nat_be_bytes [of 20 "unat t"] unat_bytes(1) [of t] by (simp only: mod_less)
  ultimately show ?case using Cons c v by (simp add: call_bytes_def)
qed simp

lemma unary_codec_ok: "codec_ok unary_codec"
proof -
  have ids: "list_all (\<lambda>s. length s = 4) [installID unary_codec, uninstallID unary_codec, executeID unary_codec,
      executeBatchID unary_codec] \<and>
    distinct [installID unary_codec, uninstallID unary_codec, executeID unary_codec, executeBatchID unary_codec,
      selectorExecuteUserOp]"
  proof -
    have "of_char (hd selectorExecuteUserOp) = (141 :: nat)" by (simp add: selectorExecuteUserOp_def chars_def)
    then have "s \<noteq> selectorExecuteUserOp" if "of_char (hd s) \<noteq> (141 :: nat)" for s using that by auto
    then show ?thesis by (simp add: unary_codec_def)
  qed
  have batch: "unpackBatchArgs unary_codec (packBatchArgs unary_codec cs) = Inr cs"
    if "\<forall>(t, v, dat) \<in> set cs. 0 \<le> v \<and> v < 2 ^ 256" for cs
    using bytes_calls_id [OF that] by (simp add: unary_codec_def get_put_self)
  have one: "unpackExecuteArgs unary_codec (packExecuteArgs unary_codec (t, v, dat)) = Inr (t, v, dat)"
    if "0 \<le> v" "v < 2 ^ 256" for t v dat
    using bytes_calls_id [of "[(t, v, dat)]"] that by (simp add: unary_codec_def get_put_self)
  have ins: "unpackInstallArgs unary_codec (packInstallArgs unary_codec (c, ss, dat, hs)) = Inr (c, ss, dat, hs)" for c ss dat hs
    by (simp add: unary_codec_def get_put_self del: put_list.simps)
  have uni: "unpackUninstallArgs unary_codec (packUninstallArgs unary_codec (me, dat, hs)) = Inr (me, dat, hs)" for me dat hs
    by (simp add: unary_codec_def get_put_self del: put_list.simps)
  show ?thesis unfolding codec_ok_def using ids batch one ins uni by blast
qed

definition sample_grant :: session_grant where
  "sample_grant = \<lparr>sg_entity = 3, sg_signer = 4, sg_selectors = [], sg_global = True,
     sg_hooks = [PackHookConfig AllowlistModuleAddress 3 1 @ ''rows'', AllowlistExecHook 3],
     allow_signature_validation = False, allow_self_administration = False\<rparr>"

lemma sample_hooks:
  "is_validation_hook (PackHookConfig AllowlistModuleAddress 3 1 @ ''rows'')" "\<not> is_validation_hook (AllowlistExecHook 3)"
  "length (AllowlistExecHook 3) = 25"
  unfolding AllowlistExecHook_def is_validation_hook_def PackHookConfig_def PackValidationConfig_def HookFlagExecHasPre_def
  by (simp_all add: nth_append del: be_bytes.simps)

lemma sample_install: "\<exists>install. PackSessionSignerInstall unary_codec sample_grant = Inr install"
proof -
  have "HasExecutionHook sample_grant" using sample_hooks by (simp add: HasExecutionHook_def sample_grant_def)
  then show ?thesis by (simp add: PackSessionSignerInstall_def GrantValidate_def sample_grant_def MinSessionEntityID_def zero_address_def)
qed

theorem teardown_matches_install_witness:
  "codec_ok unary_codec \<and> (\<exists>install u batch. PackSessionSignerInstall unary_codec sample_grant = Inr install \<and>
     PackSessionSignerUninstall unary_codec 2 [] = Inr u \<and> replace_batch unary_codec 9 install [u] = Inr batch \<and>
     UninstalledEntitiesWithin unary_codec batch = Inr [2])"
proof -
  obtain install where i: "PackSessionSignerInstall unary_codec sample_grant = Inr install" using sample_install by blast
  obtain u where u: "PackSessionSignerUninstall unary_codec 2 [] = Inr u"
    by (simp add: PackSessionSignerUninstall_def MinSessionEntityID_def)
  obtain batch where b: "replace_batch unary_codec 9 install [u] = Inr batch"
    by (simp add: replace_batch_def PackExecuteBatchMAv2_def)
  have h: "list_all (\<lambda>s. length s = 4) (sg_selectors sample_grant)" "\<forall>h \<in> set (sg_hooks sample_grant). length h \<ge> hookConfigLen"
    using sample_hooks(3) by (simp_all add: sample_grant_def hookConfigLen_def)
  have us: "list_all2 (\<lambda>e u. \<exists>hs. PackSessionSignerUninstall unary_codec e hs = Inr u) [2] [u]" using u by auto
  from teardown_matches_install [OF unary_codec_ok i h us b] unary_codec_ok i u b show ?thesis by blast
qed

definition plain_grant :: session_grant where
  "plain_grant = sample_grant\<lparr>sg_hooks := [AllowlistExecHook 3]\<rparr>"

lemma historical_install_sound_witness:
  "\<exists>install. PackSessionSignerInstall unary_codec plain_grant = Inr install \<and>
     HistoricalSessionSignerInstall unary_codec 9 3 4 install = Inr (Some install) \<and> is_call (installID unary_codec) install"
proof -
  have "HasExecutionHook plain_grant" using sample_hooks by (simp add: HasExecutionHook_def plain_grant_def sample_grant_def)
  then obtain install where i: "PackSessionSignerInstall unary_codec plain_grant = Inr install"
    by (simp add: PackSessionSignerInstall_def GrantValidate_def plain_grant_def sample_grant_def MinSessionEntityID_def zero_address_def)
  have sel: "list_all (\<lambda>s. length s = 4) (sg_selectors plain_grant)" by (simp add: plain_grant_def sample_grant_def)
  note I = install_shape [OF unary_codec_ok i sel]
  have g: "sg_hooks plain_grant = [AllowlistExecHook 3]" "sg_entity plain_grant = 3" "sg_signer plain_grant = 4"
    by (simp_all add: plain_grant_def sample_grant_def)
  have cfg: "take 24 (PackValidationConfig m e f) = PackModuleEntity m e" for m e f
    unfolding PackValidationConfig_def PackModuleEntity_def by (simp del: be_bytes.simps)
  have hm: "hook_module (AllowlistExecHook 3) = AllowlistModuleAddress"
    using be_nat_be_bytes [of 20 "unat AllowlistModuleAddress"] unat_bytes(1) [of AllowlistModuleAddress]
    unfolding hook_module_def AllowlistExecHook_def PackHookConfig_def PackValidationConfig_def
    by (simp del: be_bytes.simps)
  have "check_hooks 3 [AllowlistExecHook 3] = Inr ()"
    using sample_hooks(3) hm cfg by (simp add: hookConfigLen_def) (simp add: AllowlistExecHook_def PackHookConfig_def cfg)
  then have "checkHistoricalSessionHooks unary_codec 3 install = Inr ()" using I(4) g by (simp add: checkHistoricalSessionHooks_def)
  moreover have "visit unary_codec 9 (PackModuleEntity SingleSignerValidationModuleAddress 3)
      (PackSingleSignerInstallData 3 4) 5 install None = Inr (Some install)"
  proof -
    have "(5 :: nat) = Suc 4" by simp
    then show ?thesis by (simp only: visit.simps) (use I(1,2,3) g cfg in simp)
  qed
  ultimately have h: "HistoricalSessionSignerInstall unary_codec 9 3 4 install = Inr (Some install)"
    by (simp add: HistoricalSessionSignerInstall_def MinSessionEntityID_def zero_address_def)
  from historical_install_sound [OF h] h i show ?thesis by blast
qed

end
