(* ===== verification/Authority.thy ===== *)
theory Authority
  imports Keys Calldata
begin

unbundle bit_operations_syntax

text \<open>
  The store of session grants and what the engine does with it: \<open>core/taskengine/session_policy.go\<close>,
  \<open>session_grant.go\<close>, \<open>session_entity_retired.go\<close>, \<open>session_policy_cleanup.go\<close> and the policy handlers of
  \<open>engine_session_policy.go\<close>. Every operation that changes a grant runs under the write lock of its
  (chain, owner, runner), so it is one step of the model; a storage error in the middle of one leaves the
  rows written so far, and the model returns that database. JSON and the chain are parameters.
\<close>

section \<open>Environment\<close>

text \<open>
  \<open>ToJSON\<close> and \<open>FromStorageData\<close> are \<open>encoding/json\<close>, which keeps a policy whose texts are valid UTF-8
  (\<open>utf8\<close>) and only produces such texts.
\<close>

record 'd auth_env =
  au_badger :: "'d badger"
  policy_to_json :: "session_policy \<Rightarrow> bytes option"
  policy_from_json :: "bytes \<Rightarrow> session_policy option"
  from_hex :: "string \<Rightarrow> bytes"
  utf8 :: "string \<Rightarrow> bool"

definition policy_texts :: "session_policy \<Rightarrow> string list" where
  "policy_texts p = [sp_id p, agent_label p, justification p, sizing p, sp_status p] @
     concat (map (\<lambda>c. [cap_amount c, cap_granted c])
       (budget_start_amounts p @ sp_erc20_spend_caps p @ (case sp_erc20_spend_cap p of None \<Rightarrow> [] | Some c \<Rightarrow> [c]))) @
     concat (map (\<lambda>c. case c of None \<Rightarrow> [] | Some n \<Rightarrow> [nat_amount n, nat_granted n])
       [budget_start_native p, sp_native_spend_cap p]) @
     concat (map aa_selectors (sp_allowed_actions p)) @
     (case sp_grant p of None \<Rightarrow> [] | Some g \<Rightarrow> [applied_userop_hash g])"

definition text_ok :: "'d auth_env \<Rightarrow> session_policy \<Rightarrow> bool" where
  "text_ok E p \<longleftrightarrow> list_all (utf8 E) (policy_texts p)"

definition auth_env_ok :: "'d auth_env \<Rightarrow> bool" where
  "auth_env_ok E \<longleftrightarrow> badger_ok (au_badger E) \<and>
     (\<forall>s. ascii s \<longrightarrow> utf8 E s) \<and>
     (\<forall>v p. policy_from_json E v = Some p \<longrightarrow> text_ok E p) \<and>
     (\<forall>p v. text_ok E p \<longrightarrow> policy_to_json E p = Some v \<longrightarrow> policy_from_json E v = Some p)"

datatype auth_error = ListErr serr | Unreadable bytes | PolicyInvalid policy_error | SerializeErr string
  | StoreErr serr | Ambiguous address string string | EntityExhausted address | RetiredErr serr | RetiredInvalid
  | EntityZeroArg | EntityStored "32 word" | EntityUnverified "32 word" string | EntityOccupied "32 word"
  | UnreadRun nat "32 word" string | WalkUnread nat string | WalkSpent "32 word" | GateErr string

datatype grant_error = AuthErr auth_error | NothingPrepared | BadSignatureLength nat | MalformedSignature string
  | SignerMismatch address | SetChanged nat nat | TeardownMoved string "32 word" | TeardownUnread "32 word" string
  | NoPolicy | NoCleanup string | CallErr call_error | OpErr op_error | MissingArgs | PolicyNotFound | WrongWallet | HoldPresent string
  | HooksErr perm_error | CleanupUnavailable grant_error | NilDeref
  | NotUlid string | DeadlinePassed uint64 | BaseChanged string | Refused string

section \<open>Reading and writing grants\<close>

fun decode_rows :: "'d auth_env \<Rightarrow> (bytes \<times> bytes) list \<Rightarrow> auth_error + session_policy list" where
  "decode_rows E [] = Inr []"
| "decode_rows E ((k, v) # rows) = (case policy_from_json E v of
       None \<Rightarrow> Inl (Unreadable k)
     | Some p \<Rightarrow> bindE (decode_rows E rows) (\<lambda>ps. Inr (p # ps)))"

definition ListSessionPolicies :: "'d auth_env \<Rightarrow> 'd \<Rightarrow> int \<Rightarrow> address \<Rightarrow> auth_error + session_policy list" where
  "ListSessionPolicies E d chainID owner =
     (case GetByPrefix (au_badger E) d (SessionPolicyPrefix chainID owner) of
        Inl e \<Rightarrow> Inl (ListErr e)
      | Inr items \<Rightarrow> decode_rows E items)"

text \<open>\<open>*policy.Owner\<close> is not nil after \<open>Validate\<close>; the other branch is not reached.\<close>

definition StoreSessionPolicy :: "'d auth_env \<Rightarrow> 'd \<Rightarrow> session_policy \<Rightarrow> auth_error + 'd" where
  "StoreSessionPolicy E d p = (case PolicyValidate (from_hex E) p of
       Inl e \<Rightarrow> Inl (PolicyInvalid e)
     | Inr _ \<Rightarrow> (case policy_to_json E p of
         None \<Rightarrow> Inl (SerializeErr (sp_id p))
       | Some body \<Rightarrow> (case sp_owner p of
           None \<Rightarrow> Inl (PolicyInvalid (NoOwner (sp_id p)))
         | Some owner \<Rightarrow> (case StorageSet (au_badger E) d (SessionPolicyKey (sp_chain_id p) owner (sp_id p)) body of
             Inl e \<Rightarrow> Inl (StoreErr e) | Inr d' \<Rightarrow> Inr d'))))"

section \<open>Locks\<close>

text \<open>FNV-1a over the eight bytes of the chain id, least significant first, and the two addresses.\<close>

definition fnv_step :: "32 word \<Rightarrow> nat \<Rightarrow> 32 word" where
  "fnv_step h b = (h XOR of_nat b) * 16777619"

definition chain_bytes :: "int \<Rightarrow> nat list" where
  "chain_bytes c = map (\<lambda>i. nat ((c div 2 ^ (8 * i)) mod 256)) [0..<8]"

definition address_bytes :: "address \<Rightarrow> nat list" where
  "address_bytes a = map of_char (be_bytes 20 (unat a))"

definition sessionAuthorityLockShards :: nat where "sessionAuthorityLockShards = 64"

definition sessionAuthorityShard :: "int \<Rightarrow> address \<Rightarrow> address \<Rightarrow> nat" where
  "sessionAuthorityShard chainID owner runner =
     unat (foldl fnv_step 2166136261 (chain_bytes chainID @ address_bytes owner @ address_bytes runner))
       mod sessionAuthorityLockShards"

text \<open>A mutex is its index in the array, so equal mutexes are equal indices.\<close>

fun first_of_each :: "nat list \<Rightarrow> nat list \<Rightarrow> nat list" where
  "first_of_each seen [] = []"
| "first_of_each seen (m # ms) =
     (if m \<in> set seen then first_of_each seen ms else m # first_of_each (m # seen) ms)"

definition orderedSessionLocks :: "int list \<Rightarrow> address \<Rightarrow> address \<Rightarrow> nat list" where
  "orderedSessionLocks chainIDs owner runner =
     sort (first_of_each [] (map (\<lambda>c. sessionAuthorityShard c owner runner) chainIDs))"

section \<open>The grant of a wallet\<close>

definition on_runner :: "address \<Rightarrow> session_policy \<Rightarrow> bool" where
  "on_runner w p \<longleftrightarrow> sp_runner p = Some w"

fun active_scan :: "address \<Rightarrow> session_policy option \<Rightarrow> session_policy list \<Rightarrow> auth_error + session_policy option" where
  "active_scan w found [] = Inr found"
| "active_scan w found (p # ps) =
     (if \<not> on_runner w p \<or> \<not> Usable (Some p) then active_scan w found ps
      else (case found of
          Some f \<Rightarrow> Inl (Ambiguous w (sp_id f) (sp_id p))
        | None \<Rightarrow> active_scan w (Some p) ps))"

definition activeSessionPolicyLocked :: "'d auth_env \<Rightarrow> 'd \<Rightarrow> int \<Rightarrow> address \<Rightarrow> address \<Rightarrow>
    auth_error + session_policy option" where
  "activeSessionPolicyLocked E d chainID owner wallet =
     bindE (ListSessionPolicies E d chainID owner) (active_scan wallet None)"

fun latest_scan :: "address \<Rightarrow> session_policy option \<Rightarrow> session_policy list \<Rightarrow> session_policy option" where
  "latest_scan w latest [] = latest"
| "latest_scan w latest (p # ps) =
     (if sp_id p = [] \<or> \<not> on_runner w p then latest_scan w latest ps
      else if (case latest of None \<Rightarrow> True | Some l \<Rightarrow> to_lower (sp_id p) > to_lower (sp_id l))
      then latest_scan w (Some p) ps else latest_scan w latest ps)"

definition latestRunnerSessionPolicyLocked :: "'d auth_env \<Rightarrow> 'd \<Rightarrow> int \<Rightarrow> address \<Rightarrow> address \<Rightarrow>
    auth_error + session_policy option" where
  "latestRunnerSessionPolicyLocked E d chainID owner wallet =
     bindE (ListSessionPolicies E d chainID owner) (\<lambda>ps. Inr (latest_scan wallet None ps))"

definition priorDelegatedMergeOption :: "'d auth_env \<Rightarrow> 'd \<Rightarrow> int \<Rightarrow> address \<Rightarrow> address \<Rightarrow> session_policy option \<Rightarrow>
    auth_error + delegated_recipient list option" where
  "priorDelegatedMergeOption E d chainID owner wallet current =
     (if current \<noteq> None then Inr None
      else bindE (latestRunnerSessionPolicyLocked E d chainID owner wallet) (\<lambda>latest.
        case latest of None \<Rightarrow> Inr None
        | Some l \<Rightarrow> if sp_delegated_native_recipients l = [] then Inr None
            else Inr (Some (sp_delegated_native_recipients l))))"

section \<open>Superseding\<close>

text \<open>\<open>strings.EqualFold\<close> on policy ids, which are ASCII.\<close>

definition equal_fold :: "string \<Rightarrow> string \<Rightarrow> bool" where
  "equal_fold a b \<longleftrightarrow> to_lower a = to_lower b"

text \<open>The database, the ids revoked so far and the error that stopped the loop.\<close>

fun supersede_loop :: "'d auth_env \<Rightarrow> address \<Rightarrow> string \<Rightarrow> session_policy list \<Rightarrow> 'd \<Rightarrow> string list \<Rightarrow>
    'd \<times> string list \<times> auth_error option" where
  "supersede_loop E runner keepID [] d done = (d, done, None)"
| "supersede_loop E runner keepID (p # ps) d done =
     (if \<not> on_runner runner p \<or> \<not> Usable (Some p) then supersede_loop E runner keepID ps d done
      else if equal_fold (sp_id p) keepID then supersede_loop E runner keepID ps d done
      else (case StoreSessionPolicy E d (p\<lparr>sp_status := SessionPolicyRevoked\<rparr>) of
          Inl e \<Rightarrow> (d, done, Some e)
        | Inr d' \<Rightarrow> supersede_loop E runner keepID ps d' (done @ [sp_id p])))"

definition supersedeUsablePolicies :: "'d auth_env \<Rightarrow> 'd \<Rightarrow> int \<Rightarrow> address \<Rightarrow> address \<Rightarrow> string \<Rightarrow>
    'd \<times> string list \<times> auth_error option" where
  "supersedeUsablePolicies E d chainID owner runner keepID =
     (case ListSessionPolicies E d chainID owner of
        Inl e \<Rightarrow> (d, [], Some e)
      | Inr ps \<Rightarrow> supersede_loop E runner keepID ps d [])"

section \<open>Entities\<close>

definition retiredSessionEntityKey :: "int \<Rightarrow> address \<Rightarrow> bytes" where
  "retiredSessionEntityKey chain wallet = join ''retiredsessionentity'' (join (sdecimal chain) (lower_hex wallet))"

definition be_uint32 :: "bytes \<Rightarrow> 32 word" where
  "be_uint32 raw = foldl (\<lambda>acc c. acc * 256 + of_nat (of_char c)) 0 raw"

definition retiredSessionEntityFloor :: "'d auth_env \<Rightarrow> 'd \<Rightarrow> int \<Rightarrow> address \<Rightarrow> auth_error + 32 word" where
  "retiredSessionEntityFloor E d chain wallet = (case GetKey (au_badger E) d (retiredSessionEntityKey chain wallet) of
       Inl e \<Rightarrow> if e = ErrKeyNotFound then Inr 0 else Inl (RetiredErr e)
     | Inr raw \<Rightarrow> if length raw \<noteq> 4 then Inl RetiredInvalid else Inr (be_uint32 raw))"

text \<open>\<open>gate\<close> is the error of a done context or of the per-wallet lock, if any.\<close>

definition reserveRetiredSessionEntity :: "'d auth_env \<Rightarrow> string option \<Rightarrow> 'd \<Rightarrow> int \<Rightarrow> address \<Rightarrow> 32 word \<Rightarrow>
    auth_error + 'd" where
  "reserveRetiredSessionEntity E gate d chain wallet entity = (case gate of
       Some e \<Rightarrow> Inl (GateErr e)
     | None \<Rightarrow> bindE (retiredSessionEntityFloor E d chain wallet) (\<lambda>floor.
         if floor \<ge> entity then Inr d
         else (case StorageSet (au_badger E) d (retiredSessionEntityKey chain wallet) (be_bytes 4 (unat entity)) of
           Inl e \<Rightarrow> Inl (StoreErr e) | Inr d' \<Rightarrow> Inr d')))"

fun next_entity :: "address \<Rightarrow> session_policy list \<Rightarrow> 32 word \<Rightarrow> auth_error + 32 word" where
  "next_entity w [] n = Inr n"
| "next_entity w (p # ps) n =
     (if \<not> on_runner w p then next_entity w ps n
      else if sp_entity_id p \<ge> n then
        (if sp_entity_id p = - 1 then Inl (EntityExhausted w) else next_entity w ps (sp_entity_id p + 1))
      else next_entity w ps n)"

definition NextSessionEntityID :: "'d auth_env \<Rightarrow> 'd \<Rightarrow> int \<Rightarrow> address \<Rightarrow> address \<Rightarrow> auth_error + 32 word" where
  "NextSessionEntityID E d chainID owner wallet =
     bindE (ListSessionPolicies E d chainID owner) (\<lambda>ps.
     bindE (next_entity wallet ps 1) (\<lambda>n.
     bindE (retiredSessionEntityFloor E d chainID wallet) (\<lambda>retired.
       if retired \<ge> n then (if retired = - 1 then Inl (EntityExhausted wallet) else Inr (retired + 1))
       else Inr n)))"

definition sessionEntityTaken :: "'d auth_env \<Rightarrow> 'd \<Rightarrow> int \<Rightarrow> address \<Rightarrow> address \<Rightarrow> 32 word \<Rightarrow> auth_error + bool" where
  "sessionEntityTaken E d chainID owner wallet entity =
     bindE (ListSessionPolicies E d chainID owner)
       (\<lambda>ps. Inr (list_ex (\<lambda>p. on_runner wallet p \<and> sp_entity_id p = entity) ps))"

text \<open>An occupancy read of the chain: an error, or whether the entity is spoken for.\<close>

type_synonym occupancy = "address \<Rightarrow> 32 word \<Rightarrow> string + bool"

definition verifySessionEntityAvailable :: "'d auth_env \<Rightarrow> 'd \<Rightarrow> int \<Rightarrow> address \<Rightarrow> address \<Rightarrow> 32 word \<Rightarrow>
    occupancy option \<Rightarrow> auth_error + unit" where
  "verifySessionEntityAvailable E d chainID owner wallet entity check =
     (if entity = 0 then Inl EntityZeroArg
      else bindE (sessionEntityTaken E d chainID owner wallet entity) (\<lambda>taken.
        if taken then Inl (EntityStored entity)
        else (case check of None \<Rightarrow> Inr ()
          | Some c \<Rightarrow> (case c wallet entity of
              Inl e \<Rightarrow> Inl (EntityUnverified entity e)
            | Inr occupied \<Rightarrow> if occupied then Inl (EntityOccupied entity) else Inr ()))))"

definition maxEntityOccupancyProbes :: nat where "maxEntityOccupancyProbes = 8"
definition maxEntityOccupancyWalk :: nat where "maxEntityOccupancyWalk = 256"

text \<open>\<open>n\<close> candidates remain; candidate \<open>i\<close> is next. \<open>lastErr\<close> is the error of the last failed read.\<close>

fun occupancy_walk :: "occupancy \<Rightarrow> address \<Rightarrow> 32 word \<Rightarrow> nat \<Rightarrow> nat \<Rightarrow> nat \<Rightarrow> nat \<Rightarrow> string option \<Rightarrow>
    auth_error + 32 word" where
  "occupancy_walk check w start 0 i unread unreadTotal lastErr = (case lastErr of
       Some e \<Rightarrow> Inl (WalkUnread unreadTotal e) | None \<Rightarrow> Inl (WalkSpent start))"
| "occupancy_walk check w start (Suc n) i unread unreadTotal lastErr =
     (if (of_nat i :: 32 word) > - 1 - start then Inl (EntityExhausted w)
      else (let cand = start + of_nat i in
        case check w cand of
          Inl e \<Rightarrow> if Suc unread \<ge> maxEntityOccupancyProbes then Inl (UnreadRun (Suc unread) cand e)
            else occupancy_walk check w start n (Suc i) (Suc unread) (Suc unreadTotal) (Some e)
        | Inr occupied \<Rightarrow> if \<not> occupied then Inr cand
            else occupancy_walk check w start n (Suc i) 0 unreadTotal lastErr))"

definition NextFreeSessionEntityID :: "'d auth_env \<Rightarrow> 'd \<Rightarrow> int \<Rightarrow> address \<Rightarrow> address \<Rightarrow> occupancy option \<Rightarrow>
    auth_error + 32 word" where
  "NextFreeSessionEntityID E d chainID owner wallet check =
     bindE (NextSessionEntityID E d chainID owner wallet) (\<lambda>start.
       case check of None \<Rightarrow> Inr start
       | Some c \<Rightarrow> occupancy_walk c wallet start maxEntityOccupancyWalk 0 0 0 None)"

section \<open>Teardown\<close>

definition maxOnChainTeardowns :: nat where "maxOnChainTeardowns = 4"

definition is_teardown_target :: "address \<Rightarrow> session_policy \<Rightarrow> bool" where
  "is_teardown_target runner p \<longleftrightarrow> on_runner runner p \<and> (case sp_grant p of None \<Rightarrow> False
     | Some g \<Rightarrow> NeedsOnChainCleanup (Some g) \<and> install_call g \<noteq> [] \<and> sp_entity_id p \<noteq> 0 \<and>
         (Usable (Some p) \<or> sp_status p = SessionPolicyRevoked))"

definition onChainTeardownTargets :: "'d auth_env \<Rightarrow> 'd \<Rightarrow> int \<Rightarrow> address \<Rightarrow> address \<Rightarrow>
    auth_error + session_policy list" where
  "onChainTeardownTargets E d chainID owner runner =
     bindE (ListSessionPolicies E d chainID owner) (\<lambda>ps. Inr (filter (is_teardown_target runner) ps))"

definition markEntityTornDownLocked :: "'d auth_env \<Rightarrow> int \<Rightarrow> 'd \<Rightarrow> int \<Rightarrow> address \<Rightarrow> address \<Rightarrow> 32 word \<Rightarrow>
    auth_error + 'd" where
  "markEntityTornDownLocked E now d chainID owner runner entity =
     bindE (ListSessionPolicies E d chainID owner) (\<lambda>ps.
       case find (\<lambda>p. on_runner runner p \<and> sp_entity_id p = entity \<and> sp_grant p \<noteq> None) ps of
         None \<Rightarrow> Inr d
       | Some p \<Rightarrow> if TornDown (sp_grant p) then Inr d
           else StoreSessionPolicy E d (p\<lparr>sp_grant := map_option (torn_down_at_update (\<lambda>_. now)) (sp_grant p)\<rparr>))"

text \<open>A read of the account's registration: an error, or whether the entity is gone.\<close>

type_synonym teardown_verifier = "int \<Rightarrow> address \<Rightarrow> 32 word \<Rightarrow> string + bool"

fun drop_cleared :: "'d auth_env \<Rightarrow> int \<Rightarrow> int \<Rightarrow> address \<Rightarrow> address \<Rightarrow> teardown_verifier \<Rightarrow> session_policy list \<Rightarrow> 'd \<Rightarrow>
    session_policy list \<Rightarrow> 'd \<times> (grant_error + session_policy list)" where
  "drop_cleared E now chainID owner runner verify [] d kept = (d, Inr kept)"
| "drop_cleared E now chainID owner runner verify (p # ps) d kept = (case verify chainID runner (sp_entity_id p) of
       Inl e \<Rightarrow> (d, Inl (TeardownUnread (sp_entity_id p) e))
     | Inr cleared \<Rightarrow> if cleared
         then (case markEntityTornDownLocked E now d chainID owner runner (sp_entity_id p) of
             Inl e \<Rightarrow> (d, Inl (AuthErr e))
           | Inr d' \<Rightarrow> drop_cleared E now chainID owner runner verify ps d' kept)
         else drop_cleared E now chainID owner runner verify ps d (kept @ [p]))"

definition dropClearedTeardownTargets :: "'d auth_env \<Rightarrow> int \<Rightarrow> 'd \<Rightarrow> int \<Rightarrow> address \<Rightarrow> address \<Rightarrow> session_policy list \<Rightarrow>
    teardown_verifier option \<Rightarrow> 'd \<times> (grant_error + session_policy list)" where
  "dropClearedTeardownTargets E now d chainID owner runner candidates verify = (case verify of
       None \<Rightarrow> (d, Inr candidates)
     | Some v \<Rightarrow> if candidates = [] then (d, Inr candidates)
         else drop_cleared E now chainID owner runner v candidates d [])"

definition resolveTeardownTargets :: "'d auth_env \<Rightarrow> int \<Rightarrow> 'd \<Rightarrow> int \<Rightarrow> address \<Rightarrow> address \<Rightarrow> teardown_verifier option \<Rightarrow>
    'd \<times> (grant_error + session_policy list)" where
  "resolveTeardownTargets E now d chainID owner wallet check = (case onChainTeardownTargets E d chainID owner wallet of
       Inl e \<Rightarrow> (d, Inl (AuthErr e))
     | Inr targets \<Rightarrow> (case dropClearedTeardownTargets E now d chainID owner wallet targets check of
         (d', Inl e) \<Rightarrow> (d', Inl e)
       | (d', Inr kept) \<Rightarrow> (d', Inr (take maxOnChainTeardowns kept))))"

section \<open>Preparing, submitting and revoking\<close>

text \<open>
  The ABI codec, keccak and the recovery of a signer from a signature (\<open>crypto.SigToPub\<close>) are parameters.
\<close>

record aa_env =
  aa_codec :: abi_codec
  aa_keccak :: "bytes \<Rightarrow> bytes"
  SigToAddress :: "bytes \<Rightarrow> bytes \<Rightarrow> string + address"

record prepared_grant =
  pr_digest :: bytes
  pr_policy :: session_policy
  pr_deferred_data :: bytes
  pr_supersedes :: "(string \<times> 32 word) list"

definition liftA :: "auth_error + 'a \<Rightarrow> grant_error + 'a" where
  "liftA r = (case r of Inl e \<Rightarrow> Inl (AuthErr e) | Inr x \<Rightarrow> Inr x)"

record grant_request =
  rq_owner :: address
  rq_wallet :: address
  rq_entity :: "32 word option"
  rq_agent_label :: string
  rq_justification :: string
  rq_hooks :: "bytes list"
  rq_hooks_for :: "(32 word \<Rightarrow> perm_error + bytes list) option"
  rq_deadline :: uint64
  rq_selectors :: "bytes list"
  rq_valid_until :: int
  rq_signing_window :: int
  rq_self_administration :: bool
  rq_teardown_check :: "teardown_verifier option"
  rq_occupancy_check :: "occupancy option"
  rq_teardowns :: "session_policy list option"

text \<open>\<open>rq_teardowns\<close> is \<open>Some\<close> when \<open>TeardownsResolved\<close> is set. Times: \<open>now\<close> in ms, windows in seconds.\<close>

definition defaultSigningWindow :: int where "defaultSigningWindow = 30 * 24 * 3600"

definition shapeOfPolicy :: "session_policy \<Rightarrow> gas_shape" where
  "shapeOfPolicy p = \<lparr>native_rows = int (length (sp_native_recipients p)), shape_targets = int (length (sp_allowed_actions p))\<rparr>"

definition teardownShapes :: "session_policy list \<Rightarrow> gas_shape list" where
  "teardownShapes priors = take maxOnChainTeardowns (map shapeOfPolicy priors)"

definition liftC :: "call_error + 'a \<Rightarrow> grant_error + 'a" where
  "liftC r = (case r of Inl e \<Rightarrow> Inl (CallErr e) | Inr x \<Rightarrow> Inr x)"

definition liftO :: "op_error + 'a \<Rightarrow> grant_error + 'a" where
  "liftO r = (case r of Inl e \<Rightarrow> Inl (OpErr e) | Inr x \<Rightarrow> Inr x)"

fun teardown_calls :: "abi_codec \<Rightarrow> session_policy list \<Rightarrow> grant_error + bytes list" where
  "teardown_calls C [] = Inr []"
| "teardown_calls C (prior # ps) =
     bindE (liftC (SessionSignerUninstallFromInstall C (sp_entity_id prior)
       (case sp_grant prior of None \<Rightarrow> [] | Some g \<Rightarrow> install_call g))) (\<lambda>u.
     bindE (teardown_calls C ps) (\<lambda>us. Inr (u # us)))"

definition request_entity :: "'d auth_env \<Rightarrow> 'd \<Rightarrow> int \<Rightarrow> grant_request \<Rightarrow> grant_error + 32 word" where
  "request_entity E d chainID rq = liftA (case rq_entity rq of
       Some e \<Rightarrow> bindE (verifySessionEntityAvailable E d chainID (rq_owner rq) (rq_wallet rq) e (rq_occupancy_check rq)) (\<lambda>_. Inr e)
     | None \<Rightarrow> NextFreeSessionEntityID E d chainID (rq_owner rq) (rq_wallet rq) (rq_occupancy_check rq))"

definition request_hooks :: "grant_request \<Rightarrow> 32 word \<Rightarrow> grant_error + bytes list" where
  "request_hooks rq entity = (case rq_hooks_for rq of None \<Rightarrow> Inr (rq_hooks rq)
     | Some f \<Rightarrow> (case f entity of Inl e \<Rightarrow> Inl (HooksErr e) | Inr hs \<Rightarrow> Inr hs))"

definition grant_of_request :: "grant_request \<Rightarrow> 32 word \<Rightarrow> address \<Rightarrow> bytes list \<Rightarrow> session_grant" where
  "grant_of_request rq entity signer hooks = \<lparr>sg_entity = entity, sg_signer = signer, sg_selectors = rq_selectors rq,
     sg_global = (rq_selectors rq = []), sg_hooks = hooks, allow_signature_validation = False,
     allow_self_administration = rq_self_administration rq\<rparr>"

definition deferred_call :: "abi_codec \<Rightarrow> address \<Rightarrow> bytes \<Rightarrow> session_policy list \<Rightarrow> grant_error + bytes" where
  "deferred_call C wallet installCall targets =
     (if targets = [] then Inr installCall
      else bindE (teardown_calls C targets) (\<lambda>us. liftC (replace_batch C wallet installCall us)))"

definition grant_deadline_of :: "int \<Rightarrow> grant_request \<Rightarrow> uint64" where
  "grant_deadline_of now rq = (if rq_deadline rq \<noteq> 0 then rq_deadline rq
     else (let window = (if rq_signing_window rq \<le> 0 then defaultSigningWindow else rq_signing_window rq)
           in of_int (now div 1000 + window)))"

definition deferred_options :: "8 word" where
  "deferred_options = of_nat (ValidationOptionGlobal + ValidationOptionDeferredAction)"

text \<open>What \<open>PrepareSessionGrant\<close> builds once the entity, the hooks and the teardowns are known.\<close>

definition prepared_policy :: "int \<Rightarrow> int \<Rightarrow> address \<Rightarrow> string \<Rightarrow> grant_request \<Rightarrow> 32 word \<Rightarrow> bytes list \<Rightarrow>
    bytes \<Rightarrow> int \<Rightarrow> session_policy list \<Rightarrow> session_policy" where
  "prepared_policy now chainID signer policyID rq entity hooks deferredCall carrierNonce targets =
     \<lparr>awaiting_budget_activation = False, sp_id = policyID, sp_owner = Some (rq_owner rq),
       sp_runner = Some (rq_wallet rq), sp_chain_id = chainID, sp_entity_id = entity, session_signer = Some signer,
       agent_label = rq_agent_label rq, justification = rq_justification rq, sizing = [], budget_started_at = 0,
       budget_start_amounts = [], budget_start_native = None, sp_allowed_actions = [], sp_erc20_spend_cap = None,
       sp_erc20_spend_caps = [], sp_native_recipients = [], sp_native_spend_cap = None, sp_allow_contract_recipient = False,
       sp_delegated_native_recipients = [],
       sp_grant = Some \<lparr>install_call = deferredCall, carrier_nonce = Some carrierNonce, grant_deadline = grant_deadline_of now rq,
         owner_signature = [], applied_at = 0, applied_userop_hash = [], torn_down_at = 0,
         requires_execute_user_op = HasExecutionHook (grant_of_request rq entity signer hooks),
         chain_window_checked = False, priced_teardowns = teardownShapes targets\<rparr>,
       sp_valid_until = rq_valid_until rq, sp_status = SessionPolicyPending, sp_created_at = now\<rparr>"

definition build_prepared :: "aa_env \<Rightarrow> int \<Rightarrow> int \<Rightarrow> address \<Rightarrow> string \<Rightarrow> grant_request \<Rightarrow> 32 word \<Rightarrow> bytes list \<Rightarrow>
    bytes \<Rightarrow> session_policy list \<Rightarrow> grant_error + prepared_grant" where
  "build_prepared A now chainID signer policyID rq entity hooks installCall targets =
     bindE (deferred_call (aa_codec A) (rq_wallet rq) installCall targets) (\<lambda>deferredCall.
     let deadline = grant_deadline_of now rq in
     bindE (liftO (EncodeNonceMAv2 entity deferred_options 0)) (\<lambda>carrierNonce.
     bindE (liftO (DeferredActionDigest (aa_keccak A) (Some chainID) (rq_wallet rq) (Some carrierNonce) deadline deferredCall)) (\<lambda>digest.
     bindE (liftO (EncodeDeferredActionData FallbackSignerLocator deadline deferredCall)) (\<lambda>deferredData.
       Inr \<lparr>pr_digest = digest,
         pr_policy = prepared_policy now chainID signer policyID rq entity hooks deferredCall carrierNonce targets,
         pr_deferred_data = deferredData,
         pr_supersedes = map (\<lambda>p. (sp_id p, sp_entity_id p)) targets\<rparr>))))"

definition PrepareSessionGrant :: "aa_env \<Rightarrow> 'd auth_env \<Rightarrow> int \<Rightarrow> 'd \<Rightarrow> int \<Rightarrow> address \<Rightarrow> string \<Rightarrow> grant_request \<Rightarrow>
    'd \<times> (grant_error + prepared_grant)" where
  "PrepareSessionGrant A E now d chainID signer policyID rq =
     (if policyID = [] \<or> rq_owner rq = zero_address \<or> rq_wallet rq = zero_address \<or> signer = zero_address
      then (d, Inl MissingArgs)
      else case bindE (request_entity E d chainID rq) (\<lambda>entity.
          bindE (request_hooks rq entity) (\<lambda>hooks.
          bindE (liftC (PackSessionSignerInstall (aa_codec A) (grant_of_request rq entity signer hooks))) (\<lambda>installCall.
            Inr (entity, hooks, installCall)))) of
        Inl e \<Rightarrow> (d, Inl e)
      | Inr (entity, hooks, installCall) \<Rightarrow>
          (case (case rq_teardowns rq of Some ts \<Rightarrow> (d, Inr ts)
              | None \<Rightarrow> resolveTeardownTargets E now d chainID (rq_owner rq) (rq_wallet rq) (rq_teardown_check rq)) of
             (d', Inl e) \<Rightarrow> (d', Inl e)
           | (d', Inr targets) \<Rightarrow> (d', build_prepared A now chainID signer policyID rq entity hooks installCall targets)))"

definition verifyGrantSignature :: "aa_env \<Rightarrow> bytes \<Rightarrow> bytes \<Rightarrow> address \<Rightarrow> grant_error + unit" where
  "verifyGrantSignature A digest signature owner =
     (let v = (of_char (signature ! 64) :: nat);
          sig = (if v \<ge> 27 then signature[64 := char_of (v - 27)] else signature)
      in case SigToAddress A digest sig of
           Inl e \<Rightarrow> Inl (MalformedSignature e)
         | Inr got \<Rightarrow> if got \<noteq> owner then Inl (SignerMismatch got) else Inr ())"

text \<open>\<open>byEntity\<close> keeps the last id of an entity.\<close>

fun check_superseded :: "(32 word \<times> string) list \<Rightarrow> (string \<times> 32 word) list \<Rightarrow> grant_error + unit" where
  "check_superseded byEntity [] = Inr ()"
| "check_superseded byEntity ((pid, entity) # want) = (case map_of (rev byEntity) entity of
       None \<Rightarrow> Inl (TeardownMoved pid entity)
     | Some i \<Rightarrow> if \<not> equal_fold i pid then Inl (TeardownMoved pid entity) else check_superseded byEntity want)"

definition recheckSupersededGrant :: "'d auth_env \<Rightarrow> 'd \<Rightarrow> prepared_grant \<Rightarrow> int \<Rightarrow> address \<Rightarrow> address \<Rightarrow> grant_error + unit" where
  "recheckSupersededGrant E d prepared chainID owner runner =
     bindE (liftA (onChainTeardownTargets E d chainID owner runner)) (\<lambda>targets.
       let current = take maxOnChainTeardowns targets; want = pr_supersedes prepared in
       if want = [] \<and> current = [] then Inr ()
       else if length want \<noteq> length current then Inl (SetChanged (length want) (length current))
       else check_superseded (map (\<lambda>p. (sp_entity_id p, sp_id p)) current) want)"

text \<open>\<open>policy.Owner\<close>, \<open>policy.Runner\<close> and \<open>policy.Grant\<close> are dereferenced; \<open>PrepareSessionGrant\<close> sets them.\<close>

definition SubmitSessionGrant :: "aa_env \<Rightarrow> 'd auth_env \<Rightarrow> 'd \<Rightarrow> prepared_grant option \<Rightarrow> bytes \<Rightarrow>
    grant_error + 'd \<times> session_policy" where
  "SubmitSessionGrant A E d prepared ownerSignature = (case prepared of None \<Rightarrow> Inl NothingPrepared
     | Some pr \<Rightarrow>
         if length ownerSignature \<noteq> 65 then Inl (BadSignatureLength (length ownerSignature))
         else (let p = pr_policy pr in case (sp_owner p, sp_runner p, sp_grant p) of
             (Some owner, Some runner, Some g) \<Rightarrow>
               bindE (verifyGrantSignature A (pr_digest pr) ownerSignature owner) (\<lambda>_.
               bindE (liftA (sessionEntityTaken E d (sp_chain_id p) owner runner (sp_entity_id p))) (\<lambda>taken.
               if taken then Inl (AuthErr (EntityStored (sp_entity_id p)))
               else bindE (recheckSupersededGrant E d pr (sp_chain_id p) owner runner) (\<lambda>_.
                 let stored = p\<lparr>sp_grant := Some (g\<lparr>owner_signature := ownerSignature\<rparr>)\<rparr> in
                 bindE (liftA (StoreSessionPolicy E d stored)) (\<lambda>d'. Inr (d', stored)))))
           | _ \<Rightarrow> Inl NilDeref))"

text \<open>
  The end of \<open>SubmitSessionPolicy\<close>, under the write lock: the store and then the supersede. The policy
  and the ids superseded, or the error of either; the database is the one left behind.
\<close>

definition submit_and_supersede :: "aa_env \<Rightarrow> 'd auth_env \<Rightarrow> 'd \<Rightarrow> int \<Rightarrow> address \<Rightarrow> address \<Rightarrow> prepared_grant option \<Rightarrow>
    bytes \<Rightarrow> 'd \<times> (grant_error + session_policy \<times> string list)" where
  "submit_and_supersede A E d chainID owner wallet prepared ownerSignature =
     (case SubmitSessionGrant A E d prepared ownerSignature of
        Inl e \<Rightarrow> (d, Inl e)
      | Inr (d', stored) \<Rightarrow> (case supersedeUsablePolicies E d' chainID owner wallet (sp_id stored) of
          (d'', superseded, Some e) \<Rightarrow> (d'', Inl (AuthErr e))
        | (d'', superseded, None) \<Rightarrow> (d'', Inr (stored, superseded))))"

definition mark_applied :: "int \<Rightarrow> string \<Rightarrow> session_policy \<Rightarrow> session_policy" where
  "mark_applied now userOpHash p =
     p\<lparr>sp_grant := map_option (\<lambda>g. g\<lparr>applied_at := now, applied_userop_hash := userOpHash\<rparr>) (sp_grant p)\<rparr>"

definition MarkSessionGrantApplied :: "'d auth_env \<Rightarrow> int \<Rightarrow> 'd \<Rightarrow> session_policy option \<Rightarrow> string \<Rightarrow> grant_error + 'd" where
  "MarkSessionGrantApplied E now d policy userOpHash = (case policy of None \<Rightarrow> Inl NoPolicy
     | Some p \<Rightarrow>
         if sp_grant p = None then Inl NoPolicy
         else if Applied (sp_grant p) then Inr d
         else liftA (StoreSessionPolicy E d ((mark_applied now userOpHash p)\<lparr>sp_status := SessionPolicyActive\<rparr>)))"

definition read_policy :: "'d auth_env \<Rightarrow> 'd \<Rightarrow> int \<Rightarrow> address \<Rightarrow> string \<Rightarrow> serr + session_policy option" where
  "read_policy E d chainID owner policyID = (case GetKey (au_badger E) d (SessionPolicyKey chainID owner policyID) of
       Inl e \<Rightarrow> Inl e | Inr raw \<Rightarrow> Inr (policy_from_json E raw))"

definition MarkSessionGrantAppliedByID :: "'d auth_env \<Rightarrow> int \<Rightarrow> 'd \<Rightarrow> int \<Rightarrow> address \<Rightarrow> string \<Rightarrow> string \<Rightarrow> grant_error + 'd" where
  "MarkSessionGrantAppliedByID E now d chainID owner policyID userOpHash =
     (case read_policy E d chainID owner policyID of
        Inl e \<Rightarrow> if e = ErrKeyNotFound then Inr d else Inl (AuthErr (StoreErr e))
      | Inr None \<Rightarrow> Inl (AuthErr (Unreadable (SessionPolicyKey chainID owner policyID)))
      | Inr (Some p) \<Rightarrow>
          if sp_grant p = None \<or> Applied (sp_grant p) then Inr d
          else if sp_status p = SessionPolicyPending then MarkSessionGrantApplied E now d (Some p) userOpHash
          else if sp_status p = SessionPolicyRevoked then liftA (StoreSessionPolicy E d (mark_applied now userOpHash p))
          else Inr d)"

record revoke_cleanup =
  rc_entity :: "32 word"
  rc_target :: address
  rc_call_data :: bytes
  rc_chain :: int

definition BuildOnChainRevokeCleanup :: "aa_env \<Rightarrow> session_policy option \<Rightarrow> grant_error + revoke_cleanup" where
  "BuildOnChainRevokeCleanup A policy = (case policy of None \<Rightarrow> Inl NoPolicy
     | Some p \<Rightarrow> (case (sp_runner p, sp_grant p) of
         (Some runner, Some g) \<Rightarrow>
           if install_call g = [] then Inl (NoCleanup (sp_id p))
           else if \<not> NeedsOnChainCleanup (Some g) then Inl (NoCleanup (sp_id p))
           else if sp_entity_id p = 0 then Inl (NoCleanup (sp_id p))
           else (case SessionSignerUninstallFromInstall (aa_codec A) (sp_entity_id p) (install_call g) of
               Inl e \<Rightarrow> Inl (CallErr e)
             | Inr call \<Rightarrow> Inr \<lparr>rc_entity = sp_entity_id p, rc_target = runner, rc_call_data = call, rc_chain = sp_chain_id p\<rparr>)
       | _ \<Rightarrow> Inl (NoCleanup (sp_id p))))"

text \<open>The database and whether the owner must clean up on chain; the record is never deleted.\<close>

definition RevokeSessionGrant :: "'d auth_env \<Rightarrow> 'd \<Rightarrow> session_policy option \<Rightarrow> grant_error + 'd \<times> bool" where
  "RevokeSessionGrant E d policy = (case policy of None \<Rightarrow> Inl NoPolicy
     | Some p \<Rightarrow> (let revoked = p\<lparr>sp_status := SessionPolicyRevoked\<rparr>;
         required = (sp_grant p \<noteq> None \<and> Applied (sp_grant p) \<and> NeedsOnChainCleanup (sp_grant p)) in
       bindE (liftA (StoreSessionPolicy E d revoked)) (\<lambda>d'. Inr (d', required))))"

text \<open>\<open>owned\<close> is the outcome of \<open>requireOwnedWallet\<close>, \<open>hold\<close> the error of \<open>budgetHoldPresent\<close>.\<close>

definition ListSessionPoliciesForWallet :: "'d auth_env \<Rightarrow> bool \<Rightarrow> 'd \<Rightarrow> int \<Rightarrow> address \<Rightarrow> address \<Rightarrow>
    grant_error + session_policy list" where
  "ListSessionPoliciesForWallet E owned d chainID user wallet =
     (if \<not> owned then Inl WrongWallet
      else bindE (liftA (ListSessionPolicies E d chainID user)) (\<lambda>ps. Inr (rev (filter (on_runner wallet) ps))))"

definition GetSessionPolicyByID :: "'d auth_env \<Rightarrow> bool \<Rightarrow> 'd \<Rightarrow> int \<Rightarrow> address \<Rightarrow> address \<Rightarrow> string \<Rightarrow>
    grant_error + session_policy" where
  "GetSessionPolicyByID E owned d chainID user wallet policyID =
     bindE (ListSessionPoliciesForWallet E owned d chainID user wallet) (\<lambda>ps.
       case find (\<lambda>p. equal_fold (sp_id p) policyID) ps of None \<Rightarrow> Inl PolicyNotFound | Some p \<Rightarrow> Inr p)"

definition RevokeSessionPolicyByID :: "aa_env \<Rightarrow> 'd auth_env \<Rightarrow> bool \<Rightarrow> string option \<Rightarrow> 'd \<Rightarrow> int \<Rightarrow> address \<Rightarrow> address \<Rightarrow>
    string \<Rightarrow> 'd \<times> (grant_error + revoke_cleanup option)" where
  "RevokeSessionPolicyByID A E owned hold d chainID user wallet policyID =
     (if \<not> owned then (d, Inl WrongWallet)
      else case hold of Some e \<Rightarrow> (d, Inl (HoldPresent e))
      | None \<Rightarrow> (case GetSessionPolicyByID E owned d chainID user wallet policyID of
          Inl e \<Rightarrow> (d, Inl e)
        | Inr p \<Rightarrow> (case RevokeSessionGrant E d (Some p) of
            Inl e \<Rightarrow> (d, Inl e)
          | Inr (d', required) \<Rightarrow>
              if required
              then (case BuildOnChainRevokeCleanup A (Some (p\<lparr>sp_status := SessionPolicyRevoked\<rparr>)) of
                  Inl e \<Rightarrow> (d', Inl (CleanupUnavailable e))
                | Inr c \<Rightarrow> (d', Inr (Some c)))
              else (d', Inr None))))"

section \<open>The declared permissions on the record\<close>

definition granted_native :: "native_cap \<Rightarrow> native_cap" where
  "granted_native c = c\<lparr>nat_granted := nat_amount c\<rparr>"

definition granted_cap :: "erc20_cap \<Rightarrow> erc20_cap" where
  "granted_cap c = c\<lparr>cap_granted := cap_amount c\<rparr>"

definition attachDeclaredPermissions :: "session_policy \<Rightarrow> session_permissions \<Rightarrow> session_policy" where
  "attachDeclaredPermissions policy perms =
     (let p = policy\<lparr>sp_allowed_actions := pm_allowed_actions perms, sp_native_recipients := pm_native_recipients perms,
            sp_delegated_native_recipients := pm_delegated_native_recipients perms,
            sp_allow_contract_recipient := pm_allow_contract_recipient perms,
            sp_native_spend_cap := (case pm_native_spend_cap perms of None \<Rightarrow> sp_native_spend_cap policy
               | Some c \<Rightarrow> Some (granted_native c)),
            sp_erc20_spend_cap := (case pm_spend_cap perms of None \<Rightarrow> sp_erc20_spend_cap policy
               | Some c \<Rightarrow> Some (granted_cap c))\<rparr>
      in if pm_spend_caps perms = [] then p
         else (let stored = map granted_cap (pm_spend_caps perms);
                   q = p\<lparr>sp_erc20_spend_caps := stored\<rparr>
               in if sp_erc20_spend_cap q \<noteq> None then q else q\<lparr>sp_erc20_spend_cap := Some (hd stored)\<rparr>))"

section \<open>The installed window\<close>

definition MarkChainWindowChecked :: "'d auth_env \<Rightarrow> 'd \<Rightarrow> int \<Rightarrow> address \<Rightarrow> string \<Rightarrow> grant_error + 'd" where
  "MarkChainWindowChecked E d chainID owner policyID = (case read_policy E d chainID owner policyID of
       Inl e \<Rightarrow> Inl (AuthErr (StoreErr e))
     | Inr None \<Rightarrow> Inl (AuthErr (Unreadable (SessionPolicyKey chainID owner policyID)))
     | Inr (Some p) \<Rightarrow> (case sp_grant p of None \<Rightarrow> Inr d
         | Some g \<Rightarrow> if chain_window_checked g then Inr d
             else liftA (StoreSessionPolicy E d (p\<lparr>sp_grant := Some (g\<lparr>chain_window_checked := True\<rparr>)\<rparr>))))"

text \<open>A read of the time range of an entity: an error, or its end and start in seconds.\<close>

type_synonym window_verifier = "int \<Rightarrow> address \<Rightarrow> 32 word \<Rightarrow> string + (uint64 \<times> uint64)"

datatype resolve_error = StoreError auth_error | ExpiredErr string | WindowUnread string | WindowMissing string
  | WindowMismatch string | NoSignerKey | SignerRetired address | EncodeErr op_error | TeardownErr call_error | NilSigner

text \<open>
  The outcome and the database. \<open>uint64(ValidUntil / 1000)\<close>: the division truncates and \<open>ValidUntil\<close> is
  positive here. A failed mark does not fail the check.
\<close>

definition checkAppliedChainWindow :: "'d auth_env \<Rightarrow> 'd \<Rightarrow> session_policy option \<Rightarrow> window_verifier option \<Rightarrow>
    'd \<times> (resolve_error + unit)" where
  "checkAppliedChainWindow E d policy verifyWindow = (case policy of None \<Rightarrow> (d, Inr ())
     | Some p \<Rightarrow> (case sp_grant p of None \<Rightarrow> (d, Inr ())
       | Some g \<Rightarrow>
           if \<not> Applied (Some g) then (d, Inr ())
           else (case verifyWindow of None \<Rightarrow> (d, Inr ())
             | Some verify \<Rightarrow>
                 if chain_window_checked g \<or> sp_valid_until p \<le> 0 then (d, Inr ())
                 else (case (sp_owner p, sp_runner p) of
                     (Some owner, Some runner) \<Rightarrow>
                       (case verify (sp_chain_id p) runner (sp_entity_id p) of
                          Inl e \<Rightarrow> (d, Inl (WindowUnread e))
                        | Inr (untilSec, afterSec) \<Rightarrow>
                            if untilSec = 0 then (d, Inl (WindowMissing (sp_id p)))
                            else if untilSec \<noteq> of_int (sp_valid_until p div 1000) then (d, Inl (WindowMismatch (sp_id p)))
                            else (case MarkChainWindowChecked E d (sp_chain_id p) owner (sp_id p) of
                                Inl _ \<Rightarrow> (d, Inr ()) | Inr d' \<Rightarrow> (d', Inr ())))
                   | _ \<Rightarrow> (d, Inr ())))))"

record drifted_grant =
  dg_policy :: session_policy
  stored_until_sec :: uint64
  chain_until_sec :: uint64
  chain_after_sec :: uint64
  dg_read_err :: "string option"
  window_missing :: bool

definition drift_of :: "int \<Rightarrow> window_verifier \<Rightarrow> session_policy \<Rightarrow> drifted_grant list" where
  "drift_of chainID verify p =
     (if \<not> Usable (Some p) \<or> sp_grant p = None \<or> \<not> Applied (sp_grant p) \<or> sp_valid_until p \<le> 0 then []
      else (case sp_runner p of None \<Rightarrow> []
        | Some runner \<Rightarrow> (let stored = of_int (sp_valid_until p div 1000) in
            case verify chainID runner (sp_entity_id p) of
              Inl e \<Rightarrow> [\<lparr>dg_policy = p, stored_until_sec = stored, chain_until_sec = 0, chain_after_sec = 0,
                dg_read_err = Some e, window_missing = False\<rparr>]
            | Inr (untilSec, afterSec) \<Rightarrow> if untilSec \<noteq> stored
                then [\<lparr>dg_policy = p, stored_until_sec = stored, chain_until_sec = untilSec, chain_after_sec = afterSec,
                  dg_read_err = None, window_missing = (untilSec = 0)\<rparr>] else [])))"

definition FindDriftedSessionGrants :: "'d auth_env \<Rightarrow> 'd \<Rightarrow> int \<Rightarrow> window_verifier option \<Rightarrow> auth_error + drifted_grant list" where
  "FindDriftedSessionGrants E d chainID verify = (case verify of None \<Rightarrow> Inr []
     | Some v \<Rightarrow> (case GetByPrefix (au_badger E) d (SessionPolicyChainPrefix chainID) of
         Inl e \<Rightarrow> Inl (ListErr e)
       | Inr items \<Rightarrow> bindE (decode_rows E items) (\<lambda>ps. Inr (concat (map (drift_of chainID v) ps)))))"

section \<open>Teardown after an apply\<close>

definition policyIDForEntity :: "'d auth_env \<Rightarrow> 'd \<Rightarrow> int \<Rightarrow> address \<Rightarrow> address \<Rightarrow> 32 word \<Rightarrow> string" where
  "policyIDForEntity E d chainID owner runner entity = (case ListSessionPolicies E d chainID owner of
       Inl _ \<Rightarrow> []
     | Inr ps \<Rightarrow> (case find (\<lambda>p. on_runner runner p \<and> sp_entity_id p = entity) ps of None \<Rightarrow> [] | Some p \<Rightarrow> sp_id p))"

definition VerifySupersededTeardown :: "'d auth_env \<Rightarrow> int \<Rightarrow> 'd \<Rightarrow> teardown_verifier option \<Rightarrow> string \<Rightarrow> int \<Rightarrow> address \<Rightarrow>
    address \<Rightarrow> 32 word \<Rightarrow> 'd \<times> (grant_error + unit)" where
  "VerifySupersededTeardown E now d verify supersededID chainID owner runner entity = (case verify of None \<Rightarrow> (d, Inr ())
     | Some v \<Rightarrow> (case v chainID runner entity of
         Inl e \<Rightarrow> (d, Inl (TeardownUnread entity e))
       | Inr cleared \<Rightarrow>
           if \<not> cleared
           then (let stranded = policyIDForEntity E d chainID owner runner entity
                 in (d, Inl (TeardownMoved (if stranded = [] then supersededID else stranded) entity)))
           else (case markEntityTornDownLocked E now d chainID owner runner entity of
               Inl _ \<Rightarrow> (d, Inr ()) | Inr d' \<Rightarrow> (d', Inr ()))))"

section \<open>The resolver of the send path\<close>

record session_authorization =
  sa_entity :: "32 word"
  sa_policy_id :: string
  wrap_execute_user_op :: bool
  sa_deferred :: "(bytes \<times> bytes \<times> int option \<times> 32 word list) option"

text \<open>
  \<open>sa_deferred\<close> is the install that rides the first operation: the encoded action, the owner's signature,
  the carrier nonce and the entities it removes. \<open>configured\<close> is the address of the configured session key.
\<close>

definition configuredSessionSigner :: "address option \<Rightarrow> address \<Rightarrow> resolve_error + unit" where
  "configuredSessionSigner configured signer = (case configured of None \<Rightarrow> Inl NoSignerKey
     | Some c \<Rightarrow> if signer \<noteq> c then Inl (SignerRetired signer) else Inr ())"

definition resolve_deferred :: "abi_codec \<Rightarrow> session_policy \<Rightarrow> grant_auth \<Rightarrow>
    resolve_error + (bytes \<times> bytes \<times> int option \<times> 32 word list) option" where
  "resolve_deferred C p g = (if Applied (Some g) then Inr None
     else (case EncodeDeferredActionData FallbackSignerLocator (grant_deadline g) (install_call g) of
         Inl e \<Rightarrow> Inl (EncodeErr e)
       | Inr dat \<Rightarrow> (case UninstalledEntitiesWithin C (install_call g) of
           Inl e \<Rightarrow> Inl (TeardownErr e)
         | Inr es \<Rightarrow> Inr (Some (dat, owner_signature g, carrier_nonce g, es)))))"

definition newSessionResolver :: "abi_codec \<Rightarrow> 'd auth_env \<Rightarrow> int \<Rightarrow> address option \<Rightarrow> window_verifier option \<Rightarrow> 'd \<Rightarrow> int \<Rightarrow>
    address \<Rightarrow> address \<Rightarrow> 'd \<times> (resolve_error + session_authorization option)" where
  "newSessionResolver C E now configured verifyWindow d chainID owner wallet =
     (case activeSessionPolicyLocked E d chainID owner wallet of
        Inl e \<Rightarrow> (d, Inl (StoreError e))
      | Inr None \<Rightarrow> (d, Inr None)
      | Inr (Some p) \<Rightarrow>
          if Expired (Some p) now then (d, Inl (ExpiredErr (sp_id p)))
          else (case checkAppliedChainWindow E d (Some p) verifyWindow of
              (d', Inl e) \<Rightarrow> (d', Inl e)
            | (d', Inr _) \<Rightarrow> (d', case (session_signer p, sp_grant p) of
                (Some signer, Some g) \<Rightarrow>
                  bindE (configuredSessionSigner configured signer) (\<lambda>_.
                  bindE (resolve_deferred C p g) (\<lambda>dfr.
                    Inr (Some \<lparr>sa_entity = sp_entity_id p, sa_policy_id = sp_id p,
                      wrap_execute_user_op = requires_execute_user_op g, sa_deferred = dfr\<rparr>)))
              | _ \<Rightarrow> Inl NilSigner)))"

text \<open>\<open>OnApplied\<close>: the record is marked applied, then every entity the batch removed is checked and marked.\<close>

fun verify_all :: "'d auth_env \<Rightarrow> int \<Rightarrow> teardown_verifier option \<Rightarrow> string \<Rightarrow> int \<Rightarrow> address \<Rightarrow> address \<Rightarrow> 32 word list \<Rightarrow> 'd \<Rightarrow> 'd" where
  "verify_all E now verify policyID chainID owner runner [] d = d"
| "verify_all E now verify policyID chainID owner runner (e # es) d =
     verify_all E now verify policyID chainID owner runner es
       (fst (VerifySupersededTeardown E now d verify policyID chainID owner runner e))"

definition OnApplied :: "'d auth_env \<Rightarrow> int \<Rightarrow> teardown_verifier option \<Rightarrow> int \<Rightarrow> address \<Rightarrow> address \<Rightarrow> string \<Rightarrow> 32 word list \<Rightarrow>
    string \<Rightarrow> 'd \<Rightarrow> 'd \<times> (grant_error + unit)" where
  "OnApplied E now verify chainID owner runner policyID replaced userOpHash d =
     (case MarkSessionGrantAppliedByID E now d chainID owner policyID userOpHash of
        Inl e \<Rightarrow> (d, Inl e)
      | Inr d' \<Rightarrow> (verify_all E now verify policyID chainID owner runner replaced d', Inr ()))"

section \<open>Refreshing a revoked policy\<close>

text \<open>\<open>lock_free\<close> is the outcome of \<open>TryLock\<close>. The policy as stored after the mark, or the snapshot.\<close>

definition refreshSessionPolicyCleanup :: "'d auth_env \<Rightarrow> int \<Rightarrow> bool \<Rightarrow> 'd \<Rightarrow> session_policy \<Rightarrow> teardown_verifier \<Rightarrow>
    'd \<times> (grant_error + session_policy)" where
  "refreshSessionPolicyCleanup E now lock_free d p verify = (case PolicyValidate (from_hex E) p of
       Inl e \<Rightarrow> (d, Inl (AuthErr (PolicyInvalid e)))
     | Inr _ \<Rightarrow> (case (sp_owner p, sp_runner p) of
         (Some owner, Some runner) \<Rightarrow> (case verify (sp_chain_id p) runner (sp_entity_id p) of
             Inl e \<Rightarrow> (d, Inl (TeardownUnread (sp_entity_id p) e))
           | Inr cleared \<Rightarrow>
               if \<not> cleared then (d, Inr p)
               else if \<not> lock_free then (d, Inl (HoldPresent ''busy''))
               else (case markEntityTornDownLocked E now d (sp_chain_id p) owner runner (sp_entity_id p) of
                   Inl e \<Rightarrow> (d, Inl (AuthErr e))
                 | Inr d' \<Rightarrow> (d', GetSessionPolicyByID E True d' (sp_chain_id p) owner runner (sp_id p))))
       | _ \<Rightarrow> (d, Inl NilDeref)))"

definition RefreshSessionPolicyCleanup :: "'d auth_env \<Rightarrow> int \<Rightarrow> bool \<Rightarrow> bool \<Rightarrow> bool \<Rightarrow> 'd \<Rightarrow> session_policy \<Rightarrow>
    teardown_verifier option \<Rightarrow> 'd \<times> (grant_error + session_policy)" where
  "RefreshSessionPolicyCleanup E now chainReads configured lock_free d p client =
     (if sp_status p \<noteq> SessionPolicyRevoked \<or> \<not> NeedsOnChainCleanup (sp_grant p) \<or> \<not> chainReads then (d, Inr p)
      else if \<not> configured then (d, Inl (HoldPresent ''configuration''))
      else (case client of None \<Rightarrow> (d, Inl (HoldPresent ''configuration''))
        | Some verify \<Rightarrow> refreshSessionPolicyCleanup E now lock_free d p verify))"

section \<open>Submitting\<close>

text \<open>
  The refusals of \<open>SubmitSessionPolicy\<close> that are decided elsewhere: the checks of the request before the lock
  (permissions, served chain, wallet), whether the id parses as a ULID, the address of the configured session
  key, the hold of a budget change, the check against stateless replacement of a budget, and the coverage of
  the enabled workflows, which reads the grant in use. Each only refuses.
\<close>

record submit_checks =
  sk_request :: "grant_error option"
  sk_ulid :: bool
  sk_signer :: "grant_error + address"
  sk_hold :: "string option"
  sk_stateless :: "grant_error option"
  sk_coverage :: "session_policy option \<Rightarrow> grant_error option"

definition policyIDMatches :: "string \<Rightarrow> session_policy option \<Rightarrow> bool" where
  "policyIDMatches want current =
     equal_fold (trim_space want) (case current of None \<Rightarrow> [] | Some p \<Rightarrow> sp_id p)"

definition ambiguousLegacyRepair :: "string option \<Rightarrow> auth_error \<Rightarrow> bool" where
  "ambiguousLegacyRepair base e \<longleftrightarrow> base = None \<and> (case e of Ambiguous _ _ _ \<Rightarrow> True | _ \<Rightarrow> False)"

definition submit_gate :: "submit_checks \<Rightarrow> int \<Rightarrow> string \<Rightarrow> uint64 \<Rightarrow> grant_error + address" where
  "submit_gate K now policyID deadline = (case sk_request K of Some e \<Rightarrow> Inl e
     | None \<Rightarrow>
         if \<not> sk_ulid K then Inl (NotUlid policyID)
         else if deadline \<le> of_int (now div 1000) then Inl (DeadlinePassed deadline)
         else bindE (sk_signer K) (\<lambda>signer. case sk_hold K of Some e \<Rightarrow> Inl (HoldPresent e)
           | None \<Rightarrow> (case sk_stateless K of Some e \<Rightarrow> Inl e | None \<Rightarrow> Inr signer)))"

definition submit_current :: "'d auth_env \<Rightarrow> 'd \<Rightarrow> int \<Rightarrow> address \<Rightarrow> address \<Rightarrow> string option \<Rightarrow>
    grant_error + session_policy option" where
  "submit_current E d chainID owner wallet base =
     bindE (case activeSessionPolicyLocked E d chainID owner wallet of
         Inl e \<Rightarrow> if ambiguousLegacyRepair base e then Inr None else Inl (AuthErr e)
       | Inr current \<Rightarrow> Inr current) (\<lambda>current.
       case base of None \<Rightarrow> Inr current
       | Some b \<Rightarrow> if policyIDMatches b current then Inr current
           else Inl (BaseChanged (case current of None \<Rightarrow> [] | Some p \<Rightarrow> sp_id p)))"

text \<open>
  The request a submit prepares from: \<open>rq\<close> holds what the client sent and the chain reads; the hooks come
  from the permissions, there are no selectors and no self-administration.
\<close>

definition submit_request :: "32 word \<Rightarrow> session_policy list \<Rightarrow> grant_request \<Rightarrow> grant_request" where
  "submit_request entityID targets rq = rq\<lparr>rq_entity := Some entityID, rq_hooks := [], rq_selectors := [],
     rq_signing_window := 0, rq_self_administration := False, rq_teardowns := Some targets\<rparr>"

text \<open>
  Under the write lock the teardowns are resolved, the grant is prepared again from the client's echo, the
  declared permissions are attached, the grant is stored and the others are superseded.
\<close>

definition SubmitSessionPolicy :: "submit_checks \<Rightarrow> aa_env \<Rightarrow> 'd auth_env \<Rightarrow> int \<Rightarrow> 'd \<Rightarrow> int \<Rightarrow> string \<Rightarrow> 32 word \<Rightarrow> string option \<Rightarrow>
    grant_request \<Rightarrow> session_permissions \<Rightarrow> bytes \<Rightarrow> 'd \<times> (grant_error + session_policy \<times> string list)" where
  "SubmitSessionPolicy K A E now d chainID policyID entityID base rq perms ownerSignature =
     (case submit_gate K now policyID (rq_deadline rq) of
        Inl e \<Rightarrow> (d, Inl e)
      | Inr signer \<Rightarrow> (case resolveTeardownTargets E now d chainID (rq_owner rq) (rq_wallet rq) (rq_teardown_check rq) of
          (d1, Inl e) \<Rightarrow> (d1, Inl e)
        | (d1, Inr targets) \<Rightarrow> (case submit_current E d1 chainID (rq_owner rq) (rq_wallet rq) base of
            Inl e \<Rightarrow> (d1, Inl e)
          | Inr current \<Rightarrow> (case sk_coverage K current of
              Some e \<Rightarrow> (d1, Inl e)
            | None \<Rightarrow> (case PrepareSessionGrant A E now d1 chainID signer (to_lower policyID) (submit_request entityID targets rq) of
                (d2, Inl e) \<Rightarrow> (d2, Inl e)
              | (d2, Inr pr) \<Rightarrow> submit_and_supersede A E d2 chainID (rq_owner rq) (rq_wallet rq)
                  (Some (pr\<lparr>pr_policy := attachDeclaredPermissions (pr_policy pr) perms\<rparr>)) ownerSignature)))))"

end
