(* ===== verification/BudgetReview.thy ===== *)
theory BudgetReview
  imports Authority
begin

text \<open>
  The stored review of a budget change, \<open>BudgetPolicyPreparation\<close> of \<open>core/taskengine/budget_preparation.go\<close>: the
  calls it stands for (\<open>budget_preparation_calls.go\<close>), the check of the priced owner operation, the integrity check
  every load of a review makes (\<open>validateStoredBudgetChange\<close> of \<open>budget_change.go\<close>), the fee ceiling, and the framing of
  the owner's signature (\<open>pkg/erc4337/preset/owner_v07.go\<close>). Of the review's reporting fields the record keeps
  whether they are present, which is what these functions ask.
\<close>

section \<open>Records\<close>

definition zero_hash :: bytes where "zero_hash = replicate 32 (char_of (0 :: nat))"

record budget_block =
  bb_number :: uint64
  bb_hash :: bytes

definition no_block :: budget_block where "no_block = \<lparr>bb_number = 0, bb_hash = zero_hash\<rparr>"

record approval_reset =
  ar_token :: address
  ar_spender :: address
  ar_amount :: string

record budget_change =
  bc_reason :: string
  is_cancel :: bool
  submitted_at :: int
  final_block :: budget_block
  inclusion_block :: budget_block
  transaction_hash :: bytes
  reset_repair_required :: bool
  bc_id :: string
  bc_owner :: address
  bc_wallet :: address
  bc_chain :: int
  bc_created_at :: int
  expires_at :: int
  bc_state :: string
  bc_operation :: "user_op option"
  user_op_hash :: bytes
  max_fee_wei :: string
  bc_base :: "session_policy option"
  bc_policy :: "session_policy option"
  approval_resets :: "approval_reset list"
  bc_retirements :: "session_policy option list"
  has_draft :: bool
  starts_new_totals :: bool
  has_budget :: bool
  has_discovery :: bool

definition ownerSubmissionPrepared :: string where "ownerSubmissionPrepared = ''prepared''"
definition ownerSubmissionSubmitting :: string where "ownerSubmissionSubmitting = ''submitting''"
definition ownerSubmissionSubmitted :: string where "ownerSubmissionSubmitted = ''submitted''"
definition ownerSubmissionRejected :: string where "ownerSubmissionRejected = ''rejected''"
definition ownerSubmissionUnsent :: string where "ownerSubmissionUnsent = ''unsent''"
definition budgetChangeActive :: string where "budgetChangeActive = ''active''"
definition budgetChangeReverted :: string where "budgetChangeReverted = ''reverted''"
definition budgetChangeSuperseded :: string where "budgetChangeSuperseded = ''superseded''"

lemmas change_states = ownerSubmissionPrepared_def ownerSubmissionSubmitting_def ownerSubmissionSubmitted_def
  ownerSubmissionRejected_def ownerSubmissionUnsent_def budgetChangeActive_def budgetChangeReverted_def
  budgetChangeSuperseded_def

definition budgetSettled :: "string \<Rightarrow> bool" where
  "budgetSettled s \<longleftrightarrow> s = budgetChangeActive \<or> s = budgetChangeReverted \<or> s = budgetChangeSuperseded \<or> s = ownerSubmissionUnsent"

datatype change_error = ReadUnavailable string | BudgetChanging string | ChangeNotFound | HandoffRequired string
  | FeeCeilingExceeded int int | ChangeInput string | ChangeCall call_error | ChangeOp op_error | ChangeText text_error
  | ChangeAuth auth_error | ChangeStorage serr | MarshalFailed | BaseMoved string | OwnerRefused string | NilField

section \<open>The calls of a review\<close>

definition ownerBatchMaxCalls :: nat where "ownerBatchMaxCalls = 32"

definition liftCall :: "call_error + 'a \<Rightarrow> change_error + 'a" where
  "liftCall r = (case r of Inl e \<Rightarrow> Inl (ChangeCall e) | Inr x \<Rightarrow> Inr x)"

definition selector_approve_bytes :: bytes where
  "selector_approve_bytes = map char_of [0x09, 0x5e, 0xa7, 0xb3 :: nat]"

definition reset_call :: "approval_reset \<Rightarrow> change_error + address \<times> int option \<times> bytes" where
  "reset_call r = (case parseBudgetAmount (ar_amount r) of
       Inl _ \<Rightarrow> Inl (ChangeInput ''invalid approval reset in budget review'')
     | Inr amount \<Rightarrow>
         if amount \<le> 0 \<or> ar_token r = zero_address \<or> ar_spender r = zero_address
         then Inl (ChangeInput ''invalid approval reset in budget review'')
         else Inr (ar_token r, Some 0, selector_approve_bytes @ abi_address (ar_spender r) @ be_bytes 32 0))"

definition retirement_call :: "abi_codec \<Rightarrow> address \<Rightarrow> session_policy option \<Rightarrow> change_error + address \<times> int option \<times> bytes" where
  "retirement_call A wallet old = (case old of
       None \<Rightarrow> Inl (ChangeInput ''invalid retirement in budget review'')
     | Some p \<Rightarrow> (case (sp_runner p, sp_grant p) of
           (Some r, Some g) \<Rightarrow>
             if r \<noteq> wallet then Inl (ChangeInput ''invalid retirement in budget review'')
             else bindE (liftCall (SessionSignerUninstallFromInstall A (sp_entity_id p) (install_call g)))
               (\<lambda>dat. Inr (wallet, Some 0, dat))
         | _ \<Rightarrow> Inl (ChangeInput ''invalid retirement in budget review'')))"

fun mapE :: "('a \<Rightarrow> 'e + 'b) \<Rightarrow> 'a list \<Rightarrow> 'e + 'b list" where
  "mapE f [] = Inr []"
| "mapE f (x # xs) = bindE (f x) (\<lambda>y. bindE (mapE f xs) (\<lambda>ys. Inr (y # ys)))"

definition budgetPreparationCalls :: "abi_codec \<Rightarrow> address \<Rightarrow> approval_reset list \<Rightarrow> session_policy option list \<Rightarrow> bytes \<Rightarrow>
    change_error + (address \<times> int option \<times> bytes) list" where
  "budgetPreparationCalls A wallet resets rets install =
     (if install = [] \<or> length resets + length rets + 1 > ownerBatchMaxCalls
      then Inl (ChangeInput ''the complete atomic budget batch must include an install'')
      else bindE (mapE reset_call resets) (\<lambda>rs.
        bindE (mapE (retirement_call A wallet) rets) (\<lambda>us. Inr (rs @ us @ [(wallet, Some 0, install)]))))"

definition budgetCancelCalls :: "address \<Rightarrow> (address \<times> int option \<times> bytes) list" where
  "budgetCancelCalls wallet = [(wallet, Some 0, [])]"

section \<open>The owner operation\<close>

text \<open>The gas fields are not nil here: \<open>validateBudgetOwnerOperation\<close> has checked them, and refuses a paymaster.\<close>

definition MaxOwnerGasCost :: "user_op \<Rightarrow> int" where
  "MaxOwnerGasCost op = (the (call_gas_limit op) + the (verification_gas_limit op) + the (pre_verification_gas op) +
     (if uo_paymaster op \<noteq> None then the (paymaster_verification_gas op) + the (paymaster_post_op_gas op) else 0)) *
     the (max_fee_per_gas op)"

definition gas_field_ok :: "int option \<Rightarrow> bool" where
  "gas_field_ok v = (case v of None \<Rightarrow> False | Some n \<Rightarrow> 0 \<le> n \<and> n < 2 ^ 128)"

definition validateBudgetOwnerOperation :: "aa_env \<Rightarrow> user_op option \<Rightarrow> address \<Rightarrow> int \<Rightarrow> (address \<times> int option \<times> bytes) list \<Rightarrow>
    change_error + user_op \<times> bytes" where
  "validateBudgetOwnerOperation A priced wallet chainID calls = (case priced of
       None \<Rightarrow> Inl (ChangeInput ''budget pricing returned no operation'')
     | Some op \<Rightarrow>
         bindE (liftCall (PackExecuteBatchMAv2 (aa_codec A) calls)) (\<lambda>packed.
         if uo_sender op \<noteq> wallet \<or> uo_signature op \<noteq> [] \<or> uo_call_data op \<noteq> packed \<or> uo_paymaster op \<noteq> None \<or> paymaster_data op \<noteq> []
         then Inl (ChangeInput ''budget pricing changed the account, batch, signature or funding policy'')
         else if uo_nonce op = None then Inl (ChangeInput ''missing owner nonce'')
         else (case DecodeNonceMAv2 (uo_nonce op) of
             Inl _ \<Rightarrow> Inl (ChangeInput ''invalid owner nonce'')
           | Inr (entity, options, _) \<Rightarrow>
               if entity \<noteq> 0 \<or> options \<noteq> of_nat ValidationOptionGlobal then Inl (ChangeInput ''invalid owner nonce'')
               else if \<not> list_all gas_field_ok [call_gas_limit op, verification_gas_limit op, pre_verification_gas op,
                   max_fee_per_gas op, max_priority_fee_per_gas op]
               then Inl (ChangeInput ''invalid owner gas quote'')
               else if MaxOwnerGasCost op = 0 \<or> the (max_priority_fee_per_gas op) > the (max_fee_per_gas op)
               then Inl (ChangeInput ''invalid owner fee quote'')
               else (case GetUserOpHash (aa_keccak A) op EntryPointV07Address (Some chainID) of
                   Inl e \<Rightarrow> Inl (ChangeOp e) | Inr hash \<Rightarrow> Inr (op, hash)))))"

section \<open>The integrity check of a stored review\<close>

definition known_state :: "string \<Rightarrow> bool" where
  "known_state s \<longleftrightarrow> s \<in> {ownerSubmissionPrepared, ownerSubmissionSubmitting, ownerSubmissionSubmitted, ownerSubmissionRejected,
     budgetChangeActive, budgetChangeReverted, budgetChangeSuperseded, ownerSubmissionUnsent}"

definition budget_identity_ok :: "budget_change \<Rightarrow> bool" where
  "budget_identity_ok p \<longleftrightarrow> bc_operation p \<noteq> None \<and> has_draft p \<and> has_budget p \<and> (case bc_policy p of None \<Rightarrow> False
     | Some q \<Rightarrow> sp_grant q \<noteq> None \<and> sp_owner q = Some (bc_owner p) \<and> session_signer q \<noteq> None \<and>
         sp_runner q = Some (bc_wallet p) \<and> sp_chain_id q = bc_chain p)"

definition change_calls :: "aa_env \<Rightarrow> budget_change \<Rightarrow> change_error + (address \<times> int option \<times> bytes) list" where
  "change_calls A p = (if is_cancel p then Inr (budgetCancelCalls (bc_wallet p))
     else case bc_policy p of None \<Rightarrow> Inl NilField | Some q \<Rightarrow> (case sp_grant q of None \<Rightarrow> Inl NilField
       | Some g \<Rightarrow> budgetPreparationCalls (aa_codec A) (bc_wallet p) (approval_resets p) (bc_retirements p) (install_call g)))"

definition validateStoredBudgetChange :: "aa_env \<Rightarrow> budget_change \<Rightarrow> change_error + unit" where
  "validateStoredBudgetChange A p =
     (if \<not> known_state (bc_state p) then Inl (ReadUnavailable ''unknown budget change state'')
      else if \<not> budget_identity_ok p then Inl (ReadUnavailable ''invalid budget identity'')
      else let nonce = uo_nonce (the (bc_operation p)); carrier = carrier_nonce (the (sp_grant (the (bc_policy p)))) in
        if nonce = None \<or> carrier = None \<or> nonce \<noteq> carrier then Inl (ReadUnavailable ''invalid budget nonce'')
        else bindE (change_calls A p) (\<lambda>calls.
          case validateBudgetOwnerOperation A (bc_operation p) (bc_wallet p) (bc_chain p) calls of
            Inl _ \<Rightarrow> Inl (ReadUnavailable ''budget review integrity check failed'')
          | Inr (op, hash) \<Rightarrow>
              if hash \<noteq> user_op_hash p \<or> sdecimal (MaxOwnerGasCost op) \<noteq> max_fee_wei p
              then Inl (ReadUnavailable ''budget review integrity check failed'')
              else if \<not> is_cancel p \<and> \<not> has_discovery p then Inl (ReadUnavailable ''missing approval discovery'')
              else Inr ()))"

section \<open>Fee and signature\<close>

definition budgetDefaultMaxFeeWei :: string where "budgetDefaultMaxFeeWei = ''5000000000000000''"

definition checkBudgetFee :: "string \<Rightarrow> budget_change \<Rightarrow> change_error + unit" where
  "checkBudgetFee configured p =
     (case parseBudgetAmount (if configured \<noteq> [] then configured else budgetDefaultMaxFeeWei) of
        Inl _ \<Rightarrow> Inl (ChangeInput ''invalid budget fee ceiling'')
      | Inr ceil \<Rightarrow> if ceil \<le> 0 then Inl (ChangeInput ''invalid budget fee ceiling'')
          else (case parseBudgetAmount (max_fee_wei p) of
              Inl e \<Rightarrow> Inl (ChangeText e)
            | Inr fee \<Rightarrow> if fee > ceil then Inl (FeeCeilingExceeded fee ceil) else Inr ()))"

text \<open>
  \<open>crypto.ValidateSignatureValues\<close>, \<open>accounts.TextHash\<close> and \<open>crypto.SigToPub\<close> are parameters: whether r, s and v are
  canonical, and the address that signed the text of a hash.
\<close>

record sig_env =
  canonical_sig :: "bytes \<Rightarrow> bool"
  text_signer :: "bytes \<Rightarrow> bytes \<Rightarrow> address option"

definition FrameOwnerSignature :: "sig_env \<Rightarrow> bytes \<Rightarrow> bytes \<Rightarrow> address \<Rightarrow> change_error + bytes" where
  "FrameOwnerSignature S hash signature owner =
     (if length signature \<noteq> 65 then Inl (OwnerRefused ''owner signature must be 65 bytes'')
      else let v = (of_char (signature ! 64) :: nat) in
        if v \<notin> {0, 1, 27, 28} then Inl (OwnerRefused ''owner signature recovery byte must be 0, 1, 27 or 28'')
        else let sig = signature[64 := char_of (if v \<ge> 27 then v - 27 else v)] in
          if \<not> canonical_sig S sig then Inl (OwnerRefused ''owner signature must use canonical ECDSA values'')
          else if text_signer S hash sig \<noteq> Some owner
          then Inl (OwnerRefused ''signature does not match the prepared operation's owner'')
          else (case WrapSignatureMAv2 (sig[64 := char_of ((if v \<ge> 27 then v - 27 else v) + 27)]) of
              Inl e \<Rightarrow> Inl (ChangeOp e) | Inr framed \<Rightarrow> Inr framed))"

end
