(* ===== verification/AuthorityInv.thy ===== *)
theory AuthorityInv
  imports Authority
begin

text \<open>
  What the store of session grants keeps. The abstract state is the map from (chain, owner, policy id) to
  the stored policy. Every operation of \<open>Authority\<close> is a sequence of elementary steps on it: a grant evolves
  in place without gaining authority, or a signed grant is stored under its id. The invariants are
  proved once for the elementary steps.
\<close>

section \<open>The abstract state\<close>

definition pol :: "'d auth_env \<Rightarrow> 'd \<Rightarrow> int \<Rightarrow> address \<Rightarrow> string \<Rightarrow> session_policy option" where
  "pol E d c ow i = Option.bind (rows_of (au_badger E) d (SessionPolicyKey c ow i)) (policy_from_json E)"

definition policy_key :: "bytes \<Rightarrow> bool" where
  "policy_key k \<longleftrightarrow> (\<exists>c ow i. k = SessionPolicyKey c ow i)"

definition keyed :: "session_policy \<Rightarrow> int \<Rightarrow> address \<Rightarrow> string \<Rightarrow> bool" where
  "keyed p c ow i \<longleftrightarrow> sp_chain_id p = c \<and> sp_owner p = Some ow \<and> sp_id p = i"

definition store_wf :: "'d auth_env \<Rightarrow> 'd \<Rightarrow> bool" where
  "store_wf E d \<longleftrightarrow> (\<forall>c ow i v. rows_of (au_badger E) d (SessionPolicyKey c ow i) = Some v \<longrightarrow>
     (\<exists>p. policy_from_json E v = Some p \<and> keyed p c ow i \<and> PolicyValidate (from_hex E) p = Inr ()))"

text \<open>The weaker invariant that rows decode to policies stored under their own key.\<close>

definition store_keyed :: "'d auth_env \<Rightarrow> 'd \<Rightarrow> bool" where
  "store_keyed E d \<longleftrightarrow> (\<forall>c ow i v. rows_of (au_badger E) d (SessionPolicyKey c ow i) = Some v \<longrightarrow>
     (\<exists>p. policy_from_json E v = Some p \<and> keyed p c ow i))"

lemma store_wf_keyed: "store_wf E d \<Longrightarrow> store_keyed E d"
  unfolding store_wf_def store_keyed_def by blast

lemma store_keyedD:
  assumes "store_keyed E d" and "rows_of (au_badger E) d (SessionPolicyKey c ow i) = Some v"
  obtains p where "policy_from_json E v = Some p" "keyed p c ow i"
  using assms unfolding store_keyed_def by blast

definition entities_unique :: "'d auth_env \<Rightarrow> 'd \<Rightarrow> bool" where
  "entities_unique E d \<longleftrightarrow> (\<forall>c ow i j p q. pol E d c ow i = Some p \<longrightarrow> pol E d c ow j = Some q \<longrightarrow>
     sp_runner p = sp_runner q \<longrightarrow> sp_entity_id p = sp_entity_id q \<longrightarrow> i = j)"

definition auth_inv :: "'d auth_env \<Rightarrow> 'd \<Rightarrow> bool" where
  "auth_inv E d \<longleftrightarrow> store_wf E d \<and> entities_unique E d"

lemma liftA_Inr [simp]: "liftA r = Inr x \<longleftrightarrow> r = Inr x"
  and liftC_Inr [simp]: "liftC r' = Inr x \<longleftrightarrow> r' = Inr x"
  and liftO_Inr [simp]: "liftO r'' = Inr x \<longleftrightarrow> r'' = Inr x"
  by (simp_all add: liftA_def liftC_def liftO_def split: sum.splits)

lemma key_inject [simp]: "SessionPolicyKey c ow i = SessionPolicyKey c' ow' i' \<longleftrightarrow> c = c' \<and> ow = ow' \<and> i = i'"
  by (simp add: SessionPolicyKey_def key_simps)

lemma prefix_key: "prefix (SessionPolicyPrefix c ow) k \<longleftrightarrow> (\<exists>i. k = SessionPolicyKey c ow i)"
  by (auto simp: SessionPolicyPrefix_def SessionPolicyKey_def prefix_def join_def)

lemma env_badger: "auth_env_ok E \<Longrightarrow> badger_ok (au_badger E)"
  and env_ascii: "auth_env_ok E \<Longrightarrow> ascii s \<Longrightarrow> utf8 E s"
  and env_decoded: "auth_env_ok E \<Longrightarrow> policy_from_json E v = Some p \<Longrightarrow> text_ok E p"
  and env_roundtrip: "auth_env_ok E \<Longrightarrow> text_ok E p \<Longrightarrow> policy_to_json E p = Some v \<Longrightarrow> policy_from_json E v = Some p"
  unfolding auth_env_ok_def by blast+

lemma env_storage: "auth_env_ok E \<Longrightarrow>
    storage (rows_of (au_badger E)) (GetKey (au_badger E)) (StorageSet (au_badger E)) (StorageDelete (au_badger E))
      (Move (au_badger E)) (GetByPrefix (au_badger E)) (FirstKVHasPrefix (au_badger E))"
  by (rule badger_storage [OF env_badger])

lemma polD:
  assumes "pol E d c ow i = Some p"
  obtains v where "rows_of (au_badger E) d (SessionPolicyKey c ow i) = Some v" "policy_from_json E v = Some p"
  using assms by (auto simp: pol_def Option.bind_eq_Some_conv)

lemma store_wfD:
  assumes "store_wf E d" and "rows_of (au_badger E) d (SessionPolicyKey c ow i) = Some v"
  obtains p where "policy_from_json E v = Some p" "keyed p c ow i" "PolicyValidate (from_hex E) p = Inr ()"
  using assms unfolding store_wf_def by blast

lemma store_wf_pol:
  assumes "store_wf E d" and "pol E d c ow i = Some p"
  shows "keyed p c ow i" and "PolicyValidate (from_hex E) p = Inr ()"
proof -
  obtain v where v: "rows_of (au_badger E) d (SessionPolicyKey c ow i) = Some v" "policy_from_json E v = Some p"
    using assms(2) by (rule polD)
  obtain q where "policy_from_json E v = Some q" "keyed q c ow i" "PolicyValidate (from_hex E) q = Inr ()"
    using assms(1) v(1) by (rule store_wfD)
  with v(2) show "keyed p c ow i" "PolicyValidate (from_hex E) p = Inr ()" by simp_all
qed

lemma pol_text: "auth_env_ok E \<Longrightarrow> pol E d c ow i = Some p \<Longrightarrow> text_ok E p"
  by (erule polD) (rule env_decoded)

section \<open>Storing\<close>

lemma Store_pol:
  assumes ok: "auth_env_ok E" and t: "text_ok E p" and s: "StoreSessionPolicy E d p = Inr d'"
  obtains ow v where "sp_owner p = Some ow" "PolicyValidate (from_hex E) p = Inr ()" "policy_from_json E v = Some p"
    "rows_of (au_badger E) d' = (rows_of (au_badger E) d)(SessionPolicyKey (sp_chain_id p) ow (sp_id p) \<mapsto> v)"
    "\<And>c ow' i. pol E d' c ow' i = (if c = sp_chain_id p \<and> ow' = ow \<and> i = sp_id p then Some p else pol E d c ow' i)"
proof -
  from s obtain ow v where o: "sp_owner p = Some ow" "PolicyValidate (from_hex E) p = Inr ()" "policy_to_json E p = Some v"
    "StorageSet (au_badger E) d (SessionPolicyKey (sp_chain_id p) ow (sp_id p)) v = Inr d'"
    by (auto simp: StoreSessionPolicy_def split: sum.splits option.splits)
  have v: "policy_from_json E v = Some p" by (rule env_roundtrip [OF ok t o(3)])
  note r = storage.set_abs [OF env_storage [OF ok] o(4)]
  have "pol E d' c ow' i = (if c = sp_chain_id p \<and> ow' = ow \<and> i = sp_id p then Some p else pol E d c ow' i)" for c ow' i
    by (simp add: pol_def r v)
  with that o v r show thesis by blast
qed

lemma decode_rows_all2: "decode_rows E items = Inr ps \<longleftrightarrow> list_all2 (\<lambda>(k, v) p. policy_from_json E v = Some p) items ps"
proof (induction items arbitrary: ps)
  case (Cons kv items)
  then show ?case by (cases kv) (auto simp: list_all2_Cons1 split: option.splits)
qed auto

text \<open>Under the invariant a listing is the stored policies of the owner, each once.\<close>

lemma List_keyed:
  assumes ok: "auth_env_ok E" and wf: "store_keyed E d" and l: "ListSessionPolicies E d c ow = Inr ps"
  shows "distinct (map sp_id ps)" and "pol E d c ow i = Some p \<longleftrightarrow> p \<in> set ps \<and> sp_id p = i"
proof -
  from l obtain items where it: "GetByPrefix (au_badger E) d (SessionPolicyPrefix c ow) = Inr items"
    and a2: "list_all2 (\<lambda>(k, v) p. policy_from_json E v = Some p) items ps"
    by (auto simp: ListSessionPolicies_def decode_rows_all2 split: sum.splits)
  have set: "set items = {(k, v). prefix (SessionPolicyPrefix c ow) k \<and> rows_of (au_badger E) d k = Some v}"
    by (rule storage.byPrefix_set [OF env_storage [OF ok] it])
  have "sorted_wrt (<) (map fst items)" by (rule storage.byPrefix_sorted [OF env_storage [OF ok] it])
  then have dk: "distinct (map fst items)" by (simp add: strict_sorted_iff)
  have row: "fst kv = SessionPolicyKey c ow (sp_id p)" if "(kv, p) \<in> set (zip items ps)" for kv p
  proof -
    obtain k v where kv: "kv = (k, v)" by (cases kv)
    have "(k, v) \<in> set items" using that kv by (auto dest: set_zip_leftD)
    then obtain i where k: "k = SessionPolicyKey c ow i" "rows_of (au_badger E) d k = Some v"
      using set prefix_key by auto
    have "policy_from_json E v = Some p" using a2 that kv by (auto simp: list_all2_iff)
    moreover obtain q where "policy_from_json E v = Some q" "keyed q c ow i"
      using wf k(2) unfolding k(1) by (rule store_keyedD)
    ultimately show ?thesis using kv k(1) by (simp add: keyed_def)
  qed
  have len: "length items = length ps" using a2 by (rule list_all2_lengthD)
  have nth: "fst (items ! n) = SessionPolicyKey c ow (sp_id (ps ! n))" if "n < length ps" for n
    using that len by (intro row) (auto simp: set_zip)
  have "map fst items = map (\<lambda>p. SessionPolicyKey c ow (sp_id p)) ps"
    using len nth by (intro nth_equalityI) simp_all
  then have "distinct (map (\<lambda>p. SessionPolicyKey c ow (sp_id p)) ps)" using dk by simp
  then show "distinct (map sp_id ps)" by (simp add: distinct_map inj_on_def)
  show "pol E d c ow i = Some p \<longleftrightarrow> p \<in> set ps \<and> sp_id p = i"
  proof
    assume p: "pol E d c ow i = Some p"
    then obtain v where v: "rows_of (au_badger E) d (SessionPolicyKey c ow i) = Some v" "policy_from_json E v = Some p"
      by (auto simp: pol_def Option.bind_eq_Some_conv)
    then have "(SessionPolicyKey c ow i, v) \<in> set items" using set prefix_key by auto
    then obtain n where n: "n < length items" "items ! n = (SessionPolicyKey c ow i, v)" by (auto simp: in_set_conv_nth)
    then have "ps ! n = p" using list_all2_nthD [OF a2 n(1)] v(2) by auto
    moreover obtain q where "policy_from_json E v = Some q" "keyed q c ow i" using wf v(1) by (rule store_keyedD)
    ultimately show "p \<in> set ps \<and> sp_id p = i" using n len v(2) by (auto simp: keyed_def)
  next
    assume p: "p \<in> set ps \<and> sp_id p = i"
    then obtain n where n: "n < length ps" "ps ! n = p" by (auto simp: in_set_conv_nth)
    obtain k v where kv: "items ! n = (k, v)" by (cases "items ! n")
    have "(k, v) \<in> set items" using n len kv by (metis nth_mem)
    moreover have "k = SessionPolicyKey c ow (sp_id p)" using nth [OF n(1)] n(2) kv by simp
    moreover have "policy_from_json E v = Some p" using list_all2_nthD [OF a2] n len kv by fastforce
    ultimately show "pol E d c ow i = Some p" using p set by (auto simp: pol_def)
  qed
qed

lemmas List_spec = List_keyed [OF _ store_wf_keyed]

section \<open>Evolution\<close>

text \<open>
  How a stored grant may change in place: who it is for and what was signed never change, a revocation, an
  apply and a teardown are never undone, and no change makes an unusable grant usable.
\<close>

definition signed_part :: "session_policy \<Rightarrow> (bytes \<times> int option \<times> uint64 \<times> bytes) option" where
  "signed_part p = map_option (\<lambda>g. (install_call g, carrier_nonce g, grant_deadline g, owner_signature g)) (sp_grant p)"

definition evolves :: "session_policy \<Rightarrow> session_policy \<Rightarrow> bool" where
  "evolves p p' \<longleftrightarrow> sp_id p' = sp_id p \<and> sp_owner p' = sp_owner p \<and> sp_runner p' = sp_runner p \<and>
     sp_chain_id p' = sp_chain_id p \<and> sp_entity_id p' = sp_entity_id p \<and> session_signer p' = session_signer p \<and>
     sp_valid_until p' = sp_valid_until p \<and> signed_part p' = signed_part p \<and>
     (sp_status p = SessionPolicyRevoked \<longrightarrow> sp_status p' = SessionPolicyRevoked) \<and>
     (Applied (sp_grant p) \<longrightarrow> Applied (sp_grant p')) \<and> (TornDown (sp_grant p) \<longrightarrow> TornDown (sp_grant p')) \<and>
     (Usable (Some p') \<longrightarrow> Usable (Some p))"

lemma evolves_refl [simp]: "evolves p p"
  by (simp add: evolves_def)

lemma evolves_trans: "evolves p q \<Longrightarrow> evolves q r \<Longrightarrow> evolves p r"
  unfolding evolves_def by auto

definition evolve :: "'d auth_env \<Rightarrow> 'd \<Rightarrow> 'd \<Rightarrow> bool" where
  "evolve E d d' \<longleftrightarrow> (store_wf E d \<longrightarrow> store_wf E d') \<and>
     (\<forall>c ow i. rel_option evolves (pol E d c ow i) (pol E d' c ow i))"

lemma evolve_refl [simp]: "evolve E d d"
  by (simp add: evolve_def option.rel_refl)

lemma evolve_trans:
  assumes "evolve E d d'" and "evolve E d' d''" shows "evolve E d d''"
proof -
  have "rel_option evolves x z" if "rel_option evolves x y" "rel_option evolves y z" for x y z
    using that by (cases x; cases y; cases z) (auto intro: evolves_trans)
  with assms show ?thesis unfolding evolve_def by blast
qed

lemma evolve_wf: "evolve E d d' \<Longrightarrow> store_wf E d \<Longrightarrow> store_wf E d'"
  by (simp add: evolve_def)

lemma evolve_fwd:
  assumes "evolve E d d'" and "pol E d c ow i = Some p"
  obtains p' where "pol E d' c ow i = Some p'" "evolves p p'"
  using assms unfolding evolve_def by (metis option_rel_Some1)

lemma evolve_bwd:
  assumes "evolve E d d'" and "pol E d' c ow i = Some p'"
  obtains p where "pol E d c ow i = Some p" "evolves p p'"
  using assms unfolding evolve_def by (metis option_rel_Some2)

lemma evolve_None: "evolve E d d' \<Longrightarrow> pol E d' c ow i = None \<longleftrightarrow> pol E d c ow i = None"
  unfolding evolve_def by (metis option.rel_distinct(1,2) option.exhaust)

lemma Store_evolve:
  assumes ok: "auth_env_ok E" and wf: "store_wf E d" and p: "pol E d c ow i = Some p"
    and t: "text_ok E p'" and e: "evolves p p'" and s: "StoreSessionPolicy E d p' = Inr d'"
  shows "evolve E d d'"
    and "pol E d' = (pol E d)(c := (pol E d c)(ow := (pol E d c ow)(i \<mapsto> p')))"
proof -
  note k = store_wf_pol(1) [OF wf p]
  have k': "sp_chain_id p' = c" "sp_owner p' = Some ow" "sp_id p' = i" using k e by (auto simp: keyed_def evolves_def)
  obtain w v where o: "sp_owner p' = Some w" "PolicyValidate (from_hex E) p' = Inr ()" "policy_from_json E v = Some p'"
    "rows_of (au_badger E) d' = (rows_of (au_badger E) d)(SessionPolicyKey (sp_chain_id p') w (sp_id p') \<mapsto> v)"
    and q: "\<And>c ow' i. pol E d' c ow' i = (if c = sp_chain_id p' \<and> ow' = w \<and> i = sp_id p' then Some p' else pol E d c ow' i)"
    using Store_pol [OF ok t s] by blast
  have w: "w = ow" using o(1) k'(2) by simp
  show upd: "pol E d' = (pol E d)(c := (pol E d c)(ow := (pol E d c ow)(i \<mapsto> p')))"
    by (auto simp: fun_eq_iff q w k')
  have "store_wf E d'" unfolding store_wf_def
  proof (intro allI impI)
    fix c' ow' i' v' assume r: "rows_of (au_badger E) d' (SessionPolicyKey c' ow' i') = Some v'"
    show "\<exists>p. policy_from_json E v' = Some p \<and> keyed p c' ow' i' \<and> PolicyValidate (from_hex E) p = Inr ()"
    proof (cases "c' = c \<and> ow' = ow \<and> i' = i")
      case True
      with r have "v' = v" by (simp add: o(4) k' w)
      with True o k' show ?thesis by (auto simp: keyed_def)
    next
      case False
      with r have "rows_of (au_badger E) d (SessionPolicyKey c' ow' i') = Some v'" by (auto simp: o(4) k' w)
      with wf show ?thesis unfolding store_wf_def by blast
    qed
  qed
  moreover have "rel_option evolves (pol E d c' ow' i') (pol E d' c' ow' i')" for c' ow' i'
    using p e by (simp add: upd option.rel_refl)
  ultimately show "evolve E d d'" by (simp add: evolve_def)
qed

lemma List_pol: "auth_env_ok E \<Longrightarrow> store_wf E d \<Longrightarrow> ListSessionPolicies E d c ow = Inr ps \<Longrightarrow> p \<in> set ps \<Longrightarrow>
    pol E d c ow (sp_id p) = Some p"
  by (simp add: List_spec)

lemma read_pol:
  assumes "auth_env_ok E" and "read_policy E d c ow i = Inr (Some p)"
  shows "pol E d c ow i = Some p"
proof -
  from assms(2) obtain raw where g: "GetKey (au_badger E) d (SessionPolicyKey c ow i) = Inr raw" "policy_from_json E raw = Some p"
    by (auto simp: read_policy_def split: sum.splits)
  from storage.get_hit [OF env_storage [OF assms(1)] g(1)] g(2) show ?thesis by (simp add: pol_def)
qed

section \<open>Every operation but a submit only evolves grants\<close>

lemma text_ok_cong:
  assumes "text_ok E p" and "set (policy_texts p') \<subseteq> set (policy_texts p) \<union> X" and "\<forall>s \<in> X. utf8 E s"
  shows "text_ok E p'"
  using assms unfolding text_ok_def list_all_iff by blast

lemma utf8_revoked: "auth_env_ok E \<Longrightarrow> utf8 E SessionPolicyRevoked"
  and utf8_active: "auth_env_ok E \<Longrightarrow> utf8 E SessionPolicyActive"
  by (auto intro!: env_ascii simp: ascii_def policy_constants)

lemma text_ok_revoked: "auth_env_ok E \<Longrightarrow> text_ok E p \<Longrightarrow> text_ok E (p\<lparr>sp_status := SessionPolicyRevoked\<rparr>)"
  by (auto simp: text_ok_def policy_texts_def utf8_revoked)

lemma text_ok_grant:
  assumes "text_ok E p" and "sp_grant p = Some g" and "applied_userop_hash g' = applied_userop_hash g \<or> utf8 E (applied_userop_hash g')"
  shows "text_ok E (p\<lparr>sp_grant := Some g'\<rparr>)"
  using assms by (auto simp: text_ok_def policy_texts_def)

lemma text_ok_active: "auth_env_ok E \<Longrightarrow> text_ok E p \<Longrightarrow> text_ok E (p\<lparr>sp_status := SessionPolicyActive\<rparr>)"
  by (auto simp: text_ok_def policy_texts_def utf8_active)

lemma evolves_revoked: "evolves p (p\<lparr>sp_status := SessionPolicyRevoked\<rparr>)"
  by (simp add: evolves_def signed_part_def Usable_def policy_constants)

lemma evolves_grant:
  assumes "sp_grant p = Some g" and "install_call g' = install_call g" "carrier_nonce g' = carrier_nonce g"
    "grant_deadline g' = grant_deadline g" "owner_signature g' = owner_signature g"
    "Applied (Some g) \<Longrightarrow> Applied (Some g')" "TornDown (Some g) \<Longrightarrow> TornDown (Some g')"
  shows "evolves p (p\<lparr>sp_grant := Some g'\<rparr>)"
  using assms by (simp add: evolves_def signed_part_def Usable_def)

lemma evolves_active:
  assumes "sp_status p = SessionPolicyPending"
  shows "evolves p (p\<lparr>sp_status := SessionPolicyActive\<rparr>)"
  using assms by (simp add: evolves_def signed_part_def Usable_def policy_constants)

lemma tear_evolve:
  assumes ok: "auth_env_ok E" and wf: "store_wf E d" and t: "markEntityTornDownLocked E now d c ow runner e = Inr d'"
  shows "evolve E d d'"
proof -
  from t obtain ps where ps: "ListSessionPolicies E d c ow = Inr ps"
    by (auto simp: markEntityTornDownLocked_def)
  show ?thesis
  proof (cases "d' = d")
    case False
    then obtain p where f: "find (\<lambda>p. on_runner runner p \<and> sp_entity_id p = e \<and> sp_grant p \<noteq> None) ps = Some p"
      and td: "\<not> TornDown (sp_grant p)"
      and st: "StoreSessionPolicy E d (p\<lparr>sp_grant := map_option (torn_down_at_update (\<lambda>_. now)) (sp_grant p)\<rparr>) = Inr d'"
      using t ps by (auto simp: markEntityTornDownLocked_def split: option.splits if_splits)
    from f obtain g where g: "sp_grant p = Some g" and "p \<in> set ps"
      by (auto simp: find_Some_iff)
    then have p: "pol E d c ow (sp_id p) = Some p" using List_pol [OF ok wf ps] by simp
    have "evolves p (p\<lparr>sp_grant := Some (g\<lparr>torn_down_at := now\<rparr>)\<rparr>)"
      using g td by (intro evolves_grant [where g = g]) (auto simp: Applied_def)
    with Store_evolve(1) [OF ok wf p _ _ st] g pol_text [OF ok p] show ?thesis by (simp add: text_ok_grant)
  qed simp
qed

lemma revoke_evolve:
  assumes "auth_env_ok E" and "store_wf E d" and "pol E d c ow i = Some p"
    and "StoreSessionPolicy E d (p\<lparr>sp_status := SessionPolicyRevoked\<rparr>) = Inr d'"
  shows "evolve E d d'"
    and "pol E d' = (pol E d)(c := (pol E d c)(ow := (pol E d c ow)(i \<mapsto> p\<lparr>sp_status := SessionPolicyRevoked\<rparr>)))"
  using Store_evolve [OF assms(1-3) _ evolves_revoked assms(4)] text_ok_revoked [OF assms(1) pol_text [OF assms(1,3)]]
  by auto

text \<open>
  The supersede loop writes from the listing it started with; each write touches its own row, so what it
  writes next is still current.
\<close>

lemma supersede_loop_evolve:
  assumes "auth_env_ok E" and "store_wf E d" and "supersede_loop E runner keep ps d dn = (d', dn', r)"
    and "distinct (map sp_id ps)" and "\<forall>p \<in> set ps. pol E d c ow (sp_id p) = Some p"
  shows "evolve E d d'"
  using assms(2-)
proof (induction ps arbitrary: d dn)
  case (Cons p ps)
  show ?case
  proof (cases "on_runner runner p \<and> Usable (Some p) \<and> \<not> equal_fold (sp_id p) keep")
    case False
    with Cons show ?thesis by (auto split: if_splits)
  next
    case w: True
    show ?thesis
    proof (cases "StoreSessionPolicy E d (p\<lparr>sp_status := SessionPolicyRevoked\<rparr>)")
      case (Inl e)
      with w Cons.prems(2) show ?thesis by simp
    next
      case (Inr d1)
      have p: "pol E d c ow (sp_id p) = Some p" using Cons.prems(4) by simp
      note r = revoke_evolve [OF assms(1) Cons.prems(1) p Inr]
      have "evolve E d1 d'"
      proof (rule Cons.IH)
        show "store_wf E d1" using evolve_wf [OF r(1) Cons.prems(1)] .
        show "supersede_loop E runner keep ps d1 (dn @ [sp_id p]) = (d', dn', r)" using w Inr Cons.prems(2) by simp
        show "distinct (map sp_id ps)" using Cons.prems(3) by simp
        show "\<forall>q \<in> set ps. pol E d1 c ow (sp_id q) = Some q"
        proof
          fix q assume "q \<in> set ps"
          then have "sp_id q \<noteq> sp_id p" "pol E d c ow (sp_id q) = Some q" using Cons.prems(3,4) by force+
          then show "pol E d1 c ow (sp_id q) = Some q" by (simp add: r(2))
        qed
      qed
      with r(1) show ?thesis by (rule evolve_trans)
    qed
  qed
qed simp

lemma supersede_evolve:
  assumes "auth_env_ok E" and "store_wf E d" and "supersedeUsablePolicies E d c ow runner keep = (d', ids, r)"
  shows "evolve E d d'"
proof (cases "ListSessionPolicies E d c ow")
  case (Inr ps)
  note l = List_spec(1) [OF assms(1,2) Inr] List_pol [OF assms(1,2) Inr]
  from Inr assms(3) have "supersede_loop E runner keep ps d [] = (d', ids, r)" by (simp add: supersedeUsablePolicies_def)
  then show ?thesis using l by (intro supersede_loop_evolve [OF assms(1,2)]) auto
qed (use assms(3) in \<open>simp add: supersedeUsablePolicies_def\<close>)

lemma drop_cleared_evolve:
  assumes "auth_env_ok E" and "store_wf E d" and "drop_cleared E now c ow runner v ps d kept = (d', r)"
  shows "evolve E d d'"
  using assms(2-)
proof (induction ps arbitrary: d kept)
  case (Cons p ps)
  show ?case
  proof (cases "v c runner (sp_entity_id p) = Inr True")
    case True
    show ?thesis
    proof (cases "markEntityTornDownLocked E now d c ow runner (sp_entity_id p)")
      case (Inr d1)
      note r = tear_evolve [OF assms(1) Cons.prems(1) Inr]
      have "evolve E d1 d'" using Cons True Inr evolve_wf [OF r Cons.prems(1)] by simp
      with r show ?thesis by (rule evolve_trans)
    qed (use True Cons.prems(2) in simp)
  qed (use Cons in \<open>auto split: sum.splits if_splits\<close>)
qed simp

lemma resolve_targets_evolve:
  assumes "auth_env_ok E" and "store_wf E d" and "resolveTeardownTargets E now d c ow w chk = (d', r)"
  shows "evolve E d d'"
  using assms(3) drop_cleared_evolve [OF assms(1,2)]
  by (fastforce simp: resolveTeardownTargets_def dropClearedTeardownTargets_def
      split: sum.splits option.splits if_splits prod.splits)

lemma prepare_evolve:
  assumes "auth_env_ok E" and "store_wf E d" and "PrepareSessionGrant A E now d c signer i rq = (d', r)"
  shows "evolve E d d'"
  using assms(3) resolve_targets_evolve [OF assms(1,2)]
  by (auto simp: PrepareSessionGrant_def split: if_splits sum.splits option.splits prod.splits)

lemma applied_evolve:
  assumes ok: "auth_env_ok E" and wf: "store_wf E d" and h: "utf8 E hash"
    and m: "MarkSessionGrantAppliedByID E now d c ow i hash = Inr d'"
  shows "evolve E d d'"
proof (cases "d' = d")
  case False
  then obtain p g where rd: "read_policy E d c ow i = Inr (Some p)" and g: "sp_grant p = Some g" and na: "\<not> Applied (Some g)"
    and w: "sp_status p = SessionPolicyPending \<and>
        StoreSessionPolicy E d ((mark_applied now hash p)\<lparr>sp_status := SessionPolicyActive\<rparr>) = Inr d' \<or>
      StoreSessionPolicy E d (mark_applied now hash p) = Inr d'"
    using m by (auto simp: MarkSessionGrantAppliedByID_def MarkSessionGrantApplied_def liftA_def
        split: sum.splits option.splits if_splits)
  note p = read_pol [OF ok rd]
  let ?g = "g\<lparr>applied_at := now, applied_userop_hash := hash\<rparr>"
  have q: "mark_applied now hash p = p\<lparr>sp_grant := Some ?g\<rparr>" by (simp add: mark_applied_def g)
  have e: "evolves p (mark_applied now hash p)" unfolding q
    using g na by (intro evolves_grant [where g = g]) (auto simp: TornDown_def)
  have t: "text_ok E (mark_applied now hash p)" unfolding q
    using pol_text [OF ok p] g h by (auto intro: text_ok_grant)
  from w show ?thesis
  proof (elim disjE conjE)
    assume pd: "sp_status p = SessionPolicyPending"
      and s: "StoreSessionPolicy E d ((mark_applied now hash p)\<lparr>sp_status := SessionPolicyActive\<rparr>) = Inr d'"
    have "evolves p ((mark_applied now hash p)\<lparr>sp_status := SessionPolicyActive\<rparr>)"
      by (rule evolves_trans [OF e evolves_active]) (simp add: mark_applied_def pd)
    then show ?thesis by (rule Store_evolve(1) [OF ok wf p text_ok_active [OF ok t] _ s])
  next
    assume "StoreSessionPolicy E d (mark_applied now hash p) = Inr d'"
    then show ?thesis by (rule Store_evolve(1) [OF ok wf p t e])
  qed
qed simp

lemma window_evolve:
  assumes ok: "auth_env_ok E" and wf: "store_wf E d" and m: "MarkChainWindowChecked E d c ow i = Inr d'"
  shows "evolve E d d'"
proof (cases "d' = d")
  case False
  then obtain p g where rd: "read_policy E d c ow i = Inr (Some p)" and g: "sp_grant p = Some g"
    and s: "StoreSessionPolicy E d (p\<lparr>sp_grant := Some (g\<lparr>chain_window_checked := True\<rparr>)\<rparr>) = Inr d'"
    using m by (auto simp: MarkChainWindowChecked_def liftA_def split: sum.splits option.splits if_splits)
  note p = read_pol [OF ok rd]
  have "evolves p (p\<lparr>sp_grant := Some (g\<lparr>chain_window_checked := True\<rparr>)\<rparr>)"
    using g by (intro evolves_grant [where g = g]) (auto simp: Applied_def TornDown_def)
  moreover have "text_ok E (p\<lparr>sp_grant := Some (g\<lparr>chain_window_checked := True\<rparr>)\<rparr>)"
    using pol_text [OF ok p] g by (auto intro: text_ok_grant)
  ultimately show ?thesis using Store_evolve(1) [OF ok wf p _ _ s] by blast
qed simp

lemma check_window_evolve:
  assumes "auth_env_ok E" and "store_wf E d" and "checkAppliedChainWindow E d q v = (d', r)"
  shows "evolve E d d'"
  using assms(3) window_evolve [OF assms(1,2)]
  by (auto simp: checkAppliedChainWindow_def split: option.splits if_splits sum.splits prod.splits)

lemma resolver_evolve:
  assumes "auth_env_ok E" and "store_wf E d" and "newSessionResolver C E now cfg v d c ow w = (d', r)"
  shows "evolve E d d'"
  using assms(3) check_window_evolve [OF assms(1,2)]
  by (auto simp: newSessionResolver_def split: option.splits if_splits sum.splits prod.splits)

lemma verify_evolve:
  assumes "auth_env_ok E" and "store_wf E d"
  shows "evolve E d (fst (VerifySupersededTeardown E now d v i c ow w e))"
  using tear_evolve [OF assms]
  by (auto simp: VerifySupersededTeardown_def Let_def split: option.splits if_splits sum.splits)

lemma verify_all_evolve:
  "auth_env_ok E \<Longrightarrow> store_wf E d \<Longrightarrow> evolve E d (verify_all E now v i c ow w es d)"
proof (induction es arbitrary: d)
  case (Cons e es)
  note v = verify_evolve [OF Cons.prems, of now v i c ow w e]
  from evolve_trans [OF v Cons.IH [OF Cons.prems(1) evolve_wf [OF v Cons.prems(2)]]] show ?case by simp
qed simp

lemma on_applied_evolve:
  assumes "auth_env_ok E" and "store_wf E d" and "utf8 E hash" and "OnApplied E now v c ow w i es hash d = (d', r)"
  shows "evolve E d d'"
proof (cases "MarkSessionGrantAppliedByID E now d c ow i hash")
  case (Inr d1)
  note a = applied_evolve [OF assms(1-3) Inr]
  from Inr assms(4) have "d' = verify_all E now v i c ow w es d1" by (simp add: OnApplied_def)
  with evolve_trans [OF a verify_all_evolve [OF assms(1) evolve_wf [OF a assms(2)]]] show ?thesis by simp
qed (use assms(4) in \<open>simp add: OnApplied_def\<close>)

lemma refresh_evolve:
  assumes "auth_env_ok E" and "store_wf E d" and "RefreshSessionPolicyCleanup E now cr cf lf d p cl = (d', r)"
  shows "evolve E d d'"
  using assms(3) tear_evolve [OF assms(1,2)]
  by (auto simp: RefreshSessionPolicyCleanup_def refreshSessionPolicyCleanup_def
      split: option.splits if_splits sum.splits)

lemma get_policy_pol:
  assumes "auth_env_ok E" and "store_wf E d" and "GetSessionPolicyByID E owned d c u w i = Inr p"
  shows "pol E d c u (sp_id p) = Some p" and "on_runner w p"
proof -
  from assms(3) obtain ps where l: "ListSessionPolicies E d c u = Inr ps"
    and f: "find (\<lambda>p. equal_fold (sp_id p) i) (rev (filter (on_runner w) ps)) = Some p"
    by (auto simp: GetSessionPolicyByID_def ListSessionPoliciesForWallet_def liftA_def split: if_splits sum.splits option.splits)
  from f have "p \<in> set (rev (filter (on_runner w) ps))" by (metis find_Some_iff nth_mem)
  then show "pol E d c u (sp_id p) = Some p" "on_runner w p" using List_pol [OF assms(1,2) l] by auto
qed

lemma revoke_by_id_evolve:
  assumes "auth_env_ok E" and "store_wf E d" and "RevokeSessionPolicyByID A E owned hold d c u w i = (d', r)"
  shows "evolve E d d'"
proof (cases "d' = d")
  case False
  then obtain p where g: "GetSessionPolicyByID E owned d c u w i = Inr p"
    and s: "StoreSessionPolicy E d (p\<lparr>sp_status := SessionPolicyRevoked\<rparr>) = Inr d'"
    using assms(3) by (auto simp: RevokeSessionPolicyByID_def RevokeSessionGrant_def Let_def liftA_def bindE_Inl_conv
        split: if_splits option.splits sum.splits prod.splits)
  from revoke_evolve(1) [OF assms(1,2) get_policy_pol(1) [OF assms(1,2) g] s] show ?thesis .
qed simp

lemma retired_key_not_policy [simp]: "retiredSessionEntityKey c' w \<noteq> SessionPolicyKey c ow i"
  by (simp add: retiredSessionEntityKey_def SessionPolicyKey_def join_def)

lemma retire_evolve:
  assumes "auth_env_ok E" and "reserveRetiredSessionEntity E gate d c w e = Inr d'"
  shows "evolve E d d'"
proof (cases "d' = d")
  case False
  then have "StorageSet (au_badger E) d (retiredSessionEntityKey c w) (be_bytes 4 (unat e)) = Inr d'"
    using assms(2) by (auto simp: reserveRetiredSessionEntity_def split: option.splits if_splits sum.splits)
  note r = storage.set_abs [OF env_storage [OF assms(1)] this]
  have rows: "rows_of (au_badger E) d' (SessionPolicyKey c' ow i) = rows_of (au_badger E) d (SessionPolicyKey c' ow i)"
    for c' ow i unfolding r using retired_key_not_policy [of c w c' ow i, symmetric] by simp
  show ?thesis by (simp add: evolve_def store_wf_def pol_def rows option.rel_refl)
qed simp

section \<open>A submit inserts one signed grant\<close>

text \<open>The owner's signature on a grant is over the digest of its own chain, wallet, nonce, deadline and call.\<close>

definition owner_signed :: "aa_env \<Rightarrow> session_policy \<Rightarrow> bool" where
  "owner_signed A p \<longleftrightarrow> (case (sp_owner p, sp_runner p, sp_grant p) of
     (Some ow, Some w, Some g) \<Rightarrow>
       (case DeferredActionDigest (aa_keccak A) (Some (sp_chain_id p)) w (carrier_nonce g) (grant_deadline g) (install_call g) of
          Inl _ \<Rightarrow> False
        | Inr digest \<Rightarrow> length (owner_signature g) = 65 \<and> verifyGrantSignature A digest (owner_signature g) ow = Inr ())
   | _ \<Rightarrow> False)"

definition permission_texts :: "session_permissions \<Rightarrow> string list" where
  "permission_texts m = concat (map aa_selectors (pm_allowed_actions m)) @ map cap_amount (pm_spend_caps m) @
     (case pm_spend_cap m of None \<Rightarrow> [] | Some c \<Rightarrow> [cap_amount c]) @
     (case pm_native_spend_cap m of None \<Rightarrow> [] | Some c \<Rightarrow> [nat_amount c])"

text \<open>The texts of a request come from a decoded JSON body, so they are valid UTF-8.\<close>

definition request_ok :: "'d auth_env \<Rightarrow> string \<Rightarrow> grant_request \<Rightarrow> session_permissions \<Rightarrow> bool" where
  "request_ok E i rq m \<longleftrightarrow>
     list_all (utf8 E) (to_lower i # rq_agent_label rq # rq_justification rq # permission_texts m)"

definition inserted :: "'d auth_env \<Rightarrow> 'd \<Rightarrow> 'd \<Rightarrow> session_policy \<Rightarrow> int \<Rightarrow> address \<Rightarrow> string \<Rightarrow> bool" where
  "inserted E d d' p c ow i \<longleftrightarrow> (store_wf E d \<longrightarrow> store_wf E d') \<and> keyed p c ow i \<and>
     pol E d' = (pol E d)(c := (pol E d c)(ow := (pol E d c ow)(i \<mapsto> p))) \<and>
     (\<forall>j q. pol E d c ow j = Some q \<longrightarrow> \<not> (sp_runner q = sp_runner p \<and> sp_entity_id q = sp_entity_id p))"

lemma owner_signed_evolves: "evolves p p' \<Longrightarrow> owner_signed A p \<Longrightarrow> owner_signed A p'"
  unfolding evolves_def owner_signed_def signed_part_def
  by (cases "sp_owner p"; cases "sp_runner p"; cases "sp_grant p"; cases "sp_grant p'")
    (simp_all del: split_paired_All, metis)

lemma Store_insert:
  assumes ok: "auth_env_ok E" and t: "text_ok E p" and s: "StoreSessionPolicy E d p = Inr d'"
    and k: "keyed p c ow i"
    and e: "\<And>j q. pol E d c ow j = Some q \<Longrightarrow> \<not> (sp_runner q = sp_runner p \<and> sp_entity_id q = sp_entity_id p)"
  shows "inserted E d d' p c ow i"
proof -
  obtain v where v: "PolicyValidate (from_hex E) p = Inr ()" "policy_from_json E v = Some p"
    "rows_of (au_badger E) d' = (rows_of (au_badger E) d)(SessionPolicyKey c ow i \<mapsto> v)"
    and q: "\<And>c' ow' i'. pol E d' c' ow' i' = (if c' = c \<and> ow' = ow \<and> i' = i then Some p else pol E d c' ow' i')"
    using Store_pol [OF ok t s] k unfolding keyed_def by (metis option.inject)
  have "store_wf E d'" if wf: "store_wf E d" unfolding store_wf_def
  proof (intro allI impI)
    fix c' ow' i' v' assume r: "rows_of (au_badger E) d' (SessionPolicyKey c' ow' i') = Some v'"
    show "\<exists>p. policy_from_json E v' = Some p \<and> keyed p c' ow' i' \<and> PolicyValidate (from_hex E) p = Inr ()"
    proof (cases "c' = c \<and> ow' = ow \<and> i' = i")
      case True
      with r v k show ?thesis by auto
    next
      case False
      with r have "rows_of (au_badger E) d (SessionPolicyKey c' ow' i') = Some v'" by (auto simp: v(3))
      with wf show ?thesis unfolding store_wf_def by blast
    qed
  qed
  moreover have "pol E d' = (pol E d)(c := (pol E d c)(ow := (pol E d c ow)(i \<mapsto> p)))" by (auto simp: fun_eq_iff q)
  ultimately show ?thesis using k e by (simp add: inserted_def)
qed

text \<open>What a successful preparation hands on: a policy keyed to its request whose digest is of its own fields.\<close>

lemma prepare_spec:
  assumes "PrepareSessionGrant A E now d c signer i rq = (d', Inr pr)"
  obtains g w where "sp_id (pr_policy pr) = i" "sp_owner (pr_policy pr) = Some (rq_owner rq)"
    "sp_runner (pr_policy pr) = Some (rq_wallet rq)" "sp_chain_id (pr_policy pr) = c"
    "sp_grant (pr_policy pr) = Some g" "session_signer (pr_policy pr) = Some signer"
    "sp_status (pr_policy pr) = SessionPolicyPending" "\<not> awaiting_budget_activation (pr_policy pr)"
    "DeferredActionDigest (aa_keccak A) (Some c) (rq_wallet rq) (carrier_nonce g) (grant_deadline g) (install_call g) = Inr (pr_digest pr)"
    "set (policy_texts (pr_policy pr)) \<subseteq> {i, rq_agent_label rq, rq_justification rq, SessionPolicyPending, []}"
    "sp_erc20_spend_caps (pr_policy pr) = []" "sp_erc20_spend_cap (pr_policy pr) = None"
    "budget_start_amounts (pr_policy pr) = []" "budget_start_native (pr_policy pr) = None"
proof -
  from assms obtain entity hooks call targets where
    "build_prepared A now c signer i rq entity hooks call targets = Inr pr"
    by (auto simp: PrepareSessionGrant_def split: if_splits sum.splits option.splits prod.splits)
  then obtain deferredCall n digest dat where
    "DeferredActionDigest (aa_keccak A) (Some c) (rq_wallet rq) (Some n) (grant_deadline_of now rq) deferredCall = Inr digest"
    and "pr_digest pr = digest" and "pr_policy pr = prepared_policy now c signer i rq entity hooks deferredCall n targets"
    by (auto simp: build_prepared_def Let_def)
  then show thesis by (intro that) (auto simp: prepared_policy_def policy_texts_def)
qed

lemma attach_sel [simp]:
  "sp_id (attachDeclaredPermissions p m) = sp_id p" "sp_owner (attachDeclaredPermissions p m) = sp_owner p"
  "sp_runner (attachDeclaredPermissions p m) = sp_runner p" "sp_chain_id (attachDeclaredPermissions p m) = sp_chain_id p"
  "sp_entity_id (attachDeclaredPermissions p m) = sp_entity_id p" "sp_grant (attachDeclaredPermissions p m) = sp_grant p"
  "sp_status (attachDeclaredPermissions p m) = sp_status p"
  "session_signer (attachDeclaredPermissions p m) = session_signer p"
  "awaiting_budget_activation (attachDeclaredPermissions p m) = awaiting_budget_activation p"
  by (simp_all add: attachDeclaredPermissions_def Let_def)

lemma attach_texts:
  assumes "sp_erc20_spend_caps p = []" "sp_erc20_spend_cap p = None" "budget_start_amounts p = []" "budget_start_native p = None"
  shows "set (policy_texts (attachDeclaredPermissions p m)) \<subseteq> set (policy_texts p) \<union> set (permission_texts m)"
proof -
  have "set (policy_texts (attachDeclaredPermissions p m)) \<subseteq>
    {sp_id p, agent_label p, justification p, sizing p, sp_status p} \<union> set (permission_texts m) \<union>
    (case sp_native_spend_cap p of None \<Rightarrow> {} | Some c \<Rightarrow> {nat_amount c, nat_granted c}) \<union>
    (case sp_grant p of None \<Rightarrow> {} | Some g \<Rightarrow> {applied_userop_hash g})"
    using assms by (cases "pm_spend_caps m")
      (auto simp: attachDeclaredPermissions_def Let_def policy_texts_def permission_texts_def granted_cap_def granted_native_def
        split: option.splits)
  also have "\<dots> \<subseteq> set (policy_texts p) \<union> set (permission_texts m)"
    by (auto simp: policy_texts_def split: option.splits)
  finally show ?thesis .
qed

lemma submit_grant_spec:
  assumes "SubmitSessionGrant A E d (Some pr) sig = Inr (d', stored)"
  obtains owner runner g where "sp_owner (pr_policy pr) = Some owner" "sp_runner (pr_policy pr) = Some runner"
    "sp_grant (pr_policy pr) = Some g" "length sig = 65" "verifyGrantSignature A (pr_digest pr) sig owner = Inr ()"
    "sessionEntityTaken E d (sp_chain_id (pr_policy pr)) owner runner (sp_entity_id (pr_policy pr)) = Inr False"
    "stored = (pr_policy pr)\<lparr>sp_grant := Some (g\<lparr>owner_signature := sig\<rparr>)\<rparr>" "StoreSessionPolicy E d stored = Inr d'"
  using assms by (auto simp: SubmitSessionGrant_def Let_def split: if_splits option.splits)

lemma untaken:
  assumes "auth_env_ok E" and "store_wf E d" and "sessionEntityTaken E d c ow w e = Inr False" and "pol E d c ow j = Some q"
  shows "\<not> (sp_runner q = Some w \<and> sp_entity_id q = e)"
proof -
  from assms(3) obtain ps where l: "ListSessionPolicies E d c ow = Inr ps"
    and n: "\<not> list_ex (\<lambda>p. on_runner w p \<and> sp_entity_id p = e) ps"
    by (auto simp: sessionEntityTaken_def)
  have "q \<in> set ps" using List_spec(2) [OF assms(1,2) l] assms(4) by blast
  with n show ?thesis by (auto simp: list_ex_iff on_runner_def)
qed

lemma submit_insert:
  assumes ok: "auth_env_ok E" and wf: "store_wf E d" and rq: "request_ok E i rq m"
    and pr: "PrepareSessionGrant A E now d0 c signer (to_lower i) rq' = (d, Inr pr)"
    and rq': "rq_owner rq' = rq_owner rq" "rq_wallet rq' = rq_wallet rq" "rq_agent_label rq' = rq_agent_label rq"
      "rq_justification rq' = rq_justification rq"
    and s: "SubmitSessionGrant A E d (Some (pr\<lparr>pr_policy := attachDeclaredPermissions (pr_policy pr) m\<rparr>)) sig = Inr (d', stored)"
  shows "inserted E d d' stored c (rq_owner rq) (to_lower i)" and "owner_signed A stored" and "Usable (Some stored)"
    and "sp_runner stored = Some (rq_wallet rq)" and "session_signer stored = Some signer"
proof -
  obtain g where p: "sp_id (pr_policy pr) = to_lower i" "sp_owner (pr_policy pr) = Some (rq_owner rq)"
    "sp_runner (pr_policy pr) = Some (rq_wallet rq)" "sp_chain_id (pr_policy pr) = c"
    "sp_grant (pr_policy pr) = Some g" "session_signer (pr_policy pr) = Some signer"
    "sp_status (pr_policy pr) = SessionPolicyPending" "\<not> awaiting_budget_activation (pr_policy pr)"
    "DeferredActionDigest (aa_keccak A) (Some c) (rq_wallet rq) (carrier_nonce g) (grant_deadline g) (install_call g) = Inr (pr_digest pr)"
    and t: "set (policy_texts (pr_policy pr)) \<subseteq> {to_lower i, rq_agent_label rq, rq_justification rq, SessionPolicyPending, []}"
    and n: "sp_erc20_spend_caps (pr_policy pr) = []" "sp_erc20_spend_cap (pr_policy pr) = None"
    "budget_start_amounts (pr_policy pr) = []" "budget_start_native (pr_policy pr) = None"
    using prepare_spec [OF pr] unfolding rq' by metis
  have v: "length sig = 65" "verifyGrantSignature A (pr_digest pr) sig (rq_owner rq) = Inr ()"
    "sessionEntityTaken E d c (rq_owner rq) (rq_wallet rq) (sp_entity_id (pr_policy pr)) = Inr False"
    and st: "stored = (attachDeclaredPermissions (pr_policy pr) m)\<lparr>sp_grant := Some (g\<lparr>owner_signature := sig\<rparr>)\<rparr>"
    and so: "StoreSessionPolicy E d stored = Inr d'"
    by (rule submit_grant_spec [OF s], simp add: p)+
  have u: "utf8 E SessionPolicyPending" "utf8 E []" using ok by (auto intro!: env_ascii simp: ascii_def policy_constants)
  have "text_ok E (attachDeclaredPermissions (pr_policy pr) m)"
    using attach_texts [OF n, of m] t rq u unfolding text_ok_def request_ok_def list_all_iff by auto
  then have tx: "text_ok E stored" unfolding st by (rule text_ok_grant [where g = g]) (simp_all add: p)
  have k: "keyed stored c (rq_owner rq) (to_lower i)" by (simp add: keyed_def st p)
  show "inserted E d d' stored c (rq_owner rq) (to_lower i)"
    by (rule Store_insert [OF ok tx so k]) (use untaken [OF ok wf v(3)] in \<open>simp add: st p\<close>)
  show "owner_signed A stored" "Usable (Some stored)" "sp_runner stored = Some (rq_wallet rq)" "session_signer stored = Some signer"
    using v by (simp_all add: owner_signed_def st p Usable_def)
qed

text \<open>A whole submit: the grants evolve, one grant is inserted, and the grants evolve again; or only the first.\<close>

definition grants_one :: "aa_env \<Rightarrow> 'd auth_env \<Rightarrow> 'd \<Rightarrow> 'd \<Rightarrow> int \<Rightarrow> address \<Rightarrow> string \<Rightarrow> bool" where
  "grants_one A E d d' c ow i \<longleftrightarrow> evolve E d d' \<or>
     (\<exists>d1 d2 p. evolve E d d1 \<and> inserted E d1 d2 p c ow i \<and> owner_signed A p \<and> evolve E d2 d')"

lemma submit_cases:
  assumes "SubmitSessionPolicy K A E now d c i en base rq m sig = (d', r)"
  obtains (refused) d1 x ts y signer where "\<exists>e. r = Inl e" "d' = d \<or>
      resolveTeardownTargets E now d c (rq_owner rq) (rq_wallet rq) (rq_teardown_check rq) = (d1, x) \<and>
        (d' = d1 \<or> PrepareSessionGrant A E now d1 c signer (to_lower i) (submit_request en ts rq) = (d', y))"
    | (stored) d1 ts d2 pr d3 stored ids e signer where
      "sk_signer K = Inr signer"
      "resolveTeardownTargets E now d c (rq_owner rq) (rq_wallet rq) (rq_teardown_check rq) = (d1, Inr ts)"
      "PrepareSessionGrant A E now d1 c signer (to_lower i) (submit_request en ts rq) = (d2, Inr pr)"
      "SubmitSessionGrant A E d2 (Some (pr\<lparr>pr_policy := attachDeclaredPermissions (pr_policy pr) m\<rparr>)) sig = Inr (d3, stored)"
      "supersedeUsablePolicies E d3 c (rq_owner rq) (rq_wallet rq) (sp_id stored) = (d', ids, e)"
      "r = (case e of Some x \<Rightarrow> Inl (AuthErr x) | None \<Rightarrow> Inr (stored, ids))"
proof (cases "submit_gate K now i (rq_deadline rq)")
  case (Inl e)
  then show thesis using assms by (intro refused) (auto simp: SubmitSessionPolicy_def)
next
  case (Inr signer)
  then have key: "sk_signer K = Inr signer" by (auto simp: submit_gate_def split: option.splits if_splits)
  obtain d1 x where r1: "resolveTeardownTargets E now d c (rq_owner rq) (rq_wallet rq) (rq_teardown_check rq) = (d1, x)"
    by fastforce
  show thesis
  proof (cases "\<exists>ts cur. x = Inr ts \<and> submit_current E d1 c (rq_owner rq) (rq_wallet rq) base = Inr cur \<and> sk_coverage K cur = None")
    case False
    then show thesis using assms Inr r1
      by (intro refused [of d1 x]) (auto simp: SubmitSessionPolicy_def split: sum.splits option.splits)
  next
    case True
    then obtain ts where ts: "x = Inr ts" by blast
    obtain d2 y where p: "PrepareSessionGrant A E now d1 c signer (to_lower i) (submit_request en ts rq) = (d2, y)"
      by fastforce
    have s: "(case y of Inl e \<Rightarrow> (d2, Inl e) | Inr pr \<Rightarrow> submit_and_supersede A E d2 c (rq_owner rq) (rq_wallet rq)
        (Some (pr\<lparr>pr_policy := attachDeclaredPermissions (pr_policy pr) m\<rparr>)) sig) = (d', r)"
      using assms True Inr r1 ts p by (auto simp: SubmitSessionPolicy_def)
    show thesis
    proof (cases "\<exists>pr d3 q. y = Inr pr \<and>
        SubmitSessionGrant A E d2 (Some (pr\<lparr>pr_policy := attachDeclaredPermissions (pr_policy pr) m\<rparr>)) sig = Inr (d3, q)")
      case False
      then have "d' = d2" "\<exists>e. r = Inl e" using s by (auto simp: submit_and_supersede_def split: sum.splits)
      then show thesis using refused [of d1 x signer ts y] r1 p by blast
    next
      case True
      then obtain pr d3 q where y: "y = Inr pr" and g: "SubmitSessionGrant A E d2
          (Some (pr\<lparr>pr_policy := attachDeclaredPermissions (pr_policy pr) m\<rparr>)) sig = Inr (d3, q)" by blast
      obtain d4 ids e where u: "supersedeUsablePolicies E d3 c (rq_owner rq) (rq_wallet rq) (sp_id q) = (d4, ids, e)"
        by (cases "supersedeUsablePolicies E d3 c (rq_owner rq) (rq_wallet rq) (sp_id q)")
      have o: "d' = d4" "r = (case e of Some x \<Rightarrow> Inl (AuthErr x) | None \<Rightarrow> Inr (q, ids))"
        using s y g u by (auto simp: submit_and_supersede_def split: option.splits)
      show thesis using stored [OF key] r1 ts p y g u o by blast
    qed
  qed
qed

lemma submit_grants_one:
  assumes ok: "auth_env_ok E" and wf: "store_wf E d" and rq: "request_ok E i rq m"
    and s: "SubmitSessionPolicy K A E now d c i en base rq m sig = (d', r)"
  shows "grants_one A E d d' c (rq_owner rq) (to_lower i)"
  using s
proof (cases rule: submit_cases)
  case (refused d1 x ts y signer)
  have "evolve E d d'"
  proof (cases "d' = d")
    case False
    then have r: "resolveTeardownTargets E now d c (rq_owner rq) (rq_wallet rq) (rq_teardown_check rq) = (d1, x)"
      and d': "d' = d1 \<or> PrepareSessionGrant A E now d1 c signer (to_lower i) (submit_request en ts rq) = (d', y)"
      using refused(2) by auto
    note e = resolve_targets_evolve [OF ok wf r]
    from d' show ?thesis using e evolve_trans [OF e prepare_evolve [OF ok evolve_wf [OF e wf]]] by blast
  qed simp
  then show ?thesis by (simp add: grants_one_def)
next
  case (stored d1 ts d2 pr d3 p ids e signer)
  note e1 = resolve_targets_evolve [OF ok wf stored(2)]
  note e2 = evolve_trans [OF e1 prepare_evolve [OF ok evolve_wf [OF e1 wf] stored(3)]]
  note wf2 = evolve_wf [OF e2 wf]
  note i = submit_insert [OF ok wf2 rq stored(3) _ _ _ _ stored(4), simplified submit_request_def, simplified]
  have "store_wf E d3" using i(1) wf2 by (simp add: inserted_def)
  from supersede_evolve [OF ok this stored(5)] e2 i(1,2) show ?thesis unfolding grants_one_def by blast
qed

section \<open>The invariant of the store\<close>

definition lower_ids :: "'d auth_env \<Rightarrow> 'd \<Rightarrow> bool" where
  "lower_ids E d \<longleftrightarrow> (\<forall>c ow i p. pol E d c ow i = Some p \<longrightarrow> to_lower i = i)"

definition all_signed :: "aa_env \<Rightarrow> 'd auth_env \<Rightarrow> 'd \<Rightarrow> bool" where
  "all_signed A E d \<longleftrightarrow> (\<forall>c ow i p. pol E d c ow i = Some p \<longrightarrow> owner_signed A p)"

definition grant_inv :: "'d auth_env \<Rightarrow> 'd \<Rightarrow> bool" where
  "grant_inv E d \<longleftrightarrow> store_wf E d \<and> entities_unique E d \<and> lower_ids E d"

lemma lower_char_idem: "lower_char (lower_char x) = lower_char x"
proof -
  have "(n + 32) mod 256 = n + 32" if "n \<le> 90" for n :: nat using that by simp
  then show ?thesis by (auto simp: lower_char_def Let_def of_char_of)
qed

lemma to_lower_idem [simp]: "to_lower (to_lower s) = to_lower s"
  by (simp add: to_lower_def lower_char_idem)

lemma evolve_inv:
  assumes e: "evolve E d d'" and i: "grant_inv E d"
  shows "grant_inv E d'"
proof -
  have "entities_unique E d'" unfolding entities_unique_def
  proof (intro allI impI)
    fix c ow i j p q
    assume "pol E d' c ow i = Some p" "pol E d' c ow j = Some q" "sp_runner p = sp_runner q" "sp_entity_id p = sp_entity_id q"
    then show "i = j" using evolve_bwd [OF e] i unfolding grant_inv_def entities_unique_def evolves_def by metis
  qed
  moreover have "lower_ids E d'" using i evolve_bwd [OF e] unfolding grant_inv_def lower_ids_def by metis
  ultimately show ?thesis using i evolve_wf [OF e] by (simp add: grant_inv_def)
qed

lemma insert_inv:
  assumes i: "inserted E d d' p c ow i" and l: "to_lower i = i" and inv: "grant_inv E d"
  shows "grant_inv E d'"
proof -
  have u: "pol E d' c' ow' j = (if c' = c \<and> ow' = ow \<and> j = i then Some p else pol E d c' ow' j)" for c' ow' j
    using i by (simp add: inserted_def)
  have "entities_unique E d'" unfolding entities_unique_def
  proof (intro allI impI)
    fix c' ow' j k q r
    assume a: "pol E d' c' ow' j = Some q" "pol E d' c' ow' k = Some r" "sp_runner q = sp_runner r" "sp_entity_id q = sp_entity_id r"
    show "j = k"
    proof (cases "c' = c \<and> ow' = ow")
      case True
      then show ?thesis using a i inv unfolding u inserted_def grant_inv_def entities_unique_def
        by (metis option.inject)
    next
      case False
      then show ?thesis using a inv unfolding u grant_inv_def entities_unique_def by metis
    qed
  qed
  moreover have "lower_ids E d'" using inv l unfolding lower_ids_def grant_inv_def u by metis
  ultimately show ?thesis using i inv by (simp add: grant_inv_def inserted_def)
qed

lemma grants_one_inv:
  assumes "grants_one A E d d' c ow i" and "to_lower i = i" and "grant_inv E d"
  shows "grant_inv E d'"
  using assms(1) unfolding grants_one_def
proof (elim disjE exE conjE)
  fix d1 d2 p assume "evolve E d d1" and "inserted E d1 d2 p c ow i" and e: "evolve E d2 d'"
  then have "grant_inv E d2" using insert_inv [OF _ assms(2) evolve_inv [OF _ assms(3)]] by blast
  with e show ?thesis by (rule evolve_inv)
qed (rule evolve_inv [OF _ assms(3)])

lemma grants_one_fwd:
  assumes "grants_one A E d d' c ow i" and "(c', ow', j) \<noteq> (c, ow, i)" and "pol E d c' ow' j = Some p"
  shows "\<exists>p'. pol E d' c' ow' j = Some p' \<and> evolves p p'"
  using assms(1) unfolding grants_one_def
proof (elim disjE exE conjE)
  assume "evolve E d d'" then show ?thesis using assms(3) by (metis evolve_fwd)
next
  fix d1 d2 q assume e: "evolve E d d1" "evolve E d2 d'" and i: "inserted E d1 d2 q c ow i"
  obtain p1 where p1: "pol E d1 c' ow' j = Some p1" "evolves p p1" using evolve_fwd [OF e(1) assms(3)] .
  have "\<not> (c' = c \<and> ow' = ow \<and> j = i)" using assms(2) by auto
  then have "pol E d2 c' ow' j = Some p1" using i p1 by (auto simp: inserted_def)
  with e(2) obtain p' where "pol E d' c' ow' j = Some p'" "evolves p1 p'" by (rule evolve_fwd)
  with p1(2) show ?thesis by (blast intro: evolves_trans)
qed

lemma grants_one_signed:
  assumes "grants_one A E d d' c ow i" and "all_signed A E d"
  shows "all_signed A E d'"
proof -
  have e: "all_signed A E z" if "evolve E y z" "all_signed A E y" for y z
    using that evolve_bwd [OF that(1)] owner_signed_evolves unfolding all_signed_def by metis
  have "all_signed A E z" if "inserted E y z p c ow i" "owner_signed A p" "all_signed A E y" for y z p
    using that unfolding all_signed_def inserted_def by (auto split: if_splits)
  with e assms show ?thesis unfolding grants_one_def by blast
qed

end
