(* ===== verification/BudgetChange.thy ===== *)
theory BudgetChange
  imports BudgetReview AuthorityInv "HOL-Library.AList"
begin

text \<open>
  The journal of owner-signed budget changes, \<open>budget_change.go\<close>, \<open>budget_change_reconcile.go\<close>, \<open>budget_change_chain.go\<close>
  and \<open>budget_session_guard.go\<close> of \<open>core/taskengine\<close>. A change is stored as a review; submitting it writes a hold on the
  wallet before the operation is relayed, and the hold ends only when the chain shows that the nonce was consumed.
  While a hold is in the store no session operation is sent. Every handler runs under the wallet's send lock, so it is
  one step; submitting is two steps, the marker and the relay, because the process may stop between them. The chain
  and the bundler are the parameter \<open>budget_backend\<close>, whose answers are arbitrary.
\<close>

section \<open>Holds and environment\<close>

record budget_hold =
  h_owner :: address
  h_wallet :: address
  h_chain :: int
  h_nonce :: string
  h_attempts :: "string list"
  h_from_block :: uint64
  h_released :: bool

record budget_observation =
  ob_nonce :: int
  ob_hash :: bytes
  ob_tx :: bytes
  ob_block :: budget_block
  ob_success :: bool

text \<open>A log of the EntryPoint, with its topics and data.\<close>

record event_log =
  lg_removed :: bool
  lg_address :: address
  lg_topics :: "bytes list"
  lg_data :: bytes
  lg_tx :: bytes
  lg_block :: uint64
  lg_block_hash :: bytes

datatype owner_check = OwnerOk | OwnerStateChanged | OwnerFunding | OwnerConfig string | OwnerUnread string

datatype send_result = SendAccepted bytes | SendRejected | SendUnknown

text \<open>
  A view of the chain at one block, a value of type \<open>'v\<close>, answers reads; \<open>CheckAuthorities\<close> also writes: it reserves
  the entities of retired signers and caches its inventory.
\<close>

record ('d, 'v) budget_backend =
  bk_view :: "int \<Rightarrow> uint64 option \<Rightarrow> string + 'v"
  bk_block :: "'v \<Rightarrow> budget_block"
  VerifyCanonical :: "'v \<Rightarrow> string option"
  owner_nonce :: "'v \<Rightarrow> address \<Rightarrow> string + int"
  user_op_logs :: "'v \<Rightarrow> uint64 \<Rightarrow> uint64 \<Rightarrow> address \<Rightarrow> string + event_log list"
  allowance :: "'v \<Rightarrow> address \<Rightarrow> address \<Rightarrow> address \<Rightarrow> bytes option"
  session_nonce :: "'v \<Rightarrow> address \<Rightarrow> int \<Rightarrow> bytes option"
  entity_registered :: "'v \<Rightarrow> address \<Rightarrow> 32 word \<Rightarrow> string + bool"
  ValidateOwner :: "'v \<Rightarrow> budget_change \<Rightarrow> owner_check"
  CheckAuthorities :: "'v \<Rightarrow> 'd \<Rightarrow> address \<Rightarrow> address \<Rightarrow> 'd \<times> change_error option"
  rederive :: "'v \<Rightarrow> 'd \<Rightarrow> budget_change \<Rightarrow> change_error option"
  bk_send :: "budget_change \<Rightarrow> user_op \<Rightarrow> send_result"
  price_owner_op :: "budget_change \<Rightarrow> (address \<times> int option \<times> bytes) list \<Rightarrow> change_error + user_op"

record session_flight =
  fl_hash :: bytes
  fl_nonce :: string
  fl_block :: uint64

record 'd change_env =
  ce_auth :: "'d auth_env"
  ce_aa :: aa_env
  ce_sig :: sig_env
  hold_to_json :: "budget_hold \<Rightarrow> bytes option"
  hold_from_json :: "bytes \<Rightarrow> budget_hold option"
  change_to_json :: "budget_change \<Rightarrow> bytes option"
  change_from_json :: "bytes \<Rightarrow> budget_change option"
  flight_to_json :: "session_flight \<Rightarrow> bytes option"
  flight_from_json :: "bytes \<Rightarrow> session_flight option"
  requireOwnedWallet :: "'d \<Rightarrow> address \<Rightarrow> address \<Rightarrow> string option"
  requireServedChain :: "int \<Rightarrow> string option"
  ulid_strict :: "string \<Rightarrow> bool"
  signing_enabled :: bool
  preparation_enabled :: bool
  max_fee_config :: string
  hex_of_hash :: "bytes \<Rightarrow> string"

abbreviation ce_badger :: "'d change_env \<Rightarrow> 'd badger" where
  "ce_badger E \<equiv> au_badger (ce_auth E)"

section \<open>Keys and rows\<close>

definition budgetPreparationPrefix :: "address \<Rightarrow> bytes" where
  "budgetPreparationPrefix owner = join ''budgetprep'' (join (lower_hex owner) [])"

definition budgetPreparationKey :: "address \<Rightarrow> string \<Rightarrow> bytes" where
  "budgetPreparationKey owner pid = budgetPreparationPrefix owner @ pid"

definition budgetHoldPrefix :: "int \<Rightarrow> address \<Rightarrow> address \<Rightarrow> bytes" where
  "budgetHoldPrefix chain owner wallet =
     join ''budgethold'' (join (sdecimal chain) (join (lower_hex owner) (join (lower_hex wallet) [])))"

definition budgetHoldKey :: "budget_hold \<Rightarrow> bytes" where
  "budgetHoldKey h = budgetHoldPrefix (h_chain h) (h_owner h) (h_wallet h) @ h_nonce h"

definition budgetFlightPrefix :: "int \<Rightarrow> address \<Rightarrow> address \<Rightarrow> bytes" where
  "budgetFlightPrefix chain owner wallet =
     join ''budgetflight'' (join (sdecimal chain) (join (lower_hex owner) (join (lower_hex wallet) [])))"

definition budgetWatermarkKey :: "int \<Rightarrow> address \<Rightarrow> address \<Rightarrow> bytes" where
  "budgetWatermarkKey chain owner wallet = budgetFlightPrefix chain owner wallet @ ''settled''"

fun decode_holds :: "'d change_env \<Rightarrow> (bytes \<times> bytes) list \<Rightarrow> change_error + budget_hold list" where
  "decode_holds E [] = Inr []"
| "decode_holds E ((k, v) # rows) = (case hold_from_json E v of
       None \<Rightarrow> Inl (ReadUnavailable ''unreadable wallet hold'')
     | Some h \<Rightarrow> bindE (decode_holds E rows) (\<lambda>hs. Inr (if h_released h then hs else h # hs)))"

definition budgetHoldRows :: "'d change_env \<Rightarrow> 'd \<Rightarrow> int \<Rightarrow> address \<Rightarrow> address \<Rightarrow> change_error + budget_hold list" where
  "budgetHoldRows E d chain owner wallet = (case GetByPrefix (ce_badger E) d (budgetHoldPrefix chain owner wallet) of
       Inl _ \<Rightarrow> Inl (ReadUnavailable ''reading wallet holds'')
     | Inr rows \<Rightarrow> decode_holds E rows)"

definition budgetHoldPresent :: "'d change_env \<Rightarrow> 'd \<Rightarrow> int \<Rightarrow> address \<Rightarrow> address \<Rightarrow> change_error + unit" where
  "budgetHoldPresent E d chain owner wallet = bindE (budgetHoldRows E d chain owner wallet) (\<lambda>hs.
     if hs \<noteq> [] then Inl (BudgetChanging ''Ava's runs are paused while this wallet's budget change is being settled.'') else Inr ())"

text \<open>The updates of a commit, a Go map from keys to values.\<close>

type_synonym updates = "(bytes \<times> bytes) list"

definition put_json :: "bytes option \<Rightarrow> bytes \<Rightarrow> updates \<Rightarrow> change_error + updates" where
  "put_json body k us = (case body of None \<Rightarrow> Inl MarshalFailed | Some v \<Rightarrow> Inr (AList.update k v us))"

definition putBudgetPolicy :: "'d change_env \<Rightarrow> session_policy \<Rightarrow> updates \<Rightarrow> change_error + updates" where
  "putBudgetPolicy E p us = (case sp_owner p of None \<Rightarrow> Inl NilField
     | Some ow \<Rightarrow> put_json (policy_to_json (ce_auth E) p) (SessionPolicyKey (sp_chain_id p) ow (sp_id p)) us)"

definition putBudgetChange :: "'d change_env \<Rightarrow> budget_change \<Rightarrow> updates \<Rightarrow> change_error + updates" where
  "putBudgetChange E p us = put_json (change_to_json E p) (budgetPreparationKey (bc_owner p) (bc_id p)) us"

definition putBudgetHold :: "'d change_env \<Rightarrow> budget_hold \<Rightarrow> updates \<Rightarrow> change_error + updates" where
  "putBudgetHold E h us = put_json (hold_to_json E h) (budgetHoldKey h) us"

definition atomicBudgetWrite :: "'d change_env \<Rightarrow> 'd \<Rightarrow> updates \<Rightarrow> bytes list \<Rightarrow> change_error + 'd" where
  "atomicBudgetWrite E d us ds = (case AtomicWrite (ce_badger E) d us ds of
       Inl _ \<Rightarrow> Inl (ReadUnavailable ''durable budget authority update failed'') | Inr d' \<Rightarrow> Inr d')"

definition saveBudgetTransition :: "'d change_env \<Rightarrow> 'd \<Rightarrow> budget_change \<Rightarrow> budget_hold option \<Rightarrow> session_policy list \<Rightarrow>
    change_error + 'd" where
  "saveBudgetTransition E d p h ps =
     bindE (putBudgetChange E p []) (\<lambda>us.
     bindE (case h of None \<Rightarrow> Inr us | Some hold \<Rightarrow> putBudgetHold E hold us) (\<lambda>us.
     bindE (foldE (putBudgetPolicy E) ps us) (\<lambda>us. atomicBudgetWrite E d us [])))"

section \<open>Loading a change\<close>

definition loadBudgetChange :: "'d change_env \<Rightarrow> 'd \<Rightarrow> address \<Rightarrow> address \<Rightarrow> int \<Rightarrow> string \<Rightarrow> change_error + budget_change" where
  "loadBudgetChange E d user wallet chain pid =
     (case requireOwnedWallet E d user wallet of Some e \<Rightarrow> Inl (OwnerRefused e) | None \<Rightarrow>
      case requireServedChain E chain of Some e \<Rightarrow> Inl (OwnerRefused e) | None \<Rightarrow>
      if \<not> ulid_strict E pid then Inl ChangeNotFound
      else (case GetKey (ce_badger E) d (budgetPreparationKey user pid) of
          Inl e \<Rightarrow> if e = ErrKeyNotFound then Inl ChangeNotFound else Inl (ChangeStorage e)
        | Inr raw \<Rightarrow> (case change_from_json E raw of
            None \<Rightarrow> Inl (ReadUnavailable ''unreadable budget change'')
          | Some p \<Rightarrow>
              if bc_id p \<noteq> pid \<or> bc_owner p \<noteq> user \<or> bc_wallet p \<noteq> wallet \<or> bc_chain p \<noteq> chain then Inl ChangeNotFound
              else bindE (validateStoredBudgetChange (ce_aa E) p) (\<lambda>_. Inr p))))"

definition requireBudgetSigning :: "'d change_env \<Rightarrow> int \<Rightarrow> change_error + unit" where
  "requireBudgetSigning E chain =
     (if \<not> signing_enabled E \<or> \<not> preparation_enabled E then Inl (HandoffRequired ''budget handoff required'')
      else if chain \<noteq> 11155111 then Inl (HandoffRequired ''Budget signing is enabled only on Sepolia.'')
      else Inr ())"

section \<open>Session operations in flight\<close>

definition flight_settled :: "('d, 'v) budget_backend \<Rightarrow> 'v \<Rightarrow> address \<Rightarrow> session_flight \<Rightarrow> change_error + unit" where
  "flight_settled K v wallet f =
     (if fl_block f > bb_number (bk_block K v) then Inl (ReadUnavailable ''session receipt is newer than the read snapshot'')
      else if fl_nonce f = [] then Inr ()
      else case parse_bigint (fl_nonce f) of
          None \<Rightarrow> Inl (ChangeInput ''invalid session flight nonce'')
        | Some full \<Rightarrow> (case session_nonce K v wallet (full div 2 ^ 64) of
            None \<Rightarrow> Inl (ReadUnavailable ''session flight nonce unavailable'')
          | Some out \<Rightarrow>
              if length out \<noteq> 32 then Inl (ReadUnavailable ''session flight nonce unavailable'')
              else if int (be_nat out) \<le> full
              then Inl (BudgetChanging ''A session operation is still in flight. Wait for it to settle before changing the budget.'')
              else Inr ()))"

fun check_flights :: "'d change_env \<Rightarrow> ('d, 'v) budget_backend \<Rightarrow> 'v \<Rightarrow> address \<Rightarrow> (bytes \<times> bytes) list \<Rightarrow> change_error + unit" where
  "check_flights E K v wallet [] = Inr ()"
| "check_flights E K v wallet ((k, raw) # rows) = (case flight_from_json E raw of
       None \<Rightarrow> Inl (ReadUnavailable ''unreadable session flight'')
     | Some f \<Rightarrow> bindE (flight_settled K v wallet f) (\<lambda>_. check_flights E K v wallet rows))"

definition checkBudgetSessionFlights :: "'d change_env \<Rightarrow> ('d, 'v) budget_backend \<Rightarrow> 'd \<Rightarrow> budget_change \<Rightarrow> 'v \<Rightarrow> change_error + unit" where
  "checkBudgetSessionFlights E K d p v =
     (case GetByPrefix (ce_badger E) d (budgetFlightPrefix (bc_chain p) (bc_owner p) (bc_wallet p)) of
        Inl e \<Rightarrow> Inl (ChangeStorage e) | Inr rows \<Rightarrow> check_flights E K v (bc_wallet p) rows)"

section \<open>Observing the chain\<close>

text \<open>
  \<open>Observe\<close> reads the owner nonce and, when it moved past the hold's, the event of the operation that consumed it. The
  query fixes the EntryPoint, the event and the sender; \<open>user_op_logs\<close> are its answers over the blocks asked for.
\<close>

definition holds_nonce :: "int \<Rightarrow> event_log \<Rightarrow> bool" where
  "holds_nonce old lg \<longleftrightarrow> \<not> lg_removed lg \<and> length (lg_topics lg) = 4 \<and> length (lg_data lg) = 128 \<and>
     int (be_nat (take 32 (lg_data lg))) = old"

definition observe_log :: "event_log \<Rightarrow> budget_observation \<Rightarrow> budget_observation" where
  "observe_log lg ob = ob\<lparr>ob_hash := lg_topics lg ! 1, ob_tx := lg_tx lg,
     ob_block := \<lparr>bb_number = lg_block lg, bb_hash = lg_block_hash lg\<rparr>,
     ob_success := be_nat (take 32 (drop 32 (lg_data lg))) \<noteq> 0\<rparr>"

fun scan_logs :: "int \<Rightarrow> event_log list \<Rightarrow> budget_observation \<Rightarrow> string + budget_observation" where
  "scan_logs old [] ob = Inr ob"
| "scan_logs old (lg # lgs) ob =
     (if \<not> holds_nonce old lg then scan_logs old lgs ob
      else if ob_hash ob \<noteq> zero_hash then Inl ''multiple canonical owner events for one nonce''
      else scan_logs old lgs (observe_log lg ob))"

definition Observe :: "('d, 'v) budget_backend \<Rightarrow> budget_hold \<Rightarrow> string + budget_observation" where
  "Observe K h =
     bindE (bk_view K (h_chain h) None) (\<lambda>v.
     bindE (owner_nonce K v (h_wallet h)) (\<lambda>nonce.
       let ob = \<lparr>ob_nonce = nonce, ob_hash = zero_hash, ob_tx = zero_hash, ob_block = no_block, ob_success = False\<rparr> in
       case parse_bigint (h_nonce h) of
         None \<Rightarrow> Inl ''corrupt budget hold nonce''
       | Some old \<Rightarrow>
           if nonce < old then Inl ''owner nonce regressed; budget hold retained''
           else if nonce = old then (case VerifyCanonical K v of Some e \<Rightarrow> Inl e | None \<Rightarrow> Inr ob)
           else bindE (user_op_logs K v (h_from_block h) (bb_number (bk_block K v)) (h_wallet h)) (\<lambda>lgs.
             bindE (scan_logs old lgs ob) (\<lambda>ob'. case VerifyCanonical K v of Some e \<Rightarrow> Inl e | None \<Rightarrow> Inr ob'))))"

section \<open>Settling a hold\<close>

fun hold_attempts :: "'d change_env \<Rightarrow> 'd \<Rightarrow> budget_hold \<Rightarrow> string list \<Rightarrow> change_error + budget_change list" where
  "hold_attempts E d h [] = Inr []"
| "hold_attempts E d h (i # is) = bindE (loadBudgetChange E d (h_owner h) (h_wallet h) (h_chain h) i) (\<lambda>p.
     bindE (hold_attempts E d h is) (\<lambda>ps. Inr (p # ps)))"

text \<open>The last attempt with the observed hash wins.\<close>

definition winner_of :: "bytes \<Rightarrow> budget_change list \<Rightarrow> budget_change option" where
  "winner_of hash ps = (case filter (\<lambda>p. user_op_hash p = hash) ps of [] \<Rightarrow> None | qs \<Rightarrow> Some (last qs))"

definition revoke_change_policy :: "budget_change \<Rightarrow> budget_change" where
  "revoke_change_policy p = p\<lparr>bc_policy := map_option (\<lambda>q. q\<lparr>sp_status := SessionPolicyRevoked, awaiting_budget_activation := True\<rparr>) (bc_policy p)\<rparr>"

definition settled_record :: "budget_change \<Rightarrow> budget_observation \<Rightarrow> budget_change \<Rightarrow> budget_change" where
  "settled_record winner ob p = p\<lparr>
     bc_reason := (if bc_id p = bc_id winner \<and> \<not> ob_success ob
       then ''The owner operation reverted; the previous permission remains usable.'' else []),
     transaction_hash := ob_tx ob, inclusion_block := ob_block ob,
     bc_state := (if bc_id p \<noteq> bc_id winner then budgetChangeSuperseded
       else if \<not> ob_success ob then budgetChangeReverted else budgetChangeActive)\<rparr>"

fun settle_loop :: "'d change_env \<Rightarrow> budget_change \<Rightarrow> budget_observation \<Rightarrow> budget_change list \<Rightarrow> updates \<Rightarrow> change_error + updates" where
  "settle_loop E winner ob [] us = Inr us"
| "settle_loop E winner ob (p # ps) us = (let q = settled_record winner ob p in
     bindE (putBudgetChange E q us) (\<lambda>us.
     if is_cancel q then settle_loop E winner ob ps us
     else case bc_policy (revoke_change_policy q) of None \<Rightarrow> Inl NilField
       | Some r \<Rightarrow> bindE (putBudgetPolicy E r us) (settle_loop E winner ob ps)))"

fun revoke_others :: "'d change_env \<Rightarrow> address \<Rightarrow> string \<Rightarrow> session_policy list \<Rightarrow> updates \<Rightarrow> change_error + updates" where
  "revoke_others E wallet keep [] us = Inr us"
| "revoke_others E wallet keep (old # ps) us =
     (if sp_runner old = Some wallet \<and> sp_id old \<noteq> keep \<and> Usable (Some old)
      then bindE (putBudgetPolicy E (old\<lparr>sp_status := SessionPolicyRevoked\<rparr>) us) (revoke_others E wallet keep ps)
      else revoke_others E wallet keep ps us)"

definition activated_policy :: "'d change_env \<Rightarrow> int \<Rightarrow> bytes \<Rightarrow> session_policy \<Rightarrow> session_policy" where
  "activated_policy E now hash q = q\<lparr>sp_status := SessionPolicyActive, awaiting_budget_activation := False,
     sp_grant := map_option (\<lambda>g. g\<lparr>applied_at := now, applied_userop_hash := hex_of_hash E hash, requires_execute_user_op := True\<rparr>)
       (sp_grant q)\<rparr>"

definition activateBudgetChange :: "'d change_env \<Rightarrow> int \<Rightarrow> 'd \<Rightarrow> budget_change \<Rightarrow> updates \<Rightarrow> change_error + updates" where
  "activateBudgetChange E now d winner us =
     (case ListSessionPolicies (ce_auth E) d (bc_chain winner) (bc_owner winner) of
        Inl e \<Rightarrow> Inl (ChangeAuth e)
      | Inr existing \<Rightarrow> (case bc_policy winner of None \<Rightarrow> Inl NilField
          | Some q \<Rightarrow> (case sp_grant q of None \<Rightarrow> Inl NilField
              | Some _ \<Rightarrow>
                  let q' = activated_policy E now (user_op_hash winner) q in
                  bindE (revoke_others E (bc_wallet winner) (sp_id q) existing us) (\<lambda>us.
                  bindE (putBudgetPolicy E q' us) (\<lambda>us. putBudgetChange E (winner\<lparr>bc_policy := Some q'\<rparr>) us)))))"

definition releaseBudgetHold :: "'d change_env \<Rightarrow> 'd \<Rightarrow> updates \<Rightarrow> budget_hold \<Rightarrow> change_error + 'd" where
  "releaseBudgetHold E d us h =
     bindE (putBudgetHold E (h\<lparr>h_released := True\<rparr>) us) (\<lambda>us. atomicBudgetWrite E d us [])"

text \<open>
  The loop updates the records it shares with \<open>winner\<close>; after it the winner is its own settled record, its policy
  already marked revoked, which activation then makes active.
\<close>

definition settleBudgetHold :: "'d change_env \<Rightarrow> int \<Rightarrow> 'd \<Rightarrow> budget_hold \<Rightarrow> budget_change list \<Rightarrow> budget_change \<Rightarrow>
    budget_observation \<Rightarrow> change_error + 'd" where
  "settleBudgetHold E now d h records winner ob =
     bindE (settle_loop E winner ob records []) (\<lambda>us.
     bindE (if ob_success ob \<and> \<not> is_cancel winner
            then activateBudgetChange E now d (revoke_change_policy (settled_record winner ob winner)) us else Inr us)
       (\<lambda>us. releaseBudgetHold E d us h))"

section \<open>Reconciling\<close>

definition verifyBudgetInclusion :: "('d, 'v) budget_backend \<Rightarrow> int \<Rightarrow> budget_block \<Rightarrow> budget_block \<Rightarrow> change_error + unit" where
  "verifyBudgetInclusion K chain snapshot inclusion =
     (if bb_hash inclusion = zero_hash \<or> bb_number snapshot < bb_number inclusion
      then Inl (ReadUnavailable ''snapshot predates inclusion; Ava's runs remain paused'')
      else if bb_number snapshot = bb_number inclusion
      then (if bb_hash snapshot \<noteq> bb_hash inclusion
            then Inl (ReadUnavailable ''inclusion evidence changed; Ava's runs remain paused'') else Inr ())
      else case bk_view K chain (Some (bb_number inclusion)) of
          Inl _ \<Rightarrow> Inl (ReadUnavailable ''inclusion evidence unavailable; Ava's runs remain paused'')
        | Inr v \<Rightarrow> if bk_block K v \<noteq> inclusion
            then Inl (ReadUnavailable ''inclusion evidence changed; Ava's runs remain paused'')
            else (case VerifyCanonical K v of Some e \<Rightarrow> Inl (ReadUnavailable e) | None \<Rightarrow> Inr ()))"

text \<open>An approval that is not zero marks the change for repair; the first failure ends the loop.\<close>

datatype reset_proof = ResetsZero | ResetUnread string | ResetLeft string

fun prove_resets :: "('d, 'v) budget_backend \<Rightarrow> 'v \<Rightarrow> address \<Rightarrow> approval_reset list \<Rightarrow> reset_proof" where
  "prove_resets K v wallet [] = (case VerifyCanonical K v of None \<Rightarrow> ResetsZero | Some e \<Rightarrow> ResetUnread e)"
| "prove_resets K v wallet (r # rs) = (case allowance K v (ar_token r) wallet (ar_spender r) of
       None \<Rightarrow> ResetUnread ''could not confirm reset''
     | Some out \<Rightarrow> if length out \<noteq> 32 then ResetUnread ''could not confirm reset''
         else if be_nat out \<noteq> 0 then ResetLeft ''revoke the approval in the approval scan, then check again''
         else prove_resets K v wallet rs)"

definition proveBudgetResets :: "('d, 'v) budget_backend \<Rightarrow> budget_change \<Rightarrow> reset_proof" where
  "proveBudgetResets K p =
     (case bk_view K (bc_chain p) (if reset_repair_required p then None else Some (bb_number (inclusion_block p))) of
        Inl _ \<Rightarrow> ResetUnread ''reset verification unavailable; Ava's runs remain paused''
      | Inr v \<Rightarrow> (case verifyBudgetInclusion K (bc_chain p) (bk_block K v) (inclusion_block p) of
          Inl (ReadUnavailable e) \<Rightarrow> ResetUnread e
        | Inl _ \<Rightarrow> ResetUnread []
        | Inr _ \<Rightarrow> prove_resets K v (bc_wallet p) (approval_resets p)))"

fun external_policies :: "'d change_env \<Rightarrow> ('d, 'v) budget_backend \<Rightarrow> 'v \<Rightarrow> address \<Rightarrow> session_policy list \<Rightarrow> updates \<Rightarrow>
    change_error + updates" where
  "external_policies E K v wallet [] us = Inr us"
| "external_policies E K v wallet (p # ps) us =
     (if sp_runner p \<noteq> Some wallet then external_policies E K v wallet ps us
      else case entity_registered K v wallet (sp_entity_id p) of
          Inl _ \<Rightarrow> Inl (ReadUnavailable ''external nonce retirement read'')
        | Inr registered \<Rightarrow>
            if awaiting_budget_activation p \<or> \<not> registered
            then bindE (putBudgetPolicy E (p\<lparr>sp_status := SessionPolicyRevoked\<rparr>) us) (external_policies E K v wallet ps)
            else external_policies E K v wallet ps us)"

definition external_record :: "budget_observation \<Rightarrow> budget_change \<Rightarrow> budget_change" where
  "external_record ob p = p\<lparr>bc_state := budgetChangeSuperseded,
     bc_reason := ''The owner used this nonce outside Ava. This budget was not activated.'',
     transaction_hash := ob_tx ob, inclusion_block := ob_block ob\<rparr>"

fun save_reasons :: "'d change_env \<Rightarrow> budget_hold \<Rightarrow> string \<Rightarrow> budget_change list \<Rightarrow> 'd \<Rightarrow> 'd \<times> (change_error + unit)" where
  "save_reasons E h reason [] d = (d, Inr ())"
| "save_reasons E h reason (p # ps) d = (case saveBudgetTransition E d (p\<lparr>bc_reason := reason\<rparr>) (Some h) [] of
       Inl e \<Rightarrow> (d, Inl e) | Inr d' \<Rightarrow> save_reasons E h reason ps d')"

text \<open>\<open>describe\<close> is the text of an error.\<close>

definition reconcileExternalBudgetNonce :: "'d change_env \<Rightarrow> ('d, 'v) budget_backend \<Rightarrow> (change_error \<Rightarrow> string) \<Rightarrow> 'd \<Rightarrow>
    budget_hold \<Rightarrow> budget_change list \<Rightarrow> budget_observation \<Rightarrow> 'd \<times> (change_error + unit)" where
  "reconcileExternalBudgetNonce E K describe d h records ob =
     (case bk_view K (h_chain h) None of Inl e \<Rightarrow> (d, Inl (ReadUnavailable e)) | Inr v \<Rightarrow>
      case verifyBudgetInclusion K (h_chain h) (bk_block K v) (ob_block ob) of Inl e \<Rightarrow> (d, Inl e) | Inr _ \<Rightarrow>
      case CheckAuthorities K v d (h_owner h) (h_wallet h) of
        (d1, Some e) \<Rightarrow> save_reasons E h (describe e) records d1
      | (d1, None) \<Rightarrow>
          (case (case ListSessionPolicies (ce_auth E) d1 (h_chain h) (h_owner h) of Inl e \<Rightarrow> Inl (ChangeAuth e)
             | Inr ps \<Rightarrow> bindE (external_policies E K v (h_wallet h) ps [])
                 (foldE (\<lambda>p. putBudgetChange E (external_record ob p)) records)) of
             Inl e \<Rightarrow> (d1, Inl e)
           | Inr us \<Rightarrow> (case VerifyCanonical K v of Some e \<Rightarrow> (d1, Inl (ReadUnavailable e))
               | None \<Rightarrow> (case releaseBudgetHold E d1 us h of Inl e \<Rightarrow> (d1, Inl e) | Inr d2 \<Rightarrow> (d2, Inr ())))))"

definition reconcileBudgetHold :: "'d change_env \<Rightarrow> ('d, 'v) budget_backend \<Rightarrow> (change_error \<Rightarrow> string) \<Rightarrow> int \<Rightarrow> 'd \<Rightarrow>
    budget_hold \<Rightarrow> 'd \<times> (change_error + unit)" where
  "reconcileBudgetHold E K describe now d h =
     (case Observe K h of Inl _ \<Rightarrow> (d, Inl (ReadUnavailable ''owner inclusion or nonce observation'')) | Inr ob \<Rightarrow>
      case hold_attempts E d h (h_attempts h) of Inl e \<Rightarrow> (d, Inl e) | Inr records \<Rightarrow>
      case parse_bigint (h_nonce h) of None \<Rightarrow> (d, Inl (ChangeInput ''invalid budget nonce observation'')) | Some nonce \<Rightarrow>
      if ob_hash ob = zero_hash \<or> ob_nonce ob \<le> nonce then (d, Inr ())
      else (case winner_of (ob_hash ob) records of
          None \<Rightarrow> reconcileExternalBudgetNonce E K describe d h records ob
        | Some w \<Rightarrow>
            let winner = w\<lparr>inclusion_block := ob_block ob, transaction_hash := ob_tx ob\<rparr> in
            let settle = (case settleBudgetHold E now d h records winner ob of Inl e \<Rightarrow> (d, Inl e) | Inr d' \<Rightarrow> (d', Inr ())) in
            if ob_success ob \<and> \<not> is_cancel winner
            then (let winner = winner\<lparr>bc_state := ownerSubmissionSubmitted\<rparr> in
              case proveBudgetResets K winner of
                ResetsZero \<Rightarrow> settle
              | ResetUnread e \<Rightarrow> (case saveBudgetTransition E d (winner\<lparr>bc_reason := e\<rparr>) (Some h) [] of
                    Inl err \<Rightarrow> (d, Inl err) | Inr d' \<Rightarrow> (d', Inr ()))
              | ResetLeft e \<Rightarrow> (case saveBudgetTransition E d (winner\<lparr>bc_reason := e, reset_repair_required := True\<rparr>) (Some h) [] of
                    Inl err \<Rightarrow> (d, Inl err) | Inr d' \<Rightarrow> (d', Inr ())))
            else settle))"

fun reconcile_holds :: "'d change_env \<Rightarrow> ('d, 'v) budget_backend \<Rightarrow> (change_error \<Rightarrow> string) \<Rightarrow> int \<Rightarrow> budget_hold list \<Rightarrow> 'd \<Rightarrow>
    'd \<times> (change_error + unit)" where
  "reconcile_holds E K describe now [] d = (d, Inr ())"
| "reconcile_holds E K describe now (h # hs) d = (case reconcileBudgetHold E K describe now d h of
       (d', Inl e) \<Rightarrow> (d', Inl e) | (d', Inr _) \<Rightarrow> reconcile_holds E K describe now hs d')"

definition reconcileBudgetWalletLocked :: "'d change_env \<Rightarrow> ('d, 'v) budget_backend \<Rightarrow> (change_error \<Rightarrow> string) \<Rightarrow> int \<Rightarrow> 'd \<Rightarrow>
    int \<Rightarrow> address \<Rightarrow> address \<Rightarrow> 'd \<times> (change_error + unit)" where
  "reconcileBudgetWalletLocked E K describe now d chain owner wallet = (case budgetHoldRows E d chain owner wallet of
       Inl e \<Rightarrow> (d, Inl e) | Inr hs \<Rightarrow> reconcile_holds E K describe now hs d)"

section \<open>Submitting\<close>

text \<open>\<open>SetWithTTL\<close> stores a row that Badger drops when its time to live is over.\<close>

definition refuseUnsentBudget :: "'d change_env \<Rightarrow> int \<Rightarrow> 'd \<Rightarrow> budget_change \<Rightarrow> change_error \<Rightarrow> 'd \<times> change_error" where
  "refuseUnsentBudget E now d p refusal = (case refusal of
       BaseMoved reason \<Rightarrow>
         (case change_to_json E (p\<lparr>bc_state := ownerSubmissionUnsent, bc_reason := reason\<rparr>) of
            None \<Rightarrow> (d, MarshalFailed)
          | Some raw \<Rightarrow> if expires_at p \<le> now then (d, refusal)
              else (case StorageSet (ce_badger E) d (budgetPreparationKey (bc_owner p) (bc_id p)) raw of
                  Inl _ \<Rightarrow> (d, ReadUnavailable ''storing the pre-send refusal'') | Inr d' \<Rightarrow> (d', refusal)))
     | _ \<Rightarrow> (d, refusal))"

text \<open>\<open>now\<close> is in milliseconds; the deadline of a grant is in seconds.\<close>

fun latestOutstandingLegacyGrantDeadline :: "address \<Rightarrow> int \<Rightarrow> session_policy list \<Rightarrow> uint64 \<Rightarrow> uint64" where
  "latestOutstandingLegacyGrantDeadline wallet now [] latest = latest"
| "latestOutstandingLegacyGrantDeadline wallet now (p # ps) latest =
     latestOutstandingLegacyGrantDeadline wallet now ps
       (case sp_grant p of None \<Rightarrow> latest | Some g \<Rightarrow>
          if sp_runner p = Some wallet \<and> \<not> isWalletBudget (Some p) \<and> \<not> Applied (Some g) \<and> owner_signature g \<noteq> [] \<and>
             grant_deadline g \<ge> of_int (now div 1000) \<and> grant_deadline g > latest
          then grant_deadline g else latest)"

fun registered_targets :: "('d, 'v) budget_backend \<Rightarrow> 'v \<Rightarrow> address \<Rightarrow> session_policy list \<Rightarrow> change_error + session_policy option list" where
  "registered_targets K v wallet [] = Inr []"
| "registered_targets K v wallet (t # ts) = (case entity_registered K v wallet (sp_entity_id t) of
       Inl _ \<Rightarrow> Inl (ReadUnavailable ''retirement registration'')
     | Inr r \<Rightarrow> bindE (registered_targets K v wallet ts) (\<lambda>rs. Inr (if r then Some t # rs else rs)))"

definition recheckBudgetRetirements :: "'d change_env \<Rightarrow> ('d, 'v) budget_backend \<Rightarrow> 'd \<Rightarrow> budget_change \<Rightarrow> 'v \<Rightarrow> change_error + unit" where
  "recheckBudgetRetirements E K d p v =
     (case onChainTeardownTargets (ce_auth E) d (bc_chain p) (bc_owner p) (bc_wallet p) of Inl e \<Rightarrow> Inl (ChangeAuth e)
      | Inr targets \<Rightarrow> bindE (registered_targets K v (bc_wallet p) targets) (\<lambda>rets.
          bindE (change_calls (ce_aa E) p) (\<lambda>before.
          bindE (change_calls (ce_aa E) (p\<lparr>bc_retirements := rets\<rparr>)) (\<lambda>after.
            if before \<noteq> after then Inl (BaseMoved ''retirement set changed'') else Inr ()))))"

text \<open>
  \<open>rederive\<close> stands for the comparisons of the remaining amounts, the enabled tasks, the merged draft, the routes and
  the approvals with what the review stored.
\<close>

definition recheckBudgetDerivation :: "'d change_env \<Rightarrow> ('d, 'v) budget_backend \<Rightarrow> int \<Rightarrow> 'd \<Rightarrow> budget_change \<Rightarrow> 'v \<Rightarrow> change_error + unit" where
  "recheckBudgetDerivation E K now d p v =
     (case activeSessionPolicyLocked (ce_auth E) d (bc_chain p) (bc_owner p) (bc_wallet p) of Inl e \<Rightarrow> Inl (ChangeAuth e)
      | Inr current \<Rightarrow>
        if map_option (policy_to_json (ce_auth E)) current \<noteq> map_option (policy_to_json (ce_auth E)) (bc_base p)
        then Inl (BaseMoved ''base policy changed'')
        else (case ListSessionPolicies (ce_auth E) d (bc_chain p) (bc_owner p) of Inl e \<Rightarrow> Inl (ChangeAuth e)
          | Inr all \<Rightarrow>
            if latestOutstandingLegacyGrantDeadline (bc_wallet p) now all 0 > 0
            then Inl (OwnerRefused ''An outstanding legacy signature can still install.'')
            else (case rederive K v d p of Some e \<Rightarrow> Inl e | None \<Rightarrow>
              (case bc_policy p of None \<Rightarrow> Inl NilField | Some q \<Rightarrow>
              (case sessionEntityTaken (ce_auth E) d (bc_chain p) (bc_owner p) (bc_wallet p) (sp_entity_id q) of
                 Inl e \<Rightarrow> Inl (ChangeAuth e)
               | Inr True \<Rightarrow> Inl (ChangeAuth (EntityStored (sp_entity_id q)))
               | Inr False \<Rightarrow>
                   bindE (if map_option uo_factory (bc_operation p) = Some None
                     then (case entity_registered K v (bc_wallet p) (sp_entity_id q) of
                         Inl _ \<Rightarrow> Inl (ReadUnavailable ''entity registration'')
                       | Inr occupied \<Rightarrow> if occupied then Inl (ChangeAuth (EntityStored (sp_entity_id q))) else Inr ())
                     else Inr ()) (\<lambda>_. recheckBudgetRetirements E K d p v))))))"

definition op_nonce_text :: "budget_change \<Rightarrow> string" where
  "op_nonce_text p = sdecimal (the (uo_nonce (the (bc_operation p))))"

fun matching_hold :: "string \<Rightarrow> budget_hold list \<Rightarrow> budget_hold option \<Rightarrow> change_error + budget_hold option" where
  "matching_hold nonce [] h = Inr h"
| "matching_hold nonce (e # es) h = (if h_nonce e \<noteq> nonce then Inl (BudgetChanging ''An earlier owner nonce is still being settled.'')
     else matching_hold nonce es (Some e))"

datatype submitted = Loaded budget_change | Marked budget_change budget_hold bytes

text \<open>
  \<open>BudgetSubmitError\<close>: an error after the load says whether sending may have started (\<open>SubmissionStarted\<close>); an error before
  it makes no claim.
\<close>

type_synonym submit_error = "bool option \<times> change_error"

text \<open>
  The clock is read when the submit begins, before the marker, and when the marker is stamped. A failed write of the marker
  is reported as uncertain (\<open>SubmissionStarted\<close>), as in the code; the store is then the old one, since a failed transaction
  of the storage model writes nothing.
\<close>

definition marked_change :: "budget_change \<Rightarrow> budget_block \<Rightarrow> int \<Rightarrow> budget_change" where
  "marked_change p blk now = (let p1 = p\<lparr>final_block := blk, submitted_at := now, bc_state := ownerSubmissionSubmitting\<rparr> in
     if is_cancel p then p1
     else p1\<lparr>bc_policy := map_option (\<lambda>q. (if starts_new_totals p then q\<lparr>budget_started_at := now\<rparr> else q)\<lparr>awaiting_budget_activation := True\<rparr>)
       (bc_policy p)\<rparr>)"

definition write_marker :: "'d change_env \<Rightarrow> ('d, 'v) budget_backend \<Rightarrow> int \<Rightarrow> int \<Rightarrow> 'd \<Rightarrow> 'v \<Rightarrow> budget_change \<Rightarrow> bytes \<Rightarrow>
    'd \<times> (submit_error + submitted)" where
  "write_marker E K now2 now3 d v p framed =
     (case bindE (budgetHoldRows E d (bc_chain p) (bc_owner p) (bc_wallet p)) (\<lambda>hs. matching_hold (op_nonce_text p) hs None) of
        Inl e \<Rightarrow> (d, Inl (Some False, e))
      | Inr found \<Rightarrow>
        (case (if is_cancel p then Inr () else recheckBudgetDerivation E K now2 d p v) of
           Inl e \<Rightarrow> (case refuseUnsentBudget E now2 d p e of (d', e') \<Rightarrow> (d', Inl (Some False, e')))
         | Inr _ \<Rightarrow>
           let h = (case found of Some h \<Rightarrow> h | None \<Rightarrow> \<lparr>h_owner = bc_owner p, h_wallet = bc_wallet p, h_chain = bc_chain p,
                h_nonce = op_nonce_text p, h_attempts = [], h_from_block = bb_number (bk_block K v), h_released = False\<rparr>) in
           if is_cancel p \<and> h_attempts h = [] then (d, Inl (Some False, BudgetChanging ''No held owner operation remains to cancel.''))
           else (case VerifyCanonical K v of Some e \<Rightarrow> (d, Inl (Some False, ReadUnavailable e))
             | None \<Rightarrow>
               if expires_at p \<le> now2 then (d, Inl (Some False, ChangeNotFound))
               else let p' = marked_change p (bk_block K v) now3; h' = h\<lparr>h_attempts := h_attempts h @ [bc_id p]\<rparr> in
                 (case saveBudgetTransition E d p' (Some h') (if is_cancel p then [] else (case bc_policy p' of None \<Rightarrow> [] | Some q \<Rightarrow> [q])) of
                    Inl e \<Rightarrow> (d, Inl (Some True, e)) | Inr d' \<Rightarrow> (d', Inr (Marked p' h' framed))))))"

definition validate_owner :: "'d change_env \<Rightarrow> ('d, 'v) budget_backend \<Rightarrow> int \<Rightarrow> 'd \<Rightarrow> 'v \<Rightarrow> budget_change \<Rightarrow> 'd \<times> change_error option" where
  "validate_owner E K now d v p = (case ValidateOwner K v p of
       OwnerOk \<Rightarrow> (d, None)
     | OwnerStateChanged \<Rightarrow> (case refuseUnsentBudget E now d p (BaseMoved ''owner state changed'') of (d', e) \<Rightarrow> (d', Some e))
     | OwnerFunding \<Rightarrow> (d, Some (OwnerRefused ''Add ETH for network fees, then prepare the budget again.''))
     | OwnerConfig e \<Rightarrow> (d, Some (OwnerRefused e))
     | OwnerUnread e \<Rightarrow> (d, Some (ReadUnavailable e)))"

definition submit_prepared :: "'d change_env \<Rightarrow> ('d, 'v) budget_backend \<Rightarrow> int \<Rightarrow> int \<Rightarrow> int \<Rightarrow> 'd \<Rightarrow> budget_change \<Rightarrow> bytes \<Rightarrow>
    'd \<times> (submit_error + submitted)" where
  "submit_prepared E K now1 now2 now3 d p framed =
     (if expires_at p \<le> now1 then (d, Inl (Some False, ChangeNotFound))
      else case checkBudgetFee (max_fee_config E) p of Inl e \<Rightarrow> (d, Inl (Some False, e)) | Inr _ \<Rightarrow>
      case bk_view K (bc_chain p) None of Inl e \<Rightarrow> (d, Inl (Some False, ReadUnavailable e)) | Inr v \<Rightarrow>
      case checkBudgetSessionFlights E K d p v of Inl e \<Rightarrow> (d, Inl (Some False, e)) | Inr _ \<Rightarrow>
      case validate_owner E K now1 d v p of (d1, Some e) \<Rightarrow> (d1, Inl (Some False, e)) | (d1, None) \<Rightarrow>
      case CheckAuthorities K v d1 (bc_owner p) (bc_wallet p) of (d2, Some e) \<Rightarrow> (d2, Inl (Some False, e)) | (d2, None) \<Rightarrow>
      write_marker E K now2 now3 d2 v p framed)"

definition submit_mark :: "'d change_env \<Rightarrow> ('d, 'v) budget_backend \<Rightarrow> (change_error \<Rightarrow> string) \<Rightarrow> int \<Rightarrow> int \<Rightarrow> int \<Rightarrow> 'd \<Rightarrow>
    address \<Rightarrow> address \<Rightarrow> int \<Rightarrow> string \<Rightarrow> bytes \<Rightarrow> 'd \<times> (submit_error + submitted)" where
  "submit_mark E K describe now1 now2 now3 d user wallet chain pid signature =
     (case requireOwnedWallet E d user wallet of Some e \<Rightarrow> (d, Inl (None, OwnerRefused e)) | None \<Rightarrow>
      case loadBudgetChange E d user wallet chain pid of Inl e \<Rightarrow> (d, Inl (None, e)) | Inr p \<Rightarrow>
      let started = (bc_state p \<noteq> ownerSubmissionPrepared \<and> bc_state p \<noteq> ownerSubmissionUnsent) in
      case bindE (if bc_state p = ownerSubmissionPrepared then requireBudgetSigning E chain else Inr ())
          (\<lambda>_. case FrameOwnerSignature (ce_sig E) (user_op_hash p) signature user of
             Inl _ \<Rightarrow> Inl (ChangeInput ''invalid owner signature'') | Inr framed \<Rightarrow> Inr framed) of
        Inl e \<Rightarrow> (d, Inl (Some started, e)) | Inr framed \<Rightarrow>
      if bc_state p \<noteq> ownerSubmissionPrepared
      then (case reconcileBudgetWalletLocked E K describe now1 d chain user wallet of (d', Inl e) \<Rightarrow> (d', Inl (Some started, e))
        | (d', Inr _) \<Rightarrow> (d', case loadBudgetChange E d' user wallet chain pid of
              Inl e \<Rightarrow> Inl (Some started, e) | Inr q \<Rightarrow> Inr (Loaded q)))
      else submit_prepared E K now1 now2 now3 d p framed)"

text \<open>Every send error may still be includable, so the relay never deletes the hold.\<close>

definition relayed_change :: "('d, 'v) budget_backend \<Rightarrow> budget_change \<Rightarrow> bytes \<Rightarrow> budget_change" where
  "relayed_change K p framed = (case bk_send K p ((the (bc_operation p))\<lparr>uo_signature := framed\<rparr>) of
       SendAccepted hash \<Rightarrow>
         if hash \<noteq> user_op_hash p
         then p\<lparr>bc_reason := ''Relay returned a different hash. Ava's runs remain paused while inclusion is checked.''\<rparr>
         else p\<lparr>bc_state := ownerSubmissionSubmitted\<rparr>
     | SendRejected \<Rightarrow> p\<lparr>bc_state := ownerSubmissionRejected,
         bc_reason := ''The operation could not be confirmed as accepted. Ava's runs remain paused; replace or cancel it.''\<rparr>
     | SendUnknown \<Rightarrow> p\<lparr>
         bc_reason := ''The operation could not be confirmed as accepted. Ava's runs remain paused; replace or cancel it.''\<rparr>)"

definition submit_relay :: "'d change_env \<Rightarrow> ('d, 'v) budget_backend \<Rightarrow> 'd \<Rightarrow> budget_change \<Rightarrow> budget_hold \<Rightarrow> bytes \<Rightarrow>
    'd \<times> (submit_error + budget_change)" where
  "submit_relay E K d p h framed = (let q = relayed_change K p framed in
     case saveBudgetTransition E d q (Some h) [] of Inl e \<Rightarrow> (d, Inl (Some True, e)) | Inr d' \<Rightarrow> (d', Inr q))"

definition SubmitBudgetPolicyPreparation :: "'d change_env \<Rightarrow> ('d, 'v) budget_backend \<Rightarrow> (change_error \<Rightarrow> string) \<Rightarrow> int \<Rightarrow> int \<Rightarrow> int \<Rightarrow>
    'd \<Rightarrow> address \<Rightarrow> address \<Rightarrow> int \<Rightarrow> string \<Rightarrow> bytes \<Rightarrow> 'd \<times> (submit_error + budget_change)" where
  "SubmitBudgetPolicyPreparation E K describe now1 now2 now3 d user wallet chain pid signature =
     (case submit_mark E K describe now1 now2 now3 d user wallet chain pid signature of
        (d', Inl e) \<Rightarrow> (d', Inl e)
      | (d', Inr (Loaded p)) \<Rightarrow> (d', Inr p)
      | (d', Inr (Marked p h framed)) \<Rightarrow> submit_relay E K d' p h framed)"

text \<open>The latest attempt of the wallet's holds that has not settled; of equal times the first.\<close>

fun pending_attempts :: "'d change_env \<Rightarrow> 'd \<Rightarrow> address \<Rightarrow> address \<Rightarrow> int \<Rightarrow> string list \<Rightarrow> budget_change option \<Rightarrow>
    change_error + budget_change option" where
  "pending_attempts E d user wallet chain [] latest = Inr latest"
| "pending_attempts E d user wallet chain (i # is) latest = bindE (loadBudgetChange E d user wallet chain i) (\<lambda>p.
     pending_attempts E d user wallet chain is
       (if \<not> budgetSettled (bc_state p) \<and> (case latest of None \<Rightarrow> True | Some l \<Rightarrow> submitted_at p > submitted_at l) then Some p else latest))"

definition pendingBudgetChange :: "'d change_env \<Rightarrow> 'd \<Rightarrow> address \<Rightarrow> int \<Rightarrow> address \<Rightarrow> change_error + budget_change option" where
  "pendingBudgetChange E d user chain wallet = bindE (budgetHoldRows E d chain user wallet)
     (\<lambda>hs. pending_attempts E d user wallet chain (concat (map h_attempts hs)) None)"

section \<open>Cancelling\<close>

definition ownerPreparationMaxPerOwner :: nat where "ownerPreparationMaxPerOwner = 64"
definition ownerPreparationTTL :: int where "ownerPreparationTTL = 600000"

fun count_prepared :: "'d change_env \<Rightarrow> int \<Rightarrow> (bytes \<times> bytes) list \<Rightarrow> change_error + nat" where
  "count_prepared E now [] = Inr 0"
| "count_prepared E now ((k, v) # rows) = (case change_from_json E v of
       None \<Rightarrow> Inl (ChangeInput ''unreadable budget preparation'')
     | Some p \<Rightarrow> bindE (count_prepared E now rows) (\<lambda>n.
         Inr (if bc_state p = ownerSubmissionPrepared \<and> expires_at p > now then Suc n else n)))"

definition checkBudgetPreparationCap :: "'d change_env \<Rightarrow> 'd \<Rightarrow> address \<Rightarrow> int \<Rightarrow> change_error + unit" where
  "checkBudgetPreparationCap E d owner now = (case GetByPrefix (ce_badger E) d (budgetPreparationPrefix owner) of
       Inl e \<Rightarrow> Inl (ChangeStorage e)
     | Inr rows \<Rightarrow> bindE (count_prepared E now rows) (\<lambda>n.
         if n \<ge> ownerPreparationMaxPerOwner then Inl (OwnerRefused ''Too many unsigned budget preparations. Wait for one to expire.'')
         else Inr ()))"

definition cancel_record :: "budget_change \<Rightarrow> string \<Rightarrow> user_op \<Rightarrow> bytes \<Rightarrow> int \<Rightarrow> budget_change" where
  "cancel_record parent newid op hash now = parent\<lparr>bc_id := newid, is_cancel := True, approval_resets := [],
     bc_retirements := [], reset_repair_required := False, submitted_at := 0, final_block := no_block,
     inclusion_block := no_block, transaction_hash := zero_hash, bc_state := ownerSubmissionPrepared,
     bc_operation := Some op, user_op_hash := hash, max_fee_wei := sdecimal (MaxOwnerGasCost op), bc_reason := [],
     expires_at := now + ownerPreparationTTL, bc_created_at := now,
     bc_policy := map_option (\<lambda>q. q\<lparr>sp_grant := map_option (\<lambda>g. g\<lparr>carrier_nonce := uo_nonce op\<rparr>) (sp_grant q)\<rparr>) (bc_policy parent)\<rparr>"

definition cancel_checks :: "'d change_env \<Rightarrow> ('d, 'v) budget_backend \<Rightarrow> int \<Rightarrow> 'd \<Rightarrow> address \<Rightarrow> address \<Rightarrow> int \<Rightarrow> string \<Rightarrow> string \<Rightarrow>
    change_error + budget_change" where
  "cancel_checks E K now d user wallet chain pid newid =
     bindE (loadBudgetChange E d user wallet chain pid) (\<lambda>parent.
     if budgetSettled (bc_state parent) then Inl (BudgetChanging ''This change has already settled.'')
     else bindE (budgetHoldRows E d chain user wallet) (\<lambda>hs.
     if \<not> list_ex (\<lambda>h. pid \<in> set (h_attempts h)) hs then Inl (BudgetChanging ''No owner operation is in flight for this change.'')
     else bindE (price_owner_op K parent (budgetCancelCalls wallet)) (\<lambda>priced.
     bindE (validateBudgetOwnerOperation (ce_aa E) (Some priced) wallet chain (budgetCancelCalls wallet)) (\<lambda>(op, hash).
     if uo_nonce op \<noteq> uo_nonce (the (bc_operation parent)) then Inl (BudgetChanging ''The held owner nonce has already been consumed.'')
     else let p = cancel_record parent newid op hash now in bindE (checkBudgetFee (max_fee_config E) p) (\<lambda>_. Inr p)))))"

definition PrepareBudgetCancel :: "'d change_env \<Rightarrow> ('d, 'v) budget_backend \<Rightarrow> (change_error \<Rightarrow> string) \<Rightarrow> int \<Rightarrow> 'd \<Rightarrow> address \<Rightarrow> address \<Rightarrow>
    int \<Rightarrow> string \<Rightarrow> string \<Rightarrow> 'd \<times> (change_error + budget_change)" where
  "PrepareBudgetCancel E K describe now d user wallet chain pid newid =
     (case requireOwnedWallet E d user wallet of Some e \<Rightarrow> (d, Inl (OwnerRefused e)) | None \<Rightarrow>
      case bindE (requireBudgetSigning E chain) (\<lambda>_. checkBudgetPreparationCap E d user now) of Inl e \<Rightarrow> (d, Inl e) | Inr _ \<Rightarrow>
      case reconcileBudgetWalletLocked E K describe now d chain user wallet of (d1, Inl e) \<Rightarrow> (d1, Inl e) | (d1, Inr _) \<Rightarrow>
      case cancel_checks E K now d1 user wallet chain pid newid of Inl e \<Rightarrow> (d1, Inl e) | Inr p \<Rightarrow>
      case change_to_json E p of None \<Rightarrow> (d1, Inl MarshalFailed) | Some raw \<Rightarrow>
      case StorageSet (ce_badger E) d1 (budgetPreparationKey (bc_owner p) (bc_id p)) raw of
        Inl e \<Rightarrow> (d1, Inl (ChangeStorage e)) | Inr d2 \<Rightarrow> (d2, Inr p))"

section \<open>Guarding session operations\<close>

definition checkBudgetAuthorities :: "'d change_env \<Rightarrow> ('d, 'v) budget_backend \<Rightarrow> 'd \<Rightarrow> int \<Rightarrow> address \<Rightarrow> address \<Rightarrow> 'd \<times> (change_error + unit)" where
  "checkBudgetAuthorities E K d chain owner wallet = (case activeSessionPolicyLocked (ce_auth E) d chain owner wallet of
       Inl e \<Rightarrow> (d, Inl (ChangeAuth e))
     | Inr p \<Rightarrow> if \<not> isWalletBudget p then (d, Inr ())
         else (case bk_view K chain None of Inl _ \<Rightarrow> (d, Inl (ReadUnavailable ''authority snapshot''))
           | Inr v \<Rightarrow> (case CheckAuthorities K v d owner wallet of (d', Some e) \<Rightarrow> (d', Inl e) | (d', None) \<Rightarrow> (d', Inr ()))))"

text \<open>The lease to send session operations of a wallet; the send lock is kept until it is released.\<close>

definition guardBudgetSessionSend :: "'d change_env \<Rightarrow> ('d, 'v) budget_backend \<Rightarrow> (change_error \<Rightarrow> string) \<Rightarrow> int \<Rightarrow> 'd \<Rightarrow> int \<Rightarrow> address \<Rightarrow>
    address \<Rightarrow> 'd \<times> (change_error + unit)" where
  "guardBudgetSessionSend E K describe now d chain owner wallet =
     (case reconcileBudgetWalletLocked E K describe now d chain owner wallet of (d1, Inl e) \<Rightarrow> (d1, Inl e) | (d1, Inr _) \<Rightarrow>
      case budgetHoldPresent E d1 chain owner wallet of Inl e \<Rightarrow> (d1, Inl e) | Inr _ \<Rightarrow>
      checkBudgetAuthorities E K d1 chain owner wallet)"

definition BeforeBroadcast :: "'d change_env \<Rightarrow> 'd \<Rightarrow> int \<Rightarrow> address \<Rightarrow> address \<Rightarrow> user_op option \<Rightarrow> change_error + 'd \<times> bytes \<times> session_flight" where
  "BeforeBroadcast E d chain owner wallet op = (case op of None \<Rightarrow> Inl (ChangeInput ''invalid session operation'')
     | Some u \<Rightarrow> (case uo_nonce u of None \<Rightarrow> Inl (ChangeInput ''invalid session operation'')
       | Some n \<Rightarrow> (case GetUserOpHash (aa_keccak (ce_aa E)) u EntryPointV07Address (Some chain) of Inl e \<Rightarrow> Inl (ChangeOp e)
         | Inr hash \<Rightarrow> let f = \<lparr>fl_hash = hash, fl_nonce = sdecimal n, fl_block = 0\<rparr> in
             (case flight_to_json E f of None \<Rightarrow> Inl MarshalFailed
              | Some raw \<Rightarrow> let key = budgetFlightPrefix chain owner wallet @ hex_of_hash E hash in
                  (case StorageSet (ce_badger E) d key raw of Inl e \<Rightarrow> Inl (ChangeStorage e) | Inr d' \<Rightarrow> Inr (d', key, f))))))"

text \<open>\<open>flights\<close> are the operations broadcast under the lease, by key; the keys are distinct.\<close>

definition budgetUserOpEvent :: "aa_env \<Rightarrow> bytes" where
  "budgetUserOpEvent A = aa_keccak A ''UserOperationEvent(bytes32,address,address,uint256,bool,uint256,uint256)''"

record op_receipt =
  rc_block :: uint64
  rc_block_hash :: bytes
  rc_logs :: "event_log list"

definition budgetSessionInclusionLog :: "aa_env \<Rightarrow> op_receipt \<Rightarrow> event_log \<Rightarrow> address \<Rightarrow> bool" where
  "budgetSessionInclusionLog A rc lg wallet \<longleftrightarrow> \<not> lg_removed lg \<and> lg_address lg = EntryPointV07Address \<and>
     length (lg_topics lg) = 4 \<and> length (lg_data lg) = 128 \<and> lg_topics lg ! 0 = budgetUserOpEvent A \<and>
     lg_topics lg ! 2 = abi_address wallet \<and> lg_block_hash lg = rc_block_hash rc \<and> lg_block lg = rc_block rc"

definition flight_by_hash :: "(bytes \<times> session_flight) list \<Rightarrow> bytes \<Rightarrow> session_flight option" where
  "flight_by_hash flights hash = map_of (rev (map (\<lambda>(k, f). (fl_hash f, f)) flights)) hash"

fun consumed_nonces :: "aa_env \<Rightarrow> op_receipt \<Rightarrow> address \<Rightarrow> (bytes \<times> session_flight) list \<Rightarrow> event_log list \<Rightarrow> (int \<rightharpoonup> int) \<Rightarrow> int \<rightharpoonup> int" where
  "consumed_nonces A rc wallet flights [] m = m"
| "consumed_nonces A rc wallet flights (lg # lgs) m = consumed_nonces A rc wallet flights lgs
     (if \<not> budgetSessionInclusionLog A rc lg wallet then m
      else case flight_by_hash flights (lg_topics lg ! 1) of None \<Rightarrow> m
        | Some f \<Rightarrow> let nonce = int (be_nat (take 32 (lg_data lg))); key = nonce div 2 ^ 64 in
            if sdecimal nonce \<noteq> fl_nonce f then m
            else (case m key of Some prev \<Rightarrow> if nonce > prev then m(key \<mapsto> nonce) else m | None \<Rightarrow> m(key \<mapsto> nonce)))"

definition consumedBudgetFlightKeys :: "aa_env \<Rightarrow> op_receipt \<Rightarrow> address \<Rightarrow> (bytes \<times> session_flight) list \<Rightarrow> bytes list" where
  "consumedBudgetFlightKeys A rc wallet flights =
     (let consumed = consumed_nonces A rc wallet flights (rc_logs rc) Map.empty in
      map fst (filter (\<lambda>(k, f). case parse_bigint (fl_nonce f) of None \<Rightarrow> False
        | Some nonce \<Rightarrow> (case consumed (nonce div 2 ^ 64) of None \<Rightarrow> False | Some c \<Rightarrow> nonce \<le> c)) flights))"

definition Settled :: "'d change_env \<Rightarrow> 'd \<Rightarrow> int \<Rightarrow> address \<Rightarrow> address \<Rightarrow> op_receipt option \<Rightarrow> (bytes \<times> session_flight) list \<Rightarrow> change_error + 'd" where
  "Settled E d chain owner wallet receipt flights = (case receipt of
       None \<Rightarrow> Inl (ChangeInput ''missing session inclusion evidence'')
     | Some rc \<Rightarrow> bindE (put_json (flight_to_json E \<lparr>fl_hash = zero_hash, fl_nonce = [], fl_block = rc_block rc\<rparr>)
           (budgetWatermarkKey chain owner wallet) [])
         (\<lambda>us. atomicBudgetWrite E d us (consumedBudgetFlightKeys (ce_aa E) rc wallet flights)))"

end
