(* ===== verification/GrantSteps.thy ===== *)
theory GrantSteps
  imports BudgetChange
begin

text \<open>
  The machine of the session grants: the operations on grants and the budget operations, which write into the same rows,
  in any order, each labelled with what it is; and what the operations on grants keep.
\<close>

section \<open>The machine\<close>

text \<open>
  The budget operations of \<open>budget_change.go\<close> and \<open>budget_change_reconcile.go\<close>. A submission stores the policy of the wallet
  budget as pending, without validating it; the reconciliation, which also runs before a cancel and before a session
  sends, activates it.
\<close>

inductive budget_step :: "'d auth_env \<Rightarrow> 'v itself \<Rightarrow> 'd \<Rightarrow> 'd \<Rightarrow> bool" for E T where
  submit: "ce_auth C = E \<Longrightarrow> SubmitBudgetPolicyPreparation C (K :: ('d, 'v) budget_backend) describe now1 now2 now3 d user wallet
    chain pid signature = (d', r1) \<Longrightarrow> budget_step E T d d'"
| reconcile: "ce_auth C = E \<Longrightarrow> reconcileBudgetWalletLocked C (K :: ('d, 'v) budget_backend) describe now d chain owner wallet = (d', r2) \<Longrightarrow>
    budget_step E T d d'"
| cancel: "ce_auth C = E \<Longrightarrow> PrepareBudgetCancel C (K :: ('d, 'v) budget_backend) describe now d user wallet chain pid newid = (d', r3) \<Longrightarrow>
    budget_step E T d d'"
| lease: "ce_auth C = E \<Longrightarrow> guardBudgetSessionSend C (K :: ('d, 'v) budget_backend) describe now d chain owner wallet = (d', r4) \<Longrightarrow>
    budget_step E T d d'"

datatype auth_event = SubmitEv int address string | PreviewEv | RevokeEv | ResolveEv | AppliedEv | RefreshEv | RetireEv | BudgetEv

text \<open>
  A submit carries its chain, its owner and the id it stores the grant under, which may be that of a stored grant: nothing
  checks it. Its texts are valid UTF-8, as those of a protobuf message are.
\<close>

inductive auth_step :: "aa_env \<Rightarrow> 'd auth_env \<Rightarrow> 'v itself \<Rightarrow> auth_event \<Rightarrow> 'd \<Rightarrow> 'd \<Rightarrow> bool" for A E T where
  submit: "SubmitSessionPolicy K A E now d c i en base rq m sig = (d', r) \<Longrightarrow> request_ok E i rq m \<Longrightarrow>
    auth_step A E T (SubmitEv c (rq_owner rq) (to_lower i)) d d'"
| preview: "PrepareSessionGrant A E now d c signer i rq = (d', r) \<Longrightarrow> auth_step A E T PreviewEv d d'"
| revoke: "RevokeSessionPolicyByID A E owned hold d c ow w i = (d', r) \<Longrightarrow> auth_step A E T RevokeEv d d'"
| resolve: "newSessionResolver C E now cfg v d c ow w = (d', r) \<Longrightarrow> auth_step A E T ResolveEv d d'"
| applied: "OnApplied E now v c ow w i es hash d = (d', r) \<Longrightarrow> utf8 E hash \<Longrightarrow> auth_step A E T AppliedEv d d'"
| refresh: "RefreshSessionPolicyCleanup E now reads conf free d p cl = (d', r) \<Longrightarrow> auth_step A E T RefreshEv d d'"
| retire: "reserveRetiredSessionEntity E gate d c w e = Inr d' \<Longrightarrow> auth_step A E T RetireEv d d'"
| budget: "budget_step E T d d' \<Longrightarrow> auth_step A E T BudgetEv d d'"

text \<open>The operations on grants alone, and those among them that do not store a grant under the id of a given one.\<close>

definition grant_step :: "aa_env \<Rightarrow> 'd auth_env \<Rightarrow> 'v itself \<Rightarrow> 'd \<Rightarrow> 'd \<Rightarrow> bool" where
  "grant_step A E T d d' \<longleftrightarrow> (\<exists>l. l \<noteq> BudgetEv \<and> auth_step A E T l d d')"

definition grant_step_beside :: "aa_env \<Rightarrow> 'd auth_env \<Rightarrow> 'v itself \<Rightarrow> int \<Rightarrow> address \<Rightarrow> string \<Rightarrow> 'd \<Rightarrow> 'd \<Rightarrow> bool" where
  "grant_step_beside A E T c ow i d d' \<longleftrightarrow> (\<exists>l. l \<noteq> BudgetEv \<and> l \<noteq> SubmitEv c ow i \<and> auth_step A E T l d d')"

lemma step_cases:
  assumes "auth_env_ok E" and "store_wf E d" and "auth_step A E T l d d'" and "l \<noteq> BudgetEv"
  obtains c ow i where "l = SubmitEv c ow i" "to_lower i = i" "grants_one A E d d' c ow i" | "evolve E d d'"
  using assms(3)
proof (cases rule: auth_step.cases)
  case (submit K now c i en base rq m sig r)
  show thesis by (rule that(1) [OF submit(1) to_lower_idem submit_grants_one [OF assms(1,2) submit(3,2)]])
next
  case budget
  with assms(4) show thesis by simp
qed (use assms(1,2) that(2) in \<open>blast intro: prepare_evolve revoke_by_id_evolve resolver_evolve on_applied_evolve
    refresh_evolve retire_evolve\<close>)+

section \<open>Invariants of the machine\<close>

lemma grant_step_inv:
  assumes "auth_env_ok E" and "grant_inv E d" and "grant_step A E T d d'" shows "grant_inv E d'"
proof -
  have wf: "store_wf E d" using assms(2) by (simp add: grant_inv_def)
  obtain l where l: "l \<noteq> BudgetEv" "auth_step A E T l d d'" using assms(3) unfolding grant_step_def by blast
  from assms(1) wf l(2,1) show ?thesis
    by (cases rule: step_cases) (rule grants_one_inv [OF _ _ assms(2)] evolve_inv [OF _ assms(2)]; assumption)+
qed

lemma reach_inv: "(grant_step A E T)\<^sup>*\<^sup>* d d' \<Longrightarrow> auth_env_ok E \<Longrightarrow> grant_inv E d \<Longrightarrow> grant_inv E d'"
  by (induction rule: rtranclp_induct) (auto intro: grant_step_inv)

lemma beside_grant: "grant_step_beside A E T c ow i d d' \<Longrightarrow> grant_step A E T d d'"
  unfolding grant_step_beside_def grant_step_def by blast

lemma step_evolves:
  assumes "auth_env_ok E" and "grant_inv E d" and "grant_step_beside A E T c ow i d d'" and "pol E d c ow i = Some p"
  shows "\<exists>p'. pol E d' c ow i = Some p' \<and> evolves p p'"
proof -
  have wf: "store_wf E d" using assms(2) by (simp add: grant_inv_def)
  obtain l where l: "l \<noteq> BudgetEv" "l \<noteq> SubmitEv c ow i" "auth_step A E T l d d'"
    using assms(3) unfolding grant_step_beside_def by blast
  from assms(1) wf l(3,1) show ?thesis
  proof (cases rule: step_cases)
    case (1 c' ow' i')
    with l(2) have "(c, ow, i) \<noteq> (c', ow', i')" by auto
    from grants_one_fwd [OF 1(3) this assms(4)] show ?thesis .
  next
    case 2
    then show ?thesis using assms(4) by (metis evolve_fwd)
  qed
qed

lemma reach_evolves:
  assumes "(grant_step_beside A E T c ow i)\<^sup>*\<^sup>* d d'" and "auth_env_ok E" and "grant_inv E d" and "pol E d c ow i = Some p"
  shows "grant_inv E d' \<and> (\<exists>p'. pol E d' c ow i = Some p' \<and> evolves p p')"
  using assms(1)
proof (induction rule: rtranclp_induct)
  case base
  show ?case using assms(3,4) evolves_refl by blast
next
  case (step y z)
  then obtain q where q: "grant_inv E y" "pol E y c ow i = Some q" "evolves p q" by blast
  from step_evolves [OF assms(2) q(1) step.hyps(2) q(2)] q(3) grant_step_inv [OF assms(2) q(1) beside_grant [OF step.hyps(2)]]
  show ?case by (blast intro: evolves_trans)
qed

lemma reach_signed:
  assumes "(grant_step A E T)\<^sup>*\<^sup>* d d'" and "auth_env_ok E" and "grant_inv E d" and "all_signed A E d"
  shows "all_signed A E d'"
  using assms(1)
proof (induction rule: rtranclp_induct)
  case base
  show ?case by (rule assms(4))
next
  case (step y z)
  have wf: "store_wf E y" using reach_inv [OF step.hyps(1) assms(2,3)] by (simp add: grant_inv_def)
  obtain l where l: "l \<noteq> BudgetEv" "auth_step A E T l y z" using step.hyps(2) unfolding grant_step_def by blast
  from assms(2) wf l(2,1) show ?case
    by (cases rule: step_cases) (use step.IH in \<open>metis grants_one_signed grants_one_def\<close>)+
qed

end
