(* ===== verification/Grants.thy ===== *)
theory Grants
  imports GrantSteps
begin

text \<open>
  The properties of the store of session grants (\<open>Authority\<close>) over the machine of \<open>AuthorityInv\<close>: what a
  submit leaves, which entity a grant gets, what the send path is handed, and how the locks are taken.
\<close>

section \<open>The grant of a wallet\<close>

definition candidate :: "address \<Rightarrow> session_policy \<Rightarrow> bool" where
  "candidate w p \<longleftrightarrow> on_runner w p \<and> Usable (Some p)"

lemma active_scan_filter:
  "active_scan w found ps = (case (found, filter (candidate w) ps) of
      (None, []) \<Rightarrow> Inr None
    | (None, [p]) \<Rightarrow> Inr (Some p)
    | (None, p # q # _) \<Rightarrow> Inl (Ambiguous w (sp_id p) (sp_id q))
    | (Some f, []) \<Rightarrow> Inr (Some f)
    | (Some f, p # _) \<Rightarrow> Inl (Ambiguous w (sp_id f) (sp_id p)))"
proof (induction ps arbitrary: found)
  case (Cons p ps)
  then show ?case by (cases found) (auto simp: candidate_def split: list.splits)
qed (auto split: option.splits)

lemma filter_sole:
  assumes "distinct ps" and "p \<in> set ps" and "P p" and "\<And>q. q \<in> set ps \<Longrightarrow> P q \<Longrightarrow> q = p"
  shows "filter P ps = [p]"
proof -
  have st: "set (filter P ps) = {p}" unfolding set_filter using assms(2-4) by blast
  have "length (filter P ps) = card (set (filter P ps))" using assms(1) by (simp only: distinct_card distinct_filter)
  then have "length (filter P ps) = Suc 0" unfolding st by simp
  then obtain q where "filter P ps = [q]" by (auto simp: length_Suc_conv)
  with st show ?thesis by (metis list.set_intros(1) singletonD)
qed

lemma list_fails_only_on_read:
  assumes "auth_env_ok E" and "store_wf E d" and "ListSessionPolicies E d c ow = Inl e"
  shows "\<exists>x. e = ListErr x"
proof (rule ccontr)
  assume n: "\<nexists>x. e = ListErr x"
  then obtain items where it: "GetByPrefix (au_badger E) d (SessionPolicyPrefix c ow) = Inr items" and d: "decode_rows E items = Inl e"
    using assms(3) by (auto simp: ListSessionPolicies_def split: sum.splits)
  have "\<exists>ps. decode_rows E xs = Inr ps" if "set xs \<subseteq> set items" for xs using that
  proof (induction xs)
    case (Cons kv xs)
    obtain k v where kv: "kv = (k, v)" by (cases kv)
    then have "(k, v) \<in> set items" using Cons.prems by simp
    then have "prefix (SessionPolicyPrefix c ow) k" "rows_of (au_badger E) d k = Some v"
      using storage.byPrefix_set [OF env_storage [OF assms(1)] it] by auto
    then obtain i where "rows_of (au_badger E) d (SessionPolicyKey c ow i) = Some v" using prefix_key by metis
    then obtain p where "policy_from_json E v = Some p" using store_wfD [OF assms(2)] by metis
    with Cons kv show ?case by auto
  qed simp
  with d show False by fastforce
qed

text \<open>A listing that holds one candidate yields it; only a failed read gets in the way.\<close>

lemma active_sole:
  assumes ok: "auth_env_ok E" and wf: "store_wf E d" and p: "pol E d c ow i = Some p" "candidate w p"
    and sole: "\<And>j q. pol E d c ow j = Some q \<Longrightarrow> candidate w q \<Longrightarrow> j = i"
  shows "case activeSessionPolicyLocked E d c ow w of Inl e \<Rightarrow> \<exists>x. e = ListErr x | Inr r \<Rightarrow> r = Some p"
proof (cases "ListSessionPolicies E d c ow")
  case (Inl e)
  then show ?thesis using list_fails_only_on_read [OF ok wf Inl] by (simp add: activeSessionPolicyLocked_def)
next
  case (Inr ps)
  have "filter (candidate w) ps = [p]"
  proof (rule filter_sole)
    show "distinct ps" using List_spec(1) [OF ok wf Inr] by (simp add: distinct_map)
    show "p \<in> set ps" using List_spec(2) [OF ok wf Inr] p(1) by blast
    show "candidate w p" by (rule p(2))
    fix q assume "q \<in> set ps" "candidate w q"
    then have "pol E d c ow (sp_id q) = Some q" "sp_id q = i" using List_pol [OF ok wf Inr] sole by auto
    with p(1) show "q = p" by simp
  qed
  then show ?thesis by (simp add: activeSessionPolicyLocked_def Inr active_scan_filter)
qed

section \<open>What superseding leaves\<close>

definition superseded_by :: "address \<Rightarrow> string \<Rightarrow> session_policy \<Rightarrow> session_policy" where
  "superseded_by runner keep p = (if candidate runner p \<and> \<not> equal_fold (sp_id p) keep
     then p\<lparr>sp_status := SessionPolicyRevoked\<rparr> else p)"

lemma superseded_by_id [simp]: "sp_id (superseded_by runner keep p) = sp_id p"
  by (simp add: superseded_by_def)

lemma supersede_loop_clears:
  assumes "auth_env_ok E" and "store_wf E d" and "supersede_loop E runner keep ps d dn = (d', dn', None)"
    and "distinct (map sp_id ps)" and "\<forall>p \<in> set ps. pol E d c ow (sp_id p) = Some p"
  shows "(\<forall>p \<in> set ps. pol E d' c ow (sp_id p) = Some (superseded_by runner keep p)) \<and>
    (\<forall>j. j \<notin> sp_id ` set ps \<longrightarrow> pol E d' c ow j = pol E d c ow j) \<and>
    dn' = dn @ map sp_id (filter (\<lambda>p. candidate runner p \<and> \<not> equal_fold (sp_id p) keep) ps)"
  using assms(2-)
proof (induction ps arbitrary: d dn)
  case (Cons p ps)
  have p: "pol E d c ow (sp_id p) = Some p" and fresh: "sp_id p \<notin> sp_id ` set ps" using Cons.prems(3,4) by auto
  show ?case
  proof (cases "candidate runner p \<and> \<not> equal_fold (sp_id p) keep")
    case False
    then have "supersede_loop E runner keep ps d dn = (d', dn', None)" using Cons.prems(2)
      by (auto simp: candidate_def split: if_splits)
    note ih = Cons.IH [OF Cons.prems(1) this]
    have s: "superseded_by runner keep p = p" using False by (auto simp: superseded_by_def)
    show ?thesis using ih Cons.prems(3,4) p fresh s False by auto
  next
    case True
    then obtain d1 where st: "StoreSessionPolicy E d (p\<lparr>sp_status := SessionPolicyRevoked\<rparr>) = Inr d1"
      and lp: "supersede_loop E runner keep ps d1 (dn @ [sp_id p]) = (d', dn', None)"
      using Cons.prems(2) by (auto simp: candidate_def split: sum.splits)
    note r = revoke_evolve [OF assms(1) Cons.prems(1) p st]
    have cur: "\<forall>q \<in> set ps. pol E d1 c ow (sp_id q) = Some q"
    proof
      fix q assume "q \<in> set ps"
      then have "sp_id q \<noteq> sp_id p" "pol E d c ow (sp_id q) = Some q" using Cons.prems(4) fresh by (metis imageI, simp)
      then show "pol E d1 c ow (sp_id q) = Some q" by (simp add: r(2))
    qed
    note ih = Cons.IH [OF evolve_wf [OF r(1) Cons.prems(1)] lp _ cur]
    have s: "superseded_by runner keep p = p\<lparr>sp_status := SessionPolicyRevoked\<rparr>" using True by (simp add: superseded_by_def)
    have "pol E d' c ow (sp_id p) = Some (superseded_by runner keep p)"
      using ih Cons.prems(3) fresh by (simp add: r(2) s)
    moreover have "pol E d' c ow j = pol E d c ow j" if "j \<notin> sp_id ` set (p # ps)" for j
      using ih Cons.prems(3) that by (simp add: r(2))
    ultimately show ?thesis using ih Cons.prems(3) True by auto
  qed
qed simp

lemma supersede_clears:
  assumes ok: "auth_env_ok E" and wf: "store_wf E d"
    and s: "supersedeUsablePolicies E d c ow runner keep = (d', ids, None)"
  shows "pol E d' c ow j = map_option (superseded_by runner keep) (pol E d c ow j)"
proof -
  from s obtain ps where l: "ListSessionPolicies E d c ow = Inr ps"
    and lp: "supersede_loop E runner keep ps d [] = (d', ids, None)"
    by (auto simp: supersedeUsablePolicies_def split: sum.splits)
  have a: "\<forall>p \<in> set ps. pol E d c ow (sp_id p) = Some p" using List_pol [OF ok wf l] by blast
  note r = supersede_loop_clears [OF ok wf lp List_spec(1) [OF ok wf l] a]
  show ?thesis
  proof (cases "pol E d c ow j")
    case None
    then have "j \<notin> sp_id ` set ps" using a by auto
    with r None show ?thesis by simp
  next
    case (Some p)
    then have "p \<in> set ps" "sp_id p = j" using List_spec(2) [OF ok wf l] by blast+
    with r Some show ?thesis by auto
  qed
qed

lemma superseded_by_evolves: "evolves p (superseded_by runner keep p)"
  by (simp add: superseded_by_def evolves_revoked)

lemma superseded_by_candidate:
  "candidate runner (superseded_by runner keep p) \<Longrightarrow> equal_fold (sp_id p) keep"
  "candidate runner p \<Longrightarrow> \<not> equal_fold (sp_id p) keep \<Longrightarrow> sp_status (superseded_by runner keep p) = SessionPolicyRevoked"
  by (auto simp: superseded_by_def candidate_def Usable_def policy_constants split: if_splits)

lemma submit_outcome:
  assumes ok: "auth_env_ok E" and inv: "grant_inv E d" and rq: "request_ok E i rq m"
    and s: "SubmitSessionPolicy K A E now d c i en base rq m sig = (d', Inr (stored, ids))"
  obtains d1 d2 where "evolve E d d1" "inserted E d1 d2 stored c (rq_owner rq) (to_lower i)" "owner_signed A stored"
    "candidate (rq_wallet rq) stored" "Inr (the (session_signer stored)) = sk_signer K" "session_signer stored \<noteq> None" "grant_inv E d2" "grant_inv E d'"
    "\<And>j. pol E d' c (rq_owner rq) j = map_option (superseded_by (rq_wallet rq) (to_lower i)) (pol E d2 c (rq_owner rq) j)"
  using s
proof (cases rule: submit_cases)
  case (stored d1 ts d2 pr d3 p ids' e signer)
  have e: "e = None" "p = stored" using stored(6) by (auto split: option.splits)
  have wf: "store_wf E d" using inv by (simp add: grant_inv_def)
  note e1 = resolve_targets_evolve [OF ok wf stored(2)]
  note e2 = evolve_trans [OF e1 prepare_evolve [OF ok evolve_wf [OF e1 wf] stored(3)]]
  note wf2 = evolve_wf [OF e2 wf]
  note i = submit_insert [OF ok wf2 rq stored(3) _ _ _ _ stored(4), simplified submit_request_def, simplified]
  have inv3: "grant_inv E d3" by (rule insert_inv [OF i(1) to_lower_idem evolve_inv [OF e2 inv]])
  then have wf3: "store_wf E d3" by (simp add: grant_inv_def)
  have k: "sp_id stored = to_lower i" using i(1) e by (simp add: inserted_def keyed_def)
  have sup: "supersedeUsablePolicies E d3 c (rq_owner rq) (rq_wallet rq) (to_lower i) = (d', ids', None)"
    using stored(5) e k by simp
  show thesis
    by (rule that [OF e2 i(1) [unfolded e]])
      (use i e stored(1) inv3 evolve_inv [OF supersede_evolve [OF ok wf3 sup] inv3] supersede_clears [OF ok wf3 sup]
        in \<open>auto simp: candidate_def on_runner_def\<close>)
qed auto

text \<open>
  The id of a submit is not checked against the stored grants. A submit under an id that is stored overwrites
  that row, and then no row of the wallet speaks for the entity the old row reserved.
\<close>

lemma resubmit_frees_entity:
  assumes ok: "auth_env_ok E" and inv: "grant_inv E d" and rq: "request_ok E i rq m"
    and old: "pol E d c (rq_owner rq) (to_lower i) = Some old" "sp_runner old = Some (rq_wallet rq)"
    and s: "SubmitSessionPolicy K A E now d c i en base rq m sig = (d', Inr (stored, ids))"
    and q: "pol E d' c (rq_owner rq) j = Some q" "sp_runner q = Some (rq_wallet rq)"
  shows "sp_entity_id q \<noteq> sp_entity_id old"
proof
  let ?ow = "rq_owner rq" and ?i = "to_lower i"
  assume same: "sp_entity_id q = sp_entity_id old"
  obtain d1 d2 where e: "evolve E d d1" and ins: "inserted E d1 d2 stored c ?ow ?i"
    and pol': "\<And>j. pol E d' c ?ow j = map_option (superseded_by (rq_wallet rq) ?i) (pol E d2 c ?ow j)"
    using submit_outcome [OF ok inv rq s] by blast
  from q(1) obtain q0 where q0: "pol E d2 c ?ow j = Some q0" "q = superseded_by (rq_wallet rq) ?i q0" by (auto simp: pol')
  have s0: "sp_entity_id q0 = sp_entity_id old" "sp_runner q0 = sp_runner old"
    using superseded_by_evolves [of q0 "rq_wallet rq" ?i] q0(2) q(2) old(2) same by (simp_all add: evolves_def)
  obtain old1 where old1: "pol E d1 c ?ow ?i = Some old1" "evolves old old1" using evolve_fwd [OF e old(1)] .
  then have o1: "sp_entity_id old1 = sp_entity_id old" "sp_runner old1 = sp_runner old" by (simp_all add: evolves_def)
  show False
  proof (cases "j = ?i")
    case True
    then have "q0 = stored" using q0(1) ins by (simp add: inserted_def)
    then show False using ins old1(1) s0 o1 unfolding inserted_def by metis
  next
    case False
    then have "pol E d1 c ?ow j = Some q0" using q0(1) ins by (simp add: inserted_def)
    with False old1(1) s0 o1 evolve_inv [OF e inv] show False unfolding grant_inv_def entities_unique_def by metis
  qed
qed

section \<open>Entities\<close>

lemma word_succ_greater: "x \<noteq> - 1 \<Longrightarrow> x < x + 1" for x :: "32 word"
  using inc_less_eq_self_iff_eq [of x] by (simp add: not_le [symmetric])

lemma next_entity_bound:
  "next_entity w ps n = Inr e \<Longrightarrow> n \<le> e \<and> (\<forall>p \<in> set ps. on_runner w p \<longrightarrow> sp_entity_id p < e)"
proof (induction ps arbitrary: n)
  case (Cons p ps)
  show ?case
  proof (cases "on_runner w p \<and> n \<le> sp_entity_id p")
    case True
    then have ne: "sp_entity_id p \<noteq> - 1" and "next_entity w ps (sp_entity_id p + 1) = Inr e" using Cons.prems by (auto split: if_splits)
    from Cons.IH [OF this(2)] have ih: "sp_entity_id p + 1 \<le> e" "\<forall>q \<in> set ps. on_runner w q \<longrightarrow> sp_entity_id q < e" by auto
    have "sp_entity_id p < sp_entity_id p + 1" using ne by (rule word_succ_greater)
    then have "sp_entity_id p < e" using ih(1) by (rule less_le_trans)
    with True ih(2) show ?thesis by auto
  next
    case False
    then have "next_entity w ps n = Inr e" using Cons.prems by (auto split: if_splits)
    from Cons.IH [OF this] False show ?thesis by (auto simp: not_le intro: less_le_trans)
  qed
qed simp

lemma NextSessionEntityID_bound:
  assumes "NextSessionEntityID E d c ow w = Inr e"
  obtains ps f where "ListSessionPolicies E d c ow = Inr ps" "retiredSessionEntityFloor E d c w = Inr f"
    "1 \<le> e" "f < e" "\<forall>p \<in> set ps. on_runner w p \<longrightarrow> sp_entity_id p < e"
proof -
  from assms obtain ps n f where o: "ListSessionPolicies E d c ow = Inr ps" "next_entity w ps 1 = Inr n"
    "retiredSessionEntityFloor E d c w = Inr f"
    and e: "if n \<le> f then f \<noteq> - 1 \<and> e = f + 1 else e = n"
    by (auto simp: NextSessionEntityID_def split: if_splits)
  note b = next_entity_bound [OF o(2)]
  have "n \<le> e \<and> f < e" using e word_succ_greater [of f] by (auto split: if_splits)
  with b have "1 \<le> e" "f < e" "\<forall>p \<in> set ps. on_runner w p \<longrightarrow> sp_entity_id p < e"
    by (auto intro: order_trans less_le_trans)
  with o(1,3) show thesis by (rule that)
qed

lemma walk_free:
  assumes "occupancy_walk k w start n i u t l = Inr e" and "i + n \<le> 256"
  shows "k w e = Inr False \<and> start \<le> e \<and> unat e < unat start + (i + n) \<and> unat start + i \<le> unat e"
  using assms
proof (induction n arbitrary: i u t l)
  case (Suc n)
  have small: "unat (of_nat i :: 32 word) = i" using Suc.prems(2) by (simp add: unat_of_nat)
  have le: "(of_nat i :: 32 word) \<le> - 1 - start" using Suc.prems(1) by (auto simp: not_less split: if_splits)
  have sum: "unat (start + of_nat i) = unat start + i"
  proof -
    have "unat (- 1 - start) = 2 ^ 32 - 1 - unat start" by (simp add: unat_sub unsigned_minus_1_eq_mask mask_eq_exp_minus_1)
    then have "unat start + i < 2 ^ 32" using le small unsigned_less [of start, where 'a = nat] by (simp add: word_le_nat_alt)
    then show ?thesis using small by (simp add: unat_word_ariths)
  qed
  show ?case
  proof (cases "k w (start + of_nat i) = Inr False")
    case True
    then have "e = start + of_nat i" using Suc.prems(1) leD [OF le] by (simp add: Let_def)
    with True sum show ?thesis by (simp add: word_le_nat_alt)
  next
    case False
    then obtain u' t' l' where "occupancy_walk k w start n (Suc i) u' t' l' = Inr e"
      using Suc.prems(1) leD [OF le] by (auto simp: Let_def split: if_splits sum.splits)
    from Suc.IH [OF this] Suc.prems(2) show ?thesis by auto
  qed
qed (auto split: option.splits)

lemma NextFree_bound:
  assumes "NextFreeSessionEntityID E d c ow w chk = Inr e"
  obtains start where "NextSessionEntityID E d c ow w = Inr start" "start \<le> e" "unat e < unat start + maxEntityOccupancyWalk"
    "\<And>k. chk = Some k \<Longrightarrow> k w e = Inr False"
proof -
  from assms obtain start where st: "NextSessionEntityID E d c ow w = Inr start"
    and e: "case chk of None \<Rightarrow> e = start | Some k \<Rightarrow> occupancy_walk k w start maxEntityOccupancyWalk 0 0 0 None = Inr e"
    by (auto simp: NextFreeSessionEntityID_def split: option.splits)
  have "start \<le> e \<and> unat e < unat start + maxEntityOccupancyWalk \<and> (\<forall>k. chk = Some k \<longrightarrow> k w e = Inr False)"
  proof (cases chk)
    case None
    with e show ?thesis by (simp add: maxEntityOccupancyWalk_def)
  next
    case (Some k)
    with e have "occupancy_walk k w start maxEntityOccupancyWalk 0 0 0 None = Inr e" by simp
    from walk_free [OF this] Some show ?thesis by (simp add: maxEntityOccupancyWalk_def)
  qed
  with st show thesis by (blast intro: that)
qed

lemma be_uint32_be_bytes: "be_uint32 (be_bytes 4 (unat e)) = e"
proof -
  have "be_uint32 bs = of_nat (be_nat bs)" for bs
    unfolding be_uint32_def be_nat.simps by (induction bs rule: rev_induct) simp_all
  moreover have "be_nat (be_bytes 4 (unat e)) = unat e"
    using unsigned_less [of e, where 'a = nat] unfolding be_nat_be_bytes by simp
  ultimately show ?thesis by (simp del: be_bytes.simps)
qed

lemma retire_floor:
  assumes ok: "auth_env_ok E" and r: "reserveRetiredSessionEntity E gate d c w e = Inr d'"
    and f: "retiredSessionEntityFloor E d' c w = Inr f"
  shows "e \<le> f"
proof -
  define raw where "raw = be_bytes 4 (unat e)"
  from r have "gate = None" by (cases gate) (simp_all add: reserveRetiredSessionEntity_def)
  with r obtain f0 where f0: "retiredSessionEntityFloor E d c w = Inr f0"
    and b: "(if e \<le> f0 then Inr d else case StorageSet (au_badger E) d (retiredSessionEntityKey c w) raw of
        Inl x \<Rightarrow> Inl (StoreErr x) | Inr d'' \<Rightarrow> Inr d'') = Inr d'"
    unfolding reserveRetiredSessionEntity_def raw_def by (elim bindE_Inr_elim [rotated]) simp
  from b have "e \<le> f0 \<and> d' = d \<or> StorageSet (au_badger E) d (retiredSessionEntityKey c w) raw = Inr d'"
    by (simp split: if_splits sum.splits)
  then show ?thesis
  proof (elim disjE conjE)
    assume "StorageSet (au_badger E) d (retiredSessionEntityKey c w) raw = Inr d'"
    note s = storage.set_abs [OF env_storage [OF ok] this]
    note g = storage.get_hit [OF env_storage [OF ok]] storage.get_miss [OF env_storage [OF ok]]
    from f have "f = be_uint32 raw"
      by (auto simp: retiredSessionEntityFloor_def s dest!: g split: sum.splits if_splits)
    then show ?thesis unfolding raw_def be_uint32_be_bytes by simp
  qed (use f0 f in simp)
qed

section \<open>What the send path is handed\<close>

lemma active_scan_one:
  assumes "active_scan w None ps = Inr (Some p)"
  shows "filter (candidate w) ps = [p]"
  using assms by (auto simp: active_scan_filter split: list.splits)

lemma active_spec:
  assumes ok: "auth_env_ok E" and wf: "store_wf E d" and a: "activeSessionPolicyLocked E d c ow w = Inr (Some p)"
  shows "pol E d c ow (sp_id p) = Some p" and "candidate w p"
    and "pol E d c ow j = Some q \<Longrightarrow> candidate w q \<Longrightarrow> q = p"
proof -
  from a obtain ps where l: "ListSessionPolicies E d c ow = Inr ps" and s: "active_scan w None ps = Inr (Some p)"
    by (auto simp: activeSessionPolicyLocked_def)
  have f: "set (filter (candidate w) ps) = {p}" using active_scan_one [OF s] by simp
  then have p: "p \<in> set ps" "candidate w p" by auto
  then show "pol E d c ow (sp_id p) = Some p" "candidate w p" using List_pol [OF ok wf l] by auto
  show "q = p" if "pol E d c ow j = Some q" "candidate w q"
    using that f List_spec(2) [OF ok wf l] by auto
qed

definition window_verified :: "window_verifier option \<Rightarrow> session_policy \<Rightarrow> bool" where
  "window_verified verifyWindow p \<longleftrightarrow> (\<forall>v g runner. verifyWindow = Some v \<longrightarrow> sp_grant p = Some g \<longrightarrow> Applied (Some g) \<longrightarrow>
     \<not> chain_window_checked g \<longrightarrow> 0 < sp_valid_until p \<longrightarrow> sp_runner p = Some runner \<longrightarrow> sp_owner p \<noteq> None \<longrightarrow>
     (\<exists>after. v (sp_chain_id p) runner (sp_entity_id p) = Inr (of_int (sp_valid_until p div 1000), after)))"

lemma check_window_ok:
  assumes "checkAppliedChainWindow E d (Some p) v = (d', Inr ())"
  shows "window_verified v p"
  using assms
  by (auto simp: window_verified_def checkAppliedChainWindow_def split: option.splits if_splits sum.splits prod.splits)

lemma resolver_spec:
  assumes ok: "auth_env_ok E" and wf: "store_wf E d"
    and r: "newSessionResolver C E now cfg v d c ow w = (d', Inr (Some a))"
  obtains p g where "pol E d c ow (sa_policy_id a) = Some p" "candidate w p" "sp_grant p = Some g"
    "\<And>j q. pol E d c ow j = Some q \<Longrightarrow> candidate w q \<Longrightarrow> q = p" "\<not> Expired (Some p) now" "window_verified v p"
    "cfg = session_signer p" "cfg \<noteq> None" "sa_entity a = sp_entity_id p" "resolve_deferred C p g = Inr (sa_deferred a)"
proof -
  from r obtain p x where a: "activeSessionPolicyLocked E d c ow w = Inr (Some p)" and e: "\<not> Expired (Some p) now"
    and ch: "checkAppliedChainWindow E d (Some p) v = (d', Inr ())"
    and o: "(case (session_signer p, sp_grant p) of
                (Some signer, Some g) \<Rightarrow>
                  bindE (configuredSessionSigner cfg signer) (\<lambda>_.
                  bindE (resolve_deferred C p g) (\<lambda>dfr.
                    Inr (Some \<lparr>sa_entity = sp_entity_id p, sa_policy_id = sp_id p,
                      wrap_execute_user_op = requires_execute_user_op g, sa_deferred = dfr\<rparr>)))
              | _ \<Rightarrow> Inl NilSigner) = Inr (Some a)"
    by (auto simp: newSessionResolver_def split: sum.splits option.splits if_splits prod.splits)
  note s = active_spec [OF ok wf a]
  from o obtain g where g: "sp_grant p = Some g" "cfg = session_signer p" "cfg \<noteq> None"
    "sa_entity a = sp_entity_id p" "sa_policy_id a = sp_id p" "resolve_deferred C p g = Inr (sa_deferred a)"
    by (auto simp: configuredSessionSigner_def split: option.splits if_splits)
  show thesis
    by (rule that [OF _ s(2) g(1) s(3) e check_window_ok [OF ch] g(2,3,4,6)]) (use s(1) g(5) in simp_all)
qed

section \<open>Locks\<close>

lemma first_of_each_set: "set (first_of_each seen ms) = set ms - set seen"
  and first_of_each_distinct: "distinct (first_of_each seen ms)"
proof (induction ms arbitrary: seen)
  case (Cons m ms)
  { case 1 show ?case using Cons.IH(1) by auto }
  { case 2 show ?case using Cons.IH by auto }
qed auto

lemma ordered_locks:
  "sorted_wrt (<) (orderedSessionLocks cs ow w)"
  "set (orderedSessionLocks cs ow w) = (\<lambda>c. sessionAuthorityShard c ow w) ` set cs"
  by (simp_all add: orderedSessionLocks_def strict_sorted_iff first_of_each_set first_of_each_distinct)

lemma shard_bound: "sessionAuthorityShard c ow w < sessionAuthorityLockShards"
  by (simp add: sessionAuthorityShard_def sessionAuthorityLockShards_def)

text \<open>
  A request that takes several locks takes them in the order of its list and holds the first \<open>k\<close> of them
  while it waits for the next.
\<close>

record lock_request =
  lr_chains :: "int list"
  lr_owner :: address
  lr_wallet :: address
  lr_held :: nat

definition request_locks :: "lock_request \<Rightarrow> nat list" where
  "request_locks q = orderedSessionLocks (lr_chains q) (lr_owner q) (lr_wallet q)"

definition waits_for :: "lock_request \<Rightarrow> lock_request \<Rightarrow> bool" where
  "waits_for q r \<longleftrightarrow> lr_held q < length (request_locks q) \<and>
     request_locks q ! lr_held q \<in> set (take (lr_held r) (request_locks r))"

lemma held_below:
  assumes "m \<in> set (take (lr_held r) (request_locks r))" and "lr_held r < length (request_locks r)"
  shows "m < request_locks r ! lr_held r"
proof -
  from assms obtain k where "k < lr_held r" "m = request_locks r ! k" by (auto simp: in_set_conv_nth)
  with assms(2) show ?thesis
    using sorted_wrt_nth_less [OF ordered_locks(1), of k "lr_held r"] by (simp add: request_locks_def)
qed

lemma waits_increasing: "waits_for q r \<Longrightarrow> waits_for r s \<Longrightarrow> request_locks q ! lr_held q < request_locks r ! lr_held r"
  by (auto simp: waits_for_def intro: held_below)

lemma wait_chain: "waits_for\<^sup>+\<^sup>+ q r \<Longrightarrow> waits_for r s \<Longrightarrow> request_locks q ! lr_held q < request_locks r ! lr_held r"
proof (induction arbitrary: s rule: tranclp_induct)
  case (base y)
  then show ?case by (rule waits_increasing)
next
  case (step y z)
  have "request_locks q ! lr_held q < request_locks y ! lr_held y" by (rule step.IH [OF step.hyps(2)])
  also have "\<dots> < request_locks z ! lr_held z" by (rule waits_increasing [OF step.hyps(2) step.prems])
  finally show ?case .
qed

section \<open>A store for the examples\<close>

text \<open>JSON as a finite table over the in-memory store.\<close>

definition table_env :: "(bytes \<times> session_policy) list \<Rightarrow> (bytes \<times> bytes) list auth_env" where
  "table_env T = \<lparr>au_badger = mem_badger, policy_to_json = (\<lambda>p. map_option fst (find (\<lambda>(v, q). q = p) T)),
     policy_from_json = map_of T, from_hex = id, utf8 = ascii\<rparr>"

lemma table_env_sel [simp]: "au_badger (table_env T) = mem_badger" "policy_from_json (table_env T) = map_of T"
  "from_hex (table_env T) = id" "utf8 (table_env T) = ascii"
  by (simp_all add: table_env_def)

lemma table_env_ok:
  assumes "distinct (map fst T)" and "\<forall>(v, p) \<in> set T. list_all ascii (policy_texts p)"
  shows "auth_env_ok (table_env T)"
proof -
  have "text_ok (table_env T) p" if "map_of T v = Some p" for v p
    using map_of_SomeD [OF that] assms(2) by (auto simp: text_ok_def)
  moreover have "map_of T v = Some p" if "policy_to_json (table_env T) p = Some v" for v p
  proof -
    from that obtain q where "find (\<lambda>(v, q). q = p) T = Some (v, q)" by (auto simp: table_env_def)
    then have "(v, p) \<in> set T" by (auto simp: find_Some_iff in_set_conv_nth)
    with assms(1) show ?thesis by (simp add: map_of_is_SomeI)
  qed
  ultimately show ?thesis by (simp add: auth_env_ok_def mem_badger_ok)
qed

lemma mem_List_Nil [simp]: "ListSessionPolicies (table_env T) [] c ow = Inr []"
  by (simp add: ListSessionPolicies_def GetByPrefix_def View_def mem_badger_def iter_prefix_def seek_def valid_for_prefix_def)

lemma mem_List_one:
  assumes "map_of T v = Some p"
  shows "ListSessionPolicies (table_env T) [(SessionPolicyKey c ow i, v)] c ow = Inr [p]"
proof -
  have "prefix (SessionPolicyPrefix c ow) (SessionPolicyKey c ow i)" unfolding prefix_key by blast
  moreover have "iter_keys mem_badger [(SessionPolicyKey c ow i, v)] = [SessionPolicyKey c ow i]" by (simp add: mem_badger_def)
  ultimately have "iter_prefix mem_badger [(SessionPolicyKey c ow i, v)] (SessionPolicyPrefix c ow) = [SessionPolicyKey c ow i]"
    by (simp add: iter_prefix_filter [OF mem_badger_ok])
  then show ?thesis using assms by (simp add: ListSessionPolicies_def GetByPrefix_def View_def) (simp add: mem_badger_def)
qed

lemma mem_pol_one: "pol (table_env T) [(SessionPolicyKey c ow i, v)] c' ow' j =
    (if c' = c \<and> ow' = ow \<and> j = i then map_of T v else None)"
  by (auto simp: pol_def rows_of_def mem_badger_def)

lemma mem_inv_one:
  assumes "map_of T v = Some p" and "keyed p c ow i" and "to_lower i = i" and "PolicyValidate id p = Inr ()"
  shows "grant_inv (table_env T) [(SessionPolicyKey c ow i, v)]"
proof -
  have "store_wf (table_env T) [(SessionPolicyKey c ow i, v)]"
    using assms by (auto simp: store_wf_def rows_of_def mem_badger_def split: if_splits)
  moreover have "entities_unique (table_env T) [(SessionPolicyKey c ow i, v)]"
    by (auto simp: entities_unique_def mem_pol_one split: if_splits)
  ultimately show ?thesis using assms(3) by (auto simp: grant_inv_def lower_ids_def mem_pol_one split: if_splits)
qed

lemma mem_inv_Nil: "grant_inv (table_env T) []" "all_signed A (table_env T) []" "pol (table_env T) [] c ow i = None"
  by (simp_all add: grant_inv_def store_wf_def entities_unique_def lower_ids_def all_signed_def pol_def rows_of_def mem_badger_def)

definition live_policy :: session_policy where
  "live_policy = example_policy\<lparr>sp_grant := Some (example_grant\<lparr>owner_signature := replicate 65 (CHR ''s''), applied_at := 5\<rparr>),
     sp_status := SessionPolicyActive\<rparr>"

definition live_env :: "(bytes \<times> bytes) list auth_env" where
  "live_env = table_env [(''P'', live_policy), (''R'', live_policy\<lparr>sp_status := SessionPolicyRevoked\<rparr>)]"

definition live_store :: "(bytes \<times> bytes) list" where
  "live_store = [(SessionPolicyKey 1 1 ''p'', ''P'')]"

definition sample_aa :: aa_env where
  "sample_aa = \<lparr>aa_codec = unary_codec, aa_keccak = id, SigToAddress = (\<lambda>_ _. Inr 1)\<rparr>"

lemmas live_simps = live_policy_def example_policy_def example_grant_def

lemma live_lower: "to_lower ''p'' = ''p''"
  by (simp add: to_lower_def lower_char_def)

lemma live_env_ok: "auth_env_ok live_env"
  unfolding live_env_def
  by (rule table_env_ok) (simp_all add: live_simps policy_texts_def ascii_def policy_constants)

lemma live_inv: "grant_inv live_env live_store"
  unfolding live_env_def live_store_def
  by (rule mem_inv_one [where p = live_policy])
    (simp_all add: live_lower, simp_all add: live_simps keyed_def PolicyValidate_def no_address_def zero_address_def policy_constants)

lemma live_pol: "pol live_env live_store c ow i = (if c = 1 \<and> ow = 1 \<and> i = ''p'' then Some live_policy else None)"
  by (simp add: live_env_def live_store_def mem_pol_one)

lemma live_signed: "all_signed sample_aa live_env live_store"
proof -
  have "owner_signed sample_aa live_policy"
    by (simp add: owner_signed_def live_simps sample_aa_def DeferredActionDigest_def maxDeadline_def verifyGrantSignature_def Let_def)
  then show ?thesis by (auto simp: all_signed_def live_pol split: if_splits)
qed

section \<open>Properties\<close>

text \<open>
C30: Every store of session grants that the operations on grants (preview, submit, revoke, resolve, applied, refresh and
retire) reach from a well-formed one, in any order and with any storage failures in between, is well formed: each row
under a policy key decodes to a policy that validates and carries the chain, the owner and the (lower-case) id it is
stored under, and no two grants of a wallet, usable or revoked, occupy the same validation entity. The budget operations
are not among them: a submitted wallet budget is stored as a pending policy without being validated.
\<close>

theorem grant_store_well_formed:
  assumes "auth_env_ok E" and "grant_inv E d" and "(grant_step A E T)\<^sup>*\<^sup>* d d'"
  shows "(\<forall>c ow i v. rows_of (au_badger E) d' (SessionPolicyKey c ow i) = Some v \<longrightarrow>
      (\<exists>p. policy_from_json E v = Some p \<and> sp_chain_id p = c \<and> sp_owner p = Some ow \<and> sp_id p = i \<and> to_lower i = i \<and>
         PolicyValidate (from_hex E) p = Inr ())) \<and>
    (\<forall>c ow i j p q. pol E d' c ow i = Some p \<longrightarrow> pol E d' c ow j = Some q \<longrightarrow>
       sp_runner p = sp_runner q \<longrightarrow> sp_entity_id p = sp_entity_id q \<longrightarrow> i = j)"
proof (intro conjI allI impI)
  have inv: "store_wf E d'" "entities_unique E d'" "lower_ids E d'"
    using reach_inv [OF assms(3,1,2)] by (simp_all add: grant_inv_def)
  show "i = j" if "pol E d' c ow i = Some p" "pol E d' c ow j = Some q" "sp_runner p = sp_runner q"
    "sp_entity_id p = sp_entity_id q" for c ow i j p q
    using that inv(2) unfolding entities_unique_def by blast
  fix c ow i v assume r: "rows_of (au_badger E) d' (SessionPolicyKey c ow i) = Some v"
  then obtain p where p: "policy_from_json E v = Some p" "keyed p c ow i" "PolicyValidate (from_hex E) p = Inr ()"
    using store_wfD [OF inv(1) r] by blast
  then have "pol E d' c ow i = Some p" using r by (simp add: pol_def)
  then have "to_lower i = i" using inv(3) unfolding lower_ids_def by blast
  with p show "\<exists>p. policy_from_json E v = Some p \<and> sp_chain_id p = c \<and> sp_owner p = Some ow \<and> sp_id p = i \<and> to_lower i = i \<and>
      PolicyValidate (from_hex E) p = Inr ()" by (auto simp: keyed_def)
qed

theorem grant_store_well_formed_witness:
  "\<exists>d'. auth_step sample_aa live_env TYPE(unit) RevokeEv live_store d' \<and>
     (\<forall>i j p q. pol live_env d' 1 1 i = Some p \<longrightarrow> pol live_env d' 1 1 j = Some q \<longrightarrow>
        sp_runner p = sp_runner q \<longrightarrow> sp_entity_id p = sp_entity_id q \<longrightarrow> i = j)"
proof -
  obtain d' r where "RevokeSessionPolicyByID sample_aa live_env True None live_store 1 1 2 ''p'' = (d', r)" by fastforce
  then have st: "auth_step sample_aa live_env TYPE(unit) RevokeEv live_store d'" by (rule auth_step.revoke)
  have rt: "(grant_step sample_aa live_env TYPE(unit))\<^sup>*\<^sup>* live_store d'"
    using st unfolding grant_step_def by (intro r_into_rtranclp) blast
  from st conjunct2 [OF grant_store_well_formed [OF live_env_ok live_inv rt]] show ?thesis by blast
qed

text \<open>
C31: A stored session grant only loses authority. Whatever the operations on grants do (preview, submit, revoke, resolve,
applied, refresh and retire), in any order, as long as no submit stores a grant under the id of this one and no budget
operation runs, its row stays stored; the wallet, the entity, the session key, the end and everything the owner signed
stay the same; a revoked grant stays revoked and is never usable again, a recorded teardown is never forgotten, and a
grant that is not usable never becomes usable. (A submit under the id of a stored grant replaces its row, and the
activation of a wallet budget makes a pending policy usable.)
\<close>

theorem grants_only_lose_authority:
  assumes "auth_env_ok E" and "grant_inv E d" and "(grant_step_beside A E T c ow i)\<^sup>*\<^sup>* d d'" and "pol E d c ow i = Some p"
  shows "\<exists>p'. pol E d' c ow i = Some p' \<and> sp_runner p' = sp_runner p \<and> sp_entity_id p' = sp_entity_id p \<and>
    session_signer p' = session_signer p \<and> sp_valid_until p' = sp_valid_until p \<and> signed_part p' = signed_part p \<and>
    (sp_status p = SessionPolicyRevoked \<longrightarrow> sp_status p' = SessionPolicyRevoked \<and> \<not> Usable (Some p')) \<and>
    (TornDown (sp_grant p) \<longrightarrow> TornDown (sp_grant p')) \<and> (Usable (Some p') \<longrightarrow> Usable (Some p))"
proof -
  obtain p' where p': "pol E d' c ow i = Some p'" "evolves p p'" using reach_evolves [OF assms(3,1,2,4)] by blast
  have "\<not> Usable (Some p')" if "sp_status p' = SessionPolicyRevoked"
    using that by (simp add: Usable_def policy_constants)
  with p' show ?thesis unfolding evolves_def by blast
qed

theorem grants_only_lose_authority_witness:
  "\<exists>d' p'. auth_step sample_aa live_env TYPE(unit) RevokeEv live_store d' \<and> pol live_env d' 1 1 ''p'' = Some p' \<and>
     sp_entity_id p' = 3 \<and> signed_part p' = signed_part live_policy"
proof -
  obtain d' r where "RevokeSessionPolicyByID sample_aa live_env True None live_store 1 1 2 ''p'' = (d', r)" by fastforce
  then have st: "auth_step sample_aa live_env TYPE(unit) RevokeEv live_store d'" by (rule auth_step.revoke)
  have p: "pol live_env live_store 1 1 ''p'' = Some live_policy" by (simp add: live_pol)
  have rt: "(grant_step_beside sample_aa live_env TYPE(unit) 1 1 ''p'')\<^sup>*\<^sup>* live_store d'"
    using st unfolding grant_step_beside_def by (intro r_into_rtranclp) blast
  have "sp_entity_id live_policy = 3" by (simp add: live_simps)
  with grants_only_lose_authority [OF live_env_ok live_inv rt p] st show ?thesis by auto
qed

text \<open>
C32: What the send path is handed for signed grants. When the store was reached by the operations on grants (preview,
submit, revoke, resolve, applied, refresh and retire) from one that is well formed and whose grants are all signed by
their owners, the session resolver returns an authorization only for the one usable grant of the wallet, before its end,
with the window the chain reports (when it is asked) equal to the stored one and the configured session key equal to the
key of the grant; the grant carries a signature that recovers to the wallet's owner over the digest of the grant's own
chain, wallet, nonce, deadline and install call; and the install rides along exactly until it has been applied. Activated
wallet budgets, which the owner installed on chain, carry no such signature and are outside this.
\<close>

theorem authorization_is_owner_signed:
  assumes ok: "auth_env_ok E" and inv: "grant_inv E d" and sig: "all_signed A E d" and st: "(grant_step A E T)\<^sup>*\<^sup>* d d'"
    and r: "newSessionResolver C E now cfg v d' c ow w = (d'', Inr (Some a))"
  shows "\<exists>p g digest. pol E d' c ow (sa_policy_id a) = Some p \<and> sp_runner p = Some w \<and> Usable (Some p) \<and> \<not> Expired (Some p) now \<and>
    (\<forall>j q. pol E d' c ow j = Some q \<longrightarrow> sp_runner q = Some w \<longrightarrow> Usable (Some q) \<longrightarrow> q = p) \<and> window_verified v p \<and>
    cfg = session_signer p \<and> sa_entity a = sp_entity_id p \<and> sp_grant p = Some g \<and>
    (sa_deferred a = None \<longleftrightarrow> Applied (Some g)) \<and>
    DeferredActionDigest (aa_keccak A) (Some c) w (carrier_nonce g) (grant_deadline g) (install_call g) = Inr digest \<and>
    verifyGrantSignature A digest (owner_signature g) ow = Inr ()"
proof -
  have wf: "store_wf E d'" using reach_inv [OF st ok inv] by (simp add: grant_inv_def)
  obtain p g where p: "pol E d' c ow (sa_policy_id a) = Some p" "candidate w p" "sp_grant p = Some g"
    "\<And>j q. pol E d' c ow j = Some q \<Longrightarrow> candidate w q \<Longrightarrow> q = p" "\<not> Expired (Some p) now" "window_verified v p"
    "cfg = session_signer p" "sa_entity a = sp_entity_id p" "resolve_deferred C p g = Inr (sa_deferred a)"
    using resolver_spec [OF ok wf r] by metis
  have k: "sp_chain_id p = c" "sp_owner p = Some ow" using store_wf_pol(1) [OF wf p(1)] by (simp_all add: keyed_def)
  have w: "sp_runner p = Some w" "Usable (Some p)" using p(2) by (simp_all add: candidate_def on_runner_def)
  have "owner_signed A p" using reach_signed [OF st ok inv sig] p(1) unfolding all_signed_def by blast
  then obtain digest where
    "DeferredActionDigest (aa_keccak A) (Some c) w (carrier_nonce g) (grant_deadline g) (install_call g) = Inr digest"
    "verifyGrantSignature A digest (owner_signature g) ow = Inr ()"
    by (auto simp: owner_signed_def k w p(3) split: sum.splits)
  moreover have "sa_deferred a = None \<longleftrightarrow> Applied (Some g)"
    using p(9) by (cases "sa_deferred a") (auto simp: resolve_deferred_def split: if_splits sum.splits)
  moreover have "\<forall>j q. pol E d' c ow j = Some q \<longrightarrow> sp_runner q = Some w \<longrightarrow> Usable (Some q) \<longrightarrow> q = p"
    using p(4) by (simp add: candidate_def on_runner_def)
  ultimately show ?thesis using p(1,3,5-8) w
    by (intro exI [of _ p] exI [of _ g] exI [of _ digest] conjI) assumption+
qed

theorem authorization_is_owner_signed_witness:
  "\<exists>a. newSessionResolver unary_codec live_env 7 (Some 4) None live_store 1 1 2 = (live_store, Inr (Some a)) \<and>
     sa_policy_id a = ''p'' \<and> sa_deferred a = None \<and>
     (\<exists>digest. verifyGrantSignature sample_aa digest (replicate 65 (CHR ''s'')) 1 = Inr ())"
proof -
  have "ListSessionPolicies live_env live_store 1 1 = Inr [live_policy]"
    unfolding live_env_def live_store_def by (rule mem_List_one) simp
  then have "activeSessionPolicyLocked live_env live_store 1 1 2 = Inr (Some live_policy)"
    by (simp add: activeSessionPolicyLocked_def) (simp add: live_simps on_runner_def Usable_def policy_constants)
  then obtain a where a: "newSessionResolver unary_codec live_env 7 (Some 4) None live_store 1 1 2 = (live_store, Inr (Some a))"
    and i: "sa_policy_id a = ''p''"
    by (simp add: newSessionResolver_def)
      (simp add: live_simps Expired_def checkAppliedChainWindow_def configuredSessionSigner_def resolve_deferred_def Applied_def)
  have g: "sp_grant live_policy = Some (example_grant\<lparr>owner_signature := replicate 65 (CHR ''s''), applied_at := 5\<rparr>)"
    by (simp add: live_policy_def)
  from authorization_is_owner_signed [OF live_env_ok live_inv live_signed rtranclp.rtrancl_refl [of "grant_step sample_aa live_env TYPE(unit)"] a] a i show ?thesis
    by (auto simp: live_pol g Applied_def)
qed

text \<open>
C33: A submit that succeeds, on a well-formed store, leaves exactly one usable grant on the wallet, the one it stored: it
is signed by the owner over its own fields and held by the server's session key; every other grant of the owner keeps its
record (with its entity and what was signed), and those that were usable on the wallet no longer are; only a grant that
was stored under the very id of the submit is replaced by the new one; and the lookup of the send path returns the stored
grant unless the read itself fails.
\<close>

theorem submit_makes_sole_grant:
  assumes ok: "auth_env_ok E" and inv: "grant_inv E d" and rq: "request_ok E i rq m"
    and s: "SubmitSessionPolicy K A E now d c i en base rq m sig = (d', Inr (stored, ids))"
  shows "pol E d' c (rq_owner rq) (to_lower i) = Some stored \<and> Usable (Some stored) \<and> owner_signed A stored \<and>
    (\<exists>signer. session_signer stored = Some signer \<and> sk_signer K = Inr signer) \<and>
    (\<forall>j q. pol E d' c (rq_owner rq) j = Some q \<longrightarrow> candidate (rq_wallet rq) q \<longrightarrow> q = stored) \<and>
    (\<forall>j p. pol E d c (rq_owner rq) j = Some p \<longrightarrow> j \<noteq> to_lower i \<longrightarrow> (\<exists>p'. pol E d' c (rq_owner rq) j = Some p' \<and> evolves p p' \<and>
       (candidate (rq_wallet rq) p \<longrightarrow> \<not> Usable (Some p')))) \<and>
    (case activeSessionPolicyLocked E d' c (rq_owner rq) (rq_wallet rq) of
       Inl e \<Rightarrow> \<exists>x. e = ListErr x | Inr r \<Rightarrow> r = Some stored)"
proof -
  let ?ow = "rq_owner rq" and ?w = "rq_wallet rq" and ?i = "to_lower i"
  obtain d1 d2 where e: "evolve E d d1" and ins: "inserted E d1 d2 stored c ?ow ?i" and o: "owner_signed A stored"
    and ca: "candidate ?w stored" and sg: "Inr (the (session_signer stored)) = sk_signer K" "session_signer stored \<noteq> None" and inv2: "grant_inv E d2" and inv': "grant_inv E d'"
    and pol': "\<And>j. pol E d' c ?ow j = map_option (superseded_by ?w ?i) (pol E d2 c ?ow j)"
    using submit_outcome [OF ok inv rq s] by blast
  have pol2: "pol E d2 c ?ow j = (if j = ?i then Some stored else pol E d1 c ?ow j)" for j
    using ins by (simp add: inserted_def)
  have id: "sp_id stored = ?i" using ins by (simp add: inserted_def keyed_def)
  have st: "pol E d' c ?ow ?i = Some stored"
    by (simp add: pol' pol2 superseded_by_def id equal_fold_def)
  have sole: "j = ?i" if q: "pol E d' c ?ow j = Some q" "candidate ?w q" for j q
  proof -
    from q(1) obtain q0 where q0: "pol E d2 c ?ow j = Some q0" "q = superseded_by ?w ?i q0" by (auto simp: pol')
    have "sp_id q0 = j" "to_lower j = j" using store_wf_pol(1) [OF _ q0(1)] q0(1) inv2
      unfolding grant_inv_def lower_ids_def keyed_def by blast+
    with superseded_by_candidate(1) [of ?w ?i q0] q(2) q0(2) show ?thesis by (simp add: equal_fold_def)
  qed
  have old: "\<exists>p'. pol E d' c ?ow j = Some p' \<and> evolves p p' \<and> (candidate ?w p \<longrightarrow> \<not> Usable (Some p'))"
    if p: "pol E d c ?ow j = Some p" and ji: "j \<noteq> ?i" for j p
  proof -
    obtain p1 where p1: "pol E d1 c ?ow j = Some p1" "evolves p p1" using evolve_fwd [OF e p] .
    from ji have p': "pol E d' c ?ow j = Some (superseded_by ?w ?i p1)" by (simp add: pol' pol2 p1)
    moreover have "\<not> Usable (Some (superseded_by ?w ?i p1))" if "candidate ?w p"
    proof
      assume u: "Usable (Some (superseded_by ?w ?i p1))"
      have "sp_runner (superseded_by ?w ?i p1) = sp_runner p" using p1(2) superseded_by_evolves [of p1 ?w ?i] by (simp add: evolves_def)
      with that u have "candidate ?w (superseded_by ?w ?i p1)" by (simp add: candidate_def on_runner_def)
      with sole [OF p'] ji show False by blast
    qed
    ultimately show ?thesis using evolves_trans [OF p1(2) superseded_by_evolves] by blast
  qed
  have wf': "store_wf E d'" using inv' by (simp add: grant_inv_def)
  have ac: "case activeSessionPolicyLocked E d' c ?ow ?w of Inl e \<Rightarrow> \<exists>x. e = ListErr x | Inr r \<Rightarrow> r = Some stored"
    by (rule active_sole [OF ok wf' st ca sole])
  have "\<forall>j q. pol E d' c ?ow j = Some q \<longrightarrow> candidate ?w q \<longrightarrow> q = stored" using sole st by fastforce
  moreover have "Usable (Some stored)" using ca by (simp add: candidate_def)
  moreover have "\<exists>signer. session_signer stored = Some signer \<and> sk_signer K = Inr signer" using sg by (cases "session_signer stored") auto
  ultimately show ?thesis using st o old ac by blast
qed

definition sample_request :: grant_request where
  "sample_request = \<lparr>rq_owner = 1, rq_wallet = 2, rq_entity = Some 3, rq_agent_label = [], rq_justification = [],
     rq_hooks = [], rq_hooks_for = Some (\<lambda>_. Inr (sg_hooks sample_grant)), rq_deadline = 9000, rq_selectors = [], rq_valid_until = 0,
     rq_signing_window = 0, rq_self_administration = False, rq_teardown_check = None, rq_occupancy_check = None,
     rq_teardowns = None\<rparr>"

definition sample_permissions :: session_permissions where
  "sample_permissions = \<lparr>budgetMode = False, pm_allowed_actions = [], pm_spend_cap = None, pm_spend_caps = [],
     pm_valid_until_ms = 0, pm_native_recipients = [], pm_delegated_native_recipients = [], pm_native_spend_cap = None,
     pm_allow_contract_recipient = False, pm_session_signer = None, pm_code_at = None\<rparr>"

definition sample_checks :: submit_checks where
  "sample_checks = \<lparr>sk_request = None, sk_ulid = True, sk_signer = Inr 4, sk_hold = None, sk_stateless = None, sk_coverage = (\<lambda>_. None)\<rparr>"

definition sample_stored :: "bytes \<Rightarrow> int \<Rightarrow> session_policy" where
  "sample_stored call nonce = (let p = attachDeclaredPermissions
       (prepared_policy 1000 1 4 ''p'' sample_request 3 (sg_hooks sample_grant) call nonce []) sample_permissions
     in p\<lparr>sp_grant := map_option (\<lambda>g. g\<lparr>owner_signature := replicate 65 (CHR ''s'')\<rparr>) (sp_grant p)\<rparr>)"

lemma sample_nonce: "\<exists>n. EncodeNonceMAv2 3 deferred_options 0 = Inr n \<and> 0 \<le> n \<and> n < 2 ^ 256"
  by (simp add: EncodeNonceMAv2_def deferred_options_def direct_call_def ValidationOptionGlobal_def ValidationOptionDeferredAction_def)

lemma sample_call: "PackSessionSignerInstall unary_codec sample_grant = Inr call \<Longrightarrow> 4 \<le> length call"
  by (auto simp: PackSessionSignerInstall_def PackInstallValidation_def unary_codec_def)

lemma sample_prepare:
  assumes i: "PackSessionSignerInstall unary_codec sample_grant = Inr call"
    and n: "EncodeNonceMAv2 3 deferred_options 0 = Inr n" "0 \<le> n" "n < 2 ^ 256"
  obtains pr where "PrepareSessionGrant sample_aa (table_env T) 1000 [] 1 4 ''p'' (submit_request 3 [] sample_request) = ([], Inr pr)"
    "pr_policy pr = prepared_policy 1000 1 4 ''p'' sample_request 3 (sg_hooks sample_grant) call n []" "pr_supersedes pr = []"
proof -
  have g: "grant_of_request (submit_request 3 [] sample_request) 3 4 (sg_hooks sample_grant) = sample_grant"
    by (simp add: grant_of_request_def sample_request_def submit_request_def sample_grant_def)
  have e: "request_entity (table_env T) [] 1 (submit_request 3 [] sample_request) = Inr 3"
    by (simp add: request_entity_def verifySessionEntityAvailable_def sessionEntityTaken_def sample_request_def submit_request_def liftA_def)
  let ?rq = "submit_request 3 [] sample_request"
  have dl: "grant_deadline_of 1000 ?rq = 9000" by (simp add: grant_deadline_of_def sample_request_def submit_request_def)
  obtain dg where dg: "DeferredActionDigest (aa_keccak sample_aa) (Some 1) (rq_wallet ?rq) (Some n) 9000 call = Inr dg"
    using n by (simp add: DeferredActionDigest_def maxDeadline_def)
  obtain dat where dat: "EncodeDeferredActionData FallbackSignerLocator 9000 call = Inr dat"
    using sample_call [OF i] by (simp add: EncodeDeferredActionData_def maxDeadline_def)
  have "prepared_policy 1000 1 4 ''p'' ?rq 3 (sg_hooks sample_grant) call n [] =
      prepared_policy 1000 1 4 ''p'' sample_request 3 (sg_hooks sample_grant) call n []"
    by (simp add: prepared_policy_def grant_deadline_of_def grant_of_request_def sample_request_def submit_request_def)
  then obtain pr where pr: "build_prepared sample_aa 1000 1 4 ''p'' ?rq 3 (sg_hooks sample_grant) call [] = Inr pr"
    and p: "pr_policy pr = prepared_policy 1000 1 4 ''p'' sample_request 3 (sg_hooks sample_grant) call n []" "pr_supersedes pr = []"
    using n(1) dg dat by (simp add: build_prepared_def deferred_call_def dl Let_def liftO_def)
  have h: "request_hooks ?rq 3 = Inr (sg_hooks sample_grant)" by (simp add: request_hooks_def sample_request_def submit_request_def)
  have td: "rq_teardowns ?rq = Some []" by (simp add: submit_request_def)
  have z: "rq_owner ?rq \<noteq> zero_address" "rq_wallet ?rq \<noteq> zero_address" "(4 :: address) \<noteq> zero_address"
    by (simp_all add: sample_request_def submit_request_def zero_address_def)
  have "PrepareSessionGrant sample_aa (table_env T) 1000 [] 1 4 ''p'' ?rq = ([], Inr pr)"
    using z e h i pr g td by (simp add: PrepareSessionGrant_def liftC_def sample_aa_def)
  with p that show thesis by blast
qed

lemma sample_stored_sel:
  "sp_id (sample_stored call n) = ''p''" "sp_owner (sample_stored call n) = Some 1" "sp_runner (sample_stored call n) = Some 2"
  "sp_chain_id (sample_stored call n) = 1"
  by (simp_all add: sample_stored_def Let_def prepared_policy_def sample_request_def submit_request_def)

lemma sample_stored_valid:
  assumes "4 \<le> length call"
  shows "PolicyValidate id (sample_stored call n) = Inr ()" and "list_all ascii (policy_texts (sample_stored call n))"
  using assms
  by (auto simp: sample_stored_def attachDeclaredPermissions_def sample_permissions_def prepared_policy_def Let_def
      sample_request_def submit_request_def PolicyValidate_def no_address_def zero_address_def policy_texts_def ascii_def policy_constants)

theorem submit_makes_sole_grant_witness:
  "\<exists>(E :: (bytes \<times> bytes) list auth_env) d' stored ids. SubmitSessionPolicy sample_checks sample_aa E 1000 [] 1 ''p'' 3 None sample_request sample_permissions
      (replicate 65 (CHR ''s'')) = (d', Inr (stored, ids)) \<and> pol E d' 1 1 ''p'' = Some stored \<and> owner_signed sample_aa stored"
proof -
  obtain call where call: "PackSessionSignerInstall unary_codec sample_grant = Inr call" using sample_install by blast
  obtain n where n: "EncodeNonceMAv2 3 deferred_options 0 = Inr n" "0 \<le> n" "n < 2 ^ 256" using sample_nonce by blast
  note len = sample_call [OF call]
  let ?S = "sample_stored call n" and ?sig = "replicate 65 (CHR ''s'')" and ?d = "[(SessionPolicyKey 1 1 ''p'', ''S'')]"
  define E where "E = table_env [(''S'', ?S)]"
  have ok: "auth_env_ok E" unfolding E_def by (rule table_env_ok) (use sample_stored_valid(2) [OF len] in simp_all)
  have inv: "grant_inv E []" "pol E [] 1 (rq_owner sample_request) (to_lower ''p'') = None"
    unfolding E_def by (rule mem_inv_Nil)+
  have rq: "request_ok E ''p'' sample_request sample_permissions"
    by (simp add: request_ok_def live_lower E_def sample_request_def submit_request_def permission_texts_def sample_permissions_def) (simp add: ascii_def)
  have nil: "ListSessionPolicies E [] 1 1 = Inr []" by (simp add: E_def)
  obtain pr where pr: "PrepareSessionGrant sample_aa E 1000 [] 1 4 ''p'' (submit_request 3 [] sample_request) = ([], Inr pr)"
    "pr_policy pr = prepared_policy 1000 1 4 ''p'' sample_request 3 (sg_hooks sample_grant) call n []" "pr_supersedes pr = []"
    using sample_prepare [OF call n] unfolding E_def by blast
  let ?pr = "pr\<lparr>pr_policy := attachDeclaredPermissions (pr_policy pr) sample_permissions\<rparr>"
  have stored: "StoreSessionPolicy E [] ?S = Inr ?d"
    using sample_stored_valid(1) [OF len, of n]
    by (simp add: StoreSessionPolicy_def E_def) (simp add: table_env_def sample_stored_sel StorageSet_def Update_def mem_badger_def)
  have fields: "sp_owner (pr_policy ?pr) = Some 1" "sp_runner (pr_policy ?pr) = Some 2" "sp_chain_id (pr_policy ?pr) = 1"
    "\<exists>g. sp_grant (pr_policy ?pr) = Some g \<and> (pr_policy ?pr)\<lparr>sp_grant := Some (g\<lparr>owner_signature := ?sig\<rparr>)\<rparr> = ?S"
    by (auto simp: pr(2) sample_stored_def Let_def prepared_policy_def sample_request_def submit_request_def)
  have "verifyGrantSignature sample_aa (pr_digest ?pr) ?sig 1 = Inr ()"
    by (simp add: verifyGrantSignature_def sample_aa_def Let_def)
  then have sub: "SubmitSessionGrant sample_aa E [] (Some ?pr) ?sig = Inr (?d, ?S)"
    using fields stored by (auto simp: SubmitSessionGrant_def sessionEntityTaken_def recheckSupersededGrant_def
        onChainTeardownTargets_def nil pr(3) Let_def liftA_def)
  have "ListSessionPolicies E ?d 1 1 = Inr [?S]" unfolding E_def by (rule mem_List_one) simp
  then have sup: "supersedeUsablePolicies E ?d 1 1 2 ''p'' = (?d, [], None)"
    by (simp add: supersedeUsablePolicies_def sample_stored_sel equal_fold_def)
  have tt: "resolveTeardownTargets E 1000 [] 1 1 2 None = ([], Inr [])"
    by (simp add: resolveTeardownTargets_def onChainTeardownTargets_def nil dropClearedTeardownTargets_def)
  have cur: "submit_current E [] 1 1 2 None = Inr None"
    by (simp add: submit_current_def activeSessionPolicyLocked_def nil)
  have gate: "submit_gate sample_checks 1000 ''p'' 9000 = Inr 4" by (simp add: submit_gate_def sample_checks_def word_le_nat_alt)
  have cov: "sk_coverage sample_checks None = None" by (simp add: sample_checks_def)
  have f: "rq_owner sample_request = 1" "rq_wallet sample_request = 2" "rq_deadline sample_request = 9000"
    "rq_teardown_check sample_request = None" by (simp_all add: sample_request_def submit_request_def)
  have s: "SubmitSessionPolicy sample_checks sample_aa E 1000 [] 1 ''p'' 3 None sample_request sample_permissions ?sig
      = (?d, Inr (?S, []))"
    using gate tt cur pr(1) sub sup cov
    by (simp add: SubmitSessionPolicy_def f live_lower submit_and_supersede_def sample_stored_sel)
  from submit_makes_sole_grant [OF ok inv(1) rq s] s show ?thesis
    unfolding f live_lower by blast
qed

text \<open>
The entity a new grant gets is fresh. When the allocator returns an entity it is not the owner's entity
zero, it is above the entity of every stored grant of the wallet (revoked ones included) and above the
retired floor, the chain reported it free when asked, and the walk over occupied entities went less than
256 steps up without wrapping. In particular an entity that was reserved as retired is never handed out
again.
\<close>

lemma entity_allocation_fresh:
  assumes ok: "auth_env_ok E" and inv: "grant_inv E d" and n: "NextFreeSessionEntityID E d c ow w chk = Inr e"
  shows "e \<noteq> 0 \<and> (\<forall>i p. pol E d c ow i = Some p \<longrightarrow> sp_runner p = Some w \<longrightarrow> sp_entity_id p < e) \<and>
    (\<forall>d0 gate retired. reserveRetiredSessionEntity E gate d0 c w retired = Inr d \<longrightarrow> retired < e) \<and>
    (\<forall>k. chk = Some k \<longrightarrow> k w e = Inr False) \<and>
    (\<exists>start. NextSessionEntityID E d c ow w = Inr start \<and> start \<le> e \<and> unat e < unat start + 256)"
proof -
  have wf: "store_wf E d" using inv by (simp add: grant_inv_def)
  obtain start where st: "NextSessionEntityID E d c ow w = Inr start" "start \<le> e" "unat e < unat start + maxEntityOccupancyWalk"
    and k: "\<And>k. chk = Some k \<Longrightarrow> k w e = Inr False"
    using NextFree_bound [OF n] by blast
  obtain ps f where ps: "ListSessionPolicies E d c ow = Inr ps" and f: "retiredSessionEntityFloor E d c w = Inr f"
    and b: "1 \<le> start" "f < start" "\<forall>p \<in> set ps. on_runner w p \<longrightarrow> sp_entity_id p < start"
    using NextSessionEntityID_bound [OF st(1)] by blast
  have "e \<noteq> 0" using b(1) st(2) by auto
  moreover have "sp_entity_id p < e" if "pol E d c ow i = Some p" "sp_runner p = Some w" for i p
    using that List_spec(2) [OF ok wf ps, of i p] b(3) st(2) less_le_trans by (auto simp: on_runner_def)
  moreover have "retired < e" if "reserveRetiredSessionEntity E gate d0 c w retired = Inr d" for gate d0 retired
    using retire_floor [OF ok that f] b(2) st(2) by simp
  ultimately show ?thesis using st k by (simp add: maxEntityOccupancyWalk_def)
qed

lemma entity_allocation_fresh_witness:
  "NextFreeSessionEntityID live_env live_store 1 1 2 (Some (\<lambda>_ e. Inr (e = 4))) = Inr 5 \<and>
   NextSessionEntityID live_env live_store 1 1 2 = Inr 4 \<and> sp_entity_id live_policy < 5"
proof -
  have l: "ListSessionPolicies live_env live_store 1 1 = Inr [live_policy]"
    unfolding live_env_def live_store_def by (rule mem_List_one) simp
  have f: "retiredSessionEntityFloor live_env live_store 1 2 = Inr 0"
    using retired_key_not_policy [of 1 2 1 1 "''p''"]
    by (simp add: retiredSessionEntityFloor_def GetKey_def View_def live_env_def live_store_def) (simp add: mem_badger_def)
  have n: "NextSessionEntityID live_env live_store 1 1 2 = Inr 4"
    by (simp add: NextSessionEntityID_def l f) (simp add: live_simps on_runner_def)
  have "occupancy_walk k w 4 (Suc (Suc m)) 0 0 0 None = Inr 5" if "k = (\<lambda>_ e. Inr (e = 4))" for k w m
    by (simp add: that)
  from this [OF refl, of 2 254] have "NextFreeSessionEntityID live_env live_store 1 1 2 (Some (\<lambda>_ e. Inr (e = 4))) = Inr 5"
    by (simp add: NextFreeSessionEntityID_def n maxEntityOccupancyWalk_def eval_nat_numeral)
  moreover note entity_allocation_fresh [OF live_env_ok live_inv this]
  moreover have "pol live_env live_store 1 1 ''p'' = Some live_policy" "sp_runner live_policy = Some 2"
    by (simp_all add: live_pol live_simps)
  ultimately show ?thesis using n by blast
qed

text \<open>
C34: The locks cannot deadlock. A request that needs the locks of several chains takes each lock once, in
strictly increasing order of its index, and no request waits, directly or through others, for itself.
\<close>

theorem lock_order_no_deadlock:
  "sorted_wrt (<) (orderedSessionLocks cs ow w) \<and>
   set (orderedSessionLocks cs ow w) = (\<lambda>c. sessionAuthorityShard c ow w) ` set cs \<and>
   set (orderedSessionLocks cs ow w) \<subseteq> {..<sessionAuthorityLockShards} \<and> \<not> waits_for\<^sup>+\<^sup>+ q q"
proof -
  have "\<not> waits_for\<^sup>+\<^sup>+ q q"
  proof
    assume c: "waits_for\<^sup>+\<^sup>+ q q"
    then obtain r where "waits_for q r" by (metis tranclpD)
    with wait_chain [OF c] show False by blast
  qed
  then show ?thesis using ordered_locks shard_bound by auto
qed

end
