(* ===== verification/Scheduler.thy ===== *)
theory Scheduler
  imports Prelude "HOL-Library.AList"
begin

text \<open>
  Running the graph of a workflow, \<open>core/taskengine/vm.go\<close>: \<open>Compile\<close>, the checks of \<open>Run\<close> and
  \<open>runKahnScheduler\<close>. What a node does when it executes is outside the model: executing a node ends, and a
  branch node may select one of its conditions, an await node may ask the run to suspend. A worker takes a node
  from the channel, executes it and then updates the schedule under the lock, so these are three steps of the
  machine \<open>kahn_step\<close>, which interleaves up to sixteen workers.
\<close>

section \<open>Graphs\<close>

datatype loop_runner = LoopContractWrite | LoopEthTransfer | LoopOther

text \<open>A branch node carries the ids of its conditions.\<close>

datatype vm_node = BranchNode "string list" | ContractWriteNode | EthTransferNode | LoopNode loop_runner | OtherNode

record task_edge =
  ed_id :: string
  ed_source :: string
  ed_target :: string

text \<open>\<open>TaskNodes\<close> is the Go map as a list with distinct keys; \<open>g_trigger\<close> is the id of the trigger, if there is one.\<close>

record graph =
  TaskNodes :: "(string \<times> vm_node) list"
  g_edges :: "task_edge list"
  g_trigger :: "string option"

definition node_ids :: "graph \<Rightarrow> string list" where
  "node_ids g = map fst (TaskNodes g)"

definition is_node :: "graph \<Rightarrow> string \<Rightarrow> bool" where
  "is_node g n \<longleftrightarrow> n \<in> set (node_ids g)"

definition branch_source :: "task_edge \<Rightarrow> bool" where
  "branch_source e \<longleftrightarrow> CHR ''.'' \<in> set (ed_source e)"

definition trigger_source :: "graph \<Rightarrow> task_edge \<Rightarrow> bool" where
  "trigger_source g e \<longleftrightarrow> g_trigger g = Some (ed_source e)"

definition has_trigger :: "graph \<Rightarrow> bool" where
  "has_trigger g \<longleftrightarrow> g_trigger g \<noteq> None \<and> g_trigger g \<noteq> Some []"

section \<open>Compile\<close>

datatype vm_state = VMStateInitialize | VMStateCompiled | VMStateReady | VMStateRunning | VMStateCompleted

datatype vm_error = NotInitializable vm_state | NilTask | EdgesWithoutNodes | EdgeSourceMissing string string
  | EdgeTargetMissing string string | NoRoot | TriggerWithoutEdges string | NoRootAfterTrigger | NoEntryPoint
  | CycleDetected nat nat | NotRunnable vm_state | NotCompiled | EntryPointUnset

record plan_step =
  step_node :: string
  step_next :: "string list"

record vm =
  vm_status :: vm_state
  entrypoint :: string
  plans :: "(string \<times> plan_step) list"
  vm_task :: "graph option"

definition compile_adj :: "graph \<Rightarrow> string \<Rightarrow> string list" where
  "compile_adj g s = map ed_target (filter (\<lambda>e. ed_source e = s) (g_edges g))"

fun check_edges :: "graph \<Rightarrow> task_edge list \<Rightarrow> vm_error + unit" where
  "check_edges g [] = Inr ()"
| "check_edges g (e # es) =
     (if \<not> branch_source e \<and> \<not> trigger_source g e \<and> \<not> is_node g (ed_source e)
      then Inl (EdgeSourceMissing (ed_source e) (ed_id e))
      else if \<not> is_node g (ed_target e) then Inl (EdgeTargetMissing (ed_target e) (ed_id e))
      else check_edges g es)"

fun in_degree :: "task_edge list \<Rightarrow> (string \<Rightarrow> int) \<Rightarrow> string \<Rightarrow> int" where
  "in_degree [] deg = deg"
| "in_degree (e # es) deg =
     in_degree es (if branch_source e then deg else deg(ed_target e := deg (ed_target e) + 1))"

definition branchTargets :: "graph \<Rightarrow> string \<Rightarrow> bool" where
  "branchTargets g n \<longleftrightarrow> list_ex (\<lambda>e. branch_source e \<and> ed_target e = n) (g_edges g)"

fun trigger_degree :: "string \<Rightarrow> task_edge list \<Rightarrow> (string \<Rightarrow> int) \<Rightarrow> string \<Rightarrow> int" where
  "trigger_degree t [] deg = deg"
| "trigger_degree t (e # es) deg =
     trigger_degree t es (if ed_source e = t then deg(ed_target e := deg (ed_target e) - 1) else deg)"

text \<open>\<open>ord\<close> is the order in which \<open>range\<close> visits the map of in-degrees.\<close>

definition roots :: "graph \<Rightarrow> string list \<Rightarrow> (string \<Rightarrow> int) \<Rightarrow> string list" where
  "roots g ord deg = filter (\<lambda>n. deg n = 0 \<and> \<not> branchTargets g n) ord"

fun relax :: "graph \<Rightarrow> string list \<Rightarrow> (string \<Rightarrow> int) \<Rightarrow> string list \<Rightarrow> (string \<Rightarrow> int) \<times> string list" where
  "relax g [] deg q = (deg, q)"
| "relax g (s # ss) deg q =
     (if is_node g s
      then (let deg' = deg(s := deg s - 1) in relax g ss deg' (if deg' s = 0 then q @ [s] else q))
      else relax g ss deg q)"

definition condition_id :: "string \<Rightarrow> string \<Rightarrow> string" where
  "condition_id n c = n @ ''.'' @ c"

definition add_plan :: "graph \<Rightarrow> string \<Rightarrow> (string \<times> plan_step) list \<Rightarrow> (string \<times> plan_step) list" where
  "add_plan g n ps = AList.update n \<lparr>step_node = n, step_next = compile_adj g n\<rparr> ps"

definition condition_plans :: "graph \<Rightarrow> string \<Rightarrow> (string \<times> plan_step) list \<Rightarrow> (string \<times> plan_step) list" where
  "condition_plans g n ps = (case map_of (TaskNodes g) n of
       Some (BranchNode cs) \<Rightarrow> foldl (\<lambda>m c. add_plan g (condition_id n c) m) ps cs
     | _ \<Rightarrow> ps)"

definition pending :: "graph \<Rightarrow> (string \<Rightarrow> int) \<Rightarrow> nat" where
  "pending g deg = card {n \<in> set (node_ids g). 0 < deg n}"

lemma relax_pending: "relax g ss deg q = (deg', q') \<Longrightarrow> pending g deg' + length q' \<le> pending g deg + length q"
proof (induction ss arbitrary: deg q)
  case (Cons s ss)
  show ?case
  proof (cases "is_node g s")
    case True
    let ?deg = "deg(s := deg s - 1)" and ?q = "if deg s - 1 = 0 then q @ [s] else q"
    have "relax g ss ?deg ?q = (deg', q')" using Cons.prems True by (simp add: Let_def)
    from Cons.IH [OF this] have le: "pending g deg' + length q' \<le> pending g ?deg + length ?q" .
    have fin: "finite {n \<in> set (node_ids g). 0 < deg n}" by simp
    have "pending g ?deg + length ?q \<le> pending g deg + length q"
    proof (cases "deg s = 1")
      case d: True
      then have s: "s \<in> {n \<in> set (node_ids g). 0 < deg n}" using True by (simp add: is_node_def)
      have "{n \<in> set (node_ids g). 0 < ?deg n} \<subseteq> {n \<in> set (node_ids g). 0 < deg n} - {s}" using d by auto
      then have "pending g ?deg \<le> card ({n \<in> set (node_ids g). 0 < deg n} - {s})"
        unfolding pending_def using fin by (intro card_mono) simp_all
      then have "pending g ?deg < pending g deg"
        using card_Diff1_less [OF fin s] unfolding pending_def by simp
      then show ?thesis using d by simp
    next
      case False
      have "pending g ?deg \<le> pending g deg" unfolding pending_def by (intro card_mono) (auto split: if_splits)
      then show ?thesis using False by simp
    qed
    with le show ?thesis by simp
  qed (use Cons in simp)
qed simp

function topo_loop :: "graph \<Rightarrow> (string \<Rightarrow> int) \<Rightarrow> string list \<Rightarrow> (string \<times> plan_step) list \<Rightarrow> nat \<Rightarrow> (string \<times> plan_step) list \<times> nat" where
  "topo_loop g deg [] ps n = (ps, n)"
| "topo_loop g deg (c # q) ps n =
     (case relax g (compile_adj g c) deg q of
        (deg', q') \<Rightarrow> topo_loop g deg' q' (condition_plans g c (add_plan g c ps)) (Suc n))"
  by pat_completeness auto
termination
  by (relation "measure (\<lambda>(g, deg, q, _). pending g deg + length q)") (auto dest!: relax_pending [OF sym])

definition compile_roots :: "string list \<Rightarrow> graph \<Rightarrow> string \<Rightarrow> vm_error + (string \<Rightarrow> int) \<times> string list" where
  "compile_roots ord g entry =
     (let deg = in_degree (g_edges g) (\<lambda>_. 0) in
      if \<not> has_trigger g
      then (if entry = [] then
              (let q = roots g ord deg in if q = [] \<and> TaskNodes g \<noteq> [] then Inl NoRoot else Inr (deg, q))
            else Inr (deg, []))
      else (let t = the (g_trigger g); deg' = trigger_degree t (g_edges g) deg in
        if \<not> list_ex (\<lambda>e. ed_source e = t) (g_edges g) \<and> TaskNodes g \<noteq> [] then Inl (TriggerWithoutEdges t)
        else (let q = roots g ord deg' in
          if q = [] \<and> TaskNodes g \<noteq> [] then Inl NoRootAfterTrigger else Inr (deg', q))))"

definition compile_entry :: "graph \<Rightarrow> string list \<Rightarrow> string \<Rightarrow> (string \<times> plan_step) list \<Rightarrow> vm_error + string \<times> (string \<times> plan_step) list" where
  "compile_entry g q entry ps =
     (if entry \<noteq> [] then Inr (entry, ps)
      else if has_trigger g then (let t = the (g_trigger g) in Inr (t, add_plan g t ps))
      else if q \<noteq> [] then Inr (hd q, ps)
      else if TaskNodes g \<noteq> [] then Inl NoEntryPoint else Inr (entry, ps))"

text \<open>
  The nodes the sort did not reach are planned without their conditions; the sort fails only when their number
  is not the number of nodes it did not process.
\<close>

definition compile_finish :: "graph \<Rightarrow> (string \<times> plan_step) list \<Rightarrow> nat \<Rightarrow> vm_error + (string \<times> plan_step) list" where
  "compile_finish g ps count =
     (let total_nodes = length (TaskNodes g); unreachable = filter (\<lambda>n. map_of ps n = None) (node_ids g) in
      if count = total_nodes then Inr ps
      else if int total_nodes - int count = int (length unreachable)
      then Inr (foldl (\<lambda>m n. add_plan g n m) ps unreachable)
      else Inl (CycleDetected count total_nodes))"

definition compile_graph :: "string list \<Rightarrow> graph \<Rightarrow> string \<Rightarrow> (string \<times> plan_step) list \<Rightarrow>
    (string \<times> (string \<times> plan_step) list) \<times> (vm_error + unit)" where
  "compile_graph ord g entry ps =
     (case bindE (check_edges g (g_edges g)) (\<lambda>_.
        bindE (compile_roots ord g entry) (\<lambda>(deg, q).
        bindE (compile_entry g q entry ps) (\<lambda>(entry', ps'). Inr (deg, q, entry', ps')))) of
        Inl e \<Rightarrow> ((entry, ps), Inl e)
      | Inr (deg, q, entry', ps') \<Rightarrow> (case topo_loop g deg q ps' 0 of (ps'', count) \<Rightarrow>
          (case compile_finish g ps'' count of
             Inl e \<Rightarrow> ((entry', ps''), Inl e) | Inr ps3 \<Rightarrow> ((entry', ps3), Inr ()))))"

definition Compile :: "string list \<Rightarrow> vm \<Rightarrow> vm \<times> (vm_error + unit)" where
  "Compile ord v =
     (if vm_status v \<notin> {VMStateInitialize, VMStateCompiled, VMStateReady} then (v, Inl (NotInitializable (vm_status v)))
      else let v1 = (if vm_status v = VMStateInitialize then v
             else v\<lparr>plans := [], entrypoint := [], vm_status := VMStateInitialize\<rparr>) in
        case vm_task v1 of
          None \<Rightarrow> if entrypoint v1 \<noteq> [] \<and> plans v1 \<noteq> [] then (v1\<lparr>vm_status := VMStateCompiled\<rparr>, Inr ())
            else (v1, Inl NilTask)
        | Some g \<Rightarrow>
            if TaskNodes g = [] \<and> g_edges g \<noteq> [] then (v1, Inl EdgesWithoutNodes)
            else if TaskNodes g = [] then (v1\<lparr>entrypoint := [], vm_status := VMStateCompiled\<rparr>, Inr ())
            else (case compile_graph ord g (entrypoint v1) (plans v1) of
                ((entry, ps), Inl e) \<Rightarrow> (v1\<lparr>entrypoint := entry, plans := ps\<rparr>, Inl e)
              | ((entry, ps), Inr _) \<Rightarrow> (v1\<lparr>entrypoint := entry, plans := ps, vm_status := VMStateCompiled\<rparr>, Inr ())))"

section \<open>Run\<close>

text \<open>
  Unlocking a mutex that is not locked is a fatal error of the runtime, here \<open>None\<close>. \<open>Run\<close> takes the VM's lock,
  and on its way to an automatic compile, or to the error for any other state, unlocks it twice.
\<close>

definition unlock :: "bool \<Rightarrow> bool option" where
  "unlock locked = (if locked then Some False else None)"

datatype run_start = FatalUnlock | StartError vm_error | StartEmpty | StartScheduler

definition run_checks :: "vm \<Rightarrow> run_start" where
  "run_checks v = (let has_nodes = (case vm_task v of None \<Rightarrow> False | Some g \<Rightarrow> TaskNodes g \<noteq> []) in
     if plans v = [] \<and> has_nodes then StartError NotCompiled
     else if entrypoint v = [] \<and> has_nodes then StartError EntryPointUnset
     else if entrypoint v = [] then StartEmpty else StartScheduler)"

definition Run :: "string list \<Rightarrow> vm \<Rightarrow> run_start" where
  "Run ord v =
     (if vm_status v \<noteq> VMStateReady \<and> vm_status v \<noteq> VMStateCompiled
      then (case unlock True of None \<Rightarrow> FatalUnlock
        | Some m \<Rightarrow>
            if vm_status v = VMStateInitialize
            then (case unlock m of None \<Rightarrow> FatalUnlock
              | Some _ \<Rightarrow> (case Compile ord v of (v', Inl e) \<Rightarrow> StartError e | (v', Inr _) \<Rightarrow> run_checks v'))
            else (case unlock m of None \<Rightarrow> FatalUnlock | Some _ \<Rightarrow> StartError (NotRunnable (vm_status v))))
      else run_checks v)"

section \<open>The schedule\<close>

text \<open>\<open>kahn_adj\<close> and the counts of predecessors, built from the edges whose source is not a branch condition.\<close>

definition regular_edge :: "graph \<Rightarrow> task_edge \<Rightarrow> bool" where
  "regular_edge g e \<longleftrightarrow> \<not> branch_source e \<and> (is_node g (ed_source e) \<or> trigger_source g e) \<and> is_node g (ed_target e)"

definition kahn_adj :: "graph \<Rightarrow> string \<Rightarrow> string list" where
  "kahn_adj g s = map ed_target (filter (\<lambda>e. regular_edge g e \<and> ed_source e = s) (g_edges g))"

fun count_preds :: "graph \<Rightarrow> task_edge list \<Rightarrow> (string \<Rightarrow> int) \<Rightarrow> string \<Rightarrow> int" where
  "count_preds g [] pc = pc"
| "count_preds g (e # es) pc = count_preds g es
     (if regular_edge g e \<and> is_node g (ed_source e) then pc(ed_target e := pc (ed_target e) + 1) else pc)"

definition hasRegularPred :: "graph \<Rightarrow> string \<Rightarrow> bool" where
  "hasRegularPred g n \<longleftrightarrow> list_ex (\<lambda>e. regular_edge g e \<and> ed_target e = n) (g_edges g)"

definition gated_edge :: "graph \<Rightarrow> task_edge \<Rightarrow> bool" where
  "gated_edge g e \<longleftrightarrow> branch_source e \<and> is_node g (ed_target e) \<and> \<not> hasRegularPred g (ed_target e)"

definition gatedTargets :: "graph \<Rightarrow> string \<Rightarrow> bool" where
  "gatedTargets g n \<longleftrightarrow> list_ex (\<lambda>e. gated_edge g e \<and> ed_target e = n) (g_edges g)"

fun gate_preds :: "graph \<Rightarrow> task_edge list \<Rightarrow> (string \<Rightarrow> int) \<Rightarrow> string \<Rightarrow> int" where
  "gate_preds g [] pc = pc"
| "gate_preds g (e # es) pc = gate_preds g es
     (if gated_edge g e then pc(ed_target e := pc (ed_target e) + 1) else pc)"

fun trigger_release :: "graph \<Rightarrow> string \<Rightarrow> task_edge list \<Rightarrow> (string \<Rightarrow> int) \<Rightarrow> string \<Rightarrow> int" where
  "trigger_release g t [] pc = pc"
| "trigger_release g t (e # es) pc = trigger_release g t es
     (if ed_source e = t \<and> is_node g (ed_target e) \<and> 0 < pc (ed_target e)
      then pc(ed_target e := pc (ed_target e) - 1) else pc)"

definition initial_preds :: "graph \<Rightarrow> string \<Rightarrow> int" where
  "initial_preds g = (let pc = gate_preds g (g_edges g) (count_preds g (g_edges g) (\<lambda>_. 0)) in
     if has_trigger g then trigger_release g (the (g_trigger g)) (g_edges g) pc else pc)"

text \<open>
  The state of a run. \<open>busy\<close> are the nodes workers are executing, \<open>finished\<close> the executed nodes, with the selected
  condition, whose worker has not yet updated the schedule, and \<open>exited\<close> counts the workers that ended. \<open>ran\<close>
  lists the executed nodes in order, and \<open>applied\<close>, a history variable, the nodes whose successors were released.
  \<open>fault\<close> is set when a send would panic on the closed channel or find it full.
\<close>

record sched =
  predCount :: "string \<Rightarrow> int"
  scheduled :: "string list"
  ready :: "string list"
  closed :: bool
  busy :: "string list"
  finished :: "(string \<times> string option) list"
  exited :: nat
  scheduledCount :: nat
  processed :: nat
  suspended :: bool
  suspend_requested :: bool
  ran :: "string list"
  applied :: "string list"
  fault :: bool

definition send :: "graph \<Rightarrow> string \<Rightarrow> sched \<Rightarrow> sched" where
  "send g n s = (if closed s \<or> length (ready s) \<ge> length (TaskNodes g) then s\<lparr>fault := True\<rparr>
     else s\<lparr>ready := ready s @ [n], scheduled := n # scheduled s, scheduledCount := Suc (scheduledCount s)\<rparr>)"

text \<open>A run resumes after the nodes of \<open>completed\<close>; the plans are those of \<open>Compile\<close>.\<close>

record kahn_env =
  k_graph :: graph
  k_plans :: "string \<rightharpoonup> plan_step"
  k_completed :: "string list"
  k_order :: "string list"

fun release_seed :: "graph \<Rightarrow> string list \<Rightarrow> (string \<Rightarrow> int) \<Rightarrow> string list \<Rightarrow> (string \<Rightarrow> int) \<times> string list" where
  "release_seed g [] pc q = (pc, q)"
| "release_seed g (n # ns) pc q =
     (if is_node g n
      then (let pc' = pc(n := pc n - 1) in release_seed g ns pc' (if pc' n = 0 \<and> \<not> gatedTargets g n then q @ [n] else q))
      else release_seed g ns pc q)"

text \<open>The queue only ever holds nodes; the test that the loop does not make is stated for its termination.\<close>

function seed_loop :: "kahn_env \<Rightarrow> string list \<Rightarrow> string list \<Rightarrow> sched \<Rightarrow> sched" where
  "seed_loop K [] visited s = s"
| "seed_loop K (n # q) visited s =
     (if n \<in> set visited \<or> \<not> is_node (k_graph K) n then seed_loop K q visited s
      else if n \<in> set (k_completed K)
      then (case release_seed (k_graph K) (kahn_adj (k_graph K) n) (predCount s) q of (pc, q') \<Rightarrow>
        seed_loop K q' (n # visited) (s\<lparr>predCount := pc, scheduled := n # scheduled s, applied := n # applied s\<rparr>))
      else seed_loop K q (n # visited) (send (k_graph K) n s))"
  by pat_completeness auto
termination
proof (relation "measures [\<lambda>(K, q, visited, s). card (set (node_ids (k_graph K)) - set visited), \<lambda>(K, q, visited, s). length q]")
  have less: "card (set (node_ids g) - set (n # visited)) < card (set (node_ids g) - set visited)"
    if "\<not> (n \<in> set visited \<or> \<not> is_node g n)" for g n visited
    using that by (intro psubset_card_mono) (auto simp: is_node_def)
  show "((K, q', n # visited, s'), K, n # q, visited, s) \<in> measures
      [\<lambda>(K, q, visited, s). card (set (node_ids (k_graph K)) - set visited), \<lambda>(K, q, visited, s). length q]"
    if "\<not> (n \<in> set visited \<or> \<not> is_node (k_graph K) n)" for K q' n q visited s' and s :: sched
    using less [OF that] by simp
  then show "((K, q, n # visited, s'), K, n # q, visited, s) \<in> measures
      [\<lambda>(K, q, visited, s). card (set (node_ids (k_graph K)) - set visited), \<lambda>(K, q, visited, s). length q]"
    if "\<not> (n \<in> set visited \<or> \<not> is_node (k_graph K) n)" for K n q visited s' and s :: sched
    using that by blast
qed simp_all

text \<open>
  The frontier is seeded from the nodes with no outstanding predecessor, in the order \<open>k_order\<close> in which \<open>range\<close>
  visits the counts, then from the completed nodes that only a branch leads to.
\<close>

definition seedQueue :: "kahn_env \<Rightarrow> string list" where
  "seedQueue K = filter (\<lambda>n. initial_preds (k_graph K) n = 0 \<and> \<not> gatedTargets (k_graph K) n) (k_order K)
     @ filter (gatedTargets (k_graph K)) (k_completed K)"

definition kahn_init :: "kahn_env \<Rightarrow> sched" where
  "kahn_init K = seed_loop K (seedQueue K) []
     \<lparr>predCount = initial_preds (k_graph K), scheduled = [], ready = [], closed = False, busy = [], finished = [],
      exited = 0, scheduledCount = 0, processed = 0, suspended = False, suspend_requested = False, ran = [],
      applied = [], fault = False\<rparr>"

definition workers :: "kahn_env \<Rightarrow> nat" where
  "workers K = min 16 (length (TaskNodes (k_graph K)))"

section \<open>The workers\<close>

text \<open>A node is sent to the channel when its count has just become zero and it was not scheduled before.\<close>

definition send_if_ready :: "graph \<Rightarrow> string \<Rightarrow> sched \<Rightarrow> sched" where
  "send_if_ready g n s = (if predCount s n = 0 \<and> n \<notin> set (scheduled s) then send g n s else s)"

fun release :: "graph \<Rightarrow> string list \<Rightarrow> sched \<Rightarrow> sched" where
  "release g [] s = s"
| "release g (n # ns) s = release g ns
     (if is_node g n then send_if_ready g n (s\<lparr>predCount := (predCount s)(n := predCount s n - 1)\<rparr>) else s)"

text \<open>The successors of a selected condition lose their gate, if they still have one.\<close>

fun release_selected :: "graph \<Rightarrow> string list \<Rightarrow> sched \<Rightarrow> sched" where
  "release_selected g [] s = s"
| "release_selected g (n # ns) s = release_selected g ns
     (if is_node g n
      then send_if_ready g n (if 0 < predCount s n then s\<lparr>predCount := (predCount s)(n := predCount s n - 1)\<rparr> else s)
      else s)"

definition selected_next :: "kahn_env \<Rightarrow> string option \<Rightarrow> string list" where
  "selected_next K sel = (case sel of None \<Rightarrow> [] | Some c \<Rightarrow>
     (case k_plans K c of None \<Rightarrow> [] | Some p \<Rightarrow> step_next p))"

definition count_processed :: "sched \<Rightarrow> sched" where
  "count_processed s = s\<lparr>processed := Suc (processed s)\<rparr>"

text \<open>The critical section a worker enters when the node it executed has returned.\<close>

definition complete :: "kahn_env \<Rightarrow> string \<Rightarrow> string option \<Rightarrow> sched \<Rightarrow> sched" where
  "complete K n sel s =
     (if suspended s then count_processed s
      else if suspend_requested s then count_processed (s\<lparr>suspended := True, closed := True\<rparr>)
      else let s1 = release (k_graph K) (kahn_adj (k_graph K) n) (s\<lparr>applied := n # applied s\<rparr>);
               s2 = count_processed (release_selected (k_graph K) (selected_next K sel) s1)
           in if processed s2 = scheduledCount s2 then s2\<lparr>closed := True\<rparr> else s2)"

text \<open>Only a branch node selects a condition, one of its own.\<close>

definition selects :: "graph \<Rightarrow> string \<Rightarrow> string option \<Rightarrow> bool" where
  "selects g n sel = (case sel of None \<Rightarrow> True | Some i \<Rightarrow>
     (case map_of (TaskNodes g) n of Some (BranchNode cs) \<Rightarrow> i \<in> condition_id n ` set cs | _ \<Rightarrow> False))"

definition idle_worker :: "kahn_env \<Rightarrow> sched \<Rightarrow> bool" where
  "idle_worker K s \<longleftrightarrow> length (busy s) + length (finished s) + exited s < workers K"

text \<open>
  The steps of the workers: an idle one receives a node, which it can do from the closed channel too while nodes
  are left in it; an execution ends, perhaps with a condition selected or a suspension requested; a worker updates
  the schedule; an idle one leaves when the channel is closed and drained.
\<close>

inductive kahn_step :: "kahn_env \<Rightarrow> sched \<Rightarrow> sched \<Rightarrow> bool" for K :: kahn_env where
  step_take: "idle_worker K s \<Longrightarrow> ready s = n # r \<Longrightarrow>
     kahn_step K s (s\<lparr>ready := r, busy := n # busy s, ran := ran s @ [n]\<rparr>)"
| step_exec: "n \<in> set (busy s) \<Longrightarrow> selects (k_graph K) n sel \<Longrightarrow>
     kahn_step K s (s\<lparr>busy := remove1 n (busy s), finished := (n, sel) # finished s,
       suspend_requested := suspend_requested s \<or> b\<rparr>)"
| step_update: "(n, sel) \<in> set (finished s) \<Longrightarrow>
     kahn_step K s (complete K n sel (s\<lparr>finished := remove1 (n, sel) (finished s)\<rparr>))"
| step_exit: "idle_worker K s \<Longrightarrow> closed s \<Longrightarrow> ready s = [] \<Longrightarrow>
     kahn_step K s (s\<lparr>exited := Suc (exited s)\<rparr>)"

text \<open>The workers are started only when the frontier is not empty; the scheduler returns when all have left.\<close>

inductive kahn_reach :: "kahn_env \<Rightarrow> sched \<Rightarrow> bool" for K :: kahn_env where
  reach_init: "0 < scheduledCount (kahn_init K) \<Longrightarrow> kahn_reach K (kahn_init K)"
| reach_step: "kahn_reach K s \<Longrightarrow> kahn_step K s s' \<Longrightarrow> kahn_reach K s'"

definition kahn_final :: "kahn_env \<Rightarrow> sched \<Rightarrow> bool" where
  "kahn_final K s \<longleftrightarrow> exited s = workers K"

text \<open>The keys of a Go map are distinct, and \<open>range\<close> visits each of them once.\<close>

definition kahn_wf :: "kahn_env \<Rightarrow> bool" where
  "kahn_wf K \<longleftrightarrow> distinct (node_ids (k_graph K)) \<and> distinct (k_order K) \<and> set (k_order K) = set (node_ids (k_graph K))"

end
