(* ===== verification/SchedulerInv.thy ===== *)
theory SchedulerInv
  imports Scheduler
begin

text \<open>
  The invariants of the graph scheduler. \<open>grown\<close> says what releasing successors does to the schedule; \<open>core\<close> is the
  invariant of the schedule, stated with the queue of the seeding loop so that the loop and the workers share it;
  \<open>ctl\<close> adds what the workers rely on to end.
\<close>

section \<open>Releasing successors\<close>

definition grow :: "(string \<Rightarrow> int) \<Rightarrow> string list \<Rightarrow> sched \<Rightarrow> sched" where
  "grow pc l s = s\<lparr>predCount := pc, ready := ready s @ l, scheduled := rev l @ scheduled s,
     scheduledCount := scheduledCount s + length l\<rparr>"

definition chan_ok :: "graph \<Rightarrow> sched \<Rightarrow> bool" where
  "chan_ok g s \<longleftrightarrow> \<not> closed s \<and> distinct (ready s) \<and> set (ready s) \<subseteq> set (scheduled s) \<and>
     set (scheduled s) \<subseteq> set (node_ids g)"

definition grown :: "graph \<Rightarrow> sched \<Rightarrow> string list \<Rightarrow> (string \<Rightarrow> int) \<Rightarrow> bool" where
  "grown g s l pc \<longleftrightarrow> distinct l \<and> set l \<subseteq> set (node_ids g) \<and> set l \<inter> set (scheduled s) = {} \<and>
     (\<forall>n\<in>set l. pc n \<le> 0) \<and> (\<forall>n. n \<notin> set (scheduled s) \<longrightarrow> n \<notin> set l \<longrightarrow> 0 < predCount s n \<longrightarrow> 0 < pc n) \<and>
     (\<forall>n. pc n \<le> predCount s n)"

lemma grow_simps [simp]:
  "predCount (grow pc l s) = pc" "ready (grow pc l s) = ready s @ l" "scheduled (grow pc l s) = rev l @ scheduled s"
  "scheduledCount (grow pc l s) = scheduledCount s + length l" "closed (grow pc l s) = closed s"
  "busy (grow pc l s) = busy s" "finished (grow pc l s) = finished s" "exited (grow pc l s) = exited s"
  "processed (grow pc l s) = processed s" "suspended (grow pc l s) = suspended s"
  "suspend_requested (grow pc l s) = suspend_requested s" "ran (grow pc l s) = ran s"
  "applied (grow pc l s) = applied s" "fault (grow pc l s) = fault s"
  "grow pc' l' (grow pc l s) = grow pc' (l @ l') s" "grow (predCount s) [] s = s"
  by (simp_all add: grow_def)

lemma grown_trans: "grown g s l pc \<Longrightarrow> grown g (grow pc l s) l' pc' \<Longrightarrow> grown g s (l @ l') pc'"
  unfolding grown_def by (auto intro: order_trans)

lemma grown_refl: "grown g s [] (predCount s)"
  by (simp add: grown_def)

lemma chan_ok_grow: "chan_ok g s \<Longrightarrow> grown g s l pc \<Longrightarrow> chan_ok g (grow pc l s)"
  unfolding chan_ok_def grown_def by auto

lemma send_grow:
  assumes ok: "chan_ok g s" and n: "is_node g n" "n \<notin> set (scheduled s)"
  shows "send g n s = grow (predCount s) [n] s"
proof -
  have "length (ready s) = card (set (ready s))" using ok by (simp add: chan_ok_def distinct_card)
  also have "\<dots> < card (set (node_ids g))"
    using ok n by (intro psubset_card_mono) (auto simp: chan_ok_def is_node_def)
  also have "\<dots> \<le> length (TaskNodes g)" using card_length [of "node_ids g"] by (simp add: node_ids_def)
  finally show ?thesis using ok by (simp add: send_def grow_def chan_ok_def)
qed

lemma send_if_ready_grow:
  assumes ok: "chan_ok g s" and n: "is_node g n" and c: "c \<le> predCount s n" "predCount s n - 1 \<le> c"
  shows "\<exists>l. send_if_ready g n (s\<lparr>predCount := (predCount s)(n := c)\<rparr>) = grow ((predCount s)(n := c)) l s \<and>
    grown g s l ((predCount s)(n := c)) \<and> set l \<subseteq> {n}"
proof (cases "c = 0 \<and> n \<notin> set (scheduled s)")
  case True
  let ?s = "s\<lparr>predCount := (predCount s)(n := c)\<rparr>"
  have "send g n ?s = grow (predCount ?s) [n] ?s"
    using ok n True by (intro send_grow) (simp_all add: chan_ok_def)
  then have "send_if_ready g n ?s = grow ((predCount s)(n := c)) [n] s"
    using True by (simp add: send_if_ready_def grow_def)
  moreover have "grown g s [n] ((predCount s)(n := c))" using True n c by (auto simp: grown_def is_node_def)
  ultimately show ?thesis by (intro exI [of _ "[n]"]) simp
next
  case False
  then have "send_if_ready g n (s\<lparr>predCount := (predCount s)(n := c)\<rparr>) = grow ((predCount s)(n := c)) [] s"
    by (auto simp: send_if_ready_def grow_def)
  moreover have "grown g s [] ((predCount s)(n := c))" using False c by (auto simp: grown_def)
  ultimately show ?thesis by (intro exI [of _ "[]"]) simp
qed

lemma release_grow:
  assumes "chan_ok g s" "set ns \<subseteq> set (node_ids g)"
  shows "\<exists>l pc. release g ns s = grow pc l s \<and> grown g s l pc \<and> (\<forall>n. pc n = predCount s n - int (count_list ns n))"
  using assms
proof (induction ns arbitrary: s)
  case (Cons m ns)
  let ?pc = "(predCount s)(m := predCount s m - 1)"
  have m: "is_node g m" using Cons.prems by (simp add: is_node_def)
  obtain l where l: "send_if_ready g m (s\<lparr>predCount := ?pc\<rparr>) = grow ?pc l s" "grown g s l ?pc"
    using send_if_ready_grow [OF Cons.prems(1) m, of "predCount s m - 1"] by auto
  obtain l' pc where r: "release g ns (grow ?pc l s) = grow pc l' (grow ?pc l s)"
    "grown g (grow ?pc l s) l' pc" "\<forall>n. pc n = ?pc n - int (count_list ns n)"
    using Cons.IH [OF chan_ok_grow [OF Cons.prems(1) l(2)]] Cons.prems(2) by auto
  have "release g (m # ns) s = grow pc (l @ l') s" using m l(1) r(1) by simp
  moreover have "\<forall>n. pc n = predCount s n - int (count_list (m # ns) n)" using r(3) by auto
  ultimately show ?case using grown_trans [OF l(2) r(2)] by blast
next
  case Nil
  show ?case by (rule exI [of _ "[]"], rule exI [of _ "predCount s"]) (simp add: grown_refl)
qed

lemma release_selected_grow:
  assumes "chan_ok g s"
  shows "\<exists>l pc. release_selected g ns s = grow pc l s \<and> grown g s l pc \<and> set l \<subseteq> set ns \<and>
    (\<forall>n. n \<notin> set ns \<longrightarrow> pc n = predCount s n)"
  using assms
proof (induction ns arbitrary: s)
  case (Cons m ns)
  show ?case
  proof (cases "is_node g m")
    case True
    define c where "c = (if 0 < predCount s m then predCount s m - 1 else predCount s m)"
    let ?pc = "(predCount s)(m := c)"
    have c: "c \<le> predCount s m" "predCount s m - 1 \<le> c" by (simp_all add: c_def)
    have eq: "(if 0 < predCount s m then s\<lparr>predCount := (predCount s)(m := predCount s m - 1)\<rparr> else s) = s\<lparr>predCount := ?pc\<rparr>"
      by (simp add: c_def)
    obtain l where l: "send_if_ready g m (s\<lparr>predCount := ?pc\<rparr>) = grow ?pc l s" "grown g s l ?pc" "set l \<subseteq> {m}"
      using send_if_ready_grow [OF Cons.prems True c] by blast
    obtain l' pc where r: "release_selected g ns (grow ?pc l s) = grow pc l' (grow ?pc l s)"
      "grown g (grow ?pc l s) l' pc" "set l' \<subseteq> set ns" "\<forall>n. n \<notin> set ns \<longrightarrow> pc n = ?pc n"
      using Cons.IH [OF chan_ok_grow [OF Cons.prems l(2)]] by auto
    have "release_selected g (m # ns) s = grow pc (l @ l') s"
      using True l(1) r(1) by (simp only: release_selected.simps eq if_True grow_simps)
    moreover have "set (l @ l') \<subseteq> set (m # ns)" using l(3) r(3) by auto
    moreover have "\<forall>n. n \<notin> set (m # ns) \<longrightarrow> pc n = predCount s n" using r(4) by simp
    ultimately show ?thesis using grown_trans [OF l(2) r(2)] by blast
  next
    case False
    then show ?thesis using Cons by fastforce
  qed
next
  case Nil
  show ?case by (rule exI [of _ "[]"], rule exI [of _ "predCount s"]) (simp add: grown_refl)
qed

section \<open>Counting outstanding predecessors\<close>

definition node_edge :: "graph \<Rightarrow> task_edge \<Rightarrow> bool" where
  "node_edge g e \<longleftrightarrow> regular_edge g e \<and> is_node g (ed_source e)"

text \<open>The edges into \<open>n\<close> from nodes outside \<open>A\<close>, and the nodes no branch condition and no trigger leads to.\<close>

definition waiting :: "graph \<Rightarrow> string set \<Rightarrow> string \<Rightarrow> nat" where
  "waiting g A n = length (filter (\<lambda>e. node_edge g e \<and> ed_target e = n \<and> ed_source e \<notin> A) (g_edges g))"

definition plain :: "graph \<Rightarrow> string \<Rightarrow> bool" where
  "plain g n \<longleftrightarrow> (\<forall>e\<in>set (g_edges g). ed_target e = n \<longrightarrow> \<not> branch_source e \<and> \<not> trigger_source g e)"

lemma plain_not_gated: "plain g n \<Longrightarrow> \<not> gatedTargets g n"
  by (auto simp: plain_def gatedTargets_def gated_edge_def list_ex_iff)

lemma count_preds_eq: "count_preds g es pc n = pc n + int (length (filter (\<lambda>e. node_edge g e \<and> ed_target e = n) es))"
  by (induction es arbitrary: pc) (auto simp: node_edge_def)

lemma gate_preds_other: "(\<And>e. e \<in> set es \<Longrightarrow> ed_target e = n \<Longrightarrow> \<not> gated_edge g e) \<Longrightarrow> gate_preds g es pc n = pc n"
  by (induction es arbitrary: pc) auto

lemma trigger_release_other:
  "(\<And>e. e \<in> set es \<Longrightarrow> ed_target e = n \<Longrightarrow> ed_source e \<noteq> t) \<Longrightarrow> trigger_release g t es pc n = pc n"
  by (induction es arbitrary: pc) auto

lemma trigger_release_bounds:
  "trigger_release g t es pc n \<le> pc n \<and> (0 \<le> pc n \<longrightarrow> 0 \<le> trigger_release g t es pc n)"
proof (induction es arbitrary: pc)
  case (Cons e es)
  show ?case
    using Cons.IH [of "if ed_source e = t \<and> is_node g (ed_target e) \<and> 0 < pc (ed_target e)
      then pc(ed_target e := pc (ed_target e) - 1) else pc"] by (auto split: if_splits)
qed simp

lemma gated_counts:
  assumes "\<not> gatedTargets g n"
  shows "gate_preds g (g_edges g) (count_preds g (g_edges g) (\<lambda>_. 0)) n = int (waiting g {} n)"
proof -
  have "gate_preds g (g_edges g) (count_preds g (g_edges g) (\<lambda>_. 0)) n = count_preds g (g_edges g) (\<lambda>_. 0) n"
    using assms by (intro gate_preds_other) (auto simp: gatedTargets_def list_ex_iff)
  then show ?thesis by (simp add: count_preds_eq waiting_def)
qed

lemma initial_preds_bounds:
  assumes "\<not> gatedTargets g n"
  shows "0 \<le> initial_preds g n" "initial_preds g n \<le> int (waiting g {} n)"
  using trigger_release_bounds [of g "the (g_trigger g)" "g_edges g"
      "gate_preds g (g_edges g) (count_preds g (g_edges g) (\<lambda>_. 0))" n] gated_counts [OF assms]
  by (auto simp: initial_preds_def Let_def)

lemma initial_preds_plain:
  assumes "plain g n"
  shows "initial_preds g n = int (waiting g {} n)"
proof -
  have "ed_source e \<noteq> the (g_trigger g)" if "has_trigger g" "e \<in> set (g_edges g)" "ed_target e = n" for e
    using assms that by (auto simp: plain_def trigger_source_def has_trigger_def)
  then show ?thesis using gated_counts [OF plain_not_gated [OF assms]]
    by (auto simp: initial_preds_def Let_def trigger_release_other)
qed

lemma kahn_adj_nodes: "set (kahn_adj g n) \<subseteq> set (node_ids g)"
  by (auto simp: kahn_adj_def regular_edge_def is_node_def)

lemma length_filter_split: "length (filter P xs) = length (filter (\<lambda>x. P x \<and> Q x) xs) + length (filter (\<lambda>x. P x \<and> \<not> Q x) xs)"
  by (induction xs) auto

lemma waiting_insert:
  assumes "n \<notin> A" "is_node g n"
  shows "waiting g A m = waiting g (insert n A) m + count_list (kahn_adj g n) m"
proof -
  let ?P = "\<lambda>e. node_edge g e \<and> ed_target e = m \<and> ed_source e \<notin> A"
  have "length (filter (\<lambda>e. ?P e \<and> ed_source e = n) (g_edges g)) = count_list (kahn_adj g n) m"
    unfolding kahn_adj_def count_list_eq_length_filter using assms
    by (simp add: filter_map comp_def node_edge_def) (rule arg_cong [where f = length], rule filter_cong, auto)
  moreover have "length (filter (\<lambda>e. ?P e \<and> \<not> ed_source e = n) (g_edges g)) = waiting g (insert n A) m"
    unfolding waiting_def by (rule arg_cong [where f = length], rule filter_cong) auto
  ultimately show ?thesis
    using length_filter_split [of ?P "g_edges g" "\<lambda>e. ed_source e = n"] by (simp add: waiting_def)
qed

lemma waiting_zero_iff: "waiting g A n = 0 \<longleftrightarrow> (\<forall>e\<in>set (g_edges g). node_edge g e \<longrightarrow> ed_target e = n \<longrightarrow> ed_source e \<in> A)"
  by (auto simp: waiting_def filter_empty_conv)

section \<open>The invariant of the schedule\<close>

text \<open>
  \<open>counts\<close>: a plain node waits for exactly its unapplied predecessors and is scheduled only when none is left; a
  node that is not gated and neither scheduled nor in the queue \<open>Q\<close> waits for an unapplied predecessor.
\<close>

definition counts :: "graph \<Rightarrow> string set \<Rightarrow> sched \<Rightarrow> bool" where
  "counts g Q s \<longleftrightarrow>
     (\<forall>n. plain g n \<longrightarrow> predCount s n = int (waiting g (set (applied s)) n) \<and>
        (n \<in> set (scheduled s) \<union> Q \<longrightarrow> predCount s n \<le> 0)) \<and>
     (\<forall>n. is_node g n \<longrightarrow> \<not> gatedTargets g n \<longrightarrow> predCount s n \<le> int (waiting g (set (applied s)) n) \<and>
        (n \<notin> set (scheduled s) \<union> Q \<longrightarrow> 0 < predCount s n))"

definition ids :: "(string \<times> string option) list \<Rightarrow> string list" where
  "ids f = map fst f"

lemma ids_simps [simp]: "ids [] = []" "ids (x # f) = fst x # ids f" "length (ids f) = length f"
  by (simp_all add: ids_def)

definition active :: "sched \<Rightarrow> string list" where
  "active s = ready s @ busy s @ ids (finished s)"

definition core :: "kahn_env \<Rightarrow> sched \<Rightarrow> bool" where
  "core K s \<longleftrightarrow> distinct (active s @ applied s) \<and> set (active s @ applied s) \<subseteq> set (scheduled s) \<and>
     distinct (scheduled s) \<and> set (scheduled s) \<subseteq> set (node_ids (k_graph K)) \<and>
     scheduledCount s = processed s + length (active s) \<and> \<not> fault s \<and>
     distinct (ran s) \<and> set (ran s) \<subseteq> set (scheduled s) \<and> set (ready s) \<inter> set (ran s) = {} \<and>
     set (busy s) \<union> set (ids (finished s)) \<subseteq> set (ran s) \<and>
     set (applied s) \<subseteq> set (ran s) \<union> set (k_completed K) \<and>
     (\<not> suspended s \<longrightarrow> set (scheduled s) \<subseteq> set (active s @ applied s))"

definition ctl :: "kahn_env \<Rightarrow> sched \<Rightarrow> bool" where
  "ctl K s \<longleftrightarrow> (closed s \<longleftrightarrow> suspended s \<or> processed s = scheduledCount s) \<and>
     (0 < exited s \<longrightarrow> closed s \<and> ready s = []) \<and>
     length (busy s) + length (finished s) + exited s \<le> workers K"

lemma countsD:
  assumes "counts g Q s"
  shows "plain g n \<Longrightarrow> predCount s n = int (waiting g (set (applied s)) n)"
    "plain g n \<Longrightarrow> n \<in> set (scheduled s) \<union> Q \<Longrightarrow> predCount s n \<le> 0"
    "is_node g n \<Longrightarrow> \<not> gatedTargets g n \<Longrightarrow> predCount s n \<le> int (waiting g (set (applied s)) n)"
    "is_node g n \<Longrightarrow> \<not> gatedTargets g n \<Longrightarrow> n \<notin> set (scheduled s) \<union> Q \<Longrightarrow> 0 < predCount s n"
  using assms unfolding counts_def by blast+

lemma counts_cong:
  "counts g Q s \<Longrightarrow> predCount s' = predCount s \<Longrightarrow> applied s' = applied s \<Longrightarrow>
   set (scheduled s') \<union> Q' = set (scheduled s) \<union> Q \<Longrightarrow> counts g Q' s'"
  unfolding counts_def by (simp only:)

lemma core_chan_ok: "core K s \<Longrightarrow> \<not> closed s \<Longrightarrow> chan_ok (k_graph K) s"
  by (auto simp: core_def chan_ok_def active_def)

section \<open>Seeding\<close>

definition seed_inv :: "kahn_env \<Rightarrow> string list \<Rightarrow> string list \<Rightarrow> sched \<Rightarrow> bool" where
  "seed_inv K q visited s \<longleftrightarrow> core K s \<and> counts (k_graph K) (set q) s \<and> set visited = set (scheduled s) \<and>
     set q \<subseteq> set (node_ids (k_graph K)) \<and> busy s = [] \<and> finished s = [] \<and> ran s = [] \<and> processed s = 0 \<and>
     exited s = 0 \<and> \<not> closed s \<and> \<not> suspended s \<and> set (ready s) \<inter> set (k_completed K) = {} \<and>
     (\<forall>n\<in>set (k_completed K). gatedTargets (k_graph K) n \<longrightarrow> n \<in> set (scheduled s) \<union> set q)"

lemma release_seed_props:
  assumes "release_seed g ns pc q = (pc', q')" "set ns \<subseteq> set (node_ids g)"
  shows "pc' n = pc n - int (count_list ns n)" "set q \<subseteq> set q'" "set q' \<subseteq> set q \<union> set (node_ids g)"
    "n \<in> set q' \<Longrightarrow> n \<in> set q \<or> pc' n \<le> 0" "\<not> gatedTargets g n \<Longrightarrow> 0 < pc n \<Longrightarrow> n \<notin> set q' \<Longrightarrow> 0 < pc' n"
proof -
  have "pc' n = pc n - int (count_list ns n) \<and> set q \<subseteq> set q' \<and> set q' \<subseteq> set q \<union> set (node_ids g) \<and>
      (n \<in> set q' \<longrightarrow> n \<in> set q \<or> pc' n \<le> 0) \<and> (\<not> gatedTargets g n \<longrightarrow> 0 < pc n \<longrightarrow> n \<notin> set q' \<longrightarrow> 0 < pc' n)"
    using assms
  proof (induction ns arbitrary: pc q)
    case (Cons m ns)
    let ?pc = "pc(m := pc m - 1)" and ?q = "if pc m - 1 = 0 \<and> \<not> gatedTargets g m then q @ [m] else q"
    have m: "is_node g m" using Cons.prems(2) by (simp add: is_node_def)
    have "release_seed g ns ?pc ?q = (pc', q')" using Cons.prems(1) m by (simp add: Let_def)
    from Cons.IH [OF this] Cons.prems(2) m show ?case by (auto simp: is_node_def split: if_splits)
  qed simp
  then show "pc' n = pc n - int (count_list ns n)" "set q \<subseteq> set q'" "set q' \<subseteq> set q \<union> set (node_ids g)"
    "n \<in> set q' \<Longrightarrow> n \<in> set q \<or> pc' n \<le> 0" "\<not> gatedTargets g n \<Longrightarrow> 0 < pc n \<Longrightarrow> n \<notin> set q' \<Longrightarrow> 0 < pc' n"
    by blast+
qed

text \<open>Applying a node lowers the counts by what it lowers the number of unapplied predecessors by.\<close>

lemma counts_apply:
  assumes c: "counts g Q s" and n: "is_node g n" "n \<notin> set (applied s)" "n \<in> set (scheduled s) \<union> Q"
    and pc: "\<And>m. plain g m \<Longrightarrow> pc m = predCount s m - int (count_list (kahn_adj g n) m)"
      "\<And>m. pc m \<le> predCount s m - int (count_list (kahn_adj g n) m)"
    and s': "predCount s' = pc" "applied s' = n # applied s" "set (scheduled s) \<union> Q \<subseteq> set (scheduled s') \<union> Q'"
    and Q: "\<And>m. m \<in> set (scheduled s') \<union> Q' \<Longrightarrow> m \<in> set (scheduled s) \<union> Q \<or> pc m \<le> 0"
      "\<And>m. \<not> gatedTargets g m \<Longrightarrow> 0 < predCount s m \<Longrightarrow> m \<notin> set (scheduled s') \<union> Q' \<Longrightarrow> 0 < pc m"
  shows "counts g Q' s'"
proof -
  have w: "int (waiting g (set (applied s')) m) = int (waiting g (set (applied s)) m) - int (count_list (kahn_adj g n) m)" for m
    using waiting_insert [OF n(2,1), of m] by (simp add: s')
  show ?thesis unfolding counts_def
  proof (intro conjI allI impI)
    fix m assume m: "plain g m"
    show "predCount s' m = int (waiting g (set (applied s')) m)"
      using countsD(1) [OF c m] w [of m] pc(1) [OF m] unfolding s'(1) by linarith
    assume "m \<in> set (scheduled s') \<union> Q'"
    then have "m \<in> set (scheduled s) \<union> Q \<or> pc m \<le> 0" by (rule Q(1))
    then show "predCount s' m \<le> 0" using countsD(2) [OF c m] pc(2) [of m] unfolding s'(1) by force
  next
    fix m assume m: "is_node g m" "\<not> gatedTargets g m"
    show "predCount s' m \<le> int (waiting g (set (applied s')) m)"
      using countsD(3) [OF c m] w [of m] pc(2) [of m] unfolding s'(1) by linarith
    assume a: "m \<notin> set (scheduled s') \<union> Q'"
    then have "m \<notin> set (scheduled s) \<union> Q" using s'(3) by auto
    then have "0 < predCount s m" by (rule countsD(4) [OF c m])
    then show "0 < predCount s' m" using Q(2) [OF m(2)] a unfolding s'(1) by blast
  qed
qed

lemma seed_inv_completed:
  assumes i: "seed_inv K (n # q) visited s" and n: "n \<notin> set visited" "n \<in> set (k_completed K)"
    and r: "release_seed (k_graph K) (kahn_adj (k_graph K) n) (predCount s) q = (pc, q')"
  shows "seed_inv K q' (n # visited) (s\<lparr>predCount := pc, scheduled := n # scheduled s, applied := n # applied s\<rparr>)"
    (is "seed_inv _ _ _ ?s")
proof -
  let ?g = "k_graph K"
  note rp = release_seed_props [OF r kahn_adj_nodes]
  have ns: "n \<notin> set (scheduled s)" "is_node ?g n" "n \<notin> set (active s)" "n \<notin> set (applied s)"
    using i n(1) by (auto simp: seed_inv_def is_node_def core_def)
  have "counts ?g (set q') ?s"
  proof (rule counts_apply)
    show "counts ?g (set (n # q)) s" using i by (simp add: seed_inv_def)
    show "is_node ?g n" "n \<notin> set (applied s)" by fact+
    show "pc m = predCount s m - int (count_list (kahn_adj ?g n) m)" for m by (rule rp(1))
    then show "pc m \<le> predCount s m - int (count_list (kahn_adj ?g n) m)" for m by simp
    show "m \<in> set (scheduled s) \<union> set (n # q) \<or> pc m \<le> 0" if "m \<in> set (scheduled ?s) \<union> set q'" for m
      using rp(4) [of m] that by auto
    show "0 < pc m" if "\<not> gatedTargets ?g m" "0 < predCount s m" "m \<notin> set (scheduled ?s) \<union> set q'" for m
      using rp(5) that by blast
    show "set (scheduled s) \<union> set (n # q) \<subseteq> set (scheduled ?s) \<union> set q'" using rp(2) by auto
  qed simp_all
  moreover have "core K ?s" using i n ns by (auto simp: seed_inv_def core_def active_def is_node_def)
  ultimately show ?thesis using i rp(2,3) by (auto simp: seed_inv_def)
qed

lemma seed_inv_send:
  assumes i: "seed_inv K (n # q) visited s" and n: "n \<notin> set visited" "n \<notin> set (k_completed K)"
  shows "seed_inv K q (n # visited) (send (k_graph K) n s)"
proof -
  let ?g = "k_graph K"
  have ns: "n \<notin> set (scheduled s)" "is_node ?g n"
    using i n(1) by (auto simp: seed_inv_def is_node_def)
  have "chan_ok ?g s" using i by (auto simp: seed_inv_def intro: core_chan_ok)
  then have eq: "send ?g n s = grow (predCount s) [n] s" using ns by (intro send_grow)
  have "core K (grow (predCount s) [n] s)" using i ns by (auto simp: seed_inv_def core_def active_def is_node_def)
  moreover have "counts ?g (set q) (grow (predCount s) [n] s)" using i
    by - (rule counts_cong [where Q = "set (n # q)" and s = s], simp_all add: seed_inv_def)
  ultimately show ?thesis unfolding eq using i n by (auto simp: seed_inv_def)
qed

lemma seed_loop_inv: "seed_inv K q visited s \<Longrightarrow> \<exists>visited'. seed_inv K [] visited' (seed_loop K q visited s)"
proof (induction K q visited s rule: seed_loop.induct)
  case (2 K n q visited s)
  have node: "is_node (k_graph K) n" using "2.prems" by (simp add: seed_inv_def is_node_def)
  consider (skip) "n \<in> set visited" | (done_before) "n \<notin> set visited" "n \<in> set (k_completed K)"
    | (new) "n \<notin> set visited" "n \<notin> set (k_completed K)" by blast
  then show ?case
  proof cases
    case skip
    then have "set (scheduled s) \<union> insert n (set q) = set (scheduled s) \<union> set q"
      using "2.prems" by (auto simp: seed_inv_def)
    then have "counts (k_graph K) (set q) s" using "2.prems"
      by - (rule counts_cong [where Q = "set (n # q)" and s = s], simp_all add: seed_inv_def)
    then have "seed_inv K q visited s" using "2.prems" skip by (auto simp: seed_inv_def)
    then show ?thesis using "2.IH"(1) skip by simp
  next
    case done_before
    obtain pc q' where r: "release_seed (k_graph K) (kahn_adj (k_graph K) n) (predCount s) q = (pc, q')" by fastforce
    show ?thesis
      using "2.IH"(2) [OF _ _ r [symmetric] seed_inv_completed [OF "2.prems" done_before r]] done_before node r by simp
  next
    case new
    show ?thesis using "2.IH"(3) [OF _ _ seed_inv_send [OF "2.prems" new]] new node by simp
  qed
qed auto

lemma kahn_init_inv: "kahn_wf K \<Longrightarrow> \<exists>v. seed_inv K [] v (kahn_init K)"
  unfolding kahn_init_def
proof (rule seed_loop_inv)
  let ?g = "k_graph K"
  assume wf: "kahn_wf K"
  let ?s = "\<lparr>predCount = initial_preds ?g, scheduled = [], ready = [], closed = False, busy = [], finished = [],
      exited = 0, scheduledCount = 0, processed = 0, suspended = False, suspend_requested = False, ran = [],
      applied = [], fault = False\<rparr>"
  have nodes: "set (seedQueue K) \<subseteq> set (node_ids ?g)"
    using wf by (auto simp: seedQueue_def kahn_wf_def gatedTargets_def gated_edge_def list_ex_iff is_node_def)
  have "n \<in> set (seedQueue K) \<longleftrightarrow> initial_preds ?g n = 0" if "is_node ?g n" "\<not> gatedTargets ?g n" for n
    using wf that by (auto simp: seedQueue_def kahn_wf_def is_node_def)
  note q = this
  have "counts ?g (set (seedQueue K)) ?s"
    unfolding counts_def
  proof (intro conjI allI impI)
    fix n assume n: "plain ?g n"
    then show "predCount ?s n = int (waiting ?g (set (applied ?s)) n)" by (simp add: initial_preds_plain)
    assume "n \<in> set (scheduled ?s) \<union> set (seedQueue K)"
    then show "predCount ?s n \<le> 0" using q [OF _ plain_not_gated [OF n]] nodes by (auto simp: is_node_def)
  next
    fix n assume n: "is_node ?g n" "\<not> gatedTargets ?g n"
    then show "predCount ?s n \<le> int (waiting ?g (set (applied ?s)) n)" by (simp add: initial_preds_bounds)
    assume "n \<notin> set (scheduled ?s) \<union> set (seedQueue K)"
    then show "0 < predCount ?s n" using q [OF n] initial_preds_bounds(1) [OF n(2)] by simp
  qed
  then show "seed_inv K (seedQueue K) [] ?s" using nodes by (auto simp: seed_inv_def core_def active_def seedQueue_def)
qed

section \<open>The invariant of the workers\<close>

lemma complete_suspended: "suspended s \<Longrightarrow> complete K n sel s = count_processed s"
  by (simp add: complete_def)

lemma complete_suspend:
  "\<not> suspended s \<Longrightarrow> suspend_requested s \<Longrightarrow> complete K n sel s = count_processed (s\<lparr>suspended := True, closed := True\<rparr>)"
  by (simp add: complete_def)

text \<open>Plans are made from the edges, so a selected condition releases only targets of branch edges.\<close>

definition plans_ok :: "kahn_env \<Rightarrow> bool" where
  "plans_ok K \<longleftrightarrow> (\<forall>i p. k_plans K i = Some p \<longrightarrow> step_next p = compile_adj (k_graph K) i)"

lemma selected_not_plain:
  assumes "plans_ok K" "selects (k_graph K) n sel" "m \<in> set (selected_next K sel)"
  shows "\<not> plain (k_graph K) m"
proof -
  obtain i p where i: "sel = Some i" "k_plans K i = Some p" "m \<in> set (step_next p)"
    using assms(3) by (cases sel; cases "k_plans K (the sel)") (auto simp: selected_next_def)
  then obtain c where c: "i = condition_id n c"
    using assms(2) by (auto simp: selects_def split: option.splits vm_node.splits)
  obtain e where "e \<in> set (g_edges (k_graph K))" "ed_source e = condition_id n c" "ed_target e = m"
    using assms(1) i c by (auto simp: plans_ok_def compile_adj_def)
  then show ?thesis unfolding plain_def branch_source_def condition_id_def by force
qed

text \<open>The update that releases successors, as one growth of the schedule.\<close>

lemma complete_release:
  assumes ns: "\<not> suspended s" "\<not> suspend_requested s" and ok: "chan_ok (k_graph K) s"
  obtains l pc where "complete K n sel s = (grow pc l (s\<lparr>applied := n # applied s, processed := Suc (processed s)\<rparr>))
      \<lparr>closed := Suc (processed s) = scheduledCount s + length l\<rparr>"
    "grown (k_graph K) s l pc"
    "\<And>m. m \<notin> set (selected_next K sel) \<Longrightarrow> pc m = predCount s m - int (count_list (kahn_adj (k_graph K) n) m)"
    "\<And>m. pc m \<le> predCount s m - int (count_list (kahn_adj (k_graph K) n) m)"
proof -
  let ?g = "k_graph K" and ?s = "s\<lparr>applied := n # applied s\<rparr>"
  have ok': "chan_ok ?g ?s" using ok by (simp add: chan_ok_def)
  obtain l1 pc1 where r1: "release ?g (kahn_adj ?g n) ?s = grow pc1 l1 ?s" "grown ?g ?s l1 pc1"
    "\<forall>m. pc1 m = predCount ?s m - int (count_list (kahn_adj ?g n) m)"
    using release_grow [OF ok' kahn_adj_nodes] by blast
  obtain l2 pc2 where r2: "release_selected ?g (selected_next K sel) (grow pc1 l1 ?s) = grow pc2 l2 (grow pc1 l1 ?s)"
    "grown ?g (grow pc1 l1 ?s) l2 pc2" "\<forall>m. m \<notin> set (selected_next K sel) \<longrightarrow> pc2 m = pc1 m"
    using release_selected_grow [OF chan_ok_grow [OF ok' r1(2)]] by (metis grow_simps(1))
  have "\<not> closed s" using ok by (simp add: chan_ok_def)
  then have eq: "complete K n sel s = (grow pc2 (l1 @ l2) (s\<lparr>applied := n # applied s, processed := Suc (processed s)\<rparr>))
      \<lparr>closed := Suc (processed s) = scheduledCount s + length (l1 @ l2)\<rparr>"
    using ns r1(1) r2(1) by (simp add: complete_def count_processed_def grow_def Let_def)
  have g: "grown ?g s (l1 @ l2) pc2" using grown_trans [OF r1(2) r2(2)] by (simp add: grown_def)
  have "pc2 m \<le> pc1 m" "pc1 m = predCount s m - int (count_list (kahn_adj ?g n) m)" for m
    using r1(3) r2(2) by (simp_all add: grown_def)
  then show thesis using that [OF eq g] r2(3) by metis
qed

definition kahn_inv :: "kahn_env \<Rightarrow> sched \<Rightarrow> bool" where
  "kahn_inv K s \<longleftrightarrow> core K s \<and> counts (k_graph K) {} s \<and> ctl K s \<and>
     (\<forall>(n, sel)\<in>set (finished s). selects (k_graph K) n sel)"

lemma kahn_inv_init:
  assumes "kahn_wf K" "0 < scheduledCount (kahn_init K)"
  shows "kahn_inv K (kahn_init K)"
  using kahn_init_inv [OF assms(1)] assms(2) by (auto simp: seed_inv_def kahn_inv_def ctl_def)

lemma kahn_inv_take:
  assumes i: "kahn_inv K s" and idle: "idle_worker K s" and r: "ready s = n # r"
  shows "kahn_inv K (s\<lparr>ready := r, busy := n # busy s, ran := ran s @ [n]\<rparr>)" (is "kahn_inv K ?s")
proof -
  have "core K ?s" using i r by (auto simp: kahn_inv_def core_def active_def)
  moreover have "counts (k_graph K) {} ?s"
    by (rule counts_cong [where s = s and Q = "{}"]) (use i in \<open>simp_all add: kahn_inv_def\<close>)
  ultimately show ?thesis using i idle r by (auto simp: kahn_inv_def ctl_def idle_worker_def)
qed

lemma kahn_inv_exec:
  assumes i: "kahn_inv K s" and n: "n \<in> set (busy s)" and sel: "selects (k_graph K) n sel"
  shows "kahn_inv K (s\<lparr>busy := remove1 n (busy s), finished := (n, sel) # finished s,
       suspend_requested := suspend_requested s \<or> b\<rparr>)" (is "kahn_inv K ?s")
proof -
  have d: "distinct (busy s)" using i by (simp add: kahn_inv_def core_def active_def)
  have l: "Suc (length (remove1 n (busy s))) = length (busy s)"
    using n by (simp add: length_remove1) (metis One_nat_def Suc_pred length_pos_if_in_set)
  have "core K ?s" using i n d l by (auto simp: kahn_inv_def core_def active_def)
  moreover have "counts (k_graph K) {} ?s"
    by (rule counts_cong [where s = s and Q = "{}"]) (use i in \<open>simp_all add: kahn_inv_def\<close>)
  ultimately show ?thesis using i l sel by (auto simp: kahn_inv_def ctl_def)
qed

lemma remove1_finished:
  assumes d: "distinct (ids f)" and n: "(n, sel) \<in> set f"
  shows "set (remove1 (n, sel) f) = set f - {(n, sel)}" "set (ids (remove1 (n, sel) f)) = set (ids f) - {n}"
    "Suc (length (remove1 (n, sel) f)) = length f" "distinct (ids (remove1 (n, sel) f))"
proof -
  show s: "set (remove1 (n, sel) f) = set f - {(n, sel)}" using d by (simp add: distinct_map ids_def)
  have "inj_on fst (set f)" using d by (simp add: distinct_map ids_def)
  then show "set (ids (remove1 (n, sel) f)) = set (ids f) - {n}"
    using inj_on_image_set_diff [of fst "set f" "set f" "{(n, sel)}"] n by (auto simp: ids_def s)
  show "Suc (length (remove1 (n, sel) f)) = length f"
    using n by (simp add: length_remove1) (metis One_nat_def Suc_pred length_pos_if_in_set)
  show "distinct (ids (remove1 (n, sel) f))" using d by (simp add: distinct_map inj_on_diff s ids_def)
qed

lemma core_processed:
  assumes "core K s" "set (ids f) = set (ids (finished s)) - {n}" "Suc (length f) = length (finished s)" "distinct (ids f)"
  shows "core K (s\<lparr>finished := f, processed := Suc (processed s), suspended := True, closed := True\<rparr>)"
  using assms by (auto simp: core_def active_def)

lemma core_applied:
  assumes "core K s" "set (ids f) = set (ids (finished s)) - {n}" "Suc (length f) = length (finished s)"
    "distinct (ids f)" "n \<in> set (ids (finished s))"
  shows "core K (s\<lparr>finished := f, applied := n # applied s, processed := Suc (processed s)\<rparr>)"
proof -
  have "n \<notin> set (applied s)" "n \<notin> set (ready s)" "n \<notin> set (busy s)" "n \<in> set (scheduled s)" "n \<in> set (ran s)"
    using assms(1,5) by (auto simp: core_def active_def)
  then show ?thesis using assms by (auto simp: core_def active_def)
qed

lemma core_grow:
  assumes "core K s" "distinct l" "set l \<subseteq> set (node_ids (k_graph K))" "set l \<inter> set (scheduled s) = {}"
  shows "core K ((grow pc l s)\<lparr>closed := b\<rparr>)"
proof -
  have "set l \<inter> set (active s @ applied s) = {}" "set l \<inter> set (ran s) = {}" using assms by (auto simp: core_def)
  then show ?thesis using assms by (auto simp: core_def active_def)
qed

lemma kahn_inv_update_suspended:
  assumes i: "kahn_inv K s" and n: "(n, sel) \<in> set (finished s)"
    and c: "complete K n sel (s\<lparr>finished := remove1 (n, sel) (finished s)\<rparr>) =
      s\<lparr>finished := remove1 (n, sel) (finished s), processed := Suc (processed s), suspended := True, closed := True\<rparr>"
  shows "kahn_inv K (complete K n sel (s\<lparr>finished := remove1 (n, sel) (finished s)\<rparr>))"
proof -
  let ?s = "s\<lparr>finished := remove1 (n, sel) (finished s), processed := Suc (processed s), suspended := True, closed := True\<rparr>"
  have d: "distinct (ids (finished s))" and co: "core K s" using i by (simp_all add: kahn_inv_def core_def active_def)
  note r = remove1_finished [OF d n]
  have "core K ?s" by (rule core_processed [OF co r(2-4)])
  moreover have "counts (k_graph K) {} ?s"
    by (rule counts_cong [where s = s and Q = "{}"]) (use i in \<open>simp_all add: kahn_inv_def\<close>)
  moreover have "ctl K ?s" using i r(3) by (auto simp: kahn_inv_def ctl_def)
  ultimately show ?thesis unfolding c using i r(1) by (auto simp: kahn_inv_def)
qed

lemma kahn_inv_update_release:
  assumes i: "kahn_inv K s" and p: "plans_ok K" and n: "(n, sel) \<in> set (finished s)"
    and ns: "\<not> suspended s" "\<not> suspend_requested s"
  shows "kahn_inv K (complete K n sel (s\<lparr>finished := remove1 (n, sel) (finished s)\<rparr>))"
proof -
  let ?g = "k_graph K" and ?s = "s\<lparr>finished := remove1 (n, sel) (finished s)\<rparr>"
  have d: "distinct (ids (finished s))" and co: "core K s" using i by (simp_all add: kahn_inv_def core_def active_def)
  note r = remove1_finished [OF d n]
  have nin: "n \<in> set (ids (finished s))" using n by (force simp: ids_def)
  have "processed s < scheduledCount s" using co length_pos_if_in_set [OF n] by (simp add: core_def active_def)
  then have open_: "\<not> closed s" using i ns(1) by (simp add: kahn_inv_def ctl_def)
  then have ok: "chan_ok ?g ?s" using core_chan_ok [OF co] by (simp add: chan_ok_def)
  obtain l pc where c: "complete K n sel ?s = (grow pc l (?s\<lparr>applied := n # applied s, processed := Suc (processed s)\<rparr>))
      \<lparr>closed := Suc (processed s) = scheduledCount s + length l\<rparr>" (is "_ = ?s'")
    and g: "grown ?g ?s l pc"
    and pc: "\<And>m. m \<notin> set (selected_next K sel) \<Longrightarrow> pc m = predCount s m - int (count_list (kahn_adj ?g n) m)"
      "\<And>m. pc m \<le> predCount s m - int (count_list (kahn_adj ?g n) m)"
    using complete_release [of ?s K n sel] ns ok by auto
  have l: "distinct l" "set l \<subseteq> set (node_ids ?g)" "set l \<inter> set (scheduled s) = {}" using g by (auto simp: grown_def)
  have sel: "selects ?g n sel" using i n by (auto simp: kahn_inv_def)
  have "core K ?s'" using core_grow [OF core_applied [OF co r(2-4) nin] l(1,2)] l(3) by simp
  moreover have "counts ?g {} ?s'"
  proof (rule counts_apply)
    show "counts ?g {} s" using i by (simp add: kahn_inv_def)
    show "is_node ?g n" "n \<notin> set (applied s)" "n \<in> set (scheduled s) \<union> {}"
      using co nin by (auto simp: core_def active_def is_node_def)
    show "pc m = predCount s m - int (count_list (kahn_adj ?g n) m)" if "plain ?g m" for m
      using pc(1) selected_not_plain [OF p sel] that by blast
    show "pc m \<le> predCount s m - int (count_list (kahn_adj ?g n) m)" for m by (rule pc(2))
    show "m \<in> set (scheduled s) \<union> {} \<or> pc m \<le> 0" if "m \<in> set (scheduled ?s') \<union> {}" for m
      using g that by (auto simp: grown_def)
    show "0 < pc m" if "\<not> gatedTargets ?g m" "0 < predCount s m" "m \<notin> set (scheduled ?s') \<union> {}" for m
      using g that by (simp add: grown_def)
  qed auto
  moreover have "ctl K ?s'" using i ns(1) open_ r(3) by (auto simp: kahn_inv_def ctl_def)
  ultimately show ?thesis unfolding c using i r(1) by (auto simp: kahn_inv_def)
qed

lemma kahn_inv_step:
  assumes "plans_ok K" "kahn_step K s s'" "kahn_inv K s"
  shows "kahn_inv K s'"
  using assms(2)
proof cases
  case (step_update n sel)
  have "closed s" if "suspended s" using assms(3) that by (simp add: kahn_inv_def ctl_def)
  then show ?thesis
    using kahn_inv_update_suspended [OF assms(3) step_update(2)] kahn_inv_update_release [OF assms(3,1) step_update(2)]
    unfolding step_update(1) by (cases "suspended s"; cases "suspend_requested s") (simp_all add: complete_def count_processed_def)
next
  case step_exit
  then have "counts (k_graph K) {} s'" using assms(3)
    by - (rule counts_cong [where s = s and Q = "{}"], simp_all add: kahn_inv_def)
  then show ?thesis using assms(3) step_exit by (auto simp: kahn_inv_def ctl_def core_def active_def idle_worker_def)
qed (use assms(3) in \<open>simp_all add: kahn_inv_take kahn_inv_exec\<close>)

lemma kahn_reach_inv: "kahn_reach K s \<Longrightarrow> kahn_wf K \<Longrightarrow> plans_ok K \<Longrightarrow> kahn_inv K s"
  by (induction rule: kahn_reach.induct) (auto intro: kahn_inv_init kahn_inv_step)

end
