(* ===== verification/Schedules.thy ===== *)
theory Schedules
  imports SchedulerInv
begin

text \<open>
  What the graph scheduler guarantees of a run: every node runs at most once and the channel is used safely, a node
  waits for its predecessors, the workers always end, a run that was not suspended has run every node it can reach,
  and a resumed run does not repeat the completed prefix. The plans of these runs are those \<open>Compile\<close> makes.
\<close>

section \<open>The plans of a compiled workflow\<close>

definition from_edges :: "graph \<Rightarrow> (string \<times> plan_step) list \<Rightarrow> bool" where
  "from_edges g ps \<longleftrightarrow> (\<forall>i p. map_of ps i = Some p \<longrightarrow> step_next p = compile_adj g i)"

lemma from_edges_empty [simp]: "from_edges g []"
  by (simp add: from_edges_def)

lemma from_edges_add_plan [simp]: "from_edges g ps \<Longrightarrow> from_edges g (add_plan g n ps)"
  by (auto simp: from_edges_def add_plan_def update_conv')

lemma from_edges_foldl: "from_edges g ps \<Longrightarrow> from_edges g (foldl (\<lambda>m c. add_plan g (f c) m) ps cs)"
  by (induction cs arbitrary: ps) auto

lemma from_edges_condition_plans [simp]: "from_edges g ps \<Longrightarrow> from_edges g (condition_plans g n ps)"
  by (auto simp: condition_plans_def from_edges_foldl split: option.split vm_node.split)

lemma from_edges_topo_loop: "from_edges g ps \<Longrightarrow> from_edges g (fst (topo_loop g deg q ps n))"
  by (induction g deg q ps n rule: topo_loop.induct) (auto split: prod.split)

lemma from_edges_compile_graph: "from_edges g ps \<Longrightarrow> from_edges g (snd (fst (compile_graph ord g entry ps)))"
proof -
  assume ps: "from_edges g ps"
  have e: "from_edges g ps'" if "compile_entry g q entry ps = Inr (entry', ps')" for q entry' ps'
    using that ps by (auto simp: compile_entry_def Let_def split: if_splits)
  have f: "from_edges g ps3" if "compile_finish g ps'' n = Inr ps3" "from_edges g ps''" for ps'' ps3 n
    using that from_edges_foldl [of g ps'' "\<lambda>x. x"] by (auto simp: compile_finish_def Let_def split: if_splits)
  show ?thesis
  proof (cases "bindE (check_edges g (g_edges g)) (\<lambda>_. bindE (compile_roots ord g entry) (\<lambda>(deg, q).
        bindE (compile_entry g q entry ps) (\<lambda>(entry', ps'). Inr (deg, q, entry', ps'))))")
    case (Inl err)
    then show ?thesis using ps by (simp add: compile_graph_def)
  next
    case (Inr r)
    obtain deg q entry' ps' where r: "r = (deg, q, entry', ps')" by (metis surj_pair)
    have "compile_entry g q entry ps = Inr (entry', ps')" using Inr unfolding r by (auto split: prod.splits)
    then have "from_edges g (fst (topo_loop g deg q ps' 0))" by (intro from_edges_topo_loop e)
    then show ?thesis
      using f Inr unfolding compile_graph_def r by (cases "topo_loop g deg q ps' 0") (auto split: sum.splits)
  qed
qed

text \<open>A VM made for one workflow, and a run of its scheduler after the nodes of \<open>completed\<close>.\<close>

definition new_vm :: "graph \<Rightarrow> vm" where
  "new_vm g = \<lparr>vm_status = VMStateInitialize, entrypoint = [], plans = [], vm_task = Some g\<rparr>"

definition run_env :: "string list \<Rightarrow> graph \<Rightarrow> string list \<Rightarrow> kahn_env" where
  "run_env ord g completed = \<lparr>k_graph = g, k_plans = map_of (plans (fst (Compile ord (new_vm g)))), k_completed = completed, k_order = ord\<rparr>"

lemma run_env_simps [simp]:
  "k_graph (run_env ord g completed) = g" "k_completed (run_env ord g completed) = completed"
  "k_order (run_env ord g completed) = ord"
  by (simp_all add: run_env_def)

lemma Compile_from_edges: "from_edges g (plans (fst (Compile ord (new_vm g))))"
  using from_edges_compile_graph [of g "[]" ord "[]"]
  by (auto simp: Compile_def new_vm_def Let_def split: prod.splits sum.splits)

lemma run_env_plans_ok: "plans_ok (run_env ord g completed)"
  using Compile_from_edges [of g ord] unfolding plans_ok_def from_edges_def by (simp add: run_env_def)

definition go_maps :: "string list \<Rightarrow> graph \<Rightarrow> bool" where
  "go_maps ord g \<longleftrightarrow> distinct (node_ids g) \<and> distinct ord \<and> set ord = set (node_ids g)"

lemma run_env_wf: "go_maps ord g \<Longrightarrow> kahn_wf (run_env ord g completed)"
  by (simp add: go_maps_def kahn_wf_def)

lemma run_inv: "kahn_reach (run_env ord g completed) s \<Longrightarrow> go_maps ord g \<Longrightarrow> kahn_inv (run_env ord g completed) s"
  by (rule kahn_reach_inv [OF _ run_env_wf run_env_plans_ok])

section \<open>The workers end\<close>

definition unscheduled :: "kahn_env \<Rightarrow> sched \<Rightarrow> string set" where
  "unscheduled K s = set (node_ids (k_graph K)) - set (scheduled s)"

definition work_left :: "kahn_env \<Rightarrow> sched \<Rightarrow> nat" where
  "work_left K s = 4 * card (unscheduled K s) + 3 * length (ready s) + 2 * length (busy s) + length (finished s)
     + (workers K - exited s)"

lemma card_unscheduled_grow:
  assumes "grown (k_graph K) s l pc"
  shows "card (unscheduled K (grow pc l s)) + length l = card (unscheduled K s)"
proof -
  have "unscheduled K (grow pc l s) = unscheduled K s - set l" by (auto simp: unscheduled_def)
  moreover have "set l \<subseteq> unscheduled K s" "finite (unscheduled K s)" using assms by (auto simp: grown_def unscheduled_def)
  moreover have "length l = card (set l)" using assms by (simp add: grown_def distinct_card)
  ultimately show ?thesis using card_mono [of "unscheduled K s" "set l"] by (simp add: card_Diff_subset)
qed

lemma work_left_update:
  assumes i: "kahn_inv K s" and n: "(n, sel) \<in> set (finished s)"
  shows "work_left K (complete K n sel (s\<lparr>finished := remove1 (n, sel) (finished s)\<rparr>)) < work_left K s"
proof -
  let ?g = "k_graph K" and ?s = "s\<lparr>finished := remove1 (n, sel) (finished s)\<rparr>"
  have d: "distinct (ids (finished s))" and co: "core K s" using i by (simp_all add: kahn_inv_def core_def active_def)
  note r = remove1_finished(3) [OF d n]
  show ?thesis
  proof (cases "suspended s \<or> suspend_requested s")
    case True
    then show ?thesis using r by (auto simp: complete_def count_processed_def work_left_def unscheduled_def)
  next
    case False
    have "processed s < scheduledCount s" using co length_pos_if_in_set [OF n] by (simp add: core_def active_def)
    then have "\<not> closed s" using i False by (simp add: kahn_inv_def ctl_def)
    then have ok: "chan_ok ?g ?s" using core_chan_ok [OF co] by (simp add: chan_ok_def)
    obtain l pc where c: "complete K n sel ?s = (grow pc l (?s\<lparr>applied := n # applied s, processed := Suc (processed s)\<rparr>))
        \<lparr>closed := Suc (processed s) = scheduledCount s + length l\<rparr>" and g: "grown ?g ?s l pc"
      by (rule complete_release [of ?s K n sel]) (use False ok in simp_all)
    have "grown ?g s l pc" using g by (simp add: grown_def)
    from card_unscheduled_grow [OF this]
    have "card (unscheduled K (complete K n sel ?s)) + length l = card (unscheduled K s)"
      unfolding c by (simp add: unscheduled_def)
    then show ?thesis using r unfolding c work_left_def by simp
  qed
qed

lemma work_left_step:
  assumes "kahn_step K s s'" "kahn_inv K s"
  shows "work_left K s' < work_left K s"
  using assms(1)
proof cases
  case (step_update n sel)
  then show ?thesis using work_left_update [OF assms(2)] by blast
next
  case (step_exec n sel b)
  then have "Suc (length (remove1 n (busy s))) = length (busy s)"
    by (simp add: length_remove1) (metis One_nat_def Suc_pred length_pos_if_in_set)
  then show ?thesis using step_exec(1) by (simp add: work_left_def unscheduled_def)
qed (auto simp: work_left_def unscheduled_def idle_worker_def)

lemma kahn_progress:
  assumes i: "kahn_inv K s" and f: "\<not> kahn_final K s"
  shows "\<exists>s'. kahn_step K s s'"
proof (cases "busy s = [] \<and> finished s = []")
  case True
  have "exited s < workers K" using i f by (auto simp: kahn_inv_def ctl_def kahn_final_def)
  then have idle: "idle_worker K s" using True by (simp add: idle_worker_def)
  show ?thesis
  proof (cases "ready s")
    case Nil
    then have "processed s = scheduledCount s" using i True by (simp add: kahn_inv_def core_def active_def)
    then have "closed s" using i by (simp add: kahn_inv_def ctl_def)
    then show ?thesis using step_exit idle Nil by blast
  next
    case (Cons n r)
    then show ?thesis using step_take idle by blast
  qed
next
  case False
  have "selects (k_graph K) n None" for n by (simp add: selects_def)
  then show ?thesis using False step_exec step_update by (metis list.set_intros(1) neq_Nil_conv surj_pair)
qed

section \<open>A run, evaluated\<close>

text \<open>A trigger leads to \<open>a\<close>, and \<open>a\<close> to \<open>b\<close>; the two workers run \<open>a\<close>, then \<open>b\<close>, and leave.\<close>

definition chain :: graph where
  "chain = \<lparr>TaskNodes = [(''a'', OtherNode), (''b'', ContractWriteNode)],
     g_edges = [\<lparr>ed_id = ''1'', ed_source = ''t'', ed_target = ''a''\<rparr>, \<lparr>ed_id = ''2'', ed_source = ''a'', ed_target = ''b''\<rparr>],
     g_trigger = Some ''t''\<rparr>"

definition chain_env :: kahn_env where
  "chain_env = run_env [''a'', ''b''] chain []"

definition take_node :: "sched \<Rightarrow> sched" where
  "take_node s = s\<lparr>ready := tl (ready s), busy := hd (ready s) # busy s, ran := ran s @ [hd (ready s)]\<rparr>"

definition end_node :: "kahn_env \<Rightarrow> string \<Rightarrow> sched \<Rightarrow> sched" where
  "end_node K n s = (let s1 = s\<lparr>busy := remove1 n (busy s), finished := (n, None) # finished s,
       suspend_requested := suspend_requested s \<or> False\<rparr>
     in complete K n None (s1\<lparr>finished := remove1 (n, None) (finished s1)\<rparr>))"

lemma reach_take: "kahn_reach K s \<Longrightarrow> idle_worker K s \<and> ready s \<noteq> [] \<Longrightarrow> kahn_reach K (take_node s)"
  unfolding take_node_def by (rule reach_step, assumption, rule step_take) auto

lemma reach_end: "kahn_reach K s \<Longrightarrow> n \<in> set (busy s) \<Longrightarrow> kahn_reach K (end_node K n s)"
  unfolding end_node_def Let_def
  by (rule reach_step [OF reach_step], assumption, rule step_exec [where sel = None and b = False], assumption)
    (simp add: selects_def, rule step_update, simp)

lemma reach_exit: "kahn_reach K s \<Longrightarrow> idle_worker K s \<and> closed s \<and> ready s = [] \<Longrightarrow> kahn_reach K (s\<lparr>exited := Suc (exited s)\<rparr>)"
  by (rule reach_step, assumption, rule step_exit) auto

definition chain_mid :: sched where
  "chain_mid = take_node (end_node chain_env ''a'' (take_node (kahn_init chain_env)))"

definition chain_end :: sched where
  "chain_end = (let s = end_node chain_env ''b'' chain_mid; s1 = s\<lparr>exited := Suc (exited s)\<rparr> in s1\<lparr>exited := Suc (exited s1)\<rparr>)"

lemma chain_maps: "go_maps [''a'', ''b''] chain"
  by code_simp

lemma chain_reach:
  "kahn_reach (run_env [''a'', ''b''] chain []) (kahn_init chain_env)"
  "kahn_reach (run_env [''a'', ''b''] chain []) chain_mid" "kahn_reach (run_env [''a'', ''b''] chain []) chain_end"
proof -
  show r: "kahn_reach (run_env [''a'', ''b''] chain []) (kahn_init chain_env)"
    unfolding chain_env_def [symmetric] by (rule reach_init) code_simp
  show m: "kahn_reach (run_env [''a'', ''b''] chain []) chain_mid"
    unfolding chain_mid_def chain_env_def [symmetric]
    by (intro reach_take reach_end r [folded chain_env_def]) code_simp+
  show "kahn_reach (run_env [''a'', ''b''] chain []) chain_end"
    unfolding chain_end_def chain_env_def [symmetric] Let_def
    by (intro reach_exit reach_end m [folded chain_env_def]) code_simp+
qed

section \<open>Properties of a run\<close>

text \<open>
C2: In every state the workers can reach, whatever the order in which they take nodes and whatever the nodes
select or suspend, no node has been executed twice, only nodes of the workflow have been executed, no worker has
sent on the closed channel or found it full, and at most sixteen workers are alive.
\<close>

theorem nodes_run_once:
  assumes "go_maps ord g" "kahn_reach (run_env ord g completed) s"
  shows "distinct (ran s) \<and> set (ran s) \<subseteq> set (node_ids g) \<and> \<not> fault s \<and>
    length (busy s) + length (finished s) + exited s \<le> 16"
  using run_inv [OF assms(2,1)] by (auto simp: kahn_inv_def core_def ctl_def workers_def)

theorem nodes_run_once_witness:
  "distinct (ran chain_end) \<and> set (ran chain_end) \<subseteq> set (node_ids chain) \<and> \<not> fault chain_end \<and>
   length (busy chain_end) + length (finished chain_end) + exited chain_end \<le> 16 \<and> ran chain_end = [''a'', ''b'']"
proof -
  have "ran chain_end = [''a'', ''b'']" by code_simp
  then show ?thesis using nodes_run_once [OF chain_maps chain_reach(3)] by blast
qed

text \<open>
C3: A node that no branch condition and no trigger leads to is put on the channel only when each node with an edge
to it has finished and been applied to the schedule, in this run or in the completed prefix; an applied node is
neither waiting nor being executed any more.
\<close>

theorem nodes_wait_for_predecessors:
  assumes "go_maps ord g" "kahn_reach (run_env ord g completed) s"
    and "plain g n" "n \<in> set (ready s) \<union> set (ran s)"
    and "e \<in> set (g_edges g)" "node_edge g e" "ed_target e = n"
  shows "ed_source e \<in> set (applied s) \<and> ed_source e \<in> set (ran s) \<union> set completed \<and>
    ed_source e \<notin> set (ready s) \<union> set (busy s)"
proof -
  note i = run_inv [OF assms(2,1)]
  have "n \<in> set (scheduled s)" using i assms(4) by (auto simp: kahn_inv_def core_def active_def)
  then have "predCount s n \<le> 0" "predCount s n = int (waiting g (set (applied s)) n)"
    using i assms(3) countsD(1,2) [of g "{}" s n] by (auto simp: kahn_inv_def)
  then have "waiting g (set (applied s)) n = 0" by simp
  then have a: "ed_source e \<in> set (applied s)" using assms(5-7) by (simp add: waiting_zero_iff)
  then show ?thesis using i by (auto simp: kahn_inv_def core_def active_def)
qed

theorem nodes_wait_for_predecessors_witness:
  "''b'' \<in> set (ran chain_mid) \<and> ''a'' \<in> set (applied chain_mid) \<and> ''a'' \<notin> set (ready chain_mid) \<union> set (busy chain_mid)"
proof -
  have "''b'' \<in> set (ran chain_mid)" by code_simp
  moreover have "plain chain ''b''" by code_simp
  moreover have "\<lparr>ed_id = ''2'', ed_source = ''a'', ed_target = ''b''\<rparr> \<in> set (g_edges chain)"
    "node_edge chain \<lparr>ed_id = ''2'', ed_source = ''a'', ed_target = ''b''\<rparr>" by code_simp+
  ultimately show ?thesis using nodes_wait_for_predecessors [OF chain_maps chain_reach(2)] by fastforce
qed

text \<open>
C4: The scheduler always returns. No infinite sequence of worker steps starts in a reachable state, and in a
reachable state in which not every worker has left some worker can take a step: the workers never block for ever
on a channel nobody closes.
\<close>

theorem scheduler_returns:
  assumes "go_maps ord g"
  shows "wf {(s', s). kahn_reach (run_env ord g completed) s \<and> kahn_step (run_env ord g completed) s s'} \<and>
    (\<forall>s. kahn_reach (run_env ord g completed) s \<longrightarrow> \<not> kahn_final (run_env ord g completed) s \<longrightarrow>
       (\<exists>s'. kahn_step (run_env ord g completed) s s'))"
proof
  let ?K = "run_env ord g completed"
  have "{(s', s). kahn_reach ?K s \<and> kahn_step ?K s s'} \<subseteq> measure (work_left ?K)"
    using work_left_step run_inv [OF _ assms] by auto
  then show "wf {(s', s). kahn_reach ?K s \<and> kahn_step ?K s s'}" by (rule wf_subset [OF wf_measure])
qed (use kahn_progress run_inv [OF _ assms] in blast)

theorem scheduler_returns_witness:
  "wf {(s', s). kahn_reach chain_env s \<and> kahn_step chain_env s s'} \<and> (\<exists>s'. kahn_step chain_env chain_mid s')"
proof -
  have "\<not> kahn_final chain_env chain_mid" by code_simp
  then show ?thesis
    using scheduler_returns [OF chain_maps, of "[]"] chain_reach(2) unfolding chain_env_def [symmetric] by blast
qed

section \<open>Coverage of a run\<close>

definition dependencies :: "graph \<Rightarrow> (string \<times> string) set" where
  "dependencies g = {(ed_source e, ed_target e) |e. e \<in> set (g_edges g) \<and> node_edge g e}"

lemma dependencies_code [code]:
  "dependencies g = set (map (\<lambda>e. (ed_source e, ed_target e)) (filter (node_edge g) (g_edges g)))"
  by (auto simp: dependencies_def)

lemma wf_dependencies: "acyclic (dependencies g) \<Longrightarrow> wf (dependencies g)"
  by (rule finite_acyclic_wf) (simp_all add: dependencies_code)

lemma chain_acyclic: "acyclic (dependencies chain)"
proof -
  have "dependencies chain = {(''a'', ''b'')}" by code_simp
  then show ?thesis by (simp add: acyclic_insert wf_acyclic)
qed

lemma final_settled:
  assumes i: "kahn_inv K s" and f: "kahn_final K s" "\<not> suspended s" and w: "0 < workers K"
  shows "set (scheduled s) = set (applied s)"
proof -
  have "exited s = workers K" using f by (simp add: kahn_final_def)
  then have "ready s = []" "busy s = []" "finished s = []" using i w by (auto simp: kahn_inv_def ctl_def)
  then show ?thesis using i f(2) by (auto simp: kahn_inv_def core_def active_def)
qed

lemma unscheduled_waits:
  assumes "counts g {} s" "is_node g n" "\<not> gatedTargets g n" "n \<notin> set (scheduled s)"
  obtains e where "e \<in> set (g_edges g)" "node_edge g e" "ed_target e = n" "ed_source e \<notin> set (applied s)"
proof -
  have "0 < waiting g (set (applied s)) n" using countsD(3,4) [OF assms(1-3)] assms(4) by force
  then show thesis using that waiting_zero_iff [of g "set (applied s)" n] by auto
qed

lemma reach_some_worker: "kahn_reach (run_env ord g completed) s \<Longrightarrow> go_maps ord g \<Longrightarrow> 0 < workers (run_env ord g completed)"
proof (induction rule: kahn_reach.induct)
  case reach_init
  have "kahn_inv (run_env ord g completed) (kahn_init (run_env ord g completed))"
    using reach_init by (intro kahn_inv_init run_env_wf)
  then have "set (scheduled (kahn_init (run_env ord g completed))) \<subseteq> set (node_ids g)"
    "scheduledCount (kahn_init (run_env ord g completed)) \<le> length (active (kahn_init (run_env ord g completed)))
       + processed (kahn_init (run_env ord g completed))"
    "set (active (kahn_init (run_env ord g completed))) \<subseteq> set (scheduled (kahn_init (run_env ord g completed)))"
    by (auto simp: kahn_inv_def core_def)
  moreover have "processed (kahn_init (run_env ord g completed)) = 0"
    using kahn_init_inv [OF run_env_wf [OF reach_init(2)]] by (auto simp: seed_inv_def)
  ultimately have "set (node_ids g) \<noteq> {}" using reach_init(1) by (metis add_0_right le_zero_eq length_0_conv
      not_gr_zero set_empty subset_empty)
  then show ?case by (simp add: workers_def node_ids_def)
qed

text \<open>
C5: When a fresh run ends without having been suspended, every node that is not reached only through branch
conditions, and whose predecessors all ran, has run; so in a workflow without cycles and without branch conditions
every node has run.
\<close>

theorem run_reaches_every_node:
  assumes "go_maps ord g" "kahn_reach (run_env ord g []) s" "kahn_final (run_env ord g []) s" "\<not> suspended s"
  shows "(\<forall>n. is_node g n \<longrightarrow> \<not> gatedTargets g n \<longrightarrow>
      (\<forall>e\<in>set (g_edges g). node_edge g e \<longrightarrow> ed_target e = n \<longrightarrow> ed_source e \<in> set (ran s)) \<longrightarrow> n \<in> set (ran s)) \<and>
    (acyclic (dependencies g) \<longrightarrow> (\<forall>e\<in>set (g_edges g). \<not> branch_source e) \<longrightarrow> set (ran s) = set (node_ids g))"
proof -
  note i = run_inv [OF assms(2,1)]
  have set: "set (scheduled s) = set (applied s)"
    using final_settled [OF i assms(3,4)] reach_some_worker [OF assms(2,1)] by simp
  then have ran: "set (ran s) = set (scheduled s)" using i by (auto simp: kahn_inv_def core_def)
  have c: "counts g {} s" using i by (simp add: kahn_inv_def)
  have closed: "n \<in> set (ran s)" if n: "is_node g n" "\<not> gatedTargets g n"
    and e: "\<forall>e\<in>set (g_edges g). node_edge g e \<longrightarrow> ed_target e = n \<longrightarrow> ed_source e \<in> set (ran s)" for n
  proof (rule ccontr)
    assume "n \<notin> set (ran s)"
    then have "n \<notin> set (scheduled s)" by (simp add: ran)
    from unscheduled_waits [OF c n this] e show False unfolding ran set by blast
  qed
  moreover have "set (ran s) = set (node_ids g)"
    if a: "acyclic (dependencies g)" and b: "\<forall>e\<in>set (g_edges g). \<not> branch_source e"
  proof
    show "set (ran s) \<subseteq> set (node_ids g)" using i ran by (auto simp: kahn_inv_def core_def)
    have "is_node g n \<longrightarrow> n \<in> set (ran s)" for n
      using wf_dependencies [OF a]
    proof (induction n rule: wf_induct_rule)
      case (less n)
      have "\<not> gatedTargets g n" using b by (auto simp: gatedTargets_def gated_edge_def list_ex_iff)
      then show ?case using closed less by (auto simp: dependencies_def node_edge_def)
    qed
    then show "set (node_ids g) \<subseteq> set (ran s)" by (auto simp: is_node_def)
  qed
  ultimately show ?thesis by blast
qed

theorem run_reaches_every_node_witness:
  "set (ran chain_end) = set (node_ids chain) \<and> acyclic (dependencies chain)"
proof -
  have "kahn_final (run_env [''a'', ''b''] chain []) chain_end" "\<not> suspended chain_end"
    "\<forall>e\<in>set (g_edges chain). \<not> branch_source e" by code_simp+
  then show ?thesis using chain_acyclic run_reaches_every_node [OF chain_maps chain_reach(3)] by blast
qed

section \<open>Resuming\<close>

definition prefix_closed :: "graph \<Rightarrow> string list \<Rightarrow> bool" where
  "prefix_closed g completed \<longleftrightarrow> set completed \<subseteq> set (node_ids g) \<and>
     (\<forall>e\<in>set (g_edges g). node_edge g e \<longrightarrow> ed_target e \<in> set completed \<longrightarrow> ed_source e \<in> set completed)"

definition not_repeated :: "kahn_env \<Rightarrow> sched \<Rightarrow> bool" where
  "not_repeated K s \<longleftrightarrow> set (k_completed K) \<subseteq> set (scheduled s) \<and> set (k_completed K) \<inter> set (ready s @ ran s) = {}"

lemma seed_completes_prefix:
  assumes i: "seed_inv K [] v s" and a: "acyclic (dependencies (k_graph K))" and p: "prefix_closed (k_graph K) (k_completed K)"
  shows "not_repeated K s"
proof -
  have "n \<in> set (k_completed K) \<longrightarrow> n \<in> set (applied s)" for n
    using wf_dependencies [OF a]
  proof (induction n rule: wf_induct_rule)
    case (less n)
    show ?case
    proof
      assume n: "n \<in> set (k_completed K)"
      then have node: "is_node (k_graph K) n" using p by (auto simp: prefix_closed_def is_node_def)
      have pred: "ed_source e \<in> set (applied s)"
        if "e \<in> set (g_edges (k_graph K))" "node_edge (k_graph K) e" "ed_target e = n" for e
        using less that p n unfolding prefix_closed_def dependencies_def by blast
      have "n \<in> set (scheduled s)"
      proof (cases "gatedTargets (k_graph K) n")
        case False
        then show ?thesis using unscheduled_waits [of "k_graph K" s n] node pred i by (auto simp: seed_inv_def)
      qed (use i n in \<open>simp add: seed_inv_def\<close>)
      then show "n \<in> set (applied s)" using i n by (auto simp: seed_inv_def core_def active_def)
    qed
  qed
  then show ?thesis using i by (auto simp: not_repeated_def seed_inv_def core_def)
qed

lemma not_repeated_step:
  assumes st: "kahn_step K s s'" and i: "kahn_inv K s" and nr: "not_repeated K s"
  shows "not_repeated K s'"
  using st
proof cases
  case (step_update n sel)
  let ?s = "s\<lparr>finished := remove1 (n, sel) (finished s)\<rparr>"
  have nr': "not_repeated K ?s" using nr by (simp add: not_repeated_def)
  show ?thesis
  proof (cases "suspended s \<or> suspend_requested s")
    case True
    then show ?thesis using nr' step_update by (auto simp: complete_def count_processed_def not_repeated_def)
  next
    case False
    have co: "core K s" using i by (simp add: kahn_inv_def)
    have "processed s < scheduledCount s" using co length_pos_if_in_set [OF step_update(2)] by (simp add: core_def active_def)
    then have ok: "chan_ok (k_graph K) ?s" using core_chan_ok [OF co] i False by (simp add: kahn_inv_def ctl_def chan_ok_def)
    obtain l pc where "complete K n sel ?s = (grow pc l (?s\<lparr>applied := n # applied s, processed := Suc (processed s)\<rparr>))
        \<lparr>closed := Suc (processed s) = scheduledCount s + length l\<rparr>" "grown (k_graph K) ?s l pc"
      by (rule complete_release [of ?s K n sel]) (use False ok in simp_all)
    then show ?thesis using nr' step_update(1) by (auto simp: not_repeated_def grown_def)
  qed
qed (use nr in \<open>auto simp: not_repeated_def\<close>)

text \<open>
C6: A run resumed after a set of completed nodes that contains the predecessors of its members never executes one of
them again, in a workflow without cycles.
\<close>

theorem resume_never_repeats:
  assumes "go_maps ord g" "kahn_reach (run_env ord g completed) s" "acyclic (dependencies g)" "prefix_closed g completed"
  shows "set (ran s) \<inter> set completed = {}"
proof -
  let ?K = "run_env ord g completed"
  have "not_repeated ?K s"
    using assms(2)
  proof (induction rule: kahn_reach.induct)
    case reach_init
    obtain v where "seed_inv ?K [] v (kahn_init ?K)" using kahn_init_inv [OF run_env_wf [OF assms(1)]] by blast
    then show ?case by (rule seed_completes_prefix) (use assms(3,4) in simp_all)
  next
    case (reach_step s s')
    then show ?case using not_repeated_step run_inv [OF _ assms(1)] by blast
  qed
  then show ?thesis by (auto simp: not_repeated_def)
qed

theorem resume_never_repeats_witness:
  "set (ran (take_node (kahn_init (run_env [''a'', ''b''] chain [''a''])))) = {''b''} \<and>
   set (ran (take_node (kahn_init (run_env [''a'', ''b''] chain [''a''])))) \<inter> set [''a''] = {}"
proof -
  let ?K = "run_env [''a'', ''b''] chain [''a'']"
  have r: "kahn_reach ?K (take_node (kahn_init ?K))" by (intro reach_take reach_init) code_simp+
  have p: "prefix_closed chain [''a'']" by code_simp
  have "set (ran (take_node (kahn_init ?K))) = {''b''}" by code_simp
  then show ?thesis by (intro conjI resume_never_repeats [OF chain_maps r chain_acyclic p])
qed

section \<open>What resuming and branching do not guarantee\<close>

text \<open>
  A node with both a branch edge and a regular edge runs as soon as its branch is taken; when the run is suspended
  before its other predecessor ends, the resumed run executes it a second time: here \<open>m\<close> has completed, and \<open>x\<close>,
  which also leads to it, has not.
\<close>

definition mixed :: graph where
  "mixed = \<lparr>TaskNodes = [(''b'', BranchNode [''0'']), (''x'', OtherNode), (''m'', EthTransferNode)],
     g_edges = [\<lparr>ed_id = ''1'', ed_source = ''t'', ed_target = ''b''\<rparr>, \<lparr>ed_id = ''2'', ed_source = ''t'', ed_target = ''x''\<rparr>,
       \<lparr>ed_id = ''3'', ed_source = ''b.0'', ed_target = ''m''\<rparr>, \<lparr>ed_id = ''4'', ed_source = ''x'', ed_target = ''m''\<rparr>],
     g_trigger = Some ''t''\<rparr>"

lemma mixed_target_repeats:
  defines "K \<equiv> run_env [''b'', ''x'', ''m''] mixed [''b'', ''m'']"
  shows "kahn_reach K (take_node (end_node K ''x'' (take_node (kahn_init K)))) \<and>
    ''m'' \<in> set (ran (take_node (end_node K ''x'' (take_node (kahn_init K))))) \<inter> set (k_completed K)"
proof
  show "kahn_reach K (take_node (end_node K ''x'' (take_node (kahn_init K))))"
    unfolding K_def by (intro reach_take reach_end reach_init) code_simp+
  show "''m'' \<in> set (ran (take_node (end_node K ''x'' (take_node (kahn_init K))))) \<inter> set (k_completed K)"
    unfolding K_def by code_simp
qed

text \<open>Two conditions of one branch that lead to the same node close two gates, and a selected condition opens one.\<close>

definition twice_gated :: graph where
  "twice_gated = \<lparr>TaskNodes = [(''b'', BranchNode [''0'', ''1'']), (''m'', OtherNode)],
     g_edges = [\<lparr>ed_id = ''1'', ed_source = ''t'', ed_target = ''b''\<rparr>, \<lparr>ed_id = ''2'', ed_source = ''b.0'', ed_target = ''m''\<rparr>,
       \<lparr>ed_id = ''3'', ed_source = ''b.1'', ed_target = ''m''\<rparr>],
     g_trigger = Some ''t''\<rparr>"

lemma twice_gated_never_ready:
  defines "K \<equiv> run_env [''b'', ''m''] twice_gated []"
  assumes c: "c = ''b.0'' \<or> c = ''b.1''"
  shows "let s = complete K ''b'' (Some c) (take_node (kahn_init K)\<lparr>busy := []\<rparr>) in closed s \<and> ready s = [] \<and> predCount s ''m'' = 1"
proof (cases "c = ''b.0''")
  case True
  show ?thesis unfolding True K_def by code_simp
next
  case False
  then have c: "c = ''b.1''" using c by simp
  show ?thesis unfolding c K_def by code_simp
qed

section \<open>Compile and Run\<close>

text \<open>What the sort has processed, \<open>D\<close>, and its queue: a node enters the queue once, when its in-degree falls to zero.\<close>

definition topo_inv :: "graph \<Rightarrow> string set \<Rightarrow> (string \<Rightarrow> int) \<Rightarrow> string list \<Rightarrow> bool" where
  "topo_inv g D deg q \<longleftrightarrow> distinct q \<and> set q \<inter> D = {} \<and> set q \<union> D \<subseteq> set (node_ids g) \<and> (\<forall>n\<in>set q \<union> D. deg n \<le> 0)"

lemma relax_inv: "topo_inv g D deg q \<Longrightarrow> relax g ss deg q = (deg', q') \<Longrightarrow> topo_inv g D deg' q'"
proof (induction ss arbitrary: deg q)
  case (Cons m ss)
  let ?deg = "deg(m := deg m - 1)" and ?q = "if deg m - 1 = 0 then q @ [m] else q"
  show ?case
  proof (cases "is_node g m")
    case True
    have "deg m \<le> 0" if "m \<in> set q \<union> D" using Cons.prems(1) that by (simp add: topo_inv_def)
    then have "topo_inv g D ?deg ?q"
      using Cons.prems(1) True unfolding topo_inv_def is_node_def by (cases "deg m = 1") force+
    then show ?thesis using Cons.IH Cons.prems(2) True by (simp add: Let_def)
  qed (use Cons in simp)
qed simp

text \<open>Condition ids and the id of the trigger are not ids of nodes.\<close>

definition ids_apart :: "graph \<Rightarrow> bool" where
  "ids_apart g \<longleftrightarrow> (\<forall>t. g_trigger g = Some t \<longrightarrow> \<not> is_node g t) \<and>
     (\<forall>(n, x)\<in>set (TaskNodes g). case x of BranchNode cs \<Rightarrow> (\<forall>c\<in>set cs. \<not> is_node g (condition_id n c)) | _ \<Rightarrow> True)"

definition planned :: "graph \<Rightarrow> (string \<times> plan_step) list \<Rightarrow> string set" where
  "planned g ps = {n \<in> set (node_ids g). map_of ps n \<noteq> None}"

lemma planned_add_plan: "planned g (add_plan g n ps) = planned g ps \<union> (if is_node g n then {n} else {})"
  by (auto simp: planned_def add_plan_def update_conv' is_node_def)

lemma planned_foldl: "planned g (foldl (\<lambda>m c. add_plan g (f c) m) ps cs) = planned g ps \<union> {n \<in> f ` set cs. is_node g n}"
  by (induction cs arbitrary: ps) (auto simp: planned_add_plan)

lemma planned_condition_plans: "ids_apart g \<Longrightarrow> planned g (condition_plans g n ps) = planned g ps"
proof (cases "\<exists>cs. map_of (TaskNodes g) n = Some (BranchNode cs)")
  case True
  then obtain cs where cs: "map_of (TaskNodes g) n = Some (BranchNode cs)" by blast
  assume "ids_apart g"
  then have "\<forall>c\<in>set cs. \<not> is_node g (condition_id n c)" using map_of_SomeD [OF cs] by (fastforce simp: ids_apart_def)
  then show ?thesis by (auto simp: condition_plans_def cs planned_foldl)
qed (auto simp: condition_plans_def split: option.split vm_node.split)

lemma topo_loop_planned:
  assumes "topo_loop g deg q ps k = (ps', k')" "topo_inv g (planned g ps) deg q" "ids_apart g" "k = card (planned g ps)"
  shows "k' = card (planned g ps')"
  using assms
proof (induction g deg q ps k rule: topo_loop.induct)
  case (2 g deg c q ps k)
  obtain deg' q' where r: "relax g (compile_adj g c) deg q = (deg', q')" by fastforce
  have c: "c \<notin> planned g ps" "is_node g c" using "2.prems"(2) by (auto simp: topo_inv_def is_node_def)
  let ?ps = "condition_plans g c (add_plan g c ps)"
  have p: "planned g ?ps = insert c (planned g ps)"
    using c(2) "2.prems"(3) by (simp add: planned_condition_plans planned_add_plan)
  have "topo_inv g (insert c (planned g ps)) deg q" using "2.prems"(2) by (auto simp: topo_inv_def)
  then have "topo_inv g (planned g ?ps) deg' q'" unfolding p using r by (rule relax_inv)
  moreover have "Suc k = card (planned g ?ps)" using c(1) "2.prems"(4) unfolding p by (simp add: planned_def)
  ultimately show ?case using "2.IH" [OF r [symmetric]] "2.prems"(1,3) r by simp
qed simp

lemma unplanned_card:
  assumes "distinct (node_ids g)"
  shows "length (filter (\<lambda>n. map_of ps n = None) (node_ids g)) + card (planned g ps) = length (TaskNodes g)"
proof -
  have "length (filter (\<lambda>n. map_of ps n \<noteq> None) (node_ids g)) = card (planned g ps)"
    using assms by (simp add: planned_def distinct_length_filter Int_def conj_commute)
  then show ?thesis
    using sum_length_filter_compl [of "\<lambda>n. map_of ps n = None" "node_ids g"] by (simp add: node_ids_def)
qed

lemma compile_finish_total:
  assumes "distinct (node_ids g)" "k = card (planned g ps)"
  shows "\<exists>ps'. compile_finish g ps k = Inr ps' \<and> planned g ps' = set (node_ids g)"
proof (cases "k = length (TaskNodes g)")
  case True
  then have "card (planned g ps) = card (set (node_ids g))" using assms distinct_card [OF assms(1)] by (simp add: node_ids_def)
  then have "planned g ps = set (node_ids g)" by (intro card_subset_eq) (auto simp: planned_def)
  then show ?thesis using True by (simp add: compile_finish_def Let_def)
next
  case False
  have "int (length (TaskNodes g)) - int k = int (length (filter (\<lambda>n. map_of ps n = None) (node_ids g)))"
    using unplanned_card [OF assms(1), of ps] assms(2) by simp
  then have "compile_finish g ps k = Inr (foldl (\<lambda>m n. add_plan g n m) ps (filter (\<lambda>n. map_of ps n = None) (node_ids g)))"
    using False by (simp add: compile_finish_def Let_def)
  moreover have "planned g (foldl (\<lambda>m n. add_plan g n m) ps (filter (\<lambda>n. map_of ps n = None) (node_ids g))) = set (node_ids g)"
    using planned_foldl [of g "\<lambda>n. n"] by (auto simp: planned_def is_node_def)
  ultimately show ?thesis by blast
qed

lemma compile_roots_inv:
  assumes "compile_roots ord g [] = Inr (deg, q)" "go_maps ord g"
  shows "topo_inv g {} deg q"
proof -
  have "q = [] \<or> q = roots g ord deg"
    using assms(1) by (cases "has_trigger g") (simp_all add: compile_roots_def Let_def split: if_split_asm, (elim conjE, hypsubst, simp)+)
  moreover have "topo_inv g {} deg []" by (simp add: topo_inv_def)
  moreover have "set ord = set (node_ids g)" "distinct ord" using assms(2) by (simp_all add: go_maps_def)
  then have "topo_inv g {} deg (roots g ord deg)" unfolding topo_inv_def roots_def by auto
  ultimately show ?thesis by metis
qed

lemma compile_entry_planned:
  assumes "compile_entry g q [] [] = Inr (entry, ps)" "ids_apart g"
  shows "planned g ps = {}"
  using assms by (auto simp: compile_entry_def Let_def planned_add_plan ids_apart_def has_trigger_def planned_def [of g "[]"] split: if_splits)

lemma compile_graph_result:
  assumes "go_maps ord g" "ids_apart g"
  shows "snd (compile_graph ord g [] []) \<noteq> Inl (CycleDetected k t)"
    "snd (compile_graph ord g [] []) = Inr () \<Longrightarrow> planned g (snd (fst (compile_graph ord g [] []))) = set (node_ids g)"
proof -
  let ?pre = "bindE (check_edges g (g_edges g)) (\<lambda>_. bindE (compile_roots ord g []) (\<lambda>(deg, q).
        bindE (compile_entry g q [] []) (\<lambda>(entry', ps'). Inr (deg, q, entry', ps'))))"
  have "snd (compile_graph ord g [] []) \<noteq> Inl (CycleDetected k t) \<and>
    (snd (compile_graph ord g [] []) = Inr () \<longrightarrow> planned g (snd (fst (compile_graph ord g [] []))) = set (node_ids g))"
  proof (cases ?pre)
    case (Inl err)
    have "check_edges g es \<noteq> Inl (CycleDetected k t)" for es by (induction es) auto
    moreover have "compile_roots ord g [] \<noteq> Inl (CycleDetected k t)" "compile_entry g q [] [] \<noteq> Inl (CycleDetected k t)" for q
      by (simp_all add: compile_roots_def compile_entry_def Let_def)
    ultimately have "err \<noteq> CycleDetected k t" using Inl by (auto simp: bindE_Inl_conv split: prod.splits)
    then show ?thesis using Inl by (simp add: compile_graph_def)
  next
    case (Inr r)
    obtain deg q entry' ps' where r: "r = (deg, q, entry', ps')" by (metis surj_pair)
    have e: "compile_entry g q [] [] = Inr (entry', ps')" and q: "compile_roots ord g [] = Inr (deg, q)"
      using Inr unfolding r by (auto split: prod.splits)
    have pl: "planned g ps' = {}" by (rule compile_entry_planned [OF e assms(2)])
    obtain ps'' n where l: "topo_loop g deg q ps' 0 = (ps'', n)" by fastforce
    have "n = card (planned g ps'')"
      by (rule topo_loop_planned [OF l]) (use compile_roots_inv [OF q assms(1)] pl assms(2) in simp_all)
    moreover have "distinct (node_ids g)" using assms(1) by (simp add: go_maps_def)
    ultimately obtain ps3 where "compile_finish g ps'' n = Inr ps3" "planned g ps3 = set (node_ids g)"
      using compile_finish_total by blast
    then show ?thesis using Inr l unfolding r compile_graph_def by simp
  qed
  then show "snd (compile_graph ord g [] []) \<noteq> Inl (CycleDetected k t)"
    "snd (compile_graph ord g [] []) = Inr () \<Longrightarrow> planned g (snd (fst (compile_graph ord g [] []))) = set (node_ids g)" by blast+
qed

text \<open>
Compiling a workflow whose condition ids and trigger id are not node ids never reports a cycle, cyclic or not;
when it succeeds every node has a plan whose successors are the targets of its edges, and the VM is compiled.
\<close>

lemma Compile_plans_every_node:
  assumes "go_maps ord g" "ids_apart g"
  shows "(\<forall>k t. snd (Compile ord (new_vm g)) \<noteq> Inl (CycleDetected k t)) \<and>
    (snd (Compile ord (new_vm g)) = Inr () \<longrightarrow> vm_status (fst (Compile ord (new_vm g))) = VMStateCompiled \<and>
       (\<forall>n\<in>set (node_ids g). \<exists>p. map_of (plans (fst (Compile ord (new_vm g)))) n = Some p \<and> step_next p = compile_adj g n))"
proof (cases "TaskNodes g = []")
  case True
  then show ?thesis by (auto simp: Compile_def new_vm_def Let_def node_ids_def)
next
  case False
  obtain entry ps r where c: "compile_graph ord g [] [] = ((entry, ps), r)" by (metis surj_pair)
  have "r \<noteq> Inl (CycleDetected k t)" "r = Inr () \<Longrightarrow> planned g ps = set (node_ids g)" for k t
    using compile_graph_result [OF assms] unfolding c by simp_all
  moreover have C: "Compile ord (new_vm g) = (case r of
      Inl e \<Rightarrow> ((new_vm g)\<lparr>entrypoint := entry, plans := ps\<rparr>, Inl e)
    | Inr _ \<Rightarrow> ((new_vm g)\<lparr>entrypoint := entry, plans := ps, vm_status := VMStateCompiled\<rparr>, Inr ()))"
    using False by (cases r) (simp_all add: Compile_def new_vm_def Let_def c)
  moreover have "from_edges g ps" using from_edges_compile_graph [of g "[]" ord "[]"] unfolding c by simp
  moreover have "n \<in> planned g ps \<Longrightarrow> \<exists>p. map_of ps n = Some p" for n by (auto simp: planned_def)
  ultimately show ?thesis unfolding from_edges_def by (cases r) (simp, simp, metis)
qed

lemma Compile_plans_every_node_witness:
  "(\<forall>k t. snd (Compile [''a'', ''b''] (new_vm chain)) \<noteq> Inl (CycleDetected k t)) \<and>
   (\<exists>p. map_of (plans (fst (Compile [''a'', ''b''] (new_vm chain)))) ''a'' = Some p \<and> step_next p = [''b''])"
proof -
  have "ids_apart chain" by (simp add: ids_apart_def chain_def is_node_def node_ids_def)
  moreover have "snd (Compile [''a'', ''b''] (new_vm chain)) = Inr ()" "''a'' \<in> set (node_ids chain)"
    "compile_adj chain ''a'' = [''b'']" by code_simp+
  ultimately show ?thesis using Compile_plans_every_node [OF chain_maps] by metis
qed

lemma compile_graph_entry:
  assumes "snd (compile_graph ord g [] []) = Inr ()" "go_maps ord g" "TaskNodes g \<noteq> []" "[] \<notin> set (node_ids g)"
  shows "fst (fst (compile_graph ord g [] [])) \<noteq> []"
proof -
  let ?pre = "bindE (check_edges g (g_edges g)) (\<lambda>_. bindE (compile_roots ord g []) (\<lambda>(deg, q).
        bindE (compile_entry g q [] []) (\<lambda>(entry', ps'). Inr (deg, q, entry', ps'))))"
  obtain deg q entry' ps' where r: "?pre = Inr (deg, q, entry', ps')"
    using assms(1) by (cases ?pre) (auto simp: compile_graph_def)
  then have e: "compile_entry g q [] [] = Inr (entry', ps')" and q: "compile_roots ord g [] = Inr (deg, q)"
    by (auto split: prod.splits)
  have "set q \<subseteq> set (node_ids g)" using compile_roots_inv [OF q assms(2)] by (simp add: topo_inv_def)
  then have "hd q \<noteq> []" if "q \<noteq> []" using hd_in_set [OF that] assms(4) by auto
  then have "entry' \<noteq> []"
    using e assms(3) by (auto simp: compile_entry_def Let_def has_trigger_def split: if_splits)
  then show ?thesis using r by (cases "topo_loop g deg q ps' 0") (simp add: compile_graph_def split: sum.split)
qed

text \<open>
A VM that compiled a workflow with nodes can run it, and a VM that has not been compiled cannot: \<open>Run\<close> meets it by
unlocking a mutex that it has already unlocked, which ends the process, so its automatic compile is never reached.
\<close>

lemma Run_requires_Compile:
  assumes "go_maps ord g" "ids_apart g" "TaskNodes g \<noteq> []" "[] \<notin> set (node_ids g)"
  shows "(snd (Compile ord (new_vm g)) = Inr () \<longrightarrow> Run ord (fst (Compile ord (new_vm g))) = StartScheduler) \<and>
    Run ord (new_vm g) = FatalUnlock"
proof
  show "Run ord (new_vm g) = FatalUnlock" by (simp add: Run_def new_vm_def unlock_def)
  show "snd (Compile ord (new_vm g)) = Inr () \<longrightarrow> Run ord (fst (Compile ord (new_vm g))) = StartScheduler"
  proof
    assume ok: "snd (Compile ord (new_vm g)) = Inr ()"
    obtain entry ps r where c: "compile_graph ord g [] [] = ((entry, ps), r)" by (metis surj_pair)
    then have r: "r = Inr ()" using ok assms(3) by (cases r) (simp_all add: Compile_def new_vm_def Let_def)
    have "entry \<noteq> []" using compile_graph_entry [OF _ assms(1,3,4)] unfolding c r by simp
    moreover have "planned g ps = set (node_ids g)" using compile_graph_result(2) [OF assms(1,2)] unfolding c r by simp
    then have "ps \<noteq> []" using assms(3) by (auto simp: planned_def node_ids_def)
    moreover have "Compile ord (new_vm g) = ((new_vm g)\<lparr>entrypoint := entry, plans := ps, vm_status := VMStateCompiled\<rparr>, Inr ())"
      using assms(3) by (simp add: Compile_def new_vm_def Let_def c r)
    ultimately show "Run ord (fst (Compile ord (new_vm g))) = StartScheduler"
      by (simp add: Run_def run_checks_def Let_def)
  qed
qed

lemma Run_requires_Compile_witness:
  "Run [''a'', ''b''] (fst (Compile [''a'', ''b''] (new_vm chain))) = StartScheduler \<and>
   Run [''a'', ''b''] (new_vm chain) = FatalUnlock"
proof -
  have "ids_apart chain" by (simp add: ids_apart_def chain_def is_node_def node_ids_def)
  moreover have "snd (Compile [''a'', ''b''] (new_vm chain)) = Inr ()" "TaskNodes chain \<noteq> []" "[] \<notin> set (node_ids chain)"
    by code_simp+
  ultimately show ?thesis using Run_requires_Compile [OF chain_maps] by metis
qed

end
