(* ===== verification/BudgetChangeInv.thy ===== *)
theory BudgetChangeInv
  imports BudgetChange
begin

text \<open>
  What the journal of budget changes keeps. The abstract state is the map from (chain, owner, wallet, nonce) to the
  stored hold. Every handler changes it in one of two ways: it marks the hold of its own wallet with a further
  attempt, or it releases a hold whose nonce the chain showed consumed.
\<close>

section \<open>Keys\<close>

definition hold_key :: "int \<Rightarrow> address \<Rightarrow> address \<Rightarrow> string \<Rightarrow> bytes" where
  "hold_key c ow w n = join ''budgethold'' (join (sdecimal c) (join (lower_hex ow) (join (lower_hex w) n)))"

lemma join_append: "join a b @ x = join a (b @ x)"
  by (simp add: join_def)

lemma budgetHoldKey_eq: "budgetHoldKey h = hold_key (h_chain h) (h_owner h) (h_wallet h) (h_nonce h)"
  by (simp add: budgetHoldKey_def budgetHoldPrefix_def hold_key_def join_append)

lemma hold_key_inject [simp]: "hold_key c ow w n = hold_key c' ow' w' n' \<longleftrightarrow> c = c' \<and> ow = ow' \<and> w = w' \<and> n = n'"
  by (simp add: hold_key_def key_simps)

lemma prefix_hold_key: "prefix (budgetHoldPrefix c ow w) k \<longleftrightarrow> (\<exists>n. k = hold_key c ow w n)"
  by (auto simp: budgetHoldPrefix_def hold_key_def prefix_def join_def)

lemma budgetPreparationKey_eq: "budgetPreparationKey ow i = join ''budgetprep'' (join (lower_hex ow) i)"
  by (simp add: budgetPreparationKey_def budgetPreparationPrefix_def join_append)

lemma key_families [simp]:
  "budgetPreparationKey ow i \<noteq> hold_key c' ow' w' n'" "SessionPolicyKey c ow i \<noteq> hold_key c' ow' w' n'"
  "hold_key c' ow' w' n' \<noteq> budgetPreparationKey ow i" "hold_key c' ow' w' n' \<noteq> SessionPolicyKey c ow i"
  "budgetPreparationKey ow i \<noteq> SessionPolicyKey c2 ow2 j" "SessionPolicyKey c2 ow2 j \<noteq> budgetPreparationKey ow i"
  by (simp_all add: budgetPreparationKey_eq hold_key_def SessionPolicyKey_def key_simps)

lemma preparation_key_inject [simp]: "budgetPreparationKey ow i = budgetPreparationKey ow' i' \<longleftrightarrow> ow = ow' \<and> i = i'"
  by (simp add: budgetPreparationKey_eq key_simps)

section \<open>Laws of the environment\<close>

text \<open>
  JSON keeps the records whose texts are UTF-8 and decodes to such records, a ULID and a printed hash are ASCII, and
  \<open>CheckAuthorities\<close> writes only its own rows.
\<close>

definition hold_text :: "'d change_env \<Rightarrow> budget_hold \<Rightarrow> bool" where
  "hold_text E h \<longleftrightarrow> list_all (utf8 (ce_auth E)) (h_nonce h # h_attempts h)"

definition change_env_ok :: "'d change_env \<Rightarrow> bool" where
  "change_env_ok E \<longleftrightarrow> auth_env_ok (ce_auth E) \<and>
     (\<forall>h v. hold_text E h \<longrightarrow> hold_to_json E h = Some v \<longrightarrow> hold_from_json E v = Some h) \<and>
     (\<forall>h v. hold_from_json E v = Some h \<longrightarrow> hold_text E h) \<and>
     (\<forall>v p q. change_from_json E v = Some p \<longrightarrow> bc_policy p = Some q \<longrightarrow> text_ok (ce_auth E) q) \<and>
     (\<forall>s. ulid_strict E s \<longrightarrow> ascii s) \<and> (\<forall>x. ascii (hex_of_hash E x))"

definition backend_ok :: "'d change_env \<Rightarrow> ('d, 'v) budget_backend \<Rightarrow> bool" where
  "backend_ok E K \<longleftrightarrow> (\<forall>v d ow w k. (\<exists>c o' w' n. k = hold_key c o' w' n) \<or> policy_key k \<or> (\<exists>o' i. k = budgetPreparationKey o' i) \<longrightarrow>
     rows_of (ce_badger E) (fst (CheckAuthorities K v d ow w)) k = rows_of (ce_badger E) d k)"

lemma change_env_auth: "change_env_ok E \<Longrightarrow> auth_env_ok (ce_auth E)"
  and change_env_badger: "change_env_ok E \<Longrightarrow> badger_ok (ce_badger E)"
  and hold_roundtrip: "change_env_ok E \<Longrightarrow> hold_text E h \<Longrightarrow> hold_to_json E h = Some v \<Longrightarrow> hold_from_json E v = Some h"
  and hold_decoded: "change_env_ok E \<Longrightarrow> hold_from_json E v = Some h \<Longrightarrow> hold_text E h"
  and change_policy_text: "change_env_ok E \<Longrightarrow> change_from_json E v = Some p \<Longrightarrow> bc_policy p = Some q \<Longrightarrow> text_ok (ce_auth E) q"
  and ulid_ascii: "change_env_ok E \<Longrightarrow> ulid_strict E s \<Longrightarrow> ascii s"
  and hash_ascii: "change_env_ok E \<Longrightarrow> ascii (hex_of_hash E x)"
  unfolding change_env_ok_def by (blast dest: env_badger)+

section \<open>The abstract state\<close>

definition hold_at :: "'d change_env \<Rightarrow> 'd \<Rightarrow> int \<Rightarrow> address \<Rightarrow> address \<Rightarrow> string \<Rightarrow> budget_hold option" where
  "hold_at E d c ow w n = Option.bind (rows_of (ce_badger E) d (hold_key c ow w n)) (hold_from_json E)"

definition hold_keyed :: "budget_hold \<Rightarrow> int \<Rightarrow> address \<Rightarrow> address \<Rightarrow> string \<Rightarrow> bool" where
  "hold_keyed h c ow w n \<longleftrightarrow> h_chain h = c \<and> h_owner h = ow \<and> h_wallet h = w \<and> h_nonce h = n"

definition holds_wf :: "'d change_env \<Rightarrow> 'd \<Rightarrow> bool" where
  "holds_wf E d \<longleftrightarrow> (\<forall>c ow w n v. rows_of (ce_badger E) d (hold_key c ow w n) = Some v \<longrightarrow>
     (\<exists>h. hold_from_json E v = Some h \<and> hold_keyed h c ow w n))"

lemma hold_at_keyed: "holds_wf E d \<Longrightarrow> hold_at E d c ow w n = Some h \<Longrightarrow> hold_keyed h c ow w n"
  unfolding holds_wf_def hold_at_def by (fastforce simp: Option.bind_eq_Some_conv)

lemma hold_at_text: "change_env_ok E \<Longrightarrow> hold_at E d c ow w n = Some h \<Longrightarrow> hold_text E h"
  by (auto simp: hold_at_def Option.bind_eq_Some_conv intro: hold_decoded)

text \<open>The rows of a wallet's holds are its unreleased holds, in the order of their keys.\<close>

lemma decode_holds_set:
  "decode_holds E rows = Inr hs \<Longrightarrow>
   set hs = {h. \<not> h_released h \<and> (\<exists>(k, v)\<in>set rows. hold_from_json E v = Some h)} \<and>
   (\<forall>(k, v)\<in>set rows. hold_from_json E v \<noteq> None)"
proof (induction rows arbitrary: hs)
  case (Cons kv rows)
  obtain k v where kv: "kv = (k, v)" by (cases kv)
  with Cons.prems obtain h hs' where h: "hold_from_json E v = Some h" "decode_holds E rows = Inr hs'"
    "hs = (if h_released h then hs' else h # hs')" by (auto split: option.splits)
  from Cons.IH [OF h(2)] h(1,3) kv show ?case by auto
qed simp

lemma budgetHoldRows_set:
  assumes ok: "change_env_ok E" and r: "budgetHoldRows E d c ow w = Inr hs"
  shows "h \<in> set hs \<longleftrightarrow> \<not> h_released h \<and> (\<exists>n. hold_at E d c ow w n = Some h)"
proof -
  obtain rows where rows: "GetByPrefix (ce_badger E) d (budgetHoldPrefix c ow w) = Inr rows" "decode_holds E rows = Inr hs"
    using r by (auto simp: budgetHoldRows_def split: sum.splits)
  have "set rows = {(k, v). prefix (budgetHoldPrefix c ow w) k \<and> rows_of (ce_badger E) d k = Some v}"
    by (rule storage.byPrefix_set [OF env_storage [OF change_env_auth [OF ok]] rows(1)])
  then show ?thesis using decode_holds_set [OF rows(2)] by (auto simp: prefix_hold_key hold_at_def Option.bind_eq_Some_conv)
qed

section \<open>Commits\<close>

definition writes :: "(bytes \<Rightarrow> bytes \<Rightarrow> bool) \<Rightarrow> updates \<Rightarrow> bool" where
  "writes P us \<longleftrightarrow> distinct (map fst us) \<and> (\<forall>k v. map_of us k = Some v \<longrightarrow> P k v)"

lemma writes_Nil [simp]: "writes P []"
  by (simp add: writes_def)

lemma writes_put:
  assumes "writes P us" "put_json body k us = Inr us'" "\<And>v. body = Some v \<Longrightarrow> P k v"
  shows "writes P us'"
  using assms by (auto simp: writes_def put_json_def distinct_update update_conv' split: option.splits if_splits)

lemma writes_commit:
  assumes "change_env_ok E" "writes P us" "atomicBudgetWrite E d us [] = Inr d'"
  shows "rows_of (ce_badger E) d' k = (case map_of us k of Some v \<Rightarrow> Some v | None \<Rightarrow> rows_of (ce_badger E) d k)"
proof -
  have "AtomicWrite (ce_badger E) d us [] = Inr d'" using assms(3) by (auto simp: atomicBudgetWrite_def split: sum.splits)
  moreover have "distinct (map fst us)" using assms(2) by (simp add: writes_def)
  ultimately show ?thesis using AtomicWrite_rows [OF change_env_badger [OF assms(1)]] by fastforce
qed

definition not_hold :: "bytes \<Rightarrow> bytes \<Rightarrow> bool" where
  "not_hold k v \<longleftrightarrow> (\<forall>c ow w n. k \<noteq> hold_key c ow w n)"

lemma not_hold_keys [simp]: "not_hold (budgetPreparationKey ow i) v" "not_hold (SessionPolicyKey c ow i) v"
  by (simp_all add: not_hold_def)

lemma put_change_quiet: "writes not_hold us \<Longrightarrow> putBudgetChange E p us = Inr us' \<Longrightarrow> writes not_hold us'"
  unfolding putBudgetChange_def by (rule writes_put) (assumption | rule not_hold_keys)+

lemma put_policy_quiet:
  assumes "writes not_hold us" and "putBudgetPolicy E p us = Inr us'"
  shows "writes not_hold us'"
proof -
  obtain ow where "put_json (policy_to_json (ce_auth E) p) (SessionPolicyKey (sp_chain_id p) ow (sp_id p)) us = Inr us'"
    using assms(2) by (auto simp: putBudgetPolicy_def split: option.splits)
  then show ?thesis by (rule writes_put [OF assms(1)]) (rule not_hold_keys)
qed

text \<open>\<open>hold_set\<close>: the one hold written; \<open>hold_same\<close>: no hold written.\<close>

definition hold_set :: "'d change_env \<Rightarrow> budget_hold \<Rightarrow> 'd \<Rightarrow> 'd \<Rightarrow> bool" where
  "hold_set E h d d' \<longleftrightarrow> (\<forall>c ow w n. hold_at E d' c ow w n = (if hold_keyed h c ow w n then Some h else hold_at E d c ow w n)) \<and>
     (holds_wf E d \<longrightarrow> holds_wf E d')"

definition hold_same :: "'d change_env \<Rightarrow> 'd \<Rightarrow> 'd \<Rightarrow> bool" where
  "hold_same E d d' \<longleftrightarrow> (\<forall>c ow w n. rows_of (ce_badger E) d' (hold_key c ow w n) = rows_of (ce_badger E) d (hold_key c ow w n))"

lemma hold_same_refl [simp]: "hold_same E d d"
  by (simp add: hold_same_def)

lemma hold_sameD: "hold_same E d d' \<Longrightarrow> hold_at E d' c ow w n = hold_at E d c ow w n" "hold_same E d d' \<Longrightarrow> holds_wf E d \<Longrightarrow> holds_wf E d'"
  by (simp_all add: hold_same_def hold_at_def holds_wf_def)

lemma hold_same_trans: "hold_same E d d' \<Longrightarrow> hold_same E d' d'' \<Longrightarrow> hold_same E d d''"
  by (simp add: hold_same_def)

definition one_hold :: "budget_hold \<Rightarrow> bytes \<Rightarrow> bytes \<Rightarrow> bytes \<Rightarrow> bool" where
  "one_hold h v k x \<longleftrightarrow> k = budgetHoldKey h \<and> x = v \<or> not_hold k x"

lemma commit_one_hold:
  assumes ok: "change_env_ok E" and us: "writes (one_hold h v) us" "map_of us (budgetHoldKey h) = Some v"
    and t: "hold_text E h" "hold_to_json E h = Some v" and c: "atomicBudgetWrite E d us [] = Inr d'"
  shows "hold_set E h d d'"
proof -
  note r = writes_commit [OF ok us(1) c]
  have "map_of us (hold_key c ow w n) = (if hold_keyed h c ow w n then Some v else None)" for c ow w n
  proof (cases "map_of us (hold_key c ow w n)")
    case None
    then show ?thesis using us(2) by (auto simp: budgetHoldKey_eq hold_keyed_def)
  next
    case (Some x)
    then have "one_hold h v (hold_key c ow w n) x" using us(1) unfolding writes_def by blast
    then show ?thesis using Some by (auto simp: one_hold_def not_hold_def budgetHoldKey_eq hold_keyed_def)
  qed
  then have row: "rows_of (ce_badger E) d' (hold_key c ow w n) =
      (if hold_keyed h c ow w n then Some v else rows_of (ce_badger E) d (hold_key c ow w n))" for c ow w n
    by (simp add: r)
  have "hold_from_json E v = Some h" by (rule hold_roundtrip [OF ok t])
  then show ?thesis by (auto simp: hold_set_def hold_at_def holds_wf_def row)
qed

lemma put_hold_one:
  assumes "writes not_hold us" "putBudgetHold E h us = Inr us'"
  obtains v where "hold_to_json E h = Some v" "writes (one_hold h v) us'" "map_of us' (budgetHoldKey h) = Some v"
proof -
  obtain v where v: "hold_to_json E h = Some v" "us' = AList.update (budgetHoldKey h) v us"
    using assms(2) by (auto simp: putBudgetHold_def put_json_def split: option.splits)
  have "writes (one_hold h v) us'"
    using assms(1) unfolding writes_def v(2) one_hold_def by (simp add: distinct_update update_conv')
  then show thesis using that [OF v(1)] by (simp add: v(2) update_conv')
qed

lemma commit_hold:
  assumes "change_env_ok E" "writes not_hold us" "putBudgetHold E h us = Inr us'" "hold_text E h" "atomicBudgetWrite E d us' [] = Inr d'"
  shows "hold_set E h d d'"
  by (rule put_hold_one [OF assms(2,3)]) (rule commit_one_hold [OF assms(1) _ _ assms(4) _ assms(5)])

lemma commit_quiet:
  assumes "change_env_ok E" "writes not_hold us" "atomicBudgetWrite E d us [] = Inr d'"
  shows "hold_same E d d'"
proof -
  have "map_of us (hold_key c ow w n) = None" for c ow w n
  proof (rule ccontr)
    assume "map_of us (hold_key c ow w n) \<noteq> None"
    then obtain v where "not_hold (hold_key c ow w n) v" using assms(2) unfolding writes_def by blast
    then show False by (simp add: not_hold_def)
  qed
  then show ?thesis using writes_commit [OF assms] by (simp add: hold_same_def)
qed

lemma put_policies_quiet: "writes not_hold us \<Longrightarrow> foldE (putBudgetPolicy E) ps us = Inr us' \<Longrightarrow> writes not_hold us'"
  by (rule foldE_invariant [where P = "writes not_hold"]) (auto intro: put_policy_quiet)

lemma save_hold:
  assumes ok: "change_env_ok E" and t: "hold_text E h" and s: "saveBudgetTransition E d p (Some h) ps = Inr d'"
  shows "hold_set E h d d'"
proof -
  obtain us1 us2 us3 where u: "putBudgetChange E p [] = Inr us1" "putBudgetHold E h us1 = Inr us2"
    "foldE (putBudgetPolicy E) ps us2 = Inr us3" "atomicBudgetWrite E d us3 [] = Inr d'"
    using s by (auto simp: saveBudgetTransition_def)
  obtain v where v: "hold_to_json E h = Some v" "writes (one_hold h v) us2" "map_of us2 (budgetHoldKey h) = Some v"
    by (rule put_hold_one [OF put_change_quiet [OF writes_Nil u(1)] u(2)])
  let ?P = "\<lambda>us. writes (one_hold h v) us \<and> map_of us (budgetHoldKey h) = Some v"
  have "?P us3"
  proof (rule foldE_invariant [OF u(3), where P = ?P])
    fix q us us' assume us: "?P us" and put: "putBudgetPolicy E q us = Inr us'"
    obtain ow where o: "put_json (policy_to_json (ce_auth E) q) (SessionPolicyKey (sp_chain_id q) ow (sp_id q)) us = Inr us'"
      using put by (auto simp: putBudgetPolicy_def split: option.splits)
    have "writes (one_hold h v) us'" by (rule writes_put [OF conjunct1 [OF us] o]) (simp add: one_hold_def)
    moreover have "map_of us' (budgetHoldKey h) = Some v"
      using us o by (auto simp: put_json_def update_conv' budgetHoldKey_eq split: option.splits)
    ultimately show "?P us'" by blast
  qed (use v in simp)
  then show ?thesis using commit_one_hold [OF ok _ _ t v(1) u(4)] by blast
qed

section \<open>Reconciling\<close>

lemma settle_loop_quiet: "writes not_hold us \<Longrightarrow> settle_loop E winner ob ps us = Inr us' \<Longrightarrow> writes not_hold us'"
proof (induction ps arbitrary: us)
  case (Cons p ps)
  let ?q = "settled_record winner ob p"
  obtain us1 where us1: "putBudgetChange E ?q us = Inr us1" using Cons.prems(2) by (auto simp: Let_def)
  have q1: "writes not_hold us1" by (rule put_change_quiet [OF Cons.prems(1) us1])
  show ?case
  proof (cases "is_cancel ?q")
    case True
    then show ?thesis using Cons.IH [OF q1] Cons.prems(2) us1 by (simp add: Let_def)
  next
    case False
    then obtain r us2 where "putBudgetPolicy E r us1 = Inr us2" "settle_loop E winner ob ps us2 = Inr us'"
      using Cons.prems(2) us1 by (auto simp: Let_def split: option.splits)
    then show ?thesis using Cons.IH put_policy_quiet [OF q1] by blast
  qed
qed simp

lemma revoke_others_quiet: "writes not_hold us \<Longrightarrow> revoke_others E w keep ps us = Inr us' \<Longrightarrow> writes not_hold us'"
  by (induction ps arbitrary: us) (auto split: if_splits intro: put_policy_quiet)

lemma activate_cases:
  assumes "activateBudgetChange E now d winner us = Inr us'"
  obtains existing q g us1 us2 where "ListSessionPolicies (ce_auth E) d (bc_chain winner) (bc_owner winner) = Inr existing"
    "bc_policy winner = Some q" "sp_grant q = Some g" "revoke_others E (bc_wallet winner) (sp_id q) existing us = Inr us1"
    "putBudgetPolicy E (activated_policy E now (user_op_hash winner) q) us1 = Inr us2"
    "putBudgetChange E (winner\<lparr>bc_policy := Some (activated_policy E now (user_op_hash winner) q)\<rparr>) us2 = Inr us'"
  using assms by (auto simp: activateBudgetChange_def Let_def split: sum.splits option.splits)

lemma activate_quiet: "writes not_hold us \<Longrightarrow> activateBudgetChange E now d winner us = Inr us' \<Longrightarrow> writes not_hold us'"
  by (erule activate_cases) (rule put_change_quiet, rule put_policy_quiet, rule revoke_others_quiet)

lemma external_quiet: "writes not_hold us \<Longrightarrow> external_policies E K v w ps us = Inr us' \<Longrightarrow> writes not_hold us'"
  by (induction ps arbitrary: us) (auto split: if_splits sum.splits intro: put_policy_quiet)

lemma external_records_quiet:
  "writes not_hold us \<Longrightarrow> foldE (\<lambda>p. putBudgetChange E (external_record ob p)) ps us = Inr us' \<Longrightarrow> writes not_hold us'"
  by (rule foldE_invariant [where P = "writes not_hold"]) (auto intro: put_change_quiet)

lemma hold_text_released [simp]: "hold_text E (h\<lparr>h_released := b\<rparr>) = hold_text E h"
  by (simp add: hold_text_def)

lemma release_sets:
  assumes "change_env_ok E" "writes not_hold us" "hold_text E h" "releaseBudgetHold E d us h = Inr d'"
  shows "hold_set E (h\<lparr>h_released := True\<rparr>) d d'"
  using assms commit_hold [OF assms(1,2)] by (auto simp: releaseBudgetHold_def)

lemma settle_sets:
  assumes ok: "change_env_ok E" and t: "hold_text E h" and s: "settleBudgetHold E now d h records winner ob = Inr d'"
  shows "hold_set E (h\<lparr>h_released := True\<rparr>) d d'"
proof -
  obtain us us' where "settle_loop E winner ob records [] = Inr us" "releaseBudgetHold E d us' h = Inr d'"
    "us' = us \<or> (\<exists>w. activateBudgetChange E now d w us = Inr us')"
    using s by (auto simp: settleBudgetHold_def split: if_splits)
  then show ?thesis using settle_loop_quiet [OF writes_Nil] activate_quiet release_sets [OF ok _ t] by metis
qed

section \<open>What a handler does to the holds\<close>

text \<open>The chain showed the nonce consumed: a read of the owner nonce returned a greater one.\<close>

definition consumed_in :: "('d, 'v) budget_backend \<Rightarrow> int \<Rightarrow> address \<Rightarrow> string \<Rightarrow> bool" where
  "consumed_in K c w n \<longleftrightarrow> (\<exists>v m k. bk_view K c None = Inr v \<and> owner_nonce K v w = Inr m \<and> parse_bigint n = Some k \<and> k < m)"

definition live_hold :: "'d change_env \<Rightarrow> 'd \<Rightarrow> int \<Rightarrow> address \<Rightarrow> address \<Rightarrow> string \<Rightarrow> string list \<Rightarrow> bool" where
  "live_hold E d c ow w n is \<longleftrightarrow> (\<exists>h. hold_at E d c ow w n = Some h \<and> \<not> h_released h \<and> set is \<subseteq> set (h_attempts h))"

text \<open>
  A handler of one wallet keeps the rows of every other wallet, and of its own wallet every unreleased hold with its
  attempts, unless the chain showed its nonce consumed.
\<close>

definition holds_move :: "'d change_env \<Rightarrow> ('d, 'v) budget_backend \<Rightarrow> int \<times> address \<times> address \<Rightarrow> 'd \<Rightarrow> 'd \<Rightarrow> bool" where
  "holds_move E K g d d' \<longleftrightarrow> (holds_wf E d \<longrightarrow> holds_wf E d') \<and>
     (\<forall>c ow w n. (c, ow, w) \<noteq> g \<longrightarrow> hold_at E d' c ow w n = hold_at E d c ow w n) \<and>
     (\<forall>c ow w n is. live_hold E d c ow w n is \<longrightarrow> consumed_in K c w n \<or> live_hold E d' c ow w n is)"

lemma holds_move_trans: "holds_move E K g d d' \<Longrightarrow> holds_move E K g d' d'' \<Longrightarrow> holds_move E K g d d''"
  unfolding holds_move_def by metis

lemma holds_move_live: "holds_move E K g d d' \<Longrightarrow> live_hold E d c ow w n is \<Longrightarrow> consumed_in K c w n \<or> live_hold E d' c ow w n is"
  unfolding holds_move_def by blast

lemma same_holds_move: "hold_same E d d' \<Longrightarrow> holds_move E K g d d'"
  by (simp add: holds_move_def hold_sameD live_hold_def)

lemma holds_move_refl [simp]: "holds_move E K g d d"
  by (simp add: same_holds_move)

text \<open>Writing one hold of the wallet: one with more attempts, or a released one whose nonce was consumed.\<close>

lemma set_holds_move:
  assumes s: "hold_set E h d d'" and g: "g = (h_chain h, h_owner h, h_wallet h)"
    and h: "consumed_in K (h_chain h) (h_wallet h) (h_nonce h) \<or> \<not> h_released h \<and>
      (\<forall>is. live_hold E d (h_chain h) (h_owner h) (h_wallet h) (h_nonce h) is \<longrightarrow> set is \<subseteq> set (h_attempts h))"
  shows "holds_move E K g d d'"
proof -
  have at: "hold_at E d' c ow w n = (if hold_keyed h c ow w n then Some h else hold_at E d c ow w n)" for c ow w n
    using s by (simp add: hold_set_def)
  have "consumed_in K c w n \<or> live_hold E d' c ow w n is" if l: "live_hold E d c ow w n is" for c ow w n "is"
  proof (cases "hold_keyed h c ow w n")
    case True
    then have "c = h_chain h" "ow = h_owner h" "w = h_wallet h" "n = h_nonce h" by (simp_all add: hold_keyed_def)
    then show ?thesis using h l True by (auto simp: live_hold_def [of E d'] at)
  next
    case False
    then show ?thesis using l by (simp add: live_hold_def at)
  qed
  moreover have "hold_at E d' c ow w n = hold_at E d c ow w n" if "(c, ow, w) \<noteq> g" for c ow w n
    using that g by (auto simp: at hold_keyed_def)
  ultimately show ?thesis using s by (auto simp: holds_move_def hold_set_def)
qed

definition at_key :: "'d change_env \<Rightarrow> 'd \<Rightarrow> budget_hold \<Rightarrow> bool" where
  "at_key E d h \<longleftrightarrow> hold_at E d (h_chain h) (h_owner h) (h_wallet h) (h_nonce h) = Some h"

abbreviation gate_of :: "budget_hold \<Rightarrow> int \<times> address \<times> address" where
  "gate_of h \<equiv> (h_chain h, h_owner h, h_wallet h)"

text \<open>Storing a stored hold again changes no hold.\<close>

definition holds_fixed :: "'d change_env \<Rightarrow> 'd \<Rightarrow> 'd \<Rightarrow> bool" where
  "holds_fixed E d d' \<longleftrightarrow> (holds_wf E d \<longrightarrow> holds_wf E d') \<and> (\<forall>c ow w n. hold_at E d' c ow w n = hold_at E d c ow w n)"

lemma set_holds_fixed:
  assumes "hold_set E h d d'" and "at_key E d h"
  shows "holds_fixed E d d'"
proof -
  have "hold_at E d' c ow w n = hold_at E d c ow w n" for c ow w n
    using assms by (auto simp: hold_set_def at_key_def hold_keyed_def)
  then show ?thesis using assms(1) by (simp add: holds_fixed_def hold_set_def)
qed

lemma same_holds_fixed: "hold_same E d d' \<Longrightarrow> holds_fixed E d d'"
  by (simp add: holds_fixed_def hold_sameD)

lemma fixed_holds_move: "holds_fixed E d d' \<Longrightarrow> holds_move E K g d d'"
  by (simp add: holds_fixed_def holds_move_def live_hold_def)

lemma holds_fixed_trans: "holds_fixed E d d' \<Longrightarrow> holds_fixed E d' d'' \<Longrightarrow> holds_fixed E d d''"
  by (simp add: holds_fixed_def)

lemma holds_fixed_refl [simp]: "holds_fixed E d d"
  by (simp add: holds_fixed_def)

lemma holds_fixed_at: "holds_fixed E d d' \<Longrightarrow> at_key E d h \<Longrightarrow> at_key E d' h"
  by (simp add: holds_fixed_def at_key_def)

lemma at_key_text: "change_env_ok E \<Longrightarrow> at_key E d h \<Longrightarrow> hold_text E h"
  unfolding at_key_def by (rule hold_at_text)

lemma authorities_fixed: "backend_ok E K \<Longrightarrow> CheckAuthorities K v d ow w = (d', r) \<Longrightarrow> hold_same E d d'"
  unfolding backend_ok_def hold_same_def by (metis fst_conv)

lemma save_fixed:
  assumes "change_env_ok E" "at_key E d h" "saveBudgetTransition E d p (Some h) ps = Inr d'"
  shows "holds_fixed E d d'"
  by (rule set_holds_fixed [OF save_hold [OF assms(1) at_key_text [OF assms(1,2)] assms(3)] assms(2)])

lemma save_reasons_fixed:
  "change_env_ok E \<Longrightarrow> at_key E d h \<Longrightarrow> save_reasons E h reason ps d = (d', r) \<Longrightarrow> holds_fixed E d d'"
proof (induction ps arbitrary: d)
  case (Cons p ps)
  show ?case
  proof (cases "saveBudgetTransition E d (p\<lparr>bc_reason := reason\<rparr>) (Some h) []")
    case (Inl e)
    then show ?thesis using Cons.prems(3) by simp
  next
    case (Inr d1)
    have f: "holds_fixed E d d1" by (rule save_fixed [OF Cons.prems(1,2) Inr])
    have "holds_fixed E d1 d'"
      using Cons.prems(3) Inr by (intro Cons.IH [OF Cons.prems(1) holds_fixed_at [OF f Cons.prems(2)]]) simp
    then show ?thesis by (rule holds_fixed_trans [OF f])
  qed
qed simp

text \<open>A reconciled hold keeps its row, or is released after its nonce was seen consumed.\<close>

definition hold_outcome :: "'d change_env \<Rightarrow> ('d, 'v) budget_backend \<Rightarrow> budget_hold \<Rightarrow> 'd \<Rightarrow> 'd \<Rightarrow> bool" where
  "hold_outcome E K h d d' \<longleftrightarrow> holds_fixed E d d' \<or>
     (\<exists>d1. holds_fixed E d d1 \<and> hold_set E (h\<lparr>h_released := True\<rparr>) d1 d') \<and> consumed_in K (h_chain h) (h_wallet h) (h_nonce h)"

lemma scan_logs_nonce: "scan_logs old lgs ob = Inr ob' \<Longrightarrow> ob_nonce ob' = ob_nonce ob"
  by (induction lgs arbitrary: ob) (auto simp: observe_log_def split: if_splits)

lemma Observe_consumed:
  assumes o: "Observe K h = Inr ob" and n: "parse_bigint (h_nonce h) = Some k" "k < ob_nonce ob"
  shows "consumed_in K (h_chain h) (h_wallet h) (h_nonce h)"
proof -
  obtain v m where v: "bk_view K (h_chain h) None = Inr v" "owner_nonce K v (h_wallet h) = Inr m"
    using o by (auto simp: Observe_def)
  have "ob_nonce ob = m"
    using o v n(1) by (auto simp: Observe_def Let_def split: if_splits option.splits dest!: scan_logs_nonce)
  then show ?thesis using v n unfolding consumed_in_def by blast
qed

lemma external_outcome:
  assumes ok: "change_env_ok E" "backend_ok E K" and at: "at_key E d h"
    and con: "consumed_in K (h_chain h) (h_wallet h) (h_nonce h)"
    and r: "reconcileExternalBudgetNonce E K describe d h records ob = (d', r)"
  shows "hold_outcome E K h d d'"
proof (cases "bk_view K (h_chain h) None")
  case (Inl e)
  then show ?thesis using r by (simp add: reconcileExternalBudgetNonce_def hold_outcome_def)
next
  case (Inr v)
  obtain d1 a where a: "CheckAuthorities K v d (h_owner h) (h_wallet h) = (d1, a)" by force
  have f: "holds_fixed E d d1" by (rule same_holds_fixed [OF authorities_fixed [OF ok(2) a]])
  note at1 = holds_fixed_at [OF f at]
  consider "d' = d" | "d' = d1" | e where "save_reasons E h (describe e) records d1 = (d', r)"
    | ps us1 us where "external_policies E K v (h_wallet h) ps [] = Inr us1"
        "foldE (\<lambda>p. putBudgetChange E (external_record ob p)) records us1 = Inr us" "releaseBudgetHold E d1 us h = Inr d'"
    using r Inr a by (auto simp: reconcileExternalBudgetNonce_def split: sum.splits option.splits)
  then show ?thesis
  proof cases
    case 1
    then show ?thesis by (simp add: hold_outcome_def)
  next
    case 2
    then show ?thesis using f by (simp add: hold_outcome_def)
  next
    case 3
    then show ?thesis using holds_fixed_trans [OF f save_reasons_fixed [OF ok(1) at1]] by (simp add: hold_outcome_def)
  next
    case 4
    have "writes not_hold us" by (rule external_records_quiet [OF external_quiet [OF writes_Nil 4(1)] 4(2)])
    then have "hold_set E (h\<lparr>h_released := True\<rparr>) d1 d'"
      using release_sets [OF ok(1)] at_key_text [OF ok(1) at1] 4(3) by blast
    then show ?thesis using f con unfolding hold_outcome_def by blast
  qed
qed

lemma reconcile_outcome:
  assumes ok: "change_env_ok E" "backend_ok E K" and at: "at_key E d h"
    and r: "reconcileBudgetHold E K describe now d h = (d', r)"
  shows "hold_outcome E K h d d'"
proof (cases "Observe K h")
  case (Inl e)
  then show ?thesis using r by (simp add: reconcileBudgetHold_def hold_outcome_def)
next
  case (Inr ob)
  consider "d' = d" | (ext) records k where "parse_bigint (h_nonce h) = Some k" "k < ob_nonce ob"
        "reconcileExternalBudgetNonce E K describe d h records ob = (d', r)"
    | (settle) records winner k where "parse_bigint (h_nonce h) = Some k" "k < ob_nonce ob"
        "settleBudgetHold E now d h records winner ob = Inr d'"
    | (save) p where "saveBudgetTransition E d p (Some h) [] = Inr d'"
    using r Inr
    by (auto simp: reconcileBudgetHold_def Let_def not_le split: sum.splits option.splits if_splits reset_proof.splits)
  then show ?thesis
  proof cases
    case 1
    then show ?thesis by (simp add: hold_outcome_def)
  next
    case ext
    show ?thesis by (rule external_outcome [OF ok at Observe_consumed [OF Inr ext(1,2)] ext(3)])
  next
    case settle
    then show ?thesis
      using settle_sets [OF ok(1) at_key_text [OF ok(1) at] settle(3)] Observe_consumed [OF Inr settle(1,2)]
      unfolding hold_outcome_def by (blast intro: holds_fixed_refl)
  next
    case save
    then show ?thesis using save_fixed [OF ok(1) at] by (simp add: hold_outcome_def)
  qed
qed

lemma outcome_move:
  assumes "hold_outcome E K h d d'"
  shows "holds_move E K (gate_of h) d d'"
  using assms unfolding hold_outcome_def
proof (elim disjE exE conjE)
  fix d1 assume f: "holds_fixed E d d1" and s: "hold_set E (h\<lparr>h_released := True\<rparr>) d1 d'"
    and c: "consumed_in K (h_chain h) (h_wallet h) (h_nonce h)"
  have "holds_move E K (gate_of h) d1 d'" by (rule set_holds_move [OF s]) (simp_all add: c)
  then show ?thesis by (rule holds_move_trans [OF fixed_holds_move [OF f]])
qed (rule fixed_holds_move)

lemma outcome_other:
  assumes "hold_outcome E K h d d'" and "at_key E d h'" and "h_nonce h' \<noteq> h_nonce h"
  shows "at_key E d' h'"
  using assms by (auto simp: hold_outcome_def holds_fixed_def hold_set_def at_key_def hold_keyed_def)

lemma reconcile_holds_move:
  assumes ok: "change_env_ok E" "backend_ok E K"
  shows "reconcile_holds E K describe now hs d = (d', r) \<Longrightarrow> \<forall>h\<in>set hs. at_key E d h \<and> gate_of h = g \<Longrightarrow>
    distinct (map h_nonce hs) \<Longrightarrow> holds_move E K g d d'"
proof (induction hs arbitrary: d)
  case (Cons h hs)
  obtain d1 r1 where r1: "reconcileBudgetHold E K describe now d h = (d1, r1)" by force
  have o: "hold_outcome E K h d d1" using Cons.prems(2) by (intro reconcile_outcome [OF ok _ r1]) simp
  then have m: "holds_move E K g d d1" using outcome_move Cons.prems(2) by auto
  show ?case
  proof (cases r1)
    case (Inl e)
    then show ?thesis using Cons.prems(1) r1 m by simp
  next
    case (Inr u)
    have "\<forall>h'\<in>set hs. at_key E d1 h' \<and> gate_of h' = g"
    proof (intro ballI conjI)
      fix h' assume h': "h' \<in> set hs"
      then have "h_nonce h' \<noteq> h_nonce h" using Cons.prems(3) by (metis distinct.simps(2) image_eqI list.simps(9) set_map)
      then show "at_key E d1 h'" using outcome_other [OF o] Cons.prems(2) h' by simp
      show "gate_of h' = g" using Cons.prems(2) h' by simp
    qed
    then have "holds_move E K g d1 d'" using Cons.IH Cons.prems(1,3) r1 Inr by simp
    then show ?thesis by (rule holds_move_trans [OF m])
  qed
qed simp

text \<open>Reconciling adds no attempt to a hold.\<close>

definition attempts_same :: "'d change_env \<Rightarrow> 'd \<Rightarrow> 'd \<Rightarrow> bool" where
  "attempts_same E d d' \<longleftrightarrow> (\<forall>c ow w n. map_option h_attempts (hold_at E d' c ow w n) = map_option h_attempts (hold_at E d c ow w n))"

lemma attempts_same_refl [simp]: "attempts_same E d d"
  by (simp add: attempts_same_def)

lemma hold_same_attempts: "hold_same E d d' \<Longrightarrow> attempts_same E d d'"
  by (simp add: attempts_same_def hold_sameD)

lemma attempts_same_trans: "attempts_same E d d' \<Longrightarrow> attempts_same E d' d'' \<Longrightarrow> attempts_same E d d''"
  by (simp add: attempts_same_def)

lemma outcome_attempts:
  assumes "hold_outcome E K h d d'" and "at_key E d h"
  shows "attempts_same E d d'"
  using assms by (auto simp: hold_outcome_def holds_fixed_def hold_set_def at_key_def hold_keyed_def attempts_same_def)

lemma reconcile_holds_attempts:
  assumes ok: "change_env_ok E" "backend_ok E K"
  shows "reconcile_holds E K describe now hs d = (d', r) \<Longrightarrow> \<forall>h\<in>set hs. at_key E d h \<Longrightarrow> distinct (map h_nonce hs) \<Longrightarrow> attempts_same E d d'"
proof (induction hs arbitrary: d)
  case (Cons h hs)
  obtain d1 r1 where r1: "reconcileBudgetHold E K describe now d h = (d1, r1)" by force
  have o: "hold_outcome E K h d d1" using Cons.prems(2) by (intro reconcile_outcome [OF ok _ r1]) simp
  have s: "attempts_same E d d1" using outcome_attempts [OF o] Cons.prems(2) by simp
  show ?case
  proof (cases r1)
    case (Inl e)
    then show ?thesis using Cons.prems(1) r1 s by simp
  next
    case (Inr u)
    have "at_key E d1 h'" if h': "h' \<in> set hs" for h'
    proof -
      have "h_nonce h' \<noteq> h_nonce h" using Cons.prems(3) h' by (metis distinct.simps(2) image_eqI list.simps(9) set_map)
      then show ?thesis using outcome_other [OF o] Cons.prems(2) h' by simp
    qed
    then have "attempts_same E d1 d'" using Cons.IH Cons.prems(1,3) r1 Inr by simp
    then show ?thesis by (rule attempts_same_trans [OF s])
  qed
qed simp

lemma decode_holds_distinct:
  "decode_holds E rows = Inr hs \<Longrightarrow> distinct (map fst rows) \<Longrightarrow>
   \<forall>(k, v)\<in>set rows. \<forall>h. hold_from_json E v = Some h \<longrightarrow> k = hold_key c ow w (h_nonce h) \<Longrightarrow>
   distinct (map h_nonce hs) \<and> (\<forall>h\<in>set hs. hold_key c ow w (h_nonce h) \<in> fst ` set rows)"
proof (induction rows arbitrary: hs)
  case (Cons kv rows)
  obtain k v where kv: "kv = (k, v)" by (cases kv)
  with Cons.prems(1) obtain h hs' where h: "hold_from_json E v = Some h" "decode_holds E rows = Inr hs'"
    "hs = (if h_released h then hs' else h # hs')" by (auto split: option.splits)
  have IH: "distinct (map h_nonce hs')" "\<forall>x\<in>set hs'. hold_key c ow w (h_nonce x) \<in> fst ` set rows"
    using Cons.IH [OF h(2)] Cons.prems(2,3) by simp_all
  have k: "k = hold_key c ow w (h_nonce h)" "k \<notin> fst ` set rows" using Cons.prems(2,3) kv h(1) by auto
  have "h_nonce h \<noteq> h_nonce x" if "x \<in> set hs'" for x using that IH(2) k by (metis (no_types))
  then show ?case using IH k(1) h(3) kv by auto
qed simp

lemma budgetHoldRows_distinct:
  assumes ok: "change_env_ok E" and wf: "holds_wf E d" and r: "budgetHoldRows E d c ow w = Inr hs"
  shows "distinct (map h_nonce hs)"
proof -
  obtain rows where rows: "GetByPrefix (ce_badger E) d (budgetHoldPrefix c ow w) = Inr rows" "decode_holds E rows = Inr hs"
    using r by (auto simp: budgetHoldRows_def split: sum.splits)
  note st = env_storage [OF change_env_auth [OF ok]]
  have set: "set rows = {(k, v). prefix (budgetHoldPrefix c ow w) k \<and> rows_of (ce_badger E) d k = Some v}"
    by (rule storage.byPrefix_set [OF st rows(1)])
  have "distinct (map fst rows)" using storage.byPrefix_sorted [OF st rows(1)] by (simp add: strict_sorted_iff)
  moreover have "k = hold_key c ow w (h_nonce h)" if "(k, v) \<in> set rows" "hold_from_json E v = Some h" for k v h
  proof -
    have "prefix (budgetHoldPrefix c ow w) k" "rows_of (ce_badger E) d k = Some v" using that(1) by (simp_all add: set)
    then obtain n where n: "k = hold_key c ow w n" "rows_of (ce_badger E) d k = Some v" by (auto simp: prefix_hold_key)
    have "hold_at E d c ow w n = Some h" using n that(2) by (simp add: hold_at_def)
    then show ?thesis using hold_at_keyed [OF wf] n(1) by (auto simp: hold_keyed_def)
  qed
  ultimately show ?thesis using decode_holds_distinct [OF rows(2), where c = c and ow = ow and w = w] by blast
qed

lemma budgetHoldRows_at:
  assumes ok: "change_env_ok E" and wf: "holds_wf E d" and r: "budgetHoldRows E d c ow w = Inr hs" and h: "h \<in> set hs"
  shows "at_key E d h" "gate_of h = (c, ow, w)" "\<not> h_released h"
proof -
  obtain n where n: "hold_at E d c ow w n = Some h" "\<not> h_released h" using budgetHoldRows_set [OF ok r] h by blast
  have "hold_keyed h c ow w n" by (rule hold_at_keyed [OF wf n(1)])
  with n show "at_key E d h" "gate_of h = (c, ow, w)" "\<not> h_released h" by (simp_all add: at_key_def hold_keyed_def)
qed

lemma reconcile_wallet_move:
  assumes ok: "change_env_ok E" "backend_ok E K" and wf: "holds_wf E d"
    and r: "reconcileBudgetWalletLocked E K describe now d c ow w = (d', r)"
  shows "holds_move E K (c, ow, w) d d'"
proof (cases "budgetHoldRows E d c ow w")
  case (Inl e)
  then show ?thesis using r by (simp add: reconcileBudgetWalletLocked_def)
next
  case (Inr hs)
  then have "reconcile_holds E K describe now hs d = (d', r)" using r by (simp add: reconcileBudgetWalletLocked_def)
  then show ?thesis
    by (rule reconcile_holds_move [OF ok])
      (simp_all add: budgetHoldRows_at [OF ok(1) wf Inr] budgetHoldRows_distinct [OF ok(1) wf Inr] del: prod.inject)
qed

lemma reconcile_wallet_attempts:
  assumes ok: "change_env_ok E" "backend_ok E K" and wf: "holds_wf E d"
    and r: "reconcileBudgetWalletLocked E K describe now d c ow w = (d', r)"
  shows "attempts_same E d d'"
proof (cases "budgetHoldRows E d c ow w")
  case (Inl e)
  then show ?thesis using r by (simp add: reconcileBudgetWalletLocked_def)
next
  case (Inr hs)
  then have "reconcile_holds E K describe now hs d = (d', r)" using r by (simp add: reconcileBudgetWalletLocked_def)
  then show ?thesis
    by (rule reconcile_holds_attempts [OF ok]) (simp_all add: budgetHoldRows_at(1) [OF ok(1) wf Inr] budgetHoldRows_distinct [OF ok(1) wf Inr])
qed

section \<open>Submitting, cancelling and sending\<close>

lemma set_same:
  assumes "change_env_ok E" "StorageSet (ce_badger E) d k v = Inr d'" "not_hold k v"
  shows "hold_same E d d'"
  using storage.set_abs [OF env_storage [OF change_env_auth [OF assms(1)]] assms(2)] assms(3)
  by (auto simp: hold_same_def not_hold_def)

lemma refuse_same: "change_env_ok E \<Longrightarrow> refuseUnsentBudget E now d p e = (d', e') \<Longrightarrow> hold_same E d d'"
  by (auto simp: refuseUnsentBudget_def split: change_error.splits option.splits if_splits sum.splits
      dest: set_same [OF _ _ not_hold_keys(1)])

lemma validate_same: "change_env_ok E \<Longrightarrow> validate_owner E K now d v p = (d', r) \<Longrightarrow> hold_same E d d'"
  by (auto simp: validate_owner_def split: owner_check.splits prod.splits dest: refuse_same)

text \<open>The hold that submitting finds is the wallet's only unreleased one, on the same nonce.\<close>

lemma matching_hold_last:
  "matching_hold n hs h0 = Inr found \<Longrightarrow> (\<forall>h\<in>set hs. h_nonce h = n) \<and> found = (if hs = [] then h0 else Some (last hs))"
proof (induction hs arbitrary: h0)
  case (Cons h hs)
  then have "h_nonce h = n" "matching_hold n hs (Some h) = Inr found" by (auto split: if_splits)
  then show ?case using Cons.IH [of "Some h"] by simp
qed simp

definition fresh_hold :: "budget_change \<Rightarrow> uint64 \<Rightarrow> budget_hold" where
  "fresh_hold p blk = \<lparr>h_owner = bc_owner p, h_wallet = bc_wallet p, h_chain = bc_chain p, h_nonce = op_nonce_text p,
     h_attempts = [], h_from_block = blk, h_released = False\<rparr>"

lemma write_marker_cases:
  assumes "change_env_ok E" and "write_marker E K now2 now3 d v p framed = (d', r)"
  obtains (refused) e where "hold_same E d d'" "r = Inl e"
    | (marked) hs found h where "budgetHoldRows E d (bc_chain p) (bc_owner p) (bc_wallet p) = Inr hs"
        "matching_hold (op_nonce_text p) hs None = Inr found"
        "is_cancel p \<or> recheckBudgetDerivation E K now2 d p v = Inr ()"
        "h = (case found of None \<Rightarrow> fresh_hold p (bb_number (bk_block K v)) | Some h \<Rightarrow> h)" "VerifyCanonical K v = None" "now2 < expires_at p"
        "r = Inr (Marked (marked_change p (bk_block K v) now3) (h\<lparr>h_attempts := h_attempts h @ [bc_id p]\<rparr>) framed)"
        "saveBudgetTransition E d (marked_change p (bk_block K v) now3) (Some (h\<lparr>h_attempts := h_attempts h @ [bc_id p]\<rparr>))
           (if is_cancel p then [] else (case bc_policy (marked_change p (bk_block K v) now3) of None \<Rightarrow> [] | Some q \<Rightarrow> [q])) = Inr d'"
proof -
  let ?B = "bindE (budgetHoldRows E d (bc_chain p) (bc_owner p) (bc_wallet p)) (\<lambda>hs. matching_hold (op_nonce_text p) hs None)"
  consider (e) e where "?B = Inl e" | (f) hs found where "budgetHoldRows E d (bc_chain p) (bc_owner p) (bc_wallet p) = Inr hs"
        "matching_hold (op_nonce_text p) hs None = Inr found"
  proof (cases ?B)
    case (Inr found)
    then show thesis using that(2) unfolding bindE_Inr_conv by blast
  qed (rule that(1))
  then show thesis
  proof cases
    case e
    then show thesis using assms(2) by (intro refused [of "(Some False, e)"]) (simp_all add: write_marker_def)
  next
    case f
    let ?h = "case found of None \<Rightarrow> fresh_hold p (bb_number (bk_block K v)) | Some h \<Rightarrow> h"
    note unf = assms(2) [unfolded write_marker_def, folded fresh_hold_def, simplified f]
    show thesis
    proof (cases "if is_cancel p then Inr () else recheckBudgetDerivation E K now2 d p v")
      case (Inl e)
      then obtain e' where "refuseUnsentBudget E now2 d p e = (d', e')" "r = Inl (Some False, e')" using unf f by (auto split: prod.splits)
      then show thesis using refuse_same [OF assms(1)] refused by blast
    next
      case (Inr u)
      then show thesis using unf f marked [OF f _ refl] refused
        by (auto simp: Let_def split: if_splits option.splits sum.splits)
    qed
  qed
qed

lemma marker_hold:
  assumes ok: "change_env_ok E" and wf: "holds_wf E d" and hs: "budgetHoldRows E d (bc_chain p) (bc_owner p) (bc_wallet p) = Inr hs"
    and f: "matching_hold (op_nonce_text p) hs None = Inr found"
    and h: "h = (case found of None \<Rightarrow> fresh_hold p blk | Some h \<Rightarrow> h)"
  shows "gate_of h = (bc_chain p, bc_owner p, bc_wallet p)" "h_nonce h = op_nonce_text p" "\<not> h_released h" "hold_text E h"
    "live_hold E d (bc_chain p) (bc_owner p) (bc_wallet p) n is \<Longrightarrow> n = op_nonce_text p \<and> set is \<subseteq> set (h_attempts h)"
proof -
  note m = matching_hold_last [OF f]
  have row: "gate_of x = (bc_chain p, bc_owner p, bc_wallet p) \<and> \<not> h_released x \<and> at_key E d x \<and> h_nonce x = op_nonce_text p" if "x \<in> set hs" for x
    using budgetHoldRows_at [OF ok wf hs that] m that by blast
  have fresh: "hold_text E (fresh_hold p blk)"
    using env_ascii [OF change_env_auth [OF ok]] by (simp add: hold_text_def fresh_hold_def op_nonce_text_def)
  have h': "h = (if hs = [] then fresh_hold p blk else last hs)" using h m by simp
  show "gate_of h = (bc_chain p, bc_owner p, bc_wallet p)" "h_nonce h = op_nonce_text p" "\<not> h_released h" "hold_text E h"
    using h' row [of "last hs"] fresh at_key_text [OF ok] by (auto simp: fresh_hold_def)
  assume "live_hold E d (bc_chain p) (bc_owner p) (bc_wallet p) n is"
  then obtain x where x: "hold_at E d (bc_chain p) (bc_owner p) (bc_wallet p) n = Some x" "\<not> h_released x" "set is \<subseteq> set (h_attempts x)"
    by (auto simp: live_hold_def)
  have "x \<in> set hs" using budgetHoldRows_set [OF ok hs] x by blast
  moreover have "h_nonce x = n" using hold_at_keyed [OF wf x(1)] by (simp add: hold_keyed_def)
  ultimately have n: "n = op_nonce_text p" "hs \<noteq> []" using row [of x] by auto
  have "at_key E d h" "h_nonce h = n" "gate_of h = (bc_chain p, bc_owner p, bc_wallet p)" using row [of "last hs"] h' n by auto
  then have "h = x" using x(1) by (simp add: at_key_def)
  then show "n = op_nonce_text p \<and> set is \<subseteq> set (h_attempts h)" using n(1) x(3) by simp
qed

lemma hold_text_attempt: "change_env_ok E \<Longrightarrow> ascii i \<Longrightarrow> hold_text E h \<Longrightarrow> hold_text E (h\<lparr>h_attempts := h_attempts h @ [i]\<rparr>)"
  using env_ascii [OF change_env_auth] by (simp add: hold_text_def)

text \<open>
  What submitting writes: nothing to the holds, or the marker of the change, on the wallet's only hold, with all of
  the attempts the hold had.
\<close>

definition hold_marked :: "'d change_env \<Rightarrow> 'd \<Rightarrow> int \<times> address \<times> address \<Rightarrow> budget_change \<Rightarrow> budget_hold \<Rightarrow> bool" where
  "hold_marked E d g p h \<longleftrightarrow> at_key E d h \<and> gate_of h = g \<and> \<not> h_released h \<and> bc_id p \<in> set (h_attempts h) \<and> h_nonce h = op_nonce_text p"

lemma marked_change_sel [simp]:
  "bc_id (marked_change p b t) = bc_id p" "bc_operation (marked_change p b t) = bc_operation p" "bc_owner (marked_change p b t) = bc_owner p"
  "bc_wallet (marked_change p b t) = bc_wallet p" "bc_chain (marked_change p b t) = bc_chain p" "user_op_hash (marked_change p b t) = user_op_hash p"
  "is_cancel (marked_change p b t) = is_cancel p" "approval_resets (marked_change p b t) = approval_resets p"
  "bc_retirements (marked_change p b t) = bc_retirements p" "max_fee_wei (marked_change p b t) = max_fee_wei p"
  "expires_at (marked_change p b t) = expires_at p"
  by (simp_all add: marked_change_def Let_def)

lemma op_nonce_text_marked [simp]: "op_nonce_text (marked_change p b t) = op_nonce_text p"
  by (simp add: op_nonce_text_def)

lemma write_marker_move:
  assumes ok: "change_env_ok E" and wf: "holds_wf E d" and i: "ascii (bc_id p)" and g: "g = (bc_chain p, bc_owner p, bc_wallet p)"
    and w: "write_marker E K now2 now3 d v p framed = (d', r)"
  shows "holds_move E K g d d'" "r = Inr s \<Longrightarrow> \<exists>q h. s = Marked q h framed \<and> hold_marked E d' g q h"
proof -
  have "holds_move E K g d d' \<and> (\<forall>s. r = Inr s \<longrightarrow> (\<exists>q h. s = Marked q h framed \<and> hold_marked E d' g q h))"
    using ok w
  proof (cases rule: write_marker_cases)
    case refused
    then show ?thesis by (simp add: same_holds_move)
  next
    case (marked hs found h)
    note m = marker_hold [OF ok wf marked(1,2,4)]
    let ?h = "h\<lparr>h_attempts := h_attempts h @ [bc_id p]\<rparr>"
    have s: "hold_set E ?h d d'" by (rule save_hold [OF ok hold_text_attempt [OF ok i m(4)] marked(8)])
    have "set is \<subseteq> set (h_attempts ?h)"
      if "live_hold E d (h_chain ?h) (h_owner ?h) (h_wallet ?h) (h_nonce ?h) is" for "is"
    proof -
      have "live_hold E d (bc_chain p) (bc_owner p) (bc_wallet p) (op_nonce_text p) is" using that m(1,2) by simp
      then have "set is \<subseteq> set (h_attempts h)" by (rule conjunct2 [OF m(5)])
      then show ?thesis by auto
    qed
    then have "holds_move E K g d d'" using m(1,3) g by (intro set_holds_move [OF s]) simp_all
    moreover have "at_key E d' ?h" using s by (simp add: hold_set_def at_key_def hold_keyed_def)
    ultimately show ?thesis using marked(7) m(1-3) g by (simp add: hold_marked_def)
  qed
  then show "holds_move E K g d d'" "r = Inr s \<Longrightarrow> \<exists>q h. s = Marked q h framed \<and> hold_marked E d' g q h" by blast+
qed

lemma load_spec:
  assumes "loadBudgetChange E d user wallet chain pid = Inr p"
  shows "bc_id p = pid" "bc_owner p = user" "bc_wallet p = wallet" "bc_chain p = chain" "ulid_strict E pid"
    "validateStoredBudgetChange (ce_aa E) p = Inr ()" "\<exists>raw. change_from_json E raw = Some p"
  using assms by (auto simp: loadBudgetChange_def split: option.splits if_splits sum.splits)

lemma submit_prepared_cases:
  assumes "change_env_ok E" and "backend_ok E K" and "submit_prepared E K now1 now2 now3 d p framed = (d', r)"
  obtains (refused) e where "hold_same E d d'" "r = Inl e"
    | (checked) v d1 where "hold_same E d d1" "checkBudgetFee (max_fee_config E) p = Inr ()" "bk_view K (bc_chain p) None = Inr v"
        "checkBudgetSessionFlights E K d p v = Inr ()" "ValidateOwner K v p = OwnerOk" "now1 < expires_at p"
        "write_marker E K now2 now3 d1 v p framed = (d', r)"
proof -
  consider (no) e where "d' = d" "r = Inl e" | (view) v where "checkBudgetFee (max_fee_config E) p = Inr ()"
      "bk_view K (bc_chain p) None = Inr v" "checkBudgetSessionFlights E K d p v = Inr ()" "now1 < expires_at p"
      "(case validate_owner E K now1 d v p of (d1, Some e) \<Rightarrow> (d1, Inl (Some False, e)) | (d1, None) \<Rightarrow>
        case CheckAuthorities K v d1 (bc_owner p) (bc_wallet p) of (d2, Some e) \<Rightarrow> (d2, Inl (Some False, e)) | (d2, None) \<Rightarrow>
        write_marker E K now2 now3 d2 v p framed) = (d', r)"
    using assms(3) by (auto simp: submit_prepared_def split: if_splits sum.splits)
  then show thesis
  proof cases
    case no
    then show thesis using refused by simp
  next
    case view
    obtain d1 a where a: "validate_owner E K now1 d v p = (d1, a)" by force
    obtain d2 b where b: "CheckAuthorities K v d1 (bc_owner p) (bc_wallet p) = (d2, b)" by force
    note s1 = validate_same [OF assms(1) a]
    note s2 = hold_same_trans [OF s1 authorities_fixed [OF assms(2) b]]
    show thesis
    proof (cases "a = None \<and> b = None")
      case True
      have "ValidateOwner K v p = OwnerOk" using a True by (auto simp: validate_owner_def split: owner_check.splits prod.splits)
      then show thesis using checked [OF s2] view a b True by simp
    next
      case False
      then show thesis using view(5) a b s1 s2 refused by (auto split: option.splits)
    qed
  qed
qed

text \<open>A submission that reached the marker.\<close>

lemma submit_mark_cases:
  assumes "submit_mark E K describe now1 now2 now3 d user wallet chain pid signature = (d', r)"
  obtains (refused) e where "d' = d" "r = Inl e"
    | (settling) p r' where "loadBudgetChange E d user wallet chain pid = Inr p" "bc_state p \<noteq> ownerSubmissionPrepared"
        "reconcileBudgetWalletLocked E K describe now1 d chain user wallet = (d', r')" "\<nexists>q h f. r = Inr (Marked q h f)"
    | (prepared) p framed where "loadBudgetChange E d user wallet chain pid = Inr p" "bc_state p = ownerSubmissionPrepared"
        "requireBudgetSigning E chain = Inr ()" "FrameOwnerSignature (ce_sig E) (user_op_hash p) signature user = Inr framed"
        "submit_prepared E K now1 now2 now3 d p framed = (d', r)"
proof (cases "requireOwnedWallet E d user wallet")
  case (Some e)
  then show thesis using assms refused by (auto simp: submit_mark_def)
next
  case owned: None
  show thesis
  proof (cases "loadBudgetChange E d user wallet chain pid")
    case (Inl e)
    then show thesis using assms refused owned by (auto simp: submit_mark_def)
  next
    case p: (Inr p)
    let ?frame = "bindE (if bc_state p = ownerSubmissionPrepared then requireBudgetSigning E chain else Inr ())
      (\<lambda>_. case FrameOwnerSignature (ce_sig E) (user_op_hash p) signature user of
         Inl _ \<Rightarrow> Inl (ChangeInput ''invalid owner signature'') | Inr framed \<Rightarrow> Inr framed)"
    show thesis
    proof (cases ?frame)
      case (Inl e)
      then show thesis using assms refused owned p by (auto simp: submit_mark_def Let_def)
    next
      case (Inr framed)
      note S = assms [unfolded submit_mark_def Let_def owned p option.simps sum.case Inr]
      have f: "bc_state p = ownerSubmissionPrepared \<longrightarrow> requireBudgetSigning E chain = Inr ()"
        "FrameOwnerSignature (ce_sig E) (user_op_hash p) signature user = Inr framed"
        using Inr by (auto simp: bindE_Inr_conv split: sum.splits if_splits)
      show thesis
      proof (cases "bc_state p = ownerSubmissionPrepared")
        case True
        then show thesis using prepared [OF p] S f by simp
      next
        case False
        obtain d1 r1 where "reconcileBudgetWalletLocked E K describe now1 d chain user wallet = (d1, r1)" by force
        then show thesis using settling [OF p False] S False by (auto split: sum.splits)
      qed
    qed
  qed
qed

lemma submit_mark_move:
  assumes ok: "change_env_ok E" "backend_ok E K" and wf: "holds_wf E d"
    and m: "submit_mark E K describe now1 now2 now3 d user wallet chain pid signature = (d', r)"
  shows "holds_move E K (chain, user, wallet) d d' \<and>
    (\<forall>q h f. r = Inr (Marked q h f) \<longrightarrow> hold_marked E d' (chain, user, wallet) q h)"
  using m
proof (cases rule: submit_mark_cases)
  case refused
  then show ?thesis by simp
next
  case settling
  then show ?thesis using reconcile_wallet_move [OF ok wf] by blast
next
  case (prepared p framed)
  note l = load_spec [OF prepared(1)]
  have g: "(chain, user, wallet) = (bc_chain p, bc_owner p, bc_wallet p)" using l by simp
  have i: "ascii (bc_id p)" using ulid_ascii [OF ok(1)] l by simp
  show ?thesis using ok prepared(5)
  proof (cases rule: submit_prepared_cases)
    case refused
    then show ?thesis by (simp add: same_holds_move)
  next
    case (checked v d1)
    note w = write_marker_move [OF ok(1) hold_sameD(2) [OF checked(1) wf] i g checked(7)]
    show ?thesis using w(2) holds_move_trans [OF same_holds_move [OF checked(1)] w(1)] by blast
  qed
qed

lemma relay_fixed:
  assumes "change_env_ok E" "at_key E d h" "submit_relay E K d p h framed = (d', r)"
  shows "holds_fixed E d d'"
  using assms save_fixed [OF assms(1,2)] by (auto simp: submit_relay_def Let_def split: sum.splits)

lemma cancel_move:
  assumes ok: "change_env_ok E" "backend_ok E K" and wf: "holds_wf E d"
    and c: "PrepareBudgetCancel E K describe now d user wallet chain pid newid = (d', r)"
  shows "holds_move E K (chain, user, wallet) d d'"
proof -
  obtain d1 r1 where r1: "reconcileBudgetWalletLocked E K describe now d chain user wallet = (d1, r1)" by force
  note m = reconcile_wallet_move [OF ok wf r1]
  have "d' = d \<or> d' = d1 \<or> hold_same E d1 d'"
    using c r1 unfolding PrepareBudgetCancel_def
    by (auto split: option.splits sum.splits dest: set_same [OF ok(1) _ not_hold_keys(1)])
  then show ?thesis using m holds_move_trans [OF m same_holds_move] by auto
qed

lemma hold_absent: "budgetHoldPresent E d c ow w = Inr () \<Longrightarrow> budgetHoldRows E d c ow w = Inr []"
  by (cases "budgetHoldRows E d c ow w") (auto simp: budgetHoldPresent_def split: if_splits)

lemma authorities_same: "backend_ok E K \<Longrightarrow> checkBudgetAuthorities E K d c ow w = (d', r) \<Longrightarrow> hold_same E d d'"
  by (auto simp: checkBudgetAuthorities_def split: sum.splits if_splits prod.splits option.splits dest: authorities_fixed)

text \<open>The lease is granted in a state whose wallet has no unreleased hold.\<close>

lemma guard_move:
  assumes ok: "change_env_ok E" "backend_ok E K" and wf: "holds_wf E d"
    and g: "guardBudgetSessionSend E K describe now d c ow w = (d', r)"
  shows "holds_move E K (c, ow, w) d d'" "r = Inr () \<Longrightarrow> \<not> live_hold E d' c ow w n is"
proof -
  obtain d1 r1 where r1: "reconcileBudgetWalletLocked E K describe now d c ow w = (d1, r1)" by force
  note m = reconcile_wallet_move [OF ok wf r1]
  obtain d2 r2 where r2: "checkBudgetAuthorities E K d1 c ow w = (d2, r2)" by force
  note s = authorities_same [OF ok(2) r2]
  have "d' = d1 \<or> d' = d2" using g r1 r2 by (auto simp: guardBudgetSessionSend_def split: sum.splits)
  then show "holds_move E K (c, ow, w) d d'" using m holds_move_trans [OF m same_holds_move [OF s]] by blast
  assume "r = Inr ()"
  then have "d' = d2" and hp: "budgetHoldPresent E d1 c ow w = Inr ()"
    using g r1 r2 by (auto simp: guardBudgetSessionSend_def split: sum.splits)
  note hs = hold_absent [OF hp]
  have "\<not> live_hold E d1 c ow w n is" using budgetHoldRows_set [OF ok(1) hs] by (auto simp: live_hold_def)
  with \<open>d' = d2\<close> show "\<not> live_hold E d' c ow w n is" using hold_sameD(1) [OF s] by (simp add: live_hold_def)
qed

lemma budgetFlightPrefix_not_hold: "prefix (budgetFlightPrefix c ow w) k \<Longrightarrow> not_hold k v"
  by (auto simp: not_hold_def budgetFlightPrefix_def hold_key_def prefix_def join_append key_simps)

lemma broadcast_same:
  assumes ok: "change_env_ok E" and b: "BeforeBroadcast E d c ow w op = Inr (d', key, f)"
  shows "hold_same E d d'" "prefix (budgetFlightPrefix c ow w) key"
proof -
  obtain raw where raw: "StorageSet (ce_badger E) d key raw = Inr d'" "prefix (budgetFlightPrefix c ow w) key"
    using b by (auto simp: BeforeBroadcast_def Let_def split: option.splits sum.splits)
  then show "hold_same E d d'" "prefix (budgetFlightPrefix c ow w) key"
    using set_same [OF ok raw(1) budgetFlightPrefix_not_hold] by blast+
qed

lemma consumed_keys_subset: "set (consumedBudgetFlightKeys A rc w flights) \<subseteq> fst ` set flights"
  by (auto simp: consumedBudgetFlightKeys_def Let_def)

lemma settled_same:
  assumes ok: "change_env_ok E" and s: "Settled E d c ow w rc flights = Inr d'"
    and f: "\<forall>(k, x)\<in>set flights. prefix (budgetFlightPrefix c ow w) k"
  shows "hold_same E d d'"
proof -
  obtain rc' us where u: "put_json (flight_to_json E \<lparr>fl_hash = zero_hash, fl_nonce = [], fl_block = rc_block rc'\<rparr>)
      (budgetWatermarkKey c ow w) [] = Inr us" "atomicBudgetWrite E d us (consumedBudgetFlightKeys (ce_aa E) rc' w flights) = Inr d'"
    using s by (auto simp: Settled_def split: option.splits)
  obtain raw where us: "us = [(budgetWatermarkKey c ow w, raw)]" using u(1) by (auto simp: put_json_def split: option.splits)
  have mark: "prefix (budgetFlightPrefix c ow w) (budgetWatermarkKey c ow w)" by (simp add: budgetWatermarkKey_def)
  have "hold_key c' ow' w' n \<notin> set (consumedBudgetFlightKeys (ce_aa E) rc' w flights)" for c' ow' w' n
  proof
    assume "hold_key c' ow' w' n \<in> set (consumedBudgetFlightKeys (ce_aa E) rc' w flights)"
    then obtain x where "(hold_key c' ow' w' n, x) \<in> set flights" using consumed_keys_subset by fastforce
    then have "prefix (budgetFlightPrefix c ow w) (hold_key c' ow' w' n)" using f by blast
    then show False using budgetFlightPrefix_not_hold not_hold_def by blast
  qed
  moreover have "hold_key c' ow' w' n \<noteq> budgetWatermarkKey c ow w" for c' ow' w' n
    using budgetFlightPrefix_not_hold [OF mark] not_hold_def by metis
  moreover have "AtomicWrite (ce_badger E) d us (consumedBudgetFlightKeys (ce_aa E) rc' w flights) = Inr d'"
    using u(2) by (auto simp: atomicBudgetWrite_def split: sum.splits)
  ultimately show ?thesis
    using AtomicWrite_rows [OF change_env_badger [OF ok], of us] unfolding hold_same_def us by simp
qed

end
