(* ===== verification/BudgetSample.thy ===== *)
theory BudgetSample
  imports BudgetChangeInv Grants
begin

text \<open>
  A submission on concrete values, from a stored review to the activation of its policy, over the in-memory store. JSON
  is a finite table of the records that occur.
\<close>

definition table_json :: "(bytes \<times> 'a) list \<Rightarrow> 'a \<Rightarrow> bytes option" where
  "table_json T x = map_option fst (find (\<lambda>(v, y). y = x) T)"

definition sample_hash :: bytes where "sample_hash = replicate 32 (CHR ''h'')"

definition owner_aa :: aa_env where
  "owner_aa = \<lparr>aa_codec = unary_codec\<lparr>packBatchArgs := (\<lambda>_. ''calls'')\<rparr>, aa_keccak = (\<lambda>_. sample_hash), SigToAddress = (\<lambda>_ _. Inr 1)\<rparr>"

definition owner_nonce0 :: int where "owner_nonce0 = 2 ^ 64"

definition owner_op :: user_op where
  "owner_op = \<lparr>uo_sender = 2, uo_nonce = Some owner_nonce0, uo_call_data = ''batccalls'', uo_factory = None, uo_factory_data = [],
     call_gas_limit = Some 1, verification_gas_limit = Some 1, pre_verification_gas = Some 1, max_fee_per_gas = Some 1,
     max_priority_fee_per_gas = Some 1, uo_paymaster = None, paymaster_verification_gas = None, paymaster_post_op_gas = None,
     paymaster_data = [], uo_signature = []\<rparr>"

definition budget_policy :: session_policy where
  "budget_policy = example_policy\<lparr>sp_chain_id := 11155111, sizing := BudgetSizingBudget,
     sp_grant := Some (example_grant\<lparr>install_call := ''inst'', carrier_nonce := Some owner_nonce0\<rparr>)\<rparr>"

definition review :: budget_change where
  "review = \<lparr>bc_reason = [], is_cancel = False, submitted_at = 0, final_block = no_block, inclusion_block = no_block,
     transaction_hash = zero_hash, reset_repair_required = False, bc_id = ''a'', bc_owner = 1, bc_wallet = 2, bc_chain = 11155111,
     bc_created_at = 0, expires_at = 100, bc_state = ownerSubmissionPrepared, bc_operation = Some owner_op, user_op_hash = sample_hash,
     max_fee_wei = sdecimal 3, bc_base = None, bc_policy = Some budget_policy, approval_resets = [], bc_retirements = [], has_draft = True,
     starts_new_totals = False, has_budget = True, has_discovery = True\<rparr>"

definition block7 :: budget_block where "block7 = \<lparr>bb_number = 7, bb_hash = sample_hash\<rparr>"

definition held :: budget_hold where
  "held = \<lparr>h_owner = 1, h_wallet = 2, h_chain = 11155111, h_nonce = sdecimal owner_nonce0, h_attempts = [''a''], h_from_block = 7, h_released = False\<rparr>"

definition inclusion :: event_log where
  "inclusion = \<lparr>lg_removed = False, lg_address = 0, lg_topics = [[], sample_hash, [], []],
     lg_data = be_bytes 32 (2 ^ 64) @ be_bytes 32 1 @ be_bytes 64 0, lg_tx = sample_hash, lg_block = 7, lg_block_hash = sample_hash\<rparr>"

definition observation :: budget_observation where
  "observation = \<lparr>ob_nonce = owner_nonce0 + 1, ob_hash = sample_hash, ob_tx = sample_hash, ob_block = block7, ob_success = True\<rparr>"

text \<open>The chain before and after the inclusion; the view is the owner nonce.\<close>

definition chain_at :: "int \<Rightarrow> ((bytes \<times> bytes) list, int) budget_backend" where
  "chain_at nonce = \<lparr>bk_view = (\<lambda>_ _. Inr nonce), bk_block = (\<lambda>_. block7), VerifyCanonical = (\<lambda>_. None), owner_nonce = (\<lambda>v _. Inr v),
     user_op_logs = (\<lambda>_ _ _ _. Inr [inclusion]), allowance = (\<lambda>_ _ _ _. None), session_nonce = (\<lambda>_ _ _. None),
     entity_registered = (\<lambda>_ _ _. Inr False), ValidateOwner = (\<lambda>_ _. OwnerOk), CheckAuthorities = (\<lambda>_ d _ _. (d, None)),
     rederive = (\<lambda>_ _ _. None), bk_send = (\<lambda>_ _. SendUnknown), price_owner_op = (\<lambda>_ _. Inl MarshalFailed)\<rparr>"

lemma chain_sel [simp]: "bk_view (chain_at n) c b = Inr n" "bk_block (chain_at n) v = block7" "VerifyCanonical (chain_at n) v = None"
    "owner_nonce (chain_at n) v w = Inr v" "user_op_logs (chain_at n) v a a' w = Inr [inclusion]" "entity_registered (chain_at n) v w e = Inr False"
    "ValidateOwner (chain_at n) v p = OwnerOk" "CheckAuthorities (chain_at n) v d ow w = (d, None)" "rederive (chain_at n) v d p = None"
  by (simp_all add: chain_at_def)

definition marked_review :: budget_change where "marked_review = marked_change review block7 5"
definition settled_review :: budget_change where
  "settled_review = settled_record (marked_review\<lparr>inclusion_block := block7, transaction_hash := sample_hash\<rparr>) observation marked_review"

definition awaiting_policy :: session_policy where "awaiting_policy = budget_policy\<lparr>awaiting_budget_activation := True\<rparr>"
definition active_policy :: session_policy where
  "active_policy = budget_policy\<lparr>sp_status := SessionPolicyActive, sp_grant := map_option
     (\<lambda>g. g\<lparr>applied_at := 9, applied_userop_hash := ''hash'', requires_execute_user_op := True\<rparr>) (sp_grant budget_policy)\<rparr>"

definition settled_active :: budget_change where "settled_active = settled_review\<lparr>bc_policy := Some active_policy\<rparr>"
definition revoked_policy :: session_policy where "revoked_policy = awaiting_policy\<lparr>sp_status := SessionPolicyRevoked\<rparr>"
definition released :: budget_hold where "released = held\<lparr>h_released := True\<rparr>"

definition policy_table :: "(bytes \<times> session_policy) list" where
  "policy_table = [(''q'', awaiting_policy), (''v'', revoked_policy), (''w'', active_policy)]"
definition hold_table :: "(bytes \<times> budget_hold) list" where
  "hold_table = [(''h'', held), (''r'', released)]"
definition change_table :: "(bytes \<times> budget_change) list" where
  "change_table = [(''p'', review), (''m'', marked_review), (''s'', settled_review), (''t'', settled_active)]"

definition owner_env :: "(bytes \<times> bytes) list change_env" where
  "owner_env = \<lparr>ce_auth = table_env policy_table, ce_aa = owner_aa, ce_sig = \<lparr>canonical_sig = (\<lambda>_. True), text_signer = (\<lambda>_ _. Some 1)\<rparr>,
     hold_to_json = table_json hold_table, hold_from_json = map_of hold_table, change_to_json = table_json change_table,
     change_from_json = map_of change_table, flight_to_json = (\<lambda>_. None), flight_from_json = (\<lambda>_. None),
     requireOwnedWallet = (\<lambda>_ _ _. None), requireServedChain = (\<lambda>_. None), ulid_strict = (\<lambda>s. s = ''a''), signing_enabled = True,
     preparation_enabled = True, max_fee_config = sdecimal 10, hex_of_hash = (\<lambda>_. ''hash'')\<rparr>"

lemma owner_env_sel [simp]: "ce_auth owner_env = table_env policy_table" "ce_aa owner_env = owner_aa" "hold_to_json owner_env = table_json hold_table"
  "hold_from_json owner_env = map_of hold_table" "change_to_json owner_env = table_json change_table" "change_from_json owner_env = map_of change_table"
  "requireOwnedWallet owner_env d u w = None" "requireServedChain owner_env c = None" "ulid_strict owner_env s \<longleftrightarrow> s = ''a''"
  "signing_enabled owner_env" "preparation_enabled owner_env" "max_fee_config owner_env = sdecimal 10" "hex_of_hash owner_env x = ''hash''"
  "ce_sig owner_env = \<lparr>canonical_sig = (\<lambda>_. True), text_signer = (\<lambda>_ _. Some 1)\<rparr>"
  by (simp_all add: owner_env_def)

lemmas policy_defs = awaiting_policy_def revoked_policy_def active_policy_def budget_policy_def example_policy_def example_grant_def policy_constants

lemma states [simp]: "bc_state review = ''prepared''" "bc_state marked_review = ''submitting''" "bc_state settled_review = ''active''"
  "bc_state settled_active = ''active''"
  by (simp_all add: review_def marked_review_def marked_change_def settled_review_def settled_active_def settled_record_def change_states observation_def Let_def)

lemma policies_of [simp]: "bc_policy review = Some budget_policy" "bc_policy marked_review = Some awaiting_policy"
    "bc_policy settled_review = Some awaiting_policy" "bc_policy settled_active = Some active_policy"
  by (simp_all add: review_def marked_review_def marked_change_def settled_review_def settled_active_def settled_record_def awaiting_policy_def Let_def)

lemma policies_distinct [simp]: "awaiting_policy \<noteq> revoked_policy" "awaiting_policy \<noteq> active_policy" "revoked_policy \<noteq> active_policy"
  by (simp_all add: policy_defs)

lemma changes_distinct [simp]: "review \<noteq> marked_review" "review \<noteq> settled_review" "review \<noteq> settled_active" "marked_review \<noteq> settled_review"
    "marked_review \<noteq> settled_active" "settled_review \<noteq> settled_active"
  by (rule notI, drule arg_cong [where f = "\<lambda>p. (bc_state p, bc_policy p)"], simp)+

lemma tables [simp]:
  "table_json hold_table held = Some ''h''" "table_json hold_table released = Some ''r''"
  "table_json change_table marked_review = Some ''m''" "table_json change_table settled_review = Some ''s''"
  "table_json change_table settled_active = Some ''t''"
  "policy_to_json (table_env policy_table) awaiting_policy = Some ''q''" "policy_to_json (table_env policy_table) revoked_policy = Some ''v''"
  "policy_to_json (table_env policy_table) active_policy = Some ''w''"
  by (simp_all add: table_json_def hold_table_def change_table_def policy_table_def table_env_def released_def held_def)

definition review_store :: "(bytes \<times> bytes) list" where
  "review_store = [(budgetPreparationKey 1 ''a'', ''p'')]"

text \<open>The store after the marker, and after the inclusion was reconciled.\<close>


definition owner_sig :: bytes where "owner_sig = replicate 64 (CHR ''s'') @ [char_of (27 :: nat)]"

lemma owner_hash: "GetUserOpHash (\<lambda>_. sample_hash) owner_op ep (Some c) = Inr sample_hash"
  by (simp add: GetUserOpHash_def PackForSignature_def owner_op_def owner_nonce0_def packUint128Pair_def check_uint128_def
      AccountGasLimits_def GasFees_def PaymasterAndData_def check_unsigned_def)

lemma owner_op_sel [simp]: "uo_sender owner_op = 2" "uo_nonce owner_op = Some owner_nonce0" "uo_call_data owner_op = ''batccalls''"
    "uo_factory owner_op = None" "uo_paymaster owner_op = None" "paymaster_data owner_op = []" "uo_signature owner_op = []"
    "call_gas_limit owner_op = Some 1" "verification_gas_limit owner_op = Some 1" "pre_verification_gas owner_op = Some 1"
    "max_fee_per_gas owner_op = Some 1" "max_priority_fee_per_gas owner_op = Some 1"
  by (simp_all add: owner_op_def)

lemma owner_cost: "MaxOwnerGasCost owner_op = 3"
  by (simp add: MaxOwnerGasCost_def)

lemma owner_op_valid: "validateBudgetOwnerOperation owner_aa (Some owner_op) 2 11155111 [(2, Some 0, ''inst'')] = Inr (owner_op, sample_hash)"
  by (simp add: validateBudgetOwnerOperation_def owner_hash owner_aa_def liftCall_def PackExecuteBatchMAv2_def unary_codec_def
      DecodeNonceMAv2_def ValidationOptionGlobal_def owner_nonce0_def gas_field_ok_def owner_cost)

lemma review_calls: "change_calls owner_aa review = Inr [(2, Some 0, ''inst'')]"
  by (simp add: change_calls_def review_def budget_policy_def budgetPreparationCalls_def ownerBatchMaxCalls_def)

lemma valid_review: "validateStoredBudgetChange owner_aa review = Inr ()" "validateStoredBudgetChange owner_aa marked_review = Inr ()"
proof -
  have "validateStoredBudgetChange owner_aa x = Inr ()"
    if x: "known_state (bc_state x)" "budget_identity_ok x" "bc_operation x = Some owner_op" "carrier_nonce (the (sp_grant (the (bc_policy x)))) = Some owner_nonce0"
      "change_calls owner_aa x = change_calls owner_aa review" "bc_wallet x = 2" "bc_chain x = 11155111" "user_op_hash x = sample_hash"
      "max_fee_wei x = sdecimal 3" "has_discovery x" for x
    using x by (simp add: validateStoredBudgetChange_def review_calls owner_op_valid owner_cost)
  note V = this
  show "validateStoredBudgetChange owner_aa review = Inr ()"
    by (rule V) (simp_all add: review_def budget_policy_def example_policy_def example_grant_def known_state_def budget_identity_ok_def)
  show "validateStoredBudgetChange owner_aa marked_review = Inr ()"
    by (rule V) (simp_all add: marked_review_def marked_change_def review_def budget_policy_def example_policy_def example_grant_def known_state_def budget_identity_ok_def
        change_calls_def)
qed

section \<open>The in-memory store\<close>

lemma mem_GetByPrefix:
  "GetByPrefix mem_badger d p = copy_values mem_badger d (sort (filter (prefix p) (remdups (map fst d))))"
  by (simp add: GetByPrefix_def View_def iter_prefix_filter [OF mem_badger_ok]) (simp add: mem_badger_def filter_sort)

lemma mem_rows: "rows_of mem_badger d = map_of d"
  by (auto simp: rows_of_def mem_badger_def fun_eq_iff split: option.splits)

definition hold0 :: bytes where "hold0 = hold_key 11155111 1 2 (sdecimal owner_nonce0)"
definition change0 :: bytes where "change0 = budgetPreparationKey 1 ''a''"
definition policy0 :: bytes where "policy0 = SessionPolicyKey 11155111 1 ''p''"

lemma keys_distinct [simp]: "hold0 \<noteq> change0" "change0 \<noteq> hold0" "hold0 \<noteq> policy0" "policy0 \<noteq> hold0" "change0 \<noteq> policy0" "policy0 \<noteq> change0"
  by (simp_all add: hold0_def change0_def policy0_def)

lemma flight_families: "\<not> prefix (budgetFlightPrefix c ow w) change0" "\<not> prefix (budgetFlightPrefix c ow w) policy0" "\<not> prefix (budgetFlightPrefix c ow w) hold0"
  by (auto simp: budgetFlightPrefix_def change0_def policy0_def hold0_def hold_key_def SessionPolicyKey_def budgetPreparationKey_eq prefix_def join_append key_simps)

lemma key_prefixes [simp]: "prefix (budgetHoldPrefix 11155111 1 2) hold0" "\<not> prefix (budgetHoldPrefix c ow w) change0" "\<not> prefix (budgetHoldPrefix c ow w) policy0"
  "prefix (SessionPolicyPrefix 11155111 1) policy0" "\<not> prefix (SessionPolicyPrefix c ow) change0" "\<not> prefix (SessionPolicyPrefix c ow) hold0"
  unfolding prefix_hold_key prefix_key by (auto simp: hold0_def change0_def policy0_def)

section \<open>The environment keeps its laws\<close>

lemma table_json_Some: "distinct (map fst T) \<Longrightarrow> table_json T x = Some v \<Longrightarrow> map_of T v = Some x"
  by (auto simp: table_json_def find_Some_iff intro!: map_of_is_SomeI) (metis nth_mem)

lemma owner_env_ok: "change_env_ok owner_env"
proof -
  have texts: "text_ok (table_env policy_table) x" if "x \<in> {budget_policy, awaiting_policy, revoked_policy, active_policy}" for x
    using that by (auto simp: text_ok_def policy_texts_def policy_defs ascii_def)
  have "auth_env_ok (table_env policy_table)"
    by (rule table_env_ok) (use texts in \<open>auto simp: policy_table_def text_ok_def\<close>)
  moreover have "hold_text owner_env x" if "x \<in> {held, released}" for x
    using that by (auto simp: hold_text_def held_def released_def) (simp_all add: ascii_def)
  moreover have "text_ok (table_env policy_table) q" if "map_of change_table v = Some p" "bc_policy p = Some q" for v p q
    using that texts by (auto simp: change_table_def split: if_splits)
  moreover have "ascii ''a''" "ascii ''hash''" by (simp_all add: ascii_def)
  ultimately show ?thesis unfolding change_env_ok_def
    using table_json_Some [of hold_table] by (auto simp: hold_table_def split: if_splits)
qed

lemma chain_ok: "backend_ok E (chain_at n)"
  by (simp add: backend_ok_def chain_at_def)

lemma store_holds_wf: "holds_wf owner_env review_store"
  by (simp add: holds_wf_def review_store_def mem_rows)

definition marked_store :: "(bytes \<times> bytes) list" where
  "marked_store = [(policy0, ''q''), (hold0, ''h''), (change0, ''m'')]"

definition active_store :: "(bytes \<times> bytes) list" where
  "active_store = [(hold0, ''r''), (policy0, ''w''), (change0, ''t'')]"

lemma load_owner:
  assumes "map_of d change0 = Some v" and "(v, p) \<in> {(''p'', review), (''m'', marked_review)}"
  shows "loadBudgetChange owner_env d 1 2 11155111 ''a'' = Inr p"
proof -
  have "GetKey mem_badger d change0 = Inr v" using assms(1) by (simp add: GetKey_def View_def mem_badger_def)
  moreover have "bc_id p = ''a''" "bc_owner p = 1" "bc_wallet p = 2" "bc_chain p = 11155111"
    using assms(2) by (auto simp: marked_review_def review_def)
  moreover have "map_of change_table v = Some p" using assms(2) by (auto simp: change_table_def)
  ultimately show ?thesis using assms(2) valid_review by (auto simp: loadBudgetChange_def change0_def)
qed

lemma ListPolicies_Nil: "ListSessionPolicies (table_env T) [(change0, v)] c ow = Inr []"
  by (simp add: ListSessionPolicies_def mem_GetByPrefix)

lemma commit3:
  assumes "distinct [a, b, c]"
  shows "AtomicWrite mem_badger d [(a, x), (b, y), (c, z)] [] = Inr ((c, z) # (b, y) # (a, x) # filter (\<lambda>(k, _). k \<notin> {a, b, c}) d)"
  using assms by (simp add: AtomicWrite_def Update_def mem_badger_def) (auto intro: filter_cong)

lemma frame_owner: "\<exists>framed. FrameOwnerSignature (ce_sig owner_env) sample_hash owner_sig 1 = Inr framed"
  by (simp add: FrameOwnerSignature_def owner_sig_def Let_def WrapSignatureMAv2_def nth_append)

lemma review_sel [simp]: "bc_chain review = 11155111" "bc_owner review = 1" "bc_wallet review = 2" "bc_id review = ''a''" "expires_at review = 100"
    "is_cancel review = False" "bc_base review = None" "bc_operation review = Some owner_op" "user_op_hash review = sample_hash" "max_fee_wei review = sdecimal 3"
  by (simp_all add: review_def)

lemma budget_policy_sel [simp]: "sp_chain_id budget_policy = 11155111" "sp_entity_id budget_policy = 3"
  by (simp_all add: budget_policy_def example_policy_def)

lemma rederive_ok: "recheckBudgetDerivation owner_env (chain_at n) now review_store review v = Inr ()"
proof -
  have "review\<lparr>bc_retirements := []\<rparr> = review" by (simp add: review_def)
  then have "recheckBudgetRetirements owner_env (chain_at n) review_store review v = Inr ()"
    by (simp add: recheckBudgetRetirements_def review_calls onChainTeardownTargets_def review_store_def ListPolicies_Nil [unfolded change0_def])
  then show ?thesis
    by (simp add: recheckBudgetDerivation_def activeSessionPolicyLocked_def review_store_def ListPolicies_Nil [unfolded change0_def]
        sessionEntityTaken_def chain_at_def)
qed

lemma mark_owner:
  obtains framed where "submit_mark owner_env (chain_at owner_nonce0) describe 3 4 5 review_store 1 2 11155111 ''a'' owner_sig =
    (marked_store, Inr (Marked marked_review held framed))"
proof -
  obtain framed where fr: "FrameOwnerSignature (ce_sig owner_env) sample_hash owner_sig 1 = Inr framed" using frame_owner by blast
  have load: "loadBudgetChange owner_env review_store 1 2 11155111 ''a'' = Inr review"
    by (rule load_owner [of _ "''p''"]) (simp_all add: review_store_def change0_def)
  have fee: "checkBudgetFee (sdecimal 10) review = Inr ()"
  proof -
    have "sdecimal 10 \<noteq> []" using parse_bigint_sdecimal [of 10] by (auto simp: parse_bigint_def)
    then show ?thesis by (simp add: checkBudgetFee_def)
  qed
  have rows: "budgetHoldRows owner_env review_store 11155111 1 2 = Inr []"
    by (simp add: budgetHoldRows_def mem_GetByPrefix review_store_def key_prefixes [unfolded change0_def])
  have flights: "checkBudgetSessionFlights owner_env K review_store review v = Inr ()" for K v
    by (simp add: checkBudgetSessionFlights_def mem_GetByPrefix review_store_def flight_families [unfolded change0_def])
  have save: "saveBudgetTransition owner_env review_store marked_review (Some held) [awaiting_policy] = Inr marked_store"
  proof -
    have o: "sp_owner awaiting_policy = Some 1" "sp_chain_id awaiting_policy = 11155111" "sp_id awaiting_policy = ''p''"
      by (simp_all add: policy_defs)
    have k: "budgetHoldKey held = hold0" "bc_owner marked_review = 1" "bc_id marked_review = ''a''"
      by (simp_all add: budgetHoldKey_eq held_def hold0_def marked_review_def)
    show ?thesis
      by (simp add: saveBudgetTransition_def putBudgetChange_def putBudgetHold_def putBudgetPolicy_def put_json_def o k
          atomicBudgetWrite_def commit3 marked_store_def review_store_def flip: change0_def policy0_def)
  qed
  have "write_marker owner_env (chain_at owner_nonce0) 4 5 review_store owner_nonce0 review framed =
      (marked_store, Inr (Marked marked_review held framed))"
  proof -
    have "\<lparr>h_owner = 1, h_wallet = 2, h_chain = 11155111, h_nonce = op_nonce_text review, h_attempts = [''a''],
        h_from_block = bb_number block7, h_released = False\<rparr> = held"
      by (simp add: held_def block7_def op_nonce_text_def)
    then show ?thesis
      using rederive_ok [of owner_nonce0 4 owner_nonce0] save by (simp add: write_marker_def rows flip: marked_review_def)
  qed
  then have "submit_prepared owner_env (chain_at owner_nonce0) 3 4 5 review_store review framed =
      (marked_store, Inr (Marked marked_review held framed))"
    by (simp add: submit_prepared_def fee flights validate_owner_def)
  then show thesis using load fr by (intro that) (simp add: submit_mark_def change_states requireBudgetSigning_def)
qed

lemma inclusion_sel: "lg_data inclusion = be_bytes 32 (2 ^ 64) @ be_bytes 32 1 @ be_bytes 64 0" "lg_removed inclusion = False"
    "lg_topics inclusion = [[], sample_hash, [], []]" "lg_tx inclusion = sample_hash" "lg_block inclusion = 7" "lg_block_hash inclusion = sample_hash"
  by (simp_all add: inclusion_def)

lemma observe_owner: "Observe (chain_at (owner_nonce0 + 1)) held = Inr observation"
proof -
  have n: "holds_nonce owner_nonce0 inclusion"
    by (simp add: holds_nonce_def inclusion_sel be_nat_be_bytes owner_nonce0_def del: be_bytes.simps)
  have o: "observe_log inclusion \<lparr>ob_nonce = owner_nonce0 + 1, ob_hash = zero_hash, ob_tx = zero_hash, ob_block = no_block, ob_success = False\<rparr> = observation"
    by (simp add: observe_log_def observation_def inclusion_sel block7_def be_nat_be_bytes del: be_bytes.simps)
  show ?thesis by (simp add: Observe_def held_def n o)
qed

lemma attempts_owner: "hold_attempts owner_env marked_store held (h_attempts held) = Inr [marked_review]"
proof -
  have "loadBudgetChange owner_env marked_store 1 2 11155111 ''a'' = Inr marked_review"
    by (rule load_owner [of _ "''m''"]) (simp_all add: marked_store_def)
  then show ?thesis by (simp add: held_def)
qed

lemma marked_sel [simp]: "user_op_hash marked_review = sample_hash" "is_cancel marked_review = False" "bc_chain marked_review = 11155111"
    "bc_owner marked_review = 1" "bc_wallet marked_review = 2" "bc_id marked_review = ''a''" "approval_resets marked_review = []"
    "reset_repair_required marked_review = False"
  by (simp_all add: marked_review_def) (simp_all add: marked_change_def review_def Let_def)

lemma ListPolicies_marked: "ListSessionPolicies (table_env policy_table) marked_store 11155111 1 = Inr [awaiting_policy]"
  and ListPolicies_active: "ListSessionPolicies (table_env policy_table) active_store 11155111 1 = Inr [active_policy]"
proof -
  have "GetByPrefix mem_badger marked_store (SessionPolicyPrefix 11155111 1) = Inr [(policy0, ''q'')]"
    by (simp add: mem_GetByPrefix marked_store_def) (simp add: mem_badger_def)
  then show "ListSessionPolicies (table_env policy_table) marked_store 11155111 1 = Inr [awaiting_policy]"
    by (simp add: ListSessionPolicies_def policy_table_def)
  have "GetByPrefix mem_badger active_store (SessionPolicyPrefix 11155111 1) = Inr [(policy0, ''w'')]"
    by (simp add: mem_GetByPrefix active_store_def) (simp add: mem_badger_def)
  then show "ListSessionPolicies (table_env policy_table) active_store 11155111 1 = Inr [active_policy]"
    by (simp add: ListSessionPolicies_def policy_table_def)
qed

lemma HoldRows_marked: "budgetHoldRows owner_env marked_store 11155111 1 2 = Inr [held]"
  and HoldRows_active: "budgetHoldRows owner_env active_store 11155111 1 2 = Inr []"
proof -
  have "GetByPrefix mem_badger marked_store (budgetHoldPrefix 11155111 1 2) = Inr [(hold0, ''h'')]"
    by (simp add: mem_GetByPrefix marked_store_def) (simp add: mem_badger_def)
  then show "budgetHoldRows owner_env marked_store 11155111 1 2 = Inr [held]"
    by (simp add: budgetHoldRows_def hold_table_def) (simp add: held_def)
  have "GetByPrefix mem_badger active_store (budgetHoldPrefix 11155111 1 2) = Inr [(hold0, ''r'')]"
    by (simp add: mem_GetByPrefix active_store_def) (simp add: mem_badger_def)
  then show "budgetHoldRows owner_env active_store 11155111 1 2 = Inr []"
    by (simp add: budgetHoldRows_def hold_table_def) (simp add: released_def)
qed

lemma settle_owner:
  "settleBudgetHold owner_env 9 marked_store held [marked_review] (marked_review\<lparr>inclusion_block := block7, transaction_hash := sample_hash\<rparr>) observation = Inr active_store"
proof -
  let ?w = "marked_review\<lparr>inclusion_block := block7, transaction_hash := sample_hash\<rparr>"
  have rec: "settled_record ?w observation marked_review = settled_review" by (simp only: settled_review_def)
  have sel: "is_cancel settled_review = False" "bc_owner settled_review = 1" "bc_id settled_review = ''a''" "bc_owner settled_active = 1" "bc_id settled_active = ''a''"
    by (simp_all add: settled_active_def) (simp_all add: settled_review_def settled_record_def)
  have rev: "bc_policy (revoke_change_policy settled_review) = Some revoked_policy"
    by (simp add: revoke_change_policy_def revoked_policy_def awaiting_policy_def)
  have own: "sp_owner x = Some 1 \<and> sp_chain_id x = 11155111 \<and> sp_id x = ''p''" if "x \<in> {awaiting_policy, revoked_policy, active_policy}" for x
    using that by (auto simp: policy_defs)
  have loop: "settle_loop owner_env ?w observation [marked_review] [] = Inr [(change0, ''s''), (policy0, ''v'')]"
    by (simp add: rec sel rev own putBudgetChange_def putBudgetPolicy_def put_json_def flip: change0_def policy0_def)
  have win: "revoke_change_policy (settled_record ?w observation ?w) = revoke_change_policy settled_review"
    by (simp add: settled_review_def settled_record_def)
  have act: "activated_policy owner_env 9 sample_hash revoked_policy = active_policy"
    by (simp add: activated_policy_def policy_defs)
  have final: "(revoke_change_policy settled_review)\<lparr>bc_policy := Some active_policy\<rparr> = settled_active"
    by (simp add: revoke_change_policy_def settled_active_def)
  have g: "\<exists>g. sp_grant revoked_policy = Some g" "sp_id revoked_policy = ''p''" by (simp_all add: policy_defs)
  have w: "bc_chain (revoke_change_policy settled_review) = 11155111" "bc_owner (revoke_change_policy settled_review) = 1"
    "bc_wallet (revoke_change_policy settled_review) = 2" "user_op_hash (revoke_change_policy settled_review) = sample_hash"
    by (simp_all add: revoke_change_policy_def settled_review_def settled_record_def)
  have "activateBudgetChange owner_env 9 marked_store (revoke_change_policy settled_review) [(change0, ''s''), (policy0, ''v'')] =
      Inr [(change0, ''t''), (policy0, ''w'')]"
    using g own [of awaiting_policy] own [of active_policy]
    by (auto simp: activateBudgetChange_def w ListPolicies_marked rev act final sel putBudgetPolicy_def putBudgetChange_def put_json_def
        simp flip: change0_def policy0_def)
  moreover have "releaseBudgetHold owner_env marked_store [(change0, ''t''), (policy0, ''w'')] held = Inr active_store"
  proof -
    have "budgetHoldKey released = hold0" by (simp add: budgetHoldKey_eq released_def held_def hold0_def)
    then show ?thesis
      by (simp add: releaseBudgetHold_def putBudgetHold_def put_json_def atomicBudgetWrite_def commit3 active_store_def marked_store_def flip: released_def)
  qed
  ultimately show ?thesis using loop by (simp add: settleBudgetHold_def win) (simp add: observation_def)
qed

lemma reconcile_owner: "reconcileBudgetHold owner_env (chain_at (owner_nonce0 + 1)) describe 9 marked_store held = (active_store, Inr ())"
proof -
  have o: "ob_hash observation = sample_hash" "ob_block observation = block7" "ob_tx observation = sample_hash" "ob_success observation"
    "ob_nonce observation = owner_nonce0 + 1" by (simp_all add: observation_def)
  have z: "sample_hash \<noteq> zero_hash"
    by (rule notI, drule arg_cong [where f = "\<lambda>s. of_char (hd s) :: nat"]) (simp add: sample_hash_def zero_hash_def)
  have w: "winner_of sample_hash [marked_review] = Some marked_review" by (simp add: winner_of_def)
  have p: "proveBudgetResets (chain_at (owner_nonce0 + 1)) (marked_review\<lparr>inclusion_block := block7, transaction_hash := sample_hash, bc_state := ownerSubmissionSubmitted\<rparr>) = ResetsZero"
    by (simp add: proveBudgetResets_def verifyBudgetInclusion_def) (simp add: block7_def z)
  have n: "parse_bigint (h_nonce held) = Some owner_nonce0" by (simp add: held_def)
  show ?thesis by (simp add: reconcileBudgetHold_def observe_owner attempts_owner n o z w p settle_owner)
qed

lemma lease_owner: "guardBudgetSessionSend owner_env (chain_at (owner_nonce0 + 1)) describe 9 marked_store 11155111 1 2 = (active_store, Inr ())"
proof -
  have "activeSessionPolicyLocked (table_env policy_table) active_store 11155111 1 2 = Inr (Some active_policy)"
    by (simp add: activeSessionPolicyLocked_def ListPolicies_active) (simp add: on_runner_def Usable_def policy_defs)
  then show ?thesis
    by (simp add: guardBudgetSessionSend_def reconcileBudgetWalletLocked_def HoldRows_marked reconcile_owner budgetHoldPresent_def HoldRows_active
        checkBudgetAuthorities_def)
qed

lemma marked_at: "at_key owner_env marked_store held"
  by (simp add: at_key_def hold_at_def mem_rows) (simp add: held_def marked_store_def hold0_def policy0_def hold_table_def)

lemma marked_keyed: "store_keyed (ce_auth owner_env) marked_store"
proof -
  have "keyed awaiting_policy 11155111 1 ''p''" by (simp add: keyed_def policy_defs)
  moreover have "SessionPolicyKey c ow i = policy0 \<longleftrightarrow> c = 11155111 \<and> ow = 1 \<and> i = ''p''" "SessionPolicyKey c ow i \<noteq> hold0"
    "SessionPolicyKey c ow i \<noteq> change0" for c ow i by (simp_all add: policy0_def hold0_def change0_def)
  ultimately show ?thesis by (simp add: store_keyed_def mem_rows marked_store_def policy_table_def)
qed

lemma pol_active: "pol (ce_auth owner_env) active_store 11155111 1 ''p'' = Some active_policy" "Usable (Some active_policy)"
  and pol_marked: "pol (ce_auth owner_env) marked_store 11155111 1 ''p'' = Some awaiting_policy"
  by (simp_all add: pol_def mem_rows active_store_def marked_store_def policy_table_def flip: policy0_def) (simp add: Usable_def policy_defs)

end
