(* ===== verification/BudgetJournal.thy ===== *)
theory BudgetJournal
  imports BudgetSample
begin

text \<open>
  The journal of budget changes as a machine, and what it guarantees across requests, sends and restarts. A handler
  runs while it holds the send gate of its wallet, so it is one step; a submission keeps the gate from the marker to the
  end of the relay, so its relay is a second step and no other handler of the wallet runs between them, while handlers
  of other wallets may. A restart forgets the relays. The chain may answer every step differently.
\<close>

section \<open>The machine\<close>

type_synonym gate = "int \<times> address \<times> address"

text \<open>
  \<open>j_sent\<close> are the owner operations that may have reached a bundler: the gate, the nonce and the id of every change a
  marker was written for. \<open>j_seen\<close> are the nonces some read of the chain showed consumed.
\<close>

record 'd journal =
  j_db :: 'd
  j_relays :: "(budget_change \<times> budget_hold \<times> bytes) list"
  j_sent :: "(gate \<times> string \<times> string) set"
  j_seen :: "(int \<times> address \<times> string) set"

definition journal_start :: "'d \<Rightarrow> 'd journal" where
  "journal_start d = \<lparr>j_db = d, j_relays = [], j_sent = {}, j_seen = {}\<rparr>"

definition gate_free :: "'d journal \<Rightarrow> gate \<Rightarrow> bool" where
  "gate_free s g \<longleftrightarrow> (\<forall>(p, h, f)\<in>set (j_relays s). gate_of h \<noteq> g)"

definition observed :: "('d, 'v) budget_backend \<Rightarrow> (int \<times> address \<times> string) set" where
  "observed K = {(c, w, n). consumed_in K c w n}"

definition with_db :: "'d journal \<Rightarrow> ('d, 'v) budget_backend \<Rightarrow> 'd \<Rightarrow> 'd journal" where
  "with_db s K d = s\<lparr>j_db := d, j_seen := j_seen s \<union> observed K\<rparr>"

definition with_marker :: "gate \<Rightarrow> (submit_error + submitted) \<Rightarrow> 'd journal \<Rightarrow> 'd journal" where
  "with_marker g r s = (case r of
       Inr (Marked p h f) \<Rightarrow> s\<lparr>j_relays := (p, h, f) # j_relays s, j_sent := insert (g, op_nonce_text p, bc_id p) (j_sent s)\<rparr>
     | _ \<Rightarrow> s)"

text \<open>\<open>other\<close> is every other write of the server: it leaves the rows of the holds alone.\<close>

inductive journal_step :: "'d change_env \<Rightarrow> ('d, 'v) budget_backend \<Rightarrow> 'd journal \<Rightarrow> 'd journal \<Rightarrow> bool" for E K where
  submit: "gate_free s (chain, user, wallet) \<Longrightarrow>
    submit_mark E K describe now1 now2 now3 (j_db s) user wallet chain pid signature = (d', r) \<Longrightarrow>
    journal_step E K s (with_marker (chain, user, wallet) r (with_db s K d'))"
| relay: "(p, h, f) \<in> set (j_relays s) \<Longrightarrow> submit_relay E K (j_db s) p h f = (d', r) \<Longrightarrow>
    journal_step E K s ((with_db s K d')\<lparr>j_relays := remove1 (p, h, f) (j_relays s)\<rparr>)"
| reconcile: "gate_free s (chain, owner, wallet) \<Longrightarrow>
    reconcileBudgetWalletLocked E K describe now (j_db s) chain owner wallet = (d', r) \<Longrightarrow> journal_step E K s (with_db s K d')"
| cancel: "gate_free s (chain, user, wallet) \<Longrightarrow>
    PrepareBudgetCancel E K describe now (j_db s) user wallet chain pid newid = (d', r) \<Longrightarrow> journal_step E K s (with_db s K d')"
| lease: "gate_free s (chain, owner, wallet) \<Longrightarrow>
    guardBudgetSessionSend E K describe now (j_db s) chain owner wallet = (d', r) \<Longrightarrow> journal_step E K s (with_db s K d')"
| broadcast: "BeforeBroadcast E (j_db s) chain owner wallet op = Inr (d', key, f) \<Longrightarrow> journal_step E K s (with_db s K d')"
| settled: "\<forall>(k, f)\<in>set flights. prefix (budgetFlightPrefix chain owner wallet) k \<Longrightarrow>
    Settled E (j_db s) chain owner wallet rc flights = Inr d' \<Longrightarrow> journal_step E K s (with_db s K d')"
| other: "hold_same E (j_db s) d' \<Longrightarrow> journal_step E K s (with_db s K d')"
| restart: "journal_step E K s (s\<lparr>j_relays := []\<rparr>)"

inductive journal_reach :: "'d change_env \<Rightarrow> 'd journal \<Rightarrow> 'd journal \<Rightarrow> 'v itself \<Rightarrow> bool" for E where
  start: "journal_reach E s s T"
| step: "journal_reach E s t T \<Longrightarrow> backend_ok E K \<Longrightarrow> journal_step E (K :: ('d, 'v) budget_backend) t u \<Longrightarrow> journal_reach E s u (T :: 'v itself)"

section \<open>The invariant\<close>

text \<open>
  A sent operation is an attempt of an unreleased hold, or its nonce was seen consumed; a relay in flight has its own
  hold in the store, unreleased.
\<close>

definition sent_held :: "'d change_env \<Rightarrow> 'd journal \<Rightarrow> bool" where
  "sent_held E s \<longleftrightarrow> (\<forall>c ow w n i. ((c, ow, w), n, i) \<in> j_sent s \<longrightarrow> (c, w, n) \<in> j_seen s \<or> live_hold E (j_db s) c ow w n [i])"

definition relays_held :: "'d change_env \<Rightarrow> 'd journal \<Rightarrow> bool" where
  "relays_held E s \<longleftrightarrow> (\<forall>(p, h, f)\<in>set (j_relays s). at_key E (j_db s) h)"

definition journal_inv :: "'d change_env \<Rightarrow> 'd journal \<Rightarrow> bool" where
  "journal_inv E s \<longleftrightarrow> holds_wf E (j_db s) \<and> sent_held E s \<and> relays_held E s"

lemma with_db_sel [simp]: "j_db (with_db s K d) = d" "j_relays (with_db s K d) = j_relays s" "j_sent (with_db s K d) = j_sent s"
    "j_seen (with_db s K d) = j_seen s \<union> observed K"
  by (simp_all add: with_db_def)

lemma sent_held_db:
  assumes "sent_held E s" and l: "\<And>c ow w n i. live_hold E (j_db s) c ow w n [i] \<Longrightarrow> consumed_in K c w n \<or> live_hold E d' c ow w n [i]"
  shows "sent_held E (with_db s K d')"
  unfolding sent_held_def
proof (intro allI impI)
  fix c ow w n i assume "((c, ow, w), n, i) \<in> j_sent (with_db s K d')"
  then have "(c, w, n) \<in> j_seen s \<or> live_hold E (j_db s) c ow w n [i]" using assms(1) by (simp add: sent_held_def)
  then show "(c, w, n) \<in> j_seen (with_db s K d') \<or> live_hold E (j_db (with_db s K d')) c ow w n [i]"
    using l [of c ow w n i] by (auto simp: observed_def)
qed

lemma inv_move:
  assumes inv: "journal_inv E s" and m: "holds_move E K g (j_db s) d'" and f: "gate_free s g"
  shows "journal_inv E (with_db s K d')"
proof -
  have "sent_held E (with_db s K d')"
    using inv holds_move_live [OF m] by (intro sent_held_db) (simp_all add: journal_inv_def)
  moreover have "at_key E d' h" if "(p, h, x) \<in> set (j_relays s)" for p h x
  proof -
    have "at_key E (j_db s) h" "gate_of h \<noteq> g" using inv f that by (auto simp: journal_inv_def relays_held_def gate_free_def)
    then show ?thesis using m by (simp add: holds_move_def at_key_def)
  qed
  ultimately show ?thesis using inv m by (auto simp: journal_inv_def relays_held_def holds_move_def)
qed

lemma inv_fixed:
  assumes "journal_inv E s" "holds_fixed E (j_db s) d'"
  shows "journal_inv E (with_db s K d')"
proof -
  have "sent_held E (with_db s K d')"
    using assms by (intro sent_held_db) (simp_all add: journal_inv_def holds_fixed_def live_hold_def)
  moreover have "relays_held E (with_db s K d')" using assms holds_fixed_at unfolding relays_held_def journal_inv_def by fastforce
  ultimately show ?thesis using assms by (simp add: journal_inv_def holds_fixed_def)
qed

lemma inv_marker:
  assumes inv: "journal_inv E s" and r: "\<forall>p h f. r = Inr (Marked p h f) \<longrightarrow> hold_marked E (j_db s) g p h"
  shows "journal_inv E (with_marker g r s)"
proof (cases "\<exists>p h f. r = Inr (Marked p h f)")
  case True
  then obtain p h f where p: "r = Inr (Marked p h f)" "hold_marked E (j_db s) g p h" using r by blast
  obtain c ow w where g: "g = (c, ow, w)" by (cases g)
  have at: "at_key E (j_db s) h" and l: "live_hold E (j_db s) c ow w (op_nonce_text p) [bc_id p]"
    using p(2) g by (auto simp: hold_marked_def live_hold_def at_key_def)
  show ?thesis using inv at l p(1) g by (auto simp: journal_inv_def sent_held_def relays_held_def with_marker_def)
next
  case False
  then have "with_marker g r s = s" by (auto simp: with_marker_def split: sum.splits submitted.splits)
  then show ?thesis using inv by simp
qed

lemma step_inv:
  assumes ok: "change_env_ok E" "backend_ok E K" and st: "journal_step E K s t" and inv: "journal_inv E s"
  shows "journal_inv E t"
proof -
  have wf: "holds_wf E (j_db s)" using inv by (simp add: journal_inv_def)
  show ?thesis using st
  proof cases
    case (submit chain user wallet describe now1 now2 now3 pid signature d' r)
    note m = submit_mark_move [OF ok wf submit(3)]
    have "journal_inv E (with_db s K d')" by (rule inv_move [OF inv conjunct1 [OF m] submit(2)])
    then show ?thesis unfolding submit(1) using m by (intro inv_marker) auto
  next
    case (relay p h f d' r)
    have "at_key E (j_db s) h" using inv relay(2) by (auto simp: journal_inv_def relays_held_def)
    then have "journal_inv E (with_db s K d')" using relay_fixed [OF ok(1) _ relay(3)] inv_fixed [OF inv] by blast
    then show ?thesis unfolding relay(1) using set_remove1_subset [of "(p, h, f)" "j_relays s"]
      by (fastforce simp: journal_inv_def sent_held_def relays_held_def)
  next
    case (reconcile chain owner wallet describe now d' r)
    show ?thesis unfolding reconcile(1) by (rule inv_move [OF inv reconcile_wallet_move [OF ok wf reconcile(3)] reconcile(2)])
  next
    case (cancel chain user wallet describe now pid newid d' r)
    show ?thesis unfolding cancel(1) by (rule inv_move [OF inv cancel_move [OF ok wf cancel(3)] cancel(2)])
  next
    case (lease chain owner wallet describe now d' r)
    show ?thesis unfolding lease(1) by (rule inv_move [OF inv guard_move(1) [OF ok wf lease(3)] lease(2)])
  next
    case (broadcast chain owner wallet op d' key f)
    show ?thesis unfolding broadcast(1) by (rule inv_fixed [OF inv same_holds_fixed [OF broadcast_same(1) [OF ok(1) broadcast(2)]]])
  next
    case (settled flights chain owner wallet rc d')
    show ?thesis unfolding settled(1) by (rule inv_fixed [OF inv same_holds_fixed [OF settled_same [OF ok(1) settled(3,2)]]])
  next
    case (other d')
    show ?thesis unfolding other(1) by (rule inv_fixed [OF inv same_holds_fixed [OF other(2)]])
  next
    case restart
    then show ?thesis using inv by (simp add: journal_inv_def sent_held_def relays_held_def)
  qed
qed

lemma reach_journal_inv:
  assumes "journal_reach E s t T" and "change_env_ok E" and "journal_inv E s"
  shows "journal_inv E t"
  using assms by induction (auto intro: step_inv)

lemma start_inv: "holds_wf E d \<Longrightarrow> journal_inv E (journal_start d)"
  by (simp add: journal_inv_def journal_start_def sent_held_def relays_held_def)

text \<open>
C35: Across any run of the journal, with restarts at any point and a chain that may answer every read differently, the
right to send session operations of a wallet is granted only when, for every owner operation a marker was ever written
for on that wallet, some read of the chain showed its nonce consumed: an owner operation that may still be included and a
session operation are never out together.
\<close>

theorem lease_waits_for_owner_operations:
  assumes "change_env_ok E" and "holds_wf E d" and "journal_reach E (journal_start d) s (T :: 'v itself)"
    and "backend_ok E K" and "gate_free s (c, ow, w)"
    and "guardBudgetSessionSend E (K :: ('d, 'v) budget_backend) describe now (j_db s) c ow w = (d', Inr ())"
    and "((c, ow, w), n, i) \<in> j_sent s"
  shows "(c, w, n) \<in> j_seen s \<or> consumed_in K c w n"
proof -
  have inv: "journal_inv E s" by (rule reach_journal_inv [OF assms(3,1) start_inv [OF assms(2)]])
  then have wf: "holds_wf E (j_db s)" by (simp add: journal_inv_def)
  note g = guard_move [OF assms(1,4) wf assms(6)]
  have "(c, w, n) \<in> j_seen s \<or> live_hold E (j_db s) c ow w n [i]" using inv assms(7) by (auto simp: journal_inv_def sent_held_def)
  moreover have "\<not> live_hold E d' c ow w n [i]" by (rule g(2)) simp
  ultimately show ?thesis using holds_move_live [OF g(1)] by blast
qed

theorem lease_waits_for_owner_operations_witness:
  "\<exists>s. journal_reach owner_env (journal_start review_store) s TYPE(int) \<and>
     ((11155111, 1, 2), sdecimal owner_nonce0, ''a'') \<in> j_sent s \<and>
     guardBudgetSessionSend owner_env (chain_at (owner_nonce0 + 1)) (\<lambda>_. []) 9 (j_db s) 11155111 1 2 = (active_store, Inr ()) \<and>
     (11155111, 2, sdecimal owner_nonce0) \<notin> j_seen s \<and> consumed_in (chain_at (owner_nonce0 + 1)) 11155111 2 (sdecimal owner_nonce0)"
proof -
  let ?K = "chain_at owner_nonce0"
  let ?g = "(11155111, 1, 2) :: gate"
  obtain framed where m: "submit_mark owner_env ?K (\<lambda>_. []) 3 4 5 review_store 1 2 11155111 ''a'' owner_sig =
      (marked_store, Inr (Marked marked_review held framed))" by (rule mark_owner)
  let ?s = "with_marker ?g (Inr (Marked marked_review held framed)) (with_db (journal_start review_store) ?K marked_store)"
  have "journal_step owner_env ?K (journal_start review_store) ?s"
  proof (rule submit)
    show "gate_free (journal_start review_store) ?g" by (simp add: gate_free_def journal_start_def)
    show "submit_mark owner_env ?K (\<lambda>_. []) 3 4 5 (j_db (journal_start review_store)) 1 2 11155111 ''a'' owner_sig =
        (marked_store, Inr (Marked marked_review held framed))" using m by (simp add: journal_start_def)
  qed
  then have r1: "journal_reach owner_env (journal_start review_store) ?s TYPE(int)" by (rule step [OF start chain_ok])
  have reach: "journal_reach owner_env (journal_start review_store) (?s\<lparr>j_relays := []\<rparr>) TYPE(int)"
    by (rule step [OF r1 chain_ok restart])
  have op: "op_nonce_text marked_review = sdecimal owner_nonce0" by (simp add: marked_review_def) (simp add: op_nonce_text_def)
  have sent: "((11155111, 1, 2), sdecimal owner_nonce0, ''a'') \<in> j_sent (?s\<lparr>j_relays := []\<rparr>)"
    by (simp add: with_marker_def op)
  have db: "j_db (?s\<lparr>j_relays := []\<rparr>) = marked_store" by (simp add: with_marker_def)
  have unseen: "(11155111, 2, sdecimal owner_nonce0) \<notin> j_seen (?s\<lparr>j_relays := []\<rparr>)"
    by (simp add: with_marker_def journal_start_def observed_def consumed_in_def)
  have lease: "guardBudgetSessionSend owner_env (chain_at (owner_nonce0 + 1)) (\<lambda>_. []) 9 (j_db (?s\<lparr>j_relays := []\<rparr>)) 11155111 1 2 = (active_store, Inr ())"
    by (simp only: db lease_owner)
  have "gate_free (?s\<lparr>j_relays := []\<rparr>) ?g" by (simp add: gate_free_def)
  from lease_waits_for_owner_operations [OF owner_env_ok store_holds_wf reach chain_ok this lease sent]
  show ?thesis using reach sent lease unseen by blast
qed

end
