(* ===== verification/BudgetActivation.thy ===== *)
theory BudgetActivation
  imports BudgetJournal
begin

text \<open>
  How a budget change becomes authority: the policies that reconciling a hold writes, and what it has read of the chain
  when it makes one usable.
\<close>

section \<open>Policies written by a commit\<close>

definition pw :: "'d change_env \<Rightarrow> (session_policy \<Rightarrow> bool) \<Rightarrow> bytes \<Rightarrow> bytes \<Rightarrow> bool" where
  "pw E P k v \<longleftrightarrow> (\<forall>c ow i. k = SessionPolicyKey c ow i \<longrightarrow> (\<exists>p. policy_from_json (ce_auth E) v = Some p \<and> keyed p c ow i \<and> P p))"

abbreviation unusable :: "session_policy \<Rightarrow> bool" where
  "unusable p \<equiv> \<not> Usable (Some p)"

lemma hold_key_not_policy [simp]: "budgetHoldKey h \<noteq> SessionPolicyKey c ow i" "SessionPolicyKey c ow i \<noteq> budgetHoldKey h"
  by (simp_all add: budgetHoldKey_eq)

lemma pw_keys [simp]: "pw E P (budgetPreparationKey ow i) v" "pw E P (budgetHoldKey h) v"
  by (simp_all add: pw_def)

lemma put_change_pw:
  assumes "writes (pw E P) us" and "putBudgetChange E p us = Inr us'"
  shows "writes (pw E P) us'" "\<And>c ow i. map_of us' (SessionPolicyKey c ow i) = map_of us (SessionPolicyKey c ow i)"
proof -
  show "writes (pw E P) us'" using assms unfolding putBudgetChange_def by (rule writes_put) (rule pw_keys)
  show "map_of us' (SessionPolicyKey c ow i) = map_of us (SessionPolicyKey c ow i)" for c ow i
    using assms(2) by (auto simp: putBudgetChange_def put_json_def update_conv' split: option.splits)
qed

lemma put_hold_pw:
  assumes "writes (pw E P) us" and "putBudgetHold E h us = Inr us'"
  shows "writes (pw E P) us'" "\<And>c ow i. map_of us' (SessionPolicyKey c ow i) = map_of us (SessionPolicyKey c ow i)"
proof -
  show "writes (pw E P) us'" using assms unfolding putBudgetHold_def by (rule writes_put) (rule pw_keys)
  show "map_of us' (SessionPolicyKey c ow i) = map_of us (SessionPolicyKey c ow i)" for c ow i
    using assms(2) by (auto simp: putBudgetHold_def put_json_def update_conv' split: option.splits)
qed

lemma put_policy_pw:
  assumes ok: "change_env_ok E" and us: "writes (pw E P) us" and t: "text_ok (ce_auth E) p" "P p"
    and put: "putBudgetPolicy E p us = Inr us'"
  obtains ow v where "writes (pw E P) us'" "sp_owner p = Some ow" "policy_from_json (ce_auth E) v = Some p"
    "map_of us' = (map_of us)(SessionPolicyKey (sp_chain_id p) ow (sp_id p) \<mapsto> v)"
proof -
  obtain ow v where o: "sp_owner p = Some ow" "policy_to_json (ce_auth E) p = Some v"
    "us' = AList.update (SessionPolicyKey (sp_chain_id p) ow (sp_id p)) v us"
    using put by (auto simp: putBudgetPolicy_def put_json_def split: option.splits)
  have v: "policy_from_json (ce_auth E) v = Some p" by (rule env_roundtrip [OF change_env_auth [OF ok] t(1) o(2)])
  have "pw E P (SessionPolicyKey (sp_chain_id p) ow (sp_id p)) v" using v t(2) o(1) by (auto simp: pw_def keyed_def)
  then have "writes (pw E P) us'" using us unfolding writes_def o(3) by (simp add: distinct_update update_conv')
  then show thesis using that o v by (simp add: update_conv')
qed

lemma pw_commit:
  assumes ok: "change_env_ok E" and us: "writes (pw E P) us" and c: "atomicBudgetWrite E d us [] = Inr d'"
  shows "pol (ce_auth E) d' c' ow i = (case map_of us (SessionPolicyKey c' ow i) of
      Some v \<Rightarrow> policy_from_json (ce_auth E) v | None \<Rightarrow> pol (ce_auth E) d c' ow i)"
  using writes_commit [OF ok us c] by (simp add: pol_def split: option.splits)

lemma pw_written:
  assumes "writes (pw E P) us" and "map_of us (SessionPolicyKey c ow i) = Some v"
  obtains p where "policy_from_json (ce_auth E) v = Some p" "keyed p c ow i" "P p"
  using assms unfolding writes_def pw_def by blast

text \<open>A commit of unusable policies makes none usable.\<close>

lemma pw_unusable_commit:
  assumes "change_env_ok E" "writes (pw E unusable) us" "atomicBudgetWrite E d us [] = Inr d'"
    and "pol (ce_auth E) d' c ow i = Some p" "Usable (Some p)"
  shows "pol (ce_auth E) d c ow i = Some p \<and> map_of us (SessionPolicyKey c ow i) = None"
proof (cases "map_of us (SessionPolicyKey c ow i)")
  case None
  then show ?thesis using assms(4) pw_commit [OF assms(1-3)] by simp
next
  case (Some v)
  obtain q where "policy_from_json (ce_auth E) v = Some q" "unusable q" by (rule pw_written [OF assms(2) Some])
  then show ?thesis using assms(4,5) pw_commit [OF assms(1-3)] Some by simp
qed

section \<open>The loops\<close>

lemma revoked_unusable: "unusable (p\<lparr>sp_status := SessionPolicyRevoked\<rparr>)"
  by (simp add: Usable_def policy_constants)

lemma awaiting_unusable: "unusable (p\<lparr>sp_status := SessionPolicyRevoked, awaiting_budget_activation := True\<rparr>)"
  by (simp add: Usable_def)

definition change_text :: "'d change_env \<Rightarrow> budget_change \<Rightarrow> bool" where
  "change_text E p \<longleftrightarrow> (\<forall>q. bc_policy p = Some q \<longrightarrow> text_ok (ce_auth E) q)"

lemma text_ok_awaiting:
  "auth_env_ok A \<Longrightarrow> text_ok A p \<Longrightarrow> text_ok A (p\<lparr>sp_status := SessionPolicyRevoked, awaiting_budget_activation := b\<rparr>)"
  by (auto simp: text_ok_def policy_texts_def utf8_revoked)

lemma text_ok_activated:
  assumes "change_env_ok E" "text_ok (ce_auth E) q"
  shows "text_ok (ce_auth E) (activated_policy E now hash q)"
  using assms utf8_active [OF change_env_auth [OF assms(1)]] env_ascii [OF change_env_auth [OF assms(1)] hash_ascii [OF assms(1)]]
  by (auto simp: text_ok_def policy_texts_def activated_policy_def split: option.splits)

lemma settle_loop_pw:
  assumes ok: "change_env_ok E"
  shows "writes (pw E unusable) us \<Longrightarrow> \<forall>p\<in>set ps. change_text E p \<Longrightarrow> settle_loop E winner ob ps us = Inr us' \<Longrightarrow>
    writes (pw E unusable) us'"
proof (induction ps arbitrary: us)
  case (Cons p ps)
  let ?q = "settled_record winner ob p"
  obtain us1 where us1: "putBudgetChange E ?q us = Inr us1" using Cons.prems(3) by (auto simp: Let_def)
  note w1 = put_change_pw(1) [OF Cons.prems(1) us1]
  show ?case
  proof (cases "is_cancel ?q")
    case True
    then show ?thesis using Cons.IH [OF w1] Cons.prems(2,3) us1 by (simp add: Let_def)
  next
    case False
    then obtain r us2 where r: "bc_policy (revoke_change_policy ?q) = Some r" "putBudgetPolicy E r us1 = Inr us2"
      "settle_loop E winner ob ps us2 = Inr us'"
      using Cons.prems(3) us1 by (auto simp: Let_def split: option.splits)
    obtain q where q: "bc_policy p = Some q" "r = q\<lparr>sp_status := SessionPolicyRevoked, awaiting_budget_activation := True\<rparr>"
      using r(1) by (auto simp: revoke_change_policy_def settled_record_def)
    have "text_ok (ce_auth E) r" using Cons.prems(2) q text_ok_awaiting [OF change_env_auth [OF ok]] by (auto simp: change_text_def)
    then have "writes (pw E unusable) us2"
      using awaiting_unusable put_policy_pw [OF ok w1 _ _ r(2)] unfolding q(2) by blast
    then show ?thesis using Cons.IH Cons.prems(2) r(3) by simp
  qed
qed simp

lemma revoke_others_pw:
  assumes ok: "change_env_ok E"
  shows "writes (pw E unusable) us \<Longrightarrow> \<forall>p\<in>set ps. text_ok (ce_auth E) p \<Longrightarrow> revoke_others E wallet keep ps us = Inr us' \<Longrightarrow>
    writes (pw E unusable) us' \<and> dom (map_of us) \<subseteq> dom (map_of us') \<and>
    (\<forall>p\<in>set ps. sp_runner p = Some wallet \<longrightarrow> sp_id p \<noteq> keep \<longrightarrow> Usable (Some p) \<longrightarrow>
      (\<exists>ow. sp_owner p = Some ow \<and> SessionPolicyKey (sp_chain_id p) ow (sp_id p) \<in> dom (map_of us')))"
proof (induction ps arbitrary: us)
  case (Cons p ps)
  show ?case
  proof (cases "sp_runner p = Some wallet \<and> sp_id p \<noteq> keep \<and> Usable (Some p)")
    case True
    let ?q = "p\<lparr>sp_status := SessionPolicyRevoked\<rparr>"
    obtain us1 where us1: "putBudgetPolicy E ?q us = Inr us1" "revoke_others E wallet keep ps us1 = Inr us'"
      using Cons.prems(3) True by auto
    have t: "text_ok (ce_auth E) ?q" using Cons.prems(2) text_ok_revoked [OF change_env_auth [OF ok]] by simp
    obtain ow v where w: "writes (pw E unusable) us1" "sp_owner ?q = Some ow"
      "map_of us1 = (map_of us)(SessionPolicyKey (sp_chain_id ?q) ow (sp_id ?q) \<mapsto> v)"
      using put_policy_pw [OF ok Cons.prems(1) t revoked_unusable us1(1)] by blast
    have k: "SessionPolicyKey (sp_chain_id p) ow (sp_id p) \<in> dom (map_of us1)" "dom (map_of us) \<subseteq> dom (map_of us1)"
      unfolding w(3) by auto
    have IH: "writes (pw E unusable) us'" "dom (map_of us1) \<subseteq> dom (map_of us')"
      "\<forall>p\<in>set ps. sp_runner p = Some wallet \<longrightarrow> sp_id p \<noteq> keep \<longrightarrow> Usable (Some p) \<longrightarrow>
        (\<exists>ow. sp_owner p = Some ow \<and> SessionPolicyKey (sp_chain_id p) ow (sp_id p) \<in> dom (map_of us'))"
      using Cons.IH [OF w(1) _ us1(2)] Cons.prems(2) by simp_all
    have "sp_owner p = Some ow" "SessionPolicyKey (sp_chain_id p) ow (sp_id p) \<in> dom (map_of us')" using w(2) k(1) IH(2) by auto
    then show ?thesis using IH(1,3) subset_trans [OF k(2) IH(2)] by simp
  next
    case False
    have "revoke_others E wallet keep ps us = Inr us'" using Cons.prems(3) False by (auto split: if_splits)
    note IH = Cons.IH [OF Cons.prems(1) _ this]
    show ?thesis using IH Cons.prems(2) False by (metis list.set_intros(2) set_ConsD)
  qed
qed simp

lemma external_pw:
  assumes ok: "change_env_ok E"
  shows "writes (pw E unusable) us \<Longrightarrow> \<forall>p\<in>set ps. text_ok (ce_auth E) p \<Longrightarrow> external_policies E K v wallet ps us = Inr us' \<Longrightarrow>
    writes (pw E unusable) us'"
proof (induction ps arbitrary: us)
  case (Cons p ps)
  have t: "text_ok (ce_auth E) (p\<lparr>sp_status := SessionPolicyRevoked\<rparr>)"
    using Cons.prems(2) text_ok_revoked [OF change_env_auth [OF ok]] by simp
  consider "external_policies E K v wallet ps us = Inr us'"
    | us1 where "putBudgetPolicy E (p\<lparr>sp_status := SessionPolicyRevoked\<rparr>) us = Inr us1" "external_policies E K v wallet ps us1 = Inr us'"
    using Cons.prems(3) by (auto split: if_splits sum.splits)
  then show ?case
  proof cases
    case 1
    then show ?thesis using Cons.IH Cons.prems(1,2) by simp
  next
    case 2
    have "writes (pw E unusable) us1" using put_policy_pw [OF ok Cons.prems(1) t revoked_unusable 2(1)] by blast
    then show ?thesis using Cons.IH Cons.prems(2) 2(2) by simp
  qed
qed simp

section \<open>Settling\<close>

lemma load_text:
  assumes "change_env_ok E" "loadBudgetChange E d user wallet chain pid = Inr p"
  shows "change_text E p"
  using load_spec(7) [OF assms(2)] change_policy_text [OF assms(1)] by (auto simp: change_text_def)

lemma hold_attempts_loaded:
  "hold_attempts E d h is = Inr ps \<Longrightarrow> p \<in> set ps \<Longrightarrow> \<exists>i\<in>set is. loadBudgetChange E d (h_owner h) (h_wallet h) (h_chain h) i = Inr p"
  by (induction "is" arbitrary: ps) auto

lemma load_identity:
  assumes "loadBudgetChange E d user wallet chain pid = Inr p"
  obtains q g where "bc_policy p = Some q" "sp_grant q = Some g" "sp_owner q = Some user" "sp_runner q = Some wallet" "sp_chain_id q = chain"
proof -
  note l = load_spec [OF assms]
  have "budget_identity_ok p" using l(6) by (auto simp: validateStoredBudgetChange_def split: if_splits)
  then show thesis using that l(2-4) by (auto simp: budget_identity_ok_def split: option.splits)
qed

text \<open>After activation the activated policy is the only usable one of its wallet.\<close>

lemma activate_commit:
  assumes ok: "change_env_ok E" and wf: "store_keyed (ce_auth E) d" and us: "writes (pw E unusable) us"
    and q: "bc_policy winner = Some q" "text_ok (ce_auth E) q" "sp_owner q = Some (bc_owner winner)" "sp_chain_id q = bc_chain winner"
    and a: "activateBudgetChange E now d winner us = Inr us'" and r: "releaseBudgetHold E d us' h = Inr d'"
    and p: "pol (ce_auth E) d' c ow i = Some p" "Usable (Some p)"
  shows "c = bc_chain winner \<and> ow = bc_owner winner \<and> i = sp_id q \<and> p = activated_policy E now (user_op_hash winner) q \<or>
    pol (ce_auth E) d c ow i = Some p \<and> (c = bc_chain winner \<longrightarrow> ow = bc_owner winner \<longrightarrow> sp_runner p \<noteq> Some (bc_wallet winner))"
proof -
  let ?q = "activated_policy E now (user_op_hash winner) q"
  let ?k = "SessionPolicyKey (bc_chain winner) (bc_owner winner) (sp_id q)"
  obtain existing q' us1 us2 where l: "ListSessionPolicies (ce_auth E) d (bc_chain winner) (bc_owner winner) = Inr existing"
    and q': "bc_policy winner = Some q'" and u': "revoke_others E (bc_wallet winner) (sp_id q') existing us = Inr us1"
      "putBudgetPolicy E (activated_policy E now (user_op_hash winner) q') us1 = Inr us2"
      "putBudgetChange E (winner\<lparr>bc_policy := Some (activated_policy E now (user_op_hash winner) q')\<rparr>) us2 = Inr us'"
    using a by (rule activate_cases)
  have "q' = q" using q' q(1) by simp
  note u = u' [unfolded this]
  note L = List_keyed(2) [OF change_env_auth [OF ok] wf l]
  have "text_ok (ce_auth E) x" if "x \<in> set existing" for x
  proof (rule pol_text [OF change_env_auth [OF ok]])
    show "pol (ce_auth E) d (bc_chain winner) (bc_owner winner) (sp_id x) = Some x" using L that by simp
  qed
  then have "\<forall>p\<in>set existing. text_ok (ce_auth E) p" by blast
  note R = revoke_others_pw [OF ok us this u(1)]
  obtain us3 where h: "putBudgetHold E (h\<lparr>h_released := True\<rparr>) us' = Inr us3" "atomicBudgetWrite E d us3 [] = Inr d'"
    using r by (auto simp: releaseBudgetHold_def)
  have w1: "writes (pw E (\<lambda>_. True)) us1" using R unfolding writes_def pw_def by blast
  obtain v where v: "writes (pw E (\<lambda>_. True)) us2" "policy_from_json (ce_auth E) v = Some ?q" "map_of us2 = (map_of us1)(?k \<mapsto> v)"
    using put_policy_pw [OF ok w1 text_ok_activated [OF ok q(2)] TrueI u(2)] q(3,4) by (auto simp: activated_policy_def)
  note w3 = put_change_pw [OF v(1) u(3)]
  note w4 = put_hold_pw [OF w3(1) h(1)]
  have m: "map_of us3 (SessionPolicyKey c ow i) = (if SessionPolicyKey c ow i = ?k then Some v else map_of us1 (SessionPolicyKey c ow i))"
    by (simp only: w4(2) w3(2) v(3) fun_upd_apply)
  note P = pw_commit [OF ok w4(1) h(2), of c ow i, unfolded m]
  show ?thesis
  proof (cases "SessionPolicyKey c ow i = ?k")
    case True
    then show ?thesis using P p(1) v(2) by simp
  next
    case False
    show ?thesis
    proof (cases "map_of us1 (SessionPolicyKey c ow i)")
      case (Some x)
      obtain y where "policy_from_json (ce_auth E) x = Some y" "unusable y" using pw_written [OF conjunct1 [OF R] Some] by blast
      moreover have "pol (ce_auth E) d' c ow i = policy_from_json (ce_auth E) x" by (simp only: P if_not_P [OF False] Some option.simps)
      ultimately show ?thesis using p by simp
    next
      case None
      then have old: "pol (ce_auth E) d c ow i = Some p" using p(1) by (simp only: P if_not_P [OF False] option.simps)
      moreover have "sp_runner p \<noteq> Some (bc_wallet winner)" if "c = bc_chain winner" "ow = bc_owner winner"
      proof
        assume run: "sp_runner p = Some (bc_wallet winner)"
        obtain x where x: "rows_of (ce_badger E) d (SessionPolicyKey c ow i) = Some x" "policy_from_json (ce_auth E) x = Some p"
          using old by (rule polD)
        have k: "keyed p c ow i" using store_keyedD [OF wf x(1)] x(2) by auto
        have "p \<in> set existing" using L old that by blast
        then have "SessionPolicyKey c ow i \<in> dom (map_of us1)"
          using R run p(2) False k that by (auto simp: keyed_def)
        then show False using None by auto
      qed
      ultimately show ?thesis by blast
    qed
  qed
qed

text \<open>What the chain showed when a policy was activated.\<close>

definition resets_zero :: "('d, 'v) budget_backend \<Rightarrow> budget_block \<Rightarrow> budget_change \<Rightarrow> bool" where
  "resets_zero K blk p \<longleftrightarrow> (\<exists>b v. bk_view K (bc_chain p) b = Inr v \<and> VerifyCanonical K v = None \<and>
     bb_number blk \<le> bb_number (bk_block K v) \<and> bb_hash blk \<noteq> zero_hash \<and>
     (\<forall>r\<in>set (approval_resets p). \<exists>out. allowance K v (ar_token r) (bc_wallet p) (ar_spender r) = Some out \<and> length out = 32 \<and> be_nat out = 0))"

lemma prove_resets_zero:
  "prove_resets K v wallet rs = ResetsZero \<Longrightarrow> VerifyCanonical K v = None \<and>
   (\<forall>r\<in>set rs. \<exists>out. allowance K v (ar_token r) wallet (ar_spender r) = Some out \<and> length out = 32 \<and> be_nat out = 0)"
  by (induction rs) (auto split: option.splits if_splits)

lemma proveBudgetResets_zero:
  assumes "proveBudgetResets K p = ResetsZero"
  shows "resets_zero K (inclusion_block p) p"
proof -
  obtain b v where v: "bk_view K (bc_chain p) b = Inr v" "verifyBudgetInclusion K (bc_chain p) (bk_block K v) (inclusion_block p) = Inr ()"
    "prove_resets K v (bc_wallet p) (approval_resets p) = ResetsZero"
    using assms by (auto simp: proveBudgetResets_def split: sum.splits change_error.splits)
  have "bb_hash (inclusion_block p) \<noteq> zero_hash" "bb_number (inclusion_block p) \<le> bb_number (bk_block K v)"
    using v(2) by (auto simp: verifyBudgetInclusion_def not_less split: if_splits)
  then show ?thesis using v(1) prove_resets_zero [OF v(3)] unfolding resets_zero_def by blast
qed

definition activation :: "'d change_env \<Rightarrow> ('d, 'v) budget_backend \<Rightarrow> int \<Rightarrow> 'd \<Rightarrow> budget_hold \<Rightarrow> session_policy \<Rightarrow> bool" where
  "activation E K now d h p \<longleftrightarrow> (\<exists>ob w q. Observe K h = Inr ob \<and> ob_success ob \<and>
     (\<exists>i\<in>set (h_attempts h). loadBudgetChange E d (h_owner h) (h_wallet h) (h_chain h) i = Inr w) \<and>
     \<not> is_cancel w \<and> user_op_hash w = ob_hash ob \<and> resets_zero K (ob_block ob) w \<and> bc_policy w = Some q \<and>
     p = activated_policy E now (ob_hash ob) q)"

lemma winner_of_Some:
  assumes "winner_of hash ps = Some w"
  shows "w \<in> set ps" "user_op_hash w = hash"
proof -
  let ?qs = "filter (\<lambda>p. user_op_hash p = hash) ps"
  have "?qs \<noteq> []" "w = last ?qs" using assms by (auto simp: winner_of_def split: list.splits)
  then have "w \<in> set ?qs" using last_in_set by metis
  then show "w \<in> set ps" "user_op_hash w = hash" by simp_all
qed

text \<open>The usable policies after settling a hold: those that were usable before, or the winner's alone on its wallet.\<close>

lemma settle_usable:
  assumes ok: "change_env_ok E" and wf: "store_keyed (ce_auth E) d" and at: "hold_attempts E d h (h_attempts h) = Inr records"
    and w: "w \<in> set records" "winner = w\<lparr>inclusion_block := blk, transaction_hash := tx\<rparr>"
    and s: "settleBudgetHold E now d h records winner ob = Inr d'"
    and p: "pol (ce_auth E) d' c ow i = Some p" "Usable (Some p)"
  shows "pol (ce_auth E) d c ow i = Some p \<and>
      (ob_success ob \<and> \<not> is_cancel w \<longrightarrow> c = h_chain h \<longrightarrow> ow = h_owner h \<longrightarrow> sp_runner p \<noteq> Some (h_wallet h)) \<or>
    ob_success ob \<and> \<not> is_cancel w \<and> c = h_chain h \<and> ow = h_owner h \<and>
      (\<exists>q. bc_policy w = Some q \<and> i = sp_id q \<and> p = activated_policy E now (user_op_hash w) q)"
proof -
  obtain us us' where l: "settle_loop E winner ob records [] = Inr us" and r: "releaseBudgetHold E d us' h = Inr d'"
    and a: "if ob_success ob \<and> \<not> is_cancel w
      then activateBudgetChange E now d (revoke_change_policy (settled_record winner ob winner)) us = Inr us' else us' = us"
  proof -
    obtain us where "settle_loop E winner ob records [] = Inr us" using s by (auto simp: settleBudgetHold_def)
    then show thesis using that s w(2) by (cases "ob_success ob \<and> \<not> is_cancel w") (auto simp: settleBudgetHold_def)
  qed
  have "\<forall>x\<in>set records. change_text E x" using hold_attempts_loaded [OF at] load_text [OF ok] by blast
  note U = settle_loop_pw [OF ok writes_Nil this l]
  show ?thesis
  proof (cases "ob_success ob \<and> \<not> is_cancel w")
    case False
    then obtain us3 where u: "putBudgetHold E (h\<lparr>h_released := True\<rparr>) us = Inr us3" "atomicBudgetWrite E d us3 [] = Inr d'"
      using a r by (auto simp: releaseBudgetHold_def split: if_splits)
    have "pol (ce_auth E) d c ow i = Some p" using pw_unusable_commit [OF ok put_hold_pw(1) [OF U u(1)] u(2) p] by blast
    then show ?thesis using False by blast
  next
    case True
    obtain j where j: "loadBudgetChange E d (h_owner h) (h_wallet h) (h_chain h) j = Inr w"
      using hold_attempts_loaded [OF at w(1)] by blast
    obtain q g where q: "bc_policy w = Some q" "sp_owner q = Some (h_owner h)" "sp_chain_id q = h_chain h"
      using load_identity [OF j] by blast
    let ?w = "revoke_change_policy (settled_record winner ob winner)"
    let ?q = "q\<lparr>sp_status := SessionPolicyRevoked, awaiting_budget_activation := True\<rparr>"
    have W: "bc_policy ?w = Some ?q" "bc_owner ?w = h_owner h" "bc_chain ?w = h_chain h" "bc_wallet ?w = h_wallet h"
      "user_op_hash ?w = user_op_hash w"
      using q load_spec [OF j] by (simp_all add: revoke_change_policy_def settled_record_def w(2))
    have t: "text_ok (ce_auth E) ?q"
      using load_text [OF ok j] q(1) by (intro text_ok_awaiting [OF change_env_auth [OF ok]]) (simp add: change_text_def)
    have act: "activated_policy E now x ?q = activated_policy E now x q" for x by (simp add: activated_policy_def)
    have "activateBudgetChange E now d ?w us = Inr us'" using a True by simp
    from activate_commit [OF ok wf U W(1) t _ _ this r p] W q True show ?thesis by (auto simp: act)
  qed
qed

lemma save_pol:
  assumes ok: "change_env_ok E" and t: "hold_text E h" and s: "saveBudgetTransition E d p (Some h) [] = Inr d'"
  shows "pol (ce_auth E) d' c ow i = pol (ce_auth E) d c ow i"
proof -
  obtain us1 us2 where u: "putBudgetChange E p [] = Inr us1" "putBudgetHold E h us1 = Inr us2" "atomicBudgetWrite E d us2 [] = Inr d'"
    using s by (auto simp: saveBudgetTransition_def)
  note w1 = put_change_pw [OF writes_Nil [of "pw E unusable"] u(1)]
  note w2 = put_hold_pw [OF w1(1) u(2)]
  show ?thesis using pw_commit [OF ok w2(1) u(3)] by (simp add: w2(2) w1(2))
qed

lemma save_reasons_pol:
  "change_env_ok E \<Longrightarrow> hold_text E h \<Longrightarrow> save_reasons E h reason ps d = (d', r) \<Longrightarrow> pol (ce_auth E) d' c ow i = pol (ce_auth E) d c ow i"
proof (induction ps arbitrary: d)
  case (Cons p ps)
  show ?case
  proof (cases "saveBudgetTransition E d (p\<lparr>bc_reason := reason\<rparr>) (Some h) []")
    case (Inl e)
    then show ?thesis using Cons.prems(3) by simp
  next
    case (Inr d1)
    have "pol (ce_auth E) d' c ow i = pol (ce_auth E) d1 c ow i" using Cons.IH [OF Cons.prems(1,2)] Cons.prems(3) Inr by simp
    then show ?thesis using save_pol [OF Cons.prems(1,2) Inr] by simp
  qed
qed simp

lemma authorities_pol: "backend_ok E K \<Longrightarrow> CheckAuthorities K v d ow w = (d', r) \<Longrightarrow>
    rows_of (ce_badger E) d' (SessionPolicyKey c ow' i) = rows_of (ce_badger E) d (SessionPolicyKey c ow' i)"
  unfolding backend_ok_def policy_key_def by (metis fst_conv)

lemma external_usable:
  assumes ok: "change_env_ok E" "backend_ok E K" and wf: "store_keyed (ce_auth E) d" and t: "hold_text E h"
    and r: "reconcileExternalBudgetNonce E K describe d h records ob = (d', r)"
    and p: "pol (ce_auth E) d' c ow i = Some p" "Usable (Some p)"
  shows "pol (ce_auth E) d c ow i = Some p"
proof (cases "bk_view K (h_chain h) None")
  case (Inl e)
  then show ?thesis using r p by (simp add: reconcileExternalBudgetNonce_def)
next
  case (Inr v)
  obtain d1 a where a: "CheckAuthorities K v d (h_owner h) (h_wallet h) = (d1, a)" by force
  note rows = authorities_pol [OF ok(2) a]
  have d1: "pol (ce_auth E) d1 c ow i = pol (ce_auth E) d c ow i" and wf1: "store_keyed (ce_auth E) d1"
    using wf by (simp_all add: pol_def store_keyed_def rows)
  consider "d' = d" | "d' = d1" | e where "save_reasons E h (describe e) records d1 = (d', r)"
    | ps us1 us where "ListSessionPolicies (ce_auth E) d1 (h_chain h) (h_owner h) = Inr ps"
        "external_policies E K v (h_wallet h) ps [] = Inr us1"
        "foldE (\<lambda>p. putBudgetChange E (external_record ob p)) records us1 = Inr us" "releaseBudgetHold E d1 us h = Inr d'"
    using r Inr a by (auto simp: reconcileExternalBudgetNonce_def split: sum.splits option.splits)
  then show ?thesis
  proof cases
    case 3
    then show ?thesis using save_reasons_pol [OF ok(1) t] p(1) d1 by simp
  next
    case 4
    have "text_ok (ce_auth E) x" if "x \<in> set ps" for x
    proof (rule pol_text [OF change_env_auth [OF ok(1)]])
      show "pol (ce_auth E) d1 (h_chain h) (h_owner h) (sp_id x) = Some x"
        using List_keyed(2) [OF change_env_auth [OF ok(1)] wf1 4(1)] that by simp
    qed
    then have "\<forall>x\<in>set ps. text_ok (ce_auth E) x" by blast
    note w1 = external_pw [OF ok(1) writes_Nil this 4(2)]
    have w2: "writes (pw E unusable) us"
      by (rule foldE_invariant [OF 4(3), where P = "writes (pw E unusable)"]) (use w1 put_change_pw(1) in blast)+
    obtain us3 where u: "putBudgetHold E (h\<lparr>h_released := True\<rparr>) us = Inr us3" "atomicBudgetWrite E d1 us3 [] = Inr d'"
      using 4(4) by (auto simp: releaseBudgetHold_def)
    show ?thesis using pw_unusable_commit [OF ok(1) put_hold_pw(1) [OF w2 u(1)] u(2) p] d1 by simp
  qed (use p d1 in simp_all)
qed

lemma reconcile_cases:
  assumes "reconcileBudgetHold E K describe now d h = (d', r)"
  obtains "d' = d"
    | (ext) ob records where "Observe K h = Inr ob" "reconcileExternalBudgetNonce E K describe d h records ob = (d', r)"
    | (save) p where "saveBudgetTransition E d p (Some h) [] = Inr d'"
    | (settle) ob records w where "Observe K h = Inr ob" "hold_attempts E d h (h_attempts h) = Inr records"
        "winner_of (ob_hash ob) records = Some w"
        "ob_success ob \<and> \<not> is_cancel w \<longrightarrow>
          proveBudgetResets K (w\<lparr>inclusion_block := ob_block ob, transaction_hash := ob_tx ob, bc_state := ownerSubmissionSubmitted\<rparr>) = ResetsZero"
        "settleBudgetHold E now d h records (w\<lparr>inclusion_block := ob_block ob, transaction_hash := ob_tx ob\<rparr>) ob = Inr d'"
  using assms
  by (auto simp: reconcileBudgetHold_def Let_def split: sum.splits option.splits if_splits reset_proof.splits)

text \<open>
C36: Reconciling a hold makes a policy usable only as the activation of a stored, reviewed change of that wallet: one
of the hold's attempts, not a cancellation, whose operation hash is the one the chain's event reports for the hold's
nonce, with the success flag set, and whose approval resets were all read back as zero in a canonical view not older
than the inclusion. After it that policy is the only usable one of the wallet. Every other policy that is usable
afterwards was usable before.
\<close>

theorem activation_requires_inclusion:
  assumes ok: "change_env_ok E" "backend_ok E K" and wf: "store_keyed (ce_auth E) d" and at: "at_key E d h"
    and r: "reconcileBudgetHold E K describe now d h = (d', r)"
    and p: "pol (ce_auth E) d' c ow i = Some p" "Usable (Some p)" and new: "pol (ce_auth E) d c ow i \<noteq> Some p"
  shows "c = h_chain h \<and> ow = h_owner h \<and> activation E K now d h p \<and>
    (\<forall>j q. pol (ce_auth E) d' c ow j = Some q \<and> Usable (Some q) \<and> sp_runner q = Some (h_wallet h) \<longrightarrow> j = i)"
  using r
proof (cases rule: reconcile_cases)
  case 1
  then show ?thesis using p(1) new by simp
next
  case (ext ob records)
  show ?thesis using external_usable [OF ok wf at_key_text [OF ok(1) at] ext(2) p] new by simp
next
  case (save x)
  show ?thesis using save_pol [OF ok(1) at_key_text [OF ok(1) at] save] p(1) new by simp
next
  case (settle ob records w)
  note w = winner_of_Some [OF settle(3)]
  note S = settle_usable [OF ok(1) wf settle(2) w(1) refl settle(5)]
  from S [OF p] new obtain q where q: "ob_success ob" "\<not> is_cancel w" "c = h_chain h" "ow = h_owner h"
    "bc_policy w = Some q" "i = sp_id q" "p = activated_policy E now (user_op_hash w) q" by blast
  have "resets_zero K (ob_block ob) w" using settle(4) q(1,2) proveBudgetResets_zero by (fastforce simp: resets_zero_def)
  moreover have "j = i" if "pol (ce_auth E) d' c ow j = Some x" "Usable (Some x)" "sp_runner x = Some (h_wallet h)" for j x
    using S [OF that(1,2)] that(3) q by auto
  ultimately show ?thesis using q w hold_attempts_loaded [OF settle(2) w(1)] settle(1) unfolding activation_def by metis
qed

theorem activation_requires_inclusion_witness:
  "reconcileBudgetHold owner_env (chain_at (owner_nonce0 + 1)) (\<lambda>_. []) 9 marked_store held = (active_store, Inr ()) \<and>
   pol (ce_auth owner_env) marked_store 11155111 1 ''p'' \<noteq> Some active_policy \<and>
   pol (ce_auth owner_env) active_store 11155111 1 ''p'' = Some active_policy \<and> Usable (Some active_policy) \<and>
   activation owner_env (chain_at (owner_nonce0 + 1)) 9 marked_store held active_policy"
proof -
  have new: "pol (ce_auth owner_env) marked_store 11155111 1 ''p'' \<noteq> Some active_policy" using pol_marked by simp
  from activation_requires_inclusion [OF owner_env_ok chain_ok marked_keyed marked_at reconcile_owner pol_active new]
  show ?thesis using reconcile_owner pol_active new by blast
qed

text \<open>
  A nonce that moved without an event of the wallet, as after \<open>incrementNonce\<close>, never settles the hold: reconciling changes
  nothing, whatever the attempts are.
\<close>

lemma scan_logs_none: "\<forall>lg\<in>set lgs. \<not> holds_nonce old lg \<Longrightarrow> scan_logs old lgs ob = Inr ob"
  by (induction lgs) simp_all

lemma nonce_without_event_keeps_hold:
  assumes v: "bk_view K (h_chain h) None = Inr v" and l: "user_op_logs K v (h_from_block h) (bb_number (bk_block K v)) (h_wallet h) = Inr lgs"
    and n: "parse_bigint (h_nonce h) = Some old" and none: "\<forall>lg\<in>set lgs. \<not> holds_nonce old lg"
  shows "fst (reconcileBudgetHold E K describe now d h) = d"
proof (cases "Observe K h")
  case (Inl e)
  then show ?thesis by (simp add: reconcileBudgetHold_def)
next
  case (Inr ob)
  have "ob_hash ob = zero_hash"
    using Inr by (auto simp: Observe_def v l n scan_logs_none [OF none] Let_def split: if_splits option.splits sum.splits)
  then show ?thesis by (simp add: reconcileBudgetHold_def Inr split: sum.splits option.splits)
qed

section \<open>Submitting\<close>

text \<open>The operation is the packed batch of the reviewed calls, and its hash is the recorded one.\<close>

definition reviewed :: "'d change_env \<Rightarrow> budget_change \<Rightarrow> bool" where
  "reviewed E p \<longleftrightarrow> (\<exists>op calls packed. bc_operation p = Some op \<and> change_calls (ce_aa E) p = Inr calls \<and>
     PackExecuteBatchMAv2 (aa_codec (ce_aa E)) calls = Inr packed \<and> uo_call_data op = packed \<and> uo_sender op = bc_wallet p \<and>
     GetUserOpHash (aa_keccak (ce_aa E)) op EntryPointV07Address (Some (bc_chain p)) = Inr (user_op_hash p))"

lemma valid_reviewed:
  assumes "validateStoredBudgetChange (ce_aa E) p = Inr ()"
  shows "reviewed E p"
proof -
  let ?v = "\<lambda>calls. validateBudgetOwnerOperation (ce_aa E) (bc_operation p) (bc_wallet p) (bc_chain p) calls"
  obtain calls where c1: "change_calls (ce_aa E) p = Inr calls"
    and rest: "(case ?v calls of Inl _ \<Rightarrow> Inl (ReadUnavailable ''budget review integrity check failed'')
      | Inr (op, hash) \<Rightarrow> if hash \<noteq> user_op_hash p \<or> sdecimal (MaxOwnerGasCost op) \<noteq> max_fee_wei p
          then Inl (ReadUnavailable ''budget review integrity check failed'')
          else if \<not> is_cancel p \<and> \<not> has_discovery p then Inl (ReadUnavailable ''missing approval discovery'') else Inr ()) = Inr ()"
    using assms unfolding validateStoredBudgetChange_def Let_def by (auto split: if_split_asm)
  obtain op where c2: "?v calls = Inr (op, user_op_hash p)"
    using rest by (cases "?v calls") (auto split: if_split_asm)
  from c2 show ?thesis unfolding validateBudgetOwnerOperation_def reviewed_def
    by (auto simp: c1 liftCall_def split: option.splits if_splits sum.splits)
qed

lemma marked_calls [simp]: "change_calls A (marked_change p b t) = change_calls A p"
  by (auto simp: change_calls_def marked_change_def Let_def split: option.splits)

lemma marked_fee [simp]: "checkBudgetFee c (marked_change p b t) = checkBudgetFee c p"
  by (simp only: checkBudgetFee_def marked_change_sel)

lemma reviewed_marked: "reviewed E p \<Longrightarrow> reviewed E (marked_change p b t)"
  by (simp add: reviewed_def)

text \<open>Every session operation recorded in flight has a consumed nonce, in a view not older than its receipt.\<close>

definition flights_consumed :: "'d change_env \<Rightarrow> ('d, 'v) budget_backend \<Rightarrow> 'd \<Rightarrow> int \<Rightarrow> address \<Rightarrow> address \<Rightarrow> bool" where
  "flights_consumed E K d c ow w \<longleftrightarrow> (\<exists>v. bk_view K c None = Inr v \<and>
     (\<forall>k raw. prefix (budgetFlightPrefix c ow w) k \<and> rows_of (ce_badger E) d k = Some raw \<longrightarrow>
       (\<exists>f. flight_from_json E raw = Some f \<and> fl_block f \<le> bb_number (bk_block K v) \<and>
         (fl_nonce f = [] \<or> (\<exists>n out. parse_bigint (fl_nonce f) = Some n \<and> session_nonce K v w (n div 2 ^ 64) = Some out \<and>
           n < int (be_nat out))))))"

lemma flight_settled_spec:
  assumes "flight_settled K v w f = Inr ()"
  shows "fl_block f \<le> bb_number (bk_block K v)" "fl_nonce f = [] \<or> (\<exists>n out. parse_bigint (fl_nonce f) = Some n \<and>
    session_nonce K v w (n div 2 ^ 64) = Some out \<and> n < int (be_nat out))"
  using assms by (auto simp: flight_settled_def not_less not_le split: if_splits option.splits)

lemma check_flights_spec:
  "check_flights E K v w rows = Inr () \<Longrightarrow> (k, raw) \<in> set rows \<Longrightarrow> \<exists>f. flight_from_json E raw = Some f \<and> flight_settled K v w f = Inr ()"
  by (induction rows) (auto split: option.splits)

lemma flights_checked:
  assumes ok: "change_env_ok E" and v: "bk_view K (bc_chain p) None = Inr v" and c: "checkBudgetSessionFlights E K d p v = Inr ()"
  shows "flights_consumed E K d (bc_chain p) (bc_owner p) (bc_wallet p)"
proof -
  obtain rows where rows: "GetByPrefix (ce_badger E) d (budgetFlightPrefix (bc_chain p) (bc_owner p) (bc_wallet p)) = Inr rows"
    "check_flights E K v (bc_wallet p) rows = Inr ()"
    using c by (auto simp: checkBudgetSessionFlights_def split: sum.splits)
  note set = storage.byPrefix_set [OF env_storage [OF change_env_auth [OF ok]] rows(1)]
  show ?thesis unfolding flights_consumed_def
  proof (intro exI [of _ v] conjI v allI impI, elim conjE)
    fix k raw assume "prefix (budgetFlightPrefix (bc_chain p) (bc_owner p) (bc_wallet p)) k" "rows_of (ce_badger E) d k = Some raw"
    then have "(k, raw) \<in> set rows" unfolding set by simp
    then obtain f where f: "flight_from_json E raw = Some f" "flight_settled K v (bc_wallet p) f = Inr ()"
      using check_flights_spec [OF rows(2)] by blast
    show "\<exists>f. flight_from_json E raw = Some f \<and> fl_block f \<le> bb_number (bk_block K v) \<and>
        (fl_nonce f = [] \<or> (\<exists>n out. parse_bigint (fl_nonce f) = Some n \<and>
          session_nonce K v (bc_wallet p) (n div 2 ^ 64) = Some out \<and> n < int (be_nat out)))"
      by (intro exI [of _ f] conjI f(1) flight_settled_spec [OF f(2)])
  qed
qed

text \<open>
C37: A submission relays an operation only after its marker is stored. When the marker is written the owner's signature
over the hash of the stored operation was verified, the review is intact (the operation's call data is the packed batch
of the reviewed calls, and its hash and nonce are the recorded ones), the fee is under the ceiling, the review has not
expired, every session operation the journal knows in flight on the wallet has a consumed nonce, and the wallet's hold
on that nonce is in the store, unreleased, with the change as an attempt.
\<close>

theorem marker_before_relay:
  assumes ok: "change_env_ok E" "backend_ok E K" and wf: "holds_wf E d"
    and m: "submit_mark E K describe now1 now2 now3 d user wallet chain pid signature = (d', Inr (Marked p h framed))"
  shows "SubmitBudgetPolicyPreparation E K describe now1 now2 now3 d user wallet chain pid signature = submit_relay E K d' p h framed \<and>
    hold_marked E d' (chain, user, wallet) p h \<and> bc_id p = pid \<and> reviewed E p \<and>
    FrameOwnerSignature (ce_sig E) (user_op_hash p) signature user = Inr framed \<and> signing_enabled E \<and>
    checkBudgetFee (max_fee_config E) p = Inr () \<and> now2 < expires_at p \<and> flights_consumed E K d chain user wallet"
proof -
  have mk: "hold_marked E d' (chain, user, wallet) p h" using submit_mark_move [OF ok wf m] by blast
  have sub: "SubmitBudgetPolicyPreparation E K describe now1 now2 now3 d user wallet chain pid signature = submit_relay E K d' p h framed"
    by (simp add: SubmitBudgetPolicyPreparation_def m)
  show ?thesis using m
  proof (cases rule: submit_mark_cases)
    case (prepared q f)
    note l = load_spec [OF prepared(1)]
    show ?thesis using ok prepared(5)
    proof (cases rule: submit_prepared_cases)
      case (checked v d1)
      show ?thesis using ok(1) checked(7)
      proof (cases rule: write_marker_cases)
        case (marked hs found x)
        then have p: "p = marked_change q (bk_block K v) now3" "f = framed" by simp_all
        have "signing_enabled E" using prepared(3) by (auto simp: requireBudgetSigning_def split: if_splits)
        moreover have "checkBudgetFee (max_fee_config E) p = Inr ()" "now2 < expires_at p"
          using checked(2) marked(6) by (simp_all add: p)
        moreover have "flights_consumed E K d chain user wallet"
          using flights_checked [OF ok(1) checked(3,4)] l by simp
        moreover have "reviewed E p" unfolding p by (rule reviewed_marked [OF valid_reviewed [OF l(6)]])
        moreover have "FrameOwnerSignature (ce_sig E) (user_op_hash p) signature user = Inr framed" using prepared(4) p by simp
        moreover have "bc_id p = pid" using l(1) p(1) by simp
        ultimately show ?thesis using mk sub by blast
      qed simp
    qed simp
  qed simp_all
qed

theorem marker_before_relay_witness:
  "\<exists>framed. submit_mark owner_env (chain_at owner_nonce0) (\<lambda>_. []) 3 4 5 review_store 1 2 11155111 ''a'' owner_sig =
      (marked_store, Inr (Marked marked_review held framed)) \<and>
    hold_marked owner_env marked_store (11155111, 1, 2) marked_review held \<and> reviewed owner_env marked_review"
proof -
  obtain framed where m: "submit_mark owner_env (chain_at owner_nonce0) (\<lambda>_. []) 3 4 5 review_store 1 2 11155111 ''a'' owner_sig =
      (marked_store, Inr (Marked marked_review held framed))" by (rule mark_owner)
  from marker_before_relay [OF owner_env_ok chain_ok store_holds_wf m] m show ?thesis by blast
qed

lemma relay_error_started:
  assumes "submit_relay E K d p h framed = (d', Inl x)"
  shows "fst x = Some True"
proof (cases "saveBudgetTransition E d (relayed_change K p framed) (Some h) []")
  case (Inl a)
  then have "submit_relay E K d p h framed = (d, Inl (Some True, a))" unfolding submit_relay_def Let_def by simp
  then show ?thesis using assms by simp
next
  case (Inr b)
  then have "submit_relay E K d p h framed = (b, Inr (relayed_change K p framed))" unfolding submit_relay_def Let_def by simp
  then show ?thesis using assms by simp
qed
text \<open>
C38: When a submission returns an error that does not say that sending may have started, this call sent no operation
and added no attempt to any hold: a client that prepares again cannot create a second operation beside one of this
call. An error after the marker was attempted always says that sending may have started.
\<close>

theorem submit_error_claims:
  assumes ok: "change_env_ok E" "backend_ok E K" and wf: "holds_wf E d"
    and s: "SubmitBudgetPolicyPreparation E K describe now1 now2 now3 d user wallet chain pid signature = (d', Inl (started, e))"
    and f: "started \<noteq> Some True"
  shows "submit_mark E K describe now1 now2 now3 d user wallet chain pid signature = (d', Inl (started, e)) \<and> attempts_same E d d'"
proof -
  obtain d1 r where m: "submit_mark E K describe now1 now2 now3 d user wallet chain pid signature = (d1, r)" by force
  have "r = Inl (started, e) \<and> d1 = d'"
  proof (cases r)
    case (Inl x)
    then show ?thesis using s m by (simp add: SubmitBudgetPolicyPreparation_def)
  next
    case (Inr x)
    show ?thesis
    proof (cases x)
      case (Loaded p)
      then show ?thesis using s m Inr by (simp add: SubmitBudgetPolicyPreparation_def)
    next
      case (Marked p h framed)
      then have "submit_relay E K d1 p h framed = (d', Inl (started, e))" using s m Inr by (simp add: SubmitBudgetPolicyPreparation_def)
      from relay_error_started [OF this] show ?thesis using f by simp
    qed
  qed
  then have r: "r = Inl (started, e)" "d1 = d'" by simp_all
  have "attempts_same E d d1" using m
  proof (cases rule: submit_mark_cases)
    case refused
    then show ?thesis by simp
  next
    case settling
    then show ?thesis using reconcile_wallet_attempts [OF ok wf] by blast
  next
    case (prepared p framed)
    show ?thesis using ok prepared(5)
    proof (cases rule: submit_prepared_cases)
      case refused
      then show ?thesis by (simp add: hold_same_attempts)
    next
      case (checked v d2)
      show ?thesis using ok(1) checked(7)
      proof (cases rule: write_marker_cases)
        case refused
        show ?thesis by (rule hold_same_attempts [OF hold_same_trans [OF checked(1) refused(1)]])
      next
        case (marked hs found h)
        then show ?thesis using r(1) by simp
      qed
    qed
  qed
  then show ?thesis using m r by simp
qed

theorem submit_error_claims_witness:
  "SubmitBudgetPolicyPreparation owner_env (chain_at owner_nonce0) (\<lambda>_. []) 3 4 5 [] 1 2 11155111 ''a'' owner_sig = ([], Inl (None, ChangeNotFound)) \<and>
   attempts_same owner_env [] []"
proof -
  have "loadBudgetChange owner_env [] 1 2 11155111 ''a'' = Inl ChangeNotFound"
    by (simp add: loadBudgetChange_def GetKey_def View_def mem_badger_def)
  then have s: "SubmitBudgetPolicyPreparation owner_env (chain_at owner_nonce0) (\<lambda>_. []) 3 4 5 [] 1 2 11155111 ''a'' owner_sig = ([], Inl (None, ChangeNotFound))"
    by (simp add: SubmitBudgetPolicyPreparation_def submit_mark_def)
  have "holds_wf owner_env []" by (simp add: holds_wf_def mem_rows)
  from submit_error_claims [OF owner_env_ok chain_ok this s] s show ?thesis by simp
qed

section \<open>Session operations that settled\<close>

text \<open>An included event of one of the lease's own operations, with its nonce.\<close>

definition own_inclusion :: "aa_env \<Rightarrow> op_receipt \<Rightarrow> address \<Rightarrow> (bytes \<times> session_flight) list \<Rightarrow> event_log \<Rightarrow> int \<Rightarrow> bool" where
  "own_inclusion A rc wallet flights lg m \<longleftrightarrow> budgetSessionInclusionLog A rc lg wallet \<and> m = int (be_nat (take 32 (lg_data lg))) \<and>
     (\<exists>f. flight_by_hash flights (lg_topics lg ! 1) = Some f \<and> fl_nonce f = sdecimal m)"

lemma consumed_nonces_max:
  "(\<exists>x. consumed_nonces A rc wallet flights lgs m key = Some x \<and> n \<le> x) \<longleftrightarrow>
   (\<exists>x. m key = Some x \<and> n \<le> x) \<or> (\<exists>lg\<in>set lgs. \<exists>x. own_inclusion A rc wallet flights lg x \<and> x div 2 ^ 64 = key \<and> n \<le> x)"
proof (induction lgs arbitrary: m)
  case (Cons lg lgs)
  show ?case unfolding consumed_nonces.simps Cons.IH
    by (auto simp: own_inclusion_def Let_def split: option.splits if_splits)
qed simp

text \<open>
When a session receipt arrives, the flights deleted are exactly those whose nonce an included event of one of the
lease's own operations shows consumed: an event of the wallet's EntryPoint in the receipt's block, with the nonce the
flight recorded, on the same nonce key and not below. A higher nonce stays in the journal even though a receipt came.
\<close>

lemma settled_deletes_exactly_consumed:
  "k \<in> set (consumedBudgetFlightKeys A rc wallet flights) \<longleftrightarrow>
   (\<exists>f n. (k, f) \<in> set flights \<and> parse_bigint (fl_nonce f) = Some n \<and>
     (\<exists>lg\<in>set (rc_logs rc). \<exists>m. own_inclusion A rc wallet flights lg m \<and> m div 2 ^ 64 = n div 2 ^ 64 \<and> n \<le> m))"
proof -
  note C = consumed_nonces_max [where m = Map.empty and lgs = "rc_logs rc", simplified]
  have "k \<in> set (consumedBudgetFlightKeys A rc wallet flights) \<longleftrightarrow> (\<exists>f n. (k, f) \<in> set flights \<and> parse_bigint (fl_nonce f) = Some n \<and>
      (\<exists>x. consumed_nonces A rc wallet flights (rc_logs rc) Map.empty (n div 2 ^ 64) = Some x \<and> n \<le> x))"
    unfolding consumedBudgetFlightKeys_def Let_def by (force split: option.splits)
  then show ?thesis by (simp add: C)
qed

end
