(* ===== verification/Operators.thy ===== *)
theory Operators
  imports Retry "HOL-Library.AList"
begin

text \<open>
  The operator side of the engine, \<open>core/taskengine/engine.go\<close>: the operators that are connected, what each is
  known to monitor, the assignment of workflows to operators and the notifications waiting to be sent. A stream and
  its ticker context are named by a connection number. A Go map is an association list, in the order in which
  \<open>range\<close> happens to visit it. The type tag of a trigger is taken to agree with the configuration it carries.
\<close>

section \<open>State\<close>

record capabilities =
  event_monitoring :: bool
  block_monitoring :: bool
  time_monitoring :: bool

record operator_state =
  op_tasks :: "string list"
  op_clock :: int
  op_capabilities :: "capabilities option"
  op_chains :: "int list"
  op_explicit :: bool
  op_ticker :: nat
  op_last_connect :: int

datatype message_op = OpUnset | MonitorTaskTrigger | DisableTask | DeleteTask | CompletedTask | ImmediateTrigger

record operators =
  trackSyncedTasks :: "(string \<times> operator_state) list"
  operatorStreams :: "(string \<times> nat) list"
  taskAssignments :: "(string \<times> string) list"
  assignmentRoundRobin :: nat
  pendingNotifications :: "(string \<times> (string \<times> message_op) list) list"
  cancelled :: "nat list"

definition no_operators :: operators where
  "no_operators = \<lparr>trackSyncedTasks = [], operatorStreams = [], taskAssignments = [], assignmentRoundRobin = 0,
     pendingNotifications = [], cancelled = []\<rparr>"

text \<open>\<open>IsApprovedOperator\<close>; a nil configuration approves nobody, and the addresses are compared case-insensitively.\<close>

definition defaultApprovedOperators :: "string list" where
  "defaultApprovedOperators = [''0x997e5d40a32c44a3d93e59fc55c4fd20b7d2d49d'',
     ''0xc6b87cc9e85b07365b6abefff061f237f7cf7dc3'', ''0xa026265a0f01a6e1a19b04655519429df0a57c4e'']"

definition IsApprovedOperator :: "string list option \<Rightarrow> string \<Rightarrow> bool" where
  "IsApprovedOperator approved address = (case approved of None \<Rightarrow> False
     | Some as \<Rightarrow> to_lower address \<in> to_lower ` set (if as = [] then defaultApprovedOperators else as))"

definition CanStreamCheck :: "string list option \<Rightarrow> string \<Rightarrow> bool" where
  "CanStreamCheck approved address = IsApprovedOperator approved address"

section \<open>What an operator covers\<close>

definition chainNeedsOperatorMonitoring :: "trigger \<Rightarrow> bool" where
  "chainNeedsOperatorMonitoring tr = (case trigger_kind tr of Block _ \<Rightarrow> True | Event _ \<Rightarrow> True | _ \<Rightarrow> False)"

text \<open>The chain an operator has to watch for a workflow; the getters of a nil trigger return zero.\<close>

definition monitor_chain :: "task \<Rightarrow> int" where
  "monitor_chain t = (case task_trigger t of None \<Rightarrow> 0 | Some tr \<Rightarrow> triggerMonitoringChainID tr 0)"

definition covers_chain :: "int \<Rightarrow> operator_state \<Rightarrow> bool" where
  "covers_chain chainID st \<longleftrightarrow> (if op_chains st = [] then \<not> op_explicit st else chainID \<in> set (op_chains st))"

definition operatorsCoveringChain :: "operators \<Rightarrow> int \<Rightarrow> string list" where
  "operatorsCoveringChain S chainID =
     (if chainID = 0 then map fst (trackSyncedTasks S)
      else map fst (filter (\<lambda>(_, st). covers_chain chainID st) (trackSyncedTasks S)))"

text \<open>\<open>collectOrphans\<close> marks the chains with an operator; chain 0 stands for an operator of the legacy kind.\<close>

definition marked_chains :: "operators \<Rightarrow> int list" where
  "marked_chains S = concat (map (\<lambda>(_, st). if op_chains st = [] then (if op_explicit st then [] else [0]) else op_chains st)
     (trackSyncedTasks S))"

definition is_orphan :: "int list \<Rightarrow> task \<Rightarrow> bool" where
  "is_orphan marked t = (case task_trigger t of None \<Rightarrow> False
     | Some tr \<Rightarrow> chainNeedsOperatorMonitoring tr \<and> 0 \<notin> set marked \<and> triggerMonitoringChainID tr 0 \<notin> set marked)"

definition collectOrphans :: "operators \<Rightarrow> (string \<times> task) list \<Rightarrow> (string \<times> int) list" where
  "collectOrphans S tasks =
     map (\<lambda>(i, t). (i, monitor_chain t)) (filter (\<lambda>(_, t). is_orphan (marked_chains S) t) tasks)"

text \<open>The update of one operator's entry, when it has one.\<close>

definition on_operator :: "string \<Rightarrow> (operator_state \<Rightarrow> operator_state) \<Rightarrow> operators \<Rightarrow> operators" where
  "on_operator address f S = (case map_of (trackSyncedTasks S) address of None \<Rightarrow> S
     | Some st \<Rightarrow> S\<lparr>trackSyncedTasks := AList.update address (f st) (trackSyncedTasks S)\<rparr>)"

definition UpdateOperatorSupportedChains :: "string \<Rightarrow> int list \<Rightarrow> operators \<Rightarrow> operators" where
  "UpdateOperatorSupportedChains address chainIDs S =
     on_operator address (\<lambda>st. st\<lparr>op_chains := chainIDs, op_explicit := True\<rparr>) S"

definition track_task :: "string \<Rightarrow> operator_state \<Rightarrow> operator_state" where
  "track_task i st = st\<lparr>op_tasks := List.insert i (op_tasks st)\<rparr>"

definition untrack_task :: "string \<Rightarrow> operator_state \<Rightarrow> operator_state" where
  "untrack_task i st = st\<lparr>op_tasks := removeAll i (op_tasks st)\<rparr>"

definition supportsTaskChain :: "operators \<Rightarrow> string \<Rightarrow> task \<Rightarrow> bool" where
  "supportsTaskChain S address t = (case map_of (trackSyncedTasks S) address of None \<Rightarrow> True
     | Some st \<Rightarrow> op_chains st = [] \<or> monitor_chain t = 0 \<or> monitor_chain t \<in> set (op_chains st))"

definition supportsTaskTrigger :: "operators \<Rightarrow> string \<Rightarrow> task \<Rightarrow> bool" where
  "supportsTaskTrigger S address t =
     (let kind = (case task_trigger t of None \<Rightarrow> NoTrigger | Some tr \<Rightarrow> trigger_kind tr)
      in if kind = Manual then False
         else case map_of (trackSyncedTasks S) address of None \<Rightarrow> True
          | Some st \<Rightarrow> (case op_capabilities st of None \<Rightarrow> True
             | Some caps \<Rightarrow> (case kind of Event _ \<Rightarrow> event_monitoring caps | Block _ \<Rightarrow> block_monitoring caps
                 | Cron _ \<Rightarrow> time_monitoring caps | FixedTime _ \<Rightarrow> time_monitoring caps | _ \<Rightarrow> True)))"

section \<open>Assignment\<close>

definition getEligibleOperators :: "string list option \<Rightarrow> operators \<Rightarrow> task \<Rightarrow> string list" where
  "getEligibleOperators approved S t =
     filter (\<lambda>a. CanStreamCheck approved a \<and> supportsTaskTrigger S a t) (map fst (operatorStreams S))"

text \<open>The empty string is returned when no operator is eligible.\<close>

definition assignTaskToOperator :: "string list option \<Rightarrow> task \<Rightarrow> operators \<Rightarrow> operators \<times> string" where
  "assignTaskToOperator approved t S =
     (let eligible = getEligibleOperators approved S t
      in if eligible = [] then (S, [])
         else case map_of (taskAssignments S) (task_id t) of
           Some op \<Rightarrow> if op \<in> set eligible then (S, op)
             else (let sel = eligible ! (assignmentRoundRobin S mod length eligible)
               in (S\<lparr>taskAssignments := AList.update (task_id t) sel (AList.delete (task_id t) (taskAssignments S)),
                     assignmentRoundRobin := Suc (assignmentRoundRobin S)\<rparr>, sel))
         | None \<Rightarrow> (let sel = eligible ! (assignmentRoundRobin S mod length eligible)
               in (S\<lparr>taskAssignments := AList.update (task_id t) sel (taskAssignments S),
                     assignmentRoundRobin := Suc (assignmentRoundRobin S)\<rparr>, sel)))"

fun assign_all :: "string list option \<Rightarrow> task list \<Rightarrow> operators \<Rightarrow> operators" where
  "assign_all approved [] S = S"
| "assign_all approved (t # ts) S = assign_all approved ts (fst (assignTaskToOperator approved t S))"

text \<open>
  The assignments of operators that have no stream any more are dropped; when some operator is connected, the
  workflows among them that are in memory are assigned again.
\<close>

definition reassignOrphanedTasks :: "string list option \<Rightarrow> (string \<times> task) list \<Rightarrow> operators \<Rightarrow> operators" where
  "reassignOrphanedTasks approved tasks S =
     (let active = map fst (operatorStreams S);
          orphaned = map fst (filter (\<lambda>(_, op). op \<notin> set active) (taskAssignments S));
          S1 = S\<lparr>taskAssignments := filter (\<lambda>(_, op). op \<in> set active) (taskAssignments S)\<rparr>
      in if orphaned = [] \<or> active = [] then S1
         else assign_all approved (List.map_filter (map_of tasks) orphaned) S1)"

section \<open>Connections\<close>

record sync_req =
  sync_address :: string
  sync_clock :: int
  sync_capabilities :: "capabilities option"
  sync_chains :: "int list"

datatype connect_error = AddressTooShort | ReconnectTooFast int

definition operatorReconnectCooldown :: int where
  "operatorReconnectCooldown = 5000000000"

definition fresh_state :: "int \<Rightarrow> nat \<Rightarrow> sync_req \<Rightarrow> operator_state" where
  "fresh_state now conn r = \<lparr>op_tasks = [], op_clock = sync_clock r, op_capabilities = sync_capabilities r,
     op_chains = sync_chains r, op_explicit = (sync_chains r \<noteq> []), op_ticker = conn, op_last_connect = now\<rparr>"

definition reconnect_state :: "int \<Rightarrow> nat \<Rightarrow> sync_req \<Rightarrow> operator_state \<Rightarrow> operator_state" where
  "reconnect_state now conn r st = (if op_clock st < sync_clock r
     then st\<lparr>op_tasks := [], op_clock := sync_clock r, op_capabilities := sync_capabilities r,
       op_chains := sync_chains r, op_explicit := (sync_chains r \<noteq> []), op_last_connect := now, op_ticker := conn\<rparr>
     else st\<lparr>op_tasks := [], op_capabilities := sync_capabilities r, op_chains := sync_chains r,
       op_explicit := (sync_chains r \<noteq> []), op_last_connect := now, op_ticker := conn\<rparr>)"

text \<open>
  The opening of \<open>StreamCheckToOperator\<close> by connection \<open>conn\<close> at time \<open>now\<close>, up to its loop. The last six
  characters of the address are cut out first, which panics on a shorter one.
\<close>

definition open_stream :: "int \<Rightarrow> nat \<Rightarrow> sync_req \<Rightarrow> operators \<Rightarrow> connect_error + operators" where
  "open_stream now conn r S =
     (let a = sync_address r; register = (\<lambda>S'. S'\<lparr>operatorStreams := AList.update a conn (operatorStreams S')\<rparr>)
      in if length a < 6 then Inl AddressTooShort
         else case map_of (trackSyncedTasks S) a of
           None \<Rightarrow> Inr ((register S)\<lparr>trackSyncedTasks := AList.update a (fresh_state now conn r) (trackSyncedTasks S)\<rparr>)
         | Some st \<Rightarrow>
             if now - op_last_connect st < operatorReconnectCooldown then Inl (ReconnectTooFast (now - op_last_connect st))
             else Inr ((register S)\<lparr>trackSyncedTasks := AList.update a (reconnect_state now conn r st) (trackSyncedTasks S),
               cancelled := op_ticker st # cancelled S\<rparr>))"

text \<open>The deferred function of the connection \<open>conn\<close>: the entry of the operator stays, only its tasks are forgotten.\<close>

definition close_stream :: "string list option \<Rightarrow> (string \<times> task) list \<Rightarrow> nat \<Rightarrow> string \<Rightarrow> operators \<Rightarrow> operators" where
  "close_stream approved tasks conn a S =
     (let S1 = (case map_of (trackSyncedTasks S) a of None \<Rightarrow> S
          | Some st \<Rightarrow> if op_ticker st = conn
              then S\<lparr>trackSyncedTasks := AList.update a (st\<lparr>op_tasks := [], op_clock := 0\<rparr>) (trackSyncedTasks S),
                     cancelled := conn # cancelled S\<rparr>
              else S)
      in if map_of (operatorStreams S1) a = Some conn
         then reassignOrphanedTasks approved tasks (S1\<lparr>operatorStreams := AList.delete a (operatorStreams S1)\<rparr>)
         else S1)"

section \<open>Streaming\<close>

record monitor_message =
  mm_task :: string
  mm_remain :: int
  mm_expired :: int
  mm_trigger :: "trigger option"
  mm_start :: int
  mm_chain :: int

definition monitor_message :: "task \<Rightarrow> monitor_message" where
  "monitor_message t = \<lparr>mm_task = task_id t, mm_remain = max_execution t, mm_expired = expired_at t,
     mm_trigger = task_trigger t, mm_start = start_at t, mm_chain = monitor_chain t\<rparr>"

text \<open>A workflow nobody is assigned to is claimed by the operator whose turn it is.\<close>

definition assigned_for :: "string list option \<Rightarrow> string \<Rightarrow> task \<Rightarrow> operators \<Rightarrow> operators \<times> string" where
  "assigned_for approved a t S = (case map_of (taskAssignments S) (task_id t) of
       None \<Rightarrow> (S\<lparr>taskAssignments := AList.update (task_id t) a (taskAssignments S)\<rparr>, a)
     | Some op \<Rightarrow> if op = [] then (S\<lparr>taskAssignments := AList.update (task_id t) a (taskAssignments S)\<rparr>, a)
         else assignTaskToOperator approved t S)"

fun select_tasks :: "string list option \<Rightarrow> string \<Rightarrow> string list \<Rightarrow> task list \<Rightarrow> operators \<Rightarrow> operators \<times> task list" where
  "select_tasks approved a tracked [] S = (S, [])"
| "select_tasks approved a tracked (t # ts) S =
     (if task_id t \<in> set tracked then select_tasks approved a tracked ts S
      else let (S1, op) = assigned_for approved a t S; (S2, out) = select_tasks approved a tracked ts S1
        in (S2, if op = a \<and> supportsTaskTrigger S1 a t \<and> supportsTaskChain S1 a t then t # out else out))"

definition select_internal :: "string \<Rightarrow> string list \<Rightarrow> task list \<Rightarrow> operators \<Rightarrow> task list" where
  "select_internal a tracked itriggers S =
     filter (\<lambda>t. task_id t \<notin> set tracked \<and> supportsTaskTrigger S a t \<and> supportsTaskChain S a t) itriggers"

text \<open>The outcome of one \<open>Send\<close>: delivered, an error (of the connection or not), or two seconds without either.\<close>

datatype send_outcome = SendOk | SendError bool | SendTimeout

text \<open>A connection-level error ends the stream at once; the tasks delivered before it stay tracked.\<close>

fun send_tasks :: "(string \<Rightarrow> send_outcome) \<Rightarrow> string \<Rightarrow> task list \<Rightarrow> operators \<Rightarrow> operators \<times> monitor_message list \<times> bool" where
  "send_tasks outcome a [] S = (S, [], True)"
| "send_tasks outcome a (t # ts) S = (case outcome (task_id t) of
       SendOk \<Rightarrow> (let (S', ms, alive) = send_tasks outcome a ts (on_operator a (track_task (task_id t)) S)
         in (S', monitor_message t # ms, alive))
     | SendError conn_level \<Rightarrow> if conn_level then (S, [], False) else send_tasks outcome a ts S
     | SendTimeout \<Rightarrow> send_tasks outcome a ts S)"

text \<open>
  One pass of the loop for operator \<open>a\<close>, by its timer or its ticker: \<open>tasks\<close> is the engine's map of enabled
  workflows and \<open>itriggers\<close> the internal triggers derived from the registry of waits.
\<close>

definition stream_pass :: "string list option \<Rightarrow> (string \<Rightarrow> send_outcome) \<Rightarrow> (string \<times> task) list \<Rightarrow> task list \<Rightarrow> string \<Rightarrow>
    operators \<Rightarrow> operators \<times> monitor_message list \<times> bool" where
  "stream_pass approved outcome tasks itriggers a S =
     (if \<not> CanStreamCheck approved a then (S, [], True)
      else let S1 = reassignOrphanedTasks approved tasks S;
               tracked = (case map_of (trackSyncedTasks S1) a of None \<Rightarrow> [] | Some st \<Rightarrow> op_tasks st);
               (S2, chosen) = select_tasks approved a tracked (map snd tasks) S1
           in send_tasks outcome a (chosen @ select_internal a tracked itriggers S2) S2)"

definition send_to_operator :: "(string \<Rightarrow> send_outcome) \<Rightarrow> task \<Rightarrow> string \<Rightarrow> operators \<times> (string \<times> monitor_message) list \<Rightarrow>
    operators \<times> (string \<times> monitor_message) list" where
  "send_to_operator outcome t a acc =
     (if outcome a = SendOk then (on_operator a (track_task (task_id t)) (fst acc), snd acc @ [(a, monitor_message t)]) else acc)"

definition sendMonitorTaskTriggerToOperators :: "string list option \<Rightarrow> (string \<Rightarrow> send_outcome) \<Rightarrow> task \<Rightarrow> operators \<Rightarrow>
    operators \<times> (string \<times> monitor_message) list" where
  "sendMonitorTaskTriggerToOperators approved outcome t S =
     fold (send_to_operator outcome t) (getEligibleOperators approved S t) (S, [])"

section \<open>Notifications\<close>

definition notifyOperatorsTaskOperation :: "string \<Rightarrow> message_op \<Rightarrow> operators \<Rightarrow> operators" where
  "notifyOperatorsTaskOperation taskID op S =
     (if op = MonitorTaskTrigger then S
      else let targets = map fst (filter (\<lambda>(_, st). taskID \<in> set (op_tasks st)) (trackSyncedTasks S))
        in S\<lparr>pendingNotifications := fold (\<lambda>a m. AList.update a
             ((case map_of m a of None \<Rightarrow> [] | Some l \<Rightarrow> l) @ [(taskID, op)]) m) targets (pendingNotifications S)\<rparr>)"

definition deliver_notification :: "(string \<Rightarrow> string \<Rightarrow> send_outcome) \<Rightarrow> string \<Rightarrow> string \<times> message_op \<Rightarrow> operators \<Rightarrow> operators" where
  "deliver_notification outcome a n S =
     (if outcome a (fst n) = SendOk \<and> (snd n = DisableTask \<or> snd n = DeleteTask)
      then on_operator a (untrack_task (fst n)) S else S)"

text \<open>
  The pending notifications are cleared before any of them is sent; those of an operator without a stream, and those
  whose sending fails, are dropped.
\<close>

definition sendBatchedNotifications :: "(string \<Rightarrow> string \<Rightarrow> send_outcome) \<Rightarrow> operators \<Rightarrow> operators" where
  "sendBatchedNotifications outcome S =
     fold (\<lambda>(a, ns). if map_of (operatorStreams S) a = None then (\<lambda>S. S) else fold (deliver_notification outcome a) ns)
       (pendingNotifications S) (S\<lparr>pendingNotifications := []\<rparr>)"

end
