(* ===== verification/OperatorsInv.thy ===== *)
theory OperatorsInv
  imports Operators
begin

text \<open>What the assignment of workflows to operators and the stream to an operator guarantee.\<close>

section \<open>Coverage\<close>

text \<open>
C14: The two ways in which the engine judges coverage agree. The scan for orphans, which marks the chains that some
operator watches, reports a workflow exactly when its trigger needs an operator and the creation check finds nobody for
its chain, provided the chain is known and no operator lists chain 0.
\<close>

theorem orphan_iff_uncovered:
  assumes "task_trigger t = Some tr" "triggerMonitoringChainID tr 0 \<noteq> 0" "\<forall>(a, st) \<in> set (trackSyncedTasks S). 0 \<notin> set (op_chains st)"
  shows "is_orphan (marked_chains S) t \<longleftrightarrow>
    chainNeedsOperatorMonitoring tr \<and> operatorsCoveringChain S (triggerMonitoringChainID tr 0) = []"
proof -
  let ?c = "triggerMonitoringChainID tr 0"
  have "?c \<in> set (marked_chains S) \<or> 0 \<in> set (marked_chains S) \<longleftrightarrow> (\<exists>(a, st) \<in> set (trackSyncedTasks S). covers_chain ?c st)"
    using assms(2,3) by (fastforce simp: marked_chains_def covers_chain_def split: if_splits)
  then show ?thesis using assms(1,2)
    by (auto simp: is_orphan_def operatorsCoveringChain_def filter_empty_conv)
qed

definition block_task :: "string \<Rightarrow> int \<Rightarrow> task" where
  "block_task i chain = example_task\<lparr>task_id := i, task_trigger := Some \<lparr>trigger_name = ''t'',
     trigger_kind = Block (Some \<lparr>block_interval = 10, block_chain_id = chain\<rparr>)\<rparr>\<rparr>"

definition sample_operator :: operator_state where
  "sample_operator = \<lparr>op_tasks = [], op_clock = 1,
     op_capabilities = Some \<lparr>event_monitoring = True, block_monitoring = True, time_monitoring = False\<rparr>,
     op_chains = [1, 10], op_explicit = True, op_ticker = 7, op_last_connect = 0\<rparr>"

definition sample_operators :: operators where
  "sample_operators = no_operators\<lparr>trackSyncedTasks := [(''0xoperator'', sample_operator)], operatorStreams := [(''0xoperator'', 7)]\<rparr>"

theorem orphan_iff_uncovered_witness:
  "is_orphan (marked_chains sample_operators) (block_task ''a'' 5) \<and> \<not> is_orphan (marked_chains sample_operators) (block_task ''a'' 10)"
proof -
  let ?tr = "\<lambda>c. \<lparr>trigger_name = ''t'', trigger_kind = Block (Some \<lparr>block_interval = 10, block_chain_id = c\<rparr>)\<rparr>"
  have tr: "task_trigger (block_task ''a'' c) = Some (?tr c)" for c by (simp add: block_task_def)
  have ch: "triggerMonitoringChainID (?tr 5) 0 = 5" "triggerMonitoringChainID (?tr 10) 0 = 10" by code_simp+
  have z: "\<forall>(a, st) \<in> set (trackSyncedTasks sample_operators). 0 \<notin> set (op_chains st)" by code_simp
  have "chainNeedsOperatorMonitoring (?tr 5)" "operatorsCoveringChain sample_operators 5 = []"
    "operatorsCoveringChain sample_operators 10 \<noteq> []" by code_simp+
  then show ?thesis using orphan_iff_uncovered [OF tr _ z, of 5] orphan_iff_uncovered [OF tr _ z, of 10] ch by simp
qed

section \<open>Streams\<close>











lemma on_operator_assignments [simp]: "taskAssignments (on_operator a f S) = taskAssignments S"
  by (simp add: on_operator_def split: option.split)








end
