(* ===== verification/Wake.thy ===== *)
theory Wake
  imports Keys
begin

text \<open>
  Durable execution, \<open>core/taskengine/durable.go\<close> with the runner of the await node
  (\<open>vm_runner_await.go\<close>) and the names of internal triggers (\<open>internal_trigger.go\<close>): what a suspended execution
  waits for, the signal that wakes it, the checkpoint of its variables and the persisted registry of pending waits.
  The JSON codecs are parameters, the record \<open>wake_codec\<close>.
\<close>

section \<open>Suspension\<close>

datatype run_disposition = RunContinue | RunSuspend | RunFail | OtherDisposition int

definition disposition_String :: "run_disposition \<Rightarrow> string" where
  "disposition_String d = (case d of RunContinue \<Rightarrow> ''continue'' | RunSuspend \<Rightarrow> ''suspend'' | RunFail \<Rightarrow> ''fail''
     | OtherDisposition n \<Rightarrow> ''RunDisposition('' @ sdecimal n @ '')'')"

datatype wake_kind = WakeChainEvent | WakeExternalSignal | WakeTimer | OtherWake int

definition wake_String :: "wake_kind \<Rightarrow> string" where
  "wake_String k = (case k of WakeChainEvent \<Rightarrow> ''chain_event'' | WakeExternalSignal \<Rightarrow> ''external_signal''
     | WakeTimer \<Rightarrow> ''timer'' | OtherWake n \<Rightarrow> ''WakeKind('' @ sdecimal n @ '')'')"

record external_spec =
  channel :: string
  approvers :: "string list"
  prompt :: string

record wake =
  w_kind :: wake_kind
  w_task :: string
  w_chain_event :: "event_config option"
  w_external :: "external_spec option"
  w_timeout :: int

datatype wake_error = NilWake | ChainEventRequired | ChainEventWithExternal | ChannelRequired
  | ExternalWithChainEvent | TimerWithSource | UnknownWakeKind int | TimeoutRequired

definition wake_source_error :: "wake \<Rightarrow> wake_error option" where
  "wake_source_error w = (case w_kind w of
       WakeChainEvent \<Rightarrow> if w_chain_event w = None then Some ChainEventRequired
         else if w_external w \<noteq> None then Some ChainEventWithExternal else None
     | WakeExternalSignal \<Rightarrow>
         if (case w_external w of None \<Rightarrow> True | Some x \<Rightarrow> channel x = []) then Some ChannelRequired
         else if w_chain_event w \<noteq> None then Some ExternalWithChainEvent else None
     | WakeTimer \<Rightarrow> if w_chain_event w \<noteq> None \<or> w_external w \<noteq> None then Some TimerWithSource else None
     | OtherWake n \<Rightarrow> Some (UnknownWakeKind n))"

text \<open>\<open>WakeSubscription.Validate\<close>; the receiver may be nil.\<close>

definition ValidateWake :: "wake option \<Rightarrow> wake_error option" where
  "ValidateWake sub = (case sub of None \<Rightarrow> Some NilWake
     | Some w \<Rightarrow> (case wake_source_error w of Some e \<Rightarrow> Some e
         | None \<Rightarrow> if w_timeout w \<le> 0 then Some TimeoutRequired else None))"

record suspend_request =
  await_node :: string
  susp_wake :: "wake option"

text \<open>The first step that asks to suspend wins.\<close>

definition requestSuspend :: "string \<Rightarrow> wake option \<Rightarrow> suspend_request option \<Rightarrow> suspend_request option" where
  "requestSuspend nodeID w suspend =
     (case suspend of None \<Rightarrow> Some \<lparr>await_node = nodeID, susp_wake = w\<rparr> | Some s \<Rightarrow> Some s)"

definition isSuspendRequested :: "suspend_request option \<Rightarrow> bool" where
  "isSuspendRequested suspend \<longleftrightarrow> suspend \<noteq> None"

record signal =
  sig_execution :: string
  sig_kind :: wake_kind
  decision :: string
  approver :: string
  payload :: "jvalue option"

datatype signal_error = NilSignal | ExecutionIdRequired | DecisionRequired

definition ValidateSignal :: "signal option \<Rightarrow> signal_error option" where
  "ValidateSignal s = (case s of None \<Rightarrow> Some NilSignal
     | Some sg \<Rightarrow> if sig_execution sg = [] then Some ExecutionIdRequired
         else if sig_kind sg = WakeExternalSignal \<and> decision sg = [] then Some DecisionRequired else None)"

section \<open>The await node\<close>

record await_config =
  cfg_channel :: string
  cfg_approvers :: "string list"
  cfg_prompt :: string
  cfg_timeout_seconds :: "32 word"
  cfg_chain_event :: "event_config option"

text \<open>
  The fields of a step that the engine reads back; \<open>step_skipped\<close> is the error code of a write that was skipped
  because one it depends on had failed.
\<close>

record step =
  step_id :: string
  step_name :: string
  step_success :: bool
  step_error :: string
  step_skipped :: bool

datatype await_error = AwaitNoConfig | AwaitAmbiguous | AwaitInvalid wake_error

definition defaultAwaitTimeoutSeconds :: int where
  "defaultAwaitTimeoutSeconds = 86400"

definition has_external_fields :: "await_config \<Rightarrow> bool" where
  "has_external_fields cfg \<longleftrightarrow> cfg_channel cfg \<noteq> [] \<or> cfg_approvers cfg \<noteq> [] \<or> cfg_prompt cfg \<noteq> []"

text \<open>
  The wake that a configuration asks for; \<open>t0\<close> is the start of the step in nanoseconds. The timeout is a \<open>uint32\<close>
  number of seconds, so its product with a second stays within a 64-bit duration.
\<close>

definition await_wake :: "int \<Rightarrow> await_config \<Rightarrow> wake" where
  "await_wake t0 cfg =
     (let timeoutSec = (if uint (cfg_timeout_seconds cfg) \<le> 0 then defaultAwaitTimeoutSeconds
            else uint (cfg_timeout_seconds cfg));
          timeoutAt = unix_milli (t0 + timeoutSec * 1000000000)
      in case cfg_chain_event cfg of
           Some ev \<Rightarrow> \<lparr>w_kind = WakeChainEvent, w_task = [], w_chain_event = Some ev, w_external = None,
             w_timeout = timeoutAt\<rparr>
         | None \<Rightarrow> \<lparr>w_kind = WakeExternalSignal, w_task = [], w_chain_event = None,
             w_external = Some \<lparr>channel = cfg_channel cfg, approvers = cfg_approvers cfg, prompt = cfg_prompt cfg\<rparr>,
             w_timeout = timeoutAt\<rparr>)"

text \<open>
  \<open>runAwait\<close> leaves its step in the log whether it fails or not; \<open>err_text\<close> renders the error into the step.
\<close>

definition runAwait :: "(await_error \<Rightarrow> string) \<Rightarrow> int \<Rightarrow> string \<Rightarrow> string \<Rightarrow> await_config option \<Rightarrow> suspend_request option \<Rightarrow>
    suspend_request option \<times> step \<times> await_error option" where
  "runAwait err_text t0 nodeID nodeName config suspend =
     (let failed = (\<lambda>e. (suspend, \<lparr>step_id = nodeID, step_name = nodeName, step_success = False,
            step_error = err_text e, step_skipped = False\<rparr>, Some e))
      in case config of None \<Rightarrow> failed AwaitNoConfig
       | Some cfg \<Rightarrow>
          if cfg_chain_event cfg \<noteq> None \<and> has_external_fields cfg then failed AwaitAmbiguous
          else let w = await_wake t0 cfg
            in case ValidateWake (Some w) of Some e \<Rightarrow> failed (AwaitInvalid e)
               | None \<Rightarrow> (requestSuspend nodeID (Some w) suspend,
                   \<lparr>step_id = nodeID, step_name = nodeName, step_success = True, step_error = [], step_skipped = False\<rparr>, None))"

section \<open>The checkpoint of the variables\<close>

definition reservedSystemVarNames :: "string list" where
  "reservedSystemVarNames = [''apContext'', ''settings'', ''aa_sender'', ''aa_salt'', ''triggerConfig'']"

text \<open>
  \<open>sanitizeTriggerNameForJS\<close>: every run of characters outside \<open>[a-zA-Z0-9_]\<close> becomes one underscore, then the
  underscores at both ends are trimmed and a leading digit is prefixed.
\<close>

definition js_word :: "char \<Rightarrow> bool" where
  "js_word c \<longleftrightarrow> is_alpha c \<or> is_digit c \<or> c = CHR ''_''"

fun replace_runs :: "bool \<Rightarrow> string \<Rightarrow> string" where
  "replace_runs in_run [] = []"
| "replace_runs in_run (c # cs) = (if js_word c then c # replace_runs False cs
     else if in_run then replace_runs True cs else CHR ''_'' # replace_runs True cs)"

definition trim_underscores :: "string \<Rightarrow> string" where
  "trim_underscores s = rev (dropWhile (\<lambda>c. c = CHR ''_'') (rev (dropWhile (\<lambda>c. c = CHR ''_'') s)))"

definition sanitizeTriggerNameForJS :: "string \<Rightarrow> string" where
  "sanitizeTriggerNameForJS name =
     (if name = [] then ''unnamed_trigger''
      else let s = trim_underscores (replace_runs False name);
               s' = (if s \<noteq> [] \<and> is_digit (hd s) then ''trigger_'' @ s else s)
           in if s' = [] then ''unnamed_trigger'' else s')"

text \<open>\<open>getNodeNameAsVarLocked\<close>: the name of a node that is in \<open>TaskNodes\<close>, or its id when it has no name.\<close>

definition getNodeNameAsVar :: "(string \<times> string) list \<Rightarrow> string \<Rightarrow> string" where
  "getNodeNameAsVar names nodeID = (case map_of names nodeID of
       None \<Rightarrow> sanitizeTriggerNameForJS nodeID
     | Some name \<Rightarrow> sanitizeTriggerNameForJS (if name = [] then nodeID else name))"

text \<open>A Go map assignment.\<close>

definition set_var :: "string \<Rightarrow> jvalue \<Rightarrow> jobject \<Rightarrow> jobject" where
  "set_var = put"

definition snapshot_var :: "jobject \<Rightarrow> string \<Rightarrow> jobject \<Rightarrow> jobject" where
  "snapshot_var vars name out =
     (if name = [] \<or> name \<in> set reservedSystemVarNames then out
      else case map_of vars name of None \<Rightarrow> out | Some v \<Rightarrow> set_var name v out)"

text \<open>
  \<open>encoding/json\<close> on the variables of a run: \<open>Marshal\<close> of a \<open>map[string]any\<close>, which fails on a value JSON cannot carry,
  and a decoder with \<open>UseNumber\<close>, which fails on bytes that are not a JSON object. \<open>asDecoded\<close> is the value that a Go value
  comes back as (a struct as a map, an integer as a \<open>json.Number\<close> with the same digits).
\<close>

record vars_codec =
  varsMarshal :: "jobject \<Rightarrow> bytes option"
  varsDecode :: "bytes \<Rightarrow> jobject option"
  asDecoded :: "jvalue \<Rightarrow> jvalue"

definition vars_codec_ok :: "vars_codec \<Rightarrow> bool" where
  "vars_codec_ok V \<longleftrightarrow> (\<forall>m b. varsMarshal V m = Some b \<longrightarrow> b \<noteq> [] \<and>
     (\<exists>m'. varsDecode V b = Some m' \<and> distinct (map fst m') \<and> (\<forall>k. map_of m' k = map_option (asDecoded V) (map_of m k))))"

text \<open>
  \<open>names\<close> are the nodes with their names in the order \<open>range\<close> visits them, \<open>trigger\<close> is the name of the trigger when the
  task has one. \<open>None\<close> is the error of the encoding.
\<close>

definition snapshot_vars :: "(string \<times> string) list \<Rightarrow> string option \<Rightarrow> jobject \<Rightarrow> jobject" where
  "snapshot_vars names trigger vars =
     (let out = fold (\<lambda>(nodeID, _). snapshot_var vars (getNodeNameAsVar names nodeID)) names []
      in case trigger of None \<Rightarrow> out | Some t \<Rightarrow> snapshot_var vars (sanitizeTriggerNameForJS t) out)"

definition snapshotNodeVars :: "vars_codec \<Rightarrow> (string \<times> string) list \<Rightarrow> string option \<Rightarrow> jobject \<Rightarrow> bytes option" where
  "snapshotNodeVars V names trigger vars = varsMarshal V (snapshot_vars names trigger vars)"

definition restore_var :: "string \<times> jvalue \<Rightarrow> jobject \<Rightarrow> jobject" where
  "restore_var kv vars = (if fst kv \<in> set reservedSystemVarNames then vars else set_var (fst kv) (snd kv) vars)"

text \<open>\<open>None\<close> is the error of the decoding; an empty snapshot restores nothing.\<close>

definition restoreNodeVars :: "vars_codec \<Rightarrow> bytes \<Rightarrow> jobject \<Rightarrow> jobject option" where
  "restoreNodeVars V snapshot vars =
     (if snapshot = [] then Some vars
      else case varsDecode V snapshot of None \<Rightarrow> None | Some restored \<Rightarrow> Some (fold restore_var restored vars))"

text \<open>
  \<open>SetOutputVarForStep\<close>: the output of a step becomes the field \<open>data\<close> of the variable of its node; the steps of the
  iterations of a loop are not stored.
\<close>

definition SetOutputVarForStep :: "(string \<times> string) list \<Rightarrow> string \<Rightarrow> jvalue \<Rightarrow> jobject \<Rightarrow> jobject" where
  "SetOutputVarForStep names stepID v vars =
     (if contains stepID ''_iter_'' then vars
      else let name = getNodeNameAsVar names stepID;
               processed = (case v of JObj kvs \<Rightarrow> (case map_of kvs ''data'' of None \<Rightarrow> v | Some field \<Rightarrow> field) | _ \<Rightarrow> v);
               nodeVar = (case map_of vars name of Some (JObj kvs) \<Rightarrow> kvs | _ \<Rightarrow> [])
           in set_var name (JObj (put ''data'' processed nodeVar)) vars)"

text \<open>The nodes a resumed run skips: every step with an id, whether it succeeded or not.\<close>

definition completedNodeIDsFromSteps :: "step list \<Rightarrow> string list" where
  "completedNodeIDsFromSteps steps = filter (\<lambda>i. i \<noteq> []) (map step_id steps)"

section \<open>The persisted registry\<close>

record persisted_wake =
  p_kind :: wake_kind
  p_task :: string
  p_chain_event :: bytes
  p_external :: "external_spec option"
  p_timeout :: int

record wake_codec =
  eventMarshal :: "event_config \<Rightarrow> bytes option"
  eventUnmarshal :: "bytes \<Rightarrow> event_config option"
  wakeMarshal :: "persisted_wake \<Rightarrow> bytes option"
  wakeUnmarshal :: "bytes \<Rightarrow> persisted_wake option"

text \<open>What is relied on: decoding what was encoded, and that an encoded message is not empty.\<close>

definition wake_codec_ok :: "wake_codec \<Rightarrow> bool" where
  "wake_codec_ok C \<longleftrightarrow>
     (\<forall>e b. eventMarshal C e = Some b \<longrightarrow> b \<noteq> [] \<and> eventUnmarshal C b = Some e) \<and>
     (\<forall>p b. wakeMarshal C p = Some b \<longrightarrow> wakeUnmarshal C b = Some p)"

definition marshalWake :: "wake_codec \<Rightarrow> wake \<Rightarrow> bytes option" where
  "marshalWake C sub =
     (let rec = (\<lambda>ev. wakeMarshal C \<lparr>p_kind = w_kind sub, p_task = w_task sub, p_chain_event = ev,
        p_external = w_external sub, p_timeout = w_timeout sub\<rparr>)
      in case w_chain_event sub of None \<Rightarrow> rec []
       | Some cfg \<Rightarrow> (case eventMarshal C cfg of None \<Rightarrow> None | Some b \<Rightarrow> rec b))"

definition unmarshalWake :: "wake_codec \<Rightarrow> bytes \<Rightarrow> wake option" where
  "unmarshalWake C b = (case wakeUnmarshal C b of None \<Rightarrow> None
     | Some rec \<Rightarrow>
        (let sub = (\<lambda>ev. \<lparr>w_kind = p_kind rec, w_task = p_task rec, w_chain_event = ev,
           w_external = p_external rec, w_timeout = p_timeout rec\<rparr>)
         in if p_chain_event rec \<noteq> []
            then (case eventUnmarshal C (p_chain_event rec) of None \<Rightarrow> None | Some cfg \<Rightarrow> Some (sub (Some cfg)))
            else Some (sub None)))"

definition checkpointKey :: "string \<Rightarrow> bytes" where
  "checkpointKey execID = ''ckpt:'' @ execID"

definition wakeSubscriptionPrefix :: bytes where
  "wakeSubscriptionPrefix = ''wake:''"

definition wakeSubscriptionKey :: "string \<Rightarrow> bytes" where
  "wakeSubscriptionKey execID = wakeSubscriptionPrefix @ execID"

datatype durable_error = DStorage serr | DInvalidWake wake_error | DMarshal | DUnmarshal

definition persistCheckpoint :: "'d badger \<Rightarrow> 'd \<Rightarrow> string \<Rightarrow> bytes \<Rightarrow> serr + 'd" where
  "persistCheckpoint B d execID snapshot = StorageSet B d (checkpointKey execID) snapshot"

definition loadCheckpoint :: "'d badger \<Rightarrow> 'd \<Rightarrow> string \<Rightarrow> serr + bytes" where
  "loadCheckpoint B d execID = GetKey B d (checkpointKey execID)"

text \<open>The errors of the two deletions are dropped by every caller.\<close>

definition deleteCheckpoint :: "'d badger \<Rightarrow> string \<Rightarrow> 'd \<Rightarrow> 'd" where
  "deleteCheckpoint B execID d = (case StorageDelete B d (checkpointKey execID) of Inl _ \<Rightarrow> d | Inr d' \<Rightarrow> d')"

definition deleteWakeSubscription :: "'d badger \<Rightarrow> string \<Rightarrow> 'd \<Rightarrow> 'd" where
  "deleteWakeSubscription B execID d =
     (case StorageDelete B d (wakeSubscriptionKey execID) of Inl _ \<Rightarrow> d | Inr d' \<Rightarrow> d')"

definition persistWakeSubscription ::
  "wake_codec \<Rightarrow> 'd badger \<Rightarrow> 'd \<Rightarrow> string \<Rightarrow> wake option \<Rightarrow> durable_error + 'd" where
  "persistWakeSubscription C B d execID sub = (case ValidateWake sub of Some e \<Rightarrow> Inl (DInvalidWake e)
     | None \<Rightarrow> (case marshalWake C (the sub) of None \<Rightarrow> Inl DMarshal
         | Some b \<Rightarrow> (case StorageSet B d (wakeSubscriptionKey execID) b of Inl e \<Rightarrow> Inl (DStorage e) | Inr d' \<Rightarrow> Inr d')))"

definition loadWakeSubscription :: "wake_codec \<Rightarrow> 'd badger \<Rightarrow> 'd \<Rightarrow> string \<Rightarrow> durable_error + wake" where
  "loadWakeSubscription C B d execID = (case GetKey B d (wakeSubscriptionKey execID) of Inl e \<Rightarrow> Inl (DStorage e)
     | Inr b \<Rightarrow> (case unmarshalWake C b of None \<Rightarrow> Inl DUnmarshal | Some w \<Rightarrow> Inr w))"

text \<open>A record that does not decode or does not validate is skipped, never an error of the scan.\<close>

fun decode_wakes :: "wake_codec \<Rightarrow> (bytes \<times> bytes) list \<Rightarrow> (string \<times> wake) list" where
  "decode_wakes C [] = []"
| "decode_wakes C ((k, v) # rows) =
     (case unmarshalWake C v of None \<Rightarrow> decode_wakes C rows
      | Some w \<Rightarrow> (if ValidateWake (Some w) = None then (drop (length wakeSubscriptionPrefix) k, w) # decode_wakes C rows
          else decode_wakes C rows))"

definition loadAllWakeSubscriptions :: "wake_codec \<Rightarrow> 'd badger \<Rightarrow> 'd \<Rightarrow> serr + (string \<times> wake) list" where
  "loadAllWakeSubscriptions C B d =
     (case GetByPrefix B d wakeSubscriptionPrefix of Inl e \<Rightarrow> Inl e | Inr rows \<Rightarrow> Inr (decode_wakes C rows))"

section \<open>Internal triggers\<close>

definition internalTriggerPrefix :: string where
  "internalTriggerPrefix = ''itrig_''"

definition internalTriggerTaskID :: "string \<Rightarrow> string" where
  "internalTriggerTaskID executionID = internalTriggerPrefix @ executionID"

definition parseInternalTriggerTaskID :: "string \<Rightarrow> string option" where
  "parseInternalTriggerTaskID taskID =
     (if prefix internalTriggerPrefix taskID then Some (drop (length internalTriggerPrefix) taskID) else None)"

end
