(* ===== verification/Execution.thy ===== *)
theory Execution
  imports Wake Retry
begin

text \<open>
  The workflow executor over the store, \<open>core/taskengine/executor.go\<close>: loading a workflow, the index of an
  execution, the verdict on a finished run, and the writes that end a run, suspend it, resume it or let its wait
  expire. What the nodes of a run do is a parameter, the record \<open>leg\<close>; the theory \<open>Schedules\<close> says which nodes a run
  executes.
\<close>

section \<open>Records and codecs\<close>

datatype exec_status = ExecUnspecified | ExecPending | ExecSuccess | ExecFailed | ExecError | ExecWaiting
  | OtherExec int

definition exec_number :: "exec_status \<Rightarrow> int" where
  "exec_number s = (case s of ExecUnspecified \<Rightarrow> 0 | ExecPending \<Rightarrow> 1 | ExecSuccess \<Rightarrow> 2 | ExecFailed \<Rightarrow> 3
     | ExecError \<Rightarrow> 5 | ExecWaiting \<Rightarrow> 6 | OtherExec n \<Rightarrow> n)"

definition exec_of_number :: "int \<Rightarrow> exec_status" where
  "exec_of_number n = (if n = 0 then ExecUnspecified else if n = 1 then ExecPending else if n = 2 then ExecSuccess
     else if n = 3 then ExecFailed else if n = 5 then ExecError else if n = 6 then ExecWaiting else OtherExec n)"

text \<open>An execution; its fees, costs and summary are computed from the other fields and not modelled.\<close>

record execution =
  ex_id :: string
  ex_start :: int
  ex_end :: int
  ex_status :: exec_status
  ex_error :: string
  ex_steps :: "step list"
  ex_index :: int
  ex_resume :: string
  ex_wait_reason :: string

record 'd xenv =
  xbadger :: "'d badger"
  taskMarshal :: "task \<Rightarrow> bytes option"
  taskUnmarshal :: "bytes \<Rightarrow> task option"
  execMarshal :: "execution \<Rightarrow> bytes option"
  execUnmarshal :: "bytes \<Rightarrow> execution option"
  wakeCodec :: wake_codec
  varsCodec :: vars_codec

definition xenv_ok :: "'d xenv \<Rightarrow> bool" where
  "xenv_ok E \<longleftrightarrow> badger_ok (xbadger E) \<and> wake_codec_ok (wakeCodec E) \<and> vars_codec_ok (varsCodec E) \<and>
     (\<forall>t b. taskMarshal E t = Some b \<longrightarrow> taskUnmarshal E b = Some t) \<and>
     (\<forall>x b. execMarshal E x = Some b \<longrightarrow> execUnmarshal E b = Some x)"

text \<open>\<open>FromStorageData\<close>: decoding, then \<open>EnsureInitialized\<close>.\<close>

definition FromStorageData :: "'d xenv \<Rightarrow> bytes \<Rightarrow> task option" where
  "FromStorageData E b = (case taskUnmarshal E b of None \<Rightarrow> None
     | Some t \<Rightarrow> (case EnsureInitialized t of Inl _ \<Rightarrow> None | Inr _ \<Rightarrow> Some t))"

definition status_number :: "task_status \<Rightarrow> int" where
  "status_number s = (case s of Enabled \<Rightarrow> 0 | Completed \<Rightarrow> 1 | Failed \<Rightarrow> 2 | Running \<Rightarrow> 4 | Disabled \<Rightarrow> 5
     | OtherStatus n \<Rightarrow> n)"

text \<open>The two rows of a workflow, under its status and in the index of its owner.\<close>

definition task_row :: "task \<Rightarrow> bytes \<Rightarrow> bytes \<times> bytes" where
  "task_row t json = (WorkflowStorageKey (task_id t) (task_status t), json)"

definition user_row :: "task \<Rightarrow> bytes \<times> bytes" where
  "user_row t = (TaskUserKey t, sdecimal (status_number (task_status t)))"

text \<open>A deletion or a batch whose error is only logged.\<close>

definition delete_logged :: "'d badger \<Rightarrow> bytes \<Rightarrow> 'd \<Rightarrow> 'd" where
  "delete_logged B k d = (case StorageDelete B d k of Inl _ \<Rightarrow> d | Inr d' \<Rightarrow> d')"

definition write_logged :: "'d badger \<Rightarrow> (bytes \<times> bytes) list \<Rightarrow> 'd \<Rightarrow> 'd" where
  "write_logged B updates d = (case BatchWrite B d updates of Inl _ \<Rightarrow> d | Inr d' \<Rightarrow> d')"

text \<open>When the status has changed the row of the old one is deleted.\<close>

definition drop_old_row :: "'d badger \<Rightarrow> task \<Rightarrow> task_status \<Rightarrow> 'd \<Rightarrow> 'd" where
  "drop_old_row B t old d =
     (if task_status t \<noteq> old then delete_logged B (WorkflowStorageKey (task_id t) old) d else d)"

section \<open>Loading\<close>

datatype load_error = LoadStorage serr | LoadCorrupt | LoadUninitialized

definition GetTask :: "'d xenv \<Rightarrow> 'd \<Rightarrow> string \<Rightarrow> load_error + task" where
  "GetTask E d i = (case GetKey (xbadger E) d (WorkflowStorageKey i Enabled) of Inl e \<Rightarrow> Inl (LoadStorage e)
     | Inr item \<Rightarrow> (case taskUnmarshal E item of None \<Rightarrow> Inl LoadCorrupt
         | Some t \<Rightarrow> (case EnsureInitialized t of Inl _ \<Rightarrow> Inl LoadUninitialized | Inr _ \<Rightarrow> Inr t)))"

definition ExecutionIndexCounterKey :: "string \<Rightarrow> bytes" where
  "ExecutionIndexCounterKey i = ''execution_index_counter:'' @ i"

text \<open>The counter is one ahead of the index; the difference is an \<open>int64\<close>.\<close>

definition AssignNextExecutionIndex :: "'d badger \<Rightarrow> task \<Rightarrow> 'd \<Rightarrow> serr + int \<times> 'd" where
  "AssignNextExecutionIndex B t d = (case IncCounter B d (ExecutionIndexCounterKey (task_id t)) (Some 0) of
       Inl e \<Rightarrow> Inl e | Inr (c, d') \<Rightarrow> Inr (sint (c - 1), d'))"

definition GetCurrentExecutionIndex :: "'d badger \<Rightarrow> task \<Rightarrow> 'd \<Rightarrow> serr + int" where
  "GetCurrentExecutionIndex B t d = (case GetCounter B d (ExecutionIndexCounterKey (task_id t)) (Some 0) of
       Inl e \<Rightarrow> Inl e | Inr c \<Rightarrow> Inr (sint c))"

text \<open>The index of a run: the one stored with the pending execution, which is then consumed, or a new one.\<close>

definition take_index :: "'d badger \<Rightarrow> task \<Rightarrow> string \<Rightarrow> 'd \<Rightarrow> serr + int \<times> 'd" where
  "take_index B t executionID d = (case GetKey B d (PendingExecutionKey t executionID) of
       Inl _ \<Rightarrow> AssignNextExecutionIndex B t d
     | Inr pending \<Rightarrow> (case parse_int64 pending of None \<Rightarrow> AssignNextExecutionIndex B t d
         | Some i \<Rightarrow> Inr (i, delete_logged B (PendingExecutionKey t executionID) d)))"

section \<open>The verdict on a run\<close>

datatype result_status = ResultSuccess | ResultFailed | ResultError

definition getStepDisplayName :: "step \<Rightarrow> string" where
  "getStepDisplayName s = (if step_name s = [] \<or> step_name s = ''unknown'' then step_id s else step_name s)"

definition failedStepLabel :: "step \<Rightarrow> string" where
  "failedStepLabel s = (let msg = trim_space (step_error s)
     in if msg \<noteq> [] then getStepDisplayName s @ '': '' @ msg else getStepDisplayName s)"

fun join_with :: "string \<Rightarrow> string list \<Rightarrow> string" where
  "join_with sep [] = []"
| "join_with sep [x] = x"
| "join_with sep (x # y # xs) = x @ sep @ join_with sep (y # xs)"

definition steps_failed :: "nat \<Rightarrow> nat \<Rightarrow> string" where
  "steps_failed failed tot = decimal failed @ '' of '' @ decimal tot @ '' steps failed''"

definition formatExecutionErrorMessage :: "string \<Rightarrow> nat \<Rightarrow> nat \<Rightarrow> string list \<Rightarrow> string" where
  "formatExecutionErrorMessage pre failed tot names =
     (let msg = steps_failed failed tot @ '': '' @ join_with '', '' names
      in if pre = [] then msg else pre @ '': '' @ msg)"

definition step_failed :: "step \<Rightarrow> bool" where
  "step_failed s \<longleftrightarrow> \<not> step_success s \<and> step_error s \<noteq> []"

definition AnalyzeExecutionResult :: "step list \<Rightarrow> string \<times> nat \<times> result_status" where
  "AnalyzeExecutionResult logs =
     (if logs = [] then (''no execution steps found'', 0, ResultFailed)
      else let labels = map failedStepLabel (filter (\<lambda>s. step_failed s \<and> \<not> step_skipped s) logs);
               skipped = length (filter (\<lambda>s. step_failed s \<and> step_skipped s) logs);
               failed = length labels + skipped
           in if failed = 0 then ([], 0, ResultSuccess)
              else let msg = formatExecutionErrorMessage [] failed (length logs) labels;
                       msg' = (if skipped > 0
                         then (if labels = [] then steps_failed failed (length logs) else msg) @ ''; '' @
                           decimal skipped @ '' dependent writes skipped'' else msg)
                   in (msg', failed, ResultFailed))"

definition convertToExecutionStatus :: "result_status \<Rightarrow> exec_status" where
  "convertToExecutionStatus r = (case r of ResultSuccess \<Rightarrow> ExecSuccess | ResultFailed \<Rightarrow> ExecFailed | ResultError \<Rightarrow> ExecError)"

section \<open>Failing before the run\<close>

definition validationFailureDisableThreshold :: "32 word" where
  "validationFailureDisableThreshold = 10"

definition permanentValidationErrorPrefixes :: "string list" where
  "permanentValidationErrorPrefixes = [''invalid or missing task smart wallet address'',
     ''task smart wallet address does not belong to owner'', ''failed to create VM:'']"

definition isPermanentValidationError :: "string \<Rightarrow> bool" where
  "isPermanentValidationError msg \<longleftrightarrow> (\<exists>p\<in>set permanentValidationErrorPrefixes. prefix p msg)"

definition count_validation_failure :: "string \<Rightarrow> task \<Rightarrow> task" where
  "count_validation_failure msg t =
     (let t1 = t\<lparr>last_validation_error := msg\<rparr>
      in if isPermanentValidationError msg
         then (let t2 = t1\<lparr>consecutive_validation_failures := consecutive_validation_failures t1 + 1\<rparr>
               in if task_status t2 = Enabled \<and> validationFailureDisableThreshold \<le> consecutive_validation_failures t2
                  then t2\<lparr>task_status := Disabled\<rparr> else t2)
         else t1)"

definition task_updates :: "'d xenv \<Rightarrow> task \<Rightarrow> (bytes \<times> bytes) list" where
  "task_updates E t = (case taskMarshal E t of None \<Rightarrow> [] | Some json \<Rightarrow> [task_row t json, user_row t])"

definition exec_updates :: "'d xenv \<Rightarrow> task \<Rightarrow> execution \<Rightarrow> (bytes \<times> bytes) list" where
  "exec_updates E t x = (case execMarshal E x of None \<Rightarrow> [] | Some b \<Rightarrow> [(TaskExecutionKey t (ex_id x), b)])"

definition persistFailedExecution :: "'d xenv \<Rightarrow> task \<Rightarrow> execution \<Rightarrow> task_status \<Rightarrow> 'd \<Rightarrow> 'd" where
  "persistFailedExecution E t x initial d =
     (let t' = count_validation_failure (ex_error x) t
      in drop_old_row (xbadger E) t' initial
           (write_logged (xbadger E) (task_updates E t' @ exec_updates E t' x) d))"

section \<open>Ending or suspending a run\<close>

text \<open>What running the nodes came to: the error, the steps, the request to suspend and the variables of the VM.\<close>

record leg =
  leg_error :: "string option"
  leg_logs :: "step list"
  leg_suspend :: "suspend_request option"
  leg_vars :: jobject

definition complete_if_done :: "int \<Rightarrow> task \<Rightarrow> task" where
  "complete_if_done now t =
     (let t1 = (if 0 < max_execution t \<and> max_execution t \<le> execution_count t then SetCompleted now MaxExecutionReached t else t)
      in if 0 < expired_at t1 \<and> expired_at t1 \<le> unix_milli now then SetCompleted now ExpiredReason t1 else t1)"

definition finished_execution :: "int \<Rightarrow> execution \<Rightarrow> leg \<Rightarrow> execution" where
  "finished_execution now x l = (case AnalyzeExecutionResult (leg_logs l) of (msg, _, res) \<Rightarrow>
     (let x1 = x\<lparr>ex_end := unix_milli now, ex_status := convertToExecutionStatus res, ex_error := msg, ex_steps := leg_logs l\<rparr>
      in case leg_error l of None \<Rightarrow> x1
       | Some e \<Rightarrow> x1\<lparr>ex_error := (if msg = [] then ''VM execution error: '' @ e
           else ''VM execution error: '' @ e @ '' (step analysis: '' @ msg @ '')''), ex_status := ExecError\<rparr>))"

text \<open>
  The end of \<open>runTaskWithBudgetLease\<close>. The error of \<open>ToJSON\<close> is overwritten by the next assignment, and the row is
  written with the empty value it came with. \<open>Inl\<close> is the error returned beside the execution.
\<close>

definition finish_run :: "'d xenv \<Rightarrow> int \<Rightarrow> task \<Rightarrow> task_status \<Rightarrow> execution \<Rightarrow> leg \<Rightarrow> 'd \<Rightarrow> 'd \<times> (string + execution)" where
  "finish_run E now t initial x l d =
     (let t' = complete_if_done now t; x' = finished_execution now x l;
          json = (case taskMarshal E t' of None \<Rightarrow> [] | Some b \<Rightarrow> b);
          d' = drop_old_row (xbadger E) t' initial
            (write_logged (xbadger E) ([task_row t' json, user_row t'] @ exec_updates E t' x') d)
      in (d', case leg_error l of Some e \<Rightarrow> (if ex_error x' = [] then Inl e else Inr x') | None \<Rightarrow> Inr x'))"

datatype run_error = InvalidExecutionId | BadNodeName workflow_error | VMConstruction string | IndexFailed serr
  | SnapshotFailed | CheckpointFailed serr | WakeInvalid wake_error | MarshalFailed | WriteFailed serr
  | SystemError string | LeaseRefused | LoadExecution serr | ExecutionCorrupt | RebuildFailed string
  | LoadCheckpointFailed serr | RestoreFailed | BadSignal signal_error | NoPendingWait durable_error
  | WrongKind | WaitTimedOut

definition suspended_execution :: "execution \<Rightarrow> leg \<Rightarrow> suspend_request \<Rightarrow> execution" where
  "suspended_execution x l susp =
     (let x1 = x\<lparr>ex_steps := leg_logs l, ex_status := ExecWaiting, ex_resume := await_node susp\<rparr>
      in case susp_wake susp of None \<Rightarrow> x1 | Some w \<Rightarrow> x1\<lparr>ex_wait_reason := ''waiting on '' @ wake_String (w_kind w)\<rparr>)"

definition wake_updates :: "'d xenv \<Rightarrow> task \<Rightarrow> string \<Rightarrow> suspend_request \<Rightarrow> run_error + (bytes \<times> bytes) list" where
  "wake_updates E t execID susp = (case susp_wake susp of None \<Rightarrow> Inr []
     | Some w \<Rightarrow> (let w' = w\<lparr>w_task := task_id t\<rparr>
         in case ValidateWake (Some w') of Some e \<Rightarrow> Inl (WakeInvalid e)
          | None \<Rightarrow> (case marshalWake (wakeCodec E) w' of None \<Rightarrow> Inl MarshalFailed
              | Some b \<Rightarrow> Inr [(wakeSubscriptionKey execID, b)])))"

text \<open>The nodes of the VM by id; a later node replaces an earlier one with its id.\<close>

definition vm_names :: "task \<Rightarrow> (string \<times> string) list" where
  "vm_names t = rev (map (\<lambda>n. (node_id n, node_name n)) (task_nodes t))"

definition vm_trigger :: "task \<Rightarrow> string option" where
  "vm_trigger t = map_option trigger_name (task_trigger t)"

definition checkpointSuspendedExecution ::
  "'d xenv \<Rightarrow> int \<Rightarrow> task \<Rightarrow> execution \<Rightarrow> leg \<Rightarrow> suspend_request \<Rightarrow> 'd \<Rightarrow> 'd \<times> (run_error + execution)" where
  "checkpointSuspendedExecution E now t x l susp d =
     (let x' = suspended_execution x l susp
      in case snapshotNodeVars (varsCodec E) (vm_names t) (vm_trigger t) (leg_vars l) of None \<Rightarrow> (d, Inl SnapshotFailed)
       | Some snapshot \<Rightarrow> (case persistCheckpoint (xbadger E) d (ex_id x) snapshot of
           Inl e \<Rightarrow> (d, Inl (CheckpointFailed e))
         | Inr d1 \<Rightarrow> (case wake_updates E t (ex_id x) susp of Inl e \<Rightarrow> (d1, Inl e)
           | Inr wakes \<Rightarrow> (case execMarshal E x' of None \<Rightarrow> (d1, Inl MarshalFailed)
             | Some xb \<Rightarrow> (let t' = complete_if_done now t
                 in case taskMarshal E t' of None \<Rightarrow> (d1, Inl MarshalFailed)
                  | Some json \<Rightarrow> (case BatchWrite (xbadger E) d1
                        (wakes @ [(TaskExecutionKey t (ex_id x), xb), task_row t' json, user_row t']) of
                      Inl e \<Rightarrow> (d1, Inl (WriteFailed e))
                    | Inr d2 \<Rightarrow> (drop_old_row (xbadger E) t' (task_status t) d2, Inr x')))))))"

section \<open>A run\<close>

definition validateAllNodeNamesForJavaScript :: "task \<Rightarrow> workflow_error option" where
  "validateAllNodeNamesForJavaScript t = (case validate_trigger_name (task_trigger t) of Some e \<Rightarrow> Some e
     | None \<Rightarrow> validate_node_names (task_nodes t))"

text \<open>
  What happens before the nodes run and cannot be computed from the store: the error of building the VM, the verdict
  of the gates on price, wallet ownership and credit (the error they put into the execution), and the run itself.
\<close>

record run_outcome =
  ro_vm_error :: "string option"
  ro_gate_error :: "string option"
  ro_leg :: leg

text \<open>\<open>runTaskWithBudgetLease\<close> for the execution \<open>executionID\<close>, started at \<open>t0\<close> and ended at \<open>t1\<close>.\<close>

definition runTaskWithBudgetLease ::
  "'d xenv \<Rightarrow> int \<Rightarrow> int \<Rightarrow> task \<Rightarrow> string \<Rightarrow> run_outcome \<Rightarrow> 'd \<Rightarrow> 'd \<times> (run_error + execution)" where
  "runTaskWithBudgetLease E t0 t1 t executionID out d =
     (if executionID = [] then (d, Inl InvalidExecutionId)
      else case validateAllNodeNamesForJavaScript t of Some e \<Rightarrow> (d, Inl (BadNodeName e))
       | None \<Rightarrow> (case ro_vm_error out of Some e \<Rightarrow> (d, Inl (VMConstruction e))
         | None \<Rightarrow>
            (let t' = t\<lparr>execution_count := execution_count t + 1, last_ran_at := unix_milli t0\<rparr>
             in case take_index (xbadger E) t' executionID d of Inl e \<Rightarrow> (d, Inl (IndexFailed e))
              | Inr (index, d1) \<Rightarrow>
                 (let x = \<lparr>ex_id = executionID, ex_start = unix_milli t0, ex_end = 0, ex_status = ExecPending, ex_error = [],
                      ex_steps = [], ex_index = index, ex_resume = [], ex_wait_reason = []\<rparr>
                  in case ro_gate_error out of
                       Some e \<Rightarrow> (let x' = x\<lparr>ex_end := unix_milli t1, ex_error := e, ex_status := ExecFailed\<rparr>
                         in (persistFailedExecution E t' x' (task_status t) d1, Inr x'))
                     | None \<Rightarrow>
                        (let t'' = t'\<lparr>consecutive_validation_failures := 0, last_validation_error := []\<rparr>
                         in case leg_suspend (ro_leg out) of
                              Some susp \<Rightarrow> checkpointSuspendedExecution E t1 t'' x (ro_leg out) susp d1
                            | None \<Rightarrow> (case finish_run E t1 t'' (task_status t) x (ro_leg out) d1 of
                                (d2, Inl e) \<Rightarrow> (d2, Inl (SystemError e)) | (d2, Inr x') \<Rightarrow> (d2, Inr x')))))))"

section \<open>Resuming\<close>

text \<open>
  The VM as a resumed run uses it: the error of rebuilding and compiling it or else the variables it starts with, and the
  run, given the variables, the completed nodes and the steps so far.
\<close>

record resume_vm =
  vm_build :: "string + jobject"
  vm_run :: "jobject \<Rightarrow> string list \<Rightarrow> step list \<Rightarrow> leg"

definition gc_durable :: "'d badger \<Rightarrow> string \<Rightarrow> 'd \<Rightarrow> 'd" where
  "gc_durable B executionID d = deleteWakeSubscription B executionID (deleteCheckpoint B executionID d)"

definition load_execution :: "'d xenv \<Rightarrow> task \<Rightarrow> string \<Rightarrow> 'd \<Rightarrow> run_error + execution" where
  "load_execution E t executionID d = (case GetKey (xbadger E) d (TaskExecutionKey t executionID) of
       Inl e \<Rightarrow> Inl (LoadExecution e)
     | Inr raw \<Rightarrow> (case execUnmarshal E raw of None \<Rightarrow> Inl ExecutionCorrupt | Some x \<Rightarrow> Inr x))"

text \<open>The terminal record is written, then the durable state of the execution is removed.\<close>

definition write_terminal :: "'d xenv \<Rightarrow> task \<Rightarrow> string \<Rightarrow> execution \<Rightarrow> 'd \<Rightarrow> 'd \<times> (run_error + execution)" where
  "write_terminal E t executionID x d = (case execMarshal E x of None \<Rightarrow> (d, Inl MarshalFailed)
     | Some b \<Rightarrow> (case BatchWrite (xbadger E) d [(TaskExecutionKey t executionID, b)] of Inl e \<Rightarrow> (d, Inl (WriteFailed e))
         | Inr d' \<Rightarrow> (gc_durable (xbadger E) executionID d', Inr x)))"

text \<open>The wake delivers the output of the awaited node.\<close>

definition delivered_output :: "task \<Rightarrow> execution \<Rightarrow> signal option \<Rightarrow> jobject \<Rightarrow> jobject" where
  "delivered_output t x sg vars = (case sg of None \<Rightarrow> vars
     | Some s \<Rightarrow> (case payload s of None \<Rightarrow> vars
         | Some p \<Rightarrow> if ex_resume x \<noteq> [] then SetOutputVarForStep (vm_names t) (ex_resume x) (JObj [(''data'', p)]) vars else vars))"

definition resumed_execution :: "int \<Rightarrow> execution \<Rightarrow> leg \<Rightarrow> execution" where
  "resumed_execution now x l = (case AnalyzeExecutionResult (leg_logs l) of (msg, _, res) \<Rightarrow>
     (let x1 = x\<lparr>ex_steps := leg_logs l, ex_status := convertToExecutionStatus res, ex_error := msg, ex_end := unix_milli now\<rparr>;
          x2 = (case leg_error l of None \<Rightarrow> x1
            | Some e \<Rightarrow> x1\<lparr>ex_status := ExecError, ex_error := (if msg = [] then ''VM execution error: '' @ e else msg)\<rparr>)
      in x2\<lparr>ex_resume := [], ex_wait_reason := []\<rparr>))"

definition Advance :: "'d xenv \<Rightarrow> resume_vm \<Rightarrow> int \<Rightarrow> task \<Rightarrow> string \<Rightarrow> signal option \<Rightarrow> 'd \<Rightarrow> 'd \<times> (run_error + execution)" where
  "Advance E vm now t executionID sg d = (case load_execution E t executionID d of Inl e \<Rightarrow> (d, Inl e)
     | Inr x \<Rightarrow>
        if ex_status x \<noteq> ExecWaiting then (gc_durable (xbadger E) executionID d, Inr x)
        else case vm_build vm of Inl e \<Rightarrow> (d, Inl (RebuildFailed e))
         | Inr vars \<Rightarrow> (case loadCheckpoint (xbadger E) d executionID of Inl e \<Rightarrow> (d, Inl (LoadCheckpointFailed e))
           | Inr ckpt \<Rightarrow> (case restoreNodeVars (varsCodec E) ckpt vars of None \<Rightarrow> (d, Inl RestoreFailed)
             | Some restored \<Rightarrow>
                (let l = vm_run vm (delivered_output t x sg restored) (completedNodeIDsFromSteps (ex_steps x)) (ex_steps x)
                 in case leg_suspend l of
                      Some susp \<Rightarrow> checkpointSuspendedExecution E now t x l susp d
                    | None \<Rightarrow> write_terminal E t executionID (resumed_execution now x l) d))))"

definition await_expired :: string where
  "await_expired = ''await timed out before a wake arrived''"

definition ExpireWait :: "'d xenv \<Rightarrow> int \<Rightarrow> task \<Rightarrow> string \<Rightarrow> 'd \<Rightarrow> 'd \<times> (run_error + execution)" where
  "ExpireWait E now t executionID d = (case load_execution E t executionID d of
       Inl (LoadExecution e) \<Rightarrow> (gc_durable (xbadger E) executionID d, Inl (LoadExecution e))
     | Inl e \<Rightarrow> (d, Inl e)
     | Inr x \<Rightarrow>
        if ex_status x \<noteq> ExecWaiting then (gc_durable (xbadger E) executionID d, Inr x)
        else write_terminal E t executionID (x\<lparr>ex_status := ExecFailed,
          ex_error := (if ex_error x = [] then await_expired else ex_error x), ex_end := unix_milli now,
          ex_resume := [], ex_wait_reason := []\<rparr>) d)"

definition DeliverSignal :: "'d xenv \<Rightarrow> resume_vm \<Rightarrow> int \<Rightarrow> task \<Rightarrow> signal \<Rightarrow> 'd \<Rightarrow> 'd \<times> (run_error + execution)" where
  "DeliverSignal E vm now t sg d = (case ValidateSignal (Some sg) of Some e \<Rightarrow> (d, Inl (BadSignal e))
     | None \<Rightarrow> (case loadWakeSubscription (wakeCodec E) (xbadger E) d (sig_execution sg) of
         Inl e \<Rightarrow> (d, Inl (NoPendingWait e))
       | Inr w \<Rightarrow> if sig_kind sg \<noteq> w_kind w then (d, Inl WrongKind)
           else if 0 < w_timeout w \<and> w_timeout w < unix_milli now then (d, Inl WaitTimedOut)
           else Advance E vm now t (sig_execution sg) (Some sg) d))"

end
