(* ===== verification/Engine.thy ===== *)
theory Engine
  imports Execution Operators Queue
begin

text \<open>
  The engine, \<open>core/taskengine/engine.go\<close>: the workflows it keeps in memory beside their rows in the store, and the
  handlers that create, enable, disable, delete and trigger them, take the notifications of operators and deliver
  signals to suspended executions. The store is the one of the queue. A handler that fails returns its error beside
  the state it leaves.
\<close>

section \<open>State\<close>

datatype trigger_enum = TriggerUnspecified | TriggerManual | TriggerFixedTime | TriggerCron | TriggerBlock | TriggerEvent

text \<open>The payload of a job; \<open>qd_output\<close> is the trigger output in the form in which the job carries it.\<close>

record queue_data =
  qd_type :: trigger_enum
  qd_output :: "jvalue option"
  qd_execution :: string
  qd_inputs :: jobject

record 'd genv =
  gx :: "'d xenv"
  gq :: "'d qenv"
  dataMarshal :: "queue_data \<Rightarrow> bytes option"
  dataUnmarshal :: "bytes \<Rightarrow> queue_data option"
  gapproved :: "string list option"
  ggateway :: bool

definition genv_ok :: "'d genv \<Rightarrow> bool" where
  "genv_ok G \<longleftrightarrow> xenv_ok (gx G) \<and> qenv_ok (gq G) \<and> qbadger (gq G) = xbadger (gx G) \<and>
     (\<forall>q b. dataMarshal G q = Some b \<longrightarrow> dataUnmarshal G b = Some q)"

definition gbadger :: "'d genv \<Rightarrow> 'd badger" where
  "gbadger G = xbadger (gx G)"

record 'd engine =
  equeue :: "'d queue"
  tasks :: "(string \<times> task) list"
  ops :: operators
  processedTriggerIDs :: "(string \<times> int) list"

definition edb :: "'d engine \<Rightarrow> 'd" where
  "edb n = qdb (equeue n)"

definition with_db :: "'d \<Rightarrow> 'd engine \<Rightarrow> 'd engine" where
  "with_db d n = n\<lparr>equeue := (equeue n)\<lparr>qdb := d\<rparr>\<rparr>"

definition put_task :: "task \<Rightarrow> 'd engine \<Rightarrow> 'd engine" where
  "put_task t n = n\<lparr>tasks := AList.update (task_id t) t (tasks n)\<rparr>"

definition drop_task :: "string \<Rightarrow> 'd engine \<Rightarrow> 'd engine" where
  "drop_task i n = n\<lparr>tasks := AList.delete i (tasks n)\<rparr>"

definition on_ops :: "(operators \<Rightarrow> operators) \<Rightarrow> 'd engine \<Rightarrow> 'd engine" where
  "on_ops f n = n\<lparr>ops := f (ops n)\<rparr>"

section \<open>Lookup\<close>

datatype find_error = TaskNotFound | TaskCorrupted

text \<open>\<open>GetWorkflowByID\<close> tries the statuses in the order in which \<open>range\<close> visits their names.\<close>

fun GetWorkflowByID :: "'d xenv \<Rightarrow> 'd \<Rightarrow> task_status list \<Rightarrow> string \<Rightarrow> find_error + task" where
  "GetWorkflowByID E d [] i = Inl TaskNotFound"
| "GetWorkflowByID E d (s # ss) i = (case GetKey (xbadger E) d (WorkflowStorageKey i s) of
       Inl _ \<Rightarrow> GetWorkflowByID E d ss i
     | Inr raw \<Rightarrow> (case FromStorageData E raw of None \<Rightarrow> Inl TaskCorrupted | Some t \<Rightarrow> Inr t))"

text \<open>The zero address is the administrator; anyone else sees only the workflows they own.\<close>

definition GetWorkflow :: "'d xenv \<Rightarrow> 'd \<Rightarrow> task_status list \<Rightarrow> address \<Rightarrow> string \<Rightarrow> find_error + task" where
  "GetWorkflow E d ord user i = (case GetWorkflowByID E d ord i of Inl e \<Rightarrow> Inl e
     | Inr t \<Rightarrow> if user \<noteq> zero_address \<and> \<not> OwnedBy t user then Inl TaskNotFound else Inr t)"

section \<open>Creation\<close>

datatype create_error = GasReserved string | ExpiryTooClose int | QuotaError limit_error | InvalidTask workflow_error
  | TemplateError string | FrequencyError limit_error | AddressError string | RetryRefused retry_error | NotCovered int
  | WalletRefused string | NodeNameRefused workflow_error | PartRefused string | PolicyRefused string | SerializeFailed
  | CreateWrite serr

text \<open>
  The checks on the request that opens \<open>CreateWorkflow\<close>: an expiry at least an hour away, a limit on the number of
  executions, and the quota of the owner.
\<close>

definition minimum_lifetime_ms :: int where
  "minimum_lifetime_ms = 60 * 60 * 1000"

definition create_request :: "int \<Rightarrow> string list \<Rightarrow> string \<Rightarrow> create_task_req \<Rightarrow> create_error + create_task_req" where
  "create_request now owners user r =
     (if 0 < req_expired_at r \<and> req_expired_at r - (now div 1000000000) * 1000 < minimum_lifetime_ms
      then Inl (ExpiryTooClose (req_expired_at r - (now div 1000000000) * 1000))
      else let r' = (if req_max_execution r \<le> 0 then r\<lparr>req_max_execution := DefaultMaxExecution\<rparr> else r)
        in case checkActiveWorkflowQuota owners user of Inl e \<Rightarrow> Inl (QuotaError e) | Inr _ \<Rightarrow> Inr r')"

definition check_coverage :: "bool \<Rightarrow> operators \<Rightarrow> task \<Rightarrow> create_error + unit" where
  "check_coverage gateway S t = (case task_trigger t of None \<Rightarrow> Inr ()
     | Some tr \<Rightarrow> if gateway \<and> chainNeedsOperatorMonitoring tr \<and> operatorsCoveringChain S (triggerMonitoringChainID tr 0) = []
         then Inl (NotCovered (triggerMonitoringChainID tr 0)) else Inr ())"

text \<open>The end of \<open>CreateWorkflow\<close>, once every check has passed; \<open>outcome\<close> is what each operator's stream does.\<close>

definition store_workflow :: "'d genv \<Rightarrow> (string \<Rightarrow> send_outcome) \<Rightarrow> task \<Rightarrow> 'd engine \<Rightarrow> 'd engine \<times> (create_error + task)" where
  "store_workflow G outcome t n = (case taskMarshal (gx G) t of None \<Rightarrow> (n, Inl SerializeFailed)
     | Some json \<Rightarrow> (case BatchWrite (gbadger G) (edb n)
           [task_row t json, (TaskUserKey t, sdecimal (status_number Enabled))] of
         Inl e \<Rightarrow> (n, Inl (CreateWrite e))
       | Inr d \<Rightarrow> (on_ops (\<lambda>S. fst (sendMonitorTaskTriggerToOperators (gapproved G) outcome t S))
           (put_task t (with_db d n)), Inr t)))"

text \<open>
  What \<open>CreateWorkflow\<close> asks of code outside this theory: the hex functions and the cron parser of the libraries, the
  multiplication of doubles, the chain of the aggregator, and the verdicts of the checks on reserved gas, on the
  templates and addresses of event queries, on the runner wallet, on the chains and awaits of the nodes and on the
  session policies.
\<close>

record create_env =
  cw_isHex :: "string \<Rightarrow> bool"
  cw_canonHex :: "string \<Rightarrow> string"
  cw_schedule :: "string \<Rightarrow> (int \<Rightarrow> int option) option"
  cw_mult :: "int \<Rightarrow> float64 \<Rightarrow> float64"
  cw_chain :: int
  cw_gas :: "node list \<Rightarrow> string option"
  cw_resolve :: "trigger option \<Rightarrow> jobject \<Rightarrow> string + trigger option"
  cw_addresses :: "trigger option \<Rightarrow> string option"
  cw_wallet :: "task \<Rightarrow> string option"
  cw_parts :: "task \<Rightarrow> string option"
  cw_policy :: "task \<Rightarrow> string option"

definition create_checks :: "create_env \<Rightarrow> bool \<Rightarrow> int \<Rightarrow> operators \<Rightarrow> task \<Rightarrow> create_error + task" where
  "create_checks C gateway now S t0 = (case cw_resolve C (task_trigger t0) (input_variables t0) of
       Inl e \<Rightarrow> Inl (TemplateError e)
     | Inr tr \<Rightarrow> (let t = t0\<lparr>task_trigger := tr\<rparr>
         in case validateTriggerFrequency (cw_schedule C) now (task_trigger t) (cw_chain C) of Inl e \<Rightarrow> Inl (FrequencyError e)
          | Inr _ \<Rightarrow> (case cw_addresses C (task_trigger t) of Some e \<Rightarrow> Inl (AddressError e)
          | None \<Rightarrow> (case validateRetryPolicies (cw_mult C) (task_nodes t) of Inl e \<Rightarrow> Inl (RetryRefused e)
          | Inr _ \<Rightarrow> (case check_coverage gateway S t of Inl e \<Rightarrow> Inl e
          | Inr _ \<Rightarrow> (case (if smart_wallet_address t \<noteq> [] then cw_wallet C t else None) of Some e \<Rightarrow> Inl (WalletRefused e)
          | None \<Rightarrow> (case validateAllNodeNamesForJavaScript t of Some e \<Rightarrow> Inl (NodeNameRefused e)
          | None \<Rightarrow> (case cw_parts C t of Some e \<Rightarrow> Inl (PartRefused e)
          | None \<Rightarrow> (case cw_policy C t of Some e \<Rightarrow> Inl (PolicyRefused e) | None \<Rightarrow> Inr t)))))))))"

text \<open>\<open>taskID\<close> is the fresh id the model package generates.\<close>

definition CreateWorkflow ::
  "'d genv \<Rightarrow> create_env \<Rightarrow> (string \<Rightarrow> send_outcome) \<Rightarrow> int \<Rightarrow> string \<Rightarrow> string \<Rightarrow> create_task_req \<Rightarrow> 'd engine \<Rightarrow>
   'd engine \<times> (create_error + task)" where
  "CreateWorkflow G C outcome now taskID user r n = (case cw_gas C (req_nodes r) of Some e \<Rightarrow> (n, Inl (GasReserved e))
     | None \<Rightarrow> (case create_request now (map (task_owner \<circ> snd) (tasks n)) user r of Inl e \<Rightarrow> (n, Inl e)
       | Inr r' \<Rightarrow> (case NewWorkflowFromProtobuf (cw_isHex C) (cw_canonHex C) user taskID r' of Inl e \<Rightarrow> (n, Inl (InvalidTask e))
         | Inr t0 \<Rightarrow> (case create_checks C (ggateway G) now (ops n) t0 of Inl e \<Rightarrow> (n, Inl e)
           | Inr t \<Rightarrow> store_workflow G outcome t n))))"

section \<open>Deletion\<close>

datatype delete_result = DeleteNotFound | DeleteRunning | DeleteFailed serr | Deleted task_status

definition deregisterInternalTrigger :: "string \<Rightarrow> operators \<Rightarrow> operators" where
  "deregisterInternalTrigger executionID = notifyOperatorsTaskOperation (internalTriggerTaskID executionID) DeleteTask"

fun gc_wakes :: "'d badger \<Rightarrow> string \<Rightarrow> (string \<times> wake) list \<Rightarrow> 'd engine \<Rightarrow> 'd engine" where
  "gc_wakes B taskID [] n = n"
| "gc_wakes B taskID ((executionID, w) # ws) n =
     (if w_task w \<noteq> taskID then gc_wakes B taskID ws n
      else let n1 = with_db (gc_durable B executionID (edb n)) n
        in gc_wakes B taskID ws (if w_kind w = WakeChainEvent then on_ops (deregisterInternalTrigger executionID) n1 else n1))"

definition gcDurableStateForTask :: "'d genv \<Rightarrow> string \<Rightarrow> 'd engine \<Rightarrow> 'd engine" where
  "gcDurableStateForTask G taskID n = (case loadAllWakeSubscriptions (wakeCodec (gx G)) (gbadger G) (edb n) of
       Inl _ \<Rightarrow> n | Inr wakes \<Rightarrow> gc_wakes (gbadger G) taskID wakes n)"

text \<open>The state variables of the workflow are listed and deleted one by one; errors are only logged.\<close>

definition delete_workflow_state :: "'d badger \<Rightarrow> string \<Rightarrow> 'd \<Rightarrow> 'd" where
  "delete_workflow_state B taskID d = (case ListKeys B d (WorkflowStatePrefix taskID) of Inl _ \<Rightarrow> d
     | Inr ks \<Rightarrow> fold (delete_logged B) ks d)"

definition DeleteWorkflowByUser ::
  "'d genv \<Rightarrow> task_status list \<Rightarrow> address \<Rightarrow> string \<Rightarrow> 'd engine \<Rightarrow> 'd engine \<times> delete_result" where
  "DeleteWorkflowByUser G ord user taskID n = (case GetWorkflow (gx G) (edb n) ord user taskID of
       Inl _ \<Rightarrow> (n, DeleteNotFound)
     | Inr t \<Rightarrow>
        if task_status t = Running then (n, DeleteRunning)
        else case StorageDelete (gbadger G) (edb n) (WorkflowStorageKey (task_id t) (task_status t)) of
          Inl e \<Rightarrow> (n, DeleteFailed e)
        | Inr d \<Rightarrow> (case StorageDelete (gbadger G) d (TaskUserKey t) of
            Inl e \<Rightarrow> (with_db d n, DeleteFailed e)
          | Inr d' \<Rightarrow>
             (let n1 = gcDurableStateForTask G taskID (with_db d' n);
                  n2 = with_db (delete_workflow_state (gbadger G) taskID (edb n1)) n1
              in (on_ops (notifyOperatorsTaskOperation taskID DeleteTask) n2, Deleted (task_status t)))))"

section \<open>Enabling and disabling\<close>

datatype set_result = SetNotFound | SetTerminal task_status | SetAlreadyRunning | SetRunningRefused
  | SetAlready bool | SetRefused string | SetSerialize | SetWrite serr | SetDone bool task_status

text \<open>\<open>check\<close> is the error of the session policy check, which only an enabling makes.\<close>

definition SetWorkflowEnabledByUser ::
  "'d genv \<Rightarrow> task_status list \<Rightarrow> (string \<Rightarrow> send_outcome) \<Rightarrow> string option \<Rightarrow> address \<Rightarrow> string \<Rightarrow> bool \<Rightarrow> 'd engine \<Rightarrow>
   'd engine \<times> set_result" where
  "SetWorkflowEnabledByUser G ord outcome check user taskID enabled n =
     (case GetWorkflow (gx G) (edb n) ord user taskID of Inl _ \<Rightarrow> (n, SetNotFound)
      | Inr t \<Rightarrow>
         (let old = task_status t
          in if old = Completed \<or> old = Failed then (n, SetTerminal old)
             else if old = Running then (n, if enabled then SetAlreadyRunning else SetRunningRefused)
             else if enabled \<and> old = Enabled then (n, SetAlready True)
             else if \<not> enabled \<and> old = Disabled then (n, SetAlready False)
             else if enabled \<and> check \<noteq> None then (n, SetRefused (the check))
             else let t' = (if enabled then SetEnabled t else SetDisabled t)
               in case taskMarshal (gx G) t' of None \<Rightarrow> (n, SetSerialize)
                | Some json \<Rightarrow> (case BatchWrite (gbadger G) (edb n) [task_row t' json, user_row t'] of
                    Inl e \<Rightarrow> (n, SetWrite e)
                  | Inr d \<Rightarrow>
                     (let n1 = with_db (drop_old_row (gbadger G) t' old d) n
                      in (if enabled
                          then on_ops (\<lambda>S. fst (sendMonitorTaskTriggerToOperators (gapproved G) outcome t' S)) (put_task t' n1)
                          else on_ops (notifyOperatorsTaskOperation taskID DisableTask) (drop_task (task_id t') n1),
                          SetDone enabled old)))))"

datatype disable_error = DisableSerialize | DisableWrite serr

text \<open>The task in memory is changed before it is serialized and written.\<close>

definition DisableWorkflow :: "'d genv \<Rightarrow> string \<Rightarrow> 'd engine \<Rightarrow> 'd engine \<times> (disable_error + bool)" where
  "DisableWorkflow G taskID n = (case map_of (tasks n) taskID of None \<Rightarrow> (n, Inr False)
     | Some t \<Rightarrow>
        if task_status t \<noteq> Enabled then (n, Inr False)
        else let t' = SetDisabled t; n1 = n\<lparr>tasks := AList.update taskID t' (tasks n)\<rparr>
          in case taskMarshal (gx G) t' of None \<Rightarrow> (n1, Inl DisableSerialize)
           | Some json \<Rightarrow> (case BatchWrite (gbadger G) (edb n1) [task_row t' json, user_row t'] of
               Inl e \<Rightarrow> (n1, Inl (DisableWrite e))
             | Inr d \<Rightarrow> (on_ops (notifyOperatorsTaskOperation taskID DisableTask)
                 (drop_task (task_id t') (with_db (drop_old_row (gbadger G) t' (task_status t) d) n1)), Inr True)))"

section \<open>Start\<close>

fun load_tasks :: "'d xenv \<Rightarrow> (bytes \<times> bytes) list \<Rightarrow> (string \<times> task) list \<Rightarrow> (string \<times> task) list" where
  "load_tasks E [] ts = ts"
| "load_tasks E ((k, v) # rows) ts =
     load_tasks E rows (case FromStorageData E v of None \<Rightarrow> ts | Some t \<Rightarrow> AList.update (task_id t) t ts)"

text \<open>
  The scan of \<open>DetectAndHandleInvalidTasks\<close> over the map of tasks: what stays in memory, the updates, the stale keys,
  and how many workflows were invalid. One that cannot be serialized stays, marked as failed.
\<close>

fun detect_loop :: "'d xenv \<Rightarrow> int \<Rightarrow> (string \<times> task) list \<Rightarrow> (string \<times> task) list \<times> (bytes \<times> bytes) list \<times> bytes list \<times> nat" where
  "detect_loop E now [] = ([], [], [], 0)"
| "detect_loop E now ((i, t) # ts) = (case detect_loop E now ts of (keep, updates, stale, bad) \<Rightarrow>
     (if ValidateWithError t = None then ((i, t) # keep, updates, stale, bad)
      else let t' = SetFailed now t
        in case taskMarshal E t' of None \<Rightarrow> ((i, t') # keep, updates, stale, Suc bad)
         | Some json \<Rightarrow> (keep, [task_row t' json, (TaskUserKey t', sdecimal (status_number Failed))] @ updates,
             (if task_status t \<noteq> task_status t' then [WorkflowStorageKey (task_id t) (task_status t)] else []) @ stale,
             Suc bad)))"

definition DetectAndHandleInvalidTasks :: "'d genv \<Rightarrow> int \<Rightarrow> 'd engine \<Rightarrow> 'd engine \<times> serr option" where
  "DetectAndHandleInvalidTasks G now n = (case detect_loop (gx G) now (tasks n) of (keep, updates, stale, bad) \<Rightarrow>
     (let n1 = n\<lparr>tasks := keep\<rparr>
      in if bad = 0 then (n1, None)
         else case (if updates = [] then Inr (edb n1) else BatchWrite (gbadger G) (edb n1) updates) of
           Inl e \<Rightarrow> (n1, Some e)
         | Inr d \<Rightarrow> (with_db (fold (delete_logged (gbadger G)) stale d) n1, None)))"

text \<open>\<open>MustStart\<close> of the engine; \<open>None\<close> is its panic. The error of the scan is only logged.\<close>

definition engine_MustStart :: "'d genv \<Rightarrow> int \<Rightarrow> serr option \<Rightarrow> 'd engine \<Rightarrow> 'd engine option" where
  "engine_MustStart G now seq_err n =
     (if seq_err \<noteq> None then None
      else case GetByPrefix (gbadger G) (edb n) (WorkflowByStatusStoragePrefix Enabled) of Inl _ \<Rightarrow> None
       | Inr rows \<Rightarrow> Some (fst (DetectAndHandleInvalidTasks G now (n\<lparr>tasks := load_tasks (gx G) rows (tasks n)\<rparr>))))"

section \<open>Executions waiting in the queue\<close>

definition setExecutionStatusQueue :: "'d badger \<Rightarrow> task \<Rightarrow> string \<Rightarrow> 'd \<Rightarrow> serr + 'd" where
  "setExecutionStatusQueue B t executionID d =
     StorageSet B d (TaskTriggerKey t executionID) (sdecimal (exec_number ExecPending))"

datatype status_error = StatusStorage serr | StatusNotNumber

text \<open>\<open>strconv.Atoi\<close>, then a conversion to the 32-bit enum.\<close>

definition getExecutionStatusFromQueue :: "'d badger \<Rightarrow> task \<Rightarrow> string \<Rightarrow> 'd \<Rightarrow> status_error + exec_status" where
  "getExecutionStatusFromQueue B t executionID d = (case GetKey B d (TaskTriggerKey t executionID) of
       Inl e \<Rightarrow> Inl (StatusStorage e)
     | Inr v \<Rightarrow> (case parse_int64 v of None \<Rightarrow> Inl StatusNotNumber
         | Some i \<Rightarrow> Inr (exec_of_number (sint (word_of_int i :: 32 word)))))"

datatype get_error = GetTaskError find_error | ExecutionCorrupted | ExecutionNotFound

definition pending_index :: "'d badger \<Rightarrow> task \<Rightarrow> string \<Rightarrow> 'd \<Rightarrow> int \<times> 'd" where
  "pending_index B t executionID d =
     (let assign = (case AssignNextExecutionIndex B t d of Inl _ \<Rightarrow> (0, d) | Inr (i, d') \<Rightarrow> (i, d'))
      in case GetKey B d (PendingExecutionKey t executionID) of Inl _ \<Rightarrow> assign
       | Inr v \<Rightarrow> (case parse_int64 v of None \<Rightarrow> assign | Some i \<Rightarrow> (i, d)))"

definition GetExecution :: "'d xenv \<Rightarrow> task_status list \<Rightarrow> int \<Rightarrow> address \<Rightarrow> string \<Rightarrow> string \<Rightarrow> 'd \<Rightarrow> 'd \<times> (get_error + execution)" where
  "GetExecution E ord now user taskID executionID d = (case GetWorkflow E d ord user taskID of
       Inl e \<Rightarrow> (d, Inl (GetTaskError e))
     | Inr t \<Rightarrow> (case GetKey (xbadger E) d (TaskExecutionKey t executionID) of
         Inr raw \<Rightarrow> (d, case execUnmarshal E raw of None \<Rightarrow> Inl ExecutionCorrupted | Some x \<Rightarrow> Inr x)
       | Inl _ \<Rightarrow> (case getExecutionStatusFromQueue (xbadger E) t executionID d of Inl _ \<Rightarrow> (d, Inl ExecutionNotFound)
           | Inr st \<Rightarrow> (case pending_index (xbadger E) t executionID d of (i, d') \<Rightarrow>
               (d', Inr \<lparr>ex_id = executionID, ex_start = unix_milli now, ex_end = 0, ex_status = st, ex_error = [],
                  ex_steps = [], ex_index = i, ex_resume = [], ex_wait_reason = []\<rparr>)))))"

definition GetExecutionStatus :: "'d xenv \<Rightarrow> task_status list \<Rightarrow> address \<Rightarrow> string \<Rightarrow> string \<Rightarrow> 'd \<Rightarrow> get_error + exec_status" where
  "GetExecutionStatus E ord user taskID executionID d = (case GetWorkflow E d ord user taskID of
       Inl e \<Rightarrow> Inl (GetTaskError e)
     | Inr t \<Rightarrow> (case GetKey (xbadger E) d (TaskExecutionKey t executionID) of
         Inr raw \<Rightarrow> (case execUnmarshal E raw of None \<Rightarrow> Inl ExecutionCorrupted | Some x \<Rightarrow> Inr (ex_status x))
       | Inl _ \<Rightarrow> (case getExecutionStatusFromQueue (xbadger E) t executionID d of Inl _ \<Rightarrow> Inl ExecutionNotFound
           | Inr st \<Rightarrow> Inr st)))"

end
