(* ===== verification/Dispatch.thy ===== *)
theory Dispatch
  imports Engine
begin

text \<open>
  How executions start and resume: the notifications of operators (\<open>AggregateChecksResultWithState\<close>), the trigger
  call of a user (\<open>TriggerWorkflowWithContext\<close>), the processor of the queue (\<open>Perform\<close>), the delivery of signals and
  the sweep of expired waits (\<open>internal_trigger.go\<close>).
\<close>

section \<open>Signals and waits\<close>

record execution_state =
  remaining :: int
  still_enabled :: bool
  es_status :: string

datatype signal_call_error = BadDecision string | SignalTask find_error | SignalRefused run_error

definition SignalExecution ::
  "'d xenv \<Rightarrow> task_status list \<Rightarrow> resume_vm \<Rightarrow> int \<Rightarrow> address \<Rightarrow> string \<Rightarrow> string \<Rightarrow> string \<Rightarrow> jvalue option \<Rightarrow> 'd \<Rightarrow>
   'd \<times> (signal_call_error + execution)" where
  "SignalExecution E ord vm now user workflowID executionID dec body d =
     (if dec \<noteq> ''approve'' \<and> dec \<noteq> ''reject'' then (d, Inl (BadDecision dec))
      else case GetWorkflow E d ord user workflowID of Inl e \<Rightarrow> (d, Inl (SignalTask e))
       | Inr t \<Rightarrow> (case DeliverSignal E vm now t \<lparr>sig_execution = executionID, sig_kind = WakeExternalSignal, decision = dec,
             approver = lower_hex user, payload = body\<rparr> d of
           (d', Inl e) \<Rightarrow> (d', Inl (SignalRefused e)) | (d', Inr x) \<Rightarrow> (d', Inr x)))"

definition not_found_state :: execution_state where
  "not_found_state = \<lparr>remaining = 0, still_enabled = False, es_status = ''not_found''\<rparr>"

definition error_state :: execution_state where
  "error_state = \<lparr>remaining = 0, still_enabled = False, es_status = ''error''\<rparr>"

definition deliverChainEventWake ::
  "'d genv \<Rightarrow> task_status list \<Rightarrow> resume_vm \<Rightarrow> int \<Rightarrow> string \<Rightarrow> jvalue option \<Rightarrow> 'd engine \<Rightarrow>
   'd engine \<times> execution_state \<times> run_error option" where
  "deliverChainEventWake G ord vm now executionID event n =
     (case loadWakeSubscription (wakeCodec (gx G)) (gbadger G) (edb n) executionID of
        Inl _ \<Rightarrow> (n, not_found_state, None)
      | Inr w \<Rightarrow> (case GetWorkflowByID (gx G) (edb n) ord (w_task w) of Inl _ \<Rightarrow> (n, not_found_state, None)
          | Inr t \<Rightarrow> (case DeliverSignal (gx G) vm now t \<lparr>sig_execution = executionID, sig_kind = WakeChainEvent,
                decision = [], approver = [], payload = event\<rparr> (edb n) of
              (d, Inl e) \<Rightarrow> (with_db d n, error_state, Some e)
            | (d, Inr _) \<Rightarrow> (on_ops (deregisterInternalTrigger executionID) (with_db d n),
                \<lparr>remaining = 0, still_enabled = True, es_status = ''wake_delivered''\<rparr>, None))))"

text \<open>
  The sweep: a wait whose timeout has passed is expired; the durable state of one whose workflow is gone is removed;
  when the workflow cannot be read, it is kept.
\<close>

definition sweep_one :: "'d genv \<Rightarrow> task_status list \<Rightarrow> int \<Rightarrow> string \<times> wake \<Rightarrow> 'd engine \<Rightarrow> 'd engine" where
  "sweep_one G ord now ew n = (case ew of (executionID, w) \<Rightarrow>
     (if w_timeout w \<le> 0 \<or> unix_milli now < w_timeout w then n
      else case GetWorkflowByID (gx G) (edb n) ord (w_task w) of
        Inl TaskNotFound \<Rightarrow> with_db (gc_durable (gbadger G) executionID (edb n)) n
      | Inl TaskCorrupted \<Rightarrow> n
      | Inr t \<Rightarrow> (case ExpireWait (gx G) now t executionID (edb n) of
          (d, Inl _) \<Rightarrow> with_db d n
        | (d, Inr _) \<Rightarrow> (if w_kind w = WakeChainEvent then on_ops (deregisterInternalTrigger executionID) (with_db d n)
            else with_db d n))))"

definition sweepExpiredWaits :: "'d genv \<Rightarrow> task_status list \<Rightarrow> int \<Rightarrow> 'd engine \<Rightarrow> 'd engine" where
  "sweepExpiredWaits G ord now n = (case loadAllWakeSubscriptions (wakeCodec (gx G)) (gbadger G) (edb n) of
       Inl _ \<Rightarrow> n | Inr wakes \<Rightarrow> fold (sweep_one G ord now) wakes n)"

definition internal_trigger_task :: "string \<Rightarrow> wake \<Rightarrow> task" where
  "internal_trigger_task executionID w = \<lparr>task_id = internalTriggerTaskID executionID, task_owner = [],
     smart_wallet_address = [], task_name = [], start_at = 0, expired_at = w_timeout w, max_execution = 1,
     execution_count = 0, completed_at = 0, completion_reason = ReasonUnspecified, task_status = Enabled,
     task_trigger = Some \<lparr>trigger_name = ''await'', trigger_kind = Event (w_chain_event w)\<rparr>,
     task_nodes = [], task_edges = [], input_variables = [], last_ran_at = 0, last_validation_error = [],
     consecutive_validation_failures = 0\<rparr>"

fun pending_triggers :: "'d xenv \<Rightarrow> task_status list \<Rightarrow> (string \<times> wake) list \<Rightarrow> 'd \<Rightarrow> 'd \<times> task list" where
  "pending_triggers E ord [] d = (d, [])"
| "pending_triggers E ord ((executionID, w) # ws) d =
     (if w_kind w \<noteq> WakeChainEvent \<or> w_chain_event w = None then pending_triggers E ord ws d
      else case GetWorkflowByID E d ord (w_task w) of
        Inl TaskNotFound \<Rightarrow> pending_triggers E ord ws (gc_durable (xbadger E) executionID d)
      | Inl TaskCorrupted \<Rightarrow> pending_triggers E ord ws d
      | Inr _ \<Rightarrow> (case pending_triggers E ord ws d of (d', out) \<Rightarrow> (d', internal_trigger_task executionID w # out)))"

definition pendingChainEventTriggers :: "'d xenv \<Rightarrow> task_status list \<Rightarrow> 'd \<Rightarrow> 'd \<times> task list" where
  "pendingChainEventTriggers E ord d = (case loadAllWakeSubscriptions (wakeCodec E) (xbadger E) d of
       Inl _ \<Rightarrow> (d, []) | Inr wakes \<Rightarrow> pending_triggers E ord wakes d)"

section \<open>Notifications of operators\<close>

record notify_req =
  nt_task :: string
  nt_request_id :: string
  nt_type :: trigger_enum
  nt_output :: "jvalue option"
  nt_event :: "jvalue option"

datatype notify_error = NotifyResume run_error | NotifyEncode | NotifyEnqueue qerr | PendingKeyPanic

definition dedup_window :: int where
  "dedup_window = 5 * 60 * 1000000000"

definition evict_stale :: "int \<Rightarrow> (string \<times> int) list \<Rightarrow> (string \<times> int) list" where
  "evict_stale now = filter (\<lambda>(_, seen). \<not> dedup_window < now - seen)"

text \<open>The answer to a workflow that may not run any more.\<close>

definition stopped_state :: "int \<Rightarrow> task \<Rightarrow> execution_state" where
  "stopped_state now t = \<lparr>remaining = 0, still_enabled = False, es_status =
     (if 0 < max_execution t \<and> max_execution t \<le> execution_count t then ''exhausted''
      else if 0 < expired_at t \<and> (expired_at t div 1000) * 1000000000 < now then ''expired''
      else if 0 < start_at t \<and> unix_milli now < start_at t then ''not_started'' else ''exhausted'')\<rparr>"

definition duplicate_state :: "int \<Rightarrow> task \<Rightarrow> execution_state" where
  "duplicate_state now t = \<lparr>remaining = max 0 (max_execution t - execution_count t), still_enabled = IsRunable now t,
     es_status = ''deduplicated''\<rparr>"

definition queued_state :: "task \<Rightarrow> execution_state" where
  "queued_state t = \<lparr>remaining = (if max_execution t = 0 then -1 else max 0 (max_execution t - execution_count t - 1)),
     still_enabled = True, es_status = ''enabled''\<rparr>"

text \<open>The least of the ids of pending executions; \<open>None\<close> is the panic of a key that is too short.\<close>

fun pick_pending :: "bytes list \<Rightarrow> string \<Rightarrow> string option" where
  "pick_pending [] picked = Some picked"
| "pick_pending (k # ks) picked = (case ExecutionIdFromPendingKey k of None \<Rightarrow> None
     | Some i \<Rightarrow> pick_pending ks (if picked = [] \<or> i < picked then i else picked))"

definition pending_execution :: "'d badger \<Rightarrow> task \<Rightarrow> 'd \<Rightarrow> string option" where
  "pending_execution B t d =
     pick_pending (case GetKeyHasPrefix B d (PendingExecutionPrefix (task_id t)) of Inl _ \<Rightarrow> [] | Inr ks \<Rightarrow> ks) []"

definition JobTypeExecuteTask :: string where
  "JobTypeExecuteTask = ''execute_task''"

text \<open>
  The trigger of a runnable workflow: a pending execution is taken up, or a new one (\<open>fresh\<close>) is recorded, and a job
  is queued.
\<close>

definition queue_trigger ::
  "'d genv \<Rightarrow> qerr + uint64 \<Rightarrow> string \<Rightarrow> task \<Rightarrow> notify_req \<Rightarrow> 'd engine \<Rightarrow> 'd engine \<times> execution_state \<times> notify_error option" where
  "queue_trigger G seq fresh t p n = (case pending_execution (gbadger G) t (edb n) of
       None \<Rightarrow> (n, error_state, Some PendingKeyPanic)
     | Some picked \<Rightarrow>
        (let executionID = (if picked \<noteq> [] then picked else fresh);
             n1 = (if picked \<noteq> [] then n else case setExecutionStatusQueue (gbadger G) t fresh (edb n) of
                     Inl _ \<Rightarrow> n | Inr d \<Rightarrow> with_db d n)
         in case dataMarshal G \<lparr>qd_type = nt_type p, qd_output = nt_output p, qd_execution = executionID, qd_inputs = []\<rparr> of
              None \<Rightarrow> (n1, error_state, Some NotifyEncode)
            | Some data \<Rightarrow> (case Enqueue (gq G) (equeue n1) seq JobTypeExecuteTask (nt_task p) data of
                (q, Inl e) \<Rightarrow> (n1\<lparr>equeue := q\<rparr>, error_state, Some (NotifyEnqueue e))
              | (q, Inr _) \<Rightarrow> (n1\<lparr>equeue := q\<rparr>, queued_state t, None))))"

text \<open>From the lookup of the workflow on: suppression of duplicates, then the test whether it may run.\<close>

definition notify_task ::
  "'d genv \<Rightarrow> int \<Rightarrow> qerr + uint64 \<Rightarrow> string \<Rightarrow> task \<Rightarrow> notify_req \<Rightarrow> 'd engine \<Rightarrow> 'd engine \<times> execution_state \<times> notify_error option" where
  "notify_task G now seq fresh t p n =
     (let rid = nt_request_id p;
          seen = (if rid = [] then processedTriggerIDs n else evict_stale now (processedTriggerIDs n));
          run = (\<lambda>n'. if \<not> IsRunable now t then (n', stopped_state now t, None) else queue_trigger G seq fresh t p n')
      in if rid = [] then run n
         else if map_of seen rid \<noteq> None then (n\<lparr>processedTriggerIDs := seen\<rparr>, duplicate_state now t, None)
         else run (n\<lparr>processedTriggerIDs := AList.update rid now seen\<rparr>))"

definition AggregateChecksResultWithState ::
  "'d genv \<Rightarrow> task_status list \<Rightarrow> resume_vm \<Rightarrow> int \<Rightarrow> qerr + uint64 \<Rightarrow> string \<Rightarrow> string \<Rightarrow> notify_req \<Rightarrow> 'd engine \<Rightarrow>
   'd engine \<times> execution_state \<times> notify_error option" where
  "AggregateChecksResultWithState G ord vm now seq fresh address p n =
     (let n0 = on_ops (on_operator address (track_task (nt_task p))) n
      in case parseInternalTriggerTaskID (nt_task p) of
           Some executionID \<Rightarrow> (case deliverChainEventWake G ord vm now executionID (nt_event p) n0 of
             (n', st, e) \<Rightarrow> (n', st, map_option NotifyResume e))
         | None \<Rightarrow> (case map_of (tasks n0) (nt_task p) of
             Some t \<Rightarrow> notify_task G now seq fresh t p n0
           | None \<Rightarrow> (case GetWorkflowByID (gx G) (edb n0) ord (nt_task p) of
               Inl _ \<Rightarrow> ((on_ops (on_operator address (untrack_task (nt_task p))) n0)
                   \<lparr>processedTriggerIDs := filter (\<lambda>(i, _). \<not> prefix (nt_task p @ '':'') i) (processedTriggerIDs n0)\<rparr>,
                   not_found_state, None)
             | Inr t \<Rightarrow> notify_task G now seq fresh t p (put_task t n0))))"

section \<open>The trigger call\<close>

record trigger_req =
  rq_task :: string
  rq_type :: trigger_enum
  rq_blocking :: bool
  rq_output :: "jvalue option"
  rq_inputs :: jobject

datatype trigger_error = BadTaskId | TriggerTask find_error | TaskIsNotRunnable | TriggerLease string | ManualInvalid string
  | TriggerIndex serr | TriggerStore serr | TriggerRun run_error | TriggerEncode | TriggerEnqueue qerr

datatype trigger_resp = TriggerPending string | TriggerFinished execution

definition TaskIDLength :: nat where
  "TaskIDLength = 26"

definition ValidateTaskId :: "string \<Rightarrow> bool" where
  "ValidateTaskId i \<longleftrightarrow> length i = TaskIDLength"

text \<open>
  A block trigger that does not block: the execution is recorded with its index and left for the operator to report.
\<close>

definition precreate_execution :: "'d badger \<Rightarrow> task \<Rightarrow> string \<Rightarrow> 'd \<Rightarrow> 'd \<times> (trigger_error + trigger_resp)" where
  "precreate_execution B t preExecID d = (case AssignNextExecutionIndex B t d of Inl e \<Rightarrow> (d, Inl (TriggerIndex e))
     | Inr (i, d1) \<Rightarrow> (case setExecutionStatusQueue B t preExecID d1 of Inl e \<Rightarrow> (d1, Inl (TriggerStore e))
       | Inr d2 \<Rightarrow> (case StorageSet B d2 (PendingExecutionKey t preExecID) (sdecimal i) of Inl e \<Rightarrow> (d2, Inl (TriggerStore e))
         | Inr d3 \<Rightarrow> (d3, Inr (TriggerPending preExecID)))))"

text \<open>A call that blocks: the run, then the removal of its pending mark and a second write of the execution.\<close>

definition run_blocking ::
  "'d xenv \<Rightarrow> int \<Rightarrow> int \<Rightarrow> task \<Rightarrow> string \<Rightarrow> run_outcome \<Rightarrow> 'd \<Rightarrow> 'd \<times> (trigger_error + trigger_resp)" where
  "run_blocking E t0 t1 t executionID out d = (case runTaskWithBudgetLease E t0 t1 t executionID out d of
       (d1, Inl e) \<Rightarrow> (d1, Inl (TriggerRun e))
     | (d1, Inr x) \<Rightarrow>
        (let d2 = delete_logged (xbadger E) (TaskTriggerKey t executionID) d1
         in (case execMarshal E x of None \<Rightarrow> d2
             | Some b \<Rightarrow> (case StorageSet (xbadger E) d2 (TaskExecutionKey t (ex_id x)) b of Inl _ \<Rightarrow> d2 | Inr d3 \<Rightarrow> d3),
             Inr (TriggerFinished x))))"

text \<open>
  \<open>lease\<close> is the error of the budget lease, \<open>manual\<close> that of the validation of manual trigger data, \<open>out\<close> the outcome
  of a blocking run.
\<close>

definition TriggerWorkflow ::
  "'d genv \<Rightarrow> task_status list \<Rightarrow> int \<Rightarrow> int \<Rightarrow> qerr + uint64 \<Rightarrow> string \<Rightarrow> string option \<Rightarrow> string option \<Rightarrow> run_outcome \<Rightarrow>
   address \<Rightarrow> trigger_req \<Rightarrow> 'd engine \<Rightarrow> 'd engine \<times> (trigger_error + trigger_resp)" where
  "TriggerWorkflow G ord t0 t1 seq fresh lease manual out user p n =
     (if \<not> ValidateTaskId (rq_task p) then (n, Inl BadTaskId)
      else case GetWorkflow (gx G) (edb n) ord user (rq_task p) of Inl e \<Rightarrow> (n, Inl (TriggerTask e))
       | Inr t \<Rightarrow>
          if \<not> OwnedBy t user then (n, Inl (TriggerTask TaskNotFound))
          else if \<not> IsRunable t0 t then (n, Inl TaskIsNotRunnable)
          else if lease \<noteq> None then (n, Inl (TriggerLease (the lease)))
          else if rq_type p = TriggerBlock \<and> \<not> rq_blocking p
          then (case precreate_execution (gbadger G) t fresh (edb n) of (d, r) \<Rightarrow> (with_db d n, r))
          else if rq_type p = TriggerManual \<and> manual \<noteq> None then (n, Inl (ManualInvalid (the manual)))
          else (case setExecutionStatusQueue (gbadger G) t fresh (edb n) of Inl e \<Rightarrow> (n, Inl (TriggerStore e))
            | Inr d \<Rightarrow>
               if rq_blocking p then (case run_blocking (gx G) t0 t1 t fresh out d of (d', r) \<Rightarrow> (with_db d' n, r))
               else (case dataMarshal G \<lparr>qd_type = rq_type p, qd_output = rq_output p, qd_execution = fresh, qd_inputs = rq_inputs p\<rparr> of
                   None \<Rightarrow> (with_db d n, Inl TriggerEncode)
                 | Some data \<Rightarrow> (case Enqueue (gq G) (equeue (with_db d n)) seq JobTypeExecuteTask (rq_task p) data of
                     (q, Inl e) \<Rightarrow> ((with_db d n)\<lparr>equeue := q\<rparr>, Inl (TriggerEnqueue e))
                   | (q, Inr _) \<Rightarrow> ((with_db d n)\<lparr>equeue := q\<rparr>, Inr (TriggerPending fresh))))))"

section \<open>The processor of the queue\<close>

text \<open>\<open>text\<close> renders a load error; the answer that marks a job as orphaned depends on the words in it.\<close>

definition load_message :: "string \<Rightarrow> string \<Rightarrow> string" where
  "load_message txt name =
     (if contains txt ''key not found'' \<or> contains txt ''not found''
      then ''task not found in storage: '' @ name @ '' (task may have been deleted or storage key is incorrect)''
      else if contains txt ''unmarshal'' \<or> contains txt ''json''
      then ''task data corruption in storage: '' @ name @ '' (stored data is invalid JSON)''
      else ''storage error loading task '' @ name @ '': '' @ txt)"

definition decode_message :: "task \<Rightarrow> job \<Rightarrow> string" where
  "decode_message t j = ''error decode job payload when executing task: '' @ task_id t @ '' with job id '' @ format_uint64 (jid j)"

text \<open>\<open>lease\<close> is the retryable error of the budget lease: its delay and its text.\<close>

definition Perform ::
  "'d genv \<Rightarrow> (load_error \<Rightarrow> string) \<Rightarrow> (run_error \<Rightarrow> string) \<Rightarrow> int \<Rightarrow> int \<Rightarrow> (int \<times> string) option \<Rightarrow> run_outcome \<Rightarrow> job \<Rightarrow> 'd \<Rightarrow>
   'd \<times> perform_result" where
  "Perform G ltext rtext t0 t1 lease out j d = (case GetTask (gx G) d (jname j) of
       Inl e \<Rightarrow> (d, PerfErr (load_message (ltext e) (jname j)))
     | Inr t \<Rightarrow> (case dataUnmarshal G (jdata j) of None \<Rightarrow> (d, PerfErr (decode_message t j))
         | Some q \<Rightarrow> (case lease of Some (delay, msg) \<Rightarrow> (d, PerfRetry delay msg)
           | None \<Rightarrow> (case runTaskWithBudgetLease (gx G) t0 t1 t (qd_execution q) out d of
               (d', Inl e) \<Rightarrow> (d', PerfErr (rtext e))
             | (d', Inr _) \<Rightarrow> ((if qd_execution q \<noteq> [] then delete_logged (gbadger G) (TaskTriggerKey t (qd_execution q)) d' else d'),
                 PerfOk)))))"

end
