(* ===== verification/EngineStore.thy ===== *)
theory EngineStore
  imports Dispatch
begin

text \<open>
  What the handlers of the engine do to the rows of the store, on a store on which nothing fails: which keys belong to
  workflows, that a status change moves a row, and that everything else leaves the workflows alone.
\<close>

section \<open>A store on which nothing fails\<close>

definition store_total :: "'d badger \<Rightarrow> bool" where
  "store_total B \<longleftrightarrow> badger_reliable B \<and> (\<forall>d k. \<exists>t. txn_delete B d k = Inr t)"

lemma total_reliable: "store_total B \<Longrightarrow> badger_reliable B"
  by (simp add: store_total_def)

lemma total_badger: "store_total B \<Longrightarrow> badger_ok B"
  by (simp add: store_total_def badger_reliable_def)

lemma mem_badger_total: "store_total mem_badger"
  by (simp add: store_total_def mem_badger_reliable) (simp add: mem_badger_def)

lemma total_GetKey:
  "store_total B \<Longrightarrow> GetKey B d k = (case rows_of B d k of None \<Rightarrow> Inl ErrKeyNotFound | Some v \<Rightarrow> Inr v)"
  by (rule reliable_GetKey [OF total_reliable])

lemma total_Update:
  assumes "store_total B" and "f d = Inr t"
  shows "\<exists>d'. Update B d f = Inr d' \<and> rows_of B d' = rows_of B t"
proof -
  from assms(1) obtain d' where c: "txn_commit B d t = Inr d'" unfolding store_total_def badger_reliable_def by blast
  with assms rows_of_commit [OF total_badger [OF assms(1)] c] show ?thesis
    by (auto simp: Update_def store_total_def badger_reliable_def)
qed

lemma total_Set:
  assumes "store_total B" shows "\<exists>d'. StorageSet B d k v = Inr d' \<and> rows_of B d' = (rows_of B d)(k \<mapsto> v)"
proof -
  from assms obtain t where t: "txn_set B d k v = Inr t" unfolding store_total_def badger_reliable_def by blast
  with total_Update [OF assms, of "\<lambda>txn. txn_set B txn k v" d t] rows_of_set [OF total_badger [OF assms] t]
  show ?thesis by (simp add: StorageSet_def)
qed

lemma total_Delete:
  assumes "store_total B" shows "\<exists>d'. StorageDelete B d k = Inr d' \<and> rows_of B d' = (rows_of B d)(k := None)"
proof -
  from assms obtain t where t: "txn_delete B d k = Inr t" unfolding store_total_def by blast
  with total_Update [OF assms, of "\<lambda>txn. txn_delete B txn k" d t] rows_of_delete [OF total_badger [OF assms] t]
  show ?thesis by (simp add: StorageDelete_def)
qed

lemma rows_delete_logged: "store_total B \<Longrightarrow> rows_of B (delete_logged B k d) = (rows_of B d)(k := None)"
  using total_Delete [of B d k] by (auto simp: delete_logged_def)

lemma total_BatchWrite:
  assumes "store_total B"
  shows "\<exists>d'. BatchWrite B d us = Inr d' \<and> rows_of B d' = rows_of B d ++ map_of (rev us)"
  using reliable_BatchWrite [OF total_reliable [OF assms], of d us] by metis

lemma rows_write_logged: "store_total B \<Longrightarrow> rows_of B (write_logged B us d) = rows_of B d ++ map_of (rev us)"
  using total_BatchWrite [of B d us] by (auto simp: write_logged_def)

lemma rows_drop_old: "store_total B \<Longrightarrow> rows_of B (drop_old_row B t old d) =
    (if task_status t \<noteq> old then (rows_of B d)(WorkflowStorageKey (task_id t) old := None) else rows_of B d)"
  by (simp add: drop_old_row_def rows_delete_logged)

section \<open>Keys\<close>

text \<open>The keys of workflows and of the index by owner; every other row is beside them.\<close>

definition workflow_key :: "bytes \<Rightarrow> bool" where
  "workflow_key k \<longleftrightarrow> prefix ''t:'' k \<or> prefix ''u:'' k"

named_theorems beside

lemma beside_keys [beside]:
  "\<not> workflow_key (checkpointKey x)" "\<not> workflow_key (wakeSubscriptionKey x)"
  "\<not> workflow_key (TaskExecutionKey t x)" "\<not> workflow_key (TaskTriggerKey t x)"
  "\<not> workflow_key (PendingExecutionKey t x)" "\<not> workflow_key (ExecutionIndexCounterKey x)"
  "\<not> workflow_key (getJobKey p s j)"
  by (simp_all add: workflow_key_def checkpointKey_def wakeSubscriptionKey_def wakeSubscriptionPrefix_def TaskExecutionKey_def
      TaskTriggerKey_def PendingExecutionKey_def ExecutionIndexCounterKey_def join_def getJobKey_def getQueueKeyPrefix_def)

lemma workflow_keys [simp]: "workflow_key (WorkflowStorageKey i s)" "workflow_key (TaskUserKey t)"
  by (simp_all add: workflow_key_def WorkflowStorageKey_def TaskUserKey_def)

lemma status_key_inject:
  "s \<in> set task_statuses \<Longrightarrow> s' \<in> set task_statuses \<Longrightarrow> WorkflowStatusToStorageKey s = WorkflowStatusToStorageKey s' \<longleftrightarrow> s = s'"
  by (auto simp: task_statuses_def WorkflowStatusToStorageKey_def)

lemma WorkflowStorageKey_inject:
  assumes "s \<in> set task_statuses" "s' \<in> set task_statuses"
  shows "WorkflowStorageKey i s = WorkflowStorageKey j s' \<longleftrightarrow> i = j \<and> s = s'"
  using status_key_inject [OF assms] join_inject [of "WorkflowStatusToStorageKey s" "WorkflowStatusToStorageKey s'" i j]
  by (auto simp: WorkflowStorageKey_def)

lemma status_not_user_key [simp]: "WorkflowStorageKey i s \<noteq> TaskUserKey t" "TaskUserKey t \<noteq> WorkflowStorageKey i s"
  by (simp_all add: WorkflowStorageKey_def TaskUserKey_def join_def)

text \<open>Ids without a colon can be read off the end of an index key.\<close>

lemma last_part: "CHR '':'' \<notin> set c \<Longrightarrow> takeWhile (\<lambda>x. x \<noteq> CHR '':'') (rev (join a (join b c))) = rev c"
  by (simp add: join_def takeWhile_append)

lemma TaskUserKey_id:
  assumes "TaskUserKey t = TaskUserKey t'" "CHR '':'' \<notin> set (task_id t)" "CHR '':'' \<notin> set (task_id t')"
  shows "task_id t = task_id t'"
proof -
  have "rev (task_id u) = takeWhile (\<lambda>x. x \<noteq> CHR '':'') (rev (TaskUserKey u))" if "CHR '':'' \<notin> set (task_id u)" for u
    using last_part [OF that, of "join ''u'' (to_lower (task_owner u))" "to_lower (smart_wallet_address u)"]
    by (simp add: TaskUserKey_def Key_def join_def)
  from this [OF assms(2)] this [OF assms(3)] assms(1) have "rev (task_id t) = rev (task_id t')" by simp
  then show ?thesis by simp
qed

section \<open>The workflows in the store\<close>

text \<open>
  \<open>stored\<close> is the workflow that a row holds. A well-formed store has at most one status row per workflow, the row holds
  the workflow its key names, and the index agrees.
\<close>

definition stored :: "'d xenv \<Rightarrow> 'd \<Rightarrow> string \<Rightarrow> task_status \<Rightarrow> task option" where
  "stored E d i s = (case rows_of (xbadger E) d (WorkflowStorageKey i s) of None \<Rightarrow> None | Some v \<Rightarrow> FromStorageData E v)"

definition wf_rows :: "'d xenv \<Rightarrow> 'd \<Rightarrow> bool" where
  "wf_rows E d \<longleftrightarrow> (\<forall>i. \<forall>s\<in>set task_statuses. \<forall>v. rows_of (xbadger E) d (WorkflowStorageKey i s) = Some v \<longrightarrow>
     CHR '':'' \<notin> set i \<and>
     (\<exists>t. FromStorageData E v = Some t \<and> task_id t = i \<and> task_status t = s \<and>
       rows_of (xbadger E) d (TaskUserKey t) = Some (sdecimal (status_number s))) \<and>
     (\<forall>s'\<in>set task_statuses. s' \<noteq> s \<longrightarrow> rows_of (xbadger E) d (WorkflowStorageKey i s') = None))"

lemma wf_rowsD:
  assumes "wf_rows E d" "s \<in> set task_statuses" "rows_of (xbadger E) d (WorkflowStorageKey i s) = Some v"
  obtains t where "CHR '':'' \<notin> set i" "FromStorageData E v = Some t" "task_id t = i" "task_status t = s"
    "rows_of (xbadger E) d (TaskUserKey t) = Some (sdecimal (status_number s))"
    "\<And>s'. s' \<in> set task_statuses \<Longrightarrow> s' \<noteq> s \<Longrightarrow> rows_of (xbadger E) d (WorkflowStorageKey i s') = None"
  using assms(1) [unfolded wf_rows_def, rule_format, OF assms(2,3)] that by blast

text \<open>The life of a workflow, as the store shows it.\<close>

definition life :: "'d xenv \<Rightarrow> 'd \<Rightarrow> string \<Rightarrow> task_status option" where
  "life E d i = List.find (\<lambda>s. rows_of (xbadger E) d (WorkflowStorageKey i s) \<noteq> None) task_statuses"

definition same_workflows :: "'d badger \<Rightarrow> 'd \<Rightarrow> 'd \<Rightarrow> bool" where
  "same_workflows B d d' \<longleftrightarrow> (\<forall>k. workflow_key k \<longrightarrow> rows_of B d' k = rows_of B d k)"

lemma same_workflows_refl [simp]: "same_workflows B d d"
  by (simp add: same_workflows_def)

lemma same_workflows_trans [trans]: "same_workflows B d e \<Longrightarrow> same_workflows B e f \<Longrightarrow> same_workflows B d f"
  by (simp add: same_workflows_def)

lemma same_wf_rows: "same_workflows (xbadger E) d d' \<Longrightarrow> wf_rows E d' = wf_rows E d"
  by (simp add: wf_rows_def same_workflows_def)

lemma same_life: "same_workflows (xbadger E) d d' \<Longrightarrow> life E d' = life E d"
  by (simp add: life_def same_workflows_def fun_eq_iff)

lemma life_None: "life E d i = None \<longleftrightarrow> (\<forall>s\<in>set task_statuses. rows_of (xbadger E) d (WorkflowStorageKey i s) = None)"
  by (auto simp: life_def find_None_iff)

lemma life_Some:
  assumes "wf_rows E d"
  shows "life E d i = Some s \<longleftrightarrow> s \<in> set task_statuses \<and> rows_of (xbadger E) d (WorkflowStorageKey i s) \<noteq> None"
proof
  assume "life E d i = Some s"
  then show "s \<in> set task_statuses \<and> rows_of (xbadger E) d (WorkflowStorageKey i s) \<noteq> None"
    by (force simp: life_def find_Some_iff)
next
  assume s: "s \<in> set task_statuses \<and> rows_of (xbadger E) d (WorkflowStorageKey i s) \<noteq> None"
  then have "life E d i \<noteq> None" by (auto simp: life_None)
  then obtain s' where s': "life E d i = Some s'" by blast
  then have "s' \<in> set task_statuses" "rows_of (xbadger E) d (WorkflowStorageKey i s') \<noteq> None"
    by (force simp: life_def find_Some_iff)+
  then obtain v where v: "s' \<in> set task_statuses" "rows_of (xbadger E) d (WorkflowStorageKey i s') = Some v" by blast
  have "s' = s"
  proof (rule ccontr)
    assume "s' \<noteq> s"
    with wf_rowsD [OF assms v] s show False by metis
  qed
  with s' show "life E d i = Some s" by simp
qed

lemma life_rows:
  assumes "wf_rows E d" "life E d i = Some s"
  obtains v t where "rows_of (xbadger E) d (WorkflowStorageKey i s) = Some v" "FromStorageData E v = Some t"
    "task_id t = i" "task_status t = s" "CHR '':'' \<notin> set i" "s \<in> set task_statuses"
proof -
  from assms obtain v where s: "s \<in> set task_statuses" and v: "rows_of (xbadger E) d (WorkflowStorageKey i s) = Some v"
    using life_Some [OF assms(1)] by blast
  from assms(1) [unfolded wf_rows_def, rule_format, OF s v] obtain t
    where "FromStorageData E v = Some t" "task_id t = i" "task_status t = s" "CHR '':'' \<notin> set i" by blast
  with that s v show thesis by blast
qed

text \<open>Looking a workflow up gives the one in the store, whatever the order in which the statuses are tried.\<close>

lemma find_none:
  "store_total (xbadger E) \<Longrightarrow> \<forall>s\<in>set ord. rows_of (xbadger E) d (WorkflowStorageKey i s) = None \<Longrightarrow>
   GetWorkflowByID E d ord i = Inl TaskNotFound"
  by (induction ord) (auto simp: total_GetKey)

lemma find_some:
  assumes "store_total (xbadger E)" "wf_rows E d" "set ord \<subseteq> set task_statuses" "s \<in> set ord"
    and v: "rows_of (xbadger E) d (WorkflowStorageKey i s) = Some v" "FromStorageData E v = Some t"
  shows "GetWorkflowByID E d ord i = Inr t"
  using assms(3,4)
proof (induction ord)
  case (Cons a ord)
  show ?case
  proof (cases "a = s")
    case True
    with v show ?thesis by (simp add: total_GetKey [OF assms(1)])
  next
    case False
    with Cons.prems have "s \<in> set ord" "a \<in> set task_statuses" "s \<in> set task_statuses" by auto
    moreover from wf_rowsD [OF assms(2) this(3) v(1)] this(2) False
    have "rows_of (xbadger E) d (WorkflowStorageKey i a) = None" by metis
    ultimately show ?thesis using Cons by (simp add: total_GetKey [OF assms(1)])
  qed
qed simp

lemma find_life:
  assumes "store_total (xbadger E)" "wf_rows E d" "set ord = set task_statuses"
  shows "GetWorkflowByID E d ord i = (case life E d i of None \<Rightarrow> Inl TaskNotFound | Some s \<Rightarrow> Inr (the (stored E d i s)))"
proof (cases "life E d i")
  case None
  moreover from this assms(3) have "\<forall>s\<in>set ord. rows_of (xbadger E) d (WorkflowStorageKey i s) = None"
    by (simp add: life_None)
  ultimately show ?thesis using find_none [OF assms(1), of ord d i] by simp
next
  case (Some s)
  from life_rows [OF assms(2) this] obtain v t where
    "rows_of (xbadger E) d (WorkflowStorageKey i s) = Some v" "FromStorageData E v = Some t" "s \<in> set task_statuses" .
  with Some find_some [OF assms(1,2), of ord s i v t] assms(3) show ?thesis by (simp add: stored_def)
qed

lemma found_row:
  assumes "store_total (xbadger E)" "wf_rows E d" "set ord = set task_statuses" "GetWorkflowByID E d ord i = Inr t"
  obtains v where "life E d i = Some (task_status t)" "task_id t = i" "task_status t \<in> set task_statuses"
    "rows_of (xbadger E) d (WorkflowStorageKey i (task_status t)) = Some v" "FromStorageData E v = Some t"
    "CHR '':'' \<notin> set i"
proof -
  from find_life [OF assms(1-3), of i] assms(4) obtain s where s: "life E d i = Some s" and t: "t = the (stored E d i s)"
    by (auto split: option.splits)
  from life_rows [OF assms(2) s] obtain v u where
    "rows_of (xbadger E) d (WorkflowStorageKey i s) = Some v" "FromStorageData E v = Some u" "task_id u = i"
    "task_status u = s" "CHR '':'' \<notin> set i" "s \<in> set task_statuses" .
  with s t that show thesis by (simp add: stored_def)
qed

lemma find_same:
  assumes "same_workflows (xbadger E) d d'" "store_total (xbadger E)"
  shows "GetWorkflowByID E d' ord i = GetWorkflowByID E d ord i"
  using assms(1) by (induction ord) (auto simp: total_GetKey [OF assms(2)] same_workflows_def split: option.splits)

section \<open>Moving a row\<close>

text \<open>\<open>d'\<close> holds the workflow \<open>t\<close>, whose status was \<open>old\<close>; its other rows are as in \<open>d\<close>.\<close>

definition moved :: "'d badger \<Rightarrow> 'd \<Rightarrow> task \<Rightarrow> task_status \<Rightarrow> bytes \<Rightarrow> 'd \<Rightarrow> bool" where
  "moved B d t old json d' \<longleftrightarrow> (\<forall>k. workflow_key k \<longrightarrow> rows_of B d' k =
     (if k = WorkflowStorageKey (task_id t) (task_status t) then Some json
      else if k = TaskUserKey t then Some (sdecimal (status_number (task_status t)))
      else if k = WorkflowStorageKey (task_id t) old then None else rows_of B d k))"

lemma marshalled:
  "xenv_ok E \<Longrightarrow> taskMarshal E t = Some json \<Longrightarrow> task_id t \<noteq> [] \<Longrightarrow> FromStorageData E json = Some t"
  by (simp add: xenv_ok_def FromStorageData_def EnsureInitialized_def guardE_def)

lemma loaded_id: "FromStorageData E v = Some t \<Longrightarrow> task_id t \<noteq> []"
  by (auto simp: FromStorageData_def EnsureInitialized_def guardE_def split: option.splits sum.splits if_splits)

text \<open>
  The core of every status change: \<open>old\<close> is the only status under which the workflow may have had a row, and the row of
  another workflow is not touched because the index key carries the id.
\<close>

lemma moved_wf:
  assumes "xenv_ok E" "wf_rows E d" "moved (xbadger E) d t old json d'" "taskMarshal E t = Some json"
    and t: "task_id t \<noteq> []" "CHR '':'' \<notin> set (task_id t)" "task_status t \<in> set task_statuses" "old \<in> set task_statuses"
    and only: "\<And>s. s \<in> set task_statuses \<Longrightarrow> s \<noteq> old \<Longrightarrow> rows_of (xbadger E) d (WorkflowStorageKey (task_id t) s) = None"
  shows "wf_rows E d' \<and> life E d' = (life E d)(task_id t \<mapsto> task_status t)"
proof -
  note key = WorkflowStorageKey_inject
  have r: "rows_of (xbadger E) d' (WorkflowStorageKey i s) = (if i = task_id t then (if s = task_status t then Some json else None)
      else rows_of (xbadger E) d (WorkflowStorageKey i s))" if "s \<in> set task_statuses" for i s
    using assms(3) [unfolded moved_def, rule_format, OF workflow_keys(1), of i s] only [OF that] key [OF that t(3), of i "task_id t"]
      key [OF that t(4), of i "task_id t"] by (cases "s = old") auto
  have u: "rows_of (xbadger E) d' (TaskUserKey x) = rows_of (xbadger E) d (TaskUserKey x)"
    if "CHR '':'' \<notin> set (task_id x)" "task_id x \<noteq> task_id t" for x
    using assms(3) [unfolded moved_def, rule_format, OF workflow_keys(2), of x] TaskUserKey_id [OF _ that(1) t(2)] that(2) by auto
  have "wf_rows E d'"
    unfolding wf_rows_def
  proof (intro allI ballI impI)
    fix i s v assume s: "s \<in> set task_statuses" and v: "rows_of (xbadger E) d' (WorkflowStorageKey i s) = Some v"
    show "CHR '':'' \<notin> set i \<and>
       (\<exists>t. FromStorageData E v = Some t \<and> task_id t = i \<and> task_status t = s \<and>
         rows_of (xbadger E) d' (TaskUserKey t) = Some (sdecimal (status_number s))) \<and>
       (\<forall>s'\<in>set task_statuses. s' \<noteq> s \<longrightarrow> rows_of (xbadger E) d' (WorkflowStorageKey i s') = None)"
    proof (cases "i = task_id t")
      case True
      with v r [OF s] have "s = task_status t" "v = json" by (auto split: if_splits)
      moreover have "rows_of (xbadger E) d' (TaskUserKey t) = Some (sdecimal (status_number (task_status t)))"
        using assms(3) by (simp add: moved_def)
      ultimately show ?thesis using True t marshalled [OF assms(1,4) t(1)] by (simp add: r)
    next
      case False
      with v r [OF s] have "rows_of (xbadger E) d (WorkflowStorageKey i s) = Some v" by simp
      from wf_rowsD [OF assms(2) s this] obtain x where "CHR '':'' \<notin> set i" "FromStorageData E v = Some x" "task_id x = i"
        "task_status x = s" "rows_of (xbadger E) d (TaskUserKey x) = Some (sdecimal (status_number s))"
        "\<And>s'. s' \<in> set task_statuses \<Longrightarrow> s' \<noteq> s \<Longrightarrow> rows_of (xbadger E) d (WorkflowStorageKey i s') = None" by metis
      with False u [of x] show ?thesis by (simp add: r)
    qed
  qed
  moreover have "life E d' i = ((life E d)(task_id t \<mapsto> task_status t)) i" for i
  proof (cases "i = task_id t")
    case True
    then show ?thesis using life_Some [OF calculation, of i "task_status t"] r [OF t(3), of i] t(3) by simp
  next
    case False
    then show ?thesis by (simp add: life_def) (rule find_cong, simp_all add: r)
  qed
  ultimately show ?thesis by (simp add: fun_eq_iff)
qed

lemma batch_lookup:
  assumes "\<forall>(k, v)\<in>set pre \<union> set post. \<not> workflow_key k" "workflow_key k"
  shows "(m ++ map_of (rev (pre @ [task_row t json, user_row t] @ post))) k =
    (if k = WorkflowStorageKey (task_id t) (task_status t) then Some json
     else if k = TaskUserKey t then Some (sdecimal (status_number (task_status t))) else m k)"
proof -
  have n: "map_of (rev xs) k = None" if "\<forall>(k, v)\<in>set xs. \<not> workflow_key k" for xs :: "(bytes \<times> bytes) list"
    using that assms(2) by (auto simp: map_of_eq_None_iff)
  have "map_of (rev pre) k = None" "map_of (rev post) k = None" using n [of pre] n [of post] assms(1) by blast+
  then show ?thesis by (auto simp: map_add_def task_row_def user_row_def split: option.splits)
qed

lemma moved_batch:
  assumes "store_total B" "\<forall>(k, v)\<in>set pre \<union> set post. \<not> workflow_key k"
    and "rows_of B d1 = rows_of B d ++ map_of (rev (pre @ [task_row t json, user_row t] @ post))"
    and "task_status t \<in> set task_statuses" "old \<in> set task_statuses"
  shows "moved B d t old json (drop_old_row B t old d1)"
  using batch_lookup [OF assms(2), of _ "rows_of B d" t json] assms(4,5)
  by (auto simp: moved_def rows_drop_old [OF assms(1)] assms(3) WorkflowStorageKey_inject)

end
