(* ===== verification/EngineLife.thy ===== *)
theory EngineLife
  imports EngineStore
begin

text \<open>
  The life of a workflow: an abstract specification of the changes of status that the engine may make, and the proof
  that each handler, on a well-formed store, makes only those.
\<close>

section \<open>The specification\<close>

inductive life_change :: "(string \<rightharpoonup> task_status) \<Rightarrow> (string \<rightharpoonup> task_status) \<Rightarrow> bool" where
  stay: "life_change m m"
| created: "m i = None \<Longrightarrow> life_change m (m(i \<mapsto> Enabled))"
| enabled: "m i = Some Disabled \<Longrightarrow> life_change m (m(i \<mapsto> Enabled))"
| disabled: "m i = Some Enabled \<Longrightarrow> life_change m (m(i \<mapsto> Disabled))"
| failed: "m i = Some Enabled \<Longrightarrow> life_change m (m(i \<mapsto> Failed))"
| completed: "m i = Some s \<Longrightarrow> life_change m (m(i \<mapsto> Completed))"
| deleted: "m i = Some s \<Longrightarrow> s \<noteq> Running \<Longrightarrow> life_change m (m(i := None))"

declare life_change.intros [intro]

definition terminal :: "task_status \<Rightarrow> bool" where
  "terminal s \<longleftrightarrow> s = Completed \<or> s = Failed"

lemma life_change_terminal:
  assumes "life_change m m'" "m i = Some s" "terminal s"
  shows "m' i = None \<or> (\<exists>s'. m' i = Some s' \<and> terminal s')"
  using assms by cases (auto simp: terminal_def)

lemma life_change_keep: "m i = Some s \<Longrightarrow> life_change m (m(i \<mapsto> s))"
  using life_change.stay [of m] by (simp add: fun_upd_idem)

section \<open>What leaves the workflows alone\<close>

lemma same_delete [beside]: "store_total B \<Longrightarrow> \<not> workflow_key k \<Longrightarrow> same_workflows B d (delete_logged B k d)"
  by (auto simp: same_workflows_def rows_delete_logged)

lemma same_set:
  assumes "store_total B" "\<not> workflow_key k" "StorageSet B d k v = Inr d'" shows "same_workflows B d d'"
  using total_Set [OF assms(1), of d k v] assms(2,3) by (auto simp: same_workflows_def)

lemma map_of_beside:
  assumes "\<forall>(k, v)\<in>set us. \<not> workflow_key k" "workflow_key k" shows "map_of (rev us) k = None"
  using assms by (auto simp: map_of_eq_None_iff)

lemma same_write:
  assumes "store_total B" "\<forall>(k, v)\<in>set us. \<not> workflow_key k" "BatchWrite B d us = Inr d'" shows "same_workflows B d d'"
  using total_BatchWrite [OF assms(1), of d us] assms(3) map_of_beside [OF assms(2)]
  by (auto simp: same_workflows_def map_add_def)

lemma same_index:
  assumes "store_total B" "AssignNextExecutionIndex B t d = Inr (i, d')" shows "same_workflows B d d'"
proof -
  let ?k = "ExecutionIndexCounterKey (task_id t)"
  from assms(2) obtain c where "IncCounter B d ?k (Some 0) = Inr (c, d')"
    by (auto simp: AssignNextExecutionIndex_def split: sum.splits prod.splits)
  then obtain txn where t: "txn_set B d ?k (format_uint64 c) = Inr txn" "txn_commit B d txn = Inr d'"
    by (auto simp: IncCounter_def split: option.splits)
  then have "rows_of B d' = (rows_of B d)(?k \<mapsto> format_uint64 c)"
    using rows_of_set [OF total_badger [OF assms(1)] t(1)] rows_of_commit [OF total_badger [OF assms(1)] t(2)] by simp
  then show ?thesis using beside_keys(6) [of "task_id t"] by (auto simp: same_workflows_def)
qed

lemma same_take_index:
  assumes "store_total B" "take_index B t x d = Inr (i, d')" shows "same_workflows B d d'"
  using assms(2) same_index [OF assms(1)] same_delete [OF assms(1) beside_keys(5)]
  by (auto simp: take_index_def split: sum.splits option.splits)

lemma same_gc_durable: "store_total B \<Longrightarrow> same_workflows B d (gc_durable B x d)"
proof -
  assume B: "store_total B"
  have "gc_durable B x d = delete_logged B (wakeSubscriptionKey x) (delete_logged B (checkpointKey x) d)"
    by (simp add: gc_durable_def deleteWakeSubscription_def deleteCheckpoint_def delete_logged_def)
  then show ?thesis using same_delete [OF B] beside_keys(1,2) same_workflows_trans by metis
qed

section \<open>One change of status\<close>

definition xenv_total :: "'d xenv \<Rightarrow> bool" where
  "xenv_total E \<longleftrightarrow> xenv_ok E \<and> store_total (xbadger E) \<and> (\<forall>t. taskMarshal E t \<noteq> None)"

lemma xenv_totalD: "xenv_total E \<Longrightarrow> xenv_ok E" "xenv_total E \<Longrightarrow> store_total (xbadger E)"
  by (simp_all add: xenv_total_def)

lemma xenv_encodes: assumes "xenv_total E" obtains json where "taskMarshal E t = Some json"
  using assms by (auto simp: xenv_total_def)

text \<open>The workflow \<open>t\<close> is the one in the store.\<close>

definition at_row :: "'d xenv \<Rightarrow> 'd \<Rightarrow> task \<Rightarrow> bool" where
  "at_row E d t \<longleftrightarrow> task_status t \<in> set task_statuses \<and>
     (\<exists>v. rows_of (xbadger E) d (WorkflowStorageKey (task_id t) (task_status t)) = Some v \<and> FromStorageData E v = Some t)"

text \<open>A handler may take the store \<open>d\<close> to \<open>d'\<close>.\<close>

definition life_ok :: "'d xenv \<Rightarrow> 'd \<Rightarrow> 'd \<Rightarrow> bool" where
  "life_ok E d d' \<longleftrightarrow> wf_rows E d' \<and> life_change (life E d) (life E d')"

lemma life_ok_same: "wf_rows E d \<Longrightarrow> same_workflows (xbadger E) d d' \<Longrightarrow> life_ok E d d'"
  by (simp add: life_ok_def same_wf_rows same_life life_change.stay)

lemma life_ok_same_before:
  "same_workflows (xbadger E) d e \<Longrightarrow> life_ok E e d' \<Longrightarrow> life_ok E d d'"
  by (simp add: life_ok_def same_life)

lemma life_ok_same_after:
  "life_ok E d e \<Longrightarrow> same_workflows (xbadger E) e d' \<Longrightarrow> life_ok E d d'"
  by (simp add: life_ok_def same_life same_wf_rows)

lemma at_row_same: "same_workflows (xbadger E) d d' \<Longrightarrow> at_row E d' t = at_row E d t"
  by (simp add: at_row_def same_workflows_def)

lemma at_row_life: "wf_rows E d \<Longrightarrow> at_row E d t \<Longrightarrow> life E d (task_id t) = Some (task_status t)"
  by (auto simp: at_row_def life_Some)

lemma found_at_row:
  assumes "store_total (xbadger E)" "wf_rows E d" "set ord = set task_statuses" "GetWorkflowByID E d ord i = Inr t"
  shows "at_row E d t \<and> task_id t = i"
  using found_row [OF assms] unfolding at_row_def by metis

lemma GetWorkflow_found: "GetWorkflow E d ord user i = Inr t \<Longrightarrow> GetWorkflowByID E d ord i = Inr t"
  by (auto simp: GetWorkflow_def split: sum.splits if_splits)

lemma GetTask_at_row:
  assumes "store_total (xbadger E)" "wf_rows E d" "GetTask E d i = Inr t"
  shows "at_row E d t \<and> task_id t = i \<and> task_status t = Enabled"
proof -
  have en: "Enabled \<in> set task_statuses" by (simp add: task_statuses_def)
  from assms(3) obtain v where v: "rows_of (xbadger E) d (WorkflowStorageKey i Enabled) = Some v" "FromStorageData E v = Some t"
    by (auto simp: GetTask_def total_GetKey [OF assms(1)] FromStorageData_def split: option.splits sum.splits)
  from wf_rowsD [OF assms(2) en v(1)] v(2) have "task_id t = i" "task_status t = Enabled" by auto
  with v en show ?thesis by (simp add: at_row_def)
qed

lemma status_change:
  assumes E: "xenv_total E" and wf: "wf_rows E d" and t: "at_row E d t"
    and t': "task_id t' = task_id t" "task_status t' \<in> set task_statuses" "taskMarshal E t' = Some json"
    and us: "\<forall>(k, v)\<in>set pre \<union> set post. \<not> workflow_key k"
    and d1: "BatchWrite (xbadger E) d (pre @ [task_row t' json, user_row t'] @ post) = Inr d1"
  shows "wf_rows E (drop_old_row (xbadger E) t' (task_status t) d1) \<and>
    life E (drop_old_row (xbadger E) t' (task_status t) d1) = (life E d)(task_id t \<mapsto> task_status t')"
proof -
  note B = xenv_totalD(2) [OF E]
  from t obtain v where v: "task_status t \<in> set task_statuses"
    "rows_of (xbadger E) d (WorkflowStorageKey (task_id t) (task_status t)) = Some v" "FromStorageData E v = Some t"
    by (auto simp: at_row_def)
  from wf_rowsD [OF wf v(1,2)] have c: "CHR '':'' \<notin> set (task_id t)"
    and only: "\<And>s. s \<in> set task_statuses \<Longrightarrow> s \<noteq> task_status t \<Longrightarrow>
      rows_of (xbadger E) d (WorkflowStorageKey (task_id t) s) = None" by metis+
  have "rows_of (xbadger E) d1 = rows_of (xbadger E) d ++ map_of (rev (pre @ [task_row t' json, user_row t'] @ post))"
    using total_BatchWrite [OF B, of d] d1 by (metis sum.inject(2))
  from moved_wf [OF xenv_totalD(1) [OF E] wf moved_batch [OF B us this t'(2) v(1)] t'(3)] t' c only v(1) loaded_id [OF v(3)]
  show ?thesis by simp
qed

lemmas status_change_only = status_change [where pre = "[]" and post = "[]", simplified]
  and status_change_post = status_change [where pre = "[]", simplified]
  and status_change_pre = status_change [where post = "[]", simplified]

lemma life_okI:
  assumes "wf_rows E d'" "life E d' = (life E d)(i \<mapsto> s')" "life_change (life E d) ((life E d)(i \<mapsto> s'))"
  shows "life_ok E d d'"
  using assms by (simp add: life_ok_def)

lemma removed_wf:
  assumes wf: "wf_rows E d" and t: "at_row E d t"
    and rows: "\<And>k. workflow_key k \<Longrightarrow> rows_of (xbadger E) d' k =
      (if k = WorkflowStorageKey (task_id t) (task_status t) \<or> k = TaskUserKey t then None else rows_of (xbadger E) d k)"
  shows "wf_rows E d' \<and> life E d' = (life E d)(task_id t := None)"
proof -
  from t obtain v where v: "task_status t \<in> set task_statuses"
    "rows_of (xbadger E) d (WorkflowStorageKey (task_id t) (task_status t)) = Some v"
    by (auto simp: at_row_def)
  from wf_rowsD [OF wf v] have c: "CHR '':'' \<notin> set (task_id t)"
    and only: "\<And>s. s \<in> set task_statuses \<Longrightarrow> s \<noteq> task_status t \<Longrightarrow>
      rows_of (xbadger E) d (WorkflowStorageKey (task_id t) s) = None" by metis+
  have r: "rows_of (xbadger E) d' (WorkflowStorageKey i s) =
      (if i = task_id t then None else rows_of (xbadger E) d (WorkflowStorageKey i s))" if "s \<in> set task_statuses" for i s
    using rows [OF workflow_keys(1), of i s] only [OF that] WorkflowStorageKey_inject [OF that v(1), of i "task_id t"]
    by (cases "s = task_status t") auto
  have u: "rows_of (xbadger E) d' (TaskUserKey x) = rows_of (xbadger E) d (TaskUserKey x)"
    if "CHR '':'' \<notin> set (task_id x)" "task_id x \<noteq> task_id t" for x
    using rows [OF workflow_keys(2), of x] TaskUserKey_id [OF _ that(1) c] that(2) by auto
  have "wf_rows E d'"
    unfolding wf_rows_def
  proof (intro allI ballI impI)
    fix i s w assume s: "s \<in> set task_statuses" and w: "rows_of (xbadger E) d' (WorkflowStorageKey i s) = Some w"
    with r [OF s] have i: "i \<noteq> task_id t" "rows_of (xbadger E) d (WorkflowStorageKey i s) = Some w" by (auto split: if_splits)
    from wf_rowsD [OF wf s i(2)] obtain x where "CHR '':'' \<notin> set i" "FromStorageData E w = Some x" "task_id x = i"
      "task_status x = s" "rows_of (xbadger E) d (TaskUserKey x) = Some (sdecimal (status_number s))"
      "\<And>s'. s' \<in> set task_statuses \<Longrightarrow> s' \<noteq> s \<Longrightarrow> rows_of (xbadger E) d (WorkflowStorageKey i s') = None" by metis
    with i u [of x] show "CHR '':'' \<notin> set i \<and>
       (\<exists>t. FromStorageData E w = Some t \<and> task_id t = i \<and> task_status t = s \<and>
         rows_of (xbadger E) d' (TaskUserKey t) = Some (sdecimal (status_number s))) \<and>
       (\<forall>s'\<in>set task_statuses. s' \<noteq> s \<longrightarrow> rows_of (xbadger E) d' (WorkflowStorageKey i s') = None)"
      by (simp add: r)
  qed
  moreover have "life E d' i = ((life E d)(task_id t := None)) i" for i
  proof (cases "i = task_id t")
    case True
    then show ?thesis by (simp add: life_None r)
  next
    case False
    then show ?thesis by (simp add: life_def) (rule find_cong, simp_all add: r)
  qed
  ultimately show ?thesis by (simp add: fun_eq_iff)
qed

section \<open>Runs\<close>

lemma complete_if_done_frame:
  "task_id (complete_if_done now t) = task_id t"
  "task_status (complete_if_done now t) = task_status t \<or> task_status (complete_if_done now t) = Completed"
  by (auto simp: complete_if_done_def SetCompleted_def Let_def)

lemma count_validation_frame:
  "task_id (count_validation_failure msg t) = task_id t"
  "task_status (count_validation_failure msg t) = task_status t \<or>
     task_status t = Enabled \<and> task_status (count_validation_failure msg t) = Disabled"
  by (auto simp: count_validation_failure_def Let_def)

lemma run_change:
  "m i = Some s \<Longrightarrow> s' = s \<or> s' = Completed \<or> s = Enabled \<and> s' = Disabled \<Longrightarrow> life_change m (m(i \<mapsto> s'))"
  using life_change_keep by blast

lemma terminal_statuses: "Completed \<in> set task_statuses" "Disabled \<in> set task_statuses" "Enabled \<in> set task_statuses"
  "Failed \<in> set task_statuses" "Running \<in> set task_statuses"
  by (simp_all add: task_statuses_def)

lemma exec_updates_beside: "\<forall>(k, v)\<in>set (exec_updates E t x). \<not> workflow_key k"
  by (auto simp: exec_updates_def beside split: option.splits)

text \<open>The status a run leaves behind is written over the row it loaded.\<close>

lemma run_write_life:
  assumes "xenv_total E" "wf_rows E d" "at_row E d t" "task_id t' = task_id t" "taskMarshal E t' = Some json"
    and "task_status t' = task_status t \<or> task_status t' = Completed \<or> task_status t = Enabled \<and> task_status t' = Disabled"
    and "\<forall>(k, v)\<in>set pre \<union> set post. \<not> workflow_key k"
    and "BatchWrite (xbadger E) d (pre @ [task_row t' json, user_row t'] @ post) = Inr d1"
  shows "life_ok E d (drop_old_row (xbadger E) t' (task_status t) d1)"
proof -
  have "task_status t' \<in> set task_statuses" using assms(3,6) terminal_statuses by (auto simp: at_row_def)
  with status_change [OF assms(1-4) this assms(5,7,8)]
    run_change [of "life E d" "task_id t" "task_status t" "task_status t'", OF at_row_life [OF assms(2,3)] assms(6)]
  show ?thesis by (auto intro: life_okI)
qed

lemma write_logged_eq: "store_total B \<Longrightarrow> BatchWrite B d us = Inr (write_logged B us d)"
  using total_BatchWrite [of B d us] by (auto simp: write_logged_def)

lemma finish_run_life:
  assumes "xenv_total E" "wf_rows E d" "at_row E d t" "task_id u = task_id t" "task_status u = task_status t"
    and "finish_run E now u (task_status t) x l d = (d', r)"
  shows "life_ok E d d'"
proof -
  let ?u = "complete_if_done now u" and ?x = "finished_execution now x l"
  obtain json where j: "taskMarshal E ?u = Some json" using xenv_encodes [OF assms(1)] .
  have d': "d' = drop_old_row (xbadger E) ?u (task_status t)
      (write_logged (xbadger E) ([] @ [task_row ?u json, user_row ?u] @ exec_updates E ?u ?x) d)"
    using assms(6) j by (simp add: finish_run_def Let_def)
  show ?thesis unfolding d'
    by (rule run_write_life [OF assms(1-3) _ j _ _ write_logged_eq [OF xenv_totalD(2) [OF assms(1)]]])
      (use complete_if_done_frame [of now u] assms(4,5) exec_updates_beside [of E ?u ?x] in auto)
qed

lemma persistFailed_life:
  assumes "xenv_total E" "wf_rows E d" "at_row E d t" "task_id u = task_id t" "task_status u = task_status t"
  shows "life_ok E d (persistFailedExecution E u x (task_status t) d)"
proof -
  let ?u = "count_validation_failure (ex_error x) u"
  obtain json where j: "taskMarshal E ?u = Some json" using xenv_encodes [OF assms(1)] .
  have d': "persistFailedExecution E u x (task_status t) d = drop_old_row (xbadger E) ?u (task_status t)
      (write_logged (xbadger E) ([] @ [task_row ?u json, user_row ?u] @ exec_updates E ?u x) d)"
    using j by (simp add: persistFailedExecution_def Let_def task_updates_def)
  show ?thesis unfolding d'
    by (rule run_write_life [OF assms(1-3) _ j _ _ write_logged_eq [OF xenv_totalD(2) [OF assms(1)]]])
      (use count_validation_frame [of "ex_error x" u] assms(4,5) exec_updates_beside [of E ?u x] in auto)
qed

lemma wake_updates_beside: "wake_updates E t x susp = Inr us \<Longrightarrow> \<forall>(k, v)\<in>set us. \<not> workflow_key k"
  by (auto simp: wake_updates_def Let_def beside split: option.splits)

lemma checkpoint_life:
  assumes E: "xenv_total E" and wf: "wf_rows E d" and t: "at_row E d t" "task_id u = task_id t" "task_status u = task_status t"
    and c: "checkpointSuspendedExecution E now u x l susp d = (d', r)"
  shows "life_ok E d d'"
proof -
  note B = xenv_totalD(2) [OF E]
  note same = life_ok_same [OF wf]
  obtain json where j: "taskMarshal E (complete_if_done now u) = Some json" using xenv_encodes [OF E] .
  show ?thesis
  proof (cases "snapshotNodeVars (varsCodec E) (vm_names u) (vm_trigger u) (leg_vars l)")
    case None
    with c wf show ?thesis by (auto simp: checkpointSuspendedExecution_def Let_def intro: life_ok_same)
  next
    case (Some snap)
    obtain d1 where d1: "persistCheckpoint (xbadger E) d (ex_id x) snap = Inr d1"
      using total_Set [OF B, of d "checkpointKey (ex_id x)" snap] by (auto simp: persistCheckpoint_def)
    then have s1: "same_workflows (xbadger E) d d1"
      using same_set [OF B beside_keys(1)] by (simp add: persistCheckpoint_def)
    show ?thesis
    proof (cases "wake_updates E u (ex_id x) susp")
      case (Inl e)
      with c Some d1 s1 show ?thesis by (auto simp: checkpointSuspendedExecution_def Let_def intro: same)
    next
      case (Inr wakes)
      show ?thesis
      proof (cases "execMarshal E (suspended_execution x l susp)")
        case None
        with c Some d1 Inr s1 show ?thesis by (auto simp: checkpointSuspendedExecution_def Let_def intro: same)
      next
        case xb: (Some xb)
        let ?u = "complete_if_done now u" and ?row = "(TaskExecutionKey u (ex_id x), xb)"
        obtain d2 where d2: "BatchWrite (xbadger E) d1 ((wakes @ [?row]) @ [task_row ?u json, user_row ?u] @ []) = Inr d2"
          using total_BatchWrite [OF B] by blast
        have d': "d' = drop_old_row (xbadger E) ?u (task_status t) d2"
          using c Some d1 Inr xb j d2 t(3) by (simp add: checkpointSuspendedExecution_def Let_def)
        have "life_ok E d1 d'"
          unfolding d'
          by (rule run_write_life [OF E _ _ _ j _ _ d2])
            (use complete_if_done_frame [of now u] t wake_updates_beside [OF Inr] s1 wf in
              \<open>auto simp: same_wf_rows at_row_same beside\<close>)
        with s1 show ?thesis by (rule life_ok_same_before)
      qed
    qed
  qed
qed

lemma runTask_life:
  assumes E: "xenv_total E" and wf: "wf_rows E d" and t: "at_row E d t"
    and c: "runTaskWithBudgetLease E t0 t1 t xid out d = (d', r)"
  shows "life_ok E d d'"
proof -
  note B = xenv_totalD(2) [OF E]
  let ?t = "t\<lparr>execution_count := execution_count t + 1, last_ran_at := unix_milli t0\<rparr>"
  consider (refused) "d' = d"
    | (index) i d1 where "take_index (xbadger E) ?t xid d = Inr (i, d1)"
      "(\<exists>x. d' = persistFailedExecution E ?t x (task_status t) d1) \<or>
       (\<exists>x susp r. checkpointSuspendedExecution E t1
          (?t\<lparr>consecutive_validation_failures := 0, last_validation_error := []\<rparr>) x (ro_leg out) susp d1 = (d', r)) \<or>
       (\<exists>x r. finish_run E t1 (?t\<lparr>consecutive_validation_failures := 0, last_validation_error := []\<rparr>) (task_status t) x
          (ro_leg out) d1 = (d', r))"
    using c unfolding runTaskWithBudgetLease_def Let_def
    by (fastforce split: if_splits option.splits sum.splits prod.splits)
  then show ?thesis
  proof cases
    case refused
    then show ?thesis using life_ok_same [OF wf] by simp
  next
    case index
    note s = same_take_index [OF B index(1)]
    with wf t have w: "wf_rows E d1" "at_row E d1 t" by (simp_all add: same_wf_rows at_row_same)
    have "life_ok E d1 d'"
      using index(2)
      by (elim disjE exE) (simp add: persistFailed_life [OF E w], erule checkpoint_life [OF E w, rotated 2], simp, simp,
          erule finish_run_life [OF E w, rotated 2], simp, simp)
    with s show ?thesis by (rule life_ok_same_before)
  qed
qed

end
