(* ===== verification/EngineHandlers.thy ===== *)
theory EngineHandlers
  imports EngineLife
begin

text \<open>
  Each handler of the engine makes only the changes of status that the specification of a workflow's life allows.
\<close>

definition genv_total :: "'d genv \<Rightarrow> bool" where
  "genv_total G \<longleftrightarrow> genv_ok G \<and> xenv_total (gx G)"

lemma genv_totalD:
  assumes "genv_total G"
  shows "xenv_total (gx G)" "store_total (xbadger (gx G))" "store_total (gbadger G)" "gbadger G = xbadger (gx G)"
    "qbadger (gq G) = xbadger (gx G)"
  using assms by (simp_all add: genv_total_def genv_ok_def gbadger_def xenv_total_def)

lemma edb_frame [simp]:
  "edb (with_db d n) = d" "edb (put_task t n) = edb n" "edb (drop_task i n) = edb n" "edb (on_ops f n) = edb n"
  "edb (n\<lparr>tasks := ts\<rparr>) = edb n" "edb (n\<lparr>processedTriggerIDs := ps\<rparr>) = edb n" "edb (n\<lparr>equeue := q\<rparr>) = qdb q"
  by (simp_all add: edb_def with_db_def put_task_def drop_task_def on_ops_def)

lemma with_db_queue [simp]: "qdb (equeue (with_db d n)) = d" "qdb (equeue n) = edb n"
  by (simp_all add: with_db_def edb_def)

section \<open>Resuming\<close>

lemma write_terminal_same:
  assumes "store_total (xbadger E)" "write_terminal E t xid x d = (d', r)" shows "same_workflows (xbadger E) d d'"
proof (cases "execMarshal E x")
  case None
  with assms(2) show ?thesis by (simp add: write_terminal_def)
next
  case (Some b)
  obtain d1 where d1: "BatchWrite (xbadger E) d [(TaskExecutionKey t xid, b)] = Inr d1" using total_BatchWrite [OF assms(1)] by blast
  have "same_workflows (xbadger E) d d1" by (rule same_write [OF assms(1) _ d1]) (simp add: beside)
  moreover have "d' = gc_durable (xbadger E) xid d1" using assms(2) Some d1 by (simp add: write_terminal_def)
  ultimately show ?thesis using same_gc_durable [OF assms(1)] same_workflows_trans by metis
qed

lemma Advance_life:
  assumes E: "xenv_total E" and wf: "wf_rows E d" and t: "at_row E d t" and c: "Advance E vm now t xid sg d = (d', r)"
  shows "life_ok E d d'"
proof -
  note B = xenv_totalD(2) [OF E]
  consider (same) "d' = d" | (gc) "d' = gc_durable (xbadger E) xid d"
    | (susp) x l susp r where "checkpointSuspendedExecution E now t x l susp d = (d', r)"
    | (fin) x r where "write_terminal E t xid x d = (d', r)"
    using c unfolding Advance_def Let_def by (fastforce split: if_splits option.splits sum.splits)
  then show ?thesis
  proof cases
    case same
    then show ?thesis using life_ok_same [OF wf] by simp
  next
    case gc
    then show ?thesis using life_ok_same [OF wf same_gc_durable [OF B]] by simp
  next
    case susp
    then show ?thesis using checkpoint_life [OF E wf t] by blast
  next
    case fin
    then show ?thesis using life_ok_same [OF wf write_terminal_same [OF B]] by blast
  qed
qed

lemma DeliverSignal_life:
  assumes "xenv_total E" "wf_rows E d" "at_row E d t" "DeliverSignal E vm now t sg d = (d', r)"
  shows "life_ok E d d'"
  using assms(4) Advance_life [OF assms(1-3)] life_ok_same [OF assms(2) same_workflows_refl]
  by (auto simp: DeliverSignal_def split: option.splits sum.splits if_splits)

lemma SignalExecution_life:
  assumes E: "xenv_total E" and wf: "wf_rows E d" and ord: "set ord = set task_statuses"
    and c: "SignalExecution E ord vm now user wid xid dec body d = (d', r)"
  shows "life_ok E d d'"
proof -
  consider (same) "d' = d" | (run) t sg r where "GetWorkflow E d ord user wid = Inr t" "DeliverSignal E vm now t sg d = (d', r)"
    using c unfolding SignalExecution_def by (fastforce split: if_splits sum.splits prod.splits)
  then show ?thesis
  proof cases
    case same
    then show ?thesis using life_ok_same [OF wf] by simp
  next
    case run
    from found_at_row [OF xenv_totalD(2) [OF E] wf ord GetWorkflow_found [OF run(1)]] have "at_row E d t" by simp
    from DeliverSignal_life [OF E wf this run(2)] show ?thesis .
  qed
qed

lemma ExpireWait_same:
  assumes "store_total (xbadger E)" "ExpireWait E now t xid d = (d', r)" shows "same_workflows (xbadger E) d d'"
proof -
  consider (same) "d' = d" | (gc) "d' = gc_durable (xbadger E) xid d" | (fin) x r where "write_terminal E t xid x d = (d', r)"
    using assms(2) unfolding ExpireWait_def by (fastforce split: if_splits sum.splits run_error.splits)
  then show ?thesis using same_gc_durable [OF assms(1)] write_terminal_same [OF assms(1)] by cases simp_all
qed

lemma sweep_one_same:
  assumes "genv_total G" shows "same_workflows (gbadger G) (edb n) (edb (sweep_one G ord now ew n))"
  using ExpireWait_same [OF genv_totalD(2) [OF assms]] same_gc_durable [OF genv_totalD(3) [OF assms]]
  by (auto simp: sweep_one_def gbadger_def split: prod.splits sum.splits find_error.splits)

lemma fold_same:
  assumes "\<And>x n. same_workflows B (edb n) (edb (f x n))" shows "same_workflows B (edb n) (edb (fold f xs n))"
proof (induction xs arbitrary: n)
  case (Cons x xs)
  then show ?case using assms [of n x] same_workflows_trans by fastforce
qed simp

lemma sweepExpiredWaits_same:
  assumes "genv_total G" shows "same_workflows (gbadger G) (edb n) (edb (sweepExpiredWaits G ord now n))"
  using fold_same [of "gbadger G" "sweep_one G ord now", OF sweep_one_same [OF assms]]
  by (simp add: sweepExpiredWaits_def split: sum.splits)

lemma deliverChainEventWake_life:
  assumes G: "genv_total G" and wf: "wf_rows (gx G) (edb n)" and ord: "set ord = set task_statuses"
    and c: "deliverChainEventWake G ord vm now xid ev n = (n', r)"
  shows "life_ok (gx G) (edb n) (edb n')"
proof -
  consider (same) "edb n' = edb n"
    | (run) i t sg d r where "GetWorkflowByID (gx G) (edb n) ord i = Inr t" "DeliverSignal (gx G) vm now t sg (edb n) = (d, r)"
      "edb n' = d"
    using c unfolding deliverChainEventWake_def by (fastforce split: sum.splits prod.splits)
  then show ?thesis
  proof cases
    case same
    then show ?thesis using life_ok_same [OF wf] by simp
  next
    case run
    from found_at_row [OF genv_totalD(2) [OF G] wf ord run(1)] have "at_row (gx G) (edb n) t" by simp
    from DeliverSignal_life [OF genv_totalD(1) [OF G] wf this run(2)] run(3) show ?thesis by simp
  qed
qed

section \<open>Starting runs\<close>

lemma Enqueue_same:
  assumes "store_total (qbadger Q)" "Enqueue Q q seq ty nm data = (q', r)" shows "same_workflows (qbadger Q) (qdb q) (qdb q')"
  using assms(2) same_set [OF assms(1) beside_keys(7)]
  by (auto simp: Enqueue_def Let_def split: sum.splits)

lemma setExecutionStatus_same:
  assumes "store_total B" "setExecutionStatusQueue B t x d = Inr d'" shows "same_workflows B d d'"
  using same_set [OF assms(1) beside_keys(4)] assms(2) by (simp add: setExecutionStatusQueue_def)

lemma queue_trigger_same:
  assumes G: "genv_total G" and c: "queue_trigger G seq fresh t p n = (n', r)"
  shows "same_workflows (gbadger G) (edb n) (edb n')"
proof -
  note B = genv_totalD [OF G]
  define n1 where "n1 = (case setExecutionStatusQueue (gbadger G) t fresh (edb n) of Inl _ \<Rightarrow> n | Inr d \<Rightarrow> with_db d n)"
  have n1: "same_workflows (gbadger G) (edb n) (edb n1)"
    using setExecutionStatus_same [OF B(3)] by (auto simp: n1_def split: sum.splits)
  have q: "same_workflows (gbadger G) (edb m) (qdb q')" if "Enqueue (gq G) (equeue m) seq ty nm dt = (q', x)" for m ty nm dt q' x
    using Enqueue_same [OF _ that] B(2,4,5) by simp
  from c n1 q [of n] q [of n1] show ?thesis
    by (auto simp: queue_trigger_def Let_def n1_def [symmetric]
        split: option.splits if_splits prod.splits sum.splits intro: same_workflows_trans)
qed

lemma notify_task_same:
  assumes "genv_total G" "notify_task G now seq fresh t p n = (n', r)"
  shows "same_workflows (gbadger G) (edb n) (edb n')"
proof -
  have "edb n' = edb n \<or> (\<exists>m. edb m = edb n \<and> queue_trigger G seq fresh t p m = (n', r))"
  proof (cases "IsRunable now t")
    case True
    have "\<exists>m. edb m = edb n \<and> queue_trigger G seq fresh t p m = (n', r)"
      if "queue_trigger G seq fresh t p m = (n', r)" "edb m = edb n" for m
      using that by blast
    with assms(2) True show ?thesis by (simp add: notify_task_def Let_def split: if_splits) (metis edb_frame(6))+
  next
    case False
    with assms(2) show ?thesis by (auto simp: notify_task_def Let_def split: if_splits)
  qed
  then show ?thesis using queue_trigger_same [OF assms(1)] by (metis same_workflows_refl)
qed

lemma Aggregate_life:
  assumes G: "genv_total G" and wf: "wf_rows (gx G) (edb n)" and ord: "set ord = set task_statuses"
    and c: "AggregateChecksResultWithState G ord vm now seq fresh a p n = (n', r)"
  shows "life_ok (gx G) (edb n) (edb n')"
proof -
  let ?n = "on_ops (on_operator a (track_task (nt_task p))) n"
  show ?thesis
  proof (cases "parseInternalTriggerTaskID (nt_task p)")
    case (Some i)
    obtain m st e where m: "deliverChainEventWake G ord vm now i (nt_event p) ?n = (m, st, e)" by (metis surj_pair)
    with c Some have "n' = m" by (simp add: AggregateChecksResultWithState_def)
    with deliverChainEventWake_life [OF G _ ord m] wf show ?thesis by simp
  next
    case internal: None
    have task: "life_ok (gx G) (edb n) (edb n')" if "notify_task G now seq fresh t p m = (n', r)" "edb m = edb n" for t m
      using notify_task_same [OF G that(1)] that(2) life_ok_same [OF wf] genv_totalD(4) [OF G] by simp
    show ?thesis
    proof (cases "map_of (tasks ?n) (nt_task p)")
      case (Some t)
      with c internal have "notify_task G now seq fresh t p ?n = (n', r)" by (simp add: AggregateChecksResultWithState_def)
      then show ?thesis by (rule task) simp
    next
      case None
      show ?thesis
      proof (cases "GetWorkflowByID (gx G) (edb ?n) ord (nt_task p)")
        case (Inl e)
        with c internal None have "edb n' = edb n" by (auto simp: AggregateChecksResultWithState_def Let_def)
        then show ?thesis using life_ok_same [OF wf] by simp
      next
        case (Inr t)
        with c internal None have "notify_task G now seq fresh t p (put_task t ?n) = (n', r)"
          by (simp add: AggregateChecksResultWithState_def)
        then show ?thesis by (rule task) simp
      qed
    qed
  qed
qed

lemma Perform_life:
  assumes G: "genv_total G" and wf: "wf_rows (gx G) d" and c: "Perform G lt rt t0 t1 lease out j d = (d', r)"
  shows "life_ok (gx G) d d'"
proof -
  note B = genv_totalD [OF G]
  consider (same) "d' = d"
    | (run) t x d1 r where "GetTask (gx G) d (jname j) = Inr t" "runTaskWithBudgetLease (gx G) t0 t1 t x out d = (d1, r)"
      "d' = d1 \<or> d' = delete_logged (gbadger G) (TaskTriggerKey t x) d1"
    using c unfolding Perform_def by (fastforce split: sum.splits option.splits prod.splits if_splits)
  then show ?thesis
  proof cases
    case same
    then show ?thesis using life_ok_same [OF wf] by simp
  next
    case run
    from GetTask_at_row [OF B(2) wf run(1)] have "at_row (gx G) d t" by simp
    from runTask_life [OF B(1) wf this run(2)] have "life_ok (gx G) d d1" .
    moreover have "same_workflows (gbadger G) d1 d'" using run(3) same_delete [OF B(3) beside_keys(4)] by auto
    ultimately show ?thesis using life_ok_same_after B(4) by metis
  qed
qed

lemma run_blocking_life:
  assumes E: "xenv_total E" and wf: "wf_rows E d" and t: "at_row E d t" and c: "run_blocking E t0 t1 t x out d = (d', r)"
  shows "life_ok E d d'"
proof -
  note B = xenv_totalD(2) [OF E]
  obtain d1 q where q: "runTaskWithBudgetLease E t0 t1 t x out d = (d1, q)" by force
  note l = runTask_life [OF E wf t q]
  let ?d = "delete_logged (xbadger E) (TaskTriggerKey t x) d1"
  have s: "same_workflows (xbadger E) d1 ?d" by (rule same_delete [OF B beside_keys(4)])
  consider "d' = d1" | "d' = ?d" | k b where "\<not> workflow_key k" "StorageSet (xbadger E) ?d k b = Inr d'"
    using c q beside_keys(3) unfolding run_blocking_def Let_def by (fastforce split: sum.splits option.splits)
  then show ?thesis
  proof cases
    case 3
    from same_workflows_trans [OF s same_set [OF B 3]] show ?thesis by (rule life_ok_same_after [OF l])
  qed (use l life_ok_same_after [OF l s] in simp_all)
qed

lemma precreate_same:
  assumes "store_total B" "precreate_execution B t x d = (d', r)" shows "same_workflows B d d'"
proof (cases "AssignNextExecutionIndex B t d")
  case (Inl e)
  with assms(2) show ?thesis by (simp add: precreate_execution_def)
next
  case (Inr id1)
  then obtain i d1 where i: "AssignNextExecutionIndex B t d = Inr (i, d1)" by (cases id1) auto
  obtain d2 where d2: "setExecutionStatusQueue B t x d1 = Inr d2"
    using total_Set [OF assms(1)] unfolding setExecutionStatusQueue_def by blast
  obtain d3 where d3: "StorageSet B d2 (PendingExecutionKey t x) (sdecimal i) = Inr d3" using total_Set [OF assms(1)] by blast
  have "d' = d3" using assms(2) i d2 d3 by (simp add: precreate_execution_def)
  with same_index [OF assms(1) i] setExecutionStatus_same [OF assms(1) d2] same_set [OF assms(1) beside_keys(5) d3]
  show ?thesis using same_workflows_trans by metis
qed

lemma TriggerWorkflow_life:
  assumes G: "genv_total G" and wf: "wf_rows (gx G) (edb n)" and ord: "set ord = set task_statuses"
    and c: "TriggerWorkflow G ord t0 t1 seq fresh lease manual out user p n = (n', r)"
  shows "life_ok (gx G) (edb n) (edb n')"
proof -
  note B = genv_totalD [OF G]
  consider (same) "edb n' = edb n"
    | (pre) t d r where "precreate_execution (gbadger G) t fresh (edb n) = (d, r)" "edb n' = d"
    | (set) t d where "setExecutionStatusQueue (gbadger G) t fresh (edb n) = Inr d"
      "GetWorkflow (gx G) (edb n) ord user (rq_task p) = Inr t"
      "edb n' = d \<or> (\<exists>r. run_blocking (gx G) t0 t1 t fresh out d = (edb n', r)) \<or>
       (\<exists>ty nm dt q r. Enqueue (gq G) (equeue (with_db d n)) seq ty nm dt = (q, r) \<and> edb n' = qdb q)"
    using c unfolding TriggerWorkflow_def
    by (fastforce split: if_splits sum.splits option.splits prod.splits)
  then show ?thesis
  proof cases
    case same
    then show ?thesis using life_ok_same [OF wf] by simp
  next
    case pre
    then show ?thesis using life_ok_same [OF wf] precreate_same [OF B(3)] B(4) by metis
  next
    case set
    have s: "same_workflows (xbadger (gx G)) (edb n) d" using setExecutionStatus_same [OF B(3) set(1)] B(4) by simp
    from found_at_row [OF B(2) wf ord GetWorkflow_found [OF set(2)]] have t: "at_row (gx G) (edb n) t" by simp
    from s wf t have w: "wf_rows (gx G) d" "at_row (gx G) d t" by (simp_all add: same_wf_rows at_row_same)
    have "life_ok (gx G) d (edb n')"
      using set(3)
    proof (elim disjE exE conjE)
      assume "edb n' = d"
      then show ?thesis using life_ok_same [OF w(1)] by simp
    next
      fix r assume "run_blocking (gx G) t0 t1 t fresh out d = (edb n', r)"
      from run_blocking_life [OF B(1) w this] show ?thesis .
    next
      fix ty nm dt q r assume "Enqueue (gq G) (equeue (with_db d n)) seq ty nm dt = (q, r)" "edb n' = qdb q"
      with Enqueue_same [of "gq G"] B(2,5) show ?thesis by (metis life_ok_same w(1) with_db_queue(1))
    qed
    with s show ?thesis by (rule life_ok_same_before)
  qed
qed

section \<open>Creating, enabling, disabling and deleting\<close>

lemma store_workflow_life:
  assumes G: "genv_total G" and wf: "wf_rows (gx G) (edb n)"
    and t: "task_status t = Enabled" "task_id t \<noteq> []" "CHR '':'' \<notin> set (task_id t)" "life (gx G) (edb n) (task_id t) = None"
    and c: "store_workflow G outcome t n = (n', r)"
  shows "life_ok (gx G) (edb n) (edb n')"
proof -
  note B = genv_totalD [OF G]
  obtain json where j: "taskMarshal (gx G) t = Some json" using xenv_encodes [OF B(1)] .
  obtain d where d: "BatchWrite (gbadger G) (edb n) [task_row t json, user_row t] = Inr d" using total_BatchWrite [OF B(3)] by blast
  have n': "edb n' = d" using c j d t(1) by (auto simp: store_workflow_def user_row_def)
  have "rows_of (xbadger (gx G)) d = rows_of (xbadger (gx G)) (edb n) ++ map_of (rev ([] @ [task_row t json, user_row t] @ []))"
    using total_BatchWrite [OF B(3), of "edb n" "[task_row t json, user_row t]"] d B(4) by simp
  from moved_batch [OF B(2) _ this, of Enabled] t(1) terminal_statuses(3)
  have "moved (xbadger (gx G)) (edb n) t Enabled json d" by (simp add: drop_old_row_def)
  from moved_wf [OF xenv_totalD(1) [OF B(1)] wf this j] t terminal_statuses(3)
  have "wf_rows (gx G) d" "life (gx G) d = (life (gx G) (edb n))(task_id t \<mapsto> Enabled)" by (simp_all add: life_None)
  with n' t(4) show ?thesis by (auto intro: life_okI)
qed

lemma create_checks_frame:
  assumes "create_checks C g now S t0 = Inr t"
  shows "task_id t = task_id t0 \<and> task_status t = task_status t0 \<and> max_execution t = max_execution t0 \<and>
    expired_at t = expired_at t0 \<and> check_coverage g S t = Inr ()"
  using assms unfolding create_checks_def Let_def
  by (auto split: sum.splits option.splits if_splits)

lemma CreateWorkflow_cases:
  assumes "CreateWorkflow G C outcome now taskID user r n = (n', res)"
  obtains "n' = n" | t where "task_id t = taskID" "task_status t = Enabled" "store_workflow G outcome t n = (n', res)"
proof (cases "n' = n")
  case False
  from assms False obtain r' t0 t where "NewWorkflowFromProtobuf (cw_isHex C) (cw_canonHex C) user taskID r' = Inr t0"
    "create_checks C (ggateway G) now (ops n) t0 = Inr t" "store_workflow G outcome t n = (n', res)"
    unfolding CreateWorkflow_def by (auto split: option.splits sum.splits)
  then show thesis using that(2) [of t] NewWorkflow_Inr create_checks_frame by metis
qed (rule that(1))

lemma CreateWorkflow_life:
  assumes "genv_total G" "wf_rows (gx G) (edb n)" "taskID \<noteq> []" "CHR '':'' \<notin> set taskID" "life (gx G) (edb n) taskID = None"
    and "CreateWorkflow G C outcome now taskID user r n = (n', res)"
  shows "life_ok (gx G) (edb n) (edb n')"
  using assms(6)
proof (cases rule: CreateWorkflow_cases)
  case 1
  then show ?thesis using life_ok_same [OF assms(2)] by simp
next
  case (2 t)
  with store_workflow_life [OF assms(1,2), of t] assms(3-5) show ?thesis by simp
qed

lemma gc_wakes_same: "store_total B \<Longrightarrow> same_workflows B (edb n) (edb (gc_wakes B i ws n))"
proof (induction ws arbitrary: n)
  case (Cons ew ws)
  obtain x w where ew: "ew = (x, w)" by (cases ew)
  let ?m = "with_db (gc_durable B x (edb n)) n"
  have "same_workflows B (edb n) (edb ?m)" using same_gc_durable [OF Cons.prems] by simp
  with Cons.IH [OF Cons.prems, of ?m] Cons.IH [OF Cons.prems, of "on_ops (deregisterInternalTrigger x) ?m"] Cons.IH [OF Cons.prems, of n]
  show ?case unfolding ew by (auto simp: Let_def intro: same_workflows_trans)
qed simp

lemma gcDurable_same: "genv_total G \<Longrightarrow> same_workflows (gbadger G) (edb n) (edb (gcDurableStateForTask G i n))"
  using gc_wakes_same [OF genv_totalD(3)] by (auto simp: gcDurableStateForTask_def split: sum.splits)

lemma state_keys_beside: "prefix (WorkflowStatePrefix i) k \<Longrightarrow> \<not> workflow_key k"
  by (auto simp: workflow_key_def WorkflowStatePrefix_def join_def prefix_def)

lemma ListKeys_prefix:
  assumes "badger_ok B" "ListKeys B d (WorkflowStatePrefix i) = Inr ks" "k \<in> set ks" shows "prefix (WorkflowStatePrefix i) k"
proof -
  have "\<not> suffix ''*'' (WorkflowStatePrefix i)" by (auto simp: suffix_def WorkflowStatePrefix_def join_def)
  moreover have "WorkflowStatePrefix i \<noteq> ''*''" by (simp add: WorkflowStatePrefix_def join_def)
  ultimately show ?thesis using assms(2,3)
    by (auto simp: ListKeys_def View_def iter_prefix_filter [OF assms(1)] split: option.splits)
qed

lemma fold_delete_same:
  assumes "store_total B" "\<forall>k\<in>set ks. \<not> workflow_key k" shows "same_workflows B d (fold (delete_logged B) ks d)"
  using assms(2)
proof (induction ks arbitrary: d)
  case (Cons k ks)
  then have "same_workflows B d (delete_logged B k d)" by (simp add: same_delete [OF assms(1)])
  with Cons show ?case using same_workflows_trans by fastforce
qed simp

lemma delete_state_same: "store_total B \<Longrightarrow> same_workflows B d (delete_workflow_state B i d)"
  by (auto simp: delete_workflow_state_def split: sum.splits intro!: fold_delete_same
      dest: ListKeys_prefix [OF total_badger] state_keys_beside)

lemma DeleteWorkflow_life:
  assumes G: "genv_total G" and wf: "wf_rows (gx G) (edb n)" and ord: "set ord = set task_statuses"
    and c: "DeleteWorkflowByUser G ord user i n = (n', r)"
  shows "life_ok (gx G) (edb n) (edb n')"
proof -
  note B = genv_totalD [OF G]
  have same: "life_ok (gx G) (edb n) (edb n')" if "n' = n" using that life_ok_same [OF wf] by simp
  show ?thesis
  proof (cases "GetWorkflow (gx G) (edb n) ord user i")
    case (Inl e)
    with c show ?thesis by (intro same) (simp add: DeleteWorkflowByUser_def)
  next
    case (Inr t)
    note t = found_at_row [OF B(2) wf ord GetWorkflow_found [OF Inr]]
    show ?thesis
    proof (cases "task_status t = Running")
      case True
      with c Inr show ?thesis by (intro same) (simp add: DeleteWorkflowByUser_def)
    next
      case False
      obtain d where d: "StorageDelete (gbadger G) (edb n) (WorkflowStorageKey (task_id t) (task_status t)) = Inr d"
        "rows_of (gbadger G) d = (rows_of (gbadger G) (edb n))(WorkflowStorageKey (task_id t) (task_status t) := None)"
        using total_Delete [OF B(3)] by blast
      obtain d' where d': "StorageDelete (gbadger G) d (TaskUserKey t) = Inr d'"
        "rows_of (gbadger G) d' = (rows_of (gbadger G) d)(TaskUserKey t := None)" using total_Delete [OF B(3)] by blast
      let ?m = "gcDurableStateForTask G i (with_db d' n)"
      have n': "edb n' = delete_workflow_state (gbadger G) i (edb ?m)"
        using c Inr False d(1) d'(1) by (auto simp: DeleteWorkflowByUser_def Let_def)
      have "same_workflows (gbadger G) d' (edb n')"
        unfolding n' using gcDurable_same [OF G, of "with_db d' n" i] delete_state_same [OF B(3)] same_workflows_trans by fastforce
      moreover have "wf_rows (gx G) d' \<and> life (gx G) d' = (life (gx G) (edb n))(task_id t := None)"
        by (rule removed_wf [OF wf]) (use t d(2) d'(2) B(4) in auto)
      ultimately show ?thesis
        using at_row_life [OF wf conjunct1 [OF t]] False B(4) by (auto simp: life_ok_def same_life same_wf_rows)
    qed
  qed
qed

lemma SetWorkflowEnabled_life:
  assumes G: "genv_total G" and wf: "wf_rows (gx G) (edb n)" and ord: "set ord = set task_statuses"
    and c: "SetWorkflowEnabledByUser G ord outcome check user i en n = (n', r)"
  shows "life_ok (gx G) (edb n) (edb n')"
proof -
  note B = genv_totalD [OF G]
  consider (same) "n' = n"
    | (set) t t' json d where "GetWorkflow (gx G) (edb n) ord user i = Inr t"
      "task_status t \<notin> {Completed, Failed, Running}" "en \<longrightarrow> task_status t \<noteq> Enabled" "\<not> en \<longrightarrow> task_status t \<noteq> Disabled"
      "t' = (if en then SetEnabled t else SetDisabled t)" "taskMarshal (gx G) t' = Some json"
      "BatchWrite (gbadger G) (edb n) [task_row t' json, user_row t'] = Inr d"
      "edb n' = drop_old_row (gbadger G) t' (task_status t) d"
    using c unfolding SetWorkflowEnabledByUser_def Let_def
    by (auto split: sum.splits if_splits option.splits)
  then show ?thesis
  proof cases
    case same
    then show ?thesis using life_ok_same [OF wf] by simp
  next
    case set
    note t = found_at_row [OF B(2) wf ord GetWorkflow_found [OF set(1)]]
    from t have "task_status t \<in> set task_statuses" by (simp add: at_row_def)
    with set(2-4) have s: "task_status t = (if en then Disabled else Enabled)" by (auto simp: task_statuses_def)
    have t': "task_id t' = task_id t" "task_status t' = (if en then Enabled else Disabled)" "task_status t' \<in> set task_statuses"
      using terminal_statuses by (auto simp: set(5) SetEnabled_def SetDisabled_def)
    from status_change_only [OF B(1) wf conjunct1 [OF t] t'(1,3) set(6)] set(7,8) B(4)
    have "wf_rows (gx G) (edb n')" "life (gx G) (edb n') = (life (gx G) (edb n))(task_id t \<mapsto> task_status t')" by simp_all
    moreover have "life_change (life (gx G) (edb n)) ((life (gx G) (edb n))(task_id t \<mapsto> task_status t'))"
      using at_row_life [OF wf conjunct1 [OF t]] s t'(2) by (cases en) auto
    ultimately show ?thesis by (rule life_okI)
  qed
qed

text \<open>\<open>DisableWorkflow\<close> writes the copy in memory; it has to be the one in the store.\<close>

definition current :: "'d genv \<Rightarrow> string \<Rightarrow> 'd engine \<Rightarrow> bool" where
  "current G i n \<longleftrightarrow> (\<forall>t. map_of (tasks n) i = Some t \<longrightarrow> task_id t = i \<and> at_row (gx G) (edb n) t)"

lemma DisableWorkflow_life:
  assumes G: "genv_total G" and wf: "wf_rows (gx G) (edb n)" and cur: "current G i n"
    and c: "DisableWorkflow G i n = (n', r)"
  shows "life_ok (gx G) (edb n) (edb n')"
proof -
  note B = genv_totalD [OF G]
  consider (same) "edb n' = edb n"
    | (set) t json d where "map_of (tasks n) i = Some t" "task_status t = Enabled" "taskMarshal (gx G) (SetDisabled t) = Some json"
      "BatchWrite (gbadger G) (edb n) [task_row (SetDisabled t) json, user_row (SetDisabled t)] = Inr d"
      "edb n' = drop_old_row (gbadger G) (SetDisabled t) (task_status t) d"
    using c unfolding DisableWorkflow_def Let_def by (auto split: sum.splits if_splits option.splits)
  then show ?thesis
  proof cases
    case same
    then show ?thesis using life_ok_same [OF wf] by simp
  next
    case set
    from cur set(1) have t: "task_id t = i" "at_row (gx G) (edb n) t" by (auto simp: current_def)
    have t': "task_id (SetDisabled t) = task_id t" "task_status (SetDisabled t) = Disabled"
      "task_status (SetDisabled t) \<in> set task_statuses" using terminal_statuses by (auto simp: SetDisabled_def)
    from status_change_only [OF B(1) wf t(2) t'(1,3) set(3)] set(4,5) B(4) t'(2)
    have "wf_rows (gx G) (edb n')" "life (gx G) (edb n') = (life (gx G) (edb n))(task_id t \<mapsto> Disabled)" by simp_all
    moreover have "life_change (life (gx G) (edb n)) ((life (gx G) (edb n))(task_id t \<mapsto> Disabled))"
      using at_row_life [OF wf t(2)] set(2) by auto
    ultimately show ?thesis by (rule life_okI)
  qed
qed

end
