(* ===== verification/EngineStart.thy ===== *)
theory EngineStart
  imports EngineHandlers
begin

text \<open>
  The start of the engine: the enabled workflows are loaded from the store and the invalid ones among them are failed.
\<close>

section \<open>Start\<close>

text \<open>
  The scan for invalid workflows writes all failed rows in one batch and then deletes the enabled ones; the effect is
  that of failing them one after the other.
\<close>

definition invalid :: "task \<Rightarrow> bool" where
  "invalid t \<longleftrightarrow> ValidateWithError t \<noteq> None"

definition fail_one :: "'d xenv \<Rightarrow> int \<Rightarrow> task \<Rightarrow> 'd \<Rightarrow> 'd" where
  "fail_one E now t d = drop_old_row (xbadger E) (SetFailed now t) (task_status t)
     (write_logged (xbadger E) [task_row (SetFailed now t) (the (taskMarshal E (SetFailed now t))), user_row (SetFailed now t)] d)"

definition fail_rows :: "'d xenv \<Rightarrow> int \<Rightarrow> task \<Rightarrow> (bytes \<times> bytes) list" where
  "fail_rows E now t = [task_row (SetFailed now t) (the (taskMarshal E (SetFailed now t))), user_row (SetFailed now t)]"

lemma SetFailed_frame [simp]: "task_id (SetFailed now t) = task_id t" "task_status (SetFailed now t) = Failed"
  "TaskUserKey (SetFailed now t) = TaskUserKey t"
  by (simp_all add: SetFailed_def TaskUserKey_def Key_def)

lemma detect_loop_eq:
  assumes "\<forall>t. taskMarshal E t \<noteq> None" "\<forall>(i, t)\<in>set ts. task_status t = Enabled"
  shows "detect_loop E now ts = (filter (\<lambda>(i, t). \<not> invalid t) ts,
     concat (map (fail_rows E now) (filter invalid (map snd ts))),
     map (\<lambda>t. WorkflowStorageKey (task_id t) Enabled) (filter invalid (map snd ts)), length (filter invalid (map snd ts)))"
  using assms(2)
proof (induction ts)
  case (Cons it ts)
  obtain i t where it: "it = (i, t)" by (cases it)
  obtain json where "taskMarshal E (SetFailed now t) = Some json" using assms(1) by blast
  with Cons it show ?case by (simp add: invalid_def fail_rows_def user_row_def)
qed simp

definition clear :: "'a \<Rightarrow> ('a \<rightharpoonup> 'b) \<Rightarrow> ('a \<rightharpoonup> 'b)" where
  "clear k m = m(k := None)"

lemma add_then_clear:
  assumes "k \<notin> fst ` set us" shows "clear k (m ++ map_of (rev us)) = clear k m ++ map_of (rev us)"
proof -
  have "map_of (rev us) k = None" using assms by (simp add: map_of_eq_None_iff)
  then show ?thesis by (auto simp: clear_def fun_eq_iff map_add_def split: option.splits)
qed

lemma rows_fold_delete:
  "store_total B \<Longrightarrow> rows_of B (fold (delete_logged B) ks d) = fold clear ks (rows_of B d)"
  by (induction ks arbitrary: d) (simp_all add: rows_delete_logged clear_def)

lemma rows_fail_one:
  assumes "store_total (xbadger E)" "task_status t = Enabled"
  shows "rows_of (xbadger E) (fail_one E now t d) =
    clear (WorkflowStorageKey (task_id t) Enabled) (rows_of (xbadger E) d ++ map_of (rev (fail_rows E now t)))"
  using assms by (simp add: clear_def fail_one_def fail_rows_def rows_drop_old rows_write_logged)

lemma fail_keys:
  "WorkflowStorageKey i Enabled \<notin> fst ` set (concat (map (fail_rows E now) ts))"
  using WorkflowStorageKey_inject [OF terminal_statuses(3,4)] by (auto simp: fail_rows_def task_row_def user_row_def)

lemma fail_all_rows:
  assumes "store_total (xbadger E)" "\<forall>t\<in>set ts. task_status t = Enabled"
  shows "fold clear (map (\<lambda>t. WorkflowStorageKey (task_id t) Enabled) ts)
      (rows_of (xbadger E) d ++ map_of (rev (concat (map (fail_rows E now) ts)))) =
    rows_of (xbadger E) (fold (fail_one E now) ts d)"
  using assms(2)
proof (induction ts arbitrary: d)
  case (Cons t ts)
  let ?us = "concat (map (fail_rows E now) ts)" and ?k = "WorkflowStorageKey (task_id t) Enabled"
  have "clear ?k (rows_of (xbadger E) d ++ map_of (rev (fail_rows E now t @ ?us))) =
      rows_of (xbadger E) (fail_one E now t d) ++ map_of (rev ?us)"
    using add_then_clear [where us = ?us and k = ?k and m = "rows_of (xbadger E) d ++ map_of (rev (fail_rows E now t))", OF fail_keys]
      rows_fail_one [OF assms(1), of t now d] Cons.prems by simp
  with Cons show ?case by simp
qed simp

definition life_oks :: "'d xenv \<Rightarrow> 'd \<Rightarrow> 'd \<Rightarrow> bool" where
  "life_oks E d d' \<longleftrightarrow> wf_rows E d' \<and> life_change\<^sup>*\<^sup>* (life E d) (life E d')"

lemma life_ok_oks: "life_ok E d d' \<Longrightarrow> life_oks E d d'"
  by (auto simp: life_ok_def life_oks_def)

lemma fail_one_life:
  assumes E: "xenv_total E" and wf: "wf_rows E d" and t: "at_row E d t" "task_status t = Enabled"
  shows "life_ok E d (fail_one E now t d)" "life E (fail_one E now t d) = (life E d)(task_id t \<mapsto> Failed)"
    "at_row E d u \<Longrightarrow> task_id u \<noteq> task_id t \<Longrightarrow> at_row E (fail_one E now t d) u"
proof -
  let ?t = "SetFailed now t"
  obtain json where j: "taskMarshal E ?t = Some json" using xenv_encodes [OF E] .
  note d1 = write_logged_eq [OF xenv_totalD(2) [OF E], of d "[task_row ?t json, user_row ?t]"]
  from status_change_only [OF E wf t(1) _ _ j d1] terminal_statuses
  have "wf_rows E (fail_one E now t d)" and l: "life E (fail_one E now t d) = (life E d)(task_id t \<mapsto> Failed)"
    by (simp_all add: fail_one_def j)
  moreover have "life_change (life E d) ((life E d)(task_id t \<mapsto> Failed))" using at_row_life [OF wf t(1)] t(2) by auto
  ultimately show "life_ok E d (fail_one E now t d)" by (rule life_okI)
  show "life E (fail_one E now t d) = (life E d)(task_id t \<mapsto> Failed)" by (rule l)
  assume u: "at_row E d u" "task_id u \<noteq> task_id t"
  then have s: "task_status u \<in> set task_statuses" by (simp add: at_row_def)
  have "rows_of (xbadger E) (fail_one E now t d) (WorkflowStorageKey (task_id u) (task_status u)) =
      rows_of (xbadger E) d (WorkflowStorageKey (task_id u) (task_status u))"
    using WorkflowStorageKey_inject [OF s terminal_statuses(3)] WorkflowStorageKey_inject [OF s terminal_statuses(4)] u(2)
    by (simp add: rows_fail_one [OF xenv_totalD(2) [OF E] t(2)] clear_def fail_rows_def task_row_def user_row_def map_add_def)
  with u(1) show "at_row E (fail_one E now t d) u" by (simp add: at_row_def)
qed

lemma distinct_other: "distinct (map f (t # ts)) \<Longrightarrow> u \<in> set ts \<Longrightarrow> f u \<noteq> f t"
  by (induction ts) auto

lemma fail_all_life:
  assumes "xenv_total E" "wf_rows E d" "\<forall>t\<in>set ts. at_row E d t \<and> task_status t = Enabled" "distinct (map task_id ts)"
  shows "life_oks E d (fold (fail_one E now) ts d) \<and>
    life E (fold (fail_one E now) ts d) = (\<lambda>i. if i \<in> task_id ` set ts then Some Failed else life E d i)"
  using assms(2-4)
proof (induction ts arbitrary: d)
  case (Cons t ts)
  then have t: "at_row E d t" "task_status t = Enabled" by auto
  note f = fail_one_life [OF assms(1) Cons.prems(1) t, where now = now]
  have "life_oks E (fail_one E now t d) (fold (fail_one E now) ts (fail_one E now t d)) \<and>
    life E (fold (fail_one E now) ts (fail_one E now t d)) =
      (\<lambda>i. if i \<in> task_id ` set ts then Some Failed else life E (fail_one E now t d) i)"
  proof (rule Cons.IH)
    show "wf_rows E (fail_one E now t d)" using f(1) by (simp add: life_ok_def)
    show "\<forall>u\<in>set ts. at_row E (fail_one E now t d) u \<and> task_status u = Enabled"
    proof
      fix u assume u: "u \<in> set ts"
      with Cons.prems(2) have "at_row E d u" "task_status u = Enabled" by auto
      moreover have "task_id u \<noteq> task_id t" using distinct_other [OF Cons.prems(3) u] .
      ultimately show "at_row E (fail_one E now t d) u \<and> task_status u = Enabled" using f(3) by blast
    qed
    show "distinct (map task_id ts)" using Cons.prems(3) by simp
  qed
  moreover have "life_oks E d (fold (fail_one E now) ts (fail_one E now t d))"
    using calculation f(1) by (auto simp: life_oks_def life_ok_def intro: converse_rtranclp_into_rtranclp)
  ultimately show ?case using f(2) by (auto simp: fun_eq_iff)
qed (simp add: life_oks_def)

text \<open>What is loaded: the enabled workflows of the store, one entry each.\<close>

definition row_task :: "'d xenv \<Rightarrow> bytes \<times> bytes \<Rightarrow> task" where
  "row_task E kv = the (FromStorageData E (snd kv))"

lemma load_tasks_eq:
  assumes "\<forall>kv\<in>set rows. FromStorageData E (snd kv) \<noteq> None" "distinct (map fst ts @ map (task_id \<circ> row_task E) rows)"
  shows "load_tasks E rows ts = ts @ map (\<lambda>kv. (task_id (row_task E kv), row_task E kv)) rows"
  using assms
proof (induction rows arbitrary: ts)
  case (Cons kv rows)
  obtain k v where kv: "kv = (k, v)" by (cases kv)
  with Cons.prems(1) obtain t where t: "FromStorageData E v = Some t" by auto
  with kv have r: "row_task E kv = t" by (simp add: row_task_def)
  from Cons.prems(2) r have "task_id t \<notin> fst ` set ts" by auto
  then have u: "AList.update (task_id t) t ts = ts @ [(task_id t, t)]" by (induction ts) auto
  have "load_tasks E rows (ts @ [(task_id t, t)]) =
      (ts @ [(task_id t, t)]) @ map (\<lambda>kv. (task_id (row_task E kv), row_task E kv)) rows"
    by (rule Cons.IH) (use Cons.prems r in auto)
  with kv t u r show ?case by simp
qed simp

lemma enabled_prefix: "prefix (WorkflowByStatusStoragePrefix Enabled) k \<longleftrightarrow> (\<exists>i. k = WorkflowStorageKey i Enabled)"
  by (auto simp: WorkflowByStatusStoragePrefix_def WorkflowStorageKey_def join_def prefix_def)

lemma total_GetByPrefix:
  assumes "store_total B"
  obtains rows where "GetByPrefix B d p = Inr rows" "distinct (map fst rows)"
    "\<And>k v. (k, v) \<in> set rows \<longleftrightarrow> prefix p k \<and> rows_of B d k = Some v"
proof -
  note ok = total_badger [OF assms]
  have "\<exists>rows. copy_values B d ks = Inr rows" if "set ks \<subseteq> set (iter_keys B d)" for ks
    using that
  proof (induction ks)
    case (Cons k ks)
    then have "txn_get B d k \<noteq> Inl ErrKeyNotFound" using badger_keys [OF ok, of k d] by simp
    then obtain v where "txn_get B d k = Inr v" using total_reliable [OF assms]
      by (cases "txn_get B d k") (auto simp: badger_reliable_def)
    with Cons show ?case by auto
  qed simp
  from this [of "iter_prefix B d p"] obtain rows where "GetByPrefix B d p = Inr rows"
    using total_reliable [OF assms] by (auto simp: GetByPrefix_def View_def badger_reliable_def iter_prefix_filter [OF ok])
  then show thesis using that [of rows] GetByPrefix_rows [OF ok, of d p rows] GetByPrefix_Inr(1) [OF ok, of d p rows]
      iter_prefix_sorted [OF ok, of d p] by (auto simp: strict_sorted_iff)
qed

text \<open>A store whose enabled rows are loaded one by one.\<close>

lemma load_enabled:
  assumes E: "xenv_total E" and wf: "wf_rows E d"
  obtains rows ts where "GetByPrefix (xbadger E) d (WorkflowByStatusStoragePrefix Enabled) = Inr rows"
    "load_tasks E rows [] = map (\<lambda>t. (task_id t, t)) ts" "distinct (map task_id ts)"
    "\<And>t. t \<in> set ts \<longleftrightarrow> at_row E d t \<and> task_status t = Enabled"
proof -
  note B = xenv_totalD(2) [OF E] and en = terminal_statuses(3)
  obtain rows where rows: "GetByPrefix (xbadger E) d (WorkflowByStatusStoragePrefix Enabled) = Inr rows" "distinct (map fst rows)"
    "\<And>k v. (k, v) \<in> set rows \<longleftrightarrow> (\<exists>i. k = WorkflowStorageKey i Enabled) \<and> rows_of (xbadger E) d k = Some v"
    using total_GetByPrefix [OF B, of d "WorkflowByStatusStoragePrefix Enabled"] unfolding enabled_prefix by metis
  have row: "FromStorageData E (snd kv) = Some (row_task E kv) \<and> fst kv = WorkflowStorageKey (task_id (row_task E kv)) Enabled \<and>
      at_row E d (row_task E kv) \<and> task_status (row_task E kv) = Enabled" if kv: "kv \<in> set rows" for kv
  proof -
    obtain i v where v: "kv = (WorkflowStorageKey i Enabled, v)" "rows_of (xbadger E) d (WorkflowStorageKey i Enabled) = Some v"
      using kv rows(3) [of "fst kv" "snd kv"] that by (metis prod.collapse)
    from wf_rowsD [OF wf en v(2)] obtain t where "FromStorageData E v = Some t" "task_id t = i" "task_status t = Enabled" by metis
    with v en show ?thesis by (simp add: row_task_def at_row_def)
  qed
  have d: "distinct (map (task_id \<circ> row_task E) rows)"
  proof -
    have "map fst rows = map (\<lambda>i. WorkflowStorageKey i Enabled) (map (task_id \<circ> row_task E) rows)" using row by simp
    with rows(2) show ?thesis by (metis distinct_map)
  qed
  let ?ts = "map (row_task E) rows"
  have "load_tasks E rows [] = map (\<lambda>t. (task_id t, t)) ?ts"
    using load_tasks_eq [of rows E "[]"] row d by (simp add: comp_def)
  moreover have "t \<in> set ?ts \<longleftrightarrow> at_row E d t \<and> task_status t = Enabled" for t
  proof
    assume t: "at_row E d t \<and> task_status t = Enabled"
    then obtain v where "rows_of (xbadger E) d (WorkflowStorageKey (task_id t) Enabled) = Some v" "FromStorageData E v = Some t"
      by (auto simp: at_row_def)
    with rows(3) [of "WorkflowStorageKey (task_id t) Enabled" v]
    show "t \<in> set ?ts" by (force simp: row_task_def)
  qed (use row in auto)
  moreover have "distinct (map task_id ?ts)" using d by simp
  ultimately show thesis by (intro that [OF rows(1), of ?ts])
qed

lemma at_row_stored: "at_row E d t \<Longrightarrow> stored E d (task_id t) (task_status t) = Some t"
  by (auto simp: at_row_def stored_def)

lemma life_at_row:
  assumes "wf_rows E d" "life E d i = Some s" obtains t where "at_row E d t" "task_id t = i" "task_status t = s"
  using life_rows [OF assms] unfolding at_row_def by metis

lemma fail_all_frame:
  assumes "xenv_total E" "wf_rows E d" "\<forall>t\<in>set ts. at_row E d t \<and> task_status t = Enabled" "distinct (map task_id ts)"
    and "at_row E d u" "task_id u \<notin> task_id ` set ts"
  shows "at_row E (fold (fail_one E now) ts d) u"
  using assms(2-)
proof (induction ts arbitrary: d)
  case (Cons t ts)
  then have t: "at_row E d t" "task_status t = Enabled" by auto
  note f = fail_one_life [OF assms(1) Cons.prems(1) t, where now = now]
  have "wf_rows E (fail_one E now t d)" using f(1) by (simp add: life_ok_def)
  moreover have "at_row E (fail_one E now t d) v \<and> task_status v = Enabled" if "v \<in> set ts" for v
  proof -
    from that Cons.prems(2) have "at_row E d v" "task_status v = Enabled" by auto
    then show ?thesis using f(3) distinct_other [OF Cons.prems(3) that] by blast
  qed
  moreover have "at_row E (fail_one E now t d) u" using f(3) Cons.prems(4,5) by auto
  ultimately show ?case using Cons by simp
qed simp

lemma detect_store:
  assumes G: "genv_total G" and ts: "\<forall>t\<in>set ts. task_status t = Enabled" "tasks n = map (\<lambda>t. (task_id t, t)) ts"
  obtains n' where "fst (DetectAndHandleInvalidTasks G now n) = n'"
    "tasks n' = map (\<lambda>t. (task_id t, t)) (filter (\<lambda>t. \<not> invalid t) ts)"
    "rows_of (gbadger G) (edb n') = rows_of (gbadger G) (fold (fail_one (gx G) now) (filter invalid ts) (edb n))"
proof -
  note B = genv_totalD [OF G]
  have m: "\<forall>t. taskMarshal (gx G) t \<noteq> None" using B(1) by (simp add: xenv_total_def)
  let ?bad = "filter invalid ts" and ?good = "map (\<lambda>t. (task_id t, t)) (filter (\<lambda>t. \<not> invalid t) ts)"
  let ?us = "concat (map (fail_rows (gx G) now) ?bad)" and ?ks = "map (\<lambda>t. WorkflowStorageKey (task_id t) Enabled) ?bad"
  have "map snd (tasks n) = ts" by (simp add: ts(2) comp_def)
  moreover have "filter (\<lambda>(i, t). \<not> invalid t) (tasks n) = ?good" by (simp add: ts(2) filter_map comp_def)
  ultimately have l: "detect_loop (gx G) now (tasks n) = (?good, ?us, ?ks, length ?bad)"
    using detect_loop_eq [OF m, of "tasks n" now] ts by simp
  show thesis
  proof (cases "?bad = []")
    case True
    have "fst (DetectAndHandleInvalidTasks G now n) = n\<lparr>tasks := ?good\<rparr>"
      unfolding DetectAndHandleInvalidTasks_def l using True by simp
    then show thesis by (rule that) (use True in simp_all)
  next
    case False
    then have us: "?us \<noteq> []" by (cases ?bad) (auto simp: fail_rows_def)
    obtain d where d: "BatchWrite (gbadger G) (edb n) ?us = Inr d"
      "rows_of (gbadger G) d = rows_of (gbadger G) (edb n) ++ map_of (rev ?us)" using total_BatchWrite [OF B(3)] by blast
    let ?n = "with_db (fold (delete_logged (gbadger G)) ?ks d) (n\<lparr>tasks := ?good\<rparr>)"
    have "rows_of (gbadger G) (edb ?n) = fold clear ?ks (rows_of (gbadger G) (edb n) ++ map_of (rev ?us))"
      using rows_fold_delete [OF B(3)] d(2) by simp
    also have "\<dots> = rows_of (gbadger G) (fold (fail_one (gx G) now) ?bad (edb n))"
      using fail_all_rows [OF B(2), of ?bad "edb n" now] ts(1) B(4) by simp
    finally have r: "rows_of (gbadger G) (edb ?n) = rows_of (gbadger G) (fold (fail_one (gx G) now) ?bad (edb n))" .
    have "fst (DetectAndHandleInvalidTasks G now n) = ?n"
      unfolding DetectAndHandleInvalidTasks_def l using False us d(1) by (simp add: Let_def del: concat_eq_Nil_conv)
    then show thesis by (rule that) (use r in \<open>simp_all add: with_db_def\<close>)
  qed
qed

text \<open>
  A start from an empty memory: it does not panic, fails exactly the enabled workflows that are invalid, and leaves in
  memory exactly the enabled workflows of the store.
\<close>

lemma start_life:
  assumes G: "genv_total G" and wf: "wf_rows (gx G) (edb n)" and n: "tasks n = []"
  obtains n' where "engine_MustStart G now None n = Some n'" "life_oks (gx G) (edb n) (edb n')"
    "\<And>i. map_of (tasks n') i = (if life (gx G) (edb n') i = Some Enabled then stored (gx G) (edb n') i Enabled else None)"
    "\<And>i t. map_of (tasks n') i = Some t \<Longrightarrow> ValidateWithError t = None"
    "\<And>i. life (gx G) (edb n') i = (if life (gx G) (edb n) i = Some Enabled \<and> invalid (the (stored (gx G) (edb n) i Enabled))
       then Some Failed else life (gx G) (edb n) i)"
proof -
  note B = genv_totalD [OF G]
  let ?E = "gx G" and ?d = "edb n"
  obtain rows ts where rows: "GetByPrefix (xbadger ?E) ?d (WorkflowByStatusStoragePrefix Enabled) = Inr rows"
    "load_tasks ?E rows [] = map (\<lambda>t. (task_id t, t)) ts" "distinct (map task_id ts)"
    "\<And>t. t \<in> set ts \<longleftrightarrow> at_row ?E ?d t \<and> task_status t = Enabled" using load_enabled [OF B(1) wf] by blast
  let ?bad = "filter invalid ts" and ?good = "filter (\<lambda>t. \<not> invalid t) ts"
  let ?d' = "fold (fail_one ?E now) ?bad ?d"
  obtain n' where n': "fst (DetectAndHandleInvalidTasks G now (n\<lparr>tasks := map (\<lambda>t. (task_id t, t)) ts\<rparr>)) = n'"
    "tasks n' = map (\<lambda>t. (task_id t, t)) ?good" "rows_of (gbadger G) (edb n') = rows_of (gbadger G) ?d'"
    using detect_store [OF G, of ts "n\<lparr>tasks := map (\<lambda>t. (task_id t, t)) ts\<rparr>" now] rows(4) by auto
  have bad: "\<forall>t\<in>set ?bad. at_row ?E ?d t \<and> task_status t = Enabled" "distinct (map task_id ?bad)"
    using rows(3,4) by (auto simp: distinct_map_filter)
  note fl = fail_all_life [OF B(1) wf bad, where now = now]
  have s: "same_workflows (xbadger ?E) ?d' (edb n')" using n'(3) B(4) by (simp add: same_workflows_def)
  have l: "life ?E (edb n') i = (if i \<in> task_id ` set ?bad then Some Failed else life ?E ?d i)" for i
    using fl same_life [OF s] by simp
  have good: "task_id t \<notin> task_id ` set ?bad" "at_row ?E (edb n') t" if t: "t \<in> set ?good" for t
  proof -
    show i: "task_id t \<notin> task_id ` set ?bad" using t rows(3) by (auto simp: distinct_map dest: inj_onD)
    show "at_row ?E (edb n') t"
      using fail_all_frame [OF B(1) wf bad _ i, where now = now] t rows(4) at_row_same [OF s] by simp
  qed
  have m: "map_of (tasks n') i = Some t \<longleftrightarrow> t \<in> set ?good \<and> task_id t = i" for i t
    unfolding n'(2) using map_of_eq_Some_iff [of "map (\<lambda>t. (task_id t, t)) ?good" i t] rows(3)
    by (auto simp: comp_def distinct_map_filter)
  have en: "life ?E (edb n') i = Some Enabled \<longleftrightarrow> (\<exists>t\<in>set ?good. task_id t = i)" for i
  proof
    assume "life ?E (edb n') i = Some Enabled"
    then have i: "i \<notin> task_id ` set ?bad" "life ?E ?d i = Some Enabled" using l [of i] by (auto split: if_splits)
    obtain t where "at_row ?E ?d t" "task_id t = i" "task_status t = Enabled" using life_at_row [OF wf i(2)] .
    with i(1) rows(4) [of t] show "\<exists>t\<in>set ?good. task_id t = i" by auto
  next
    assume "\<exists>t\<in>set ?good. task_id t = i"
    then obtain t where "t \<in> set ?good" "task_id t = i" by blast
    with good(1) [of t] l [of i] rows(4) [of t] at_row_life [OF wf, of t] show "life ?E (edb n') i = Some Enabled" by auto
  qed
  show thesis
  proof (rule that [of n'])
    show "engine_MustStart G now None n = Some n'" using rows(1,2) n n'(1) B(4) by (simp add: engine_MustStart_def)
    show "life_oks ?E ?d (edb n')" using fl s by (auto simp: life_oks_def same_wf_rows same_life)
    show "map_of (tasks n') i = (if life ?E (edb n') i = Some Enabled then stored ?E (edb n') i Enabled else None)" for i
    proof (cases "map_of (tasks n') i")
      case None
      then show ?thesis using en m by (metis option.distinct(1))
    next
      case (Some t)
      then have "t \<in> set ?good" "task_id t = i" "task_status t = Enabled" using m rows(4) [of t] by auto
      then show ?thesis using Some en good(2) [of t] at_row_stored [of ?E "edb n'" t] by auto
    qed
    show "ValidateWithError t = None" if "map_of (tasks n') i = Some t" for i t
      using that m by (auto simp: invalid_def)
    show "life ?E (edb n') i = (if life ?E ?d i = Some Enabled \<and> invalid (the (stored ?E ?d i Enabled))
       then Some Failed else life ?E ?d i)" for i
    proof -
      have "i \<in> task_id ` set ?bad \<longleftrightarrow> life ?E ?d i = Some Enabled \<and> invalid (the (stored ?E ?d i Enabled))"
      proof
        assume "i \<in> task_id ` set ?bad"
        then obtain t where "at_row ?E ?d t" "task_status t = Enabled" "invalid t" "task_id t = i" using rows(4) by auto
        with at_row_life [OF wf] at_row_stored [of ?E ?d t] show "life ?E ?d i = Some Enabled \<and> invalid (the (stored ?E ?d i Enabled))"
          by auto
      next
        assume i: "life ?E ?d i = Some Enabled \<and> invalid (the (stored ?E ?d i Enabled))"
        obtain t where "at_row ?E ?d t" "task_id t = i" "task_status t = Enabled" using life_at_row [OF wf conjunct1 [OF i]] .
        with i rows(4) at_row_stored [of ?E ?d t] show "i \<in> task_id ` set ?bad" by auto
      qed
      with l show ?thesis by simp
    qed
  qed
qed

end
