(* ===== verification/Codec.thy ===== *)
theory Codec
  imports Dispatch "HOL-Library.Countable"
begin

text \<open>
  Codecs for the records of the engine: every type that is stored is countable, and a value is stored as the decimal
  digits of its number. They show that what the engine relies on its codecs for can be had.
\<close>

lemma countable_inj: "inj f \<Longrightarrow> OFCLASS('a, countable_class)" for f :: "'a \<Rightarrow> 'b :: countable"
  by (rule countable_classI [of "to_nat \<circ> f"]) (simp add: inj_eq)

instance char :: countable
  by (rule countable_inj [of "of_char :: char \<Rightarrow> nat"]) (auto intro: injI)

instance word :: (len) countable
  by (rule countable_inj [of uint]) (auto intro: injI)

instance task_status :: countable
  by countable_datatype

instance completion_reason :: countable
  by countable_datatype

instance fixed_time_config_ext :: (countable) countable
  by (rule countable_inj [of "\<lambda>r. (fixed_epochs r, fixed_time_config.more r)"]) (auto intro: injI)

instance cron_config_ext :: (countable) countable
  by (rule countable_inj [of "\<lambda>r. (cron_schedules r, cron_config.more r)"]) (auto intro: injI)

instance block_config_ext :: (countable) countable
  by (rule countable_inj [of "\<lambda>r. (block_interval r, block_chain_id r, block_config.more r)"]) (auto intro: injI)

instance event_config_ext :: (countable) countable
  by (rule countable_inj [of "\<lambda>r. (event_queries r, event_chain_id r, event_config.more r)"]) (auto intro: injI)

instance trigger_type :: countable
  by countable_datatype

instance trigger_ext :: (countable) countable
  by (rule countable_inj [of "\<lambda>r. (trigger_name r, trigger_kind r, trigger.more r)"]) (auto intro: injI)

instance float64 :: countable
  by countable_datatype

instance retry_policy_ext :: (countable) countable
  by (rule countable_inj [of "\<lambda>r. (max_attempts r, backoff_ms r, backoff_multiplier r, max_backoff_ms r, retry_on r,
      retry_policy.more r)"]) (auto intro: injI)

instance loop_runner :: countable
  by countable_datatype

instance node_type :: countable
  by countable_datatype

instance node_ext :: (countable) countable
  by (rule countable_inj [of "\<lambda>r. (node_id r, node_name r, node.node_type r, node_retry_policy r, node.more r)"]) (auto intro: injI)

instance jvalue :: countable
  by countable_datatype

instance task_ext :: (countable) countable
  by (rule countable_inj [of "\<lambda>t. (task_id t, task_owner t, smart_wallet_address t, task_name t, start_at t, expired_at t,
      max_execution t, execution_count t, completed_at t, task.completion_reason t, task.task_status t, task_trigger t,
      task_nodes t, task_edges t, input_variables t, last_ran_at t, last_validation_error t,
      consecutive_validation_failures t, task.more t)"])
    (auto intro: injI)

instance wake_kind :: countable
  by countable_datatype

instance external_spec_ext :: (countable) countable
  by (rule countable_inj [of "\<lambda>r. (channel r, approvers r, prompt r, external_spec.more r)"]) (auto intro: injI)

instance persisted_wake_ext :: (countable) countable
  by (rule countable_inj [of "\<lambda>r. (p_kind r, p_task r, p_chain_event r, p_external r, p_timeout r, persisted_wake.more r)"])
    (auto intro: injI)

instance step_ext :: (countable) countable
  by (rule countable_inj [of "\<lambda>r. (step_id r, step_name r, step_success r, step_error r, step_skipped r, step.more r)"])
    (auto intro: injI)

instance exec_status :: countable
  by countable_datatype

instance execution_ext :: (countable) countable
  by (rule countable_inj [of "\<lambda>x. (ex_id x, ex_start x, ex_end x, ex_status x, ex_error x, ex_steps x, ex_index x, ex_resume x,
      ex_wait_reason x, execution.more x)"]) (auto intro: injI)

instance trigger_enum :: countable
  by countable_datatype

instance queue_data_ext :: (countable) countable
  by (rule countable_inj [of "\<lambda>q. (qd_type q, qd_output q, qd_execution q, qd_inputs q, queue_data.more q)"]) (auto intro: injI)

section \<open>Environments in memory\<close>

text \<open>A value is written as one stroke more than its number.\<close>

definition strokes :: "'a :: countable \<Rightarrow> bytes option" where
  "strokes x = Some (replicate (Suc (to_nat x)) CHR ''1'')"

definition of_strokes :: "bytes \<Rightarrow> 'a :: countable option" where
  "of_strokes b = Some (from_nat (length b - 1))"

lemma of_strokes: "strokes x = Some b \<Longrightarrow> b \<noteq> [] \<and> of_strokes b = Some x"
  by (auto simp: strokes_def of_strokes_def)

definition mem_xenv :: "(bytes \<times> bytes) list xenv" where
  "mem_xenv = \<lparr>xbadger = mem_badger, taskMarshal = strokes, taskUnmarshal = of_strokes, execMarshal = strokes,
     execUnmarshal = of_strokes, wakeCodec = \<lparr>eventMarshal = strokes, eventUnmarshal = of_strokes, wakeMarshal = strokes,
     wakeUnmarshal = of_strokes\<rparr>,
     varsCodec = \<lparr>varsMarshal = strokes \<circ> AList.clearjunk, varsDecode = of_strokes, asDecoded = (\<lambda>v. v)\<rparr>\<rparr>"

definition mem_genv :: "(bytes \<times> bytes) list genv" where
  "mem_genv = \<lparr>gx = mem_xenv, gq = mem_env, dataMarshal = strokes, dataUnmarshal = of_strokes, gapproved = None, ggateway = True\<rparr>"

lemma mem_genv_sel [simp]: "gx mem_genv = mem_xenv" "gq mem_genv = mem_env" "gbadger mem_genv = mem_badger"
  "xbadger mem_xenv = mem_badger" "gapproved mem_genv = None" "ggateway mem_genv"
  by (simp_all add: mem_genv_def mem_xenv_def gbadger_def)

lemma mem_xenv_ok: "xenv_ok mem_xenv" and mem_xenv_encodes: "taskMarshal mem_xenv t \<noteq> None"
proof -
  have "wake_codec_ok (wakeCodec mem_xenv)" by (auto simp: wake_codec_ok_def mem_xenv_def dest: of_strokes)
  moreover have "vars_codec_ok (varsCodec mem_xenv)"
    by (auto simp: vars_codec_ok_def mem_xenv_def map_of_clearjunk distinct_clearjunk option.map_ident dest: of_strokes)
  ultimately show "xenv_ok mem_xenv" using mem_badger_ok by (auto simp: xenv_ok_def) (auto simp: mem_xenv_def dest: of_strokes)
  show "taskMarshal mem_xenv t \<noteq> None" by (simp add: mem_xenv_def strokes_def)
qed

lemma mem_genv_ok: "genv_ok mem_genv"
  using mem_xenv_ok mem_env_ok by (auto simp: genv_ok_def) (auto simp: mem_genv_def dest: of_strokes)

definition empty_engine :: "(bytes \<times> bytes) list engine" where
  "empty_engine = \<lparr>equeue = empty_queue, tasks = [], ops = no_operators, processedTriggerIDs = []\<rparr>"

end
