(* ===== verification/EngineSteps.thy ===== *)
theory EngineSteps
  imports EngineStart Codec
begin

text \<open>
  The engine as a transition system: one step per handler that may change the store, and the proof that every
  sequence of steps keeps the store well-formed and implements the life of a workflow.
\<close>

section \<open>Steps\<close>

definition restarted :: "'d engine \<Rightarrow> 'd engine" where
  "restarted n = n\<lparr>tasks := [], ops := no_operators, processedTriggerIDs := []\<rparr>"

text \<open>
  A step is labelled with the handler that ran; the labels of creation, of the disabling by the chain limit and of an
  operator notification carry what later statements about sequences of handlers refer to.
\<close>

datatype event = ECreate string | EDelete | ESet | EDisable string | ETrigger
  | ENotify int notify_req execution_state | EPerform | ESignal | ESweep | ERead | EConnect | EStream | EClose | EBatch | ERestart

inductive engine_step :: "'d genv \<Rightarrow> event \<Rightarrow> 'd engine \<Rightarrow> 'd engine \<Rightarrow> bool" for G where
  create: "CreateWorkflow G C outcome now taskID user r n = (n', res) \<Longrightarrow> engine_step G (ECreate taskID) n n'"
| delete: "DeleteWorkflowByUser G ord addr i n = (n', r1) \<Longrightarrow> set ord = set task_statuses \<Longrightarrow> engine_step G EDelete n n'"
| set: "SetWorkflowEnabledByUser G ord outcome check addr i en n = (n', r2) \<Longrightarrow> set ord = set task_statuses \<Longrightarrow>
    engine_step G ESet n n'"
| disable: "DisableWorkflow G i n = (n', r3) \<Longrightarrow> engine_step G (EDisable i) n n'"
| trigger: "TriggerWorkflow G ord t0 t1 seq fresh lease manual out addr p n = (n', r4) \<Longrightarrow> set ord = set task_statuses \<Longrightarrow>
    engine_step G ETrigger n n'"
| notify: "AggregateChecksResultWithState G ord vm now seq fresh a q n = (n', st, r5) \<Longrightarrow> set ord = set task_statuses \<Longrightarrow>
    engine_step G (ENotify now q st) n n'"
| perform: "Perform G lt rt t0 t1 retry out j (edb n) = (d, r6) \<Longrightarrow> engine_step G EPerform n (with_db d n)"
| signal: "SignalExecution (gx G) ord vm now addr wid xid dec body (edb n) = (d, r7) \<Longrightarrow> set ord = set task_statuses \<Longrightarrow>
    engine_step G ESignal n (with_db d n)"
| sweep: "set ord = set task_statuses \<Longrightarrow> engine_step G ESweep n (sweepExpiredWaits G ord now n)"
| read: "GetExecution (gx G) ord now addr wid xid (edb n) = (d, r8) \<Longrightarrow> engine_step G ERead n (with_db d n)"
| connect: "open_stream now conn req (ops n) = Inr S \<Longrightarrow> engine_step G EConnect n (n\<lparr>ops := S\<rparr>)"
| stream: "pendingChainEventTriggers (gx G) ord (edb n) = (d, its) \<Longrightarrow> set ord = set task_statuses \<Longrightarrow>
    stream_pass (gapproved G) outcome (tasks n) its a (ops n) = (S, ms, alive) \<Longrightarrow>
    engine_step G EStream n ((with_db d n)\<lparr>ops := S\<rparr>)"
| close: "engine_step G EClose n (on_ops (close_stream (gapproved G) (tasks n) conn a) n)"
| batch: "engine_step G EBatch n (on_ops (sendBatchedNotifications batch_outcome) n)"
| restart: "engine_MustStart G now seq_err (restarted n) = Some n' \<Longrightarrow> engine_step G ERestart n n'"

text \<open>
  The steps along which the life of a workflow is kept: an id is issued for one creation only (it is a new ULID, which is
  not empty and has no colon), and the chain limit disables a workflow when the copy in memory is the stored record.
  \<open>DisableWorkflow\<close> does not check the latter, and the step relation does not either.
\<close>

fun regular :: "'d genv \<Rightarrow> 'd engine \<Rightarrow> event \<Rightarrow> bool" where
  "regular G n (ECreate i) \<longleftrightarrow> i \<noteq> [] \<and> CHR '':'' \<notin> set i \<and> life (gx G) (edb n) i = None"
| "regular G n (EDisable i) \<longleftrightarrow> current G i n"
| "regular G n _ \<longleftrightarrow> True"

definition regular_step :: "'d genv \<Rightarrow> 'd engine \<Rightarrow> 'd engine \<Rightarrow> bool" where
  "regular_step G n n' \<longleftrightarrow> (\<exists>l. regular G n l \<and> engine_step G l n n')"

section \<open>Reads and streams\<close>

lemma GetExecution_same:
  assumes "store_total (xbadger E)" "GetExecution E ord now addr wid xid d = (d', r)" shows "same_workflows (xbadger E) d d'"
proof -
  have "same_workflows (xbadger E) d (snd (pending_index (xbadger E) t xid d))" for t
    using same_index [OF assms(1), of t d] by (auto simp: pending_index_def Let_def split: sum.splits option.splits)
  with assms(2) show ?thesis unfolding GetExecution_def
    by (auto split: sum.splits option.splits prod.splits) (metis snd_conv)
qed

lemma pending_triggers_same:
  assumes "store_total (xbadger E)" shows "same_workflows (xbadger E) d (fst (pending_triggers E ord ws d))"
proof (induction ws arbitrary: d)
  case (Cons ew ws)
  obtain x w where ew: "ew = (x, w)" by (cases ew)
  have "same_workflows (xbadger E) d (fst (pending_triggers E ord ws (gc_durable (xbadger E) x d)))"
    using same_workflows_trans [OF same_gc_durable [OF assms] Cons.IH] .
  with Cons.IH [of d] show ?case unfolding ew by (auto split: sum.splits find_error.splits prod.splits)
qed simp

lemma edb_ops [simp]: "edb (n\<lparr>ops := S\<rparr>) = edb n"
  by (simp add: edb_def del: with_db_queue)

lemma restarted_sel [simp]: "edb (restarted n) = edb n" "tasks (restarted n) = []"
  by (simp_all add: restarted_def edb_def del: with_db_queue)

section \<open>The refinement\<close>

lemma step_life:
  assumes G: "genv_total G" and wf: "wf_rows (gx G) (edb n)" and r: "regular G n l"
    and s: "engine_step G l n n'"
  shows "life_ok (gx G) (edb n) (edb n') \<or> (\<exists>now. engine_MustStart G now None (restarted n) = Some n')"
  using s r
proof cases
  case create
  then show ?thesis using CreateWorkflow_life [OF G wf] r by auto
next
  case delete
  then show ?thesis using DeleteWorkflow_life [OF G wf] by blast
next
  case set
  then show ?thesis using SetWorkflowEnabled_life [OF G wf] by blast
next
  case disable
  then show ?thesis using DisableWorkflow_life [OF G wf] r by auto
next
  case trigger
  then show ?thesis using TriggerWorkflow_life [OF G wf] by blast
next
  case notify
  then show ?thesis using Aggregate_life [OF G wf] by blast
next
  case (perform lt rt t0 t1 retry out j d r6)
  then show ?thesis using Perform_life [OF G wf perform(3)] by simp
next
  case (signal ord vm now addr wid xid dec body d r7)
  then show ?thesis using SignalExecution_life [OF genv_totalD(1) [OF G] wf signal(4,3)] by simp
next
  case (sweep ord now)
  then show ?thesis using life_ok_same [OF wf] sweepExpiredWaits_same [OF G] genv_totalD(4) [OF G] by metis
next
  case (read ord now addr wid xid d r8)
  then show ?thesis using life_ok_same [OF wf GetExecution_same [OF genv_totalD(2) [OF G] read(3)]] by simp
next
  case (stream ord d its)
  have "same_workflows (xbadger (gx G)) (edb n) d"
    using stream(3) pending_triggers_same [OF genv_totalD(2) [OF G], of "edb n" ord]
    by (auto simp: pendingChainEventTriggers_def split: sum.splits) (metis fst_conv)
  then show ?thesis using life_ok_same [OF wf] stream(2) by simp
next
  case (restart now seq_err)
  then have "seq_err = None" by (auto simp: engine_MustStart_def split: if_splits)
  with restart show ?thesis by blast
qed (use life_ok_same [OF wf] in simp_all)

lemma step_lives:
  "genv_total G \<Longrightarrow> wf_rows (gx G) (edb n) \<Longrightarrow> regular_step G n n' \<Longrightarrow> life_oks (gx G) (edb n) (edb n')"
  unfolding regular_step_def using step_life [of G n _ n'] life_ok_oks start_life [of G "restarted n"] by (metis option.inject restarted_sel)

text \<open>
  The contract between a transition system and its specification: an invariant that every step keeps, and under which a
  step is a sequence of steps of the specification. It carries over to runs.
\<close>

locale simulation =
  fixes inv :: "'s \<Rightarrow> bool" and abs :: "'s \<Rightarrow> 'a" and step :: "'s \<Rightarrow> 's \<Rightarrow> bool" and spec :: "'a \<Rightarrow> 'a \<Rightarrow> bool"
  assumes step_keeps: "inv s \<Longrightarrow> step s s' \<Longrightarrow> inv s'"
    and step_refines: "inv s \<Longrightarrow> step s s' \<Longrightarrow> spec\<^sup>*\<^sup>* (abs s) (abs s')"
begin

lemma trace_keeps: "step\<^sup>*\<^sup>* s s' \<Longrightarrow> inv s \<Longrightarrow> inv s'"
  by (induction rule: rtranclp_induct) (auto intro: step_keeps)

lemma trace_refines:
  assumes "step\<^sup>*\<^sup>* s s'" "inv s" shows "spec\<^sup>*\<^sup>* (abs s) (abs s')"
  using assms
proof (induction rule: rtranclp_induct)
  case (step s' s'')
  from step_refines [OF trace_keeps [OF step.hyps(1) step.prems] step.hyps(2)] step.IH [OF step.prems]
  show ?case by (rule rtranclp_trans [rotated])
qed simp

end

interpretation lifecycle: simulation "\<lambda>n. genv_total G \<and> wf_rows (gx G) (edb n)" "\<lambda>n. life (gx G) (edb n)" "regular_step G" life_change
  for G
  using step_lives [of G] by unfold_locales (auto simp: life_oks_def)

lemma step_terminal:
  assumes "genv_total G" "wf_rows (gx G) (edb n)" "regular G n l" "engine_step G l n n'"
    "life (gx G) (edb n) i = Some s" "terminal s"
  shows "life (gx G) (edb n') i = None \<or> (\<exists>s'. life (gx G) (edb n') i = Some s' \<and> terminal s')"
  using step_life [OF assms(1-4)]
proof (elim disjE exE)
  assume "life_ok (gx G) (edb n) (edb n')"
  then show ?thesis using life_change_terminal [of "life (gx G) (edb n)" "life (gx G) (edb n')" i s] assms(5,6) by (simp add: life_ok_def)
next
  fix now assume "engine_MustStart G now None (restarted n) = Some n'"
  moreover have "wf_rows (gx G) (edb (restarted n))" using assms(2) by simp
  ultimately have "life (gx G) (edb n') i = (if life (gx G) (edb n) i = Some Enabled \<and>
      invalid (the (stored (gx G) (edb n) i Enabled)) then Some Failed else life (gx G) (edb n) i)"
    using start_life [OF assms(1), of "restarted n" now] unfolding restarted_sel by (metis option.inject)
  with assms(5,6) have "life (gx G) (edb n') i = Some s" by (auto simp: terminal_def)
  with assms(6) show ?thesis by simp
qed

section \<open>A sample\<close>

lemma store_workflow_row:
  assumes G: "genv_total G" and t: "task_status t = Enabled" and c: "store_workflow G outcome t n = (n', res)"
  shows "res = Inr t \<and> rows_of (gbadger G) (edb n') (WorkflowStorageKey (task_id t) Enabled) = taskMarshal (gx G) t"
proof -
  note B = genv_totalD [OF G]
  obtain json where j: "taskMarshal (gx G) t = Some json" using xenv_encodes [OF B(1)] .
  obtain d where d: "BatchWrite (gbadger G) (edb n) [task_row t json, user_row t] = Inr d"
    "rows_of (gbadger G) d = rows_of (gbadger G) (edb n) ++ map_of (rev [task_row t json, user_row t])"
    using total_BatchWrite [OF B(3)] by blast
  have "edb n' = d" "res = Inr t" using c j d(1) t by (auto simp: store_workflow_def user_row_def)
  with d(2) t j show ?thesis by (simp add: task_row_def user_row_def)
qed

definition sample_create :: create_env where
  "sample_create = \<lparr>cw_isHex = (\<lambda>s. take 2 s = ''0x''), cw_canonHex = (\<lambda>s. s), cw_schedule = (\<lambda>_. None), cw_mult = (\<lambda>_ x. x),
     cw_chain = 1, cw_gas = (\<lambda>_. None), cw_resolve = (\<lambda>tr _. Inr tr), cw_addresses = (\<lambda>_. None), cw_wallet = (\<lambda>_. None),
     cw_parts = (\<lambda>_. None), cw_policy = (\<lambda>_. None)\<rparr>"

definition sample_id :: string where
  "sample_id = ''01J0000000000000000000000A''"

lemma sample_id [simp]: "sample_id \<noteq> []" "CHR '':'' \<notin> set sample_id" "ValidateTaskId sample_id"
  "parseInternalTriggerTaskID sample_id = None"
  by (simp_all add: sample_id_def ValidateTaskId_def TaskIDLength_def parseInternalTriggerTaskID_def internalTriggerPrefix_def)

lemma mem_genv_total: "genv_total mem_genv"
  using mem_genv_ok mem_xenv_ok mem_xenv_encodes mem_badger_total by (simp add: genv_total_def xenv_total_def)

lemma empty_store: "wf_rows mem_xenv (edb empty_engine)" "life mem_xenv (edb empty_engine) i = None" "tasks empty_engine = []"
proof -
  have "rows_of mem_badger (edb empty_engine) k = None" for k
    by (simp add: empty_engine_def edb_def empty_queue_def NewQueue_def del: with_db_queue) (simp add: rows_of_def mem_badger_def)
  then show "wf_rows mem_xenv (edb empty_engine)" "life mem_xenv (edb empty_engine) i = None"
    by (simp_all add: wf_rows_def life_None)
qed (simp add: empty_engine_def)

lemma sample_created:
  obtains n t where "CreateWorkflow mem_genv sample_create (\<lambda>_. SendOk) 0 sample_id ''0x01'' example_req empty_engine = (n, Inr t)"
    "regular_step mem_genv empty_engine n" "life mem_xenv (edb n) sample_id = Some Enabled" "wf_rows mem_xenv (edb n)"
    "GetWorkflowByID mem_xenv (edb n) task_statuses sample_id = Inr t" "task_owner t = ''0x01''"
proof -
  let ?c = "CreateWorkflow mem_genv sample_create (\<lambda>_. SendOk) 0 sample_id ''0x01'' example_req empty_engine"
  obtain t where t: "NewWorkflowFromProtobuf (\<lambda>s. take 2 s = ''0x'') (\<lambda>s. s) ''0x01'' sample_id example_req = Inr t"
    "task_trigger t = Some \<lparr>trigger_name = ''tick'', trigger_kind = Manual\<rparr>" "task_nodes t = req_nodes example_req"
    by (simp add: NewWorkflowFromProtobuf_def example_req_def ValidateInputVariablesSettings_def
        extractSettings_def string_field_def is_blank_def Let_def ValidateWithError_def
        validate_trigger_name_def ValidateNodeNameForJavaScript_def jsIdentifierRegex_def js_start_def
        js_part_def is_alpha_def jsReservedWords_def)
  have e: "task_id t = sample_id \<and> task_status t = Enabled \<and> task_owner t = ''0x01''" using NewWorkflow_Inr [OF t(1)] by metis
  have "create_request 0 [] ''0x01'' example_req = Inr example_req"
    by (simp add: create_request_def example_req_def checkActiveWorkflowQuota_def MaxActiveWorkflowsPerOwner_def)
  moreover have "t\<lparr>task_trigger := Some \<lparr>trigger_name = ''tick'', trigger_kind = Manual\<rparr>\<rparr> = t" using t(2) by (cases t) simp
  then have "create_checks sample_create True 0 no_operators t = Inr t"
    using t(2,3) by (simp add: create_checks_def Let_def sample_create_def validateTriggerFrequency_def check_coverage_def
        chainNeedsOperatorMonitoring_def validateAllNodeNamesForJavaScript_def example_req_def validate_trigger_name_def
        ValidateNodeNameForJavaScript_def jsIdentifierRegex_def js_start_def js_part_def is_alpha_def jsReservedWords_def
        validateRetryPolicy_def)
  ultimately have c: "?c = store_workflow mem_genv (\<lambda>_. SendOk) t empty_engine"
    using t(1) by (simp add: CreateWorkflow_def sample_create_def empty_engine_def)
  obtain n res where n: "store_workflow mem_genv (\<lambda>_. SendOk) t empty_engine = (n, res)" by force
  from store_workflow_row [OF mem_genv_total _ n] e have r: "res = Inr t"
    "rows_of mem_badger (edb n) (WorkflowStorageKey sample_id Enabled) = taskMarshal mem_xenv t" by simp_all
  from c n r(1) have c': "?c = (n, Inr t)" by simp
  then have "engine_step mem_genv (ECreate sample_id) empty_engine n" by (rule create)
  moreover have "regular mem_genv empty_engine (ECreate sample_id)" by (simp add: empty_store)
  ultimately have s: "regular_step mem_genv empty_engine n" unfolding regular_step_def by blast
  from step_lives [OF mem_genv_total _ s] empty_store(1) have wf: "wf_rows mem_xenv (edb n)" by (simp add: life_oks_def)
  obtain json where j: "taskMarshal mem_xenv t = Some json" using mem_xenv_encodes by blast
  with marshalled [OF mem_xenv_ok j] e have "GetWorkflowByID mem_xenv (edb n) task_statuses sample_id = Inr t"
    using find_some [of mem_xenv "edb n" task_statuses Enabled sample_id json t] r(2) wf mem_badger_total terminal_statuses(3) by simp
  with that [OF c' s _ wf] r(2) wf j e show thesis by (simp add: life_Some terminal_statuses)
qed

text \<open>
C1: The engine implements the life of a workflow. Take a database that never fails and a store in which every workflow
has at most one status row, under the status its record carries and agreeing with the index of its owner. Then this
holds again after any sequence of handlers (creation, deletion, enabling and disabling, triggering, operator
notifications, queue jobs, signals, the sweep, reads, operator streams and restarts) in which every created workflow gets
an id that is not in use, not empty and without a colon, and in which the chain limit disables a workflow only while the
copy in memory is the stored record; the statuses change only along the specification \<open>life_change\<close>; and a step never
takes a completed or failed workflow back to an active status. The excluded disabling, with a stale copy in memory, is
reachable in the code and does bring an ended workflow back.
\<close>

theorem engine_refines_lifecycle:
  assumes "genv_total G" "wf_rows (gx G) (edb n)" "(regular_step G)\<^sup>*\<^sup>* n n'" "regular G n' l" "engine_step G l n' n''"
  shows "wf_rows (gx G) (edb n'') \<and> life_change\<^sup>*\<^sup>* (life (gx G) (edb n)) (life (gx G) (edb n'')) \<and>
    (\<forall>i s. life (gx G) (edb n') i = Some s \<and> terminal s \<longrightarrow>
       life (gx G) (edb n'') i = None \<or> (\<exists>s'. life (gx G) (edb n'') i = Some s' \<and> terminal s'))"
proof -
  have n': "wf_rows (gx G) (edb n')" using lifecycle.trace_keeps [OF assms(3)] assms(1,2) by blast
  moreover have "regular_step G n' n''" using assms(4,5) unfolding regular_step_def by blast
  with assms(3) have "(regular_step G)\<^sup>*\<^sup>* n n''" by simp
  then have "wf_rows (gx G) (edb n'')" "life_change\<^sup>*\<^sup>* (life (gx G) (edb n)) (life (gx G) (edb n''))"
    using lifecycle.trace_keeps lifecycle.trace_refines assms(1,2) by blast+
  ultimately show ?thesis using step_terminal [OF assms(1) _ assms(4,5)] by blast
qed

theorem engine_refines_lifecycle_witness:
  "\<exists>n n'. regular_step mem_genv empty_engine n \<and> life mem_xenv (edb n) sample_id = Some Enabled \<and>
     engine_step mem_genv EDelete n n' \<and> wf_rows mem_xenv (edb n') \<and> life_change\<^sup>*\<^sup>* Map.empty (life mem_xenv (edb n'))"
proof -
  obtain n t where n: "regular_step mem_genv empty_engine n" "life mem_xenv (edb n) sample_id = Some Enabled"
    using sample_created by metis
  obtain n' r where "DeleteWorkflowByUser mem_genv task_statuses zero_address sample_id n = (n', r)" by force
  then have s: "engine_step mem_genv EDelete n n'" by (rule delete) simp
  have "life mem_xenv (edb empty_engine) = Map.empty" using empty_store(2) by (simp add: fun_eq_iff)
  then show ?thesis
    using engine_refines_lifecycle [OF mem_genv_total _ r_into_rtranclp [of "regular_step mem_genv", OF n(1)] _ s] empty_store(1) n s by auto
qed

text \<open>
C12: A start panics exactly when the sequence cannot be obtained or the scan of the enabled workflows fails; otherwise it
brings memory and store into agreement. On a database that never fails, with the sequence obtained and a store in which
every workflow has at most one status row, under the status its record carries, the start returns; every enabled
workflow whose record is invalid is then marked failed, no other workflow changes its status, and the map in memory holds
exactly the enabled workflows of the store, all of them valid.
\<close>

theorem start_loads_enabled:
  assumes "genv_total G" "wf_rows (gx G) (edb n)"
  shows "(engine_MustStart G' now seq_err m = None \<longleftrightarrow> seq_err \<noteq> None \<or>
      (\<exists>e. GetByPrefix (gbadger G') (edb m) (WorkflowByStatusStoragePrefix Enabled) = Inl e)) \<and>
    (\<exists>n'. engine_MustStart G now None (restarted n) = Some n' \<and> wf_rows (gx G) (edb n') \<and>
    (\<forall>i. life (gx G) (edb n') i = (if life (gx G) (edb n) i = Some Enabled \<and>
        ValidateWithError (the (stored (gx G) (edb n) i Enabled)) \<noteq> None then Some Failed else life (gx G) (edb n) i) \<and>
      map_of (tasks n') i = (if life (gx G) (edb n') i = Some Enabled then stored (gx G) (edb n') i Enabled else None) \<and>
      (\<forall>t. map_of (tasks n') i = Some t \<longrightarrow> ValidateWithError t = None)))"
proof (rule conjI)
  show "engine_MustStart G' now seq_err m = None \<longleftrightarrow> seq_err \<noteq> None \<or>
      (\<exists>e. GetByPrefix (gbadger G') (edb m) (WorkflowByStatusStoragePrefix Enabled) = Inl e)"
    by (simp add: engine_MustStart_def split: sum.split)
next
  from assms(2) have "wf_rows (gx G) (edb (restarted n))" by simp
  from start_life [OF assms(1) this restarted_sel(2), of now] show "\<exists>n'. engine_MustStart G now None (restarted n) = Some n' \<and>
    wf_rows (gx G) (edb n') \<and>
    (\<forall>i. life (gx G) (edb n') i = (if life (gx G) (edb n) i = Some Enabled \<and>
        ValidateWithError (the (stored (gx G) (edb n) i Enabled)) \<noteq> None then Some Failed else life (gx G) (edb n) i) \<and>
      map_of (tasks n') i = (if life (gx G) (edb n') i = Some Enabled then stored (gx G) (edb n') i Enabled else None) \<and>
      (\<forall>t. map_of (tasks n') i = Some t \<longrightarrow> ValidateWithError t = None))"
    unfolding invalid_def life_oks_def restarted_sel by metis
qed

theorem start_loads_enabled_witness:
  "\<exists>n n'. life mem_xenv (edb n) sample_id = Some Enabled \<and> engine_MustStart mem_genv 0 None (restarted n) = Some n' \<and>
     wf_rows mem_xenv (edb n')"
proof -
  obtain n t where n: "life mem_xenv (edb n) sample_id = Some Enabled" "wf_rows mem_xenv (edb n)" using sample_created by metis
  then show ?thesis using start_loads_enabled [OF mem_genv_total, of n mem_genv 0 None n] by auto
qed

end
