(* ===== verification/WakeInv.thy ===== *)
theory WakeInv
  imports Wake
begin

text \<open>What a checkpoint keeps of the variables of a run, and that a wait can be read back.\<close>

lemma wake_roundtrip:
  assumes "wake_codec_ok C" "marshalWake C w = Some b" shows "unmarshalWake C b = Some w"
proof (cases "w_chain_event w")
  case None
  with assms show ?thesis by (auto simp: wake_codec_ok_def marshalWake_def unmarshalWake_def)
next
  case (Some ev)
  with assms(2) obtain eb where eb: "eventMarshal C ev = Some eb" by (auto simp: marshalWake_def split: option.splits)
  with assms(1) have "eb \<noteq> []" "eventUnmarshal C eb = Some ev" by (auto simp: wake_codec_ok_def)
  with assms Some eb show ?thesis by (auto simp: wake_codec_ok_def marshalWake_def unmarshalWake_def)
qed

section \<open>Variables\<close>

lemma set_var_map [simp]: "map_of (set_var k v m) = (map_of m)(k \<mapsto> v)"
  by (simp add: set_var_def fun_eq_iff)

text \<open>The variables that a checkpoint holds: those of the nodes and of the trigger, unless the name is reserved.\<close>

definition checkpoint_names :: "(string \<times> string) list \<Rightarrow> string option \<Rightarrow> string set" where
  "checkpoint_names names trigger =
     (getNodeNameAsVar names ` fst ` set names \<union> sanitizeTriggerNameForJS ` set_option trigger) - set reservedSystemVarNames - {[]}"

lemma snapshot_var_map: "map_of (snapshot_var vars name out) k =
    (if k = name \<and> name \<noteq> [] \<and> name \<notin> set reservedSystemVarNames \<and> map_of vars name \<noteq> None then map_of vars name else map_of out k)"
  by (auto simp: snapshot_var_def split: option.splits)

lemma snapshot_fold:
  "map_of (fold (\<lambda>(i, _). snapshot_var vars (f i)) xs out) k =
    (if k \<in> f ` fst ` set xs - set reservedSystemVarNames - {[]} \<and> map_of vars k \<noteq> None then map_of vars k else map_of out k)"
  by (induction xs arbitrary: out) (auto simp: snapshot_var_map split: if_splits)

lemma snapshot_map: "map_of (snapshot_vars names trigger vars) k =
    (if k \<in> checkpoint_names names trigger then map_of vars k else None)"
  by (auto simp: snapshot_vars_def checkpoint_names_def Let_def snapshot_fold snapshot_var_map split: option.splits)

lemma restore_map:
  "distinct (map fst kvs) \<Longrightarrow> map_of (fold restore_var kvs vars) k =
    (if k \<notin> set reservedSystemVarNames \<and> map_of kvs k \<noteq> None then map_of kvs k else map_of vars k)"
proof (induction kvs arbitrary: vars)
  case (Cons kv kvs)
  obtain a v where kv: "kv = (a, v)" by (cases kv)
  from Cons.prems kv have "map_of kvs a = None" by (simp add: map_of_eq_None_iff)
  with Cons.IH [of "restore_var kv vars"] Cons.prems kv show ?case by (auto simp: restore_var_def)
qed simp

lemma restore_reserved: "k \<in> set reservedSystemVarNames \<Longrightarrow> map_of (fold restore_var kvs vars) k = map_of vars k"
  by (induction kvs arbitrary: vars) (auto simp: restore_var_def)

text \<open>What a snapshot gives back, as it is stored and after it was restored into other variables.\<close>

lemma snapshot_restored:
  assumes V: "vars_codec_ok V" and b: "snapshotNodeVars V names trigger vars = Some b"
  obtains stored vars'' where "varsDecode V b = Some stored" "b \<noteq> []"
    "\<And>k. map_of stored k = (if k \<in> checkpoint_names names trigger then map_option (asDecoded V) (map_of vars k) else None)"
    "restoreNodeVars V b vars' = Some vars''"
    "\<And>k. map_of vars'' k = (if k \<in> checkpoint_names names trigger \<and> map_of vars k \<noteq> None
       then map_option (asDecoded V) (map_of vars k) else map_of vars' k)"
proof -
  from V b obtain stored where s: "b \<noteq> []" "varsDecode V b = Some stored" "distinct (map fst stored)"
    "\<And>k. map_of stored k = map_option (asDecoded V) (map_of (snapshot_vars names trigger vars) k)"
    unfolding vars_codec_ok_def snapshotNodeVars_def by meson
  then have m: "map_of stored k = (if k \<in> checkpoint_names names trigger then map_option (asDecoded V) (map_of vars k) else None)" for k
    by (simp add: snapshot_map)
  show thesis
    by (rule that [OF s(2,1) m, of "fold restore_var stored vars'"])
      (use s(1,2) in \<open>auto simp: restoreNodeVars_def restore_map [OF s(3)] m checkpoint_names_def\<close>)
qed

text \<open>
C19: A checkpoint carries the outputs of the nodes and of the trigger into the resumed run and nothing else. When the
variables of one VM can be encoded, what is stored holds exactly the variables of the nodes and of the trigger that were
set, each as JSON gives its value back, and no reserved system variable, even when a node carries its name; restoring it
into another VM succeeds and gives those variables these values, every other variable being the one of the new VM. And
whatever bytes are restored, the reserved variables of the new VM stay as they are: bytes that do not decode are an error,
an empty checkpoint restores nothing.
\<close>

theorem checkpoint_restores_outputs:
  assumes "vars_codec_ok V" "snapshotNodeVars V names trigger vars = Some b"
  shows "(\<exists>stored. varsDecode V b = Some stored \<and>
      (\<forall>k. map_of stored k = (if k \<in> checkpoint_names names trigger then map_option (asDecoded V) (map_of vars k) else None)) \<and>
      (\<forall>k\<in>set reservedSystemVarNames. map_of stored k = None)) \<and>
    (\<exists>vars''. restoreNodeVars V b vars' = Some vars'' \<and>
      (\<forall>k. map_of vars'' k = (if k \<in> checkpoint_names names trigger \<and> map_of vars k \<noteq> None
         then map_option (asDecoded V) (map_of vars k) else map_of vars' k))) \<and>
    (\<forall>b'. (restoreNodeVars V b' vars' = None \<longleftrightarrow> b' \<noteq> [] \<and> varsDecode V b' = None) \<and>
      (\<forall>vars''. restoreNodeVars V b' vars' = Some vars'' \<longrightarrow>
        (\<forall>k\<in>set reservedSystemVarNames. map_of vars'' k = map_of vars' k) \<and> (b' = [] \<longrightarrow> vars'' = vars')))"
proof -
  obtain stored vars'' where s: "varsDecode V b = Some stored"
    "\<And>k. map_of stored k = (if k \<in> checkpoint_names names trigger then map_option (asDecoded V) (map_of vars k) else None)"
    "restoreNodeVars V b vars' = Some vars''"
    "\<And>k. map_of vars'' k = (if k \<in> checkpoint_names names trigger \<and> map_of vars k \<noteq> None
       then map_option (asDecoded V) (map_of vars k) else map_of vars' k)"
    by (rule snapshot_restored [OF assms, where vars' = vars']) blast
  have r: "(restoreNodeVars V b' vars' = None \<longleftrightarrow> b' \<noteq> [] \<and> varsDecode V b' = None) \<and>
      (\<forall>vars''. restoreNodeVars V b' vars' = Some vars'' \<longrightarrow>
        (\<forall>k\<in>set reservedSystemVarNames. map_of vars'' k = map_of vars' k) \<and> (b' = [] \<longrightarrow> vars'' = vars'))" for b'
    by (auto simp: restoreNodeVars_def restore_reserved split: option.splits)
  have "map_of stored k = None" if "k \<in> set reservedSystemVarNames" for k
    using that unfolding s(2) by (simp add: checkpoint_names_def)
  with s r show ?thesis by blast
qed

definition sample_vars_codec :: vars_codec where
  "sample_vars_codec = \<lparr>varsMarshal = (\<lambda>m. if map fst m = [''ask''] then Some (case map_of m ''ask'' of Some (JStr s) \<Rightarrow> CHR ''s'' # s | _ \<Rightarrow> ''n'')
       else None), varsDecode = (\<lambda>b. case b of [] \<Rightarrow> None | c # s \<Rightarrow> Some [(''ask'', if c = CHR ''s'' then JStr s else JNull)]),
     asDecoded = (\<lambda>v. case v of JStr s \<Rightarrow> JStr s | _ \<Rightarrow> JNull)\<rparr>"

theorem checkpoint_restores_outputs_witness:
  "\<exists>b vars''. snapshotNodeVars sample_vars_codec [(''n1'', ''ask''), (''n2'', ''apContext'')] None
        [(''ask'', JStr ''yes''), (''apContext'', JStr ''secret'')] = Some b \<and>
     restoreNodeVars sample_vars_codec b [(''apContext'', JStr ''new'')] = Some vars'' \<and>
     map_of vars'' ''ask'' = Some (JStr ''yes'') \<and> map_of vars'' ''apContext'' = Some (JStr ''new'')"
proof -
  let ?names = "[(''n1'', ''ask''), (''n2'', ''apContext'')]" and ?vars = "[(''ask'', JStr ''yes''), (''apContext'', JStr ''secret'')]"
  have V: "vars_codec_ok sample_vars_codec"
  proof -
    have "\<exists>m'. varsDecode sample_vars_codec b = Some m' \<and> distinct (map fst m') \<and>
        (\<forall>k. map_of m' k = map_option (asDecoded sample_vars_codec) (map_of m k))" "b \<noteq> []"
      if "varsMarshal sample_vars_codec m = Some b" for m b
      using that by (auto simp: sample_vars_codec_def map_eq_Cons_conv split: if_splits jvalue.splits)
    then show ?thesis by (simp add: vars_codec_ok_def)
  qed
  have "checkpoint_names ?names None = {''ask''}" by (simp add: checkpoint_names_def) code_simp
  then have n: "''ask'' \<in> checkpoint_names ?names None" "''apContext'' \<notin> checkpoint_names ?names None" by simp_all
  have b: "snapshotNodeVars sample_vars_codec ?names None ?vars = Some ''syes''" by code_simp
  then show ?thesis
    using checkpoint_restores_outputs [OF V b, of "[(''apContext'', JStr ''new'')]"] n by (auto simp: sample_vars_codec_def)
qed

end
