(* ===== verification/Listing.thy ===== *)
theory Listing
  imports Codec
begin

text \<open>
  Paged listings: the cursors of \<open>core/taskengine/cursor.go\<close>, the request parameters of
  \<open>core/taskengine/pagination.go\<close>, and the listings and counts of \<open>engine.go\<close> over workflows and executions. The
  parser of ULIDs is a parameter, as is the text form of a cursor (base64 over JSON). The lemmas give the page of every
  cursor in both directions; the properties say what a client sees who follows the cursors.
\<close>

section \<open>Cursors\<close>

datatype cursor_direction = CursorNext | CursorPrevious | OtherDirection string

record cursor =
  Direction :: cursor_direction
  Position :: string
  parsePos :: bool
  int64Pos :: int
  ulidPos :: nat

text \<open>What decoding a cursor gives: an error, the literal \<open>null\<close>, or an object with or without each of its two fields.\<close>

datatype cursor_text = NotCursor | NullCursor | CursorFields "cursor_direction option" "string option"

record page_env =
  ulid_parse :: "string \<Rightarrow> nat option"
  cursorEncode :: "cursor_direction \<Rightarrow> string \<Rightarrow> string"
  cursorDecode :: "string \<Rightarrow> cursor_text"
  isHexAddress :: "string \<Rightarrow> bool"
  hexToAddress :: "string \<Rightarrow> address"

text \<open>
  A ULID has 26 characters, and only text of that length is one; a cursor whose position is plain ASCII is not empty
  and reads back as it was written.
\<close>

definition page_env_ok :: "page_env \<Rightarrow> bool" where
  "page_env_ok P \<longleftrightarrow> (\<forall>s u. ulid_parse P s = Some u \<longrightarrow> length s = 26) \<and>
     (\<forall>d s. ascii s \<longrightarrow> cursorEncode P d s \<noteq> [] \<and> cursorDecode P (cursorEncode P d s) = CursorFields (Some d) (Some s))"

datatype list_error = InvalidCursor | InvalidPaginationParam | MissingSmartWalletAddress | InvalidSmartAccountAddress
  | OwnershipUnavailable serr | StorageUnavailable | ListTaskNotFound | CountFailed serr | Panic

definition zero_cursor :: cursor where
  "zero_cursor = \<lparr>Direction = CursorNext, Position = ''0'', parsePos = False, int64Pos = 0, ulidPos = 0\<rparr>"

text \<open>
  \<open>CursorFromString\<close> decodes into a pointer, which the literal \<open>null\<close> sets to nil: \<open>Inr None\<close>.
\<close>

definition CursorFromString :: "page_env \<Rightarrow> string \<Rightarrow> list_error + cursor option" where
  "CursorFromString P data =
     (if data = [] then Inr (Some zero_cursor)
      else case cursorDecode P data of
        NotCursor \<Rightarrow> Inl InvalidCursor
      | NullCursor \<Rightarrow> Inr None
      | CursorFields d p \<Rightarrow> Inr (Some (zero_cursor
          \<lparr>Direction := (case d of None \<Rightarrow> CursorNext | Some d' \<Rightarrow> d'),
           Position := (case p of None \<Rightarrow> ''0'' | Some p' \<Rightarrow> p')\<rparr>)))"

text \<open>Setting the direction of a nil cursor panics.\<close>

definition set_direction :: "cursor_direction \<Rightarrow> cursor option \<Rightarrow> list_error + cursor" where
  "set_direction dir c = (case c of None \<Rightarrow> Inl Panic | Some c' \<Rightarrow> Inr (c'\<lparr>Direction := dir\<rparr>))"

definition CursorFromBeforeAfter :: "page_env \<Rightarrow> string \<Rightarrow> string \<Rightarrow> list_error + cursor" where
  "CursorFromBeforeAfter P before after =
     (if after \<noteq> [] then bindE (CursorFromString P after) (set_direction CursorNext)
      else if before \<noteq> [] then bindE (CursorFromString P before) (set_direction CursorPrevious)
      else Inr zero_cursor)"

definition NewCursor :: "cursor_direction \<Rightarrow> string \<Rightarrow> cursor" where
  "NewCursor direction position = zero_cursor\<lparr>Direction := direction, Position := position\<rparr>"

definition IsZero :: "cursor \<Rightarrow> bool" where
  "IsZero c \<longleftrightarrow> Position c = ''0''"

text \<open>\<open>strconv.ParseInt\<close> with its error dropped: 0 for text that is no number, the nearest bound for one out of range.\<close>

definition parse_int64_clamped :: "string \<Rightarrow> int" where
  "parse_int64_clamped s = (case (case s of
       c # cs \<Rightarrow> if c = CHR ''-'' then map_option (\<lambda>n. - int n) (parse_decimal cs)
                else if c = CHR ''+'' then map_option int (parse_decimal cs)
                else map_option int (parse_decimal s)
     | [] \<Rightarrow> None) of
       None \<Rightarrow> 0
     | Some n \<Rightarrow> max (- (2 ^ 63)) (min (2 ^ 63 - 1) n))"

text \<open>The position is parsed at the first comparison and kept; a text that is no ULID counts as the smallest one.\<close>

definition parse_int64_pos :: "cursor \<Rightarrow> cursor" where
  "parse_int64_pos c = (if parsePos c then c else c\<lparr>int64Pos := parse_int64_clamped (Position c), parsePos := True\<rparr>)"

definition parse_ulid_pos :: "page_env \<Rightarrow> cursor \<Rightarrow> cursor" where
  "parse_ulid_pos P c = (if parsePos c then c
     else c\<lparr>ulidPos := (case ulid_parse P (Position c) of None \<Rightarrow> 0 | Some u \<Rightarrow> u), parsePos := True\<rparr>)"

definition LessThanInt64 :: "cursor \<Rightarrow> int \<Rightarrow> cursor \<times> bool" where
  "LessThanInt64 c value = (let c' = parse_int64_pos c
     in (c', if Direction c' = CursorNext then int64Pos c' \<le> value else int64Pos c' \<ge> value))"

definition LessThanUlid :: "page_env \<Rightarrow> cursor \<Rightarrow> nat \<Rightarrow> cursor \<times> bool" where
  "LessThanUlid P c value = (let c' = parse_ulid_pos P c
     in (c', if Direction c' = CursorNext then ulidPos c' < value else ulidPos c' > value))"

definition LessThanOrEqualInt64 :: "cursor \<Rightarrow> int \<Rightarrow> cursor \<times> bool" where
  "LessThanOrEqualInt64 c value = (let c' = parse_int64_pos c
     in (c', if Direction c' = CursorNext then int64Pos c' \<le> value else int64Pos c' \<ge> value))"

definition LessThanOrEqualUlid :: "page_env \<Rightarrow> cursor \<Rightarrow> nat \<Rightarrow> cursor \<times> bool" where
  "LessThanOrEqualUlid P c value = (let c' = parse_ulid_pos P c
     in (c', if Direction c' = CursorNext then ulidPos c' \<le> value else ulidPos c' \<ge> value))"

section \<open>Pagination\<close>

definition DefaultLimit :: int where
  "DefaultLimit = 50"

definition SetupPagination :: "page_env \<Rightarrow> string \<Rightarrow> string \<Rightarrow> int \<Rightarrow> list_error + cursor \<times> nat" where
  "SetupPagination P before after limit = bindE (CursorFromBeforeAfter P before after) (\<lambda>cursor.
     if limit < 0 then Inl InvalidPaginationParam
     else Inr (cursor, nat (if limit = 0 then DefaultLimit else limit)))"

definition CreateNextCursor :: "page_env \<Rightarrow> string \<Rightarrow> string" where
  "CreateNextCursor P position = (if position = [] then [] else cursorEncode P CursorNext position)"

definition CreatePreviousCursor :: "page_env \<Rightarrow> string \<Rightarrow> string" where
  "CreatePreviousCursor P position = (if position = [] then [] else cursorEncode P CursorPrevious position)"

record 'a page =
  Items :: "'a list"
  StartCursor :: string
  EndCursor :: string
  HasPreviousPage :: bool
  HasNextPage :: bool

section \<open>The loops of the listings\<close>

text \<open>
  The two listings have the same loops. \<open>idOf\<close> reads the id of a key, which must be a ULID, and \<open>load\<close> reads the item
  behind it: an error ends the listing, \<open>None\<close> passes the key over. One item more than the limit is collected.
\<close>

fun forward_loop ::
  "page_env \<Rightarrow> (string \<Rightarrow> string) \<Rightarrow> (string \<Rightarrow> list_error + 'a option) \<Rightarrow> nat \<Rightarrow> cursor \<Rightarrow> string list \<Rightarrow> 'a list \<Rightarrow>
   list_error + 'a list" where
  "forward_loop P idOf load limit c [] items = Inr items"
| "forward_loop P idOf load limit c (key # keys) items = (case ulid_parse P (idOf key) of None \<Rightarrow> Inl Panic
     | Some u \<Rightarrow> (case (if IsZero c then (c, False) else LessThanOrEqualUlid P c u) of (c', skip) \<Rightarrow>
         if skip then forward_loop P idOf load limit c' keys items
         else case load key of Inl e \<Rightarrow> Inl e
          | Inr r \<Rightarrow> (let items' = items @ (case r of None \<Rightarrow> [] | Some x \<Rightarrow> [x])
              in if limit < length items' then Inr items' else forward_loop P idOf load limit c' keys items')))"

fun backward_loop ::
  "page_env \<Rightarrow> (string \<Rightarrow> string) \<Rightarrow> (string \<Rightarrow> list_error + 'a option) \<Rightarrow> nat \<Rightarrow> nat \<Rightarrow> string list \<Rightarrow> 'a list \<Rightarrow>
   list_error + 'a list" where
  "backward_loop P idOf load limit cursorUlid [] items = Inr items"
| "backward_loop P idOf load limit cursorUlid (key # keys) items = (case ulid_parse P (idOf key) of None \<Rightarrow> Inl Panic
     | Some u \<Rightarrow>
         if u \<le> cursorUlid then backward_loop P idOf load limit cursorUlid keys items
         else case load key of Inl e \<Rightarrow> Inl e
          | Inr r \<Rightarrow> (let items' = items @ (case r of None \<Rightarrow> [] | Some x \<Rightarrow> [x])
              in if limit < length items' then Inr items' else backward_loop P idOf load limit cursorUlid keys items'))"

definition is_backward :: "cursor \<Rightarrow> bool" where
  "is_backward c \<longleftrightarrow> \<not> IsZero c \<and> Direction c = CursorPrevious"

definition make_page :: "page_env \<Rightarrow> ('a \<Rightarrow> string) \<Rightarrow> cursor \<Rightarrow> bool \<Rightarrow> 'a list \<Rightarrow> 'a page" where
  "make_page P itemId c hasMore items =
     (if items = [] then \<lparr>Items = [], StartCursor = [], EndCursor = [], HasPreviousPage = False, HasNextPage = False\<rparr>
      else \<lparr>Items = items, StartCursor = CreateNextCursor P (itemId (hd items)),
        EndCursor = CreateNextCursor P (itemId (last items)),
        HasPreviousPage = (if is_backward c then hasMore else \<not> IsZero c),
        HasNextPage = (if is_backward c then True else hasMore)\<rparr>)"

definition list_page ::
  "page_env \<Rightarrow> (string \<Rightarrow> string) \<Rightarrow> (string \<Rightarrow> list_error + 'a option) \<Rightarrow> ('a \<Rightarrow> string) \<Rightarrow> string list \<Rightarrow>
   string \<Rightarrow> string \<Rightarrow> int \<Rightarrow> list_error + 'a page" where
  "list_page P idOf load itemId keys before after limitVal =
     bindE (SetupPagination P before after limitVal) (\<lambda>(cursor, limit).
       if is_backward cursor
       then (case ulid_parse P (Position cursor) of None \<Rightarrow> Inl InvalidCursor
         | Some cu \<Rightarrow> bindE (backward_loop P idOf load limit cu keys []) (\<lambda>items.
             Inr (make_page P itemId cursor (limit < length items) (rev (take limit items)))))
       else bindE (forward_loop P idOf load limit cursor (rev keys) []) (\<lambda>items.
             Inr (make_page P itemId cursor (limit < length items) (take limit items))))"

text \<open>
  \<open>sort.Slice\<close> by the ULID of the id. The comparison panics on an id that is none, and every key of a list of two or
  more is compared. Keys with the same ULID are left in the order of the scan.
\<close>

definition sort_keys :: "page_env \<Rightarrow> (string \<Rightarrow> string) \<Rightarrow> string list \<Rightarrow> list_error + string list" where
  "sort_keys P idOf keys =
     (if 2 \<le> length keys \<and> list_ex (\<lambda>k. ulid_parse P (idOf k) = None) keys then Inl Panic
      else Inr (sort_key (\<lambda>k. the (ulid_parse P (idOf k))) keys))"

section \<open>Wallet ownership\<close>

record user =
  user_address :: address
  SmartAccountAddress :: "address option"

text \<open>
  The chain of a user is not used by the listings and left out. The key of a wallet row lowers the text of the address.
\<close>

definition ValidWalletOwner :: "'d badger \<Rightarrow> int \<Rightarrow> user \<Rightarrow> address \<Rightarrow> 'd \<Rightarrow> serr + bool" where
  "ValidWalletOwner B chainID u wallet d =
     (if SmartAccountAddress u = Some wallet then Inr True
      else Exist B d (WalletStorageKey chainID (user_address u) (lower_hex wallet)))"

fun owns_on_chains :: "'d badger \<Rightarrow> int list \<Rightarrow> user \<Rightarrow> address \<Rightarrow> 'd \<Rightarrow> serr + bool" where
  "owns_on_chains B [] u wallet d = Inr False"
| "owns_on_chains B (chainID # nets) u wallet d = (case ValidWalletOwner B chainID u wallet d of
       Inl e \<Rightarrow> Inl e
     | Inr ok \<Rightarrow> if ok then Inr True else owns_on_chains B nets u wallet d)"

definition userOwnsWalletOnAnyChain :: "'d badger \<Rightarrow> int list \<Rightarrow> user \<Rightarrow> address \<Rightarrow> 'd \<Rightarrow> serr + bool" where
  "userOwnsWalletOnAnyChain B nets u wallet d =
     (if SmartAccountAddress u = Some wallet then Inr True else owns_on_chains B nets u wallet d)"

text \<open>
  \<open>defaultChain\<close> is the chain of the smart wallet configuration, \<open>None\<close> without one, and \<open>configs\<close> the chains of the
  configuration map in the order in which \<open>range\<close> visits them.
\<close>

definition defaultChainID :: "int option \<Rightarrow> int" where
  "defaultChainID defaultChain = (case defaultChain of None \<Rightarrow> 0 | Some c \<Rightarrow> c)"

definition knownChainIDs :: "int option \<Rightarrow> int list \<Rightarrow> int list" where
  "knownChainIDs defaultChain configs =
     (let c = defaultChainID defaultChain;
          out = (if 0 \<le> c then [c] else []) @ filter (\<lambda>i. \<not> (0 \<le> c \<and> i = c)) (remdups configs)
      in if out = [] then [0] else out)"

definition isChainConfigured :: "int option \<Rightarrow> int list \<Rightarrow> int \<Rightarrow> bool" where
  "isChainConfigured defaultChain configs chainID \<longleftrightarrow> list_ex (\<lambda>i. i = chainID) (knownChainIDs defaultChain configs)"

section \<open>Workflows\<close>

record list_tasks_req =
  lt_wallets :: "string list"
  lt_before :: string
  lt_after :: string
  lt_limit :: int
  lt_nodes :: bool
  lt_edges :: bool

record task_item =
  it_id :: string
  it_owner :: string
  it_wallet :: string
  it_start_at :: int
  it_expired_at :: int
  it_name :: string
  it_completed_at :: int
  it_max_execution :: int
  it_execution_count :: int
  it_last_ran_at :: int
  it_status :: task_status
  it_trigger :: "trigger option"
  it_nodes :: "node list"
  it_edges :: "(string \<times> string) list"

definition to_task_item :: "bool \<Rightarrow> bool \<Rightarrow> task \<Rightarrow> task_item" where
  "to_task_item nodes edges t = \<lparr>it_id = task_id t, it_owner = task_owner t, it_wallet = smart_wallet_address t,
     it_start_at = start_at t, it_expired_at = expired_at t, it_name = task_name t, it_completed_at = completed_at t,
     it_max_execution = max_execution t, it_execution_count = execution_count t, it_last_ran_at = last_ran_at t,
     it_status = task_status t, it_trigger = task_trigger t,
     it_nodes = (if nodes then task_nodes t else []), it_edges = (if edges then task_edges t else [])\<rparr>"

definition taskIDFromKey :: "string \<Rightarrow> string" where
  "taskIDFromKey k = (case ParseUserTaskKey k of
     Parsed (_, _, _, tid) \<Rightarrow> tid | LegacyKey (_, _, _, tid) \<Rightarrow> tid | _ \<Rightarrow> [])"

text \<open>The 32-bit enum of a status number.\<close>

definition status_of_number :: "int \<Rightarrow> task_status" where
  "status_of_number i = (let n = sint (word_of_int i :: 32 word)
     in if n = 0 then Enabled else if n = 1 then Completed else if n = 2 then Failed else if n = 4 then Running
        else if n = 5 then Disabled else OtherStatus n)"

definition load_workflow :: "'d xenv \<Rightarrow> bool \<Rightarrow> bool \<Rightarrow> 'd \<Rightarrow> string \<Rightarrow> list_error + task_item option" where
  "load_workflow E nodes edges d key = (case GetKey (xbadger E) d key of Inl _ \<Rightarrow> Inl StorageUnavailable
     | Inr statusValue \<Rightarrow>
        (case GetKey (xbadger E) d (WorkflowStorageKey (taskIDFromKey key) (status_of_number (parse_int64_clamped statusValue))) of
           Inl _ \<Rightarrow> Inr None
         | Inr raw \<Rightarrow> (case FromStorageData E raw of None \<Rightarrow> Inr None
             | Some t \<Rightarrow> Inr (Some (to_task_item nodes edges (t\<lparr>task_id := taskIDFromKey key\<rparr>))))))"

fun wallet_prefixes :: "page_env \<Rightarrow> 'd badger \<Rightarrow> int list \<Rightarrow> user \<Rightarrow> string list \<Rightarrow> 'd \<Rightarrow> list_error + string list" where
  "wallet_prefixes P B nets u [] d = Inr []"
| "wallet_prefixes P B nets u (w # ws) d =
     (if w = [] then Inl MissingSmartWalletAddress
      else if \<not> isHexAddress P w then Inl InvalidSmartAccountAddress
      else case userOwnsWalletOnAnyChain B nets u (hexToAddress P w) d of
        Inl e \<Rightarrow> Inl (OwnershipUnavailable e)
      | Inr valid \<Rightarrow>
          if \<not> valid then Inl InvalidSmartAccountAddress
          else bindE (wallet_prefixes P B nets u ws d) (\<lambda>ps.
            Inr (SmartWalletTaskStoragePrefix (user_address u) (hexToAddress P w) # ps)))"

definition ListWorkflowsByUser ::
  "page_env \<Rightarrow> 'd xenv \<Rightarrow> int list \<Rightarrow> user \<Rightarrow> list_tasks_req \<Rightarrow> 'd \<Rightarrow> list_error + task_item page" where
  "ListWorkflowsByUser P E nets u r d =
     (if lt_wallets r = [] then Inl MissingSmartWalletAddress
      else bindE (wallet_prefixes P (xbadger E) nets u (lt_wallets r) d) (\<lambda>prefixes.
        bindE (sort_keys P taskIDFromKey (ListKeysMulti (xbadger E) d prefixes)) (\<lambda>keys.
          list_page P taskIDFromKey (load_workflow E (lt_nodes r) (lt_edges r) d) it_id keys
            (lt_before r) (lt_after r) (lt_limit r))))"

section \<open>Executions\<close>

record list_executions_req =
  le_tasks :: "string list"
  le_before :: string
  le_after :: string
  le_limit :: int

text \<open>An item is the execution with the workflow that its key names.\<close>

definition load_history :: "'d xenv \<Rightarrow> 'd \<Rightarrow> string \<Rightarrow> list_error + (string \<times> execution) option" where
  "load_history E d key = (case GetKey (xbadger E) d key of Inl _ \<Rightarrow> Inr None
     | Inr raw \<Rightarrow> (case execUnmarshal E raw of None \<Rightarrow> Inr None
         | Some x \<Rightarrow> Inr (Some (TaskIdFromExecutionStorageKey key, x))))"

fun check_tasks :: "'d xenv \<Rightarrow> task_status list \<Rightarrow> address \<Rightarrow> string list \<Rightarrow> 'd \<Rightarrow> list_error + unit" where
  "check_tasks E ord u [] d = Inr ()"
| "check_tasks E ord u (i # is) d = (case GetWorkflowByID E d ord i of Inl _ \<Rightarrow> Inl ListTaskNotFound
     | Inr t \<Rightarrow> if u \<noteq> zero_address \<and> \<not> OwnedBy t u then Inl ListTaskNotFound else check_tasks E ord u is d)"

text \<open>The scan of the values, tried when the scan of the keys gives none.\<close>

definition history_keys :: "'d badger \<Rightarrow> string list \<Rightarrow> 'd \<Rightarrow> string list" where
  "history_keys B ids d =
     (let keys = ListKeysMulti B d (map TaskExecutionPrefix ids)
      in if keys = [] then concat (map (\<lambda>i. case GetByPrefix B d (TaskExecutionPrefix i) of
             Inl _ \<Rightarrow> [] | Inr rows \<Rightarrow> map fst rows) ids)
         else keys)"

definition ListExecutions ::
  "page_env \<Rightarrow> 'd xenv \<Rightarrow> task_status list \<Rightarrow> address \<Rightarrow> list_executions_req \<Rightarrow> 'd \<Rightarrow>
   list_error + (string \<times> execution) page" where
  "ListExecutions P E ord u r d = bindE (check_tasks E ord u (le_tasks r) d) (\<lambda>_.
     bindE (sort_keys P ExecutionIdFromStorageKey (history_keys (xbadger E) (le_tasks r) d)) (\<lambda>keys.
       list_page P ExecutionIdFromStorageKey (load_history E d) (ex_id \<circ> snd) keys
         (le_before r) (le_after r) (le_limit r)))"

section \<open>Counts\<close>

text \<open>The workflows named in the request, or else those in the index of the user.\<close>

definition counted_ids :: "'d badger \<Rightarrow> address \<Rightarrow> string list \<Rightarrow> 'd \<Rightarrow> list_error + string list" where
  "counted_ids B u ids d =
     (if ids \<noteq> [] then Inr ids
      else case GetKeyHasPrefix B d (UserTaskStoragePrefix u) of Inl e \<Rightarrow> Inl (CountFailed e)
       | Inr ks \<Rightarrow> Inr (map (\<lambda>k. case TaskIdFromTaskStatusStorageKey k of None \<Rightarrow> [] | Some i \<Rightarrow> i) ks))"

definition GetExecutionCount :: "'d badger \<Rightarrow> address \<Rightarrow> string list \<Rightarrow> 'd \<Rightarrow> list_error + int" where
  "GetExecutionCount B u ids d = bindE (counted_ids B u ids d) (\<lambda>workflowIds.
     case CountKeysByPrefixes B d (map TaskExecutionPrefix (filter (\<lambda>i. length i = TaskIDLength) workflowIds)) of
       Inl e \<Rightarrow> Inl (CountFailed e) | Inr c \<Rightarrow> Inr c)"

record execution_stats =
  stats_total :: int
  stats_succeeded :: int
  stats_failed :: int
  stats_time :: int

text \<open>The average is the time over the total, and 0 without executions; the sums are kept here.\<close>

definition count_execution :: "int \<Rightarrow> execution \<Rightarrow> execution_stats \<Rightarrow> execution_stats" where
  "count_execution cutoff x s =
     (if ex_start x < cutoff then s
      else s\<lparr>stats_total := stats_total s + 1,
        stats_succeeded := stats_succeeded s + (if ex_status x = ExecSuccess then 1 else 0),
        stats_failed := stats_failed s + (if ex_status x = ExecSuccess then 0 else 1),
        stats_time := stats_time s + (if ex_start x < ex_end x then ex_end x - ex_start x else 0)\<rparr>)"

definition count_history :: "'d xenv \<Rightarrow> int \<Rightarrow> 'd \<Rightarrow> string \<Rightarrow> execution_stats \<Rightarrow> execution_stats" where
  "count_history E cutoff d i s =
     (if length i \<noteq> TaskIDLength then s
      else case GetByPrefix (xbadger E) d (TaskExecutionPrefix i) of Inl _ \<Rightarrow> s
       | Inr rows \<Rightarrow> fold (\<lambda>(_, v) s. case execUnmarshal E v of None \<Rightarrow> s | Some x \<Rightarrow> count_execution cutoff x s) rows s)"

text \<open>\<open>cutoff\<close> is the time that many days ago, seven when the request names no positive number.\<close>

definition GetExecutionStats :: "'d xenv \<Rightarrow> (int \<Rightarrow> int) \<Rightarrow> address \<Rightarrow> string list \<Rightarrow> int \<Rightarrow> 'd \<Rightarrow> list_error + execution_stats" where
  "GetExecutionStats E daysAgo u ids days d =
     (let cutoff = daysAgo (if days \<le> 0 then 7 else days)
      in bindE (counted_ids (xbadger E) u ids d) (\<lambda>workflowIds.
        Inr (fold (count_history E cutoff d) workflowIds
          \<lparr>stats_total = 0, stats_succeeded = 0, stats_failed = 0, stats_time = 0\<rparr>)))"

definition GetWorkflowCount :: "page_env \<Rightarrow> 'd badger \<Rightarrow> int list \<Rightarrow> user \<Rightarrow> string list \<Rightarrow> 'd \<Rightarrow> list_error + int" where
  "GetWorkflowCount P B nets u addresses d =
     (let prefixes = (if addresses = [] then [UserTaskStoragePrefix (user_address u)]
          else map (\<lambda>a. SmartWalletTaskStoragePrefix (user_address u) (hexToAddress P a))
            (filter (\<lambda>a. userOwnsWalletOnAnyChain B nets u (hexToAddress P a) d = Inr True) addresses))
      in case CountKeysByPrefixes B d prefixes of Inl e \<Rightarrow> Inl (CountFailed e) | Inr c \<Rightarrow> Inr c)"

end
