(* ===== verification/EngineSafety.thy ===== *)
theory EngineSafety
  imports EngineSteps WakeInv Listing
begin

text \<open>
  What the engine promises its users and operators: workflows are closed to strangers, a trigger is not run twice, a
  signal is consumed once, and a deletion removes what belongs to the workflow.
\<close>

section \<open>Strangers\<close>

lemma stranger_not_found:
  "GetWorkflowByID E d ord i = Inr t \<Longrightarrow> \<not> OwnedBy t user \<Longrightarrow> user \<noteq> zero_address \<Longrightarrow> GetWorkflow E d ord user i = Inl TaskNotFound"
  by (simp add: GetWorkflow_def)

lemma stranger_not_listed:
  "GetWorkflowByID E d ord i = Inr t \<Longrightarrow> \<not> OwnedBy t user \<Longrightarrow> user \<noteq> zero_address \<Longrightarrow> i \<in> set is \<Longrightarrow>
    check_tasks E ord user is d = Inl ListTaskNotFound"
  by (induction "is") (auto split: sum.splits)

text \<open>
C10: The six calls that name a workflow for an action or for one of its executions (enabling or disabling it, deleting it,
triggering it, signalling an execution, reading an execution, reading the status of an execution) are closed to everyone
but the owner of the workflow and the administrator: called by another user they change nothing and are answered as if
the workflow did not exist. The same holds for listing the executions of a set of workflows that contains it. The counts
and statistics of executions are not among them: they do not look at the user.
\<close>

theorem foreign_user_changes_nothing:
  assumes "GetWorkflowByID (gx G) (edb n) ord i = Inr t" "\<not> OwnedBy t user" "user \<noteq> zero_address" "ValidateTaskId i"
    "dec \<in> {''approve'', ''reject''}"
  shows "SetWorkflowEnabledByUser G ord outcome check user i en n = (n, SetNotFound) \<and>
    DeleteWorkflowByUser G ord user i n = (n, DeleteNotFound) \<and>
    TriggerWorkflow G ord t0 t1 seq fresh lease manual out user (p\<lparr>rq_task := i\<rparr>) n = (n, Inl (TriggerTask TaskNotFound)) \<and>
    SignalExecution (gx G) ord vm now user i x dec body (edb n) = (edb n, Inl (SignalTask TaskNotFound)) \<and>
    GetExecution (gx G) ord now user i x (edb n) = (edb n, Inl (GetTaskError TaskNotFound)) \<and>
    GetExecutionStatus (gx G) ord user i x (edb n) = Inl (GetTaskError TaskNotFound) \<and>
    (i \<in> set (le_tasks r) \<longrightarrow> ListExecutions P (gx G) ord user r (edb n) = Inl ListTaskNotFound)"
  using stranger_not_found [OF assms(1-3)] stranger_not_listed [OF assms(1-3), of "le_tasks r"] assms(4,5)
  by (simp add: ListExecutions_def SetWorkflowEnabledByUser_def DeleteWorkflowByUser_def TriggerWorkflow_def SignalExecution_def
      GetExecution_def GetExecutionStatus_def)

theorem foreign_user_changes_nothing_witness:
  "\<exists>n t. GetWorkflowByID mem_xenv (edb n) task_statuses sample_id = Inr t \<and> task_status t = Enabled \<and>
     DeleteWorkflowByUser mem_genv task_statuses 2 sample_id n = (n, DeleteNotFound)"
proof -
  obtain n t where n: "GetWorkflowByID mem_xenv (edb n) task_statuses sample_id = Inr t" "task_owner t = ''0x01''"
    "life mem_xenv (edb n) sample_id = Some Enabled" "wf_rows mem_xenv (edb n)" using sample_created by metis
  have "\<not> OwnedBy t 2" unfolding OwnedBy_def n(2) by code_simp
  then have "DeleteWorkflowByUser mem_genv task_statuses 2 sample_id n = (n, DeleteNotFound)"
    using foreign_user_changes_nothing [of mem_genv n task_statuses sample_id t 2 "''reject''"] n(1) by (simp add: zero_address_def)
  moreover have "life mem_xenv (edb n) sample_id = Some (task_status t)"
    using found_row [of mem_xenv "edb n" task_statuses sample_id t] n(1,4) mem_badger_total by (metis mem_genv_sel(4))
  ultimately have "task_status t = Enabled" using n(3) by simp
  with n(1) show ?thesis using \<open>DeleteWorkflowByUser mem_genv task_statuses 2 sample_id n = (n, DeleteNotFound)\<close> by blast
qed

section \<open>Duplicates\<close>

text \<open>A request id is remembered with a time no earlier than the given one.\<close>

definition remembers :: "string \<Rightarrow> int \<Rightarrow> 'd engine \<Rightarrow> bool" where
  "remembers rid since n \<longleftrightarrow> (\<exists>seen\<ge>since. (rid, seen) \<in> set (processedTriggerIDs n))"

lemma update_keeps: "(k, v) \<in> set xs \<Longrightarrow> k \<noteq> k' \<Longrightarrow> (k, v) \<in> set (AList.update k' v' xs)"
  by (induction xs) auto

lemma update_adds: "(k, v) \<in> set (AList.update k v xs)"
  by (induction xs) auto

lemma evict_keeps: "remembers rid since n \<Longrightarrow> now - since \<le> dedup_window \<Longrightarrow>
    \<exists>seen\<ge>since. (rid, seen) \<in> set (evict_stale now (processedTriggerIDs n))"
  by (force simp: remembers_def evict_stale_def)

lemma queue_trigger_ids: "queue_trigger G seq fresh t p n = (m, r) \<Longrightarrow> processedTriggerIDs m = processedTriggerIDs n"
  by (auto simp: queue_trigger_def with_db_def Let_def split: option.splits sum.splits prod.splits if_splits)

lemma notify_task_ids:
  assumes "notify_task G now seq fresh t p n = (n', st, e)"
  obtains (blank) "nt_request_id p = []" "processedTriggerIDs n' = processedTriggerIDs n"
  | (duplicate) "nt_request_id p \<noteq> []" "map_of (evict_stale now (processedTriggerIDs n)) (nt_request_id p) \<noteq> None"
      "st = duplicate_state now t" "processedTriggerIDs n' = evict_stale now (processedTriggerIDs n)" "equeue n' = equeue n" "e = None"
  | (fresh) "nt_request_id p \<noteq> []" "map_of (evict_stale now (processedTriggerIDs n)) (nt_request_id p) = None"
      "processedTriggerIDs n' = AList.update (nt_request_id p) now (evict_stale now (processedTriggerIDs n))"
proof (cases "nt_request_id p = []")
  case True
  with assms queue_trigger_ids [of G seq fresh t p n n'] show thesis
    by (intro blank) (auto simp: notify_task_def split: if_splits)
next
  case rid: False
  let ?seen = "evict_stale now (processedTriggerIDs n)"
  show thesis
  proof (cases "map_of ?seen (nt_request_id p)")
    case None
    have "queue_trigger G seq fresh t p (n\<lparr>processedTriggerIDs := s\<rparr>) = (n', st, e) \<Longrightarrow> processedTriggerIDs n' = s" for s
      using queue_trigger_ids [of G seq fresh t p "n\<lparr>processedTriggerIDs := s\<rparr>" n'] by simp
    with assms rid None show thesis by (intro fresh) (auto simp: notify_task_def Let_def split: if_splits)
  next
    case (Some seen)
    with assms rid show thesis by (intro duplicate) (auto simp: notify_task_def Let_def)
  qed
qed

lemma remembered_seen:
  "remembers rid since n \<Longrightarrow> now - since \<le> dedup_window \<Longrightarrow> map_of (evict_stale now (processedTriggerIDs n)) rid \<noteq> None"
  using evict_keeps [of rid since n now] by (metis map_of_eq_None_iff fst_conv image_eqI)

lemma notify_task_remembers:
  assumes "remembers rid since n" "now - since \<le> dedup_window" "notify_task G now seq fresh t p n = (n', st, e)"
  shows "remembers rid since n'"
  using assms(3)
proof (cases rule: notify_task_ids)
  case fresh
  with remembered_seen [OF assms(1,2)] have "nt_request_id p \<noteq> rid" by auto
  then show ?thesis using evict_keeps [OF assms(1,2)] fresh(3) update_keeps by (metis remembers_def)
qed (use evict_keeps [OF assms(1,2)] assms(1) in \<open>auto simp: remembers_def\<close>)

lemma notify_task_takes:
  assumes "notify_task G now seq fresh t p n = (n', st, e)" "nt_request_id p \<noteq> []" "es_status st \<noteq> ''deduplicated''"
  shows "remembers (nt_request_id p) now n'"
  using assms(1)
proof (cases rule: notify_task_ids)
  case fresh
  then show ?thesis using update_adds unfolding remembers_def by (metis order_refl)
qed (use assms(2,3) in \<open>auto simp: duplicate_state_def\<close>)

lemma notify_task_duplicate:
  assumes "remembers (nt_request_id p) since n" "now - since \<le> dedup_window" "nt_request_id p \<noteq> []"
  shows "\<exists>n'. notify_task G now seq fresh t p n = (n', duplicate_state now t, None) \<and> equeue n' = equeue n"
  using remembered_seen [OF assms(1,2)] assms(3) by (simp add: notify_task_def Let_def)

lemma remembers_simps [simp]:
  "remembers rid s (on_ops f n) = remembers rid s n" "remembers rid s (with_db d n) = remembers rid s n"
  "remembers rid s (put_task t n) = remembers rid s n" "remembers rid s (drop_task i n) = remembers rid s n"
  "remembers rid s (n\<lparr>ops := S\<rparr>) = remembers rid s n" "remembers rid s (n\<lparr>equeue := q\<rparr>) = remembers rid s n"
  "remembers rid s (n\<lparr>tasks := ts\<rparr>) = remembers rid s n"
  by (simp_all add: remembers_def on_ops_def with_db_def put_task_def drop_task_def)

text \<open>The three ways of a notification that is not for a waiting execution: known in memory, in the store, or not at all.\<close>

lemma Aggregate_cases:
  assumes p: "parseInternalTriggerTaskID (nt_task p) = None"
  obtains (known) m t where "equeue m = equeue n" "\<And>rid s. remembers rid s m = remembers rid s n"
      "AggregateChecksResultWithState G ord vm now seq fresh a p n = notify_task G now seq fresh t p m"
      "map_of (tasks n) (nt_task p) = Some t \<or> GetWorkflowByID (gx G) (edb n) ord (nt_task p) = Inr t"
  | (missing) m where "equeue m = equeue n" "AggregateChecksResultWithState G ord vm now seq fresh a p n = (m, not_found_state, None)"
      "map_of (tasks n) (nt_task p) = None" "\<And>t. GetWorkflowByID (gx G) (edb n) ord (nt_task p) \<noteq> Inr t"
      "processedTriggerIDs m = filter (\<lambda>(i, _). \<not> prefix (nt_task p @ '':'') i) (processedTriggerIDs n)"
proof -
  let ?n = "on_ops (on_operator a (track_task (nt_task p))) n"
  have e: "edb ?n = edb n" "tasks ?n = tasks n" "equeue ?n = equeue n" by (simp_all add: on_ops_def)
  show thesis
  proof (cases "map_of (tasks n) (nt_task p)")
    case (Some t)
    with p e show thesis by (intro known [of ?n t]) (simp_all add: AggregateChecksResultWithState_def)
  next
    case None
    show thesis
    proof (cases "GetWorkflowByID (gx G) (edb n) ord (nt_task p)")
      case (Inl x)
      with p e None show thesis
        by (intro missing [of "fst (AggregateChecksResultWithState G ord vm now seq fresh a p n)"])
          (simp_all add: AggregateChecksResultWithState_def Let_def, simp_all add: on_ops_def)
    next
      case (Inr t)
      with p e None show thesis
        by (intro known [of "put_task t ?n" t]) (simp_all add: AggregateChecksResultWithState_def put_task_def)
    qed
  qed
qed

lemma deliver_remembers [simp]: "remembers rid s (fst (deliverChainEventWake G ord vm now x v n)) = remembers rid s n"
  by (simp add: deliverChainEventWake_def split: sum.split prod.split)

lemma gc_wakes_remembers [simp]: "remembers rid s (gc_wakes B i ws n) = remembers rid s n"
  by (induction B i ws n rule: gc_wakes.induct) (simp_all add: Let_def)

lemma sweep_remembers [simp]: "remembers rid s (sweepExpiredWaits G ord now n) = remembers rid s n"
proof -
  have "remembers rid s (sweep_one G ord now ew n) = remembers rid s n" for ew n
    by (simp add: sweep_one_def split: sum.split find_error.split prod.split)
  then have "remembers rid s (fold (sweep_one G ord now) ws n) = remembers rid s n" for ws n
    by (induction ws arbitrary: n) simp_all
  then show ?thesis by (simp add: sweepExpiredWaits_def split: sum.split)
qed

text \<open>What must not happen in between: a restart, a notification after the window, or one that finds the workflow missing.\<close>

fun undisturbed :: "string \<Rightarrow> int \<Rightarrow> event \<Rightarrow> bool" where
  "undisturbed rid since ERestart \<longleftrightarrow> False"
| "undisturbed rid since (ENotify now q st) \<longleftrightarrow> now - since \<le> dedup_window \<and>
     (es_status st = ''not_found'' \<longrightarrow> \<not> prefix (nt_task q @ '':'') rid)"
| "undisturbed rid since _ \<longleftrightarrow> True"

lemma Aggregate_remembers:
  assumes "AggregateChecksResultWithState G ord vm now seq fresh a q n = (n', st, e)" "undisturbed rid since (ENotify now q st)"
    "remembers rid since n"
  shows "remembers rid since n'"
proof (cases "parseInternalTriggerTaskID (nt_task q)")
  case (Some x)
  have "n' = fst (deliverChainEventWake G ord vm now x (nt_event q) (on_ops (on_operator a (track_task (nt_task q))) n))"
    using assms(1) Some by (auto simp: AggregateChecksResultWithState_def Let_def split: prod.splits)
  with assms(3) show ?thesis by simp
next
  case None
  then show ?thesis
  proof (cases rule: Aggregate_cases [of q n G ord vm now seq fresh a])
    case (known m t)
    with assms notify_task_remembers [of rid since m now] show ?thesis by simp
  next
    case (missing m)
    with assms show ?thesis by (auto simp: remembers_def not_found_state_def)
  qed
qed

lemma step_remembers:
  assumes "engine_step G l n n'" "undisturbed rid since l" "remembers rid since n"
  shows "remembers rid since n'"
  using assms(1)
proof cases
  case create
  then show ?thesis using assms(3)
    by (auto simp: CreateWorkflow_def store_workflow_def Let_def split: sum.splits option.splits if_splits)
next
  case delete
  then show ?thesis using assms(3)
    by (auto simp: DeleteWorkflowByUser_def gcDurableStateForTask_def Let_def split: sum.splits option.splits if_splits)
next
  case set
  then show ?thesis using assms(3)
    by (auto simp: SetWorkflowEnabledByUser_def Let_def split: sum.splits option.splits if_splits prod.splits)
next
  case disable
  then show ?thesis using assms(3) by (auto simp: DisableWorkflow_def Let_def split: sum.splits option.splits if_splits)
next
  case trigger
  then show ?thesis using assms(3)
    by (auto simp: TriggerWorkflow_def Let_def split: sum.splits option.splits if_splits prod.splits)
next
  case notify
  with assms(2) show ?thesis using Aggregate_remembers assms(3) by blast
qed (use assms(2,3) in simp_all)

definition step_within :: "'d genv \<Rightarrow> string \<Rightarrow> int \<Rightarrow> 'd engine \<Rightarrow> 'd engine \<Rightarrow> bool" where
  "step_within G rid since n n' \<longleftrightarrow> (\<exists>l. undisturbed rid since l \<and> engine_step G l n n')"

lemma steps_remember: "(step_within G rid since)\<^sup>*\<^sup>* n n' \<Longrightarrow> remembers rid since n \<Longrightarrow> remembers rid since n'"
  by (induction rule: rtranclp_induct) (auto simp: step_within_def intro: step_remembers)

text \<open>
C9: A trigger is queued at most once. Once a notification with a request id has been taken up for a workflow, every later
notification for the workflow with that id within the next five minutes, after whatever handlers have run in between
(other notifications and further duplicates included), leaves the queue and the store as they are and is answered as a
duplicate, or as not found when the workflow is by then neither in memory nor in the store. The condition is that the
engine is not restarted in between, since the ids are kept in memory only, that all notifications in between are within
the window, and that none of them names a missing workflow whose id starts the request id, which forgets it. This holds
also when the first could not be queued or the workflow could not run, and whether or not the database fails.
\<close>

theorem duplicate_trigger_queued_once:
  assumes "parseInternalTriggerTaskID (nt_task p) = None" "nt_request_id p \<noteq> []"
    and "AggregateChecksResultWithState G ord vm now seq fresh a p n = (n1, st, e)"
    and "es_status st \<noteq> ''not_found''" "es_status st \<noteq> ''deduplicated''"
    and "(step_within G (nt_request_id p) now)\<^sup>*\<^sup>* n1 n2"
    and "nt_task p' = nt_task p" "nt_request_id p' = nt_request_id p" "now' \<le> now + 5 * 60 * 1000000000"
  shows "\<exists>n3 st'. AggregateChecksResultWithState G ord' vm' now' seq' fresh' a' p' n2 = (n3, st', None) \<and>
    equeue n3 = equeue n2 \<and>
    es_status st' = (if map_of (tasks n2) (nt_task p) \<noteq> None \<or> (\<exists>t. GetWorkflowByID (gx G) (edb n2) ord' (nt_task p) = Inr t)
      then ''deduplicated'' else ''not_found'')"
proof -
  have "remembers (nt_request_id p) now n1" using assms(1)
  proof (cases rule: Aggregate_cases [of p n G ord vm now seq fresh a])
    case (known m t)
    with notify_task_takes [of G now seq fresh t p m] assms(2,3,5) show ?thesis by simp
  qed (use assms(3,4) in \<open>auto simp: not_found_state_def\<close>)
  then have n2: "remembers (nt_request_id p') now n2" using steps_remember [OF assms(6)] assms(8) by simp
  from assms(1,7) have "parseInternalTriggerTaskID (nt_task p') = None" by simp
  then show ?thesis
  proof (cases rule: Aggregate_cases [of p' n2 G ord' vm' now' seq' fresh' a'])
    case (known m t)
    with notify_task_duplicate [of p' now m now' G seq' fresh' t] n2 assms(2,7,8,9)
    show ?thesis by (auto simp: dedup_window_def duplicate_state_def)
  next
    case (missing m)
    with assms(7) show ?thesis by (simp add: not_found_state_def)
  qed
qed

lemma first_notification:
  assumes "notify_task G now seq fresh t p n = (n', st, e)" "processedTriggerIDs n = []"
  shows "es_status st \<noteq> ''not_found'' \<and> es_status st \<noteq> ''deduplicated''"
  using assms
  by (auto simp: notify_task_def Let_def evict_stale_def queue_trigger_def stopped_state_def queued_state_def error_state_def
      split: if_splits option.splits sum.splits prod.splits)

definition idle_vm :: resume_vm where
  "idle_vm = \<lparr>vm_build = Inr [], vm_run = (\<lambda>vars _ steps. \<lparr>leg_error = None, leg_logs = steps, leg_suspend = None,
     leg_vars = vars\<rparr>)\<rparr>"

definition sample_notify :: notify_req where
  "sample_notify = \<lparr>nt_task = sample_id, nt_request_id = ''r'', nt_type = TriggerBlock, nt_output = None, nt_event = None\<rparr>"

theorem duplicate_trigger_queued_once_witness:
  "\<exists>n n1 st e n2 n3 st'.
     AggregateChecksResultWithState mem_genv task_statuses idle_vm 0 (Inr 7) ''x1'' ''op'' sample_notify n = (n1, st, e) \<and>
     engine_step mem_genv ESweep n1 n2 \<and>
     AggregateChecksResultWithState mem_genv task_statuses idle_vm 1000 (Inr 8) ''x2'' ''op'' sample_notify n2 = (n3, st', None) \<and>
     es_status st \<noteq> ''deduplicated'' \<and> es_status st' \<in> {''deduplicated'', ''not_found''} \<and> equeue n3 = equeue n2"
proof -
  obtain n0 t where n0: "GetWorkflowByID mem_xenv (edb n0) task_statuses sample_id = Inr t" using sample_created by metis
  let ?n = "restarted n0"
  obtain n1 st e where c: "AggregateChecksResultWithState mem_genv task_statuses idle_vm 0 (Inr 7) ''x1'' ''op'' sample_notify ?n = (n1, st, e)"
    by (metis surj_pair)
  then obtain m where "notify_task mem_genv 0 (Inr 7) ''x1'' t sample_notify m = (n1, st, e)" "processedTriggerIDs m = []"
    using n0 by (simp add: AggregateChecksResultWithState_def sample_notify_def restarted_def put_task_def on_ops_def edb_def
        Let_def del: with_db_queue)
  from first_notification [OF this] have st: "es_status st \<noteq> ''not_found''" "es_status st \<noteq> ''deduplicated''" by simp_all
  let ?n2 = "sweepExpiredWaits mem_genv task_statuses 5 n1"
  have s: "engine_step mem_genv ESweep n1 ?n2" by (rule sweep) simp
  then have "step_within mem_genv (nt_request_id sample_notify) 0 n1 ?n2" unfolding step_within_def by (intro exI [of _ ESweep]) simp
  then have "\<exists>n3 st'. AggregateChecksResultWithState mem_genv task_statuses idle_vm 1000 (Inr 8) ''x2'' ''op'' sample_notify ?n2 = (n3, st', None) \<and>
    equeue n3 = equeue ?n2 \<and> es_status st' = (if map_of (tasks ?n2) (nt_task sample_notify) \<noteq> None \<or>
      (\<exists>t. GetWorkflowByID (gx mem_genv) (edb ?n2) task_statuses (nt_task sample_notify) = Inr t) then ''deduplicated'' else ''not_found'')"
    by (intro duplicate_trigger_queued_once [OF _ _ c st r_into_rtranclp [of "step_within mem_genv (nt_request_id sample_notify) 0"] refl refl])
      (simp_all add: sample_notify_def)
  then obtain n3 st' where "AggregateChecksResultWithState mem_genv task_statuses idle_vm 1000 (Inr 8) ''x2'' ''op'' sample_notify ?n2 = (n3, st', None)"
    "equeue n3 = equeue ?n2" "es_status st' \<in> {''deduplicated'', ''not_found''}" by (auto split: if_splits)
  with c st(2) s show ?thesis by blast
qed

section \<open>Signals\<close>

lemma gc_durable_rows:
  "store_total B \<Longrightarrow> rows_of B (gc_durable B x d) = (rows_of B d)(checkpointKey x := None, wakeSubscriptionKey x := None)"
  using rows_delete_logged [of B]
  by (simp add: gc_durable_def deleteWakeSubscription_def deleteCheckpoint_def delete_logged_def)

lemma gc_durable_no_wait:
  "store_total B \<Longrightarrow> loadWakeSubscription C B (gc_durable B x d) x = Inl (DStorage ErrKeyNotFound)"
  by (simp add: loadWakeSubscription_def total_GetKey gc_durable_rows)

lemma write_terminal_gc: "write_terminal E t x y d = (d', Inr z) \<Longrightarrow> \<exists>d1. d' = gc_durable (xbadger E) x d1 \<and> z = y"
  by (auto simp: write_terminal_def split: option.splits sum.splits)

lemma checkpoint_waits: "checkpointSuspendedExecution E now t x l s d = (d', Inr z) \<Longrightarrow> ex_status z = ExecWaiting"
  by (auto simp: checkpointSuspendedExecution_def suspended_execution_def Let_def split: option.splits sum.splits)

lemma Advance_done:
  assumes "Advance E vm now t x sg d = (d', Inr z)" "ex_status z \<noteq> ExecWaiting"
  obtains d1 where "d' = gc_durable (xbadger E) x d1"
proof -
  from assms consider d1 where "d' = gc_durable (xbadger E) x d1"
    | y l s where "checkpointSuspendedExecution E now t y l s d = (d', Inr z)" | y where "write_terminal E t x y d = (d', Inr z)"
    unfolding Advance_def Let_def by (fastforce split: sum.splits if_splits option.splits)
  then show thesis
  proof cases
    case 2
    from checkpoint_waits [OF 2] assms(2) show thesis by simp
  next
    case 3
    from write_terminal_gc [OF 3] that show thesis by blast
  qed (rule that)
qed

text \<open>
C8: A signal is consumed once. It resumes an execution only when a wait is registered for that execution, of the kind of
the signal and not past its timeout; and once the execution it resumed has ended, no later signal, of whatever content
and at whatever time, resumes it again: it is refused because no wait is pending, and the store stays as it is.
\<close>

theorem signal_consumed_once:
  assumes "store_total (xbadger E)" "DeliverSignal E vm now t sg d = (d', Inr x)"
  shows "(\<exists>w. loadWakeSubscription (wakeCodec E) (xbadger E) d (sig_execution sg) = Inr w \<and> w_kind w = sig_kind sg \<and>
      (0 < w_timeout w \<longrightarrow> unix_milli now \<le> w_timeout w)) \<and>
    (ex_status x \<noteq> ExecWaiting \<longrightarrow> (\<forall>vm' now' t' sg'. sig_execution sg' = sig_execution sg \<longrightarrow> ValidateSignal (Some sg') = None \<longrightarrow>
      DeliverSignal E vm' now' t' sg' d' = (d', Inl (NoPendingWait (DStorage ErrKeyNotFound)))))"
proof -
  from assms(2) obtain w where w: "loadWakeSubscription (wakeCodec E) (xbadger E) d (sig_execution sg) = Inr w"
    "w_kind w = sig_kind sg" "0 < w_timeout w \<longrightarrow> unix_milli now \<le> w_timeout w"
    and a: "Advance E vm now t (sig_execution sg) (Some sg) d = (d', Inr x)"
    by (auto simp: DeliverSignal_def split: option.splits sum.splits if_splits)
  have "loadWakeSubscription (wakeCodec E) (xbadger E) d' (sig_execution sg) = Inl (DStorage ErrKeyNotFound)"
    if "ex_status x \<noteq> ExecWaiting"
    using Advance_done [OF a that] gc_durable_no_wait [OF assms(1)] by metis
  with w show ?thesis by (auto simp: DeliverSignal_def)
qed

definition sample_wake :: wake where
  "sample_wake = \<lparr>w_kind = WakeExternalSignal, w_task = ''01'', w_chain_event = None,
     w_external = Some \<lparr>channel = ''c'', approvers = [], prompt = []\<rparr>, w_timeout = 1000\<rparr>"

definition sample_waiting :: execution where
  "sample_waiting = \<lparr>ex_id = ''x'', ex_start = 0, ex_end = 0, ex_status = ExecWaiting, ex_error = [],
     ex_steps = [\<lparr>step_id = ''n1'', step_name = ''ask'', step_success = True, step_error = [], step_skipped = False\<rparr>],
     ex_index = 0, ex_resume = ''n1'', ex_wait_reason = ''waiting on external_signal''\<rparr>"

definition sample_signal :: signal where
  "sample_signal = \<lparr>sig_execution = ''x'', sig_kind = WakeExternalSignal, decision = ''approve'', approver = ''0x01'', payload = None\<rparr>"

definition sample_wait_store :: "(bytes \<times> bytes) list" where
  "sample_wait_store = [(wakeSubscriptionKey ''x'', the (marshalWake (wakeCodec mem_xenv) sample_wake)),
     (TaskExecutionKey example_task ''x'', the (execMarshal mem_xenv sample_waiting)), (checkpointKey ''x'', ''c'')]"

lemma sample_wait_rows:
  "loadWakeSubscription (wakeCodec mem_xenv) mem_badger sample_wait_store ''x'' = Inr sample_wake"
  "load_execution mem_xenv example_task ''x'' sample_wait_store = Inr sample_waiting"
  "loadCheckpoint mem_badger sample_wait_store ''x'' = Inr ''c''"
proof -
  have k: "TaskExecutionKey example_task ''x'' \<noteq> wakeSubscriptionKey ''x''" "checkpointKey ''x'' \<noteq> wakeSubscriptionKey ''x''"
    "TaskExecutionKey example_task ''x'' \<noteq> checkpointKey ''x''"
    by (simp_all add: TaskExecutionKey_def join_def wakeSubscriptionKey_def wakeSubscriptionPrefix_def checkpointKey_def)
  have r: "rows_of mem_badger d k = map_of d k" for d k by (simp add: rows_of_def mem_badger_def split: option.splits)
  obtain b where b: "marshalWake (wakeCodec mem_xenv) sample_wake = Some b"
    by (simp add: marshalWake_def sample_wake_def mem_xenv_def strokes_def)
  have ok: "wake_codec_ok (wakeCodec mem_xenv)" using mem_xenv_ok by (simp add: xenv_ok_def)
  show "loadWakeSubscription (wakeCodec mem_xenv) mem_badger sample_wait_store ''x'' = Inr sample_wake"
    using wake_roundtrip [OF ok b] b by (simp add: loadWakeSubscription_def total_GetKey [OF mem_badger_total] r sample_wait_store_def)
  obtain c where c: "execMarshal mem_xenv sample_waiting = Some c" by (simp add: mem_xenv_def strokes_def)
  then have "execUnmarshal mem_xenv c = Some sample_waiting" using mem_xenv_ok by (simp add: xenv_ok_def)
  with c k show "load_execution mem_xenv example_task ''x'' sample_wait_store = Inr sample_waiting"
    by (simp add: load_execution_def total_GetKey [OF mem_badger_total] r sample_wait_store_def)
  show "loadCheckpoint mem_badger sample_wait_store ''x'' = Inr ''c''"
    using k by (simp add: loadCheckpoint_def total_GetKey [OF mem_badger_total] r sample_wait_store_def)
qed

lemma sample_delivered:
  obtains d x where "DeliverSignal mem_xenv idle_vm 0 example_task sample_signal sample_wait_store = (d, Inr x)"
    "ex_status x = ExecSuccess"
proof -
  obtain vars where v: "restoreNodeVars (varsCodec mem_xenv) ''c'' [] = Some vars"
    by (simp add: restoreNodeVars_def mem_xenv_def of_strokes_def)
  let ?x = "resumed_execution 0 sample_waiting (vm_run idle_vm vars [''n1''] (ex_steps sample_waiting))"
  obtain b where b: "execMarshal mem_xenv ?x = Some b" by (simp add: mem_xenv_def strokes_def)
  obtain d where d: "BatchWrite mem_badger sample_wait_store [(TaskExecutionKey example_task ''x'', b)] = Inr d"
    using total_BatchWrite [OF mem_badger_total] by blast
  have "DeliverSignal mem_xenv idle_vm 0 example_task sample_signal sample_wait_store = (gc_durable mem_badger ''x'' d, Inr ?x)"
    using b d sample_wait_rows v
    by (simp add: DeliverSignal_def sample_signal_def ValidateSignal_def sample_wake_def unix_milli_def Advance_def
        sample_waiting_def idle_vm_def Let_def completedNodeIDsFromSteps_def delivered_output_def write_terminal_def)
  moreover have "ex_status ?x = ExecSuccess"
    by (simp add: resumed_execution_def sample_waiting_def idle_vm_def AnalyzeExecutionResult_def step_failed_def
        convertToExecutionStatus_def Let_def)
  ultimately show thesis by (rule that)
qed

theorem signal_consumed_once_witness:
  "\<exists>d x. DeliverSignal mem_xenv idle_vm 0 example_task sample_signal sample_wait_store = (d, Inr x) \<and> ex_status x = ExecSuccess \<and>
     DeliverSignal mem_xenv idle_vm 5 example_task sample_signal d = (d, Inl (NoPendingWait (DStorage ErrKeyNotFound)))"
proof -
  obtain d x where d: "DeliverSignal mem_xenv idle_vm 0 example_task sample_signal sample_wait_store = (d, Inr x)"
    "ex_status x = ExecSuccess" by (rule sample_delivered)
  have "ValidateSignal (Some sample_signal) = None" by (simp add: sample_signal_def ValidateSignal_def)
  with signal_consumed_once [OF _ d(1)] d mem_badger_total show ?thesis by simp
qed

text \<open>What a signal decides and who decides it are not looked at: a rejection resumes the execution exactly as an approval.\<close>

lemma signal_decision_ignored:
  "SignalExecution E ord vm now user wid xid ''reject'' body d = SignalExecution E ord vm now user wid xid ''approve'' body d"
proof -
  have o: "delivered_output t x (Some (sg\<lparr>decision := a\<rparr>)) = delivered_output t x (Some sg)" for t x sg a
    by (simp add: delivered_output_def fun_eq_iff)
  have "Advance E vm now t i (Some (sg\<lparr>decision := a\<rparr>)) d = Advance E vm now t i (Some sg) d" for t i sg a
    by (simp only: Advance_def o)
  then have "DeliverSignal E vm now t (sg\<lparr>decision := ''reject''\<rparr>) d = DeliverSignal E vm now t (sg\<lparr>decision := ''approve''\<rparr>) d" for t sg
    by (simp add: DeliverSignal_def ValidateSignal_def split: sum.split)
  from this [of _ "\<lparr>sig_execution = xid, sig_kind = WakeExternalSignal, decision = [], approver = lower_hex user, payload = body\<rparr>"]
  show ?thesis by (cases "GetWorkflow E d ord user wid") (simp_all add: SignalExecution_def)
qed

end
