(* ===== verification/EngineCleanup.thy ===== *)
theory EngineCleanup
  imports EngineSafety
begin

text \<open>What a deletion leaves of a workflow.\<close>

lemma gc_wakes_rows:
  assumes "store_total B"
  shows "rows_of B (edb (gc_wakes B i ws n)) k =
    (if \<exists>x w. (x, w) \<in> set ws \<and> w_task w = i \<and> (k = checkpointKey x \<or> k = wakeSubscriptionKey x) then None
     else rows_of B (edb n) k)"
proof (induction ws arbitrary: n)
  case (Cons ew ws)
  obtain x w where ew: "ew = (x, w)" by (cases ew)
  let ?m = "with_db (gc_durable B x (edb n)) n"
  show ?case
  proof (cases "w_task w = i")
    case False
    then show ?thesis unfolding ew using Cons.IH [of n] by auto
  next
    case True
    define P where "P \<longleftrightarrow> (\<exists>x w. (x, w) \<in> set ws \<and> w_task w = i \<and> (k = checkpointKey x \<or> k = wakeSubscriptionKey x))"
    have "rows_of B (edb (gc_wakes B i ws m)) k = (if P then None else rows_of B (edb m) k)" for m
      unfolding P_def by (rule Cons.IH)
    then have "rows_of B (edb (gc_wakes B i (ew # ws) n)) k = (if P then None else rows_of B (gc_durable B x (edb n)) k)"
      unfolding ew using True by (simp add: Let_def)
    then show ?thesis unfolding ew P_def using True by (auto simp: gc_durable_rows [OF assms])
  qed
qed simp

lemma clear_fold: "fold clear ks m k = (if k \<in> set ks then None else m k)"
  by (induction ks arbitrary: m) (auto simp: clear_def)

lemma delete_state_rows:
  assumes "store_total B"
  shows "rows_of B (delete_workflow_state B i d) k = (if prefix (WorkflowStatePrefix i) k then None else rows_of B d k)"
proof -
  have p: "\<not> suffix ''*'' (WorkflowStatePrefix i)" "WorkflowStatePrefix i \<noteq> ''*''"
    by (auto simp: suffix_def WorkflowStatePrefix_def join_def)
  obtain ks where ks: "ListKeys B d (WorkflowStatePrefix i) = Inr ks"
    "set ks = {k. prefix (WorkflowStatePrefix i) k \<and> rows_of B d k \<noteq> None}"
  proof
    show "ListKeys B d (WorkflowStatePrefix i) = Inr (iter_prefix B d (WorkflowStatePrefix i))"
      using p total_reliable [OF assms] by (simp add: ListKeys_def View_def badger_reliable_def)
    have "txn_get B d k = Inl ErrKeyNotFound \<longleftrightarrow> rows_of B d k = None" for k
      using total_reliable [OF assms] by (auto simp: badger_reliable_def rows_of_def split: sum.splits)
    then show "set (iter_prefix B d (WorkflowStatePrefix i)) = {k. prefix (WorkflowStatePrefix i) k \<and> rows_of B d k \<noteq> None}"
      by (auto simp: iter_prefix_filter [OF total_badger [OF assms]] badger_keys [OF total_badger [OF assms]])
  qed
  then show ?thesis by (auto simp: delete_workflow_state_def rows_fold_delete [OF assms] clear_fold)
qed

lemma decode_wakes_in:
  assumes "(wakeSubscriptionKey x, v) \<in> set rows" "unmarshalWake C v = Some w" "ValidateWake (Some w) = None"
  shows "(x, w) \<in> set (decode_wakes C rows)"
  using assms by (induction rows rule: decode_wakes.induct) (auto simp: wakeSubscriptionKey_def split: option.splits)

lemma decode_wakes_from:
  assumes "(x, w) \<in> set (decode_wakes C rows)" "\<And>k v. (k, v) \<in> set rows \<Longrightarrow> prefix wakeSubscriptionPrefix k"
  shows "\<exists>v. (wakeSubscriptionKey x, v) \<in> set rows \<and> unmarshalWake C v = Some w \<and> ValidateWake (Some w) = None"
  using assms
proof (induction rows rule: decode_wakes.induct)
  case (2 C k v rows)
  have "prefix wakeSubscriptionPrefix k" using "2.prems"(2) [of k v] by simp
  then have "k = wakeSubscriptionKey (drop (length wakeSubscriptionPrefix) k)" by (auto simp: prefix_def wakeSubscriptionKey_def)
  with 2 show ?case by (auto split: option.splits if_splits)
qed simp

definition pending_wait :: "'d xenv \<Rightarrow> 'd \<Rightarrow> string \<Rightarrow> wake \<Rightarrow> bool" where
  "pending_wait E d x w \<longleftrightarrow> loadWakeSubscription (wakeCodec E) (xbadger E) d x = Inr w \<and> ValidateWake (Some w) = None"

lemma wake_key_other [simp]: "wakeSubscriptionKey x \<noteq> WorkflowStorageKey i s" "wakeSubscriptionKey x \<noteq> TaskUserKey t"
  by (simp_all add: wakeSubscriptionKey_def wakeSubscriptionPrefix_def WorkflowStorageKey_def TaskUserKey_def join_def)

lemma pending_wait_row:
  "store_total (xbadger E) \<Longrightarrow> pending_wait E d x w \<longleftrightarrow>
    (\<exists>v. rows_of (xbadger E) d (wakeSubscriptionKey x) = Some v \<and> unmarshalWake (wakeCodec E) v = Some w \<and> ValidateWake (Some w) = None)"
  by (auto simp: pending_wait_def loadWakeSubscription_def total_GetKey split: option.splits)

lemma gcDurable_rows:
  assumes G: "genv_total G"
  shows "rows_of (gbadger G) (edb (gcDurableStateForTask G i n)) k =
    (if \<exists>x w. pending_wait (gx G) (edb n) x w \<and> w_task w = i \<and> (k = checkpointKey x \<or> k = wakeSubscriptionKey x) then None
     else rows_of (gbadger G) (edb n) k)"
proof -
  note B = genv_totalD [OF G]
  obtain rows where rows: "GetByPrefix (gbadger G) (edb n) wakeSubscriptionPrefix = Inr rows"
    "\<And>k v. (k, v) \<in> set rows \<longleftrightarrow> prefix wakeSubscriptionPrefix k \<and> rows_of (gbadger G) (edb n) k = Some v"
    using total_GetByPrefix [OF B(3), of "edb n" wakeSubscriptionPrefix] by metis
  have "(x, w) \<in> set (decode_wakes (wakeCodec (gx G)) rows) \<longleftrightarrow> pending_wait (gx G) (edb n) x w" for x w
  proof
    assume "(x, w) \<in> set (decode_wakes (wakeCodec (gx G)) rows)"
    then show "pending_wait (gx G) (edb n) x w"
      using decode_wakes_from [of x w "wakeCodec (gx G)" rows] rows(2) B(4) by (auto simp: pending_wait_row [OF B(2)])
  next
    assume "pending_wait (gx G) (edb n) x w"
    then show "(x, w) \<in> set (decode_wakes (wakeCodec (gx G)) rows)"
      using decode_wakes_in rows(2) B(4) by (auto simp: pending_wait_row [OF B(2)] wakeSubscriptionKey_def)
  qed
  then show ?thesis using rows(1) gc_wakes_rows [OF B(3), of i "decode_wakes (wakeCodec (gx G)) rows" n k]
    by (simp add: gcDurableStateForTask_def loadAllWakeSubscriptions_def)
qed

text \<open>
C11: A deletion by the owner or the administrator, on a database that never fails and a store with one status row per
workflow, removes the workflow and everything that could act for it: its row, its entry in the index of the owner, its
state variables, and the pending wait and the checkpoint of every execution waiting for it, so that no signal, chain event
or sweep can resume one of them. Every other row of the store stays as it is, in particular those of all other workflows
with their waits and checkpoints, and a running workflow is never deleted. (A failed write of this cascade is only logged
by the code, which is why the database must not fail.)
\<close>

theorem deletion_leaves_nothing_pending:
  assumes G: "genv_total G" and wf: "wf_rows (gx G) (edb n)" and ord: "set ord = set task_statuses"
    and c: "DeleteWorkflowByUser G ord user i n = (n', Deleted s)"
  shows "s \<noteq> Running \<and> life (gx G) (edb n) i = Some s \<and> life (gx G) (edb n') = (life (gx G) (edb n))(i := None) \<and>
    wf_rows (gx G) (edb n') \<and> (\<forall>x w. pending_wait (gx G) (edb n') x w \<longrightarrow> w_task w \<noteq> i) \<and>
    (\<exists>t. GetWorkflow (gx G) (edb n) ord user i = Inr t \<and>
      (\<forall>k. rows_of (gbadger G) (edb n') k =
        (if k = WorkflowStorageKey i s \<or> k = TaskUserKey t \<or> prefix (WorkflowStatePrefix i) k \<or>
            (\<exists>x w. pending_wait (gx G) (edb n) x w \<and> w_task w = i \<and> (k = checkpointKey x \<or> k = wakeSubscriptionKey x))
         then None else rows_of (gbadger G) (edb n) k)))"
proof -
  note B = genv_totalD [OF G]
  from c obtain t where t: "GetWorkflow (gx G) (edb n) ord user i = Inr t" "task_status t \<noteq> Running" "s = task_status t"
    by (auto simp: DeleteWorkflowByUser_def Let_def split: sum.splits if_splits)
  note at = found_at_row [OF B(2) wf ord GetWorkflow_found [OF t(1)]]
  obtain d where d: "StorageDelete (gbadger G) (edb n) (WorkflowStorageKey (task_id t) (task_status t)) = Inr d"
    "rows_of (gbadger G) d = (rows_of (gbadger G) (edb n))(WorkflowStorageKey (task_id t) (task_status t) := None)"
    using total_Delete [OF B(3)] by blast
  obtain d' where d': "StorageDelete (gbadger G) d (TaskUserKey t) = Inr d'"
    "rows_of (gbadger G) d' = (rows_of (gbadger G) d)(TaskUserKey t := None)" using total_Delete [OF B(3)] by blast
  let ?m = "gcDurableStateForTask G i (with_db d' n)"
  have n': "edb n' = delete_workflow_state (gbadger G) i (edb ?m)"
    using c t(1,2) d(1) d'(1) by (auto simp: DeleteWorkflowByUser_def Let_def)
  have "same_workflows (gbadger G) d' (edb n')"
    unfolding n' using gcDurable_same [OF G, of "with_db d' n" i] delete_state_same [OF B(3)] same_workflows_trans by fastforce
  moreover have "wf_rows (gx G) d' \<and> life (gx G) d' = (life (gx G) (edb n))(task_id t := None)"
    by (rule removed_wf [OF wf]) (use at d(2) d'(2) B(4) in auto)
  ultimately have life: "wf_rows (gx G) (edb n')" "life (gx G) (edb n') = (life (gx G) (edb n))(i := None)"
    using B(4) at by (auto simp: same_life same_wf_rows)
  have waits: "pending_wait (gx G) d' x w \<longleftrightarrow> pending_wait (gx G) (edb n) x w" for x w
    using d(2) d'(2) B(4) by (simp add: pending_wait_row [OF B(2)])
  have rows: "rows_of (gbadger G) (edb n') k =
      (if k = WorkflowStorageKey i s \<or> k = TaskUserKey t \<or> prefix (WorkflowStatePrefix i) k \<or>
          (\<exists>x w. pending_wait (gx G) (edb n) x w \<and> w_task w = i \<and> (k = checkpointKey x \<or> k = wakeSubscriptionKey x))
       then None else rows_of (gbadger G) (edb n) k)" for k
    using d(2) d'(2) at t(3) by (auto simp: n' delete_state_rows [OF B(3)] gcDurable_rows [OF G] waits)
  have "w_task w \<noteq> i" if "pending_wait (gx G) (edb n') x w" for x w
  proof
    assume i: "w_task w = i"
    from that have r: "rows_of (gbadger G) (edb n') (wakeSubscriptionKey x) \<noteq> None" using B(4) by (auto simp: pending_wait_row [OF B(2)])
    with rows [of "wakeSubscriptionKey x"] have "pending_wait (gx G) (edb n) x w"
      using that B(4) by (simp add: pending_wait_row [OF B(2)] split: if_splits)
    with rows [of "wakeSubscriptionKey x"] r i show False by (auto split: if_splits)
  qed
  with life rows at_row_life [OF wf conjunct1 [OF at]] at t show ?thesis by auto
qed

theorem deletion_leaves_nothing_pending_witness:
  "\<exists>n n'. life mem_xenv (edb n) sample_id = Some Enabled \<and>
     DeleteWorkflowByUser mem_genv task_statuses zero_address sample_id n = (n', Deleted Enabled) \<and>
     life mem_xenv (edb n') sample_id = None"
proof -
  obtain n t where n: "life mem_xenv (edb n) sample_id = Some Enabled" "wf_rows mem_xenv (edb n)"
    "GetWorkflowByID mem_xenv (edb n) task_statuses sample_id = Inr t" using sample_created by metis
  have "at_row mem_xenv (edb n) t \<and> task_id t = sample_id"
    using found_at_row [of mem_xenv "edb n" task_statuses sample_id t] n(2,3) mem_badger_total by simp
  then have "task_status t = Enabled" using at_row_life [OF n(2), of t] n(1) by simp
  moreover obtain d d' where "StorageDelete mem_badger (edb n) (WorkflowStorageKey (task_id t) Enabled) = Inr d"
    "StorageDelete mem_badger d (TaskUserKey t) = Inr d'" using total_Delete [OF mem_badger_total] by metis
  ultimately obtain n' where n': "DeleteWorkflowByUser mem_genv task_statuses zero_address sample_id n = (n', Deleted Enabled)"
    using n(3) by (simp add: DeleteWorkflowByUser_def GetWorkflow_def Let_def)
  with deletion_leaves_nothing_pending [OF mem_genv_total _ refl n'] n show ?thesis by auto
qed

end
