(* ===== verification/DurableInv.thy ===== *)
theory DurableInv
  imports EngineCleanup
begin

text \<open>A suspended execution can be resumed where it stopped.\<close>

lemma beside_row:
  assumes "store_total B" "\<not> workflow_key k" shows "rows_of B (drop_old_row B t old d) k = rows_of B d k"
  using assms by (auto simp: rows_drop_old [OF assms(1)])

lemma beside_task_rows:
  "\<not> workflow_key k \<Longrightarrow> k \<noteq> fst (task_row t json) \<and> k \<noteq> fst (user_row t)"
  by (auto simp: task_row_def user_row_def)

lemma durable_keys_apart:
  "TaskExecutionKey t x \<noteq> wakeSubscriptionKey y" "checkpointKey x \<noteq> wakeSubscriptionKey y" "TaskExecutionKey t x \<noteq> checkpointKey y"
  by (simp_all add: TaskExecutionKey_def join_def wakeSubscriptionKey_def wakeSubscriptionPrefix_def checkpointKey_def)

text \<open>What a suspension writes: the checkpoint, the wait under the workflow's id, and the execution as waiting.\<close>

lemma suspended_rows:
  assumes E: "xenv_total E" and c: "checkpointSuspendedExecution E now t x l susp d = (d', Inr x')" and w: "susp_wake susp = Some w"
  obtains snapshot where "snapshotNodeVars (varsCodec E) (vm_names t) (vm_trigger t) (leg_vars l) = Some snapshot" "x' = suspended_execution x l susp"
    "loadCheckpoint (xbadger E) d' (ex_id x) = Inr snapshot"
    "loadWakeSubscription (wakeCodec E) (xbadger E) d' (ex_id x) = Inr (w\<lparr>w_task := task_id t\<rparr>)"
    "load_execution E t (ex_id x) d' = Inr x'"
proof -
  note B = xenv_totalD(2) [OF E] and ok = xenv_totalD(1) [OF E]
  let ?w = "w\<lparr>w_task := task_id t\<rparr>" and ?u = "complete_if_done now t"
  obtain snapshot where s: "snapshotNodeVars (varsCodec E) (vm_names t) (vm_trigger t) (leg_vars l) = Some snapshot"
    using c by (cases "snapshotNodeVars (varsCodec E) (vm_names t) (vm_trigger t) (leg_vars l)") (auto simp: checkpointSuspendedExecution_def Let_def)
  obtain d1 where d1: "persistCheckpoint (xbadger E) d (ex_id x) snapshot = Inr d1"
    "rows_of (xbadger E) d1 = (rows_of (xbadger E) d)(checkpointKey (ex_id x) \<mapsto> snapshot)"
    using total_Set [OF B] unfolding persistCheckpoint_def by metis
  obtain b where b: "marshalWake (wakeCodec E) ?w = Some b" "wake_updates E t (ex_id x) susp = Inr [(wakeSubscriptionKey (ex_id x), b)]"
    using c s d1(1) w by (auto simp: checkpointSuspendedExecution_def wake_updates_def Let_def split: option.splits)
  obtain xb json where m: "execMarshal E (suspended_execution x l susp) = Some xb" "taskMarshal E ?u = Some json"
    using c s d1(1) b(2) by (auto simp: checkpointSuspendedExecution_def Let_def split: option.splits)
  let ?us = "[(wakeSubscriptionKey (ex_id x), b), (TaskExecutionKey t (ex_id x), xb), task_row ?u json, user_row ?u]"
  obtain d2 where d2: "BatchWrite (xbadger E) d1 ?us = Inr d2" "rows_of (xbadger E) d2 = rows_of (xbadger E) d1 ++ map_of (rev ?us)"
    using total_BatchWrite [OF B] by blast
  have r: "d' = drop_old_row (xbadger E) ?u (task_status t) d2" "x' = suspended_execution x l susp"
    using c s d1(1) b(2) m d2(1) by (auto simp: checkpointSuspendedExecution_def Let_def)
  have rows: "rows_of (xbadger E) d' k = (if k = TaskExecutionKey t (ex_id x) then Some xb
      else if k = wakeSubscriptionKey (ex_id x) then Some b
      else if k = checkpointKey (ex_id x) then Some snapshot else rows_of (xbadger E) d k)" if "\<not> workflow_key k" for k
    unfolding r(1) beside_row [OF B that] d2(2) using beside_task_rows [OF that, of ?u json] durable_keys_apart d1(2)
    by (auto simp: map_add_def task_row_def user_row_def)
  have ckpt: "loadCheckpoint (xbadger E) d' (ex_id x) = Inr snapshot"
    using durable_keys_apart by (simp add: loadCheckpoint_def total_GetKey [OF B] rows beside eq_commute)
  have wake: "loadWakeSubscription (wakeCodec E) (xbadger E) d' (ex_id x) = Inr ?w"
    using durable_keys_apart wake_roundtrip [OF _ b(1)] ok
    by (simp add: loadWakeSubscription_def total_GetKey [OF B] rows beside xenv_ok_def eq_commute)
  have "execUnmarshal E xb = Some x'" using ok m(1) r(2) by (simp add: xenv_ok_def)
  then have "load_execution E t (ex_id x) d' = Inr x'" by (simp add: load_execution_def total_GetKey [OF B] rows beside)
  with that s r(2) ckpt wake show thesis by blast
qed

text \<open>
C7: A suspended execution resumes exactly where it stopped. On a database that never fails, once a suspension has been
recorded, a signal of the awaited kind before the timeout finds the wait, the waiting execution and the checkpoint in the
store as the suspension left it, with nothing kept in memory, and, when the VM can be rebuilt, continues the run. It runs with the
variables of the nodes and of the trigger that the suspended run had set (each as JSON gives its value back), with every
other variable of the rebuilt VM, and with the payload of the signal as the output of the awaited node; the nodes that
already ran are passed as completed, together with their steps; and the outcome is a further suspension or the end of
the execution.
\<close>

theorem suspension_resumes_where_it_stopped:
  assumes E: "xenv_total E" and c: "checkpointSuspendedExecution E now t x l susp d = (d', Inr x')" and w: "susp_wake susp = Some w"
    and sg: "sig_execution sg = ex_id x" "sig_kind sg = w_kind w" "ValidateSignal (Some sg) = None" "unix_milli now' \<le> w_timeout w"
    and t': "task_id t' = task_id t" and vm: "vm_build vm = Inr vars0"
  shows "\<exists>vars. (\<forall>k. map_of vars k = (if k \<in> checkpoint_names (vm_names t) (vm_trigger t) \<and> map_of (leg_vars l) k \<noteq> None
        then map_option (asDecoded (varsCodec E)) (map_of (leg_vars l) k) else map_of vars0 k)) \<and>
    DeliverSignal E vm now' t' sg d' =
    (let l' = vm_run vm (delivered_output t' x' (Some sg) vars) (completedNodeIDsFromSteps (leg_logs l)) (leg_logs l)
     in case leg_suspend l' of Some susp' \<Rightarrow> checkpointSuspendedExecution E now' t' x' l' susp' d'
      | None \<Rightarrow> write_terminal E t' (ex_id x) (resumed_execution now' x' l') d')"
proof -
  obtain snapshot where r: "snapshotNodeVars (varsCodec E) (vm_names t) (vm_trigger t) (leg_vars l) = Some snapshot" "x' = suspended_execution x l susp"
    "loadCheckpoint (xbadger E) d' (ex_id x) = Inr snapshot"
    "loadWakeSubscription (wakeCodec E) (xbadger E) d' (ex_id x) = Inr (w\<lparr>w_task := task_id t\<rparr>)"
    "load_execution E t (ex_id x) d' = Inr x'" by (rule suspended_rows [OF E c w])
  have V: "vars_codec_ok (varsCodec E)" using xenv_totalD(1) [OF E] by (simp add: xenv_ok_def)
  obtain vars where v: "restoreNodeVars (varsCodec E) snapshot vars0 = Some vars"
    "\<And>k. map_of vars k = (if k \<in> checkpoint_names (vm_names t) (vm_trigger t) \<and> map_of (leg_vars l) k \<noteq> None
        then map_option (asDecoded (varsCodec E)) (map_of (leg_vars l) k) else map_of vars0 k)"
    by (rule snapshot_restored [OF V r(1), where vars' = vars0]) blast
  have x': "ex_status x' = ExecWaiting" "ex_steps x' = leg_logs l"
    using r(2) by (simp_all add: suspended_execution_def Let_def split: option.splits)
  have "load_execution E t' (ex_id x) d' = Inr x'" using r(5) t' by (simp add: load_execution_def TaskExecutionKey_def)
  with r(3,4) sg vm x' v(1) show ?thesis by (intro exI [of _ vars] conjI allI v(2)) (simp add: DeliverSignal_def Advance_def)
qed

definition sample_leg :: leg where
  "sample_leg = \<lparr>leg_error = None, leg_logs = ex_steps sample_waiting,
     leg_suspend = Some \<lparr>await_node = ''n1'', susp_wake = Some sample_wake\<rparr>, leg_vars = [(''ask'', JStr ''yes'')]\<rparr>"

theorem suspension_resumes_where_it_stopped_witness:
  "\<exists>d x' d'' x''. checkpointSuspendedExecution mem_xenv 0 example_task sample_waiting sample_leg
        \<lparr>await_node = ''n1'', susp_wake = Some sample_wake\<rparr> [] = (d, Inr x') \<and>
     DeliverSignal mem_xenv idle_vm 5 example_task sample_signal d = (d'', Inr x'') \<and> ex_status x'' = ExecSuccess"
proof -
  let ?s = "\<lparr>await_node = ''n1'', susp_wake = Some sample_wake\<rparr>"
  have E: "xenv_total mem_xenv" using genv_totalD(1) [OF mem_genv_total] by simp
  have m: "execMarshal mem_xenv y \<noteq> None" for y by (simp add: mem_xenv_def strokes_def)
  obtain d x' where c: "checkpointSuspendedExecution mem_xenv 0 example_task sample_waiting sample_leg ?s [] = (d, Inr x')"
  proof -
    obtain b where b: "snapshotNodeVars (varsCodec mem_xenv) (vm_names example_task) (vm_trigger example_task) (leg_vars sample_leg) = Some b"
      by (simp add: snapshotNodeVars_def mem_xenv_def strokes_def)
    obtain d1 where d1: "persistCheckpoint mem_badger [] (ex_id sample_waiting) b = Inr d1"
      using total_Set [OF mem_badger_total] unfolding persistCheckpoint_def by metis
    obtain us where us: "wake_updates mem_xenv example_task (ex_id sample_waiting) ?s = Inr us"
      by (simp add: wake_updates_def Let_def sample_wake_def ValidateWake_def wake_source_error_def marshalWake_def mem_xenv_def strokes_def)
    obtain xb json where e: "execMarshal mem_xenv (suspended_execution sample_waiting sample_leg ?s) = Some xb"
      "taskMarshal mem_xenv (complete_if_done 0 example_task) = Some json" using m mem_xenv_encodes by (metis not_None_eq)
    obtain d2 where d2: "BatchWrite mem_badger d1 (us @ [(TaskExecutionKey example_task (ex_id sample_waiting), xb),
        task_row (complete_if_done 0 example_task) json, user_row (complete_if_done 0 example_task)]) = Inr d2"
      using total_BatchWrite [OF mem_badger_total] by metis
    from that b d1 us e d2 show thesis by (simp add: checkpointSuspendedExecution_def Let_def)
  qed
  let ?l = "\<lambda>vars. vm_run idle_vm (delivered_output example_task x' (Some sample_signal) vars)
      (completedNodeIDsFromSteps (leg_logs sample_leg)) (leg_logs sample_leg)"
  obtain vars where "DeliverSignal mem_xenv idle_vm 5 example_task sample_signal d =
      (let l' = ?l vars in case leg_suspend l' of Some susp' \<Rightarrow> checkpointSuspendedExecution mem_xenv 5 example_task x' l' susp' d
       | None \<Rightarrow> write_terminal mem_xenv example_task (ex_id sample_waiting) (resumed_execution 5 x' l') d)"
    using suspension_resumes_where_it_stopped [OF E c, of sample_wake sample_signal 5 example_task idle_vm "[]"]
    by (auto simp: sample_signal_def sample_waiting_def sample_wake_def ValidateSignal_def unix_milli_def idle_vm_def)
  moreover obtain b where b: "execMarshal mem_xenv (resumed_execution 5 x' (?l vars)) = Some b" using m by (metis not_None_eq)
  moreover obtain d3 where "BatchWrite mem_badger d [(TaskExecutionKey example_task ''x'', b)] = Inr d3"
    using total_BatchWrite [OF mem_badger_total] by metis
  ultimately have "DeliverSignal mem_xenv idle_vm 5 example_task sample_signal d =
      (gc_durable mem_badger ''x'' d3, Inr (resumed_execution 5 x' (?l vars)))"
    by (simp add: write_terminal_def idle_vm_def sample_waiting_def)
  moreover have "ex_status (resumed_execution 5 x' (?l vars)) = ExecSuccess"
    by (simp add: resumed_execution_def idle_vm_def sample_leg_def sample_waiting_def AnalyzeExecutionResult_def step_failed_def
        convertToExecutionStatus_def Let_def)
  ultimately show ?thesis using c by blast
qed

end
