(* ===== verification/EngineFindings.thy ===== *)
theory EngineFindings
  imports EngineCleanup OperatorsInv
begin

text \<open>Behaviours of the engine and the operators that a comment or a plan of the repository rules out.\<close>

section \<open>Workflows that come back\<close>

text \<open>A deletion leaves the workflow in memory, where the quota and the notifications of operators still see it.\<close>

lemma gc_wakes_tasks: "tasks (gc_wakes B i ws n) = tasks n"
  by (induction B i ws n rule: gc_wakes.induct) (simp_all add: Let_def with_db_def on_ops_def)

lemma deletion_keeps_memory: "DeleteWorkflowByUser G ord user i n = (n', r) \<Longrightarrow> tasks n' = tasks n"
  by (auto simp: DeleteWorkflowByUser_def Let_def gcDurableStateForTask_def gc_wakes_tasks with_db_def on_ops_def
      split: sum.splits if_splits)

text \<open>
  Disabling writes the copy in memory back, so that a workflow deleted before, of which memory still holds the enabled
  record, exists again.
\<close>

lemma disable_resurrects:
  assumes G: "genv_total G" and wf: "wf_rows (gx G) (edb n)" and i: "life (gx G) (edb n) i = None" "i \<noteq> []" "CHR '':'' \<notin> set i"
    and t: "map_of (tasks n) i = Some t" "task_id t = i" "task_status t = Enabled" and c: "DisableWorkflow G i n = (n', r)"
  shows "r = Inr True \<and> life (gx G) (edb n') i = Some Disabled"
proof -
  note B = genv_totalD [OF G]
  let ?t = "SetDisabled t"
  obtain json where j: "taskMarshal (gx G) ?t = Some json" using xenv_encodes [OF B(1)] .
  obtain d where d: "BatchWrite (gbadger G) (edb n) [task_row ?t json, user_row ?t] = Inr d"
    "rows_of (gbadger G) d = rows_of (gbadger G) (edb n) ++ map_of (rev [task_row ?t json, user_row ?t])"
    using total_BatchWrite [OF B(3)] by blast
  have s: "task_id ?t = i" "task_status ?t = Disabled" using t(2) by (simp_all add: SetDisabled_def)
  have n': "edb n' = drop_old_row (gbadger G) ?t Enabled d" "r = Inr True"
    using c t(1,3) j d(1) by (auto simp: DisableWorkflow_def Let_def)
  have "moved (xbadger (gx G)) (edb n) ?t Enabled json (edb n')"
    using moved_batch [OF B(2), of "[]" "[]" d "edb n" ?t json Enabled] d(2) s(2) n'(1) B(4) terminal_statuses by simp
  from moved_wf [OF xenv_totalD(1) [OF B(1)] wf this j] i s terminal_statuses have "life (gx G) (edb n') i = Some Disabled"
    by (simp add: life_None)
  with n'(2) show ?thesis by simp
qed

section \<open>Exhausted workflows\<close>

text \<open>A run that fails its gates counts as an execution but does not complete the workflow.\<close>

lemma failed_gate_keeps_exhausted:
  assumes "\<not> isPermanentValidationError (ex_error x)" "0 < max_execution t" "max_execution t \<le> execution_count t"
  shows "task_status (count_validation_failure (ex_error x) t) = task_status t \<and>
    \<not> IsRunable now (count_validation_failure (ex_error x) t) \<and> task_status (complete_if_done now t) = Completed"
  using assms by (auto simp: count_validation_failure_def Let_def IsRunable_def complete_if_done_def SetCompleted_def)

section \<open>Two awaits\<close>

text \<open>
  Of two await nodes that run in the same leg the second is not registered, yet its step is in the log, so that the
  resumed run counts its node as completed: what is behind it runs without its signal.
\<close>

lemma second_await_lost:
  assumes "ValidateWake (Some (await_wake t0 cfg)) = None" "\<not> (cfg_chain_event cfg \<noteq> None \<and> has_external_fields cfg)" "b \<noteq> []"
  shows "\<exists>st. runAwait txt t0 b nm (Some cfg) (Some s) = (Some s, st, None) \<and> b \<in> set (completedNodeIDsFromSteps (logs @ [st]))"
  using assms by (auto simp: runAwait_def Let_def requestSuspend_def completedNodeIDsFromSteps_def)

section \<open>Operators\<close>

definition two_operators :: operators where
  "two_operators = sample_operators\<lparr>trackSyncedTasks := [(''0xoperator'', sample_operator\<lparr>op_chains := [1]\<rparr>), (''0xoperbtor'', sample_operator)],
     operatorStreams := [(''0xoperator'', 7), (''0xoperbtor'', 8)]\<rparr>"

text \<open>
  The first operator to stream claims a workflow on a chain it does not watch; the second, which watches it, is then
  never sent the workflow while the first stays connected.
\<close>

lemma claimed_without_coverage:
  "let ok = Some [''0xoperator'', ''0xoperbtor'']; ts = [(''a'', block_task ''a'' 10)];
     (S1, ms1, _) = stream_pass ok (\<lambda>_. SendOk) ts [] ''0xoperator'' two_operators;
     (S2, ms2, _) = stream_pass ok (\<lambda>_. SendOk) ts [] ''0xoperbtor'' S1
   in ms1 = [] \<and> ms2 = [] \<and> operatorsCoveringChain S2 10 = [''0xoperbtor'']"
  by code_simp

text \<open>An operator that has disconnected is still counted as covering its chains.\<close>

lemma coverage_outlives_connection:
  "operatorStreams (close_stream (Some []) [] 7 ''0xoperator'' sample_operators) = [] \<and>
   operatorsCoveringChain (close_stream (Some []) [] 7 ''0xoperator'' sample_operators) 10 = [''0xoperator'']"
  by code_simp

text \<open>An operator that has said that it watches no chain is still sent workflows of every chain.\<close>

lemma explicit_empty_supports_all:
  assumes "map_of (trackSyncedTasks S) a = Some st" "op_chains st = []" "op_explicit st"
  shows "supportsTaskChain S a t \<and> \<not> covers_chain c st"
  using assms by (simp add: supportsTaskChain_def covers_chain_def)

end
