(* ===== verification/ListingInv.thy ===== *)
theory ListingInv
  imports Listing
begin

text \<open>
  What a client of the listings sees. The locale \<open>forward_listing\<close> states the contract of a listing, which part of its
  content the page after a cursor holds, and \<open>paged_listing\<close> extends it to the page before one. Following the cursors is proved once from the contract, and
  the listing of executions and the listing of workflows are its two interpretations.
\<close>

section \<open>The loops\<close>

definition cursor_val :: "page_env \<Rightarrow> cursor \<Rightarrow> nat" where
  "cursor_val P c = (if parsePos c then ulidPos c else case ulid_parse P (Position c) of None \<Rightarrow> 0 | Some u \<Rightarrow> u)"

lemma LessThanOrEqualUlid_cursor:
  assumes "LessThanOrEqualUlid P c u = (c', b)"
  shows "cursor_val P c' = cursor_val P c" "Direction c' = Direction c" "IsZero c' = IsZero c"
    "b = (if Direction c = CursorNext then cursor_val P c \<le> u else cursor_val P c \<ge> u)"
  using assms by (auto simp: LessThanOrEqualUlid_def parse_ulid_pos_def cursor_val_def IsZero_def Let_def split: if_splits)

text \<open>The items that a list of keys shows, and what the loops collect of them.\<close>

definition item_at :: "(string \<Rightarrow> list_error + 'a option) \<Rightarrow> string \<Rightarrow> 'a option" where
  "item_at load k = (case load k of Inl _ \<Rightarrow> None | Inr r \<Rightarrow> r)"

definition shown :: "(string \<Rightarrow> list_error + 'a option) \<Rightarrow> string list \<Rightarrow> 'a list" where
  "shown load ks = map (the \<circ> item_at load) (filter (\<lambda>k. item_at load k \<noteq> None) ks)"

lemma shown_simps [simp]: "shown load [] = []"
  "load k = Inr None \<Longrightarrow> shown load (k # ks) = shown load ks"
  "load k = Inr (Some x) \<Longrightarrow> shown load (k # ks) = x # shown load ks"
  by (simp_all add: shown_def item_at_def)

lemma forward_loop_collects:
  assumes "\<forall>k \<in> set ks. ulid_parse P (idOf k) = Some (uid k) \<and> (\<exists>r. load k = Inr r)"
    and "Direction c = CursorNext" and "length items \<le> limit"
  shows "forward_loop P idOf load limit c ks items =
    Inr (take (Suc limit) (items @ shown load (filter (\<lambda>k. IsZero c \<or> uid k < cursor_val P c) ks)))"
  using assms
proof (induction ks arbitrary: c items)
  case Nil
  then show ?case by simp
next
  case (Cons k ks)
  obtain c' b where cb: "(if IsZero c then (c, False) else LessThanOrEqualUlid P c (uid k)) = (c', b)" by fastforce
  have c': "Direction c' = CursorNext" "IsZero c' = IsZero c" "cursor_val P c' = cursor_val P c"
    "b \<longleftrightarrow> \<not> (IsZero c \<or> uid k < cursor_val P c)"
    using cb Cons.prems(2) by (auto split: if_splits dest: LessThanOrEqualUlid_cursor)
  have IH: "length its \<le> limit \<Longrightarrow> forward_loop P idOf load limit c' ks its =
      Inr (take (Suc limit) (its @ shown load (filter (\<lambda>k. IsZero c \<or> uid k < cursor_val P c) ks)))" for its
    using Cons.IH [of c' its] Cons.prems(1) c' by simp
  obtain r where r: "load k = Inr r" and u: "ulid_parse P (idOf k) = Some (uid k)" using Cons.prems(1) by auto
  show ?case
  proof (cases b)
    case True
    then show ?thesis using u cb c'(4) IH [OF Cons.prems(3)] by simp
  next
    case False
    then have "shown load (filter (\<lambda>k. IsZero c \<or> uid k < cursor_val P c) (k # ks)) =
        (case r of None \<Rightarrow> [] | Some x \<Rightarrow> [x]) @ shown load (filter (\<lambda>k. IsZero c \<or> uid k < cursor_val P c) ks)"
      using r c'(4) by (cases r) auto
    with False u cb r IH Cons.prems(3) show ?thesis by (auto simp: Let_def split: option.splits)
  qed
qed

lemma backward_loop_collects:
  assumes "\<forall>k \<in> set ks. ulid_parse P (idOf k) = Some (uid k) \<and> (\<exists>r. load k = Inr r)" and "length items \<le> limit"
  shows "backward_loop P idOf load limit cu ks items =
    Inr (take (Suc limit) (items @ shown load (filter (\<lambda>k. cu < uid k) ks)))"
  using assms
proof (induction ks arbitrary: items)
  case (Cons k ks)
  obtain r where r: "load k = Inr r" and u: "ulid_parse P (idOf k) = Some (uid k)" using Cons.prems(1) by auto
  with Cons show ?case by (cases r) (auto simp: Let_def not_less Suc_diff_le Suc_diff_Suc Suc_le_eq)
qed simp

section \<open>Sorted keys\<close>

lemma filter_below_nth:
  assumes "sorted_wrt (\<lambda>a b. f b < f a) ks" "i < length ks"
  shows "filter (\<lambda>k. f k < (f (ks ! i) :: nat)) ks = drop (Suc i) ks"
proof -
  have s: "sorted_wrt (\<lambda>a b. f b < f a) (take i ks @ ks ! i # drop (Suc i) ks)"
    using assms by (simp add: id_take_nth_drop [symmetric])
  have "filter (\<lambda>k. f k < f (ks ! i)) (take i ks @ ks ! i # drop (Suc i) ks) = drop (Suc i) ks"
    using s by (auto simp: sorted_wrt_append filter_empty_conv filter_id_conv)
  then show ?thesis using assms(2) by (simp add: id_take_nth_drop [symmetric])
qed

lemma filter_above_nth:
  assumes "sorted_wrt (\<lambda>a b. f b < f a) ks" "i < length ks"
  shows "filter (\<lambda>k. (f (ks ! i) :: nat) < f k) ks = take i ks"
proof -
  have s: "sorted_wrt (\<lambda>a b. f b < f a) (take i ks @ ks ! i # drop (Suc i) ks)"
    using assms by (simp add: id_take_nth_drop [symmetric])
  have "filter (\<lambda>k. f (ks ! i) < f k) (take i ks @ ks ! i # drop (Suc i) ks) = take i ks"
    using s by (auto simp: sorted_wrt_append filter_empty_conv filter_id_conv)
  then show ?thesis using assms(2) by (simp add: id_take_nth_drop [symmetric])
qed

text \<open>
  Keys that can be paged: every id is a ULID, no two are the same, nothing fails to load and an item carries the id of
  its key.
\<close>

definition pageable :: "page_env \<Rightarrow> (string \<Rightarrow> string) \<Rightarrow> (string \<Rightarrow> list_error + 'a option) \<Rightarrow> ('a \<Rightarrow> string) \<Rightarrow> string list \<Rightarrow> bool" where
  "pageable P idOf load itemId ks \<longleftrightarrow> page_env_ok P \<and> distinct (map (ulid_parse P \<circ> idOf) ks) \<and>
     (\<forall>k \<in> set ks. ulid_parse P (idOf k) \<noteq> None \<and> ascii (idOf k) \<and> (\<exists>r. load k = Inr r) \<and>
        (\<forall>x. load k = Inr (Some x) \<longrightarrow> itemId x = idOf k))"

definition newest_first :: "page_env \<Rightarrow> (string \<Rightarrow> string) \<Rightarrow> string list \<Rightarrow> string list" where
  "newest_first P idOf ks = rev (sort_key (\<lambda>k. the (ulid_parse P (idOf k))) ks)"

lemma newest_first_sorted:
  assumes "pageable P idOf load itemId ks"
  shows "sorted_wrt (\<lambda>a b. the (ulid_parse P (idOf b)) < the (ulid_parse P (idOf a))) (newest_first P idOf ks)"
proof -
  let ?f = "\<lambda>k. the (ulid_parse P (idOf k))"
  have i: "inj_on (ulid_parse P \<circ> idOf) (set ks)" "distinct ks" and n: "\<forall>k \<in> set ks. ulid_parse P (idOf k) \<noteq> None"
    using assms by (simp_all add: pageable_def distinct_map)
  have "inj_on ?f (set ks)"
  proof (rule inj_onI)
    fix a b assume ab: "a \<in> set ks" "b \<in> set ks" and eq: "?f a = ?f b"
    then have "ulid_parse P (idOf a) = ulid_parse P (idOf b)" using n by (metis option.expand)
    then show "a = b" using inj_onD [OF i(1), of a b] ab by simp
  qed
  with i(2) have "distinct (map ?f (sort_key ?f ks))" by (simp add: distinct_map)
  then have "sorted_wrt (<) (map ?f (sort_key ?f ks))" by (simp add: strict_sorted_iff)
  then show ?thesis by (simp add: newest_first_def sorted_wrt_rev sorted_wrt_map)
qed

lemma sort_keys_pageable:
  "pageable P idOf load itemId ks \<Longrightarrow> sort_keys P idOf ks = Inr (rev (newest_first P idOf ks))"
  by (auto simp: sort_keys_def newest_first_def pageable_def list_ex_iff)

definition page_size :: "int \<Rightarrow> nat" where
  "page_size limit = nat (if limit = 0 then DefaultLimit else limit)"

lemma page_size_pos: "0 \<le> limit \<Longrightarrow> 0 < page_size limit"
  by (simp add: page_size_def DefaultLimit_def)

section \<open>The page at a cursor\<close>

lemma SetupPagination_start: "0 \<le> limit \<Longrightarrow> SetupPagination P [] [] limit = Inr (zero_cursor, page_size limit)"
  by (simp add: SetupPagination_def CursorFromBeforeAfter_def page_size_def)

lemma SetupPagination_cursor:
  assumes "page_env_ok P" "ascii i" "i \<noteq> []" "0 \<le> limit"
  shows "SetupPagination P [] (CreateNextCursor P i) limit = Inr (NewCursor CursorNext i, page_size limit)"
    and "SetupPagination P (CreateNextCursor P i) [] limit = Inr (NewCursor CursorPrevious i, page_size limit)"
proof -
  have "cursorEncode P CursorNext i \<noteq> []"
    "cursorDecode P (cursorEncode P CursorNext i) = CursorFields (Some CursorNext) (Some i)"
    using assms(1,2) by (auto simp: page_env_ok_def)
  then show "SetupPagination P [] (CreateNextCursor P i) limit = Inr (NewCursor CursorNext i, page_size limit)"
    and "SetupPagination P (CreateNextCursor P i) [] limit = Inr (NewCursor CursorPrevious i, page_size limit)"
    using assms(3,4)
    by (simp_all add: SetupPagination_def CursorFromBeforeAfter_def CreateNextCursor_def CursorFromString_def
        set_direction_def page_size_def NewCursor_def zero_cursor_def)
qed

lemma ulid_id:
  assumes "page_env_ok P" "ulid_parse P i = Some u"
  shows "i \<noteq> []" "\<not> IsZero (NewCursor d i)" "cursor_val P (NewCursor d i) = u" "Direction (NewCursor d i) = d"
    "Position (NewCursor d i) = i"
proof -
  have "length i = 26" using assms by (auto simp: page_env_ok_def)
  then show "i \<noteq> []" "\<not> IsZero (NewCursor d i)" by (auto simp: IsZero_def NewCursor_def)
  show "cursor_val P (NewCursor d i) = u" "Direction (NewCursor d i) = d" "Position (NewCursor d i) = i"
    using assms(2) by (simp_all add: cursor_val_def NewCursor_def zero_cursor_def)
qed

text \<open>The content of a listing, newest first, with the keys behind it.\<close>

definition visible_keys :: "page_env \<Rightarrow> (string \<Rightarrow> string) \<Rightarrow> (string \<Rightarrow> list_error + 'a option) \<Rightarrow> string list \<Rightarrow> string list" where
  "visible_keys P idOf load ks = filter (\<lambda>k. item_at load k \<noteq> None) (newest_first P idOf ks)"

definition listing :: "page_env \<Rightarrow> (string \<Rightarrow> string) \<Rightarrow> (string \<Rightarrow> list_error + 'a option) \<Rightarrow> string list \<Rightarrow> 'a list" where
  "listing P idOf load ks = map (the \<circ> item_at load) (visible_keys P idOf load ks)"

lemma shown_filter: "shown load (filter Q ks) = map (the \<circ> item_at load) (filter Q (filter (\<lambda>k. item_at load k \<noteq> None) ks))"
  by (simp add: shown_def conj_commute)

lemma visible_key:
  assumes "pageable P idOf load itemId ks" "i < length (listing P idOf load ks)"
  defines "k \<equiv> visible_keys P idOf load ks ! i"
  shows "k \<in> set ks" "load k = Inr (Some (listing P idOf load ks ! i))" "itemId (listing P idOf load ks ! i) = idOf k"
    "ulid_parse P (idOf k) = Some (the (ulid_parse P (idOf k)))" "ascii (idOf k)"
proof -
  have "k \<in> set (visible_keys P idOf load ks)" using assms(2) by (simp add: k_def listing_def)
  then have k: "k \<in> set ks" "item_at load k \<noteq> None" by (auto simp: visible_keys_def newest_first_def)
  then show "k \<in> set ks" by simp
  show l: "load k = Inr (Some (listing P idOf load ks ! i))"
    using k(2) assms(2) by (auto simp: item_at_def listing_def k_def [symmetric] split: sum.splits)
  then show "itemId (listing P idOf load ks ! i) = idOf k" "ulid_parse P (idOf k) = Some (the (ulid_parse P (idOf k)))"
    "ascii (idOf k)" using assms(1) k(1) by (auto simp: pageable_def)
qed

lemma visible_sorted:
  "pageable P idOf load itemId ks \<Longrightarrow>
    sorted_wrt (\<lambda>a b. the (ulid_parse P (idOf b)) < the (ulid_parse P (idOf a))) (visible_keys P idOf load ks)"
  using newest_first_sorted by (fastforce simp: visible_keys_def intro: sorted_wrt_filter)

definition cursor_of :: "page_env \<Rightarrow> ('a \<Rightarrow> string) \<Rightarrow> 'a \<Rightarrow> string" where
  "cursor_of P itemId x = CreateNextCursor P (itemId x)"

text \<open>The page after the \<open>i\<close>-th item, and the page before it.\<close>

lemma forward_items:
  assumes "pageable P idOf load itemId ks" "Direction c = CursorNext"
  shows "forward_loop P idOf load limit c (newest_first P idOf ks) [] = Inr (take (Suc limit) (map (the \<circ> item_at load)
    (filter (\<lambda>k. IsZero c \<or> the (ulid_parse P (idOf k)) < cursor_val P c) (visible_keys P idOf load ks))))"
proof -
  have "\<forall>k \<in> set (newest_first P idOf ks). ulid_parse P (idOf k) = Some (the (ulid_parse P (idOf k))) \<and> (\<exists>r. load k = Inr r)"
    using assms(1) by (auto simp: pageable_def newest_first_def)
  from forward_loop_collects [OF this assms(2), of "[]" limit] show ?thesis
    by (simp add: shown_filter visible_keys_def)
qed

lemma list_page_start:
  assumes "pageable P idOf load itemId ks" "0 \<le> limit"
  shows "list_page P idOf load itemId (rev (newest_first P idOf ks)) [] [] limit =
    Inr (make_page P itemId zero_cursor (page_size limit < length (listing P idOf load ks))
      (take (page_size limit) (listing P idOf load ks)))"
  using forward_items [OF assms(1), of zero_cursor] assms(2)
  by (simp add: list_page_def SetupPagination_start is_backward_def zero_cursor_def IsZero_def listing_def
      min_def take_map)

lemma list_page_after:
  assumes "pageable P idOf load itemId ks" "0 \<le> limit" "i < length (listing P idOf load ks)"
  defines "x \<equiv> listing P idOf load ks ! i"
  shows "list_page P idOf load itemId (rev (newest_first P idOf ks)) [] (cursor_of P itemId x) limit =
    Inr (make_page P itemId (NewCursor CursorNext (itemId x)) (page_size limit < length (drop (Suc i) (listing P idOf load ks)))
      (take (page_size limit) (drop (Suc i) (listing P idOf load ks))))"
proof -
  let ?k = "visible_keys P idOf load ks ! i"
  note k = visible_key [OF assms(1,3)]
  have ok: "page_env_ok P" using assms(1) by (simp add: pageable_def)
  note c = ulid_id [OF ok k(4)]
  have "filter (\<lambda>k. the (ulid_parse P (idOf k)) < the (ulid_parse P (idOf ?k))) (visible_keys P idOf load ks) =
      drop (Suc i) (visible_keys P idOf load ks)"
    using filter_below_nth [OF visible_sorted [OF assms(1)]] assms(3) by (simp add: listing_def)
  then have "forward_loop P idOf load (page_size limit) (NewCursor CursorNext (idOf ?k)) (newest_first P idOf ks) [] =
      Inr (take (Suc (page_size limit)) (drop (Suc i) (listing P idOf load ks)))"
    using forward_items [OF assms(1) c(4)] c by (simp add: listing_def drop_map)
  then show ?thesis
    using SetupPagination_cursor(1) [OF ok k(5) c(1) assms(2)] k(3) c
    by (simp add: list_page_def cursor_of_def x_def is_backward_def min_def)
qed

lemma list_page_before:
  assumes "pageable P idOf load itemId ks" "0 \<le> limit" "i < length (listing P idOf load ks)"
  defines "x \<equiv> listing P idOf load ks ! i"
  shows "list_page P idOf load itemId (rev (newest_first P idOf ks)) (cursor_of P itemId x) [] limit =
    Inr (make_page P itemId (NewCursor CursorPrevious (itemId x)) (page_size limit < i)
      (drop (i - page_size limit) (take i (listing P idOf load ks))))"
proof -
  let ?k = "visible_keys P idOf load ks ! i" and ?ks = "rev (newest_first P idOf ks)" and ?l = "listing P idOf load ks"
  note k = visible_key [OF assms(1,3)]
  have ok: "page_env_ok P" using assms(1) by (simp add: pageable_def)
  note c = ulid_id [OF ok k(4)]
  have "\<forall>k \<in> set ?ks. ulid_parse P (idOf k) = Some (the (ulid_parse P (idOf k))) \<and> (\<exists>r. load k = Inr r)"
    using assms(1) by (auto simp: pageable_def newest_first_def)
  from backward_loop_collects [OF this, of "[]" "page_size limit" "the (ulid_parse P (idOf ?k))"]
  have "backward_loop P idOf load (page_size limit) (the (ulid_parse P (idOf ?k))) ?ks [] =
      Inr (take (Suc (page_size limit)) (rev (map (the \<circ> item_at load)
        (filter (\<lambda>k. the (ulid_parse P (idOf ?k)) < the (ulid_parse P (idOf k))) (visible_keys P idOf load ks)))))"
    by (simp add: shown_filter visible_keys_def rev_filter rev_map)
  also have "filter (\<lambda>k. the (ulid_parse P (idOf ?k)) < the (ulid_parse P (idOf k))) (visible_keys P idOf load ks) =
      take i (visible_keys P idOf load ks)"
    using filter_above_nth [OF visible_sorted [OF assms(1)]] assms(3) by (simp add: listing_def)
  finally have b: "backward_loop P idOf load (page_size limit) (the (ulid_parse P (idOf ?k))) ?ks [] =
      Inr (take (Suc (page_size limit)) (rev (take i ?l)))" by (simp add: listing_def take_map comp_def)
  have t: "rev (take (page_size limit) (rev (take i ?l))) = drop (i - page_size limit) (take i ?l)"
    using assms(3) by (simp add: take_rev)
  obtain u where u: "ulid_parse P (idOf ?k) = Some u" using k(4) by blast
  have "is_backward (NewCursor CursorPrevious (idOf ?k))" using c by (simp add: is_backward_def)
  then show ?thesis
    using SetupPagination_cursor(2) [OF ok k(5) c(1) assms(2)] k(3) u c(5) b t assms(3)
    by (simp add: list_page_def cursor_of_def x_def min_def)
qed

section \<open>Following the cursors\<close>

text \<open>A client that asks for the next page as long as there is one; \<open>n\<close> bounds the number of requests.\<close>

fun walk :: "(string \<Rightarrow> 'e + 'a page) \<Rightarrow> nat \<Rightarrow> string \<Rightarrow> ('e + 'a list) option" where
  "walk fetch 0 after = None"
| "walk fetch (Suc n) after = (case fetch after of Inl e \<Rightarrow> Some (Inl e)
     | Inr p \<Rightarrow> if HasNextPage p
         then (case walk fetch n (EndCursor p) of None \<Rightarrow> None | Some (Inl e) \<Rightarrow> Some (Inl e)
           | Some (Inr xs) \<Rightarrow> Some (Inr (Items p @ xs)))
         else Some (Inr (Items p)))"

text \<open>The contract of a listing that can be read forward, and of one that can be read back as well.\<close>

locale forward_listing =
  fixes valid :: "'d \<Rightarrow> bool"
    and content :: "'d \<Rightarrow> 'a list"
    and cur :: "'a \<Rightarrow> string"
    and fetch :: "'d \<Rightarrow> string \<Rightarrow> string \<Rightarrow> int \<Rightarrow> 'e + 'a page"
  assumes first_page: "valid d \<Longrightarrow> 0 \<le> limit \<Longrightarrow> \<exists>p. fetch d [] [] limit = Inr p \<and>
        Items p = take (page_size limit) (content d) \<and> HasNextPage p = (page_size limit < length (content d)) \<and>
        (Items p \<noteq> [] \<longrightarrow> StartCursor p = cur (hd (Items p)) \<and> EndCursor p = cur (last (Items p)))"
    and page_after: "valid d \<Longrightarrow> 0 \<le> limit \<Longrightarrow> i < length (content d) \<Longrightarrow>
        \<exists>p. fetch d [] (cur (content d ! i)) limit = Inr p \<and> Items p = take (page_size limit) (drop (Suc i) (content d)) \<and>
        HasNextPage p = (page_size limit < length (drop (Suc i) (content d))) \<and>
        (Items p \<noteq> [] \<longrightarrow> StartCursor p = cur (hd (Items p)) \<and> EndCursor p = cur (last (Items p)))"
begin

lemma page_from:
  assumes "valid d" "0 \<le> limit" "i \<le> length (content d)"
  shows "\<exists>p. fetch d [] (if i = 0 then [] else cur (content d ! (i - 1))) limit = Inr p \<and>
    Items p = take (page_size limit) (drop i (content d)) \<and> HasNextPage p = (page_size limit < length (drop i (content d))) \<and>
    (Items p \<noteq> [] \<longrightarrow> StartCursor p = cur (hd (Items p)) \<and> EndCursor p = cur (last (Items p)))"
proof (cases i)
  case 0
  then show ?thesis using first_page [OF assms(1,2)] by simp
next
  case (Suc j)
  then show ?thesis using page_after [OF assms(1,2), of j] assms(3) by auto
qed

lemma walk_from:
  assumes "valid d" "0 \<le> limit" "i \<le> length (content d)" "length (content d) - i < n"
  shows "walk (\<lambda>after. fetch d [] after limit) n (if i = 0 then [] else cur (content d ! (i - 1))) =
    Some (Inr (drop i (content d)))"
  using assms(3,4)
proof (induction n arbitrary: i)
  case (Suc n)
  let ?s = "page_size limit" and ?c = "content d"
  have s: "0 < ?s" using assms(2) by (rule page_size_pos)
  obtain p where p: "fetch d [] (if i = 0 then [] else cur (?c ! (i - 1))) limit = Inr p"
    "Items p = take ?s (drop i ?c)" "HasNextPage p = (?s < length (drop i ?c))"
    "Items p \<noteq> [] \<longrightarrow> EndCursor p = cur (last (Items p))"
    using page_from [OF assms(1,2) Suc.prems(1)] by auto
  show ?case
  proof (cases "?s < length (drop i ?c)")
    case True
    then have "last (take ?s (drop i ?c)) = ?c ! (i + ?s - 1)" and ne: "take ?s (drop i ?c) \<noteq> []"
      using s by (simp_all add: last_conv_nth)
    then have "EndCursor p = (if i + ?s = 0 then [] else cur (?c ! (i + ?s - 1)))" using p(2,4) s by simp
    with Suc.IH [of "i + ?s"] True s Suc.prems
    have "walk (\<lambda>after. fetch d [] after limit) n (EndCursor p) = Some (Inr (drop (i + ?s) ?c))" by simp
    moreover have "take ?s (drop i ?c) @ drop (i + ?s) ?c = drop i ?c"
      by (metis add.commute append_take_drop_id drop_drop)
    ultimately show ?thesis using p True by simp
  next
    case False
    then show ?thesis using p by simp
  qed
qed simp

text \<open>Following the cursors from the start lists the whole content once.\<close>

lemma walk_lists_content:
  "valid d \<Longrightarrow> 0 \<le> limit \<Longrightarrow> length (content d) < n \<Longrightarrow>
    walk (\<lambda>after. fetch d [] after limit) n [] = Some (Inr (content d))"
  using walk_from [of d limit 0 n] by simp

end

locale paged_listing = forward_listing +
  assumes page_before: "valid d \<Longrightarrow> 0 \<le> limit \<Longrightarrow> i < length (content d) \<Longrightarrow>
        \<exists>p. fetch d (cur (content d ! i)) [] limit = Inr p \<and> Items p = drop (i - page_size limit) (take i (content d))"
begin

text \<open>Going forward and then back returns to the same items.\<close>

lemma back_is_previous:
  assumes "valid d" "0 \<le> limit" "i + page_size limit < length (content d)"
    and "fetch d [] (if i = 0 then [] else cur (content d ! (i - 1))) limit = Inr p"
  shows "\<exists>q r. fetch d [] (EndCursor p) limit = Inr q \<and> Items q \<noteq> [] \<and> fetch d (StartCursor q) [] limit = Inr r \<and>
    Items r = Items p"
proof -
  let ?s = "page_size limit" and ?c = "content d"
  have s: "0 < ?s" using assms(2) by (rule page_size_pos)
  have p: "Items p = take ?s (drop i ?c)" "EndCursor p = cur (?c ! (i + ?s - 1))"
    using page_from [OF assms(1,2), of i] assms(3,4) s by (auto simp: last_conv_nth)
  obtain q where q: "fetch d [] (EndCursor p) limit = Inr q" "Items q = take ?s (drop (i + ?s) ?c)"
    "Items q \<noteq> [] \<longrightarrow> StartCursor q = cur (hd (Items q))"
    using page_from [OF assms(1,2), of "i + ?s"] assms(3) s p(2) by auto
  have ne: "Items q \<noteq> []" and h: "hd (Items q) = ?c ! (i + ?s)"
    using q(2) assms(3) s by (simp_all add: hd_drop_conv_nth)
  have "drop (i + ?s - ?s) (take (i + ?s) ?c) = take ?s (drop i ?c)" by (simp add: drop_take)
  with page_before [OF assms(1-3)] q ne h p(1) show ?thesis by auto
qed

lemma back_from_next:
  assumes "valid d" "0 \<le> limit" "after = [] \<or> after \<in> cur ` set (content d)"
    and "fetch d [] after limit = Inr p" "HasNextPage p"
  shows "\<exists>q r. fetch d [] (EndCursor p) limit = Inr q \<and> Items q \<noteq> [] \<and> fetch d (StartCursor q) [] limit = Inr r \<and>
    Items r = Items p"
proof -
  obtain i where i: "i \<le> length (content d)" "after = (if i = 0 then [] else cur (content d ! (i - 1)))"
  proof (cases "after = []")
    case False
    then obtain j where "j < length (content d)" "after = cur (content d ! j)" using assms(3) by (auto simp: in_set_conv_nth)
    with that [of "Suc j"] show thesis by simp
  qed (use that [of 0] in simp)
  have "i + page_size limit < length (content d)"
    using page_from [OF assms(1,2) i(1)] assms(4,5) i(2) by auto
  from back_is_previous [OF assms(1,2) this] assms(4) i(2) show ?thesis by auto
qed

end

lemma make_page_sel:
  "Items (make_page P itemId c m xs) = xs"
  "xs \<noteq> [] \<Longrightarrow> StartCursor (make_page P itemId c m xs) = cursor_of P itemId (hd xs)"
  "xs \<noteq> [] \<Longrightarrow> EndCursor (make_page P itemId c m xs) = cursor_of P itemId (last xs)"
  "HasNextPage (make_page P itemId c m xs) = (xs \<noteq> [] \<and> (is_backward c \<or> m))"
  by (simp_all add: make_page_def cursor_of_def)

lemma forward_page:
  assumes "\<not> is_backward c" "0 \<le> limit"
  shows "\<exists>p. Inr (make_page P itemId c (page_size limit < length xs) (take (page_size limit) xs)) = (Inr p :: list_error + 'a page) \<and>
    Items p = take (page_size limit) xs \<and> HasNextPage p = (page_size limit < length xs) \<and>
    (Items p \<noteq> [] \<longrightarrow> StartCursor p = cursor_of P itemId (hd (Items p)) \<and> EndCursor p = cursor_of P itemId (last (Items p)))"
  using assms page_size_pos [OF assms(2)] by (auto simp: make_page_sel)

lemma paged_by_list_page:
  assumes "\<And>d. valid d \<Longrightarrow> pageable P idOf (load d) itemId (keys d)"
    and "\<And>d b a l. valid d \<Longrightarrow> fetch d b a l =
      bindE (sort_keys P idOf (keys d)) (\<lambda>ks. list_page P idOf (load d) itemId ks b a l)"
  shows "paged_listing valid (\<lambda>d. listing P idOf (load d) (keys d)) (cursor_of P itemId) fetch"
proof unfold_locales
  fix d and limit :: int and i
  assume v: "valid d" and l: "0 \<le> limit"
  note p = assms(1) [OF v]
  have f: "fetch d b a l = list_page P idOf (load d) itemId (rev (newest_first P idOf (keys d))) b a l" for b a l
    using assms(2) [OF v] sort_keys_pageable [OF p] by simp
  have z: "\<not> is_backward zero_cursor" and n: "\<not> is_backward (NewCursor CursorNext s)" for s
    by (simp_all add: is_backward_def zero_cursor_def NewCursor_def)
  show "\<exists>p. fetch d [] [] limit = Inr p \<and> Items p = take (page_size limit) (listing P idOf (load d) (keys d)) \<and>
      HasNextPage p = (page_size limit < length (listing P idOf (load d) (keys d))) \<and>
      (Items p \<noteq> [] \<longrightarrow> StartCursor p = cursor_of P itemId (hd (Items p)) \<and> EndCursor p = cursor_of P itemId (last (Items p)))"
    unfolding f list_page_start [OF p l] by (rule forward_page [OF z l])
  assume i: "i < length (listing P idOf (load d) (keys d))"
  show "\<exists>p. fetch d [] (cursor_of P itemId (listing P idOf (load d) (keys d) ! i)) limit = Inr p \<and>
      Items p = take (page_size limit) (drop (Suc i) (listing P idOf (load d) (keys d))) \<and>
      HasNextPage p = (page_size limit < length (drop (Suc i) (listing P idOf (load d) (keys d)))) \<and>
      (Items p \<noteq> [] \<longrightarrow> StartCursor p = cursor_of P itemId (hd (Items p)) \<and> EndCursor p = cursor_of P itemId (last (Items p)))"
    unfolding f list_page_after [OF p l i] by (rule forward_page [OF n l])
  show "\<exists>p. fetch d (cursor_of P itemId (listing P idOf (load d) (keys d) ! i)) [] limit = Inr p \<and>
      Items p = drop (i - page_size limit) (take i (listing P idOf (load d) (keys d)))"
    unfolding f list_page_before [OF p l i] by (simp add: make_page_sel)
qed

section \<open>The two listings\<close>

definition executions_listable :: "page_env \<Rightarrow> 'd xenv \<Rightarrow> task_status list \<Rightarrow> address \<Rightarrow> string list \<Rightarrow> 'd \<Rightarrow> bool" where
  "executions_listable P E ord u ids d \<longleftrightarrow> check_tasks E ord u ids d = Inr () \<and>
     pageable P ExecutionIdFromStorageKey (load_history E d) (ex_id \<circ> snd) (history_keys (xbadger E) ids d)"

definition fetch_executions ::
  "page_env \<Rightarrow> 'd xenv \<Rightarrow> task_status list \<Rightarrow> address \<Rightarrow> string list \<Rightarrow> 'd \<Rightarrow> string \<Rightarrow> string \<Rightarrow> int \<Rightarrow>
   list_error + (string \<times> execution) page" where
  "fetch_executions P E ord u ids d before after limit =
     ListExecutions P E ord u \<lparr>le_tasks = ids, le_before = before, le_after = after, le_limit = limit\<rparr> d"

interpretation executions: paged_listing "executions_listable P E ord u ids"
  "\<lambda>d. listing P ExecutionIdFromStorageKey (load_history E d) (history_keys (xbadger E) ids d)" "cursor_of P (ex_id \<circ> snd)"
  "fetch_executions P E ord u ids" for P E ord u ids
  by (rule paged_by_list_page)
    (simp_all add: executions_listable_def fetch_executions_def ListExecutions_def)

definition workflow_keys :: "page_env \<Rightarrow> 'd xenv \<Rightarrow> int list \<Rightarrow> user \<Rightarrow> string list \<Rightarrow> 'd \<Rightarrow> string list" where
  "workflow_keys P E nets u ws d = (case wallet_prefixes P (xbadger E) nets u ws d of Inl _ \<Rightarrow> []
     | Inr ps \<Rightarrow> ListKeysMulti (xbadger E) d ps)"

definition workflows_listable :: "page_env \<Rightarrow> 'd xenv \<Rightarrow> int list \<Rightarrow> user \<Rightarrow> string list \<Rightarrow> bool \<Rightarrow> bool \<Rightarrow> 'd \<Rightarrow> bool" where
  "workflows_listable P E nets u ws ns es d \<longleftrightarrow> ws \<noteq> [] \<and> (\<exists>ps. wallet_prefixes P (xbadger E) nets u ws d = Inr ps) \<and>
     pageable P taskIDFromKey (load_workflow E ns es d) it_id (workflow_keys P E nets u ws d)"

definition fetch_workflows ::
  "page_env \<Rightarrow> 'd xenv \<Rightarrow> int list \<Rightarrow> user \<Rightarrow> string list \<Rightarrow> bool \<Rightarrow> bool \<Rightarrow> 'd \<Rightarrow> string \<Rightarrow> string \<Rightarrow> int \<Rightarrow>
   list_error + task_item page" where
  "fetch_workflows P E nets u ws ns es d before after limit = ListWorkflowsByUser P E nets u
     \<lparr>lt_wallets = ws, lt_before = before, lt_after = after, lt_limit = limit, lt_nodes = ns, lt_edges = es\<rparr> d"

interpretation workflows: paged_listing "workflows_listable P E nets u ws ns es"
  "\<lambda>d. listing P taskIDFromKey (load_workflow E ns es d) (workflow_keys P E nets u ws d)" "cursor_of P it_id"
  "fetch_workflows P E nets u ws ns es" for P E nets u ws ns es
  by (rule paged_by_list_page)
    (auto simp: workflows_listable_def fetch_workflows_def ListWorkflowsByUser_def workflow_keys_def)

end
