(* ===== verification/ListingPages.thy ===== *)
theory ListingPages
  imports ListingInv EngineStart
begin

text \<open>
  The listings over the rows of a store: which executions and workflows a client sees who follows the cursors, and what
  becomes of a malformed cursor, of a repeated request parameter and of a request about somebody else's workflow.
\<close>

section \<open>Scans\<close>

lemma ListKeysMulti_concat:
  assumes "store_total B" "\<forall>p \<in> set ps. p \<noteq> [] \<and> last p \<noteq> CHR ''*''"
  shows "ListKeysMulti B d ps = concat (map (iter_prefix B d) ps)"
  using assms(2)
proof (induction ps)
  case (Cons p ps)
  then have "\<not> suffix ''*'' p" by (auto simp: suffix_def)
  moreover have "txn_begin B d = None" using total_reliable [OF assms(1)] by (simp add: badger_reliable_def)
  ultimately show ?case using Cons by (auto simp: ListKeys_def View_def)
qed simp

lemma set_iter_prefix:
  assumes "store_total B" shows "k \<in> set (iter_prefix B d p) \<longleftrightarrow> prefix p k \<and> rows_of B d k \<noteq> None"
proof -
  have "txn_get B d k \<noteq> Inl ErrKeyNotFound \<longleftrightarrow> rows_of B d k \<noteq> None"
    using total_reliable [OF assms] by (auto simp: badger_reliable_def rows_of_def split: sum.splits)
  then show ?thesis
    by (simp add: iter_prefix_filter [OF total_badger [OF assms]] badger_keys [OF total_badger [OF assms]]
        conj_commute)
qed

lemma distinct_iter_prefix: "store_total B \<Longrightarrow> distinct (iter_prefix B d p)"
  using iter_prefix_sorted [OF total_badger, of B d p] by (simp add: strict_sorted_iff)

lemma distinct_concat_map:
  assumes "distinct xs" "\<forall>x \<in> set xs. distinct (f x)" "\<forall>x \<in> set xs. \<forall>y \<in> set xs. x \<noteq> y \<longrightarrow> set (f x) \<inter> set (f y) = {}"
  shows "distinct (concat (map f xs))"
  using assms by (induction xs) auto

lemma hex_digits_set: "c \<in> set (hex_digits k n) \<Longrightarrow> \<exists>d < 16. c = hex_digit d"
  by (induction k arbitrary: n) (auto intro: exI [of _ "_ mod 16"])

lemma to_lower_lower_hex: "to_lower (lower_hex a) = lower_hex a"
proof -
  have "lower_char c = c" if "c \<in> set (hex_digits 40 (unat a))" for c
    using hex_digits_set [OF that] by (auto simp: lower_char_def Let_def of_char_hex_digit split: if_splits)
  then have "map lower_char (hex_digits 40 (unat a)) = hex_digits 40 (unat a)" by (simp add: map_idI)
  then show ?thesis by (simp add: to_lower_def lower_hex_def) (simp add: lower_char_def)
qed

lemma last_lower_hex: "lower_hex a \<noteq> []" "last (lower_hex a) \<noteq> CHR ''*''"
proof -
  have "last (hex_digits 40 (unat a)) \<in> set (hex_digits 40 (unat a))" by (rule last_in_set) (use length_hex_digits [of 40 "unat a"] in force)
  from hex_digits_set [OF this] obtain e where e: "e < 16" "last (hex_digits 40 (unat a)) = hex_digit e" by blast
  have "(of_char (hex_digit e) :: nat) \<noteq> of_char CHR ''*''" using e(1) by (simp add: of_char_hex_digit)
  then have "hex_digit e \<noteq> CHR ''*''" by metis
  then show "last (lower_hex a) \<noteq> CHR ''*''" using e(2) length_hex_digits [of 40 "unat a"] by (auto simp: lower_hex_def)
  show "lower_hex a \<noteq> []" by (simp add: lower_hex_def)
qed

text \<open>An id of letters and digits, as the ids the engine gives are.\<close>

definition plain_id :: "string \<Rightarrow> bool" where
  "plain_id s \<longleftrightarrow> s \<noteq> [] \<and> list_all (\<lambda>c. is_digit c \<or> is_alpha c) s"

lemma plain_idD:
  assumes "plain_id s" shows "s \<noteq> []" "CHR '':'' \<notin> set s" "last s \<noteq> CHR ''*''" "ascii s"
proof -
  have p: "\<forall>c \<in> set s. is_digit c \<or> is_alpha c" and n: "s \<noteq> []" using assms by (auto simp: plain_id_def list_all_iff)
  show "s \<noteq> []" by (rule n)
  show "CHR '':'' \<notin> set s" using p by (force simp: is_digit_def is_alpha_def)
  have "CHR ''*'' \<notin> set s" using p by (force simp: is_digit_def is_alpha_def)
  then show "last s \<noteq> CHR ''*''" using n last_in_set by metis
  show "ascii s" using p by (fastforce simp: ascii_def list_all_iff is_digit_def is_alpha_def Let_def)
qed

section \<open>Scans that can be paged\<close>

text \<open>
  A scan over the prefixes \<open>pfx s\<close> of the \<open>s\<close> in a list: every row with the prefix of \<open>s\<close> is under \<open>key s e\<close> for a
  ULID \<open>e\<close>, which \<open>idOf\<close> reads back, and no two rows have the same ULID. The list may name an \<open>s\<close> twice.
\<close>

definition scan_wf ::
  "page_env \<Rightarrow> 'd badger \<Rightarrow> (string \<Rightarrow> string) \<Rightarrow> ('s \<Rightarrow> bytes) \<Rightarrow> ('s \<Rightarrow> string \<Rightarrow> bytes) \<Rightarrow> 's list \<Rightarrow> 'd \<Rightarrow> bool" where
  "scan_wf P B idOf pfx key ss d \<longleftrightarrow>
     (\<forall>s \<in> set ss. pfx s \<noteq> [] \<and> last (pfx s) \<noteq> CHR ''*'' \<and> (\<forall>e. prefix (pfx s) (key s e)) \<and>
        (\<forall>k. prefix (pfx s) k \<longrightarrow> rows_of B d k \<noteq> None \<longrightarrow>
           (\<exists>e. k = key s e \<and> plain_id e \<and> ulid_parse P e \<noteq> None \<and> idOf k = e))) \<and>
     (\<forall>s \<in> set ss. \<forall>t \<in> set ss. \<forall>e f. rows_of B d (key s e) \<noteq> None \<longrightarrow> rows_of B d (key t f) \<noteq> None \<longrightarrow>
        ulid_parse P e = ulid_parse P f \<longrightarrow> s = t \<and> e = f)"

definition scan :: "'d badger \<Rightarrow> ('s \<Rightarrow> bytes) \<Rightarrow> 's list \<Rightarrow> 'd \<Rightarrow> string list" where
  "scan B pfx ss d = concat (map (\<lambda>s. iter_prefix B d (pfx s)) ss)"

lemma scan_wf_prefix: "scan_wf P B idOf pfx key ss d \<Longrightarrow> s \<in> set ss \<Longrightarrow> prefix (pfx s) (key s e)"
  by (simp add: scan_wf_def)

lemma scan_wf_row:
  assumes "scan_wf P B idOf pfx key ss d" "s \<in> set ss" "prefix (pfx s) k" "rows_of B d k \<noteq> None"
  obtains e where "k = key s e" "plain_id e" "ulid_parse P e \<noteq> None" "idOf k = e"
  using assms unfolding scan_wf_def by metis

lemma scan_wf_plain:
  assumes "scan_wf P B idOf pfx key ss d" "s \<in> set ss" "rows_of B d (key s e) = Some v"
  shows "\<exists>f. key s e = key s f \<and> plain_id f"
proof -
  have "rows_of B d (key s e) \<noteq> None" using assms(3) by simp
  from scan_wf_row [OF assms(1,2) scan_wf_prefix [OF assms(1,2)] this] show ?thesis by blast
qed

lemma scan_wf_unique:
  assumes "scan_wf P B idOf pfx key ss d" "s \<in> set ss" "t \<in> set ss" "rows_of B d (key s e) \<noteq> None" "rows_of B d (key t f) \<noteq> None"
    and "ulid_parse P e = ulid_parse P f"
  shows "s = t" "e = f"
  using assms unfolding scan_wf_def by metis+

lemma set_scan:
  assumes "store_total B" "scan_wf P B idOf pfx key ss d"
  shows "k \<in> set (scan B pfx ss d) \<longleftrightarrow> (\<exists>s e. s \<in> set ss \<and> k = key s e \<and> rows_of B d k \<noteq> None)"
proof
  show "\<exists>s e. s \<in> set ss \<and> k = key s e \<and> rows_of B d k \<noteq> None" if k: "k \<in> set (scan B pfx ss d)"
  proof -
    obtain s where s: "s \<in> set ss" "prefix (pfx s) k" "rows_of B d k \<noteq> None"
      using k by (auto simp: scan_def set_iter_prefix [OF assms(1)])
    from scan_wf_row [OF assms(2) this] s show ?thesis by metis
  qed
  show "k \<in> set (scan B pfx ss d)" if "\<exists>s e. s \<in> set ss \<and> k = key s e \<and> rows_of B d k \<noteq> None"
    using that scan_wf_prefix [OF assms(2)] by (fastforce simp: scan_def set_iter_prefix [OF assms(1)])
qed

lemma scan_row:
  assumes "store_total B" "scan_wf P B idOf pfx key ss d" "k \<in> set (scan B pfx ss d)"
  obtains s e where "s \<in> set ss" "k = key s e" "rows_of B d k \<noteq> None" "plain_id e" "ulid_parse P e \<noteq> None" "idOf k = e"
proof -
  obtain s where s: "s \<in> set ss" "prefix (pfx s) k" "rows_of B d k \<noteq> None"
    using assms(3) by (auto simp: scan_def set_iter_prefix [OF assms(1)])
  from scan_wf_row [OF assms(2) this] s that show thesis by metis
qed

lemma scan_inj:
  assumes "store_total B" "scan_wf P B idOf pfx key ss d" "k \<in> set (scan B pfx ss d)" "l \<in> set (scan B pfx ss d)"
    and "ulid_parse P (idOf k) = ulid_parse P (idOf l)"
  shows "k = l"
proof -
  obtain s e where k: "s \<in> set ss" "k = key s e" "rows_of B d k \<noteq> None" "idOf k = e" using scan_row [OF assms(1,2,3)] by metis
  obtain t f where l: "t \<in> set ss" "l = key t f" "rows_of B d l \<noteq> None" "idOf l = f" using scan_row [OF assms(1,2,4)] by metis
  have "s = t \<and> e = f" using scan_wf_unique [OF assms(2) k(1) l(1), of e f] k l assms(5) by simp
  with k l show ?thesis by simp
qed

lemma distinct_scan:
  assumes "store_total B" "scan_wf P B idOf pfx key ss d" "distinct ss"
  shows "distinct (scan B pfx ss d)"
proof -
  have "s = t" if st: "s \<in> set ss" "t \<in> set ss" and p: "prefix (pfx s) k" "prefix (pfx t) k" and r: "rows_of B d k \<noteq> None" for s t k
  proof -
    obtain e where e: "k = key s e" "idOf k = e" using scan_wf_row [OF assms(2) st(1) p(1) r] by metis
    obtain f where f: "k = key t f" "idOf k = f" using scan_wf_row [OF assms(2) st(2) p(2) r] by metis
    show ?thesis using scan_wf_unique(1) [OF assms(2) st, of e f] e f r by simp
  qed
  then have "set (iter_prefix B d (pfx s)) \<inter> set (iter_prefix B d (pfx t)) = {}" if "s \<in> set ss" "t \<in> set ss" "s \<noteq> t" for s t
    using that unfolding set_eq_iff Int_iff set_iter_prefix [OF assms(1)] by blast
  then show ?thesis unfolding scan_def
    using assms(3) distinct_iter_prefix [OF assms(1)] by (intro distinct_concat_map) auto
qed

lemma scan_pageable:
  assumes "store_total B" "page_env_ok P" "scan_wf P B idOf pfx key ss d" "distinct ss"
    and "\<And>s e. s \<in> set ss \<Longrightarrow> plain_id e \<Longrightarrow> rows_of B d (key s e) \<noteq> None \<Longrightarrow>
      (\<exists>r. load (key s e) = Inr r) \<and> (\<forall>x. load (key s e) = Inr (Some x) \<longrightarrow> itemId x = e)"
  shows "pageable P idOf load itemId (scan B pfx ss d)"
proof -
  have "distinct (map (ulid_parse P \<circ> idOf) (scan B pfx ss d))"
    using distinct_scan [OF assms(1,3,4)] scan_inj [OF assms(1,3)] by (auto simp: distinct_map inj_on_def)
  moreover have "ulid_parse P (idOf k) \<noteq> None \<and> ascii (idOf k) \<and> (\<exists>r. load k = Inr r) \<and>
      (\<forall>x. load k = Inr (Some x) \<longrightarrow> itemId x = idOf k)" if k: "k \<in> set (scan B pfx ss d)" for k
    using scan_row [OF assms(1,3) k] assms(5) plain_idD(4) by metis
  ultimately show ?thesis using assms(2) by (simp add: pageable_def)
qed

lemma ListKeysMulti_scan:
  "store_total B \<Longrightarrow> scan_wf P B idOf pfx key ss d \<Longrightarrow> ListKeysMulti B d (map pfx ss) = scan B pfx ss d"
  by (subst ListKeysMulti_concat) (auto simp: scan_wf_def scan_def comp_def)

lemma set_listing:
  assumes "pageable P idOf load itemId ks"
  shows "set (listing P idOf load ks) = {x. \<exists>k \<in> set ks. load k = Inr (Some x)}"
  by (force simp: listing_def visible_keys_def newest_first_def item_at_def image_iff split: sum.splits)

lemma listing_sorted:
  assumes "pageable P idOf load itemId ks"
  shows "sorted_wrt (\<lambda>x y. the (ulid_parse P (itemId y)) < the (ulid_parse P (itemId x))) (listing P idOf load ks)"
proof -
  have "itemId (the (item_at load k)) = idOf k" if "k \<in> set (visible_keys P idOf load ks)" for k
    using that assms by (auto simp: visible_keys_def newest_first_def item_at_def pageable_def split: sum.splits)
  then show ?thesis using visible_sorted [OF assms] by (auto simp: listing_def sorted_wrt_map elim!: sorted_wrt_mono_rel [rotated])
qed

lemma set_listing_scan:
  assumes "store_total B" "scan_wf P B idOf pfx key ss d" "pageable P idOf load itemId (scan B pfx ss d)"
  shows "set (listing P idOf load (scan B pfx ss d)) =
    {x. \<exists>s \<in> set ss. \<exists>e. rows_of B d (key s e) \<noteq> None \<and> load (key s e) = Inr (Some x)}"
  unfolding set_listing [OF assms(3)] Bex_def set_scan [OF assms(1,2)] by blast

section \<open>Executions\<close>

definition history_key :: "string \<Rightarrow> string \<Rightarrow> bytes" where
  "history_key i e = join ''history'' (join i e)"

lemma history_key_of: "TaskExecutionKey t e = history_key (task_id t) e"
  by (simp add: history_key_def TaskExecutionKey_def)

lemma history_key_ids:
  assumes "plain_id i" "plain_id e"
  shows "ExecutionIdFromStorageKey (history_key i e) = e" "TaskIdFromExecutionStorageKey (history_key i e) = i"
  using plain_idD(2) [OF assms(1)] plain_idD(2) [OF assms(2)]
  by (simp_all add: history_key_def ExecutionIdFromStorageKey_def TaskIdFromExecutionStorageKey_def ParseExecutionKey_def
      numeral_4_splits)

lemma prefix_history_key: "prefix (TaskExecutionPrefix i) (history_key i e)"
  by (simp add: history_key_def TaskExecutionPrefix_def) (simp add: join_def)

lemma history_key_inject: "plain_id i \<Longrightarrow> plain_id j \<Longrightarrow> history_key i e = history_key j f \<longleftrightarrow> i = j \<and> e = f"
  using plain_idD(2) by (auto simp: history_key_def key_simps)

text \<open>
  The history rows of the workflows \<open>ids\<close> as the engine writes them: the row of execution \<open>e\<close> of workflow \<open>i\<close> is under the
  key of both, holds the execution \<open>e\<close> if it can be read at all, and no two executions have the same ULID.
\<close>

definition history_wf :: "page_env \<Rightarrow> 'd xenv \<Rightarrow> string list \<Rightarrow> 'd \<Rightarrow> bool" where
  "history_wf P E ids d \<longleftrightarrow> list_all plain_id ids \<and>
     scan_wf P (xbadger E) ExecutionIdFromStorageKey TaskExecutionPrefix history_key ids d \<and>
     (\<forall>i \<in> set ids. \<forall>e raw x. rows_of (xbadger E) d (history_key i e) = Some raw \<longrightarrow> execUnmarshal E raw = Some x \<longrightarrow> ex_id x = e)"

lemma history_keys_scan:
  assumes "store_total (xbadger E)" "history_wf P E ids d"
  shows "history_keys (xbadger E) ids d = scan (xbadger E) TaskExecutionPrefix ids d"
proof -
  have k: "ListKeysMulti (xbadger E) d (map TaskExecutionPrefix ids) = scan (xbadger E) TaskExecutionPrefix ids d"
    using assms by (auto simp: history_wf_def intro: ListKeysMulti_scan)
  have "(case GetByPrefix (xbadger E) d p of Inl _ \<Rightarrow> [] | Inr rows \<Rightarrow> map fst rows) = iter_prefix (xbadger E) d p" for p
  proof -
    obtain rows where r: "GetByPrefix (xbadger E) d p = Inr rows" using total_GetByPrefix [OF assms(1)] by metis
    show ?thesis using GetByPrefix_Inr(1) [OF total_badger [OF assms(1)] r] r by simp
  qed
  then show ?thesis unfolding history_keys_def Let_def k by (simp add: scan_def)
qed

lemma load_history_key:
  assumes "store_total (xbadger E)" "plain_id i" "plain_id e"
  shows "load_history E d (history_key i e) = Inr (case rows_of (xbadger E) d (history_key i e) of None \<Rightarrow> None
    | Some raw \<Rightarrow> map_option (Pair i) (execUnmarshal E raw))"
  using history_key_ids [OF assms(2,3)]
  by (simp add: load_history_def total_GetKey [OF assms(1)] split: option.splits)

lemma history_pageable:
  assumes "store_total (xbadger E)" "page_env_ok P" "history_wf P E ids d" "distinct ids"
  shows "pageable P ExecutionIdFromStorageKey (load_history E d) (ex_id \<circ> snd) (history_keys (xbadger E) ids d)"
  unfolding history_keys_scan [OF assms(1,3)]
proof (rule scan_pageable [OF assms(1,2)])
  show "scan_wf P (xbadger E) ExecutionIdFromStorageKey TaskExecutionPrefix history_key ids d"
    using assms(3) by (simp add: history_wf_def)
  show "distinct ids" by (rule assms(4))
  fix i e assume "i \<in> set ids" "plain_id e" "rows_of (xbadger E) d (history_key i e) \<noteq> None"
  with assms(3) show "(\<exists>r. load_history E d (history_key i e) = Inr r) \<and>
      (\<forall>x. load_history E d (history_key i e) = Inr (Some x) \<longrightarrow> (ex_id \<circ> snd) x = e)"
    by (auto simp: history_wf_def list_all_iff load_history_key [OF assms(1)])
qed

lemma listed_executions:
  assumes "store_total (xbadger E)" "page_env_ok P" "history_wf P E ids d" "distinct ids"
  shows "set (listing P ExecutionIdFromStorageKey (load_history E d) (history_keys (xbadger E) ids d)) =
    {(i, x). i \<in> set ids \<and> (\<exists>e raw. rows_of (xbadger E) d (history_key i e) = Some raw \<and> execUnmarshal E raw = Some x)}"
proof -
  have w: "scan_wf P (xbadger E) ExecutionIdFromStorageKey TaskExecutionPrefix history_key ids d" "\<forall>i \<in> set ids. plain_id i"
    using assms(3) by (simp_all add: history_wf_def list_all_iff)
  have load: "load_history E d (history_key i e) = Inr (map_option (Pair i) (execUnmarshal E raw))"
    if r: "i \<in> set ids" "rows_of (xbadger E) d (history_key i e) = Some raw" for i e raw
  proof -
    obtain f where f: "history_key i e = history_key i f" "plain_id f" using scan_wf_plain [OF w(1) r] by blast
    then have "plain_id e" using history_key_inject [of i i e f] w(2) r(1) by simp
    then show ?thesis using w(2) r by (simp add: load_history_key [OF assms(1)])
  qed
  have "(\<exists>j \<in> set ids. \<exists>e. rows_of (xbadger E) d (history_key j e) \<noteq> None \<and> load_history E d (history_key j e) = Inr (Some (i, x))) \<longleftrightarrow>
      i \<in> set ids \<and> (\<exists>e raw. rows_of (xbadger E) d (history_key i e) = Some raw \<and> execUnmarshal E raw = Some x)" (is "?L \<longleftrightarrow> ?R") for i x
  proof
    assume ?L
    then obtain j e raw where j: "j \<in> set ids" "rows_of (xbadger E) d (history_key j e) = Some raw"
      "load_history E d (history_key j e) = Inr (Some (i, x))" by blast
    with load [OF j(1,2)] have "map_option (Pair j) (execUnmarshal E raw) = Some (i, x)" by simp
    with j show ?R by auto
  next
    assume ?R
    then obtain e raw where e: "i \<in> set ids" "rows_of (xbadger E) d (history_key i e) = Some raw" "execUnmarshal E raw = Some x" by blast
    with load [OF e(1,2)] show ?L by auto
  qed
  then show ?thesis
    using set_listing_scan [OF assms(1) w(1), of "load_history E d" "ex_id \<circ> snd"] history_pageable [OF assms]
    unfolding history_keys_scan [OF assms(1,3)] by (simp add: set_eq_iff split_paired_all)
qed

text \<open>
C17: For a caller who may read the workflows named in the request, each named once, on a database that never fails, whose
history rows are as the engine writes them (under the key of workflow and execution, no ULID twice), following the
cursors of the listing of executions from the first page to the last, with any page size, gives every readable execution
of these workflows exactly once, newest first, and nothing else, in at most one request more than there are executions;
and from any page that has a next one, going forward and then back from the start of the page reached returns to the same
items. A workflow named twice in the request is not rejected and is listed twice.
\<close>

theorem executions_listed_once:
  assumes "store_total (xbadger E)" "page_env_ok P" "history_wf P E ids d" "distinct ids"
    and "check_tasks E ord u ids d = Inr ()" "0 \<le> limit"
  defines "fetch \<equiv> \<lambda>before after. ListExecutions P E ord u
      \<lparr>le_tasks = ids, le_before = before, le_after = after, le_limit = limit\<rparr> d"
  shows "\<exists>xs. walk (fetch []) (Suc (length xs)) [] = Some (Inr xs) \<and>
    set xs = {(i, x). i \<in> set ids \<and> (\<exists>e raw. rows_of (xbadger E) d (history_key i e) = Some raw \<and> execUnmarshal E raw = Some x)} \<and>
    sorted_wrt (\<lambda>(_, x) (_, y). the (ulid_parse P (ex_id y)) < the (ulid_parse P (ex_id x))) xs \<and>
    (\<forall>after p. after = [] \<or> (\<exists>(_, x) \<in> set xs. after = CreateNextCursor P (ex_id x)) \<longrightarrow> fetch [] after = Inr p \<longrightarrow>
       HasNextPage p \<longrightarrow>
       (\<exists>q r. fetch [] (EndCursor p) = Inr q \<and> Items q \<noteq> [] \<and> fetch (StartCursor q) [] = Inr r \<and> Items r = Items p))"
proof -
  let ?l = "listing P ExecutionIdFromStorageKey (load_history E d) (history_keys (xbadger E) ids d)"
  note pg = history_pageable [OF assms(1-4)]
  have v: "executions_listable P E ord u ids d" using pg assms(5) by (simp add: executions_listable_def)
  have f: "fetch = (\<lambda>before after. fetch_executions P E ord u ids d before after limit)"
    by (simp add: fetch_def fetch_executions_def fun_eq_iff)
  have "walk (fetch []) (Suc (length ?l)) [] = Some (Inr ?l)"
    unfolding f by (rule executions.walk_lists_content [OF v assms(6)]) simp
  moreover have "sorted_wrt (\<lambda>(_, x) (_, y). the (ulid_parse P (ex_id y)) < the (ulid_parse P (ex_id x))) ?l"
    using listing_sorted [OF pg] by (simp add: case_prod_unfold)
  moreover have "\<exists>q r. fetch [] (EndCursor p) = Inr q \<and> Items q \<noteq> [] \<and> fetch (StartCursor q) [] = Inr r \<and> Items r = Items p"
    if "after = [] \<or> (\<exists>(_, x) \<in> set ?l. after = CreateNextCursor P (ex_id x))" "fetch [] after = Inr p" "HasNextPage p" for after p
  proof -
    have "after = [] \<or> after \<in> cursor_of P (ex_id \<circ> snd) ` set ?l"
      using that(1) by (force simp: cursor_of_def)
    from executions.back_from_next [OF v assms(6) this] that(2,3) show ?thesis unfolding f by simp
  qed
  ultimately show ?thesis using listed_executions [OF assms(1-4)] by (intro exI [of _ ?l]) simp
qed

section \<open>Workflows\<close>

definition index_key :: "address \<Rightarrow> address \<Rightarrow> string \<Rightarrow> bytes" where
  "index_key u w i = join ''u'' (join (lower_hex u) (join (lower_hex w) i))"

lemma TaskUserKey_index: "to_lower (task_owner t) = lower_hex u \<Longrightarrow> to_lower (smart_wallet_address t) = lower_hex w \<Longrightarrow>
    TaskUserKey t = index_key u w (task_id t)"
  by (simp add: TaskUserKey_def index_key_def Key_def)

lemma taskIDFromKey_index: "plain_id i \<Longrightarrow> taskIDFromKey (index_key u w i) = i"
  using plain_idD(2) by (simp add: taskIDFromKey_def index_key_def ParseUserTaskKey_def)

text \<open>The index rows of the wallets of one owner: one row for each workflow, under its id.\<close>

definition index_wf :: "page_env \<Rightarrow> 'd badger \<Rightarrow> address \<Rightarrow> address list \<Rightarrow> 'd \<Rightarrow> bool" where
  "index_wf P B u ws d \<longleftrightarrow> scan_wf P B taskIDFromKey (SmartWalletTaskStoragePrefix u) (index_key u) ws d"

lemma wallet_prefixes_map:
  "wallet_prefixes P B nets u ws d = Inr ps \<Longrightarrow> ps = map (SmartWalletTaskStoragePrefix (user_address u)) (map (hexToAddress P) ws)"
  by (induction ws arbitrary: ps) (auto simp: bindE_Inr_conv split: if_splits sum.splits)

lemma load_workflow_key:
  assumes "store_total (xbadger E)" "plain_id i" "rows_of (xbadger E) d (index_key u w i) = Some v"
  shows "load_workflow E ns es d (index_key u w i) =
    Inr (case rows_of (xbadger E) d (WorkflowStorageKey i (status_of_number (parse_int64_clamped v))) of None \<Rightarrow> None
      | Some raw \<Rightarrow> map_option (\<lambda>t. to_task_item ns es (t\<lparr>task_id := i\<rparr>)) (FromStorageData E raw))"
  using assms(3)
  by (simp add: load_workflow_def total_GetKey [OF assms(1)] taskIDFromKey_index [OF assms(2)] split: option.splits)

lemma workflows_pageable:
  assumes "store_total (xbadger E)" "page_env_ok P" "index_wf P (xbadger E) u ws d" "distinct ws"
  shows "pageable P taskIDFromKey (load_workflow E ns es d) it_id (scan (xbadger E) (SmartWalletTaskStoragePrefix u) ws d)"
proof (rule scan_pageable [OF assms(1,2)])
  show "scan_wf P (xbadger E) taskIDFromKey (SmartWalletTaskStoragePrefix u) (index_key u) ws d"
    using assms(3) by (simp add: index_wf_def)
  show "distinct ws" by (rule assms(4))
  fix w i assume "plain_id i" "rows_of (xbadger E) d (index_key u w i) \<noteq> None"
  then show "(\<exists>r. load_workflow E ns es d (index_key u w i) = Inr r) \<and>
      (\<forall>x. load_workflow E ns es d (index_key u w i) = Inr (Some x) \<longrightarrow> it_id x = i)"
    by (auto simp: load_workflow_key [OF assms(1)] to_task_item_def split: option.splits)
qed

text \<open>
C18: A user who lists the workflows of wallets they own, each wallet named once, and follows the cursors sees every
workflow of the index of these wallets whose record can be read under the status the index names, exactly once, newest
first, and nothing else, in at most one request more than there are workflows. The database never fails, and the rows of
the index are as the engine writes them (under owner, wallet and workflow id, no ULID twice). A wallet named twice in the
request is not rejected and its workflows are listed twice.
\<close>

theorem workflows_listed_once:
  assumes "store_total (xbadger E)" "page_env_ok P" "ws \<noteq> []" "wallet_prefixes P (xbadger E) nets u ws d = Inr ps"
    and "index_wf P (xbadger E) (user_address u) (map (hexToAddress P) ws) d" "0 \<le> limit"
    and "distinct (map (hexToAddress P) ws)"
  shows "\<exists>xs. walk (\<lambda>after. ListWorkflowsByUser P E nets u \<lparr>lt_wallets = ws, lt_before = [], lt_after = after,
      lt_limit = limit, lt_nodes = ns, lt_edges = es\<rparr> d) (Suc (length xs)) [] = Some (Inr xs) \<and>
    set xs = {x. \<exists>w \<in> set ws. \<exists>i v raw t. rows_of (xbadger E) d (index_key (user_address u) (hexToAddress P w) i) = Some v \<and>
      rows_of (xbadger E) d (WorkflowStorageKey i (status_of_number (parse_int64_clamped v))) = Some raw \<and>
      FromStorageData E raw = Some t \<and> x = to_task_item ns es (t\<lparr>task_id := i\<rparr>)} \<and>
    sorted_wrt (\<lambda>x y. the (ulid_parse P (it_id y)) < the (ulid_parse P (it_id x))) xs"
proof -
  let ?ws = "map (hexToAddress P) ws" and ?u = "user_address u"
  have w: "scan_wf P (xbadger E) taskIDFromKey (SmartWalletTaskStoragePrefix ?u) (index_key ?u) ?ws d"
    using assms(5) by (simp add: index_wf_def)
  have k: "workflow_keys P E nets u ws d = scan (xbadger E) (SmartWalletTaskStoragePrefix ?u) ?ws d"
    using wallet_prefixes_map [OF assms(4)] ListKeysMulti_scan [OF assms(1) w] assms(4) by (simp add: workflow_keys_def)
  note pg = workflows_pageable [OF assms(1,2,5,7), of ns es]
  have v: "workflows_listable P E nets u ws ns es d" using assms(3,4) pg by (simp add: workflows_listable_def k)
  let ?l = "listing P taskIDFromKey (load_workflow E ns es d) (workflow_keys P E nets u ws d)"
  have wk: "walk (\<lambda>after. fetch_workflows P E nets u ws ns es d [] after limit) (Suc (length ?l)) [] = Some (Inr ?l)"
    by (rule workflows.walk_lists_content [OF v assms(6)]) simp
  have load: "load_workflow E ns es d (index_key ?u a i) = Inr (case rows_of (xbadger E) d (WorkflowStorageKey i
      (status_of_number (parse_int64_clamped v))) of None \<Rightarrow> None
      | Some raw \<Rightarrow> map_option (\<lambda>t. to_task_item ns es (t\<lparr>task_id := i\<rparr>)) (FromStorageData E raw))"
    if r: "a \<in> set ?ws" "rows_of (xbadger E) d (index_key ?u a i) = Some v" for a i v
  proof -
    obtain j where "index_key ?u a i = index_key ?u a j" "plain_id j" using scan_wf_plain [OF w r] by blast
    then have "plain_id i" by (simp add: index_key_def join_def)
    from load_workflow_key [OF assms(1) this r(2)] show ?thesis .
  qed
  have "set ?l = {x. \<exists>a \<in> set ?ws. \<exists>i. rows_of (xbadger E) d (index_key ?u a i) \<noteq> None \<and>
      load_workflow E ns es d (index_key ?u a i) = Inr (Some x)}"
    using set_listing_scan [OF assms(1) w pg] by (simp add: k)
  also have "\<dots> = {x. \<exists>a \<in> set ?ws. \<exists>i v raw t. rows_of (xbadger E) d (index_key ?u a i) = Some v \<and>
      rows_of (xbadger E) d (WorkflowStorageKey i (status_of_number (parse_int64_clamped v))) = Some raw \<and>
      FromStorageData E raw = Some t \<and> x = to_task_item ns es (t\<lparr>task_id := i\<rparr>)}"
    by (intro Collect_cong bex_cong refl arg_cong [where f = Ex] ext) (auto simp: load split: option.splits)
  finally have c: "set ?l = {x. \<exists>w \<in> set ws. \<exists>i v raw t. rows_of (xbadger E) d (index_key ?u (hexToAddress P w) i) = Some v \<and>
      rows_of (xbadger E) d (WorkflowStorageKey i (status_of_number (parse_int64_clamped v))) = Some raw \<and>
      FromStorageData E raw = Some t \<and> x = to_task_item ns es (t\<lparr>task_id := i\<rparr>)}" by simp
  show ?thesis using wk c listing_sorted [OF pg] unfolding fetch_workflows_def k by blast
qed

section \<open>A sample\<close>

instance cursor_direction :: countable
  by countable_datatype

definition sample_pages :: page_env where
  "sample_pages = \<lparr>ulid_parse = (\<lambda>s. if length s = 26 then Some (be_nat s) else None),
     cursorEncode = (\<lambda>d s. the (strokes (d, s))),
     cursorDecode = (\<lambda>c. if c = ''null'' then NullCursor else if c = ''~'' then NotCursor
        else case the (of_strokes c) of (d, s) \<Rightarrow> CursorFields (Some d) (Some s)),
     isHexAddress = (\<lambda>_. True), hexToAddress = (\<lambda>_. 7)\<rparr>"

lemma sample_pages_ok: "page_env_ok sample_pages"
proof -
  have "replicate (Suc n) CHR ''1'' \<noteq> ''null''" "replicate (Suc n) CHR ''1'' \<noteq> ''~''" for n by auto
  then show ?thesis by (auto simp: page_env_ok_def sample_pages_def strokes_def of_strokes_def split: if_splits)
qed

definition sample_wf :: string where
  "sample_wf = ''01K00000000000000000000000''"

definition sample_exec :: "char \<Rightarrow> execution" where
  "sample_exec c = \<lparr>ex_id = ''01K0000000000000000000000'' @ [c], ex_start = 1000, ex_end = 3000, ex_status = ExecPending, ex_error = [],
     ex_steps = [], ex_index = 0, ex_resume = [], ex_wait_reason = []\<rparr>"

text \<open>Rows are named by one letter each: the workflow and its two executions.\<close>

definition sample_listing_env :: "(bytes \<times> bytes) list xenv" where
  "sample_listing_env = mem_xenv\<lparr>taskUnmarshal := (\<lambda>b. if b = ''t''
       then Some (example_task\<lparr>task_id := sample_wf, task_owner := lower_hex 5\<rparr>) else None),
     execUnmarshal := (\<lambda>b. if b = ''a'' then Some (sample_exec CHR ''A'') else if b = ''b'' then Some (sample_exec CHR ''B'') else None)\<rparr>"

definition sample_listing_store :: "(bytes \<times> bytes) list" where
  "sample_listing_store = [(WorkflowStorageKey sample_wf Enabled, ''t''),
     (history_key sample_wf (ex_id (sample_exec CHR ''A'')), ''a''), (history_key sample_wf (ex_id (sample_exec CHR ''B'')), ''b'')]"

lemma sample_listing_rows:
  "xbadger sample_listing_env = mem_badger" "rows_of mem_badger sample_listing_store = map_of sample_listing_store"
  by (simp_all add: sample_listing_env_def) (simp add: rows_of_def mem_badger_def fun_eq_iff split: option.splits)

lemma sample_ids: "plain_id sample_wf" "plain_id (ex_id (sample_exec CHR ''A''))" "plain_id (ex_id (sample_exec CHR ''B''))"
  by (simp_all add: plain_id_def sample_wf_def sample_exec_def is_digit_def is_alpha_def)

lemma sample_ulids: "ulid_parse sample_pages (ex_id (sample_exec CHR ''A'')) \<noteq> None"
  "ulid_parse sample_pages (ex_id (sample_exec CHR ''B'')) \<noteq> None"
  "ulid_parse sample_pages (ex_id (sample_exec CHR ''A'')) \<noteq> ulid_parse sample_pages (ex_id (sample_exec CHR ''B''))"
  by (simp_all add: sample_pages_def sample_exec_def be_nat.simps)

lemma sample_history_wf: "history_wf sample_pages sample_listing_env [sample_wf] sample_listing_store"
proof -
  let ?a = "ex_id (sample_exec CHR ''A'')" and ?b = "ex_id (sample_exec CHR ''B'')"
  have keys: "history_key sample_wf e = history_key sample_wf f \<longleftrightarrow> e = f" for e f
    by (simp add: history_key_inject sample_ids)
  have not_wf: "history_key i e \<noteq> WorkflowStorageKey j s" for i e j s
    by (simp add: history_key_def WorkflowStorageKey_def join_def)
  have ab: "?a \<noteq> ?b" by (simp add: sample_exec_def)
  have rows: "map_of sample_listing_store (history_key sample_wf e) = (if e = ?a then Some ''a'' else if e = ?b then Some ''b'' else None)" for e
    by (simp add: sample_listing_store_def keys not_wf)
  have key: "\<exists>e. k = history_key sample_wf e \<and> (e = ?a \<and> raw = ''a'' \<or> e = ?b \<and> raw = ''b'')"
    if k: "prefix (TaskExecutionPrefix sample_wf) k" "map_of sample_listing_store k = Some raw" for k raw
  proof -
    have "k \<noteq> WorkflowStorageKey sample_wf Enabled"
      using k(1) by (auto simp: TaskExecutionPrefix_def WorkflowStorageKey_def join_def prefix_def)
    then show ?thesis using k(2) by (auto simp: sample_listing_store_def split: if_splits)
  qed
  have exec: "execUnmarshal sample_listing_env ''a'' = Some (sample_exec CHR ''A'')"
    "execUnmarshal sample_listing_env ''b'' = Some (sample_exec CHR ''B'')" by (simp_all add: sample_listing_env_def)
  have "\<exists>e. k = history_key sample_wf e \<and> plain_id e \<and> ulid_parse sample_pages e \<noteq> None \<and> ExecutionIdFromStorageKey k = e"
    if "prefix (TaskExecutionPrefix sample_wf) k" "map_of sample_listing_store k \<noteq> None" for k
    using key [OF that(1)] that(2) sample_ids sample_ulids(1,2) history_key_ids(1) by (metis not_None_eq)
  moreover have "e = f" if "map_of sample_listing_store (history_key sample_wf e) \<noteq> None"
    "map_of sample_listing_store (history_key sample_wf f) \<noteq> None" "ulid_parse sample_pages e = ulid_parse sample_pages f" for e f
    using that sample_ulids(3) unfolding rows by (metis (full_types))
  moreover have "TaskExecutionPrefix sample_wf \<noteq> []" "last (TaskExecutionPrefix sample_wf) \<noteq> CHR ''*''"
    by (simp_all add: TaskExecutionPrefix_def join_def sample_wf_def)
  ultimately have "scan_wf sample_pages mem_badger ExecutionIdFromStorageKey TaskExecutionPrefix history_key [sample_wf] sample_listing_store"
    by (simp add: scan_wf_def sample_listing_rows prefix_history_key)
  moreover have "ex_id x = e" if "map_of sample_listing_store (history_key sample_wf e) = Some raw"
    "execUnmarshal sample_listing_env raw = Some x" for e raw x
    using that exec unfolding rows by (auto split: if_splits)
  ultimately show ?thesis using sample_ids(1) by (simp add: history_wf_def sample_listing_rows)
qed

lemma sample_checked: "check_tasks sample_listing_env [Enabled] 5 [sample_wf] sample_listing_store = Inr ()"
  by (simp add: sample_listing_rows total_GetKey [OF mem_badger_total])
    (simp add: sample_listing_store_def sample_listing_env_def FromStorageData_def EnsureInitialized_def OwnedBy_def sample_wf_def
      to_lower_lower_hex)

theorem executions_listed_once_witness:
  "\<exists>xs. walk (\<lambda>after. ListExecutions sample_pages sample_listing_env [Enabled] 5
      \<lparr>le_tasks = [sample_wf], le_before = [], le_after = after, le_limit = 1\<rparr> sample_listing_store) (Suc (length xs)) [] = Some (Inr xs) \<and>
    (sample_wf, sample_exec CHR ''B'') \<in> set xs"
proof -
  have t: "store_total (xbadger sample_listing_env)" by (simp add: sample_listing_rows mem_badger_total)
  have "map_of sample_listing_store (history_key sample_wf (ex_id (sample_exec CHR ''B''))) = Some ''b''"
    "execUnmarshal sample_listing_env ''b'' = Some (sample_exec CHR ''B'')"
    by (simp_all add: sample_listing_store_def sample_listing_env_def history_key_inject sample_ids)
      (simp_all add: history_key_def WorkflowStorageKey_def join_def sample_exec_def)
  then have m: "(sample_wf, sample_exec CHR ''B'') \<in> {(i, x). i \<in> set [sample_wf] \<and>
      (\<exists>e raw. rows_of (xbadger sample_listing_env) sample_listing_store (history_key i e) = Some raw \<and>
        execUnmarshal sample_listing_env raw = Some x)}"
    unfolding sample_listing_rows by auto
  obtain xs where "walk (\<lambda>after. ListExecutions sample_pages sample_listing_env [Enabled] 5
      \<lparr>le_tasks = [sample_wf], le_before = [], le_after = after, le_limit = 1\<rparr> sample_listing_store) (Suc (length xs)) [] = Some (Inr xs)"
    "set xs = {(i, x). i \<in> set [sample_wf] \<and>
      (\<exists>e raw. rows_of (xbadger sample_listing_env) sample_listing_store (history_key i e) = Some raw \<and>
        execUnmarshal sample_listing_env raw = Some x)}"
    using executions_listed_once [OF t sample_pages_ok sample_history_wf _ sample_checked, of 1] by auto
  with m show ?thesis by blast
qed

definition sample_index_store :: "(bytes \<times> bytes) list" where
  "sample_index_store = [(WorkflowStorageKey sample_wf Enabled, ''t''), (index_key 5 7 sample_wf, ''0'')]"

definition sample_user :: user where
  "sample_user = \<lparr>user_address = 5, SmartAccountAddress = Some 7\<rparr>"

lemma sample_index_rows: "rows_of mem_badger sample_index_store = map_of sample_index_store"
  by (simp add: rows_of_def mem_badger_def fun_eq_iff split: option.splits)

lemma sample_index_wf: "index_wf sample_pages mem_badger 5 [7] sample_index_store"
proof -
  have pre: "prefix (SmartWalletTaskStoragePrefix 5 7) (index_key 5 7 e)" for e
    by (simp add: SmartWalletTaskStoragePrefix_def index_key_def) (simp add: join_def)
  have u: "ulid_parse sample_pages sample_wf \<noteq> None" by (simp add: sample_pages_def sample_wf_def)
  have key: "k = index_key 5 7 sample_wf" if "prefix (SmartWalletTaskStoragePrefix 5 7) k" "map_of sample_index_store k \<noteq> None" for k
  proof -
    have "k \<noteq> WorkflowStorageKey sample_wf Enabled"
      using that(1) by (auto simp: SmartWalletTaskStoragePrefix_def WorkflowStorageKey_def join_def prefix_def)
    then show ?thesis using that(2) by (auto simp: sample_index_store_def split: if_splits)
  qed
  have "e = f" if "map_of sample_index_store (index_key 5 7 e) \<noteq> None" "map_of sample_index_store (index_key 5 7 f) \<noteq> None" for e f
    using key [OF pre that(1)] key [OF pre that(2)] by (simp add: index_key_def join_def)
  moreover have "SmartWalletTaskStoragePrefix 5 7 \<noteq> []" "last (SmartWalletTaskStoragePrefix 5 7) \<noteq> CHR ''*''"
    using last_lower_hex [of 7] by (simp_all add: SmartWalletTaskStoragePrefix_def join_def)
  moreover have "\<exists>e. k = index_key 5 7 e \<and> plain_id e \<and> ulid_parse sample_pages e \<noteq> None \<and> taskIDFromKey k = e"
    if "prefix (SmartWalletTaskStoragePrefix 5 7) k" "map_of sample_index_store k \<noteq> None" for k
    using key [OF that] u sample_ids(1) taskIDFromKey_index [OF sample_ids(1)] by blast
  ultimately show ?thesis using pre by (simp add: index_wf_def scan_wf_def sample_index_rows)
qed

lemma sample_wallet_prefixes:
  "wallet_prefixes sample_pages mem_badger [] sample_user [''0x7''] sample_index_store = Inr [SmartWalletTaskStoragePrefix 5 7]"
  by (simp add: sample_pages_def sample_user_def userOwnsWalletOnAnyChain_def)

theorem workflows_listed_once_witness:
  "\<exists>xs. walk (\<lambda>after. ListWorkflowsByUser sample_pages sample_listing_env [] sample_user
      \<lparr>lt_wallets = [''0x7''], lt_before = [], lt_after = after, lt_limit = 0, lt_nodes = False, lt_edges = False\<rparr> sample_index_store)
      (Suc (length xs)) [] = Some (Inr xs) \<and> sample_wf \<in> it_id ` set xs"
proof -
  have t: "store_total (xbadger sample_listing_env)" by (simp add: sample_listing_rows mem_badger_total)
  have w: "index_wf sample_pages (xbadger sample_listing_env) (user_address sample_user) (map (hexToAddress sample_pages) [''0x7'']) sample_index_store"
    using sample_index_wf by (simp add: sample_listing_rows sample_user_def) (simp add: sample_pages_def)
  have p: "wallet_prefixes sample_pages (xbadger sample_listing_env) [] sample_user [''0x7''] sample_index_store = Inr [SmartWalletTaskStoragePrefix 5 7]"
    using sample_wallet_prefixes by (simp add: sample_listing_rows)
  let ?t = "example_task\<lparr>task_id := sample_wf, task_owner := lower_hex 5\<rparr>"
  have "map_of sample_index_store (index_key 5 7 sample_wf) = Some ''0''" "status_of_number (parse_int64_clamped ''0'') = Enabled"
    "map_of sample_index_store (WorkflowStorageKey sample_wf Enabled) = Some ''t''" "FromStorageData sample_listing_env ''t'' = Some ?t"
    by (simp_all add: sample_index_store_def status_of_number_def parse_int64_clamped_def parse_decimal_def is_digit_def digit_val_def
        sample_listing_env_def FromStorageData_def EnsureInitialized_def sample_wf_def index_key_def WorkflowStorageKey_def)
      (simp_all add: join_def)
  then have "\<exists>x. it_id x = sample_wf \<and> x \<in> {x. \<exists>w \<in> set [''0x7'']. \<exists>i v raw t.
      rows_of (xbadger sample_listing_env) sample_index_store (index_key (user_address sample_user) (hexToAddress sample_pages w) i) = Some v \<and>
      rows_of (xbadger sample_listing_env) sample_index_store (WorkflowStorageKey i (status_of_number (parse_int64_clamped v))) = Some raw \<and>
      FromStorageData sample_listing_env raw = Some t \<and> x = to_task_item False False (t\<lparr>task_id := i\<rparr>)}"
    unfolding mem_Collect_eq
    by (intro exI [of _ "to_task_item False False (?t\<lparr>task_id := sample_wf\<rparr>)"] conjI bexI [of _ "''0x7''"] exI [of _ sample_wf]
        exI [of _ "''0''"] exI [of _ "''t''"] exI [of _ ?t])
      (simp_all add: sample_listing_rows sample_index_rows sample_user_def to_task_item_def, simp add: sample_pages_def)
  with workflows_listed_once [OF t sample_pages_ok _ p w, of 0 False False] show ?thesis by (force simp: image_iff)
qed

section \<open>Other behaviour\<close>

text \<open>The literal \<open>null\<close> as a cursor leaves a nil pointer behind, whose direction is then set.\<close>

lemma null_cursor_panics:
  assumes "c \<noteq> []" "cursorDecode P c = NullCursor"
  shows "SetupPagination P before c limit = Inl Panic" "SetupPagination P c [] limit = Inl Panic"
  using assms by (simp_all add: SetupPagination_def CursorFromBeforeAfter_def CursorFromString_def set_direction_def)

text \<open>A cursor that is no ULID is refused going back, and gives an empty last page going forward.\<close>

lemma foreign_cursor:
  assumes "pageable P idOf load itemId ks" "0 \<le> limit" "c \<noteq> []" "cursorDecode P c = CursorFields d (Some s)"
    and "s \<noteq> ''0''" "ulid_parse P s = None"
  shows "list_page P idOf load itemId (rev (newest_first P idOf ks)) [] c limit =
      Inr \<lparr>Items = [], StartCursor = [], EndCursor = [], HasPreviousPage = False, HasNextPage = False\<rparr>"
    "list_page P idOf load itemId (rev (newest_first P idOf ks)) c [] limit = Inl InvalidCursor"
proof -
  let ?c = "zero_cursor\<lparr>Direction := CursorNext, Position := s\<rparr>"
  have c: "SetupPagination P [] c limit = Inr (?c, page_size limit)"
    "SetupPagination P c [] limit = Inr (?c\<lparr>Direction := CursorPrevious\<rparr>, page_size limit)"
    using assms by (simp_all add: SetupPagination_def CursorFromBeforeAfter_def CursorFromString_def set_direction_def
        page_size_def zero_cursor_def)
  have z: "\<not> IsZero ?c" "cursor_val P ?c = 0" "Direction ?c = CursorNext"
    using assms(5,6) by (simp_all add: IsZero_def cursor_val_def zero_cursor_def)
  show "list_page P idOf load itemId (rev (newest_first P idOf ks)) [] c limit =
      Inr \<lparr>Items = [], StartCursor = [], EndCursor = [], HasPreviousPage = False, HasNextPage = False\<rparr>"
    using c(1) z forward_items [OF assms(1) z(3), of "page_size limit"]
    by (simp add: list_page_def is_backward_def make_page_def)
  show "list_page P idOf load itemId (rev (newest_first P idOf ks)) c [] limit = Inl InvalidCursor"
    using c(2) assms(5,6) by (simp add: list_page_def is_backward_def IsZero_def)
qed

text \<open>A wallet or workflow named twice is scanned twice.\<close>

lemma repeated_parameter: "ListKeysMulti B d [p, p] = ListKeysMulti B d [p] @ ListKeysMulti B d [p]"
  by (simp split: sum.splits)

text \<open>The counts over named workflows do not depend on who asks.\<close>

lemma counts_ignore_user:
  assumes "ids \<noteq> []"
  shows "GetExecutionCount B u ids d = GetExecutionCount B v ids d"
    "GetExecutionStats E daysAgo u ids days d = GetExecutionStats E daysAgo v ids days d"
  using assms by (simp_all add: GetExecutionCount_def GetExecutionStats_def counted_ids_def)

text \<open>Every counted execution is a success or a failure, and one that is pending or waiting is a failure.\<close>

lemma stats_total_split:
  assumes "stats_total s = stats_succeeded s + stats_failed s"
  shows "stats_total (count_execution c x s) = stats_succeeded (count_execution c x s) + stats_failed (count_execution c x s)"
  using assms by (simp add: count_execution_def)

lemma pending_counts_as_failed:
  "c \<le> ex_start x \<Longrightarrow> ex_status x \<in> {ExecPending, ExecWaiting} \<Longrightarrow> stats_failed (count_execution c x s) = stats_failed s + 1"
  by (auto simp: count_execution_def)

text \<open>The strict comparison with a number is not strict.\<close>

lemma LessThanInt64_not_strict: "LessThanInt64 c n = LessThanOrEqualInt64 c n"
  by (simp add: LessThanInt64_def LessThanOrEqualInt64_def)

end
