(* ===== verification/Secrets.thy ===== *)
theory Secrets
  imports ListingPages
begin

text \<open>
  Secrets: the names the engine refuses and the secrets a run sees (\<open>core/taskengine/secret.go\<close>), the handlers of
  \<open>engine.go\<close> that create, update, list and delete them, and the request that puts one
  (\<open>aggregator/rest/handlers_secrets.go\<close>).
\<close>

section \<open>Names\<close>

datatype secret_error = NameStartsWithAp | NameReserved | NameLength | CannotSave | SecretNotFound | SecretStorage serr
  | SecretPage list_error | MissingUser | BadSecretKey

definition platformSecretNames :: "string list" where
  "platformSecretNames = [''moralis_api_key'', ''goplus_app_key'', ''goplus_app_secret'']"

definition isPlatformSecretName :: "string \<Rightarrow> bool" where
  "isPlatformSecretName name \<longleftrightarrow> to_lower name \<in> set platformSecretNames"

definition rejectReservedSecretName :: "string \<Rightarrow> secret_error option" where
  "rejectReservedSecretName name = (if isPlatformSecretName name then Some NameReserved else None)"

definition MaxSecretNameLength :: nat where
  "MaxSecretNameLength = 255"

section \<open>Handlers\<close>

record secret_req =
  sr_name :: string
  sr_value :: string
  sr_org :: string
  sr_workflow :: string

text \<open>The error of \<open>SecretStorageKey\<close> is dropped; its key is then empty.\<close>

definition secret_key :: "address \<Rightarrow> string \<Rightarrow> string \<Rightarrow> string \<Rightarrow> string" where
  "secret_key u name org workflow = (case SecretStorageKey \<lparr>secret_name = name, secret_user = Some u, secret_org_id = org,
     secret_workflow_id = workflow\<rparr> of None \<Rightarrow> [] | Some key \<Rightarrow> key)"

definition CreateSecret :: "'d badger \<Rightarrow> address \<Rightarrow> secret_req \<Rightarrow> 'd \<Rightarrow> 'd \<times> (secret_error + bool)" where
  "CreateSecret B u r d =
     (if prefix ''ap_'' (to_lower (sr_name r)) then (d, Inl NameStartsWithAp)
      else case rejectReservedSecretName (sr_name r) of Some e \<Rightarrow> (d, Inl e)
       | None \<Rightarrow>
          if sr_name r = [] \<or> MaxSecretNameLength < length (sr_name r) then (d, Inl NameLength)
          else case BatchWrite B d [(secret_key u (sr_name r) (sr_org r) (sr_workflow r), sr_value r)] of
            Inl _ \<Rightarrow> (d, Inl CannotSave) | Inr d' \<Rightarrow> (d', Inr True))"

text \<open>The write error of an update is dropped.\<close>

definition UpdateSecret :: "'d badger \<Rightarrow> address \<Rightarrow> secret_req \<Rightarrow> 'd \<Rightarrow> 'd \<times> (secret_error + bool)" where
  "UpdateSecret B u r d = (case rejectReservedSecretName (sr_name r) of Some e \<Rightarrow> (d, Inl e)
     | None \<Rightarrow> (let key = secret_key u (sr_name r) (sr_org r) (sr_workflow r)
         in case Exist B d key of Inl _ \<Rightarrow> (d, Inl SecretNotFound)
          | Inr ok \<Rightarrow> if \<not> ok then (d, Inl SecretNotFound)
              else (case BatchWrite B d [(key, sr_value r)] of Inl _ \<Rightarrow> (d, Inr True) | Inr d' \<Rightarrow> (d', Inr True))))"

datatype put_result = PutBadValue | PutCreated | PutReplaced | PutError secret_error

definition PutSecret :: "'d badger \<Rightarrow> address \<Rightarrow> secret_req \<Rightarrow> 'd \<Rightarrow> 'd \<times> put_result" where
  "PutSecret B u r d =
     (if sr_value r = [] then (d, PutBadValue)
      else case CreateSecret B u r d of (d1, res) \<Rightarrow>
        if res = Inr True then (d1, PutCreated)
        else case UpdateSecret B u r d1 of
          (d2, Inl updateErr) \<Rightarrow> (d2, PutError (case res of Inl e \<Rightarrow> e | Inr _ \<Rightarrow> updateErr))
        | (d2, Inr _) \<Rightarrow> (d2, PutReplaced))"

record secret_item =
  si_name :: string
  si_org :: string
  si_workflow :: string
  si_scope :: string
  si_created_by :: "address option"

text \<open>The loop of \<open>ListSecrets\<close> with the keys of its items; a key with less than five parts panics.\<close>

definition secret_skip :: "cursor \<Rightarrow> string \<Rightarrow> bool" where
  "secret_skip c k \<longleftrightarrow> \<not> IsZero c \<and> (Direction c = CursorNext \<and> k \<le> Position c \<or> Direction c = CursorPrevious \<and> k \<ge> Position c)"

definition to_secret_item :: "address option \<Rightarrow> secret \<Rightarrow> secret_item" where
  "to_secret_item createdBy s = \<lparr>si_name = secret_name s, si_org = secret_org_id s, si_workflow = secret_workflow_id s,
     si_scope = ''user'', si_created_by = createdBy\<rparr>"

fun secret_loop :: "cursor \<Rightarrow> nat \<Rightarrow> address option \<Rightarrow> string list \<Rightarrow> nat \<Rightarrow> (string \<times> secret_item) list \<Rightarrow>
    secret_error + (string \<times> secret_item) list \<times> bool" where
  "secret_loop c limit by [] processed items = Inr (items, False)"
| "secret_loop c limit by (k # ks) processed items =
     (if secret_skip c k then secret_loop c limit by ks processed items
      else if limit < Suc processed then Inr (items, True)
      else case SecretNameFromKey k of None \<Rightarrow> Inl BadSecretKey
       | Some s \<Rightarrow> secret_loop c limit by ks (Suc processed) (items @ [(k, to_secret_item by s)]))"

definition secret_page :: "page_env \<Rightarrow> cursor \<Rightarrow> (string \<times> secret_item) list \<Rightarrow> bool \<Rightarrow> secret_item page" where
  "secret_page P c items hasMore =
     (if items = [] then \<lparr>Items = [], StartCursor = [], EndCursor = [], HasPreviousPage = False, HasNextPage = False\<rparr>
      else \<lparr>Items = map snd items, StartCursor = CreateNextCursor P (fst (hd items)), EndCursor = CreateNextCursor P (fst (last items)),
        HasPreviousPage = (if Direction c = CursorPrevious then hasMore else \<not> IsZero c \<and> Direction c = CursorNext),
        HasNextPage = (if Direction c = CursorPrevious then True else hasMore)\<rparr>)"

record list_secrets_req =
  ls_workflow :: string
  ls_before :: string
  ls_after :: string
  ls_limit :: int
  ls_created_by :: bool

definition creator :: "address \<Rightarrow> bool \<Rightarrow> address option" where
  "creator u include = (if include then Some u else None)"

definition ListSecrets :: "page_env \<Rightarrow> 'd badger \<Rightarrow> address \<Rightarrow> list_secrets_req \<Rightarrow> 'd \<Rightarrow> secret_error + secret_item page" where
  "ListSecrets P B u r d =
     (let keys = sort (ListKeysMulti B d [SecretStoragePrefix u])
      in case SetupPagination P (ls_before r) (ls_after r) (ls_limit r) of Inl e \<Rightarrow> Inl (SecretPage e)
       | Inr (cursor, limit) \<Rightarrow>
          bindE (secret_loop cursor limit (creator u (ls_created_by r)) keys 0 []) (\<lambda>(items, hasMore).
            Inr (secret_page P cursor items hasMore)))"

text \<open>\<open>None\<close> is the panic on a key with less than five parts, \<open>Some None\<close> that no key was chosen.\<close>

fun parse_keys :: "string list \<Rightarrow> (string \<times> secret) list option" where
  "parse_keys [] = Some []"
| "parse_keys (k # ks) = (case SecretNameFromKey k of None \<Rightarrow> None
     | Some s \<Rightarrow> map_option (Cons (k, s)) (parse_keys ks))"

definition findSecretKeyByName :: "'d badger \<Rightarrow> address \<Rightarrow> string \<Rightarrow> 'd \<Rightarrow> (string \<times> secret) option option" where
  "findSecretKeyByName B u name d = (case parse_keys (ListKeysMulti B d [SecretStoragePrefix u]) of None \<Rightarrow> None
     | Some metas \<Rightarrow> (let matches = filter (\<lambda>(_, s). secret_name s = name) metas
         in Some (if length matches = 1 then Some (hd matches)
            else List.find (\<lambda>(_, s). secret_workflow_id s = [] \<and> secret_org_id s = []) matches)))"

datatype delete_secret_result = SecretCheckFailed serr | SecretAbsent | SecretDeleteFailed serr | SecretDeleted string | SecretPanics

definition delete_key :: "'d badger \<Rightarrow> string \<Rightarrow> string \<Rightarrow> string \<Rightarrow> 'd \<Rightarrow> 'd \<times> delete_secret_result" where
  "delete_key B key org workflow d = (case StorageDelete B d key of Inl e \<Rightarrow> (d, SecretDeleteFailed e)
     | Inr d' \<Rightarrow> (d', SecretDeleted (if org \<noteq> [] then ''org'' else if workflow \<noteq> [] then ''workflow'' else ''user'')))"

definition DeleteSecret :: "'d badger \<Rightarrow> address \<Rightarrow> string \<Rightarrow> string \<Rightarrow> string \<Rightarrow> 'd \<Rightarrow> 'd \<times> delete_secret_result" where
  "DeleteSecret B u name org workflow d = (let key = secret_key u name org workflow in case Exist B d key of
       Inl e \<Rightarrow> (d, SecretCheckFailed e)
     | Inr exists \<Rightarrow>
         if exists then delete_key B key org workflow d
         else if workflow = [] \<and> org = [] then
           (case findSecretKeyByName B u name d of None \<Rightarrow> (d, SecretPanics)
             | Some None \<Rightarrow> (d, SecretAbsent)
             | Some (Some (found, s)) \<Rightarrow> delete_key B found (secret_org_id s) (secret_workflow_id s) d)
         else (d, SecretAbsent))"

section \<open>The secrets of a run\<close>

definition user_level :: "'d badger \<Rightarrow> 'd \<Rightarrow> string \<times> secret \<Rightarrow> (string \<rightharpoonup> string) \<Rightarrow> (string \<rightharpoonup> string)" where
  "user_level B d ks secrets = (if secret_workflow_id (snd ks) \<noteq> [] then secrets
     else case GetKey B d (fst ks) of Inl _ \<Rightarrow> secrets | Inr v \<Rightarrow> secrets(secret_name (snd ks) \<mapsto> v))"

definition workflow_level :: "'d badger \<Rightarrow> 'd \<Rightarrow> string \<Rightarrow> string \<times> secret \<Rightarrow> (string \<rightharpoonup> string) \<Rightarrow> (string \<rightharpoonup> string)" where
  "workflow_level B d taskID ks secrets = (if secrets (secret_name (snd ks)) \<noteq> None then secrets
     else if secret_workflow_id (snd ks) \<noteq> taskID then secrets
     else case GetKey B d (fst ks) of Inl _ \<Rightarrow> secrets | Inr v \<Rightarrow> secrets(secret_name (snd ks) \<mapsto> v))"

text \<open>\<open>macros\<close> are the secrets of the configuration, \<open>toAddress\<close> is \<open>common.HexToAddress\<close>.\<close>

definition LoadSecretForTask ::
  "'d badger \<Rightarrow> (string \<rightharpoonup> string) \<Rightarrow> (string \<Rightarrow> address) \<Rightarrow> task \<Rightarrow> 'd \<Rightarrow> secret_error + (string \<rightharpoonup> string)" where
  "LoadSecretForTask B macros toAddress t d =
     (if task_owner t = [] then Inl MissingUser
      else case parse_keys (ListKeysMulti B d [SecretStoragePrefix (toAddress (task_owner t))]) of None \<Rightarrow> Inl BadSecretKey
       | Some metas \<Rightarrow> Inr (fold (workflow_level B d (task_id t)) metas (fold (user_level B d) metas macros)))"

end
