(* ===== verification/SecretsInv.thy ===== *)
theory SecretsInv
  imports Secrets
begin

text \<open>
  What the secrets of a run are in terms of the stored rows, that a secret stays with its owner as long as no scope id
  has a colon in it, and what happens when one has.
\<close>

section \<open>Keys\<close>

definition plain_name :: "string \<Rightarrow> bool" where
  "plain_name s \<longleftrightarrow> s \<noteq> [] \<and> list_all (\<lambda>c. is_digit c \<or> is_alpha c \<or> c = CHR ''_'') s"

lemma plain_nameD:
  assumes "plain_name s" shows "s \<noteq> []" "CHR '':'' \<notin> set s" "ascii s"
proof -
  have p: "\<forall>c \<in> set s. is_digit c \<or> is_alpha c \<or> c = CHR ''_''" using assms by (auto simp: plain_name_def list_all_iff)
  show "s \<noteq> []" using assms by (simp add: plain_name_def)
  show "CHR '':'' \<notin> set s" using p by (force simp: is_digit_def is_alpha_def)
  show "ascii s" using p by (fastforce simp: ascii_def list_all_iff is_digit_def is_alpha_def Let_def)
qed

definition plain_scope :: "string \<Rightarrow> bool" where
  "plain_scope w \<longleftrightarrow> w = [] \<or> plain_id w"

lemma plain_scopeD: "plain_scope w \<Longrightarrow> CHR '':'' \<notin> set w \<and> w \<noteq> ''_'' \<and> ascii w"
  using plain_idD(2,4) by (auto simp: plain_scope_def ascii_def plain_id_def is_digit_def is_alpha_def)

lemma secret_key_eq: "secret_key u n [] w = (if w = [] then SecretStorageKeyForUser u n else SecretStorageKeyForWorkflow u n w)"
  by (simp add: secret_key_def SecretStorageKey_def)

lemma secret_key_parse:
  assumes "plain_name n" "plain_scope w"
  shows "SecretNameFromKey (secret_key u n [] w) =
    Some \<lparr>secret_name = n, secret_user = None, secret_org_id = [], secret_workflow_id = w\<rparr>"
  using plain_nameD(2) [OF assms(1)] plain_scopeD [OF assms(2)]
  by (simp add: secret_key_eq SecretNameFromKey_def SecretStorageKeyForUser_def SecretStorageKeyForWorkflow_def Let_def)

lemma secret_key_inject:
  assumes "plain_name n" "plain_scope w" "plain_name n'" "plain_scope w'"
  shows "secret_key u n [] w = secret_key u n' [] w' \<longleftrightarrow> n = n' \<and> w = w'"
proof
  assume "secret_key u n [] w = secret_key u n' [] w'"
  then have "SecretNameFromKey (secret_key u n [] w) = SecretNameFromKey (secret_key u n' [] w')" by (rule arg_cong)
  then show "n = n' \<and> w = w'" by (simp add: secret_key_parse assms)
qed simp

lemma prefix_secret_key: "prefix (SecretStoragePrefix u) (secret_key u n [] w)"
  by (simp add: secret_key_eq SecretStoragePrefix_def SecretStorageKeyForUser_def SecretStorageKeyForWorkflow_def)
    (simp add: join_def)

text \<open>The secret rows of a user as requests with plain names and scopes leave them.\<close>

definition secrets_wf :: "'d badger \<Rightarrow> address \<Rightarrow> 'd \<Rightarrow> bool" where
  "secrets_wf B u d \<longleftrightarrow> (\<forall>k. prefix (SecretStoragePrefix u) k \<longrightarrow> rows_of B d k \<noteq> None \<longrightarrow>
     (\<exists>n w. k = secret_key u n [] w \<and> plain_name n \<and> plain_scope w))"

lemma secret_scan: "store_total B \<Longrightarrow> ListKeysMulti B d [SecretStoragePrefix u] = iter_prefix B d (SecretStoragePrefix u)"
  using last_lower_hex [of u] by (subst ListKeysMulti_concat) (auto simp: SecretStoragePrefix_def join_def)

lemma secret_scan_key:
  assumes "store_total B" "secrets_wf B u d" "k \<in> set (iter_prefix B d (SecretStoragePrefix u))"
  obtains n w where "k = secret_key u n [] w" "plain_name n" "plain_scope w" "rows_of B d k \<noteq> None"
  using assms unfolding secrets_wf_def set_iter_prefix [OF assms(1)] by blast

definition meta_of :: "string \<Rightarrow> string \<times> secret" where
  "meta_of k = (k, the (SecretNameFromKey k))"

lemma parse_keys_map: "\<forall>k \<in> set ks. SecretNameFromKey k \<noteq> None \<Longrightarrow> parse_keys ks = Some (map meta_of ks)"
  by (induction ks) (auto simp: meta_of_def)

lemma parse_keys_fst: "parse_keys ks = Some ms \<Longrightarrow> map fst ms = ks"
  by (induction ks arbitrary: ms) (auto split: option.splits)

section \<open>The levels\<close>

text \<open>Keys of plain secrets that are in the store.\<close>

definition stored_keys :: "'d badger \<Rightarrow> address \<Rightarrow> 'd \<Rightarrow> string list \<Rightarrow> bool" where
  "stored_keys B u d ks \<longleftrightarrow> (\<forall>k \<in> set ks. rows_of B d k \<noteq> None \<and>
     (\<exists>n w. k = secret_key u n [] w \<and> plain_name n \<and> plain_scope w))"

lemma stored_keys_Cons:
  assumes "store_total B" "stored_keys B u d (k # ks)"
  obtains n w v where "k = secret_key u n [] w" "plain_name n" "plain_scope w" "GetKey B d k = Inr v" "rows_of B d k = Some v"
    "meta_of k = (k, \<lparr>secret_name = n, secret_user = None, secret_org_id = [], secret_workflow_id = w\<rparr>)" "stored_keys B u d ks"
proof -
  obtain n w v where "k = secret_key u n [] w" "plain_name n" "plain_scope w" "rows_of B d k = Some v" "stored_keys B u d ks"
    using assms(2) by (auto simp: stored_keys_def)
  then show thesis using that [of n w v] secret_key_parse [of n w u]
    by (simp add: total_GetKey [OF assms(1)] meta_of_def)
qed

lemma fold_user_level:
  assumes "store_total B" "stored_keys B u d ks" "plain_name n"
  shows "fold (user_level B d) (map meta_of ks) m n =
    (if secret_key u n [] [] \<in> set ks then rows_of B d (secret_key u n [] []) else m n)"
  using assms(2)
proof (induction ks arbitrary: m)
  case (Cons k ks)
  obtain n' w v where k: "k = secret_key u n' [] w" "plain_name n'" "plain_scope w" "GetKey B d k = Inr v" "rows_of B d k = Some v"
    "meta_of k = (k, \<lparr>secret_name = n', secret_user = None, secret_org_id = [], secret_workflow_id = w\<rparr>)" "stored_keys B u d ks"
    using stored_keys_Cons [OF assms(1) Cons.prems] .
  have "secret_key u n [] [] = k \<longleftrightarrow> n = n' \<and> w = []"
    using secret_key_inject [OF assms(3) _ k(2,3), of "[]" u] k(1) by (auto simp: plain_scope_def)
  moreover have "user_level B d (meta_of k) m n = (if n = n' \<and> w = [] then Some v else m n)"
    using k(4,6) by (simp add: user_level_def)
  ultimately show ?case using Cons.IH [OF k(7), of "user_level B d (meta_of k) m"] k(5) by auto
qed simp

lemma fold_workflow_level:
  assumes "store_total B" "stored_keys B u d ks" "plain_name n" "plain_id i"
  shows "fold (workflow_level B d i) (map meta_of ks) m n = (case m n of Some v \<Rightarrow> Some v
    | None \<Rightarrow> if secret_key u n [] i \<in> set ks then rows_of B d (secret_key u n [] i) else None)"
  using assms(2)
proof (induction ks arbitrary: m)
  case Nil
  then show ?case by (simp split: option.splits)
next
  case (Cons k ks)
  obtain n' w v where k: "k = secret_key u n' [] w" "plain_name n'" "plain_scope w" "GetKey B d k = Inr v" "rows_of B d k = Some v"
    "meta_of k = (k, \<lparr>secret_name = n', secret_user = None, secret_org_id = [], secret_workflow_id = w\<rparr>)" "stored_keys B u d ks"
    using stored_keys_Cons [OF assms(1) Cons.prems] .
  have "secret_key u n [] i = k \<longleftrightarrow> n = n' \<and> w = i"
    using secret_key_inject [OF assms(3) _ k(2,3), of i u] k(1) assms(4) by (auto simp: plain_scope_def)
  moreover have "workflow_level B d i (meta_of k) m n = (if n = n' \<and> w = i \<and> m n = None then Some v else m n)"
    using k(4,6) by (auto simp: workflow_level_def)
  ultimately show ?case using Cons.IH [OF k(7), of "workflow_level B d i (meta_of k) m"] k(5) by (auto split: option.splits)
qed

lemma secrets_stored: "store_total B \<Longrightarrow> secrets_wf B u d \<Longrightarrow> stored_keys B u d (iter_prefix B d (SecretStoragePrefix u))"
  by (auto simp: stored_keys_def secrets_wf_def set_iter_prefix)

lemma LoadSecret_folds:
  assumes "store_total B" "secrets_wf B (toAddress (task_owner t)) d" "task_owner t \<noteq> []"
  defines "ks \<equiv> iter_prefix B d (SecretStoragePrefix (toAddress (task_owner t)))"
  shows "LoadSecretForTask B macros toAddress t d =
    Inr (fold (workflow_level B d (task_id t)) (map meta_of ks) (fold (user_level B d) (map meta_of ks) macros))"
proof -
  have "\<forall>k \<in> set ks. SecretNameFromKey k \<noteq> None"
    using secrets_stored [OF assms(1,2)] secret_key_parse by (fastforce simp: stored_keys_def ks_def)
  from parse_keys_map [OF this] assms(3) show ?thesis
    unfolding LoadSecretForTask_def secret_scan [OF assms(1)] ks_def by simp
qed

lemma secrets_resolve:
  assumes "store_total B" "secrets_wf B u d" "toAddress (task_owner t) = u" "task_owner t \<noteq> []" "plain_id (task_id t)"
  shows "\<exists>m. LoadSecretForTask B macros toAddress t d = Inr m \<and> (\<forall>n. plain_name n \<longrightarrow>
    m n = (case rows_of B d (SecretStorageKeyForUser u n) of Some v \<Rightarrow> Some v
      | None \<Rightarrow> (case macros n of Some v \<Rightarrow> Some v | None \<Rightarrow> rows_of B d (SecretStorageKeyForWorkflow u n (task_id t)))))"
proof -
  let ?ks = "iter_prefix B d (SecretStoragePrefix u)"
  note st = secrets_stored [OF assms(1,2)]
  have mem: "(if secret_key u n [] w \<in> set ?ks then rows_of B d (secret_key u n [] w) else x) =
      (case rows_of B d (secret_key u n [] w) of Some v \<Rightarrow> Some v | None \<Rightarrow> x)" for n w x
    using prefix_secret_key by (auto simp: set_iter_prefix [OF assms(1)] split: option.splits)
  have "task_id t \<noteq> []" using assms(5) by (simp add: plain_id_def)
  then have key: "SecretStorageKeyForUser u n = secret_key u n [] []" "SecretStorageKeyForWorkflow u n (task_id t) = secret_key u n [] (task_id t)" for n
    by (simp_all add: secret_key_eq)
  have "fold (workflow_level B d (task_id t)) (map meta_of ?ks) (fold (user_level B d) (map meta_of ?ks) macros) n =
      (case rows_of B d (SecretStorageKeyForUser u n) of Some v \<Rightarrow> Some v
      | None \<Rightarrow> (case macros n of Some v \<Rightarrow> Some v | None \<Rightarrow> rows_of B d (SecretStorageKeyForWorkflow u n (task_id t))))"
    if "plain_name n" for n
    unfolding key fold_workflow_level [OF assms(1) st that assms(5)] fold_user_level [OF assms(1) st that] mem
    by (simp split: option.splits)
  then show ?thesis using LoadSecret_folds [OF assms(1) _ assms(4), of toAddress d macros] assms(2,3) by simp
qed

section \<open>Isolation\<close>

lemma iter_prefix_cong:
  assumes "store_total B" "\<And>k. prefix p k \<Longrightarrow> rows_of B d' k = rows_of B d k"
  shows "iter_prefix B d' p = iter_prefix B d p"
proof -
  have "set (iter_prefix B d' p) = set (iter_prefix B d p)"
    using assms(2) by (auto simp: set_iter_prefix [OF assms(1)])
  then show ?thesis
    using iter_prefix_sorted [OF total_badger [OF assms(1)]] by (metis strict_sorted_equal)
qed

lemma LoadSecret_cong:
  assumes "store_total B" "\<And>k. prefix (SecretStoragePrefix (toAddress (task_owner t))) k \<Longrightarrow> rows_of B d' k = rows_of B d k"
  shows "LoadSecretForTask B macros toAddress t d' = LoadSecretForTask B macros toAddress t d"
proof -
  let ?ks = "iter_prefix B d (SecretStoragePrefix (toAddress (task_owner t)))"
  have g: "GetKey B d' k = GetKey B d k" if "k \<in> set ?ks" for k
    using that assms(2) by (simp add: total_GetKey [OF assms(1)] set_iter_prefix [OF assms(1)])
  have "fold (workflow_level B d' i) ms (fold (user_level B d') ms macros) =
      fold (workflow_level B d i) ms (fold (user_level B d) ms macros)" if "parse_keys ?ks = Some ms" for ms i
  proof -
    have e: "\<forall>x \<in> set ms. user_level B d' x = user_level B d x \<and> workflow_level B d' i x = workflow_level B d i x"
      using arg_cong [OF parse_keys_fst [OF that], of set] g by (force simp: user_level_def workflow_level_def fun_eq_iff)
    then have "fold (user_level B d') ms macros = fold (user_level B d) ms macros" by (intro fold_cong) auto
    then show ?thesis using e by (intro fold_cong) auto
  qed
  moreover have "iter_prefix B d' (SecretStoragePrefix (toAddress (task_owner t))) = ?ks"
    by (rule iter_prefix_cong [OF assms(1)]) (rule assms(2))
  ultimately show ?thesis unfolding LoadSecretForTask_def secret_scan [OF assms(1)] by (simp split: option.splits)
qed

lemma CreateSecret_rows:
  assumes "store_total B" "CreateSecret B u r d = (d', Inr True)"
  shows "rows_of B d' = (rows_of B d)(secret_key u (sr_name r) (sr_org r) (sr_workflow r) \<mapsto> sr_value r)"
  using assms(2) total_BatchWrite [OF assms(1), of d "[(secret_key u (sr_name r) (sr_org r) (sr_workflow r), sr_value r)]"]
  by (auto simp: CreateSecret_def split: if_splits option.splits sum.splits)

lemma hex_prefix: "prefix (lower_hex v) (join (lower_hex u) y) \<Longrightarrow> u = v"
proof -
  assume "prefix (lower_hex v) (join (lower_hex u) y)"
  then obtain r where "lower_hex u @ CHR '':'' # y = lower_hex v @ r" by (auto simp: join_def prefix_def)
  then have "lower_hex u = lower_hex v" by (simp add: append_eq_append_conv)
  then show ?thesis by simp
qed

lemma secret_key_owner:
  assumes "CHR '':'' \<notin> set org" "prefix (SecretStoragePrefix v) (secret_key u n org w)"
  shows "u = v"
  using assms
  by (auto simp: secret_key_def SecretStorageKey_def SecretStorageKeyForUser_def SecretStorageKeyForOrg_def
      SecretStorageKeyForWorkflow_def SecretStoragePrefix_def key_simps split: if_splits dest: hex_prefix)

section \<open>Stores that plain requests leave\<close>

definition plain_request :: "secret_req \<Rightarrow> bool" where
  "plain_request r \<longleftrightarrow> plain_name (sr_name r) \<and> plain_scope (sr_workflow r) \<and> CHR '':'' \<notin> set (sr_org r)"

text \<open>
  The requests that change secrets, by any user, when their names and workflow ids are plain and their organisation ids
  have no colon; a deletion may name anything. The code checks none of this. Every other handler leaves the rows of
  secrets as they are.
\<close>

inductive secret_step :: "'d badger \<Rightarrow> 'd \<Rightarrow> 'd \<Rightarrow> bool" for B where
  create: "CreateSecret B u r d = (d', r1) \<Longrightarrow> plain_request r \<Longrightarrow> secret_step B d d'"
| update: "UpdateSecret B u r d = (d', r2) \<Longrightarrow> plain_request r \<Longrightarrow> secret_step B d d'"
| put: "PutSecret B u r d = (d', r3) \<Longrightarrow> plain_request r \<Longrightarrow> secret_step B d d'"
| delete: "DeleteSecret B u name org workflow d = (d', r4) \<Longrightarrow> secret_step B d d'"
| other: "\<forall>k. prefix ''secret:'' k \<longrightarrow> rows_of B d' k = rows_of B d k \<Longrightarrow> secret_step B d d'"

definition plain_secrets :: "'d badger \<Rightarrow> 'd \<Rightarrow> bool" where
  "plain_secrets B d \<longleftrightarrow> (\<exists>d0. (\<forall>k. prefix ''secret:'' k \<longrightarrow> rows_of B d0 k = None) \<and> (secret_step B)\<^sup>*\<^sup>* d0 d)"

lemma secret_prefix: "prefix (SecretStoragePrefix u) k \<Longrightarrow> prefix ''secret:'' k"
  by (auto simp: SecretStoragePrefix_def join_def prefix_def)

lemma plain_request_key:
  assumes "plain_request r" "prefix (SecretStoragePrefix v) (secret_key u (sr_name r) (sr_org r) (sr_workflow r))"
  shows "\<exists>n w. secret_key u (sr_name r) (sr_org r) (sr_workflow r) = secret_key v n [] w \<and> plain_name n \<and> plain_scope w"
proof -
  have uv: "u = v" using secret_key_owner [OF _ assms(2)] assms(1) by (simp add: plain_request_def)
  show ?thesis
  proof (cases "sr_workflow r \<noteq> [] \<or> sr_org r = []")
    case True
    then have "secret_key u (sr_name r) (sr_org r) (sr_workflow r) = secret_key v (sr_name r) [] (sr_workflow r)"
      using uv by (auto simp: secret_key_def SecretStorageKey_def)
    with assms(1) show ?thesis unfolding plain_request_def by blast
  next
    case False
    then have k: "secret_key u (sr_name r) (sr_org r) (sr_workflow r) = SecretStorageKeyForOrg v (sr_org r) (sr_name r)"
      using uv by (simp add: secret_key_def SecretStorageKey_def)
    with assms have "sr_org r = ''_''"
      by (auto simp: plain_request_def SecretStorageKeyForOrg_def SecretStoragePrefix_def key_simps)
    then have "SecretStorageKeyForOrg v (sr_org r) (sr_name r) = secret_key v (sr_name r) [] []"
      by (simp add: secret_key_eq SecretStorageKeyForOrg_def SecretStorageKeyForUser_def)
    with k assms(1) show ?thesis unfolding plain_request_def plain_scope_def by metis
  qed
qed

lemma write_keeps_wf:
  assumes "plain_request r" "\<forall>u. secrets_wf B u d"
    and "rows_of B d' = rows_of B d \<or> rows_of B d' = (rows_of B d)(secret_key u (sr_name r) (sr_org r) (sr_workflow r) \<mapsto> x)"
  shows "\<forall>u. secrets_wf B u d'"
  unfolding secrets_wf_def
proof (intro allI impI)
  fix v k assume k: "prefix (SecretStoragePrefix v) k" "rows_of B d' k \<noteq> None"
  show "\<exists>n w. k = secret_key v n [] w \<and> plain_name n \<and> plain_scope w"
  proof (cases "k = secret_key u (sr_name r) (sr_org r) (sr_workflow r)")
    case True
    with plain_request_key [OF assms(1)] k(1) show ?thesis by simp
  next
    case False
    with assms(3) k(2) have "rows_of B d k \<noteq> None" by auto
    with assms(2) k(1) show ?thesis unfolding secrets_wf_def by blast
  qed
qed

lemma CreateSecret_keeps:
  assumes "store_total B" "plain_request r" "\<forall>u. secrets_wf B u d" "CreateSecret B u r d = (d', res)"
  shows "\<forall>u. secrets_wf B u d'"
proof -
  let ?k = "secret_key u (sr_name r) (sr_org r) (sr_workflow r)"
  have "rows_of B d' = rows_of B d \<or> rows_of B d' = (rows_of B d)(?k \<mapsto> sr_value r)"
    using assms(4) total_BatchWrite [OF assms(1), of d "[(?k, sr_value r)]"]
    by (auto simp: CreateSecret_def split: if_splits option.splits)
  then show ?thesis by (rule write_keeps_wf [OF assms(2,3)])
qed

lemma UpdateSecret_keeps:
  assumes "store_total B" "plain_request r" "\<forall>u. secrets_wf B u d" "UpdateSecret B u r d = (d', res)"
  shows "\<forall>u. secrets_wf B u d'"
proof -
  let ?k = "secret_key u (sr_name r) (sr_org r) (sr_workflow r)"
  have "rows_of B d' = rows_of B d \<or> rows_of B d' = (rows_of B d)(?k \<mapsto> sr_value r)"
    using assms(4) total_BatchWrite [OF assms(1), of d "[(?k, sr_value r)]"]
    by (auto simp: UpdateSecret_def Let_def split: if_splits option.splits sum.splits)
  then show ?thesis by (rule write_keeps_wf [OF assms(2,3)])
qed

lemma PutSecret_keeps:
  assumes "store_total B" "plain_request r" "\<forall>u. secrets_wf B u d" "PutSecret B u r d = (d', res)"
  shows "\<forall>u. secrets_wf B u d'"
proof -
  obtain d1 r1 where c: "CreateSecret B u r d = (d1, r1)" by fastforce
  obtain d2 r2 where p: "UpdateSecret B u r d1 = (d2, r2)" by fastforce
  note one = CreateSecret_keeps [OF assms(1-3) c]
  from assms(4) c p have "d' = d \<or> d' = d1 \<or> d' = d2" by (auto simp: PutSecret_def split: if_splits sum.splits)
  with assms(3) one UpdateSecret_keeps [OF assms(1,2) one p] show ?thesis by auto
qed

lemma DeleteSecret_keeps:
  assumes "store_total B" "\<forall>u. secrets_wf B u d" "DeleteSecret B u name org workflow d = (d', res)"
  shows "\<forall>u. secrets_wf B u d'"
proof -
  have del: "\<forall>k. rows_of B d' k \<noteq> None \<longrightarrow> rows_of B d k \<noteq> None" if "delete_key B key o1 w1 d = (d', x)" for key o1 w1 x
    using that total_Delete [OF assms(1), of d key] by (auto simp: delete_key_def split: if_splits)
  have "\<forall>k. rows_of B d' k \<noteq> None \<longrightarrow> rows_of B d k \<noteq> None"
    using assms(3) by (auto simp: DeleteSecret_def Let_def split: sum.splits if_splits option.splits dest: del)
  then show ?thesis using assms(2) unfolding secrets_wf_def by metis
qed

lemma secret_step_keeps:
  assumes "store_total B" "secret_step B d d'" "\<forall>u. secrets_wf B u d"
  shows "\<forall>u. secrets_wf B u d'"
  using assms(2)
proof cases
  case other
  then show ?thesis using assms(3) secret_prefix unfolding secrets_wf_def by metis
next
  case create
  then show ?thesis using CreateSecret_keeps [OF assms(1) _ assms(3)] by blast
next
  case update
  then show ?thesis using UpdateSecret_keeps [OF assms(1) _ assms(3)] by blast
next
  case put
  then show ?thesis using PutSecret_keeps [OF assms(1) _ assms(3)] by blast
next
  case delete
  then show ?thesis by (rule DeleteSecret_keeps [OF assms(1,3)])
qed

lemma plain_secrets_wf: "store_total B \<Longrightarrow> plain_secrets B d \<Longrightarrow> secrets_wf B u d"
proof -
  assume B: "store_total B" and "plain_secrets B d"
  then obtain d0 where d0: "\<forall>k. prefix ''secret:'' k \<longrightarrow> rows_of B d0 k = None" "(secret_step B)\<^sup>*\<^sup>* d0 d"
    unfolding plain_secrets_def by blast
  from d0(2) have "\<forall>u. secrets_wf B u d"
  proof (induction rule: rtranclp_induct)
    case base
    then show ?case using d0(1) secret_prefix unfolding secrets_wf_def by metis
  next
    case (step d1 d2)
    then show ?case using secret_step_keeps [OF B] by blast
  qed
  then show ?thesis by blast
qed

text \<open>
C16: Take a store whose secrets were all written by requests with plain names (letters, digits, underscores), plain
workflow ids and organisation ids without a colon, on a database that never fails. Then a run of a workflow with a plain
id sees under every plain name the secret its owner stored for all workflows; without one, the secret of the
configuration; and only without both the secret stored for this workflow. So secrets stored for other workflows and the
secrets of other users are not seen. An organisation id with colons breaks this: it writes into the secrets of another
user.
\<close>

theorem secrets_resolve_by_level:
  assumes "store_total B" "plain_secrets B d" "toAddress (task_owner t) = u" "task_owner t \<noteq> []" "plain_id (task_id t)"
  shows "\<exists>m. LoadSecretForTask B macros toAddress t d = Inr m \<and> (\<forall>n. plain_name n \<longrightarrow>
    m n = (case rows_of B d (SecretStorageKeyForUser u n) of Some v \<Rightarrow> Some v
      | None \<Rightarrow> (case macros n of Some v \<Rightarrow> Some v | None \<Rightarrow> rows_of B d (SecretStorageKeyForWorkflow u n (task_id t)))))"
  by (rule secrets_resolve [where toAddress = toAddress and t = t, OF assms(1) plain_secrets_wf [OF assms(1,2)] assms(3-5)])

text \<open>
C15: A secret stored under an organisation id without a colon, on a database that never fails, changes nothing for the
workflows of any other user. And take a store whose secrets were all written by requests with plain names (letters,
digits, underscores), plain workflow ids and organisation ids without a colon: there, a secret with a plain name stored
for all workflows of its owner is from then on what every run of the owner's workflows (with plain ids) sees under that
name, whatever the configuration holds.
\<close>

theorem secrets_stay_with_owner:
  assumes "store_total B" "CreateSecret B u r d = (d', Inr True)" "CHR '':'' \<notin> set (sr_org r)"
  shows "(\<forall>t macros. toAddress (task_owner t) \<noteq> u \<longrightarrow>
      LoadSecretForTask B macros toAddress t d' = LoadSecretForTask B macros toAddress t d) \<and>
    (plain_secrets B d \<and> sr_org r = [] \<and> sr_workflow r = [] \<and> plain_name (sr_name r) \<longrightarrow>
      plain_secrets B d' \<and> (\<forall>t macros. toAddress (task_owner t) = u \<and> task_owner t \<noteq> [] \<and> plain_id (task_id t) \<longrightarrow>
        (\<exists>m. LoadSecretForTask B macros toAddress t d' = Inr m \<and> m (sr_name r) = Some (sr_value r))))"
proof (intro conjI allI impI)
  note rows = CreateSecret_rows [OF assms(1,2)]
  fix t :: task and macros assume "toAddress (task_owner t) \<noteq> u"
  then have "\<not> prefix (SecretStoragePrefix (toAddress (task_owner t))) (secret_key u (sr_name r) (sr_org r) (sr_workflow r))"
    using secret_key_owner [OF assms(3)] by metis
  then show "LoadSecretForTask B macros toAddress t d' = LoadSecretForTask B macros toAddress t d"
    by (intro LoadSecret_cong [OF assms(1)]) (auto simp: rows)
next
  note rows = CreateSecret_rows [OF assms(1,2)]
  assume h: "plain_secrets B d \<and> sr_org r = [] \<and> sr_workflow r = [] \<and> plain_name (sr_name r)"
  then have "secret_step B d d'" by (intro secret_step.create [OF assms(2)]) (simp add: plain_request_def plain_scope_def)
  with h show p: "plain_secrets B d'" unfolding plain_secrets_def by (meson rtranclp.rtrancl_into_rtrancl)
  fix t :: task and macros assume t: "toAddress (task_owner t) = u \<and> task_owner t \<noteq> [] \<and> plain_id (task_id t)"
  have "rows_of B d' (SecretStorageKeyForUser u (sr_name r)) = Some (sr_value r)"
    using h by (simp add: rows secret_key_eq)
  then show "\<exists>m. LoadSecretForTask B macros toAddress t d' = Inr m \<and> m (sr_name r) = Some (sr_value r)"
    using secrets_resolve [OF assms(1) plain_secrets_wf [OF assms(1) p], of toAddress t u macros] t h by fastforce
qed

section \<open>The listing\<close>

lemma secret_loop_collects:
  assumes "\<forall>k \<in> set ks. SecretNameFromKey k \<noteq> None" "processed \<le> limit"
  shows "secret_loop c limit cb ks processed items =
    (let ls = filter (\<lambda>k. \<not> secret_skip c k) ks
     in Inr (items @ map (\<lambda>k. (k, to_secret_item cb (the (SecretNameFromKey k)))) (take (limit - processed) ls), limit - processed < length ls))"
  using assms
proof (induction ks arbitrary: processed items)
  case (Cons k ks)
  obtain s where s: "SecretNameFromKey k = Some s" using Cons.prems(1) by auto
  show ?case
  proof (cases "secret_skip c k \<or> limit = processed")
    case False
    then have "limit - processed = Suc (limit - Suc processed)" using Cons.prems(2) by arith
    with False Cons.IH [of "Suc processed"] Cons.prems s show ?thesis by (auto simp: Let_def)
  qed (use Cons s in \<open>auto simp: Let_def\<close>)
qed (simp add: Let_def)

lemma filter_sorted_nth:
  fixes ks :: "string list"
  assumes "sorted_wrt (<) ks" "i < length ks"
  shows "filter (\<lambda>k. \<not> k \<le> ks ! i) ks = drop (Suc i) ks" "filter (\<lambda>k. \<not> ks ! i \<le> k) ks = take i ks"
proof -
  have s: "sorted_wrt (<) (take i ks @ ks ! i # drop (Suc i) ks)" using assms by (simp add: id_take_nth_drop [symmetric])
  have "filter (\<lambda>k. \<not> k \<le> ks ! i) (take i ks @ ks ! i # drop (Suc i) ks) = drop (Suc i) ks"
    "filter (\<lambda>k. \<not> ks ! i \<le> k) (take i ks @ ks ! i # drop (Suc i) ks) = take i ks"
    using s by (auto simp: sorted_wrt_append filter_empty_conv filter_id_conv not_le)
  then show "filter (\<lambda>k. \<not> k \<le> ks ! i) ks = drop (Suc i) ks" "filter (\<lambda>k. \<not> ks ! i \<le> k) ks = take i ks"
    using assms(2) by (simp_all add: id_take_nth_drop [symmetric])
qed

lemma ascii_lower_hex: "ascii (lower_hex a)"
proof -
  have "(of_char c :: nat) < 128" if c: "c \<in> set (hex_digits 40 (unat a))" for c
    using hex_digits_set [OF c] by (auto simp: of_char_hex_digit)
  then show ?thesis by (auto simp: lower_hex_def ascii_def list_all_iff)
qed

lemma secret_key_text:
  assumes "plain_name n" "plain_scope w"
  shows "ascii (secret_key u n [] w)" "secret_key u n [] w \<noteq> []" "secret_key u n [] w \<noteq> ''0''"
  using plain_nameD(3) [OF assms(1)] plain_scopeD [OF assms(2)] ascii_lower_hex [of u]
  by (simp_all add: secret_key_eq SecretStorageKeyForUser_def SecretStorageKeyForWorkflow_def ascii_def join_def)

definition secret_at :: "address option \<Rightarrow> string \<Rightarrow> secret_item" where
  "secret_at cb k = to_secret_item cb (the (SecretNameFromKey k))"

definition secret_cursor :: "page_env \<Rightarrow> address \<Rightarrow> secret_item \<Rightarrow> string" where
  "secret_cursor P u x = CreateNextCursor P (secret_key u (si_name x) [] (si_workflow x))"

definition secrets_listable :: "page_env \<Rightarrow> 'd badger \<Rightarrow> address \<Rightarrow> 'd \<Rightarrow> bool" where
  "secrets_listable P B u d \<longleftrightarrow> store_total B \<and> page_env_ok P \<and> secrets_wf B u d"

definition secret_list :: "'d badger \<Rightarrow> address \<Rightarrow> address option \<Rightarrow> 'd \<Rightarrow> secret_item list" where
  "secret_list B u cb d = map (secret_at cb) (iter_prefix B d (SecretStoragePrefix u))"

definition fetch_secrets ::
  "page_env \<Rightarrow> 'd badger \<Rightarrow> address \<Rightarrow> string \<Rightarrow> bool \<Rightarrow> 'd \<Rightarrow> string \<Rightarrow> string \<Rightarrow> int \<Rightarrow> secret_error + secret_item page" where
  "fetch_secrets P B u w created d before after limit = ListSecrets P B u
     \<lparr>ls_workflow = w, ls_before = before, ls_after = after, ls_limit = limit, ls_created_by = created\<rparr> d"

lemma secret_at_cursor:
  assumes "store_total B" "secrets_wf B u d" "k \<in> set (iter_prefix B d (SecretStoragePrefix u))"
  shows "secret_cursor P u (secret_at cb k) = CreateNextCursor P k" "SecretNameFromKey k \<noteq> None" "ascii k" "k \<noteq> []" "k \<noteq> ''0''"
proof -
  obtain n w where k: "k = secret_key u n [] w" "plain_name n" "plain_scope w" using secret_scan_key [OF assms] by metis
  show "secret_cursor P u (secret_at cb k) = CreateNextCursor P k" "SecretNameFromKey k \<noteq> None"
    using secret_key_parse [OF k(2,3), of u] k(1) by (simp_all add: secret_cursor_def secret_at_def to_secret_item_def)
  show "ascii k" "k \<noteq> []" "k \<noteq> ''0''" using secret_key_text [OF k(2,3), of u] k(1) by simp_all
qed

lemma fetch_secrets_loop:
  assumes "secrets_listable P B u d" "SetupPagination P before after limit = Inr (c, page_size limit)"
  defines "ls \<equiv> filter (\<lambda>k. \<not> secret_skip c k) (iter_prefix B d (SecretStoragePrefix u))"
  shows "fetch_secrets P B u w created d before after limit = Inr (secret_page P c
    (map (\<lambda>k. (k, secret_at (creator u created) k)) (take (page_size limit) ls)) (page_size limit < length ls))"
proof -
  have t: "store_total B" and wf: "secrets_wf B u d" using assms(1) by (simp_all add: secrets_listable_def)
  have "sort (ListKeysMulti B d [SecretStoragePrefix u]) = iter_prefix B d (SecretStoragePrefix u)"
    using iter_prefix_sorted [OF total_badger [OF t], of d "SecretStoragePrefix u"]
    by (simp add: secret_scan [OF t] sorted_sort_id strict_sorted_iff del: ListKeysMulti.simps)
  moreover have "\<forall>k \<in> set (iter_prefix B d (SecretStoragePrefix u)). SecretNameFromKey k \<noteq> None"
    using secret_at_cursor(2) [OF t wf] by blast
  ultimately show ?thesis
    using assms(2) secret_loop_collects [of "iter_prefix B d (SecretStoragePrefix u)" 0 "page_size limit" c]
    by (simp add: fetch_secrets_def ListSecrets_def Let_def ls_def secret_at_def del: ListKeysMulti.simps)
qed

lemma secret_page_forward:
  assumes "Direction c = CursorNext" "0 \<le> limit" "\<forall>k \<in> set ls. cur (f k) = CreateNextCursor P k"
  shows "\<exists>p. (Inr (secret_page P c (map (\<lambda>k. (k, f k)) (take (page_size limit) ls)) (page_size limit < length ls)) :: secret_error + secret_item page) = Inr p \<and>
    Items p = take (page_size limit) (map f ls) \<and> HasNextPage p = (page_size limit < length (map f ls)) \<and>
    (Items p \<noteq> [] \<longrightarrow> StartCursor p = cur (hd (Items p)) \<and> EndCursor p = cur (last (Items p)))"
proof -
  let ?ts = "take (page_size limit) ls"
  have ne: "?ts = [] \<longleftrightarrow> ls = []" using page_size_pos [OF assms(2)] by simp
  show ?thesis
  proof (cases "ls = []")
    case False
    then have "hd ?ts \<in> set ?ts" "last ?ts \<in> set ?ts" using ne hd_in_set last_in_set by metis+
    then have "hd ?ts \<in> set ls" "last ?ts \<in> set ls" by (blast dest: in_set_takeD)+
    then have "cur (f (hd ?ts)) = CreateNextCursor P (hd ?ts)" "cur (f (last ?ts)) = CreateNextCursor P (last ?ts)" using assms(3) by blast+
    then show ?thesis using False ne assms(1)
      by (simp add: secret_page_def take_map hd_map last_map comp_def del: take_eq_Nil take_eq_Nil2 hd_take)
  qed (simp add: secret_page_def)
qed

interpretation secrets: forward_listing "secrets_listable P B u" "secret_list B u (creator u created)"
  "secret_cursor P u" "fetch_secrets P B u w created" for P B u w created
proof unfold_locales
  fix d and limit :: int and i
  let ?ks = "iter_prefix B d (SecretStoragePrefix u)" and ?f = "secret_at (creator u created)"
  assume v: "secrets_listable P B u d" and l: "0 \<le> limit"
  then have t: "store_total B" and ok: "page_env_ok P" and wf: "secrets_wf B u d" by (simp_all add: secrets_listable_def)
  note key = secret_at_cursor [OF t wf]
  have cur: "\<forall>k \<in> set ls. secret_cursor P u (?f k) = CreateNextCursor P k" if "set ls \<subseteq> set ?ks" for ls
    using key(1) that by blast
  have "\<not> secret_skip zero_cursor k" for k by (simp add: secret_skip_def IsZero_def zero_cursor_def)
  then show "\<exists>p. fetch_secrets P B u w created d [] [] limit = Inr p \<and>
      Items p = take (page_size limit) (secret_list B u (creator u created) d) \<and>
      HasNextPage p = (page_size limit < length (secret_list B u (creator u created) d)) \<and>
      (Items p \<noteq> [] \<longrightarrow> StartCursor p = secret_cursor P u (hd (Items p)) \<and> EndCursor p = secret_cursor P u (last (Items p)))"
    using secret_page_forward [of zero_cursor limit ?ks "secret_cursor P u" ?f P] l cur [of ?ks]
    unfolding fetch_secrets_loop [OF v SetupPagination_start [OF l]] secret_list_def by (simp add: zero_cursor_def)
  assume i: "i < length (secret_list B u (creator u created) d)"
  then have ki: "?ks ! i \<in> set ?ks" "i < length ?ks" by (simp_all add: secret_list_def)
  let ?c = "NewCursor CursorNext (?ks ! i)"
  have "secret_skip ?c k \<longleftrightarrow> k \<le> ?ks ! i" for k
    using key(5) [OF ki(1)] by (simp add: secret_skip_def IsZero_def NewCursor_def zero_cursor_def)
  then have ls: "filter (\<lambda>k. \<not> secret_skip ?c k) ?ks = drop (Suc i) ?ks"
    using filter_sorted_nth(1) [OF iter_prefix_sorted [OF total_badger [OF t]] ki(2)] by simp
  have c: "secret_cursor P u (secret_list B u (creator u created) d ! i) = CreateNextCursor P (?ks ! i)"
    using ki key(1) [OF ki(1)] by (simp add: secret_list_def)
  show "\<exists>p. fetch_secrets P B u w created d [] (secret_cursor P u (secret_list B u (creator u created) d ! i)) limit = Inr p \<and>
      Items p = take (page_size limit) (drop (Suc i) (secret_list B u (creator u created) d)) \<and>
      HasNextPage p = (page_size limit < length (drop (Suc i) (secret_list B u (creator u created) d))) \<and>
      (Items p \<noteq> [] \<longrightarrow> StartCursor p = secret_cursor P u (hd (Items p)) \<and> EndCursor p = secret_cursor P u (last (Items p)))"
    using secret_page_forward [of ?c limit "drop (Suc i) ?ks" "secret_cursor P u" ?f P] l cur [OF set_drop_subset]
    unfolding c fetch_secrets_loop [OF v SetupPagination_cursor(1) [OF ok key(3,4) [OF ki(1)] l]] ls unfolding secret_list_def
    by (simp add: NewCursor_def zero_cursor_def drop_map)
qed

text \<open>Following the cursors lists all secrets of a user; going back from an item starts again at the first one.\<close>

lemma secrets_listed_once:
  assumes "secrets_listable P B u d" "0 \<le> limit"
  shows "walk (\<lambda>after. ListSecrets P B u \<lparr>ls_workflow = w, ls_before = [], ls_after = after, ls_limit = limit, ls_created_by = created\<rparr> d)
    (Suc (length (secret_list B u (creator u created) d))) [] =
    Some (Inr (secret_list B u (creator u created) d))"
  using secrets.walk_lists_content [OF assms, where created = created and w = w] unfolding fetch_secrets_def by blast

lemma secrets_before_restarts:
  assumes "secrets_listable P B u d" "0 \<le> limit" "i < length (secret_list B u None d)"
  shows "\<exists>p. ListSecrets P B u \<lparr>ls_workflow = w, ls_before = secret_cursor P u (secret_list B u None d ! i), ls_after = [], ls_limit = limit,
      ls_created_by = False\<rparr> d = Inr p \<and> Items p = take (page_size limit) (take i (secret_list B u None d))"
proof -
  have t: "store_total B" and ok: "page_env_ok P" and wf: "secrets_wf B u d" using assms(1) by (simp_all add: secrets_listable_def)
  let ?ks = "iter_prefix B d (SecretStoragePrefix u)"
  have ki: "?ks ! i \<in> set ?ks" "i < length ?ks" using assms(3) by (simp_all add: secret_list_def)
  note key = secret_at_cursor [OF t wf ki(1)]
  let ?c = "NewCursor CursorPrevious (?ks ! i)"
  have "secret_skip ?c k \<longleftrightarrow> ?ks ! i \<le> k" for k
    using key(5) by (simp add: secret_skip_def IsZero_def NewCursor_def zero_cursor_def)
  then have ls: "filter (\<lambda>k. \<not> secret_skip ?c k) ?ks = take i ?ks"
    using filter_sorted_nth(2) [OF iter_prefix_sorted [OF total_badger [OF t]] ki(2)] by simp
  have c: "secret_cursor P u (secret_list B u None d ! i) = CreateNextCursor P (?ks ! i)"
    using ki key(1) by (simp add: secret_list_def)
  from fetch_secrets_loop [OF assms(1) SetupPagination_cursor(2) [OF ok key(3,4) assms(2)], of w False]
  show ?thesis unfolding c fetch_secrets_def ls by (auto simp: secret_page_def secret_list_def take_map creator_def comp_def)
qed

section \<open>Samples\<close>

definition sample_secret_task :: task where
  "sample_secret_task = example_task\<lparr>task_id := sample_wf\<rparr>"

lemma sample_secret_task: "task_owner sample_secret_task \<noteq> []" "plain_id (task_id sample_secret_task)"
  using sample_ids(1) by (simp_all add: sample_secret_task_def example_task_def)

definition sample_secrets :: "(bytes \<times> bytes) list" where
  "sample_secrets = [(secret_key 7 ''api'' [] [], ''mine''), (secret_key 7 ''bot'' [] sample_wf, ''here'')]"

lemma sample_secret_rows: "rows_of mem_badger d = map_of d"
  by (simp add: rows_of_def mem_badger_def fun_eq_iff split: option.splits)

lemma sample_names: "plain_name ''api''" "plain_name ''bot''" "plain_scope []" "plain_scope sample_wf"
  using sample_ids(1) by (simp_all add: plain_name_def plain_scope_def is_digit_def is_alpha_def)

lemma sample_plain_secrets: "plain_secrets mem_badger sample_secrets"
proof -
  have req: "\<exists>d'. CreateSecret mem_badger 7 \<lparr>sr_name = n, sr_value = v, sr_org = [], sr_workflow = w\<rparr> d = (d', Inr True)"
    if "n \<in> {''api'', ''bot''}" for n v w d
    using that total_BatchWrite [OF mem_badger_total, of d "[(secret_key 7 n [] w, v)]"]
    by (auto simp: CreateSecret_def to_lower_def lower_char_def rejectReservedSecretName_def
        isPlatformSecretName_def platformSecretNames_def MaxSecretNameLength_def)
  let ?a = "\<lparr>sr_name = ''api'', sr_value = ''mine'', sr_org = [], sr_workflow = []\<rparr>"
  let ?b = "\<lparr>sr_name = ''bot'', sr_value = ''here'', sr_org = [], sr_workflow = sample_wf\<rparr>"
  obtain d1 where d1: "CreateSecret mem_badger 7 ?a [] = (d1, Inr True)" using req by blast
  obtain d2 where d2: "CreateSecret mem_badger 7 ?b d1 = (d2, Inr True)" using req by blast
  have "secret_key 7 ''api'' [] [] \<noteq> secret_key 7 ''bot'' [] sample_wf" by (simp add: secret_key_inject sample_names)
  then have "rows_of mem_badger sample_secrets = rows_of mem_badger d2"
    using CreateSecret_rows [OF mem_badger_total d1] CreateSecret_rows [OF mem_badger_total d2]
    by (auto simp: sample_secret_rows sample_secrets_def)
  then have "secret_step mem_badger d2 sample_secrets" by (intro secret_step.other) simp
  moreover have "secret_step mem_badger [] d1" "secret_step mem_badger d1 d2"
    using secret_step.create [OF d1] secret_step.create [OF d2] sample_names by (simp_all add: plain_request_def)
  ultimately have "(secret_step mem_badger)\<^sup>*\<^sup>* [] sample_secrets" by (meson rtranclp.rtrancl_into_rtrancl rtranclp.rtrancl_refl)
  then show ?thesis unfolding plain_secrets_def by (intro exI [of _ "[]"]) (simp add: sample_secret_rows)
qed

theorem secrets_resolve_by_level_witness:
  "\<exists>m. LoadSecretForTask mem_badger [''bot'' \<mapsto> ''shared''] (\<lambda>_. 7) sample_secret_task sample_secrets = Inr m \<and>
    m ''api'' = Some ''mine'' \<and> m ''bot'' = Some ''shared''"
proof -
  have "secret_key 7 ''bot'' [] [] \<noteq> secret_key 7 ''api'' [] []" "secret_key 7 ''bot'' [] [] \<noteq> secret_key 7 ''bot'' [] sample_wf"
    by (simp_all add: secret_key_inject sample_names) (simp add: sample_wf_def)
  then have "map_of sample_secrets (SecretStorageKeyForUser 7 ''api'') = Some ''mine''"
    "map_of sample_secrets (SecretStorageKeyForUser 7 ''bot'') = None"
    by (simp_all add: sample_secrets_def secret_key_eq)
  with secrets_resolve_by_level [OF mem_badger_total sample_plain_secrets _ sample_secret_task, of "\<lambda>_. 7" 7 "[''bot'' \<mapsto> ''shared'']"] sample_names
  show ?thesis by (force simp: sample_secret_rows)
qed

definition sample_secret_req :: secret_req where
  "sample_secret_req = \<lparr>sr_name = ''api'', sr_value = ''new'', sr_org = [], sr_workflow = []\<rparr>"

lemma sample_secret_created: "\<exists>d'. CreateSecret mem_badger 7 sample_secret_req sample_secrets = (d', Inr True)"
  using total_BatchWrite [OF mem_badger_total, of sample_secrets "[(secret_key 7 ''api'' [] [], ''new'')]"]
  by (auto simp: CreateSecret_def sample_secret_req_def to_lower_def lower_char_def rejectReservedSecretName_def
      isPlatformSecretName_def platformSecretNames_def MaxSecretNameLength_def)

theorem secrets_stay_with_owner_witness:
  "\<exists>d' m. CreateSecret mem_badger 7 sample_secret_req sample_secrets = (d', Inr True) \<and>
    LoadSecretForTask mem_badger Map.empty (\<lambda>_. 7) sample_secret_task d' = Inr m \<and> m ''api'' = Some ''new''"
proof -
  obtain d' where c: "CreateSecret mem_badger 7 sample_secret_req sample_secrets = (d', Inr True)" using sample_secret_created by blast
  from secrets_stay_with_owner [OF mem_badger_total c, of "\<lambda>_. 7"] sample_plain_secrets sample_names sample_secret_task
  have "\<exists>m. LoadSecretForTask mem_badger Map.empty (\<lambda>_. 7) sample_secret_task d' = Inr m \<and> m ''api'' = Some ''new''"
    by (simp add: sample_secret_req_def)
  with c show ?thesis by blast
qed

section \<open>Other behaviour\<close>

text \<open>
  An organisation id with colons in it reaches into the secrets of another user: the key it gives starts with the prefix
  of that user, and its fourth and fifth parts are chosen by the sender. The runs of the other user then see the value,
  in place of the secret of the configuration.
\<close>

definition crafted_org :: "address \<Rightarrow> string \<Rightarrow> string" where
  "crafted_org victim name = join ''_'' (join (lower_hex victim) (join ''_'' name))"

lemma crafted_org_injects:
  assumes "store_total B" "CreateSecret B u r d = (d', Inr True)" "sr_workflow r = []" "sr_org r = crafted_org v n" "plain_name n"
    and "\<forall>k. prefix (SecretStoragePrefix v) k \<longrightarrow> rows_of B d k = None"
    and "toAddress (task_owner t) = v" "task_owner t \<noteq> []" "plain_id (task_id t)"
  shows "LoadSecretForTask B macros toAddress t d' = Inr (macros(n \<mapsto> sr_value r))"
proof -
  let ?k = "secret_key u (sr_name r) (sr_org r) (sr_workflow r)"
  have k: "?k = join ''secret'' (join ''_'' (join (lower_hex v) (join ''_'' (join n (join (lower_hex u) (join ''_'' (sr_name r)))))))"
    using assms(3,4) by (simp add: secret_key_def SecretStorageKey_def SecretStorageKeyForOrg_def crafted_org_def) (simp add: join_def)
  have rows: "rows_of B d' = (rows_of B d)(?k \<mapsto> sr_value r)" by (rule CreateSecret_rows [OF assms(1,2)])
  have "prefix (SecretStoragePrefix v) ?k" unfolding k by (simp add: SecretStoragePrefix_def) (simp add: join_def)
  then have "set (iter_prefix B d' (SecretStoragePrefix v)) = {?k}"
    using assms(6) by (auto simp: set_iter_prefix [OF assms(1)] rows split: if_splits)
  then have ks: "iter_prefix B d' (SecretStoragePrefix v) = [?k]"
    using strict_sorted_equal [OF iter_prefix_sorted [OF total_badger [OF assms(1)], of d' "SecretStoragePrefix v"], of "[?k]"] by simp
  have p: "SecretNameFromKey ?k = Some \<lparr>secret_name = n, secret_user = None, secret_org_id = [], secret_workflow_id = []\<rparr>"
    using plain_nameD(2) [OF assms(5)] unfolding k by (simp add: SecretNameFromKey_def Let_def)
  have g: "GetKey B d' ?k = Inr (sr_value r)" by (simp add: total_GetKey [OF assms(1)] rows)
  show ?thesis
    using assms(7-9) plain_idD(1) [OF assms(9)]
    unfolding LoadSecretForTask_def secret_scan [OF assms(1)]
    by (simp add: ks p user_level_def workflow_level_def g)
qed

text \<open>A secret put again is reported as created, and a put is reported as a replacement only when creating it fails.\<close>

lemma put_again_created:
  assumes "CreateSecret B u r d = (d', Inr True)" "sr_value r \<noteq> []"
  shows "snd (PutSecret B u r d) = PutCreated"
  using assms by (simp add: PutSecret_def)

text \<open>Secrets of an organisation are stored and never listed.\<close>

lemma org_secret_not_listed:
  assumes "CHR '':'' \<notin> set org" "org \<noteq> []" "org \<noteq> ''_''"
  shows "\<not> prefix (SecretStoragePrefix v) (secret_key u n org [])"
  using assms by (auto simp: secret_key_def SecretStorageKey_def SecretStorageKeyForOrg_def SecretStoragePrefix_def key_simps)

end
