(* ===== verification/Spec2Isabelle.thy ===== *)
theory Spec2Isabelle
  imports Queue FeeLedger BudgetMerge Retry Grants Schedules BudgetActivation OperatorsInv DurableInv EngineFindings SecretsInv
begin

text \<open>
  Ava Protocol's EigenLayer AVS runs users' automation workflows. An aggregator (the gateway) stores workflows,
  sends their triggers to operators, queues an execution when a trigger fires, and executes the graph of the
  workflow; on-chain steps are ERC-4337 operations of the owner's Modular Account v2 wallet, signed by the
  gateway's session key under a session grant the owner signed. This development models the parts that decide
  who may spend what and what is stored, in the order in which they build on each other.

  \<^item> \<open>Prelude\<close>: Go's types (bytes, words, addresses), results with errors, decimal and big-endian printing,
    the order of byte strings.
  \<^item> \<open>Storage\<close> (\<open>storage/db.go\<close>): the methods of \<open>BadgerStorage\<close> over BadgerDB, a parameter with its documented
    laws (\<open>badger_ok\<close>). The locale \<open>storage\<close> is the contract the clients use; \<open>badger_storage\<close> proves it for
    every lawful BadgerDB and \<open>mem\<close> interprets it on an in-memory one.
  \<^item> \<open>Workflow\<close> (\<open>model/workflow.go\<close>) and \<open>Keys\<close> (\<open>storage/schema\<close>, \<open>core/taskengine/schema.go\<close>,
    \<open>chain_scoped_keys.go\<close>): the workflow record, its window, and the key layout. Parsers invert printers, and a
    prefix scan sees the rows of one owner on one chain.
  \<^item> \<open>Queue\<close> (\<open>core/apqueue\<close>): the persistent job queue with its worker, deferral and cleanup, as a step relation
    \<open>queue_step\<close> whose invariants are proved by rule induction; it refines the life cycle of a job. A cleanup is a step as
    a whole and also row by row, with workers in between.
  \<^item> \<open>FeeLedger\<close> (\<open>fee_ledger.go\<close>): the balance of an owner refines the sum of the distinct fees charged.
  \<^item> \<open>SessionPolicy\<close> (\<open>model/session_policy.go\<close>), \<open>Selectors\<close> (\<open>session_grant_coverage.go\<close> and the selector
    helpers), \<open>Permissions\<close> (\<open>session_permissions.go\<close>, \<open>ma_v2_hooks.go\<close>, the native-recipient check): the
    grant record, and that accepted permissions translate to hooks that meter every capped token and name every
    recipient.
  \<^item> \<open>Budget\<close> (\<open>wallet_budget.go\<close>, \<open>budget_policy.go\<close>) and \<open>BudgetMerge\<close> (\<open>budget_merge.go\<close>): reading a wallet
    budget from the chain, and merging an owner's change with what is left of it: what was used stays used, only
    what the owner removes is lost, and the order of Go's map iteration does not matter.
  \<^item> \<open>Retry\<close> (\<open>limits.go\<close>, \<open>retry.go\<close>, the dispatch of \<open>executeNode\<close> and of loop iterations in \<open>vm.go\<close>): the ceilings on
    a workflow and the retries of its nodes, bounded in number and in delay. Four kinds of nodes are retried, a loop in each
    of its iterations; a write is attempted once.
  \<^item> \<open>UserOp\<close> (\<open>pkg/erc4337/userop\<close>) and \<open>Calldata\<close> (\<open>core/chainio/aa\<close>): packing and hashing an operation, the
    nonce that selects the validation entity, the digest the owner signs, and the install and teardown calls of a
    session signer. keccak and go-ethereum's ABI codec are parameters.
  \<^item> \<open>Authority\<close> (\<open>session_policy.go\<close>, \<open>session_grant.go\<close>, \<open>session_entity_retired.go\<close>,
    \<open>session_policy_cleanup.go\<close> and the policy handlers of \<open>engine_session_policy.go\<close>): the store of session
    grants on top of \<open>Storage\<close>, \<open>Keys\<close>, \<open>SessionPolicy\<close>, \<open>UserOp\<close> and \<open>Calldata\<close>. \<open>AuthorityInv\<close> shows that every
    operation is a sequence of elementary steps (a grant evolves in place without gaining authority, or one signed
    grant is inserted). \<open>GrantSteps\<close> is the machine \<open>auth_step\<close>, whose labels tell apart the operations on grants, submits
    under a stored id and the writes of the budget journal; \<open>grant_step\<close> leaves the last out, and \<open>grant_step_beside\<close> also
    the submits under a given id. \<open>Grants\<close> holds the properties.
  \<^item> \<open>BudgetReview\<close> and \<open>BudgetChange\<close> (\<open>budget_change.go\<close>, \<open>budget_change_reconcile.go\<close>, \<open>budget_change_chain.go\<close>,
    \<open>budget_session_guard.go\<close>, \<open>budget_preparation_calls.go\<close>, the checks of \<open>budget_preparation.go\<close> and
    \<open>preset/owner_v07.go\<close>): the journal of owner-signed budget changes on top of \<open>Authority\<close>. A submission writes a hold
    on the wallet before it relays; a hold ends when the chain shows its nonce consumed, and a change becomes authority
    when its own operation was included. The chain and the bundler are the parameter \<open>budget_backend\<close>.
    \<open>BudgetChangeInv\<close> shows what each handler does to the holds, \<open>BudgetJournal\<close> is the machine \<open>journal_step\<close> with
    relays, restarts and leases, \<open>BudgetActivation\<close> is about the policies, the submissions and the settled session
    operations, and \<open>BudgetSample\<close> holds the concrete run of the witnesses.
  \<^item> \<open>Scheduler\<close> (\<open>Compile\<close>, \<open>Run\<close> and \<open>runKahnScheduler\<close> of \<open>core/taskengine/vm.go\<close>): compiling the graph of a
    workflow and running it with up to sixteen workers, as the step relation \<open>kahn_step\<close> over the lists of ready,
    executing and finished nodes. \<open>SchedulerInv\<close> holds its invariant, \<open>Schedules\<close> its properties: a node runs once,
    after its predecessors, the workers end, nothing runnable is left out, a resumed run does not repeat its prefix.
  \<^item> \<open>Wake\<close> (\<open>durable.go\<close>, \<open>vm_runner_await.go\<close>, the names in \<open>internal_trigger.go\<close>): suspension, signals, the
    checkpoint of the variables and the registry of pending waits; \<open>WakeInv\<close> shows what a checkpoint carries over. The
    JSON encoding of the variables is the parameter \<open>vars_codec\<close>, which may change a value (\<open>asDecoded\<close>) or fail.
  \<^item> \<open>Execution\<close> (\<open>executor.go\<close>, \<open>execution_index.go\<close>, the verdict on a run in \<open>vm.go\<close>): what a run writes when it ends,
    fails its gates, suspends, resumes or expires. What the nodes did is an argument (\<open>leg\<close>, and \<open>resume_vm\<close>, which is
    given the variables, the completed nodes and the steps of the resumed run): which nodes run, once and in which order, is
    the subject of \<open>Schedules\<close>.
  \<^item> \<open>Operators\<close> (the operator side of \<open>engine.go\<close>, \<open>config/helpers.go\<close>): connections, coverage of chains, assignment,
    streaming and notifications; \<open>OperatorsInv\<close> holds their properties.
  \<^item> \<open>Engine\<close> and \<open>Dispatch\<close> (\<open>engine.go\<close>, \<open>internal_trigger.go\<close>, \<open>Perform\<close> of \<open>executor.go\<close>): the record \<open>engine\<close>
    (queue with its store, workflows in memory, operators, recent trigger ids) and its handlers, on top of \<open>Queue\<close>,
    \<open>Execution\<close>, \<open>Operators\<close> and \<open>Retry\<close>. \<open>EngineStore\<close> says what they do to the rows, \<open>EngineLife\<close> holds the abstract
    life of a workflow (\<open>life_change\<close>), \<open>EngineHandlers\<close> and \<open>EngineStart\<close> prove handler by handler that only those
    changes happen, \<open>EngineSteps\<close> is the machine \<open>engine_step\<close>, labelled by the handler (\<open>event\<close>), with the refinement,
    through the locale \<open>simulation\<close>, for the steps that are \<open>regular\<close>: fresh ids at creation, and no disabling by a stale
    copy in memory.
    \<open>EngineSafety\<close>, \<open>EngineCleanup\<close> and \<open>DurableInv\<close> hold what is promised to users: ownership, suppression of
    duplicates, signals, deletion and resumption; \<open>EngineFindings\<close> proves behaviours that comments or plans of the
    repository rule out. \<open>Codec\<close> has codecs for the stored records, for the witnesses.
  \<^item> \<open>Listing\<close> (\<open>cursor.go\<close>, \<open>pagination.go\<close> and the listings, counts and statistics of \<open>engine.go\<close>): paged reads. The
    locales \<open>forward_listing\<close> and \<open>paged_listing\<close> of \<open>ListingInv\<close> are the contract of a listing, from which following
    the cursors is proved once; the listings of executions and of workflows interpret it. \<open>ListingPages\<close> says which
    rows of the store a client sees.
  \<^item> \<open>Secrets\<close> (\<open>secret.go\<close>, the secret handlers of \<open>engine.go\<close>, \<open>PutSecret\<close> of \<open>handlers_secrets.go\<close>): storing and
    listing secrets and what a run sees of them; \<open>SecretsInv\<close> has the stores that requests with plain names reach
    (\<open>secret_step\<close>), the levels of secrets, their isolation between users and its limit, and the listing as an interpretation of \<open>forward_listing\<close>.

  State is passed explicitly; a handler that fails in the middle returns the database it left behind. The wall
  clock, the reads of the chain, JSON, UTF-8 and the outcome of a lock or a context are arguments, and a property
  that needs a law of one of them has it as a hypothesis with a witness. Loops are structural recursions, so every
  function of the model is total: the occupancy walk counts down from 256 candidates, the recovery of a historical
  install from a nesting depth of 5, and the retry loop from the attempts the policy allows; these are the bounds
  of the code itself. A failed transaction of the storage leaves the database as it was: the code is more careful at one
  place, the marker of a budget submission (\<open>write_marker\<close>), where it reports a failed write as one that may have landed;
  the model reports it in the same way but keeps the old store.

  Not modelled: what a node does when it executes (the rest of \<open>vm.go\<close>, \<open>vm_runner_*.go\<close>, \<open>run_node_immediately.go\<close>),
  which interprets JavaScript, GraphQL and HTTP through third-party engines; of \<open>engine.go\<close> wallets and
  simulation, and the verdicts of some checks of \<open>CreateWorkflow\<close>, which are arguments; of
  \<open>executor.go\<close> the gates on prices, wallets and credit (an argument), fees, costs and summaries; two handlers running
  at once on one workflow, each between the other's reads and writes (a handler is one step of \<open>engine_step\<close>); the
  subscriptions of \<open>trigger\<close>, the REST and gRPC servers of the aggregator beyond \<open>PutSecret\<close>, the operator and the worker, which are I/O
  around the modelled state; the derivation of a grant from a workflow (\<open>session_skill.go\<close>
  beyond the helpers the merge calls); of the budget change journal the preparation of a review, the comparison of
  a review with a new derivation (\<open>rederive\<close>, a parameter) and the on-chain inventory behind \<open>CheckAuthorities\<close>; the
  bundler client (\<open>pkg/erc4337/preset\<close>), chain reads, configuration, metrics, migrations, and generated code
  (protobuf, OpenAPI, contract bindings).
\<close>

end
